(* ===== verification/Prelude.thy ===== *)
theory Prelude
  imports Complex_Main "HOL-Library.AList" "HOL-Library.Product_Lexorder" "HOL-Library.Multiset"
begin

section \<open>Shared vocabulary of the development\<close>

text \<open>
  What every component uses: Python numbers (floats with their non-finite values, \<open>round\<close>), Python
  dictionaries in insertion order, dynamic values as they arrive on the wire, call outcomes, the
  invariant-preservation locale every state machine of the development is an instance of, and the
  generic lemmas on lists and association lists that the component proofs share.

  A Python float is a \<open>pyfloat\<close>: an exact rational or one of the three non-finite IEEE values.
  The rounding of IEEE arithmetic is not modelled; comparisons follow IEEE (every comparison with a
  NaN is false). Times that are only ever read from a clock are plain rationals.
\<close>

named_theorems dict_simps \<open>lookup and key facts of insertion-ordered dictionaries\<close>

subsection \<open>Floats\<close>

datatype pyfloat = Fin rat | NInf | PInf | NaN

text \<open>A total order for sorting; Python's comparisons are \<open>flt\<close> and \<open>fle\<close> below.\<close>

fun fkey :: "pyfloat \<Rightarrow> nat \<times> rat" where
  "fkey NInf = (0, 0)"
| "fkey (Fin r) = (1, r)"
| "fkey PInf = (2, 0)"
| "fkey NaN = (3, 0)"

lemma fkey_inject [simp]: "fkey a = fkey b \<longleftrightarrow> a = b"
  by (cases a; cases b) auto

instantiation pyfloat :: linorder
begin

definition less_eq_pyfloat :: "pyfloat \<Rightarrow> pyfloat \<Rightarrow> bool" where
  "less_eq_pyfloat a b \<longleftrightarrow> fkey a \<le> fkey b"

definition less_pyfloat :: "pyfloat \<Rightarrow> pyfloat \<Rightarrow> bool" where
  "less_pyfloat a b \<longleftrightarrow> fkey a < fkey b"

instance
proof
  fix x y z :: pyfloat
  show "(x < y) = (x \<le> y \<and> \<not> y \<le> x)"
    by (simp add: less_eq_pyfloat_def less_pyfloat_def less_le_not_le)
  show "x \<le> x"
    by (simp add: less_eq_pyfloat_def)
  show "x \<le> y \<Longrightarrow> y \<le> z \<Longrightarrow> x \<le> z"
    unfolding less_eq_pyfloat_def by (rule order_trans)
  show "x \<le> y \<Longrightarrow> y \<le> x \<Longrightarrow> x = y"
    by (simp add: less_eq_pyfloat_def order_antisym_conv)
  show "x \<le> y \<or> y \<le> x"
    unfolding less_eq_pyfloat_def by (rule linear)
qed

end

lemma Fin_less [simp]: "Fin a < Fin b \<longleftrightarrow> a < b"
  by (simp add: less_pyfloat_def)

lemma Fin_le [simp]: "Fin a \<le> Fin b \<longleftrightarrow> a \<le> b"
  by (simp add: less_eq_pyfloat_def)

definition flt :: "pyfloat \<Rightarrow> pyfloat \<Rightarrow> bool" where
  "flt a b \<longleftrightarrow> a \<noteq> NaN \<and> b \<noteq> NaN \<and> a < b"

definition fle :: "pyfloat \<Rightarrow> pyfloat \<Rightarrow> bool" where
  "fle a b \<longleftrightarrow> a \<noteq> NaN \<and> b \<noteq> NaN \<and> a \<le> b"

fun isfinite :: "pyfloat \<Rightarrow> bool" where
  "isfinite (Fin _) = True"
| "isfinite _ = False"

fun fadd :: "pyfloat \<Rightarrow> pyfloat \<Rightarrow> pyfloat" where
  "fadd (Fin a) (Fin b) = Fin (a + b)"
| "fadd NaN _ = NaN"
| "fadd _ NaN = NaN"
| "fadd PInf NInf = NaN"
| "fadd NInf PInf = NaN"
| "fadd PInf _ = PInf"
| "fadd _ PInf = PInf"
| "fadd NInf _ = NInf"
| "fadd _ NInf = NInf"

fun fneg :: "pyfloat \<Rightarrow> pyfloat" where
  "fneg (Fin a) = Fin (- a)"
| "fneg PInf = NInf"
| "fneg NInf = PInf"
| "fneg NaN = NaN"

definition fsub :: "pyfloat \<Rightarrow> pyfloat \<Rightarrow> pyfloat" where
  "fsub a b = fadd a (fneg b)"

text \<open>The sign of a float that is not a NaN, for the products and quotients with an infinity.\<close>

fun fsgn :: "pyfloat \<Rightarrow> int" where
  "fsgn (Fin a) = (if a < 0 then - 1 else if a = 0 then 0 else 1)"
| "fsgn PInf = 1"
| "fsgn NInf = - 1"
| "fsgn NaN = 0"

definition finf :: "int \<Rightarrow> pyfloat" where
  "finf s = (if s = 0 then NaN else if 0 < s then PInf else NInf)"

fun fmul :: "pyfloat \<Rightarrow> pyfloat \<Rightarrow> pyfloat" where
  "fmul (Fin a) (Fin b) = Fin (a * b)"
| "fmul NaN _ = NaN"
| "fmul _ NaN = NaN"
| "fmul a b = finf (fsgn a * fsgn b)"

text \<open>Division by something that is not a zero (the program tests for it first).\<close>

fun fdiv :: "pyfloat \<Rightarrow> pyfloat \<Rightarrow> pyfloat" where
  "fdiv (Fin a) (Fin b) = Fin (a / b)"
| "fdiv NaN _ = NaN"
| "fdiv _ NaN = NaN"
| "fdiv (Fin _) _ = Fin 0"
| "fdiv a (Fin b) = finf (fsgn a * (if b < 0 then - 1 else 1))"
| "fdiv _ _ = NaN"

text \<open>Python's \<open>max(a, b)\<close> and \<open>min(a, b)\<close>: the first argument unless the second is strictly better.\<close>

definition fmax :: "pyfloat \<Rightarrow> pyfloat \<Rightarrow> pyfloat" where
  "fmax a b = (if b \<noteq> NaN \<and> a \<noteq> NaN \<and> a < b then b else a)"

definition fmin :: "pyfloat \<Rightarrow> pyfloat \<Rightarrow> pyfloat" where
  "fmin a b = (if b \<noteq> NaN \<and> a \<noteq> NaN \<and> b < a then b else a)"

fun fabs :: "pyfloat \<Rightarrow> pyfloat" where
  "fabs (Fin a) = Fin \<bar>a\<bar>"
| "fabs NInf = PInf"
| "fabs x = x"

lemma fmax_Fin [simp]: "fmax (Fin a) (Fin b) = Fin (max a b)"
  by (simp add: fmax_def max_def)

lemma fmin_Fin [simp]: "fmin (Fin a) (Fin b) = Fin (min a b)"
  by (simp add: fmin_def min_def)

lemma flt_Fin [simp]: "flt (Fin a) (Fin b) \<longleftrightarrow> a < b"
  by (simp add: flt_def)

lemma fle_Fin [simp]: "fle (Fin a) (Fin b) \<longleftrightarrow> a \<le> b"
  by (simp add: fle_def)

lemma flt_NaN [simp]: "\<not> flt NaN x" "\<not> flt x NaN"
  by (simp_all add: flt_def)

lemma fle_NaN [simp]: "\<not> fle NaN x" "\<not> fle x NaN"
  by (simp_all add: fle_def)

lemma fle_total: "a \<noteq> NaN \<Longrightarrow> b \<noteq> NaN \<Longrightarrow> fle a b \<or> flt b a"
  by (auto simp: fle_def flt_def)

lemma fle_not_flt: "fle a b \<Longrightarrow> \<not> flt b a"
  by (auto simp: fle_def flt_def)

lemma fsub_Fin [simp]: "fsub (Fin a) (Fin b) = Fin (a - b)"
  by (simp add: fsub_def)

text \<open>Python's \<open>round\<close> of a finite float to an int: to the nearest, ties to the even one.\<close>

definition py_round :: "rat \<Rightarrow> int" where
  "py_round x =
     (let f = \<lfloor>x\<rfloor>; d = x - of_int f
      in if d < 1 / 2 then f else if 1 / 2 < d then f + 1 else if even f then f else f + 1)"

lemma py_round_bounds: "of_int (py_round x) \<le> x + 1 / 2" "x - 1 / 2 \<le> of_int (py_round x)"
  by (auto simp: py_round_def Let_def) linarith+

lemma py_round_of_int [simp]: "py_round (of_int n) = n"
  by (simp add: py_round_def)

lemma py_round_ge: "of_int m \<le> x \<Longrightarrow> m \<le> py_round x"
  by (simp add: py_round_def Let_def) linarith

lemma py_round_le: "x \<le> of_int m \<Longrightarrow> py_round x \<le> m"
proof -
  assume x: "x \<le> of_int m"
  show ?thesis
  proof (cases "\<lfloor>x\<rfloor> = m")
    case True
    with x have "x = of_int m" by linarith
    then show ?thesis by simp
  next
    case False
    with x have "\<lfloor>x\<rfloor> + 1 \<le> m" by linarith
    then show ?thesis by (simp add: py_round_def Let_def)
  qed
qed


text \<open>\<open>int(round(x))\<close> of a float: raises on a non-finite one.\<close>

fun round_float :: "pyfloat \<Rightarrow> int option" where
  "round_float (Fin r) = Some (py_round r)"
| "round_float _ = None"

text \<open>Python's \<open>%\<close> on finite floats with a nonzero divisor: the result has the divisor's sign.\<close>

definition py_mod :: "rat \<Rightarrow> rat \<Rightarrow> rat" where
  "py_mod a b = a - b * of_int \<lfloor>a / b\<rfloor>"

lemma py_mod_bounds:
  assumes "0 < b"
  shows "0 \<le> py_mod a b" and "py_mod a b < b"
proof -
  have "of_int \<lfloor>a / b\<rfloor> \<le> a / b" and "a / b < of_int \<lfloor>a / b\<rfloor> + 1"
    by linarith+
  with assms have "of_int \<lfloor>a / b\<rfloor> * b \<le> a" and "a < (of_int \<lfloor>a / b\<rfloor> + 1) * b"
    by (simp_all only: pos_le_divide_eq pos_divide_less_eq)
  then show "0 \<le> py_mod a b" and "py_mod a b < b"
    by (simp_all add: py_mod_def algebra_simps)
qed

subsection \<open>Dictionaries\<close>

text \<open>
  A Python \<open>dict\<close> iterates in insertion order, and several results of the program depend on that
  order (who is granted first, which role a node offers first). A dictionary is an association list
  with distinct keys: storing at a known key replaces the value in place, at a new key appends.
\<close>

type_synonym ('k, 'v) dict = "('k \<times> 'v) list"

abbreviation dget :: "('k, 'v) dict \<Rightarrow> 'k \<Rightarrow> 'v option" where
  "dget \<equiv> map_of"

abbreviation dset :: "'k \<Rightarrow> 'v \<Rightarrow> ('k, 'v) dict \<Rightarrow> ('k, 'v) dict" where
  "dset \<equiv> AList.update"

abbreviation dpop :: "'k \<Rightarrow> ('k, 'v) dict \<Rightarrow> ('k, 'v) dict" where
  "dpop \<equiv> AList.delete"

abbreviation dkeys :: "('k, 'v) dict \<Rightarrow> 'k list" where
  "dkeys \<equiv> map fst"

abbreviation dict_ok :: "('k, 'v) dict \<Rightarrow> bool" where
  "dict_ok d \<equiv> distinct (dkeys d)"

definition dmem :: "'k \<Rightarrow> ('k, 'v) dict \<Rightarrow> bool" where
  "dmem k d \<longleftrightarrow> k \<in> set (dkeys d)"

text \<open>\<open>d.setdefault(k, v)\<close>\<close>

definition dsetdefault :: "'k \<Rightarrow> 'v \<Rightarrow> ('k, 'v) dict \<Rightarrow> ('k, 'v) dict" where
  "dsetdefault k v d = (if dmem k d then d else d @ [(k, v)])"

text \<open>Looking a key up is the notion the proofs work with, not membership of the pair.\<close>

declare map_of_eq_Some_iff [simp del]

lemma dmem_iff_get [dict_simps]: "dmem k d \<longleftrightarrow> dget d k \<noteq> None"
  by (simp add: dmem_def map_of_eq_None_iff)

lemma dmem_get_Some: "dget d k = Some v \<Longrightarrow> dmem k d"
  by (simp add: dmem_iff_get)

lemma dget_None_iff: "dget d k = None \<longleftrightarrow> \<not> dmem k d"
  by (simp add: dmem_iff_get)

lemma dget_dset [simp, dict_simps]: "dget (dset k v d) k' = (if k' = k then Some v else dget d k')"
  by (simp add: update_conv')

lemma dget_dpop [simp, dict_simps]: "dget (dpop k d) k' = (if k' = k then None else dget d k')"
  by (simp add: delete_conv')

lemma dkeys_dset [dict_simps]: "dkeys (dset k v d) = (if dmem k d then dkeys d else dkeys d @ [k])"
  by (simp add: dmem_def update_keys)

lemma dkeys_dpop [dict_simps]: "dkeys (dpop k d) = filter (\<lambda>k'. k' \<noteq> k) (dkeys d)"
  by (induction d) (auto simp: AList.delete_eq)

lemma dict_ok_dset [simp, intro]: "dict_ok d \<Longrightarrow> dict_ok (dset k v d)"
  by (rule distinct_update)

lemma dict_ok_dpop [simp, intro]: "dict_ok d \<Longrightarrow> dict_ok (dpop k d)"
  by (rule distinct_delete)

lemma dmem_dset [simp, dict_simps]: "dmem k' (dset k v d) \<longleftrightarrow> k' = k \<or> dmem k' d"
  by (auto simp: dmem_iff_get)

lemma dmem_dpop [simp, dict_simps]: "dmem k' (dpop k d) \<longleftrightarrow> k' \<noteq> k \<and> dmem k' d"
  by (auto simp: dmem_iff_get)

lemma dget_dsetdefault [simp, dict_simps]:
  "dget (dsetdefault k v d) k' = (case dget d k' of Some w \<Rightarrow> Some w | None \<Rightarrow> if k' = k then Some v else None)"
  by (auto simp: dsetdefault_def dmem_iff_get map_add_def split: option.splits)

lemma dict_ok_dsetdefault [simp, intro]: "dict_ok d \<Longrightarrow> dict_ok (dsetdefault k v d)"
  by (auto simp: dsetdefault_def dmem_def)

lemma length_dset: "length (dset k v d) = (if dmem k d then length d else Suc (length d))"
  using arg_cong [OF dkeys_dset [of k v d], of length] by (simp split: if_splits)

lemma dpop_absent [simp]: "\<not> dmem k d \<Longrightarrow> dpop k d = d"
  by (induction d) (auto simp: dmem_def AList.delete_eq)

lemma length_dpop:
  assumes "dict_ok d" and "dmem k d"
  shows "Suc (length (dpop k d)) = length d"
  using assms
proof (induction d)
  case (Cons x d)
  show ?case
  proof (cases "fst x = k")
    case True
    with Cons.prems have "\<not> dmem k d" by (auto simp: dmem_def)
    with True show ?thesis by (cases x) simp
  next
    case False
    with Cons show ?thesis by (cases x) (auto simp: dmem_def)
  qed
qed (simp add: dmem_def)

text \<open>How many entries of a dictionary satisfy a predicate on the value.\<close>

definition dcount :: "('v \<Rightarrow> bool) \<Rightarrow> ('k, 'v) dict \<Rightarrow> nat" where
  "dcount P d = length (filter (\<lambda>(k, v). P v) d)"

lemma dcount_Nil [simp]: "dcount P [] = 0"
  by (simp add: dcount_def)

lemma dcount_Cons [simp]: "dcount P (x # d) = (if P (snd x) then 1 else 0) + dcount P d"
  by (cases x) (simp add: dcount_def)

lemma dcount_append [simp]: "dcount P (a @ b) = dcount P a + dcount P b"
  by (simp add: dcount_def)

lemma dcount_dset_new: "\<not> dmem k d \<Longrightarrow> dcount P (dset k v d) = dcount P d + (if P v then 1 else 0)"
  by (induction d) (auto simp: dmem_def)

lemma dcount_dpop:
  "dict_ok d \<Longrightarrow> dget d k = Some v \<Longrightarrow> dcount P d = dcount P (dpop k d) + (if P v then 1 else 0)"
proof (induction d)
  case (Cons x d)
  show ?case
  proof (cases "fst x = k")
    case True
    with Cons.prems have "\<not> dmem k d" by (auto simp: dmem_def)
    with True Cons.prems show ?thesis by (cases x) simp
  next
    case False
    with Cons show ?thesis by (cases x) (auto split: if_splits)
  qed
qed simp

lemma dcount_le_length: "dcount P d \<le> length d"
  by (simp add: dcount_def)

subsection \<open>Values off the wire, outcomes of calls\<close>

text \<open>
  A decoded JSON value or gesture argument. Python tuples and lists are both \<open>VList\<close>; strings are
  lists of 8-bit characters, so a code point above 255 has no counterpart.
\<close>

datatype pyval =
    VNone
  | VBool bool
  | VInt int
  | VFloat pyfloat
  | VStr string
  | VList "pyval list"
  | VDict "(string \<times> pyval) list"

text \<open>\<open>isinstance(x, (int, float)) and not isinstance(x, bool)\<close>, read as a float.\<close>

fun as_number :: "pyval \<Rightarrow> pyfloat option" where
  "as_number (VInt i) = Some (Fin (of_int i))"
| "as_number (VFloat f) = Some f"
| "as_number _ = None"

text \<open>
  Python's \<open>int(x)\<close> of a dynamic value: the integer, a \<open>TypeError\<close> or \<open>ValueError\<close> (which callers
  catch), or the \<open>OverflowError\<close> of an infinity (which they do not). A string is read as
  \<open>int\<close> reads it: blanks around, a sign, digits with single underscores between them.
\<close>

datatype int_read = IntOk int | IntRefused | IntOverflow

definition is_digit :: "char \<Rightarrow> bool" where
  "is_digit c \<longleftrightarrow> (let n = (of_char c :: nat) in 48 \<le> n \<and> n \<le> 57)"

definition is_blank :: "char \<Rightarrow> bool" where
  "is_blank c \<longleftrightarrow>
     (let n = (of_char c :: nat) in (9 \<le> n \<and> n \<le> 13) \<or> (28 \<le> n \<and> n \<le> 32) \<or> n = 133 \<or> n = 160)"

definition strip_blanks :: "string \<Rightarrow> string" where
  "strip_blanks s = rev (dropWhile is_blank (rev (dropWhile is_blank s)))"

fun digits_value :: "bool \<Rightarrow> int \<Rightarrow> string \<Rightarrow> int option" where
  "digits_value after_digit acc [] = (if after_digit then Some acc else None)"
| "digits_value after_digit acc (c # cs) =
     (if is_digit c then digits_value True (10 * acc + int (of_char c) - 48) cs
      else if c = CHR ''_'' \<and> after_digit then digits_value False acc cs
      else None)"

fun int_of_string :: "string \<Rightarrow> int option" where
  "int_of_string (c # cs) =
     (if c = CHR ''-'' then map_option uminus (digits_value False 0 cs)
      else if c = CHR ''+'' then digits_value False 0 cs
      else digits_value False 0 (c # cs))"
| "int_of_string [] = None"

fun int_of_arg :: "pyval \<Rightarrow> int_read" where
  "int_of_arg (VInt i) = IntOk i"
| "int_of_arg (VBool b) = IntOk (if b then 1 else 0)"
| "int_of_arg (VFloat (Fin r)) = IntOk (if 0 \<le> r then \<lfloor>r\<rfloor> else \<lceil>r\<rceil>)"
| "int_of_arg (VFloat NaN) = IntRefused"
| "int_of_arg (VFloat _) = IntOverflow"
| "int_of_arg (VStr s) = (case int_of_string (strip_blanks s) of Some n \<Rightarrow> IntOk n | None \<Rightarrow> IntRefused)"
| "int_of_arg _ = IntRefused"

text \<open>Python's \<open>xs[i]\<close> and \<open>xs[i] = v\<close>: a negative index counts from the end, outside it raises.\<close>

definition py_index :: "'a list \<Rightarrow> int \<Rightarrow> nat option" where
  "py_index xs i =
     (let n = int (length xs); j = (if i < 0 then n + i else i)
      in if 0 \<le> j \<and> j < n then Some (nat j) else None)"

text \<open>A \<open>deque(maxlen=n)\<close>: an append drops from the left what does not fit.\<close>

definition bounded_append :: "nat \<Rightarrow> 'a \<Rightarrow> 'a list \<Rightarrow> 'a list" where
  "bounded_append n x xs = (let ys = xs @ [x] in drop (length ys - n) ys)"

text \<open>A call into code that may raise: a value, or the exception.\<close>

datatype 'a outcome = Ret 'a | Raised

text \<open>
  A validator raises at the first test that fails. \<open>refuse c e\<close> is \<open>if c: raise e\<close>, and
  \<open>first_error\<close> is a sequence of tests.
\<close>

definition refuse :: "bool \<Rightarrow> 'e \<Rightarrow> 'e option" where
  "refuse c e = (if c then Some e else None)"

fun first_error :: "'e option list \<Rightarrow> 'e option" where
  "first_error [] = None"
| "first_error (Some e # _) = Some e"
| "first_error (None # rest) = first_error rest"

lemma refuse_None [simp]: "refuse c e = None \<longleftrightarrow> \<not> c"
  by (simp add: refuse_def)

lemma first_error_None [simp]: "first_error cs = None \<longleftrightarrow> (\<forall>c \<in> set cs. c = None)"
  by (induction cs rule: first_error.induct) auto

text \<open>The regular expression \<open>[A-Za-z0-9_-]+\<close>, anchored at both ends.\<close>

definition name_char :: "char \<Rightarrow> bool" where
  "name_char c \<longleftrightarrow>
     (let n = (of_char c :: nat)
      in (48 \<le> n \<and> n \<le> 57) \<or> (65 \<le> n \<and> n \<le> 90) \<or> (97 \<le> n \<and> n \<le> 122) \<or> n = 95 \<or> n = 45)"

definition name_ok :: "string \<Rightarrow> bool" where
  "name_ok s \<longleftrightarrow> s \<noteq> [] \<and> list_all name_char s"

fun starts_with :: "string \<Rightarrow> string \<Rightarrow> bool" where
  "starts_with [] _ = True"
| "starts_with (_ # _) [] = False"
| "starts_with (p # ps) (c # cs) \<longleftrightarrow> p = c \<and> starts_with ps cs"

lemma starts_with_iff: "starts_with p s \<longleftrightarrow> (\<exists>r. s = p @ r)"
  by (induction p s rule: starts_with.induct) auto

lemma starts_with_append [simp]: "starts_with p (p @ s)"
  by (auto simp: starts_with_iff)

subsection \<open>Machines and their invariants\<close>

text \<open>
  A component is driven by a stream of calls. Whoever states an invariant of it proves that one call
  keeps it; that every run keeps it is proved here once.
\<close>

locale machine =
  fixes step :: "'s \<Rightarrow> 'e \<Rightarrow> 's"
    and inv :: "'s \<Rightarrow> bool"
  assumes inv_step: "inv s \<Longrightarrow> inv (step s e)"
begin

lemma inv_run: "inv s \<Longrightarrow> inv (foldl step s es)"
  by (induction es arbitrary: s) (auto intro: inv_step)

end

text \<open>A machine that also accounts for what went in and what came out.\<close>

locale accounting_machine = machine step inv
  for step :: "'s \<Rightarrow> 'e \<Rightarrow> 's" and inv :: "'s \<Rightarrow> bool" +
  fixes held :: "'s \<Rightarrow> 'a multiset"
    and taken :: "'e \<Rightarrow> 'a multiset"
    and given :: "'s \<Rightarrow> 'e \<Rightarrow> 'a multiset"
  assumes balance: "inv s \<Longrightarrow> held (step s e) + given s e = held s + taken e"
begin

fun given_run :: "'s \<Rightarrow> 'e list \<Rightarrow> 'a multiset" where
  "given_run s [] = {#}"
| "given_run s (e # es) = given s e + given_run (step s e) es"

lemma balance_run:
  "inv s \<Longrightarrow> held (foldl step s es) + given_run s es = held s + sum_list (map taken es)"
proof (induction es arbitrary: s)
  case (Cons e es)
  have "held (foldl step (step s e) es) + given_run (step s e) es
      = held (step s e) + sum_list (map taken es)"
    by (rule Cons.IH [OF inv_step [OF Cons.prems]])
  then show ?case
    using balance [OF Cons.prems, of e] by (simp add: add.left_commute add.commute [of "given s e"])
      (metis add.assoc add.commute)
qed simp

end

end
