(* ===== verification/Cues.thy ===== *)
theory Cues
  imports Prelude
begin

section \<open>Cues: what a Bit asks the Terrarium to present\<close>

text \<open>
  The cue types of \<open>src/control/cues.py\<close>, their sentinel device ids, and the two functions that
  build and parse the \<open>@fixture:\<close> sentinel. A plain 4-tuple is \<open>Midi\<close>; an object that is none of
  the cue types and not a 4-tuple (whose unpacking raises) is \<open>BadCue\<close>. The device id of a cue is
  an ordinary string, so a sentinel is just a string nothing else may use.
\<close>

type_synonym dev = string

definition ROOM :: dev where "ROOM = ''@room''"
definition ALL_DEVS :: dev where "ALL_DEVS = ''@all''"
definition TARGET :: dev where "TARGET = ''@target''"
definition FIXTURE_PREFIX :: string where "FIXTURE_PREFIX = ''@fixture:''"

datatype cue =
    Midi dev int int int
  | LightCue dev int int int "pyfloat option"
  | MusicCue dev int int int "pyfloat option" "string option"
  | MusicPurge dev string
  | PlayCue dev string string
  | SolidCue dev "int list" pyfloat "pyfloat option" "pyfloat option"
  | PixelFlashCue dev int "int list" pyfloat "pyfloat option"
  | MuteCue dev
  | FireFunction string "dev option" "pyfloat option"
  | BadCue

text \<open>\<open>fixture_dev\<close> raises on a name the sentinel grammar does not allow: \<open>None\<close>.\<close>

definition fixture_dev :: "string \<Rightarrow> dev option" where
  "fixture_dev name = (if name_ok name then Some (FIXTURE_PREFIX @ name) else None)"

definition fixture_name :: "dev \<Rightarrow> string option" where
  "fixture_name dev =
     (if \<not> starts_with FIXTURE_PREFIX dev then None
      else let name = drop (length FIXTURE_PREFIX) dev
           in if name_ok name then Some name else None)"

lemma fixture_name_prefix [simp]:
  "fixture_name (FIXTURE_PREFIX @ name) = (if name_ok name then Some name else None)"
  by (simp add: fixture_name_def)

lemma fixture_name_SomeD: "fixture_name d = Some n \<Longrightarrow> d = FIXTURE_PREFIX @ n \<and> name_ok n"
  by (auto simp: fixture_name_def starts_with_iff Let_def split: if_splits)

lemma fixture_name_Some_iff: "fixture_name d = Some n \<longleftrightarrow> fixture_dev n = Some d"
  by (auto simp: fixture_dev_def dest: fixture_name_SomeD)

lemma sentinels_are_not_fixtures [simp]:
  "fixture_name ROOM = None" "fixture_name ALL_DEVS = None" "fixture_name TARGET = None"
  by (simp_all add: fixture_name_def ROOM_def ALL_DEVS_def TARGET_def FIXTURE_PREFIX_def)

lemma sentinels_distinct [simp]:
  "ROOM \<noteq> ALL_DEVS" "ALL_DEVS \<noteq> ROOM" "ROOM \<noteq> TARGET" "TARGET \<noteq> ROOM" "ALL_DEVS \<noteq> TARGET" "TARGET \<noteq> ALL_DEVS"
  by (simp_all add: ROOM_def ALL_DEVS_def TARGET_def)

text \<open>The device a cue names; a fire may name none.\<close>

fun cue_dev :: "cue \<Rightarrow> dev option" where
  "cue_dev (Midi d _ _ _) = Some d"
| "cue_dev (LightCue d _ _ _ _) = Some d"
| "cue_dev (MusicCue d _ _ _ _ _) = Some d"
| "cue_dev (MusicPurge d _) = Some d"
| "cue_dev (PlayCue d _ _) = Some d"
| "cue_dev (SolidCue d _ _ _ _) = Some d"
| "cue_dev (PixelFlashCue d _ _ _ _) = Some d"
| "cue_dev (MuteCue d) = Some d"
| "cue_dev (FireFunction _ d _) = d"
| "cue_dev BadCue = None"

definition is_mute :: "cue \<Rightarrow> bool" where
  "is_mute c \<longleftrightarrow> (case c of MuteCue _ \<Rightarrow> True | _ \<Rightarrow> False)"

text \<open>
  \<open>cue_kind\<close> of \<open>src/control/instrument.py\<close>: the kind an instrument accepts or refuses. Whatever is
  not solid, play or mute counts as midi.
\<close>

datatype kind = KMidi | KPlay | KSolid | KMute

fun cue_kind :: "cue \<Rightarrow> kind" where
  "cue_kind (SolidCue _ _ _ _ _) = KSolid"
| "cue_kind (PlayCue _ _ _) = KPlay"
| "cue_kind (MuteCue _) = KMute"
| "cue_kind _ = KMidi"

end
