(* ===== verification/Functions.thy ===== *)
theory Functions
  imports Cues
begin

section \<open>Functions a Bit or an instrument declares\<close>

text \<open>
  \<open>src/control/functions.py\<close>: the declaration data (\<open>Function\<close>, its condition, cue script, generator
  and stream parts), the load-time validation of a table, the expansion of a script into timed cues,
  and the mapping of a gesture onto MIDI lanes. The dynamic type tests of the source
  (\<open>isinstance\<close>) hold by the types of the records; everything else a validator tests is modelled,
  in the source's order, and a refusal is a value of \<open>fn_error\<close>. A computation that can raise on an
  unvalidated declaration returns an option, \<open>None\<close> being the exception.
\<close>

datatype function_target = TRoom | TDevice | TAll | TSurface
datatype function_kind = SCRIPTED | GENERATOR | STREAM
datatype condition_source = GESTURE_VERB | BIT_ADJUDICATED | ADMIN_MANUAL

definition WAVEFORMS :: "string list" where "WAVEFORMS = [''triangle'']"
definition STREAM_MODES :: "string list" where "STREAM_MODES = [''linear'', ''abs'']"
definition RESERVED_NAMES :: "string list" where "RESERVED_NAMES = [''flash'', ''stop'', ''ping'']"

record condition_decl =
  c_name :: string
  c_description :: string
  c_source :: condition_source
  c_verb :: "string option"

record script_step =
  st_offset :: pyfloat
  st_cue :: cue

record generator_spec =
  g_dev :: dev
  g_status :: int
  g_data1 :: int
  g_waveform :: string
  g_period :: pyfloat
  g_lo :: int
  g_hi :: int

record stream_output =
  so_dev :: dev
  so_status :: int
  so_data1 :: int
  so_lo :: pyfloat
  so_hi :: pyfloat
  so_mode :: string

text \<open>\<open>sp_arg\<close> indexes the gesture's arguments: a natural number, as the validator demands.\<close>

record stream_spec =
  sp_verb :: string
  sp_arg :: nat
  sp_in_lo :: pyfloat
  sp_in_hi :: pyfloat
  sp_outputs :: "stream_output list"

record func =
  f_name :: string
  f_description :: string
  f_target :: "function_target option"
  f_condition :: "condition_decl option"
  f_script :: "script_step list"
  f_kind :: function_kind
  f_generator :: "generator_spec option"
  f_stream :: "stream_spec option"

type_synonym fn_table = "(string, func) dict"
type_synonym lane = "dev \<times> int \<times> int"

text \<open>The wire spelling of a condition source.\<close>

fun source_wire :: "condition_source \<Rightarrow> string" where
  "source_wire GESTURE_VERB = ''gesture-verb''"
| "source_wire BIT_ADJUDICATED = ''bit-adjudicated''"
| "source_wire ADMIN_MANUAL = ''admin-manual''"

text \<open>A scripted function with nothing but a name, a description and a script.\<close>

definition scripted :: "string \<Rightarrow> string \<Rightarrow> script_step list \<Rightarrow> func" where
  "scripted name descr script =
     \<lparr>f_name = name, f_description = descr, f_target = None, f_condition = None, f_script = script,
      f_kind = SCRIPTED, f_generator = None, f_stream = None\<rparr>"

definition step_at :: "rat \<Rightarrow> cue \<Rightarrow> script_step" where
  "step_at t c = \<lparr>st_offset = Fin t, st_cue = c\<rparr>"

subsection \<open>Gestures onto lanes\<close>

text \<open>\<open>stream_input\<close>: the finite number at the declared position, or nothing.\<close>

definition stream_input :: "stream_spec \<Rightarrow> pyval list \<Rightarrow> pyfloat option" where
  "stream_input spec args =
     (if length args \<le> sp_arg spec then None
      else case as_number (args ! sp_arg spec) of
             None \<Rightarrow> None
           | Some x \<Rightarrow> if isfinite x then Some x else None)"

text \<open>One output's value: clamp to the domain, map linearly, round, clamp to a byte.\<close>

definition stream_value :: "stream_spec \<Rightarrow> stream_output \<Rightarrow> pyfloat \<Rightarrow> int option" where
  "stream_value spec out x =
     (let span_in = fsub (sp_in_hi spec) (sp_in_lo spec);
          val = (if so_mode out = ''abs'' then fabs x else x);
          clamped = fmin (fmax val (sp_in_lo spec)) (sp_in_hi spec);
          t = (if span_in = Fin 0 then Fin 0 else fdiv (fsub clamped (sp_in_lo spec)) span_in);
          mapped = fadd (so_lo out) (fmul t (fsub (so_hi out) (so_lo out)))
      in map_option (\<lambda>n. max 0 (min 255 n)) (round_float mapped))"

fun stream_cues_from :: "stream_spec \<Rightarrow> dev \<Rightarrow> pyfloat \<Rightarrow> stream_output list \<Rightarrow> cue list option" where
  "stream_cues_from spec dev x [] = Some []"
| "stream_cues_from spec dev x (out # outs) =
     (case stream_value spec out x of
        None \<Rightarrow> None
      | Some data2 \<Rightarrow>
          (case stream_cues_from spec dev x outs of
             None \<Rightarrow> None
           | Some cs \<Rightarrow>
               Some (Midi (if so_dev out = TARGET then dev else so_dev out)
                          (so_status out) (so_data1 out) data2 # cs)))"

text \<open>\<open>stream_cues\<close>: a malformed argument maps to nothing.\<close>

definition stream_cues :: "stream_spec \<Rightarrow> dev \<Rightarrow> pyval list \<Rightarrow> cue list option" where
  "stream_cues spec dev args =
     (case stream_input spec args of
        None \<Rightarrow> Some []
      | Some x \<Rightarrow> stream_cues_from spec dev x (sp_outputs spec))"

definition output_lane :: "stream_output \<Rightarrow> lane" where
  "output_lane out = (so_dev out, so_status out, so_data1 out)"

text \<open>\<open>lane_domains[lane]\<close>: who writes the lane, over which input domain, in declaration order.\<close>

definition lane_domains :: "(nat \<times> stream_spec) list \<Rightarrow> lane \<Rightarrow> (pyfloat \<times> pyfloat \<times> nat) list" where
  "lane_domains streams lane =
     concat (map (\<lambda>(i, spec). map (\<lambda>_. (sp_in_lo spec, sp_in_hi spec, i))
        (filter (\<lambda>out. output_lane out = lane) (sp_outputs spec))) streams)"

text \<open>Python's \<open>min\<close> and \<open>max\<close> with a key: the first of the best.\<close>

fun first_min :: "('a \<Rightarrow> pyfloat) \<Rightarrow> 'a \<Rightarrow> 'a list \<Rightarrow> 'a" where
  "first_min key best [] = best"
| "first_min key best (x # xs) = first_min key (if flt (key x) (key best) then x else best) xs"

fun first_max :: "('a \<Rightarrow> pyfloat) \<Rightarrow> 'a \<Rightarrow> 'a list \<Rightarrow> 'a" where
  "first_max key best [] = best"
| "first_max key best (x # xs) = first_max key (if flt (key best) (key x) then x else best) xs"

text \<open>The edge-clamp rule: below the lowest domain its owner applies, above the highest one its owner.\<close>

definition is_edge :: "(pyfloat \<times> pyfloat \<times> nat) list \<Rightarrow> nat \<Rightarrow> pyfloat \<Rightarrow> bool" where
  "is_edge domains i x =
     (case domains of
        [] \<Rightarrow> False
      | d # ds \<Rightarrow>
          (let (lo_lo, _, lo_owner) = first_min fst d ds;
               (_, hi_hi, hi_owner) = first_max (fst \<circ> snd) d ds
           in (i = lo_owner \<and> flt x lo_lo) \<or> (i = hi_owner \<and> flt hi_hi x)))"

text \<open>The inner loop: one function's cues against the lanes already written for this gesture.\<close>

fun collect_outputs ::
  "(nat \<times> stream_spec) list \<Rightarrow> nat \<Rightarrow> stream_spec \<Rightarrow> pyfloat \<Rightarrow> (cue \<times> stream_output) list \<Rightarrow>
   lane list \<Rightarrow> cue list \<Rightarrow> lane list \<times> cue list" where
  "collect_outputs streams i spec x [] written out = (written, out)"
| "collect_outputs streams i spec x ((cue, output) # rest) written out =
     (let lane = output_lane output
      in if lane \<in> set written then collect_outputs streams i spec x rest written out
         else if \<not> (fle (sp_in_lo spec) x \<and> fle x (sp_in_hi spec))
                 \<and> \<not> is_edge (lane_domains streams lane) i x
         then collect_outputs streams i spec x rest written out
         else collect_outputs streams i spec x rest (written @ [lane]) (out @ [cue]))"

fun collect_loop ::
  "(nat \<times> stream_spec) list \<Rightarrow> dev \<Rightarrow> pyval list \<Rightarrow> (nat \<times> stream_spec) list \<Rightarrow>
   lane list \<Rightarrow> cue list \<Rightarrow> cue list option" where
  "collect_loop streams dev args [] written out = Some out"
| "collect_loop streams dev args ((i, spec) # rest) written out =
     (case stream_input spec args of
        None \<Rightarrow> collect_loop streams dev args rest written out
      | Some x \<Rightarrow>
          (case stream_cues spec dev args of
             None \<Rightarrow> None
           | Some cs \<Rightarrow>
               (let (written', out') =
                      collect_outputs streams i spec x (zip cs (sp_outputs spec)) written out
                in collect_loop streams dev args rest written' out')))"

text \<open>
  \<open>collect_stream_cues\<close>. A function of the list is known by its position, which is the object
  identity the source compares with \<open>is\<close>.
\<close>

definition collect_stream_cues :: "stream_spec list \<Rightarrow> dev \<Rightarrow> pyval list \<Rightarrow> cue list option" where
  "collect_stream_cues specs dev args =
     (let streams = enumerate 0 specs in collect_loop streams dev args streams [] [])"

subsection \<open>Expanding a script\<close>

definition step_devs :: "dev \<Rightarrow> dev list \<Rightarrow> dev list" where
  "step_devs step_dev devs = (if step_dev = TARGET then devs else [step_dev])"

text \<open>One step. A cue that is none of the four legal kinds cannot be unpacked: \<open>None\<close>.\<close>

definition expand_step :: "pyfloat \<Rightarrow> dev list \<Rightarrow> script_step \<Rightarrow> cue list option" where
  "expand_step t0 devs step =
     (let when = fadd t0 (st_offset step)
      in case st_cue step of
           PlayCue d name params \<Rightarrow> Some (map (\<lambda>dev. PlayCue dev name params) (step_devs d devs))
         | SolidCue d rgb level duration _ \<Rightarrow>
             Some (map (\<lambda>dev. SolidCue dev rgb level duration (Some when)) (step_devs d devs))
         | MuteCue d \<Rightarrow> Some (map MuteCue (step_devs d devs))
         | Midi d status data1 data2 \<Rightarrow>
             Some (map (\<lambda>dev. LightCue dev status data1 data2 (Some when)) (step_devs d devs))
         | _ \<Rightarrow> None)"

fun expand_steps :: "pyfloat \<Rightarrow> dev list \<Rightarrow> script_step list \<Rightarrow> cue list option" where
  "expand_steps t0 devs [] = Some []"
| "expand_steps t0 devs (s # ss) =
     (case expand_step t0 devs s of
        None \<Rightarrow> None
      | Some cs \<Rightarrow> (case expand_steps t0 devs ss of None \<Rightarrow> None | Some ds \<Rightarrow> Some (cs @ ds)))"

definition expand_script :: "func \<Rightarrow> pyfloat \<Rightarrow> dev list \<Rightarrow> cue list option" where
  "expand_script fn t0 devs = expand_steps t0 devs (f_script fn)"

end
