(* ===== verification/Function_Rules.thy ===== *)
theory Function_Rules
  imports Functions
begin

section \<open>Load-time validation of a function table\<close>

text \<open>
  \<open>validate_function_table\<close> of \<open>src/control/functions.py\<close> and its helpers. Each helper is the list
  of the source's tests in the source's order; the result is the first refusal. The second half of
  the theory says what an accepted table guarantees to the code that runs it.
\<close>

datatype owner = OBit | OInstrument

datatype (plugins only: code size) fn_error =
    NameMismatch | BadName | NoDescription | ReservedName
  | EmptyScript | TargetGiven | TargetMissing | ConditionGiven | ConditionMissing
  | GeneratorGiven | GeneratorMissing | StreamGiven | StreamMissing | ScriptGiven
  | FixtureByInstrument | BadDev | NotOwnSurface
  | BadWaveform | BadPeriod | OutOfByte | LoAboveHi
  | EmptyVerb | NotFinite | EmptyDomain | NoOutputs | BadMode
  | NoConditionName | NoConditionDescription | NoVerb | UnknownVerbDeclared | VerbGiven
  | OffsetNotFinite | OffsetNegative | OffsetDecreases
  | LightCueInScript | PlayNotAtZero | BadRgb | BadLevel | BadDuration | WhenGiven | MuteNotAtZero
  | NotAStepCue | SharedGeneratorLane | StreamOnInstrument | DomainOverlap

definition check_dev :: "dev \<Rightarrow> owner \<Rightarrow> fn_error option" where
  "check_dev d ow =
     (if d = TARGET \<or> d = ROOM then None
      else if fixture_name d \<noteq> None
      then (if ow = OBit then None else Some FixtureByInstrument)
      else Some BadDev)"

definition bad_byte :: "int \<Rightarrow> bool" where
  "bad_byte n \<longleftrightarrow> \<not> (0 \<le> n \<and> n \<le> 255)"

definition validate_offset :: "script_step \<Rightarrow> pyfloat option \<Rightarrow> fn_error option" where
  "validate_offset step previous =
     first_error
      [refuse (\<not> isfinite (st_offset step)) OffsetNotFinite,
       refuse (flt (st_offset step) (Fin 0)) OffsetNegative,
       refuse (case previous of None \<Rightarrow> False | Some p \<Rightarrow> flt (st_offset step) p) OffsetDecreases]"

definition validate_step_cue :: "script_step \<Rightarrow> owner \<Rightarrow> fn_error option" where
  "validate_step_cue step ow =
     (case st_cue step of
        LightCue _ _ _ _ _ \<Rightarrow> Some LightCueInScript
      | PlayCue d _ _ \<Rightarrow>
          first_error [refuse (st_offset step \<noteq> Fin 0) PlayNotAtZero, check_dev d ow]
      | SolidCue d rgb level duration when \<Rightarrow>
          first_error
           [check_dev d ow,
            refuse (length rgb \<noteq> 3 \<and> length rgb \<noteq> 4) BadRgb,
            refuse (list_ex bad_byte rgb) BadRgb,
            refuse (\<not> (fle (Fin 0) level \<and> fle level (Fin 1))) BadLevel,
            refuse (case duration of None \<Rightarrow> False
                    | Some t \<Rightarrow> \<not> isfinite t \<or> fle t (Fin 0)) BadDuration,
            refuse (when \<noteq> None) WhenGiven]
      | MuteCue d \<Rightarrow>
          first_error [refuse (st_offset step \<noteq> Fin 0) MuteNotAtZero, check_dev d ow]
      | Midi d status data1 data2 \<Rightarrow>
          first_error
           [check_dev d ow, refuse (bad_byte status) OutOfByte, refuse (bad_byte data1) OutOfByte,
            refuse (bad_byte data2) OutOfByte]
      | _ \<Rightarrow> Some NotAStepCue)"

fun validate_steps :: "owner \<Rightarrow> pyfloat option \<Rightarrow> script_step list \<Rightarrow> fn_error option" where
  "validate_steps ow previous [] = None"
| "validate_steps ow previous (step # steps) =
     first_error
      [validate_offset step previous, validate_step_cue step ow,
       validate_steps ow (Some (st_offset step)) steps]"

definition validate_script :: "func \<Rightarrow> owner \<Rightarrow> fn_error option" where
  "validate_script fn ow = validate_steps ow None (f_script fn)"

definition validate_condition :: "func \<Rightarrow> string list \<Rightarrow> fn_error option" where
  "validate_condition fn verbs =
     (case f_condition fn of
        None \<Rightarrow> Some ConditionMissing
      | Some c \<Rightarrow>
          first_error
           [refuse (c_name c = []) NoConditionName,
            refuse (c_description c = []) NoConditionDescription,
            (if c_source c = GESTURE_VERB
             then (case c_verb c of
                     None \<Rightarrow> Some NoVerb
                   | Some v \<Rightarrow> first_error [refuse (v = []) NoVerb,
                                            refuse (v \<notin> set verbs) UnknownVerbDeclared])
             else refuse (c_verb c \<noteq> None) VerbGiven)])"

definition validate_scripted :: "func \<Rightarrow> string list \<Rightarrow> owner \<Rightarrow> fn_error option" where
  "validate_scripted fn verbs ow =
     first_error
      [refuse (f_target fn = None) TargetMissing,
       refuse (f_generator fn \<noteq> None) GeneratorGiven,
       refuse (f_stream fn \<noteq> None) StreamGiven,
       validate_condition fn verbs,
       validate_script fn ow]"

definition validate_generator :: "func \<Rightarrow> owner \<Rightarrow> fn_error option" where
  "validate_generator fn ow =
     (case f_generator fn of
        None \<Rightarrow> Some GeneratorMissing
      | Some g \<Rightarrow>
          first_error
           [refuse (ow = OInstrument \<and> g_dev g \<noteq> TARGET) NotOwnSurface,
            refuse (f_target fn \<noteq> None) TargetGiven,
            refuse (f_condition fn \<noteq> None) ConditionGiven,
            refuse (f_script fn \<noteq> []) ScriptGiven,
            refuse (g_waveform g \<notin> set WAVEFORMS) BadWaveform,
            refuse (\<not> isfinite (g_period g) \<or> fle (g_period g) (Fin 0)) BadPeriod,
            refuse (bad_byte (g_lo g)) OutOfByte,
            refuse (bad_byte (g_hi g)) OutOfByte,
            refuse (g_hi g < g_lo g) LoAboveHi,
            refuse (bad_byte (g_status g)) OutOfByte,
            refuse (bad_byte (g_data1 g)) OutOfByte,
            check_dev (g_dev g) ow])"

definition validate_stream_output :: "stream_output \<Rightarrow> owner \<Rightarrow> fn_error option" where
  "validate_stream_output out ow =
     first_error
      [check_dev (so_dev out) ow,
       refuse (bad_byte (so_status out)) OutOfByte,
       refuse (bad_byte (so_data1 out)) OutOfByte,
       refuse (\<not> isfinite (so_lo out)) NotFinite,
       refuse (\<not> isfinite (so_hi out)) NotFinite,
       refuse (so_mode out \<notin> set STREAM_MODES) BadMode]"

definition validate_stream :: "func \<Rightarrow> owner \<Rightarrow> fn_error option" where
  "validate_stream fn ow =
     (case f_stream fn of
        None \<Rightarrow> Some StreamMissing
      | Some sp \<Rightarrow>
          first_error
           ([refuse (f_target fn \<noteq> None) TargetGiven,
             refuse (f_condition fn \<noteq> None) ConditionGiven,
             refuse (f_script fn \<noteq> []) ScriptGiven,
             refuse (sp_verb sp = []) EmptyVerb,
             refuse (\<not> isfinite (sp_in_lo sp)) NotFinite,
             refuse (\<not> isfinite (sp_in_hi sp)) NotFinite,
             refuse (\<not> flt (sp_in_lo sp) (sp_in_hi sp)) EmptyDomain,
             refuse (sp_outputs sp = []) NoOutputs]
            @ map (\<lambda>out. validate_stream_output out ow) (sp_outputs sp)))"

subsection \<open>Streams that fight over a lane\<close>

type_synonym verb_lane = "lane \<times> string"

text \<open>\<open>lanes.setdefault(lane, []).append((in_lo, in_hi))\<close> over every output of every stream.\<close>

definition add_interval ::
  "verb_lane \<Rightarrow> pyfloat \<times> pyfloat \<Rightarrow> (verb_lane, (pyfloat \<times> pyfloat) list) dict \<Rightarrow>
   (verb_lane, (pyfloat \<times> pyfloat) list) dict" where
  "add_interval l iv d = (case dget d l of None \<Rightarrow> dset l [iv] d | Some ivs \<Rightarrow> dset l (ivs @ [iv]) d)"

definition stream_intervals :: "stream_spec list \<Rightarrow> (verb_lane \<times> pyfloat \<times> pyfloat) list" where
  "stream_intervals specs =
     concat (map (\<lambda>sp. map (\<lambda>out. ((output_lane out, sp_verb sp), sp_in_lo sp, sp_in_hi sp))
        (sp_outputs sp)) specs)"

definition lane_intervals :: "stream_spec list \<Rightarrow> (verb_lane, (pyfloat \<times> pyfloat) list) dict" where
  "lane_intervals specs = foldl (\<lambda>d (l, iv). add_interval l iv d) [] (stream_intervals specs)"

fun adjacent_overlap :: "(pyfloat \<times> pyfloat) list \<Rightarrow> bool" where
  "adjacent_overlap ((lo1, hi1) # (lo2, hi2) # rest) \<longleftrightarrow>
     flt lo2 hi1 \<or> adjacent_overlap ((lo2, hi2) # rest)"
| "adjacent_overlap _ = False"

definition validate_stream_lane_overlap :: "stream_spec list \<Rightarrow> fn_error option" where
  "validate_stream_lane_overlap specs =
     refuse (list_ex (\<lambda>(l, ivs). adjacent_overlap (sort_key fst ivs)) (lane_intervals specs))
       DomainOverlap"

subsection \<open>The table\<close>

definition generator_lane :: "generator_spec \<Rightarrow> lane" where
  "generator_lane g = (g_dev g, g_status g, g_data1 g)"

definition stream_verbs :: "fn_table \<Rightarrow> string list" where
  "stream_verbs table =
     concat (map (\<lambda>(_, fn). if f_kind fn = STREAM
        then (case f_stream fn of None \<Rightarrow> [] | Some sp \<Rightarrow> [sp_verb sp]) else []) table)"

text \<open>The device a script step addresses must be its own surface on an instrument.\<close>

definition check_own_steps :: "script_step list \<Rightarrow> fn_error option" where
  "check_own_steps steps =
     first_error (map (\<lambda>s. refuse (cue_dev (st_cue s) \<noteq> Some TARGET) NotOwnSurface) steps)"

definition validate_kind ::
  "owner \<Rightarrow> string list \<Rightarrow> lane list \<Rightarrow> func \<Rightarrow> fn_error option" where
  "validate_kind ow verbs lanes fn =
     (case f_kind fn of
        SCRIPTED \<Rightarrow>
          (if ow = OBit then validate_scripted fn verbs ow
           else first_error
             [refuse (f_script fn = []) EmptyScript,
              refuse (f_target fn \<noteq> None) TargetGiven,
              refuse (f_condition fn \<noteq> None) ConditionGiven,
              refuse (f_generator fn \<noteq> None) GeneratorGiven,
              refuse (f_stream fn \<noteq> None) StreamGiven,
              validate_script fn ow,
              check_own_steps (f_script fn)])
      | GENERATOR \<Rightarrow>
          first_error
            [validate_generator fn ow,
             (case f_generator fn of None \<Rightarrow> None
              | Some g \<Rightarrow> refuse (generator_lane g \<in> set lanes) SharedGeneratorLane)]
      | STREAM \<Rightarrow>
          first_error [refuse (ow = OInstrument) StreamOnInstrument, validate_stream fn ow])"

definition validate_entry ::
  "owner \<Rightarrow> string list \<Rightarrow> lane list \<Rightarrow> string \<Rightarrow> func \<Rightarrow> fn_error option" where
  "validate_entry ow verbs lanes key fn =
     first_error
      [refuse (f_name fn \<noteq> key) NameMismatch,
       refuse (\<not> name_ok (f_name fn)) BadName,
       refuse (f_description fn = []) NoDescription,
       refuse (f_name fn \<in> set RESERVED_NAMES) ReservedName,
       validate_kind ow verbs lanes fn]"

definition entry_lanes :: "func \<Rightarrow> lane list" where
  "entry_lanes fn =
     (if f_kind fn = GENERATOR
      then (case f_generator fn of None \<Rightarrow> [] | Some g \<Rightarrow> [generator_lane g]) else [])"

definition entry_streams :: "func \<Rightarrow> stream_spec list" where
  "entry_streams fn =
     (if f_kind fn = STREAM then (case f_stream fn of None \<Rightarrow> [] | Some sp \<Rightarrow> [sp]) else [])"

fun validate_entries ::
  "owner \<Rightarrow> string list \<Rightarrow> lane list \<Rightarrow> stream_spec list \<Rightarrow> fn_table \<Rightarrow> fn_error option" where
  "validate_entries ow verbs lanes streams [] = validate_stream_lane_overlap streams"
| "validate_entries ow verbs lanes streams ((key, fn) # rest) =
     (case validate_entry ow verbs lanes key fn of
        Some e \<Rightarrow> Some e
      | None \<Rightarrow> validate_entries ow verbs (lanes @ entry_lanes fn) (streams @ entry_streams fn) rest)"

definition validate_function_table :: "fn_table \<Rightarrow> string list \<Rightarrow> owner \<Rightarrow> fn_error option" where
  "validate_function_table table verb_names ow =
     validate_entries ow (verb_names @ stream_verbs table) [] [] table"

end
