(* ===== verification/Instruments.thy ===== *)
theory Instruments
  imports Function_Rules
begin

section \<open>Instruments and what they offer\<close>

text \<open>
  \<open>src/control/instrument.py\<close>, \<open>src/control/triggers.py\<close> and \<open>src/control/builtins.py\<close>: the
  instrument a room fixture is or a device carries, its validation, the capability contract a Bit's
  slot puts on it, the built-in functions its capabilities support, and the gesture triggers it
  declares. Manifests are decoded dictionaries (\<open>pyval\<close>); the script of the shipped fireworks is
  drawn from a seeded generator at import time and is a parameter of \<open>TUNESHROOM\<close>.
\<close>

subsection \<open>Triggers\<close>

record event_trigger =
  et_name :: string
  et_description :: string
  et_thresholds :: "(string, pyval) dict"

record stream_trigger =
  tg_name :: string
  tg_description :: string
  tg_verb :: string
  tg_arg :: int
  tg_transform :: string
  tg_params :: "(string, pyval) dict"

definition TRANSFORMS :: "string list" where "TRANSFORMS = [''smooth'']"

datatype trigger_error =
    TriggerBadName | TriggerNoDescription | ThresholdNotNumeric
  | TriggerNoVerb | TriggerBadTransform | TriggerBadAlpha

definition validate_event_trigger :: "event_trigger \<Rightarrow> trigger_error option" where
  "validate_event_trigger t =
     first_error
      [refuse (\<not> name_ok (et_name t)) TriggerBadName,
       refuse (et_description t = []) TriggerNoDescription,
       refuse (list_ex (\<lambda>(_, v). as_number v = None) (et_thresholds t)) ThresholdNotNumeric]"

definition bad_alpha :: "pyval option \<Rightarrow> bool" where
  "bad_alpha v \<longleftrightarrow>
     (case v of
        None \<Rightarrow> True
      | Some a \<Rightarrow> (case as_number a of None \<Rightarrow> True | Some x \<Rightarrow> \<not> (flt (Fin 0) x \<and> fle x (Fin 1))))"

definition validate_stream_trigger :: "stream_trigger \<Rightarrow> trigger_error option" where
  "validate_stream_trigger t =
     first_error
      [refuse (\<not> name_ok (tg_name t)) TriggerBadName,
       refuse (tg_description t = []) TriggerNoDescription,
       refuse (tg_verb t = []) TriggerNoVerb,
       refuse (tg_transform t \<notin> set TRANSFORMS) TriggerBadTransform,
       refuse (tg_transform t = ''smooth'' \<and> bad_alpha (dget (tg_params t) ''alpha'')) TriggerBadAlpha]"

subsection \<open>The instrument\<close>

definition CAPABILITY_VOCABULARY :: "string set" where
  "CAPABILITY_VOCABULARY =
     {''light.pixels'', ''light.surface'', ''audio.flsyn'', ''audio.samples'', ''audio.mic'',
      ''gesture.tap'', ''gesture.tilt'', ''gesture.hold'', ''gesture.swing''}"

record solo_config =
  so_light_manifest :: pyval
  so_bindings :: "(string, string) dict"

record pixel_layout =
  pl_index :: nat
  pl_x_mm :: int
  pl_y_mm :: int
  pl_z_mm :: int
  pl_size :: string
  pl_zone :: "string option"

record instrument =
  i_name :: string
  i_description :: string
  i_capabilities :: "string set"
  i_pixels :: int
  i_functions :: "func list"
  i_accepted_cues :: "kind list"
  i_light_manifest :: pyval
  i_ugen_manifest :: pyval
  i_event_triggers :: "event_trigger list"
  i_stream_triggers :: "stream_trigger list"
  i_solo :: "solo_config option"
  i_model_sha256 :: "string option"
  i_layout :: "pixel_layout list"
  i_model_path :: "string option"
  i_model_bytes :: int
  i_model_triangles :: int

record requirement =
  rq_slot :: string
  rq_capabilities :: "string set"
  rq_min_pixels :: int
  rq_optional :: bool

datatype instrument_error =
    UnknownCapability | PixelFloor | NotInstrumentKind | TableRefused fn_error
  | CueNotAccepted string nat | UnknownSoloEvent string | UnknownSoloFunction string
  | TriggerRefused trigger_error

definition SOLO_EVENTS :: "string list" where
  "SOLO_EVENTS = [''tap'', ''double_tap'', ''shake'']"

text \<open>The first script step whose kind the instrument itself does not accept.\<close>

fun unaccepted_step :: "kind list \<Rightarrow> nat \<Rightarrow> script_step list \<Rightarrow> nat option" where
  "unaccepted_step accepted i [] = None"
| "unaccepted_step accepted i (s # ss) =
     (if cue_kind (st_cue s) \<notin> set accepted then Some i else unaccepted_step accepted (Suc i) ss)"

definition check_own_cues :: "instrument \<Rightarrow> func \<Rightarrow> instrument_error option" where
  "check_own_cues inst fn =
     (if f_kind fn \<noteq> SCRIPTED then None
      else map_option (CueNotAccepted (f_name fn)) (unaccepted_step (i_accepted_cues inst) 0 (f_script fn)))"

definition check_solo_binding :: "instrument \<Rightarrow> string \<times> string \<Rightarrow> instrument_error option" where
  "check_solo_binding inst b =
     first_error
      [refuse (fst b \<notin> set SOLO_EVENTS) (UnknownSoloEvent (fst b)),
       refuse (snd b \<notin> f_name ` set (i_functions inst)) (UnknownSoloFunction (snd b))]"

definition function_dict :: "func list \<Rightarrow> fn_table" where
  "function_dict fns = foldl (\<lambda>d fn. dset (f_name fn) fn d) [] fns"

definition validate_instrument :: "instrument \<Rightarrow> instrument_error option" where
  "validate_instrument inst =
     first_error
      ([refuse (\<not> i_capabilities inst \<subseteq> CAPABILITY_VOCABULARY) UnknownCapability,
        refuse (''light.pixels'' \<in> i_capabilities inst \<and> i_pixels inst < 12) PixelFloor,
        refuse (list_ex (\<lambda>fn. f_kind fn = STREAM) (i_functions inst)) NotInstrumentKind,
        map_option TableRefused
          (validate_function_table (function_dict (i_functions inst)) [] OInstrument)]
       @ map (check_own_cues inst) (i_functions inst)
       @ (case i_solo inst of None \<Rightarrow> [] | Some solo \<Rightarrow> map (check_solo_binding inst) (so_bindings solo))
       @ map (map_option TriggerRefused \<circ> validate_event_trigger) (i_event_triggers inst)
       @ map (map_option TriggerRefused \<circ> validate_stream_trigger) (i_stream_triggers inst))"

text \<open>\<open>satisfies\<close>: \<open>None\<close> when the instrument meets the contract, else the reason.\<close>

datatype unmet =
    LacksCapability "string set" string
  | NoPixelCount string
  | TooFewPixels string int

definition satisfies :: "instrument \<Rightarrow> requirement \<Rightarrow> int option \<Rightarrow> unmet option" where
  "satisfies inst req pixel_count =
     (let missing = rq_capabilities req - i_capabilities inst
      in if missing \<noteq> {} then Some (LacksCapability missing (rq_slot req))
         else if rq_min_pixels req \<noteq> 0
         then (case pixel_count of
                 None \<Rightarrow> Some (NoPixelCount (rq_slot req))
               | Some n \<Rightarrow> if n < rq_min_pixels req then Some (TooFewPixels (rq_slot req) n) else None)
         else None)"

subsection \<open>Built-ins: stop, flash, ping\<close>

definition WHITE_W :: "int list" where "WHITE_W = [0, 0, 0, 255]"
definition PING_KEY :: int where "PING_KEY = 57"
definition PING_VEL :: int where "PING_VEL = 100"
definition PING_OFF_OFFSET :: rat where "PING_OFF_OFFSET = 1 / 2"

definition has_light :: "instrument \<Rightarrow> bool" where
  "has_light inst \<longleftrightarrow> (\<exists>c \<in> i_capabilities inst. starts_with ''light.'' c)"

definition builtin_functions :: "instrument \<Rightarrow> fn_table" where
  "builtin_functions inst =
     (let light = has_light inst;
          samples = ''audio.samples'' \<in> i_capabilities inst;
          flsyn = ''audio.flsyn'' \<in> i_capabilities inst
      in (if light
          then [(''flash'', scripted ''flash'' ''Light test: solid white (the W die) for 5 s, then resume''
                   ((if samples then [step_at 0 (PlayCue TARGET ''chime'' '''')] else [])
                    @ [step_at 0 (SolidCue TARGET WHITE_W (Fin (9 / 10)) (Some (Fin 5)) None)]))]
          else [])
       @ (if light \<or> samples \<or> flsyn
          then [(''stop'', scripted ''stop'' ''Latch this surface dark and silent until a play un-mutes it''
                   [step_at 0 (MuteCue TARGET)])]
          else [])
       @ (if samples
          then [(''ping'', scripted ''ping'' ''Audio test: play a chime on this surface''
                   [step_at 0 (PlayCue TARGET ''chime'' '''')])]
          else if flsyn
          then [(''ping'', scripted ''ping'' ''Audio test: a short note through this surface's voice''
                   [step_at 0 (Midi TARGET 144 PING_KEY PING_VEL),
                    step_at PING_OFF_OFFSET (Midi TARGET 128 PING_KEY 0)])]
          else []))"

subsection \<open>The two shipped instruments\<close>

definition shipped_event_triggers :: "event_trigger list" where
  "shipped_event_triggers =
     [\<lparr>et_name = ''tap'', et_description = ''a single or double tap on the shell'',
       et_thresholds = [(''peak_g'', VFloat (Fin 2)), (''window_ms'', VInt 200), (''double_ms'', VInt 400)]\<rparr>,
      \<lparr>et_name = ''shake'', et_description = ''a shake gesture'',
       et_thresholds = [(''peak_g'', VFloat (Fin 2)), (''window_ms'', VInt 200)]\<rparr>]"

definition aurora_manifest :: pyval where
  "aurora_manifest =
     VDict [(''instruments'',
       VList [VDict [(''instrument'', VStr ''aurora''), (''target'', VStr ''primary'')]])]"

definition DEFAULTSHROOM :: instrument where
  "DEFAULTSHROOM =
     \<lparr>i_name = ''defaultshroom'', i_description = ''Ecosystem floor: any 12-LED instrument host'',
      i_capabilities = {''light.pixels'', ''gesture.tap'', ''gesture.tilt''}, i_pixels = 12,
      i_functions = [], i_accepted_cues = [KMidi, KPlay, KSolid, KMute],
      i_light_manifest = aurora_manifest, i_ugen_manifest = VDict [],
      i_event_triggers = shipped_event_triggers, i_stream_triggers = [], i_solo = None, i_model_sha256 = None, i_layout = [],
      i_model_path = None, i_model_bytes = 0, i_model_triangles = 0\<rparr>"

definition TUNESHROOM :: "script_step list \<Rightarrow> instrument" where
  "TUNESHROOM fireworks =
     \<lparr>i_name = ''tuneshroom'', i_description = ''Handheld 12-LED Tuneshroom (8-ring + 4-stem)'',
      i_capabilities = {''light.pixels'', ''audio.samples'', ''audio.mic'', ''gesture.tap'', ''gesture.tilt''},
      i_pixels = 12,
      i_functions =
       [scripted ''play_aurora'' ''Hue bloom on the handheld's ring''
          [step_at 0 (Midi TARGET 176 74 127), step_at 1 (Midi TARGET 176 74 0)],
        scripted ''win'' ''Win celebration: ascending chime plus a hue flourish''
          [step_at 0 (PlayCue TARGET ''win'' ''''), step_at 0 (Midi TARGET 176 74 127),
           step_at (3 / 10) (Midi TARGET 176 74 60), step_at (6 / 10) (Midi TARGET 176 74 110),
           step_at (12 / 10) (Midi TARGET 176 74 0)],
        scripted ''fireworks_player'' ''Celebratory flashes on the player who nailed it'' fireworks,
        scripted ''fail_player'' ''Player's light goes red and dark on a miss''
          [step_at 0 (Midi TARGET 176 74 0), step_at 1 (Midi TARGET 176 11 0)],
        scripted ''metro_pulse_player'' ''A non-failed player's every-beat level pulse-then-decay''
          [step_at 0 (Midi TARGET 176 11 110), step_at (15 / 100) (Midi TARGET 176 11 60)],
        scripted ''metro_recovery'' ''A failed player's green flash and level reset''
          [step_at 0 (Midi TARGET 176 74 42), step_at 0 (Midi TARGET 176 11 60)]],
      i_accepted_cues = [KMidi, KPlay, KSolid, KMute],
      i_light_manifest = VDict [], i_ugen_manifest = VDict [],
      i_event_triggers = shipped_event_triggers, i_stream_triggers = [],
      i_solo = Some \<lparr>so_light_manifest = aurora_manifest,
        so_bindings = [(''tap'', ''play_aurora''), (''double_tap'', ''win''), (''shake'', ''fireworks_player'')]\<rparr>,
      i_model_sha256 = None, i_layout = [],
      i_model_path = None, i_model_bytes = 0, i_model_triangles = 0\<rparr>"

end
