(* ===== verification/Function_Facts.thy ===== *)
theory Function_Facts
  imports Function_Rules
begin

section \<open>What an accepted declaration guarantees\<close>

text \<open>
  Scripts: an accepted script always expands, into cues in presentation order, none earlier than the
  fire. Streams: a gesture's cues are bytes, one per lane, each computed by the first declared
  function whose domain (or edge) takes the value; two accepted streams of one verb never share more
  than a boundary point of a lane. Generators of an accepted table write distinct lanes.
\<close>

subsection \<open>Scripts\<close>

fun cue_when :: "cue \<Rightarrow> pyfloat option" where
  "cue_when (LightCue _ _ _ _ w) = w"
| "cue_when (SolidCue _ _ _ _ w) = w"
| "cue_when (MusicCue _ _ _ _ w _) = w"
| "cue_when (PixelFlashCue _ _ _ _ w) = w"
| "cue_when _ = None"

fun cue_times :: "cue list \<Rightarrow> pyfloat list" where
  "cue_times [] = []"
| "cue_times (c # cs) = (case cue_when c of None \<Rightarrow> cue_times cs | Some w \<Rightarrow> w # cue_times cs)"

definition fanout :: "dev list \<Rightarrow> script_step \<Rightarrow> nat" where
  "fanout devs step = (if cue_dev (st_cue step) = Some TARGET then length devs else 1)"

lemma validate_offset_Fin:
  assumes "validate_offset step prev = None"
  obtains r where "st_offset step = Fin r" and "0 \<le> r"
    and "\<And>p. prev = Some (Fin p) \<Longrightarrow> p \<le> r"
proof (cases "st_offset step")
  case (Fin r)
  with assms have "0 \<le> r" and "\<And>p. prev = Some (Fin p) \<Longrightarrow> p \<le> r"
    by (auto simp: validate_offset_def)
  with Fin that show thesis by blast
qed (use assms in \<open>simp_all add: validate_offset_def\<close>)

lemma cue_times_append [simp]: "cue_times (a @ b) = cue_times a @ cue_times b"
  by (induction a) (auto split: option.splits)

lemma cue_times_map_some: "(\<And>d. cue_when (f d) = Some w) \<Longrightarrow> set (cue_times (map f ds)) \<subseteq> {w}"
  by (induction ds) auto

lemma cue_times_map_none: "(\<And>d. cue_when (f d) = None) \<Longrightarrow> cue_times (map f ds) = []"
  by (induction ds) auto

lemma length_step_devs: "length (step_devs d devs) = (if d = TARGET then length devs else 1)"
  by (simp add: step_devs_def)

lemma expand_step_valid:
  assumes "validate_step_cue step ow = None" and "st_offset step = Fin r"
  shows "\<exists>cs. expand_step (Fin t0) devs step = Some cs
    \<and> length cs = fanout devs step \<and> set (cue_times cs) \<subseteq> {Fin (t0 + r)}"
  using assms
  by (cases "st_cue step")
     (simp_all add: expand_step_def validate_step_cue_def fanout_def length_step_devs
        cue_times_map_some cue_times_map_none)

lemma sorted_const_append:
  fixes a :: "'a :: linorder"
  assumes "set xs \<subseteq> {a}" and "\<forall>y \<in> set ys. a \<le> y" and "sorted ys"
  shows "sorted (xs @ ys)"
  using assms
proof (induction xs)
  case (Cons x xs)
  then have "x = a" and "set xs \<subseteq> {a}" by auto
  with Cons show ?case by auto
qed simp

lemma expand_steps_valid:
  assumes "validate_steps ow prev steps = None" and "prev = Some (Fin p) \<or> prev = None \<and> p = 0"
  shows "\<exists>cs. expand_steps (Fin t0) devs steps = Some cs
    \<and> length cs = sum_list (map (fanout devs) steps)
    \<and> sorted (cue_times cs) \<and> (\<forall>w \<in> set (cue_times cs). Fin (t0 + p) \<le> w)"
  using assms
proof (induction steps arbitrary: prev p)
  case Nil
  then show ?case by simp
next
  case (Cons step steps)
  then have off: "validate_offset step prev = None" and cue: "validate_step_cue step ow = None"
    and rest: "validate_steps ow (Some (st_offset step)) steps = None"
    by auto
  from off obtain r where r: "st_offset step = Fin r" "0 \<le> r" "\<And>q. prev = Some (Fin q) \<Longrightarrow> q \<le> r"
    by (rule validate_offset_Fin) blast
  have pr: "p \<le> r" using Cons.prems(2) r by auto
  from cue r(1) obtain cs where cs: "expand_step (Fin t0) devs step = Some cs"
    "length cs = fanout devs step" "set (cue_times cs) \<subseteq> {Fin (t0 + r)}"
    using expand_step_valid by blast
  from Cons.IH [OF rest, of r] r obtain ds where ds: "expand_steps (Fin t0) devs steps = Some ds"
    "length ds = sum_list (map (fanout devs) steps)" "sorted (cue_times ds)"
    "\<forall>w \<in> set (cue_times ds). Fin (t0 + r) \<le> w"
    by auto
  have "sorted (cue_times (cs @ ds))"
    using cs(3) ds(3,4) by (auto intro!: sorted_const_append)
  moreover have "\<forall>w \<in> set (cue_times (cs @ ds)). Fin (t0 + p) \<le> w"
  proof
    fix w assume "w \<in> set (cue_times (cs @ ds))"
    with cs(3) ds(4) have "Fin (t0 + r) \<le> w" by auto
    with pr show "Fin (t0 + p) \<le> w"
      by (meson Fin_le add_left_mono order_trans)
  qed
  ultimately show ?case using cs ds by simp
qed

lemma accepted_steps_expand:
  "validate_script fn ow = None \<Longrightarrow>
   \<exists>cs. expand_script fn (Fin t0) devs = Some cs
    \<and> length cs = sum_list (map (fanout devs) (f_script fn))
    \<and> sorted (cue_times cs) \<and> (\<forall>w \<in> set (cue_times cs). Fin t0 \<le> w)"
  using expand_steps_valid [of ow None "f_script fn" 0 t0 devs]
  by (simp add: expand_script_def validate_script_def)

text \<open>
  The expansion a script stands for: the steps in their order, each on the devices it addresses (the
  fire's own when it names \<open>TARGET\<close>, else the one it names), a note as a light cue, and each timed cue
  due at the fire's time plus the step's own offset.
\<close>

fun shown_on :: "cue \<Rightarrow> pyfloat \<Rightarrow> dev \<Rightarrow> cue" where
  "shown_on (PlayCue _ name params) w d = PlayCue d name params"
| "shown_on (MuteCue _) w d = MuteCue d"
| "shown_on (SolidCue _ rgb level duration _) w d = SolidCue d rgb level duration (Some w)"
| "shown_on (Midi _ status data1 data2) w d = LightCue d status data1 data2 (Some w)"
| "shown_on _ w d = BadCue"

definition addressed :: "dev list \<Rightarrow> cue \<Rightarrow> dev list" where
  "addressed devs c = (if cue_dev c = Some TARGET then devs else [the (cue_dev c)])"

definition presented :: "rat \<Rightarrow> dev list \<Rightarrow> script_step list \<Rightarrow> rat list \<Rightarrow> cue list" where
  "presented t0 devs steps offs =
     concat (map (\<lambda>(step, r). map (shown_on (st_cue step) (Fin (t0 + r))) (addressed devs (st_cue step))) (zip steps offs))"

lemma expand_step_exact:
  assumes "validate_step_cue step ow = None" and "st_offset step = Fin r"
  shows "expand_step (Fin t0) devs step
    = Some (map (shown_on (st_cue step) (Fin (t0 + r))) (addressed devs (st_cue step)))"
  using assms
  by (cases "st_cue step") (simp_all add: expand_step_def validate_step_cue_def addressed_def step_devs_def)

lemma expand_steps_exact:
  assumes "validate_steps ow prev steps = None" and "prev = Some (Fin p) \<or> prev = None \<and> p = 0"
  shows "\<exists>offs. map st_offset steps = map Fin offs \<and> sorted (p # offs)
    \<and> expand_steps (Fin t0) devs steps = Some (presented t0 devs steps offs)"
  using assms
proof (induction steps arbitrary: prev p)
  case Nil
  then show ?case by (simp add: presented_def)
next
  case (Cons step steps)
  then have off: "validate_offset step prev = None" and cue: "validate_step_cue step ow = None"
    and rest: "validate_steps ow (Some (st_offset step)) steps = None"
    by auto
  from off obtain r where r: "st_offset step = Fin r" "0 \<le> r" "\<And>q. prev = Some (Fin q) \<Longrightarrow> q \<le> r"
    by (rule validate_offset_Fin) blast
  have pr: "p \<le> r" using Cons.prems(2) r by auto
  from Cons.IH [OF rest, of r] r obtain offs where offs: "map st_offset steps = map Fin offs" "sorted (r # offs)"
    "expand_steps (Fin t0) devs steps = Some (presented t0 devs steps offs)" by auto
  have "expand_steps (Fin t0) devs (step # steps) = Some (presented t0 devs (step # steps) (r # offs))"
    using expand_step_exact [OF cue r(1)] offs(3) by (simp add: presented_def)
  then show ?case using offs(1,2) r(1) pr by (intro exI [of _ "r # offs"]) auto
qed

lemma accepted_steps_exact:
  "validate_script fn ow = None \<Longrightarrow>
   \<exists>offs. map st_offset (f_script fn) = map Fin offs \<and> sorted (0 # offs)
    \<and> expand_script fn (Fin t0) devs = Some (presented t0 devs (f_script fn) offs)"
  using expand_steps_exact [of ow None "f_script fn" 0 t0 devs]
  by (simp add: expand_script_def validate_script_def)

text \<open>
  C33: A script the loader accepted always expands, into exactly the cues it stands for. Its offsets are
  finite, not negative and never decrease; the result is, step by step in the script's order and device by
  device in the fire's order, the step's cue with the device in place of \<open>TARGET\<close> (a step that names
  another device is presented there, once), due at the fire's time plus the step's offset. So there is one
  cue per step and addressed device, the timed cues are in presentation order and none is due before the
  fire's own time.
\<close>
theorem accepted_script_expands:
  assumes "validate_script fn ow = None"
  shows "\<exists>offs cs. expand_script fn (Fin t0) devs = Some cs
    \<and> map st_offset (f_script fn) = map Fin offs \<and> sorted (0 # offs)
    \<and> cs = concat (map (\<lambda>(step, r). map (shown_on (st_cue step) (Fin (t0 + r))) (addressed devs (st_cue step)))
             (zip (f_script fn) offs))
    \<and> length cs = sum_list (map (fanout devs) (f_script fn))
    \<and> sorted (cue_times cs) \<and> (\<forall>w \<in> set (cue_times cs). Fin t0 \<le> w)"
  using accepted_steps_exact [OF assms, of t0 devs] accepted_steps_expand [OF assms, of t0 devs]
  unfolding presented_def by force

definition sample_win :: func where
  "sample_win = scripted ''win'' ''Win celebration''
     [step_at 0 (PlayCue TARGET ''win'' ''''), step_at 0 (Midi TARGET 176 74 127),
      step_at (3 / 10) (Midi TARGET 176 74 60)]"

lemma accepted_script_expands_witness:
  "expand_script sample_win (Fin 7) [''ie1'', ''ie2'']
     = Some [PlayCue ''ie1'' ''win'' [], PlayCue ''ie2'' ''win'' [],
             LightCue ''ie1'' 176 74 127 (Some (Fin 7)), LightCue ''ie2'' 176 74 127 (Some (Fin 7)),
             LightCue ''ie1'' 176 74 60 (Some (Fin (7 + 3 / 10))), LightCue ''ie2'' 176 74 60 (Some (Fin (7 + 3 / 10)))]"
proof -
  have "validate_script sample_win OBit = None"
    by (simp add: sample_win_def scripted_def step_at_def validate_script_def validate_offset_def
        validate_step_cue_def check_dev_def bad_byte_def refuse_def)
  from accepted_script_expands [OF this, of 7 "[''ie1'', ''ie2'']"] obtain offs where
    o: "map st_offset (f_script sample_win) = map Fin offs"
    and e: "expand_script sample_win (Fin 7) [''ie1'', ''ie2''] = Some (concat (map (\<lambda>(step, r).
        map (shown_on (st_cue step) (Fin (7 + r))) (addressed [''ie1'', ''ie2''] (st_cue step))) (zip (f_script sample_win) offs)))"
    by blast
  have "map Fin offs = map Fin [0, 0, 3 / 10]" using o by (simp add: sample_win_def scripted_def step_at_def)
  then have "offs = [0, 0, 3 / 10]" by (simp only: inj_map_eq_map [OF inj_onI [of UNIV Fin, simplified]]) 
  with e show ?thesis by (simp add: sample_win_def scripted_def step_at_def addressed_def)
qed

subsection \<open>Streams\<close>

fun cue_lane :: "cue \<Rightarrow> lane option" where
  "cue_lane (Midi d s n _) = Some (d, s, n)"
| "cue_lane _ = None"

fun byte_cue :: "cue \<Rightarrow> bool" where
  "byte_cue (Midi _ _ _ v) \<longleftrightarrow> 0 \<le> v \<and> v \<le> 255"
| "byte_cue _ = False"

text \<open>A lane addressed at the firing device is that device's own.\<close>

definition deliver :: "dev \<Rightarrow> lane \<Rightarrow> lane" where
  "deliver dev l = (case l of (d, s, n) \<Rightarrow> (if d = TARGET then dev else d, s, n))"

text \<open>When the function at position \<open>i\<close> is the one to write the lane for the value \<open>x\<close>.\<close>

definition takes :: "(nat \<times> stream_spec) list \<Rightarrow> nat \<Rightarrow> stream_spec \<Rightarrow> lane \<Rightarrow> pyfloat \<Rightarrow> bool" where
  "takes streams i sp l x \<longleftrightarrow>
     (fle (sp_in_lo sp) x \<and> fle x (sp_in_hi sp)) \<or> is_edge (lane_domains streams l) i x"

definition stream_finite :: "stream_spec \<Rightarrow> bool" where
  "stream_finite sp \<longleftrightarrow> isfinite (sp_in_lo sp) \<and> isfinite (sp_in_hi sp)
     \<and> (\<forall>out \<in> set (sp_outputs sp). isfinite (so_lo out) \<and> isfinite (so_hi out))"

lemma isfinite_iff: "isfinite x \<longleftrightarrow> (\<exists>r. x = Fin r)"
  by (cases x) auto

lemma stream_value_finite:
  assumes "stream_finite sp" and "out \<in> set (sp_outputs sp)" and "isfinite x"
  shows "\<exists>n. stream_value sp out x = Some n \<and> 0 \<le> n \<and> n \<le> 255"
proof -
  from assms obtain a b c d y where "sp_in_lo sp = Fin a" "sp_in_hi sp = Fin b"
    "so_lo out = Fin c" "so_hi out = Fin d" "x = Fin y"
    by (auto simp: stream_finite_def isfinite_iff)
  then show ?thesis by (auto simp: stream_value_def Let_def)
qed

lemma stream_cues_from_finite:
  assumes "stream_finite sp" and "isfinite x" and "set outs \<subseteq> set (sp_outputs sp)"
  shows "\<exists>cs. stream_cues_from sp dev x outs = Some cs \<and> length cs = length outs
    \<and> (\<forall>(c, out) \<in> set (zip cs outs). cue_lane c = Some (deliver dev (output_lane out)) \<and> byte_cue c)"
  using assms(3)
proof (induction outs)
  case (Cons out outs)
  then obtain cs where "stream_cues_from sp dev x outs = Some cs" "length cs = length outs"
    "\<forall>(c, out) \<in> set (zip cs outs). cue_lane c = Some (deliver dev (output_lane out)) \<and> byte_cue c"
    by auto
  moreover obtain n where "stream_value sp out x = Some n" "0 \<le> n" "n \<le> 255"
    using stream_value_finite [OF assms(1) _ assms(2), of out] Cons.prems by auto
  ultimately show ?case by (simp add: deliver_def output_lane_def)
qed simp

definition lane_book :: "dev \<Rightarrow> lane list \<Rightarrow> cue list \<Rightarrow> bool" where
  "lane_book dev written out \<longleftrightarrow>
     distinct written \<and> map cue_lane out = map (Some \<circ> deliver dev) written
     \<and> (\<forall>c \<in> set out. byte_cue c)"

lemma collect_outputs_book:
  assumes "\<forall>(c, out) \<in> set pairs. cue_lane c = Some (deliver dev (output_lane out)) \<and> byte_cue c"
    and "lane_book dev w cs"
    and "collect_outputs streams i sp x pairs w cs = (w', cs')"
  shows "lane_book dev w' cs'
    \<and> set w' = set w \<union> {output_lane out | c out. (c, out) \<in> set pairs \<and> takes streams i sp (output_lane out) x}"
  using assms
proof (induction streams i sp x pairs w cs rule: collect_outputs.induct)
  case (2 streams i spec x cue outp rest written out)
  let ?l = "output_lane outp"
  have rest: "\<forall>(c, out) \<in> set rest. cue_lane c = Some (deliver dev (output_lane out)) \<and> byte_cue c"
    and head: "cue_lane cue = Some (deliver dev ?l)" "byte_cue cue"
    using "2.prems"(1) by auto
  show ?case
  proof (cases "?l \<in> set written")
    case True
    with "2.prems"(3) have "collect_outputs streams i spec x rest written out = (w', cs')" by simp
    from "2.IH"(1) [OF refl True rest "2.prems"(2) this] True show ?thesis by auto
  next
    case False
    show ?thesis
    proof (cases "takes streams i spec ?l x")
      case True
      then have not_skip: "\<not> (\<not> (fle (sp_in_lo spec) x \<and> fle x (sp_in_hi spec))
          \<and> \<not> is_edge (lane_domains streams ?l) i x)"
        by (auto simp: takes_def)
      have book: "lane_book dev (written @ [?l]) (out @ [cue])"
        using "2.prems"(2) head False by (auto simp: lane_book_def)
      have step: "collect_outputs streams i spec x rest (written @ [?l]) (out @ [cue]) = (w', cs')"
        using "2.prems"(3) False not_skip by (simp add: Let_def split: if_splits)
      from "2.IH"(3) [OF refl False not_skip rest book step] True show ?thesis by auto
    next
      case takes: False
      then have skip: "\<not> (fle (sp_in_lo spec) x \<and> fle x (sp_in_hi spec))
          \<and> \<not> is_edge (lane_domains streams ?l) i x"
        by (auto simp: takes_def)
      have step: "collect_outputs streams i spec x rest written out = (w', cs')"
        using "2.prems"(3) False skip by (simp add: Let_def split: if_splits)
      from "2.IH"(2) [OF refl False skip rest "2.prems"(2) step] takes show ?thesis by auto
    qed
  qed
qed simp

text \<open>The lanes the functions of \<open>part\<close> write for this gesture.\<close>

definition written_by ::
  "(nat \<times> stream_spec) list \<Rightarrow> pyval list \<Rightarrow> (nat \<times> stream_spec) list \<Rightarrow> lane set" where
  "written_by streams args part =
     {output_lane out | i sp out x. (i, sp) \<in> set part \<and> stream_input sp args = Some x
        \<and> out \<in> set (sp_outputs sp) \<and> takes streams i sp (output_lane out) x}"

lemma stream_input_finite: "stream_input sp args = Some x \<Longrightarrow> isfinite x"
  by (auto simp: stream_input_def split: if_splits option.splits)

lemma written_by_Cons:
  "written_by streams args ((i, sp) # part) =
     (case stream_input sp args of None \<Rightarrow> {}
      | Some x \<Rightarrow> {output_lane out | out. out \<in> set (sp_outputs sp) \<and> takes streams i sp (output_lane out) x})
     \<union> written_by streams args part"
  by (auto simp: written_by_def split: option.splits)

lemma collect_loop_book:
  assumes "\<forall>(i, sp) \<in> set part. stream_finite sp" and "lane_book dev w cs"
  shows "\<exists>w' cs'. collect_loop streams dev args part w cs = Some cs' \<and> lane_book dev w' cs'
    \<and> set w' = set w \<union> written_by streams args part"
  using assms
proof (induction part arbitrary: w cs)
  case Nil
  then show ?case by (auto simp: written_by_def)
next
  case (Cons p part)
  obtain i sp where p: "p = (i, sp)" by (cases p)
  from Cons.prems(1) p have fin: "stream_finite sp" and part: "\<forall>(i, sp) \<in> set part. stream_finite sp"
    by auto
  show ?case
  proof (cases "stream_input sp args")
    case None
    with Cons.IH [OF part Cons.prems(2)] p show ?thesis by (simp add: written_by_Cons)
  next
    case (Some x)
    from stream_cues_from_finite [OF fin stream_input_finite [OF Some] order_refl, of dev]
    obtain new where new: "stream_cues sp dev args = Some new" "length new = length (sp_outputs sp)"
      "\<forall>(c, out) \<in> set (zip new (sp_outputs sp)). cue_lane c = Some (deliver dev (output_lane out)) \<and> byte_cue c"
      using Some by (auto simp: stream_cues_def)
    obtain w1 cs1 where c1: "collect_outputs streams i sp x (zip new (sp_outputs sp)) w cs = (w1, cs1)"
      by (cases "collect_outputs streams i sp x (zip new (sp_outputs sp)) w cs")
    from collect_outputs_book [OF new(3) Cons.prems(2) c1] have book: "lane_book dev w1 cs1"
      and w1: "set w1 = set w \<union> {output_lane out | out. out \<in> set (sp_outputs sp)
        \<and> takes streams i sp (output_lane out) x}"
      using new(2) by (auto simp: set_zip in_set_conv_nth)
    from Cons.IH [OF part book] obtain w' cs' where
      "collect_loop streams dev args part w1 cs1 = Some cs'" "lane_book dev w' cs'"
      "set w' = set w1 \<union> written_by streams args part"
      by blast
    with p Some new(1) c1 w1 show ?thesis
      by (intro exI [of _ w'] exI [of _ cs']) (simp add: written_by_Cons Un_assoc)
  qed
qed

lemma validate_stream_finite:
  assumes "validate_stream fn ow = None"
  obtains sp where "f_stream fn = Some sp" and "stream_finite sp" and "flt (sp_in_lo sp) (sp_in_hi sp)"
  using assms by (auto simp: validate_stream_def stream_finite_def validate_stream_output_def
      split: option.splits)

text \<open>
  For streams the loader accepted, mapping a gesture never raises. The cues are bytes, no lane
  is written twice, and the lanes written are exactly those some function takes the value for: the
  value lies in the function's domain, or beyond the lane's outermost domain that function owns.
\<close>
theorem collected_stream_lanes:
  assumes "\<forall>fn \<in> set fns. validate_stream fn OBit = None"
    and "specs = map (the \<circ> f_stream) fns"
  shows "\<exists>lanes cs. collect_stream_cues specs dev args = Some cs
    \<and> distinct lanes \<and> map cue_lane cs = map (Some \<circ> deliver dev) lanes
    \<and> (\<forall>c \<in> set cs. byte_cue c)
    \<and> set lanes = written_by (enumerate 0 specs) args (enumerate 0 specs)"
proof -
  have "\<forall>(i, sp) \<in> set (enumerate 0 specs). stream_finite sp"
  proof (clarify)
    fix i sp assume "(i, sp) \<in> set (enumerate 0 specs)"
    then have "sp \<in> set specs" by (auto simp: enumerate_eq_zip dest: set_zip_rightD)
    with assms obtain fn where "fn \<in> set fns" "sp = the (f_stream fn)" by auto
    with assms(1) show "stream_finite sp" by (auto elim!: validate_stream_finite)
  qed
  from collect_loop_book [OF this, of dev "[]" "[]" "enumerate 0 specs" args] show ?thesis
    by (auto simp: lane_book_def collect_stream_cues_def Let_def)
qed

definition sample_tilt :: func where
  "sample_tilt = \<lparr>f_name = ''tilt_hue'', f_description = ''Tilt sweeps the hue'', f_target = None,
     f_condition = None, f_script = [], f_kind = STREAM, f_generator = None,
     f_stream = Some \<lparr>sp_verb = ''tilt'', sp_arg = 0, sp_in_lo = Fin (- 90), sp_in_hi = Fin 90,
       sp_outputs = [\<lparr>so_dev = TARGET, so_status = 176, so_data1 = 74, so_lo = Fin 0,
                      so_hi = Fin 127, so_mode = ''linear''\<rparr>]\<rparr>\<rparr>"

lemma collected_stream_lanes_witness:
  "\<exists>lanes cs. collect_stream_cues [the (f_stream sample_tilt)] ''ie1'' [VFloat (Fin 300)] = Some cs
    \<and> distinct lanes \<and> map cue_lane cs = map (Some \<circ> deliver ''ie1'') lanes
    \<and> length cs = length lanes"
proof -
  have "validate_stream sample_tilt OBit = None"
    by (simp add: sample_tilt_def validate_stream_def validate_stream_output_def check_dev_def
        bad_byte_def STREAM_MODES_def)
  then have "\<forall>fn \<in> set [sample_tilt]. validate_stream fn OBit = None" by simp
  from collected_stream_lanes [OF this, of "[the (f_stream sample_tilt)]" "''ie1''" "[VFloat (Fin 300)]"]
  obtain lanes cs where *: "collect_stream_cues [the (f_stream sample_tilt)] ''ie1'' [VFloat (Fin 300)] = Some cs"
    "distinct lanes" "map cue_lane cs = map (Some \<circ> deliver ''ie1'') lanes"
    by auto
  moreover have "length cs = length lanes"
    using arg_cong [OF *(3), of length] by simp
  ultimately show ?thesis by blast
qed

subsection \<open>Domains of one verb meet at most at a point\<close>

lemma adjacent_sorted_wrt:
  assumes "\<not> adjacent_overlap ivs" and "\<forall>(lo, hi) \<in> set ivs. flt lo hi"
  shows "sorted_wrt (\<lambda>a b. fle (snd a) (fst b)) ivs"
  using assms
proof (induction ivs rule: adjacent_overlap.induct)
  case (1 lo1 hi1 lo2 hi2 rest)
  then have sorted: "sorted_wrt (\<lambda>a b. fle (snd a) (fst b)) ((lo2, hi2) # rest)"
    and le: "fle hi1 lo2" and lt: "flt lo2 hi2"
    using fle_total [of hi1 lo2] by (auto simp: flt_def)
  have "fle hi1 (fst b)" if "b \<in> set rest" for b
    using sorted that le lt by (force simp: fle_def flt_def)
  with sorted le show ?case by auto
qed auto

lemma sorted_wrt_two:
  assumes "sorted_wrt R xs" and "{#a, b#} \<subseteq># mset xs"
  shows "R a b \<or> R b a"
proof -
  from assms(2) have "a \<in> set xs"
    by (metis mset_subset_eqD set_mset_mset union_single_eq_member add_mset_add_single add_mset_commute)
  then obtain us vs where xs: "xs = us @ a # vs" by (meson split_list)
  with assms(2) have "{#b#} \<subseteq># mset us + mset vs" by (simp add: insert_subset_eq_iff)
  then have "b \<in> set us \<union> set vs" by simp
  with assms(1) show ?thesis by (auto simp: xs sorted_wrt_append)
qed

lemma dget_add_interval_fold:
  "dget (foldl (\<lambda>d (l, iv). add_interval l iv d) d ivs) k =
     (case dget d k of
        Some vs \<Rightarrow> Some (vs @ map snd (filter (\<lambda>p. fst p = k) ivs))
      | None \<Rightarrow> (if filter (\<lambda>p. fst p = k) ivs = [] then None
                 else Some (map snd (filter (\<lambda>p. fst p = k) ivs))))"
  by (induction ivs arbitrary: d) (auto simp: add_interval_def split: option.splits)

lemma mset_stream_intervals:
  "mset (stream_intervals specs) = (\<Sum>sp \<in># mset specs. mset (map (\<lambda>out.
     ((output_lane out, sp_verb sp), sp_in_lo sp, sp_in_hi sp)) (sp_outputs sp)))"
  by (induction specs) (auto simp: stream_intervals_def)

lemma two_nth_mset:
  assumes "i < j" and "j < length xs"
  shows "{#xs ! i, xs ! j#} \<subseteq># mset xs"
  using assms
proof (induction xs arbitrary: i j)
  case (Cons x xs)
  then obtain j' where j: "j = Suc j'" by (cases j) auto
  show ?case
  proof (cases i)
    case 0
    with Cons.prems j show ?thesis by (simp add: insert_subset_eq_iff)
  next
    case (Suc i')
    with Cons j have "{#xs ! i', xs ! j'#} \<subseteq># mset xs" by simp
    with Suc j show ?thesis by (simp add: subset_mset.order_trans)
  qed
qed simp

text \<open>Two outputs of different streams on one lane and verb give two entries of that lane's list.\<close>

lemma two_interval_entries:
  assumes "i < j" and "j < length specs"
    and "oi \<in> set (sp_outputs (specs ! i))" and "oj \<in> set (sp_outputs (specs ! j))"
    and "output_lane oi = l" and "output_lane oj = l"
    and "sp_verb (specs ! i) = v" and "sp_verb (specs ! j) = v"
  shows "{#((l, v), sp_in_lo (specs ! i), sp_in_hi (specs ! i)),
           ((l, v), sp_in_lo (specs ! j), sp_in_hi (specs ! j))#} \<subseteq># mset (stream_intervals specs)"
proof -
  let ?F = "\<lambda>sp. mset (map (\<lambda>out. ((output_lane out, sp_verb sp), sp_in_lo sp, sp_in_hi sp)) (sp_outputs sp))"
  have "?F (specs ! i) + ?F (specs ! j) = (\<Sum>sp \<in># {#specs ! i, specs ! j#}. ?F sp)" by simp
  also have "\<dots> \<subseteq># (\<Sum>sp \<in># mset specs. ?F sp)"
    using two_nth_mset [OF assms(1,2)]
    by (metis (no_types, lifting) image_mset_subseteq_mono mset_subset_eq_exists_conv sum_mset.union)
  finally have sub: "?F (specs ! i) + ?F (specs ! j) \<subseteq># mset (stream_intervals specs)"
    by (simp only: mset_stream_intervals)
  have "((l, v), sp_in_lo (specs ! i), sp_in_hi (specs ! i)) \<in># ?F (specs ! i)"
    and "((l, v), sp_in_lo (specs ! j), sp_in_hi (specs ! j)) \<in># ?F (specs ! j)"
    using assms(3-8) by (auto simp: image_iff intro: bexI [of _ oi] bexI [of _ oj])
  then have "{#((l, v), sp_in_lo (specs ! i), sp_in_hi (specs ! i))#}
      + {#((l, v), sp_in_lo (specs ! j), sp_in_hi (specs ! j))#} \<subseteq># ?F (specs ! i) + ?F (specs ! j)"
    by (intro subset_mset.add_mono) simp_all
  from subset_mset.order_trans [OF this sub] show ?thesis by (simp add: add_mset_commute)
qed

lemma lane_intervals_sound:
  assumes "validate_stream_lane_overlap specs = None"
    and "\<forall>(l, iv) \<in> set (stream_intervals specs). flt (fst iv) (snd iv)"
    and "{#(k, a), (k, b)#} \<subseteq># mset (stream_intervals specs)"
  shows "fle (snd a) (fst b) \<or> fle (snd b) (fst a)"
proof -
  define ivs where "ivs = map snd (filter (\<lambda>p. fst p = k) (stream_intervals specs))"
  have "{#a, b#} = image_mset snd (filter_mset (\<lambda>p. fst p = k) {#(k, a), (k, b)#})" by simp
  also have "\<dots> \<subseteq># image_mset snd (filter_mset (\<lambda>p. fst p = k) (mset (stream_intervals specs)))"
    by (intro image_mset_subseteq_mono multiset_filter_mono assms(3))
  finally have two: "{#a, b#} \<subseteq># mset ivs" by (simp add: ivs_def mset_filter)
  then have "ivs \<noteq> []" by auto
  then have "dget (lane_intervals specs) k = Some ivs"
    by (simp add: lane_intervals_def dget_add_interval_fold ivs_def)
  with assms(1) have "\<not> adjacent_overlap (sort_key fst ivs)"
    by (auto simp: validate_stream_lane_overlap_def list_ex_iff dest: map_of_SomeD)
  moreover have "\<forall>(lo, hi) \<in> set (sort_key fst ivs). flt lo hi"
    using assms(2) by (force simp: ivs_def)
  ultimately have "sorted_wrt (\<lambda>a b. fle (snd a) (fst b)) (sort_key fst ivs)"
    by (rule adjacent_sorted_wrt)
  from sorted_wrt_two [OF this] two show ?thesis by simp
qed

text \<open>
  When the loader accepts a set of streams, two functions of one verb that write the same lane
  agree on no input value but a shared end point: the upper end of one domain that is the lower end
  of the other.
\<close>
theorem stream_domains_meet_at_ends:
  assumes "validate_stream_lane_overlap specs = None"
    and "\<forall>sp \<in> set specs. flt (sp_in_lo sp) (sp_in_hi sp)"
    and "i < j" and "j < length specs" and "sp_verb (specs ! i) = sp_verb (specs ! j)"
    and "oi \<in> set (sp_outputs (specs ! i))" and "oj \<in> set (sp_outputs (specs ! j))"
    and "output_lane oi = output_lane oj"
    and "fle (sp_in_lo (specs ! i)) x \<and> fle x (sp_in_hi (specs ! i))"
    and "fle (sp_in_lo (specs ! j)) x \<and> fle x (sp_in_hi (specs ! j))"
  shows "x = sp_in_hi (specs ! i) \<and> x = sp_in_lo (specs ! j)
    \<or> x = sp_in_hi (specs ! j) \<and> x = sp_in_lo (specs ! i)"
proof -
  have "\<forall>(l, iv) \<in> set (stream_intervals specs). flt (fst iv) (snd iv)"
    using assms(2) by (auto simp: stream_intervals_def)
  from lane_intervals_sound [OF assms(1) this
      two_interval_entries [OF assms(3,4,6,7) refl assms(8) [symmetric] refl assms(5) [symmetric]]]
  have "fle (sp_in_hi (specs ! i)) (sp_in_lo (specs ! j))
      \<or> fle (sp_in_hi (specs ! j)) (sp_in_lo (specs ! i))"
    by simp
  with assms(9,10) show ?thesis by (auto simp: fle_def)
qed

definition left_half :: stream_spec where
  "left_half = \<lparr>sp_verb = ''tilt'', sp_arg = 0, sp_in_lo = Fin (- 90), sp_in_hi = Fin 0,
     sp_outputs = [\<lparr>so_dev = TARGET, so_status = 176, so_data1 = 74, so_lo = Fin 0, so_hi = Fin 50,
                    so_mode = ''linear''\<rparr>]\<rparr>"

definition right_half :: stream_spec where
  "right_half = \<lparr>sp_verb = ''tilt'', sp_arg = 0, sp_in_lo = Fin 0, sp_in_hi = Fin 90,
     sp_outputs = [\<lparr>so_dev = TARGET, so_status = 176, so_data1 = 74, so_lo = Fin 70, so_hi = Fin 127,
                    so_mode = ''linear''\<rparr>]\<rparr>"

lemma halves_accepted: "validate_stream_lane_overlap [right_half, left_half] = None"
  by (simp add: validate_stream_lane_overlap_def lane_intervals_def stream_intervals_def
      left_half_def right_half_def add_interval_def output_lane_def)

lemma stream_domains_meet_at_ends_witness:
  "fle (sp_in_lo right_half) (Fin 0) \<and> fle (Fin 0) (sp_in_hi left_half)
   \<and> (Fin 0 = sp_in_hi right_half \<and> Fin 0 = sp_in_lo left_half
      \<or> Fin 0 = sp_in_hi left_half \<and> Fin 0 = sp_in_lo right_half)"
proof -
  have "\<forall>sp \<in> set [right_half, left_half]. flt (sp_in_lo sp) (sp_in_hi sp)"
    by (simp add: left_half_def right_half_def)
  from stream_domains_meet_at_ends [OF halves_accepted this, of 0 1
      "hd (sp_outputs right_half)" "hd (sp_outputs left_half)" "Fin 0"]
  show ?thesis by (simp add: left_half_def right_half_def output_lane_def)
qed

text \<open>
  At a shared end point the function declared first applies, whichever side of the point its
  domain is on: with the upper half declared before the lower one, the value 0 is mapped by the
  upper half (to its first value, 70) and not by the function whose upper end 0 is.
\<close>
theorem end_point_goes_to_first_declared:
  "collect_stream_cues [right_half, left_half] dev [VInt 0] = Some [Midi dev 176 74 70]
   \<and> collect_stream_cues [left_half, right_half] dev [VInt 0] = Some [Midi dev 176 74 50]"
  by (simp add: collect_stream_cues_def stream_cues_def stream_input_def stream_value_def
      left_half_def right_half_def output_lane_def py_round_def Let_def)

end
