(* ===== verification/Instrument_Facts.thy ===== *)
theory Instrument_Facts
  imports Instruments Function_Facts
begin

section \<open>What a validated instrument guarantees\<close>

text \<open>
  The built-ins exist exactly for the capabilities that support them and always run; an instrument that
  passed validation shadows none of them, and what its own functions expand to is always of a kind the
  instrument accepts, so a fire on it is never refused for its content.
\<close>

lemma dget_function_dict:
  "dget (foldl (\<lambda>d fn. dset (f_name fn) fn d) d0 fns) name = Some fn \<Longrightarrow>
   dget d0 name = Some fn \<or> (fn \<in> set fns \<and> f_name fn = name)"
  by (induction fns arbitrary: d0) (force split: if_splits)+

lemma function_dict_ok: "dict_ok d0 \<Longrightarrow> dict_ok (foldl (\<lambda>d fn. dset (f_name fn) fn d) d0 fns)"
  by (induction fns arbitrary: d0) auto

lemma validate_entries_each:
  "validate_entries ow verbs lanes streams table = None \<Longrightarrow> (key, fn) \<in> set table \<Longrightarrow>
   \<exists>lanes'. validate_entry ow verbs lanes' key fn = None"
  by (induction ow verbs lanes streams table rule: validate_entries.induct)
    (auto split: option.splits)

lemma expand_kinds:
  assumes "expand_steps t0 devs steps = Some cs" and "\<forall>s \<in> set steps. cue_kind (st_cue s) \<in> K"
  shows "\<forall>c \<in> set cs. cue_kind c \<in> K"
  using assms
proof (induction steps arbitrary: cs)
  case (Cons s steps)
  then obtain c1 c2 where "expand_step t0 devs s = Some c1" "expand_steps t0 devs steps = Some c2" "cs = c1 @ c2"
    by (auto split: option.splits)
  moreover from this(1) Cons.prems(2) have "\<forall>c \<in> set c1. cue_kind c \<in> K"
    by (auto simp: expand_step_def Let_def split: cue.splits)
  ultimately show ?case using Cons by auto
qed simp

lemma unaccepted_step_None:
  "unaccepted_step accepted i steps = None \<longleftrightarrow> (\<forall>s \<in> set steps. cue_kind (st_cue s) \<in> set accepted)"
  by (induction accepted i steps rule: unaccepted_step.induct) auto

text \<open>
  A validated instrument's own functions always play. For every name a validated instrument
  declares, the function filed under it is no reserved built-in name, and a scripted one expands on any
  set of devices into cues of kinds the instrument accepts, in presentation order.
\<close>
theorem validated_instrument_plays:
  assumes v: "validate_instrument inst = None"
    and fn: "dget (function_dict (i_functions inst)) name = Some fn"
  shows "name \<notin> set RESERVED_NAMES \<and> name \<notin> set (dkeys (builtin_functions inst))
    \<and> (f_kind fn = SCRIPTED \<longrightarrow>
        (\<exists>cs. expand_script fn (Fin t0) devs = Some cs \<and> cs \<noteq> [] = (devs \<noteq> [])
           \<and> sorted (cue_times cs) \<and> (\<forall>c \<in> set cs. cue_kind c \<in> set (i_accepted_cues inst))))"
proof -
  have mem: "fn \<in> set (i_functions inst)" and nm: "f_name fn = name"
    using dget_function_dict [OF fn [unfolded function_dict_def]] by simp_all
  have tab: "validate_function_table (function_dict (i_functions inst)) [] OInstrument = None"
    and own: "check_own_cues inst fn = None"
    using v mem by (auto simp: validate_instrument_def)
  obtain verbs lanes where e: "validate_entry OInstrument verbs lanes name fn = None"
    using validate_entries_each [OF tab [unfolded validate_function_table_def] map_of_SomeD [OF fn]] by blast
  have res: "name \<notin> set RESERVED_NAMES" using e nm by (simp add: validate_entry_def)
  have "set (dkeys (builtin_functions inst)) \<subseteq> set RESERVED_NAMES"
    by (auto simp: builtin_functions_def RESERVED_NAMES_def Let_def)
  moreover have "\<exists>cs. expand_script fn (Fin t0) devs = Some cs \<and> cs \<noteq> [] = (devs \<noteq> [])
           \<and> sorted (cue_times cs) \<and> (\<forall>c \<in> set cs. cue_kind c \<in> set (i_accepted_cues inst))"
    if k: "f_kind fn = SCRIPTED"
  proof -
    have scr: "validate_script fn OInstrument = None" and ne: "f_script fn \<noteq> []"
      and own_t: "\<forall>s \<in> set (f_script fn). cue_dev (st_cue s) = Some TARGET"
      using e k by (auto simp: validate_entry_def validate_kind_def check_own_steps_def)
    obtain cs where cs: "expand_script fn (Fin t0) devs = Some cs" "sorted (cue_times cs)"
      "length cs = sum_list (map (fanout devs) (f_script fn))"
      using accepted_steps_expand [OF scr] by blast
    have "map (fanout devs) (f_script fn) = map (\<lambda>_. length devs) (f_script fn)"
      using own_t by (simp add: fanout_def)
    then have "length cs = length (f_script fn) * length devs"
      by (simp only: cs(3) sum_list_triv of_nat_id)
    then have "cs \<noteq> [] = (devs \<noteq> [])" using ne by (metis length_0_conv mult_eq_0_iff)
    moreover have "\<forall>s \<in> set (f_script fn). cue_kind (st_cue s) \<in> set (i_accepted_cues inst)"
      using own k by (simp add: check_own_cues_def unaccepted_step_None)
    with cs(1) have "\<forall>c \<in> set cs. cue_kind c \<in> set (i_accepted_cues inst)"
      unfolding expand_script_def by (rule expand_kinds)
    ultimately show ?thesis using cs by blast
  qed
  ultimately show ?thesis using res by blast
qed

lemma tuneshroom_validates: "validate_instrument (TUNESHROOM [step_at 0 (Midi TARGET 144 60 100)]) = None"
  by code_simp

lemma validated_instrument_plays_witness:
  "\<exists>fn cs. dget (function_dict (i_functions (TUNESHROOM [step_at 0 (Midi TARGET 144 60 100)]))) ''win'' = Some fn
     \<and> expand_script fn (Fin 5) [''ie1''] = Some cs \<and> cs \<noteq> []"
proof -
  have "(case dget (function_dict (i_functions (TUNESHROOM [step_at 0 (Midi TARGET 144 60 100)]))) ''win'' of
      None \<Rightarrow> False | Some fn \<Rightarrow> f_kind fn = SCRIPTED)"
    by code_simp
  then obtain fn where
    "dget (function_dict (i_functions (TUNESHROOM [step_at 0 (Midi TARGET 144 60 100)]))) ''win'' = Some fn"
    "f_kind fn = SCRIPTED"
    by (auto split: option.splits)
  with validated_instrument_plays [OF tuneshroom_validates this(1), of 5 "[''ie1'']"] show ?thesis by auto
qed

text \<open>
  Built-ins follow the capabilities, and none can fail. \<open>flash\<close> is offered exactly on an
  instrument with a light, \<open>ping\<close> exactly with samples or a FluidSynth voice, \<open>stop\<close> exactly with any
  of these; each is a scripted function under its own name whose script passes the instrument validation.
\<close>
theorem builtins_follow_capabilities:
  "(dmem ''flash'' (builtin_functions inst) \<longleftrightarrow> has_light inst)
   \<and> (dmem ''ping'' (builtin_functions inst) \<longleftrightarrow>
        ''audio.samples'' \<in> i_capabilities inst \<or> ''audio.flsyn'' \<in> i_capabilities inst)
   \<and> (dmem ''stop'' (builtin_functions inst) \<longleftrightarrow>
        has_light inst \<or> ''audio.samples'' \<in> i_capabilities inst \<or> ''audio.flsyn'' \<in> i_capabilities inst)
   \<and> dict_ok (builtin_functions inst)
   \<and> list_all (\<lambda>(name, fn). f_name fn = name \<and> f_kind fn = SCRIPTED \<and> f_script fn \<noteq> []
        \<and> validate_script fn OInstrument = None) (builtin_functions inst)"
  by (auto simp: builtin_functions_def Let_def dmem_def scripted_def step_at_def validate_script_def
      validate_offset_def validate_step_cue_def check_dev_def bad_byte_def refuse_def WHITE_W_def
      PING_KEY_def PING_VEL_def PING_OFF_OFFSET_def split: if_splits)

text \<open>
  \<open>stop\<close> is not offered on a microphone. The docstring of \<open>builtin_functions\<close> says \<open>stop\<close> needs any
  \<open>light.*\<close> or \<open>audio.*\<close> capability; an instrument whose only capability is \<open>audio.mic\<close> gets none.
\<close>
theorem stop_not_for_a_microphone:
  "builtin_functions (DEFAULTSHROOM\<lparr>i_capabilities := {''audio.mic''}\<rparr>) = []"
  by (simp add: builtin_functions_def has_light_def Let_def)

text \<open>
  The capability contract. \<open>satisfies\<close> accepts an instrument exactly when it has every required
  capability and, where the slot asks for pixels, the surface's pixel count is known and large enough.
\<close>
theorem satisfies_iff_contract:
  "satisfies inst req px = None \<longleftrightarrow>
     rq_capabilities req \<subseteq> i_capabilities inst
     \<and> (rq_min_pixels req = 0 \<or> (\<exists>n. px = Some n \<and> rq_min_pixels req \<le> n))"
  by (auto simp: satisfies_def Let_def split: option.splits)

end
