(* ===== verification/Registration.thy ===== *)
theory Registration
  imports Instruments
begin

section \<open>Roles and who holds them\<close>

text \<open>
  \<open>src/control/roles.py\<close>, \<open>src/control/registration.py\<close> and \<open>src/control/jam_role.py\<close>: the static
  role table of a Bit, the runtime registration state (reservations in SETUP, assignments from
  RUNNING) and the choice of a jam role. A lookup of an undeclared role name raises \<open>KeyError\<close> in the
  source; the operations that can do so return an option, \<open>None\<close> being the exception. The texts of
  denials (\<open>hint\<close>) are not modelled.
\<close>

datatype role_class = UNIQUE | SHARED | JAM | CLASS_ROOM

record role =
  r_name :: string
  r_class :: role_class
  r_capacity :: "int option"
  r_scored :: bool
  r_uses :: "string list"
  r_samples :: "string list"
  r_ugen_manifest :: pyval
  r_light_manifest :: pyval
  r_welcome :: "pyval option"
  r_breath :: bool
  r_requires :: "string option"
  r_zones :: "(string \<times> int \<times> int) list"

type_synonym node = string

record role_table =
  rt_roles :: "(string, role) dict"
  rt_node_map :: "(node, string list) dict"

text \<open>Why a join is denied. A stale handshake is dropped with no reason at all.\<close>

datatype reason =
    NoSuchNode | ScoredFull | RegistrationClosed | NotConnected | SlotUnmet unmet | NoReason

record join_result =
  jr_granted :: bool
  jr_role :: "string option"
  jr_class :: "role_class option"
  jr_scored :: "bool option"
  jr_breath :: "bool option"
  jr_reason :: reason
  jr_slot :: "string option"
  jr_instrument :: "string option"
  jr_zones :: "(string \<times> int \<times> int) list"

definition denied :: "reason \<Rightarrow> join_result" where
  "denied why = \<lparr>jr_granted = False, jr_role = None, jr_class = None, jr_scored = None,
     jr_breath = None, jr_reason = why, jr_slot = None, jr_instrument = None, jr_zones = []\<rparr>"

definition granted_result :: "role \<Rightarrow> join_result" where
  "granted_result r = \<lparr>jr_granted = True, jr_role = Some (r_name r), jr_class = Some (r_class r),
     jr_scored = Some (r_scored r), jr_breath = Some (r_breath r), jr_reason = NoReason,
     jr_slot = None, jr_instrument = None, jr_zones = []\<rparr>"

text \<open>The registration state. A counter that is not in \<open>rg_counts\<close> reads as 0; the invariant below
  says every role of the table has one.\<close>

record registration =
  rg_table :: role_table
  rg_max_scored :: "int option"
  rg_assignments :: "(dev, node \<times> string \<times> role_class) dict"
  rg_validated :: "(dev, node \<times> string) dict"
  rg_counts :: "(string, int) dict"

abbreviation roles_of :: "registration \<Rightarrow> (string, role) dict" where
  "roles_of reg \<equiv> rt_roles (rg_table reg)"

definition new_registration :: "role_table \<Rightarrow> int option \<Rightarrow> registration" where
  "new_registration table max_scored =
     \<lparr>rg_table = table, rg_max_scored = max_scored, rg_assignments = [], rg_validated = [],
      rg_counts = map (\<lambda>(name, _). (name, 0)) (rt_roles table)\<rparr>"

definition count_of :: "registration \<Rightarrow> string \<Rightarrow> int" where
  "count_of reg name = (case dget (rg_counts reg) name of Some n \<Rightarrow> n | None \<Rightarrow> 0)"

definition bump :: "string \<Rightarrow> int \<Rightarrow> registration \<Rightarrow> registration" where
  "bump name d reg = reg\<lparr>rg_counts := dset name (count_of reg name + d) (rg_counts reg)\<rparr>"

subsection \<open>The scored cap\<close>

fun scored_cap_from :: "(string \<times> role) list \<Rightarrow> int option \<Rightarrow> int \<Rightarrow> int option" where
  "scored_cap_from [] max_scored tot =
     (case max_scored of Some m \<Rightarrow> Some (min tot m) | None \<Rightarrow> Some tot)"
| "scored_cap_from ((_, r) # rest) max_scored tot =
     (if \<not> r_scored r \<or> r_class r = CLASS_ROOM then scored_cap_from rest max_scored tot
      else case r_capacity r of
             None \<Rightarrow> max_scored
           | Some c \<Rightarrow> scored_cap_from rest max_scored (tot + c))"

definition scored_cap :: "registration \<Rightarrow> int option" where
  "scored_cap reg = scored_cap_from (roles_of reg) (rg_max_scored reg) 0"

definition role_full :: "registration \<Rightarrow> string \<Rightarrow> role \<Rightarrow> bool" where
  "role_full reg name r \<longleftrightarrow> (case r_capacity r of None \<Rightarrow> False | Some c \<Rightarrow> c \<le> count_of reg name)"

subsection \<open>Reserving a scored slot\<close>

fun validate_loop ::
  "registration \<Rightarrow> dev \<Rightarrow> node \<Rightarrow> bool \<Rightarrow> string list \<Rightarrow> (join_result \<times> registration) option" where
  "validate_loop reg dev node saw_scored [] =
     Some (denied (if saw_scored then ScoredFull else NoSuchNode), reg)"
| "validate_loop reg dev node saw_scored (name # rest) =
     (case dget (roles_of reg) name of
        None \<Rightarrow> None
      | Some r \<Rightarrow>
          if \<not> r_scored r \<or> r_class r = CLASS_ROOM then validate_loop reg dev node saw_scored rest
          else if role_full reg name r then validate_loop reg dev node True rest
          else Some (granted_result r,
                     bump name 1 (reg\<lparr>rg_validated := dset dev (node, name) (rg_validated reg)\<rparr>)))"

definition validate :: "registration \<Rightarrow> dev \<Rightarrow> node \<Rightarrow> (join_result \<times> registration) option" where
  "validate reg dev node =
     (case dget (rg_validated reg) dev of
        Some (_, name) \<Rightarrow>
          map_option (\<lambda>r. (granted_result r, reg)) (dget (roles_of reg) name)
      | None \<Rightarrow>
          (case dget (rt_node_map (rg_table reg)) node of
             None \<Rightarrow> Some (denied NoSuchNode, reg)
           | Some [] \<Rightarrow> Some (denied NoSuchNode, reg)
           | Some candidates \<Rightarrow>
               if (case scored_cap reg of None \<Rightarrow> False
                   | Some cap \<Rightarrow> cap \<le> int (length (rg_validated reg)))
               then Some (denied ScoredFull, reg)
               else validate_loop reg dev node False candidates))"

subsection \<open>Releasing and assigning\<close>

definition drop_validation :: "dev \<Rightarrow> registration \<Rightarrow> registration" where
  "drop_validation dev reg =
     (case dget (rg_validated reg) dev of
        None \<Rightarrow> reg
      | Some (_, name) \<Rightarrow> bump name (- 1) (reg\<lparr>rg_validated := dpop dev (rg_validated reg)\<rparr>))"

definition drop_assignment :: "dev \<Rightarrow> registration \<Rightarrow> registration" where
  "drop_assignment dev reg =
     (case dget (rg_assignments reg) dev of
        None \<Rightarrow> reg
      | Some (_, name, _) \<Rightarrow>
          bump name (- 1) (reg\<lparr>rg_assignments := dpop dev (rg_assignments reg)\<rparr>))"

definition release :: "dev \<Rightarrow> registration \<Rightarrow> registration" where
  "release dev reg = drop_assignment dev (drop_validation dev reg)"

definition release_held :: "dev \<Rightarrow> registration \<Rightarrow> bool" where
  "release_held dev reg \<longleftrightarrow> dmem dev (rg_validated reg) \<or> dmem dev (rg_assignments reg)"

definition release_all :: "registration \<Rightarrow> dev list \<times> registration" where
  "release_all reg =
     (let devs = dkeys (rg_assignments reg);
          reg' = foldl (\<lambda>g d. release d g) reg (dkeys (rg_validated reg))
      in (devs, foldl (\<lambda>g d. release d g) reg' devs))"

definition holds_role :: "registration \<Rightarrow> dev \<Rightarrow> string \<Rightarrow> bool" where
  "holds_role reg dev name \<longleftrightarrow>
     (case dget (rg_assignments reg) dev of None \<Rightarrow> False | Some (_, held, _) \<Rightarrow> held = name)"

definition add_role :: "role \<Rightarrow> registration \<Rightarrow> registration" where
  "add_role r reg =
     reg\<lparr>rg_table := (rg_table reg)\<lparr>rt_roles := dsetdefault (r_name r) r (roles_of reg)\<rparr>,
         rg_counts := dsetdefault (r_name r) 0 (rg_counts reg)\<rparr>"

text \<open>\<open>assign\<close>: the new state and whether anything changed.\<close>

definition assign :: "dev \<Rightarrow> node \<Rightarrow> role \<Rightarrow> registration \<Rightarrow> bool \<times> registration" where
  "assign dev node r reg =
     (if holds_role reg dev (r_name r) then (False, reg)
      else (let reg1 = add_role r (release dev reg)
            in (True, bump (r_name r) 1
                 (reg1\<lparr>rg_assignments := dset dev (node, r_name r, r_class r) (rg_assignments reg1)\<rparr>))))"

fun join_room_loop ::
  "registration \<Rightarrow> dev \<Rightarrow> node \<Rightarrow> string list \<Rightarrow> (join_result \<times> registration) option" where
  "join_room_loop reg dev node [] = Some (denied NoSuchNode, reg)"
| "join_room_loop reg dev node (name # rest) =
     (case dget (roles_of reg) name of
        None \<Rightarrow> None
      | Some r \<Rightarrow>
          if r_class r \<noteq> CLASS_ROOM then join_room_loop reg dev node rest
          else if \<not> holds_role reg dev name \<and> role_full reg name r
          then Some (denied RegistrationClosed, reg)
          else Some (granted_result r, snd (assign dev node r reg)))"

definition join_room :: "registration \<Rightarrow> dev \<Rightarrow> node \<Rightarrow> (join_result \<times> registration) option" where
  "join_room reg dev node =
     join_room_loop reg dev node
       (case dget (rt_node_map (rg_table reg)) node of None \<Rightarrow> [] | Some names \<Rightarrow> names)"

subsection \<open>From reservations to roles\<close>

fun move_reservations ::
  "(dev \<times> node \<times> string) list \<Rightarrow> registration \<Rightarrow> ((dev \<times> role) list \<times> registration) option" where
  "move_reservations [] reg = Some ([], reg)"
| "move_reservations ((dev, node, name) # rest) reg =
     (case dget (roles_of reg) name of
        None \<Rightarrow> None
      | Some r \<Rightarrow>
          map_option (\<lambda>(out, reg'). ((dev, r) # out, reg'))
            (move_reservations rest
              (reg\<lparr>rg_assignments := dset dev (node, name, r_class r) (rg_assignments reg)\<rparr>)))"

text \<open>The jam half. \<open>jam_for\<close> is the engine's choice and may change the Bit's own state.\<close>

fun assign_jams ::
  "('b \<Rightarrow> registration \<Rightarrow> dev \<Rightarrow> 'b \<times> role) \<Rightarrow> dev list \<Rightarrow> 'b \<Rightarrow> registration \<Rightarrow>
   (dev \<times> role) list \<times> 'b \<times> registration" where
  "assign_jams jam_for [] b reg = ([], b, reg)"
| "assign_jams jam_for (dev # devs) b reg =
     (if dmem dev (rg_assignments reg) then assign_jams jam_for devs b reg
      else (let (b', r) = jam_for b reg dev;
                (changed, reg') = assign dev '''' r reg;
                (out, b'', reg'') = assign_jams jam_for devs b' reg'
            in (if changed then (dev, r) # out else out, b'', reg'')))"

definition materialize ::
  "('b \<Rightarrow> registration \<Rightarrow> dev \<Rightarrow> 'b \<times> role) \<Rightarrow> dev list \<Rightarrow> 'b \<Rightarrow> registration \<Rightarrow>
   ((dev \<times> role) list \<times> 'b \<times> registration) option" where
  "materialize jam_for jam_devs b reg =
     (case move_reservations (rg_validated reg) (reg\<lparr>rg_validated := []\<rparr>) of
        None \<Rightarrow> None
      | Some (out, reg1) \<Rightarrow>
          (let (jams, b', reg2) = assign_jams jam_for jam_devs b reg1
           in Some (out @ jams, b', reg2)))"

definition counts :: "registration \<Rightarrow> (string \<times> int \<times> int option) list" where
  "counts reg = map (\<lambda>(_, r). (r_name r, count_of reg (r_name r), r_capacity r)) (roles_of reg)"

definition granted :: "registration \<Rightarrow> (dev \<times> string \<times> role_class) list" where
  "granted reg =
     map (\<lambda>(dev, _, name, cls). (dev, name, cls))
       (filter (\<lambda>(_, _, _, cls). cls \<noteq> CLASS_ROOM) (rg_assignments reg))"

text \<open>\<open>non_room_counts\<close> of \<open>src/control/rooms.py\<close>.\<close>

definition non_room_counts :: "registration \<Rightarrow> (string \<times> int \<times> int option) list" where
  "non_room_counts reg =
     (let room_names = map (r_name \<circ> snd) (filter (\<lambda>(_, r). r_class r = CLASS_ROOM) (roles_of reg))
      in filter (\<lambda>(name, _). name \<notin> set room_names) (counts reg))"

subsection \<open>Jam roles\<close>

definition SOLO_PREFIX :: string where "SOLO_PREFIX = ''solo:''"

definition is_solo_role :: "string \<Rightarrow> bool" where
  "is_solo_role name \<longleftrightarrow> starts_with SOLO_PREFIX name"

definition unscored_roles :: "role_table \<Rightarrow> role list" where
  "unscored_roles table =
     (let cands = filter (\<lambda>r. \<not> r_scored r \<and> r_class r \<noteq> CLASS_ROOM \<and> \<not> is_solo_role (r_name r))
                    (map snd (rt_roles table))
      in filter (\<lambda>r. r_class r = JAM) cands @ filter (\<lambda>r. r_class r \<noteq> JAM) cands)"

fun event_verb :: "string \<Rightarrow> string option" where
  "event_verb e = (if e = ''tap'' \<or> e = ''double_tap'' then Some ''tap''
                   else if e = ''shake'' then Some ''shake'' else None)"

definition solo_uses :: "solo_config \<Rightarrow> string list" where
  "solo_uses solo = filter (\<lambda>v. v \<in> set (List.map_filter event_verb (dkeys (so_bindings solo))))
     [''shake'', ''tap'']"

definition solo_role :: "instrument \<Rightarrow> role" where
  "solo_role inst =
     \<lparr>r_name = SOLO_PREFIX @ i_name inst, r_class = JAM, r_capacity = None, r_scored = False,
      r_uses = (case i_solo inst of Some solo \<Rightarrow> solo_uses solo | None \<Rightarrow> []), r_samples = [],
      r_ugen_manifest = VDict [],
      r_light_manifest = (case i_solo inst of Some solo \<Rightarrow> so_light_manifest solo
                          | None \<Rightarrow> i_light_manifest inst),
      r_welcome = None, r_breath = True, r_requires = None, r_zones = []\<rparr>"

definition solo_event :: "string \<Rightarrow> pyval list \<Rightarrow> string outcome" where
  "solo_event verb args =
     (if verb = ''tap'' \<and> 3 < length args
      then (case int_of_arg (args ! 3) of
              IntOk n \<Rightarrow> Ret (if 2 \<le> n then ''double_tap'' else verb)
            | IntRefused \<Rightarrow> Ret verb
            | IntOverflow \<Rightarrow> Raised)
      else Ret verb)"

end
