(* ===== verification/Registration_Facts.thy ===== *)
theory Registration_Facts
  imports Registration
begin

section \<open>What the registration book promises\<close>

text \<open>
  The book-keeping invariant of \<open>RegistrationState\<close> (each counter is the number of devices that hold
  the role), its preservation by every operation, the weaker one that a start of a run keeps whoever holds
  what (no counter is too low), the bounds a handshake respects, and what \<open>materialize\<close> makes of the
  reservations.
\<close>

named_theorems reg_defs \<open>definitions of the registration operations\<close>

subsection \<open>The invariant\<close>

definition holders :: "registration \<Rightarrow> string \<Rightarrow> nat" where
  "holders reg name =
     dcount (\<lambda>(_, held). held = name) (rg_validated reg)
     + dcount (\<lambda>(_, held, _). held = name) (rg_assignments reg)"

definition reg_inv :: "registration \<Rightarrow> bool" where
  "reg_inv reg \<longleftrightarrow>
     dict_ok (rg_validated reg) \<and> dict_ok (rg_assignments reg)
     \<and> (\<forall>name. count_of reg name = int (holders reg name))"

lemma reg_invD:
  assumes "reg_inv reg"
  shows "dict_ok (rg_validated reg)" and "dict_ok (rg_assignments reg)"
    and "count_of reg name = int (holders reg name)"
  using assms by (simp_all add: reg_inv_def)

lemma count_of_bump [simp]:
  "count_of (bump name d reg) n = count_of reg n + (if n = name then d else 0)"
  by (simp add: count_of_def bump_def)

lemma bump_fields [simp]:
  "rg_validated (bump name d reg) = rg_validated reg"
  "rg_assignments (bump name d reg) = rg_assignments reg"
  "rg_table (bump name d reg) = rg_table reg"
  "rg_max_scored (bump name d reg) = rg_max_scored reg"
  by (simp_all add: bump_def)

lemma count_of_update [simp]:
  "count_of (reg\<lparr>rg_validated := v\<rparr>) n = count_of reg n"
  "count_of (reg\<lparr>rg_assignments := a\<rparr>) n = count_of reg n"
  "count_of (reg\<lparr>rg_table := t\<rparr>) n = count_of reg n"
  by (simp_all add: count_of_def)

lemma count_of_add_role [simp]: "count_of (add_role r reg) n = count_of reg n"
  by (auto simp: add_role_def count_of_def split: option.splits)

lemma add_role_fields [simp]:
  "rg_validated (add_role r reg) = rg_validated reg"
  "rg_assignments (add_role r reg) = rg_assignments reg"
  by (simp_all add: add_role_def)

lemma map_of_zero: "map_of (map (\<lambda>(name, _). (name, 0::int)) d) n = Some k \<Longrightarrow> k = 0"
  by (induction d) (auto split: if_splits)

lemma new_registration_inv: "reg_inv (new_registration table cap)"
  by (auto simp: reg_inv_def new_registration_def holders_def count_of_def dest: map_of_zero
      split: option.splits)

lemma drop_validation_inv: "reg_inv reg \<Longrightarrow> reg_inv (drop_validation dev reg)"
  using dcount_dpop [of "rg_validated reg" dev]
  by (fastforce simp: reg_inv_def drop_validation_def holders_def split: option.splits prod.splits)

lemma drop_assignment_inv: "reg_inv reg \<Longrightarrow> reg_inv (drop_assignment dev reg)"
  using dcount_dpop [of "rg_assignments reg" dev]
  by (fastforce simp: reg_inv_def drop_assignment_def holders_def split: option.splits prod.splits)

lemma release_inv: "reg_inv reg \<Longrightarrow> reg_inv (release dev reg)"
  by (simp add: release_def drop_validation_inv drop_assignment_inv)

lemma release_fields [simp]:
  "rg_validated (release dev reg) = dpop dev (rg_validated reg)"
  "rg_assignments (release dev reg) = dpop dev (rg_assignments reg)"
  "rg_table (release dev reg) = rg_table reg"
  "rg_max_scored (release dev reg) = rg_max_scored reg"
  by (auto simp: release_def drop_validation_def drop_assignment_def dget_None_iff
      split: option.splits prod.splits)

lemma foldl_release_inv: "reg_inv reg \<Longrightarrow> reg_inv (foldl (\<lambda>g d. release d g) reg ds)"
  by (induction ds arbitrary: reg) (simp_all add: release_inv)

lemma foldl_release_fields:
  "rg_validated (foldl (\<lambda>g d. release d g) reg ds) = foldl (\<lambda>v d. dpop d v) (rg_validated reg) ds"
  "rg_assignments (foldl (\<lambda>g d. release d g) reg ds) = foldl (\<lambda>v d. dpop d v) (rg_assignments reg) ds"
  by (induction ds arbitrary: reg) simp_all

lemma dmem_foldl_dpop: "dmem k (foldl (\<lambda>v d. dpop d v) dict ds) \<longleftrightarrow> dmem k dict \<and> k \<notin> set ds"
  by (induction ds arbitrary: dict) auto

lemma no_key_Nil: "(\<And>k. \<not> dmem k d) \<Longrightarrow> d = []"
  by (cases d) (auto simp: dmem_def)

lemma assign_inv:
  assumes "reg_inv reg"
  shows "reg_inv (snd (assign dev node r reg))"
proof (cases "holds_role reg dev (r_name r)")
  case False
  let ?g = "release dev reg"
  have inv: "reg_inv ?g" by (rule release_inv [OF assms])
  have "\<not> dmem dev (rg_assignments ?g)" by simp
  from dcount_dset_new [OF this] inv False show ?thesis
    by (simp add: assign_def Let_def reg_inv_def holders_def)
qed (simp add: assign_def assms)

lemma validate_loop_inv:
  "validate_loop reg dev node saw names = Some (jr, reg') \<Longrightarrow> reg_inv reg \<Longrightarrow>
   \<not> dmem dev (rg_validated reg) \<Longrightarrow> reg_inv reg'"
  by (induction reg dev node saw names rule: validate_loop.induct)
    (auto simp: reg_inv_def holders_def dcount_dset_new split: option.splits if_splits)

lemma validate_cases:
  assumes "validate reg dev node = Some (jr, reg')"
  obtains (unchanged) "reg' = reg"
    | (walked) names where "validate_loop reg dev node False names = Some (jr, reg')"
        "\<not> dmem dev (rg_validated reg)"
        "\<not> (case scored_cap reg of None \<Rightarrow> False | Some cap \<Rightarrow> cap \<le> int (length (rg_validated reg)))"
  using assms
  by (auto simp: validate_def dget_None_iff simp del: validate_loop.simps
      split: option.splits prod.splits list.splits if_splits)

lemma validate_inv: "validate reg dev node = Some (jr, reg') \<Longrightarrow> reg_inv reg \<Longrightarrow> reg_inv reg'"
  by (erule validate_cases) (auto elim: validate_loop_inv)

lemma join_room_loop_inv:
  "join_room_loop reg dev node names = Some (jr, reg') \<Longrightarrow> reg_inv reg \<Longrightarrow> reg_inv reg'"
  by (induction reg dev node names rule: join_room_loop.induct)
    (auto simp: assign_inv split: option.splits if_splits)

lemma release_all_inv: "reg_inv reg \<Longrightarrow> reg_inv (snd (release_all reg))"
  by (simp add: release_all_def Let_def foldl_release_inv)

subsection \<open>What \<open>materialize\<close> may break\<close>

text \<open>
  A device that is reserved and assigned at once loses its assignment without being uncounted when its
  reservation is moved, so only half of the invariant survives every call: no counter is too low, and what
  is reserved is declared.
\<close>

definition reg_safe :: "registration \<Rightarrow> bool" where
  "reg_safe reg \<longleftrightarrow>
     dict_ok (rg_validated reg) \<and> dict_ok (rg_assignments reg)
     \<and> (\<forall>name. int (holders reg name) \<le> count_of reg name)
     \<and> (\<forall>(_, _, name) \<in> set (rg_validated reg). dmem name (roles_of reg))"

text \<open>No device is reserved and assigned at the same time.\<close>

definition apart :: "registration \<Rightarrow> bool" where
  "apart reg \<longleftrightarrow> (\<forall>d. \<not> (dmem d (rg_validated reg) \<and> dmem d (rg_assignments reg)))"

lemma dcount_dset_le: "dcount P (dset k v d) \<le> dcount P d + (if P v then 1 else 0)"
  by (induction d) auto

lemma set_dpop_subset: "set (dpop k d) \<subseteq> set d"
  by (auto simp: AList.delete_eq)

lemma set_dset_within: "set (dset k v d) \<subseteq> insert (k, v) (set d)"
  by (induction d) auto

lemma new_registration_safe: "reg_safe (new_registration table cap)"
  using new_registration_inv [of table cap] by (simp add: reg_safe_def reg_inv_def new_registration_def)

lemma drop_validation_safe: "reg_safe reg \<Longrightarrow> reg_safe (drop_validation dev reg)"
proof (cases "dget (rg_validated reg) dev")
  case (Some v)
  assume s: "reg_safe reg"
  obtain node name where v: "v = (node, name)" by fastforce
  have "dcount (\<lambda>(_, held). held = n) (rg_validated reg)
      = dcount (\<lambda>(_, held). held = n) (dpop dev (rg_validated reg)) + (if n = name then 1 else 0)" for n
    using dcount_dpop [OF _ Some, of "\<lambda>(_, held). held = n"] s v by (auto simp: reg_safe_def)
  then have "int (holders (drop_validation dev reg) n) \<le> count_of (drop_validation dev reg) n" for n
    using s Some v by (auto simp: reg_safe_def drop_validation_def holders_def dest: spec [of _ n])
  then show ?thesis
    using s Some v set_dpop_subset [of dev "rg_validated reg"] by (auto simp: reg_safe_def drop_validation_def)
qed (simp add: drop_validation_def)

lemma drop_assignment_safe: "reg_safe reg \<Longrightarrow> reg_safe (drop_assignment dev reg)"
proof (cases "dget (rg_assignments reg) dev")
  case (Some v)
  assume s: "reg_safe reg"
  obtain node name cls where v: "v = (node, name, cls)" by (metis prod_cases3)
  have "dcount (\<lambda>(_, held, _). held = n) (rg_assignments reg)
      = dcount (\<lambda>(_, held, _). held = n) (dpop dev (rg_assignments reg)) + (if n = name then 1 else 0)" for n
    using dcount_dpop [OF _ Some, of "\<lambda>(_, held, _). held = n"] s v by (auto simp: reg_safe_def)
  then have "int (holders (drop_assignment dev reg) n) \<le> count_of (drop_assignment dev reg) n" for n
    using s Some v by (auto simp: reg_safe_def drop_assignment_def holders_def dest: spec [of _ n])
  then show ?thesis using s Some v by (auto simp: reg_safe_def drop_assignment_def)
qed (simp add: drop_assignment_def)

lemma release_safe: "reg_safe reg \<Longrightarrow> reg_safe (release dev reg)"
  by (simp add: release_def drop_validation_safe drop_assignment_safe)

lemma foldl_release_safe: "reg_safe reg \<Longrightarrow> reg_safe (foldl (\<lambda>g d. release d g) reg ds)"
  by (induction ds arbitrary: reg) (simp_all add: release_safe)

lemma roles_add_role: "dmem n (roles_of reg) \<Longrightarrow> dmem n (roles_of (add_role r reg))"
  by (simp add: add_role_def dsetdefault_def dmem_def)

lemma assign_safe:
  assumes "reg_safe reg"
  shows "reg_safe (snd (assign dev node r reg))"
proof (cases "holds_role reg dev (r_name r)")
  case False
  let ?g = "release dev reg"
  have safe: "reg_safe ?g" by (rule release_safe [OF assms])
  have "\<not> dmem dev (rg_assignments ?g)" by simp
  note dcount_dset_new [OF this]
  then show ?thesis
    using safe False roles_add_role [of _ ?g r]
    by (auto simp: assign_def Let_def reg_safe_def holders_def)
qed (simp add: assign_def assms)

lemma validate_loop_safe:
  "validate_loop reg dev node saw names = Some (jr, reg') \<Longrightarrow> reg_safe reg \<Longrightarrow>
   \<not> dmem dev (rg_validated reg) \<Longrightarrow> reg_safe reg'"
proof (induction reg dev node saw names rule: validate_loop.induct)
  case (2 reg dev node saw name rest)
  show ?case
  proof (cases "dget (roles_of reg) name")
    case (Some r)
    have "reg_safe (bump name 1 (reg\<lparr>rg_validated := dset dev (node, name) (rg_validated reg)\<rparr>))"
      using "2.prems"(2) dcount_dset_new [OF "2.prems"(3)] set_dset_within [of dev "(node, name)" "rg_validated reg"]
        dmem_get_Some [OF Some]
      by (fastforce simp: reg_safe_def holders_def)
    with 2 Some show ?thesis by (auto split: if_splits)
  qed (use 2 in simp)
qed (auto split: if_splits)

lemma validate_safe: "validate reg dev node = Some (jr, reg') \<Longrightarrow> reg_safe reg \<Longrightarrow> reg_safe reg'"
  by (erule validate_cases) (auto elim: validate_loop_safe)

lemma join_room_loop_safe:
  "join_room_loop reg dev node names = Some (jr, reg') \<Longrightarrow> reg_safe reg \<Longrightarrow> reg_safe reg'"
  by (induction reg dev node names rule: join_room_loop.induct)
    (auto simp: assign_safe split: option.splits if_splits)

text \<open>Moving the reservations: nothing raises, and no counter moves.\<close>

lemma move_reservations_safe:
  assumes "\<forall>(_, _, name) \<in> set vs. dmem name (roles_of reg)"
  shows "\<exists>A. move_reservations vs reg = Some (map (\<lambda>(d, _, name). (d, the (dget (roles_of reg) name))) vs, reg\<lparr>rg_assignments := A\<rparr>)
    \<and> (dict_ok (rg_assignments reg) \<longrightarrow> dict_ok A)
    \<and> (\<forall>n. dcount (\<lambda>(_, held, _). held = n) A
         \<le> dcount (\<lambda>(_, held). held = n) vs + dcount (\<lambda>(_, held, _). held = n) (rg_assignments reg))"
  using assms
proof (induction vs arbitrary: reg)
  case Nil
  then show ?case by (auto intro: exI [of _ "rg_assignments reg"])
next
  case (Cons x vs)
  obtain d node name where x: "x = (d, node, name)" by (metis prod_cases3)
  from Cons.prems x obtain r where r: "dget (roles_of reg) name = Some r" by (auto simp: dmem_iff_get)
  let ?g = "reg\<lparr>rg_assignments := dset d (node, name, r_class r) (rg_assignments reg)\<rparr>"
  have "\<forall>(_, _, name) \<in> set vs. dmem name (roles_of ?g)" using Cons.prems by auto
  from Cons.IH [OF this] obtain A where
    A: "move_reservations vs ?g = Some (map (\<lambda>(d, _, name). (d, the (dget (roles_of reg) name))) vs, reg\<lparr>rg_assignments := A\<rparr>)"
      "dict_ok (rg_assignments reg) \<longrightarrow> dict_ok A"
      "\<forall>n. dcount (\<lambda>(_, held, _). held = n) A
         \<le> dcount (\<lambda>(_, held). held = n) vs
           + dcount (\<lambda>(_, held, _). held = n) (dset d (node, name, r_class r) (rg_assignments reg))" by auto
  have "dcount (\<lambda>(_, held, _). held = n) A
      \<le> dcount (\<lambda>(_, held). held = n) (x # vs) + dcount (\<lambda>(_, held, _). held = n) (rg_assignments reg)" for n
    using spec [OF A(3), of n] dcount_dset_le [of "\<lambda>(_, held, _). held = n" d "(node, name, r_class r)" "rg_assignments reg"]
    by (simp add: x split: if_splits)
  moreover have "move_reservations (x # vs) reg
      = Some (map (\<lambda>(d, _, name). (d, the (dget (roles_of reg) name))) (x # vs), reg\<lparr>rg_assignments := A\<rparr>)"
    using A(1) r by (simp add: x)
  ultimately show ?case using A(2) by blast
qed

lemma assign_jams_safe:
  "assign_jams jam_for devs b reg = (out, b', reg') \<Longrightarrow> reg_safe reg \<Longrightarrow> reg_safe reg'"
proof (induction devs arbitrary: b reg out)
  case (Cons d ds)
  show ?case
  proof (cases "dmem d (rg_assignments reg)")
    case True
    with Cons show ?thesis by simp
  next
    case False
    obtain b1 r where j: "jam_for b reg d = (b1, r)" by fastforce
    obtain ch reg1 where a: "assign d '''' r reg = (ch, reg1)" by fastforce
    obtain out1 b2 reg2 where rest: "assign_jams jam_for ds b1 reg1 = (out1, b2, reg2)" by (metis prod_cases3)
    have "reg_safe reg1" using assign_safe [OF Cons.prems(2), of d "''''" r] a by simp
    moreover have "reg2 = reg'" "b2 = b'" using Cons.prems(1) False j a rest by (simp_all split: if_splits)
    ultimately show ?thesis using Cons.IH rest by blast
  qed
qed simp

lemma materialize_safe:
  assumes "reg_safe reg"
  shows "\<exists>out b' reg'. materialize jam_for jam_devs b reg = Some (out, b', reg') \<and> reg_safe reg'"
proof -
  let ?reg = "reg\<lparr>rg_validated := []\<rparr>"
  have "\<forall>(_, _, name) \<in> set (rg_validated reg). dmem name (roles_of ?reg)" using assms by (auto simp: reg_safe_def)
  from move_reservations_safe [OF this] obtain out1 A where
    mv: "move_reservations (rg_validated reg) ?reg = Some (out1, ?reg\<lparr>rg_assignments := A\<rparr>)"
    and A: "dict_ok A" "\<And>n. dcount (\<lambda>(_, held, _). held = n) A
         \<le> dcount (\<lambda>(_, held). held = n) (rg_validated reg) + dcount (\<lambda>(_, held, _). held = n) (rg_assignments reg)"
    using assms by (auto simp: reg_safe_def)
  have "int (dcount (\<lambda>(_, held, _). held = n) A) \<le> count_of reg n" for n
  proof -
    have "int (dcount (\<lambda>(_, held, _). held = n) A) \<le> int (holders reg n)" using A(2) [of n] by (simp add: holders_def)
    also have "\<dots> \<le> count_of reg n" using assms by (simp add: reg_safe_def)
    finally show ?thesis .
  qed
  then have safe: "reg_safe (?reg\<lparr>rg_assignments := A\<rparr>)" using A(1) by (simp add: reg_safe_def holders_def)
  obtain jams b' reg' where ja: "assign_jams jam_for jam_devs b (?reg\<lparr>rg_assignments := A\<rparr>) = (jams, b', reg')"
    by (metis prod_cases3)
  from assign_jams_safe [OF ja safe] mv ja show ?thesis by (simp add: materialize_def)
qed

subsection \<open>Every run of calls\<close>

text \<open>
  The calls that can reach the book one after the other. \<open>validate\<close> and \<open>join_room\<close> raise, on an
  undeclared role name, before they change anything; \<open>materialize\<close> does not (\<open>materialize_safe\<close>). The jam
  role a device is given is the caller's choice, one for each device.
\<close>

datatype reg_call =
    CallValidate dev node
  | CallJoinRoom dev node
  | CallAssign dev node role
  | CallMaterialize "dev \<Rightarrow> role" "dev list"
  | CallRelease dev
  | CallReleaseAll

fun reg_step :: "registration \<Rightarrow> reg_call \<Rightarrow> registration" where
  "reg_step reg (CallValidate dev node) =
     (case validate reg dev node of Some (_, reg') \<Rightarrow> reg' | None \<Rightarrow> reg)"
| "reg_step reg (CallJoinRoom dev node) =
     (case join_room reg dev node of Some (_, reg') \<Rightarrow> reg' | None \<Rightarrow> reg)"
| "reg_step reg (CallAssign dev node r) = snd (assign dev node r reg)"
| "reg_step reg (CallMaterialize jam_for jam_devs) =
     (case materialize (\<lambda>b _ dev. (b, jam_for dev)) jam_devs () reg of Some (_, _, reg') \<Rightarrow> reg' | None \<Rightarrow> reg)"
| "reg_step reg (CallRelease dev) = release dev reg"
| "reg_step reg CallReleaseAll = snd (release_all reg)"

lemma reg_step_safe: "reg_safe reg \<Longrightarrow> reg_safe (reg_step reg c)"
proof (cases c)
  case (CallMaterialize jam_for jam_devs)
  assume "reg_safe reg"
  from materialize_safe [OF this, of "\<lambda>b _ dev. (b, jam_for dev)" jam_devs "()"] show ?thesis
    by (auto simp: CallMaterialize)
qed (auto simp: assign_safe release_safe release_all_def foldl_release_safe join_room_def Let_def
      intro: validate_safe join_room_loop_safe split: option.splits)

interpretation book: machine reg_step reg_safe
  by unfold_locales (rule reg_step_safe)

text \<open>Moving apart reservations moves the seats with them; and the jam roles are counted as they are given.\<close>

lemma move_reservations_book:
  "move_reservations vs reg = Some (out, reg') \<Longrightarrow> distinct (map fst vs) \<Longrightarrow>
   (\<forall>d \<in> set (map fst vs). \<not> dmem d (rg_assignments reg)) \<Longrightarrow> dict_ok (rg_assignments reg) \<Longrightarrow>
   rg_validated reg' = rg_validated reg \<and> rg_table reg' = rg_table reg
   \<and> (\<exists>A. reg' = reg\<lparr>rg_assignments := A\<rparr>)
   \<and> dict_ok (rg_assignments reg') \<and> (\<forall>n. count_of reg' n = count_of reg n)
   \<and> (\<forall>n. dcount (\<lambda>(_, held, _). held = n) (rg_assignments reg')
        = dcount (\<lambda>(_, held). held = n) vs + dcount (\<lambda>(_, held, _). held = n) (rg_assignments reg))
   \<and> (\<forall>d. dmem d (rg_assignments reg') \<longleftrightarrow> d \<in> set (map fst vs) \<or> dmem d (rg_assignments reg))
   \<and> (\<forall>d. d \<notin> set (map fst vs) \<longrightarrow> dget (rg_assignments reg') d = dget (rg_assignments reg) d)
   \<and> (\<forall>d node name. (d, node, name) \<in> set vs \<longrightarrow>
        (\<exists>r. dget (roles_of reg) name = Some r \<and> dget (rg_assignments reg') d = Some (node, name, r_class r)))
   \<and> out = map (\<lambda>(d, _, name). (d, the (dget (roles_of reg) name))) vs"
proof (induction vs reg arbitrary: out reg' rule: move_reservations.induct)
  case (1 reg)
  then show ?case by (auto intro: exI [of _ "rg_assignments reg"])
next
  case (2 d node name vs reg)
  from "2.prems"(1) obtain r out' where r: "dget (roles_of reg) name = Some r" and out: "out = (d, r) # out'"
    and rest: "move_reservations vs (reg\<lparr>rg_assignments := dset d (node, name, r_class r) (rg_assignments reg)\<rparr>)
      = Some (out', reg')"
    by (auto split: option.splits)
  have new: "\<not> dmem d (rg_assignments reg)" using "2.prems"(3) by simp
  have fresh: "\<forall>d' \<in> set (map fst vs).
      \<not> dmem d' (rg_assignments (reg\<lparr>rg_assignments := dset d (node, name, r_class r) (rg_assignments reg)\<rparr>))"
    using "2.prems"(2,3) by auto
  have "distinct (map fst vs)" and "d \<notin> set (map fst vs)" using "2.prems"(2) by simp_all
  with "2.IH" [OF r rest _ fresh] "2.prems"(4) r
  show ?case by (auto simp: dcount_dset_new [OF new] out simp del: map_of_eq_Some_iff)
qed

text \<open>
  The listed devices that hold nothing yet, each at its first place in the list; and what the asking comes
  to: one after the other is given the role that was answered for it, with the book as it is then.
\<close>

fun newcomers :: "dev list \<Rightarrow> dev list \<Rightarrow> dev list" where
  "newcomers held [] = []"
| "newcomers held (d # ds) = (if d \<in> set held then newcomers held ds else d # newcomers (d # held) ds)"

fun answered :: "('b \<Rightarrow> registration \<Rightarrow> dev \<Rightarrow> 'b \<times> role) \<Rightarrow> 'b \<Rightarrow> registration \<Rightarrow> (dev \<times> role) list \<Rightarrow> 'b \<Rightarrow> registration \<Rightarrow> bool" where
  "answered jam_for b reg [] b' reg' \<longleftrightarrow> b' = b \<and> reg' = reg"
| "answered jam_for b reg ((d, r) # jams) b' reg' \<longleftrightarrow>
     snd (jam_for b reg d) = r \<and> answered jam_for (fst (jam_for b reg d)) (snd (assign d '''' r reg)) jams b' reg'"

lemma newcomers_cong: "set held = set held' \<Longrightarrow> newcomers held ds = newcomers held' ds"
proof (induction ds arbitrary: held held')
  case (Cons d ds)
  have "newcomers (d # held) ds = newcomers (d # held') ds" by (rule Cons.IH) (simp add: Cons.prems)
  moreover have "newcomers held ds = newcomers held' ds" by (rule Cons.IH) (rule Cons.prems)
  ultimately show ?case by (simp add: Cons.prems)
qed simp

lemma assign_jams_book:
  "assign_jams jam_for devs b reg = (out, b', reg') \<Longrightarrow> reg_inv reg \<Longrightarrow> rg_validated reg = [] \<Longrightarrow>
   reg_inv reg' \<and> rg_validated reg' = []
   \<and> map fst out = newcomers (dkeys (rg_assignments reg)) devs
   \<and> answered jam_for b reg out b' reg'
   \<and> (\<forall>(d, r) \<in> set out. dget (rg_assignments reg') d = Some ('''', r_name r, r_class r))
   \<and> (\<forall>d. dmem d (rg_assignments reg') \<longleftrightarrow> d \<in> set devs \<or> dmem d (rg_assignments reg))
   \<and> (\<forall>d v. dget (rg_assignments reg) d = Some v \<longrightarrow> dget (rg_assignments reg') d = Some v)"
proof (induction jam_for devs b reg arbitrary: out b' reg' rule: assign_jams.induct)
  case (2 jam_for dev devs b reg)
  show ?case
  proof (cases "dmem dev (rg_assignments reg)")
    case True
    have eq: "assign_jams jam_for devs b reg = (out, b', reg')" using "2.prems"(1) True by simp
    note IH = "2.IH"(1) [OF True eq "2.prems"(2,3)]
    have held: "dev \<in> set (dkeys (rg_assignments reg))" using True by (simp add: dmem_def)
    have "map fst out = newcomers (dkeys (rg_assignments reg)) (dev # devs)" using IH held by simp
    moreover have "dmem d (rg_assignments reg') \<longleftrightarrow> d \<in> set (dev # devs) \<or> dmem d (rg_assignments reg)" for d
    proof (cases "d = dev")
      case True
      with IH \<open>dmem dev (rg_assignments reg)\<close> show ?thesis by simp
    qed (use IH in simp)
    ultimately show ?thesis using IH by blast
  next
    case False
    obtain b1 r where j: "jam_for b reg dev = (b1, r)" by fastforce
    obtain ch reg1 where a: "assign dev '''' r reg = (ch, reg1)" by fastforce
    obtain out1 b2 reg2 where rest: "assign_jams jam_for devs b1 reg1 = (out1, b2, reg2)" by (metis prod_cases3)
    have nh: "\<not> holds_role reg dev (r_name r)" using False by (simp add: holds_role_def flip: dget_None_iff)
    have inv1: "reg_inv reg1" using assign_inv [OF "2.prems"(2), of dev "''''" r] a by simp
    have asg: "rg_assignments reg1 = dset dev ('''', r_name r, r_class r) (rg_assignments reg)"
      and val: "rg_validated reg1 = []" and ch: "ch"
      using a nh False "2.prems"(3) by (auto simp: assign_def Let_def)
    note IH = "2.IH"(2) [OF False j [symmetric] refl a [symmetric] refl rest inv1 val]
    have fin: "reg' = reg2" "out = (dev, r) # out1" "b' = b2" using "2.prems"(1) False j a rest ch by simp_all
    have keep: "dget (rg_assignments reg') d = Some v" if v: "dget (rg_assignments reg) d = Some v" for d v
    proof -
      have "d \<noteq> dev" using False dmem_get_Some [OF v] by auto
      with v asg have "dget (rg_assignments reg1) d = Some v" by simp
      with IH fin show ?thesis by blast
    qed
    have "dget (rg_assignments reg1) dev = Some ('''', r_name r, r_class r)" using asg by simp
    then have own: "dget (rg_assignments reg') dev = Some ('''', r_name r, r_class r)" using IH fin by blast
    have keys: "set (dkeys (rg_assignments reg1)) = set (dev # dkeys (rg_assignments reg))"
    proof (rule set_eqI)
      fix d
      have "dmem d (rg_assignments reg1) \<longleftrightarrow> d = dev \<or> dmem d (rg_assignments reg)" using asg by auto
      then show "d \<in> set (dkeys (rg_assignments reg1)) \<longleftrightarrow> d \<in> set (dev # dkeys (rg_assignments reg))" by (simp add: dmem_def)
    qed
    have "map fst out = newcomers (dkeys (rg_assignments reg)) (dev # devs)"
      using IH fin False newcomers_cong [OF keys, of devs] by (simp add: dmem_def)
    moreover have "answered jam_for b reg out b' reg'" using IH fin j a by simp
    moreover have "dmem d (rg_assignments reg') \<longleftrightarrow> d \<in> set (dev # devs) \<or> dmem d (rg_assignments reg)" for d
      using IH asg fin by auto
    moreover have "\<forall>(d, q) \<in> set out. dget (rg_assignments reg') d = Some ('''', r_name q, r_class q)"
      using IH fin own by auto
    ultimately show ?thesis using IH fin keep by blast
  qed
qed simp

lemma materialize_parts:
  assumes m: "materialize jam_for jam_devs b reg = Some (out, b', reg')"
    and inv: "reg_inv reg" and ap: "apart reg"
  obtains A jams where "reg_inv (reg\<lparr>rg_validated := [], rg_assignments := A\<rparr>)"
    and "\<And>d. dget A d = (case dget (rg_validated reg) d of
            Some (node, name) \<Rightarrow> map_option (\<lambda>r. (node, name, r_class r)) (dget (roles_of reg) name)
          | None \<Rightarrow> dget (rg_assignments reg) d)"
    and "\<And>d. dmem d A \<longleftrightarrow> dmem d (rg_validated reg) \<or> dmem d (rg_assignments reg)"
    and "assign_jams jam_for jam_devs b (reg\<lparr>rg_validated := [], rg_assignments := A\<rparr>) = (jams, b', reg')"
    and "out = map (\<lambda>(d, _, name). (d, the (dget (roles_of reg) name))) (rg_validated reg) @ jams"
proof -
  from m obtain out1 reg1 out2 where
    mv: "move_reservations (rg_validated reg) (reg\<lparr>rg_validated := []\<rparr>) = Some (out1, reg1)"
    and ja: "assign_jams jam_for jam_devs b reg1 = (out2, b', reg')" and out: "out = out1 @ out2"
    by (auto simp: materialize_def split: option.splits prod.splits)
  have fresh: "\<forall>d \<in> set (map fst (rg_validated reg)). \<not> dmem d (rg_assignments (reg\<lparr>rg_validated := []\<rparr>))"
    using ap by (auto simp: apart_def dmem_def)
  have dok: "dict_ok (rg_assignments (reg\<lparr>rg_validated := []\<rparr>))" using inv by (simp add: reg_inv_def)
  note bk = move_reservations_book [OF mv reg_invD(1) [OF inv] fresh dok]
  then obtain A where A: "reg1 = reg\<lparr>rg_validated := [], rg_assignments := A\<rparr>" by auto
  have inv1: "reg_inv reg1" using bk inv by (auto simp: reg_inv_def holders_def)
  have get: "dget A d = (case dget (rg_validated reg) d of
            Some (node, name) \<Rightarrow> map_option (\<lambda>r. (node, name, r_class r)) (dget (roles_of reg) name)
          | None \<Rightarrow> dget (rg_assignments reg) d)" for d
  proof (cases "dget (rg_validated reg) d")
    case None
    then have "d \<notin> set (map fst (rg_validated reg))" by (simp add: dget_None_iff dmem_def)
    with bk A None show ?thesis by simp
  next
    case (Some v)
    obtain node name where v: "v = (node, name)" by fastforce
    have "(d, node, name) \<in> set (rg_validated reg)" using map_of_SomeD [OF Some] v by simp
    then have "\<exists>r. dget (roles_of reg) name = Some r \<and> dget (rg_assignments reg1) d = Some (node, name, r_class r)"
      using bk by simp
    with A Some v show ?thesis by auto
  qed
  have mem: "dmem d A \<longleftrightarrow> dmem d (rg_validated reg) \<or> dmem d (rg_assignments reg)" for d
    using bk A by (auto simp: dmem_def [of d "rg_validated reg"])
  show ?thesis
    by (rule that [of A out2]) (use inv1 get mem ja out bk A in simp_all)
qed

lemma materialize_inv:
  assumes m: "materialize jam_for jam_devs b reg = Some (out, b', reg')" and inv: "reg_inv reg" and ap: "apart reg"
  shows "reg_inv reg'"
proof (rule materialize_parts [OF assms])
  fix A jams
  assume "reg_inv (reg\<lparr>rg_validated := [], rg_assignments := A\<rparr>)"
    and "assign_jams jam_for jam_devs b (reg\<lparr>rg_validated := [], rg_assignments := A\<rparr>) = (jams, b', reg')"
  then show ?thesis using assign_jams_book by fastforce
qed

text \<open>A run whose starts find nobody reserved and assigned at once.\<close>

fun apart_run :: "registration \<Rightarrow> reg_call list \<Rightarrow> bool" where
  "apart_run reg [] \<longleftrightarrow> True"
| "apart_run reg (c # cs) \<longleftrightarrow>
     (case c of CallMaterialize _ _ \<Rightarrow> apart reg | _ \<Rightarrow> True) \<and> apart_run (reg_step reg c) cs"

lemma reg_step_inv:
  assumes "reg_inv reg" and "case c of CallMaterialize _ _ \<Rightarrow> apart reg | _ \<Rightarrow> True"
  shows "reg_inv (reg_step reg c)"
  using assms
  by (cases c)
    (auto simp: assign_inv release_inv release_all_inv join_room_def
      intro: validate_inv join_room_loop_inv materialize_inv split: option.splits)

lemma apart_run_inv: "reg_inv reg \<Longrightarrow> apart_run reg cs \<Longrightarrow> reg_inv (foldl reg_step reg cs)"
  by (induction cs arbitrary: reg) (simp_all add: reg_step_inv)

text \<open>
  C30: Counters. Whatever sequence of validations, room joins, assignments, starts of a run
  (\<open>materialize\<close>) and releases a fresh \<open>RegistrationState\<close> goes through, the counter of a role name is never
  below the number of devices that hold the role (reserved or assigned), so no seat is given out twice; and
  when every start of a run finds nobody reserved and assigned at once, it equals that number, so no seat
  leaks either. (What happens otherwise is \<open>materialize_can_leak_a_seat\<close>.)
\<close>
theorem counters_count_holders:
  "int (holders (foldl reg_step (new_registration table cap) calls) name)
     \<le> count_of (foldl reg_step (new_registration table cap) calls) name
   \<and> (apart_run (new_registration table cap) calls \<longrightarrow>
        count_of (foldl reg_step (new_registration table cap) calls) name
          = int (holders (foldl reg_step (new_registration table cap) calls) name))"
  using book.inv_run [OF new_registration_safe, of table cap calls]
    apart_run_inv [OF new_registration_inv, of table cap calls]
  by (auto simp: reg_safe_def reg_inv_def)

subsection \<open>Capacities\<close>

definition seats_ok :: "registration \<Rightarrow> bool" where
  "seats_ok reg \<longleftrightarrow>
     (\<forall>name r c. dget (roles_of reg) name = Some r \<longrightarrow> r_capacity r = Some c \<longrightarrow> 0 \<le> c \<longrightarrow>
        count_of reg name \<le> c)
     \<and> (\<forall>cap. scored_cap reg = Some cap \<longrightarrow> 0 \<le> cap \<longrightarrow> int (length (rg_validated reg)) \<le> cap)"

definition setup_call :: "reg_call \<Rightarrow> bool" where
  "setup_call c \<longleftrightarrow> (case c of CallAssign _ _ _ \<Rightarrow> False | CallMaterialize _ _ \<Rightarrow> False | _ \<Rightarrow> True)"

definition named_table :: "registration \<Rightarrow> bool" where
  "named_table reg \<longleftrightarrow> (\<forall>name r. dget (roles_of reg) name = Some r \<longrightarrow> r_name r = name)"

lemma scored_cap_table: "rg_table g = rg_table h \<Longrightarrow> rg_max_scored g = rg_max_scored h \<Longrightarrow> scored_cap g = scored_cap h"
  by (simp add: scored_cap_def)

lemma count_release_le: "count_of (release dev reg) n \<le> count_of reg n"
  by (auto simp: release_def drop_validation_def drop_assignment_def split: option.splits prod.splits)

lemma length_dpop_le: "length (dpop k d) \<le> length d"
  by (simp add: AList.delete_eq)

lemma release_seats: "seats_ok reg \<Longrightarrow> seats_ok (release dev reg)"
  unfolding seats_ok_def
  using scored_cap_table [of "release dev reg" reg] count_release_le [of dev reg]
    length_dpop_le [of dev "rg_validated reg"]
  by simp (meson of_nat_mono order_trans)

lemma foldl_release_seats: "seats_ok reg \<Longrightarrow> seats_ok (foldl (\<lambda>g d. release d g) reg ds)"
  by (induction ds arbitrary: reg) (simp_all add: release_seats)

lemma foldl_release_table [simp]:
  "rg_table (foldl (\<lambda>g d. release d g) reg ds) = rg_table reg"
  by (induction ds arbitrary: reg) simp_all

lemma validate_loop_seats:
  "validate_loop reg dev node saw names = Some (jr, reg') \<Longrightarrow> seats_ok reg \<Longrightarrow>
   \<not> dmem dev (rg_validated reg) \<Longrightarrow>
   \<not> (case scored_cap reg of None \<Rightarrow> False | Some cap \<Rightarrow> cap \<le> int (length (rg_validated reg))) \<Longrightarrow>
   seats_ok reg' \<and> rg_table reg' = rg_table reg"
proof (induction reg dev node saw names rule: validate_loop.induct)
  case (2 reg dev node saw name rest)
  show ?case
  proof (cases "dget (roles_of reg) name")
    case None
    with 2 show ?thesis by simp
  next
    case (Some r)
    consider "\<not> r_scored r \<or> r_class r = CLASS_ROOM"
      | "\<not> (\<not> r_scored r \<or> r_class r = CLASS_ROOM)" "role_full reg name r"
      | "\<not> (\<not> r_scored r \<or> r_class r = CLASS_ROOM)" "\<not> role_full reg name r"
      by blast
    then show ?thesis
    proof cases
      case 3
      with 2(3) Some have reg': "reg' = bump name 1 (reg\<lparr>rg_validated := dset dev (node, name) (rg_validated reg)\<rparr>)"
        by simp
      have "scored_cap reg' = scored_cap reg" by (simp add: reg' scored_cap_def)
      with reg' 2(4-6) 3 Some show ?thesis
        by (auto simp: seats_ok_def role_full_def length_dset split: option.splits)
    qed (use 2 Some in simp_all)
  qed
qed (auto split: if_splits)

lemma validate_seats:
  "validate reg dev node = Some (jr, reg') \<Longrightarrow> seats_ok reg \<Longrightarrow> seats_ok reg' \<and> rg_table reg' = rg_table reg"
  by (erule validate_cases) (use validate_loop_seats in blast)+

lemma join_room_loop_seats:
  assumes "join_room_loop reg dev node names = Some (jr, reg')" and "seats_ok reg" and "named_table reg"
  shows "seats_ok reg' \<and> rg_table reg' = rg_table reg"
  using assms
proof (induction reg dev node names rule: join_room_loop.induct)
  case (2 reg dev node name rest)
  show ?case
  proof (cases "dget (roles_of reg) name")
    case None
    with 2 show ?thesis by simp
  next
    case (Some r)
    with "2.prems" have nm: "r_name r = name" by (auto simp: named_table_def)
    have "add_role r (release dev reg) = release dev reg\<lparr>rg_counts := dsetdefault name 0 (rg_counts (release dev reg))\<rparr>"
      using Some by (simp add: add_role_def nm dsetdefault_def dmem_iff_get)
    then have tab: "rg_table (add_role r (release dev reg)) = rg_table reg"
      "rg_max_scored (add_role r (release dev reg)) = rg_max_scored reg"
      by simp_all
    consider "r_class r \<noteq> CLASS_ROOM"
      | "r_class r = CLASS_ROOM" "holds_role reg dev name"
      | "r_class r = CLASS_ROOM" "\<not> holds_role reg dev name" "role_full reg name r"
      | "r_class r = CLASS_ROOM" "\<not> holds_role reg dev name" "\<not> role_full reg name r"
      by blast
    then show ?thesis
    proof cases
      case 4
      define g where "g = snd (assign dev node r reg)"
      have reg': "reg' = g" using 4 2(2) Some by (simp add: g_def)
      have cnt: "count_of g n \<le> count_of reg n + (if n = name then 1 else 0)" for n
        using 4(2) count_release_le [of dev reg n] by (simp add: g_def assign_def Let_def nm)
      have fields: "rg_table g = rg_table reg" "rg_max_scored g = rg_max_scored reg"
        "length (rg_validated g) \<le> length (rg_validated reg)"
        using 4(2) tab length_dpop_le [of dev "rg_validated reg"] by (simp_all add: g_def assign_def Let_def nm)
      have cap: "scored_cap g = scored_cap reg" by (rule scored_cap_table) (simp_all add: fields)
      have "count_of g n \<le> c" if "dget (roles_of reg) n = Some q" "r_capacity q = Some c" "0 \<le> c" for n q c
        using that cnt [of n] 4(3) Some 2(3) by (fastforce simp: seats_ok_def role_full_def split: if_splits)
      moreover have "int (length (rg_validated g)) \<le> m" if "scored_cap reg = Some m" "0 \<le> m" for m
        using that fields(3) 2(3) by (fastforce simp: seats_ok_def)
      ultimately show ?thesis by (simp add: reg' seats_ok_def fields(1) cap)
    qed (use 2 Some nm in \<open>simp_all add: assign_def\<close>)
  qed
qed simp

definition seated :: "role_table \<Rightarrow> registration \<Rightarrow> bool" where
  "seated table reg \<longleftrightarrow> seats_ok reg \<and> rg_table reg = table \<and> named_table reg"

definition setup_step :: "registration \<Rightarrow> reg_call \<Rightarrow> registration" where
  "setup_step reg c = (if setup_call c then reg_step reg c else reg)"

lemma setup_step_seated: "seated table reg \<Longrightarrow> seated table (setup_step reg c)"
proof (cases c)
  case (CallValidate dev node)
  assume "seated table reg"
  with CallValidate validate_seats [of reg dev node] show ?thesis
    by (auto simp: seated_def named_table_def setup_step_def setup_call_def split: option.splits)
next
  case (CallJoinRoom dev node)
  assume s: "seated table reg"
  then have "seats_ok reg" "named_table reg" by (simp_all add: seated_def)
  with CallJoinRoom s join_room_loop_seats [OF _ this] show ?thesis
    by (auto simp: join_room_def seated_def named_table_def setup_step_def setup_call_def split: option.splits)
qed (auto simp: seated_def named_table_def release_seats foldl_release_seats release_all_def Let_def
    setup_step_def setup_call_def)

interpretation intake: machine setup_step "seated table" for table
  by unfold_locales (rule setup_step_seated)

lemma new_registration_seated:
  assumes "\<And>name r. dget (rt_roles table) name = Some r \<Longrightarrow> r_name r = name"
  shows "seated table (new_registration table cap)"
proof -
  have "count_of (new_registration table cap) n = 0" for n
    using new_registration_inv [of table cap] by (simp add: reg_inv_def holders_def new_registration_def)
  with assms show ?thesis by (auto simp: seated_def seats_ok_def named_table_def new_registration_def)
qed

text \<open>
  C29: Nobody is over-admitted in SETUP. For a role table whose roles are filed under their own names,
  any sequence of handshakes, room joins and releases leaves every bounded role within its capacity
  and the number of reserved scored slots within \<open>scored_cap\<close> (the tighter of the roles' total and
  the Bit's \<open>max_scored\<close>).
\<close>
theorem setup_never_overbooks:
  assumes named: "\<And>name r. dget (rt_roles table) name = Some r \<Longrightarrow> r_name r = name"
    and reg: "reg = foldl setup_step (new_registration table cap) calls"
  shows "(\<forall>name r c. dget (rt_roles table) name = Some r \<longrightarrow> r_capacity r = Some c \<longrightarrow> 0 \<le> c \<longrightarrow>
            count_of reg name \<le> c)
    \<and> (\<forall>m. scored_cap reg = Some m \<longrightarrow> 0 \<le> m \<longrightarrow> int (length (rg_validated reg)) \<le> m)"
proof -
  have "seated table reg"
    unfolding reg by (rule intake.inv_run [OF new_registration_seated [OF named]])
  then show ?thesis unfolding seated_def seats_ok_def by blast
qed

definition demo_role :: "string \<Rightarrow> role_class \<Rightarrow> int option \<Rightarrow> bool \<Rightarrow> role" where
  "demo_role name cls cap scored =
     \<lparr>r_name = name, r_class = cls, r_capacity = cap, r_scored = scored, r_uses = [], r_samples = [],
      r_ugen_manifest = VDict [], r_light_manifest = VDict [], r_welcome = None, r_breath = True,
      r_requires = None, r_zones = []\<rparr>"

definition demo_table :: role_table where
  "demo_table =
     \<lparr>rt_roles = [(''lead'', demo_role ''lead'' UNIQUE (Some 1) True),
                  (''duo'', demo_role ''duo'' SHARED (Some 2) True)],
      rt_node_map = [(''n'', [''lead'', ''duo''])]\<rparr>"

definition demo_calls :: "reg_call list" where
  "demo_calls = [CallValidate ''a'' ''n'', CallValidate ''b'' ''n'', CallValidate ''c'' ''n'',
     CallRelease ''a'', CallValidate ''d'' ''n'']"

lemma demo_table_named: "dget (rt_roles demo_table) name = Some r \<Longrightarrow> r_name r = name"
  by (auto simp: demo_table_def demo_role_def split: if_splits)

definition demo_setup :: registration where
  "demo_setup = foldl setup_step (new_registration demo_table (Some 2)) demo_calls"

lemma setup_never_overbooks_witness:
  "count_of demo_setup ''lead'' \<le> 1 \<and> length (rg_validated demo_setup) \<le> 2
   \<and> map fst (rg_validated demo_setup) = [''b'', ''d'']"
proof -
  note seats = setup_never_overbooks [OF demo_table_named demo_setup_def]
  have "scored_cap demo_setup = Some 2" "map fst (rg_validated demo_setup) = [''b'', ''d'']"
    "dget (rt_roles demo_table) ''lead'' = Some (demo_role ''lead'' UNIQUE (Some 1) True)"
    by code_simp+
  with seats show ?thesis by (fastforce simp: demo_role_def)
qed

subsection \<open>First fit\<close>

text \<open>A role a handshake may reserve right now.\<close>

definition offers :: "registration \<Rightarrow> string \<Rightarrow> bool" where
  "offers reg name \<longleftrightarrow>
     (case dget (roles_of reg) name of
        None \<Rightarrow> False
      | Some r \<Rightarrow> r_scored r \<and> r_class r \<noteq> CLASS_ROOM \<and> \<not> role_full reg name r)"

definition candidates_of :: "registration \<Rightarrow> node \<Rightarrow> string list" where
  "candidates_of reg node = (case dget (rt_node_map (rg_table reg)) node of Some names \<Rightarrow> names | None \<Rightarrow> [])"

definition scored_cap_reached :: "registration \<Rightarrow> bool" where
  "scored_cap_reached reg \<longleftrightarrow>
     (case scored_cap reg of None \<Rightarrow> False | Some cap \<Rightarrow> cap \<le> int (length (rg_validated reg)))"

lemma dset_new: "\<not> dmem k d \<Longrightarrow> dset k v d = d @ [(k, v)]"
  by (induction d) (auto simp: dmem_def)

lemma validate_loop_skip:
  "\<not> offers reg name \<Longrightarrow> validate_loop reg dev node saw (name # rest) = Some res \<Longrightarrow>
   \<exists>saw'. validate_loop reg dev node saw' rest = Some res"
  by (auto simp: offers_def split: option.splits if_splits)

lemma validate_loop_first_fit:
  "validate_loop reg dev node saw names = Some (jr, reg') \<Longrightarrow> \<not> dmem dev (rg_validated reg) \<Longrightarrow>
   (\<exists>pre name post. names = pre @ name # post \<and> offers reg name \<and> (\<forall>p \<in> set pre. \<not> offers reg p)
      \<and> jr_granted jr \<and> rg_validated reg' = rg_validated reg @ [(dev, node, name)])
   \<or> ((\<forall>p \<in> set names. \<not> offers reg p) \<and> \<not> jr_granted jr \<and> reg' = reg)"
  (is "_ \<Longrightarrow> _ \<Longrightarrow> ?fit names \<or> ?none names")
proof (induction names arbitrary: saw)
  case (Cons name rest)
  show ?case
  proof (cases "offers reg name")
    case True
    then obtain r where r: "dget (roles_of reg) name = Some r" by (auto simp: offers_def split: option.splits)
    with True Cons.prems have "jr_granted jr" and "rg_validated reg' = rg_validated reg @ [(dev, node, name)]"
      by (auto simp: offers_def dset_new granted_result_def)
    with True have "?fit ([] @ name # rest)" by fastforce
    then show ?thesis by simp
  next
    case False
    from validate_loop_skip [OF this Cons.prems(1)] Cons.IH Cons.prems(2) have "?fit rest \<or> ?none rest" by blast
    then show ?thesis
    proof
      assume "?fit rest"
      then obtain pre n post where "name # rest = (name # pre) @ n # post" "offers reg n"
        "\<forall>p \<in> set (name # pre). \<not> offers reg p"
        "jr_granted jr \<and> rg_validated reg' = rg_validated reg @ [(dev, node, n)]" using False by auto
      then show ?thesis by blast
    qed (use False in auto)
  qed
qed (auto simp: denied_def)

text \<open>
  First fit. A handshake of a device that holds no reservation is granted the first role of the
  node's fallback list that is scored, is no fixture role and has a seat left, and the reservation is
  appended to the book; it is denied, with the book unchanged, exactly when the Bit's scored cap is
  reached or no role of the list can be offered.
\<close>
theorem handshake_first_fit:
  assumes v: "validate reg dev node = Some (jr, reg')" and new: "\<not> dmem dev (rg_validated reg)"
  shows "(if jr_granted jr
          then \<not> scored_cap_reached reg
             \<and> (\<exists>pre name post. candidates_of reg node = pre @ name # post \<and> offers reg name
                  \<and> (\<forall>p \<in> set pre. \<not> offers reg p)
                  \<and> rg_validated reg' = rg_validated reg @ [(dev, node, name)])
          else reg' = reg
             \<and> (scored_cap_reached reg \<or> (\<forall>name \<in> set (candidates_of reg node). \<not> offers reg name)))"
proof -
  have "dget (rg_validated reg) dev = None" using new by (simp add: dget_None_iff)
  with v consider (none) "candidates_of reg node = []" "reg' = reg" "\<not> jr_granted jr"
    | (full) "scored_cap_reached reg" "reg' = reg" "\<not> jr_granted jr"
    | (walk) "\<not> scored_cap_reached reg"
        "validate_loop reg dev node False (candidates_of reg node) = Some (jr, reg')"
    by (auto simp: validate_def candidates_of_def scored_cap_reached_def denied_def
        simp del: validate_loop.simps split: option.splits list.splits if_splits)
  then show ?thesis
  proof cases
    case walk
    from validate_loop_first_fit [OF walk(2) new] walk(1) show ?thesis by auto
  qed auto
qed

lemma handshake_first_fit_witness:
  "\<exists>jr reg'. validate (new_registration demo_table None) ''a'' ''n'' = Some (jr, reg')
     \<and> rg_validated reg' = [(''a'', ''n'', ''lead'')]"
proof -
  have ok: "(case validate (new_registration demo_table None) ''a'' ''n'' of
      Some (jr, reg') \<Rightarrow> jr_granted jr \<and> length (rg_validated reg') = 1 | None \<Rightarrow> False)"
    by code_simp
  then obtain jr reg' where v: "validate (new_registration demo_table None) ''a'' ''n'' = Some (jr, reg')"
    and g: "jr_granted jr"
    by (auto split: option.splits prod.splits)
  have "\<not> dmem ''a'' (rg_validated (new_registration demo_table None))"
    by (simp add: new_registration_def dmem_def)
  from handshake_first_fit [OF v this] g obtain pre name post where
    split: "[''lead'', ''duo''] = pre @ name # post" "\<forall>p \<in> set pre. \<not> offers (new_registration demo_table None) p"
    and held: "rg_validated reg' = [(''a'', ''n'', name)]"
    by (auto simp: candidates_of_def new_registration_def demo_table_def)
  have "offers (new_registration demo_table None) ''lead''" by code_simp
  with split have "name = ''lead''" by (cases pre) auto
  with v held show ?thesis by blast
qed

subsection \<open>From reservations to roles\<close>

text \<open>
  C31: The start of a run keeps every promise. When nobody is reserved and assigned at once, \<open>materialize\<close>
  turns each reservation into an assignment of exactly the reserved role, on the node it was reserved on
  (moved, not counted twice). Each listed device that holds nothing, once and in the order of the list, is
  assigned exactly the role that \<open>jam_for\<close> answered when it was asked for it, with the book as the devices
  before it had left it; nobody else is asked. Earlier assignments stay, the reservation list is empty
  and the counters stay exact. The grants returned are the reserved roles in the order of the reservations and
  then the jam roles in that order, no other and none twice.
\<close>
theorem materialize_keeps_promises:
  assumes m: "materialize jam_for jam_devs b reg = Some (out, b', reg')"
    and inv: "reg_inv reg" and ap: "apart reg"
  shows "reg_inv reg' \<and> rg_validated reg' = []
    \<and> (\<forall>d node name. dget (rg_validated reg) d = Some (node, name) \<longrightarrow>
         (\<exists>r. dget (roles_of reg) name = Some r \<and> dget (rg_assignments reg') d = Some (node, name, r_class r)))
    \<and> (\<forall>d v. dget (rg_assignments reg) d = Some v \<longrightarrow> dget (rg_assignments reg') d = Some v)
    \<and> (\<exists>A jams. out = map (\<lambda>(d, _, name). (d, the (dget (roles_of reg) name))) (rg_validated reg) @ jams
         \<and> map fst jams = newcomers (dkeys (rg_validated reg) @ dkeys (rg_assignments reg)) jam_devs
         \<and> (\<forall>d. dget A d = (case dget (rg_validated reg) d of
              Some (node, name) \<Rightarrow> map_option (\<lambda>r. (node, name, r_class r)) (dget (roles_of reg) name)
            | None \<Rightarrow> dget (rg_assignments reg) d))
         \<and> answered jam_for b (reg\<lparr>rg_validated := [], rg_assignments := A\<rparr>) jams b' reg'
         \<and> (\<forall>(d, r) \<in> set jams. dget (rg_assignments reg') d = Some ('''', r_name r, r_class r)))
    \<and> (\<forall>d. dmem d (rg_assignments reg') \<longleftrightarrow>
         dmem d (rg_validated reg) \<or> dmem d (rg_assignments reg) \<or> d \<in> set jam_devs)"
proof -
  obtain A jams where
    inv1: "reg_inv (reg\<lparr>rg_validated := [], rg_assignments := A\<rparr>)"
    and get: "\<And>d. dget A d = (case dget (rg_validated reg) d of
            Some (node, name) \<Rightarrow> map_option (\<lambda>r. (node, name, r_class r)) (dget (roles_of reg) name)
          | None \<Rightarrow> dget (rg_assignments reg) d)"
    and mem: "\<And>d. dmem d A \<longleftrightarrow> dmem d (rg_validated reg) \<or> dmem d (rg_assignments reg)"
    and ja: "assign_jams jam_for jam_devs b (reg\<lparr>rg_validated := [], rg_assignments := A\<rparr>) = (jams, b', reg')"
    and out: "out = map (\<lambda>(d, _, name). (d, the (dget (roles_of reg) name))) (rg_validated reg) @ jams"
    by (rule materialize_parts [OF m inv ap]) blast
  note book = assign_jams_book [OF ja inv1, simplified]
  have "set (dkeys A) = set (dkeys (rg_validated reg) @ dkeys (rg_assignments reg))"
  proof (rule set_eqI)
    fix d
    show "d \<in> set (dkeys A) \<longleftrightarrow> d \<in> set (dkeys (rg_validated reg) @ dkeys (rg_assignments reg))"
      using mem [of d] by (simp add: dmem_def)
  qed
  then have keys: "newcomers (dkeys A) jam_devs = newcomers (dkeys (rg_validated reg) @ dkeys (rg_assignments reg)) jam_devs"
    by (rule newcomers_cong)
  have "\<exists>r. dget (roles_of reg) name = Some r \<and> dget (rg_assignments reg') d = Some (node, name, r_class r)"
    if v: "dget (rg_validated reg) d = Some (node, name)" for d node name
  proof -
    have "dmem d A" using mem dmem_get_Some [OF v] by simp
    then obtain x where "dget A d = Some x" by (auto simp: dmem_iff_get)
    with get [of d] v have "map_option (\<lambda>r. (node, name, r_class r)) (dget (roles_of reg) name) = Some x" by simp
    then obtain r where r: "dget (roles_of reg) name = Some r" "x = (node, name, r_class r)" by (auto simp: map_option_eq_Some)
    with book \<open>dget A d = Some x\<close> show ?thesis by blast
  qed
  moreover have "dget (rg_assignments reg') d = Some v" if "dget (rg_assignments reg) d = Some v" for d v
  proof -
    have "\<not> dmem d (rg_validated reg)" using that ap by (auto simp: apart_def dest: dmem_get_Some)
    then have "dget (rg_validated reg) d = None" by (simp add: dget_None_iff)
    then have "dget A d = Some v" using get [of d] that by simp
    with book show ?thesis by (cases v) blast
  qed
  moreover have "dmem d (rg_assignments reg') \<longleftrightarrow>
      dmem d (rg_validated reg) \<or> dmem d (rg_assignments reg) \<or> d \<in> set jam_devs" for d
    using book mem by auto
  moreover have "map fst jams = newcomers (dkeys (rg_validated reg) @ dkeys (rg_assignments reg)) jam_devs"
    using book keys by simp
  ultimately show ?thesis using book get out by blast
qed

definition demo_jam :: "unit \<Rightarrow> registration \<Rightarrow> dev \<Rightarrow> unit \<times> role" where
  "demo_jam b reg dev = (b, demo_role ''jam'' JAM None False)"

lemma materialize_keeps_promises_witness:
  "\<exists>out b' reg'. materialize demo_jam [''b'', ''z''] () demo_setup = Some (out, b', reg')
     \<and> reg_inv reg' \<and> dget (rg_assignments reg') ''b'' = Some (''n'', ''duo'', SHARED)
     \<and> dget (rg_assignments reg') ''z'' = Some ('''', ''jam'', JAM) \<and> map fst out = [''b'', ''d'', ''z'']"
proof -
  have "(case materialize demo_jam [''b'', ''z''] () demo_setup of Some _ \<Rightarrow> True | None \<Rightarrow> False)"
    by code_simp
  then obtain out b' reg' where m: "materialize demo_jam [''b'', ''z''] () demo_setup = Some (out, b', reg')"
    by (auto split: option.splits)
  have "reg_inv (foldl reg_step (new_registration demo_table (Some 2)) demo_calls)"
    by (rule apart_run_inv [OF new_registration_inv]) (simp add: demo_calls_def)
  then have inv: "reg_inv demo_setup"
    by (simp add: demo_setup_def demo_calls_def setup_step_def setup_call_def)
  have asg: "rg_assignments demo_setup = []" by code_simp
  then have "apart demo_setup" by (simp add: apart_def dmem_def)
  note p = materialize_keeps_promises [OF m inv this]
  have v: "rg_validated demo_setup = [(''b'', ''n'', ''duo''), (''d'', ''n'', ''lead'')]"
    and roles: "dget (roles_of demo_setup) ''duo'' = Some (demo_role ''duo'' SHARED (Some 2) True)" by code_simp+
  from p obtain A jams where o1: "out = map (\<lambda>(d, _, name). (d, the (dget (roles_of demo_setup) name))) (rg_validated demo_setup) @ jams"
    and n1: "map fst jams = newcomers (dkeys (rg_validated demo_setup) @ dkeys (rg_assignments demo_setup)) [''b'', ''z'']"
    and ans: "answered demo_jam () (demo_setup\<lparr>rg_validated := [], rg_assignments := A\<rparr>) jams b' reg'"
    and jam: "\<forall>(d, r) \<in> set jams. dget (rg_assignments reg') d = Some ([], r_name r, r_class r)" by blast
  have out: "map fst out = [''b'', ''d''] @ map fst jams" by (simp add: o1 v)
  have new: "map fst jams = [''z'']" by (simp add: n1 v asg)
  from new obtain r where j: "jams = [(''z'', r)]" by (cases jams) auto
  with ans have "r = demo_role ''jam'' JAM None False" by (simp add: demo_jam_def)
  with jam j have "dget (rg_assignments reg') ''z'' = Some ('''', ''jam'', JAM)" by (simp add: demo_role_def)
  moreover have "dget (rg_assignments reg') ''b'' = Some (''n'', ''duo'', SHARED)"
  proof -
    have "dget (rg_validated demo_setup) ''b'' = Some (''n'', ''duo'')" by (simp add: v)
    with p obtain r where "dget (roles_of demo_setup) ''duo'' = Some r"
      "dget (rg_assignments reg') ''b'' = Some (''n'', ''duo'', r_class r)" by blast
    with roles show ?thesis by (simp add: demo_role_def)
  qed
  ultimately show ?thesis using m p out new by auto
qed

lemma counters_count_holders_witness:
  "count_of (foldl reg_step (new_registration demo_table (Some 2))
     (demo_calls @ [CallMaterialize (\<lambda>_. demo_role ''jam'' JAM None False) [''b'', ''z'']])) ''duo''
   = int (holders (foldl reg_step (new_registration demo_table (Some 2))
     (demo_calls @ [CallMaterialize (\<lambda>_. demo_role ''jam'' JAM None False) [''b'', ''z'']])) ''duo'')"
proof -
  let ?cs = "demo_calls @ [CallMaterialize (\<lambda>_. demo_role ''jam'' JAM None False) [''b'', ''z'']]"
  have "rg_assignments (foldl reg_step (new_registration demo_table (Some 2)) demo_calls) = []" by code_simp
  then have "apart (foldl reg_step (new_registration demo_table (Some 2)) demo_calls)" by (simp add: apart_def dmem_def)
  then have "apart_run (new_registration demo_table (Some 2)) ?cs" by (simp add: demo_calls_def)
  with counters_count_holders [of demo_table "Some 2" ?cs "''duo''"] show ?thesis by blast
qed

definition leak_table :: role_table where
  "leak_table =
     \<lparr>rt_roles = [(''lead'', demo_role ''lead'' UNIQUE (Some 1) True),
                  (''room_demo'', demo_role ''room_demo'' CLASS_ROOM (Some 1) False)],
      rt_node_map = [(''n'', [''lead'']), (''room'', [''room_demo''])]\<rparr>"

definition leak_start :: registration where
  "leak_start = foldl reg_step (new_registration leak_table None)
     [CallJoinRoom ''d'' ''room'', CallValidate ''d'' ''n'']"

lemma refused_join_changes_nothing:
  "join_room_loop reg dev node names = Some (jr, reg') \<Longrightarrow> jr_reason jr = RegistrationClosed \<Longrightarrow> reg' = reg"
  by (induction reg dev node names rule: join_room_loop.induct)
    (auto simp: granted_result_def split: option.splits if_splits)

text \<open>
  A fixture that also reserves a player slot leaks its room seat. The book accepts a device that is
  bound to a fixture and then validates on a player node; \<open>materialize\<close> overwrites its room assignment
  without uncounting it, so the room role's only seat stays counted with nobody holding it, and a later
  room join is refused.
\<close>
theorem materialize_can_leak_a_seat:
  "\<exists>out b' reg'. materialize demo_jam [] () leak_start = Some (out, b', reg')
     \<and> count_of reg' ''room_demo'' = 1 \<and> holders reg' ''room_demo'' = 0
     \<and> (\<exists>jr. join_room reg' ''e'' ''room'' = Some (jr, reg') \<and> jr_reason jr = RegistrationClosed)"
proof -
  have facts: "(case materialize demo_jam [] () leak_start of None \<Rightarrow> False
     | Some (out, b', reg') \<Rightarrow> count_of reg' ''room_demo'' = 1 \<and> holders reg' ''room_demo'' = 0
        \<and> (case join_room reg' ''e'' ''room'' of None \<Rightarrow> False
           | Some (jr, reg'') \<Rightarrow> jr_reason jr = RegistrationClosed))"
    by code_simp
  then obtain out b' reg' where m: "materialize demo_jam [] () leak_start = Some (out, b', reg')"
    and cnt: "count_of reg' ''room_demo'' = 1" "holders reg' ''room_demo'' = 0"
    and j: "case join_room reg' ''e'' ''room'' of None \<Rightarrow> False
           | Some (jr, reg'') \<Rightarrow> jr_reason jr = RegistrationClosed"
    by (cases "materialize demo_jam [] () leak_start") auto
  from j obtain jr reg'' where jr: "join_room reg' ''e'' ''room'' = Some (jr, reg'')"
    and closed: "jr_reason jr = RegistrationClosed"
    by (cases "join_room reg' ''e'' ''room''") auto
  have "reg'' = reg'"
    by (rule refused_join_changes_nothing [OF jr [unfolded join_room_def] closed])
  with m cnt jr closed show ?thesis by blast
qed

subsection \<open>Releasing\<close>

lemma drop_nothing:
  "\<not> dmem dev (rg_validated reg) \<Longrightarrow> \<not> dmem dev (rg_assignments reg) \<Longrightarrow> release dev reg = reg"
  by (simp add: release_def drop_validation_def drop_assignment_def flip: dget_None_iff)

text \<open>
  Releasing a device is complete and touches nobody else: afterwards it holds neither a reservation
  nor an assignment, every other device holds exactly what it held, and a second release does nothing.
\<close>
theorem release_is_complete:
  "\<not> release_held dev (release dev reg)
   \<and> (\<forall>d. d = dev \<or> dget (rg_validated (release dev reg)) d = dget (rg_validated reg) d)
   \<and> (\<forall>d. d = dev \<or> dget (rg_assignments (release dev reg)) d = dget (rg_assignments reg) d)
   \<and> release dev (release dev reg) = release dev reg"
  by (simp add: release_held_def drop_nothing)

end
