(* ===== verification/Manifests.thy ===== *)
theory Manifests
  imports Registration
begin

section \<open>Authored manifests\<close>

text \<open>
  The structural validation of a role's light manifest, audio (ugen) manifest, welcome and surface
  zones in \<open>src/control/role_config.py\<close>, with \<open>parse_cc_ref\<close> of \<open>src/control/audio.py\<close>. A manifest is
  a decoded value; the tests are made in the source's order and the result is the first refusal.
\<close>

datatype (plugins only: code size) manifest_error =
    NotADict | ComposedKey string | InstrumentsNotList | DeclNotDict | MissingField string
  | ParamsNotDict | LanesNotList | LaneNotDict | WelcomeEmpty | UnknownWelcome
  | TooManyInstruments | BadProgram | BadDrums | SecondDrums | DroneNotDict | BadCcRef
  | TooManyMelodic | EmptyEntry | BadZoneName | DuplicateZone | BadZoneRange

definition COMPOSED_KEYS :: "string list" where
  "COMPOSED_KEYS = [''welcome'', ''bit_name'', ''bit_version'', ''role'']"

definition WELCOME_INSTRUMENTS :: "(string \<times> int \<times> int \<times> int) list" where
  "WELCOME_INSTRUMENTS = [(''chime'', 9, 84, 88), (''bell'', 14, 69, 100)]"

fun as_dict :: "pyval \<Rightarrow> (string, pyval) dict option" where
  "as_dict (VDict d) = Some d"
| "as_dict _ = None"

fun as_list :: "pyval \<Rightarrow> pyval list option" where
  "as_list (VList xs) = Some xs"
| "as_list _ = None"

text \<open>\<open>d.get(k, default)\<close>\<close>

definition dget_default :: "(string, pyval) dict \<Rightarrow> string \<Rightarrow> pyval \<Rightarrow> pyval" where
  "dget_default d k v = (case dget d k of Some w \<Rightarrow> w | None \<Rightarrow> v)"

definition missing_field :: "(string, pyval) dict \<Rightarrow> string list \<Rightarrow> manifest_error option" where
  "missing_field d names = first_error (map (\<lambda>n. refuse (\<not> dmem n d) (MissingField n)) names)"

definition check_lanes :: "((string, pyval) dict \<Rightarrow> manifest_error option) \<Rightarrow> pyval \<Rightarrow> manifest_error option" where
  "check_lanes extra v =
     (case as_list v of
        None \<Rightarrow> Some LanesNotList
      | Some lanes \<Rightarrow>
          first_error (map (\<lambda>lane. case as_dict lane of
               None \<Rightarrow> Some LaneNotDict
             | Some l \<Rightarrow> first_error [missing_field l [''source'', ''dest''], extra l]) lanes))"

subsection \<open>Light\<close>

definition validate_light_decl :: "pyval \<Rightarrow> manifest_error option" where
  "validate_light_decl v =
     (case as_dict v of
        None \<Rightarrow> Some DeclNotDict
      | Some decl \<Rightarrow>
          first_error
           [missing_field decl [''instrument'', ''target''],
            refuse (as_dict (dget_default decl ''params'' (VDict [])) = None) ParamsNotDict,
            check_lanes (\<lambda>_. None) (dget_default decl ''lanes'' (VList []))])"

definition validate_light_manifest :: "pyval \<Rightarrow> manifest_error option" where
  "validate_light_manifest v =
     (case as_dict v of
        None \<Rightarrow> Some NotADict
      | Some manifest \<Rightarrow>
          first_error
           (map (\<lambda>k. refuse (dmem k manifest) (ComposedKey k)) COMPOSED_KEYS
            @ [case as_list (dget_default manifest ''instruments'' (VList [])) of
                 None \<Rightarrow> Some InstrumentsNotList
               | Some decls \<Rightarrow> first_error (map validate_light_decl decls)]))"

subsection \<open>Welcome\<close>

definition known_welcome :: "pyval \<Rightarrow> bool" where
  "known_welcome v \<longleftrightarrow> (case v of VStr s \<Rightarrow> s \<in> fst ` set WELCOME_INSTRUMENTS | _ \<Rightarrow> False)"

definition validate_welcome_half :: "string \<Rightarrow> pyval \<Rightarrow> manifest_error option" where
  "validate_welcome_half half v =
     (case as_dict v of
        None \<Rightarrow> Some DeclNotDict
      | Some decl \<Rightarrow>
          first_error
           [missing_field decl [''instrument''],
            refuse (half = ''audio'' \<and> \<not> known_welcome (dget_default decl ''instrument'' VNone)) UnknownWelcome,
            refuse (as_dict (dget_default decl ''params'' (VDict [])) = None) ParamsNotDict])"

definition validate_welcome :: "pyval option \<Rightarrow> manifest_error option" where
  "validate_welcome w =
     (case w of
        None \<Rightarrow> None
      | Some v \<Rightarrow>
          (case as_dict v of
             None \<Rightarrow> Some NotADict
           | Some welcome \<Rightarrow>
               (let halves = filter (\<lambda>h. dmem h welcome) [''light'', ''audio'']
                in first_error
                    (refuse (halves = []) WelcomeEmpty
                     # map (\<lambda>h. validate_welcome_half h (dget_default welcome h VNone)) halves))))"

subsection \<open>Audio\<close>

definition MAX_PARTS :: int where "MAX_PARTS = 16"
definition MAX_MELODIC_PARTS :: int where "MAX_MELODIC_PARTS = MAX_PARTS - 1"

definition CC_PREFIX :: string where "CC_PREFIX = ''cc:''"

text \<open>\<open>parse_cc_ref\<close>: the controller number, or \<open>None\<close> for its \<open>ValueError\<close>.\<close>

definition parse_cc_ref :: "pyval \<Rightarrow> int option" where
  "parse_cc_ref v =
     (case v of
        VStr s \<Rightarrow>
          (if \<not> starts_with CC_PREFIX s then None
           else case int_of_string (strip_blanks (drop (length CC_PREFIX) s)) of
                  None \<Rightarrow> None
                | Some n \<Rightarrow> if 0 \<le> n \<and> n \<le> 127 then Some n else None)
      | _ \<Rightarrow> None)"

definition check_cc_lane :: "(string, pyval) dict \<Rightarrow> manifest_error option" where
  "check_cc_lane lane =
     first_error
      [refuse (parse_cc_ref (dget_default lane ''source'' VNone) = None) BadCcRef,
       refuse (parse_cc_ref (dget_default lane ''dest'' VNone) = None) BadCcRef]"

definition bad_program :: "pyval \<Rightarrow> bool" where
  "bad_program v \<longleftrightarrow>
     (case v of VNone \<Rightarrow> False | VInt n \<Rightarrow> \<not> (0 \<le> n \<and> n \<le> 127) | _ \<Rightarrow> True)"

fun as_bool :: "pyval \<Rightarrow> bool option" where
  "as_bool (VBool b) = Some b"
| "as_bool _ = None"

definition check_drone :: "pyval \<Rightarrow> manifest_error option" where
  "check_drone v =
     (case v of
        VNone \<Rightarrow> None
      | VDict drone \<Rightarrow> missing_field drone [''key'', ''velocity'']
      | _ \<Rightarrow> Some DroneNotDict)"

definition is_drums :: "(string, pyval) dict \<Rightarrow> bool" where
  "is_drums decl \<longleftrightarrow> as_bool (dget_default decl ''drums'' (VBool False)) = Some True"

definition validate_ugen_decl :: "bool \<Rightarrow> (string, pyval) dict \<Rightarrow> manifest_error option" where
  "validate_ugen_decl drums_taken decl =
     first_error
      [missing_field decl [''instrument''],
       refuse (bad_program (dget_default decl ''program'' VNone)) BadProgram,
       refuse (as_bool (dget_default decl ''drums'' (VBool False)) = None) BadDrums,
       refuse (is_drums decl \<and> drums_taken) SecondDrums,
       check_drone (dget_default decl ''drone'' VNone),
       check_lanes check_cc_lane (dget_default decl ''lanes'' (VList []))]"

text \<open>The loop over the instruments; \<open>drums_taken\<close> is \<open>drums_at is not None\<close>.\<close>

fun validate_ugen_decls :: "bool \<Rightarrow> pyval list \<Rightarrow> (manifest_error, bool) sum" where
  "validate_ugen_decls drums_taken [] = Inr drums_taken"
| "validate_ugen_decls drums_taken (v # rest) =
     (case as_dict v of
        None \<Rightarrow> Inl DeclNotDict
      | Some decl \<Rightarrow>
          (case validate_ugen_decl drums_taken decl of
             Some e \<Rightarrow> Inl e
           | None \<Rightarrow> validate_ugen_decls (drums_taken \<or> is_drums decl) rest))"

definition validate_ugen_manifest :: "pyval \<Rightarrow> manifest_error option" where
  "validate_ugen_manifest v =
     (case as_dict v of
        None \<Rightarrow> Some NotADict
      | Some manifest \<Rightarrow>
          (case as_list (dget_default manifest ''instruments'' (VList [])) of
             None \<Rightarrow> Some InstrumentsNotList
           | Some decls \<Rightarrow>
               if MAX_PARTS < int (length decls) then Some TooManyInstruments
               else case validate_ugen_decls False decls of
                      Inl e \<Rightarrow> Some e
                    | Inr drums \<Rightarrow>
                        refuse (MAX_MELODIC_PARTS < int (length decls) - (if drums then 1 else 0))
                          TooManyMelodic))"

subsection \<open>Zones and the rest of a role\<close>

definition validate_string_list :: "string list \<Rightarrow> manifest_error option" where
  "validate_string_list xs = first_error (map (\<lambda>s. refuse (s = []) EmptyEntry) xs)"

fun validate_zones_from :: "string list \<Rightarrow> (string \<times> int \<times> int) list \<Rightarrow> manifest_error option" where
  "validate_zones_from names [] = None"
| "validate_zones_from names ((name, start, width) # rest) =
     first_error
      [refuse (name = [] \<or> name = ''primary'') BadZoneName,
       refuse (name \<in> set names) DuplicateZone,
       refuse (start < 0 \<or> width < 1) BadZoneRange,
       validate_zones_from (names @ [name]) rest]"

definition validate_zones :: "role \<Rightarrow> manifest_error option" where
  "validate_zones r = validate_zones_from [] (r_zones r)"

definition validate_role_declaration :: "role \<Rightarrow> manifest_error option" where
  "validate_role_declaration r =
     first_error
      [validate_light_manifest (r_light_manifest r), validate_welcome (r_welcome r),
       validate_ugen_manifest (r_ugen_manifest r), validate_string_list (r_uses r),
       validate_string_list (r_samples r), validate_zones r]"

definition validate_role_declarations :: "role_table \<Rightarrow> manifest_error option" where
  "validate_role_declarations table =
     first_error (map (\<lambda>(_, r). validate_role_declaration r) (rt_roles table))"

definition PLAYER_PIXELS :: int where "PLAYER_PIXELS = 12"

text \<open>\<open>player_pixels\<close>; \<open>None\<close> is a caller with no instrument.\<close>

definition player_pixels :: "instrument option \<Rightarrow> int" where
  "player_pixels inst = max (case inst of None \<Rightarrow> 0 | Some i \<Rightarrow> i_pixels i) PLAYER_PIXELS"

text \<open>\<open>validate_instrument_manifests\<close>: an empty (falsy) manifest is not looked at.\<close>

fun falsy :: "pyval \<Rightarrow> bool" where
  "falsy VNone = True"
| "falsy (VBool b) = (\<not> b)"
| "falsy (VInt i) = (i = 0)"
| "falsy (VFloat f) = (f = Fin 0)"
| "falsy (VStr s) = (s = [])"
| "falsy (VList xs) = (xs = [])"
| "falsy (VDict d) = (d = [])"

definition validate_instrument_manifests :: "instrument \<Rightarrow> manifest_error option" where
  "validate_instrument_manifests inst =
     first_error
      [if falsy (i_light_manifest inst) then None else validate_light_manifest (i_light_manifest inst),
       if falsy (i_ugen_manifest inst) then None else validate_ugen_manifest (i_ugen_manifest inst)]"

subsection \<open>What acceptance means\<close>

definition drums_count :: "pyval list \<Rightarrow> nat" where
  "drums_count decls =
     length (filter (\<lambda>v. case as_dict v of None \<Rightarrow> False | Some d \<Rightarrow> is_drums d) decls)"

lemma drums_count_simps [simp]:
  "drums_count [] = 0"
  "drums_count (v # vs) =
     (case as_dict v of None \<Rightarrow> 0 | Some d \<Rightarrow> if is_drums d then 1 else 0) + drums_count vs"
  by (simp_all add: drums_count_def split: option.splits)

lemma validate_ugen_decls_ok:
  "validate_ugen_decls taken decls = Inr drums \<Longrightarrow>
   drums_count decls + (if taken then 1 else 0) \<le> 1
   \<and> (drums \<longleftrightarrow> drums_count decls + (if taken then 1 else 0) = 1)
   \<and> (\<forall>v \<in> set decls. \<exists>d t. as_dict v = Some d \<and> validate_ugen_decl t d = None)"
proof (induction taken decls rule: validate_ugen_decls.induct)
  case (2 taken v rest)
  then obtain d where d: "as_dict v = Some d" and ok: "validate_ugen_decl taken d = None"
    and rest: "validate_ugen_decls (taken \<or> is_drums d) rest = Inr drums"
    by (auto split: option.splits)
  have excl: "\<not> (is_drums d \<and> taken)" using ok by (simp add: validate_ugen_decl_def)
  from "2.IH" [OF d ok rest] d ok excl show ?case by (auto split: if_splits)
qed auto

definition controller_lane :: "pyval \<Rightarrow> bool" where
  "controller_lane v \<longleftrightarrow>
     (case as_dict v of
        None \<Rightarrow> False
      | Some l \<Rightarrow> parse_cc_ref (dget_default l ''source'' VNone) \<noteq> None
                \<and> parse_cc_ref (dget_default l ''dest'' VNone) \<noteq> None)"

definition lane_controllers_ok :: "(string, pyval) dict \<Rightarrow> bool" where
  "lane_controllers_ok decl \<longleftrightarrow>
     (case as_list (dget_default decl ''lanes'' (VList [])) of
        None \<Rightarrow> False | Some lanes \<Rightarrow> list_all controller_lane lanes)"

lemma check_lanes_None:
  "check_lanes extra v = None \<Longrightarrow>
   \<exists>lanes. as_list v = Some lanes \<and> (\<forall>x \<in> set lanes. \<exists>l. as_dict x = Some l \<and> extra l = None)"
  by (auto simp: check_lanes_def split: option.splits)

lemma check_cc_lane_None: "as_dict x = Some l \<Longrightarrow> check_cc_lane l = None \<Longrightarrow> controller_lane x"
  by (simp add: check_cc_lane_def controller_lane_def)

lemma validate_ugen_decl_lanes: "validate_ugen_decl t d = None \<Longrightarrow> lane_controllers_ok d"
proof -
  assume "validate_ugen_decl t d = None"
  then have "check_lanes check_cc_lane (dget_default d ''lanes'' (VList [])) = None"
    by (simp add: validate_ugen_decl_def)
  from check_lanes_None [OF this] show ?thesis
    using check_cc_lane_None by (fastforce simp: lane_controllers_ok_def list_all_iff)
qed

lemma parse_cc_ref_range: "parse_cc_ref v = Some n \<Longrightarrow> 0 \<le> n \<and> n \<le> 127"
  by (auto simp: parse_cc_ref_def split: pyval.splits if_splits option.splits)

text \<open>
  An accepted audio manifest fits one synthesizer. Its instruments are dictionaries, at most 16 of
  them and at most one of them drums, so the melodic ones take at most the 15 channels left beside the
  reserved drum channel, and every lane end is a controller reference in 0-127.
\<close>
theorem accepted_ugen_fits_channels:
  assumes "validate_ugen_manifest (VDict manifest) = None"
  shows "\<exists>decls. dget_default manifest ''instruments'' (VList []) = VList decls
    \<and> length decls \<le> 16 \<and> drums_count decls \<le> 1 \<and> length decls - drums_count decls \<le> 15
    \<and> (\<forall>v \<in> set decls. \<exists>d. v = VDict d \<and> lane_controllers_ok d)"
proof -
  from assms obtain decls drums where
    l: "as_list (dget_default manifest ''instruments'' (VList [])) = Some decls"
    and n: "int (length decls) \<le> 16" and v: "validate_ugen_decls False decls = Inr drums"
    and m: "int (length decls) - (if drums then 1 else 0) \<le> 15"
    by (auto simp: validate_ugen_manifest_def MAX_MELODIC_PARTS_def MAX_PARTS_def
        split: option.splits sum.splits if_splits)
  have inst: "dget_default manifest ''instruments'' (VList []) = VList decls"
    using l by (cases "dget_default manifest ''instruments'' (VList [])") auto
  have dict: "v = VDict d" if "as_dict v = Some d" for v d
    using that by (cases v) auto
  note ok = validate_ugen_decls_ok [OF v]
  have few: "drums_count decls \<le> 1" using ok by simp
  have "drums \<longleftrightarrow> drums_count decls = 1" using ok by simp
  with few m n have melodic: "length decls - drums_count decls \<le> 15" by (cases drums) simp_all
  have "\<forall>v \<in> set decls. \<exists>d. v = VDict d \<and> lane_controllers_ok d"
    using ok dict validate_ugen_decl_lanes by blast
  with inst n few melodic show ?thesis by simp
qed

lemma accepted_ugen_fits_channels_witness:
  "\<exists>decls. dget_default [(''instruments'', VList [VDict [(''instrument'', VStr ''flsyn''), (''drums'', VBool True)],
      VDict [(''instrument'', VStr ''flsyn''), (''program'', VInt 40),
        (''lanes'', VList [VDict [(''source'', VStr ''cc:1''), (''dest'', VStr ''cc:74'')]])]])]
      ''instruments'' (VList []) = VList decls \<and> length decls \<le> 16 \<and> drums_count decls \<le> 1"
proof -
  have "validate_ugen_manifest (VDict [(''instruments'', VList [VDict [(''instrument'', VStr ''flsyn''), (''drums'', VBool True)],
      VDict [(''instrument'', VStr ''flsyn''), (''program'', VInt 40),
        (''lanes'', VList [VDict [(''source'', VStr ''cc:1''), (''dest'', VStr ''cc:74'')]])]])]) = None"
    by code_simp
  from accepted_ugen_fits_channels [OF this] show ?thesis by blast
qed

text \<open>
  Accepted zones are usable names and ranges: distinct, none called \<open>primary\<close> or empty, each a
  non-empty pixel range that starts at or after 0.
\<close>
theorem accepted_zones_wellformed:
  assumes "validate_zones r = None"
  shows "distinct (map fst (r_zones r))
    \<and> (\<forall>(name, start, width) \<in> set (r_zones r). name \<noteq> [] \<and> name \<noteq> ''primary'' \<and> 0 \<le> start \<and> 0 < width)"
proof -
  have "validate_zones_from names zs = None \<Longrightarrow>
      distinct (map fst zs) \<and> set (map fst zs) \<inter> set names = {}
      \<and> (\<forall>(name, start, width) \<in> set zs. name \<noteq> [] \<and> name \<noteq> ''primary'' \<and> 0 \<le> start \<and> 0 < width)"
    for names zs
    by (induction names zs rule: validate_zones_from.induct) auto
  from this [OF assms [unfolded validate_zones_def]] show ?thesis by blast
qed

definition bar_role :: role where
  "bar_role =
     \<lparr>r_name = ''bar'', r_class = UNIQUE, r_capacity = Some 1, r_scored = True, r_uses = [''tap''],
      r_samples = [], r_ugen_manifest = VDict [], r_light_manifest = VDict [], r_welcome = None,
      r_breath = True, r_requires = None, r_zones = [(''p0'', 0, 3), (''p1'', 3, 3)]\<rparr>"

lemma accepted_zones_wellformed_witness: "distinct (map fst (r_zones bar_role)) \<and> length (r_zones bar_role) = 2"
proof -
  have "validate_zones bar_role = None" by code_simp
  from accepted_zones_wellformed [OF this] show ?thesis by (simp add: bar_role_def)
qed

end
