(* ===== verification/Rooms.thy ===== *)
theory Rooms
  imports Manifests
begin

section \<open>Rooms, their fixtures and who is bound to them\<close>

text \<open>
  \<open>src/control/room_profile.py\<close> (a Room's light surface: fixtures cut into blocks and zones),
  \<open>src/control/rooms.py\<close> (the Room and its ROOM-class role) and \<open>src/control/room_binding.py\<close> (the
  registry of bound devices and the arming window). Pixel positions are Python ints; a clock reading
  is an argument of the operation that makes it.
\<close>

subsection \<open>Profiles\<close>

record room_zone =
  z_name :: string
  z_start :: int
  z_count :: int

record room_block =
  b_name :: string
  b_start :: int
  b_count :: int

record room_fixture =
  x_name :: string
  x_blocks :: "room_block list"
  x_zones :: "room_zone list"
  x_instrument :: instrument

record room_profile =
  p_surface_id :: string
  p_fixtures :: "room_fixture list"

definition MAX_PROFILE_PIXELS :: int where "MAX_PROFILE_PIXELS = 170"
definition CHANNELS_PER_PIXEL :: int where "CHANNELS_PER_PIXEL = 4"

definition fixture_pixels :: "room_fixture \<Rightarrow> int" where
  "fixture_pixels f = sum_list (map b_count (x_blocks f))"

definition profile_pixels :: "room_profile \<Rightarrow> int" where
  "profile_pixels p = sum_list (map fixture_pixels (p_fixtures p))"

definition channel_count :: "room_profile \<Rightarrow> int" where
  "channel_count p = sum_list (map (\<lambda>f. fixture_pixels f * CHANNELS_PER_PIXEL) (p_fixtures p))"

fun zones_from :: "int \<Rightarrow> room_fixture list \<Rightarrow> room_zone list" where
  "zones_from offset [] = []"
| "zones_from offset (f # fs) =
     map (\<lambda>z. \<lparr>z_name = x_name f @ ''.'' @ z_name z, z_start = offset + z_start z, z_count = z_count z\<rparr>)
       (x_zones f)
     @ zones_from (offset + fixture_pixels f) fs"

definition profile_zones :: "room_profile \<Rightarrow> room_zone list" where
  "profile_zones p = zones_from 0 (p_fixtures p)"

fun slices_from :: "int \<Rightarrow> room_fixture list \<Rightarrow> (string \<times> int \<times> int) list" where
  "slices_from offset [] = []"
| "slices_from offset (f # fs) =
     (let width = fixture_pixels f * CHANNELS_PER_PIXEL
      in (x_name f, offset, width) # slices_from (offset + width) fs)"

definition fixture_slices :: "room_profile \<Rightarrow> (string \<times> int \<times> int) list" where
  "fixture_slices p = slices_from 0 (p_fixtures p)"

subsection \<open>Validation of a profile\<close>

datatype profile_error =
    NoFixtures | DuplicateFixture | NoBlocks | DuplicateBlock | BlockNotPositive | BlockTooLong
  | BlocksOverlap | BlocksGap | ZoneOverrun | ZonesOverlap
  | InstrumentRefused instrument_error | ManifestRefused manifest_error

definition block_spans :: "room_block list \<Rightarrow> (int \<times> int) list" where
  "block_spans bs = sort (map (\<lambda>b. (b_start b, b_start b + b_count b)) bs)"

definition zone_spans :: "room_zone list \<Rightarrow> (int \<times> int) list" where
  "zone_spans zs = sort (map (\<lambda>z. (z_start z, z_start z + z_count z)) zs)"

fun spans_overlap :: "(int \<times> int) list \<Rightarrow> bool" where
  "spans_overlap ((a, b) # (c, d) # rest) \<longleftrightarrow> c < b \<or> spans_overlap ((c, d) # rest)"
| "spans_overlap _ = False"

fun spans_gap :: "int \<Rightarrow> (int \<times> int) list \<Rightarrow> bool" where
  "spans_gap expected [] = False"
| "spans_gap expected ((a, b) # rest) \<longleftrightarrow> a \<noteq> expected \<or> spans_gap b rest"

definition validate_block :: "room_block \<Rightarrow> profile_error option" where
  "validate_block b =
     first_error
      [refuse (b_count b \<le> 0) BlockNotPositive,
       refuse (MAX_PROFILE_PIXELS < b_count b) BlockTooLong]"

definition validate_blocks :: "room_fixture \<Rightarrow> profile_error option" where
  "validate_blocks f =
     first_error
      ([refuse (x_blocks f = []) NoBlocks,
        refuse (\<not> distinct (map b_name (x_blocks f))) DuplicateBlock]
       @ map validate_block (x_blocks f)
       @ [refuse (spans_overlap (block_spans (x_blocks f))) BlocksOverlap,
          refuse (spans_gap 0 (block_spans (x_blocks f))) BlocksGap])"

definition validate_fixture_zones :: "room_fixture \<Rightarrow> profile_error option" where
  "validate_fixture_zones f =
     first_error
      (map (\<lambda>(a, b). refuse (a < 0 \<or> fixture_pixels f < b) ZoneOverrun) (zone_spans (x_zones f))
       @ [refuse (spans_overlap (zone_spans (x_zones f))) ZonesOverlap])"

definition validate_fixture_instrument :: "room_fixture \<Rightarrow> profile_error option" where
  "validate_fixture_instrument f =
     first_error
      [map_option InstrumentRefused (validate_instrument (x_instrument f)),
       map_option ManifestRefused (validate_instrument_manifests (x_instrument f))]"

definition validate_profile :: "room_profile \<Rightarrow> profile_error option" where
  "validate_profile p =
     first_error
      ([refuse (p_fixtures p = []) NoFixtures,
        refuse (\<not> distinct (map x_name (p_fixtures p))) DuplicateFixture]
       @ map validate_blocks (p_fixtures p)
       @ map validate_fixture_zones (p_fixtures p)
       @ map validate_fixture_instrument (p_fixtures p))"

subsection \<open>Fixture against instrument\<close>

datatype mismatch = PixelsDiffer | MarkersDiffer | ZoneDiffers nat

definition zone_covers :: "int \<Rightarrow> room_zone \<Rightarrow> bool" where
  "zone_covers px z \<longleftrightarrow> z_start z \<le> px \<and> px < z_start z + z_count z"

definition model_pixels :: "pixel_layout list \<Rightarrow> string \<Rightarrow> int list" where
  "model_pixels layout zone = map (int \<circ> pl_index) (filter (\<lambda>q. pl_zone q = Some zone) layout)"

definition marker_mismatch :: "room_fixture \<Rightarrow> pixel_layout \<Rightarrow> mismatch option" where
  "marker_mismatch f q =
     (case pl_zone q of
        None \<Rightarrow> None
      | Some zone \<Rightarrow>
          (let covering = filter (zone_covers (int (pl_index q))) (x_zones f);
               tagged = model_pixels (i_layout (x_instrument f)) zone;
               refined = covering \<noteq> [] \<and>
                 list_all (\<lambda>z. list_all (\<lambda>px. px \<in> set tagged) [z_start z .. z_start z + z_count z - 1]) covering
           in if zone \<notin> set (map z_name covering) \<and> \<not> refined then Some (ZoneDiffers (pl_index q)) else None))"

definition fixture_instrument_mismatch :: "room_fixture \<Rightarrow> mismatch option" where
  "fixture_instrument_mismatch f =
     (let inst = x_instrument f; px = fixture_pixels f
      in if i_pixels inst \<noteq> 0 \<and> i_pixels inst \<noteq> px then Some PixelsDiffer
         else if i_layout inst = [] then None
         else if int (length (i_layout inst)) \<noteq> px then Some MarkersDiffer
         else first_error (map (marker_mismatch f) (i_layout inst)))"

definition fixture_ambient :: "room_fixture \<Rightarrow> pyval \<times> pyval" where
  "fixture_ambient f = (i_light_manifest (x_instrument f), i_ugen_manifest (x_instrument f))"

subsection \<open>The Room\<close>

record room =
  rm_name :: string
  rm_profile :: room_profile
  rm_node_id :: node
  rm_bound :: "(string, dev) dict"

definition fully_bound :: "room \<Rightarrow> room_profile option \<Rightarrow> bool" where
  "fully_bound r profile =
     list_all (\<lambda>f. dmem (x_name f) (rm_bound r))
       (p_fixtures (case profile of Some p \<Rightarrow> p | None \<Rightarrow> rm_profile r))"

text \<open>Python's \<open>str.lower\<close> on the characters of the model.\<close>

definition lower_char :: "char \<Rightarrow> char" where
  "lower_char c =
     (let n = (of_char c :: nat)
      in if (65 \<le> n \<and> n \<le> 90) \<or> (192 \<le> n \<and> n \<le> 222 \<and> n \<noteq> 215) then char_of (n + 32) else c)"

definition room_role_name :: "string \<Rightarrow> string" where
  "room_role_name name = ''room_'' @ map lower_char name"

definition room_role :: "room \<Rightarrow> pyval option \<Rightarrow> pyval option \<Rightarrow> string \<times> role \<times> node" where
  "room_role r ugen light =
     (let name = room_role_name (rm_name r);
          given = (\<lambda>v. case v of None \<Rightarrow> VDict [] | Some m \<Rightarrow> if falsy m then VDict [] else m)
      in (name,
          \<lparr>r_name = name, r_class = CLASS_ROOM, r_capacity = Some (int (length (p_fixtures (rm_profile r)))),
           r_scored = False, r_uses = [], r_samples = [], r_ugen_manifest = given ugen,
           r_light_manifest = given light, r_welcome = None, r_breath = True, r_requires = None,
           r_zones = []\<rparr>,
          rm_node_id r))"

subsection \<open>The binding registry\<close>

record binding_registry =
  br_bound :: "(string, (string, dev) dict) dict"
  br_armed_fixture :: "(string, string) dict"
  br_armed_until :: "(string, rat) dict"

definition new_binding_registry :: binding_registry where
  "new_binding_registry = \<lparr>br_bound = [], br_armed_fixture = [], br_armed_until = []\<rparr>"

definition bound_device :: "string \<Rightarrow> string \<Rightarrow> binding_registry \<Rightarrow> dev option" where
  "bound_device r f reg = (case dget (br_bound reg) r of None \<Rightarrow> None | Some fixtures \<Rightarrow> dget fixtures f)"

definition disarm :: "string \<Rightarrow> binding_registry \<Rightarrow> binding_registry" where
  "disarm r reg = reg\<lparr>br_armed_fixture := dpop r (br_armed_fixture reg),
                      br_armed_until := dpop r (br_armed_until reg)\<rparr>"

definition disarm_if :: "string \<Rightarrow> string \<Rightarrow> binding_registry \<Rightarrow> binding_registry" where
  "disarm_if r f reg = (if dget (br_armed_fixture reg) r = Some f then disarm r reg else reg)"

definition bind_fixture :: "string \<Rightarrow> string \<Rightarrow> dev \<Rightarrow> binding_registry \<Rightarrow> binding_registry" where
  "bind_fixture r f d reg =
     disarm_if r f
       (reg\<lparr>br_bound :=
          dset r (dset f d (case dget (br_bound reg) r of None \<Rightarrow> [] | Some fixtures \<Rightarrow> fixtures))
            (br_bound reg)\<rparr>)"

definition release_fixture :: "string \<Rightarrow> string option \<Rightarrow> binding_registry \<Rightarrow> binding_registry" where
  "release_fixture r fixture reg =
     (case fixture of
        None \<Rightarrow> disarm r (reg\<lparr>br_bound := dpop r (br_bound reg)\<rparr>)
      | Some f \<Rightarrow>
          disarm_if r f
            (case dget (br_bound reg) r of
               None \<Rightarrow> reg
             | Some fixtures \<Rightarrow> reg\<lparr>br_bound := dset r (dpop f fixtures) (br_bound reg)\<rparr>))"

definition arm :: "string \<Rightarrow> string \<Rightarrow> rat \<Rightarrow> rat \<Rightarrow> binding_registry \<Rightarrow> binding_registry" where
  "arm r f window now reg =
     reg\<lparr>br_armed_fixture := dset r f (br_armed_fixture reg),
         br_armed_until := dset r (now + window) (br_armed_until reg)\<rparr>"

definition is_armed :: "string \<Rightarrow> rat \<Rightarrow> binding_registry \<Rightarrow> bool" where
  "is_armed r now reg \<longleftrightarrow>
     (case dget (br_armed_until reg) r of None \<Rightarrow> False | Some deadline \<Rightarrow> now < deadline)"

definition armed_fixture :: "string \<Rightarrow> rat \<Rightarrow> binding_registry \<Rightarrow> string option" where
  "armed_fixture r now reg = (if is_armed r now reg then dget (br_armed_fixture reg) r else None)"

text \<open>The file holds the bindings only. A room's entry is a fixture map, or (old format) something else.\<close>

datatype saved_room = FixtureMap "(string, dev) dict" | OldFormat

definition save_bindings :: "binding_registry \<Rightarrow> (string, saved_room) dict" where
  "save_bindings reg = map (\<lambda>(r, fixtures). (r, FixtureMap fixtures)) (br_bound reg)"

fun load_rooms :: "(string, saved_room) dict \<Rightarrow> (string, (string, dev) dict) dict option" where
  "load_rooms [] = Some []"
| "load_rooms ((r, FixtureMap fixtures) # rest) = map_option (\<lambda>more. (r, fixtures) # more) (load_rooms rest)"
| "load_rooms ((r, OldFormat) # rest) = None"

text \<open>\<open>load\<close>: a missing file (\<open>None\<close>) and an old-format file leave the registry as it is.\<close>

definition load_bindings :: "(string, saved_room) dict option \<Rightarrow> binding_registry \<Rightarrow> binding_registry" where
  "load_bindings file reg =
     (case file of
        None \<Rightarrow> reg
      | Some data \<Rightarrow> (case load_rooms data of None \<Rightarrow> reg | Some bound \<Rightarrow> reg\<lparr>br_bound := bound\<rparr>))"

end
