(* ===== verification/Role_Config.thy ===== *)
theory Role_Config
  imports Rooms "HOL-Library.List_Lexorder" "HOL-Library.Char_ord"
begin

section \<open>What a device is told about its role\<close>

text \<open>
  \<open>src/control/role_config.py\<close> beyond the validations: the per-fixture slice of a ROOM role's light
  manifest, and the config blob of a granted role, with the wire view of functions from
  \<open>src/control/function_view.py\<close>. The blob is a decoded JSON value. A lookup the source would raise on
  (a target that names no fixture or zone, a declaration that is no dictionary) is \<open>None\<close>.
\<close>

subsection \<open>Targets of a room manifest\<close>

definition find_fixture :: "room_profile \<Rightarrow> string \<Rightarrow> room_fixture option" where
  "find_fixture p name = List.find (\<lambda>f. x_name f = name) (p_fixtures p)"

text \<open>\<open>str.partition('.')\<close>: before, whether there is a dot, after.\<close>

definition partition_dot :: "string \<Rightarrow> string \<times> bool \<times> string" where
  "partition_dot s =
     (takeWhile (\<lambda>c. c \<noteq> CHR ''.'') s, CHR ''.'' \<in> set s, drop 1 (dropWhile (\<lambda>c. c \<noteq> CHR ''.'') s))"

definition split_target :: "pyval \<Rightarrow> room_profile \<Rightarrow> (string option \<times> string) option" where
  "split_target v p =
     (case v of
        VStr target \<Rightarrow>
          (if target = ''primary'' then Some (None, ''primary'')
           else case partition_dot target of (fixture_part, dot, zone_part) \<Rightarrow>
             (case find_fixture p fixture_part of
                None \<Rightarrow> None
              | Some f \<Rightarrow>
                  if \<not> dot then Some (Some (x_name f), ''primary'')
                  else if zone_part \<notin> set (map z_name (x_zones f)) then None
                  else Some (Some (x_name f), zone_part)))
      | _ \<Rightarrow> None)"

text \<open>What Python iterates over.\<close>

fun iterated :: "pyval \<Rightarrow> pyval list option" where
  "iterated (VList xs) = Some xs"
| "iterated (VDict d) = Some (map (VStr \<circ> fst) d)"
| "iterated (VStr s) = Some (map (\<lambda>c. VStr [c]) s)"
| "iterated _ = None"

definition decl_target :: "pyval \<Rightarrow> room_profile \<Rightarrow> (string option \<times> string) option" where
  "decl_target v p =
     (case as_dict v of
        None \<Rightarrow> None
      | Some decl \<Rightarrow> split_target (dget_default decl ''target'' (VStr ''primary'')) p)"

definition manifest_decls :: "(string, pyval) dict \<Rightarrow> pyval list option" where
  "manifest_decls manifest = iterated (dget_default manifest ''instruments'' (VList []))"

fun targets_loop :: "room_profile \<Rightarrow> pyval list \<Rightarrow> string list option" where
  "targets_loop p [] = Some []"
| "targets_loop p (v # rest) =
     (case decl_target v p of
        None \<Rightarrow> None
      | Some (fixture, _) \<Rightarrow>
          map_option (\<lambda>names. case fixture of None \<Rightarrow> names | Some f \<Rightarrow> List.insert f names)
            (targets_loop p rest))"

definition manifest_fixture_targets :: "(string, pyval) dict \<Rightarrow> room_profile \<Rightarrow> string list option" where
  "manifest_fixture_targets manifest p =
     (case manifest_decls manifest of None \<Rightarrow> None | Some decls \<Rightarrow> targets_loop p decls)"

text \<open>A declaration with its target rewritten to the fixture's own zone.\<close>

definition retarget :: "pyval \<Rightarrow> string \<Rightarrow> pyval" where
  "retarget v local =
     (case v of VDict d \<Rightarrow> VDict (dset ''target'' (VStr local) d) | _ \<Rightarrow> v)"

fun slice_loop :: "room_profile \<Rightarrow> string \<Rightarrow> pyval list \<Rightarrow> pyval list option" where
  "slice_loop p name [] = Some []"
| "slice_loop p name (v # rest) =
     (case decl_target v p of
        None \<Rightarrow> None
      | Some (fixture, local) \<Rightarrow>
          if fixture \<noteq> None \<and> fixture \<noteq> Some name then slice_loop p name rest
          else map_option (\<lambda>kept. retarget v local # kept) (slice_loop p name rest))"

definition slice_light_manifest ::
  "(string, pyval) dict \<Rightarrow> room_profile \<Rightarrow> string \<Rightarrow> (string, pyval) dict option" where
  "slice_light_manifest manifest p name =
     (case manifest_decls manifest of
        None \<Rightarrow> None
      | Some decls \<Rightarrow>
          map_option (\<lambda>kept. filter (\<lambda>(k, _). k \<noteq> ''instruments'') manifest @ [(''instruments'', VList kept)])
            (slice_loop p name decls))"

subsection \<open>Functions on the wire\<close>

fun target_name :: "function_target \<Rightarrow> string" where
  "target_name TRoom = ''ROOM''"
| "target_name TDevice = ''DEVICE''"
| "target_name TAll = ''ALL''"
| "target_name TSurface = ''SURFACE''"

fun class_name :: "role_class \<Rightarrow> string" where
  "class_name UNIQUE = ''UNIQUE''"
| "class_name SHARED = ''SHARED''"
| "class_name JAM = ''JAM''"
| "class_name CLASS_ROOM = ''ROOM''"

definition opt_val :: "('a \<Rightarrow> pyval) \<Rightarrow> 'a option \<Rightarrow> pyval" where
  "opt_val f x = (case x of None \<Rightarrow> VNone | Some y \<Rightarrow> f y)"

definition step_view :: "script_step \<Rightarrow> pyval option" where
  "step_view s =
     (let offset = (''offset'', VFloat (st_offset s))
      in case st_cue s of
           PlayCue d name params \<Rightarrow>
             Some (VDict [offset, (''kind'', VStr ''play''), (''dev'', VStr d), (''name'', VStr name), (''params'', VStr params)])
         | SolidCue d rgb level duration when \<Rightarrow>
             Some (VDict [offset, (''kind'', VStr ''solid''), (''dev'', VStr d), (''rgb'', VList (map VInt rgb)),
                    (''level'', VFloat level), (''duration'', opt_val VFloat duration)])
         | MuteCue d \<Rightarrow> Some (VDict [offset, (''kind'', VStr ''mute''), (''dev'', VStr d)])
         | Midi d status data1 data2 \<Rightarrow>
             Some (VDict [offset, (''kind'', VStr ''light''), (''dev'', VStr d), (''status'', VInt status),
                    (''data1'', VInt data1), (''data2'', VInt data2)])
         | _ \<Rightarrow> None)"

fun step_views :: "script_step list \<Rightarrow> pyval list option" where
  "step_views [] = Some []"
| "step_views (s # ss) =
     (case step_view s of None \<Rightarrow> None | Some v \<Rightarrow> map_option (\<lambda>vs. v # vs) (step_views ss))"

definition condition_view :: "condition_decl \<Rightarrow> pyval" where
  "condition_view c =
     VDict [(''name'', VStr (c_name c)), (''description'', VStr (c_description c)),
            (''source'', VStr (source_wire (c_source c))), (''verb'', opt_val VStr (c_verb c))]"

definition scripted_view :: "func \<Rightarrow> pyval option" where
  "scripted_view fn =
     map_option (\<lambda>script. VDict
       [(''kind'', VStr ''scripted''), (''name'', VStr (f_name fn)), (''description'', VStr (f_description fn)),
        (''target'', opt_val (VStr \<circ> target_name) (f_target fn)),
        (''condition'', opt_val condition_view (f_condition fn)), (''script'', VList script)])
     (step_views (f_script fn))"

definition generator_view :: "func \<Rightarrow> pyval option" where
  "generator_view fn =
     map_option (\<lambda>g. VDict
       [(''kind'', VStr ''generator''), (''name'', VStr (f_name fn)), (''description'', VStr (f_description fn)),
        (''lane'', VDict [(''dev'', VStr (g_dev g)), (''status'', VInt (g_status g)), (''data1'', VInt (g_data1 g))]),
        (''waveform'', VStr (g_waveform g)), (''period'', VFloat (g_period g)), (''lo'', VInt (g_lo g)),
        (''hi'', VInt (g_hi g))])
     (f_generator fn)"

definition stream_output_view :: "stream_output \<Rightarrow> pyval" where
  "stream_output_view out =
     VDict [(''dev'', VStr (so_dev out)), (''status'', VInt (so_status out)), (''data1'', VInt (so_data1 out)),
            (''out_lo'', VFloat (so_lo out)), (''out_hi'', VFloat (so_hi out)), (''mode'', VStr (so_mode out))]"

definition stream_view :: "func \<Rightarrow> pyval option" where
  "stream_view fn =
     map_option (\<lambda>sp. VDict
       [(''kind'', VStr ''stream''), (''name'', VStr (f_name fn)), (''description'', VStr (f_description fn)),
        (''verb'', VStr (sp_verb sp)), (''arg'', VInt (int (sp_arg sp))), (''in_lo'', VFloat (sp_in_lo sp)),
        (''in_hi'', VFloat (sp_in_hi sp)), (''outputs'', VList (map stream_output_view (sp_outputs sp)))])
     (f_stream fn)"

definition function_view :: "func \<Rightarrow> pyval option" where
  "function_view fn =
     (case f_kind fn of GENERATOR \<Rightarrow> generator_view fn | STREAM \<Rightarrow> stream_view fn | SCRIPTED \<Rightarrow> scripted_view fn)"

fun function_views :: "func list \<Rightarrow> pyval list option" where
  "function_views [] = Some []"
| "function_views (fn # fns) =
     (case function_view fn of None \<Rightarrow> None | Some v \<Rightarrow> map_option (\<lambda>vs. v # vs) (function_views fns))"

subsection \<open>The role blob\<close>

definition carried_instrument_view :: "instrument \<Rightarrow> pyval option" where
  "carried_instrument_view c =
     map_option (\<lambda>fns. VDict
       ([(''name'', VStr (i_name c)),
         (''capabilities'', VList (map VStr (sorted_list_of_set (i_capabilities c)))),
         (''pixels'', VInt (i_pixels c)),
         (''ambient'', VDict [(''light'', i_light_manifest c), (''ugen'', i_ugen_manifest c)]),
         (''functions'', VList fns)]
        @ (case i_model_sha256 c of None \<Rightarrow> [] | Some sha \<Rightarrow> [(''model_sha256'', VStr sha)])))
     (function_views (i_functions c))"

text \<open>The light half of a welcome. A welcome that is no dictionary is refused at Bit load.\<close>

definition welcome_light :: "pyval option \<Rightarrow> pyval option" where
  "welcome_light w = (case w of Some (VDict d) \<Rightarrow> dget d ''light'' | _ \<Rightarrow> None)"

definition composed_light :: "string \<Rightarrow> string \<Rightarrow> role \<Rightarrow> (string, pyval) dict \<Rightarrow> (string, pyval) dict" where
  "composed_light bit_name bit_version r light =
     (let l = dset ''role'' (VStr (r_name r)) (dset ''bit_version'' (VStr bit_version)
                (dset ''bit_name'' (VStr bit_name) light))
      in case welcome_light (r_welcome r) of None \<Rightarrow> l | Some w \<Rightarrow> dset ''welcome'' w l)"

definition stamp :: "string \<Rightarrow> ('a \<Rightarrow> pyval) \<Rightarrow> 'a option \<Rightarrow> (string \<times> pyval) list" where
  "stamp key f x = (case x of None \<Rightarrow> [] | Some y \<Rightarrow> [(key, f y)])"

definition triggers_view :: "event_trigger list \<Rightarrow> pyval" where
  "triggers_view ts = VDict (foldl (\<lambda>d t. dset (et_name t) (VDict (et_thresholds t)) d) [] ts)"

definition compose_role_config ::
  "string \<Rightarrow> string \<Rightarrow> role \<Rightarrow> string option \<Rightarrow> string option \<Rightarrow> string option \<Rightarrow>
   event_trigger list \<Rightarrow> instrument option \<Rightarrow> (string, pyval) dict option" where
  "compose_role_config bit_name bit_version r room_name config_version slot triggers carried =
     (case as_dict (r_light_manifest r) of
        None \<Rightarrow> None
      | Some light \<Rightarrow>
          (let config =
             [(''role'', VStr (r_name r)), (''class'', VStr (class_name (r_class r))),
              (''scored'', VBool (r_scored r)),
              (''light_manifest'', VDict (composed_light bit_name bit_version r light)),
              (''uses'', VList (map VStr (r_uses r))), (''samples'', VList (map VStr (r_samples r)))]
             @ stamp ''room_name'' VStr room_name
             @ stamp ''terrarium_config_version'' VStr config_version
             @ stamp ''slot'' VStr slot
             @ (if triggers = [] then [] else [(''triggers'', triggers_view triggers)])
           in case carried of
                None \<Rightarrow> Some config
              | Some c \<Rightarrow> map_option (\<lambda>v. config @ [(''instrument'', v)]) (carried_instrument_view c)))"

subsection \<open>What the slices and the blob keep\<close>

text \<open>Whether a declaration is presented on a fixture, and under which zone name.\<close>

definition presented_on :: "room_profile \<Rightarrow> string \<Rightarrow> pyval \<Rightarrow> bool" where
  "presented_on p name v \<longleftrightarrow>
     (case decl_target v p of Some (None, _) \<Rightarrow> True | Some (Some n, _) \<Rightarrow> n = name | None \<Rightarrow> False)"

definition local_zone :: "room_profile \<Rightarrow> pyval \<Rightarrow> string" where
  "local_zone p v = (case decl_target v p of Some (_, z) \<Rightarrow> z | None \<Rightarrow> [])"

lemma targets_loop_resolves:
  "targets_loop p decls = Some names \<Longrightarrow> v \<in> set decls \<Longrightarrow> decl_target v p \<noteq> None"
  by (induction p decls arbitrary: names rule: targets_loop.induct) (auto split: option.splits)

lemma slice_loop_filter:
  "\<forall>v \<in> set decls. decl_target v p \<noteq> None \<Longrightarrow>
   slice_loop p name decls =
     Some (map (\<lambda>v. retarget v (local_zone p v)) (filter (presented_on p name) decls))"
  by (induction p name decls rule: slice_loop.induct)
    (auto simp: presented_on_def local_zone_def split: option.splits)

lemma find_fixture_Some: "find_fixture p name = Some f \<Longrightarrow> f \<in> set (p_fixtures p) \<and> x_name f = name"
  by (auto simp: find_fixture_def find_Some_iff)

lemma decl_target_fixture:
  "decl_target v p = Some (Some name, z) \<Longrightarrow> name \<in> x_name ` set (p_fixtures p)"
  by (auto simp: decl_target_def split_target_def Let_def dest: find_fixture_Some
      split: option.splits pyval.splits if_splits prod.splits)

lemma dget_filter_append:
  "dget (filter (\<lambda>(k, _). k \<noteq> key) d @ [(key, v)]) k = (if k = key then Some v else dget d k)"
  by (induction d) (auto simp: map_add_def split: option.splits)

text \<open>
  No light is lost between fixtures. When every target of a ROOM role's light manifest resolves (the
  load-time check), slicing it for any fixture succeeds and keeps exactly the declarations for the whole
  Room and for that fixture, in order, each retargeted to the fixture's own zone; everything but the
  instruments is carried over; and a declaration that names a fixture is kept by that fixture's slice
  alone.
\<close>
theorem room_manifest_slices:
  assumes t: "manifest_fixture_targets manifest p = Some names" and d: "manifest_decls manifest = Some decls"
  shows "(\<exists>out. slice_light_manifest manifest p name = Some out
      \<and> dget out ''instruments'' =
          Some (VList (map (\<lambda>v. retarget v (local_zone p v)) (filter (presented_on p name) decls)))
      \<and> (\<forall>k. k = ''instruments'' \<or> dget out k = dget manifest k))
    \<and> (\<forall>v \<in> set decls. (\<forall>f \<in> set (p_fixtures p). presented_on p (x_name f) v)
         \<or> (\<exists>n \<in> x_name ` set (p_fixtures p). \<forall>n'. presented_on p n' v \<longleftrightarrow> n' = n))"
proof -
  have res: "\<forall>v \<in> set decls. decl_target v p \<noteq> None"
    using t d targets_loop_resolves by (auto simp: manifest_fixture_targets_def)
  have "(\<forall>f \<in> set (p_fixtures p). presented_on p (x_name f) v)
         \<or> (\<exists>n \<in> x_name ` set (p_fixtures p). \<forall>n'. presented_on p n' v \<longleftrightarrow> n' = n)"
    if v: "v \<in> set decls" for v
  proof -
    from res v obtain fx z where fz: "decl_target v p = Some (fx, z)" by auto
    show ?thesis
    proof (cases fx)
      case None
      with fz show ?thesis by (simp add: presented_on_def)
    next
      case (Some n)
      with fz have "\<forall>n'. presented_on p n' v \<longleftrightarrow> n' = n" by (auto simp: presented_on_def)
      with decl_target_fixture fz Some show ?thesis by blast
    qed
  qed
  then show ?thesis
    using slice_loop_filter [OF res, of name]
    by (simp add: slice_light_manifest_def d dget_filter_append del: map_of_append)
qed

lemma room_manifest_slices_witness:
  "\<exists>out. slice_light_manifest
       [(''instruments'', VList [VDict [(''instrument'', VStr ''aurora''), (''target'', VStr ''strip.left'')]])]
       \<lparr>p_surface_id = ''s'', p_fixtures = [\<lparr>x_name = ''strip'', x_blocks = [],
          x_zones = [\<lparr>z_name = ''left'', z_start = 0, z_count = 9\<rparr>], x_instrument = DEFAULTSHROOM\<rparr>]\<rparr> ''strip'' = Some out
     \<and> dget out ''instruments'' =
         Some (VList [VDict [(''instrument'', VStr ''aurora''), (''target'', VStr ''left'')]])"
  (is "\<exists>out. slice_light_manifest ?m ?p _ = _ \<and> _")
proof -
  have t: "manifest_fixture_targets ?m ?p = Some [''strip'']"
    and d: "manifest_decls ?m = Some [VDict [(''instrument'', VStr ''aurora''), (''target'', VStr ''strip.left'')]]"
    and z: "map (\<lambda>v. retarget v (local_zone ?p v)) (filter (presented_on ?p ''strip'')
        [VDict [(''instrument'', VStr ''aurora''), (''target'', VStr ''strip.left'')]])
      = [VDict [(''instrument'', VStr ''aurora''), (''target'', VStr ''left'')]]"
    by code_simp+
  from room_manifest_slices [OF t d, of "''strip''"] show ?thesis unfolding z by blast
qed

lemma dget_stamp [simp]: "dget (stamp key f x) k = (if k = key then map_option f x else None)"
  by (cases x) (simp_all add: stamp_def)

text \<open>
  The role blob says what the engine granted. Its light manifest is the authored one with the Bit's
  name, version and role (and a declared light welcome) stamped over it, each optional stamp is present
  exactly when it was given (never as a null), and the blob exists whenever the authored manifest is a
  dictionary and the carried functions can be drawn.
\<close>
theorem role_blob_stamps:
  assumes "compose_role_config bit_name bit_version r room_name version slot triggers carried = Some config"
  shows "dget config ''role'' = Some (VStr (r_name r))
    \<and> dget config ''scored'' = Some (VBool (r_scored r))
    \<and> dget config ''room_name'' = map_option VStr room_name
    \<and> dget config ''terrarium_config_version'' = map_option VStr version
    \<and> dget config ''slot'' = map_option VStr slot
    \<and> (dget config ''triggers'' = None \<longleftrightarrow> triggers = [])
    \<and> (dget config ''instrument'' = None \<longleftrightarrow> carried = None)
    \<and> (\<exists>light authored. r_light_manifest r = VDict authored \<and> dget config ''light_manifest'' = Some (VDict light)
        \<and> dget light ''role'' = Some (VStr (r_name r)) \<and> dget light ''bit_name'' = Some (VStr bit_name)
        \<and> (\<forall>k. k \<in> set COMPOSED_KEYS \<or> dget light k = dget authored k))"
proof -
  from assms obtain authored where a: "r_light_manifest r = VDict authored"
    by (cases "r_light_manifest r") (auto simp: compose_role_config_def)
  let ?l = "composed_light bit_name bit_version r authored"
  have light: "dget ?l ''role'' = Some (VStr (r_name r))" "dget ?l ''bit_name'' = Some (VStr bit_name)"
    "\<forall>k. k \<in> set COMPOSED_KEYS \<or> dget ?l k = dget authored k"
    by (auto simp: composed_light_def Let_def COMPOSED_KEYS_def split: option.splits)
  show ?thesis
    using assms a light
    by (cases carried; cases "triggers = []")
       (auto simp: compose_role_config_def Let_def map_add_def split: option.splits)
qed

lemma role_blob_stamps_witness:
  "\<exists>config. compose_role_config ''metronome'' ''1.2'' bar_role (Some ''DEMO'') None (Some ''player'')
       [] (Some DEFAULTSHROOM) = Some config
     \<and> dget config ''room_name'' = Some (VStr ''DEMO'') \<and> dget config ''terrarium_config_version'' = None"
proof -
  obtain config where c: "compose_role_config ''metronome'' ''1.2'' bar_role (Some ''DEMO'') None (Some ''player'')
       [] (Some DEFAULTSHROOM) = Some config"
    by (auto simp: compose_role_config_def bar_role_def carried_instrument_view_def DEFAULTSHROOM_def Let_def)
  from role_blob_stamps [OF c] c show ?thesis by auto
qed

end
