(* ===== verification/Generators.thy ===== *)
theory Generators
  imports Function_Facts
begin

section \<open>Generators: waveforms the engine runs\<close>

text \<open>
  \<open>src/control/generator_runner.py\<close>. A declared lane is keyed by its declared device; \<open>resolve\<close> maps
  that device to the concrete ones it reaches now (it raises, \<open>None\<close>, when a fixture cannot be named). A suppression is kept per concrete lane as the end of
  its window. \<open>value\<close> raises on a period no validated declaration has (0, an infinity against the run's
  clock, a NaN), which is \<open>None\<close>; elapsed time is a finite float.
\<close>

record runner =
  gr_generators :: "(lane, generator_spec) dict"
  gr_suppressed :: "(lane, pyfloat) dict"

definition new_runner :: "generator_spec list \<Rightarrow> runner" where
  "new_runner specs =
     \<lparr>gr_generators = foldl (\<lambda>d g. dset (generator_lane g) g d) [] specs, gr_suppressed = []\<rparr>"

text \<open>\<open>(elapsed % period) / period\<close>, with Python's results for an infinite or NaN period.\<close>

definition gen_phase :: "pyfloat \<Rightarrow> rat \<Rightarrow> pyfloat option" where
  "gen_phase period elapsed =
     (case period of
        Fin p \<Rightarrow> if p = 0 then None else Some (Fin (py_mod elapsed p / p))
      | PInf \<Rightarrow> Some (if 0 \<le> elapsed then Fin 0 else NaN)
      | NInf \<Rightarrow> Some (if elapsed \<le> 0 then Fin 0 else NaN)
      | NaN \<Rightarrow> Some NaN)"

definition gen_value :: "generator_spec \<Rightarrow> rat \<Rightarrow> int option" where
  "gen_value g elapsed =
     (case gen_phase (g_period g) elapsed of
        None \<Rightarrow> None
      | Some phase \<Rightarrow>
          (let frac = (if flt phase (Fin (1 / 2)) then fmul (Fin 2) phase
                       else fmul (Fin 2) (fsub (Fin 1) phase))
           in round_float (fadd (Fin (of_int (g_lo g))) (fmul frac (Fin (of_int (g_hi g - g_lo g)))))))"

definition suppress :: "lane list \<Rightarrow> pyfloat \<Rightarrow> runner \<Rightarrow> runner" where
  "suppress lanes until_at r =
     r\<lparr>gr_suppressed := foldl (\<lambda>d l. dset l until_at d) (gr_suppressed r) lanes\<rparr>"

definition is_suppressed :: "runner \<Rightarrow> lane \<Rightarrow> pyfloat \<Rightarrow> bool" where
  "is_suppressed r l at_time \<longleftrightarrow>
     (case dget (gr_suppressed r) l of None \<Rightarrow> False | Some until \<Rightarrow> flt at_time until)"

text \<open>One declared lane: the value is computed only when some resolved device takes it.\<close>

definition lane_cues ::
  "(dev \<Rightarrow> dev list option) \<Rightarrow> runner \<Rightarrow> rat \<Rightarrow> pyfloat \<Rightarrow> lane \<times> generator_spec \<Rightarrow> cue list option" where
  "lane_cues resolve r elapsed at_time entry =
     (case entry of ((d, status, data1), g) \<Rightarrow>
        (case resolve d of
           None \<Rightarrow> None
         | Some devs \<Rightarrow>
             (let live = filter (\<lambda>d'. \<not> is_suppressed r (d', status, data1) at_time) devs
              in if live = [] then Some []
                 else map_option (\<lambda>v. map (\<lambda>d'. Midi d' status data1 v) live) (gen_value g elapsed))))"

fun cues_loop ::
  "(dev \<Rightarrow> dev list option) \<Rightarrow> runner \<Rightarrow> rat \<Rightarrow> pyfloat \<Rightarrow> (lane \<times> generator_spec) list \<Rightarrow> cue list option" where
  "cues_loop resolve r elapsed at_time [] = Some []"
| "cues_loop resolve r elapsed at_time (e # es) =
     (case lane_cues resolve r elapsed at_time e of
        None \<Rightarrow> None
      | Some cs \<Rightarrow> map_option (\<lambda>ds. cs @ ds) (cues_loop resolve r elapsed at_time es))"

definition runner_cues :: "(dev \<Rightarrow> dev list option) \<Rightarrow> runner \<Rightarrow> rat \<Rightarrow> pyfloat \<Rightarrow> cue list option" where
  "runner_cues resolve r elapsed at_time = cues_loop resolve r elapsed at_time (gr_generators r)"

subsection \<open>The waveform\<close>

definition good_generator :: "generator_spec \<Rightarrow> bool" where
  "good_generator g \<longleftrightarrow>
     (\<exists>p. g_period g = Fin p \<and> 0 < p) \<and> g_lo g \<le> g_hi g \<and> 0 \<le> g_lo g \<and> g_hi g \<le> 255"

lemma accepted_generator_good:
  "validate_generator fn ow = None \<Longrightarrow> \<exists>g. f_generator fn = Some g \<and> good_generator g"
  by (auto simp: validate_generator_def good_generator_def bad_byte_def isfinite_iff split: option.splits)

lemma gen_value_Fin:
  assumes "g_period g = Fin p" and "0 < p"
  shows "gen_value g elapsed =
    Some (py_round (of_int (g_lo g) +
      (let ph = py_mod elapsed p / p in if ph < 1 / 2 then 2 * ph else 2 * (1 - ph)) * of_int (g_hi g - g_lo g)))"
  using assms by (simp add: gen_value_def gen_phase_def Let_def fsub_def)

text \<open>
  A generator never leaves its range. For an accepted generator the waveform has a value at every
  elapsed time, between its \<open>lo\<close> and \<open>hi\<close> (so a MIDI byte); it starts each period at \<open>lo\<close> and reaches
  \<open>hi\<close> exactly half a period in.
\<close>
theorem generator_value_in_range:
  assumes "validate_generator fn ow = None" and "f_generator fn = Some g" and "g_period g = Fin p"
  shows "(\<exists>v. gen_value g elapsed = Some v \<and> g_lo g \<le> v \<and> v \<le> g_hi g \<and> 0 \<le> v \<and> v \<le> 255)
    \<and> gen_value g (of_int k * p) = Some (g_lo g)
    \<and> gen_value g (of_int k * p + p / 2) = Some (g_hi g)"
proof -
  have good: "0 < p" "g_lo g \<le> g_hi g" "0 \<le> g_lo g" "g_hi g \<le> 255"
    using accepted_generator_good [OF assms(1)] assms(2,3) by (auto simp: good_generator_def)
  define frac where "frac = (let ph = py_mod elapsed p / p in if ph < 1 / 2 then 2 * ph else 2 * (1 - ph))"
  have "0 \<le> py_mod elapsed p / p" "py_mod elapsed p / p < 1"
    using py_mod_bounds [OF good(1), of elapsed] good(1) by simp_all
  moreover have "0 \<le> x \<Longrightarrow> x < 1 \<Longrightarrow> 0 \<le> (if x < 1 / 2 then 2 * x else 2 * (1 - x))
      \<and> (if x < 1 / 2 then 2 * x else 2 * (1 - x)) \<le> 1" for x :: rat
    by auto
  ultimately have fr: "0 \<le> frac" "frac \<le> 1" unfolding frac_def Let_def by blast+
  define w :: rat where "w = of_int (g_hi g - g_lo g)"
  have "0 \<le> w" using good(2) by (simp add: w_def)
  with fr have w: "0 \<le> frac * w" "frac * w \<le> w" by (simp_all add: mult_left_le_one_le)
  have lo: "g_lo g \<le> py_round (of_int (g_lo g) + frac * w)" by (rule py_round_ge) (use w in simp)
  have hi: "py_round (of_int (g_lo g) + frac * w) \<le> g_hi g" by (rule py_round_le) (use w in \<open>simp add: w_def\<close>)
  have first: "\<exists>v. gen_value g elapsed = Some v \<and> g_lo g \<le> v \<and> v \<le> g_hi g \<and> 0 \<le> v \<and> v \<le> 255"
  proof -
    have "gen_value g elapsed = Some (py_round (of_int (g_lo g) + frac * w))"
      unfolding frac_def w_def by (rule gen_value_Fin [OF assms(3) good(1)])
    with lo hi good(3,4) show ?thesis by auto
  qed
  have m0: "py_mod (of_int k * p) p = 0" using good(1) by (simp add: py_mod_def)
  have "(of_int k * p + p / 2) / p = of_int k + 1 / 2" using good(1) by (simp add: field_simps)
  then have "\<lfloor>(of_int k * p + p / 2) / p\<rfloor> = k" by linarith
  then have m1: "py_mod (of_int k * p + p / 2) p = p / 2" by (simp add: py_mod_def)
  have "gen_value g (of_int k * p) = Some (g_lo g)"
    using gen_value_Fin [OF assms(3) good(1), of "of_int k * p"] by (simp add: m0)
  moreover have "gen_value g (of_int k * p + p / 2) = Some (g_hi g)"
    using gen_value_Fin [OF assms(3) good(1), of "of_int k * p + p / 2"] good(1)
    by (simp add: m1)
  ultimately show ?thesis using first by blast
qed

definition breath_generator :: func where
  "breath_generator =
     \<lparr>f_name = ''breath'', f_description = ''d'', f_target = None, f_condition = None, f_script = [],
      f_kind = GENERATOR,
      f_generator = Some \<lparr>g_dev = ROOM, g_status = 176, g_data1 = 11, g_waveform = ''triangle'',
        g_period = Fin 6, g_lo = 20, g_hi = 100\<rparr>, f_stream = None\<rparr>"

lemma generator_value_in_range_witness:
  "\<exists>g. f_generator breath_generator = Some g \<and> gen_value g 15 = Some 100"
proof -
  have v: "validate_generator breath_generator OBit = None" by code_simp
  obtain g where g: "f_generator breath_generator = Some g" "g_period g = Fin 6" "g_hi g = 100"
    by (simp add: breath_generator_def)
  from generator_value_in_range [OF v g(1,2), of 0 2] g show ?thesis by auto
qed

subsection \<open>What a tick emits\<close>

lemma lane_cues_good:
  assumes "good_generator g" and "resolve d = Some devs"
  shows "lane_cues resolve r elapsed at_time ((d, status, data1), g) =
    Some (map (\<lambda>d'. Midi d' status data1 (the (gen_value g elapsed)))
      (filter (\<lambda>d'. \<not> is_suppressed r (d', status, data1) at_time) devs))"
proof -
  from assms(1) obtain p where "g_period g = Fin p" "0 < p" by (auto simp: good_generator_def)
  from gen_value_Fin [OF this] show ?thesis by (simp add: lane_cues_def Let_def assms(2))
qed

lemma cues_loop_good:
  assumes "\<forall>(l, g) \<in> set es. good_generator g \<and> resolve (fst l) \<noteq> None"
  shows "cues_loop resolve r elapsed at_time es =
    Some (concat (map (\<lambda>((d, status, data1), g).
      map (\<lambda>d'. Midi d' status data1 (the (gen_value g elapsed)))
        (filter (\<lambda>d'. \<not> is_suppressed r (d', status, data1) at_time) (the (resolve d)))) es))"
  using assms by (induction es) (auto simp: lane_cues_good split: prod.splits)

lemma dget_suppress:
  "dget (foldl (\<lambda>d l. dset l u d) d0 lanes) l = (if l \<in> set lanes then Some u else dget d0 l)"
  by (induction lanes arbitrary: d0) auto

text \<open>
  A scripted fire overlays the waveform instead of killing it. With accepted generators a tick always
  produces its cues: each declared lane sends its current value to exactly the devices it reaches whose
  lane is not suppressed; a suppressed lane is silent while the presentation time is before the end of
  its window and resumes afterwards on the value it would have had anyway.
\<close>
theorem suppression_only_gates:
  assumes "\<forall>(l, g) \<in> set (gr_generators r). good_generator g \<and> resolve (fst l) \<noteq> None"
  shows "(\<exists>cs. runner_cues resolve r elapsed at_time = Some cs
      \<and> (\<forall>d' status data1 v. Midi d' status data1 v \<in> set cs \<longleftrightarrow>
           (\<exists>d g. ((d, status, data1), g) \<in> set (gr_generators r) \<and> d' \<in> set (the (resolve d))
              \<and> \<not> is_suppressed r (d', status, data1) at_time \<and> gen_value g elapsed = Some v)))
    \<and> is_suppressed (suppress lanes (Fin u) r) l (Fin t)
      = (if l \<in> set lanes then t < u else is_suppressed r l (Fin t))"
proof -
  have val: "gen_value g elapsed = Some (the (gen_value g elapsed))" if "(l, g) \<in> set (gr_generators r)" for l g
  proof -
    from assms that obtain p where "g_period g = Fin p" "0 < p" by (auto simp: good_generator_def)
    from gen_value_Fin [OF this] show ?thesis by simp
  qed
  let ?cs = "concat (map (\<lambda>((d, status, data1), g).
      map (\<lambda>d'. Midi d' status data1 (the (gen_value g elapsed)))
        (filter (\<lambda>d'. \<not> is_suppressed r (d', status, data1) at_time) (the (resolve d)))) (gr_generators r))"
  have "Midi d' status data1 v \<in> set ?cs \<longleftrightarrow>
      (\<exists>d g. ((d, status, data1), g) \<in> set (gr_generators r) \<and> d' \<in> set (the (resolve d))
         \<and> \<not> is_suppressed r (d', status, data1) at_time \<and> v = the (gen_value g elapsed))"
    for d' status data1 v by (fastforce split: prod.splits)
  moreover have "(\<exists>d g. ((d, status, data1), g) \<in> set (gr_generators r) \<and> d' \<in> set (the (resolve d))
         \<and> \<not> is_suppressed r (d', status, data1) at_time \<and> v = the (gen_value g elapsed))
     \<longleftrightarrow> (\<exists>d g. ((d, status, data1), g) \<in> set (gr_generators r) \<and> d' \<in> set (the (resolve d))
         \<and> \<not> is_suppressed r (d', status, data1) at_time \<and> gen_value g elapsed = Some v)"
    for d' status data1 v
    using val by (metis option.sel)
  moreover have "runner_cues resolve r elapsed at_time = Some ?cs"
    unfolding runner_cues_def by (rule cues_loop_good [OF assms])
  moreover have "is_suppressed (suppress lanes (Fin u) r) l (Fin t)
      = (if l \<in> set lanes then t < u else is_suppressed r l (Fin t))"
    by (simp add: is_suppressed_def suppress_def dget_suppress)
  ultimately show ?thesis by (simp only:) blast
qed

lemma suppression_only_gates_witness:
  "\<exists>cs. runner_cues (\<lambda>d. Some [''strip'', ''arch''])
       (suppress [(''strip'', 176, 11)] (Fin 8) (new_runner [the (f_generator breath_generator)])) 15 (Fin 5) = Some cs
     \<and> (\<forall>d v. Midi d 176 11 v \<in> set cs \<longleftrightarrow> d = ''arch'' \<and> v = 100)"
proof -
  let ?r = "suppress [(''strip'', 176, 11)] (Fin 8) (new_runner [the (f_generator breath_generator)])"
  have "gr_generators ?r = [((ROOM, 176, 11), the (f_generator breath_generator))]"
    by (simp add: suppress_def new_runner_def breath_generator_def generator_lane_def)
  moreover from this have good: "\<forall>(l, g) \<in> set (gr_generators ?r). good_generator g \<and> (\<lambda>d. Some [''strip'', ''arch'']) (fst l) \<noteq> None"
    by (simp add: breath_generator_def good_generator_def)
  moreover have "gen_value (the (f_generator breath_generator)) 15 = Some 100" by code_simp
  moreover have "is_suppressed ?r (''strip'', 176, 11) (Fin 5)" "\<not> is_suppressed ?r (''arch'', 176, 11) (Fin 5)"
    by (simp_all add: is_suppressed_def suppress_def new_runner_def)
  moreover note gates = conjunct1 [OF suppression_only_gates [where resolve = "\<lambda>d. Some [''strip'', ''arch'']"
      and elapsed = 15 and at_time = "Fin 5", OF good]]
  ultimately show ?thesis by (elim exE conjE) (rule exI, auto)
qed

end
