(* ===== verification/Lobby.thy ===== *)
theory Lobby
  imports Registration
begin

section \<open>The lobby and the start rules\<close>

text \<open>
  \<open>src/control/lobby.py\<close> (the schedulers of SETUP: invites, join ceremonies, the note scale, the hue
  drift) and \<open>src/control/start_condition.py\<close> (who may start the run, and when the harness's timer does).
  Times are clock readings, exact rationals; \<open>pulse_level\<close> (a cosine) and the manifest literal are left out.
\<close>

subsection \<open>Notes and drift\<close>

definition NOTE_SCALE :: "int list" where
  "NOTE_SCALE = [69, 71, 73, 74, 76, 78, 80]"

definition HUE_DRIFT_PERIOD_S :: rat where "HUE_DRIFT_PERIOD_S = 20"
definition DEVICE_FLASH_ON_S :: rat where "DEVICE_FLASH_ON_S = 2 / 10"
definition DEVICE_FLASH_GAP_S :: rat where "DEVICE_FLASH_GAP_S = 2 / 10"
definition CHIME_OFFSET_S :: rat where "CHIME_OFFSET_S = 18 / 10"
definition CEREMONY_SPAN_S :: rat where "CEREMONY_SPAN_S = CHIME_OFFSET_S"
definition BELL_OFFSET_S :: rat where "BELL_OFFSET_S = 8 / 10"
definition BELL_DURATION_S :: rat where "BELL_DURATION_S = 1"

definition scale_note :: "int \<Rightarrow> int" where
  "scale_note join_index = NOTE_SCALE ! nat (join_index mod int (length NOTE_SCALE))"

definition hue_drift_cc :: "rat \<Rightarrow> rat \<Rightarrow> int" where
  "hue_drift_cc t period =
     (let phase = py_mod t period / period;
          tri = (if phase < 1 / 2 then 2 * phase else 2 * (1 - phase))
      in py_round (tri * 127))"

subsection \<open>Invites\<close>

record invites =
  iv_interval :: rat
  iv_last :: "(dev, rat) dict"

definition new_invites :: "rat \<Rightarrow> invites" where
  "new_invites interval = \<lparr>iv_interval = interval, iv_last = []\<rparr>"

definition invite_due :: "dev \<Rightarrow> rat \<Rightarrow> invites \<Rightarrow> bool \<times> invites" where
  "invite_due d now iv =
     (if (case dget (iv_last iv) d of None \<Rightarrow> True | Some prev \<Rightarrow> iv_interval iv \<le> now - prev)
      then (True, iv\<lparr>iv_last := dset d now (iv_last iv)\<rparr>)
      else (False, iv))"

definition invited :: "dev \<Rightarrow> invites \<Rightarrow> bool" where
  "invited d iv \<longleftrightarrow> dmem d (iv_last iv)"

definition invite_forget :: "dev \<Rightarrow> invites \<Rightarrow> invites" where
  "invite_forget d iv = iv\<lparr>iv_last := dpop d (iv_last iv)\<rparr>"

definition invite_clear :: "invites \<Rightarrow> invites" where
  "invite_clear iv = iv\<lparr>iv_last := []\<rparr>"

subsection \<open>Ceremonies\<close>

record slots =
  cs_span :: rat
  cs_gap :: rat
  cs_next_free :: rat

definition new_slots :: "rat \<Rightarrow> rat \<Rightarrow> slots" where
  "new_slots width gap = \<lparr>cs_span = width, cs_gap = gap, cs_next_free = 0\<rparr>"

definition reserve :: "rat \<Rightarrow> slots \<Rightarrow> rat \<times> slots" where
  "reserve now cs =
     (let t = max now (cs_next_free cs) in (t, cs\<lparr>cs_next_free := t + cs_span cs + cs_gap cs\<rparr>))"

text \<open>The start times a sequence of requests is given.\<close>

fun reserve_all :: "slots \<Rightarrow> rat list \<Rightarrow> rat list" where
  "reserve_all cs [] = []"
| "reserve_all cs (now # rest) = (let (t, cs') = reserve now cs in t # reserve_all cs' rest)"

text \<open>The instants at which a device polled at the given times is flashed.\<close>

fun flashes :: "dev \<Rightarrow> invites \<Rightarrow> rat list \<Rightarrow> rat list" where
  "flashes d iv [] = []"
| "flashes d iv (now # rest) =
     (let (due, iv') = invite_due d now iv in (if due then [now] else []) @ flashes d iv' rest)"

text \<open>\<open>LobbyState\<close>: room for more players, or not.\<close>

datatype lobby_phase = WAITING | FULL

subsection \<open>Start rules\<close>

datatype feedback = FEEDBACK_NONE | FEEDBACK_ACCEPT | FEEDBACK_MINIMUM | FEEDBACK_REFUSED
datatype start_when = Immediate | Players | Operator | Admin
datatype timer_action = TimerStart | TimerAbort

record start_condition =
  sc_when :: start_when
  sc_min_scored :: int
  sc_timeout :: "rat option"
  sc_on_timeout :: timer_action
  sc_key :: "string option"

text \<open>\<open>scored_count\<close>: the registration's counters of the roles the Bit's table calls scored.\<close>

definition scored_count :: "registration option \<Rightarrow> role_table \<Rightarrow> int" where
  "scored_count reg table =
     (case reg of
        None \<Rightarrow> 0
      | Some g \<Rightarrow>
          sum_list (map (\<lambda>(name, n, _). case dget (rt_roles table) name of
              None \<Rightarrow> 0 | Some r \<Rightarrow> if r_scored r then n else 0) (counts g)))"

definition timer_decision :: "start_condition \<Rightarrow> int \<Rightarrow> rat \<Rightarrow> rat \<Rightarrow> timer_action option" where
  "timer_decision cond scored elapsed setup_seconds =
     (let timed_out = (case sc_timeout cond of None \<Rightarrow> False | Some t \<Rightarrow> t \<le> elapsed)
      in case sc_when cond of
           Immediate \<Rightarrow> if setup_seconds \<le> elapsed then Some TimerStart else None
         | Operator \<Rightarrow> None
         | Players \<Rightarrow>
             if sc_min_scored cond \<le> scored then Some TimerStart
             else if timed_out then Some (sc_on_timeout cond) else None
         | Admin \<Rightarrow> if timed_out then Some (sc_on_timeout cond) else None)"

datatype start_reason = NoBitLoaded | NotAnAdminStart | BadKey | NotInSetup | MinimumNotMet

record start_decision =
  sd_accepted :: bool
  sd_reason :: "start_reason option"
  sd_feedback :: feedback

definition refused :: "start_reason \<Rightarrow> feedback \<Rightarrow> start_decision" where
  "refused why fb = \<lparr>sd_accepted = False, sd_reason = Some why, sd_feedback = fb\<rparr>"

definition accepted :: start_decision where
  "accepted = \<lparr>sd_accepted = True, sd_reason = None, sd_feedback = FEEDBACK_ACCEPT\<rparr>"

definition judge_start :: "bool \<Rightarrow> bool \<Rightarrow> bool \<Rightarrow> int \<Rightarrow> int \<Rightarrow> start_decision" where
  "judge_start keyed in_setup admin scored min_scored =
     (if \<not> in_setup then refused NotInSetup (if keyed then FEEDBACK_REFUSED else FEEDBACK_NONE)
      else if admin then accepted
      else if 0 < min_scored \<and> scored < min_scored then refused MinimumNotMet FEEDBACK_MINIMUM
      else accepted)"

definition decide_start ::
  "bool \<Rightarrow> bool \<Rightarrow> start_when option \<Rightarrow> string option \<Rightarrow> string option \<Rightarrow> bool \<Rightarrow> int \<Rightarrow> int \<Rightarrow> start_decision" where
  "decide_start bit_loaded in_setup when expected_key key admin scored min_scored =
     (if \<not> bit_loaded then refused NoBitLoaded FEEDBACK_NONE
      else case key of
             None \<Rightarrow> judge_start False in_setup admin scored min_scored
           | Some k \<Rightarrow>
               if when \<noteq> Some Admin then refused NotAnAdminStart FEEDBACK_NONE
               else if expected_key = None \<or> expected_key = Some [] \<or> expected_key \<noteq> Some k
               then refused BadKey FEEDBACK_NONE
               else judge_start True in_setup admin scored min_scored)"

subsection \<open>What they promise\<close>

text \<open>
  Who may start the run. A start is accepted exactly when a Bit is loaded and in SETUP, the key (where
  one was given) is the Bit's own non-empty admin key, and the requester is an admin or the minimum of
  scored players is met. A caller with a wrong key, or a key for a Bit that takes none, gets no room
  reaction at all.
\<close>
theorem start_accepted_iff:
  "(sd_accepted (decide_start bit_loaded in_setup when expected_key key admin scored min_scored) \<longleftrightarrow>
      bit_loaded \<and> in_setup
      \<and> (key = None \<or> (when = Some Admin \<and> key = expected_key \<and> key \<noteq> Some []))
      \<and> (admin \<or> min_scored \<le> 0 \<or> min_scored \<le> scored))
   \<and> (key = None \<or> (when = Some Admin \<and> key = expected_key \<and> key \<noteq> Some [])
      \<or> sd_feedback (decide_start bit_loaded in_setup when expected_key key admin scored min_scored) = FEEDBACK_NONE)"
  by (auto simp: decide_start_def judge_start_def refused_def accepted_def split: option.splits)

text \<open>
  What the timer does. It starts a run for an \<open>immediate\<close> Bit once its setup time is over and for a
  \<open>players\<close> Bit as soon as enough scored players are in; an \<open>operator\<close> Bit never starts on its own, and
  before the timeout an \<open>admin\<close> Bit does not either, nor a \<open>players\<close> Bit that lacks players.
\<close>
theorem timer_starts_iff:
  "timer_decision cond scored elapsed setup_seconds = Some TimerStart \<longleftrightarrow>
     (sc_when cond = Immediate \<and> setup_seconds \<le> elapsed)
     \<or> (sc_when cond = Players \<and> sc_min_scored cond \<le> scored)
     \<or> ((sc_when cond = Players \<or> sc_when cond = Admin) \<and> sc_on_timeout cond = TimerStart
        \<and> (\<exists>t. sc_timeout cond = Some t \<and> t \<le> elapsed))"
  by (cases "sc_when cond"; cases "sc_timeout cond") (auto simp: timer_decision_def)

lemma reserve_all_spaced:
  "0 \<le> cs_span cs + cs_gap cs \<Longrightarrow>
   list_all2 (\<le>) nows (reserve_all cs nows)
   \<and> (\<forall>t \<in> set (reserve_all cs nows). cs_next_free cs \<le> t)
   \<and> sorted_wrt (\<lambda>a b. a + (cs_span cs + cs_gap cs) \<le> b) (reserve_all cs nows)"
proof (induction nows arbitrary: cs)
  case (Cons now rest)
  define t where "t = max now (cs_next_free cs)"
  define w where "w = cs_span cs + cs_gap cs"
  define cs' where "cs' = cs\<lparr>cs_next_free := t + cs_span cs + cs_gap cs\<rparr>"
  have w: "cs_span cs' + cs_gap cs' = w" "cs_next_free cs' = t + w" "0 \<le> w"
    using Cons.prems by (simp_all add: cs'_def w_def add.assoc)
  have step: "reserve_all cs (now # rest) = t # reserve_all cs' rest"
    by (simp add: reserve_def Let_def t_def cs'_def)
  from Cons.IH [of cs', unfolded w, OF w(3)]
  have IH: "list_all2 (\<le>) rest (reserve_all cs' rest)" "\<forall>u \<in> set (reserve_all cs' rest). t + w \<le> u"
    "sorted_wrt (\<lambda>a b. a + w \<le> b) (reserve_all cs' rest)" by blast+
  have "now \<le> t" "cs_next_free cs \<le> t" by (simp_all add: t_def)
  moreover from this w(3) IH(2) have "\<forall>u \<in> set (reserve_all cs' rest). cs_next_free cs \<le> u" by force
  ultimately show ?case using IH unfolding step w_def [symmetric] by simp
qed simp

text \<open>
  Ceremonies never overlap. Whatever the times at which join ceremonies are requested, none starts
  before it was asked for and any two starts are at least one ceremony and one gap apart.
\<close>
theorem ceremonies_never_overlap:
  assumes "0 \<le> width + gap"
  shows "list_all2 (\<le>) nows (reserve_all (new_slots width gap) nows)
    \<and> sorted_wrt (\<lambda>a b. a + width + gap \<le> b) (reserve_all (new_slots width gap) nows)"
  using reserve_all_spaced [of "new_slots width gap" nows] assms
  by (simp add: new_slots_def add.assoc)

lemma ceremonies_never_overlap_witness:
  "sorted_wrt (\<lambda>a b. a + CEREMONY_SPAN_S + 1 \<le> b) (reserve_all (new_slots CEREMONY_SPAN_S 1) [5, 5, 6])"
  using ceremonies_never_overlap [of CEREMONY_SPAN_S 1 "[5, 5, 6]"]
  by (simp add: CEREMONY_SPAN_S_def CHIME_OFFSET_S_def)

lemma flashes_spaced:
  "sorted nows \<Longrightarrow> 0 \<le> iv_interval iv \<Longrightarrow>
   (\<forall>l. dget (iv_last iv) d = Some l \<longrightarrow> (\<forall>t \<in> set (flashes d iv nows). l + iv_interval iv \<le> t))
   \<and> sorted_wrt (\<lambda>a b. a + iv_interval iv \<le> b) (flashes d iv nows)
   \<and> set (flashes d iv nows) \<subseteq> set nows"
proof (induction nows arbitrary: iv)
  case (Cons now rest)
  show ?case
  proof (cases "fst (invite_due d now iv)")
    case True
    then have due: "invite_due d now iv = (True, iv\<lparr>iv_last := dset d now (iv_last iv)\<rparr>)"
      and late: "\<And>l. dget (iv_last iv) d = Some l \<Longrightarrow> l + iv_interval iv \<le> now"
      by (auto simp: invite_due_def split: if_splits option.splits)
    let ?iv = "iv\<lparr>iv_last := dset d now (iv_last iv)\<rparr>"
    have "sorted rest" "0 \<le> iv_interval ?iv" using Cons.prems by simp_all
    from Cons.IH [OF this] have IH: "\<forall>t \<in> set (flashes d ?iv rest). now + iv_interval iv \<le> t"
      "sorted_wrt (\<lambda>a b. a + iv_interval iv \<le> b) (flashes d ?iv rest)"
      "set (flashes d ?iv rest) \<subseteq> set rest" by simp_all
    have "l + iv_interval iv \<le> t" if "dget (iv_last iv) d = Some l" "now + iv_interval iv \<le> t" for l t
      using late [OF that(1)] that(2) Cons.prems(2) by linarith
    with IH due late show ?thesis by (auto simp: Let_def)
  next
    case False
    then have "invite_due d now iv = (False, iv)" by (auto simp: invite_due_def split: if_splits)
    with Cons show ?thesis by auto
  qed
qed simp

text \<open>
  Invites keep their interval. Polled at any non-decreasing times, a device that stays un-joined is
  flashed at its first poll and then never twice within the invite interval.
\<close>
theorem invites_keep_their_interval:
  assumes "sorted (t # nows)" and "0 \<le> interval"
  shows "\<exists>rest. flashes d (new_invites interval) (t # nows) = t # rest
    \<and> sorted_wrt (\<lambda>a b. a + interval \<le> b) (t # rest)"
proof -
  have "\<exists>rest. flashes d (new_invites interval) (t # nows) = t # rest"
    by (simp add: invite_due_def new_invites_def)
  moreover have "sorted_wrt (\<lambda>a b. a + interval \<le> b) (flashes d (new_invites interval) (t # nows))"
    using flashes_spaced [of "t # nows" "new_invites interval" d] assms by (simp add: new_invites_def)
  ultimately show ?thesis by metis
qed

lemma invites_keep_their_interval_witness:
  "\<exists>rest. flashes ''ie1'' (new_invites 5) [0, 1, 6] = 0 # rest \<and> sorted_wrt (\<lambda>a b. a + 5 \<le> b) (0 # rest)"
  by (rule invites_keep_their_interval) simp_all

text \<open>
  The lobby's numbers are MIDI bytes: every join's note comes from the scale, so two joins a whole
  number of scales apart sound the same note, and the hue drift stays in 0-127 for any time and positive
  period.
\<close>
theorem lobby_numbers_are_bytes:
  assumes "0 < period"
  shows "scale_note n \<in> set NOTE_SCALE \<and> scale_note (n + 7 * k) = scale_note n
    \<and> 0 \<le> hue_drift_cc t period \<and> hue_drift_cc t period \<le> 127"
proof -
  have len: "length NOTE_SCALE = 7" by (simp add: NOTE_SCALE_def)
  have "nat (n mod 7) < length NOTE_SCALE" by (simp add: len nat_less_iff)
  then have scale: "scale_note n \<in> set NOTE_SCALE \<and> scale_note (n + 7 * k) = scale_note n"
    using nth_mem [of "nat (n mod 7)" NOTE_SCALE] by (simp add: scale_note_def len)
  define x where "x = py_mod t period / period"
  have x: "0 \<le> x" "x < 1" using py_mod_bounds [OF assms, of t] assms by (simp_all add: x_def)
  have "0 \<le> py_round ((if x < 1 / 2 then 2 * x else 2 * (1 - x)) * 127)"
    by (rule py_round_ge) (use x in auto)
  moreover have "py_round ((if x < 1 / 2 then 2 * x else 2 * (1 - x)) * 127) \<le> 127"
    by (rule py_round_le) (use x in auto)
  moreover have "hue_drift_cc t period = py_round ((if x < 1 / 2 then 2 * x else 2 * (1 - x)) * 127)"
    unfolding hue_drift_cc_def Let_def x_def by (rule refl)
  ultimately show ?thesis using scale by (simp only:)
qed

lemma lobby_numbers_are_bytes_witness: "hue_drift_cc 10 HUE_DRIFT_PERIOD_S \<le> 127"
  using lobby_numbers_are_bytes [of HUE_DRIFT_PERIOD_S 0 0 10] by (simp add: HUE_DRIFT_PERIOD_S_def)

end
