(* ===== verification/Timed_Queue.thy ===== *)
theory Timed_Queue
  imports Prelude
begin

section \<open>Payloads held until their moment\<close>

text \<open>
  \<open>src/control/timed_queue.py\<close>. The payload type is a parameter, as in the source. A declared time is a
  float (it may come from the wire, so also an infinity or NaN); the reader's clock is an exact rational.
  What a holder of a queue relies on is the locale \<open>time_release\<close>; the queue is its instance, and the
  queue's bookkeeping is an instance of \<open>accounting_machine\<close>.
\<close>

type_synonym 'p item = "pyfloat \<times> nat \<times> 'p"

record 'p tqueue =
  tq_items :: "'p item list"
  tq_clamped :: nat
  tq_lateness :: "pyfloat list"
  tq_seq :: nat

definition MAX_LATENESS_SAMPLES :: nat where "MAX_LATENESS_SAMPLES = 20000"

definition new_tqueue :: "'p tqueue" where
  "new_tqueue = \<lparr>tq_items = [], tq_clamped = 0, tq_lateness = [], tq_seq = 0\<rparr>"

definition release_time :: "pyfloat option \<Rightarrow> rat \<Rightarrow> pyfloat" where
  "release_time declared now =
     (case declared of None \<Rightarrow> Fin now | Some w \<Rightarrow> if flt w (Fin now) then Fin now else w)"

definition tq_push :: "pyfloat option \<Rightarrow> 'p \<Rightarrow> rat \<Rightarrow> 'p tqueue \<Rightarrow> 'p tqueue" where
  "tq_push declared p now q =
     (let q' = (case declared of
            None \<Rightarrow> q
          | Some w \<Rightarrow>
              q\<lparr>tq_lateness := bounded_append MAX_LATENESS_SAMPLES (fsub (Fin now) w) (tq_lateness q),
                tq_clamped := (if flt w (Fin now) then Suc (tq_clamped q) else tq_clamped q)\<rparr>)
      in q'\<lparr>tq_items := tq_items q @ [(release_time declared now, tq_seq q, p)], tq_seq := Suc (tq_seq q)\<rparr>)"

definition is_due :: "rat \<Rightarrow> 'p item \<Rightarrow> bool" where
  "is_due now i \<longleftrightarrow> fle (fst i) (Fin now)"

definition is_later :: "rat \<Rightarrow> 'p item \<Rightarrow> bool" where
  "is_later now i \<longleftrightarrow> flt (Fin now) (fst i)"

definition item_order :: "'p item \<Rightarrow> pyfloat \<times> nat" where
  "item_order i = (fst i, fst (snd i))"

definition tq_due :: "rat \<Rightarrow> 'p tqueue \<Rightarrow> 'p list \<times> 'p tqueue" where
  "tq_due now q =
     (let ready = filter (is_due now) (tq_items q)
      in if ready = [] then ([], q)
         else (map (snd \<circ> snd) (sort_key item_order ready),
               q\<lparr>tq_items := filter (is_later now) (tq_items q)\<rparr>))"

definition tq_purge :: "('p \<Rightarrow> bool) \<Rightarrow> 'p tqueue \<Rightarrow> 'p tqueue" where
  "tq_purge drops q = q\<lparr>tq_items := filter (\<lambda>i. \<not> drops (snd (snd i))) (tq_items q)\<rparr>"

text \<open>Python's \<open>min\<close>: the first candidate that no later one is below.\<close>

definition py_min :: "pyfloat list \<Rightarrow> pyfloat option" where
  "py_min ts = (case ts of [] \<Rightarrow> None | t # rest \<Rightarrow> Some (foldl (\<lambda>m x. if flt x m then x else m) t rest))"

definition tq_next_due :: "'p tqueue \<Rightarrow> pyfloat option" where
  "tq_next_due q = py_min (map fst (tq_items q))"

definition tq_pending :: "'p tqueue \<Rightarrow> nat" where
  "tq_pending q = length (tq_items q)"

subsection \<open>What a holder relies on\<close>

text \<open>
  A holder pushes payloads with a time and drains. The laws: a push waits with its release time, and a
  drain splits what waits at the clock. A client's lemmas are proved from them alone.
\<close>

locale time_release =
  fixes push :: "pyfloat option \<Rightarrow> 'p \<Rightarrow> rat \<Rightarrow> 's \<Rightarrow> 's"
    and due :: "rat \<Rightarrow> 's \<Rightarrow> 'p list \<times> 's"
    and waiting :: "'s \<Rightarrow> (pyfloat \<times> 'p) multiset"
  assumes push_waits: "waiting (push w p now s) = waiting s + {#(release_time w now, p)#}"
    and due_out: "mset (fst (due now s)) = image_mset snd (filter_mset (\<lambda>(t, _). fle t (Fin now)) (waiting s))"
    and due_left: "\<forall>x \<in># waiting s. fst x \<noteq> NaN \<Longrightarrow>
          waiting (snd (due now s)) = filter_mset (\<lambda>(t, _). flt (Fin now) t) (waiting s)"
begin

definition push_all :: "rat \<Rightarrow> (pyfloat option \<times> 'p) list \<Rightarrow> 's \<Rightarrow> 's" where
  "push_all now ws s = foldl (\<lambda>s (w, p). push w p now s) s ws"

lemma push_all_waits:
  "waiting (push_all now ws s) = waiting s + mset (map (\<lambda>(w, p). (release_time w now, p)) ws)"
  unfolding push_all_def by (induction ws arbitrary: s) (auto simp: push_waits)

lemma nothing_due_left:
  assumes "\<forall>x \<in># waiting s. fst x \<noteq> NaN"
  shows "\<forall>x \<in># waiting (snd (due now s)). flt (Fin now) (fst x)"
  by (auto simp: due_left [OF assms])

lemma drained_is_empty:
  assumes "\<forall>x \<in># waiting s. fst x \<noteq> NaN"
  shows "fst (due now (snd (due now s))) = []"
proof -
  have "filter_mset (\<lambda>(t, _). fle t (Fin now)) (waiting (snd (due now s))) = {#}"
    by (auto simp: due_left [OF assms] filter_mset_eq_mempty_iff dest: fle_not_flt)
  with due_out [of now "snd (due now s)"] have "mset (fst (due now (snd (due now s)))) = {#}" by (simp only: image_mset_empty)
  then show ?thesis by simp
qed

end

definition tq_waiting :: "'p tqueue \<Rightarrow> (pyfloat \<times> 'p) multiset" where
  "tq_waiting q = image_mset (\<lambda>(t, _, p). (t, p)) (mset (tq_items q))"

lemma not_due_later: "t \<noteq> NaN \<Longrightarrow> \<not> fle t (Fin now) \<longleftrightarrow> flt (Fin now) t"
  using fle_total [of t "Fin now"] fle_not_flt [of t "Fin now"] by auto

interpretation tq: time_release tq_push tq_due tq_waiting
proof
  show "tq_waiting (tq_push w p now s) = tq_waiting s + {#(release_time w now, p)#}" for w p now and s :: "'p tqueue"
    by (simp add: tq_waiting_def tq_push_def Let_def split: option.split)
  show "mset (fst (tq_due now s)) = image_mset snd (filter_mset (\<lambda>(t, _). fle t (Fin now)) (tq_waiting s))"
    for now and s :: "'p tqueue"
  proof -
    have "filter_mset (\<lambda>(t, _). fle t (Fin now)) (tq_waiting s)
        = image_mset (\<lambda>(t, _, p). (t, p)) (filter_mset (is_due now) (mset (tq_items s)))"
      by (simp add: tq_waiting_def filter_mset_image_mset is_due_def [abs_def] case_prod_beta comp_def)
    then show ?thesis
      by (simp add: tq_due_def Let_def multiset.map_comp comp_def case_prod_beta flip: mset_filter)
  qed
  show "\<forall>x \<in># tq_waiting s. fst x \<noteq> NaN \<Longrightarrow>
      tq_waiting (snd (tq_due now s)) = filter_mset (\<lambda>(t, _). flt (Fin now) t) (tq_waiting s)"
    for now and s :: "'p tqueue"
  proof -
    assume nn: "\<forall>x \<in># tq_waiting s. fst x \<noteq> NaN"
    have eq: "filter_mset (\<lambda>(t, _). flt (Fin now) t) (tq_waiting s)
        = image_mset (\<lambda>(t, _, p). (t, p)) (mset (filter (is_later now) (tq_items s)))"
      by (simp add: tq_waiting_def filter_mset_image_mset is_later_def [abs_def] case_prod_beta comp_def)
    show ?thesis
    proof (cases "filter (is_due now) (tq_items s) = []")
      case True
      then have "\<forall>i \<in> set (tq_items s). is_later now i"
        using nn by (fastforce simp: filter_empty_conv is_due_def is_later_def tq_waiting_def not_due_later)
      then show ?thesis using True eq by (simp add: tq_due_def filter_id_conv tq_waiting_def)
    next
      case False
      with eq show ?thesis by (simp add: tq_due_def tq_waiting_def)
    qed
  qed
qed

subsection \<open>Nothing is lost, nothing is invented\<close>

datatype 'p queue_call = CallPush "pyfloat option" 'p rat | CallDue rat | CallPurge "'p \<Rightarrow> bool"

fun queue_step :: "'p tqueue \<Rightarrow> 'p queue_call \<Rightarrow> 'p tqueue" where
  "queue_step q (CallPush w p now) = tq_push w p now q"
| "queue_step q (CallDue now) = snd (tq_due now q)"
| "queue_step q (CallPurge drops) = tq_purge drops q"

fun queue_taken :: "'p queue_call \<Rightarrow> 'p multiset" where
  "queue_taken (CallPush w p now) = {#p#}"
| "queue_taken _ = {#}"

definition tq_held :: "'p tqueue \<Rightarrow> 'p multiset" where
  "tq_held q = image_mset snd (tq_waiting q)"

text \<open>
  A drain that releases something also forgets the items whose time is NaN: they are neither due nor later.
\<close>

definition queue_lost :: "rat \<Rightarrow> 'p tqueue \<Rightarrow> 'p multiset" where
  "queue_lost now q =
     (if filter (is_due now) (tq_items q) = [] then {#}
      else mset (map (snd \<circ> snd) (filter (\<lambda>i. \<not> is_due now i \<and> \<not> is_later now i) (tq_items q))))"

fun queue_given :: "'p tqueue \<Rightarrow> 'p queue_call \<Rightarrow> 'p multiset" where
  "queue_given q (CallPush w p now) = {#}"
| "queue_given q (CallDue now) = mset (fst (tq_due now q)) + queue_lost now q"
| "queue_given q (CallPurge drops) = filter_mset drops (tq_held q)"

lemma held_items: "tq_held q = mset (map (snd \<circ> snd) (tq_items q))"
  by (simp add: tq_held_def tq_waiting_def multiset.map_comp comp_def case_prod_beta)

lemma due_not_later: "is_due now i \<Longrightarrow> \<not> is_later now i"
  by (auto simp: is_due_def is_later_def dest: fle_not_flt)

lemma split_by_time:
  "mset (filter (is_due now) xs) + mset (filter (\<lambda>i. \<not> is_due now i \<and> \<not> is_later now i) xs)
     + mset (filter (is_later now) xs) = mset xs"
  by (induction xs) (auto dest: due_not_later)

lemma drain_balance: "tq_held (snd (tq_due now q)) + (mset (fst (tq_due now q)) + queue_lost now q) = tq_held q"
proof (cases "filter (is_due now) (tq_items q) = []")
  case False
  have "image_mset (snd \<circ> snd) (mset (filter (is_due now) (tq_items q))
      + mset (filter (\<lambda>i. \<not> is_due now i \<and> \<not> is_later now i) (tq_items q))
      + mset (filter (is_later now) (tq_items q))) = tq_held q"
    by (simp only: split_by_time held_items mset_map)
  with False show ?thesis
    by (simp add: tq_due_def Let_def held_items queue_lost_def ac_simps del: mset_filter)
qed (simp add: tq_due_def queue_lost_def)

lemma purge_balance:
  "mset (map (snd \<circ> snd) (filter (\<lambda>i. \<not> drops (snd (snd i))) xs)) + filter_mset drops (mset (map (snd \<circ> snd) xs))
     = mset (map (snd \<circ> snd) xs)"
  by (induction xs) auto

interpretation queue: accounting_machine queue_step "\<lambda>_. True" tq_held queue_taken queue_given
proof
  show "tq_held (queue_step q c) + queue_given q c = tq_held q + queue_taken c" for q :: "'a tqueue" and c
  proof (cases c)
    case (CallPush w p now)
    then show ?thesis by (simp add: tq_held_def tq.push_waits)
  next
    case (CallDue now)
    then show ?thesis using drain_balance by simp
  next
    case (CallPurge drops)
    then show ?thesis using purge_balance by (simp add: held_items tq_purge_def)
  qed
qed simp_all

text \<open>Pushes whose time is a number.\<close>

fun timed :: "'p queue_call \<Rightarrow> bool" where
  "timed (CallPush (Some NaN) p now) = False"
| "timed _ = True"

definition no_nan :: "'p tqueue \<Rightarrow> bool" where
  "no_nan q \<longleftrightarrow> (\<forall>i \<in> set (tq_items q). fst i \<noteq> NaN)"

lemma release_time_nan: "release_time w now = NaN \<longleftrightarrow> w = Some NaN"
  by (auto simp: release_time_def split: option.split)

lemma timed_step: "timed c \<Longrightarrow> no_nan q \<Longrightarrow> no_nan (queue_step q c)"
  by (cases c rule: timed.cases)
    (auto simp: no_nan_def tq_push_def tq_due_def tq_purge_def Let_def release_time_nan split: option.splits)

lemma no_nan_lost: "no_nan q \<Longrightarrow> queue_lost now q = {#}"
  by (auto simp: queue_lost_def no_nan_def is_due_def is_later_def filter_empty_conv not_due_later)

text \<open>Everything the drains and purges of a run took out of the queue.\<close>

fun released :: "'p tqueue \<Rightarrow> 'p queue_call list \<Rightarrow> 'p multiset" where
  "released q [] = {#}"
| "released q (c # cs) =
     (case c of CallDue now \<Rightarrow> mset (fst (tq_due now q)) | _ \<Rightarrow> {#}) + released (queue_step q c) cs"

fun purged :: "'p tqueue \<Rightarrow> 'p queue_call list \<Rightarrow> 'p multiset" where
  "purged q [] = {#}"
| "purged q (c # cs) =
     (case c of CallPurge drops \<Rightarrow> filter_mset drops (tq_held q) | _ \<Rightarrow> {#}) + purged (queue_step q c) cs"

lemma given_split:
  "no_nan q \<Longrightarrow> list_all timed cs \<Longrightarrow> queue.given_run q cs = released q cs + purged q cs"
proof (induction cs arbitrary: q)
  case (Cons c cs)
  then have "queue.given_run (queue_step q c) cs = released (queue_step q c) cs + purged (queue_step q c) cs"
    using timed_step [of c q] by simp
  with Cons.prems show ?case by (cases c) (simp_all add: no_nan_lost ac_simps)
qed simp

text \<open>
  Nothing is lost, nothing is invented. Over any sequence of pushes (no time being NaN), drains and
  purges on a new queue, every payload pushed was released by exactly one drain, was purged, or is still
  held; nothing else ever comes out.
\<close>
theorem queue_conserves_payloads:
  assumes "list_all timed calls"
  shows "tq_held (foldl queue_step new_tqueue calls) + released new_tqueue calls + purged new_tqueue calls
    = sum_list (map queue_taken calls)"
proof -
  have "no_nan (new_tqueue :: 'a tqueue)" by (simp add: no_nan_def new_tqueue_def)
  from given_split [OF this assms] queue.balance_run [OF TrueI, of new_tqueue calls] show ?thesis
    by (simp add: tq_held_def tq_waiting_def new_tqueue_def ac_simps)
qed

definition demo_queue_calls :: "nat queue_call list" where
  "demo_queue_calls = [CallPush (Some (Fin 3)) 1 0, CallPush None 2 1, CallPush (Some (Fin 3)) 3 1,
     CallDue 2, CallPurge (\<lambda>p. p = 3), CallDue 3]"

lemma queue_conserves_payloads_witness:
  "released new_tqueue demo_queue_calls + purged new_tqueue demo_queue_calls = {#1, 2, 3#}
   \<and> tq_held (foldl queue_step new_tqueue demo_queue_calls) = {#}"
proof -
  have "list_all timed demo_queue_calls" by (simp add: demo_queue_calls_def)
  note all = queue_conserves_payloads [OF this]
  have "tq_pending (foldl queue_step new_tqueue demo_queue_calls) = 0"
    by (simp add: demo_queue_calls_def tq_push_def new_tqueue_def release_time_def is_due_def is_later_def tq_due_def
        tq_purge_def tq_pending_def)
  then have "tq_held (foldl queue_step new_tqueue demo_queue_calls) = {#}" by (simp add: held_items tq_pending_def)
  with all show ?thesis by (simp add: demo_queue_calls_def ac_simps)
qed

text \<open>
  A drain is punctual and in order. \<open>due\<close> releases exactly the payloads whose time has come, earliest
  first and, at equal times, in the order they were pushed; when no time is NaN, what stays is exactly
  what is still ahead of the clock, so a second drain at the same reading releases nothing.
\<close>
theorem drain_is_punctual:
  assumes seqs: "sorted_wrt (<) (map (fst \<circ> snd) (tq_items q))" and nn: "no_nan q"
  shows "(\<exists>out. fst (tq_due now q) = map (snd \<circ> snd) out
      \<and> mset out = mset (filter (is_due now) (tq_items q))
      \<and> sorted_wrt (\<lambda>i j. fst i < fst j \<or> fst i = fst j \<and> fst (snd i) < fst (snd j)) out)
    \<and> tq_items (snd (tq_due now q)) = filter (\<lambda>i. \<not> is_due now i) (tq_items q)
    \<and> fst (tq_due now (snd (tq_due now q))) = []"
proof -
  let ?ready = "filter (is_due now) (tq_items q)"
  have inj: "distinct (map item_order ?ready)"
  proof -
    have "distinct (map (fst \<circ> snd) (tq_items q))"
      using seqs by (simp add: strict_sorted_iff)
    then have "distinct (map (snd \<circ> item_order) ?ready)"
      by (simp add: item_order_def comp_def distinct_map inj_on_def)
    then show ?thesis by (metis distinct_map list.map_comp)
  qed
  have "sorted_wrt (<) (map item_order (sort_key item_order ?ready))"
    using inj by (simp add: strict_sorted_iff distinct_map)
  then have ord: "sorted_wrt (\<lambda>i j. fst i < fst j \<or> fst i = fst j \<and> fst (snd i) < fst (snd j)) (sort_key item_order ?ready)"
    by (simp only: sorted_wrt_map item_order_def less_prod_simp fst_conv snd_conv) (auto elim!: sorted_wrt_mono_rel [rotated])
  have later: "\<not> is_due now i \<longleftrightarrow> is_later now i" if "i \<in> set (tq_items q)" for i
    using nn that by (auto simp: no_nan_def is_due_def is_later_def not_due_later)
  have left: "tq_items (snd (tq_due now q)) = filter (\<lambda>i. \<not> is_due now i) (tq_items q)"
    using later by (auto simp: tq_due_def Let_def filter_empty_conv filter_id_conv cong: filter_cong)
  have "\<forall>x \<in># tq_waiting q. fst x \<noteq> NaN" using nn by (auto simp: tq_waiting_def no_nan_def)
  note again = tq.drained_is_empty [OF this]
  have "fst (tq_due now q) = map (snd \<circ> snd) (sort_key item_order ?ready)"
    by (simp add: tq_due_def Let_def)
  with ord left again show ?thesis by (intro conjI exI [of _ "sort_key item_order ?ready"]) (simp_all add: mset_filter)
qed

lemma drain_is_punctual_witness:
  "fst (tq_due 3 (foldl queue_step new_tqueue
     [CallPush (Some (Fin 3)) (1::nat) 0, CallPush (Some (Fin 2)) 2 0, CallPush (Some (Fin 3)) 3 0])) = [2, 1, 3]
   \<and> tq_items (snd (tq_due 3 (foldl queue_step new_tqueue
     [CallPush (Some (Fin 3)) (1::nat) 0, CallPush (Some (Fin 2)) 2 0, CallPush (Some (Fin 3)) 3 0]))) = []"
proof -
  let ?q = "foldl queue_step new_tqueue
     [CallPush (Some (Fin 3)) (1::nat) 0, CallPush (Some (Fin 2)) 2 0, CallPush (Some (Fin 3)) 3 0]"
  have q: "sorted_wrt (<) (map (fst \<circ> snd) (tq_items ?q)) \<and> list_all (\<lambda>i. fst i \<noteq> NaN) (tq_items ?q)
      \<and> filter (\<lambda>i. \<not> is_due 3 i) (tq_items ?q) = []"
    by (simp add: tq_push_def new_tqueue_def release_time_def is_due_def)
  then have "no_nan ?q" by (simp add: no_nan_def list_all_iff)
  from drain_is_punctual [OF conjunct1 [OF q] this, of 3] q
  have "tq_items (snd (tq_due 3 ?q)) = []" by (metis)
  moreover have "fst (tq_due 3 ?q) = [2, 1, 3]"
    by (simp add: tq_push_def new_tqueue_def release_time_def is_due_def tq_due_def item_order_def)
  ultimately show ?thesis by simp
qed

text \<open>
  A payload whose time is NaN is forgotten. It is never released, and the first drain that releases
  anything else drops it silently, although the queue's holder was told nothing.
\<close>
theorem nan_payload_is_dropped:
  "fst (tq_due 1 (tq_push None (0::nat) 1 (tq_push (Some NaN) 7 0 new_tqueue))) = [0]
   \<and> tq_pending (tq_push None (0::nat) 1 (tq_push (Some NaN) 7 0 new_tqueue)) = 2
   \<and> tq_pending (snd (tq_due 1 (tq_push None (0::nat) 1 (tq_push (Some NaN) 7 0 new_tqueue)))) = 0"
  by (simp add: tq_push_def new_tqueue_def release_time_def is_due_def is_later_def tq_due_def item_order_def tq_pending_def)

end
