(* ===== verification/Lobby_Runtime.thy ===== *)
theory Lobby_Runtime
  imports Lobby Timed_Queue
begin

section \<open>The lobby's light and sound\<close>

text \<open>
  \<open>src/devicelink/lobby_runtime.py\<close> and \<open>src/control/breath.py\<close>. The sinks are what the runtime emits, in
  order; the fixtures of the Room, who is bound to them and the clock are arguments of the operation that
  asks. A queued thunk is a value of \<open>thunk\<close>, and running it emits one effect. The raised cosine of a pulse is
  a parameter, a function of the time since the pulse began.
\<close>

subsection \<open>The breath\<close>

definition BREATH_CC :: int where "BREATH_CC = 11"
definition BREATHE_POINTS :: "(rat \<times> rat) list" where
  "BREATHE_POINTS = [(0, 55 / 100), (3, 1), (6, 55 / 100)]"
definition BREATHE_PERIOD :: rat where "BREATHE_PERIOD = 6"

fun breath_level :: "rat \<Rightarrow> (rat \<times> rat) list \<Rightarrow> rat" where
  "breath_level phase ((x0, y0) # (x1, y1) # rest) =
     (if phase \<le> x1 then y0 + (if x1 = x0 then 0 else (phase - x0) / (x1 - x0)) * (y1 - y0)
      else breath_level phase ((x1, y1) # rest))"
| "breath_level phase ps = snd (last ps)"

definition breath_cc :: "rat \<Rightarrow> int" where
  "breath_cc t = py_round (breath_level (py_mod t BREATHE_PERIOD) BREATHE_POINTS * 127)"

subsection \<open>Effects and thunks\<close>

type_synonym rgb = "int list"

definition GREEN :: rgb where "GREEN = [0, 255, 0]"
definition RED :: rgb where "RED = [255, 0, 0]"
definition WHITE :: rgb where "WHITE = [0, 0, 0, 255]"

definition DEVICE_FLASH_TRAIN_S :: rat where
  "DEVICE_FLASH_TRAIN_S = 2 * (DEVICE_FLASH_ON_S + DEVICE_FLASH_GAP_S)"
definition FIXTURE_FLASH_ON_S :: rat where "FIXTURE_FLASH_ON_S = 1 / 4"
definition FIXTURE_FLASH_GAP_S :: rat where "FIXTURE_FLASH_GAP_S = 1 / 4"
definition HUE_CC :: int where "HUE_CC = 74"
definition GREEN_HUE_CC :: int where "GREEN_HUE_CC = 42"
definition LOBBY_PROGRAM :: int where "LOBBY_PROGRAM = 89"
definition LOBBY_DRONE_KEY :: int where "LOBBY_DRONE_KEY = 48"
definition LOBBY_DRONE_VEL :: int where "LOBBY_DRONE_VEL = 80"
definition BELL_PROGRAM :: int where "BELL_PROGRAM = 14"
definition BELL_VEL :: int where "BELL_VEL = 100"
definition FULL_EXPRESSION :: int where "FULL_EXPRESSION = 127"

datatype lobby_effect =
    Feed_Light string int int int
  | Feed_Audio string int int int
  | Audio_Control string int int
  | Play_Note int int int rat
  | Set_Override dev rgb rat rat
  | Send_Play dev string int
  | Announce string dev
  | Set_Base dev "rgb option" rat

datatype thunk =
    Ceremony_Flash dev | Bell int | Chime dev int | Fixture_Flash dev rgb | Invite_Flash dev | Deny_Flash dev

fun run_thunk :: "thunk \<Rightarrow> lobby_effect" where
  "run_thunk (Ceremony_Flash d) = Set_Override d GREEN 1 DEVICE_FLASH_ON_S"
| "run_thunk (Bell k) = Play_Note BELL_PROGRAM k BELL_VEL BELL_DURATION_S"
| "run_thunk (Chime d k) = Send_Play d ''chime'' k"
| "run_thunk (Fixture_Flash d c) = Set_Override d c 1 FIXTURE_FLASH_ON_S"
| "run_thunk (Invite_Flash d) = Set_Override d WHITE 1 DEVICE_FLASH_ON_S"
| "run_thunk (Deny_Flash d) = Set_Override d RED 1 DEVICE_FLASH_ON_S"

fun device_flash :: "thunk \<Rightarrow> bool" where
  "device_flash (Invite_Flash _) = True"
| "device_flash (Deny_Flash _) = True"
| "device_flash _ = False"

fun invite_flash_of :: "dev \<Rightarrow> thunk \<Rightarrow> bool" where
  "invite_flash_of d (Invite_Flash d') \<longleftrightarrow> d = d'"
| "invite_flash_of _ _ = False"

subsection \<open>The runtime\<close>

record lobby_rt =
  lb_room_program :: "int option"
  lb_state :: lobby_phase
  lb_running :: bool
  lb_origin :: rat
  lb_queue :: "thunk tqueue"
  lb_slots :: slots
  lb_invites :: invites
  lb_last_light :: "(string \<times> int, int) dict"
  lb_last_audio :: "(string, int) dict"
  lb_joins :: int
  lb_status :: "(dev, rgb \<times> rat) dict"
  lb_last_base :: "(dev, rgb \<times> int) dict"
  lb_out :: "lobby_effect list"

record lobby_world =
  lw_fixtures :: "string list"
  lw_bound :: "string \<Rightarrow> dev option"
  lw_now :: rat
  lw_pulse :: "rat \<Rightarrow> rat"

definition new_lobby :: "rat \<Rightarrow> rat \<Rightarrow> int option \<Rightarrow> rat \<Rightarrow> lobby_rt" where
  "new_lobby interval gap program now =
     \<lparr>lb_room_program = program, lb_state = WAITING, lb_running = False, lb_origin = now, lb_queue = new_tqueue,
      lb_slots = new_slots CEREMONY_SPAN_S gap, lb_invites = new_invites interval, lb_last_light = [], lb_last_audio = [],
      lb_joins = 0, lb_status = [], lb_last_base = [], lb_out = []\<rparr>"

definition emits :: "lobby_effect list \<Rightarrow> lobby_rt \<Rightarrow> lobby_rt" where
  "emits es lb = lb\<lparr>lb_out := lb_out lb @ es\<rparr>"

definition put_at :: "rat \<Rightarrow> thunk \<Rightarrow> rat \<Rightarrow> lobby_rt \<Rightarrow> lobby_rt" where
  "put_at w th now lb = lb\<lparr>lb_queue := tq_push (Some (Fin w)) th now (lb_queue lb)\<rparr>"

definition drone :: "bool \<Rightarrow> lobby_world \<Rightarrow> lobby_rt \<Rightarrow> lobby_rt" where
  "drone on lw lb =
     (if on \<and> lb_state lb = WAITING then emits (map (\<lambda>n. Feed_Audio n 144 LOBBY_DRONE_KEY LOBBY_DRONE_VEL) (lw_fixtures lw)) lb
      else if \<not> on then emits (map (\<lambda>n. Feed_Audio n 128 LOBBY_DRONE_KEY 0) (lw_fixtures lw)) lb
      else lb)"

definition lobby_start :: "lobby_world \<Rightarrow> lobby_rt \<Rightarrow> lobby_rt" where
  "lobby_start lw lb =
     drone True lw (emits (map (\<lambda>n. Feed_Audio n 192 LOBBY_PROGRAM 0) (lw_fixtures lw))
       (lb\<lparr>lb_running := True, lb_origin := lw_now lw\<rparr>))"

definition clear_status :: "dev \<Rightarrow> lobby_rt \<Rightarrow> lobby_rt" where
  "clear_status d lb =
     (let lb1 = lb\<lparr>lb_status := dpop d (lb_status lb), lb_last_base := dpop d (lb_last_base lb)\<rparr>
      in if dmem d (lb_last_base lb) then emits [Set_Base d None 0] lb1 else lb1)"

definition lobby_stop :: "lobby_world \<Rightarrow> lobby_rt \<Rightarrow> lobby_rt" where
  "lobby_stop lw lb =
     (if \<not> lb_running lb then lb
      else (let lb1 = drone False lw (lb\<lparr>lb_running := False\<rparr>);
                lb2 = (case lb_room_program lb of
                         None \<Rightarrow> lb1
                       | Some p \<Rightarrow> emits (map (\<lambda>n. Feed_Audio n 192 p 0) (lw_fixtures lw)) lb1);
                lb3 = emits (map (\<lambda>n. Audio_Control n BREATH_CC FULL_EXPRESSION) (lw_fixtures lw)) lb2;
                lb4 = lb3\<lparr>lb_invites := invite_clear (lb_invites lb3), lb_queue := tq_purge device_flash (lb_queue lb3)\<rparr>
            in (fold clear_status (dkeys (lb_status lb4)) lb4)\<lparr>lb_last_light := [], lb_last_audio := []\<rparr>))"

definition draining :: "lobby_rt \<Rightarrow> bool" where
  "draining lb \<longleftrightarrow> \<not> lb_running lb \<and> 0 < tq_pending (lb_queue lb)"

definition light_fixture :: "int \<Rightarrow> int \<Rightarrow> string \<Rightarrow> lobby_rt \<Rightarrow> lobby_rt" where
  "light_fixture cc v n lb =
     (if dget (lb_last_light lb) (n, cc) = Some v then lb
      else emits [Feed_Light n 176 cc v] (lb\<lparr>lb_last_light := dset (n, cc) v (lb_last_light lb)\<rparr>))"

definition set_lobby_state :: "lobby_phase \<Rightarrow> lobby_world \<Rightarrow> lobby_rt \<Rightarrow> lobby_rt" where
  "set_lobby_state st lw lb =
     (if st = lb_state lb then lb
      else (let lb1 = lb\<lparr>lb_state := st\<rparr>
            in if st = FULL
               then (let lb2 = fold (light_fixture HUE_CC GREEN_HUE_CC) (lw_fixtures lw) (drone False lw lb1)
                     in fold clear_status (map fst (filter (\<lambda>(d, c, _). c = WHITE) (lb_status lb2))) lb2)
               else drone True lw lb1))"

definition breathe_audio :: "int \<Rightarrow> string \<Rightarrow> lobby_rt \<Rightarrow> lobby_rt" where
  "breathe_audio breath n lb =
     (if dget (lb_last_audio lb) n = Some breath then lb
      else emits [Audio_Control n BREATH_CC breath] (lb\<lparr>lb_last_audio := dset n breath (lb_last_audio lb)\<rparr>))"

definition base_pulse :: "dev \<Rightarrow> rgb \<Rightarrow> rat \<Rightarrow> lobby_rt \<Rightarrow> lobby_rt" where
  "base_pulse d c level lb =
     (let key = (c, py_round (level * 255))
      in if dget (lb_last_base lb) d = Some key then lb
         else emits [Set_Base d (Some c) level] (lb\<lparr>lb_last_base := dset d key (lb_last_base lb)\<rparr>))"

definition tick_fixture :: "int \<Rightarrow> int \<Rightarrow> string \<Rightarrow> lobby_rt \<Rightarrow> lobby_rt" where
  "tick_fixture breath drift n lb =
     light_fixture BREATH_CC breath n
       (if lb_state lb = WAITING then breathe_audio breath n (light_fixture HUE_CC drift n lb) else lb)"

definition lobby_tick :: "lobby_world \<Rightarrow> lobby_rt \<Rightarrow> lobby_rt" where
  "lobby_tick lw lb =
     (case tq_due (lw_now lw) (lb_queue lb) of
        (due, q) \<Rightarrow>
          (let lb1 = emits (map run_thunk due) (lb\<lparr>lb_queue := q\<rparr>)
           in if \<not> lb_running lb then lb1
              else (let lb2 = fold (\<lambda>(d, c, start). base_pulse d c (lw_pulse lw (lw_now lw - start))) (lb_status lb1) lb1;
                        t = lw_now lw - lb_origin lb
                    in fold (tick_fixture (breath_cc t) (hue_drift_cc t HUE_DRIFT_PERIOD_S)) (lw_fixtures lw) lb2)))"

definition hold_dark :: "dev \<Rightarrow> rgb \<Rightarrow> rat \<Rightarrow> lobby_rt \<Rightarrow> lobby_rt" where
  "hold_dark d c until lb =
     lb\<lparr>lb_status := dset d (case dget (lb_status lb) d of
          Some (c', start) \<Rightarrow> if c' = c then (c, max start until) else (c, until)
        | None \<Rightarrow> (c, until)) (lb_status lb)\<rparr>"

text \<open>A train of two device flashes from \<open>t\<close> on.\<close>

definition flash_train :: "thunk \<Rightarrow> rat \<Rightarrow> rat \<Rightarrow> lobby_rt \<Rightarrow> lobby_rt" where
  "flash_train th t now lb = put_at (t + (DEVICE_FLASH_ON_S + DEVICE_FLASH_GAP_S)) th now (put_at t th now lb)"

definition on_scored_join :: "dev \<Rightarrow> lobby_world \<Rightarrow> lobby_rt \<Rightarrow> lobby_rt" where
  "on_scored_join d lw lb =
     (let key = scale_note (lb_joins lb); now = lw_now lw
      in case reserve now (lb_slots lb) of
           (t, slots) \<Rightarrow>
             put_at (t + CHIME_OFFSET_S) (Chime d key) now
              (put_at (t + BELL_OFFSET_S) (Bell key) now
                (flash_train (Ceremony_Flash d) t now
                  (hold_dark d GREEN (t + DEVICE_FLASH_TRAIN_S)
                    (lb\<lparr>lb_joins := lb_joins lb + 1, lb_slots := slots\<rparr>)))))"

fun flash_fixtures_from :: "nat \<Rightarrow> nat \<Rightarrow> rgb \<Rightarrow> dev list \<Rightarrow> rat \<Rightarrow> lobby_rt \<Rightarrow> lobby_rt" where
  "flash_fixtures_from i 0 c devs now lb = lb"
| "flash_fixtures_from i (Suc n) c devs now lb =
     flash_fixtures_from (Suc i) n c devs now
       (fold (\<lambda>d. put_at (now + of_nat i * (FIXTURE_FLASH_ON_S + FIXTURE_FLASH_GAP_S)) (Fixture_Flash d c) now) devs lb)"

definition lobby_feedback :: "feedback \<Rightarrow> lobby_world \<Rightarrow> lobby_rt \<Rightarrow> lobby_rt" where
  "lobby_feedback fb lw lb =
     (case (case fb of FEEDBACK_ACCEPT \<Rightarrow> (2, GREEN) | FEEDBACK_MINIMUM \<Rightarrow> (2, RED) | FEEDBACK_REFUSED \<Rightarrow> (3, RED)
              | FEEDBACK_NONE \<Rightarrow> (0, GREEN)) of
        (n, c) \<Rightarrow> flash_fixtures_from 0 n c (List.map_filter (lw_bound lw) (lw_fixtures lw)) (lw_now lw) lb)"

definition consider_invite :: "dev \<Rightarrow> lobby_world \<Rightarrow> lobby_rt \<Rightarrow> lobby_rt" where
  "consider_invite d lw lb =
     (if \<not> lb_running lb \<or> lb_state lb \<noteq> WAITING then lb
      else case invite_due d (lw_now lw) (lb_invites lb) of
             (False, _) \<Rightarrow> lb
           | (True, iv) \<Rightarrow>
               (let lb1 = (if invited d (lb_invites lb) then lb else emits [Announce ''invite'' d] lb)\<lparr>lb_invites := iv\<rparr>
                in hold_dark d WHITE (lw_now lw + DEVICE_FLASH_TRAIN_S)
                     (flash_train (Invite_Flash d) (lw_now lw) (lw_now lw) lb1)))"

definition purge_invite_flashes :: "dev \<Rightarrow> lobby_rt \<Rightarrow> lobby_rt" where
  "purge_invite_flashes d lb = lb\<lparr>lb_queue := tq_purge (invite_flash_of d) (lb_queue lb)\<rparr>"

definition on_deny :: "dev \<Rightarrow> lobby_world \<Rightarrow> lobby_rt \<Rightarrow> lobby_rt" where
  "on_deny d lw lb =
     (let now = lw_now lw;
          lb1 = flash_train (Deny_Flash d) now now (purge_invite_flashes d lb)
      in case dget (lb_status lb1) d of
           None \<Rightarrow> lb1
         | Some (c, start) \<Rightarrow> lb1\<lparr>lb_status := dset d (c, max start (now + DEVICE_FLASH_TRAIN_S)) (lb_status lb1)\<rparr>)"

definition is_invited :: "dev \<Rightarrow> lobby_rt \<Rightarrow> bool" where
  "is_invited d lb \<longleftrightarrow> invited d (lb_invites lb)"

definition lobby_forget :: "dev \<Rightarrow> lobby_rt \<Rightarrow> lobby_rt" where
  "lobby_forget d lb = clear_status d (purge_invite_flashes d (lb\<lparr>lb_invites := invite_forget d (lb_invites lb)\<rparr>))"

subsection \<open>A run of the lobby\<close>

datatype lobby_call =
    L_Start | L_Stop | L_Set_State lobby_phase | L_Tick | L_Join dev | L_Feedback feedback | L_Invite dev | L_Deny dev
  | L_Forget dev

fun lobby_step :: "lobby_rt \<Rightarrow> lobby_call \<times> lobby_world \<Rightarrow> lobby_rt" where
  "lobby_step lb (L_Start, lw) = lobby_start lw lb"
| "lobby_step lb (L_Stop, lw) = lobby_stop lw lb"
| "lobby_step lb (L_Set_State st, lw) = set_lobby_state st lw lb"
| "lobby_step lb (L_Tick, lw) = lobby_tick lw lb"
| "lobby_step lb (L_Join d, lw) = on_scored_join d lw lb"
| "lobby_step lb (L_Feedback fb, lw) = lobby_feedback fb lw lb"
| "lobby_step lb (L_Invite d, lw) = consider_invite d lw lb"
| "lobby_step lb (L_Deny d, lw) = on_deny d lw lb"
| "lobby_step lb (L_Forget d, lw) = lobby_forget d lb"

text \<open>Whether the last word a device got about its base is a colour.\<close>

definition lit_after :: "dev \<Rightarrow> bool \<Rightarrow> lobby_effect \<Rightarrow> bool" where
  "lit_after d b e = (case e of Set_Base d' c _ \<Rightarrow> if d' = d then c \<noteq> None else b | _ \<Rightarrow> b)"

definition lit_base :: "lobby_effect list \<Rightarrow> dev \<Rightarrow> bool" where
  "lit_base es d = foldl (lit_after d) False es"

lemma lit_base_snoc [simp]: "lit_base (es @ [e]) d = lit_after d (lit_base es d) e"
  by (simp add: lit_base_def)

lemma lit_base_Nil [simp]: "\<not> lit_base [] d"
  by (simp add: lit_base_def)

fun is_base :: "lobby_effect \<Rightarrow> bool" where
  "is_base (Set_Base _ _ _) = True"
| "is_base _ = False"

lemma lit_plain: "list_all (\<lambda>e. \<not> is_base e) fs \<Longrightarrow> lit_base (es @ fs) = lit_base es"
proof (induction fs arbitrary: es)
  case (Cons f fs)
  then have "lit_base (es @ [f]) = lit_base es" by (cases f) (auto simp: lit_after_def)
  with Cons.IH [of "es @ [f]"] Cons.prems show ?case by simp
qed simp

text \<open>What the pulses are made of; most operations leave it alone.\<close>

definition pulse_part :: "lobby_rt \<Rightarrow> _" where
  "pulse_part lb = (lit_base (lb_out lb), lb_last_base lb, lb_status lb, lb_running lb)"

definition pulses_ok :: "lobby_rt \<Rightarrow> bool" where
  "pulses_ok lb \<longleftrightarrow>
     (\<forall>d. lit_base (lb_out lb) d \<longleftrightarrow> dmem d (lb_last_base lb)) \<and> (\<forall>d. dmem d (lb_last_base lb) \<longrightarrow> dmem d (lb_status lb))
     \<and> (lb_running lb \<or> lb_last_base lb = [])"

lemma pulses_ok_part: "pulse_part lb' = pulse_part lb \<Longrightarrow> pulses_ok lb' = pulses_ok lb"
  by (simp add: pulse_part_def pulses_ok_def)

lemma part_emits: "list_all (\<lambda>e. \<not> is_base e) es \<Longrightarrow> pulse_part (emits es lb) = pulse_part lb"
  by (simp add: pulse_part_def emits_def lit_plain)

lemma part_drone: "pulse_part (drone on lw lb) = pulse_part lb"
  by (auto simp: drone_def list_all_iff intro!: part_emits)

lemma part_put_at [simp]: "pulse_part (put_at w th now lb) = pulse_part lb"
  by (simp add: pulse_part_def put_at_def)

lemma part_light: "pulse_part (light_fixture cc v n lb) = pulse_part lb"
proof -
  have "pulse_part (lb\<lparr>lb_last_light := x\<rparr>) = pulse_part lb" for x by (simp add: pulse_part_def)
  then show ?thesis by (simp add: light_fixture_def part_emits)
qed

lemma part_breathe: "pulse_part (breathe_audio b n lb) = pulse_part lb"
proof -
  have "pulse_part (lb\<lparr>lb_last_audio := x\<rparr>) = pulse_part lb" for x by (simp add: pulse_part_def)
  then show ?thesis by (simp add: breathe_audio_def part_emits)
qed

lemma part_tick_fixture: "pulse_part (tick_fixture b h n lb) = pulse_part lb"
  by (simp add: tick_fixture_def part_light part_breathe)

lemma part_fold: "(\<And>x lb. pulse_part (f x lb) = pulse_part lb) \<Longrightarrow> pulse_part (fold f xs lb) = pulse_part lb"
  by (induction xs arbitrary: lb) simp_all

lemma part_flash_fixtures: "pulse_part (flash_fixtures_from i n c devs now lb) = pulse_part lb"
  by (induction n arbitrary: i lb) (simp_all add: part_fold)

lemma pulses_ok_same:
  "pulses_ok (drone on lw lb) = pulses_ok lb" "pulses_ok (put_at w th now lb) = pulses_ok lb"
  "pulses_ok (light_fixture cc v n lb) = pulses_ok lb"
  "pulses_ok (flash_fixtures_from i k c devs now lb) = pulses_ok lb"
  by (rule pulses_ok_part; rule part_drone part_put_at part_light part_flash_fixtures)+

lemma pulses_ok_fold:
  "pulses_ok (fold (light_fixture cc v) ns lb) = pulses_ok lb" "pulses_ok (fold (tick_fixture b h) ns lb) = pulses_ok lb"
  by (rule pulses_ok_part; rule part_fold; rule part_light part_tick_fixture)+

lemma pulses_ok_emits: "list_all (\<lambda>e. \<not> is_base e) es \<Longrightarrow> pulses_ok lb \<Longrightarrow> pulses_ok (emits es lb)"
  using pulses_ok_part [OF part_emits] by blast

lemma not_base_thunk: "\<not> is_base (run_thunk th)"
  by (cases th) simp_all

lemma clear_status_ok:
  assumes "pulses_ok lb"
  shows "pulses_ok (clear_status d lb)"
    and "lb_status (clear_status d lb) = dpop d (lb_status lb)" and "lb_last_base (clear_status d lb) = dpop d (lb_last_base lb)"
    and "lb_running (clear_status d lb) = lb_running lb"
  using assms by (auto simp: clear_status_def Let_def emits_def pulses_ok_def lit_after_def)

lemma clear_all_ok:
  assumes "pulses_ok lb"
  shows "pulses_ok (fold clear_status ds lb)
    \<and> (\<forall>d. dmem d (lb_last_base (fold clear_status ds lb)) \<longleftrightarrow> dmem d (lb_last_base lb) \<and> d \<notin> set ds)
    \<and> lb_running (fold clear_status ds lb) = lb_running lb"
  using assms
proof (induction ds arbitrary: lb)
  case (Cons d ds)
  note c = clear_status_ok [OF Cons.prems, of d]
  show ?case using Cons.IH [OF c(1)] c by auto
qed simp

lemma clear_status_running: "clear_status d (lb\<lparr>lb_running := b\<rparr>) = (clear_status d lb)\<lparr>lb_running := b\<rparr>"
  by (simp add: clear_status_def Let_def emits_def)

lemma clear_all_running: "fold clear_status ds (lb\<lparr>lb_running := b\<rparr>) = (fold clear_status ds lb)\<lparr>lb_running := b\<rparr>"
  by (induction ds arbitrary: lb) (simp_all add: clear_status_running)

lemma base_pulse_ok:
  assumes "pulses_ok lb" and "dmem d (lb_status lb)" and "lb_running lb"
  shows "pulses_ok (base_pulse d c l lb) \<and> lb_status (base_pulse d c l lb) = lb_status lb \<and> lb_running (base_pulse d c l lb)"
  using assms by (auto simp: base_pulse_def Let_def emits_def pulses_ok_def lit_after_def)

lemma base_pulses_ok:
  assumes "pulses_ok lb" and "fst ` set st \<subseteq> fst ` set (lb_status lb)" and "lb_running lb"
  shows "pulses_ok (fold (\<lambda>(d, c, w). base_pulse d c (f w)) st lb)"
  using assms
proof (induction st arbitrary: lb)
  case (Cons x st)
  obtain d c w where x: "x = (d, c, w)" by (cases x) auto
  have "dmem d (lb_status lb)" using Cons.prems(2) by (auto simp: x dmem_def)
  from base_pulse_ok [OF Cons.prems(1) this Cons.prems(3), of c "f w"] Cons.IH [of "base_pulse d c (f w) lb"] Cons.prems(2)
  show ?case by (simp add: x)
qed simp

lemma hold_ok: "pulses_ok lb \<Longrightarrow> pulses_ok (hold_dark d c u lb)"
  by (auto simp: hold_dark_def pulses_ok_def)

lemma pulses_ok_slots:
  "pulses_ok (lb\<lparr>lb_joins := j, lb_slots := s\<rparr>) = pulses_ok lb" "pulses_ok (lb\<lparr>lb_invites := iv\<rparr>) = pulses_ok lb"
  "pulses_ok (lb\<lparr>lb_queue := q\<rparr>) = pulses_ok lb" "pulses_ok (lb\<lparr>lb_state := st\<rparr>) = pulses_ok lb"
  "pulses_ok (lb\<lparr>lb_last_light := a, lb_last_audio := b\<rparr>) = pulses_ok lb"
  by (simp_all add: pulses_ok_def)

lemma flash_train_ok: "pulses_ok (flash_train th t now lb) = pulses_ok lb"
  by (simp only: flash_train_def pulses_ok_same)

lemma stop_ok: "pulses_ok lb \<Longrightarrow> pulses_ok (lobby_stop lw lb) \<and> (lb_running lb \<longrightarrow> lb_last_base (lobby_stop lw lb) = [])"
proof (cases "lb_running lb")
  case True
  assume ok: "pulses_ok lb"
  let ?lb1 = "drone False lw (lb\<lparr>lb_running := False\<rparr>)"
  let ?lb2 = "case lb_room_program lb of None \<Rightarrow> ?lb1 | Some p \<Rightarrow> emits (map (\<lambda>n. Feed_Audio n 192 p 0) (lw_fixtures lw)) ?lb1"
  let ?lb3 = "emits (map (\<lambda>n. Audio_Control n BREATH_CC FULL_EXPRESSION) (lw_fixtures lw)) ?lb2"
  let ?lb4 = "?lb3\<lparr>lb_invites := invite_clear (lb_invites ?lb3), lb_queue := tq_purge device_flash (lb_queue ?lb3)\<rparr>"
  have "pulse_part ?lb2 = pulse_part ?lb1" by (cases "lb_room_program lb") (auto simp: list_all_iff intro!: part_emits)
  moreover have "pulse_part ?lb3 = pulse_part ?lb2" by (rule part_emits) (simp add: list_all_iff)
  ultimately have "pulse_part ?lb3 = pulse_part (lb\<lparr>lb_running := False\<rparr>)" by (simp only: part_drone)
  then have p4: "pulse_part ?lb4 = pulse_part (lb\<lparr>lb_running := False\<rparr>)" by (simp add: pulse_part_def)
  then have f: "lb_status ?lb4 = lb_status lb" "lb_last_base ?lb4 = lb_last_base lb" "lit_base (lb_out ?lb4) = lit_base (lb_out lb)"
    "\<not> lb_running ?lb4" by (simp_all add: pulse_part_def)
  have r: "pulses_ok (?lb4\<lparr>lb_running := True\<rparr>)" using ok f True by (simp add: pulses_ok_def)
  let ?e = "fold clear_status (dkeys (lb_status ?lb4)) ?lb4"
  note c = clear_all_ok [OF r, of "dkeys (lb_status ?lb4)", unfolded clear_all_running]
  have "\<not> dmem d (lb_last_base ?e)" for d
    using c ok f by (auto simp: pulses_ok_def dmem_def)
  then have e: "lb_last_base ?e = []" by (cases "lb_last_base ?e") (auto simp: dmem_def)
  then have "pulses_ok ?e" using c by (auto simp: pulses_ok_def)
  moreover have s: "lobby_stop lw lb = ?e\<lparr>lb_last_light := [], lb_last_audio := []\<rparr>"
    using True by (simp only: lobby_stop_def Let_def if_True simp_thms if_False)
  ultimately show ?thesis using e unfolding s by (simp add: pulses_ok_slots)
next
  case False
  assume "pulses_ok lb"
  with False show ?thesis by (simp add: lobby_stop_def)
qed

lemma tick_ok: "pulses_ok lb \<Longrightarrow> pulses_ok (lobby_tick lw lb)"
proof -
  assume ok: "pulses_ok lb"
  obtain due q where d: "tq_due (lw_now lw) (lb_queue lb) = (due, q)" by fastforce
  let ?lb1 = "emits (map run_thunk due) (lb\<lparr>lb_queue := q\<rparr>)"
  have "pulse_part ?lb1 = pulse_part (lb\<lparr>lb_queue := q\<rparr>)"
    by (rule part_emits) (simp add: list_all_iff not_base_thunk)
  also have "\<dots> = pulse_part lb" by (simp add: pulse_part_def)
  finally have p: "pulse_part ?lb1 = pulse_part lb" .
  then have ok1: "pulses_ok ?lb1" using ok by (simp only: pulses_ok_part [OF p])
  show ?thesis
  proof (cases "lb_running lb")
    case True
    have r: "lb_running ?lb1" using True by (simp add: emits_def)
    have st: "lb_status ?lb1 = lb_status lb" by (simp add: emits_def)
    have "pulses_ok (fold (\<lambda>(d, c, start). base_pulse d c (lw_pulse lw (lw_now lw - start))) (lb_status ?lb1) ?lb1)"
      using base_pulses_ok [OF ok1 subset_refl r, of "\<lambda>start. lw_pulse lw (lw_now lw - start)"] .
    moreover have "lobby_tick lw lb = fold (tick_fixture (breath_cc (lw_now lw - lb_origin lb))
        (hue_drift_cc (lw_now lw - lb_origin lb) HUE_DRIFT_PERIOD_S)) (lw_fixtures lw)
        (fold (\<lambda>(d, c, start). base_pulse d c (lw_pulse lw (lw_now lw - start))) (lb_status ?lb1) ?lb1)"
      using True by (simp add: lobby_tick_def d Let_def emits_def)
    ultimately show ?thesis by (simp only: pulses_ok_fold)
  next
    case False
    then show ?thesis using d ok1 by (simp add: lobby_tick_def Let_def)
  qed
qed

lemma lobby_step_ok: "pulses_ok lb \<Longrightarrow> pulses_ok (lobby_step lb c)"
proof -
  assume ok: "pulses_ok lb"
  obtain k lw where c: "c = (k, lw)" by fastforce
  show ?thesis
  proof (cases k)
    case L_Start
    have "pulses_ok (lb\<lparr>lb_running := True, lb_origin := lw_now lw\<rparr>)" using ok by (simp add: pulses_ok_def)
    then show ?thesis
      by (simp add: c L_Start lobby_start_def pulses_ok_same pulses_ok_emits list_all_iff)
  next
    case L_Stop
    then show ?thesis using stop_ok [OF ok] by (simp add: c)
  next
    case (L_Set_State st)
    then show ?thesis
      using ok clear_all_ok by (simp add: c set_lobby_state_def Let_def pulses_ok_same pulses_ok_fold pulses_ok_slots)
  next
    case L_Tick
    then show ?thesis using tick_ok [OF ok] by (simp add: c)
  next
    case (L_Join d)
    then show ?thesis
      using ok by (simp add: c on_scored_join_def Let_def pulses_ok_same flash_train_ok hold_ok pulses_ok_slots split: prod.split)
  next
    case (L_Feedback fb)
    then show ?thesis
      using ok by (simp add: c lobby_feedback_def pulses_ok_same split: prod.split)
  next
    case (L_Invite d)
    have "pulses_ok (emits [Announce ''invite'' d] lb)" using ok by (simp add: pulses_ok_emits)
    then show ?thesis
      using ok by (auto simp: c L_Invite consider_invite_def Let_def flash_train_ok hold_ok pulses_ok_slots split: prod.split bool.split)
  next
    case (L_Deny d)
    then show ?thesis
      using ok
      by (auto simp: c on_deny_def Let_def flash_train_ok purge_invite_flashes_def pulses_ok_slots pulses_ok_def dmem_iff_get
          flash_train_def put_at_def split: option.split)
  next
    case (L_Forget d)
    then show ?thesis
      using ok by (simp add: c lobby_forget_def clear_status_ok purge_invite_flashes_def pulses_ok_slots)
  qed
qed

interpretation lobby: machine lobby_step pulses_ok
  by unfold_locales (rule lobby_step_ok)

text \<open>
  No pulse outlives the lobby. After any run of calls that leaves the lobby stopped, the last thing every device
  was told about its base colour is that it has none.
\<close>
theorem no_pulse_outlives_the_lobby:
  assumes "lb = foldl lobby_step (new_lobby interval gap program now) calls" and "\<not> lb_running lb"
  shows "\<not> lit_base (lb_out lb) d"
proof -
  have "pulses_ok (new_lobby interval gap program now)" by (simp add: pulses_ok_def new_lobby_def dmem_def)
  from lobby.inv_run [OF this, of calls] assms show ?thesis by (auto simp: pulses_ok_def dmem_def)
qed

lemma stop_stops: "\<not> lb_running (lobby_stop lw lb)"
proof -
  have c: "lb_running (fold clear_status ds lb) = lb_running lb" for ds lb
    by (induction ds arbitrary: lb) (simp_all add: clear_status_def Let_def emits_def)
  show ?thesis by (simp add: lobby_stop_def Let_def c emits_def drone_def split: option.split)
qed

definition demo_lobby_world :: "rat \<Rightarrow> lobby_world" where
  "demo_lobby_world t = \<lparr>lw_fixtures = [], lw_bound = (\<lambda>_. None), lw_now = t, lw_pulse = (\<lambda>_. 0)\<rparr>"

definition demo_lobby_calls :: "(lobby_call \<times> lobby_world) list" where
  "demo_lobby_calls = [(L_Start, demo_lobby_world 0), (L_Invite ''cap'', demo_lobby_world 1), (L_Tick, demo_lobby_world 4),
     (L_Stop, demo_lobby_world 5)]"

lemma no_pulse_outlives_the_lobby_witness:
  "\<not> lit_base (lb_out (foldl lobby_step (new_lobby 5 1 None 0) demo_lobby_calls)) ''cap''"
  by (rule no_pulse_outlives_the_lobby [OF refl])
    (simp add: demo_lobby_calls_def stop_stops)

abbreviation shown :: "lobby_rt \<Rightarrow> lobby_effect list" where
  "shown lb \<equiv> filter (\<lambda>e. case e of Set_Override _ _ _ _ \<Rightarrow> True | _ \<Rightarrow> False) (lb_out lb)"

lemmas lobby_ops =
  consider_invite_def on_deny_def lobby_tick_def flash_train_def hold_dark_def put_at_def purge_invite_flashes_def
  base_pulse_def emits_def Let_def demo_lobby_world_def invite_due_def invited_def DEVICE_FLASH_TRAIN_S_def
  DEVICE_FLASH_ON_S_def DEVICE_FLASH_GAP_S_def

lemmas queue_ops =
  tq_push_def tq_due_def tq_purge_def release_time_def is_due_def is_later_def item_order_def new_tqueue_def

lemma deny_fields:
  "lb_running (on_deny d lw lb) = lb_running lb" "lb_state (on_deny d lw lb) = lb_state lb"
  "lb_invites (on_deny d lw lb) = lb_invites lb" "lb_out (on_deny d lw lb) = lb_out lb"
  "lb_queue (on_deny d lw lb)
   = tq_push (Some (Fin (lw_now lw + 2 / 5))) (Deny_Flash d) (lw_now lw)
       (tq_push (Some (Fin (lw_now lw))) (Deny_Flash d) (lw_now lw) (tq_purge (invite_flash_of d) (lb_queue lb)))"
  by (simp_all add: on_deny_def Let_def flash_train_def put_at_def purge_invite_flashes_def DEVICE_FLASH_ON_S_def
      DEVICE_FLASH_GAP_S_def split: option.split)

lemma invite_fields:
  assumes "lb_running lb" and "lb_state lb = WAITING" and "invite_due d (lw_now lw) (lb_invites lb) = (True, iv)"
    and "invited d (lb_invites lb)"
  shows "lb_running (consider_invite d lw lb)" and "lb_out (consider_invite d lw lb) = lb_out lb"
    and "lb_queue (consider_invite d lw lb)
      = tq_push (Some (Fin (lw_now lw + 2 / 5))) (Invite_Flash d) (lw_now lw)
          (tq_push (Some (Fin (lw_now lw))) (Invite_Flash d) (lw_now lw) (lb_queue lb))"
  using assms
  by (simp_all add: consider_invite_def Let_def flash_train_def put_at_def hold_dark_def DEVICE_FLASH_ON_S_def DEVICE_FLASH_GAP_S_def)

lemma invite_deny_invite:
  assumes "lb_running lb" and "lb_state lb = WAITING" and "tq_items (lb_queue lb) = []"
    and "iv_last (lb_invites lb) = [(d, 0)]" and "iv_interval (lb_invites lb) = 5"
  defines "lb' \<equiv> lobby_step (lobby_step lb (L_Deny d, demo_lobby_world (24 / 5))) (L_Invite d, demo_lobby_world 5)"
  shows "map (\<lambda>i. (fst i, snd (snd i))) (tq_items (lb_queue lb'))
       = [(Fin (24 / 5), Deny_Flash d), (Fin (26 / 5), Deny_Flash d), (Fin 5, Invite_Flash d), (Fin (27 / 5), Invite_Flash d)]"
    and "lb_out lb' = lb_out lb" and "lb_running lb'"
proof -
  obtain lb1 where lb1: "lb1 = on_deny d (demo_lobby_world (24 / 5)) lb" by simp
  have "invite_due d (lw_now (demo_lobby_world 5)) (lb_invites lb1)
      = (True, (lb_invites lb)\<lparr>iv_last := dset d 5 (iv_last (lb_invites lb))\<rparr>)"
    "invited d (lb_invites lb1)" "lb_running lb1" "lb_state lb1 = WAITING"
    using assms by (simp_all add: lb1 deny_fields invite_due_def invited_def dmem_iff_get demo_lobby_world_def)
  note inv = invite_fields [OF this(3) this(4) this(1) this(2)]
  have q1: "map (\<lambda>i. (fst i, snd (snd i))) (tq_items (lb_queue lb1))
      = [(Fin (24 / 5), Deny_Flash d), (Fin (26 / 5), Deny_Flash d)]"
    using assms(3) by (simp add: lb1 deny_fields tq_push_def tq_purge_def release_time_def demo_lobby_world_def)
  show "map (\<lambda>i. (fst i, snd (snd i))) (tq_items (lb_queue lb'))
       = [(Fin (24 / 5), Deny_Flash d), (Fin (26 / 5), Deny_Flash d), (Fin 5, Invite_Flash d), (Fin (27 / 5), Invite_Flash d)]"
    using q1 by (simp only: lb'_def lobby_step.simps lb1 [symmetric] inv(3))
      (simp add: tq_push_def release_time_def demo_lobby_world_def)
  show "lb_out lb' = lb_out lb" "lb_running lb'" using inv by (simp_all only: lb'_def lobby_step.simps lb1 deny_fields)
qed

lemma base_pulse_shows:
  "shown (base_pulse d c l lb) = shown lb" "lb_queue (base_pulse d c l lb) = lb_queue lb"
  "lb_running (base_pulse d c l lb) = lb_running lb"
  by (simp_all add: base_pulse_def Let_def emits_def)

lemma shown_base_pulses:
  "shown (fold (\<lambda>(d, c, w). base_pulse d c (f w)) st lb) = shown lb
   \<and> lb_queue (fold (\<lambda>(d, c, w). base_pulse d c (f w)) st lb) = lb_queue lb
   \<and> lb_running (fold (\<lambda>(d, c, w). base_pulse d c (f w)) st lb) = lb_running lb"
proof (induction st arbitrary: lb)
  case (Cons x st)
  obtain d c w where x: "x = (d, c, w)" by (cases x) auto
  from Cons.IH [of "base_pulse d c (f w) lb"] show ?case by (simp only: x fold_Cons comp_apply prod.case base_pulse_shows)
qed simp

lemma tick_shows:
  assumes "lb_running lb" and "tq_due t (lb_queue lb) = (due, q)"
  shows "shown (lobby_step lb (L_Tick, demo_lobby_world t))
      = shown lb @ filter (\<lambda>e. case e of Set_Override _ _ _ _ \<Rightarrow> True | _ \<Rightarrow> False) (map run_thunk due)"
    and "lb_queue (lobby_step lb (L_Tick, demo_lobby_world t)) = q"
    and "lb_running (lobby_step lb (L_Tick, demo_lobby_world t))"
  using assms by (simp_all add: lobby_tick_def demo_lobby_world_def Let_def shown_base_pulses emits_def)

text \<open>
  White and red do interleave. A device is invited, denied just before its invitation is due again and invited
  again: the red train is still running and what the device shows is white, white, red, white, red, white.
\<close>
theorem white_and_red_interleave:
  "filter (\<lambda>e. case e of Set_Override _ _ _ _ \<Rightarrow> True | _ \<Rightarrow> False)
     (lb_out (foldl lobby_step (new_lobby 5 1 None 0)
       [(L_Start, demo_lobby_world 0), (L_Invite ''cap'', demo_lobby_world 0), (L_Tick, demo_lobby_world 1),
        (L_Deny ''cap'', demo_lobby_world (24 / 5)), (L_Invite ''cap'', demo_lobby_world 5),
        (L_Tick, demo_lobby_world 5), (L_Tick, demo_lobby_world (26 / 5)), (L_Tick, demo_lobby_world (27 / 5))]))
   = map (\<lambda>c. Set_Override ''cap'' c 1 DEVICE_FLASH_ON_S) [WHITE, WHITE, RED, WHITE, RED, WHITE]"
proof -
  obtain a where a_def: "a = foldl lobby_step (new_lobby 5 1 None 0)
    [(L_Start, demo_lobby_world 0), (L_Invite ''cap'', demo_lobby_world 0), (L_Tick, demo_lobby_world 1)]" by simp
  have a: "lb_running a" "lb_state a = WAITING" "tq_items (lb_queue a) = []" "iv_last (lb_invites a) = [(''cap'', 0)]"
    "iv_interval (lb_invites a) = 5" "shown a = map (\<lambda>c. Set_Override ''cap'' c 1 (1 / 5)) [WHITE, WHITE]"
    unfolding a_def
    by (simp_all add: lobby_ops queue_ops dmem_iff_get lobby_start_def drone_def new_lobby_def new_invites_def)
  obtain b where b_def:
    "b = lobby_step (lobby_step a (L_Deny ''cap'', demo_lobby_world (24 / 5))) (L_Invite ''cap'', demo_lobby_world 5)" by simp
  note b = invite_deny_invite [OF a(1-5), folded b_def]
  obtain n1 n2 n3 n4 where q: "tq_items (lb_queue b) =
      [(Fin (24 / 5), n1, Deny_Flash ''cap''), (Fin (26 / 5), n2, Deny_Flash ''cap''), (Fin 5, n3, Invite_Flash ''cap''),
       (Fin (27 / 5), n4, Invite_Flash ''cap'')]" using b(1) by (auto simp: map_eq_Cons_conv)
  obtain q1 where q1: "tq_due 5 (lb_queue b) = ([Deny_Flash ''cap'', Invite_Flash ''cap''], q1)"
    "tq_items q1 = [(Fin (26 / 5), n2, Deny_Flash ''cap''), (Fin (27 / 5), n4, Invite_Flash ''cap'')]"
    by (simp add: tq_due_def q is_due_def is_later_def item_order_def)
  obtain q2 where q2: "tq_due (26 / 5) q1 = ([Deny_Flash ''cap''], q2)"
    "tq_items q2 = [(Fin (27 / 5), n4, Invite_Flash ''cap'')]" by (simp add: tq_due_def q1 is_due_def is_later_def item_order_def)
  obtain q3 where q3: "tq_due (27 / 5) q2 = ([Invite_Flash ''cap''], q3)"
    by (simp add: tq_due_def q2 is_due_def is_later_def item_order_def)
  note t1 = tick_shows [OF b(3) q1(1)]
  note t2 = tick_shows [OF t1(3), unfolded t1(2), OF q2(1)]
  note t3 = tick_shows [OF t2(3), unfolded t2(2), OF q3]
  show ?thesis
    using t3(1) t2(1) t1(1) b(2) a(6) by (simp only: a_def b_def foldl_Cons foldl_Nil) (simp add: DEVICE_FLASH_ON_S_def)
qed

end
