(* ===== verification/Room_Facts.thy ===== *)
theory Room_Facts
  imports Rooms
begin

section \<open>What an accepted Room and its registry guarantee\<close>

text \<open>
  Blocks tile a fixture, zones never overlap, the slices of a rendered frame partition its channels;
  the arming window names one fixture at a time, and a saved registry loads back.
\<close>

subsection \<open>Spans\<close>

definition covers :: "int \<Rightarrow> int \<times> int \<Rightarrow> bool" where
  "covers x s \<longleftrightarrow> fst s \<le> x \<and> x < snd s"

definition cover_count :: "int \<Rightarrow> (int \<times> int) list \<Rightarrow> nat" where
  "cover_count x ss = length (filter (covers x) ss)"

lemma cover_count_simps [simp]:
  "cover_count x [] = 0"
  "cover_count x (s # ss) = (if covers x s then 1 else 0) + cover_count x ss"
  by (simp_all add: cover_count_def)

lemma cover_count_mset: "mset ss = mset ts \<Longrightarrow> cover_count x ss = cover_count x ts"
  unfolding cover_count_def by (metis mset_filter size_mset)

lemma tiling_covers_once:
  assumes "\<not> spans_gap e ss" and "\<forall>(a, b) \<in> set ss. a < b"
  shows "cover_count x ss = (if e \<le> x \<and> x < e + sum_list (map (\<lambda>(a, b). b - a) ss) then 1 else 0)
    \<and> 0 \<le> sum_list (map (\<lambda>(a, b). b - a) ss)"
  using assms
proof (induction e ss rule: spans_gap.induct)
  case (2 e a b rest)
  then have "a = e" "a < b" by auto
  with 2 show ?case by (auto simp: covers_def)
qed simp

lemma no_overlap_at_most_once:
  assumes "\<not> spans_overlap ss" and "sorted ss"
  shows "cover_count x ss \<le> 1 \<and> (\<forall>a b rest. ss = (a, b) # rest \<longrightarrow> x < a \<longrightarrow> cover_count x ss = 0)"
  using assms
proof (induction ss rule: spans_overlap.induct)
  case (1 a b c d rest)
  then have "b \<le> c" "a \<le> c" by (auto simp: less_eq_prod_def)
  with 1 show ?case by (auto simp: covers_def)
qed (auto simp: covers_def)

lemma filter_span_count:
  "length (filter (\<lambda>y. f y \<le> x \<and> x < g y) ys) = cover_count x (map (\<lambda>y. (f y, g y)) ys)"
  by (simp add: cover_count_def covers_def filter_map comp_def)

subsection \<open>Blocks and zones\<close>

lemma sum_list_mset_eq: "mset xs = mset ys \<Longrightarrow> sum_list (xs :: int list) = sum_list ys"
  by (metis sum_mset_sum_list)

text \<open>
  Blocks tile the fixture. In an accepted fixture every pixel from 0 to its pixel count lies in
  exactly one block, and no block reaches outside.
\<close>
theorem accepted_blocks_tile:
  assumes "validate_blocks f = None"
  shows "length (filter (\<lambda>b. b_start b \<le> px \<and> px < b_start b + b_count b) (x_blocks f))
     = (if 0 \<le> px \<and> px < fixture_pixels f then 1 else 0)"
proof -
  have gap: "\<not> spans_gap 0 (block_spans (x_blocks f))"
    and pos: "\<forall>b \<in> set (x_blocks f). 0 < b_count b"
    using assms by (auto simp: validate_blocks_def validate_block_def)
  have ms: "mset (block_spans (x_blocks f)) = mset (map (\<lambda>b. (b_start b, b_start b + b_count b)) (x_blocks f))"
    by (simp add: block_spans_def)
  have "sum_list (map (\<lambda>(a, b). b - a) (block_spans (x_blocks f)))
      = sum_list (map (\<lambda>(a, b). b - a) (map (\<lambda>b. (b_start b, b_start b + b_count b)) (x_blocks f)))"
    by (rule sum_list_mset_eq) (simp only: mset_map ms)
  then have total: "sum_list (map (\<lambda>(a, b). b - a) (block_spans (x_blocks f))) = fixture_pixels f"
    by (simp add: fixture_pixels_def comp_def)
  have "\<forall>(a, b) \<in> set (block_spans (x_blocks f)). a < b"
    using pos by (auto simp: block_spans_def)
  from tiling_covers_once [OF gap this, of px] total show ?thesis
    using cover_count_mset [OF ms, of px] by (simp add: filter_span_count)
qed

definition strip_fixture :: room_fixture where
  "strip_fixture =
     \<lparr>x_name = ''strip'', x_blocks = [\<lparr>b_name = ''b'', b_start = 10, b_count = 8\<rparr>, \<lparr>b_name = ''a'', b_start = 0, b_count = 10\<rparr>],
      x_zones = [\<lparr>z_name = ''left'', z_start = 0, z_count = 9\<rparr>, \<lparr>z_name = ''right'', z_start = 9, z_count = 9\<rparr>],
      x_instrument = DEFAULTSHROOM\<rparr>"

lemma accepted_blocks_tile_witness:
  "length (filter (\<lambda>b. b_start b \<le> 12 \<and> 12 < b_start b + b_count b) (x_blocks strip_fixture)) = 1"
proof -
  have "validate_blocks strip_fixture = None" "fixture_pixels strip_fixture = 18" by code_simp+
  with accepted_blocks_tile [of strip_fixture 12] show ?thesis by simp
qed

text \<open>
  Zones never overlap and stay on the fixture: in an accepted fixture a pixel lies in at most one
  zone, and in none when it is off the fixture.
\<close>
theorem accepted_zones_disjoint:
  assumes "validate_fixture_zones f = None"
  shows "length (filter (zone_covers px) (x_zones f)) \<le> (if 0 \<le> px \<and> px < fixture_pixels f then 1 else 0)"
proof -
  have ov: "\<not> spans_overlap (zone_spans (x_zones f))"
    and rng: "\<forall>(a, b) \<in> set (zone_spans (x_zones f)). 0 \<le> a \<and> b \<le> fixture_pixels f"
    using assms by (auto simp: validate_fixture_zones_def not_less)
  have ms: "mset (zone_spans (x_zones f)) = mset (map (\<lambda>z. (z_start z, z_start z + z_count z)) (x_zones f))"
    by (simp add: zone_spans_def)
  have cnt: "length (filter (zone_covers px) (x_zones f)) = cover_count px (zone_spans (x_zones f))"
    using cover_count_mset [OF ms, of px] filter_span_count [of z_start px "\<lambda>z. z_start z + z_count z" "x_zones f"]
    by (simp add: zone_covers_def [abs_def])
  have "cover_count px (zone_spans (x_zones f)) \<le> 1"
    using no_overlap_at_most_once [OF ov, of px] by (simp add: zone_spans_def)
  moreover have "cover_count px (zone_spans (x_zones f)) = 0" if "\<not> (0 \<le> px \<and> px < fixture_pixels f)"
    using rng that by (auto simp: cover_count_def covers_def filter_empty_conv)
  ultimately show ?thesis using cnt by auto
qed

lemma accepted_zones_disjoint_witness:
  "length (filter (zone_covers 9) (x_zones strip_fixture)) \<le> 1
   \<and> length (filter (zone_covers 18) (x_zones strip_fixture)) = 0"
proof -
  have ok: "validate_fixture_zones strip_fixture = None" and px: "fixture_pixels strip_fixture = 18"
    by code_simp+
  from accepted_zones_disjoint [OF ok, of 9] accepted_zones_disjoint [OF ok, of 18] px
  show ?thesis by simp
qed

subsection \<open>Slices of a frame\<close>

lemma fixture_pixels_pos: "validate_blocks f = None \<Longrightarrow> 0 < fixture_pixels f"
proof -
  assume v: "validate_blocks f = None"
  then obtain b bs where b: "x_blocks f = b # bs" by (cases "x_blocks f") (auto simp: validate_blocks_def)
  have "\<forall>b \<in> set (x_blocks f). 0 < b_count b" using v by (auto simp: validate_blocks_def validate_block_def)
  then have "0 < b_count b" and "0 \<le> sum_list (map b_count bs)" using b by (auto intro!: sum_list_nonneg simp: less_imp_le)
  then show ?thesis by (simp add: fixture_pixels_def b)
qed

lemma slices_from_names: "map fst (slices_from e fs) = map x_name fs"
  by (induction e fs rule: slices_from.induct) (simp_all add: Let_def)

lemma slices_from_cover:
  assumes "\<forall>f \<in> set fs. 0 < fixture_pixels f"
  shows "length (filter (\<lambda>(_, start, width). start \<le> ch \<and> ch < start + width) (slices_from e fs))
     = (if e \<le> ch \<and> ch < e + sum_list (map (\<lambda>f. fixture_pixels f * CHANNELS_PER_PIXEL) fs) then 1 else 0)
   \<and> 0 \<le> sum_list (map (\<lambda>f. fixture_pixels f * CHANNELS_PER_PIXEL) fs)"
  using assms
proof (induction e fs rule: slices_from.induct)
  case (2 e f fs)
  then have "0 < fixture_pixels f * CHANNELS_PER_PIXEL" by (simp add: CHANNELS_PER_PIXEL_def)
  with 2 show ?case by (auto simp: Let_def)
qed simp

text \<open>
  C34: The slices partition the frame. For an accepted profile \<open>fixture_slices\<close> names every fixture once,
  in declaration order, and every channel of the rendered frame belongs to exactly one slice, channels
  outside it to none: no fixture is sent another's light and no channel is lost.
\<close>
theorem slices_partition_the_frame:
  assumes "validate_profile p = None"
  shows "map fst (fixture_slices p) = map x_name (p_fixtures p) \<and> distinct (map fst (fixture_slices p))
    \<and> length (filter (\<lambda>(_, start, width). start \<le> ch \<and> ch < start + width) (fixture_slices p))
      = (if 0 \<le> ch \<and> ch < channel_count p then 1 else 0)"
proof -
  have "\<forall>f \<in> set (p_fixtures p). 0 < fixture_pixels f"
    using assms by (auto simp: validate_profile_def intro: fixture_pixels_pos)
  from slices_from_cover [OF this, of ch 0] assms show ?thesis
    by (simp add: fixture_slices_def slices_from_names channel_count_def validate_profile_def)
qed

definition demo_profile :: room_profile where
  "demo_profile = \<lparr>p_surface_id = ''demo'', p_fixtures = [strip_fixture, strip_fixture\<lparr>x_name := ''arch''\<rparr>]\<rparr>"

lemma slices_partition_the_frame_witness:
  "fixture_slices demo_profile = [(''strip'', 0, 72), (''arch'', 72, 72)]
   \<and> length (filter (\<lambda>(_, start, width). start \<le> 72 \<and> 72 < start + width) (fixture_slices demo_profile)) = 1"
proof -
  have "validate_profile demo_profile = None" "channel_count demo_profile = 144"
    "fixture_slices demo_profile = [(''strip'', 0, 72), (''arch'', 72, 72)]" by code_simp+
  with slices_partition_the_frame [of demo_profile 72] show ?thesis by simp
qed

subsection \<open>The binding registry\<close>

datatype binding_call =
    CallBind string string dev
  | CallReleaseFixture string "string option"
  | CallArm string string rat rat
  | CallDisarm string
  | CallLoad "(string, saved_room) dict option"

fun binding_step :: "binding_registry \<Rightarrow> binding_call \<Rightarrow> binding_registry" where
  "binding_step reg (CallBind r f d) = bind_fixture r f d reg"
| "binding_step reg (CallReleaseFixture r f) = release_fixture r f reg"
| "binding_step reg (CallArm r f window now) = arm r f window now reg"
| "binding_step reg (CallDisarm r) = disarm r reg"
| "binding_step reg (CallLoad file) = load_bindings file reg"

text \<open>A window is open for a fixture, or not at all.\<close>

definition binding_inv :: "binding_registry \<Rightarrow> bool" where
  "binding_inv reg \<longleftrightarrow> (\<forall>r. dmem r (br_armed_fixture reg) \<longleftrightarrow> dmem r (br_armed_until reg))"

lemma disarm_inv: "binding_inv reg \<Longrightarrow> binding_inv (disarm r reg)"
  by (simp add: binding_inv_def disarm_def)

lemma disarm_if_inv: "binding_inv reg \<Longrightarrow> binding_inv (disarm_if r f reg)"
  by (simp add: disarm_if_def disarm_inv)

lemma bound_update_inv [simp]: "binding_inv (reg\<lparr>br_bound := b\<rparr>) = binding_inv reg"
  by (simp add: binding_inv_def)

lemma release_fixture_inv: "binding_inv reg \<Longrightarrow> binding_inv (release_fixture r f reg)"
  unfolding release_fixture_def
  by (cases f; cases "dget (br_bound reg) r") (simp_all add: disarm_inv disarm_if_inv)

lemma load_bindings_inv: "binding_inv reg \<Longrightarrow> binding_inv (load_bindings file reg)"
  by (simp add: load_bindings_def split: option.split)

lemma arm_inv: "binding_inv reg \<Longrightarrow> binding_inv (arm r f window now reg)"
  by (simp add: arm_def binding_inv_def)

interpretation bindings: machine binding_step binding_inv
proof
  fix reg c assume inv: "binding_inv reg"
  then show "binding_inv (binding_step reg c)"
    by (cases c) (simp_all only: binding_step.simps bind_fixture_def disarm_if_inv bound_update_inv
        release_fixture_inv arm_inv disarm_inv load_bindings_inv)
qed

text \<open>
  The arming window. After any history of the registry, arming a fixture names it, and only it, until
  the window has passed, whatever was armed before; binding it closes the window at once and records the
  device; and whenever a window is open some fixture is named by it.
\<close>
theorem arming_window:
  assumes "reg = foldl binding_step new_binding_registry calls"
  shows "armed_fixture r t' (arm r f window t reg) = (if t' < t + window then Some f else None)
    \<and> armed_fixture r t' (bind_fixture r f d (arm r f window t reg)) = None
    \<and> bound_device r f (bind_fixture r f d reg) = Some d
    \<and> (is_armed r t' reg \<longleftrightarrow> armed_fixture r t' reg \<noteq> None)"
proof -
  have "binding_inv reg"
    unfolding assms by (rule bindings.inv_run) (simp add: binding_inv_def new_binding_registry_def dmem_def)
  then have "is_armed r t' reg \<Longrightarrow> dmem r (br_armed_fixture reg)"
    by (auto simp: binding_inv_def is_armed_def dest: dmem_get_Some split: option.splits)
  then have open_iff: "is_armed r t' reg \<longleftrightarrow> armed_fixture r t' reg \<noteq> None"
    by (auto simp: armed_fixture_def dmem_iff_get)
  have "armed_fixture r t' (arm r f window t reg) = (if t' < t + window then Some f else None)"
    by (simp add: arm_def armed_fixture_def is_armed_def)
  moreover have "armed_fixture r t' (bind_fixture r f d (arm r f window t reg)) = None"
    by (simp add: arm_def armed_fixture_def is_armed_def bind_fixture_def disarm_if_def disarm_def)
  moreover have "bound_device r f (bind_fixture r f d reg) = Some d"
    by (simp add: bound_device_def bind_fixture_def disarm_if_def disarm_def)
  ultimately show ?thesis using open_iff by (simp only:)
qed

lemma arming_window_witness:
  "armed_fixture ''DEMO'' 104 (arm ''DEMO'' ''arch'' 10 100
     (foldl binding_step new_binding_registry [CallArm ''DEMO'' ''strip'' 99 0, CallBind ''DEMO'' ''x'' ''ie1''])) = Some ''arch''"
  using arming_window [OF refl, of "''DEMO''" 104 "''arch''" 10 100
      "[CallArm ''DEMO'' ''strip'' 99 0, CallBind ''DEMO'' ''x'' ''ie1'']" "''ie9''"]
  by simp

lemma load_saved_rooms:
  "load_rooms (map (\<lambda>(r, fixtures). (r, FixtureMap fixtures)) bound) = Some bound"
  by (induction bound) auto

text \<open>
  Saved bindings load back. Loading what \<open>save\<close> wrote restores exactly the bound devices, and leaves
  the arming state of the loading process alone; a missing file or one in the old flat format changes
  nothing.
\<close>
theorem saved_bindings_load_back:
  "load_bindings (Some (save_bindings reg)) fresh = fresh\<lparr>br_bound := br_bound reg\<rparr>
   \<and> bound_device r f (load_bindings (Some (save_bindings reg)) fresh) = bound_device r f reg
   \<and> armed_fixture r now (load_bindings (Some (save_bindings reg)) fresh) = armed_fixture r now fresh
   \<and> load_bindings None fresh = fresh \<and> load_bindings (Some (a @ (name, OldFormat) # b)) fresh = fresh"
proof -
  have "load_rooms (a @ (name, OldFormat) # b) = None"
    by (induction a rule: load_rooms.induct) auto
  then show ?thesis
    by (simp add: load_bindings_def save_bindings_def load_saved_rooms bound_device_def armed_fixture_def is_armed_def)
qed

end
