(* ===== verification/Device_Pool.thy ===== *)
theory Device_Pool
  imports Instruments
begin

section \<open>The pool of known devices\<close>

text \<open>
  \<open>src/control/device_pool.py\<close>. The interface the engine's liveness check needs (touching, removing and
  listing the silent) is the locale \<open>liveness_directory\<close>; the pool is its instance. Times are readings
  of one clock, as exact rationals.
\<close>

record device_info =
  di_dev :: dev
  di_name :: string
  di_protoversion :: string
  di_last_seen :: rat
  di_carried :: instrument

type_synonym pool = "(dev, device_info) dict"

definition pool_get :: "dev \<Rightarrow> pool \<Rightarrow> device_info option" where
  "pool_get d p = dget p d"

definition pool_known :: "dev \<Rightarrow> pool \<Rightarrow> bool" where
  "pool_known d p \<longleftrightarrow> dmem d p"

definition pool_hello ::
  "dev \<Rightarrow> string \<Rightarrow> string \<Rightarrow> rat \<Rightarrow> instrument option \<Rightarrow> pool \<Rightarrow> device_info \<times> pool" where
  "pool_hello d name proto now carried p =
     (let carried' = (case carried of
                        Some c \<Rightarrow> Some c
                      | None \<Rightarrow> (case dget p d of Some info \<Rightarrow> Some (di_carried info) | None \<Rightarrow> None));
          info = \<lparr>di_dev = d, di_name = name, di_protoversion = proto, di_last_seen = now,
                   di_carried = (case carried' of Some c \<Rightarrow> c | None \<Rightarrow> DEFAULTSHROOM)\<rparr>
      in (info, dset d info p))"

definition pool_touch :: "dev \<Rightarrow> rat \<Rightarrow> pool \<Rightarrow> pool" where
  "pool_touch d now p =
     (case dget p d of None \<Rightarrow> p | Some info \<Rightarrow> dset d (info\<lparr>di_last_seen := now\<rparr>) p)"

definition pool_all :: "pool \<Rightarrow> device_info list" where
  "pool_all p = map snd p"

definition pool_stale :: "rat \<Rightarrow> rat \<Rightarrow> pool \<Rightarrow> dev list" where
  "pool_stale now timeout p =
     map fst (filter (\<lambda>(d, info). timeout < now - di_last_seen info) p)"

definition pool_clear :: "pool \<Rightarrow> pool" where
  "pool_clear p = []"

definition pool_remove :: "dev \<Rightarrow> pool \<Rightarrow> pool" where
  "pool_remove d p = dpop d p"

definition pool_len :: "pool \<Rightarrow> nat" where
  "pool_len p = length p"

subsection \<open>The interface the liveness check uses\<close>

locale liveness_directory =
  fixes known :: "'d \<Rightarrow> 's \<Rightarrow> bool"
    and touch :: "'d \<Rightarrow> rat \<Rightarrow> 's \<Rightarrow> 's"
    and remove :: "'d \<Rightarrow> 's \<Rightarrow> 's"
    and stale :: "rat \<Rightarrow> rat \<Rightarrow> 's \<Rightarrow> 'd list"
    and ok :: "'s \<Rightarrow> bool"
  assumes ok_touch: "ok s \<Longrightarrow> ok (touch d t s)"
    and ok_remove: "ok s \<Longrightarrow> ok (remove d s)"
    and known_touch: "known d' (touch d t s) = known d' s"
    and known_remove: "known d' (remove d s) \<longleftrightarrow> d' \<noteq> d \<and> known d' s"
    and stale_known: "d \<in> set (stale now timeout s) \<Longrightarrow> known d s"
    and stale_touch_self: "ok s \<Longrightarrow> d \<in> set (stale now timeout (touch d t s)) \<longleftrightarrow> known d s \<and> timeout < now - t"
    and stale_touch_other: "ok s \<Longrightarrow> d' \<noteq> d \<Longrightarrow>
          d' \<in> set (stale now timeout (touch d t s)) \<longleftrightarrow> d' \<in> set (stale now timeout s)"
    and stale_remove: "ok s \<Longrightarrow>
          set (stale now timeout (remove d s)) = set (stale now timeout s) - {d}"
    and stale_mono: "now \<le> now' \<Longrightarrow> set (stale now timeout s) \<subseteq> set (stale now' timeout s)"
begin

definition sweep :: "rat \<Rightarrow> rat \<Rightarrow> 's \<Rightarrow> 's" where
  "sweep now timeout s = foldl (\<lambda>s d. remove d s) s (stale now timeout s)"

lemma ok_removes: "ok s \<Longrightarrow> ok (foldl (\<lambda>s d. remove d s) s ds)"
  by (induction ds arbitrary: s) (auto intro: ok_remove)

lemma known_removes: "known d (foldl (\<lambda>s d. remove d s) s ds) \<longleftrightarrow> d \<notin> set ds \<and> known d s"
  by (induction ds arbitrary: s) (auto simp: known_remove)

lemma stale_removes:
  "ok s \<Longrightarrow> set (stale now timeout (foldl (\<lambda>s d. remove d s) s ds)) = set (stale now timeout s) - set ds"
  by (induction ds arbitrary: s) (auto simp: stale_remove ok_remove)

lemma sweep_known: "known d (sweep now timeout s) \<longleftrightarrow> known d s \<and> d \<notin> set (stale now timeout s)"
  by (auto simp: sweep_def known_removes)

lemma sweep_leaves_none: "ok s \<Longrightarrow> stale now timeout (sweep now timeout s) = []"
  using stale_removes [of s now timeout "stale now timeout s"] by (simp add: sweep_def)

lemma fresh_survives:
  "ok s \<Longrightarrow> known d s \<Longrightarrow> now - t \<le> timeout \<Longrightarrow> known d (sweep now timeout (touch d t s))"
  by (simp add: sweep_known known_touch stale_touch_self not_less)

end

lemma stale_iff:
  "dict_ok p \<Longrightarrow> d \<in> set (pool_stale now timeout p) \<longleftrightarrow>
     (\<exists>info. dget p d = Some info \<and> timeout < now - di_last_seen info)"
  by (auto simp: pool_stale_def image_iff dest: map_of_SomeD intro: map_of_is_SomeI)

interpretation pool: liveness_directory pool_known pool_touch pool_remove pool_stale dict_ok
proof
  show "dict_ok s \<Longrightarrow> dict_ok (pool_touch d t s)" for s d t
    by (auto simp: pool_touch_def split: option.splits)
  show "dict_ok s \<Longrightarrow> dict_ok (pool_remove d s)" for s d
    by (simp add: pool_remove_def)
  show "pool_known d' (pool_touch d t s) = pool_known d' s" for d' d t s
    by (auto simp: pool_known_def pool_touch_def dest: dmem_get_Some split: option.splits)
  show "pool_known d' (pool_remove d s) \<longleftrightarrow> d' \<noteq> d \<and> pool_known d' s" for d' d s
    by (simp add: pool_known_def pool_remove_def)
  show "d \<in> set (pool_stale now timeout s) \<Longrightarrow> pool_known d s" for d now timeout s
    by (auto simp: pool_stale_def pool_known_def dmem_def)
  show "dict_ok s \<Longrightarrow> d \<in> set (pool_stale now timeout (pool_touch d t s)) \<longleftrightarrow>
      pool_known d s \<and> timeout < now - t" for d now timeout t s
    by (auto simp: pool_touch_def pool_known_def stale_iff dget_None_iff dest: dmem_get_Some
        split: option.splits)
  show "dict_ok s \<Longrightarrow> d' \<noteq> d \<Longrightarrow>
      d' \<in> set (pool_stale now timeout (pool_touch d t s)) \<longleftrightarrow> d' \<in> set (pool_stale now timeout s)"
    for d' d now timeout t s
    by (auto simp: pool_touch_def stale_iff split: option.splits)
  show "dict_ok s \<Longrightarrow> set (pool_stale now timeout (pool_remove d s)) = set (pool_stale now timeout s) - {d}"
    for d now timeout s
    by (auto simp: pool_remove_def stale_iff split: if_splits)
  show "now \<le> now' \<Longrightarrow> set (pool_stale now timeout s) \<subseteq> set (pool_stale now' timeout s)" for now now' timeout s
    by (auto simp: pool_stale_def)
qed

text \<open>
  A sweep removes exactly the silent. Removing every device \<open>stale\<close> lists leaves no stale device, and
  a device stays known exactly when its last traffic is no older than the timeout; one that was just
  heard from survives.
\<close>
theorem sweep_removes_exactly_the_silent:
  assumes "dict_ok p"
  shows "pool_stale now timeout (pool.sweep now timeout p) = []
    \<and> (pool_known d (pool.sweep now timeout p) \<longleftrightarrow>
         (\<exists>info. pool_get d p = Some info \<and> now - di_last_seen info \<le> timeout))"
proof -
  have "pool_known d (pool.sweep now timeout p) \<longleftrightarrow> pool_known d p \<and> d \<notin> set (pool_stale now timeout p)"
    by (rule pool.sweep_known)
  then show ?thesis
    using pool.sweep_leaves_none [OF assms]
    by (auto simp: pool_get_def pool_known_def stale_iff [OF assms] dmem_iff_get not_less)
qed

definition demo_pool :: pool where
  "demo_pool = snd (pool_hello ''b'' ''B'' ''5'' 90 None (snd (pool_hello ''a'' ''A'' ''5'' 10 None [])))"

lemma sweep_removes_exactly_the_silent_witness:
  "pool_stale 100 30 (pool.sweep 100 30 demo_pool) = [] \<and> pool_known ''b'' (pool.sweep 100 30 demo_pool)"
proof -
  have "dict_ok demo_pool" by (simp add: demo_pool_def pool_hello_def Let_def)
  from sweep_removes_exactly_the_silent [OF this, of 100 30 "''b''"] show ?thesis
    by (simp add: demo_pool_def pool_hello_def Let_def pool_get_def)
qed

text \<open>
  A heartbeat keeps the carried instrument. A hello that declares no instrument leaves a known
  device's instrument as it was and gives an unknown one the DefaultShroom; a declaration replaces it.
  The device is then known with that instant as its last sign of life, and no other entry changes.
\<close>
theorem hello_keeps_what_was_declared:
  "(case pool_hello d name proto now carried p of (info, p') \<Rightarrow>
      pool_get d p' = Some info \<and> di_last_seen info = now
      \<and> di_carried info = (case carried of Some c \<Rightarrow> c
           | None \<Rightarrow> (case pool_get d p of Some old \<Rightarrow> di_carried old | None \<Rightarrow> DEFAULTSHROOM))
      \<and> (\<forall>d'. d' = d \<or> pool_get d' p' = pool_get d' p))"
  by (auto simp: pool_hello_def pool_get_def Let_def split: option.splits)

end
