(* ===== verification/Engine_State.thy ===== *)
theory Engine_State
  imports Device_Pool Role_Config Generators Lobby Registration_Facts Instrument_Facts
begin

section \<open>The engine: state and resolution\<close>

text \<open>
  \<open>GameServer\<close> of \<open>src/control/engine.py\<close>. A Bit is code this repository does not fix: it is a hidden
  state \<open>'b\<close> with one function per hook (the record \<open>env\<close>), each returning its new hidden state and
  either a value or the exception it raised. The transport's sinks are an oracle that is asked, with the
  calls made so far, whether a call is absent, succeeds or raises; every call made to a sink, and every
  observer notification, is appended to the trace. Sinks and observers do not call back into the engine.
  Logging is left out, and with it \<open>_warned_no_room\<close>, which only limits a log line. A \<open>set\<close> that the
  source iterates over is a list; its order stands for Python's.
\<close>

datatype gs_state = IDLE | LOADING | LOADED | SETUP | RUNNING | COMPLETING | UNLOADING

datatype refusal =
    NoBitRunning | DeviceNotRegistered | UnknownVerb string | HandlerError | HandlerRefused string
  | UnknownAction string | ActionError | ActionRefused string
  | FunctionTableError | FunctionScriptError | NotScripted | NoDeviceGiven | NoSurfaceGiven
  | NoRoomForFixture string | NoSuchFixture string | KindNotAccepted string kind | Stranded "dev list"

datatype fired_by = ByGestureVerb | ByBitAdjudicated | ByAdminManual

record fired_record =
  fr_name :: string
  fr_condition :: string
  fr_fired_by :: fired_by
  fr_declared :: string
  fr_dev :: "dev option"
  fr_devs :: "dev list"
  fr_at :: pyfloat
  fr_steps :: nat
  fr_room_name :: "string option"

datatype notice =
    StateChange gs_state gs_state
  | RegistrationChange | DevicesChange
  | DeviceWarning dev string bool
  | LoadWarnings "(string \<times> string) list"
  | Gesture dev string rat pyfloat "refusal option"
  | FunctionFired fired_record
  | StartRequested string "dev option" bool "start_reason option" feedback

datatype effect =
    SinkLight dev int int int pyfloat
  | SinkPlay dev string string
  | SinkMusic dev int int int pyfloat "string option"
  | SinkPurge dev string
  | SinkSolid dev "int list" pyfloat "pyfloat option" pyfloat
  | SinkFlash dev int "int list" pyfloat pyfloat
  | SinkMute dev bool
  | SinkGrant dev join_result "(string, pyval) dict"
  | SinkRelease dev
  | Notify notice

datatype sink_result = Absent | Delivered | Failed

datatype reply = Cues "cue list" | Refusing string

record bit_conf =
  bc_lobby_enabled :: bool
  bc_max_scored :: "int option"
  bc_start :: "start_condition option"
  bc_default_join_role :: string
  bc_nodes :: "(string \<times> node) list"

record 'b env =
  v_make :: "string \<Rightarrow> 'b outcome"
  v_version :: "'b \<Rightarrow> string"
  v_config :: "'b \<Rightarrow> bit_conf option"
  v_role_table :: "'b \<Rightarrow> 'b \<times> role_table outcome"
  v_requirements :: "'b \<Rightarrow> 'b \<times> requirement list outcome"
  v_function_table :: "'b \<Rightarrow> 'b \<times> fn_table outcome"
  v_room_manifests :: "'b \<Rightarrow> 'b \<times> (pyval \<times> pyval) outcome"
  v_verbs :: "'b \<Rightarrow> 'b \<times> string list outcome"
  v_handler :: "'b \<Rightarrow> string \<Rightarrow> dev \<Rightarrow> pyval list \<Rightarrow> pyfloat \<Rightarrow> 'b \<times> reply outcome"
  v_actions :: "'b \<Rightarrow> 'b \<times> string list outcome"
  v_action :: "'b \<Rightarrow> string \<Rightarrow> pyfloat \<Rightarrow> 'b \<times> reply outcome"
  v_on_setup_enter :: "'b \<Rightarrow> 'b \<times> unit outcome"
  v_on_run_start :: "'b \<Rightarrow> 'b \<times> unit outcome"
  v_on_join :: "'b \<Rightarrow> dev \<Rightarrow> string \<Rightarrow> 'b \<times> unit outcome"
  v_admits :: "'b \<Rightarrow> dev \<Rightarrow> string \<Rightarrow> 'b \<times> bool outcome"
  v_update :: "'b \<Rightarrow> rat \<Rightarrow> 'b \<times> bool outcome"
  v_fires :: "'b \<Rightarrow> pyfloat \<Rightarrow> 'b \<times> cue list outcome"
  v_on_complete :: "'b \<Rightarrow> 'b \<times> unit outcome"
  v_on_unload :: "'b \<Rightarrow> 'b \<times> unit outcome"
  v_instruments :: "(string, instrument) dict"
  v_admins :: "dev list"
  v_horizon :: rat
  v_sink :: "effect list \<Rightarrow> effect \<Rightarrow> sink_result"

record 'b engine =
  e_state :: gs_state
  e_devices :: pool
  e_room :: "room option"
  e_binding :: "binding_registry option"
  e_bit :: "'b option"
  e_bit_name :: "string option"
  e_registration :: "registration option"
  e_round_id :: "string option"
  e_round_counter :: nat
  e_muted :: "dev list"
  e_rejected_stamps :: nat
  e_room_name :: "string option"
  e_config_version :: "string option"
  e_slots :: "(string, requirement) dict"
  e_generators :: "runner option"
  e_streams :: "(string, func list) dict"
  e_run_elapsed :: rat
  e_ema :: "(dev \<times> string, pyfloat) dict"
  e_load_warnings :: "(string \<times> string) list"
  e_warned_instruments :: "(dev \<times> string) list"
  e_trace :: "effect list"

definition new_engine :: "binding_registry option \<Rightarrow> 'b engine" where
  "new_engine binding =
     \<lparr>e_state = IDLE, e_devices = [], e_room = None, e_binding = binding, e_bit = None,
      e_bit_name = None, e_registration = None, e_round_id = None, e_round_counter = 0, e_muted = [],
      e_rejected_stamps = 0, e_room_name = None, e_config_version = None, e_slots = [],
      e_generators = None, e_streams = [], e_run_elapsed = 0, e_ema = [], e_load_warnings = [],
      e_warned_instruments = [], e_trace = []\<rparr>"

definition TERRARIUM_ADMIN :: dev where "TERRARIUM_ADMIN = ''terrarium''"

definition is_admin :: "'b env \<Rightarrow> dev option \<Rightarrow> bool" where
  "is_admin env d \<longleftrightarrow> (case d of None \<Rightarrow> False | Some x \<Rightarrow> x = TERRARIUM_ADMIN \<or> x \<in> set (v_admins env))"

subsection \<open>Observers and sinks\<close>

definition notify :: "notice \<Rightarrow> 'b engine \<Rightarrow> 'b engine" where
  "notify n e = e\<lparr>e_trace := e_trace e @ [Notify n]\<rparr>"

definition set_state :: "gs_state \<Rightarrow> 'b engine \<Rightarrow> 'b engine" where
  "set_state st e = notify (StateChange (e_state e) st) (e\<lparr>e_state := st\<rparr>)"

text \<open>One sink call: the engine afterwards, and whether the sink raised.\<close>

definition send :: "'b env \<Rightarrow> effect \<Rightarrow> 'b engine \<Rightarrow> 'b engine \<times> bool" where
  "send env eff e =
     (case v_sink env (e_trace e) eff of
        Absent \<Rightarrow> (e, False)
      | Delivered \<Rightarrow> (e\<lparr>e_trace := e_trace e @ [eff]\<rparr>, False)
      | Failed \<Rightarrow> (e\<lparr>e_trace := e_trace e @ [eff]\<rparr>, True))"

text \<open>A sink call whose exception is caught on the spot.\<close>

definition send_guarded :: "'b env \<Rightarrow> effect \<Rightarrow> 'b engine \<Rightarrow> 'b engine" where
  "send_guarded env eff e = fst (send env eff e)"

subsection \<open>Devices a cue lands on\<close>

fun all_some :: "'a option list \<Rightarrow> 'a list option" where
  "all_some [] = Some []"
| "all_some (None # xs) = None"
| "all_some (Some x # xs) = map_option (\<lambda>ys. x # ys) (all_some xs)"

definition bound_devs :: "'b engine \<Rightarrow> dev list" where
  "bound_devs e = (case e_room e of None \<Rightarrow> [] | Some r \<Rightarrow> map snd (rm_bound r))"

definition fixture_names :: "'b engine \<Rightarrow> string list" where
  "fixture_names e = (case e_room e of None \<Rightarrow> [] | Some r \<Rightarrow> map x_name (p_fixtures (rm_profile r)))"

text \<open>\<open>_fixture_target\<close>: \<open>None\<close> when the fixture is unbound and its name has no sentinel (\<open>ValueError\<close>).\<close>

definition fixture_target :: "'b engine \<Rightarrow> string \<Rightarrow> dev option" where
  "fixture_target e name =
     (case (case e_room e of None \<Rightarrow> None | Some r \<Rightarrow> dget (rm_bound r) name) of
        Some d \<Rightarrow> Some d
      | None \<Rightarrow> fixture_dev name)"

definition room_devs :: "'b engine \<Rightarrow> dev list option" where
  "room_devs e = all_some (map (fixture_target e) (fixture_names e))"

definition resolve_devs :: "'b engine \<Rightarrow> dev \<Rightarrow> dev list option" where
  "resolve_devs e d =
     (if d = ROOM then room_devs e
      else case fixture_name d of
             None \<Rightarrow> Some [d]
           | Some name \<Rightarrow>
               (if e_room e = None then Some [] else map_option (\<lambda>t. [t]) (fixture_target e name)))"

definition mute_key :: "'b engine \<Rightarrow> dev \<Rightarrow> dev option" where
  "mute_key e d =
     (if fixture_name d \<noteq> None then Some d
      else case e_room e of
             None \<Rightarrow> Some d
           | Some r \<Rightarrow>
               (case List.find (\<lambda>(_, b). b = d) (rm_bound r) of
                  None \<Rightarrow> Some d
                | Some (name, _) \<Rightarrow> fixture_dev name))"

definition is_muted :: "'b engine \<Rightarrow> dev \<Rightarrow> bool option" where
  "is_muted e d = map_option (\<lambda>k. k \<in> set (e_muted e)) (mute_key e d)"

definition carried_by :: "'b engine \<Rightarrow> dev \<Rightarrow> instrument" where
  "carried_by e d = (case pool_get d (e_devices e) of None \<Rightarrow> DEFAULTSHROOM | Some info \<Rightarrow> di_carried info)"

definition instrument_for :: "'b engine \<Rightarrow> dev \<Rightarrow> instrument option" where
  "instrument_for e d =
     (let in_room = (case e_room e of
            None \<Rightarrow> None
          | Some r \<Rightarrow> List.find (\<lambda>f. Some (x_name f) = fixture_name d \<or> dget (rm_bound r) (x_name f) = Some d)
                       (p_fixtures (rm_profile r)))
      in case in_room of
           Some f \<Rightarrow> Some (x_instrument f)
         | None \<Rightarrow> map_option di_carried (pool_get d (e_devices e)))"

definition resolve_script_for :: "string \<Rightarrow> instrument option \<Rightarrow> func option" where
  "resolve_script_for name inst =
     (case inst of
        None \<Rightarrow> None
      | Some i \<Rightarrow>
          (case dget (builtin_functions i) name of
             Some fn \<Rightarrow> Some fn
           | None \<Rightarrow> List.find (\<lambda>fn. f_name fn = name \<and> f_kind fn = SCRIPTED) (i_functions i)))"

definition resolve_target :: "'b engine \<Rightarrow> function_target option \<Rightarrow> dev option \<Rightarrow> dev list option" where
  "resolve_target e target d =
     (let given = (case d of None \<Rightarrow> [] | Some x \<Rightarrow> if x = [] then [] else [x])
      in if target = Some TDevice then Some given
         else if target = Some TSurface \<and> d \<noteq> Some ROOM \<and> d \<noteq> Some ALL_DEVS
         then (case d of
                 Some x \<Rightarrow> if fixture_name x \<noteq> None then resolve_devs e x else Some given
               | None \<Rightarrow> Some given)
         else case room_devs e of
                None \<Rightarrow> None
              | Some rds \<Rightarrow>
                  if target = Some TSurface \<and> d = Some ALL_DEVS
                  then Some (rds @ filter (\<lambda>x. x \<notin> set rds) (map di_dev (pool_all (e_devices e))))
                  else if target = Some TRoom \<or> target = Some TSurface then Some rds
                  else Some (foldl (\<lambda>out (player, _, _, cls).
                         if cls \<noteq> CLASS_ROOM \<and> player \<notin> set out then out @ [player] else out) rds
                       (case e_registration e of None \<Rightarrow> [] | Some reg \<Rightarrow> rg_assignments reg)))"

subsection \<open>Checks before a fire\<close>

fun kinds_devs :: "'b engine \<Rightarrow> kind \<Rightarrow> dev list \<Rightarrow> refusal option" where
  "kinds_devs e k [] = None"
| "kinds_devs e k (d # ds) =
     (case instrument_for e d of
        None \<Rightarrow> kinds_devs e k ds
      | Some inst \<Rightarrow>
          if k \<notin> set (i_accepted_cues inst) then Some (KindNotAccepted (i_name inst) k)
          else kinds_devs e k ds)"

text \<open>The outer \<open>None\<close> is an exception (a cue with no device, a fixture that cannot be named).\<close>

fun check_cue_kinds :: "'b engine \<Rightarrow> cue list \<Rightarrow> refusal option option" where
  "check_cue_kinds e [] = Some None"
| "check_cue_kinds e (c # cs) =
     (case Option.bind (cue_dev c) (resolve_devs e) of
        None \<Rightarrow> None
      | Some devs \<Rightarrow>
          (case kinds_devs e (cue_kind c) devs of
             Some r \<Rightarrow> Some (Some r)
           | None \<Rightarrow> check_cue_kinds e cs))"

definition lands :: "'b engine \<Rightarrow> cue \<Rightarrow> dev \<Rightarrow> bool" where
  "lands e c d \<longleftrightarrow>
     cue_kind c \<noteq> KMidi \<or> fixture_name d \<noteq> None \<or> d \<in> set (bound_devs e)
     \<or> (case e_registration e of None \<Rightarrow> False | Some reg \<Rightarrow> dmem d (rg_assignments reg))
     \<or> pool_get d (e_devices e) = None"

fun land_loop :: "'b engine \<Rightarrow> cue list \<Rightarrow> dev list \<Rightarrow> refusal option option" where
  "land_loop e [] stranded = Some (if stranded = [] then None else Some (Stranded stranded))"
| "land_loop e (c # cs) stranded =
     (case Option.bind (cue_dev c) (resolve_devs e) of
        None \<Rightarrow> None
      | Some devs \<Rightarrow>
          if list_ex (lands e c) devs then Some None
          else land_loop e cs (foldl (\<lambda>s d. if d \<in> set s then s else s @ [d]) stranded devs))"

definition check_cues_land :: "'b engine \<Rightarrow> cue list \<Rightarrow> refusal option option" where
  "check_cues_land e cues = land_loop e cues []"

end
