(* ===== verification/Engine_Dispatch.thy ===== *)
theory Engine_Dispatch
  imports Engine_State
begin

section \<open>The engine: firing and dispatching\<close>

text \<open>
  \<open>_dispatch_cues\<close>, \<open>fire_function\<close> and what they call. Each cue of a dispatch is guarded on its own: an
  exception (a raising sink, a malformed cue, a fixture that cannot be named) ends that cue, keeps what it
  already did, and the next cue is processed. A script expands to cues that are never \<open>FireFunction\<close>, so
  firing re-enters the dispatch one level deep.
\<close>

subsection \<open>Cues to sinks\<close>

text \<open>The loop over the devices a cue resolves to; a raise ends it.\<close>

fun send_all :: "'b env \<Rightarrow> bool \<Rightarrow> (dev \<Rightarrow> effect) \<Rightarrow> dev list \<Rightarrow> 'b engine \<Rightarrow> 'b engine" where
  "send_all env gated mk [] e = e"
| "send_all env gated mk (d # ds) e =
     (case (if gated then is_muted e d else Some False) of
        None \<Rightarrow> e
      | Some True \<Rightarrow> send_all env gated mk ds e
      | Some False \<Rightarrow>
          (let (e', failed) = send env (mk d) e
           in if failed then e' else send_all env gated mk ds e'))"

definition send_resolved :: "'b env \<Rightarrow> bool \<Rightarrow> (dev \<Rightarrow> effect) \<Rightarrow> dev \<Rightarrow> 'b engine \<Rightarrow> 'b engine" where
  "send_resolved env gated mk d e =
     (case resolve_devs e d of None \<Rightarrow> e | Some ds \<Rightarrow> send_all env gated mk ds e)"

text \<open>\<open>self.muted.add(self._mute_key(dev))\<close> for each device; \<open>False\<close> when a key could not be formed.\<close>

fun latch_mutes :: "dev list \<Rightarrow> 'b engine \<Rightarrow> 'b engine \<times> bool" where
  "latch_mutes [] e = (e, True)"
| "latch_mutes (d # ds) e =
     (case mute_key e d of
        None \<Rightarrow> (e, False)
      | Some k \<Rightarrow> latch_mutes ds (e\<lparr>e_muted := List.insert k (e_muted e)\<rparr>))"

definition dispatch_mute :: "'b env \<Rightarrow> dev \<Rightarrow> 'b engine \<Rightarrow> 'b engine" where
  "dispatch_mute env d e =
     (case resolve_devs e d of
        None \<Rightarrow> e
      | Some ds \<Rightarrow>
          if ds = [] then e
          else (let (e1, ok) = latch_mutes ds e
                in if ok then send_all env False (\<lambda>d. SinkMute d True) ds (notify DevicesChange e1) else e1))"

definition at_or :: "pyfloat \<Rightarrow> pyfloat option \<Rightarrow> pyfloat" where
  "at_or t own = (case own of None \<Rightarrow> t | Some w \<Rightarrow> w)"

text \<open>
  One cue that is not a fire: the branches of \<open>_dispatch_cues\<close> after the first. The branch of a fire is in
  \<open>dispatch_cue\<close> below, which needs \<open>fire_function\<close>; a fire never gets here, for \<open>dispatch_cue\<close> takes it first, and an
  expanded script holds none (lemma \<open>fired_cues_hold_no_fire\<close>).
\<close>

definition dispatch_plain :: "'b env \<Rightarrow> pyfloat \<Rightarrow> cue \<Rightarrow> 'b engine \<Rightarrow> 'b engine" where
  "dispatch_plain env t c e =
     (case c of
        SolidCue d rgb level duration own \<Rightarrow>
          send_resolved env False (\<lambda>d. SinkSolid d rgb level duration (at_or t own)) d e
      | PixelFlashCue d pixel rgb duration own \<Rightarrow>
          send_resolved env True (\<lambda>d. SinkFlash d pixel rgb duration (at_or t own)) d e
      | MuteCue d \<Rightarrow> dispatch_mute env d e
      | PlayCue d name params \<Rightarrow> send_resolved env True (\<lambda>d. SinkPlay d name params) d e
      | MusicCue d status data1 data2 own tag \<Rightarrow>
          send_resolved env True (\<lambda>d. SinkMusic d status data1 data2 (at_or t own) tag) d e
      | MusicPurge d tag \<Rightarrow> send_resolved env False (\<lambda>d. SinkPurge d tag) d e
      | LightCue d status data1 data2 own \<Rightarrow>
          send_resolved env False (\<lambda>d. SinkLight d status data1 data2 (at_or t own)) d e
      | Midi d status data1 data2 \<Rightarrow>
          send_resolved env False (\<lambda>d. SinkLight d status data1 data2 t) d e
      | _ \<Rightarrow> e)"

fun dispatch_all_plain :: "'b env \<Rightarrow> pyfloat \<Rightarrow> cue list \<Rightarrow> 'b engine \<Rightarrow> 'b engine" where
  "dispatch_all_plain env t [] e = e"
| "dispatch_all_plain env t (c # cs) e = dispatch_all_plain env t cs (dispatch_plain env t c e)"

subsection \<open>Un-muting and overlaying\<close>

text \<open>\<open>_clear_mutes\<close>: \<open>False\<close> in the result when a key could not be formed (the loop ends there).\<close>

fun clear_mutes_loop :: "'b env \<Rightarrow> dev list \<Rightarrow> bool \<Rightarrow> 'b engine \<Rightarrow> 'b engine \<times> bool" where
  "clear_mutes_loop env [] cleared e = (if cleared then notify DevicesChange e else e, True)"
| "clear_mutes_loop env (d # ds) cleared e =
     (case mute_key e d of
        None \<Rightarrow> (e, False)
      | Some k \<Rightarrow>
          if k \<in> set (e_muted e) \<or> d \<in> set (e_muted e)
          then clear_mutes_loop env ds True
                 (send_guarded env (SinkMute d False)
                   (e\<lparr>e_muted := filter (\<lambda>m. m \<noteq> k \<and> m \<noteq> d) (e_muted e)\<rparr>))
          else clear_mutes_loop env ds cleared e)"

definition clear_mutes :: "'b env \<Rightarrow> dev list \<Rightarrow> 'b engine \<Rightarrow> 'b engine \<times> bool" where
  "clear_mutes env ds e = clear_mutes_loop env ds False e"

fun lane_of_cue :: "cue \<Rightarrow> lane option" where
  "lane_of_cue (LightCue d status data1 _ _) = Some (d, status, data1)"
| "lane_of_cue (Midi d status data1 _) = Some (d, status, data1)"
| "lane_of_cue _ = None"

fun overlay_lanes :: "'b engine \<Rightarrow> cue list \<Rightarrow> lane list option" where
  "overlay_lanes e [] = Some []"
| "overlay_lanes e (c # cs) =
     (case lane_of_cue c of
        None \<Rightarrow> overlay_lanes e cs
      | Some (d, status, data1) \<Rightarrow>
          (case resolve_devs e d of
             None \<Rightarrow> None
           | Some ds \<Rightarrow> map_option (\<lambda>ls. map (\<lambda>d'. (d', status, data1)) ds @ ls) (overlay_lanes e cs)))"

text \<open>\<open>_suppress_generator_lanes\<close>; without generators the caller skips it.\<close>

definition suppress_generator_lanes :: "func \<Rightarrow> cue list \<Rightarrow> pyfloat \<Rightarrow> 'b engine \<Rightarrow> 'b engine option" where
  "suppress_generator_lanes fn cues t e =
     (case e_generators e of
        None \<Rightarrow> Some e
      | Some r \<Rightarrow>
          if f_script fn = [] then Some e
          else (case overlay_lanes e cues of
                  None \<Rightarrow> None
                | Some [] \<Rightarrow> Some e
                | Some lanes \<Rightarrow>
                    Some (e\<lparr>e_generators := Some (suppress lanes (fadd t (st_offset (last (f_script fn)))) r)\<rparr>)))"

subsection \<open>Firing a function\<close>

text \<open>What the guarded half of \<open>fire_function\<close> decides: a refusal, an exception, or the cues to dispatch.\<close>

datatype plan = Refuse refusal | Crash | Fire "cue list" "dev list" pyfloat

definition has_mute :: "cue list \<Rightarrow> bool" where
  "has_mute cues \<longleftrightarrow> list_ex is_mute cues"

definition unmute_unless :: "'b env \<Rightarrow> bool \<Rightarrow> dev list \<Rightarrow> 'b engine \<Rightarrow> 'b engine \<times> bool" where
  "unmute_unless env keep ds e = (if keep then (e, True) else clear_mutes env ds e)"

text \<open>Rung 1: the Bit's own script.\<close>

definition plan_script :: "'b env \<Rightarrow> func \<Rightarrow> dev list \<Rightarrow> pyfloat \<Rightarrow> 'b engine \<Rightarrow> 'b engine \<times> plan" where
  "plan_script env decl devs t e =
     (case expand_script decl t devs of
        None \<Rightarrow> (e, Crash)
      | Some cues \<Rightarrow>
          (case check_cue_kinds e cues of
             None \<Rightarrow> (e, Crash)
           | Some (Some r) \<Rightarrow> (e, Refuse r)
           | Some None \<Rightarrow>
               (case check_cues_land e cues of
                  None \<Rightarrow> (e, Crash)
                | Some (Some r) \<Rightarrow> (e, Refuse r)
                | Some None \<Rightarrow>
                    (let (e', ok) = unmute_unless env (has_mute cues) devs e
                     in (e', if ok then Fire cues devs t else Crash)))))"

text \<open>Rungs 2 and 3: each device's own instrument, built-ins first; devices that resolve nothing are skipped.\<close>

fun ladder_loop ::
  "string \<Rightarrow> pyfloat \<Rightarrow> dev list \<Rightarrow> cue list \<Rightarrow> dev list \<Rightarrow> 'b engine \<Rightarrow> 'b engine \<times> (cue list \<times> dev list) option" where
  "ladder_loop name t [] cues resolved e = (e, Some (cues, resolved))"
| "ladder_loop name t (d # ds) cues resolved e =
     (case resolve_script_for name (instrument_for e d) of
        None \<Rightarrow> ladder_loop name t ds cues resolved e
      | Some fn \<Rightarrow>
          (case expand_script fn t [d] of
             None \<Rightarrow> (e, None)
           | Some dev_cues \<Rightarrow>
               (case check_cue_kinds e dev_cues of
                  None \<Rightarrow> (e, None)
                | Some (Some _) \<Rightarrow> ladder_loop name t ds cues resolved e
                | Some None \<Rightarrow>
                    (case suppress_generator_lanes fn dev_cues t e of
                       None \<Rightarrow> (e, None)
                     | Some e' \<Rightarrow> ladder_loop name t ds (cues @ dev_cues) (resolved @ [d]) e'))))"

definition plan_ladder :: "'b env \<Rightarrow> string \<Rightarrow> dev list \<Rightarrow> pyfloat \<Rightarrow> 'b engine \<Rightarrow> 'b engine \<times> plan" where
  "plan_ladder env name devs t e =
     (case ladder_loop name t devs [] [] e of
        (e1, None) \<Rightarrow> (e1, Crash)
      | (e1, Some (cues, resolved)) \<Rightarrow>
          (let (e2, ok) = unmute_unless env (cues = [] \<or> has_mute cues) resolved e1
           in (e2, if ok then Fire cues resolved t else Crash)))"

definition missing_surface :: "function_target option \<Rightarrow> dev option \<Rightarrow> 'b engine \<Rightarrow> refusal option" where
  "missing_surface target d e =
     first_error
      [refuse (target = Some TDevice \<and> (d = None \<or> d = Some [])) NoDeviceGiven,
       refuse (target = Some TSurface \<and> (d = None \<or> d = Some [])) NoSurfaceGiven,
       (if target = Some TSurface
        then (case Option.bind d fixture_name of
                None \<Rightarrow> None
              | Some fname \<Rightarrow>
                  if e_room e = None then Some (NoRoomForFixture fname)
                  else refuse (fname \<notin> set (fixture_names e)) (NoSuchFixture fname))
        else None)]"

definition plan_fire ::
  "'b env \<Rightarrow> string \<Rightarrow> func option \<Rightarrow> dev option \<Rightarrow> pyfloat option \<Rightarrow> rat \<Rightarrow> 'b engine \<Rightarrow> 'b engine \<times> plan" where
  "plan_fire env name decl d at_time now e =
     (if (case decl of None \<Rightarrow> False | Some fn \<Rightarrow> f_kind fn \<noteq> SCRIPTED) then (e, Refuse NotScripted)
      else
        (let target = (case decl of None \<Rightarrow> Some TSurface | Some fn \<Rightarrow> f_target fn)
         in case missing_surface target d e of
              Some r \<Rightarrow> (e, Refuse r)
            | None \<Rightarrow>
                (let t = (case at_time of Some w \<Rightarrow> w | None \<Rightarrow> Fin (now + v_horizon env))
                 in case resolve_target e target d of
                      None \<Rightarrow> (e, Crash)
                    | Some devs \<Rightarrow>
                        (case decl of
                           Some fn \<Rightarrow>
                             if f_script fn \<noteq> [] then plan_script env fn devs t e
                             else plan_ladder env name devs t e
                         | None \<Rightarrow> plan_ladder env name devs t e))))"

definition fired_name :: "fired_by \<Rightarrow> string" where
  "fired_name by =
     (case by of ByGestureVerb \<Rightarrow> ''gesture-verb'' | ByBitAdjudicated \<Rightarrow> ''bit-adjudicated''
        | ByAdminManual \<Rightarrow> ''admin-manual'')"

text \<open>
  The record handed to the observers. It reads \<open>decl.condition\<close>, outside the guard: \<open>None\<close> is the
  \<open>AttributeError\<close> of a declaration without a condition.
\<close>

definition fired_notice ::
  "string \<Rightarrow> func option \<Rightarrow> fired_by \<Rightarrow> dev option \<Rightarrow> dev list \<Rightarrow> pyfloat \<Rightarrow> nat \<Rightarrow> string option \<Rightarrow> notice option" where
  "fired_notice name decl by d devs t steps room_name =
     (case decl of
        None \<Rightarrow>
          Some (FunctionFired
            \<lparr>fr_name = name, fr_condition = (if name \<in> set RESERVED_NAMES then ''builtin'' else ''instrument''),
             fr_fired_by = by, fr_declared = fired_name by, fr_dev = d, fr_devs = devs, fr_at = t,
             fr_steps = steps, fr_room_name = room_name\<rparr>)
      | Some fn \<Rightarrow>
          map_option (\<lambda>c. FunctionFired
            \<lparr>fr_name = name, fr_condition = c_name c, fr_fired_by = by,
             fr_declared = source_wire (c_source c), fr_dev = d, fr_devs = devs, fr_at = t,
             fr_steps = steps, fr_room_name = room_name\<rparr>) (f_condition fn))"

definition in_play :: "'b engine \<Rightarrow> bool" where
  "in_play e \<longleftrightarrow> e_state e = SETUP \<or> e_state e = RUNNING"

text \<open>The declaration looked up in the Bit's own table, read again at every fire.\<close>

definition lookup_decl :: "'b env \<Rightarrow> string \<Rightarrow> 'b engine \<Rightarrow> 'b engine \<times> func option outcome" where
  "lookup_decl env name e =
     (case e_bit e of
        None \<Rightarrow> (e, Ret None)
      | Some b \<Rightarrow>
          if \<not> in_play e then (e, Ret None)
          else (case v_function_table env b of
                  (b', Raised) \<Rightarrow> (e\<lparr>e_bit := Some b'\<rparr>, Raised)
                | (b', Ret table) \<Rightarrow> (e\<lparr>e_bit := Some b'\<rparr>, Ret (dget table name))))"

text \<open>The result is a refusal or none; \<open>Raised\<close> is an exception that leaves \<open>fire_function\<close>.\<close>

definition fire_function ::
  "'b env \<Rightarrow> string \<Rightarrow> fired_by \<Rightarrow> dev option \<Rightarrow> pyfloat option \<Rightarrow> rat \<Rightarrow> 'b engine \<Rightarrow>
   'b engine \<times> refusal option outcome" where
  "fire_function env name by d at_time now e =
     (case lookup_decl env name e of
        (e1, Raised) \<Rightarrow> (e1, Ret (Some FunctionTableError))
      | (e1, Ret decl) \<Rightarrow>
          (case plan_fire env name decl d at_time now e1 of
             (e2, Refuse r) \<Rightarrow> (e2, Ret (Some r))
           | (e2, Crash) \<Rightarrow> (e2, Ret (Some FunctionScriptError))
           | (e2, Fire cues devs t) \<Rightarrow>
               (case (case decl of
                        Some fn \<Rightarrow> if f_script fn \<noteq> [] then suppress_generator_lanes fn cues t e2 else Some e2
                      | None \<Rightarrow> Some e2) of
                  None \<Rightarrow> (e2, Raised)
                | Some e3 \<Rightarrow>
                    (let e4 = dispatch_all_plain env t cues e3
                     in case fired_notice name decl by d devs t (length cues) (e_room_name e4) of
                          None \<Rightarrow> (e4, Raised)
                        | Some n \<Rightarrow> (notify n e4, Ret None)))))"

subsection \<open>Dispatching what a Bit returned\<close>

definition dispatch_cue :: "'b env \<Rightarrow> pyfloat \<Rightarrow> fired_by \<Rightarrow> rat \<Rightarrow> cue \<Rightarrow> 'b engine \<Rightarrow> 'b engine" where
  "dispatch_cue env t by now c e =
     (case c of
        FireFunction name d own \<Rightarrow> fst (fire_function env name by d (Some (at_or t own)) now e)
      | _ \<Rightarrow> dispatch_plain env t c e)"

fun dispatch_cues :: "'b env \<Rightarrow> pyfloat \<Rightarrow> fired_by \<Rightarrow> rat \<Rightarrow> cue list \<Rightarrow> 'b engine \<Rightarrow> 'b engine" where
  "dispatch_cues env t by now [] e = e"
| "dispatch_cues env t by now (c # cs) e = dispatch_cues env t by now cs (dispatch_cue env t by now c e)"

end
