(* ===== verification/Engine_Control.thy ===== *)
theory Engine_Control
  imports Engine_Dispatch
begin

section \<open>The engine: lifecycle, grants and gestures\<close>

text \<open>
  The public operations of \<open>GameServer\<close> that are not a fire. Each returns the engine afterwards and a
  result: \<open>Ok\<close> with the value, or \<open>Err\<close> with the exception that leaves the call. A clock reading is an
  argument; an operation that reads the clock twice takes two.
\<close>

datatype fault = InvalidTransition | BitLoadError | Uncaught

datatype 'a res = Ok 'a | Err fault

definition on_bit :: "('b \<Rightarrow> 'b \<times> 'a outcome) \<Rightarrow> 'b engine \<Rightarrow> 'b engine \<times> 'a outcome" where
  "on_bit hook e =
     (case e_bit e of
        None \<Rightarrow> (e, Raised)
      | Some b \<Rightarrow> (case hook b of (b', r) \<Rightarrow> (e\<lparr>e_bit := Some b'\<rparr>, r)))"

subsection \<open>Jam roles and grants\<close>

definition jam_candidates :: "'b env \<Rightarrow> 'b engine \<Rightarrow> dev list" where
  "jam_candidates env e =
     filter (\<lambda>d. d \<notin> set (bound_devs e)
              \<and> (case e_registration e of None \<Rightarrow> False | Some reg \<Rightarrow> \<not> dmem d (rg_assignments reg))
              \<and> \<not> is_admin env (Some d))
       (map di_dev (pool_all (e_devices e)))"

text \<open>Whether an unscored role could take the device, before the Bit is asked.\<close>

definition jam_fits :: "'b engine \<Rightarrow> registration \<Rightarrow> instrument \<Rightarrow> role \<Rightarrow> bool" where
  "jam_fits e reg carried r \<longleftrightarrow>
     (case r_capacity r of None \<Rightarrow> True | Some c \<Rightarrow> count_of reg (r_name r) < c)
     \<and> (case r_requires r of
          None \<Rightarrow> True
        | Some slot \<Rightarrow>
            (case dget (e_slots e) slot of None \<Rightarrow> True | Some req \<Rightarrow> satisfies carried req None = None))"

fun jam_loop :: "'b env \<Rightarrow> 'b engine \<Rightarrow> registration \<Rightarrow> dev \<Rightarrow> role list \<Rightarrow> 'b \<Rightarrow> 'b \<times> role option" where
  "jam_loop env e reg d [] b = (b, None)"
| "jam_loop env e reg d (r # rs) b =
     (if \<not> jam_fits e reg (carried_by e d) r then jam_loop env e reg d rs b
      else (case v_admits env b d (r_name r) of
              (b', Ret True) \<Rightarrow> (b', Some r)
            | (b', _) \<Rightarrow> jam_loop env e reg d rs b'))"

definition jam_for :: "'b env \<Rightarrow> 'b engine \<Rightarrow> 'b \<Rightarrow> registration \<Rightarrow> dev \<Rightarrow> 'b \<times> role" where
  "jam_for env e b reg d =
     (case jam_loop env e reg d (unscored_roles (rg_table reg)) b of
        (b', Some r) \<Rightarrow> (b', r)
      | (b', None) \<Rightarrow> (b', solo_role (carried_by e d)))"

definition grant :: "'b env \<Rightarrow> dev \<Rightarrow> role \<Rightarrow> 'b engine \<Rightarrow> 'b engine \<times> unit res" where
  "grant env d r e =
     (let carried = carried_by e d;
          jr = (granted_result r)\<lparr>jr_zones := r_zones r, jr_slot := r_requires r,
                 jr_instrument := (if r_requires r = None then None else Some (i_name carried))\<rparr>
      in case (e_bit e, e_bit_name e) of
           (Some b, Some bname) \<Rightarrow>
             (case compose_role_config bname (v_version env b) r (e_room_name e) (e_config_version e)
                     (jr_slot jr) (i_event_triggers carried) (Some carried) of
                None \<Rightarrow> (e, Err Uncaught)
              | Some config \<Rightarrow>
                  (let e1 = fst (on_bit (\<lambda>b. v_on_join env b d (r_name r)) e)
                   in (send_guarded env (SinkGrant d jr config) e1, Ok ())))
         | _ \<Rightarrow> (e, Err Uncaught))"

fun grant_all :: "'b env \<Rightarrow> (dev \<times> role) list \<Rightarrow> 'b engine \<Rightarrow> 'b engine \<times> unit res" where
  "grant_all env [] e = (e, Ok ())"
| "grant_all env ((d, r) # rest) e =
     (case grant env d r e of
        (e', Err f) \<Rightarrow> (e', Err f)
      | (e', Ok _) \<Rightarrow> grant_all env rest e')"

subsection \<open>Devices\<close>

definition clear_ema :: "dev \<Rightarrow> 'b engine \<Rightarrow> 'b engine" where
  "clear_ema d e = e\<lparr>e_ema := filter (\<lambda>((d', _), _). d' \<noteq> d) (e_ema e)\<rparr>"

text \<open>The instrument a hello declares, resolved; an unknown or uncarriable one is warned about once.\<close>

definition declare_instrument ::
  "'b env \<Rightarrow> dev \<Rightarrow> string option \<Rightarrow> 'b engine \<Rightarrow> 'b engine \<times> instrument option" where
  "declare_instrument env d declared e =
     (case declared of
        None \<Rightarrow> (e, None)
      | Some name \<Rightarrow>
          (let known = dget (v_instruments env) name;
               carriable = (case known of None \<Rightarrow> None
                  | Some i \<Rightarrow> if ''light.pixels'' \<in> i_capabilities i then Some i else None);
               e1 = e\<lparr>e_warned_instruments :=
                        filter (\<lambda>(d', n). \<not> (d' = d \<and> n \<noteq> name)) (e_warned_instruments e)\<rparr>
           in case carriable of
                None \<Rightarrow>
                  (if (d, name) \<in> set (e_warned_instruments e1) then e1
                   else notify (DeviceWarning d name (known \<noteq> None))
                          (e1\<lparr>e_warned_instruments := e_warned_instruments e1 @ [(d, name)]\<rparr>),
                   Some DEFAULTSHROOM)
              | Some i \<Rightarrow>
                  (e1\<lparr>e_warned_instruments := filter (\<lambda>k. k \<noteq> (d, name)) (e_warned_instruments e1)\<rparr>,
                   Some i)))"

text \<open>The source compares instruments by identity; here two instruments are the same when equal.\<close>

definition hello_pool ::
  "dev \<Rightarrow> string \<Rightarrow> string \<Rightarrow> rat \<Rightarrow> instrument option \<Rightarrow> 'b engine \<Rightarrow> 'b engine" where
  "hello_pool d name proto now carried e =
     (let before = pool_get d (e_devices e);
          (info, devices) = pool_hello d name proto now carried (e_devices e);
          news = (case before of None \<Rightarrow> True
             | Some old \<Rightarrow> di_carried info \<noteq> di_carried old \<or> di_name info \<noteq> di_name old);
          e' = e\<lparr>e_devices := devices\<rparr>
      in if news then notify DevicesChange e' else e')"

text \<open>A device that says hello while a Bit runs gets a jam role at once.\<close>

definition walk_up :: "'b env \<Rightarrow> dev \<Rightarrow> 'b engine \<Rightarrow> 'b engine \<times> unit res" where
  "walk_up env d e =
     (case (e_registration e, e_bit e) of
        (Some reg, Some b) \<Rightarrow>
          (let (b', r) = jam_for env e b reg d;
               (changed, reg') = assign d '''' r reg;
               e1 = e\<lparr>e_bit := Some b', e_registration := Some reg'\<rparr>
           in if changed
              then (case grant env d r e1 of
                      (e2, Ok _) \<Rightarrow> (notify RegistrationChange e2, Ok ())
                    | (e2, Err f) \<Rightarrow> (e2, Err f))
              else (e1, Ok ()))
      | _ \<Rightarrow> (e, Ok ()))"

definition hello ::
  "'b env \<Rightarrow> dev \<Rightarrow> string \<Rightarrow> string \<Rightarrow> string option \<Rightarrow> rat \<Rightarrow> 'b engine \<Rightarrow> 'b engine \<times> unit res" where
  "hello env d name proto declared now e =
     (let (e1, carried) = declare_instrument env d declared e;
          e2 = hello_pool d name proto now carried e1
      in if e_state e2 = RUNNING \<and> e_registration e2 \<noteq> None \<and> d \<in> set (jam_candidates env e2)
         then walk_up env d e2 else (e2, Ok ()))"

text \<open>One silent device of \<open>reap_stale\<close>; the flag says that it freed something.\<close>

definition reap_one :: "'b env \<Rightarrow> dev \<Rightarrow> 'b engine \<Rightarrow> 'b engine \<times> bool" where
  "reap_one env d e =
     (let held = (case e_registration e of None \<Rightarrow> False | Some reg \<Rightarrow> dmem d (rg_assignments reg));
          freed = (case e_registration e of None \<Rightarrow> False | Some reg \<Rightarrow> release_held d reg);
          e1 = (if freed then e\<lparr>e_registration := map_option (release d) (e_registration e)\<rparr> else e);
          e2 = (if held then send_guarded env (SinkRelease d) (clear_ema d e1) else e1)
      in (e2\<lparr>e_devices := pool_remove d (e_devices e2),
             e_warned_instruments := filter (\<lambda>(d', _). d' \<noteq> d) (e_warned_instruments e2)\<rparr>, freed))"

fun reap_loop :: "'b env \<Rightarrow> dev list \<Rightarrow> bool \<Rightarrow> 'b engine \<Rightarrow> 'b engine \<times> bool" where
  "reap_loop env [] freed e = (e, freed)"
| "reap_loop env (d # ds) freed e =
     (let (e', f) = reap_one env d e in reap_loop env ds (freed \<or> f) e')"

definition reap_targets :: "rat \<Rightarrow> rat \<Rightarrow> 'b engine \<Rightarrow> dev list" where
  "reap_targets timeout now e = filter (\<lambda>d. d \<notin> set (bound_devs e)) (pool_stale now timeout (e_devices e))"

definition reap_stale :: "'b env \<Rightarrow> rat \<Rightarrow> rat \<Rightarrow> 'b engine \<Rightarrow> 'b engine \<times> dev list" where
  "reap_stale env timeout now e =
     (let reaped = reap_targets timeout now e;
          (e1, freed) = reap_loop env reaped False e;
          e2 = (if reaped \<noteq> [] then notify DevicesChange e1 else e1)
      in (if freed then notify RegistrationChange e2 else e2, reaped))"

definition clear_devices :: "'b engine \<Rightarrow> 'b engine" where
  "clear_devices e = notify DevicesChange (e\<lparr>e_devices := pool_clear (e_devices e)\<rparr>)"

subsection \<open>Loading a Bit\<close>

text \<open>\<open>_resolve_room_requirements\<close>: \<open>False\<close> is the \<open>ValueError\<close>.\<close>

definition room_requirement_met :: "room_profile \<Rightarrow> requirement \<Rightarrow> bool" where
  "room_requirement_met p req \<longleftrightarrow>
     rq_optional req
     \<or> (rq_capabilities req \<subseteq> \<Union> ((\<lambda>f. i_capabilities (x_instrument f)) ` set (p_fixtures p))
        \<and> rq_min_pixels req \<le> profile_pixels p)"

definition addressed_names :: "fn_table \<Rightarrow> string list" where
  "addressed_names table =
     concat (map (\<lambda>(_, fn).
        List.map_filter fixture_name
          (List.map_filter (\<lambda>s. cue_dev (st_cue s)) (f_script fn)
           @ (case f_generator fn of None \<Rightarrow> [] | Some g \<Rightarrow> [g_dev g])
           @ (case f_stream fn of None \<Rightarrow> [] | Some sp \<Rightarrow> map so_dev (sp_outputs sp)))) table)"

definition bit_fixture_names :: "fn_table \<Rightarrow> pyval \<Rightarrow> room_profile \<Rightarrow> string list option" where
  "bit_fixture_names table light p =
     (if falsy light then Some (addressed_names table)
      else case as_dict light of
             None \<Rightarrow> None
           | Some m \<Rightarrow> map_option (\<lambda>names. addressed_names table @ names) (manifest_fixture_targets m p))"

fun lanes_collide :: "string list \<Rightarrow> lane list \<Rightarrow> (string \<times> func) list \<Rightarrow> bool" where
  "lanes_collide fixtures owners [] = False"
| "lanes_collide fixtures owners ((_, fn) # rest) =
     (if f_kind fn \<noteq> GENERATOR then lanes_collide fixtures owners rest
      else case f_generator fn of
             None \<Rightarrow> True
           | Some g \<Rightarrow>
               (let targets = (if g_dev g = ROOM then fixtures
                      else case fixture_name (g_dev g) of Some n \<Rightarrow> [n] | None \<Rightarrow> [g_dev g]);
                    lanes = map (\<lambda>t. (t, g_status g, g_data1 g)) targets
                in if \<not> distinct lanes \<or> set lanes \<inter> set owners \<noteq> {} then True
                   else lanes_collide fixtures (owners @ lanes) rest))"

record 'b loaded =
  ld_bit :: 'b
  ld_table :: role_table
  ld_requirements :: "requirement list"
  ld_functions :: fn_table
  ld_max_scored :: "int option"

definition with_room_role :: "room \<Rightarrow> pyval \<Rightarrow> pyval \<Rightarrow> role_table \<Rightarrow> role_table" where
  "with_room_role r ugen light table =
     (if falsy light \<and> falsy ugen then table
      else (case room_role r (Some ugen) (Some light) of
              (rname, role, node) \<Rightarrow>
                table\<lparr>rt_roles := dset rname role (rt_roles table),
                      rt_node_map := dset node [rname] (rt_node_map table)\<rparr>))"

definition role_slots :: "role_table \<Rightarrow> string list" where
  "role_slots table =
     filter (\<lambda>s. s \<noteq> ''room'') (List.map_filter (\<lambda>(_, r). r_requires r) (rt_roles table))"

definition room_requirements :: "requirement list \<Rightarrow> string list \<Rightarrow> pyval \<Rightarrow> pyval \<Rightarrow> requirement list" where
  "room_requirements reqs slots light ugen =
     filter (\<lambda>q. rq_slot q \<notin> set slots) reqs
     @ (if (\<not> falsy light \<or> \<not> falsy ugen) \<and> ''room'' \<notin> set (map rq_slot reqs)
        then [\<lparr>rq_slot = ''room'',
               rq_capabilities = (if falsy light then {} else {''light.surface''})
                                 \<union> (if falsy ugen then {} else {''audio.flsyn''}),
               rq_min_pixels = 0, rq_optional = False\<rparr>]
        else [])"

text \<open>The part of \<open>load_bit\<close> that depends on the Room; \<open>None\<close> is an exception.\<close>

definition check_room_fit ::
  "room \<Rightarrow> fn_table \<Rightarrow> requirement list \<Rightarrow> string list \<Rightarrow> pyval \<Rightarrow> pyval \<Rightarrow> role_table \<Rightarrow> role_table option" where
  "check_room_fit r functions reqs slots light ugen table =
     (let p = rm_profile r
      in if \<not> list_all (room_requirement_met p) (room_requirements reqs slots light ugen) then None
         else case bit_fixture_names functions light p of
                None \<Rightarrow> None
              | Some names \<Rightarrow>
                  if \<not> set names \<subseteq> set (map x_name (p_fixtures p)) then None
                  else if lanes_collide (map x_name (p_fixtures p)) [] functions then None
                  else Some (with_room_role r ugen light table))"

definition lobby_max_scored :: "'b env \<Rightarrow> 'b \<Rightarrow> int option" where
  "lobby_max_scored env b = (case v_config env b of None \<Rightarrow> None | Some c \<Rightarrow> bc_max_scored c)"

definition max_scored_ok :: "role_table \<Rightarrow> int option \<Rightarrow> bool" where
  "max_scored_ok table max_scored \<longleftrightarrow>
     (case max_scored of
        None \<Rightarrow> True
      | Some m \<Rightarrow> (case scored_cap (new_registration table None) of None \<Rightarrow> True | Some bounded \<Rightarrow> m \<le> bounded))"

definition finish_load ::
  "'b env \<Rightarrow> 'b \<Rightarrow> requirement list \<Rightarrow> fn_table \<Rightarrow> role_table \<Rightarrow> 'b loaded option" where
  "finish_load env b reqs functions table =
     (if \<not> list_all (\<lambda>(_, r). case r_requires r of None \<Rightarrow> True
              | Some s \<Rightarrow> s \<in> set (map rq_slot reqs) \<or> s = ''room'') (rt_roles table)
      then None
      else if validate_role_declarations table \<noteq> None then None
      else if \<not> max_scored_ok table (lobby_max_scored env b) then None
      else Some \<lparr>ld_bit = b, ld_table = table, ld_requirements = reqs, ld_functions = functions,
                 ld_max_scored = lobby_max_scored env b\<rparr>)"

text \<open>The guarded body of \<open>load_bit\<close>, hook by hook; any exception makes the load fail.\<close>

definition prepare_bit :: "'b env \<Rightarrow> string \<Rightarrow> 'b engine \<Rightarrow> 'b loaded option" where
  "prepare_bit env name e =
     (case v_make env name of
        Raised \<Rightarrow> None
      | Ret b0 \<Rightarrow>
     (case v_role_table env b0 of
        (_, Raised) \<Rightarrow> None
      | (b1, Ret table) \<Rightarrow>
     (case v_requirements env b1 of
        (_, Raised) \<Rightarrow> None
      | (b2, Ret reqs) \<Rightarrow>
     (case v_function_table env b2 of
        (_, Raised) \<Rightarrow> None
      | (b3, Ret functions) \<Rightarrow>
     (case v_verbs env b3 of
        (_, Raised) \<Rightarrow> None
      | (b4, Ret verbs) \<Rightarrow>
          if validate_function_table functions verbs OBit \<noteq> None then None
          else case e_room e of
                 None \<Rightarrow> finish_load env b4 reqs functions table
               | Some r \<Rightarrow>
                   (case v_room_manifests env b4 of
                      (_, Raised) \<Rightarrow> None
                    | (b5, Ret (light, ugen)) \<Rightarrow>
                        (case check_room_fit r functions reqs (role_slots table) light ugen table of
                           None \<Rightarrow> None
                         | Some table' \<Rightarrow> finish_load env b5 reqs functions table')))))))"

text \<open>Decimal digits, for the round id.\<close>

fun show_nat :: "nat \<Rightarrow> string" where
  "show_nat n = (if n < 10 then [char_of (48 + n)] else show_nat (n div 10) @ [char_of (48 + n mod 10)])"

definition make_round_id :: "string \<Rightarrow> nat \<Rightarrow> string \<Rightarrow> string" where
  "make_round_id name counter token = name @ ''-'' @ show_nat counter @ ''-'' @ token"

definition streams_by_verb :: "fn_table \<Rightarrow> (string, func list) dict" where
  "streams_by_verb table =
     foldl (\<lambda>d (_, fn).
        if f_kind fn \<noteq> STREAM then d
        else case f_stream fn of
               None \<Rightarrow> d
             | Some sp \<Rightarrow> dset (sp_verb sp) ((case dget d (sp_verb sp) of None \<Rightarrow> [] | Some fs \<Rightarrow> fs) @ [fn]) d)
       [] table"

definition generator_specs :: "fn_table \<Rightarrow> generator_spec list" where
  "generator_specs table =
     List.map_filter (\<lambda>(_, fn). if f_kind fn = GENERATOR then f_generator fn else None) table"

text \<open>Name-fires that some instrument they may land on cannot resolve.\<close>

definition load_warnings_of :: "'b env \<Rightarrow> 'b engine \<Rightarrow> fn_table \<Rightarrow> (string \<times> string) list" where
  "load_warnings_of env e table =
     (let room_instruments = (case e_room e of None \<Rightarrow> []
            | Some r \<Rightarrow> foldl (\<lambda>d f. dset (i_name (x_instrument f)) (x_instrument f) d) [] (p_fixtures (rm_profile r)))
      in concat (map (\<lambda>(_, fn).
           if f_kind fn \<noteq> SCRIPTED \<or> f_script fn \<noteq> [] then []
           else (let check = (if f_target fn = Some TDevice then v_instruments env
                    else if f_target fn = Some TRoom then room_instruments
                    else foldl (\<lambda>d (n, i). dset n i d) room_instruments (v_instruments env))
                 in map (\<lambda>(n, _). (f_name fn, n))
                      (filter (\<lambda>(_, i). resolve_script_for (f_name fn) (Some i) = None) check))) table))"

definition load_bit :: "'b env \<Rightarrow> string \<Rightarrow> string \<Rightarrow> 'b engine \<Rightarrow> 'b engine \<times> unit res" where
  "load_bit env name token e =
     (if e_state e \<noteq> IDLE then (e, Err InvalidTransition)
      else (let e1 = set_state LOADING e
            in case prepare_bit env name e1 of
                 None \<Rightarrow> (set_state IDLE e1, Err BitLoadError)
               | Some ld \<Rightarrow>
                   (let warnings = load_warnings_of env e1 (ld_functions ld);
                        e2 = e1\<lparr>e_bit := Some (ld_bit ld), e_bit_name := Some name,
                                e_registration := Some (new_registration (ld_table ld) (ld_max_scored ld)),
                                e_round_counter := Suc (e_round_counter e1),
                                e_round_id := Some (make_round_id name (Suc (e_round_counter e1)) token),
                                e_slots := foldl (\<lambda>d q. dset (rq_slot q) q d) [] (ld_requirements ld),
                                e_generators := Some (new_runner (generator_specs (ld_functions ld))),
                                e_streams := streams_by_verb (ld_functions ld),
                                e_load_warnings := warnings\<rparr>;
                        e3 = (if warnings = [] then e2 else notify (LoadWarnings warnings) e2);
                        e4 = set_state SETUP (set_state LOADED e3)
                    in case on_bit (v_on_setup_enter env) e4 of
                         (e5, Ret _) \<Rightarrow> (e5, Ok ())
                       | (e5, Raised) \<Rightarrow> (e5, Err Uncaught))))"

subsection \<open>Starting\<close>

text \<open>
  \<open>materialize\<close> cannot fail on a reservation of a declared role; its exception path is here with the
  registration left as it was.
\<close>

definition run :: "'b env \<Rightarrow> 'b engine \<Rightarrow> 'b engine \<times> unit res" where
  "run env e =
     (if e_state e \<noteq> SETUP then (e, Err InvalidTransition)
      else (let e1 = set_state RUNNING (e\<lparr>e_run_elapsed := 0\<rparr>)
            in case (e_registration e1, e_bit e1) of
                 (Some reg, Some b) \<Rightarrow>
                   (case materialize (jam_for env e1) (jam_candidates env e1) b reg of
                      None \<Rightarrow> (e1, Err Uncaught)
                    | Some (out, b', reg') \<Rightarrow>
                        (case grant_all env out (e1\<lparr>e_bit := Some b', e_registration := Some reg'\<rparr>) of
                           (e2, Err f) \<Rightarrow> (e2, Err f)
                         | (e2, Ok _) \<Rightarrow>
                             (let e3 = (if out = [] then e2 else notify DevicesChange (notify RegistrationChange e2))
                              in case on_bit (v_on_run_start env) e3 of
                                   (e4, Ret _) \<Rightarrow> (e4, Ok ())
                                 | (e4, Raised) \<Rightarrow> (e4, Err Uncaught))))
               | _ \<Rightarrow> (e1, Err Uncaught)))"

definition bit_config :: "'b env \<Rightarrow> 'b engine \<Rightarrow> bit_conf option" where
  "bit_config env e = (case e_bit e of None \<Rightarrow> None | Some b \<Rightarrow> v_config env b)"

text \<open>\<open>'WAITING'\<close> / \<open>'FULL'\<close>, or nothing outside a lobby.\<close>

definition lobby_state :: "'b env \<Rightarrow> 'b engine \<Rightarrow> lobby_phase option" where
  "lobby_state env e =
     (case e_registration e of
        None \<Rightarrow> None
      | Some reg \<Rightarrow>
          if e_state e \<noteq> SETUP then None
          else if (case bit_config env e of None \<Rightarrow> False | Some c \<Rightarrow> \<not> bc_lobby_enabled c) then None
          else (case scored_cap reg of
                  None \<Rightarrow> Some WAITING
                | Some cap \<Rightarrow>
                    if cap \<noteq> 0 \<and> cap \<le> int (length (rg_validated reg)) then Some FULL else Some WAITING))"

text \<open>
  \<open>request_start\<close>: the reason of a refusal. \<open>NotInSetup\<close> also stands for the text of the
  \<open>InvalidTransition\<close> the source catches around \<open>run\<close>.
\<close>

definition request_start ::
  "'b env \<Rightarrow> string option \<Rightarrow> dev option \<Rightarrow> string \<Rightarrow> 'b engine \<Rightarrow> 'b engine \<times> start_reason option res" where
  "request_start env key source_dev source e =
     (let cond = Option.bind (bit_config env e) bc_start;
          (e1, scored) = (if e_registration e = None then (e, Ret 0)
             else (case on_bit (v_role_table env) e of
                     (e', Raised) \<Rightarrow> (e', Raised)
                   | (e', Ret table) \<Rightarrow> (e', Ret (scored_count (e_registration e') table))))
      in case scored of
           Raised \<Rightarrow> (e1, Err Uncaught)
         | Ret n \<Rightarrow>
             (let decision = decide_start (e_bit e1 \<noteq> None) (e_state e1 = SETUP)
                    (Some (case cond of None \<Rightarrow> Immediate | Some c \<Rightarrow> sc_when c))
                    (Option.bind cond sc_key) key (is_admin env source_dev) n
                    (case cond of None \<Rightarrow> 0 | Some c \<Rightarrow> sc_min_scored c);
                  finish = (\<lambda>e' ok why fb.
                    (notify (StartRequested source source_dev ok why fb) e', Ok why))
              in if \<not> sd_accepted decision
                 then finish e1 False (sd_reason decision) (sd_feedback decision)
                 else case run env e1 of
                        (e2, Ok _) \<Rightarrow> finish e2 True None (sd_feedback decision)
                      | (e2, Err InvalidTransition) \<Rightarrow> finish e2 False (Some NotInSetup) FEEDBACK_REFUSED
                      | (e2, Err f) \<Rightarrow> (e2, Err f)))"

subsection \<open>Handshakes\<close>

text \<open>\<open>default_scored_node\<close>; \<open>Raised\<close> is the \<open>KeyError\<close> of a node that offers an undeclared role.\<close>

fun first_scored_node :: "role_table \<Rightarrow> (node \<times> string list) list \<Rightarrow> node option outcome" where
  "first_scored_node table [] = Ret None"
| "first_scored_node table ((n, names) # rest) =
     (case names of
        [] \<Rightarrow> first_scored_node table rest
      | name # _ \<Rightarrow>
          (case dget (rt_roles table) name of
             None \<Rightarrow> Raised
           | Some r \<Rightarrow> if r_scored r then Ret (Some n) else first_scored_node table rest))"

definition scored_in :: "role_table \<Rightarrow> string \<Rightarrow> bool" where
  "scored_in table name \<longleftrightarrow> (case dget (rt_roles table) name of None \<Rightarrow> False | Some r \<Rightarrow> r_scored r)"

definition default_scored_node :: "'b env \<Rightarrow> 'b engine \<Rightarrow> node option outcome" where
  "default_scored_node env e =
     (case e_registration e of
        None \<Rightarrow> Ret None
      | Some reg \<Rightarrow>
          (let table = rg_table reg;
               from_role = (case bit_config env e of None \<Rightarrow> None | Some c \<Rightarrow>
                  if bc_default_join_role c \<noteq> [] \<and> scored_in table (bc_default_join_role c)
                  then dget (bc_nodes c) (bc_default_join_role c) else None);
               from_nodes = (case bit_config env e of None \<Rightarrow> None | Some c \<Rightarrow>
                  map_option snd (List.find (\<lambda>(name, _). scored_in table name) (bc_nodes c)))
           in case from_role of
                Some n \<Rightarrow> Ret (Some n)
              | None \<Rightarrow> (case from_nodes of
                           Some n \<Rightarrow> Ret (Some n)
                         | None \<Rightarrow> first_scored_node table (rt_node_map table))))"

definition is_room_node :: "registration \<Rightarrow> node \<Rightarrow> bool" where
  "is_room_node reg n \<longleftrightarrow>
     list_ex (\<lambda>name. case dget (roles_of reg) name of None \<Rightarrow> False | Some r \<Rightarrow> r_class r = CLASS_ROOM)
       (case dget (rt_node_map (rg_table reg)) n of None \<Rightarrow> [] | Some names \<Rightarrow> names)"

definition room_armed :: "rat \<Rightarrow> 'b engine \<Rightarrow> bool" where
  "room_armed now e \<longleftrightarrow>
     (case (e_binding e, e_room e) of
        (Some br, Some r) \<Rightarrow> is_armed (rm_name r) now br
      | _ \<Rightarrow> False)"

text \<open>A mute latched on a plain player moves to the fixture it binds; \<open>None\<close> when the fixture has no token.\<close>

definition migrate_mute_on_bind :: "'b env \<Rightarrow> dev \<Rightarrow> string \<Rightarrow> 'b engine \<Rightarrow> 'b engine option" where
  "migrate_mute_on_bind env d fixture e =
     (if d \<notin> set (e_muted e) then Some e
      else case fixture_dev fixture of
             None \<Rightarrow> None
           | Some token \<Rightarrow>
               Some (send_guarded env (SinkMute token True)
                 (send_guarded env (SinkMute d False)
                   (e\<lparr>e_muted := List.insert token (filter (\<lambda>m. m \<noteq> d) (e_muted e))\<rparr>))))"

definition bind_room :: "'b env \<Rightarrow> dev \<Rightarrow> rat \<Rightarrow> 'b engine \<Rightarrow> 'b engine \<times> bool" where
  "bind_room env d now e =
     (case (e_binding e, e_room e) of
        (Some br, Some r) \<Rightarrow>
          (case armed_fixture (rm_name r) now br of
             None \<Rightarrow> (notify DevicesChange e, True)
           | Some fixture \<Rightarrow>
               (let e1 = e\<lparr>e_binding := Some (bind_fixture (rm_name r) fixture d br),
                           e_room := Some (r\<lparr>rm_bound := dset fixture d (rm_bound r)\<rparr>)\<rparr>
                in case migrate_mute_on_bind env d fixture e1 of
                     None \<Rightarrow> (e1, False)
                   | Some e2 \<Rightarrow> (notify DevicesChange e2, True)))
      | _ \<Rightarrow> (notify DevicesChange e, True))"

definition handshake_room ::
  "'b env \<Rightarrow> dev \<Rightarrow> node \<Rightarrow> rat \<Rightarrow> rat \<Rightarrow> registration \<Rightarrow> 'b engine \<Rightarrow> 'b engine \<times> join_result res" where
  "handshake_room env d n now1 now2 reg e =
     (if \<not> room_armed now1 e then (e, Ok (denied NoSuchNode))
      else case join_room reg d n of
             None \<Rightarrow> (e, Err Uncaught)
           | Some (jr, reg') \<Rightarrow>
               (let e1 = e\<lparr>e_registration := Some reg'\<rparr>
                in if \<not> jr_granted jr then (e1, Ok jr)
                   else case bind_room env d now2 e1 of
                          (e2, False) \<Rightarrow> (e2, Err Uncaught)
                        | (e2, True) \<Rightarrow>
                            (if dmem d (rg_validated reg) \<and> \<not> dmem d (rg_validated reg')
                             then notify RegistrationChange e2 else e2, Ok jr)))"

text \<open>A role's requirement against the carried instrument, at handshake.\<close>

definition slot_refusal :: "'b engine \<Rightarrow> dev \<Rightarrow> role \<Rightarrow> unmet option" where
  "slot_refusal e d r =
     (case r_requires r of
        None \<Rightarrow> None
      | Some slot \<Rightarrow>
          (case dget (e_slots e) slot of
             None \<Rightarrow> None
           | Some req \<Rightarrow> satisfies (carried_by e d) req None))"

definition handshake_player ::
  "'b env \<Rightarrow> dev \<Rightarrow> node \<Rightarrow> registration \<Rightarrow> 'b engine \<Rightarrow> 'b engine \<times> join_result res" where
  "handshake_player env d target reg e =
     (case validate reg d target of
        None \<Rightarrow> (e, Err Uncaught)
      | Some (jr, reg') \<Rightarrow>
          (let e1 = e\<lparr>e_registration := Some reg'\<rparr>
           in if \<not> jr_granted jr \<or> dmem d (rg_validated reg) then (e1, Ok jr)
              else case Option.bind (jr_role jr) (dget (roles_of reg')) of
                     None \<Rightarrow> (e1, Err Uncaught)
                   | Some r \<Rightarrow>
                       (case slot_refusal e1 d r of
                          Some why \<Rightarrow>
                            (e1\<lparr>e_registration := Some (release d reg')\<rparr>, Ok (denied (SlotUnmet why)))
                        | None \<Rightarrow> (notify RegistrationChange e1, Ok jr))))"

definition handshake ::
  "'b env \<Rightarrow> dev \<Rightarrow> string \<Rightarrow> node \<Rightarrow> rat \<Rightarrow> rat \<Rightarrow> 'b engine \<Rightarrow> 'b engine \<times> join_result res" where
  "handshake env d round_id n now1 now2 e =
     (if pool_get d (e_devices e) = None then (e, Ok (denied NotConnected))
      else case e_registration e of
             None \<Rightarrow> (e, Ok (denied RegistrationClosed))
           | Some reg \<Rightarrow>
               if n \<noteq> [] \<and> is_room_node reg n then handshake_room env d n now1 now2 reg e
               else if d \<in> set (bound_devs e) then (e, Ok (denied RegistrationClosed))
               else if e_bit e = None \<or> e_state e \<noteq> SETUP then (e, Ok (denied RegistrationClosed))
               else if Some round_id \<noteq> e_round_id e then (e, Ok (denied NoReason))
               else if n \<noteq> [] then handshake_player env d n reg e
               else case default_scored_node env e of
                      Raised \<Rightarrow> (e, Err Uncaught)
                    | Ret None \<Rightarrow> (e, Ok (denied NoSuchNode))
                    | Ret (Some target) \<Rightarrow>
                        handshake_player env d target reg e)"

end
