(* ===== verification/Engine_Run.thy ===== *)
theory Engine_Run
  imports Engine_Control
begin

section \<open>The engine: gestures, ticks and the end of a Bit\<close>

text \<open>
  \<open>data\<close> and what routes a gesture, \<open>run_action\<close>, \<open>tick\<close>, \<open>abort\<close>, completion and unloading, and the
  calls of the engine as one step function.
\<close>

subsection \<open>A gesture's origin\<close>

definition MAX_GESTURE_LEAD :: rat where "MAX_GESTURE_LEAD = 5"

text \<open>\<open>_origin\<close>: the origin time, and whether the gtime was counted as rejected.\<close>

definition origin :: "rat \<Rightarrow> pyfloat option \<Rightarrow> pyfloat \<times> bool" where
  "origin now gtime =
     (case gtime of
        None \<Rightarrow> (Fin now, False)
      | Some g \<Rightarrow>
          if fle g (Fin 0) then (Fin now, False)
          else if flt (Fin (now + MAX_GESTURE_LEAD)) g then (Fin now, True)
          else (g, False))"

subsection \<open>Stream triggers\<close>

fun as_arith :: "pyval \<Rightarrow> pyfloat option" where
  "as_arith (VBool b) = Some (Fin (if b then 1 else 0))"
| "as_arith v = as_number v"

text \<open>
  One trigger on the arguments: the new arguments and state, or \<open>None\<close> for an exception (a negative
  position before the first argument, an \<open>alpha\<close> that is no number). The first sample passes unchanged.
\<close>

definition apply_trigger ::
  "dev \<Rightarrow> stream_trigger \<Rightarrow> pyval list \<times> (dev \<times> string, pyfloat) dict \<Rightarrow>
   (pyval list \<times> (dev \<times> string, pyfloat) dict) option" where
  "apply_trigger d trig s =
     (case s of (args, ema) \<Rightarrow>
        if int (length args) \<le> tg_arg trig then Some s
        else case py_index args (tg_arg trig) of
               None \<Rightarrow> None
             | Some i \<Rightarrow>
                 (case as_number (args ! i) of
                    None \<Rightarrow> Some s
                  | Some x \<Rightarrow>
                      if tg_transform trig \<noteq> ''smooth'' then Some s
                      else (case dget ema (d, tg_name trig) of
                              None \<Rightarrow> Some (args, dset (d, tg_name trig) x ema)
                            | Some prev \<Rightarrow>
                                (case (case dget (tg_params trig) ''alpha'' of None \<Rightarrow> Some (Fin 1) | Some a \<Rightarrow> as_arith a) of
                                   None \<Rightarrow> None
                                 | Some alpha \<Rightarrow>
                                     (let y = fadd (fmul alpha x) (fmul (fsub (Fin 1) alpha) prev)
                                      in Some (args[i := VFloat y], dset (d, tg_name trig) y ema))))))"

fun apply_triggers ::
  "dev \<Rightarrow> stream_trigger list \<Rightarrow> pyval list \<times> (dev \<times> string, pyfloat) dict \<Rightarrow>
   (pyval list \<times> (dev \<times> string, pyfloat) dict) option" where
  "apply_triggers d [] s = Some s"
| "apply_triggers d (t # ts) s =
     (case apply_trigger d t s of None \<Rightarrow> None | Some s' \<Rightarrow> apply_triggers d ts s')"

definition apply_stream_triggers ::
  "dev \<Rightarrow> string \<Rightarrow> pyval list \<Rightarrow> 'b engine \<Rightarrow> (pyval list \<times> 'b engine) option" where
  "apply_stream_triggers d verb args e =
     map_option (\<lambda>(args', ema). (args', e\<lparr>e_ema := ema\<rparr>))
       (apply_triggers d (filter (\<lambda>t. tg_verb t = verb) (i_stream_triggers (carried_by e d))) (args, e_ema e))"

subsection \<open>Gestures\<close>

definition solo_gesture ::
  "'b env \<Rightarrow> dev \<Rightarrow> string \<Rightarrow> pyval list \<Rightarrow> pyfloat \<Rightarrow> rat \<Rightarrow> 'b engine \<Rightarrow> 'b engine \<times> refusal option res" where
  "solo_gesture env d verb args t now e =
     (let bindings = (case i_solo (carried_by e d) of None \<Rightarrow> [] | Some solo \<Rightarrow> so_bindings solo)
      in case solo_event verb args of
           Raised \<Rightarrow> (e, Err Uncaught)
         | Ret event \<Rightarrow>
             (case dget bindings event of
                None \<Rightarrow> (e, Ok None)
              | Some fn \<Rightarrow>
                  (case fire_function env fn ByGestureVerb (Some d) (Some t) now e of
                     (e', Ret _) \<Rightarrow> (e', Ok None)
                   | (e', Raised) \<Rightarrow> (e', Err Uncaught))))"

definition stream_specs :: "string \<Rightarrow> 'b engine \<Rightarrow> stream_spec list" where
  "stream_specs verb e =
     (case dget (e_streams e) verb of None \<Rightarrow> [] | Some fns \<Rightarrow> List.map_filter f_stream fns)"

definition route_gesture ::
  "'b env \<Rightarrow> dev \<Rightarrow> string \<Rightarrow> pyval list \<Rightarrow> string \<Rightarrow> pyfloat \<Rightarrow> rat \<Rightarrow> 'b engine \<Rightarrow>
   'b engine \<times> refusal option res" where
  "route_gesture env d verb args role_name t now e =
     (if is_solo_role role_name then solo_gesture env d verb args t now e
      else case on_bit (v_verbs env) e of
             (e1, Raised) \<Rightarrow> (e1, Ok (Some HandlerError))
           | (e1, Ret verbs) \<Rightarrow>
               (case apply_stream_triggers d verb args e1 of
                  None \<Rightarrow> (e1, Err Uncaught)
                | Some (args', e2) \<Rightarrow>
                    if verb \<notin> set verbs \<and> stream_specs verb e2 = [] then (e2, Ok (Some (UnknownVerb verb)))
                    else case collect_stream_cues (stream_specs verb e2) d args' of
                           None \<Rightarrow> (e2, Err Uncaught)
                         | Some streamed \<Rightarrow>
                             if verb \<notin> set verbs
                             then (dispatch_cues env t ByGestureVerb now streamed e2, Ok None)
                             else (case on_bit (\<lambda>b. v_handler env b verb d args' t) e2 of
                                     (e3, Raised) \<Rightarrow> (e3, Ok (Some HandlerError))
                                   | (e3, Ret (Refusing why)) \<Rightarrow> (e3, Ok (Some (HandlerRefused why)))
                                   | (e3, Ret (Cues cues)) \<Rightarrow>
                                       (dispatch_cues env t ByGestureVerb now (streamed @ cues) e3, Ok None))))"

text \<open>\<open>data\<close>; \<open>received\<close> is its own clock reading, \<open>now\<close> the one \<open>_origin\<close> makes.\<close>

definition data ::
  "'b env \<Rightarrow> dev \<Rightarrow> string \<Rightarrow> pyval list \<Rightarrow> pyfloat option \<Rightarrow> rat \<Rightarrow> rat \<Rightarrow> 'b engine \<Rightarrow>
   'b engine \<times> refusal option res" where
  "data env d verb args gtime received now e =
     (if \<not> in_play e then (e, Ok (Some NoBitRunning))
      else case e_registration e of
             None \<Rightarrow> (e, Err Uncaught)
           | Some reg \<Rightarrow>
               (case dget (rg_assignments reg) d of
                  None \<Rightarrow> (e, Ok (Some DeviceNotRegistered))
                | Some (_, role_name, _) \<Rightarrow>
                    (let (start, rejected) = origin now gtime;
                         e1 = (if rejected then e\<lparr>e_rejected_stamps := Suc (e_rejected_stamps e)\<rparr> else e);
                         t = fadd start (Fin (v_horizon env))
                     in case route_gesture env d verb args role_name t now e1 of
                          (e2, Err f) \<Rightarrow> (e2, Err f)
                        | (e2, Ok verdict) \<Rightarrow> (notify (Gesture d verb received t verdict) e2, Ok verdict))))"

definition run_action :: "'b env \<Rightarrow> string \<Rightarrow> rat \<Rightarrow> 'b engine \<Rightarrow> 'b engine \<times> refusal option" where
  "run_action env name now e =
     (if \<not> in_play e then (e, Some NoBitRunning)
      else case on_bit (v_actions env) e of
             (e1, Raised) \<Rightarrow> (e1, Some ActionError)
           | (e1, Ret names) \<Rightarrow>
               if name \<notin> set names then (e1, Some (UnknownAction name))
               else (let t = Fin (now + v_horizon env)
                     in case on_bit (\<lambda>b. v_action env b name t) e1 of
                          (e2, Raised) \<Rightarrow> (e2, Some ActionError)
                        | (e2, Ret (Refusing why)) \<Rightarrow> (e2, Some (ActionRefused why))
                        | (e2, Ret (Cues cues)) \<Rightarrow> (dispatch_cues env t ByAdminManual now cues e2, None)))"

subsection \<open>The end of a Bit\<close>

fun release_sinks :: "'b env \<Rightarrow> dev list \<Rightarrow> 'b engine \<Rightarrow> 'b engine" where
  "release_sinks env [] e = e"
| "release_sinks env (d # ds) e = release_sinks env ds (send_guarded env (SinkRelease d) e)"

definition forget_bit :: "'b engine \<Rightarrow> 'b engine" where
  "forget_bit e =
     e\<lparr>e_bit := None, e_bit_name := None, e_registration := None, e_round_id := None, e_slots := [],
       e_generators := None, e_streams := [], e_ema := [], e_run_elapsed := 0, e_load_warnings := []\<rparr>"

definition unload :: "'b env \<Rightarrow> 'b engine \<Rightarrow> 'b engine \<times> unit res" where
  "unload env e =
     (let e1 = set_state UNLOADING e
      in case clear_mutes env (e_muted e1) e1 of
           (e2, False) \<Rightarrow> (e2, Err Uncaught)
         | (e2, True) \<Rightarrow>
             (case e_registration e2 of
                None \<Rightarrow> (e2, Err Uncaught)
              | Some reg \<Rightarrow>
                  (let (released, reg') = release_all reg;
                       e3 = release_sinks env released (e2\<lparr>e_registration := Some reg'\<rparr>);
                       e4 = fst (on_bit (v_on_unload env) (notify DevicesChange e3))
                   in (set_state IDLE (forget_bit e4), Ok ()))))"

definition run_on_complete :: "'b env \<Rightarrow> 'b engine \<Rightarrow> 'b engine" where
  "run_on_complete env e = fst (on_bit (v_on_complete env) e)"

definition abort :: "'b env \<Rightarrow> 'b engine \<Rightarrow> 'b engine \<times> unit res" where
  "abort env e =
     (if e_state e = IDLE then (e, Err InvalidTransition)
      else unload env (run_on_complete env e))"

definition complete :: "'b env \<Rightarrow> 'b engine \<Rightarrow> 'b engine \<times> unit res" where
  "complete env e = unload env (run_on_complete env (set_state COMPLETING e))"

subsection \<open>Ticks\<close>

definition fires_allowed :: "cue \<Rightarrow> bool" where
  "fires_allowed c \<longleftrightarrow>
     (case c of FireFunction _ _ _ \<Rightarrow> True | LightCue _ _ _ _ _ \<Rightarrow> True | MusicCue _ _ _ _ _ _ \<Rightarrow> True
        | MusicPurge _ _ \<Rightarrow> True | PixelFlashCue _ _ _ _ _ \<Rightarrow> True | _ \<Rightarrow> False)"

definition dispatch_generator_cues :: "'b env \<Rightarrow> rat \<Rightarrow> 'b engine \<Rightarrow> 'b engine \<times> unit res" where
  "dispatch_generator_cues env now e =
     (case e_generators e of
        None \<Rightarrow> (e, Ok ())
      | Some r \<Rightarrow>
          (let t = Fin (now + v_horizon env)
           in case runner_cues (resolve_devs e) r (e_run_elapsed e) t of
                None \<Rightarrow> (e, Err Uncaught)
              | Some cues \<Rightarrow> (dispatch_cues env t ByBitAdjudicated now cues e, Ok ())))"

definition dispatch_bit_fires :: "'b env \<Rightarrow> rat \<Rightarrow> 'b engine \<Rightarrow> 'b engine" where
  "dispatch_bit_fires env now e =
     (let t = Fin (now + v_horizon env)
      in case on_bit (\<lambda>b. v_fires env b t) e of
           (e1, Raised) \<Rightarrow> e1
         | (e1, Ret fires) \<Rightarrow> dispatch_cues env t ByBitAdjudicated now (filter fires_allowed fires) e1)"

definition tick :: "'b env \<Rightarrow> rat \<Rightarrow> rat \<Rightarrow> rat \<Rightarrow> 'b engine \<Rightarrow> 'b engine \<times> unit res" where
  "tick env dt now1 now2 e =
     (if e_state e \<noteq> RUNNING then (e, Ok ())
      else (let e1 = e\<lparr>e_run_elapsed := e_run_elapsed e + dt\<rparr>
            in case on_bit (\<lambda>b. v_update env b dt) e1 of
                 (e2, Raised) \<Rightarrow> (e2, Err Uncaught)
               | (e2, Ret True) \<Rightarrow> complete env e2
               | (e2, Ret False) \<Rightarrow>
                   (case dispatch_generator_cues env now1 e2 of
                      (e3, Err f) \<Rightarrow> (e3, Err f)
                    | (e3, Ok _) \<Rightarrow> (dispatch_bit_fires env now2 e3, Ok ()))))"

subsection \<open>The calls a transport makes\<close>

datatype call =
    CHello dev string string "string option" rat
  | CReap rat rat
  | CLoad string string
  | CStart "string option" "dev option" string
  | CHandshake dev string node rat rat
  | CData dev string "pyval list" "pyfloat option" rat rat
  | CAction string rat
  | CFire string fired_by "dev option" "pyfloat option" rat
  | CTick rat rat rat
  | CAbort

fun engine_step :: "'b env \<Rightarrow> 'b engine \<Rightarrow> call \<Rightarrow> 'b engine" where
  "engine_step env e (CHello d name proto declared now) = fst (hello env d name proto declared now e)"
| "engine_step env e (CReap timeout now) = fst (reap_stale env timeout now e)"
| "engine_step env e (CLoad name token) = fst (load_bit env name token e)"
| "engine_step env e (CStart key source_dev source) = fst (request_start env key source_dev source e)"
| "engine_step env e (CHandshake d round_id n now1 now2) = fst (handshake env d round_id n now1 now2 e)"
| "engine_step env e (CData d verb args gtime received now) = fst (data env d verb args gtime received now e)"
| "engine_step env e (CAction name now) = fst (run_action env name now e)"
| "engine_step env e (CFire name by d at_time now) = fst (fire_function env name by d at_time now e)"
| "engine_step env e (CTick dt now1 now2) = fst (tick env dt now1 now2 e)"
| "engine_step env e CAbort = fst (abort env e)"

end
