(* ===== verification/Engine_Frames.thy ===== *)
theory Engine_Frames
  imports Engine_Run
begin

section \<open>What a fire or a dispatch leaves alone\<close>

text \<open>
  The part of the engine that a fire, a dispatch or a sink call never changes (its \<open>book\<close>: lifecycle,
  registration, devices, room, round), with the list of state changes it has announced so far. The facts
  collected in \<open>book_simps\<close> carry every later proof about the lifecycle.
\<close>

named_theorems book_simps \<open>operations that leave the book alone\<close>

fun log_of :: "effect \<Rightarrow> (gs_state \<times> gs_state) option" where
  "log_of (Notify (StateChange a b)) = Some (a, b)"
| "log_of _ = None"

definition state_log :: "'b engine \<Rightarrow> (gs_state \<times> gs_state) list" where
  "state_log e = List.map_filter log_of (e_trace e)"

definition book :: "'b engine \<Rightarrow> _" where
  "book e =
     ((e_state e, e_devices e, e_room e, e_binding e), (e_bit_name e, e_registration e, e_round_id e, e_round_counter e),
      (e_slots e, e_streams e, e_run_elapsed e, e_room_name e, e_config_version e),
      (e_warned_instruments e, e_rejected_stamps e, e_load_warnings e),
      state_log e, e_bit e = None, e_generators e = None)"

lemma bookD:
  assumes "book e' = book e"
  shows "e_state e' = e_state e" "e_devices e' = e_devices e" "e_room e' = e_room e"
    "e_registration e' = e_registration e" "e_round_id e' = e_round_id e" "state_log e' = state_log e"
    "e_slots e' = e_slots e" "e_bit e' = None \<longleftrightarrow> e_bit e = None" "e_binding e' = e_binding e"
    "e_round_counter e' = e_round_counter e" "e_generators e' = None \<longleftrightarrow> e_generators e = None"
    "e_bit_name e' = e_bit_name e"
  using assms by (auto simp: book_def)

lemma map_filter_snoc: "List.map_filter f (xs @ [x]) = List.map_filter f xs @ (case f x of None \<Rightarrow> [] | Some y \<Rightarrow> [y])"
  by (induction xs) (simp_all add: List.map_filter_def split: option.splits)

lemma state_log_append [simp]:
  "state_log (e\<lparr>e_trace := e_trace e @ [eff]\<rparr>) =
     state_log e @ (case log_of eff of None \<Rightarrow> [] | Some p \<Rightarrow> [p])"
  by (simp add: state_log_def map_filter_snoc)

lemma state_log_update [simp]:
  "state_log (e\<lparr>e_muted := m\<rparr>) = state_log e" "state_log (e\<lparr>e_generators := g\<rparr>) = state_log e"
  "state_log (e\<lparr>e_bit := b\<rparr>) = state_log e" "state_log (e\<lparr>e_ema := y\<rparr>) = state_log e"
  "state_log (e\<lparr>e_state := s\<rparr>) = state_log e" "state_log (e\<lparr>e_registration := r\<rparr>) = state_log e"
  "state_log (e\<lparr>e_devices := p\<rparr>) = state_log e" "state_log (e\<lparr>e_room := rm\<rparr>) = state_log e"
  "state_log (e\<lparr>e_binding := br\<rparr>) = state_log e" "state_log (e\<lparr>e_run_elapsed := t\<rparr>) = state_log e"
  "state_log (e\<lparr>e_warned_instruments := w\<rparr>) = state_log e"
  "state_log (e\<lparr>e_rejected_stamps := n\<rparr>) = state_log e"
  by (simp_all add: state_log_def)

lemma book_update [book_simps]:
  "book (e\<lparr>e_muted := m\<rparr>) = book e" "book (e\<lparr>e_ema := y\<rparr>) = book e"
  by (simp_all add: book_def)

lemma book_notify [book_simps]: "log_of (Notify n) = None \<Longrightarrow> book (notify n e) = book e"
  by (simp add: book_def notify_def)

lemma book_send [book_simps]: "log_of eff = None \<Longrightarrow> book (fst (send env eff e)) = book e"
  by (simp add: book_def send_def split: sink_result.split)

lemma book_send_guarded [book_simps]: "log_of eff = None \<Longrightarrow> book (send_guarded env eff e) = book e"
  by (simp add: send_guarded_def book_send)

lemma book_on_bit [book_simps]: "book (fst (on_bit hook e)) = book e"
  by (simp add: book_def on_bit_def split: option.split prod.split)

lemma book_send_all [book_simps]:
  "(\<And>d. log_of (mk d) = None) \<Longrightarrow> book (send_all env gated mk ds e) = book e"
proof (induction ds arbitrary: e)
  case (Cons d ds)
  obtain e' failed where s: "send env (mk d) e = (e', failed)" by fastforce
  then have e': "book e' = book e" using book_send [of "mk d" env e] Cons.prems by simp
  consider "(if gated then is_muted e d else Some False) = None"
    | "(if gated then is_muted e d else Some False) = Some True"
    | "(if gated then is_muted e d else Some False) = Some False" by (metis option.exhaust)
  then show ?case using Cons s e' by cases simp_all
qed simp

lemma book_send_resolved [book_simps]:
  "(\<And>d. log_of (mk d) = None) \<Longrightarrow> book (send_resolved env gated mk d e) = book e"
  by (simp add: send_resolved_def book_send_all split: option.split)

lemma book_latch_mutes [book_simps]: "book (fst (latch_mutes ds e)) = book e"
  by (induction ds e rule: latch_mutes.induct) (simp_all add: book_update split: option.split)

lemma book_dispatch_mute [book_simps]: "book (dispatch_mute env d e) = book e"
proof -
  have "book (fst (latch_mutes ds e)) = book e" for ds by (rule book_latch_mutes)
  then show ?thesis
    by (auto simp: dispatch_mute_def Let_def book_send_all book_notify split: option.split prod.split) (metis fst_conv)+
qed

lemma book_dispatch_plain [book_simps]: "book (dispatch_plain env t c e) = book e"
  by (cases c) (simp_all add: dispatch_plain_def book_send_resolved book_dispatch_mute)

lemma book_dispatch_all_plain [book_simps]: "book (dispatch_all_plain env t cs e) = book e"
  by (induction env t cs e rule: dispatch_all_plain.induct) (simp_all add: book_dispatch_plain)

lemma book_clear_mutes_loop [book_simps]: "book (fst (clear_mutes_loop env ds cleared e)) = book e"
proof (induction env ds cleared e rule: clear_mutes_loop.induct)
  case (2 env d ds cleared e)
  then show ?case by (simp add: book_send_guarded book_update split: option.split)
qed (simp add: book_notify)

lemma book_clear_mutes [book_simps]: "book (fst (clear_mutes env ds e)) = book e"
  by (simp add: clear_mutes_def book_clear_mutes_loop)

lemma book_unmute_unless [book_simps]: "book (fst (unmute_unless env keep ds e)) = book e"
  by (simp add: unmute_unless_def book_clear_mutes)

lemma book_unmute_eq: "unmute_unless env keep ds e = (e', ok) \<Longrightarrow> book e' = book e"
  using book_unmute_unless [of env keep ds e] by simp

lemma book_generators: "e_generators e \<noteq> None \<Longrightarrow> book (e\<lparr>e_generators := Some r\<rparr>) = book e"
  by (simp add: book_def)

lemma book_suppress: "suppress_generator_lanes fn cues t e = Some e' \<Longrightarrow> book e' = book e"
  by (auto simp: suppress_generator_lanes_def book_generators split: option.splits if_splits list.splits)

lemma book_ladder_loop: "book (fst (ladder_loop name t ds cues res e)) = book e"
  by (induction name t ds cues res e rule: ladder_loop.induct)
    (auto split: option.split dest: book_suppress)

lemma book_plan_script: "book (fst (plan_script env decl devs t e)) = book e"
  by (auto simp: plan_script_def Let_def dest: book_unmute_eq split: option.split prod.split)

lemma book_plan_ladder: "book (fst (plan_ladder env name devs t e)) = book e"
proof -
  obtain e1 res where l: "ladder_loop name t devs [] [] e = (e1, res)" by fastforce
  then have e1: "book e1 = book e" using book_ladder_loop [of name t devs "[]" "[]" e] by simp
  show ?thesis
  proof (cases res)
    case None
    with l e1 show ?thesis by (simp add: plan_ladder_def)
  next
    case (Some cr)
    obtain cues resolved where cr: "cr = (cues, resolved)" by fastforce
    have "book (fst (unmute_unless env (cues = [] \<or> has_mute cues) resolved e1)) = book e"
      using e1 by (simp add: book_unmute_unless)
    then show ?thesis
      using l Some cr by (simp add: plan_ladder_def Let_def split: prod.split) (metis fst_conv)
  qed
qed

lemma book_plan_fire: "book (fst (plan_fire env name decl d at_time now e)) = book e"
  by (auto simp: plan_fire_def Let_def book_plan_script book_plan_ladder split: option.split)

lemma book_lookup_decl: "book (fst (lookup_decl env name e)) = book e"
  by (auto simp: lookup_decl_def book_def split: option.split prod.split outcome.split)

lemma log_fired_notice: "fired_notice name decl by d devs t steps rn = Some n \<Longrightarrow> log_of (Notify n) = None"
  by (auto simp: fired_notice_def split: option.splits)

theorem book_fire_function [book_simps]: "book (fst (fire_function env name by d at_time now e)) = book e"
proof -
  obtain e1 r1 where l: "lookup_decl env name e = (e1, r1)" by fastforce
  then have e1: "book e1 = book e" using book_lookup_decl [of env name e] by simp
  show ?thesis
  proof (cases r1)
    case Raised
    with l e1 show ?thesis by (simp add: fire_function_def)
  next
    case (Ret decl)
    obtain e2 p where p: "plan_fire env name decl d at_time now e1 = (e2, p)" by fastforce
    then have e2: "book e2 = book e" using book_plan_fire [of env name decl d at_time now e1] e1 by simp
    show ?thesis
      using l Ret p e2
      by (cases p)
        (auto simp: fire_function_def Let_def book_dispatch_all_plain book_notify
          dest!: book_suppress log_fired_notice split: option.split if_splits)
  qed
qed

lemma book_dispatch_cue [book_simps]: "book (dispatch_cue env t by now c e) = book e"
  by (cases c) (simp_all add: dispatch_cue_def book_fire_function book_dispatch_plain)

lemma book_dispatch_cues [book_simps]: "book (dispatch_cues env t by now cs e) = book e"
  by (induction cs arbitrary: e) (simp_all add: book_dispatch_cue)

end
