(* ===== verification/Engine_Lifecycle.thy ===== *)
theory Engine_Lifecycle
  imports Engine_Frames
begin

section \<open>The lifecycle of a Bit\<close>

text \<open>
  The state diagram of \<open>src/control/state.py\<close> as a step relation, and the invariant that every sequence
  of transport calls keeps: the announced state changes form a path of that diagram, and the parts that
  belong to a loaded Bit are all present outside IDLE and all gone in it.
\<close>

inductive lifecycle :: "gs_state \<Rightarrow> gs_state \<Rightarrow> bool" where
  load: "lifecycle IDLE LOADING"
| load_failed: "lifecycle LOADING IDLE"
| loaded: "lifecycle LOADING LOADED"
| enter_setup: "lifecycle LOADED SETUP"
| start: "lifecycle SETUP RUNNING"
| finish: "lifecycle RUNNING COMPLETING"
| completed: "lifecycle COMPLETING UNLOADING"
| abort_setup: "lifecycle SETUP UNLOADING"
| abort_running: "lifecycle RUNNING UNLOADING"
| abort_again: "lifecycle UNLOADING UNLOADING"
| unloaded: "lifecycle UNLOADING IDLE"

inductive_simps lifecycle_from:
  "lifecycle IDLE s" "lifecycle SETUP s" "lifecycle RUNNING s" "lifecycle UNLOADING s"

inductive_cases to_running: "lifecycle s RUNNING"

code_pred lifecycle .

fun path :: "gs_state \<Rightarrow> (gs_state \<times> gs_state) list \<Rightarrow> gs_state \<Rightarrow> bool" where
  "path s [] t \<longleftrightarrow> s = t"
| "path s ((a, b) # rest) t \<longleftrightarrow> a = s \<and> lifecycle a b \<and> path b rest t"

lemma path_append: "path s (l @ m) t \<longleftrightarrow> (\<exists>u. path s l u \<and> path u m t)"
  by (induction s l t rule: path.induct) auto

lemma path_snoc: "path s l t \<Longrightarrow> lifecycle t u \<Longrightarrow> path s (l @ [(t, u)]) u"
  by (auto simp: path_append)

definition spine :: "'b engine \<Rightarrow> _" where
  "spine e = ((e_state e, state_log e), (e_registration e = None, e_bit e = None),
     (e_bit_name e = None, e_round_id e = None, e_generators e = None))"

lemma spine_book: "book e' = book e \<Longrightarrow> spine e' = spine e"
  by (auto simp: spine_def dest: bookD)

text \<open>The invariant. A stuck \<open>UNLOADING\<close> is possible only by an exception of the mute loop.\<close>

definition engine_ok :: "'b engine \<Rightarrow> bool" where
  "engine_ok e \<longleftrightarrow>
     path IDLE (state_log e) (e_state e)
     \<and> e_state e \<in> {IDLE, SETUP, RUNNING, UNLOADING}
     \<and> (e_state e = IDLE \<longrightarrow> e_registration e = None \<and> e_bit e = None \<and> e_bit_name e = None
          \<and> e_round_id e = None \<and> e_generators e = None)
     \<and> (e_state e \<noteq> IDLE \<longrightarrow> e_registration e \<noteq> None \<and> e_bit e \<noteq> None \<and> e_bit_name e \<noteq> None
          \<and> e_round_id e \<noteq> None \<and> e_generators e \<noteq> None)"

lemma engine_ok_spine: "spine e' = spine e \<Longrightarrow> engine_ok e' = engine_ok e"
  by (simp add: spine_def engine_ok_def)

lemma engine_ok_book: "book e' = book e \<Longrightarrow> engine_ok e \<Longrightarrow> engine_ok e'"
  using engine_ok_spine spine_book by blast

subsection \<open>Calls that keep the spine\<close>

lemma spine_update [simp]:
  "spine (e\<lparr>e_devices := p\<rparr>) = spine e" "spine (e\<lparr>e_room := rm\<rparr>) = spine e" "spine (e\<lparr>e_binding := br\<rparr>) = spine e"
  "spine (e\<lparr>e_warned_instruments := w\<rparr>) = spine e" "spine (e\<lparr>e_ema := y\<rparr>) = spine e"
  "spine (e\<lparr>e_run_elapsed := t\<rparr>) = spine e" "spine (e\<lparr>e_rejected_stamps := n\<rparr>) = spine e"
  "spine (e\<lparr>e_muted := m\<rparr>) = spine e"
  by (simp_all add: spine_def)

lemma spine_registration: "e_registration e \<noteq> None \<Longrightarrow> spine (e\<lparr>e_registration := Some r\<rparr>) = spine e"
  by (simp add: spine_def)

lemma spine_bit_registration:
  "e_registration e \<noteq> None \<Longrightarrow> e_bit e \<noteq> None \<Longrightarrow>
   spine (e\<lparr>e_bit := Some b, e_registration := Some r\<rparr>) = spine e"
  by (simp add: spine_def state_log_def)

lemma spine_notify [simp]: "log_of (Notify n) = None \<Longrightarrow> spine (notify n e) = spine e"
  by (rule spine_book) (rule book_notify)

lemma spine_guarded [simp]: "log_of eff = None \<Longrightarrow> spine (send_guarded env eff e) = spine e"
  by (rule spine_book) (rule book_send_guarded)

lemma spine_on_bit [simp]: "spine (fst (on_bit hook e)) = spine e"
  by (rule spine_book) (rule book_on_bit)

lemma spine_on_bit_eq: "on_bit hook e = (e', r) \<Longrightarrow> spine e' = spine e"
  using spine_on_bit [of hook e] by simp

lemma spine_dispatch_cues [simp]: "spine (dispatch_cues env t by now cs e) = spine e"
  by (rule spine_book) (rule book_dispatch_cues)

lemma spine_fire_eq: "fire_function env name by d at_time now e = (e', r) \<Longrightarrow> spine e' = spine e"
  using spine_book [OF book_fire_function] by (metis fst_conv)

lemma spine_grant: "spine (fst (grant env d r e)) = spine e"
  by (auto simp: grant_def Let_def split: option.split)

lemma spine_grant_eq: "grant env d r e = (e', res) \<Longrightarrow> spine e' = spine e"
  using spine_grant [of env d r e] by simp

lemma spine_grant_all: "spine (fst (grant_all env ds e)) = spine e"
proof (induction ds arbitrary: e)
  case (Cons x ds)
  obtain d r where x: "x = (d, r)" by fastforce
  obtain e1 res1 where g: "grant env d r e = (e1, res1)" by fastforce
  have "spine e1 = spine e" by (rule spine_grant_eq [OF g])
  with Cons.IH [of e1] show ?case by (cases res1) (simp_all add: x g)
qed simp

lemma spine_grant_all_eq: "grant_all env ds e = (e', res) \<Longrightarrow> spine e' = spine e"
  using spine_grant_all [of env ds e] by simp

lemma spine_declare: "declare_instrument env d declared e = (e', c) \<Longrightarrow> spine e' = spine e"
  by (auto simp: declare_instrument_def Let_def split: option.splits if_splits)

lemma spine_hello_pool [simp]: "spine (hello_pool d name proto now carried e) = spine e"
  by (simp add: hello_pool_def Let_def split: prod.split)

lemma spine_walk_up: "spine (fst (walk_up env d e)) = spine e"
proof (cases "e_registration e = None \<or> e_bit e = None")
  case True
  then show ?thesis by (auto simp: walk_up_def split: option.split)
next
  case False
  then obtain reg b where rb: "e_registration e = Some reg" "e_bit e = Some b" by auto
  obtain b' r where j: "jam_for env e b reg d = (b', r)" by fastforce
  obtain changed reg' where a: "assign d '''' r reg = (changed, reg')" by fastforce
  define e1 where "e1 = e\<lparr>e_bit := Some b', e_registration := Some reg'\<rparr>"
  have s1: "spine e1 = spine e" using rb by (simp add: e1_def spine_bit_registration)
  obtain e2 res where g: "grant env d r e1 = (e2, res)" by fastforce
  have s2: "spine e2 = spine e" using spine_grant_eq [OF g] s1 by simp
  have "walk_up env d e = (if changed then (case res of Ok _ \<Rightarrow> (notify RegistrationChange e2, Ok ()) | Err f \<Rightarrow> (e2, Err f))
      else (e1, Ok ()))"
    using g unfolding e1_def by (simp add: walk_up_def rb j a split: res.split)
  with s1 s2 show ?thesis by (cases res) simp_all
qed

lemma spine_hello: "spine (fst (hello env d name proto declared now e)) = spine e"
proof -
  obtain e1 carried where dec: "declare_instrument env d declared e = (e1, carried)" by fastforce
  from spine_declare [OF dec] show ?thesis by (simp add: hello_def dec Let_def spine_walk_up)
qed

lemma spine_reap_one: "spine (fst (reap_one env d e)) = spine e"
proof -
  have "spine (e\<lparr>e_registration := map_option (release d) (e_registration e)\<rparr>) = spine e"
    by (cases "e_registration e") (simp_all add: spine_def)
  then show ?thesis by (simp add: reap_one_def Let_def clear_ema_def)
qed

lemma spine_reap_loop: "spine (fst (reap_loop env ds freed e)) = spine e"
proof (induction ds arbitrary: freed e)
  case (Cons d ds)
  obtain e' f where r: "reap_one env d e = (e', f)" by fastforce
  with spine_reap_one [of env d e] Cons show ?case by simp
qed simp

lemma spine_reap: "spine (fst (reap_stale env timeout now e)) = spine e"
proof -
  obtain e1 freed where r: "reap_loop env (reap_targets timeout now e) False e = (e1, freed)" by fastforce
  with spine_reap_loop [of env "reap_targets timeout now e" False e] show ?thesis
    by (simp add: reap_stale_def Let_def)
qed

lemma spine_migrate: "migrate_mute_on_bind env d fixture e = Some e' \<Longrightarrow> spine e' = spine e"
  by (auto simp: migrate_mute_on_bind_def split: if_splits option.splits)

lemma spine_bind_room: "bind_room env d now e = (e', ok) \<Longrightarrow> spine e' = spine e"
  by (auto simp: bind_room_def Let_def dest!: spine_migrate split: option.splits)

lemma spine_handshake_room:
  "e_registration e = Some reg \<Longrightarrow> spine (fst (handshake_room env d n now1 now2 reg e)) = spine e"
  by (auto simp: handshake_room_def Let_def spine_registration dest!: spine_bind_room
      split: option.split prod.split bool.split)

lemma spine_handshake_player:
  "e_registration e = Some reg \<Longrightarrow> spine (fst (handshake_player env d target reg e)) = spine e"
  by (auto simp: handshake_player_def Let_def spine_registration split: option.split prod.split)

lemma spine_handshake: "spine (fst (handshake env d round_id n now1 now2 e)) = spine e"
  by (auto simp: handshake_def spine_handshake_room spine_handshake_player split: option.split outcome.split)

lemma spine_solo: "spine (fst (solo_gesture env d verb args t now e)) = spine e"
proof (cases "solo_event verb args")
  case (Ret event)
  show ?thesis
  proof (cases "dget (case i_solo (carried_by e d) of None \<Rightarrow> [] | Some solo \<Rightarrow> so_bindings solo) event")
    case None
    with Ret show ?thesis by (simp add: solo_gesture_def Let_def)
  next
    case (Some fn)
    obtain e' r where f: "fire_function env fn ByGestureVerb (Some d) (Some t) now e = (e', r)" by fastforce
    from spine_fire_eq [OF f] show ?thesis by (cases r) (simp_all add: solo_gesture_def Let_def Ret Some f)
  qed
qed (simp add: solo_gesture_def)

lemma spine_triggers: "apply_stream_triggers d verb args e = Some (args', e') \<Longrightarrow> spine e' = spine e"
  by (auto simp: apply_stream_triggers_def)

lemma spine_route: "spine (fst (route_gesture env d verb args role_name t now e)) = spine e"
  by (auto simp: route_gesture_def spine_solo dest!: spine_on_bit_eq spine_triggers
      split: outcome.split option.split reply.split prod.split)

lemma spine_data: "spine (fst (data env d verb args gtime received now e)) = spine e"
proof -
  have r: "spine e2 = spine e'" if "route_gesture env d verb args rn t now e' = (e2, res)" for rn t e' e2 res
    using spine_route [of env d verb args rn t now e'] that by simp
  show ?thesis
    by (auto simp: data_def Let_def dest!: r split: option.split prod.split res.split)
qed

lemma spine_action: "spine (fst (run_action env name now e)) = spine e"
  by (auto simp: run_action_def Let_def dest!: spine_on_bit_eq split: outcome.split reply.split prod.split)

lemma spine_generator_cues: "dispatch_generator_cues env now e = (e', r) \<Longrightarrow> spine e' = spine e"
  by (auto simp: dispatch_generator_cues_def Let_def split: option.splits)

lemma spine_bit_fires: "spine (dispatch_bit_fires env now e) = spine e"
  by (auto simp: dispatch_bit_fires_def Let_def dest!: spine_on_bit_eq split: outcome.split prod.split)

subsection \<open>Calls that move the lifecycle\<close>

lemma state_log_set_state [simp]: "state_log (set_state st e) = state_log e @ [(e_state e, st)]"
  by (simp add: set_state_def notify_def state_log_def List.map_filter_def)

lemma set_state_fields [simp]:
  "e_state (set_state st e) = st" "e_registration (set_state st e) = e_registration e"
  "e_bit (set_state st e) = e_bit e" "e_bit_name (set_state st e) = e_bit_name e"
  "e_round_id (set_state st e) = e_round_id e" "e_generators (set_state st e) = e_generators e"
  "e_muted (set_state st e) = e_muted e" "e_room (set_state st e) = e_room e"
  "e_devices (set_state st e) = e_devices e" "e_slots (set_state st e) = e_slots e"
  by (simp_all add: set_state_def notify_def)

text \<open>The state and the presence of the Bit's parts, without the log.\<close>

definition engaged :: "'b engine \<Rightarrow> bool" where
  "engaged e \<longleftrightarrow> e_registration e \<noteq> None \<and> e_bit e \<noteq> None \<and> e_bit_name e \<noteq> None
     \<and> e_round_id e \<noteq> None \<and> e_generators e \<noteq> None"

lemma spine_engaged: "spine e' = spine e \<Longrightarrow> engaged e' = engaged e \<and> e_state e' = e_state e \<and> state_log e' = state_log e"
  by (auto simp: spine_def engaged_def)

lemma engaged_set_state [simp]: "engaged (set_state st e) = engaged e"
  by (simp add: engaged_def)

lemma engine_okI:
  "path IDLE (state_log e) (e_state e) \<Longrightarrow> e_state e \<in> {SETUP, RUNNING, UNLOADING} \<Longrightarrow> engaged e \<Longrightarrow> engine_ok e"
  by (auto simp: engine_ok_def engaged_def)

lemma engine_ok_engaged: "engine_ok e \<Longrightarrow> e_state e \<noteq> IDLE \<Longrightarrow> engaged e"
  by (simp add: engine_ok_def engaged_def)

lemma engine_ok_path: "engine_ok e \<Longrightarrow> path IDLE (state_log e) (e_state e)"
  by (simp add: engine_ok_def)

text \<open>From an engaged engine, unloading ends in IDLE with everything forgotten or is stuck in UNLOADING.\<close>

lemma forget_bit_fields [simp]:
  "e_state (forget_bit e) = e_state e" "state_log (forget_bit e) = state_log e"
  "e_registration (forget_bit e) = None" "e_bit (forget_bit e) = None" "e_bit_name (forget_bit e) = None"
  "e_round_id (forget_bit e) = None" "e_generators (forget_bit e) = None" "e_muted (forget_bit e) = e_muted e"
  "e_room (forget_bit e) = e_room e" "e_devices (forget_bit e) = e_devices e" "e_trace (forget_bit e) = e_trace e"
  by (simp_all add: forget_bit_def state_log_def)

lemma spine_release_sinks [simp]: "spine (release_sinks env ds e) = spine e"
  by (induction ds arbitrary: e) simp_all

lemma engine_ok_unload:
  assumes p: "path IDLE (state_log e) (e_state e)" and l: "lifecycle (e_state e) UNLOADING" and g: "engaged e"
  shows "engine_ok (fst (unload env e))"
proof -
  let ?e1 = "set_state UNLOADING e"
  have p1: "path IDLE (state_log ?e1) UNLOADING" using path_snoc [OF p l] by simp
  obtain e2 ok where c: "clear_mutes env (e_muted ?e1) ?e1 = (e2, ok)" by fastforce
  have "book (fst (clear_mutes env (e_muted ?e1) ?e1)) = book ?e1" by (rule book_clear_mutes)
  then have "spine e2 = spine ?e1" using spine_book c by (metis fst_conv)
  then have e2: "engaged e2" "e_state e2 = UNLOADING" "path IDLE (state_log e2) UNLOADING"
    using spine_engaged [of e2 ?e1] g p1 by simp_all
  then obtain reg where reg: "e_registration e2 = Some reg" by (auto simp: engaged_def)
  show ?thesis
  proof (cases ok)
    case False
    with c e2 show ?thesis by (simp add: unload_def Let_def engine_okI)
  next
    case True
    obtain released reg' where r: "release_all reg = (released, reg')" by fastforce
    let ?e3 = "release_sinks env released (e2\<lparr>e_registration := Some reg'\<rparr>)"
    let ?e4 = "fst (on_bit (v_on_unload env) (notify DevicesChange ?e3))"
    have "spine ?e4 = spine e2" using reg by (simp add: spine_registration)
    then have "state_log ?e4 = state_log e2" "e_state ?e4 = UNLOADING" using spine_engaged e2(2) by metis+
    then have "engine_ok (set_state IDLE (forget_bit ?e4))"
      using path_snoc [OF e2(3) lifecycle.unloaded] by (simp add: engine_ok_def)
    with c True reg r show ?thesis by (simp add: unload_def Let_def)
  qed
qed

lemma engine_ok_complete:
  assumes "engine_ok e" and "e_state e = RUNNING"
  shows "engine_ok (fst (complete env e))"
proof -
  let ?c = "run_on_complete env (set_state COMPLETING e)"
  have "spine ?c = spine (set_state COMPLETING e)" by (simp add: run_on_complete_def)
  then have c: "engaged ?c" "e_state ?c = COMPLETING" "state_log ?c = state_log e @ [(RUNNING, COMPLETING)]"
    using spine_engaged [of ?c "set_state COMPLETING e"] engine_ok_engaged [OF assms(1)] assms(2) by simp_all
  have "path IDLE (state_log ?c) (e_state ?c)"
    using path_snoc [OF engine_ok_path [OF assms(1)], of COMPLETING] assms(2) c by (simp add: lifecycle.finish)
  then show ?thesis
    unfolding complete_def by (rule engine_ok_unload) (use c in \<open>auto intro: lifecycle.completed\<close>)
qed

lemma engine_ok_abort:
  assumes "engine_ok e"
  shows "engine_ok (fst (abort env e))"
proof (cases "e_state e = IDLE")
  case False
  let ?c = "run_on_complete env e"
  have "spine ?c = spine e" by (simp add: run_on_complete_def)
  then have c: "engaged ?c" "e_state ?c = e_state e" "path IDLE (state_log ?c) (e_state ?c)"
    using spine_engaged [of ?c e] engine_ok_engaged [OF assms False] engine_ok_path [OF assms] by simp_all
  have "lifecycle (e_state ?c) UNLOADING"
    using assms False c(2) by (auto simp: engine_ok_def lifecycle_from)
  from engine_ok_unload [OF c(3) this c(1)] False show ?thesis by (simp add: abort_def)
qed (simp add: abort_def assms)

lemma engine_ok_tick:
  assumes "engine_ok e"
  shows "engine_ok (fst (tick env dt now1 now2 e))"
proof (cases "e_state e = RUNNING")
  case True
  let ?e1 = "e\<lparr>e_run_elapsed := e_run_elapsed e + dt\<rparr>"
  obtain e2 r where u: "on_bit (\<lambda>b. v_update env b dt) ?e1 = (e2, r)" by fastforce
  have s2: "spine e2 = spine e" using spine_on_bit_eq [OF u] by simp
  have ok2: "engine_ok e2" and st2: "e_state e2 = RUNNING"
    using engine_ok_spine [OF s2] spine_engaged [OF s2] assms True by simp_all
  obtain e3 r3 where g: "dispatch_generator_cues env now1 e2 = (e3, r3)" by fastforce
  have s3: "spine e3 = spine e" using spine_generator_cues [OF g] s2 by simp
  have "engine_ok e3" "engine_ok (dispatch_bit_fires env now2 e3)"
    using engine_ok_spine s3 spine_bit_fires assms by metis+
  with True u ok2 st2 g show ?thesis
    by (cases r; cases r3) (auto simp: tick_def Let_def engine_ok_complete split: bool.split)
qed (simp add: tick_def assms)

lemma engine_ok_run:
  assumes "engine_ok e"
  shows "engine_ok (fst (run env e))"
proof (cases "e_state e = SETUP")
  case True
  let ?e1 = "set_state RUNNING (e\<lparr>e_run_elapsed := 0\<rparr>)"
  have g1: "engaged ?e1" using engine_ok_engaged [OF assms] True by (simp add: engaged_def)
  have "path IDLE (state_log ?e1) RUNNING"
    using path_snoc [OF engine_ok_path [OF assms], of RUNNING] True by (simp add: lifecycle.start)
  then have ok1: "engine_ok ?e1" using g1 by (simp add: engine_okI)
  from g1 obtain reg b where rb: "e_registration ?e1 = Some reg" "e_bit ?e1 = Some b" by (auto simp: engaged_def)
  show ?thesis
  proof (cases "materialize (jam_for env ?e1) (jam_candidates env ?e1) b reg")
    case None
    with True rb ok1 show ?thesis by (simp add: run_def Let_def)
  next
    case (Some res)
    obtain out b' reg' where res: "res = (out, b', reg')" by (metis prod_cases3)
    let ?em = "?e1\<lparr>e_bit := Some b', e_registration := Some reg'\<rparr>"
    have sm: "spine ?em = spine ?e1" by (rule spine_bit_registration) (use rb in auto)
    obtain e2 r2 where g: "grant_all env out ?em = (e2, r2)" by fastforce
    have s2: "spine e2 = spine ?e1" using spine_grant_all_eq [OF g] sm by simp
    let ?e3 = "if out = [] then e2 else notify DevicesChange (notify RegistrationChange e2)"
    have s3: "spine ?e3 = spine ?e1" using s2 by simp
    obtain e4 r4 where h: "on_bit (v_on_run_start env) ?e3 = (e4, r4)" by fastforce
    have s4: "spine e4 = spine ?e1" using spine_on_bit_eq [OF h] s3 by simp
    have "engine_ok e2" "engine_ok e4" using engine_ok_spine [OF s2] engine_ok_spine [OF s4] ok1 by simp_all
    moreover have "fst (run env e) = (case r2 of Err f \<Rightarrow> e2 | Ok _ \<Rightarrow> e4)"
      using True rb Some res g h by (simp add: run_def Let_def split: res.split outcome.split)
    ultimately show ?thesis by (simp split: res.split)
  qed
qed (simp add: run_def assms)

lemma engine_ok_request_start:
  assumes "engine_ok e"
  shows "engine_ok (fst (request_start env key source_dev source e))"
proof -
  obtain e1 scored where q: "(if e_registration e = None then (e, Ret 0)
             else (case on_bit (v_role_table env) e of
                     (e', Raised) \<Rightarrow> (e', Raised)
                   | (e', Ret table) \<Rightarrow> (e', Ret (scored_count (e_registration e') table)))) = (e1, scored)"
    by fastforce
  have "spine e1 = spine e"
    using q by (auto dest: spine_on_bit_eq split: if_splits prod.splits outcome.splits)
  then have ok1: "engine_ok e1" using engine_ok_spine assms by metis
  have n: "engine_ok (notify (StartRequested src dv ok why fb) x) = engine_ok x" for src dv ok why fb x
    by (rule engine_ok_spine) simp
  obtain e2 r2 where r: "run env e1 = (e2, r2)" by fastforce
  then have ok2: "engine_ok e2" using engine_ok_run [OF ok1, of env] by simp
  show ?thesis
    unfolding request_start_def Let_def q
    using ok1 ok2 r by (auto simp: n split: outcome.split prod.split res.split fault.split)
qed

lemma engine_ok_load:
  assumes "engine_ok e"
  shows "engine_ok (fst (load_bit env name token e))"
proof (cases "e_state e = IDLE")
  case True
  let ?e1 = "set_state LOADING e"
  have p0: "path IDLE (state_log e) IDLE" using engine_ok_path [OF assms] True by simp
  have p1: "path IDLE (state_log ?e1) LOADING" using path_snoc [OF p0 lifecycle.load] True by simp
  have gone: "e_registration e = None" "e_bit e = None" "e_bit_name e = None" "e_round_id e = None" "e_generators e = None"
    using assms True by (simp_all add: engine_ok_def)
  show ?thesis
  proof (cases "prepare_bit env name ?e1")
    case None
    have "path IDLE (state_log (set_state IDLE ?e1)) IDLE"
      using path_snoc [OF p1 lifecycle.load_failed] by simp
    with None True gone show ?thesis by (simp add: load_bit_def Let_def engine_ok_def)
  next
    case (Some ld)
    define e2 where "e2 = ?e1\<lparr>e_bit := Some (ld_bit ld), e_bit_name := Some name,
        e_registration := Some (new_registration (ld_table ld) (ld_max_scored ld)),
        e_round_counter := Suc (e_round_counter ?e1),
        e_round_id := Some (make_round_id name (Suc (e_round_counter ?e1)) token),
        e_slots := foldl (\<lambda>d q. dset (rq_slot q) q d) [] (ld_requirements ld),
        e_generators := Some (new_runner (generator_specs (ld_functions ld))),
        e_streams := streams_by_verb (ld_functions ld),
        e_load_warnings := load_warnings_of env ?e1 (ld_functions ld)\<rparr>"
    define e3 where "e3 = (if load_warnings_of env ?e1 (ld_functions ld) = [] then e2
        else notify (LoadWarnings (load_warnings_of env ?e1 (ld_functions ld))) e2)"
    let ?e4 = "set_state SETUP (set_state LOADED e3)"
    have l2: "state_log e2 = state_log ?e1" "e_state e2 = LOADING" "engaged e2"
      by (simp_all add: e2_def state_log_def engaged_def)
    have "spine e3 = spine e2" by (simp add: e3_def)
    then have e3: "state_log e3 = state_log ?e1" "e_state e3 = LOADING" "engaged e3"
      using spine_engaged [of e3 e2] l2 by simp_all
    have "path IDLE (state_log e3) LOADING" using p1 e3(1) by simp
    from path_snoc [OF path_snoc [OF this lifecycle.loaded] lifecycle.enter_setup]
    have "path IDLE (state_log ?e4) SETUP" using e3(2) by simp
    then have ok4: "engine_ok ?e4" using e3(3) by (simp add: engine_okI)
    obtain e5 r where h: "on_bit (v_on_setup_enter env) ?e4 = (e5, r)" by fastforce
    have "engine_ok e5" using engine_ok_spine [OF spine_on_bit_eq [OF h]] ok4 by simp
    moreover have "fst (load_bit env name token e) = e5"
      using True Some h unfolding load_bit_def Let_def e3_def e2_def by (simp split: outcome.split)
    ultimately show ?thesis by simp
  qed
qed (simp add: load_bit_def assms)

lemma engine_step_ok:
  assumes "engine_ok e"
  shows "engine_ok (engine_step env e c)"
proof (cases c)
  case (CHello d name proto declared now)
  with assms show ?thesis by (simp add: engine_ok_spine [OF spine_hello])
next
  case (CReap timeout now)
  with assms show ?thesis by (simp add: engine_ok_spine [OF spine_reap])
next
  case (CHandshake d round_id n now1 now2)
  with assms show ?thesis by (simp add: engine_ok_spine [OF spine_handshake])
next
  case (CData d verb args gtime received now)
  with assms show ?thesis by (simp add: engine_ok_spine [OF spine_data])
next
  case (CAction name now)
  with assms show ?thesis by (simp add: engine_ok_spine [OF spine_action])
next
  case (CFire name who d at_time now)
  with assms show ?thesis using engine_ok_book [OF book_fire_function] by simp
qed (simp_all add: assms engine_ok_load engine_ok_request_start engine_ok_tick engine_ok_abort)

interpretation engine: machine "engine_step env" engine_ok for env
  by unfold_locales (rule engine_step_ok)

lemma new_engine_ok: "engine_ok (new_engine binding)"
  by (simp add: engine_ok_def new_engine_def state_log_def)

text \<open>
  C1: The engine follows its state diagram. Whatever calls the transport makes, in whatever order and with
  whatever Bit (its hooks and the sinks may raise at any point), the state changes the engine announces
  form one path of the lifecycle diagram from IDLE to its present state, and between calls it rests only
  in IDLE, SETUP or RUNNING (or, after an exception while un-muting, in UNLOADING).
\<close>
theorem engine_follows_its_lifecycle:
  "path IDLE (state_log (foldl (engine_step env) (new_engine binding) calls))
      (e_state (foldl (engine_step env) (new_engine binding) calls))
   \<and> e_state (foldl (engine_step env) (new_engine binding) calls) \<in> {IDLE, SETUP, RUNNING, UNLOADING}"
proof -
  have "engine_ok (foldl (engine_step env) (new_engine binding) calls)"
    by (rule engine.inv_run [OF new_engine_ok])
  then show ?thesis by (simp add: engine_ok_def)
qed

text \<open>
  C2: A Bit is loaded whole or not at all. After any calls, the Bit, its name, its registration, its round
  id and its generators are all absent in IDLE and all present in every other resting state, so no
  operation ever works on half a Bit.
\<close>
theorem bit_loaded_whole_or_not:
  "let e = foldl (engine_step env) (new_engine binding) calls; idle = (e_state e = IDLE)
   in (e_registration e = None) = idle \<and> (e_bit e = None) = idle \<and> (e_bit_name e = None) = idle
    \<and> (e_round_id e = None) = idle \<and> (e_generators e = None) = idle"
proof -
  have "engine_ok (foldl (engine_step env) (new_engine binding) calls)"
    by (rule engine.inv_run [OF new_engine_ok])
  then show ?thesis by (auto simp: engine_ok_def Let_def split: if_splits)
qed

end
