(* ===== verification/Engine_Facts.thy ===== *)
theory Engine_Facts
  imports Engine_Lifecycle Room_Facts
begin

section \<open>What the engine promises\<close>

text \<open>
  Properties of the engine's operations: what a fire may change, when it can raise, what muting, joining,
  loading, reaping and unloading guarantee, and the arithmetic of gesture stamps and smoothing.
\<close>

subsection \<open>Fires\<close>

lemma lookup_decl_eq:
  assumes "lookup_decl env name e = (e1, r)"
  shows "e1 = e\<lparr>e_bit := e_bit e1\<rparr>"
  using assms by (auto simp: lookup_decl_def split: option.splits if_splits prod.splits outcome.splits)

lemma plan_ladder_never_refuses: "plan_ladder env name devs t e \<noteq> (e', Refuse r)"
  by (simp add: plan_ladder_def Let_def split: prod.split option.split)

lemma plan_refuse_same: "plan_fire env name decl d at_time now e = (e', Refuse r) \<Longrightarrow> e' = e"
  by (auto simp: plan_fire_def plan_script_def Let_def plan_ladder_never_refuses
      split: option.splits if_splits prod.splits)

text \<open>
  A fire never touches who is who: whatever function is fired, on whatever target, with whatever the
  sinks and the Bit's hooks do, the lifecycle state, the round, the device pool, the Room and its bindings,
  and the registration (every validation, assignment and seat count) are what they were.
\<close>
theorem fire_touches_no_bookkeeping:
  "let e' = fst (fire_function env name by d at_time now e)
   in e_state e' = e_state e \<and> e_round_id e' = e_round_id e \<and> e_devices e' = e_devices e
    \<and> e_room e' = e_room e \<and> e_binding e' = e_binding e \<and> e_registration e' = e_registration e
    \<and> e_slots e' = e_slots e \<and> state_log e' = state_log e"
  using bookD [OF book_fire_function [of env name "by" d at_time now e]] by (simp add: Let_def)

text \<open>
  What a fire does before it dispatches: it may un-mute and suppress generator lanes, and the only sink calls
  are un-mutes; the only observer call is the one for changed devices.
\<close>

fun unmuting :: "effect \<Rightarrow> bool" where
  "unmuting (SinkMute d on) = (\<not> on)"
| "unmuting (Notify DevicesChange) = True"
| "unmuting _ = False"

definition only_unmuted :: "'b engine \<Rightarrow> 'b engine \<Rightarrow> bool" where
  "only_unmuted e e' \<longleftrightarrow>
     e' = e\<lparr>e_bit := e_bit e', e_muted := e_muted e', e_generators := e_generators e', e_trace := e_trace e'\<rparr>
     \<and> set (e_muted e') \<subseteq> set (e_muted e)
     \<and> (\<exists>new. e_trace e' = e_trace e @ new \<and> list_all unmuting new)"

lemma only_unmuted_refl [simp]: "only_unmuted e e"
  by (simp add: only_unmuted_def)

lemma only_unmuted_trans:
  assumes "only_unmuted e e1" and "only_unmuted e1 e2"
  shows "only_unmuted e e2"
proof -
  obtain n1 n2 where n: "e_trace e1 = e_trace e @ n1" "list_all unmuting n1" "e_trace e2 = e_trace e1 @ n2" "list_all unmuting n2"
    using assms unfolding only_unmuted_def by blast
  then have "e_trace e2 = e_trace e @ (n1 @ n2)" "list_all unmuting (n1 @ n2)" by simp_all
  then have "\<exists>new. e_trace e2 = e_trace e @ new \<and> list_all unmuting new" by blast
  moreover have "e2 = e\<lparr>e_bit := e_bit e2, e_muted := e_muted e2, e_generators := e_generators e2, e_trace := e_trace e2\<rparr>"
  proof -
    have 1: "e1 = e\<lparr>e_bit := e_bit e1, e_muted := e_muted e1, e_generators := e_generators e1, e_trace := e_trace e1\<rparr>"
      using assms(1) unfolding only_unmuted_def by (elim conjE)
    have 2: "e2 = e1\<lparr>e_bit := e_bit e2, e_muted := e_muted e2, e_generators := e_generators e2, e_trace := e_trace e2\<rparr>"
      using assms(2) unfolding only_unmuted_def by (elim conjE)
    show ?thesis by (subst 2, subst 1) simp
  qed
  moreover have "set (e_muted e2) \<subseteq> set (e_muted e)" using assms unfolding only_unmuted_def by blast
  ultimately show ?thesis unfolding only_unmuted_def by blast
qed

lemma only_unmuted_bit: "only_unmuted e (e\<lparr>e_bit := b\<rparr>)"
  by (simp add: only_unmuted_def)

lemma only_unmuted_notify: "only_unmuted e (notify DevicesChange e)"
  by (simp add: only_unmuted_def notify_def)

lemma only_unmuted_send: "only_unmuted e (send_guarded env (SinkMute d False) e)"
  by (simp add: only_unmuted_def send_guarded_def send_def split: sink_result.split)

lemma only_unmuted_filter: "only_unmuted e (e\<lparr>e_muted := filter P (e_muted e)\<rparr>)"
  by (auto simp: only_unmuted_def)

lemma only_unmuted_clear_loop: "only_unmuted e (fst (clear_mutes_loop env ds cleared e))"
proof (induction env ds cleared e rule: clear_mutes_loop.induct)
  case (1 env cleared e)
  then show ?case by (simp add: only_unmuted_notify)
next
  case (2 env d ds cleared e)
  show ?case
  proof (cases "mute_key e d")
    case (Some k)
    note step = only_unmuted_trans [OF only_unmuted_filter only_unmuted_send]
    show ?thesis
    proof (cases "k \<in> set (e_muted e) \<or> d \<in> set (e_muted e)")
      case True
      from only_unmuted_trans [OF step "2.IH"(1) [OF Some True]] show ?thesis by (simp add: Some True)
    next
      case False
      from "2.IH"(2) [OF Some False] show ?thesis by (simp add: Some False)
    qed
  qed simp
qed

lemma only_unmuted_unmute: "unmute_unless env keep ds e = (e', ok) \<Longrightarrow> only_unmuted e e'"
  using only_unmuted_clear_loop [of e env ds False] by (auto simp: unmute_unless_def clear_mutes_def split: if_splits)

lemma only_unmuted_suppress: "suppress_generator_lanes fn cues t e = Some e' \<Longrightarrow> only_unmuted e e'"
  by (auto simp: suppress_generator_lanes_def only_unmuted_def split: option.splits if_splits list.splits)

lemma only_unmuted_ladder_loop: "only_unmuted e (fst (ladder_loop name t ds cues res e))"
  by (induction ds arbitrary: cues res e)
    (auto split: option.split intro: only_unmuted_trans [OF only_unmuted_suppress])

lemma only_unmuted_plan:
  assumes "plan_fire env name decl d at_time now e = (e', p)"
  shows "only_unmuted e e'"
proof -
  have script: "only_unmuted e e2" if "plan_script env fn devs t e = (e2, p2)" for fn devs t e2 p2
    using that by (auto simp: plan_script_def Let_def dest: only_unmuted_unmute split: option.splits prod.splits)
  have ladder: "only_unmuted e e2" if "plan_ladder env name devs t e = (e2, p2)" for devs t e2 p2
  proof -
    obtain e1 r where l: "ladder_loop name t devs [] [] e = (e1, r)" by fastforce
    then have e1: "only_unmuted e e1" using only_unmuted_ladder_loop [of e name t devs "[]" "[]"] by simp
    show ?thesis
    proof (cases r)
      case None
      with that l e1 show ?thesis by (simp add: plan_ladder_def)
    next
      case (Some x)
      obtain cues resolved where x: "x = (cues, resolved)" by fastforce
      obtain e3 ok where u: "unmute_unless env (cues = [] \<or> has_mute cues) resolved e1 = (e3, ok)" by fastforce
      have "e2 = e3" using that l Some x u by (simp add: plan_ladder_def)
      with only_unmuted_trans [OF e1 only_unmuted_unmute [OF u]] show ?thesis by simp
    qed
  qed
  show ?thesis
    using assms script ladder by (auto simp: plan_fire_def Let_def split: option.splits if_splits)
qed

text \<open>
  C26: A refused fire presents nothing. When \<open>fire_function\<close> answers with a refusal, nothing is lit, played,
  flashed or purged and no observer is told of a fire. For every refusal but the one for an exception inside
  its guard nothing at all is done: no sink called, no observer notified, no device un-muted, no generator
  suppressed; at most the Bit's own hidden state moved, because its table was read. With that one refusal
  the fire had got as far as un-muting its devices or suppressing generator lanes: the only sink calls are
  un-mutes, the only notification is the one for changed devices, no device is newly muted, and all else of
  the engine is as it was.
\<close>
theorem refused_fire_presents_nothing:
  assumes f: "fire_function env name by d at_time now e = (e', Ret (Some r))"
  shows "only_unmuted e e' \<and> (r \<noteq> FunctionScriptError \<longrightarrow> e' = e\<lparr>e_bit := e_bit e'\<rparr>)"
proof -
  obtain e1 r1 where l: "lookup_decl env name e = (e1, r1)" by fastforce
  note e1 = lookup_decl_eq [OF l]
  then have o1: "only_unmuted e e1" using only_unmuted_bit by metis
  show ?thesis
  proof (cases r1)
    case Raised
    with l f e1 o1 show ?thesis by (simp add: fire_function_def)
  next
    case (Ret decl)
    obtain e2 p where p: "plan_fire env name decl d at_time now e1 = (e2, p)" by fastforce
    note o2 = only_unmuted_trans [OF o1 only_unmuted_plan [OF p]]
    show ?thesis
    proof (cases p)
      case (Refuse why)
      then have "e2 = e1" using plan_refuse_same p by metis
      with l Ret p Refuse f e1 o1 show ?thesis by (simp add: fire_function_def)
    next
      case Crash
      with l Ret p f o2 show ?thesis by (simp add: fire_function_def)
    next
      case (Fire cues devs t)
      with l Ret p f show ?thesis
        by (simp add: fire_function_def Let_def split: option.splits)
    qed
  qed
qed

subsection \<open>When a fire raises\<close>

lemma resolve_devs_room: "e_room e' = e_room e \<Longrightarrow> resolve_devs e' = resolve_devs e"
proof -
  assume r: "e_room e' = e_room e"
  have t: "fixture_target e' = fixture_target e" by (rule ext) (simp add: fixture_target_def r)
  show ?thesis by (rule ext) (auto simp: resolve_devs_def room_devs_def fixture_names_def r t split: option.split)
qed

lemma checked_cues_resolve:
  "check_cue_kinds e cues = Some None \<Longrightarrow> \<forall>c \<in> set cues. \<exists>ds. Option.bind (cue_dev c) (resolve_devs e) = Some ds"
  by (induction e cues rule: check_cue_kinds.induct) (auto split: option.splits)

lemma overlay_lanes_some:
  "\<forall>c \<in> set cues. \<exists>ds. Option.bind (cue_dev c) (resolve_devs e) = Some ds \<Longrightarrow> \<exists>ls. overlay_lanes e cues = Some ls"
proof (induction cues)
  case (Cons c cs)
  then obtain ls ds where "overlay_lanes e cs = Some ls" "Option.bind (cue_dev c) (resolve_devs e) = Some ds"
    by auto
  then show ?case by (cases c) auto
qed simp

lemma plan_script_fires_resolve:
  assumes "plan_script env fn devs t e = (e', Fire cues ds t')"
  shows "\<forall>c \<in> set cues. \<exists>ds. Option.bind (cue_dev c) (resolve_devs e') = Some ds"
proof -
  obtain e2 ok where u: "unmute_unless env (has_mute cues) devs e = (e2, ok)" by fastforce
  have "check_cue_kinds e cues = Some None \<and> e' = e2"
    using assms u by (auto simp: plan_script_def Let_def split: option.splits prod.splits if_splits)
  moreover have "e_room e2 = e_room e" using bookD(3) [OF book_unmute_eq [OF u]] .
  ultimately show ?thesis using checked_cues_resolve [of e cues] resolve_devs_room [of e2 e] by simp
qed

lemma suppress_some:
  assumes "\<exists>ls. overlay_lanes e cues = Some ls"
  shows "suppress_generator_lanes fn cues t e \<noteq> None"
  using assms by (auto simp: suppress_generator_lanes_def split: option.split list.split)

lemma plan_fire_script:
  assumes "plan_fire env name (Some fn) d at_time now e = (e', Fire cues ds t)" and "f_script fn \<noteq> []"
  shows "suppress_generator_lanes fn cues t' e' \<noteq> None"
proof -
  obtain devs u where "plan_script env fn devs u e = (e', Fire cues ds t)"
    using assms by (auto simp: plan_fire_def Let_def split: if_splits option.splits)
  from overlay_lanes_some [OF plan_script_fires_resolve [OF this]] show ?thesis by (rule suppress_some)
qed

text \<open>
  What can make a fire raise. \<open>fire_function\<close> turns every exception inside its guard into a refusal,
  and the suppression after it cannot fail, because the same cues have been resolved before. The only way
  out with an exception is the record of the fire: a declaration the Bit returns now without a condition.
\<close>
theorem fire_raises_only_without_condition:
  assumes "snd (fire_function env name by d at_time now e) = Raised"
  shows "\<exists>fn. snd (lookup_decl env name e) = Ret (Some fn) \<and> f_condition fn = None"
proof -
  obtain e1 r1 where l: "lookup_decl env name e = (e1, r1)" by fastforce
  obtain decl where Ret: "r1 = Ret decl" using assms l by (cases r1) (simp_all add: fire_function_def)
  obtain e2 p where p: "plan_fire env name decl d at_time now e1 = (e2, p)" by fastforce
  obtain cues devs t where F: "p = Fire cues devs t"
    using assms l Ret p by (cases p) (simp_all add: fire_function_def)
  have "(case decl of Some fn \<Rightarrow> if f_script fn \<noteq> [] then suppress_generator_lanes fn cues t e2 else Some e2
                      | None \<Rightarrow> Some e2) \<noteq> None"
    using plan_fire_script [of env name _ d at_time now e1 e2 cues devs t] p F by (auto split: option.split)
  then show ?thesis
    using assms l Ret p F
    by (auto simp: fire_function_def fired_notice_def Let_def split: option.splits)
qed


subsection \<open>Muting\<close>

text \<open>The device an effect plays something on; light, mute and purge calls play nothing.\<close>

fun played_on :: "effect \<Rightarrow> dev option" where
  "played_on (SinkPlay d _ _) = Some d"
| "played_on (SinkMusic d _ _ _ _ _) = Some d"
| "played_on (SinkFlash d _ _ _ _) = Some d"
| "played_on _ = None"

text \<open>Between the two engines nothing was played on the device, and it was not un-muted.\<close>

definition quiet_between :: "dev \<Rightarrow> 'b engine \<Rightarrow> 'b engine \<Rightarrow> bool" where
  "quiet_between d e e' \<longleftrightarrow>
     e_room e' = e_room e \<and> set (e_muted e) \<subseteq> set (e_muted e')
     \<and> (\<exists>new. e_trace e' = e_trace e @ new \<and> (\<forall>x \<in> set new. played_on x \<noteq> Some d))"

lemma quiet_refl [simp]: "quiet_between d e e"
  by (simp add: quiet_between_def)

lemma quiet_trans:
  assumes "quiet_between d e e1" and "quiet_between d e1 e2"
  shows "quiet_between d e e2"
proof -
  from assms obtain n1 n2 where "e_trace e1 = e_trace e @ n1" "e_trace e2 = e_trace e @ n1 @ n2"
    "\<forall>x \<in> set n1. played_on x \<noteq> Some d" "\<forall>x \<in> set n2. played_on x \<noteq> Some d"
    by (auto simp: quiet_between_def)
  then have "\<exists>new. e_trace e2 = e_trace e @ new \<and> (\<forall>x \<in> set new. played_on x \<noteq> Some d)"
    by (intro exI [of _ "n1 @ n2"]) auto
  with assms show ?thesis by (auto simp: quiet_between_def)
qed

lemma quiet_send: "played_on eff \<noteq> Some d \<Longrightarrow> quiet_between d e (fst (send env eff e))"
  by (simp add: send_def quiet_between_def split: sink_result.split)

lemma quiet_notify: "quiet_between d e (notify n e)"
  by (simp add: notify_def quiet_between_def)

lemma mute_key_room: "e_room e' = e_room e \<Longrightarrow> mute_key e' d = mute_key e d"
  by (simp add: mute_key_def)

lemma quiet_keeps_muted: "quiet_between d e e' \<Longrightarrow> is_muted e d = Some True \<Longrightarrow> is_muted e' d = Some True"
  using mute_key_room [of e' e d] by (auto simp: quiet_between_def is_muted_def)

lemma quiet_send_all:
  assumes "\<And>d'. played_on (mk d') = (if gated then Some d' else None)"
  shows "is_muted e d = Some True \<Longrightarrow> quiet_between d e (send_all env gated mk ds e)"
proof (induction ds arbitrary: e)
  case (Cons d' ds)
  obtain e1 failed where s: "send env (mk d') e = (e1, failed)" by fastforce
  show ?case
  proof (cases "gated \<and> d' = d")
    case True
    with Cons show ?thesis by simp
  next
    case False
    then have q: "quiet_between d e e1" using quiet_send [of "mk d'" d e env] s assms by auto
    note later = quiet_trans [OF q Cons.IH [OF quiet_keeps_muted [OF q Cons.prems]]]
    consider "(if gated then is_muted e d' else Some False) = None"
      | "(if gated then is_muted e d' else Some False) = Some True"
      | "(if gated then is_muted e d' else Some False) = Some False" by (metis option.exhaust)
    then show ?thesis using s q later Cons.IH [OF Cons.prems] by cases simp_all
  qed
qed simp

lemma quiet_send_resolved:
  "(\<And>d'. played_on (mk d') = (if gated then Some d' else None)) \<Longrightarrow> is_muted e d = Some True \<Longrightarrow>
   quiet_between d e (send_resolved env gated mk target e)"
  by (simp add: send_resolved_def quiet_send_all split: option.split)

lemma quiet_latch: "quiet_between d e (fst (latch_mutes ds e))"
proof (induction ds e rule: latch_mutes.induct)
  case (2 d' ds e)
  show ?case
  proof (cases "mute_key e d'")
    case (Some k)
    have "quiet_between d e (e\<lparr>e_muted := List.insert k (e_muted e)\<rparr>)" by (auto simp: quiet_between_def)
    from quiet_trans [OF this "2.IH" [OF Some]] Some show ?thesis by simp
  qed simp
qed simp

lemma quiet_dispatch_mute:
  assumes "is_muted e d = Some True"
  shows "quiet_between d e (dispatch_mute env target e)"
proof -
  have "quiet_between d e (send_all env False (\<lambda>d. SinkMute d True) ds (notify DevicesChange e1)) \<and> quiet_between d e e1"
    if "latch_mutes ds e = (e1, ok)" for ds e1 ok
  proof -
    have 1: "quiet_between d e e1" using quiet_latch [of d e ds] that by simp
    have 2: "quiet_between d e (notify DevicesChange e1)" by (rule quiet_trans [OF 1 quiet_notify])
    from quiet_trans [OF 2 quiet_send_all [OF _ quiet_keeps_muted [OF 2 assms]]] 1 show ?thesis by simp
  qed
  then show ?thesis by (auto simp: dispatch_mute_def Let_def split: option.split prod.split)
qed

lemma quiet_dispatch_plain: "is_muted e d = Some True \<Longrightarrow> quiet_between d e (dispatch_plain env t c e)"
  by (cases c) (simp_all add: dispatch_plain_def quiet_send_resolved quiet_dispatch_mute)

lemma quiet_dispatch_all:
  "is_muted e d = Some True \<Longrightarrow> quiet_between d e (dispatch_all_plain env t cs e)"
proof (induction env t cs e rule: dispatch_all_plain.induct)
  case (2 env t c cs e)
  note q = quiet_dispatch_plain [OF "2.prems", of env t c]
  from quiet_trans [OF q "2.IH" [OF quiet_keeps_muted [OF q "2.prems"]]] show ?case by simp
qed simp

text \<open>
  The expanded script of a function holds no further fire, so inside \<open>fire_function\<close> the loop of
  \<open>_dispatch_cues\<close> is \<open>dispatch_all_plain\<close>.
\<close>

fun is_fire :: "cue \<Rightarrow> bool" where
  "is_fire (FireFunction _ _ _) = True"
| "is_fire _ = False"

lemma dispatch_all_plain_is_dispatch:
  "list_all (\<lambda>c. \<not> is_fire c) cs \<Longrightarrow> dispatch_all_plain env t cs e = dispatch_cues env t by now cs e"
proof (induction cs arbitrary: e)
  case (Cons c cs)
  then have "dispatch_cue env t by now c e = dispatch_plain env t c e" by (cases c) (simp_all add: dispatch_cue_def)
  with Cons show ?case by simp
qed simp

lemma expanded_holds_no_fire: "expand_steps t0 devs steps = Some cs \<Longrightarrow> list_all (\<lambda>c. \<not> is_fire c) cs"
proof (induction steps arbitrary: cs)
  case (Cons s ss)
  then obtain a b where ab: "expand_step t0 devs s = Some a" "expand_steps t0 devs ss = Some b" "cs = a @ b"
    by (auto split: option.splits)
  have "list_all (\<lambda>c. \<not> is_fire c) a"
    using ab(1) by (auto simp: expand_step_def Let_def list_all_iff split: cue.splits)
  with Cons.IH [OF ab(2)] ab(3) show ?case by simp
qed simp

lemma ladder_holds_no_fire:
  "ladder_loop name t ds cues res e = (e', Some (out, devs)) \<Longrightarrow> list_all (\<lambda>c. \<not> is_fire c) cues \<Longrightarrow>
   list_all (\<lambda>c. \<not> is_fire c) out"
proof (induction ds arbitrary: cues res e)
  case (Cons d ds)
  show ?case
  proof (cases "resolve_script_for name (instrument_for e d)")
    case None
    with Cons show ?thesis by simp
  next
    case (Some fn)
    from Cons.prems Some obtain dev_cues where x: "expand_script fn t [d] = Some dev_cues" by (auto split: option.splits)
    from expanded_holds_no_fire [OF x [unfolded expand_script_def]] Cons.prems(2)
    have "list_all (\<lambda>c. \<not> is_fire c) (cues @ dev_cues)" by simp
    then show ?thesis using Cons.prems Cons.IH Some x by (simp split: option.splits)
  qed
qed simp

text \<open>
  What a fire dispatches: the loop of \<open>fire_function\<close> is the source's own \<open>_dispatch_cues\<close>, whoever fired.
\<close>
lemma fired_cues_hold_no_fire:
  assumes "plan_fire env name decl d at_time now e = (e', Fire cues devs t)"
  shows "dispatch_all_plain env t cues e2 = dispatch_cues env t by now2 cues e2"
proof -
  have script: "list_all (\<lambda>c. \<not> is_fire c) cues" if "plan_script env fn ds u e = (e', Fire cues devs t)" for fn ds u
    using that by (auto simp: plan_script_def Let_def expand_script_def dest: expanded_holds_no_fire
        split: option.splits prod.splits if_splits)
  have ladder: "list_all (\<lambda>c. \<not> is_fire c) cues" if "plan_ladder env name ds u e = (e', Fire cues devs t)" for ds u
    using that by (auto simp: plan_ladder_def Let_def dest: ladder_holds_no_fire split: option.splits prod.splits if_splits)
  have "list_all (\<lambda>c. \<not> is_fire c) cues"
    using assms script ladder by (auto simp: plan_fire_def Let_def split: option.splits if_splits)
  then show ?thesis by (rule dispatch_all_plain_is_dispatch)
qed

text \<open>An un-mute that opens the gate of the device: of the device itself, or of one with the same mute key.\<close>

fun opens_gate :: "'b engine \<Rightarrow> dev \<Rightarrow> effect \<Rightarrow> bool" where
  "opens_gate e d (SinkMute d' on) \<longleftrightarrow> \<not> on \<and> (mute_key e d' = mute_key e d \<or> mute_key e d = Some d')"
| "opens_gate e d _ \<longleftrightarrow> False"

text \<open>Every play on the device comes after an un-mute of it.\<close>

fun after_unmute :: "'b engine \<Rightarrow> dev \<Rightarrow> effect list \<Rightarrow> bool" where
  "after_unmute e d [] \<longleftrightarrow> True"
| "after_unmute e d (x # xs) \<longleftrightarrow> opens_gate e d x \<or> played_on x \<noteq> Some d \<and> after_unmute e d xs"

definition ungated :: "'b engine \<Rightarrow> dev \<Rightarrow> effect list \<Rightarrow> bool" where
  "ungated e d xs \<longleftrightarrow> list_ex (opens_gate e d) xs"

lemma after_unmute_opened: "after_unmute e d xs \<Longrightarrow> ungated e d xs \<Longrightarrow> after_unmute e d (xs @ ys)"
  by (induction xs) (auto simp: ungated_def)

lemma after_unmute_append: "after_unmute e d xs \<Longrightarrow> after_unmute e d ys \<Longrightarrow> after_unmute e d (xs @ ys)"
  by (induction xs) auto

lemma silent_after_unmute: "\<forall>x \<in> set xs. played_on x \<noteq> Some d \<Longrightarrow> after_unmute e d xs"
  by (induction xs) auto

lemma after_unmute_nth:
  "after_unmute e d xs \<Longrightarrow> i < length xs \<Longrightarrow> played_on (xs ! i) = Some d \<Longrightarrow> \<exists>j < i. opens_gate e d (xs ! j)"
proof (induction xs arbitrary: i)
  case (Cons x xs)
  show ?case
  proof (cases "opens_gate e d x")
    case True
    then have "played_on x = None" by (cases x) auto
    with Cons.prems True show ?thesis by (cases i) auto
  next
    case False
    with Cons.prems obtain i' where i: "i = Suc i'" "i' < length xs" "after_unmute e d xs" "played_on (xs ! i') = Some d"
      by (cases i) auto
    from Cons.IH [OF i(3,2,4)] obtain j where "j < i'" "opens_gate e d (xs ! j)" by blast
    then show ?thesis using i(1) by (intro exI [of _ "Suc j"]) simp
  qed
qed simp

text \<open>Since \<open>e0\<close>, where the device was muted: it still is, or it has been un-muted, and it played only after that.\<close>

definition hushed :: "'b engine \<Rightarrow> dev \<Rightarrow> 'b engine \<Rightarrow> bool" where
  "hushed e0 d e \<longleftrightarrow> e_room e = e_room e0
     \<and> (\<exists>new. e_trace e = e_trace e0 @ new \<and> after_unmute e0 d new \<and> (ungated e0 d new \<or> is_muted e d = Some True))"

definition grows_from :: "'b engine \<Rightarrow> 'b engine \<Rightarrow> bool" where
  "grows_from e e' \<longleftrightarrow> e_room e' = e_room e \<and> (\<exists>new. e_trace e' = e_trace e @ new)"

lemma grows_from_refl [simp]: "grows_from e e"
  by (simp add: grows_from_def)

lemma grows_from_trans: "grows_from e e1 \<Longrightarrow> grows_from e1 e2 \<Longrightarrow> grows_from e e2"
  by (auto simp: grows_from_def)

lemma hushed_step:
  assumes h: "hushed e0 d e" and ext: "grows_from e e'" and quiet: "is_muted e d = Some True \<Longrightarrow> quiet_between d e e'"
  shows "hushed e0 d e'"
proof -
  obtain new where new: "e_trace e = e_trace e0 @ new" "after_unmute e0 d new" "ungated e0 d new \<or> is_muted e d = Some True"
    and room: "e_room e = e_room e0" using h by (auto simp: hushed_def)
  have room': "e_room e' = e_room e0" using ext room by (simp add: grows_from_def)
  show ?thesis
  proof (cases "ungated e0 d new")
    case True
    obtain more where "e_trace e' = e_trace e0 @ (new @ more)" using ext new(1) by (auto simp: grows_from_def)
    moreover have "ungated e0 d (new @ more)" using True by (simp add: ungated_def)
    ultimately show ?thesis using after_unmute_opened [OF new(2) True] room' unfolding hushed_def by blast
  next
    case False
    then have m: "is_muted e d = Some True" using new(3) by simp
    note q = quiet [OF m]
    from q obtain more where more: "e_trace e' = e_trace e0 @ (new @ more)" "\<forall>x \<in> set more. played_on x \<noteq> Some d"
      using new(1) by (auto simp: quiet_between_def)
    from after_unmute_append [OF new(2) silent_after_unmute [OF more(2)]] quiet_keeps_muted [OF q m] more(1) room'
    show ?thesis unfolding hushed_def by blast
  qed
qed

lemma grows_from_notify: "grows_from e (notify n e)"
  by (simp add: grows_from_def notify_def)

lemma grows_from_send: "grows_from e (fst (send env eff e))"
  by (simp add: grows_from_def send_def split: sink_result.split)

lemma grows_from_send_all: "grows_from e (send_all env gated mk ds e)"
proof (induction ds arbitrary: e)
  case (Cons d ds)
  obtain e' failed where s: "send env (mk d) e = (e', failed)" by fastforce
  have "grows_from e e'" using grows_from_send [of e env "mk d"] s by simp
  with Cons.IH [of e'] Cons.IH [of e] s show ?case by (auto dest: grows_from_trans split: option.split bool.split)
qed simp

lemma grows_from_latch: "grows_from e (fst (latch_mutes ds e))"
proof (induction ds e rule: latch_mutes.induct)
  case (2 d ds e)
  then show ?case by (auto simp: grows_from_def split: option.split)
qed simp

lemma grows_from_dispatch_mute: "grows_from e (dispatch_mute env d e)"
proof -
  have "grows_from e (send_all env False (\<lambda>d. SinkMute d True) ds (notify DevicesChange e1))" "grows_from e e1"
    if "latch_mutes ds e = (e1, ok)" for ds e1 ok
  proof -
    show 1: "grows_from e e1" using grows_from_latch [of e ds] that by simp
    show "grows_from e (send_all env False (\<lambda>d. SinkMute d True) ds (notify DevicesChange e1))"
      by (rule grows_from_trans [OF grows_from_trans [OF 1 grows_from_notify] grows_from_send_all])
  qed
  then show ?thesis by (auto simp: dispatch_mute_def Let_def split: option.split prod.split)
qed

lemma grows_from_plain: "grows_from e (dispatch_plain env t c e)"
  by (cases c) (simp_all add: dispatch_plain_def send_resolved_def grows_from_send_all grows_from_dispatch_mute split: option.split)

lemma hushed_plain: "hushed e0 d e \<Longrightarrow> hushed e0 d (dispatch_plain env t c e)"
  using hushed_step [OF _ grows_from_plain quiet_dispatch_plain] by blast

lemma hushed_all_plain: "hushed e0 d e \<Longrightarrow> hushed e0 d (dispatch_all_plain env t cs e)"
  by (induction env t cs e rule: dispatch_all_plain.induct) (simp_all add: hushed_plain)

lemma quiet_same: "e_room e' = e_room e \<Longrightarrow> e_trace e' = e_trace e \<Longrightarrow> e_muted e' = e_muted e \<Longrightarrow> quiet_between d e e'"
  by (simp add: quiet_between_def)

lemma hushed_same:
  "hushed e0 d e \<Longrightarrow> e_room e' = e_room e \<Longrightarrow> e_trace e' = e_trace e \<Longrightarrow> e_muted e' = e_muted e \<Longrightarrow> hushed e0 d e'"
  by (rule hushed_step [of e0 d e e']) (simp_all add: grows_from_def quiet_same)

lemma hushed_notify: "hushed e0 d e \<Longrightarrow> hushed e0 d (notify n e)"
  by (rule hushed_step [OF _ grows_from_notify quiet_notify])

text \<open>\<open>_clear_mutes\<close>: the mute leaves the set first, then the sink is told; an absent sink is told nothing.\<close>

lemma grows_from_clear_loop: "grows_from e (fst (clear_mutes_loop env ds cleared e))"
proof (induction env ds cleared e rule: clear_mutes_loop.induct)
  case (2 env d' ds cleared e)
  have step: "grows_from e (send_guarded env (SinkMute d' False) (e\<lparr>e_muted := ms\<rparr>))" for ms
    by (rule grows_from_trans [OF _ grows_from_send [folded send_guarded_def]]) (simp add: grows_from_def)
  from 2 show ?case by (auto dest: grows_from_trans [OF step] split: option.split)
qed (simp add: grows_from_notify)

lemma grows_from_only_unmuted: "only_unmuted e e' \<Longrightarrow> e_room e' = e_room e \<Longrightarrow> grows_from e e'"
  by (auto simp: only_unmuted_def grows_from_def)

lemma grows_from_all_plain: "grows_from e (dispatch_all_plain env t cs e)"
  by (induction env t cs e rule: dispatch_all_plain.induct) (auto intro: grows_from_trans grows_from_plain)

lemma grows_from_fire: "grows_from e (fst (fire_function env name by d at_time now e))"
proof -
  obtain e1 r1 where l: "lookup_decl env name e = (e1, r1)" by fastforce
  have e1: "grows_from e e1" by (subst lookup_decl_eq [OF l]) (simp add: grows_from_def)
  show ?thesis
  proof (cases r1)
    case Raised
    with l e1 show ?thesis by (simp add: fire_function_def)
  next
    case (Ret decl)
    obtain e2 p where p: "plan_fire env name decl d at_time now e1 = (e2, p)" by fastforce
    have "e_room e2 = e_room e1" using bookD(3) [OF book_plan_fire [of env name decl d at_time now e1]] p by simp
    with e1 have e2: "grows_from e e2" using grows_from_only_unmuted [OF only_unmuted_plan [OF p]] grows_from_trans by blast
    show ?thesis
    proof (cases p)
      case (Fire cues devs t)
      have s: "grows_from e e3" if "suppress_generator_lanes fn cues t e2 = Some e3" for fn e3
        using only_unmuted_suppress [OF that] book_suppress [OF that] e2
        by (meson bookD(3) grows_from_only_unmuted grows_from_trans)
      have "grows_from e (dispatch_all_plain env t cues e3)" "grows_from e (notify n (dispatch_all_plain env t cues e3))"
        if "grows_from e e3" for e3 n
        using grows_from_trans [OF that grows_from_all_plain] grows_from_trans [OF _ grows_from_notify] by blast+
      then show ?thesis using l Ret p Fire e2 s
        by (auto simp: fire_function_def Let_def split: option.split)
    qed (use l Ret p e2 in \<open>simp_all add: fire_function_def\<close>)
  qed
qed

lemma grows_from_cues: "grows_from e (dispatch_cues env t by now cs e)"
proof (induction cs arbitrary: e)
  case (Cons c cs)
  have "grows_from e (dispatch_cue env t by now c e)"
    by (cases c) (simp_all add: dispatch_cue_def grows_from_fire grows_from_plain)
  with Cons.IH show ?case by (auto intro: grows_from_trans)
qed simp

definition told_of_mutes :: "'b env \<Rightarrow> bool" where
  "told_of_mutes env \<longleftrightarrow> (\<forall>trace d. v_sink env trace (SinkMute d False) \<noteq> Absent)"

lemma send_told:
  "told_of_mutes env \<Longrightarrow> e_trace (send_guarded env (SinkMute d False) e) = e_trace e @ [SinkMute d False]"
  by (simp add: told_of_mutes_def send_guarded_def send_def split: sink_result.split)

lemma hushed_unmute:
  assumes told: "told_of_mutes env" and h: "hushed e0 d e" and k: "mute_key e d' = Some k"
  shows "hushed e0 d (send_guarded env (SinkMute d' False) (e\<lparr>e_muted := filter (\<lambda>m. m \<noteq> k \<and> m \<noteq> d') (e_muted e)\<rparr>))"
    (is "hushed e0 d ?e2")
proof -
  obtain new where new: "e_trace e = e_trace e0 @ new" "after_unmute e0 d new" "ungated e0 d new \<or> is_muted e d = Some True"
    and room: "e_room e = e_room e0" using h by (auto simp: hushed_def)
  have t: "e_trace ?e2 = e_trace e0 @ (new @ [SinkMute d' False])" by (simp add: send_told [OF told] new(1))
  have m: "e_muted ?e2 = filter (\<lambda>m. m \<noteq> k \<and> m \<noteq> d') (e_muted e)" "e_room ?e2 = e_room e0"
    using room by (simp_all add: send_guarded_def send_def split: sink_result.split)
  have g: "after_unmute e0 d (new @ [SinkMute d' False])" by (rule after_unmute_append [OF new(2)]) simp
  note keys = mute_key_room [OF room] mute_key_room [OF m(2)]
  have "ungated e0 d (new @ [SinkMute d' False]) \<or> is_muted ?e2 d = Some True"
  proof (cases "ungated e0 d (new @ [SinkMute d' False])")
    case False
    then have "mute_key e0 d' \<noteq> mute_key e0 d" "mute_key e0 d \<noteq> Some d'" "is_muted e d = Some True"
      using new(3) by (auto simp: ungated_def)
    then show ?thesis using k m(1) by (auto simp: is_muted_def keys)
  qed simp
  then show ?thesis using t g m(2) unfolding hushed_def by blast
qed

lemma hushed_clear_loop:
  "told_of_mutes env \<Longrightarrow> hushed e0 d e \<Longrightarrow> hushed e0 d (fst (clear_mutes_loop env ds cleared e))"
proof (induction env ds cleared e rule: clear_mutes_loop.induct)
  case (1 env cleared e)
  then show ?case by (simp add: hushed_notify)
next
  case (2 env d' ds cleared e)
  show ?case
  proof (cases "mute_key e d'")
    case None
    with 2 show ?thesis by simp
  next
    case (Some k)
    show ?thesis
    proof (cases "k \<in> set (e_muted e) \<or> d' \<in> set (e_muted e)")
      case True
      from "2.IH"(1) [OF Some True "2.prems"(1) hushed_unmute [OF "2.prems" Some]] True Some show ?thesis by simp
    next
      case False
      from "2.IH"(2) [OF Some False "2.prems"] False Some show ?thesis by simp
    qed
  qed
qed

lemma hushed_unmute_unless:
  "unmute_unless env keep ds e = (e', ok) \<Longrightarrow> told_of_mutes env \<Longrightarrow> hushed e0 d e \<Longrightarrow> hushed e0 d e'"
  using hushed_clear_loop [of env e0 d e ds False] by (auto simp: unmute_unless_def clear_mutes_def split: if_splits)

lemma hushed_suppress: "suppress_generator_lanes fn cues t e = Some e' \<Longrightarrow> hushed e0 d e \<Longrightarrow> hushed e0 d e'"
  by (auto simp: suppress_generator_lanes_def split: option.splits if_splits list.splits intro: hushed_same)

lemma hushed_ladder: "hushed e0 d e \<Longrightarrow> hushed e0 d (fst (ladder_loop name t ds cues res e))"
  by (induction ds arbitrary: cues res e) (auto split: option.split, metis hushed_suppress)

lemma hushed_plan:
  assumes p: "plan_fire env name decl target at_time now e = (e', plan)"
    and told: "told_of_mutes env" and h: "hushed e0 d e"
  shows "hushed e0 d e'"
proof -
  have script: "hushed e0 d e2" if "plan_script env fn devs t e = (e2, p2)" for fn devs t e2 p2
    using that h by (auto simp: plan_script_def Let_def dest: hushed_unmute_unless [OF _ told h] split: option.splits prod.splits)
  have ladder: "hushed e0 d e2" if "plan_ladder env name devs t e = (e2, p2)" for devs t e2 p2
  proof -
    obtain e1 r where l: "ladder_loop name t devs [] [] e = (e1, r)" by fastforce
    then have e1: "hushed e0 d e1" using hushed_ladder [OF h, of name t devs "[]" "[]"] by simp
    show ?thesis
    proof (cases r)
      case None
      with that l e1 show ?thesis by (simp add: plan_ladder_def)
    next
      case (Some x)
      obtain cues resolved where x: "x = (cues, resolved)" by fastforce
      obtain e3 ok where u: "unmute_unless env (cues = [] \<or> has_mute cues) resolved e1 = (e3, ok)" by fastforce
      have "e2 = e3" using that l Some x u by (simp add: plan_ladder_def)
      with hushed_unmute_unless [OF u told e1] show ?thesis by simp
    qed
  qed
  show ?thesis using p h script ladder by (auto simp: plan_fire_def Let_def split: option.splits if_splits)
qed

lemma hushed_fire:
  assumes told: "told_of_mutes env" and h: "hushed e0 d e"
  shows "hushed e0 d (fst (fire_function env name by target at_time now e))"
proof -
  obtain e1 r1 where l: "lookup_decl env name e = (e1, r1)" by fastforce
  have "e_room e1 = e_room e" "e_trace e1 = e_trace e" "e_muted e1 = e_muted e"
    by (subst lookup_decl_eq [OF l], simp)+
  then have h1: "hushed e0 d e1" by (rule hushed_same [OF h])
  show ?thesis
  proof (cases r1)
    case Raised
    with l h1 show ?thesis by (simp add: fire_function_def)
  next
    case (Ret decl)
    obtain e2 p where p: "plan_fire env name decl target at_time now e1 = (e2, p)" by fastforce
    note h2 = hushed_plan [OF p told h1]
    show ?thesis
    proof (cases p)
      case (Fire cues devs t)
      show ?thesis
      proof (cases "case decl of Some fn \<Rightarrow> if f_script fn \<noteq> [] then suppress_generator_lanes fn cues t e2 else Some e2 | None \<Rightarrow> Some e2")
        case None
        with l Ret p Fire h2 show ?thesis by (simp add: fire_function_def)
      next
        case (Some e3)
        then have "hushed e0 d e3" using h2 by (auto dest: hushed_suppress split: option.splits if_splits)
        then have h4: "hushed e0 d (dispatch_all_plain env t cues e3)" by (rule hushed_all_plain)
        show ?thesis
        proof (cases "fired_notice name decl by target devs t (length cues) (e_room_name (dispatch_all_plain env t cues e3))")
          case None
          with l Ret p Fire Some h4 show ?thesis by (simp add: fire_function_def Let_def)
        next
          case (Some n)
          with l Ret p Fire \<open>_ = Some e3\<close> hushed_notify [OF h4] show ?thesis by (simp add: fire_function_def Let_def)
        qed
      qed
    qed (use l Ret p h2 in \<open>simp_all add: fire_function_def\<close>)
  qed
qed

lemma hushed_cues: "told_of_mutes env \<Longrightarrow> hushed e0 d e \<Longrightarrow> hushed e0 d (dispatch_cues env t by now cs e)"
proof (induction cs arbitrary: e)
  case (Cons c cs)
  have "hushed e0 d (dispatch_cue env t by now c e)"
    by (cases c) (simp_all add: dispatch_cue_def hushed_fire hushed_plain Cons.prems)
  from Cons.IH [OF Cons.prems(1) this] show ?case by simp
qed simp

text \<open>
  C27: A muted device stays silent until it is un-muted. Whatever list of cues is dispatched: when the list
  holds no fire, nothing is played, sounded or flashed on a muted device and it is still muted after it;
  with fires in the list, each of which may un-mute the devices it addresses, every play, note and flash on
  the device comes after an un-mute of it that its sink was told of, and without such an un-mute it is still
  muted. (The second part supposes that the sink for mutes is there; it may fail.)
\<close>
theorem muted_device_stays_silent:
  assumes "is_muted e d = Some True"
  shows "\<exists>new. e_trace (dispatch_cues env t by now cs e) = e_trace e @ new
      \<and> (list_all (\<lambda>c. \<not> is_fire c) cs \<longrightarrow>
           (\<forall>x \<in> set new. played_on x \<noteq> Some d) \<and> is_muted (dispatch_cues env t by now cs e) d = Some True)
      \<and> (told_of_mutes env \<longrightarrow>
           (\<forall>i < length new. played_on (new ! i) = Some d \<longrightarrow> (\<exists>j < i. opens_gate e d (new ! j)))
           \<and> (list_ex (opens_gate e d) new \<or> is_muted (dispatch_cues env t by now cs e) d = Some True))"
proof -
  have start: "hushed e d e" using assms by (simp add: hushed_def)
  obtain new where new: "e_trace (dispatch_cues env t by now cs e) = e_trace e @ new"
    using grows_from_cues [of e env t "by" now cs] by (auto simp: grows_from_def)
  have "(\<forall>x \<in> set new. played_on x \<noteq> Some d) \<and> is_muted (dispatch_cues env t by now cs e) d = Some True"
    if "list_all (\<lambda>c. \<not> is_fire c) cs"
    using quiet_dispatch_all [OF assms, of env t cs] quiet_keeps_muted [OF quiet_dispatch_all [OF assms, of env t cs] assms] new
    by (auto simp: quiet_between_def dispatch_all_plain_is_dispatch [OF that, of env t e "by" now, symmetric])
  moreover have "(\<forall>i < length new. played_on (new ! i) = Some d \<longrightarrow> (\<exists>j < i. opens_gate e d (new ! j)))
      \<and> (list_ex (opens_gate e d) new \<or> is_muted (dispatch_cues env t by now cs e) d = Some True)"
    if "told_of_mutes env"
    using hushed_cues [OF that start, of t "by" now cs] new after_unmute_nth by (auto simp: hushed_def ungated_def)
  ultimately show ?thesis using new by blast
qed

subsection \<open>Joining\<close>

lemma validate_loop_role:
  "validate_loop reg dev node saw names = Some (jr, reg') \<Longrightarrow> jr_granted jr \<Longrightarrow>
   \<exists>name r. dget (roles_of reg') name = Some r \<and> dget (rg_validated reg') dev = Some (node, name)
      \<and> jr_role jr = Some (r_name r) \<and> rg_table reg' = rg_table reg"
  by (induction reg dev node saw names rule: validate_loop.induct)
    (auto simp: denied_def granted_result_def split: option.splits if_splits)

text \<open>
  C4: What a granted handshake means. A player's handshake that is granted comes from a connected device that
  is no fixture, in SETUP, under the current round id. When the device had no reservation before, it now
  holds one for a declared role, the answer names that role, and the instrument the device carries meets the
  slot of the role so named. When it already had one, the answer is again the grant of the role it has reserved, without a
  second check of its instrument, and the registration is what it was: nothing is counted twice.
\<close>
theorem granted_handshake_is_justified:
  assumes h: "handshake env d round_id n now1 now2 e = (e', Ok jr)" and g: "jr_granted jr"
    and reg: "e_registration e = Some reg" and player: "\<not> (n \<noteq> [] \<and> is_room_node reg n)"
  shows "pool_get d (e_devices e) \<noteq> None \<and> d \<notin> set (bound_devs e) \<and> e_state e = SETUP
    \<and> e_round_id e = Some round_id
    \<and> (case dget (rg_validated reg) d of
         None \<Rightarrow> \<exists>reg' node name held r. e_registration e' = Some reg'
             \<and> dget (rg_validated reg') d = Some (node, name) \<and> dget (roles_of reg') name = Some held
             \<and> jr_role jr = Some (r_name held) \<and> dget (roles_of reg') (r_name held) = Some r \<and> slot_refusal e d r = None
       | Some (node, name) \<Rightarrow> e' = e
             \<and> (\<exists>r. dget (roles_of reg) name = Some r \<and> jr = granted_result r))"
proof -
  have guards: "pool_get d (e_devices e) \<noteq> None" "d \<notin> set (bound_devs e)" "e_state e = SETUP"
      "e_round_id e = Some round_id"
    and hp: "\<exists>target. handshake_player env d target reg e = (e', Ok jr)"
    using h g reg player
    by (auto simp: handshake_def denied_def split: if_splits outcome.splits option.splits)
  from hp obtain target where hp: "handshake_player env d target reg e = (e', Ok jr)" by blast
  obtain reg1 where v: "validate reg d target = Some (jr, reg1)"
    using hp g by (auto simp: handshake_player_def Let_def denied_def split: option.splits if_splits)
  show ?thesis
  proof (cases "dget (rg_validated reg) d")
    case None
    then have new: "\<not> dmem d (rg_validated reg)" by (simp add: dget_None_iff)
    with v g None obtain names where "validate_loop reg d target False names = Some (jr, reg1)"
      by (auto simp: validate_def denied_def simp del: validate_loop.simps
          split: option.splits list.splits if_splits)
    from validate_loop_role [OF this g] obtain name r where val: "dget (rg_validated reg1) d = Some (target, name)"
      and role: "dget (roles_of reg1) name = Some r" "jr_role jr = Some (r_name r)" by blast
    have slot: "slot_refusal (e\<lparr>e_registration := Some reg1\<rparr>) d r = slot_refusal e d r" for r
      by (simp add: slot_refusal_def carried_by_def split: option.split)
    have "\<exists>r'. jr_role jr = Some (r_name r) \<and> dget (roles_of reg1) (r_name r) = Some r' \<and> slot_refusal e d r' = None
        \<and> e' = notify RegistrationChange (e\<lparr>e_registration := Some reg1\<rparr>)"
      using hp v new g role(2)
      by (auto simp: handshake_player_def Let_def slot denied_def bind_eq_Some_conv split: option.splits)
    then obtain r' where "dget (roles_of reg1) (r_name r) = Some r'" "slot_refusal e d r' = None"
      and e': "e' = notify RegistrationChange (e\<lparr>e_registration := Some reg1\<rparr>)" by blast
    moreover have "e_registration e' = Some reg1" by (simp add: e' notify_def)
    ultimately show ?thesis using guards val role None by simp
  next
    case (Some x)
    obtain node name where x: "x = (node, name)" by fastforce
    from v Some x obtain r where r: "dget (roles_of reg) name = Some r" "jr = granted_result r" "reg1 = reg"
      by (auto simp: validate_def)
    have "dmem d (rg_validated reg)" using Some by (rule dmem_get_Some)
    then have "e' = e\<lparr>e_registration := Some reg\<rparr>" using hp v r(3) by (simp add: handshake_player_def Let_def)
    also have "\<dots> = e" using reg by simp
    finally show ?thesis using guards Some x r(1,2) by simp
  qed
qed

subsection \<open>Gesture stamps\<close>

text \<open>
  A gesture cannot date itself far ahead. The origin of a gesture is the present moment or the sender's
  own positive stamp, and at most \<open>MAX_GESTURE_LEAD\<close> seconds in the future; an infinite stamp is replaced.
  The one exception is a stamp that is not a number: both comparisons fail on it and it goes through.
\<close>
theorem gesture_origin_window:
  "case fst (origin now gtime) of
     Fin t \<Rightarrow> t = now \<or> 0 < t \<and> t \<le> now + MAX_GESTURE_LEAD \<and> gtime = Some (Fin t)
   | NaN \<Rightarrow> gtime = Some NaN
   | _ \<Rightarrow> False"
proof (cases gtime)
  case (Some g)
  then show ?thesis by (cases g) (auto simp: origin_def flt_def fle_def less_eq_pyfloat_def less_pyfloat_def not_le not_less)
qed (simp add: origin_def)

text \<open>
  Smoothing interpolates. For finite readings and an \<open>alpha\<close> between 0 and 1 the smoothed value lies
  between the previous smoothed value and the new reading, and it is what the next sample is smoothed with.
\<close>
theorem smoothing_interpolates:
  assumes arg: "args ! nat (tg_arg trig) = VFloat (Fin x)" "0 \<le> tg_arg trig" "nat (tg_arg trig) < length args"
    and trig: "tg_transform trig = ''smooth''" "dget (tg_params trig) ''alpha'' = Some (VFloat (Fin alpha))"
    and alpha: "0 \<le> alpha" "alpha \<le> 1"
    and prev: "dget ema (d, tg_name trig) = Some (Fin p)"
  shows "\<exists>y. apply_trigger d trig (args, ema)
      = Some (args[nat (tg_arg trig) := VFloat (Fin y)], dset (d, tg_name trig) (Fin y) ema)
    \<and> min p x \<le> y \<and> y \<le> max p x"
proof -
  define y where "y = alpha * x + (1 - alpha) * p"
  have inside: "\<not> int (length args) \<le> tg_arg trig" using arg(2,3) by linarith
  have "apply_trigger d trig (args, ema)
      = Some (args[nat (tg_arg trig) := VFloat (Fin y)], dset (d, tg_name trig) (Fin y) ema)"
    using arg trig prev inside by (simp add: apply_trigger_def py_index_def y_def Let_def)
  moreover have "min p x \<le> y"
  proof -
    have "alpha * min p x + (1 - alpha) * min p x \<le> y"
      unfolding y_def using alpha by (intro add_mono mult_left_mono) auto
    then show ?thesis by (simp add: algebra_simps)
  qed
  moreover have "y \<le> max p x"
  proof -
    have "y \<le> alpha * max p x + (1 - alpha) * max p x"
      unfolding y_def using alpha by (intro add_mono mult_left_mono) auto
    then show ?thesis by (simp add: algebra_simps)
  qed
  ultimately show ?thesis by blast
qed


subsection \<open>Unloading\<close>

text \<open>Every fixture bound to a device has a name from which a sentinel can be formed.\<close>

definition nameable :: "'b engine \<Rightarrow> bool" where
  "nameable e \<longleftrightarrow>
     (case e_room e of None \<Rightarrow> True | Some r \<Rightarrow> \<forall>(name, _) \<in> set (rm_bound r). fixture_dev name \<noteq> None)"

lemma nameable_room: "e_room e' = e_room e \<Longrightarrow> nameable e' = nameable e"
  by (simp add: nameable_def)

lemma nameable_key:
  assumes "nameable e"
  shows "mute_key e d \<noteq> None"
proof (cases "e_room e")
  case (Some r)
  have "fixture_dev name \<noteq> None" if "List.find (\<lambda>(_, b). b = d) (rm_bound r) = Some (name, x)" for name x
  proof -
    from that have "(name, x) \<in> set (rm_bound r)" by (auto simp: find_Some_iff) (metis nth_mem)
    with assms Some show ?thesis by (auto simp: nameable_def)
  qed
  with Some show ?thesis by (auto simp: mute_key_def split: option.split)
qed (simp add: mute_key_def)

lemma clear_mutes_loop_all:
  "nameable e \<Longrightarrow> set (e_muted e) \<subseteq> set ds \<Longrightarrow>
   snd (clear_mutes_loop env ds cleared e) \<and> e_muted (fst (clear_mutes_loop env ds cleared e)) = []"
proof (induction env ds cleared e rule: clear_mutes_loop.induct)
  case (1 env cleared e)
  then show ?case by (simp add: notify_def)
next
  case (2 env d ds cleared e)
  obtain k where k: "mute_key e d = Some k" using nameable_key [OF "2.prems"(1)] by blast
  define e1 where
    "e1 = send_guarded env (SinkMute d False) (e\<lparr>e_muted := filter (\<lambda>m. m \<noteq> k \<and> m \<noteq> d) (e_muted e)\<rparr>)"
  have e1: "e_room e1 = e_room e" "e_muted e1 = filter (\<lambda>m. m \<noteq> k \<and> m \<noteq> d) (e_muted e)"
    by (simp_all add: e1_def send_guarded_def send_def split: sink_result.split)
  show ?case
  proof (cases "k \<in> set (e_muted e) \<or> d \<in> set (e_muted e)")
    case True
    have "nameable e1" "set (e_muted e1) \<subseteq> set ds" using "2.prems" e1 nameable_room by auto
    with "2.IH"(1) [OF k True] True k show ?thesis by (simp flip: e1_def)
  next
    case False
    with "2.prems" have "set (e_muted e) \<subseteq> set ds" by auto
    with "2.IH"(2) [OF k False "2.prems"(1)] False k show ?thesis by simp
  qed
qed

lemma send_guarded_muted [simp]: "e_muted (send_guarded env eff e) = e_muted e"
  by (simp add: send_guarded_def send_def split: sink_result.split)

lemma release_sinks_muted [simp]: "e_muted (release_sinks env ds e) = e_muted e"
  by (induction ds arbitrary: e) simp_all

lemma on_bit_muted [simp]: "e_muted (fst (on_bit hook e)) = e_muted e"
  by (simp add: on_bit_def split: option.split prod.split)

lemma run_on_complete_fields [simp]:
  "e_room (run_on_complete env e) = e_room e" "e_registration (run_on_complete env e) = e_registration e"
  using bookD [OF book_on_bit [of "v_on_complete env" e]] by (simp_all add: run_on_complete_def)

text \<open>
  C28: Aborting always gets back to IDLE. In every state but IDLE with a Bit loaded, whatever the Bit's
  \<open>on_complete\<close> and \<open>on_unload\<close> do and whether or not the sinks raise, an abort returns normally in IDLE
  with no Bit, no registration and no device muted, as long as every bound fixture has a name a sentinel
  can be formed from.
\<close>
theorem abort_always_gets_back:
  assumes "e_state e \<noteq> IDLE" and reg: "e_registration e = Some reg" and "nameable e"
  shows "snd (abort env e) = Ok () \<and> e_state (fst (abort env e)) = IDLE \<and> e_bit (fst (abort env e)) = None
    \<and> e_registration (fst (abort env e)) = None \<and> e_muted (fst (abort env e)) = []"
proof -
  let ?e1 = "set_state UNLOADING (run_on_complete env e)"
  have "nameable ?e1" using assms(3) by (simp add: nameable_def)
  then have all: "snd (clear_mutes env (e_muted ?e1) ?e1) \<and> e_muted (fst (clear_mutes env (e_muted ?e1) ?e1)) = []"
    unfolding clear_mutes_def by (rule clear_mutes_loop_all) simp
  obtain e2 ok where c: "clear_mutes env (e_muted ?e1) ?e1 = (e2, ok)" by fastforce
  have "book (fst (clear_mutes env (e_muted ?e1) ?e1)) = book ?e1" by (rule book_clear_mutes)
  then have "e_registration e2 = e_registration ?e1" unfolding c fst_conv by (rule bookD)
  then have r2: "e_registration e2 = Some reg" using reg by simp
  obtain released reg' where "release_all reg = (released, reg')" by fastforce
  with c r2 all assms(1) show ?thesis by (simp add: abort_def unload_def Let_def notify_def)
qed

subsection \<open>Starting a run\<close>

lemma book_grant: "book (fst (grant env d r e)) = book e"
  by (auto simp: grant_def Let_def book_send_guarded book_on_bit split: option.split)

lemma book_grant_all: "grant_all env ds e = (e', res) \<Longrightarrow> book e' = book e"
proof (induction env ds e arbitrary: e' res rule: grant_all.induct)
  case (2 env d r rest e)
  obtain e1 res1 where g: "grant env d r e = (e1, res1)" by fastforce
  then have "book e1 = book e" using book_grant [of env d r e] by simp
  with "2.IH" [OF g [symmetric]] "2.prems" g show ?case by (cases res1) auto
qed simp

lemma dmem_assign: "dmem d (rg_assignments (snd (assign dev node r reg))) \<longleftrightarrow> d = dev \<or> dmem d (rg_assignments reg)"
  by (auto simp: assign_def Let_def holds_role_def dest: dmem_get_Some split: option.splits)

lemma assign_keeps_validated: "rg_validated reg = [] \<Longrightarrow> rg_validated (snd (assign dev node r reg)) = []"
  by (simp add: assign_def Let_def)

lemma assign_jams_covers:
  "assign_jams jam devs b reg = (out, b', reg') \<Longrightarrow>
   (\<forall>d. dmem d (rg_assignments reg') \<longleftrightarrow> d \<in> set devs \<or> dmem d (rg_assignments reg))
   \<and> (rg_validated reg = [] \<longrightarrow> rg_validated reg' = [])"
proof (induction jam devs b reg arbitrary: out b' reg' rule: assign_jams.induct)
  case (2 jam dev devs b reg)
  show ?case
  proof (cases "dmem dev (rg_assignments reg)")
    case True
    with 2 show ?thesis by auto
  next
    case False
    obtain b1 r where j: "jam b reg dev = (b1, r)" by fastforce
    obtain ch reg1 where a: "assign dev '''' r reg = (ch, reg1)" by fastforce
    obtain out1 b2 reg2 where rest: "assign_jams jam devs b1 reg1 = (out1, b2, reg2)" by (metis prod_cases3)
    note IH = "2.IH"(2) [OF False j [symmetric] refl a [symmetric] refl rest]
    from IH dmem_assign [of _ dev "''''" r reg] assign_keeps_validated [of reg dev "''''" r] "2.prems" False j a rest
    show ?thesis by auto
  qed
qed simp

lemma move_reservations_covers:
  "move_reservations vs reg = Some (out, reg') \<Longrightarrow>
   (\<forall>d. dmem d (rg_assignments reg') \<longleftrightarrow> d \<in> fst ` set vs \<or> dmem d (rg_assignments reg))
   \<and> rg_validated reg' = rg_validated reg"
proof (induction vs reg arbitrary: out reg' rule: move_reservations.induct)
  case (2 dev node name rest reg)
  then obtain r out1 where r: "dget (roles_of reg) name = Some r"
    and "move_reservations rest (reg\<lparr>rg_assignments := dset dev (node, name, r_class r) (rg_assignments reg)\<rparr>)
      = Some (out1, reg')" by (auto split: option.splits)
  from "2.IH" [OF this] show ?case by auto
qed simp

text \<open>
  C3: A started run leaves nobody out. After a successful \<open>run\<close> there are no reservations left, and exactly
  these devices hold a role: those that had reserved one, those that already held one, and every connected
  device that is neither a fixture of the Room nor an administrator.
\<close>
theorem run_gives_everyone_a_role:
  assumes run: "run env e = (e', Ok ())" and reg: "e_registration e = Some reg"
  shows "\<exists>reg'. e_registration e' = Some reg' \<and> rg_validated reg' = []
    \<and> (\<forall>d. dmem d (rg_assignments reg') \<longleftrightarrow> dmem d (rg_validated reg) \<or> dmem d (rg_assignments reg)
          \<or> d \<in> di_dev ` set (pool_all (e_devices e)) \<and> d \<notin> set (bound_devs e) \<and> \<not> is_admin env (Some d))"
proof -
  let ?e1 = "set_state RUNNING (e\<lparr>e_run_elapsed := 0\<rparr>)"
  obtain b out b' reg' e2 where
    m: "materialize (jam_for env ?e1) (jam_candidates env ?e1) b reg = Some (out, b', reg')"
    and g: "grant_all env out (?e1\<lparr>e_bit := Some b', e_registration := Some reg'\<rparr>) = (e2, Ok ())"
    and e': "e' = fst (on_bit (v_on_run_start env) (if out = [] then e2 else notify DevicesChange (notify RegistrationChange e2)))"
    using run reg
    by (auto simp: run_def Let_def split: if_splits option.splits prod.splits res.splits outcome.splits)
  have "book e' = book e2"
    unfolding e' by (simp add: book_on_bit book_notify)
  then have r': "e_registration e' = Some reg'"
    using bookD(4) [OF book_grant_all [OF g]] bookD(4) [of e' e2] by simp
  from m obtain out1 reg1 out2 where
    mv: "move_reservations (rg_validated reg) (reg\<lparr>rg_validated := []\<rparr>) = Some (out1, reg1)"
    and ja: "assign_jams (jam_for env ?e1) (jam_candidates env ?e1) b reg1 = (out2, b', reg')"
    by (auto simp: materialize_def split: option.splits prod.splits)
  note j = assign_jams_covers [OF ja] and v = move_reservations_covers [OF mv]
  have cand: "d \<in> set (jam_candidates env ?e1) \<longleftrightarrow> d \<in> di_dev ` set (pool_all (e_devices e))
      \<and> d \<notin> set (bound_devs e) \<and> \<not> is_admin env (Some d) \<and> \<not> dmem d (rg_assignments reg)" for d
    using reg by (auto simp: jam_candidates_def bound_devs_def set_state_def notify_def)
  have "dmem d (rg_validated reg) \<longleftrightarrow> d \<in> fst ` set (rg_validated reg)" for d by (simp add: dmem_def)
  with r' j v cand show ?thesis by auto
qed


subsection \<open>Round ids\<close>

declare show_nat.simps [simp del]

lemma show_nat_nonempty [simp]: "show_nat n \<noteq> []"
  by (subst show_nat.simps) simp

lemma show_nat_not_nil [simp]: "[] \<noteq> show_nat n"
  using show_nat_nonempty [of n] by metis

lemma digit_char: "a < 10 \<Longrightarrow> b < 10 \<Longrightarrow> (char_of (48 + a) :: char) = char_of (48 + b) \<longleftrightarrow> a = (b :: nat)"
  by (simp add: char_of_eq_iff [symmetric] of_char_of)

lemma show_nat_inj: "show_nat m = show_nat n \<Longrightarrow> m = n"
proof (induction m arbitrary: n rule: less_induct)
  case (less m)
  note eq = less.prems
  consider "m < 10" "n < 10" | "m < 10" "10 \<le> n" | "10 \<le> m" "n < 10" | "10 \<le> m" "10 \<le> n" by linarith
  then show ?case
  proof cases
    case 1
    then show ?thesis using eq by (simp add: show_nat.simps digit_char)
  next
    case 2
    then show ?thesis using eq by (simp add: show_nat.simps [of n] show_nat.simps [of m])
  next
    case 3
    then show ?thesis using eq by (simp add: show_nat.simps [of n] show_nat.simps [of m])
  next
    case 4
    then have "show_nat (m div 10) = show_nat (n div 10)" "m mod 10 = n mod 10"
      using eq by (simp_all add: show_nat.simps [of m] show_nat.simps [of n] digit_char)
    then have "m div 10 = n div 10" "m mod 10 = n mod 10" using less.IH [of "m div 10"] 4 by simp_all
    then show ?thesis by (metis div_mult_mod_eq)
  qed
qed

lemma digits_no_dash: "CHR ''-'' \<notin> set (show_nat n)"
proof (induction n rule: show_nat.induct)
  case (1 n)
  have "CHR ''-'' \<noteq> (char_of (48 + k) :: char)" if "k < 10" for k :: nat
    using that by (auto dest!: arg_cong [of _ _ "of_char :: char \<Rightarrow> nat"])
  then show ?case using "1.IH" by (subst show_nat.simps) simp
qed

lemma split_at_first: "c \<notin> set a \<Longrightarrow> c \<notin> set b \<Longrightarrow> a @ c # x = b @ c # y \<Longrightarrow> a = b \<and> x = y"
proof (induction a arbitrary: b)
  case Nil
  then show ?case by (cases b) auto
next
  case (Cons z a)
  then show ?case by (cases b) auto
qed

lemma split_at_last:
  assumes "xs @ c # ys = xs' @ c # ys'" and "c \<notin> set ys" and "c \<notin> set ys'"
  shows "xs = xs' \<and> ys = ys'"
proof -
  have eq: "rev ys @ c # rev xs = rev ys' @ c # rev xs'"
    using arg_cong [OF assms(1), of rev] by simp
  have "rev ys = rev ys' \<and> rev xs = rev xs'"
    by (rule split_at_first [OF _ _ eq]) (simp_all add: assms(2,3))
  then show ?thesis by simp
qed

lemma round_id_inj:
  assumes "make_round_id a m t = make_round_id b n u" and "CHR ''-'' \<notin> set t" and "CHR ''-'' \<notin> set u"
  shows "a = b \<and> m = n \<and> t = u"
proof -
  have "(a @ ''-'' @ show_nat m) @ CHR ''-'' # t = (b @ ''-'' @ show_nat n) @ CHR ''-'' # u"
    using assms(1) by (simp add: make_round_id_def)
  from split_at_last [OF this assms(2,3)] have tu: "t = u" and "a @ CHR ''-'' # show_nat m = b @ CHR ''-'' # show_nat n"
    by simp_all
  from split_at_last [OF this(2) digits_no_dash digits_no_dash] tu show ?thesis by (auto dest: show_nat_inj)
qed

text \<open>What a successful load leaves behind.\<close>

lemma loaded_engine:
  assumes "load_bit env name token e = (e', Ok ())"
  shows "\<exists>ld. prepare_bit env name (set_state LOADING e) = Some ld
    \<and> e_round_id e' = Some (make_round_id name (Suc (e_round_counter e)) token)
    \<and> e_round_counter e' = Suc (e_round_counter e)
    \<and> e_generators e' = Some (new_runner (generator_specs (ld_functions ld))) \<and> e_state e' = SETUP"
proof -
  have keep: "e_round_id x' = e_round_id x \<and> e_round_counter x' = e_round_counter x \<and> e_state x' = e_state x
      \<and> e_generators x' = e_generators x" if "on_bit h x = (x', r)" for h x x' and r :: "unit outcome"
    using that by (auto simp: on_bit_def split: option.splits prod.splits)
  obtain ld where p: "prepare_bit env name (set_state LOADING e) = Some ld"
    using assms by (auto simp: load_bit_def Let_def split: if_splits option.splits)
  show ?thesis
    using assms p unfolding load_bit_def Let_def
    by (simp add: set_state_def notify_def split: if_splits outcome.splits prod.splits) (auto dest!: keep)
qed

text \<open>
  A round id is never issued twice. Two successful loads, the second from an engine whose load counter
  is at least what the first left, produce different round ids even for the same Bit name and the same
  random token; so a handshake that carries an earlier round's id is not taken for the present round.
\<close>
theorem round_ids_differ:
  assumes "load_bit env name1 token1 e1 = (e1', Ok ())" and "load_bit env' name2 token2 e2 = (e2', Ok ())"
    and "e_round_counter e1' \<le> e_round_counter e2"
    and "CHR ''-'' \<notin> set token1" and "CHR ''-'' \<notin> set token2"
  shows "e_round_id e1' \<noteq> e_round_id e2'"
proof
  assume "e_round_id e1' = e_round_id e2'"
  then have "make_round_id name1 (Suc (e_round_counter e1)) token1 = make_round_id name2 (Suc (e_round_counter e2)) token2"
    using loaded_engine [OF assms(1)] loaded_engine [OF assms(2)] by auto
  from round_id_inj [OF this assms(4,5)] loaded_engine [OF assms(1)] assms(3) show False by auto
qed

subsection \<open>Generators and lanes\<close>

text \<open>The lanes a generator drives in a Room: one per fixture when it addresses the whole Room.\<close>

definition driven_lanes :: "string list \<Rightarrow> generator_spec \<Rightarrow> lane list" where
  "driven_lanes fixtures g =
     map (\<lambda>t. (t, g_status g, g_data1 g))
       (if g_dev g = ROOM then fixtures
        else case fixture_name (g_dev g) of Some n \<Rightarrow> [n] | None \<Rightarrow> [g_dev g])"

lemma no_collision:
  "\<not> lanes_collide fixtures owners table \<Longrightarrow>
   distinct (concat (map (driven_lanes fixtures) (generator_specs table)))
   \<and> set (concat (map (driven_lanes fixtures) (generator_specs table))) \<inter> set owners = {}"
proof (induction table arbitrary: owners)
  case (Cons x rest)
  obtain key fn where x: "x = (key, fn)" by fastforce
  show ?case
  proof (cases "f_kind fn = GENERATOR")
    case False
    with Cons x show ?thesis by (auto simp: generator_specs_def List.map_filter_def)
  next
    case True
    then obtain g where g: "f_generator fn = Some g" using Cons.prems x by (auto split: option.splits)
    let ?lanes = "driven_lanes fixtures g"
    have "distinct ?lanes" "set ?lanes \<inter> set owners = {}" "\<not> lanes_collide fixtures (owners @ ?lanes) rest"
      using Cons.prems x True g by (simp_all add: driven_lanes_def Let_def split: if_splits)
    moreover have "generator_specs (x # rest) = g # generator_specs rest"
      by (simp add: generator_specs_def List.map_filter_def x True g)
    ultimately show ?thesis using Cons.IH [of "owners @ ?lanes"] by auto
  qed
qed (simp add: generator_specs_def List.map_filter_def)

text \<open>
  No two generators of a loaded Bit fight. After a successful load in a Room, the running generators
  are those of one function table, and all the lanes they drive, a Room-wide generator counted once per
  fixture, are different, within one generator and across them.
\<close>
theorem loaded_generators_never_fight:
  assumes load: "load_bit env name token e = (e', Ok ())" and room: "e_room e = Some r"
  shows "\<exists>table. e_generators e' = Some (new_runner (generator_specs table))
    \<and> distinct (concat (map (driven_lanes (map x_name (p_fixtures (rm_profile r)))) (generator_specs table)))"
proof -
  from loaded_engine [OF load] obtain ld where
    p: "prepare_bit env name (set_state LOADING e) = Some ld"
    and g: "e_generators e' = Some (new_runner (generator_specs (ld_functions ld)))" by blast
  have fin: "ld_functions ld = fs" if "finish_load env b reqs fs table = Some ld" for b reqs fs table
    using that by (auto simp: finish_load_def split: if_splits)
  have fit: "\<not> lanes_collide (map x_name (p_fixtures (rm_profile r))) [] fs"
    if "check_room_fit r fs reqs slots light ugen table = Some table'" for fs reqs slots light ugen table table'
    using that by (auto simp: check_room_fit_def Let_def split: if_splits option.splits)
  have "\<not> lanes_collide (map x_name (p_fixtures (rm_profile r))) [] (ld_functions ld)"
    using p room
    by (simp add: prepare_bit_def split: outcome.splits prod.splits if_splits option.splits) (auto dest!: fin fit)
  from conjunct1 [OF no_collision [OF this]] g show ?thesis by blast
qed


subsection \<open>Reaping\<close>

lemma reap_one_eqs:
  "reap_one env d e = (e', freed) \<Longrightarrow>
   e_devices e' = pool_remove d (e_devices e)
   \<and> (case e_registration e of None \<Rightarrow> e_registration e' = None
      | Some reg \<Rightarrow> e_registration e' = Some (if release_held d reg then release d reg else reg))"
  by (auto simp: reap_one_def Let_def clear_ema_def send_guarded_def send_def
      split: option.splits sink_result.splits if_splits)

lemma release_unheld: "\<not> release_held d reg \<Longrightarrow> release d reg = reg"
  using drop_nothing [of d reg] by (simp add: release_held_def)

lemma reap_loop_eqs:
  "reap_loop env ds freed e = (e', f) \<Longrightarrow>
   e_devices e' = foldl (\<lambda>p d. pool_remove d p) (e_devices e) ds
   \<and> e_registration e' = map_option (\<lambda>reg. foldl (\<lambda>g d. release d g) reg ds) (e_registration e)"
proof (induction ds arbitrary: freed e)
  case (Cons d ds)
  obtain e1 f1 where one: "reap_one env d e = (e1, f1)" by fastforce
  with Cons.prems have rest: "reap_loop env ds (freed \<or> f1) e1 = (e', f)" by simp
  from Cons.IH [OF rest] reap_one_eqs [OF one] show ?case
    by (auto simp: release_unheld split: option.splits)
qed (simp add: option.map_ident)

lemma pool_get_removes: "pool_get d' (foldl (\<lambda>p d. pool_remove d p) p ds) = (if d' \<in> set ds then None else pool_get d' p)"
  by (induction ds arbitrary: p) (auto simp: pool_get_def pool_remove_def)

text \<open>
  Reaping frees exactly what the silent held. \<open>reap_stale\<close> answers with the connected devices whose
  last traffic is older than the timeout and that are bound to no fixture; afterwards each of them is
  unknown and holds neither a reservation nor a role, and every other device is known, reserved and
  assigned exactly as before.
\<close>
theorem reaping_frees_exactly_the_silent:
  assumes pool: "dict_ok (e_devices e)" and reap: "reap_stale env timeout now e = (e', gone)"
  shows "set gone = {d. (\<exists>info. pool_get d (e_devices e) = Some info \<and> timeout < now - di_last_seen info)
                        \<and> d \<notin> set (bound_devs e)}
    \<and> (\<forall>d. pool_get d (e_devices e') = (if d \<in> set gone then None else pool_get d (e_devices e)))
    \<and> (e_registration e' = None \<longleftrightarrow> e_registration e = None)
    \<and> (\<forall>reg reg' d. e_registration e = Some reg \<longrightarrow> e_registration e' = Some reg' \<longrightarrow>
         (dmem d (rg_validated reg') \<longleftrightarrow> d \<notin> set gone \<and> dmem d (rg_validated reg))
         \<and> (dmem d (rg_assignments reg') \<longleftrightarrow> d \<notin> set gone \<and> dmem d (rg_assignments reg)))"
proof -
  obtain e1 f where l: "reap_loop env (reap_targets timeout now e) False e = (e1, f)" by fastforce
  have g: "gone = reap_targets timeout now e" and same: "e_devices e' = e_devices e1" "e_registration e' = e_registration e1"
    using reap l by (auto simp: reap_stale_def Let_def notify_def split: if_splits)
  have "set gone = {d. (\<exists>info. pool_get d (e_devices e) = Some info \<and> timeout < now - di_last_seen info)
                        \<and> d \<notin> set (bound_devs e)}"
    by (auto simp: g reap_targets_def pool_get_def stale_iff [OF pool])
  then show ?thesis
    using reap_loop_eqs [OF l] same
    by (auto simp: g pool_get_removes foldl_release_fields dmem_foldl_dpop)
qed

subsection \<open>Fixtures that cannot be named\<close>

lemma all_some_None: "all_some xs = None \<longleftrightarrow> None \<in> set xs"
  by (induction xs rule: all_some.induct) auto

text \<open>
  When the Room can be addressed. Resolving the Room fails exactly when some fixture is unbound and has
  a name from which no sentinel can be formed.
\<close>
theorem room_resolution_fails_iff:
  "room_devs e = None \<longleftrightarrow>
     (\<exists>r f. e_room e = Some r \<and> f \<in> set (p_fixtures (rm_profile r))
        \<and> dget (rm_bound r) (x_name f) = None \<and> fixture_dev (x_name f) = None)"
proof (cases "e_room e")
  case (Some r)
  have "room_devs e = None \<longleftrightarrow> (\<exists>f \<in> set (p_fixtures (rm_profile r)). fixture_target e (x_name f) = None)"
    by (auto simp: room_devs_def all_some_None fixture_names_def Some image_iff) force+
  also have "\<dots> \<longleftrightarrow> (\<exists>f \<in> set (p_fixtures (rm_profile r)).
      dget (rm_bound r) (x_name f) = None \<and> fixture_dev (x_name f) = None)"
    by (rule bex_cong) (auto simp: fixture_target_def Some split: option.split)
  finally show ?thesis using Some by auto
qed (simp add: room_devs_def fixture_names_def)

definition plain_room :: "room_profile \<Rightarrow> room" where
  "plain_room p = \<lparr>rm_name = ''hall'', rm_profile = p, rm_node_id = ''room'', rm_bound = []\<rparr>"

definition spaced_profile :: room_profile where
  "spaced_profile = \<lparr>p_surface_id = ''demo'', p_fixtures = [strip_fixture\<lparr>x_name := ''left arch''\<rparr>]\<rparr>"

text \<open>
  A profile that passes validation can still break the Room. Validation does not look at the grammar of
  fixture names, so a fixture called \<open>left arch\<close> is accepted; as long as it is unbound, every resolution
  of the Room raises, with any Bit and at any moment.
\<close>
theorem accepted_profile_can_break_the_room:
  "validate_profile spaced_profile = None
   \<and> room_devs ((new_engine binding :: 'b engine)\<lparr>e_room := Some (plain_room spaced_profile)\<rparr>) = None"
proof
  show "validate_profile spaced_profile = None" by code_simp
  have "\<not> name_ok ''left arch''" by code_simp
  then show "room_devs ((new_engine binding :: 'b engine)\<lparr>e_room := Some (plain_room spaced_profile)\<rparr>) = None"
    by (simp add: room_devs_def fixture_names_def fixture_target_def plain_room_def spaced_profile_def fixture_dev_def)
qed


subsection \<open>Concrete engines\<close>

text \<open>A Bit of one role table and one function table, whose hooks all answer, and a sink that delivers.\<close>

definition demo_env :: "fn_table \<Rightarrow> unit env" where
  "demo_env table =
     \<lparr>v_make = (\<lambda>_. Ret ()), v_version = (\<lambda>_. ''1''), v_config = (\<lambda>_. None),
      v_role_table = (\<lambda>b. (b, Ret demo_table)), v_requirements = (\<lambda>b. (b, Ret [])),
      v_function_table = (\<lambda>b. (b, Ret table)), v_room_manifests = (\<lambda>b. (b, Ret (VDict [], VDict []))),
      v_verbs = (\<lambda>b. (b, Ret [])), v_handler = (\<lambda>b _ _ _ _. (b, Ret (Cues []))),
      v_actions = (\<lambda>b. (b, Ret [])), v_action = (\<lambda>b _ _. (b, Ret (Cues []))),
      v_on_setup_enter = (\<lambda>b. (b, Ret ())), v_on_run_start = (\<lambda>b. (b, Ret ())),
      v_on_join = (\<lambda>b _ _. (b, Ret ())), v_admits = (\<lambda>b _ _. (b, Ret True)),
      v_update = (\<lambda>b _. (b, Ret False)), v_fires = (\<lambda>b _. (b, Ret [])),
      v_on_complete = (\<lambda>b. (b, Ret ())), v_on_unload = (\<lambda>b. (b, Ret ())),
      v_instruments = [], v_admins = [], v_horizon = 1 / 2, v_sink = (\<lambda>_ _. Delivered)\<rparr>"

definition glow :: func where
  "glow = \<lparr>f_name = ''glow'', f_description = ''a slow glow'', f_target = None, f_condition = None,
           f_script = [], f_kind = GENERATOR,
           f_generator = Some \<lparr>g_dev = ROOM, g_status = 176, g_data1 = 3, g_waveform = ''triangle'',
                              g_period = Fin 4, g_lo = 0, g_hi = 100\<rparr>, f_stream = None\<rparr>"

text \<open>A declaration as a Bit could return it after it was loaded: no condition.\<close>

definition bare :: func where
  "bare = glow\<lparr>f_name := ''bare'', f_kind := SCRIPTED, f_target := Some TRoom, f_generator := None\<rparr>"

abbreviation (input) is_ok :: "'x \<times> 'a res \<Rightarrow> bool" where
  "is_ok r \<equiv> (case snd r of Ok _ \<Rightarrow> True | Err _ \<Rightarrow> False)"

definition demo_idle :: "unit engine" where
  "demo_idle = (new_engine None)\<lparr>e_room := Some (plain_room demo_profile),
                                e_devices := demo_pool\<rparr>"

definition demo_loaded :: "unit engine" where
  "demo_loaded = fst (load_bit (demo_env [(''glow'', glow)]) ''Demo'' ''c0ffee'' demo_idle)"

definition demo_joined :: "unit engine" where
  "demo_joined = fst (handshake (demo_env []) ''a'' ''Demo-1-c0ffee'' ''n'' 100 100 demo_loaded)"

lemma demo_load_ok:
  "load_bit (demo_env [(''glow'', glow)]) ''Demo'' ''c0ffee'' demo_idle = (demo_loaded, Ok ())"
proof -
  have "snd (load_bit (demo_env [(''glow'', glow)]) ''Demo'' ''c0ffee'' demo_idle) = Ok ()" by code_simp
  then show ?thesis by (simp add: demo_loaded_def prod_eq_iff)
qed

lemma refused_fire_presents_nothing_witness:
  "\<exists>e'. fire_function (demo_env []) ''ping'' ByAdminManual None None 0 demo_idle = (e', Ret (Some NoSurfaceGiven))
     \<and> e' = demo_idle\<lparr>e_bit := e_bit e'\<rparr>"
proof -
  have "snd (fire_function (demo_env []) ''ping'' ByAdminManual None None 0 demo_idle) = Ret (Some NoSurfaceGiven)"
    by code_simp
  then obtain e' where f: "fire_function (demo_env []) ''ping'' ByAdminManual None None 0 demo_idle = (e', Ret (Some NoSurfaceGiven))"
    by (metis prod.collapse)
  from f refused_fire_presents_nothing [OF f] show ?thesis by simp
qed

lemma fire_raises_only_without_condition_witness:
  "snd (fire_function (demo_env [(''bare'', bare)]) ''bare'' ByAdminManual None None 0 demo_loaded) = Raised
   \<and> (\<exists>fn. snd (lookup_decl (demo_env [(''bare'', bare)]) ''bare'' demo_loaded) = Ret (Some fn) \<and> f_condition fn = None)"
proof -
  have "snd (fire_function (demo_env [(''bare'', bare)]) ''bare'' ByAdminManual None None 0 demo_loaded) = Raised"
    by code_simp
  with fire_raises_only_without_condition [OF this] show ?thesis by blast
qed

lemma muted_device_stays_silent_witness:
  "\<exists>new. e_trace (dispatch_cues (demo_env []) (Fin 1) ByAdminManual 0 [PlayCue ''a'' ''hat'' ''[]''] (demo_idle\<lparr>e_muted := [''a'']\<rparr>))
        = e_trace demo_idle @ new \<and> (\<forall>x \<in> set new. played_on x \<noteq> Some ''a'')"
proof -
  have "is_muted (demo_idle\<lparr>e_muted := [''a'']\<rparr>) ''a'' = Some True" by code_simp
  from muted_device_stays_silent [OF this, of "demo_env []" "Fin 1" ByAdminManual 0 "[PlayCue ''a'' ''hat'' ''[]'']"]
  show ?thesis by (auto simp: demo_idle_def)
qed

lemma granted_handshake_is_justified_witness:
  "(\<exists>jr reg reg' v. handshake (demo_env []) ''a'' ''Demo-1-c0ffee'' ''n'' 100 100 demo_loaded = (demo_joined, Ok jr)
     \<and> e_registration demo_loaded = Some reg \<and> dget (rg_validated reg) ''a'' = None
     \<and> e_registration demo_joined = Some reg' \<and> dget (rg_validated reg') ''a'' = Some v)
   \<and> fst (handshake (demo_env []) ''a'' ''Demo-1-c0ffee'' ''n'' 101 101 demo_joined) = demo_joined"
proof
  have ok: "(case handshake (demo_env []) ''a'' ''Demo-1-c0ffee'' ''n'' 100 100 demo_loaded of
      (_, Ok jr) \<Rightarrow> jr_granted jr | _ \<Rightarrow> False)"
    and reg: "(case e_registration demo_loaded of None \<Rightarrow> False | Some reg \<Rightarrow>
      \<not> is_room_node reg ''n'' \<and> \<not> dmem ''a'' (rg_validated reg))"
    by code_simp+
  from ok obtain jr where h: "handshake (demo_env []) ''a'' ''Demo-1-c0ffee'' ''n'' 100 100 demo_loaded = (demo_joined, Ok jr)"
    and g: "jr_granted jr" by (auto simp: demo_joined_def split: prod.splits res.splits)
  from reg obtain r where r: "e_registration demo_loaded = Some r" and p: "\<not> (''n'' \<noteq> [] \<and> is_room_node r ''n'')"
    and new: "dget (rg_validated r) ''a'' = None" by (auto simp: dget_None_iff split: option.splits)
  from granted_handshake_is_justified [OF h g r p] h r new
  show "\<exists>jr reg reg' v. handshake (demo_env []) ''a'' ''Demo-1-c0ffee'' ''n'' 100 100 demo_loaded = (demo_joined, Ok jr)
     \<and> e_registration demo_loaded = Some reg \<and> dget (rg_validated reg) ''a'' = None
     \<and> e_registration demo_joined = Some reg' \<and> dget (rg_validated reg') ''a'' = Some v" by simp blast
next
  let ?again = "handshake (demo_env []) ''a'' ''Demo-1-c0ffee'' ''n'' 101 101 demo_joined"
  have ok: "(case snd ?again of Ok jr \<Rightarrow> jr_granted jr | _ \<Rightarrow> False)"
    and reg: "(case e_registration demo_joined of None \<Rightarrow> False | Some reg \<Rightarrow>
      \<not> is_room_node reg ''n'' \<and> dmem ''a'' (rg_validated reg))"
    by code_simp+
  from ok obtain jr where h: "?again = (fst ?again, Ok jr)" and g: "jr_granted jr"
    by (cases "snd ?again") (auto simp: prod_eq_iff)
  from reg obtain r where r: "e_registration demo_joined = Some r" and p: "\<not> (''n'' \<noteq> [] \<and> is_room_node r ''n'')"
    and held: "dget (rg_validated r) ''a'' \<noteq> None" by (auto simp: dget_None_iff split: option.splits)
  from granted_handshake_is_justified [OF h g r p] held show "fst ?again = demo_joined" by (auto split: option.splits)
qed

lemma smoothing_interpolates_witness:
  "\<exists>y. apply_trigger ''a'' \<lparr>tg_name = ''tilt'', tg_description = '''', tg_verb = ''tilt'', tg_arg = 0,
         tg_transform = ''smooth'', tg_params = [(''alpha'', VFloat (Fin (1 / 4)))]\<rparr>
       ([VFloat (Fin 8)], [((''a'', ''tilt''), Fin 4)]) = Some ([VFloat (Fin y)], [((''a'', ''tilt''), Fin y)])
     \<and> 4 \<le> y \<and> y \<le> 8"
proof -
  let ?t = "\<lparr>tg_name = ''tilt'', tg_description = '''', tg_verb = ''tilt'', tg_arg = 0,
         tg_transform = ''smooth'', tg_params = [(''alpha'', VFloat (Fin (1 / 4)))]\<rparr>"
  show ?thesis
    using smoothing_interpolates [of "[VFloat (Fin 8)]" ?t 8 "1 / 4" "[((''a'', ''tilt''), Fin 4)]" "''a''" 4] by simp
qed

lemma abort_always_gets_back_witness:
  "snd (abort (demo_env []) (demo_joined\<lparr>e_muted := [''a'', ''b'']\<rparr>)) = Ok ()
   \<and> e_muted (fst (abort (demo_env []) (demo_joined\<lparr>e_muted := [''a'', ''b'']\<rparr>))) = []"
proof -
  have st: "e_state (demo_joined\<lparr>e_muted := [''a'', ''b'']\<rparr>) \<noteq> IDLE"
    and reg: "e_registration (demo_joined\<lparr>e_muted := [''a'', ''b'']\<rparr>) \<noteq> None"
    and room: "e_room (demo_joined\<lparr>e_muted := [''a'', ''b'']\<rparr>) = Some (plain_room demo_profile)" by code_simp+
  from reg obtain r where r: "e_registration (demo_joined\<lparr>e_muted := [''a'', ''b'']\<rparr>) = Some r" by blast
  have "nameable (demo_joined\<lparr>e_muted := [''a'', ''b'']\<rparr>)" using room by (simp add: nameable_def plain_room_def)
  from abort_always_gets_back [OF st r this] show ?thesis by simp
qed

lemma run_gives_everyone_a_role_witness:
  "\<exists>e' reg'. run (demo_env []) demo_joined = (e', Ok ()) \<and> e_registration e' = Some reg'
     \<and> dmem ''a'' (rg_assignments reg') \<and> dmem ''b'' (rg_assignments reg')"
proof -
  have ok: "snd (run (demo_env []) demo_joined) = Ok ()"
    and reg: "(case e_registration demo_joined of None \<Rightarrow> False | Some reg \<Rightarrow> dmem ''a'' (rg_validated reg))"
    and b: "''b'' \<in> di_dev ` set (pool_all (e_devices demo_joined)) \<and> ''b'' \<notin> set (bound_devs demo_joined)
        \<and> \<not> is_admin (demo_env []) (Some ''b'')" by code_simp+
  obtain e' where run: "run (demo_env []) demo_joined = (e', Ok ())" using ok by (metis prod.collapse)
  from reg obtain r where r: "e_registration demo_joined = Some r" "dmem ''a'' (rg_validated r)"
    by (auto split: option.splits)
  from run_gives_everyone_a_role [OF run r(1)] r(2) b run show ?thesis by blast
qed

lemma round_ids_differ_witness:
  "e_round_id demo_loaded \<noteq> e_round_id (fst (load_bit (demo_env []) ''Demo'' ''c0ffee'' (fst (abort (demo_env []) demo_loaded))))"
proof -
  let ?again = "load_bit (demo_env []) ''Demo'' ''c0ffee'' (fst (abort (demo_env []) demo_loaded))"
  have "snd ?again = Ok ()" by code_simp
  then have again: "?again = (fst ?again, Ok ())" by (metis prod.collapse)
  have "e_round_counter demo_loaded \<le> e_round_counter (fst (abort (demo_env []) demo_loaded))" by code_simp
  from round_ids_differ [OF demo_load_ok again this] show ?thesis by simp
qed

lemma loaded_generators_never_fight_witness:
  "\<exists>table. e_generators demo_loaded = Some (new_runner (generator_specs table))
     \<and> distinct (concat (map (driven_lanes [''strip'', ''arch'']) (generator_specs table)))"
proof -
  have room: "e_room demo_idle = Some (plain_room demo_profile)"
    and names: "map x_name (p_fixtures (rm_profile (plain_room demo_profile))) = [''strip'', ''arch'']" by code_simp+
  from loaded_generators_never_fight [OF demo_load_ok room] names show ?thesis by simp
qed

lemma reaping_frees_exactly_the_silent_witness:
  "\<exists>e'. reap_stale (demo_env []) 30 100 demo_joined = (e', [''a'']) \<and> pool_get ''a'' (e_devices e') = None
     \<and> (\<forall>reg'. e_registration e' = Some reg' \<longrightarrow> \<not> dmem ''a'' (rg_validated reg'))"
proof -
  have gone: "snd (reap_stale (demo_env []) 30 100 demo_joined) = [''a'']"
    and ok: "distinct (map fst (e_devices demo_joined))" by code_simp+
  obtain e' where e': "reap_stale (demo_env []) 30 100 demo_joined = (e', [''a''])" using gone by (metis prod.collapse)
  from reaping_frees_exactly_the_silent [OF ok e'] e' show ?thesis by (cases "e_registration demo_joined") auto
qed

end
