(* ===== verification/Beat_Link.thy ===== *)
theory Beat_Link
  imports Prelude
begin

section \<open>The beat heartbeat, device side\<close>

text \<open>
  \<open>src/harness/beat_link.py\<close>, with the constants of \<open>src/devicelink/contract.py\<close>. Times are the device's
  own clock, as exact rationals. The random gap to the next beat is an argument of the operations that
  draw it; a jitter of at most half the interval keeps it positive, which the theorems do not need.
\<close>

definition HELLO_INTERVAL_S :: rat where "HELLO_INTERVAL_S = 5"
definition BEAT_INTERVAL_S :: rat where "BEAT_INTERVAL_S = 1"
definition BEAT_JITTER_S :: rat where "BEAT_JITTER_S = 1 / 10"
definition LINK_LOST_S :: rat where "LINK_LOST_S = 3"
definition GRACE_S :: rat where "GRACE_S = 15"

definition SEQ_WRAP :: int where "SEQ_WRAP = 2 ^ 31"
definition RTT_MEMORY :: nat where "RTT_MEMORY = 32"

datatype link_state = DOWN | LINKING | LINKED | LOOKING | SOLO

datatype link_action =
    SendHello | SendBeat int int | DropTransport | DropRole | StateChanged link_state

record beat_link =
  bl_lost_after :: rat
  bl_grace :: rat
  bl_legacy_hello :: rat
  bl_state :: link_state
  bl_armed :: bool
  bl_epoch :: "string option"
  bl_rtt_ms :: int
  bl_up :: bool
  bl_seq :: int
  bl_sent_at :: "(int, rat) dict"
  bl_next_beat :: "rat option"
  bl_next_hello :: "rat option"
  bl_last_heard :: "rat option"
  bl_lost_since :: "rat option"

definition new_beat_link :: "rat \<Rightarrow> rat \<Rightarrow> rat \<Rightarrow> beat_link" where
  "new_beat_link lost_after grace legacy_hello =
     \<lparr>bl_lost_after = lost_after, bl_grace = grace, bl_legacy_hello = legacy_hello, bl_state = DOWN,
      bl_armed = False, bl_epoch = None, bl_rtt_ms = 0, bl_up = False, bl_seq = 0, bl_sent_at = [],
      bl_next_beat = None, bl_next_hello = None, bl_last_heard = None, bl_lost_since = None\<rparr>"

text \<open>Each operation returns the link and the actions for the caller, in order.\<close>

definition set_link :: "link_state \<Rightarrow> beat_link \<Rightarrow> beat_link \<times> link_action list" where
  "set_link s b = (if s = bl_state b then (b, []) else (b\<lparr>bl_state := s\<rparr>, [StateChanged s]))"

text \<open>\<open>del self._sent_at[min(self._sent_at)]\<close> when the memory is over its bound.\<close>

definition forget_oldest :: "(int, rat) dict \<Rightarrow> (int, rat) dict" where
  "forget_oldest d = (if RTT_MEMORY < length d then dpop (Min (set (dkeys d))) d else d)"

definition send_beat :: "rat \<Rightarrow> beat_link \<Rightarrow> beat_link \<times> link_action" where
  "send_beat now b =
     (b\<lparr>bl_sent_at := forget_oldest (dset (bl_seq b) now (bl_sent_at b)),
        bl_seq := (bl_seq b + 1) mod SEQ_WRAP\<rparr>,
      SendBeat (bl_seq b) (bl_rtt_ms b))"

definition next_time :: "rat \<Rightarrow> rat \<Rightarrow> rat \<Rightarrow> rat" where
  "next_time due step now = (if now < due + step then due + step else now + step)"

definition link_up :: "rat \<Rightarrow> rat \<Rightarrow> beat_link \<Rightarrow> beat_link \<times> link_action list" where
  "link_up now gap b =
     (let relinked = (bl_state b = LINKED);
          b1 = b\<lparr>bl_up := True, bl_armed := (if relinked then bl_armed b else False),
                 bl_seq := 0, bl_sent_at := []\<rparr>;
          (b2, beat) = send_beat now b1;
          b3 = b2\<lparr>bl_next_beat := Some (now + gap), bl_next_hello := Some (now + bl_legacy_hello b2),
                  bl_last_heard := (if relinked then bl_last_heard b2 else Some now)\<rparr>;
          (b4, out) = (if bl_state b3 = DOWN then set_link LINKING b3 else (b3, []))
      in (b4, [SendHello, beat] @ out))"

definition link_down :: "beat_link \<Rightarrow> beat_link \<times> link_action list" where
  "link_down b =
     (let b1 = b\<lparr>bl_up := False, bl_next_beat := None, bl_next_hello := None\<rparr>;
          (b2, out) = (if bl_state b1 = LINKED then set_link LOOKING (b1\<lparr>bl_lost_since := bl_last_heard b1\<rparr>)
                       else if bl_state b1 = LINKING then set_link DOWN b1 else (b1, []))
      in (b2\<lparr>bl_armed := False\<rparr>, out))"

definition on_control_message :: "rat \<Rightarrow> beat_link \<Rightarrow> beat_link" where
  "on_control_message now b = (if bl_up b then b\<lparr>bl_last_heard := Some now\<rparr> else b)"

definition on_beat_reply :: "rat \<Rightarrow> int \<Rightarrow> string \<Rightarrow> beat_link \<Rightarrow> beat_link \<times> link_action list" where
  "on_beat_reply now seq epoch b =
     (if \<not> bl_up b then (b, [])
      else (let b1 = on_control_message now b;
                b2 = (case dget (bl_sent_at b1) seq of
                        None \<Rightarrow> b1
                      | Some sent \<Rightarrow>
                          b1\<lparr>bl_sent_at := dpop seq (bl_sent_at b1),
                             bl_rtt_ms := max 0 (py_round ((now - sent) * 1000))\<rparr>);
                restarted = (case bl_epoch b2 of None \<Rightarrow> False | Some e \<Rightarrow> e \<noteq> epoch);
                (b3, out) = set_link LINKED (b2\<lparr>bl_epoch := Some epoch, bl_armed := True, bl_lost_since := None\<rparr>)
            in (b3, (if restarted then [DropRole, SendHello] else []) @ out)))"

definition link_lost :: "rat \<Rightarrow> beat_link \<Rightarrow> bool" where
  "link_lost now b \<longleftrightarrow>
     bl_armed b \<and> bl_state b = LINKED
     \<and> (case bl_last_heard b of None \<Rightarrow> False | Some h \<Rightarrow> bl_lost_after b \<le> now - h)"

definition tick_beat :: "rat \<Rightarrow> rat \<Rightarrow> beat_link \<Rightarrow> beat_link \<times> link_action list" where
  "tick_beat now gap b =
     (case bl_next_beat b of
        None \<Rightarrow> (b, [])
      | Some due \<Rightarrow>
          if now < due then (b, [])
          else (let (b', beat) = send_beat now b
                in (b'\<lparr>bl_next_beat := Some (next_time due gap now)\<rparr>, [beat])))"

definition tick_hello :: "rat \<Rightarrow> beat_link \<Rightarrow> beat_link \<times> link_action list" where
  "tick_hello now b =
     (case bl_next_hello b of
        None \<Rightarrow> (b, [])
      | Some due \<Rightarrow>
          if bl_armed b \<or> now < due then (b, [])
          else (b\<lparr>bl_next_hello := Some (next_time due (bl_legacy_hello b) now)\<rparr>, [SendHello]))"

definition tick_up :: "rat \<Rightarrow> rat \<Rightarrow> beat_link \<Rightarrow> beat_link \<times> link_action list" where
  "tick_up now gap b =
     (if \<not> bl_up b then (b, [])
      else if link_lost now b
      then (let (b', out) = set_link LOOKING
                  (b\<lparr>bl_lost_since := bl_last_heard b, bl_up := False, bl_armed := False,
                     bl_next_beat := None, bl_next_hello := None\<rparr>)
            in (b', DropTransport # out))
      else (let (b1, out1) = tick_beat now gap b; (b2, out2) = tick_hello now b1
            in (b2, out1 @ out2)))"

definition solo_due :: "rat \<Rightarrow> beat_link \<Rightarrow> bool" where
  "solo_due now b \<longleftrightarrow>
     bl_state b = LOOKING \<and> (case bl_lost_since b of None \<Rightarrow> False | Some s \<Rightarrow> bl_grace b \<le> now - s)"

definition link_tick :: "rat \<Rightarrow> rat \<Rightarrow> beat_link \<Rightarrow> beat_link \<times> link_action list" where
  "link_tick now gap b =
     (let (b1, out1) = tick_up now gap b;
          (b2, out2) = (if solo_due now b1 then set_link SOLO b1 else (b1, []))
      in (b2, out1 @ out2))"

definition link_due_times :: "beat_link \<Rightarrow> rat list" where
  "link_due_times b =
     (case bl_next_beat b of None \<Rightarrow> [] | Some t \<Rightarrow> if bl_up b then [t] else [])
     @ (case bl_next_hello b of None \<Rightarrow> [] | Some t \<Rightarrow> if bl_up b \<and> \<not> bl_armed b then [t] else [])
     @ (case bl_last_heard b of None \<Rightarrow> []
        | Some h \<Rightarrow> if bl_up b \<and> bl_armed b \<and> bl_state b = LINKED then [h + bl_lost_after b] else [])
     @ (case bl_lost_since b of None \<Rightarrow> [] | Some s \<Rightarrow> if bl_state b = LOOKING then [s + bl_grace b] else [])"

definition link_next_due :: "beat_link \<Rightarrow> rat option" where
  "link_next_due b = (case link_due_times b of [] \<Rightarrow> None | ts \<Rightarrow> Some (Min (set ts)))"


subsection \<open>Every run of the link\<close>

datatype link_call = LinkUp rat rat | LinkDown | Heard rat | Replied rat int string | Ticked rat rat

fun link_step :: "beat_link \<Rightarrow> link_call \<Rightarrow> beat_link \<times> link_action list" where
  "link_step b (LinkUp now gap) = link_up now gap b"
| "link_step b LinkDown = link_down b"
| "link_step b (Heard now) = (on_control_message now b, [])"
| "link_step b (Replied now seq epoch) = on_beat_reply now seq epoch b"
| "link_step b (Ticked now gap) = link_tick now gap b"

definition link_ok :: "beat_link \<Rightarrow> bool" where
  "link_ok b \<longleftrightarrow>
     (bl_armed b \<longleftrightarrow> bl_state b = LINKED) \<and> (bl_state b \<in> {LINKED, LINKING} \<longrightarrow> bl_up b)
     \<and> (bl_state b = DOWN \<longrightarrow> \<not> bl_up b) \<and> (bl_up b \<longrightarrow> bl_last_heard b \<noteq> None)
     \<and> (bl_lost_since b \<noteq> None \<longleftrightarrow> bl_state b \<in> {LOOKING, SOLO})
     \<and> (bl_next_beat b \<noteq> None \<longleftrightarrow> bl_up b) \<and> (bl_next_hello b \<noteq> None \<longleftrightarrow> bl_up b)
     \<and> 0 \<le> bl_seq b \<and> bl_seq b < SEQ_WRAP
     \<and> dict_ok (bl_sent_at b) \<and> length (bl_sent_at b) \<le> RTT_MEMORY"

lemma set_link_fields [simp]:
  "fst (set_link s b) = b\<lparr>bl_state := s\<rparr>"
  "snd (set_link s b) = (if s = bl_state b then [] else [StateChanged s])"
  by (simp_all add: set_link_def)

lemma length_dset_le: "length (dset k v d) \<le> Suc (length d)"
  by (induction d) auto

lemma length_dpop_mem:
  assumes "dict_ok d" and "dmem k d"
  shows "Suc (length (dpop k d)) = length d"
  using assms
proof (induction d)
  case (Cons x d)
  show ?case
  proof (cases "fst x = k")
    case True
    then have "\<not> dmem k d" using Cons.prems(1) by (auto simp: dmem_def)
    then have "dpop k d = d" by (simp add: AList.delete_eq dmem_def filter_id_conv) force
    with True show ?thesis by (cases x) (simp add: AList.delete_eq)
  next
    case False
    with Cons show ?thesis by (cases x) (simp add: AList.delete_eq dmem_def)
  qed
qed (simp add: dmem_def)

lemma forget_oldest_ok:
  assumes "dict_ok d" and "length d \<le> Suc RTT_MEMORY"
  shows "dict_ok (forget_oldest d) \<and> length (forget_oldest d) \<le> RTT_MEMORY"
proof (cases "RTT_MEMORY < length d")
  case True
  then have "set (dkeys d) \<noteq> {}" by (cases d) auto
  then have "dmem (Min (set (dkeys d))) d" using Min_in [of "set (dkeys d)"] by (simp add: dmem_def)
  from length_dpop_mem [OF assms(1) this] True assms show ?thesis by (simp add: forget_oldest_def)
qed (use assms in \<open>simp add: forget_oldest_def\<close>)

lemma send_beat_eqs:
  "send_beat now b = (b', beat) \<Longrightarrow>
   \<exists>d q. b' = b\<lparr>bl_sent_at := d, bl_seq := q\<rparr> \<and> beat = SendBeat (bl_seq b) (bl_rtt_ms b) \<and> 0 \<le> q \<and> q < SEQ_WRAP
     \<and> (dict_ok (bl_sent_at b) \<and> length (bl_sent_at b) \<le> RTT_MEMORY \<longrightarrow> dict_ok d \<and> length d \<le> RTT_MEMORY)"
proof -
  assume s: "send_beat now b = (b', beat)"
  let ?d = "dset (bl_seq b) now (bl_sent_at b)"
  have "dict_ok (forget_oldest ?d) \<and> length (forget_oldest ?d) \<le> RTT_MEMORY"
    if "dict_ok (bl_sent_at b)" "length (bl_sent_at b) \<le> RTT_MEMORY"
    using forget_oldest_ok [of ?d] length_dset_le [of "bl_seq b" now "bl_sent_at b"] that by simp
  with s show ?thesis
    by (intro exI [of _ "forget_oldest ?d"] exI [of _ "(bl_seq b + 1) mod SEQ_WRAP"])
      (auto simp: send_beat_def SEQ_WRAP_def)
qed

lemma link_ok_up: "link_ok b \<Longrightarrow> link_ok (fst (link_up now gap b))"
proof -
  assume ok: "link_ok b"
  let ?b1 = "b\<lparr>bl_up := True, bl_armed := (if bl_state b = LINKED then bl_armed b else False),
                 bl_seq := 0, bl_sent_at := []\<rparr>"
  obtain b2 beat where s: "send_beat now ?b1 = (b2, beat)" by fastforce
  from send_beat_eqs [OF this] obtain d q where
    b2: "b2 = ?b1\<lparr>bl_sent_at := d, bl_seq := q\<rparr>" "0 \<le> q" "q < SEQ_WRAP" "dict_ok d" "length d \<le> RTT_MEMORY"
    by auto
  with ok s show ?thesis
    by (cases "bl_state b") (auto simp: link_up_def link_ok_def Let_def set_link_def)
qed

lemma link_ok_down: "link_ok b \<Longrightarrow> link_ok (fst (link_down b))"
  by (cases "bl_state b") (auto simp: link_down_def link_ok_def Let_def set_link_def)

lemma link_ok_heard: "link_ok b \<Longrightarrow> link_ok (on_control_message now b)"
  unfolding on_control_message_def link_ok_def by (cases "bl_up b") simp_all

lemma length_dpop_le_self: "length (dpop k d) \<le> length d"
  by (simp add: AList.delete_eq)

lemma link_ok_reply: "link_ok b \<Longrightarrow> link_ok (fst (on_beat_reply now seq epoch b))"
  using length_dpop_le_self [of seq "bl_sent_at b"]
  by (auto simp: on_beat_reply_def on_control_message_def link_ok_def Let_def set_link_def split: option.split)

lemma tick_beat_eqs:
  "tick_beat now gap b = (b', out) \<Longrightarrow>
   (b', out) = (b, []) \<and> (case bl_next_beat b of None \<Rightarrow> True | Some t \<Rightarrow> now < t)
   \<or> (\<exists>d q t. b' = b\<lparr>bl_sent_at := d, bl_seq := q, bl_next_beat := Some t\<rparr> \<and> 0 \<le> q \<and> q < SEQ_WRAP
        \<and> (dict_ok (bl_sent_at b) \<and> length (bl_sent_at b) \<le> RTT_MEMORY \<longrightarrow> dict_ok d \<and> length d \<le> RTT_MEMORY)
        \<and> out = [SendBeat (bl_seq b) (bl_rtt_ms b)] \<and> (\<exists>due. bl_next_beat b = Some due \<and> due \<le> now))"
  using send_beat_eqs [of now b]
  by (auto simp: tick_beat_def split: option.splits if_splits prod.splits)

lemma tick_hello_eqs:
  "tick_hello now b = (b', out) \<Longrightarrow>
   (b', out) = (b, []) \<and> (bl_armed b \<or> (case bl_next_hello b of None \<Rightarrow> True | Some t \<Rightarrow> now < t))
   \<or> (\<exists>t. b' = b\<lparr>bl_next_hello := Some t\<rparr> \<and> out = [SendHello] \<and> \<not> bl_armed b
        \<and> (\<exists>due. bl_next_hello b = Some due \<and> due \<le> now))"
  by (auto simp: tick_hello_def split: option.splits if_splits)


text \<open>What one tick does, case by case.\<close>

lemma tick_up_cases:
  assumes "link_ok b" and "tick_up now gap b = (b', out)"
  obtains (idle) "b' = b" "out = []" "\<not> link_lost now b" "\<forall>t \<in> set (link_due_times b). bl_state b \<noteq> LOOKING \<longrightarrow> now < t"
      "bl_up b \<longrightarrow> (\<forall>t. bl_next_beat b = Some t \<longrightarrow> now < t) \<and> (\<forall>t. bl_next_hello b = Some t \<longrightarrow> \<not> bl_armed b \<longrightarrow> now < t)"
    | (lost) "link_lost now b" "out = [DropTransport, StateChanged LOOKING]"
        "b' = b\<lparr>bl_lost_since := bl_last_heard b, bl_up := False, bl_armed := False, bl_next_beat := None,
               bl_next_hello := None, bl_state := LOOKING\<rparr>"
    | (sent) d q t h where "bl_up b" "\<not> link_lost now b" "out \<noteq> []" "\<forall>s. StateChanged s \<notin> set out"
        "b' = b\<lparr>bl_sent_at := d, bl_seq := q, bl_next_beat := Some t, bl_next_hello := Some h\<rparr>"
        "0 \<le> q" "q < SEQ_WRAP" "dict_ok d" "length d \<le> RTT_MEMORY" "\<exists>u \<in> set (link_due_times b). u \<le> now"
proof (cases "bl_up b")
  case False
  then show ?thesis using assms by (intro idle) (auto simp: tick_up_def link_lost_def link_ok_def link_due_times_def split: option.splits)
next
  case up: True
  show ?thesis
  proof (cases "link_lost now b")
    case True
    with up assms show ?thesis by (intro lost) (auto simp: tick_up_def set_link_def link_lost_def)
  next
    case False
    obtain b1 o1 where t1: "tick_beat now gap b = (b1, o1)" by fastforce
    obtain b2 o2 where t2: "tick_hello now b1 = (b2, o2)" by fastforce
    have fin: "b' = b2" "out = o1 @ o2" using assms(2) up False t1 t2 by (simp_all add: tick_up_def)
    obtain nb nh where nb: "bl_next_beat b = Some nb" and nh: "bl_next_hello b = Some nh"
      using assms(1) up by (auto simp: link_ok_def)
    have sane: "0 \<le> bl_seq b" "bl_seq b < SEQ_WRAP" "dict_ok (bl_sent_at b)" "length (bl_sent_at b) \<le> RTT_MEMORY"
      using assms(1) by (simp_all add: link_ok_def)
    show ?thesis
    proof (cases "now < nb")
      case True
      then have b1: "b1 = b" "o1 = []" using t1 nb by (simp_all add: tick_beat_def)
      show ?thesis
      proof (cases "bl_armed b \<or> now < nh")
        case True
        then have "b' = b" "out = []" using fin b1 t2 nh by (auto simp: tick_hello_def)
        then show ?thesis
          using \<open>now < nb\<close> True nb nh False up
          by (intro idle) (auto simp: link_due_times_def link_lost_def split: option.splits)
      next
        case hello: False
        then have "b' = b\<lparr>bl_sent_at := bl_sent_at b, bl_seq := bl_seq b, bl_next_beat := Some nb,
            bl_next_hello := Some (next_time nh (bl_legacy_hello b) now)\<rparr>" "out = [SendHello]"
          using fin b1 t2 nb nh by (auto simp: tick_hello_def)
        then show ?thesis
          using hello nh up False sane by (intro sent) (auto simp: link_due_times_def)
      qed
    next
      case beat: False
      from tick_beat_eqs [OF t1] nb beat sane obtain d q t where
        b1: "b1 = b\<lparr>bl_sent_at := d, bl_seq := q, bl_next_beat := Some t\<rparr>" "0 \<le> q" "q < SEQ_WRAP" "dict_ok d"
        "length d \<le> RTT_MEMORY" "o1 = [SendBeat (bl_seq b) (bl_rtt_ms b)]" by auto
      have "\<exists>h. b2 = b1\<lparr>bl_next_hello := Some h\<rparr> \<and> set o2 \<subseteq> {SendHello}"
        using tick_hello_eqs [OF t2] nh b1(1) by (auto intro: exI [of _ nh])
      then obtain h where "b' = b\<lparr>bl_sent_at := d, bl_seq := q, bl_next_beat := Some t, bl_next_hello := Some h\<rparr>"
        "set o2 \<subseteq> {SendHello}" using fin b1 by auto
      then show ?thesis
        using fin b1 nb beat up False by (intro sent) (auto simp: link_due_times_def)
    qed
  qed
qed

lemma link_ok_tick_up: "link_ok b \<Longrightarrow> link_ok (fst (tick_up now gap b))"
proof -
  assume ok: "link_ok b"
  obtain b' out where t: "tick_up now gap b = (b', out)" by fastforce
  from ok t have "link_ok b'" by (cases rule: tick_up_cases) (use ok in \<open>auto simp: link_ok_def link_lost_def\<close>)
  with t show ?thesis by simp
qed

lemma link_ok_tick: "link_ok b \<Longrightarrow> link_ok (fst (link_tick now gap b))"
proof -
  assume "link_ok b"
  from link_ok_tick_up [OF this, of now gap] obtain b1 out where t: "tick_up now gap b = (b1, out)" and "link_ok b1"
    by (metis fst_conv surj_pair)
  then show ?thesis by (auto simp: link_tick_def Let_def link_ok_def solo_due_def set_link_def)
qed

lemma link_ok_step: "link_ok b \<Longrightarrow> link_ok (fst (link_step b c))"
  by (cases c) (simp_all add: link_ok_up link_ok_down link_ok_heard link_ok_reply link_ok_tick)

interpretation link: machine "\<lambda>b c. fst (link_step b c)" link_ok
  by unfold_locales (rule link_ok_step)

lemma new_link_ok: "link_ok (new_beat_link lost grace hello)"
  by (simp add: link_ok_def new_beat_link_def SEQ_WRAP_def)

subsection \<open>Why a state is announced\<close>

fun announced :: "link_action list \<Rightarrow> link_state list" where
  "announced [] = []"
| "announced (StateChanged s # as) = s # announced as"
| "announced (_ # as) = announced as"

lemma announced_append [simp]: "announced (as @ bs) = announced as @ announced bs"
  by (induction as rule: announced.induct) simp_all

lemma no_announcement: "\<forall>s. StateChanged s \<notin> set as \<Longrightarrow> announced as = []"
  by (induction as rule: announced.induct) auto

lemma link_up_announces:
  "announced (snd (link_up now gap b)) = (if bl_state b = DOWN then [LINKING] else [])
   \<and> bl_state (fst (link_up now gap b)) = (if bl_state b = DOWN then LINKING else bl_state b)"
  by (simp add: link_up_def Let_def send_beat_def set_link_def)

lemma link_down_announces:
  "announced (snd (link_down b)) = (case bl_state b of LINKED \<Rightarrow> [LOOKING] | LINKING \<Rightarrow> [DOWN] | _ \<Rightarrow> [])
   \<and> bl_state (fst (link_down b)) = (case bl_state b of LINKED \<Rightarrow> LOOKING | LINKING \<Rightarrow> DOWN | s \<Rightarrow> s)"
  by (cases "bl_state b") (simp_all add: link_down_def Let_def set_link_def)

lemma reply_announces:
  "announced (snd (on_beat_reply now seq epoch b)) = (if bl_up b \<and> bl_state b \<noteq> LINKED then [LINKED] else [])
   \<and> bl_state (fst (on_beat_reply now seq epoch b)) = (if bl_up b then LINKED else bl_state b)"
  by (simp add: on_beat_reply_def on_control_message_def Let_def set_link_def split: option.split)

text \<open>A tick: the loss of the link first, then the end of the grace.\<close>

lemma tick_announces:
  assumes "link_ok b"
  shows "announced (snd (link_tick now gap b)) =
      (if link_lost now b
       then LOOKING # (case bl_last_heard b of None \<Rightarrow> [] | Some h \<Rightarrow> if bl_grace b \<le> now - h then [SOLO] else [])
       else if solo_due now b then [SOLO] else [])
    \<and> bl_state (fst (link_tick now gap b)) = last (bl_state b # announced (snd (link_tick now gap b)))"
proof -
  obtain b1 out where t: "tick_up now gap b = (b1, out)" by fastforce
  from assms t show ?thesis
  proof (cases rule: tick_up_cases)
    case idle
    with t show ?thesis by (auto simp: link_tick_def Let_def set_link_def solo_due_def)
  next
    case lost
    with t show ?thesis by (auto simp: link_tick_def Let_def set_link_def solo_due_def split: option.splits)
  next
    case (sent d q tt h)
    then have "solo_due now b1 = solo_due now b" "bl_state b1 = bl_state b" "announced out = []"
      by (simp_all add: solo_due_def no_announcement split: option.split)
    with t sent(2) show ?thesis by (auto simp: link_tick_def Let_def set_link_def solo_due_def)
  qed
qed

text \<open>
  The moments at which Control was heard while the device was linked; a beat reply makes it so. What else
  arrives in LOOKING or SOLO does not count: the grace runs from the contact before the loss.
\<close>

definition contact :: "beat_link \<Rightarrow> link_call \<Rightarrow> rat list" where
  "contact b c = (case c of
      Heard now \<Rightarrow> if bl_state b = LINKED then [now] else []
    | Replied now _ _ \<Rightarrow> if bl_up b then [now] else []
    | _ \<Rightarrow> [])"

fun contacts :: "beat_link \<Rightarrow> link_call list \<Rightarrow> rat list" where
  "contacts b [] = []"
| "contacts b (c # cs) = contact b c @ contacts (fst (link_step b c)) cs"

lemma contacts_append: "contacts b (cs @ ds) = contacts b cs @ contacts (foldl (\<lambda>b c. fst (link_step b c)) b cs) ds"
  by (induction cs arbitrary: b) simp_all

text \<open>The link's two clocks: while it is linked, the last contact; after a loss, the contact before it.\<close>

definition clocks_ok :: "rat list \<Rightarrow> beat_link \<Rightarrow> bool" where
  "clocks_ok heard b \<longleftrightarrow>
     (bl_state b = LINKED \<longrightarrow> heard \<noteq> [] \<and> bl_last_heard b = Some (last heard))
     \<and> (\<forall>s. bl_lost_since b = Some s \<longrightarrow> heard \<noteq> [] \<and> s = last heard)"

lemma link_up_clocks:
  "bl_lost_since (fst (link_up now gap b)) = bl_lost_since b
   \<and> (bl_state b = LINKED \<longrightarrow> bl_last_heard (fst (link_up now gap b)) = bl_last_heard b)"
  by (simp add: link_up_def Let_def send_beat_def set_link_def)

lemma link_down_clocks:
  "bl_lost_since (fst (link_down b)) = (if bl_state b = LINKED then bl_last_heard b else bl_lost_since b)"
  by (cases "bl_state b") (simp_all add: link_down_def Let_def set_link_def)

lemma reply_clocks:
  "bl_up b \<Longrightarrow> bl_lost_since (fst (on_beat_reply now seq epoch b)) = None
     \<and> bl_last_heard (fst (on_beat_reply now seq epoch b)) = Some now"
  "\<not> bl_up b \<Longrightarrow> on_beat_reply now seq epoch b = (b, [])"
  by (simp_all add: on_beat_reply_def on_control_message_def Let_def set_link_def split: option.split)

lemma tick_clocks:
  assumes "link_ok b"
  shows "if link_lost now b then bl_lost_since (fst (link_tick now gap b)) = bl_last_heard b
    else bl_lost_since (fst (link_tick now gap b)) = bl_lost_since b
      \<and> bl_last_heard (fst (link_tick now gap b)) = bl_last_heard b"
proof -
  obtain b1 out where t: "tick_up now gap b = (b1, out)" by fastforce
  from assms t show ?thesis
    by (cases rule: tick_up_cases) (use t in \<open>auto simp: link_tick_def Let_def set_link_def\<close>)
qed

lemma lost_since_states: "link_ok b \<Longrightarrow> bl_state b = LINKED \<Longrightarrow> bl_lost_since b = None \<and> bl_up b"
  by (auto simp: link_ok_def)

lemma clocks_step:
  assumes "link_ok b" and "clocks_ok heard b"
  shows "clocks_ok (heard @ contact b c) (fst (link_step b c))"
proof (cases c)
  case (LinkUp now gap)
  with link_up_clocks [of now gap b] link_up_announces [of now gap b] assms(2) show ?thesis
    by (auto simp: clocks_ok_def contact_def)
next
  case LinkDown
  with link_down_clocks [of b] link_down_announces [of b] assms(2) show ?thesis
    by (cases "bl_state b") (auto simp: clocks_ok_def contact_def)
next
  case (Heard now)
  with assms(2) lost_since_states [OF assms(1)] show ?thesis
    by (cases "bl_state b = LINKED") (simp_all add: clocks_ok_def contact_def on_control_message_def)
next
  case (Replied now seq epoch)
  with reply_clocks [of b now seq epoch] assms(2) show ?thesis
    by (cases "bl_up b") (simp_all add: clocks_ok_def contact_def)
next
  case (Ticked now gap)
  note ann = tick_announces [OF assms(1), of now gap] and clk = tick_clocks [OF assms(1), of now gap]
  show ?thesis
  proof (cases "link_lost now b")
    case True
    then have "bl_state b = LINKED" by (simp add: link_lost_def)
    moreover have "bl_state (fst (link_tick now gap b)) \<noteq> LINKED" using ann True by (auto split: option.splits)
    ultimately show ?thesis using clk True assms(2) Ticked by (auto simp: clocks_ok_def contact_def)
  next
    case False
    have "bl_state (fst (link_tick now gap b)) = LINKED \<longrightarrow> bl_state b = LINKED" using ann False by (auto split: if_splits)
    with clk False assms(2) Ticked show ?thesis by (simp add: clocks_ok_def contact_def)
  qed
qed

lemma clocks_run:
  "link_ok b \<Longrightarrow> clocks_ok heard b \<Longrightarrow>
   clocks_ok (heard @ contacts b cs) (foldl (\<lambda>b c. fst (link_step b c)) b cs)"
proof (induction cs arbitrary: b heard)
  case (Cons c cs)
  from Cons.IH [OF link_ok_step [OF Cons.prems(1)] clocks_step [OF Cons.prems], of c] show ?case by simp
qed simp

text \<open>What has to have happened for a state to be announced, in terms of the calls alone and the state before.\<close>

fun caused :: "rat \<Rightarrow> rat \<Rightarrow> rat list \<Rightarrow> beat_link \<Rightarrow> link_call \<Rightarrow> link_state \<Rightarrow> bool" where
  "caused lost grace heard b c LINKED \<longleftrightarrow> bl_up b \<and> (case c of Replied _ _ _ \<Rightarrow> True | _ \<Rightarrow> False)"
| "caused lost grace heard b c LINKING \<longleftrightarrow> bl_state b = DOWN \<and> (case c of LinkUp _ _ \<Rightarrow> True | _ \<Rightarrow> False)"
| "caused lost grace heard b c DOWN \<longleftrightarrow> bl_state b = LINKING \<and> c = LinkDown"
| "caused lost grace heard b c LOOKING \<longleftrightarrow> bl_state b = LINKED
     \<and> (case c of LinkDown \<Rightarrow> True | Ticked now _ \<Rightarrow> heard \<noteq> [] \<and> lost \<le> now - last heard | _ \<Rightarrow> False)"
| "caused lost grace heard b c SOLO \<longleftrightarrow> bl_state b \<in> {LINKED, LOOKING}
     \<and> (case c of Ticked now _ \<Rightarrow> heard \<noteq> [] \<and> grace \<le> now - last heard | _ \<Rightarrow> False)"

lemma parameters_step:
  "bl_lost_after (fst (link_step b c)) = bl_lost_after b \<and> bl_grace (fst (link_step b c)) = bl_grace b"
  by (cases c)
    (simp_all add: link_up_def link_down_def on_control_message_def on_beat_reply_def link_tick_def tick_up_def tick_beat_def
      tick_hello_def send_beat_def set_link_def Let_def split: option.split prod.split)

lemma parameters_run:
  "bl_lost_after (foldl (\<lambda>b c. fst (link_step b c)) b cs) = bl_lost_after b
   \<and> bl_grace (foldl (\<lambda>b c. fst (link_step b c)) b cs) = bl_grace b"
  by (induction cs arbitrary: b) (simp_all add: parameters_step)

lemma new_link_params: "bl_lost_after (new_beat_link lost grace hello) = lost" "bl_grace (new_beat_link lost grace hello) = grace"
  by (simp_all add: new_beat_link_def)

lemma step_caused:
  assumes ok: "link_ok b" and clk: "clocks_ok heard b"
  shows "list_all (caused (bl_lost_after b) (bl_grace b) heard b c) (announced (snd (link_step b c)))
    \<and> bl_state (fst (link_step b c)) = last (bl_state b # announced (snd (link_step b c)))"
proof (cases c)
  case (LinkUp now gap)
  with link_up_announces [of now gap b] show ?thesis by simp
next
  case LinkDown
  with link_down_announces [of b] show ?thesis by (cases "bl_state b") simp_all
next
  case (Heard now)
  then show ?thesis by (simp add: on_control_message_def)
next
  case (Replied now seq epoch)
  with reply_announces [of now seq epoch b] show ?thesis by simp
next
  case (Ticked now gap)
  note ann = tick_announces [OF ok, of now gap]
  show ?thesis
  proof (cases "link_lost now b")
    case True
    then have st: "bl_state b = LINKED" by (simp add: link_lost_def)
    then have h: "heard \<noteq> []" "bl_last_heard b = Some (last heard)" using clk by (simp_all add: clocks_ok_def)
    have "bl_lost_after b \<le> now - last heard" using True h by (simp add: link_lost_def)
    then show ?thesis using ann True st h Ticked by auto
  next
    case False
    then show ?thesis using ann clk Ticked by (auto simp: clocks_ok_def solo_due_def split: option.splits)
  qed
qed

text \<open>
  C25: The device changes its link state only for a reason, and announces every change. In any run, LINKED is
  announced only on a beat reply over a link that is up, never because a transport came up; LOOKING only
  out of LINKED, when the transport goes or when the loss time has passed since the last contact; SOLO
  only on a tick, out of LINKED or LOOKING, when the whole grace has passed since the last contact of the
  lost link; LINKING and DOWN only when the transport of a device that was never linked comes and goes. The
  state after a step is the one announced last, or the one before; the device believes itself armed exactly
  when it is LINKED, then over a link that is up, and remembers at most \<open>RTT_MEMORY\<close> unanswered beats.
\<close>
theorem link_states_have_their_causes:
  "let b0 = new_beat_link lost grace hello; b = foldl (\<lambda>b c. fst (link_step b c)) b0 calls
   in list_all (caused lost grace (contacts b0 calls) b c) (announced (snd (link_step b c)))
    \<and> bl_state (fst (link_step b c)) = last (bl_state b # announced (snd (link_step b c)))
    \<and> (bl_armed b \<longleftrightarrow> bl_state b = LINKED \<and> bl_up b) \<and> (bl_armed b \<longleftrightarrow> bl_state b = LINKED)
    \<and> length (bl_sent_at b) \<le> RTT_MEMORY"
proof -
  let ?fresh = "new_beat_link lost grace hello" and ?b = "foldl (\<lambda>b c. fst (link_step b c)) (new_beat_link lost grace hello) calls"
  have ok: "link_ok ?b" by (rule link.inv_run [OF new_link_ok])
  have "clocks_ok [] ?fresh" by (simp add: clocks_ok_def new_beat_link_def)
  from clocks_run [OF new_link_ok this, of calls] have "clocks_ok (contacts ?fresh calls) ?b" by simp
  note c = step_caused [OF ok this, of c]
  have "bl_lost_after ?b = lost" "bl_grace ?b = grace"
    using parameters_run [where b = ?fresh and cs = calls] by (simp_all add: new_link_params)
  with c have "list_all (caused lost grace (contacts ?fresh calls) ?b c) (announced (snd (link_step ?b c)))"
    "bl_state (fst (link_step ?b c)) = last (bl_state ?b # announced (snd (link_step ?b c)))" by simp_all
  moreover have "bl_armed ?b \<longleftrightarrow> bl_state ?b = LINKED \<and> bl_up ?b" "bl_armed ?b \<longleftrightarrow> bl_state ?b = LINKED"
    "length (bl_sent_at ?b) \<le> RTT_MEMORY" using ok by (auto simp: link_ok_def)
  ultimately show ?thesis unfolding Let_def by blast
qed

text \<open>
  Where the code leaves the diagram of the heartbeat design (\<open>docs/superpowers/specs\<close>, 2026-10-08, section
  6.1): there a relink takes a device from LOOKING to LINKING and from SOLO to LOOKING; here a transport that
  comes up in LOOKING or SOLO leaves the state as it is, and the first reply takes it to LINKED from there.
\<close>
theorem relink_is_not_announced:
  assumes "bl_state b \<in> {LOOKING, SOLO}"
  shows "announced (snd (link_up now gap b)) = [] \<and> bl_state (fst (link_up now gap b)) = bl_state b
    \<and> announced (snd (on_beat_reply later seq epoch (fst (link_up now gap b)))) = [LINKED]"
proof -
  have "bl_up (fst (link_up now gap b))" by (simp add: link_up_def Let_def send_beat_def set_link_def)
  with assms link_up_announces [of now gap b] reply_announces [of later seq epoch "fst (link_up now gap b)"]
  show ?thesis by auto
qed

subsection \<open>When to tick\<close>

lemma link_next_due_le: "link_next_due b = Some t \<Longrightarrow> now < t \<Longrightarrow> u \<in> set (link_due_times b) \<Longrightarrow> now < u"
  by (auto simp: link_next_due_def split: list.splits intro: less_le_trans dest: Min_le [OF finite_set])

lemma link_next_due_in: "link_next_due b = Some t \<Longrightarrow> t \<in> set (link_due_times b)"
proof -
  assume "link_next_due b = Some t"
  then have "link_due_times b \<noteq> []" "t = Min (set (link_due_times b))"
    by (auto simp: link_next_due_def split: list.splits)
  then show ?thesis using Min_in [of "set (link_due_times b)"] by simp
qed

lemma tick_active_iff:
  assumes ok: "link_ok b"
  shows "(\<exists>u \<in> set (link_due_times b). u \<le> now) \<longleftrightarrow> snd (link_tick now gap b) \<noteq> []"
    and "\<forall>u \<in> set (link_due_times b). now < u \<Longrightarrow> link_tick now gap b = (b, [])"
proof -
  obtain b1 out where t: "tick_up now gap b = (b1, out)" by fastforce
  have lost_due: "\<exists>u \<in> set (link_due_times b). u \<le> now" if "link_lost now b"
    using that ok by (auto simp: link_lost_def link_due_times_def link_ok_def algebra_simps split: option.splits)
  have solo_due: "(\<exists>u \<in> set (link_due_times b). u \<le> now)" if "solo_due now b"
    using that by (auto simp: solo_due_def link_due_times_def algebra_simps split: option.splits)
  from ok t show "(\<exists>u \<in> set (link_due_times b). u \<le> now) \<longleftrightarrow> snd (link_tick now gap b) \<noteq> []"
  proof (cases rule: tick_up_cases)
    case idle
    have "\<exists>u \<in> set (link_due_times b). u \<le> now" if "snd (link_tick now gap b) \<noteq> []"
      using that idle t solo_due by (auto simp: link_tick_def Let_def split: if_splits)
    moreover have "solo_due now b" if "u \<in> set (link_due_times b)" "u \<le> now" for u
      using that idle(3,5) ok
      by (auto simp: link_due_times_def solo_due_def link_lost_def link_ok_def algebra_simps split: option.splits if_splits)
    ultimately show ?thesis
      using idle t by (auto simp: link_tick_def Let_def set_link_def solo_due_def split: prod.split)
  next
    case lost
    with lost_due t show ?thesis by (simp add: link_tick_def Let_def split: prod.split)
  next
    case sent
    with t show ?thesis by (simp add: link_tick_def Let_def split: prod.split)
  qed
  assume none: "\<forall>u \<in> set (link_due_times b). now < u"
  from ok t show "link_tick now gap b = (b, [])"
  proof (cases rule: tick_up_cases)
    case idle
    have "\<not> solo_due now b" using solo_due none by force
    with idle t show ?thesis by (simp add: link_tick_def)
  next
    case lost
    with lost_due none show ?thesis by force
  next
    case (sent d q tt h)
    with none show ?thesis by force
  qed
qed

text \<open>
  \<open>next_due\<close> is exact. In every reachable state a tick before the time \<open>next_due\<close> names sends nothing
  and changes nothing, a tick at or after it does something, and when it names none no tick ever does; so a
  caller that sleeps until \<open>next_due\<close> misses no beat, no hello, no loss and no move to SOLO.
\<close>
theorem next_due_is_exact:
  "let b = foldl (\<lambda>b c. fst (link_step b c)) (new_beat_link lost grace hello) calls
   in case link_next_due b of
        None \<Rightarrow> link_tick now gap b = (b, [])
      | Some t \<Rightarrow> if now < t then link_tick now gap b = (b, []) else snd (link_tick now gap b) \<noteq> []"
proof -
  let ?b = "foldl (\<lambda>b c. fst (link_step b c)) (new_beat_link lost grace hello) calls"
  have ok: "link_ok ?b" by (rule link.inv_run [OF new_link_ok])
  show ?thesis
  proof (cases "link_next_due ?b")
    case None
    then have "link_due_times ?b = []" by (simp add: link_next_due_def split: list.splits)
    with None tick_active_iff(2) [OF ok, of now gap] show ?thesis by (simp add: Let_def)
  next
    case (Some t)
    have "link_tick now gap ?b = (?b, [])" if "now < t"
      using tick_active_iff(2) [OF ok, of now gap] link_next_due_le [OF Some that] by blast
    moreover have "snd (link_tick now gap ?b) \<noteq> []" if "\<not> now < t"
      using tick_active_iff(1) [OF ok, of now gap] link_next_due_in [OF Some] that by (meson not_less)
    ultimately show ?thesis using Some by (simp add: Let_def)
  qed
qed

end
