(* ===== verification/Link_Monitor.thy ===== *)
theory Link_Monitor
  imports Beat_Link Cues
begin

section \<open>Control's view of a device's link\<close>

text \<open>\<open>src/devicelink/link_monitor.py\<close>. Losses and thresholds are exact rationals.\<close>

definition LOSS_WINDOW :: nat where "LOSS_WINDOW = 30"

definition bars :: "rat option \<Rightarrow> int option \<Rightarrow> nat option" where
  "bars loss rtt_ms =
     (case loss of
        None \<Rightarrow> None
      | Some l \<Rightarrow>
          (let rtt = (case rtt_ms of None \<Rightarrow> 0 | Some r \<Rightarrow> r)
           in Some (if l \<le> 2 / 100 \<and> rtt < 50 then 4
                    else if l \<le> 5 / 100 \<and> rtt < 100 then 3
                    else if l \<le> 15 / 100 \<and> rtt < 250 then 2
                    else 1)))"

record seen_link =
  sl_seqs :: "int list"
  sl_rtt_ms :: "int option"

record link_monitor =
  lm_lost_after :: rat
  lm_links :: "(dev, seen_link) dict"

definition new_link_monitor :: "rat \<Rightarrow> link_monitor" where
  "new_link_monitor lost_after = \<lparr>lm_lost_after = lost_after, lm_links = []\<rparr>"

definition see_seq :: "int \<Rightarrow> int list \<Rightarrow> int list" where
  "see_seq seq seqs =
     (if seq = 0 \<or> seqs = [] \<or> seq < hd seqs then [seq]
      else if last seqs < seq then bounded_append LOSS_WINDOW seq seqs
      else seqs)"

definition on_beat :: "dev \<Rightarrow> int \<Rightarrow> int \<Rightarrow> link_monitor \<Rightarrow> link_monitor" where
  "on_beat d seq rtt_ms m =
     (let l = (case dget (lm_links m) d of Some l \<Rightarrow> l | None \<Rightarrow> \<lparr>sl_seqs = [], sl_rtt_ms = None\<rparr>);
          l1 = (if 0 < rtt_ms then l\<lparr>sl_rtt_ms := Some rtt_ms\<rparr> else l)
      in m\<lparr>lm_links := dset d (l1\<lparr>sl_seqs := see_seq seq (sl_seqs l1)\<rparr>) (lm_links m)\<rparr>)"

definition monitor_len :: "link_monitor \<Rightarrow> nat" where
  "monitor_len m = length (lm_links m)"

definition beats :: "dev \<Rightarrow> link_monitor \<Rightarrow> bool" where
  "beats d m \<longleftrightarrow> dmem d (lm_links m)"

definition link_loss :: "seen_link \<Rightarrow> rat option" where
  "link_loss l =
     (if length (sl_seqs l) < 2 then None
      else let width = last (sl_seqs l) - hd (sl_seqs l) + 1
           in Some (max 0 (1 - of_nat (length (sl_seqs l)) / of_int width)))"

record link_readout =
  ro_missing :: bool
  ro_bars :: "nat option"
  ro_rtt_ms :: "int option"
  ro_loss :: "rat option"

definition link_view :: "dev \<Rightarrow> rat \<Rightarrow> rat \<Rightarrow> link_monitor \<Rightarrow> link_readout option" where
  "link_view d last_seen now m =
     map_option (\<lambda>l.
       let loss = link_loss l
       in \<lparr>ro_missing = (lm_lost_after m < now - last_seen), ro_bars = bars loss (sl_rtt_ms l),
           ro_rtt_ms = sl_rtt_ms l, ro_loss = map_option (\<lambda>x. of_int (py_round (x * 1000)) / 1000) loss\<rparr>)
       (dget (lm_links m) d)"

definition monitor_forget :: "dev \<Rightarrow> link_monitor \<Rightarrow> link_monitor" where
  "monitor_forget d m = m\<lparr>lm_links := dpop d (lm_links m)\<rparr>"

definition monitor_clear :: "link_monitor \<Rightarrow> link_monitor" where
  "monitor_clear m = m\<lparr>lm_links := []\<rparr>"

subsection \<open>What the window means\<close>

definition window_ok :: "int list \<Rightarrow> bool" where
  "window_ok seqs \<longleftrightarrow> sorted_wrt (<) seqs \<and> length seqs \<le> LOSS_WINDOW"

lemma sorted_wrt_drop: "sorted_wrt P xs \<Longrightarrow> sorted_wrt P (drop n xs)"
  by (metis append_take_drop_id sorted_wrt_append)

lemma last_above: "sorted_wrt (<) seqs \<Longrightarrow> x \<in> set seqs \<Longrightarrow> x \<le> last (seqs :: int list)"
  by (induction seqs rule: rev_induct) (auto simp: sorted_wrt_append)

lemma see_seq_ok: "window_ok seqs \<Longrightarrow> window_ok (see_seq seq seqs)"
proof -
  assume ok: "window_ok seqs"
  have "sorted_wrt (<) (seqs @ [seq])" if "last seqs < seq"
    using ok that by (auto simp: window_ok_def sorted_wrt_append dest: last_above)
  then have "sorted_wrt (<) (bounded_append LOSS_WINDOW seq seqs)" if "last seqs < seq"
    unfolding bounded_append_def Let_def using that by (intro sorted_wrt_drop) blast
  then show ?thesis
    using ok by (auto simp: window_ok_def see_seq_def bounded_append_def Let_def LOSS_WINDOW_def)
qed

datatype monitor_call = CallBeat dev int int | CallForget dev | CallClear

fun monitor_step :: "link_monitor \<Rightarrow> monitor_call \<Rightarrow> link_monitor" where
  "monitor_step m (CallBeat d seq rtt) = on_beat d seq rtt m"
| "monitor_step m (CallForget d) = monitor_forget d m"
| "monitor_step m CallClear = monitor_clear m"

definition monitor_ok :: "link_monitor \<Rightarrow> bool" where
  "monitor_ok m \<longleftrightarrow> (\<forall>d l. dget (lm_links m) d = Some l \<longrightarrow> window_ok (sl_seqs l))"

lemma monitor_ok_step: "monitor_ok m \<Longrightarrow> monitor_ok (monitor_step m c)"
proof (cases c)
  case (CallBeat d seq rtt)
  assume ok: "monitor_ok m"
  have "window_ok []" by (simp add: window_ok_def)
  with ok CallBeat show ?thesis
    by (auto simp: monitor_ok_def on_beat_def Let_def intro!: see_seq_ok split: option.splits if_splits)
qed (auto simp: monitor_ok_def monitor_forget_def monitor_clear_def split: if_splits)

interpretation monitor: machine monitor_step monitor_ok
  by unfold_locales (rule monitor_ok_step)

lemma missing_count:
  fixes seqs :: "int list"
  assumes "sorted_wrt (<) seqs" and "seqs \<noteq> []"
  shows "int (card ({hd seqs..last seqs} - set seqs)) = last seqs - hd seqs + 1 - int (length seqs)"
proof -
  have sub: "set seqs \<subseteq> {hd seqs..last seqs}"
    using assms last_above [OF assms(1)] by (cases seqs) (auto simp: less_imp_le)
  have "card (set seqs) = length seqs" using assms(1) by (simp add: strict_sorted_iff distinct_card)
  moreover have "card ({hd seqs..last seqs} - set seqs) = card {hd seqs..last seqs} - card (set seqs)"
    using sub by (intro card_Diff_subset) auto
  moreover have "card (set seqs) \<le> card {hd seqs..last seqs}" using sub by (intro card_mono) auto
  moreover have "hd seqs \<le> last seqs" using assms last_above [OF assms(1)] by (cases seqs) auto
  ultimately show ?thesis by simp
qed

text \<open>
  The loss figure is the share of beats missed. After any beats and departures, the loss the Console
  reads for a device is the number of sequence numbers missing between the oldest and the newest beat of
  its window, over the width of that window: at least 0 and below 1, over at most \<open>LOSS_WINDOW\<close> beats.
\<close>
theorem loss_is_the_share_missed:
  "case dget (lm_links (foldl monitor_step (new_link_monitor lost) calls)) d of
     None \<Rightarrow> True
   | Some l \<Rightarrow> length (sl_seqs l) \<le> LOSS_WINDOW
      \<and> (case link_loss l of
           None \<Rightarrow> length (sl_seqs l) < 2
         | Some x \<Rightarrow> 0 \<le> x \<and> x < 1
            \<and> x = of_nat (card ({hd (sl_seqs l)..last (sl_seqs l)} - set (sl_seqs l)))
                / of_nat (card {hd (sl_seqs l)..last (sl_seqs l)}))"
proof -
  let ?m = "foldl monitor_step (new_link_monitor lost) calls"
  have "monitor_ok (new_link_monitor lost)" by (simp add: monitor_ok_def new_link_monitor_def)
  then have ok: "monitor_ok ?m" by (rule monitor.inv_run)
  show ?thesis
  proof (cases "dget (lm_links ?m) d")
    case (Some l)
    with ok have w: "window_ok (sl_seqs l)" by (simp add: monitor_ok_def)
    show ?thesis
    proof (cases "length (sl_seqs l) < 2")
      case True
      with Some w show ?thesis by (simp add: link_loss_def window_ok_def)
    next
      case False
      then have ne: "sl_seqs l \<noteq> []" by auto
      let ?w = "last (sl_seqs l) - hd (sl_seqs l) + 1" and ?n = "length (sl_seqs l)"
      let ?miss = "card ({hd (sl_seqs l)..last (sl_seqs l)} - set (sl_seqs l))"
      have mc: "int ?miss = ?w - int ?n" using missing_count [of "sl_seqs l"] w ne by (simp add: window_ok_def)
      have n: "0 < ?n" using ne by simp
      have pos: "0 < ?w" using mc n by linarith
      have card: "of_nat (card {hd (sl_seqs l)..last (sl_seqs l)}) = (of_int ?w :: rat)" using pos by simp
      have miss: "of_nat ?miss = (of_int ?w - of_nat ?n :: rat)"
        using arg_cong [OF mc, of "of_int :: int \<Rightarrow> rat"] by simp
      have "link_loss l = Some (of_nat ?miss / of_int ?w)"
      proof -
        have "1 - of_nat ?n / of_int ?w = (of_nat ?miss / of_int ?w :: rat)"
          using pos by (simp add: miss field_simps)
        moreover have "0 \<le> (of_nat ?miss / of_int ?w :: rat)" using pos by simp
        ultimately show ?thesis using False by (simp add: link_loss_def Let_def del: of_int_diff of_int_add)
      qed
      moreover have "of_nat ?miss / of_int ?w < (1 :: rat)"
      proof -
        have "(of_nat ?miss :: rat) < of_int ?w" using n by (simp add: miss)
        then show ?thesis using pos by (simp add: divide_less_eq)
      qed
      ultimately show ?thesis using Some w card pos by (simp add: window_ok_def)
    qed
  qed simp
qed

text \<open>
  Bars never lie upwards. A link with at least the loss and at least the round trip of another never
  shows more bars, and there are always one to four once there is a loss figure.
\<close>
theorem bars_are_monotone:
  assumes "l \<le> l'" and "r \<le> r'"
  shows "case (bars (Some l) (Some r), bars (Some l') (Some r')) of
     (Some b, Some b') \<Rightarrow> b' \<le> b \<and> 1 \<le> b' \<and> b \<le> 4
   | _ \<Rightarrow> False"
  using assms by (auto simp: bars_def)

lemma bars_are_monotone_witness: "bars (Some (1 / 100)) (Some 20) = Some 4 \<and> bars (Some (1 / 10)) (Some 20) = Some 2
   \<and> (case (bars (Some (1 / 100)) (Some 20), bars (Some (1 / 10)) (Some 20)) of (Some b, Some b') \<Rightarrow> b' \<le> b | _ \<Rightarrow> False)"
  using bars_are_monotone [of "1 / 100" "1 / 10" 20 20] by (simp add: bars_def)

end
