(* ===== verification/Pixel_Wire.thy ===== *)
theory Pixel_Wire
  imports Prelude "HOL-Library.Word"
begin

section \<open>Pixels on the wire\<close>

text \<open>
  \<open>src/control/pixel_wire.py\<close>. A byte is an 8-bit word, so the fold's saturation is written out against
  the wrap-around of \<open>+\<close>. A frame is R, G, B, W per pixel, a device's blob R, G, B.
\<close>

type_synonym byte = "8 word"

definition CHANNELS_PER_PIXEL_WIRE :: nat where "CHANNELS_PER_PIXEL_WIRE = 4"
definition BLOB_CHANNELS_PER_PIXEL :: nat where "BLOB_CHANNELS_PER_PIXEL = 3"

text \<open>\<open>int(v) & 0xFF\<close>.\<close>

definition to_byte :: "int \<Rightarrow> byte" where
  "to_byte v = word_of_int v"

text \<open>A colour of three or four components; anything else is the \<open>ValueError\<close>.\<close>

definition rgbw :: "int list \<Rightarrow> int list option" where
  "rgbw c = (if length c = 3 then Some (c @ [0]) else if length c = 4 then Some c else None)"

text \<open>\<open>min(255, c + w)\<close> on bytes.\<close>

definition fold_white :: "byte \<Rightarrow> byte \<Rightarrow> byte" where
  "fold_white w c = word_of_nat (min 255 (unat c + unat w))"

fun fold_frame :: "byte list \<Rightarrow> byte list" where
  "fold_frame (r # g # b # w # rest) = fold_white w r # fold_white w g # fold_white w b # fold_frame rest"
| "fold_frame _ = []"

definition rgb_blob :: "int list \<Rightarrow> byte list option" where
  "rgb_blob frame =
     (if length frame mod CHANNELS_PER_PIXEL_WIRE \<noteq> 0 then None else Some (fold_frame (map to_byte frame)))"

fun unfold_blob :: "byte list \<Rightarrow> byte list" where
  "unfold_blob (r # g # b # rest) = r # g # b # 0 # unfold_blob rest"
| "unfold_blob [] = []"
| "unfold_blob part = part @ [0]"

definition rgbw_from_blob :: "int list \<Rightarrow> byte list" where
  "rgbw_from_blob blob = unfold_blob (map to_byte blob)"

definition blob_channels :: "nat \<Rightarrow> nat" where
  "blob_channels channels = channels div CHANNELS_PER_PIXEL_WIRE * BLOB_CHANNELS_PER_PIXEL"

text \<open>\<open>max(0, min(255, round(c * level)))\<close>; the level is a finite number.\<close>

definition lit :: "rat \<Rightarrow> int \<Rightarrow> byte" where
  "lit level c = word_of_int (max 0 (min 255 (py_round (of_int c * level))))"

definition solid_frame :: "int list \<Rightarrow> rat \<Rightarrow> nat \<Rightarrow> byte list option" where
  "solid_frame colour level n =
     map_option (\<lambda>c. take n (concat (replicate (n div CHANNELS_PER_PIXEL_WIRE + 1) (map (lit level) c)))) (rgbw colour)"

lemma unat_fold_white: "unat (fold_white w c) = min 255 (unat c + unat w)"
  by (simp add: fold_white_def unat_of_nat)

lemma unat_byte: "unat (c :: byte) \<le> 255"
proof -
  have "unat c < 2 ^ LENGTH(8)" by (rule unsigned_less)
  then show ?thesis by simp
qed

lemma fold_white_zero [simp]: "fold_white 0 c = c"
  by (rule word_unat_eq_iff [THEN iffD2]) (simp add: unat_fold_white unat_byte)

lemma to_byte_uint [simp]: "to_byte (uint b) = b"
  by (simp add: to_byte_def)

lemma length_fold_frame: "length (fold_frame fr) = length fr div 4 * 3"
  by (induction fr rule: fold_frame.induct) simp_all

lemma length_unfold_blob: "length b mod 3 = 0 \<Longrightarrow> length (unfold_blob b) = length b div 3 * 4"
  by (induction b rule: unfold_blob.induct) simp_all

lemma fold_unfold: "length b mod 3 = 0 \<Longrightarrow> fold_frame (unfold_blob b) = b"
  by (induction b rule: unfold_blob.induct) simp_all

text \<open>
  A device's blob survives the round trip. Whole pixels that a simulated device reads off the wire as an
  RGBW frame fold back to the same bytes, and the frame has one W channel more per pixel.
\<close>
theorem blob_round_trip:
  assumes "length blob mod BLOB_CHANNELS_PER_PIXEL = 0"
  shows "rgb_blob (map uint (rgbw_from_blob blob)) = Some (map to_byte blob)
    \<and> blob_channels (length (rgbw_from_blob blob)) = length blob"
proof -
  have b: "length (map to_byte blob) mod 3 = 0" using assms by (simp add: BLOB_CHANNELS_PER_PIXEL_def)
  have "3 dvd length blob" using b by (simp add: mod_eq_0_iff_dvd)
  then have whole: "length blob div 3 * 3 = length blob" by simp
  have "length (rgbw_from_blob blob) = length blob div 3 * 4"
    using length_unfold_blob [OF b] by (simp add: rgbw_from_blob_def)
  moreover have "map to_byte (map uint (rgbw_from_blob blob)) = rgbw_from_blob blob" by (simp add: comp_def)
  ultimately show ?thesis
    using fold_unfold [OF b] b whole
    by (simp add: rgb_blob_def rgbw_from_blob_def CHANNELS_PER_PIXEL_WIRE_def BLOB_CHANNELS_PER_PIXEL_def
        blob_channels_def del: map_map)
qed

lemma blob_round_trip_witness:
  "rgb_blob (map uint (rgbw_from_blob [1, 2, 3, 255, 254, 300])) = Some (map to_byte [1, 2, 3, 255, 254, 300])"
  using blob_round_trip [of "[1, 2, 3, 255, 254, 300]"] by (simp add: BLOB_CHANNELS_PER_PIXEL_def)

lemma fold_frame_nth:
  "i < length fr div 4 \<Longrightarrow> k < 3 \<Longrightarrow> fold_frame fr ! (3 * i + k) = fold_white (fr ! (4 * i + 3)) (fr ! (4 * i + k))"
proof (induction fr arbitrary: i rule: fold_frame.induct)
  case (1 r g b w rest)
  show ?case
  proof (cases i)
    case 0
    from "1.prems"(2) consider "k = 0" | "k = 1" | "k = 2" by linarith
    then show ?thesis using 0 by cases simp_all
  next
    case (Suc j)
    with "1.prems" have "fold_frame rest ! (3 * j + k) = fold_white (rest ! (4 * j + 3)) (rest ! (4 * j + k))"
      by (intro "1.IH") simp_all
    moreover have "3 * i + k = Suc (Suc (Suc (3 * j + k)))" "4 * i + 3 = Suc (Suc (Suc (Suc (4 * j + 3))))"
      "4 * i + k = Suc (Suc (Suc (Suc (4 * j + k))))" using Suc by simp_all
    ultimately show ?thesis by (simp only: fold_frame.simps nth_Cons_Suc)
  qed
qed simp_all

text \<open>
  The white die folds in without wrapping. A frame of whole pixels becomes a blob of three bytes a
  pixel, and each of them is the colour's byte plus the pixel's W, held at 255: brighter than or equal to
  both, never wrapped around; where W is 0 the colour is untouched.
\<close>
theorem white_folds_without_wrapping:
  assumes "rgb_blob frame = Some blob" and "i < length frame div 4" and "k < 3"
  shows "length blob = blob_channels (length frame)
    \<and> unat (blob ! (3 * i + k)) = min 255 (unat (to_byte (frame ! (4 * i + k))) + unat (to_byte (frame ! (4 * i + 3))))
    \<and> to_byte (frame ! (4 * i + k)) \<le> blob ! (3 * i + k)
    \<and> (to_byte (frame ! (4 * i + 3)) = 0 \<longrightarrow> blob ! (3 * i + k) = to_byte (frame ! (4 * i + k)))"
proof -
  have blob: "blob = fold_frame (map to_byte frame)"
    using assms(1) by (simp add: rgb_blob_def split: if_splits)
  have "4 * i + 3 < length frame" "4 * i + k < length frame" using assms(2,3) by linarith+
  then have n: "blob ! (3 * i + k) = fold_white (to_byte (frame ! (4 * i + 3))) (to_byte (frame ! (4 * i + k)))"
    using fold_frame_nth [of i "map to_byte frame" k] assms(2,3) blob by simp
  have "length blob = blob_channels (length frame)"
    by (simp add: blob length_fold_frame blob_channels_def CHANNELS_PER_PIXEL_WIRE_def BLOB_CHANNELS_PER_PIXEL_def)
  then show ?thesis by (simp add: n unat_fold_white word_le_nat_alt unat_byte)
qed

lemma white_folds_without_wrapping_witness:
  "\<exists>blob. rgb_blob [10, 20, 30, 0, 200, 0, 250, 100] = Some blob \<and> unat (blob ! 3) = 255"
proof -
  obtain blob where b: "rgb_blob [10, 20, 30, 0, 200, 0, 250, 100] = Some blob"
    by (simp add: rgb_blob_def CHANNELS_PER_PIXEL_WIRE_def)
  have "unat (to_byte 200) = 200" "unat (to_byte 100) = 100" by (simp_all add: to_byte_def)
  with white_folds_without_wrapping [OF b, of 1 0] b show ?thesis by simp
qed

end
