(* ===== verification/Shroom_Client.thy ===== *)
theory Shroom_Client
  imports Timed_Queue Pixel_Wire Registration
begin

section \<open>A simulated device\<close>

text \<open>
  The envelope of \<open>src/devicelink/protocol.py\<close> and the device session of \<open>src/harness/shroom_client.py\<close>.
  A message is a dynamic value; what the LED backend shows and the callbacks receive is the list of outputs
  an operation returns. The raising \<open>on_play\<close> sink is caught in the source and has no further effect; an
  \<open>on_role\<close> callback is taken to return. The printed markers are not modelled.
\<close>

subsection \<open>Envelopes\<close>

record envelope =
  ev_timestamp :: pyfloat
  ev_address :: string
  ev_typespec :: string
  ev_args :: "pyval list"

definition encode :: "envelope \<Rightarrow> pyval" where
  "encode ev =
     VDict [(''timestamp'', VFloat (ev_timestamp ev)), (''address'', VStr (ev_address ev)),
            (''typespec'', VStr (ev_typespec ev)), (''args'', VList (ev_args ev))]"

definition field_or :: "string \<Rightarrow> pyval \<Rightarrow> (string \<times> pyval) list \<Rightarrow> pyval" where
  "field_or k d m = (case dget m k of None \<Rightarrow> d | Some v \<Rightarrow> v)"

text \<open>\<open>isinstance(x, (int, float))\<close>, read as a float; Python counts a \<open>bool\<close> as an \<open>int\<close>.\<close>

fun wire_number :: "pyval \<Rightarrow> pyfloat option" where
  "wire_number (VBool b) = Some (Fin (if b then 1 else 0))"
| "wire_number v = as_number v"

text \<open>\<open>None\<close> is the \<open>ValueError\<close>.\<close>

definition decode :: "pyval \<Rightarrow> envelope option" where
  "decode msg =
     (case msg of
        VDict m \<Rightarrow>
          (case (field_or ''address'' VNone m, field_or ''typespec'' (VStr '''') m, field_or ''args'' (VList []) m,
                 wire_number (field_or ''timestamp'' (VFloat (Fin 0)) m)) of
             (VStr address, VStr typespec, VList args, Some t) \<Rightarrow>
               if address = [] \<or> length typespec \<noteq> length args \<or> \<not> isfinite t then None
               else Some \<lparr>ev_timestamp = t, ev_address = address, ev_typespec = typespec, ev_args = args\<rparr>
           | _ \<Rightarrow> None)
      | _ \<Rightarrow> None)"

definition GAME_PREFIX :: string where "GAME_PREFIX = ''/game/''"

definition parse_game_address :: "string \<Rightarrow> string option" where
  "parse_game_address address =
     (if \<not> starts_with GAME_PREFIX address then None
      else let verb = drop (length GAME_PREFIX) address in (if verb = [] then None else Some verb))"

definition well_formed :: "envelope \<Rightarrow> bool" where
  "well_formed ev \<longleftrightarrow>
     ev_address ev \<noteq> [] \<and> length (ev_typespec ev) = length (ev_args ev) \<and> isfinite (ev_timestamp ev)"

text \<open>
  The envelope survives the wire. What \<open>decode\<close> accepts is always a well-formed envelope (an address, one
  type character per argument, a finite time), and every well-formed envelope is read back unchanged from
  its encoding.
\<close>
theorem envelope_round_trip:
  "(case decode msg of None \<Rightarrow> True | Some ev \<Rightarrow> well_formed ev)
   \<and> decode (encode ev) = (if well_formed ev then Some ev else None)"
proof
  show "case decode msg of None \<Rightarrow> True | Some ev \<Rightarrow> well_formed ev"
    by (auto simp: decode_def well_formed_def split: pyval.splits option.splits if_splits)
  show "decode (encode ev) = (if well_formed ev then Some ev else None)"
    by (simp add: decode_def encode_def well_formed_def field_or_def)
qed

subsection \<open>The client\<close>

type_synonym frame = "byte list"

record client =
  cl_dev :: dev
  cl_node :: node
  cl_instrument :: "string option"
  cl_expected :: nat
  cl_config :: "pyval option"
  cl_round_id :: "string option"
  cl_validated_role :: "string option"
  cl_released :: bool
  cl_last_deny :: "(pyval \<times> pyval) option"
  cl_last_error :: "(pyval \<times> pyval) option"
  cl_last_play :: "(string \<times> string) option"
  cl_last_room :: "pyval option"
  cl_frames :: "frame tqueue"
  cl_pending :: "(pyfloat option \<times> frame) list"

datatype client_output = ShowFrame frame | ClearLeds | OnRole pyval | OnPlay string string

definition LED_CHANNELS :: nat where "LED_CHANNELS = 48"
definition MAX_PENDING_FRAMES :: nat where "MAX_PENDING_FRAMES = 200"

definition new_client :: "dev \<Rightarrow> node \<Rightarrow> nat \<Rightarrow> string option \<Rightarrow> client" where
  "new_client d n expected inst =
     \<lparr>cl_dev = d, cl_node = n, cl_instrument = inst, cl_expected = expected, cl_config = None,
      cl_round_id = None, cl_validated_role = None, cl_released = False, cl_last_deny = None,
      cl_last_error = None, cl_last_play = None, cl_last_room = None, cl_frames = new_tqueue, cl_pending = []\<rparr>"

text \<open>Outbound messages.\<close>

definition up :: "string \<Rightarrow> string \<Rightarrow> pyval list \<Rightarrow> pyval" where
  "up verb typespec args =
     encode \<lparr>ev_timestamp = Fin 0, ev_address = GAME_PREFIX @ verb, ev_typespec = typespec, ev_args = args\<rparr>"

definition client_hello :: "client \<Rightarrow> pyval" where
  "client_hello cl =
     (case cl_instrument cl of
        None \<Rightarrow> up ''hello'' ''s'' [VStr (cl_dev cl)]
      | Some i \<Rightarrow> up ''hello'' ''ssss'' [VStr (cl_dev cl), VStr '''', VStr '''', VStr i])"

definition client_canvas :: "string \<Rightarrow> client \<Rightarrow> pyval" where
  "client_canvas url cl = up ''canvas'' ''ss'' [VStr (cl_dev cl), VStr url]"

definition client_handshake :: "string \<Rightarrow> client \<Rightarrow> pyval" where
  "client_handshake round_id cl = up ''handshake'' ''sss'' [VStr (cl_dev cl), VStr round_id, VStr (cl_node cl)]"

definition client_join :: "client \<Rightarrow> client \<times> pyval" where
  "client_join cl = (cl\<lparr>cl_released := False\<rparr>, up ''join'' ''ss'' [VStr (cl_dev cl), VStr (cl_node cl)])"

definition client_tilt :: "pyfloat \<Rightarrow> client \<Rightarrow> pyval" where
  "client_tilt v cl = up ''tilt'' ''sf'' [VStr (cl_dev cl), VFloat v]"

definition client_tap :: "pyfloat \<Rightarrow> pyfloat \<Rightarrow> int \<Rightarrow> client \<Rightarrow> pyval" where
  "client_tap peak_g duration_ms taps cl =
     up ''tap'' ''sffi'' [VStr (cl_dev cl), VFloat peak_g, VFloat duration_ms, VInt taps]"

text \<open>
  Inbound messages. Each handler returns the client, what it put out, and whether the message was taken
  (the source returns its address) or dropped (the empty string); \<open>Raised\<close> is an exception out of
  \<open>handle\<close>: an argument that is missing, or a pixel value that \<open>int\<close> refuses.
\<close>

type_synonym handled = "(client \<times> client_output list \<times> bool) outcome"

definition taken :: "client \<Rightarrow> client_output list \<Rightarrow> handled" where
  "taken cl out = Ret (cl, out, True)"

definition dropped :: "client \<Rightarrow> handled" where
  "dropped cl = Ret (cl, [], False)"

definition two_args :: "pyval list \<Rightarrow> (pyval \<times> pyval) option" where
  "two_args args = (case args of a # b # _ \<Rightarrow> Some (a, b) | _ \<Rightarrow> None)"

fun ints_of :: "pyval list \<Rightarrow> int list option" where
  "ints_of [] = Some []"
| "ints_of (v # vs) =
     (case int_of_arg v of
        IntOk n \<Rightarrow> map_option (\<lambda>ns. n # ns) (ints_of vs)
      | _ \<Rightarrow> None)"

definition client_on_leds :: "envelope \<Rightarrow> client \<Rightarrow> handled" where
  "client_on_leds ev cl =
     (case ev_args ev of
        VList channels # _ \<Rightarrow>
          if length channels \<noteq> blob_channels (cl_expected cl) then dropped cl
          else (case ints_of channels of
                  None \<Rightarrow> Raised
                | Some blob \<Rightarrow>
                    (let declared = (if ev_timestamp ev = Fin 0 then None else Some (ev_timestamp ev))
                     in taken (cl\<lparr>cl_pending :=
                          bounded_append MAX_PENDING_FRAMES (declared, rgbw_from_blob blob) (cl_pending cl)\<rparr>) []))
      | _ \<Rightarrow> dropped cl)"

definition client_on_handshake :: "envelope \<Rightarrow> client \<Rightarrow> handled" where
  "client_on_handshake ev cl =
     (case ev_args ev of
        [VStr rid] \<Rightarrow>
          taken (cl\<lparr>cl_round_id := Some rid,
                    cl_validated_role := (if cl_round_id cl \<noteq> Some rid then None else cl_validated_role cl)\<rparr>) []
      | _ \<Rightarrow> dropped cl)"

definition client_on_validated :: "envelope \<Rightarrow> client \<Rightarrow> handled" where
  "client_on_validated ev cl =
     (case ev_args ev of
        [VStr _, VStr role_name] \<Rightarrow> taken (cl\<lparr>cl_validated_role := Some role_name\<rparr>) []
      | _ \<Rightarrow> dropped cl)"

definition client_on_role :: "envelope \<Rightarrow> client \<Rightarrow> handled" where
  "client_on_role ev cl =
     (case ev_args ev of
        VDict m # _ \<Rightarrow> taken (cl\<lparr>cl_config := Some (VDict m)\<rparr>) [OnRole (VDict m)]
      | _ \<Rightarrow> dropped cl)"

definition client_on_play :: "envelope \<Rightarrow> client \<Rightarrow> handled" where
  "client_on_play ev cl =
     (case (case ev_args ev of [] \<Rightarrow> VStr '''' | a # _ \<Rightarrow> a,
            case ev_args ev of _ # b # _ \<Rightarrow> b | _ \<Rightarrow> VStr '''') of
        (VStr name, VStr params) \<Rightarrow> taken (cl\<lparr>cl_last_play := Some (name, params)\<rparr>) [OnPlay name params]
      | _ \<Rightarrow> dropped cl)"

definition handle_kind :: "string \<Rightarrow> envelope \<Rightarrow> client \<Rightarrow> handled" where
  "handle_kind kind ev cl =
     (if kind = ''role'' then client_on_role ev cl
      else if kind = ''leds'' then client_on_leds ev cl
      else if kind = ''handshake'' then client_on_handshake ev cl
      else if kind = ''validated'' then client_on_validated ev cl
      else if kind = ''release'' then taken (cl\<lparr>cl_released := True\<rparr>) [ClearLeds]
      else if kind = ''deny''
      then (case two_args (ev_args ev) of None \<Rightarrow> Raised | Some p \<Rightarrow> taken (cl\<lparr>cl_last_deny := Some p\<rparr>) [])
      else if kind = ''error''
      then (case two_args (ev_args ev) of None \<Rightarrow> Raised | Some p \<Rightarrow> taken (cl\<lparr>cl_last_error := Some p\<rparr>) [])
      else if kind = ''play'' then client_on_play ev cl
      else if kind = ''room''
      then (case ev_args ev of VDict m # _ \<Rightarrow> taken (cl\<lparr>cl_last_room := Some (VDict m)\<rparr>) [] | _ \<Rightarrow> dropped cl)
      else dropped cl)"

definition handle :: "pyval \<Rightarrow> client \<Rightarrow> handled" where
  "handle msg cl =
     (case decode msg of
        None \<Rightarrow> dropped cl
      | Some ev \<Rightarrow>
          (let prefix = ''/'' @ cl_dev cl @ ''/''
           in if \<not> starts_with prefix (ev_address ev) then dropped cl
              else handle_kind (drop (length prefix) (ev_address ev)) ev cl))"

text \<open>\<open>tick\<close>: the frames shown, in order.\<close>

definition client_tick :: "rat \<Rightarrow> client \<Rightarrow> client \<times> client_output list" where
  "client_tick now cl =
     (let (out, q) = tq_due now (tq.push_all now (cl_pending cl) (cl_frames cl))
      in (cl\<lparr>cl_pending := [], cl_frames := q\<rparr>, map ShowFrame out))"

definition reset_for_lobby :: "client \<Rightarrow> client" where
  "reset_for_lobby cl =
     cl\<lparr>cl_config := None, cl_round_id := None, cl_validated_role := None, cl_released := False,
        cl_last_deny := None, cl_last_error := None\<rparr>"

end
