(* ===== verification/Agent_State.thy ===== *)
theory Agent_State
  imports Engine_Control Lobby_Runtime Link_Monitor Shroom_Client Manifests
begin

section \<open>The device agent: its state and the engine's sinks\<close>

text \<open>
  The state of \<open>DeviceLinkAgent\<close> (\<open>src/devicelink/agent.py\<close>) and the operations the engine calls on it as its
  sinks. What the agent reads of the engine is the \<open>engine\<close> record itself, a field of the \<open>view\<close> an operation is
  given together with the clock. luxaeterna's sessions are a parameter, the record \<open>lux\<close>: a session is an
  opaque value, a call that raises says so in its result. What the agent tells the transport, the audio bridge,
  the Console and the physical outputs is the list \<open>ag_out\<close>, in order.
\<close>

subsection \<open>Messages, outputs, state\<close>

datatype agent_why = Retired_Join | No_Session | Start_Refused start_reason | Data_Refused refusal

datatype agent_msg =
    M_Leds "byte list" pyfloat
  | M_Role "(string, pyval) dict"
  | M_Release
  | M_Room "(string, pyval) dict"
  | M_Deny reason
  | M_Error string agent_why
  | M_Validated string string
  | M_Handshake string
  | M_Beat int string
  | M_Play string string

datatype agent_out =
    Sent dev agent_msg
  | Bound dev
  | Dropped dev
  | A_Feed string int int int
  | A_Control string int int
  | A_Note int int int rat
  | A_Grant string role
  | A_Release string
  | A_Drone_On string
  | A_Drone_Off string
  | A_Silence string
  | A_Tick rat
  | Console_Frame string "byte list"
  | Output_Frame nat "byte list" pyfloat
  | Output_Close nat
  | Devices_Changed
  | Lobby_Notice string dev
  | Join_Denied dev node reason

record 's lux =
  lx_feed :: "int \<Rightarrow> int \<Rightarrow> int \<Rightarrow> 's \<Rightarrow> 's \<times> bool"
  lx_render :: "rat \<Rightarrow> nat \<Rightarrow> 's \<Rightarrow> 's \<times> byte list option"
  lx_closing :: "'s \<Rightarrow> bool option"
  lx_clear :: "'s \<Rightarrow> 's"
  lx_swap :: "(string, pyval) dict \<Rightarrow> 's \<Rightarrow> 's"
  lx_fixture :: "(string, pyval) dict \<Rightarrow> room_profile \<Rightarrow> string \<Rightarrow> 's"
  lx_player :: "dev \<Rightarrow> (string \<times> int \<times> int) list \<Rightarrow> nat \<Rightarrow> (string, pyval) dict \<Rightarrow> 's option"

record ('b, 's) view =
  vw_env :: "'b env"
  vw_gs :: "'b engine"
  vw_now :: rat
  vw_lux :: "'s lux"
  vw_pulse :: "rat \<Rightarrow> rat"
  vw_invite_interval :: rat
  vw_ceremony_gap :: rat
  vw_outputs :: "string \<Rightarrow> room_profile \<Rightarrow> (string \<times> (nat \<times> bool) list) list option"

record 's fixture_state =
  fs_session :: 's
  fs_channels :: nat
  fs_controllers :: "(int, int) dict"
  fs_pending :: "pyfloat option"
  fs_last_frame :: "byte list option"
  fs_last_dev :: "dev option"
  fs_generators :: "runner option"

datatype light_cue =
    Feed dev int int int "pyfloat option"
  | Flash dev rgb rat

fun cue_key :: "light_cue \<Rightarrow> dev" where
  "cue_key (Feed d _ _ _ _) = d"
| "cue_key (Flash _ _ _) = ''__flash__''"

type_synonym room_cue = "string \<times> int \<times> int \<times> int \<times> string option"

record 's agent =
  ag_horizon :: rat
  ag_stale_timeout :: rat
  ag_epoch :: string
  ag_audio :: bool
  ag_console :: bool
  ag_room_cues :: "room_cue tqueue"
  ag_light_cues :: "light_cue tqueue"
  ag_pending :: "(dev, pyfloat) dict"
  ag_bridges :: "(dev, 's) dict"
  ag_universes :: "(dev, nat) dict"
  ag_last_frames :: "(dev, byte list) dict"
  ag_overrides :: "(dev, rgb \<times> pyfloat \<times> pyfloat option) dict"
  ag_flashes :: "(dev, (int, rgb \<times> pyfloat) dict) dict"
  ag_muted :: "dev list"
  ag_canvas :: "(dev, string) dict"
  ag_links :: link_monitor
  ag_link_marks :: "(dev, bool \<times> nat option) dict"
  ag_next_link_check :: rat
  ag_closing :: "(dev, nat) dict"
  ag_revived :: "dev list"
  ag_breath_origin :: rat
  ag_last_breath :: "(dev, int) dict"
  ag_breathless :: "dev list"
  ag_profile :: "room_profile option"
  ag_fixtures :: "(string, 's fixture_state) dict"
  ag_ambient_start :: "rat option"
  ag_audio_fixtures :: "string list"
  ag_lobby :: "lobby_rt option"
  ag_draining :: "lobby_rt option"
  ag_lobby_known :: "dev list"
  ag_handshakes :: invites
  ag_refused :: "dev list"
  ag_warned_play :: "dev list"
  ag_override_only :: "dev list"
  ag_bases :: "(dev, rgb \<times> rat) dict"
  ag_outputs :: "(string, nat list) dict"
  ag_outputs_key :: "(string \<times> room_profile) option"
  ag_tap_pending :: "(dev, pyfloat) dict"
  ag_out :: "agent_out list"

definition MAX_CLOSING_FRAMES :: nat where "MAX_CLOSING_FRAMES = 200"
definition DEFAULT_INVITE_INTERVAL_S :: rat where "DEFAULT_INVITE_INTERVAL_S = 5"

definition blank_agent ::
  "rat \<Rightarrow> rat \<Rightarrow> string \<Rightarrow> bool \<Rightarrow> bool \<Rightarrow> room_profile option \<Rightarrow> rat \<Rightarrow> rat \<Rightarrow> 's agent" where
  "blank_agent horizon stale epoch audio console profile lost_after now =
     \<lparr>ag_horizon = horizon, ag_stale_timeout = stale, ag_epoch = epoch, ag_audio = audio, ag_console = console,
      ag_room_cues = new_tqueue, ag_light_cues = new_tqueue, ag_pending = [], ag_bridges = [], ag_universes = [],
      ag_last_frames = [], ag_overrides = [], ag_flashes = [], ag_muted = [], ag_canvas = [],
      ag_links = new_link_monitor lost_after, ag_link_marks = [], ag_next_link_check = 0, ag_closing = [],
      ag_revived = [], ag_breath_origin = now, ag_last_breath = [], ag_breathless = [], ag_profile = profile,
      ag_fixtures = [], ag_ambient_start = None, ag_audio_fixtures = [], ag_lobby = None, ag_draining = None,
      ag_lobby_known = [], ag_handshakes = new_invites DEFAULT_INVITE_INTERVAL_S, ag_refused = [], ag_warned_play = [],
      ag_override_only = [], ag_bases = [], ag_outputs = [], ag_outputs_key = None, ag_tap_pending = [], ag_out = []\<rparr>"

definition says :: "agent_out list \<Rightarrow> 's agent \<Rightarrow> 's agent" where
  "says os ag = ag\<lparr>ag_out := ag_out ag @ os\<rparr>"

definition drop_key :: "'a \<Rightarrow> 'a list \<Rightarrow> 'a list" where
  "drop_key x xs = filter (\<lambda>y. y \<noteq> x) xs"

text \<open>The first \<open>/leds\<close> to a device that tapped takes the tap's mark away.\<close>

definition tell :: "dev \<Rightarrow> agent_msg \<Rightarrow> 's agent \<Rightarrow> 's agent" where
  "tell d m ag =
     (let ag1 = says [Sent d m] ag
      in case m of M_Leds _ _ \<Rightarrow> ag1\<lparr>ag_tap_pending := dpop d (ag_tap_pending ag1)\<rparr> | _ \<Rightarrow> ag1)"

text \<open>A frame that is no whole number of pixels raises inside a guard, and nothing is sent.\<close>

definition tell_leds :: "dev \<Rightarrow> byte list \<Rightarrow> pyfloat \<Rightarrow> 's agent \<Rightarrow> 's agent" where
  "tell_leds d frame t ag =
     (case rgb_blob (map uint frame) of None \<Rightarrow> ag | Some blob \<Rightarrow> tell d (M_Leds blob t) ag)"

subsection \<open>Keys\<close>

text \<open>\<open>None\<close> when a bound fixture's name has no token (\<open>ValueError\<close>).\<close>

definition fixture_key :: "('b, 's) view \<Rightarrow> dev \<Rightarrow> dev option" where
  "fixture_key vw d =
     (if fixture_name d \<noteq> None then Some d
      else case e_room (vw_gs vw) of
             None \<Rightarrow> Some d
           | Some r \<Rightarrow>
               (case List.find (\<lambda>(_, b). b = d) (rm_bound r) of
                  None \<Rightarrow> Some d
                | Some (name, _) \<Rightarrow> fixture_dev name))"

definition fixture_for :: "dev \<Rightarrow> 's agent \<Rightarrow> (string \<times> 's fixture_state) option" where
  "fixture_for k ag =
     (case fixture_name k of None \<Rightarrow> None | Some n \<Rightarrow> map_option (Pair n) (dget (ag_fixtures ag) n))"

definition put_fixture :: "string \<Rightarrow> 's fixture_state \<Rightarrow> 's agent \<Rightarrow> 's agent" where
  "put_fixture n st ag = ag\<lparr>ag_fixtures := dset n st (ag_fixtures ag)\<rparr>"

text \<open>\<open>_invalidate_frame\<close>; the flag says that the key lookup raised.\<close>

definition invalidate_frame :: "('b, 's) view \<Rightarrow> dev \<Rightarrow> 's agent \<Rightarrow> 's agent \<times> bool" where
  "invalidate_frame vw d ag =
     (let ag1 = ag\<lparr>ag_last_frames := dpop d (ag_last_frames ag)\<rparr>
      in case fixture_key vw d of
           None \<Rightarrow> (ag1, True)
         | Some k \<Rightarrow>
             (case fixture_for k ag1 of
                None \<Rightarrow> (ag1, False)
              | Some (n, st) \<Rightarrow> (put_fixture n (st\<lparr>fs_last_frame := None\<rparr>) ag1, False)))"

subsection \<open>Light and sound cues\<close>

definition earlier :: "pyfloat \<Rightarrow> pyfloat option \<Rightarrow> pyfloat" where
  "earlier t pending = (case pending of None \<Rightarrow> t | Some p \<Rightarrow> if flt t p then t else p)"

definition is_control :: "int \<Rightarrow> bool" where
  "is_control status \<longleftrightarrow> (word_of_int status :: 8 word) div 16 = 11"

definition feed_light_now ::
  "('b, 's) view \<Rightarrow> dev \<Rightarrow> int \<Rightarrow> int \<Rightarrow> int \<Rightarrow> pyfloat option \<Rightarrow> 's agent \<Rightarrow> 's agent" where
  "feed_light_now vw d status d1 d2 t ag =
     (case fixture_for d ag of
        Some (n, st) \<Rightarrow>
          (case lx_feed (vw_lux vw) status d1 d2 (fs_session st) of
             (s, False) \<Rightarrow> put_fixture n (st\<lparr>fs_session := s\<rparr>) ag
           | (s, True) \<Rightarrow>
               put_fixture n (st\<lparr>fs_session := s,
                 fs_controllers := (if is_control status then dset d1 d2 (fs_controllers st) else fs_controllers st),
                 fs_pending := (case t of None \<Rightarrow> fs_pending st | Some x \<Rightarrow> Some (earlier x (fs_pending st)))\<rparr>) ag)
      | None \<Rightarrow>
          (case dget (ag_bridges ag) d of
             None \<Rightarrow> ag
           | Some s \<Rightarrow>
               (case lx_feed (vw_lux vw) status d1 d2 s of
                  (s', fed) \<Rightarrow>
                    (let ag1 = ag\<lparr>ag_bridges := dset d s' (ag_bridges ag)\<rparr>
                     in case (fed, t) of
                          (True, Some x) \<Rightarrow> ag1\<lparr>ag_pending := dset d (earlier x (dget (ag_pending ag) d)) (ag_pending ag)\<rparr>
                        | _ \<Rightarrow> ag1))))"

text \<open>A sink whose key lookup raises leaves the agent as it was: the engine catches and logs.\<close>

definition on_light_cue ::
  "('b, 's) view \<Rightarrow> dev \<Rightarrow> int \<Rightarrow> int \<Rightarrow> int \<Rightarrow> pyfloat option \<Rightarrow> 's agent \<Rightarrow> 's agent" where
  "on_light_cue vw dev0 status d1 d2 t ag =
     (case fixture_key vw dev0 of
        None \<Rightarrow> ag
      | Some d \<Rightarrow>
          if d \<in> set (ag_muted ag) then ag
          else
            (let now = vw_now vw;
                 ag1 = (case fixture_for d ag of
                          None \<Rightarrow> ag
                        | Some (n, _) \<Rightarrow>
                            ag\<lparr>ag_room_cues := tq_push t (n, status, d1, d2, None) now (ag_room_cues ag)\<rparr>)
             in case t of
                  Some x \<Rightarrow>
                    if flt (Fin now) (fsub x (Fin (ag_horizon ag)))
                    then ag1\<lparr>ag_light_cues := tq_push (Some (fsub x (Fin (ag_horizon ag)))) (Feed d status d1 d2 t) now
                                (ag_light_cues ag1)\<rparr>
                    else feed_light_now vw d status d1 d2 t ag1
                | None \<Rightarrow> feed_light_now vw d status d1 d2 t ag1))"

definition on_music_cue ::
  "('b, 's) view \<Rightarrow> dev \<Rightarrow> int \<Rightarrow> int \<Rightarrow> int \<Rightarrow> pyfloat option \<Rightarrow> string option \<Rightarrow> 's agent \<Rightarrow> 's agent" where
  "on_music_cue vw dev0 status d1 d2 t tag ag =
     (case fixture_key vw dev0 of
        None \<Rightarrow> ag
      | Some d \<Rightarrow>
          if d \<in> set (ag_muted ag) then ag
          else case fixture_for d ag of
                 None \<Rightarrow> ag
               | Some (n, _) \<Rightarrow>
                   ag\<lparr>ag_room_cues := tq_push t (n, status, d1, d2, tag) (vw_now vw) (ag_room_cues ag)\<rparr>)"

fun tagged :: "string \<Rightarrow> string \<Rightarrow> room_cue \<Rightarrow> bool" where
  "tagged n tag (n', _, _, _, tag') \<longleftrightarrow> n' = n \<and> tag' = Some tag"

definition on_music_purge :: "('b, 's) view \<Rightarrow> dev \<Rightarrow> string \<Rightarrow> 's agent \<Rightarrow> 's agent" where
  "on_music_purge vw d tag ag =
     (case Option.bind (fixture_key vw d) (\<lambda>k. fixture_for k ag) of
        None \<Rightarrow> ag
      | Some (n, _) \<Rightarrow> ag\<lparr>ag_room_cues := tq_purge (tagged n tag) (ag_room_cues ag)\<rparr>)"

definition on_play_cue :: "dev \<Rightarrow> string \<Rightarrow> string \<Rightarrow> 's agent \<Rightarrow> 's agent" where
  "on_play_cue d name params ag =
     (if fixture_name d \<noteq> None then ag\<lparr>ag_warned_play := List.insert d (ag_warned_play ag)\<rparr>
      else tell d (M_Play name params) ag)"

subsection \<open>Overrides, flashes, mutes\<close>

definition on_solid_cue ::
  "('b, 's) view \<Rightarrow> dev \<Rightarrow> rgb \<Rightarrow> pyfloat \<Rightarrow> pyfloat option \<Rightarrow> pyfloat \<Rightarrow> 's agent \<Rightarrow> 's agent" where
  "on_solid_cue vw dev0 colour level duration t ag =
     (case fixture_key vw dev0 of
        None \<Rightarrow> ag
      | Some d \<Rightarrow>
          if d \<in> set (ag_muted ag) then ag
          else fst (invalidate_frame vw d
                 (ag\<lparr>ag_overrides := dset d (colour, level, map_option (fadd t) duration) (ag_overrides ag)\<rparr>)))"

text \<open>A colour that has neither three nor four components raises before the flash is recorded.\<close>

definition on_pixel_flash ::
  "('b, 's) view \<Rightarrow> dev \<Rightarrow> int \<Rightarrow> rgb \<Rightarrow> pyfloat \<Rightarrow> pyfloat \<Rightarrow> 's agent \<Rightarrow> 's agent" where
  "on_pixel_flash vw dev0 pixel colour duration t ag =
     (case fixture_key vw dev0 of
        None \<Rightarrow> ag
      | Some d \<Rightarrow>
          if d \<in> set (ag_muted ag) then ag
          else
            (let mine = (case dget (ag_flashes ag) d of None \<Rightarrow> [] | Some ps \<Rightarrow> ps)
             in case rgbw colour of
                  None \<Rightarrow> ag
                | Some c \<Rightarrow>
                    fst (invalidate_frame vw d
                      (ag\<lparr>ag_flashes := dset d (dset pixel (c, fadd t duration) mine) (ag_flashes ag)\<rparr>))))"

definition BLACKOUT :: "rgb \<times> pyfloat \<times> pyfloat option" where "BLACKOUT = ([0, 0, 0], Fin 0, None)"

definition unmute_key :: "('b, 's) view \<Rightarrow> dev \<Rightarrow> 's agent \<Rightarrow> 's agent" where
  "unmute_key vw k ag =
     fst (invalidate_frame vw k
       (ag\<lparr>ag_muted := drop_key k (ag_muted ag), ag_overrides := dpop k (ag_overrides ag)\<rparr>))"

definition on_mute_change :: "('b, 's) view \<Rightarrow> dev \<Rightarrow> bool \<Rightarrow> 's agent \<Rightarrow> 's agent" where
  "on_mute_change vw d muted ag =
     (case fixture_key vw d of
        None \<Rightarrow> ag
      | Some k \<Rightarrow>
          if muted
          then
            (let ag1 = fst (invalidate_frame vw k
                   (ag\<lparr>ag_muted := List.insert k (ag_muted ag), ag_overrides := dset k BLACKOUT (ag_overrides ag),
                       ag_flashes := dpop k (ag_flashes ag)\<rparr>));
                 ag2 = ag1\<lparr>ag_light_cues := tq_purge (\<lambda>c. cue_key c = k) (ag_light_cues ag1)\<rparr>
             in case fixture_for k ag2 of
                  None \<Rightarrow> ag2
                | Some (n, _) \<Rightarrow>
                    (let ag3 = ag2\<lparr>ag_room_cues := tq_purge (\<lambda>c. fst c = n) (ag_room_cues ag2)\<rparr>
                     in if ag_audio ag3 \<and> n \<in> set (ag_audio_fixtures ag3) then says [A_Silence n] ag3 else ag3))
          else fold (unmute_key vw) (remdups [k, d]) ag)"

definition drain_light_cue :: "('b, 's) view \<Rightarrow> light_cue \<Rightarrow> 's agent \<Rightarrow> 's agent" where
  "drain_light_cue vw c ag =
     (case c of
        Flash d colour t \<Rightarrow>
          if d \<in> set (ag_muted ag) then ag
          else on_solid_cue vw d colour (Fin 1) (Some (Fin FIXTURE_FLASH_ON_S)) (Fin t) ag
      | Feed d status d1 d2 t \<Rightarrow>
          if d \<in> set (ag_muted ag) then ag else feed_light_now vw d status d1 d2 t ag)"

definition drain_light_cues :: "('b, 's) view \<Rightarrow> 's agent \<Rightarrow> 's agent" where
  "drain_light_cues vw ag =
     (case tq_due (vw_now vw) (ag_light_cues ag) of
        (due, q) \<Rightarrow> fold (drain_light_cue vw) due (ag\<lparr>ag_light_cues := q\<rparr>))"

subsection \<open>Grants and releases\<close>

definition device_pixels :: "('b, 's) view \<Rightarrow> dev \<Rightarrow> nat" where
  "device_pixels vw d = nat (player_pixels (map_option di_carried (pool_get d (e_devices (vw_gs vw)))))"

definition on_grant ::
  "('b, 's) view \<Rightarrow> dev \<Rightarrow> join_result \<Rightarrow> (string, pyval) dict \<Rightarrow> 's agent \<Rightarrow> 's agent" where
  "on_grant vw d jr config ag =
     (case (if jr_granted jr then lx_player (vw_lux vw) d (jr_zones jr) (device_pixels vw d) config else None) of
        None \<Rightarrow> tell d (M_Error ''role'' No_Session) ag
      | Some s \<Rightarrow>
          tell d (M_Role config)
            (ag\<lparr>ag_bridges := dset d s (ag_bridges ag),
                ag_universes := dset d (device_pixels vw d * CHANNELS_PER_PIXEL_WIRE) (ag_universes ag),
                ag_last_frames := dpop d (ag_last_frames ag), ag_closing := dpop d (ag_closing ag),
                ag_last_breath := dpop d (ag_last_breath ag),
                ag_breathless := (if jr_breath jr = Some False then List.insert d (ag_breathless ag)
                                  else drop_key d (ag_breathless ag)),
                ag_revived := drop_key d (ag_revived ag)\<rparr>))"

definition drop_player_bridge :: "dev \<Rightarrow> 's agent \<Rightarrow> 's agent" where
  "drop_player_bridge d ag =
     ag\<lparr>ag_bridges := dpop d (ag_bridges ag), ag_universes := dpop d (ag_universes ag),
        ag_last_frames := dpop d (ag_last_frames ag), ag_pending := dpop d (ag_pending ag),
        ag_last_breath := dpop d (ag_last_breath ag), ag_breathless := drop_key d (ag_breathless ag),
        ag_closing := dpop d (ag_closing ag), ag_revived := drop_key d (ag_revived ag),
        ag_overrides := dpop d (ag_overrides ag), ag_flashes := dpop d (ag_flashes ag),
        ag_override_only := drop_key d (ag_override_only ag), ag_bases := dpop d (ag_bases ag)\<rparr>"

definition on_release :: "('b, 's) view \<Rightarrow> dev \<Rightarrow> 's agent \<Rightarrow> 's agent" where
  "on_release vw d ag =
     (case dget (ag_bridges ag) d of
        None \<Rightarrow> (says [Dropped d] (tell d M_Release ag))\<lparr>ag_canvas := dpop d (ag_canvas ag)\<rparr>
      | Some s \<Rightarrow>
          ag\<lparr>ag_bridges := dset d (lx_clear (vw_lux vw) s) (ag_bridges ag), ag_closing := dset d 0 (ag_closing ag),
             ag_revived := drop_key d (ag_revived ag)\<rparr>)"

definition finish_release :: "dev \<Rightarrow> 's agent \<Rightarrow> 's agent" where
  "finish_release d ag =
     (let revived = d \<in> set (ag_revived ag);
          ag1 = tell d M_Release
            (ag\<lparr>ag_revived := drop_key d (ag_revived ag), ag_bridges := dpop d (ag_bridges ag),
                ag_universes := dpop d (ag_universes ag), ag_last_frames := dpop d (ag_last_frames ag),
                ag_closing := dpop d (ag_closing ag), ag_last_breath := dpop d (ag_last_breath ag),
                ag_breathless := drop_key d (ag_breathless ag), ag_overrides := dpop d (ag_overrides ag),
                ag_flashes := dpop d (ag_flashes ag), ag_override_only := drop_key d (ag_override_only ag),
                ag_bases := dpop d (ag_bases ag), ag_canvas := dpop d (ag_canvas ag)\<rparr>)
      in if revived then ag1 else says [Dropped d] ag1)"

end
