(* ===== verification/Agent_Render.thy ===== *)
theory Agent_Render
  imports Agent_State
begin

section \<open>The device agent: rendering\<close>

text \<open>
  What \<open>DeviceLinkAgent.poll\<close> does each tick with the sessions: lapsed overrides, the breath, ambient
  generators, and the two render passes with the closing fades (\<open>src/devicelink/agent.py\<close>). A phase returns the
  agent and whether an exception escaped it; the exceptions the source catches are branches of the phase.
\<close>

type_synonym 's phase = "'s agent \<Rightarrow> 's agent \<times> bool"

text \<open>One phase after another, and one step per element, up to the first exception.\<close>

definition and_then :: "'s phase \<Rightarrow> 's phase \<Rightarrow> 's phase" where
  "and_then f g ag = (case f ag of (ag1, True) \<Rightarrow> (ag1, True) | (ag1, False) \<Rightarrow> g ag1)"

fun for_each :: "('a \<Rightarrow> 's phase) \<Rightarrow> 'a list \<Rightarrow> 's phase" where
  "for_each f [] ag = (ag, False)"
| "for_each f (x # xs) ag = (case f x ag of (ag1, True) \<Rightarrow> (ag1, True) | (ag1, False) \<Rightarrow> for_each f xs ag1)"

subsection \<open>Overrides and flashes\<close>

definition lapse_override :: "('b, 's) view \<Rightarrow> dev \<times> rgb \<times> pyfloat \<times> pyfloat option \<Rightarrow> 's phase" where
  "lapse_override vw e ag =
     (case e of (d, _, _, expires) \<Rightarrow>
        (case expires of
           None \<Rightarrow> (ag, False)
         | Some x \<Rightarrow>
             if flt (Fin (vw_now vw)) x then (ag, False)
             else invalidate_frame vw d (ag\<lparr>ag_overrides := dpop d (ag_overrides ag)\<rparr>)))"

definition lapse_flashes :: "('b, 's) view \<Rightarrow> dev \<times> (int, rgb \<times> pyfloat) dict \<Rightarrow> 's phase" where
  "lapse_flashes vw e ag =
     (case e of (d, ps) \<Rightarrow>
        (let lapsed = filter (\<lambda>(_, _, x). fle x (Fin (vw_now vw))) ps;
             kept = filter (\<lambda>(_, _, x). \<not> fle x (Fin (vw_now vw))) ps;
             ag1 = ag\<lparr>ag_flashes := (if kept = [] then dpop d (ag_flashes ag) else dset d kept (ag_flashes ag))\<rparr>
         in if lapsed = [] then (ag1, False) else invalidate_frame vw d ag1))"

definition tick_overrides :: "('b, 's) view \<Rightarrow> 's phase" where
  "tick_overrides vw ag =
     and_then (for_each (lapse_override vw) (ag_overrides ag)) (\<lambda>ag1. for_each (lapse_flashes vw) (ag_flashes ag1) ag1) ag"

text \<open>\<open>solid_frame\<close> at any level: \<open>round\<close> of a product that is not finite raises.\<close>

definition solid_at :: "rgb \<Rightarrow> pyfloat \<Rightarrow> nat \<Rightarrow> byte list option" where
  "solid_at colour level n = (case level of Fin l \<Rightarrow> solid_frame colour l n | _ \<Rightarrow> None)"

definition apply_override :: "dev \<Rightarrow> byte list \<Rightarrow> 's agent \<Rightarrow> byte list option" where
  "apply_override d frame ag =
     (case dget (ag_overrides ag) d of
        None \<Rightarrow> Some frame
      | Some (colour, level, _) \<Rightarrow> solid_at colour level (length frame))"

text \<open>\<open>bytes(color)\<close> raises when a component is no byte.\<close>

fun paint_pixels :: "(int, rgb \<times> pyfloat) dict \<Rightarrow> byte list \<Rightarrow> byte list option" where
  "paint_pixels [] frame = Some frame"
| "paint_pixels ((p, colour, _) # ps) frame =
     (let lo = nat p * CHANNELS_PER_PIXEL_WIRE
      in if p < 0 \<or> length frame < lo + CHANNELS_PER_PIXEL_WIRE then paint_pixels ps frame
         else if list_all (\<lambda>c. 0 \<le> c \<and> c \<le> 255) colour
         then paint_pixels ps (take lo frame @ map to_byte colour @ drop (lo + CHANNELS_PER_PIXEL_WIRE) frame)
         else None)"

definition apply_pixel_flashes :: "dev \<Rightarrow> byte list \<Rightarrow> 's agent \<Rightarrow> byte list option" where
  "apply_pixel_flashes d frame ag =
     (case dget (ag_flashes ag) d of None \<Rightarrow> Some frame | Some ps \<Rightarrow> paint_pixels ps frame)"

definition painted :: "dev \<Rightarrow> byte list \<Rightarrow> 's agent \<Rightarrow> byte list option" where
  "painted d frame ag = Option.bind (apply_override d frame ag) (\<lambda>fr. apply_pixel_flashes d fr ag)"

definition presented_at :: "('b, 's) view \<Rightarrow> pyfloat option \<Rightarrow> 's agent \<Rightarrow> pyfloat" where
  "presented_at vw t ag = (case t of Some x \<Rightarrow> x | None \<Rightarrow> Fin (vw_now vw + ag_horizon ag))"

subsection \<open>Player devices\<close>

definition check_closing_bound :: "dev \<Rightarrow> 's agent \<Rightarrow> 's agent" where
  "check_closing_bound d ag =
     (if MAX_CLOSING_FRAMES \<le> (case dget (ag_closing ag) d of None \<Rightarrow> 0 | Some n \<Rightarrow> n) then finish_release d ag else ag)"

definition check_closing_done :: "('b, 's) view \<Rightarrow> dev \<Rightarrow> 's \<Rightarrow> 's agent \<Rightarrow> 's agent" where
  "check_closing_done vw d s ag =
     (if lx_closing (vw_lux vw) s = Some True then check_closing_bound d ag else finish_release d ag)"

definition show_frame :: "('b, 's) view \<Rightarrow> dev \<Rightarrow> pyfloat option \<Rightarrow> byte list \<Rightarrow> 's agent \<Rightarrow> 's agent" where
  "show_frame vw d t frame ag =
     (if dget (ag_last_frames ag) d = Some frame then ag
      else tell_leds d frame (presented_at vw t ag) (ag\<lparr>ag_last_frames := dset d frame (ag_last_frames ag)\<rparr>))"

definition begin_render :: "dev \<Rightarrow> 's agent \<Rightarrow> 's agent" where
  "begin_render d ag =
     (let ag1 = ag\<lparr>ag_pending := dpop d (ag_pending ag)\<rparr>
      in case dget (ag_closing ag) d of
           None \<Rightarrow> ag1
         | Some k \<Rightarrow> ag1\<lparr>ag_closing := dset d (k + 1) (ag_closing ag1)\<rparr>)"

definition end_render :: "('b, 's) view \<Rightarrow> dev \<Rightarrow> pyfloat option \<Rightarrow> 's \<Rightarrow> byte list \<Rightarrow> 's phase" where
  "end_render vw d t s full ag =
     (let frame = take (device_pixels vw d * CHANNELS_PER_PIXEL_WIRE) full
      in case Option.bind (fixture_key vw d) (\<lambda>k. painted k frame ag) of
           None \<Rightarrow> (ag, True)
         | Some fr \<Rightarrow>
             (let ag1 = show_frame vw d t fr ag
              in (if dmem d (ag_closing ag) then check_closing_done vw d s ag1 else ag1, False)))"

definition render_player :: "('b, 's) view \<Rightarrow> dev \<Rightarrow> 's phase" where
  "render_player vw d ag =
     (case (dget (ag_universes ag) d, dget (ag_bridges ag) d) of
        (Some n, Some s) \<Rightarrow>
          (let ag1 = begin_render d ag
           in case lx_render (vw_lux vw) (vw_now vw) n s of
                (s', out) \<Rightarrow>
                  (let ag2 = ag1\<lparr>ag_bridges := dset d s' (ag_bridges ag1)\<rparr>
                   in case out of
                        None \<Rightarrow> (if dmem d (ag_closing ag2) then check_closing_bound d ag2 else ag2, False)
                      | Some full \<Rightarrow> end_render vw d (dget (ag_pending ag) d) s' full ag2))
      | _ \<Rightarrow> (ag, False))"

definition no_paint :: "('b, 's) view \<Rightarrow> dev \<Rightarrow> 's agent \<Rightarrow> bool" where
  "no_paint vw d ag \<longleftrightarrow>
     fixture_name d \<noteq> None \<or> dmem d (ag_bridges ag) \<or> d \<in> set (bound_devs (vw_gs vw))
     \<or> Option.bind (fixture_key vw d) (\<lambda>k. fixture_for k ag) \<noteq> None
     \<or> pool_get d (e_devices (vw_gs vw)) = None"

definition base_frame :: "dev \<Rightarrow> nat \<Rightarrow> 's agent \<Rightarrow> byte list option" where
  "base_frame d n ag =
     (case dget (ag_bases ag) d of
        Some (colour, level) \<Rightarrow> if d \<in> set (ag_muted ag) then Some (replicate n 0) else solid_frame colour level n
      | None \<Rightarrow> Some (replicate n 0))"

definition render_roleless :: "('b, 's) view \<Rightarrow> dev \<Rightarrow> 's phase" where
  "render_roleless vw d ag =
     (if no_paint vw d ag then (ag\<lparr>ag_override_only := drop_key d (ag_override_only ag)\<rparr>, False)
      else
        (let n = device_pixels vw d * CHANNELS_PER_PIXEL_WIRE
         in case Option.bind (base_frame d n ag) (\<lambda>fr. painted d fr ag) of
              None \<Rightarrow> (ag, True)
            | Some fr \<Rightarrow>
                if dget (ag_last_frames ag) d = Some fr then (ag, False)
                else
                  (let ag1 = show_frame vw d None fr ag
                   in if fr = replicate n 0 \<and> \<not> dmem d (ag_bases ag)
                      then (ag1\<lparr>ag_override_only := drop_key d (ag_override_only ag1),
                                ag_last_frames := dpop d (ag_last_frames ag1)\<rparr>, False)
                      else (ag1\<lparr>ag_override_only := List.insert d (ag_override_only ag1)\<rparr>, False))))"

definition roleless :: "'s agent \<Rightarrow> dev list" where
  "roleless ag =
     remdups (dkeys (ag_overrides ag) @ dkeys (ag_flashes ag) @ ag_override_only ag @ dkeys (ag_bases ag))"

definition render_frames :: "('b, 's) view \<Rightarrow> 's phase" where
  "render_frames vw ag =
     and_then (for_each (render_player vw) (dkeys (ag_bridges ag)))
       (\<lambda>ag1. for_each (render_roleless vw) (roleless ag1) ag1) ag"

subsection \<open>Room fixtures\<close>

definition sinks_tell :: "string \<Rightarrow> dev option \<Rightarrow> byte list \<Rightarrow> pyfloat \<Rightarrow> 's agent \<Rightarrow> 's agent" where
  "sinks_tell n d frame t ag =
     (let ag1 = (if ag_console ag then says [Console_Frame n frame] ag else ag);
          ag2 = (case d of None \<Rightarrow> ag1 | Some x \<Rightarrow> tell_leds x frame t ag1)
      in says (map (\<lambda>i. Output_Frame i frame t) (case dget (ag_outputs ag) n of None \<Rightarrow> [] | Some is \<Rightarrow> is)) ag2)"

definition show_fixture ::
  "('b, 's) view \<Rightarrow> string \<Rightarrow> dev option \<Rightarrow> pyfloat option \<Rightarrow> byte list \<Rightarrow> 's fixture_state \<Rightarrow> 's agent \<Rightarrow> 's agent" where
  "show_fixture vw n d t frame st ag =
     (let st1 = (if d = fs_last_dev st then st else st\<lparr>fs_last_dev := d, fs_last_frame := None\<rparr>)
      in if fs_last_frame st1 = Some frame then put_fixture n st1 ag
         else sinks_tell n d frame (presented_at vw t ag) (put_fixture n (st1\<lparr>fs_last_frame := Some frame\<rparr>) ag))"

definition render_fixture :: "('b, 's) view \<Rightarrow> room_fixture \<Rightarrow> 's phase" where
  "render_fixture vw f ag =
     (case dget (ag_fixtures ag) (x_name f) of
        None \<Rightarrow> (ag, False)
      | Some st \<Rightarrow>
          (let n = x_name f;
               d = (case e_room (vw_gs vw) of None \<Rightarrow> None | Some r \<Rightarrow> dget (rm_bound r) n);
               t = fs_pending st;
               st1 = st\<lparr>fs_pending := None\<rparr>
           in case lx_render (vw_lux vw) (vw_now vw) (fs_channels st) (fs_session st) of
                (s, None) \<Rightarrow> (put_fixture n (st1\<lparr>fs_session := s\<rparr>) ag, False)
              | (s, Some full) \<Rightarrow>
                  (let st2 = st1\<lparr>fs_session := s\<rparr>;
                       frame = take (nat (fixture_pixels f) * CHANNELS_PER_PIXEL_WIRE) full
                   in case Option.bind (fixture_dev n) (\<lambda>k. painted k frame ag) of
                        None \<Rightarrow> (put_fixture n st2 ag, True)
                      | Some fr \<Rightarrow> (show_fixture vw n d t fr st2 ag, False))))"

definition sound_room_cue :: "room_cue \<Rightarrow> 's agent \<Rightarrow> 's agent" where
  "sound_room_cue c ag =
     (case c of (n, status, d1, d2, _) \<Rightarrow>
        if ag_audio ag \<and> n \<in> set (ag_audio_fixtures ag) then says [A_Feed n status d1 d2] ag else ag)"

definition render_room :: "('b, 's) view \<Rightarrow> 's phase" where
  "render_room vw ag =
     (if ag_fixtures ag = [] then (ag, False)
      else case ag_profile ag of
             None \<Rightarrow> (ag, False)
           | Some p \<Rightarrow>
               (case tq_due (vw_now vw) (ag_room_cues ag) of
                  (due, q) \<Rightarrow>
                    for_each (render_fixture vw) (p_fixtures p)
                      (fold sound_room_cue due (ag\<lparr>ag_room_cues := q\<rparr>))))"

subsection \<open>Breath and ambient generators\<close>

definition breathe :: "('b, 's) view \<Rightarrow> int \<Rightarrow> dev \<Rightarrow> 's phase" where
  "breathe vw v d ag =
     (if dmem d (ag_closing ag) then (ag, False)
      else case fixture_key vw d of
             None \<Rightarrow> (ag, True)
           | Some k \<Rightarrow>
               if k \<in> set (ag_muted ag) \<or> d \<in> set (ag_breathless ag) \<or> dget (ag_last_breath ag) d = Some v
               then (ag, False)
               else (case dget (ag_bridges ag) d of
                       None \<Rightarrow> (ag, False)
                     | Some s \<Rightarrow>
                         (ag\<lparr>ag_last_breath := dset d v (ag_last_breath ag),
                             ag_bridges := dset d (fst (lx_feed (vw_lux vw) 176 BREATH_CC v s)) (ag_bridges ag)\<rparr>, False)))"

definition feed_breath :: "('b, 's) view \<Rightarrow> 's phase" where
  "feed_breath vw ag =
     for_each (breathe vw (breath_cc (vw_now vw - ag_breath_origin ag))) (dkeys (ag_bridges ag)) ag"

definition feed_generator :: "('b, 's) view \<Rightarrow> cue \<Rightarrow> 's agent \<Rightarrow> 's agent" where
  "feed_generator vw c ag =
     (case c of
        Midi n status d1 v \<Rightarrow>
          (case dget (ag_fixtures ag) n of
             None \<Rightarrow> ag
           | Some st \<Rightarrow>
               (case lx_feed (vw_lux vw) status d1 v (fs_session st) of
                  (s, fed) \<Rightarrow>
                    put_fixture n (st\<lparr>fs_session := s,
                      fs_controllers := (if fed \<and> is_control status then dset d1 v (fs_controllers st)
                                         else fs_controllers st)\<rparr>) ag))
      | _ \<Rightarrow> ag)"

definition own_lane :: "string \<Rightarrow> dev \<Rightarrow> dev list option" where
  "own_lane n d = Some (if d = TARGET then [n] else [])"

definition feed_ambient :: "('b, 's) view \<Rightarrow> rat \<Rightarrow> string \<Rightarrow> 's phase" where
  "feed_ambient vw start n ag =
     (case Option.bind (dget (ag_fixtures ag) n) fs_generators of
        None \<Rightarrow> (ag, False)
      | Some g \<Rightarrow>
          (case runner_cues (own_lane n) g (vw_now vw - start) (Fin (vw_now vw)) of
             None \<Rightarrow> (ag, True)
           | Some cs \<Rightarrow> (fold (feed_generator vw) cs ag, False)))"

definition feed_ambient_generators :: "('b, 's) view \<Rightarrow> 's phase" where
  "feed_ambient_generators vw ag =
     (case ag_ambient_start ag of
        None \<Rightarrow> (ag, False)
      | Some start \<Rightarrow> for_each (feed_ambient vw start) (dkeys (ag_fixtures ag)) ag)"

end
