(* ===== verification/Agent_Room.thy ===== *)
theory Agent_Room
  imports Agent_Render Role_Config
begin

section \<open>The device agent: the Room, the lobby, the observers\<close>

text \<open>
  How \<open>DeviceLinkAgent\<close> wires and unwires a Room, runs the lobby and follows the engine's notices
  (\<open>src/devicelink/agent.py\<close>). The audio bridge and the lobby's announcements return normally; a fixture whose
  name has no token is left out of the lobby's light.
\<close>

subsection \<open>Physical outputs\<close>

definition close_outputs :: "'s agent \<Rightarrow> 's agent" where
  "close_outputs ag =
     (says (map Output_Close (concat (map snd (ag_outputs ag)))) ag)\<lparr>ag_outputs := []\<rparr>"

definition started :: "(nat \<times> bool) list \<Rightarrow> nat list" where
  "started sinks = map fst (filter snd sinks)"

definition ensure_outputs :: "('b, 's) view \<Rightarrow> 's agent \<Rightarrow> 's agent" where
  "ensure_outputs vw ag =
     (let key = (case (e_room (vw_gs vw), ag_profile ag) of (Some r, Some p) \<Rightarrow> Some (rm_name r, p) | _ \<Rightarrow> None)
      in if key = ag_outputs_key ag then ag
         else
           (let ag1 = (close_outputs ag)\<lparr>ag_outputs_key := key\<rparr>
            in case key of
                 None \<Rightarrow> ag1
               | Some (name, p) \<Rightarrow>
                   (case vw_outputs vw name p of
                      None \<Rightarrow> ag1
                    | Some built \<Rightarrow>
                        ag1\<lparr>ag_outputs := foldl (\<lambda>outs (n, sinks). if started sinks = [] then outs else dset n (started sinks) outs)
                              [] built\<rparr>)))"

subsection \<open>Room audio\<close>

definition bare_role :: "string \<Rightarrow> pyval \<Rightarrow> role" where
  "bare_role name ugen =
     \<lparr>r_name = name, r_class = CLASS_ROOM, r_capacity = None, r_scored = False, r_uses = [], r_samples = [],
      r_ugen_manifest = ugen, r_light_manifest = VDict [], r_welcome = None, r_breath = True, r_requires = None, r_zones = []\<rparr>"

definition DEFAULT_FIXTURE_ROLE :: role where
  "DEFAULT_FIXTURE_ROLE = bare_role ''fixture-builtin''
     (VDict [(''instruments'', VList [VDict [(''lanes'', VList [VDict
        [(''source'', VStr ''cc:11''), (''dest'', VStr ''cc:11'')]])]])])"

definition dict_key :: "pyval \<Rightarrow> string \<Rightarrow> pyval option" where
  "dict_key v k = Option.bind (Manifests.as_dict v) (\<lambda>d. dget d k)"

definition has_instruments :: "pyval \<Rightarrow> bool" where
  "has_instruments v \<longleftrightarrow> (case dict_key v ''instruments'' of None \<Rightarrow> False | Some i \<Rightarrow> \<not> falsy i)"

definition audible :: "room_fixture \<Rightarrow> bool" where
  "audible f \<longleftrightarrow> (\<exists>c \<in> i_capabilities (x_instrument f). take 6 c = ''audio.'')"

definition grant_fixture_audio :: "role option \<Rightarrow> room_fixture \<Rightarrow> bool \<times> 's agent \<Rightarrow> bool \<times> 's agent" where
  "grant_fixture_audio ro f st =
     (case st of (is_first, ag) \<Rightarrow>
        if \<not> audible f then (is_first, ag)
        else
          (let ugen = snd (fixture_ambient f);
               given = (case ro of Some r \<Rightarrow> r
                        | None \<Rightarrow> if falsy ugen then DEFAULT_FIXTURE_ROLE else bare_role ''ambient'' ugen);
               given1 = (if is_first then given else given\<lparr>r_welcome := None\<rparr>);
               ag1 = (says [A_Grant (x_name f) given1] ag)\<lparr>ag_audio_fixtures := List.insert (x_name f) (ag_audio_fixtures ag)\<rparr>
           in (False, if ro = None \<and> \<not> falsy ugen \<and> has_instruments ugen then says [A_Drone_On (x_name f)] ag1 else ag1)))"

definition grant_room_audio :: "role option \<Rightarrow> 's agent \<Rightarrow> 's agent" where
  "grant_room_audio ro ag =
     (if \<not> ag_audio ag then ag
      else
        (let ag1 = (says (map A_Release (ag_audio_fixtures ag)) ag)\<lparr>ag_audio_fixtures := []\<rparr>
         in case ag_profile ag of
              None \<Rightarrow> ag1
            | Some p \<Rightarrow> snd (fold (grant_fixture_audio ro) (p_fixtures p) (True, ag1))))"

subsection \<open>Fixture sessions\<close>

definition room_role_of :: "('b, 's) view \<Rightarrow> role option" where
  "room_role_of vw =
     (case (e_room (vw_gs vw), e_registration (vw_gs vw)) of
        (Some r, Some reg) \<Rightarrow> dget (roles_of reg) (room_role_name (rm_name r))
      | _ \<Rightarrow> None)"

text \<open>The Bit's light for the whole Room; \<open>None\<close> when composing it raises.\<close>

definition room_light :: "('b, 's) view \<Rightarrow> role \<Rightarrow> (string, pyval) dict option" where
  "room_light vw ro =
     (case (e_bit_name (vw_gs vw), e_bit (vw_gs vw)) of
        (Some name, Some b) \<Rightarrow>
          Option.bind (compose_role_config name (v_version (vw_env vw) b) ro None None None [] None)
            (\<lambda>blob. Option.bind (dget blob ''light_manifest'') Manifests.as_dict)
      | _ \<Rightarrow> None)"

definition ambient_light :: "room_fixture \<Rightarrow> (string, pyval) dict option" where
  "ambient_light f =
     (let light = fst (fixture_ambient f)
      in if falsy light then Some [(''instruments'', VList [])] else Manifests.as_dict light)"

definition ambient_runner :: "room_fixture \<Rightarrow> runner" where
  "ambient_runner f =
     new_runner (List.map_filter f_generator (filter (\<lambda>fn. f_kind fn = GENERATOR) (i_functions (x_instrument f))))"

definition build_fixture ::
  "('b, 's) view \<Rightarrow> (string, pyval) dict option \<Rightarrow> room_profile \<Rightarrow> room_fixture \<Rightarrow> 's phase" where
  "build_fixture vw light p f ag =
     (case (case light of Some l \<Rightarrow> slice_light_manifest l p (x_name f) | None \<Rightarrow> ambient_light f) of
        None \<Rightarrow> (ag, True)
      | Some own \<Rightarrow>
          (put_fixture (x_name f)
             \<lparr>fs_session = lx_fixture (vw_lux vw) own p (x_name f),
              fs_channels = nat (fixture_pixels f) * CHANNELS_PER_PIXEL_WIRE, fs_controllers = [], fs_pending = None,
              fs_last_frame = None, fs_last_dev = None,
              fs_generators = (if light = None then Some (ambient_runner f) else None)\<rparr> ag, False))"

definition furnish_room ::
  "('b, 's) view \<Rightarrow> role option \<Rightarrow> (string, pyval) dict option \<Rightarrow> room_profile \<Rightarrow> 's phase" where
  "furnish_room vw ro light p =
     and_then (for_each (build_fixture vw light p) (p_fixtures p))
       (\<lambda>ag. (ensure_outputs vw (grant_room_audio ro
                (if light = None then ag\<lparr>ag_ambient_start := Some (vw_now vw)\<rparr> else ag)), False))"

definition setup_room :: "('b, 's) view \<Rightarrow> 's phase" where
  "setup_room vw ag =
     (let ag0 = ag\<lparr>ag_fixtures := [], ag_ambient_start := None\<rparr>
      in case e_room (vw_gs vw) of
           None \<Rightarrow> (ensure_outputs vw ag0, False)
         | Some r \<Rightarrow>
             (let p = (case ag_profile ag0 of None \<Rightarrow> rm_profile r | Some p \<Rightarrow> p);
                  ag1 = ag0\<lparr>ag_profile := Some p\<rparr>
              in case room_role_of vw of
                   None \<Rightarrow> furnish_room vw None None p ag1
                 | Some ro \<Rightarrow>
                     (case room_light vw ro of
                        None \<Rightarrow> (ag1, True)
                      | Some light \<Rightarrow> furnish_room vw (Some ro) (Some light) p ag1)))"

definition rewire_room :: "('b, 's) view \<Rightarrow> 's phase" where
  "rewire_room vw ag = setup_room vw (ag\<lparr>ag_profile := None\<rparr>)"

subsection \<open>The lobby\<close>

definition lobby_enabled :: "('b, 's) view \<Rightarrow> bool" where
  "lobby_enabled vw \<longleftrightarrow> (case bit_config (vw_env vw) (vw_gs vw) of None \<Rightarrow> True | Some c \<Rightarrow> bc_lobby_enabled c)"

definition lobby_light_manifest :: "(string, pyval) dict" where
  "lobby_light_manifest =
     [(''instruments'', VList [VDict
        [(''instrument'', VStr ''aurora''), (''target'', VStr ''primary''),
         (''params'', VDict [(''hue'', VFloat (Fin (55 / 100))), (''level'', VFloat (Fin (55 / 100)))]),
         (''lanes'', VList [VDict [(''source'', VStr ''cc:74''), (''dest'', VStr ''hue'')],
                            VDict [(''source'', VStr ''cc:11''), (''dest'', VStr ''level'')]])]])]"

definition lobby_effect_now :: "('b, 's) view \<Rightarrow> lobby_effect \<Rightarrow> 's agent \<Rightarrow> 's agent" where
  "lobby_effect_now vw e ag =
     (case e of
        Feed_Light n status d1 d2 \<Rightarrow>
          (case (dget (ag_fixtures ag) n, fixture_dev n) of
             (Some st, Some k) \<Rightarrow>
               if k \<in> set (ag_muted ag) then ag
               else put_fixture n (st\<lparr>fs_session := fst (lx_feed (vw_lux vw) status d1 d2 (fs_session st))\<rparr>) ag
           | _ \<Rightarrow> ag)
      | Feed_Audio n status d1 d2 \<Rightarrow>
          if ag_audio ag \<and> n \<in> set (ag_audio_fixtures ag) then says [A_Feed n status d1 d2] ag else ag
      | Audio_Control n cc v \<Rightarrow>
          if ag_audio ag \<and> n \<in> set (ag_audio_fixtures ag) then says [A_Control n cc v] ag else ag
      | Play_Note p k v dur \<Rightarrow> if ag_audio ag then says [A_Note p k v dur] ag else ag
      | Set_Override d colour level dur \<Rightarrow> on_solid_cue vw d colour (Fin level) (Some (Fin dur)) (Fin (vw_now vw)) ag
      | Send_Play d name key \<Rightarrow>
          (case fixture_key vw d of
             None \<Rightarrow> ag
           | Some k \<Rightarrow> if k \<in> set (ag_muted ag) then ag else tell d (M_Play name (''key='' @ show_nat (nat key))) ag)
      | Announce kind d \<Rightarrow> says [Lobby_Notice kind d] ag
      | Set_Base d None _ \<Rightarrow> ag\<lparr>ag_bases := dpop d (ag_bases ag)\<rparr>
      | Set_Base d (Some colour) level \<Rightarrow> ag\<lparr>ag_bases := dset d (colour, level) (ag_bases ag)\<rparr>)"

definition agent_lobby_world :: "('b, 's) view \<Rightarrow> 's agent \<Rightarrow> lobby_world" where
  "agent_lobby_world vw ag =
     \<lparr>lw_fixtures = dkeys (ag_fixtures ag),
      lw_bound = (\<lambda>n. if dmem n (ag_fixtures ag) then fixture_dev n else None),
      lw_now = vw_now vw, lw_pulse = vw_pulse vw\<rparr>"

text \<open>A call on a runtime: its new state, and what it emitted carried out.\<close>

definition lobby_call :: "('b, 's) view \<Rightarrow> (lobby_world \<Rightarrow> lobby_rt \<Rightarrow> lobby_rt) \<Rightarrow> lobby_rt \<Rightarrow> 's agent \<Rightarrow> lobby_rt \<times> 's agent" where
  "lobby_call vw f lb ag =
     (let lb' = f (agent_lobby_world vw ag) lb
      in (lb', fold (lobby_effect_now vw) (drop (length (lb_out lb)) (lb_out lb')) ag))"

definition with_lobby :: "('b, 's) view \<Rightarrow> (lobby_world \<Rightarrow> lobby_rt \<Rightarrow> lobby_rt) \<Rightarrow> 's agent \<Rightarrow> 's agent" where
  "with_lobby vw f ag =
     (case ag_lobby ag of
        None \<Rightarrow> ag
      | Some lb \<Rightarrow> (case lobby_call vw f lb ag of (lb', ag1) \<Rightarrow> ag1\<lparr>ag_lobby := Some lb'\<rparr>))"

definition sync_lobby_state :: "('b, 's) view \<Rightarrow> 's agent \<Rightarrow> 's agent" where
  "sync_lobby_state vw ag =
     (case lobby_state (vw_env vw) (vw_gs vw) of
        None \<Rightarrow> ag
      | Some st \<Rightarrow> with_lobby vw (set_lobby_state st) ag)"

definition bit_room_program :: "('b, 's) view \<Rightarrow> int option" where
  "bit_room_program vw =
     (case Option.bind (room_role_of vw) (\<lambda>r. dict_key (r_ugen_manifest r) ''instruments'') of
        Some (VList (i # _)) \<Rightarrow> (case dict_key i ''program'' of Some (VInt n) \<Rightarrow> Some n | _ \<Rightarrow> None)
      | _ \<Rightarrow> None)"

definition swap_fixture :: "('b, 's) view \<Rightarrow> (string, pyval) dict \<Rightarrow> string \<Rightarrow> 's agent \<Rightarrow> 's agent" where
  "swap_fixture vw m n ag =
     (case dget (ag_fixtures ag) n of
        None \<Rightarrow> ag
      | Some st \<Rightarrow> put_fixture n (st\<lparr>fs_session := lx_swap (vw_lux vw) m (fs_session st)\<rparr>) ag)"

definition validated_devs :: "('b, 's) view \<Rightarrow> dev list" where
  "validated_devs vw = (case e_registration (vw_gs vw) of None \<Rightarrow> [] | Some reg \<Rightarrow> dkeys (rg_validated reg))"

definition enter_lobby :: "('b, 's) view \<Rightarrow> 's agent \<Rightarrow> 's agent" where
  "enter_lobby vw ag =
     (if ag_lobby ag \<noteq> None \<or> ag_fixtures ag = [] \<or> e_room (vw_gs vw) = None \<or> \<not> lobby_enabled vw then ag
      else
        (let ag1 = fold (swap_fixture vw lobby_light_manifest) (dkeys (ag_fixtures ag)) ag;
             lb = new_lobby (vw_invite_interval vw) (vw_ceremony_gap vw) (bit_room_program vw) (vw_now vw)
         in sync_lobby_state vw (with_lobby vw lobby_start
              (ag1\<lparr>ag_lobby := Some lb, ag_lobby_known := validated_devs vw\<rparr>))))"

text \<open>\<open>_bit_fixture_light\<close>: the outer \<open>None\<close> is an exception.\<close>

definition bit_fixture_light :: "('b, 's) view \<Rightarrow> 's agent \<Rightarrow> string \<Rightarrow> (string, pyval) dict option option" where
  "bit_fixture_light vw ag n =
     (case room_role_of vw of
        None \<Rightarrow> Some None
      | Some ro \<Rightarrow>
          (case (room_light vw ro, ag_profile ag) of
             (Some l, Some p) \<Rightarrow> map_option Some (slice_light_manifest l p n)
           | _ \<Rightarrow> None))"

definition restore_fixture :: "('b, 's) view \<Rightarrow> string \<Rightarrow> 's phase" where
  "restore_fixture vw n ag =
     (case bit_fixture_light vw ag n of
        None \<Rightarrow> (ag, True)
      | Some None \<Rightarrow> (ag, False)
      | Some (Some l) \<Rightarrow> (swap_fixture vw l n ag, False))"

definition exit_lobby :: "('b, 's) view \<Rightarrow> bool \<Rightarrow> 's phase" where
  "exit_lobby vw restore ag =
     (let ag1 = ag\<lparr>ag_lobby := None, ag_draining := (if restore then ag_draining ag else None)\<rparr>
      in case ag_lobby ag of
           None \<Rightarrow> (ag1, False)
         | Some lb \<Rightarrow>
             (case lobby_call vw lobby_stop lb ag1 of
                (lb', ag2) \<Rightarrow>
                  (let ag3 = ag2\<lparr>ag_draining := (if restore \<and> draining lb' then Some lb' else None)\<rparr>
                   in if restore then for_each (restore_fixture vw) (dkeys (ag_fixtures ag3)) ag3 else (ag3, False))))"

definition flash_fixture :: "('b, 's) view \<Rightarrow> rgb \<Rightarrow> rat \<Rightarrow> string \<Rightarrow> 's phase" where
  "flash_fixture vw colour t n ag =
     (case fixture_dev n of
        None \<Rightarrow> (ag, True)
      | Some d \<Rightarrow>
          (ag\<lparr>ag_light_cues := tq_push (Some (Fin t)) (Flash d colour t) (vw_now vw) (ag_light_cues ag)\<rparr>, False))"

definition flash_fixtures_now :: "('b, 's) view \<Rightarrow> rgb \<Rightarrow> nat \<Rightarrow> 's phase" where
  "flash_fixtures_now vw colour k ag =
     (if e_room (vw_gs vw) = None then (ag, False)
      else for_each (\<lambda>i ag'. for_each
              (flash_fixture vw colour (vw_now vw + of_nat i * (FIXTURE_FLASH_ON_S + FIXTURE_FLASH_GAP_S)))
              (dkeys (ag_fixtures ag')) ag') [0..<k] ag)"

subsection \<open>Invites\<close>

definition handshake_candidates :: "('b, 's) view \<Rightarrow> 's agent \<Rightarrow> dev list" where
  "handshake_candidates vw ag =
     (let gs = vw_gs vw;
          joined = (case e_registration gs of None \<Rightarrow> [] | Some reg \<Rightarrow> dkeys (rg_assignments reg) @ dkeys (rg_validated reg))
      in filter (\<lambda>d. d \<notin> set joined \<and> d \<notin> set (bound_devs gs) \<and> \<not> dmem d (ag_closing ag))
           (map di_dev (pool_all (e_devices gs))))"

definition invite_one :: "('b, 's) view \<Rightarrow> string \<Rightarrow> dev \<Rightarrow> 's agent \<Rightarrow> 's agent" where
  "invite_one vw rid d ag =
     (case invite_due d (vw_now vw) (ag_handshakes ag) of
        (False, _) \<Rightarrow> ag
      | (True, iv) \<Rightarrow> tell d (M_Handshake rid) (ag\<lparr>ag_handshakes := iv\<rparr>))"

definition tick_handshakes :: "('b, 's) view \<Rightarrow> 's phase" where
  "tick_handshakes vw ag =
     (let gs = vw_gs vw
      in case (e_round_id gs, e_registration gs) of
           (Some rid, Some _) \<Rightarrow>
             if e_state gs \<noteq> SETUP \<or> lobby_state (vw_env vw) gs = Some FULL then (ag, False)
             else (case default_scored_node (vw_env vw) gs of
                     Raised \<Rightarrow> (ag, True)
                   | Ret None \<Rightarrow> (ag, False)
                   | Ret (Some _) \<Rightarrow> (fold (invite_one vw rid) (handshake_candidates vw ag) ag, False))
         | _ \<Rightarrow> (ag, False))"

definition tick_draining :: "('b, 's) view \<Rightarrow> 's agent \<Rightarrow> 's agent" where
  "tick_draining vw ag =
     (case ag_draining ag of
        None \<Rightarrow> ag
      | Some lb \<Rightarrow>
          (case lobby_call vw lobby_tick lb ag of
             (lb', ag1) \<Rightarrow> ag1\<lparr>ag_draining := (if draining lb' then Some lb' else None)\<rparr>))"

definition tick_lobby :: "('b, 's) view \<Rightarrow> 's phase" where
  "tick_lobby vw ag =
     (let ag1 = tick_draining vw ag
      in if ag_lobby ag1 = None then (ag1, False)
         else case default_scored_node (vw_env vw) (vw_gs vw) of
                Raised \<Rightarrow> (ag1, True)
              | Ret n \<Rightarrow>
                  (with_lobby vw lobby_tick
                     (if n = None then ag1
                      else fold (\<lambda>d. with_lobby vw (consider_invite d)) (handshake_candidates vw ag1) ag1), False))"

definition enter_setup :: "('b, 's) view \<Rightarrow> 's agent \<Rightarrow> 's agent" where
  "enter_setup vw ag = enter_lobby vw (ag\<lparr>ag_handshakes := new_invites (vw_invite_interval vw)\<rparr>)"

subsection \<open>The Room snapshot\<close>

definition node_view :: "registration \<Rightarrow> node \<times> string list \<Rightarrow> pyval option" where
  "node_view reg e =
     (case e of (n, names) \<Rightarrow>
        (let roles = List.map_filter (dget (roles_of reg)) names
         in case roles of
              [] \<Rightarrow> None
            | r # _ \<Rightarrow>
                if list_ex (\<lambda>x. r_class x = CLASS_ROOM) roles then None
                else
                  (case (case dget (counts reg) (r_name r) of None \<Rightarrow> (0, None) | Some x \<Rightarrow> x) of
                     (k, cap) \<Rightarrow>
                       Some (VDict [(''id'', VStr n), (''roles'', VList (map (\<lambda>x. VStr (r_name x)) roles)),
                          (''scored'', VBool (r_scored r)), (''count'', VInt k),
                          (''capacity'', case cap of None \<Rightarrow> VNone | Some c \<Rightarrow> VInt c)]))))"

fun state_name :: "gs_state \<Rightarrow> string" where
  "state_name IDLE = ''IDLE''"
| "state_name LOADING = ''LOADING''"
| "state_name LOADED = ''LOADED''"
| "state_name SETUP = ''SETUP''"
| "state_name RUNNING = ''RUNNING''"
| "state_name COMPLETING = ''COMPLETING''"
| "state_name UNLOADING = ''UNLOADING''"

definition room_blob :: "('b, 's) view \<Rightarrow> (string, pyval) dict" where
  "room_blob vw =
     (let gs = vw_gs vw
      in [(''state'', VStr (state_name (e_state gs))),
          (''bit'', case (e_bit gs, e_bit_name gs) of (Some _, Some n) \<Rightarrow> VStr n | _ \<Rightarrow> VNone),
          (''version'', case e_bit gs of None \<Rightarrow> VNone | Some b \<Rightarrow> VStr (v_version (vw_env vw) b)),
          (''nodes'', VList (case (e_registration gs, e_bit gs) of
             (Some reg, Some _) \<Rightarrow> List.map_filter (node_view reg) (rt_node_map (rg_table reg))
           | _ \<Rightarrow> []))])"

definition broadcast_room :: "('b, 's) view \<Rightarrow> 's agent \<Rightarrow> 's agent" where
  "broadcast_room vw ag =
     fold (\<lambda>info. tell (di_dev info) (M_Room (room_blob vw))) (pool_all (e_devices (vw_gs vw))) ag"

subsection \<open>What the engine tells its observers\<close>

definition agent_state_change :: "('b, 's) view \<Rightarrow> gs_state \<Rightarrow> 's phase" where
  "agent_state_change vw new =
     and_then (\<lambda>ag. (broadcast_room vw ag, False))
    (and_then (\<lambda>ag. if new = SETUP \<and> ag_fixtures ag = [] then setup_room vw ag else (ag, False))
    (and_then (\<lambda>ag. if new \<in> {LOADED, IDLE} then setup_room vw ag else (ag, False))
    (and_then (\<lambda>ag. if new = SETUP then (enter_setup vw ag, False)
                    else if new = RUNNING then exit_lobby vw True ag
                    else if new \<in> {UNLOADING, IDLE, LOADED} then exit_lobby vw False ag
                    else (ag, False))
       (\<lambda>ag.
          (let ag1 = (if new = SETUP then ag else ag\<lparr>ag_handshakes := invite_clear (ag_handshakes ag)\<rparr>);
               ag2 = (if new = UNLOADING then ag1\<lparr>ag_room_cues := new_tqueue, ag_light_cues := new_tqueue\<rparr> else ag1)
           in (if \<not> ag_audio ag2 \<or> e_room (vw_gs vw) = None then ag2
               else if new = RUNNING then says (map A_Drone_On (ag_audio_fixtures ag2)) ag2
               else if new = UNLOADING then says (map A_Drone_Off (ag_audio_fixtures ag2)) ag2
               else ag2, False))))))"

definition celebrate :: "('b, 's) view \<Rightarrow> dev \<Rightarrow> 's agent \<Rightarrow> 's agent" where
  "celebrate vw d ag =
     with_lobby vw (on_scored_join d) (says [Lobby_Notice ''handshake'' d] (with_lobby vw (\<lambda>_. lobby_forget d) ag))"

definition agent_registration_change :: "('b, 's) view \<Rightarrow> 's agent \<Rightarrow> 's agent" where
  "agent_registration_change vw ag =
     (let ag1 = broadcast_room vw ag;
          valid = validated_devs vw;
          ag2 = ag1\<lparr>ag_handshakes := fold invite_forget valid (ag_handshakes ag1)\<rparr>
      in if ag_lobby ag2 = None then ag2
         else sync_lobby_state vw
           ((fold (celebrate vw) (filter (\<lambda>d. d \<notin> set (ag_lobby_known ag2)) valid) ag2)\<lparr>ag_lobby_known := valid\<rparr>))"

definition on_start_requested :: "('b, 's) view \<Rightarrow> feedback \<Rightarrow> 's phase" where
  "on_start_requested vw fb ag =
     (if fb = FEEDBACK_ACCEPT
      then if lobby_enabled vw then flash_fixtures_now vw GREEN 2 ag else (ag, False)
      else (with_lobby vw (lobby_feedback fb) ag, False))"

subsection \<open>A Room that leaves\<close>

definition forget_fixture_dev :: "dev \<Rightarrow> 's agent \<Rightarrow> 's agent" where
  "forget_fixture_dev d ag =
     ag\<lparr>ag_overrides := dpop d (ag_overrides ag), ag_flashes := dpop d (ag_flashes ag),
        ag_override_only := drop_key d (ag_override_only ag), ag_bases := dpop d (ag_bases ag),
        ag_last_frames := dpop d (ag_last_frames ag)\<rparr>"

definition unwire_room :: "('b, 's) view \<Rightarrow> 's phase" where
  "unwire_room vw ag =
     (case exit_lobby vw False ag of
        (ag1, True) \<Rightarrow> (ag1, True)
      | (ag1, False) \<Rightarrow>
          (let ag2 = (close_outputs ag1)\<lparr>ag_outputs_key := None\<rparr>
           in case all_some (map fixture_dev (dkeys (ag_fixtures ag2))) of
                None \<Rightarrow> (ag2, True)
              | Some tokens \<Rightarrow>
                  (let gone = remdups (List.map_filter fs_last_dev (map snd (ag_fixtures ag2)) @ bound_devs (vw_gs vw) @ tokens);
                       ag3 = fold forget_fixture_dev gone ag2;
                       ag4 = ag3\<lparr>ag_muted := filter (\<lambda>k. k \<notin> set tokens) (ag_muted ag3)\<rparr>;
                       ag5 = (if ag_audio ag4
                              then (says (concat (map (\<lambda>n. [A_Drone_Off n, A_Release n]) (ag_audio_fixtures ag4))) ag4)
                                     \<lparr>ag_audio_fixtures := []\<rparr>
                              else ag4)
                   in (ag5\<lparr>ag_ambient_start := None, ag_fixtures := [], ag_profile := None, ag_room_cues := new_tqueue,
                          ag_light_cues := new_tqueue, ag_warned_play := [], ag_links := monitor_clear (ag_links ag5),
                          ag_link_marks := []\<rparr>, False))))"

end
