(* ===== verification/Device_Protocol.thy ===== *)
theory Device_Protocol
  imports Shroom_Client
begin

section \<open>Messages to and from devices\<close>

text \<open>
  The event builders and the argument parsers of \<open>src/devicelink/protocol.py\<close>, and its telemetry half: splitting
  a producer's batch into wire batches and reading one back. What a batch weighs on the wire (\<open>wire_json\<close>, UTF-8)
  and base64 are parameters; the texts of the \<open>ValueError\<close>s are left out.
\<close>

subsection \<open>Events\<close>

definition event :: "dev \<Rightarrow> string \<Rightarrow> string \<Rightarrow> pyval list \<Rightarrow> pyfloat \<Rightarrow> pyval" where
  "event d kind typespec args t =
     encode \<lparr>ev_timestamp = t, ev_address = ''/'' @ d @ ''/'' @ kind, ev_typespec = typespec, ev_args = args\<rparr>"

definition role_event :: "dev \<Rightarrow> (string, pyval) dict \<Rightarrow> pyval" where
  "role_event d config = event d ''role'' ''b'' [VDict config] (Fin 0)"

definition deny_event :: "dev \<Rightarrow> string option \<Rightarrow> string option \<Rightarrow> pyval" where
  "deny_event d why hint =
     event d ''deny'' ''ss'' [VStr (case why of None \<Rightarrow> [] | Some w \<Rightarrow> w), VStr (case hint of None \<Rightarrow> [] | Some h \<Rightarrow> h)] (Fin 0)"

definition handshake_event :: "dev \<Rightarrow> string \<Rightarrow> pyval" where
  "handshake_event d rid = event d ''handshake'' ''s'' [VStr rid] (Fin 0)"

definition validated_event :: "dev \<Rightarrow> string \<Rightarrow> string \<Rightarrow> pyval" where
  "validated_event d rid role_name = event d ''validated'' ''ss'' [VStr rid, VStr role_name] (Fin 0)"

definition beat_event :: "dev \<Rightarrow> int \<Rightarrow> string \<Rightarrow> pyval" where
  "beat_event d seq epoch = event d ''beat'' ''is'' [VInt seq, VStr epoch] (Fin 0)"

definition blob_value :: "byte list \<Rightarrow> pyval" where
  "blob_value bs = VList (map (\<lambda>b. VInt (uint b)) bs)"

text \<open>\<open>None\<close> is the \<open>ValueError\<close> of a frame that is no whole number of pixels.\<close>

definition leds_event :: "dev \<Rightarrow> int list \<Rightarrow> pyfloat \<Rightarrow> pyval option" where
  "leds_event d frame t = map_option (\<lambda>blob. event d ''leds'' ''b'' [blob_value blob] t) (rgb_blob frame)"

definition release_event :: "dev \<Rightarrow> pyval" where
  "release_event d = event d ''release'' '''' [] (Fin 0)"

definition error_event :: "dev \<Rightarrow> string \<Rightarrow> string \<Rightarrow> pyval" where
  "error_event d context_name message = event d ''error'' ''ss'' [VStr context_name, VStr message] (Fin 0)"

definition play_event :: "dev \<Rightarrow> string \<Rightarrow> string \<Rightarrow> pyval" where
  "play_event d name params = event d ''play'' ''ss'' [VStr name, VStr params] (Fin 0)"

definition room_event :: "dev \<Rightarrow> (string, pyval) dict \<Rightarrow> pyval" where
  "room_event d blob = event d ''room'' ''b'' [VDict blob] (Fin 0)"

subsection \<open>Arguments of what devices send\<close>

definition CANVAS_SCHEMES :: "string list" where "CANVAS_SCHEMES = [''http://'', ''https://'']"

definition parse_canvas_url :: "pyval list \<Rightarrow> string option" where
  "parse_canvas_url args =
     (case args of
        _ # VStr url # _ \<Rightarrow> if list_ex (\<lambda>s. starts_with s url) CANVAS_SCHEMES then Some url else None
      | _ \<Rightarrow> None)"

fun non_negative_int :: "pyval \<Rightarrow> int option" where
  "non_negative_int (VInt n) = (if 0 \<le> n then Some n else None)"
| "non_negative_int _ = None"

definition parse_beat_args :: "pyval list \<Rightarrow> (dev \<times> int \<times> int) option" where
  "parse_beat_args args =
     (case args of
        [VStr d, s] \<Rightarrow> map_option (\<lambda>n. (d, n, 0)) (non_negative_int s)
      | [VStr d, s, r] \<Rightarrow>
          (case (non_negative_int s, non_negative_int r) of (Some n, Some m) \<Rightarrow> Some (d, n, m) | _ \<Rightarrow> None)
      | _ \<Rightarrow> None)"

definition parse_handshake_args :: "pyval list \<Rightarrow> (dev \<times> string \<times> string) option" where
  "parse_handshake_args args = (case args of [VStr d, VStr rid, VStr n] \<Rightarrow> Some (d, rid, n) | _ \<Rightarrow> None)"

subsection \<open>Telemetry\<close>

definition MOTION_AXES :: "string list" where
  "MOTION_AXES = [''ax'', ''ay'', ''az'', ''gx'', ''gy'', ''gz'']"

definition O2_MAX_MSG_LEN :: nat where "O2_MAX_MSG_LEN = 4096"
definition TELEMETRY_BLOB_BUDGET :: nat where "TELEMETRY_BLOB_BUDGET = O2_MAX_MSG_LEN - 128"

record telemetry =
  tm_capture_id :: string
  tm_seq :: int
  tm_t_ms :: "pyfloat list"
  tm_axes :: "(string, pyfloat list) dict"
  tm_pcm :: "byte list"
  tm_pcm_t0 :: "pyfloat option"

text \<open>\<open>xs[lo:hi]\<close> for \<open>lo \<le> hi\<close>.\<close>

definition part_of :: "nat \<Rightarrow> nat \<Rightarrow> 'a list \<Rightarrow> 'a list" where
  "part_of lo hi xs = take (hi - lo) (drop lo xs)"

definition telemetry_chunk :: "rat \<Rightarrow> int \<Rightarrow> nat \<Rightarrow> telemetry \<Rightarrow> nat \<Rightarrow> telemetry" where
  "telemetry_chunk rate first_seq parts body i =
     (let n = length (tm_t_ms body); frames = length (tm_pcm body) div 2;
          lo = n * i div parts; hi = n * (i + 1) div parts;
          flo = frames * i div parts; fhi = frames * (i + 1) div parts
      in \<lparr>tm_capture_id = tm_capture_id body, tm_seq = first_seq + int i, tm_t_ms = part_of lo hi (tm_t_ms body),
          tm_axes = map (\<lambda>(a, xs). (a, part_of lo hi xs)) (tm_axes body),
          tm_pcm = (if flo < fhi then part_of (flo * 2) (fhi * 2) (tm_pcm body) else []),
          tm_pcm_t0 = (if flo < fhi then map_option (fadd (Fin (of_nat flo * 1000 / rate))) (tm_pcm_t0 body) else None)\<rparr>)"

definition telemetry_chunks :: "rat \<Rightarrow> int \<Rightarrow> telemetry \<Rightarrow> nat \<Rightarrow> telemetry list" where
  "telemetry_chunks rate first_seq body parts = map (telemetry_chunk rate first_seq parts body) [0..<parts]"

fun chunk_search :: "(telemetry \<Rightarrow> nat) \<Rightarrow> nat \<Rightarrow> (nat \<Rightarrow> telemetry list) \<Rightarrow> nat list \<Rightarrow> telemetry list option" where
  "chunk_search weigh budget chunks [] = None"
| "chunk_search weigh budget chunks (parts # rest) =
     (if list_all (\<lambda>c. weigh c \<le> budget) (chunks parts) then Some (chunks parts) else chunk_search weigh budget chunks rest)"

definition chunk_telemetry_batch ::
  "(telemetry \<Rightarrow> nat) \<Rightarrow> rat \<Rightarrow> nat \<Rightarrow> int \<Rightarrow> telemetry \<Rightarrow> telemetry list option" where
  "chunk_telemetry_batch weigh rate budget first_seq body =
     (let n = length (tm_t_ms body)
      in if n = 0 \<or> tm_pcm_t0 body = None \<and> 2 \<le> length (tm_pcm body) then None
         else chunk_search weigh budget (telemetry_chunks rate first_seq body) [1..<n + 1])"

fun number_of :: "pyval \<Rightarrow> pyfloat option" where
  "number_of (VInt n) = Some (Fin (of_int n))"
| "number_of (VFloat x) = Some x"
| "number_of _ = None"

fun numbers_of :: "pyval list \<Rightarrow> pyfloat list option" where
  "numbers_of [] = Some []"
| "numbers_of (v # vs) =
     (case number_of v of None \<Rightarrow> None | Some x \<Rightarrow> map_option (\<lambda>xs. x # xs) (numbers_of vs))"

definition number_list :: "pyval option \<Rightarrow> nat option \<Rightarrow> pyfloat list option" where
  "number_list v want =
     (case v of
        Some (VList vs) \<Rightarrow>
          if (case want of None \<Rightarrow> False | Some n \<Rightarrow> length vs \<noteq> n) then None else numbers_of vs
      | _ \<Rightarrow> None)"

text \<open>The outer \<open>None\<close> is the \<open>ValueError\<close>.\<close>

definition decode_pcm :: "(string \<Rightarrow> byte list option) \<Rightarrow> (string, pyval) dict \<Rightarrow> (byte list \<times> pyfloat option) option" where
  "decode_pcm b64 body =
     (case dget body ''pcm'' of
        None \<Rightarrow> Some ([], None)
      | Some VNone \<Rightarrow> Some ([], None)
      | Some (VStr raw) \<Rightarrow>
          (case b64 raw of
             None \<Rightarrow> None
           | Some pcm \<Rightarrow>
               if odd (length pcm) then None
               else map_option (\<lambda>t. (pcm, Some t)) (Option.bind (dget body ''pcm_t0_ms'') number_of))
      | Some _ \<Rightarrow> None)"

fun decode_axes :: "(string, pyval) dict \<Rightarrow> nat \<Rightarrow> string list \<Rightarrow> (string, pyfloat list) dict option" where
  "decode_axes body n [] = Some []"
| "decode_axes body n (a # rest) =
     (case number_list (dget body a) (Some n) of
        None \<Rightarrow> None
      | Some xs \<Rightarrow> map_option (\<lambda>d. (a, xs) # d) (decode_axes body n rest))"

fun drops :: "pyfloat list \<Rightarrow> bool" where
  "drops (a # b # rest) = (flt b a \<or> drops (b # rest))"
| "drops _ = False"

definition decode_telemetry_batch :: "(string \<Rightarrow> byte list option) \<Rightarrow> pyval list \<Rightarrow> telemetry option" where
  "decode_telemetry_batch b64 args =
     (case args of
        _ # _ # VDict body # _ \<Rightarrow>
          (case (dget body ''capture_id'', Option.bind (dget body ''seq'') non_negative_int, number_list (dget body ''t_ms'') None) of
             (Some (VStr cid), Some seq, Some ts) \<Rightarrow>
               if cid = [] \<or> ts = [] \<or> drops ts then None
               else
                 (case (decode_axes body (length ts) MOTION_AXES, decode_pcm b64 body) of
                    (Some axes, Some (pcm, t0)) \<Rightarrow>
                      Some \<lparr>tm_capture_id = cid, tm_seq = seq, tm_t_ms = ts, tm_axes = axes, tm_pcm = pcm, tm_pcm_t0 = t0\<rparr>
                  | _ \<Rightarrow> None)
           | _ \<Rightarrow> None)
      | _ \<Rightarrow> None)"

subsection \<open>Capture commands\<close>

definition CAPTURE_ACTIONS :: "string list" where "CAPTURE_ACTIONS = [''open'', ''close'', ''abandon'']"

definition REQUIRED_SOURCE_KEYS :: "string list" where
  "REQUIRED_SOURCE_KEYS =
     [''client'', ''app_version'', ''platform'', ''device_model'', ''motion_stream'', ''gravity_included'', ''requested_hz'', ''units'']"

definition label_char :: "char \<Rightarrow> bool" where
  "label_char c \<longleftrightarrow>
     (let n = (of_char c :: nat)
      in (65 \<le> n \<and> n \<le> 90) \<or> (97 \<le> n \<and> n \<le> 122) \<or> (48 \<le> n \<and> n \<le> 57) \<or> c = CHR ''_'' \<or> c = CHR ''-'')"

definition valid_open :: "(string, pyval) dict \<Rightarrow> bool" where
  "valid_open meta \<longleftrightarrow>
     (case dget meta ''label'' of Some (VStr l) \<Rightarrow> l \<noteq> [] \<and> list_all label_char l | _ \<Rightarrow> False)
     \<and> (case dget meta ''series'' of Some (VInt _) \<Rightarrow> True | _ \<Rightarrow> False)
     \<and> (case Option.bind (dget meta ''window_ms'') number_of of None \<Rightarrow> False | Some w \<Rightarrow> \<not> fle w (Fin 0))
     \<and> Option.bind (dget meta ''t0'') number_of \<noteq> None
     \<and> (case dget meta ''source'' of Some (VDict s) \<Rightarrow> list_all (\<lambda>k. dmem k s) REQUIRED_SOURCE_KEYS | _ \<Rightarrow> False)"

definition decode_capture_command :: "pyval list \<Rightarrow> (string \<times> string \<times> (string, pyval) dict) option" where
  "decode_capture_command args =
     (case args of
        _ # VStr act # VDict meta # _ \<Rightarrow>
          if act \<notin> set CAPTURE_ACTIONS then None
          else (case dget meta ''capture_id'' of
                  Some (VStr cid) \<Rightarrow>
                    if cid = [] \<or> act = ''open'' \<and> \<not> valid_open meta then None else Some (act, cid, meta)
                | _ \<Rightarrow> None)
      | _ \<Rightarrow> None)"

subsection \<open>Splitting loses nothing\<close>

lemma concat_parts:
  assumes "mono h" and "h 0 = 0"
  shows "concat (map (\<lambda>i. part_of (h i) (h (Suc i)) xs) [0..<p]) = take (h p) xs"
proof (induction p)
  case (Suc p)
  have "h p \<le> h (Suc p)" using assms(1) by (simp add: monoD)
  then have "take (h (Suc p)) xs = take (h p) xs @ part_of (h p) (h (Suc p)) xs"
    by (metis le_add_diff_inverse part_of_def take_add)
  then show ?case using Suc by simp
qed (simp add: assms)

lemma mono_share: "mono (\<lambda>i. n * i div (p :: nat))"
  by (simp add: div_le_mono monoI)

lemma shares_cover: "0 < p \<Longrightarrow> concat (map (\<lambda>i. part_of (n * i div p) (n * (i + 1) div p) xs) [0..<p]) = take n xs"
  using concat_parts [OF mono_share, of n p xs p] by simp

lemma share_nonempty: "0 < p \<Longrightarrow> p \<le> n \<Longrightarrow> n * i div p < n * (i + 1) div (p :: nat)"
proof -
  assume p: "0 < p" "p \<le> n"
  have "n * i div p + 1 = (n * i + p) div p" using p by simp
  also have "\<dots> \<le> n * (i + 1) div p" using p by (intro div_le_mono) simp
  finally show ?thesis by simp
qed

lemma double_part: "part_of (lo * 2) (hi * 2) xs = (if lo < hi then part_of (lo * 2) (hi * 2) xs else [])"
  by (simp add: part_of_def)

lemma chunk_search_some:
  "chunk_search weigh budget chunks ps = Some cs \<Longrightarrow>
     \<exists>parts \<in> set ps. cs = chunks parts \<and> list_all (\<lambda>c. weigh c \<le> budget) cs"
  by (induction ps) (auto split: if_splits)

lemma chunk_search_none:
  "chunk_search weigh budget chunks ps = None \<Longrightarrow> parts \<in> set ps \<Longrightarrow> \<not> list_all (\<lambda>c. weigh c \<le> budget) (chunks parts)"
  by (induction ps) (auto split: if_splits)

lemma chunks_t_ms: "0 < p \<Longrightarrow> concat (map tm_t_ms (telemetry_chunks rate s body p)) = tm_t_ms body"
  using shares_cover [of p "length (tm_t_ms body)" "tm_t_ms body"]
  by (simp add: telemetry_chunks_def telemetry_chunk_def Let_def comp_def)

lemma chunks_pcm:
  assumes "0 < p"
  shows "concat (map tm_pcm (telemetry_chunks rate s body p)) = take (length (tm_pcm body) div 2 * 2) (tm_pcm body)"
proof -
  let ?f = "length (tm_pcm body) div 2"
  have m: "mono (\<lambda>i. ?f * i div p * 2)" using mono_share [of ?f p] by (auto simp: mono_def)
  have "map tm_pcm (telemetry_chunks rate s body p)
      = map (\<lambda>i. part_of (?f * i div p * 2) (?f * Suc i div p * 2) (tm_pcm body)) [0..<p]"
    by (simp add: telemetry_chunks_def telemetry_chunk_def Let_def double_part [symmetric])
  then show ?thesis using concat_parts [OF m, of "tm_pcm body" p] assms by simp
qed

lemma chunks_axis:
  assumes "0 < p" and "dget (tm_axes body) a = Some xs" and "length xs = length (tm_t_ms body)"
  shows "concat (map (\<lambda>c. the (dget (tm_axes c) a)) (telemetry_chunks rate s body p)) = xs"
proof -
  have m: "dget (map (\<lambda>(a, xs). (a, g xs)) d) a = map_option g (dget d a)" for g and d :: "(string, pyfloat list) dict"
    by (induction d) auto
  show ?thesis using shares_cover [of p "length xs" xs] assms
    by (simp add: telemetry_chunks_def telemetry_chunk_def Let_def comp_def m)
qed

lemma chunks_nonempty:
  assumes "0 < p" and "p \<le> length (tm_t_ms body)" and "c \<in> set (telemetry_chunks rate s body p)"
  shows "tm_t_ms c \<noteq> []"
proof -
  let ?n = "length (tm_t_ms body)"
  obtain i where i: "i < p" "c = telemetry_chunk rate s p body i"
    using assms(3) by (auto simp: telemetry_chunks_def)
  have "?n * i div p < ?n * (i + 1) div p" using share_nonempty assms by blast
  moreover have "?n * (i + 1) div p \<le> ?n"
    using div_le_mono [OF mult_le_mono2 [of "i + 1" p ?n], of p] i assms(1) by simp
  ultimately show ?thesis by (simp add: i(2) telemetry_chunk_def Let_def part_of_def)
qed

text \<open>
  C13: Splitting a telemetry batch loses nothing. Every chunk fits the budget and carries a sample, the sequence
  numbers count on from the first, and the times, every axis and the audio of the chunks put together are those
  of the batch (whole audio frames).
\<close>
theorem telemetry_chunks_lose_nothing:
  assumes "chunk_telemetry_batch weigh rate budget s body = Some cs"
  shows "concat (map tm_t_ms cs) = tm_t_ms body
    \<and> (\<forall>a xs. dget (tm_axes body) a = Some xs \<longrightarrow> length xs = length (tm_t_ms body) \<longrightarrow>
          concat (map (\<lambda>c. the (dget (tm_axes c) a)) cs) = xs)
    \<and> concat (map tm_pcm cs) = take (length (tm_pcm body) div 2 * 2) (tm_pcm body)
    \<and> map tm_seq cs = map (\<lambda>i. s + int i) [0..<length cs]
    \<and> (\<forall>c \<in> set cs. weigh c \<le> budget \<and> tm_t_ms c \<noteq> [])"
proof -
  from assms have "chunk_search weigh budget (telemetry_chunks rate s body) [1..<length (tm_t_ms body) + 1] = Some cs"
    by (simp add: chunk_telemetry_batch_def Let_def split: if_splits)
  from chunk_search_some [OF this] obtain p where p: "0 < p" "p \<le> length (tm_t_ms body)"
    and cs: "cs = telemetry_chunks rate s body p" "list_all (\<lambda>c. weigh c \<le> budget) cs"
    by (metis One_nat_def Suc_eq_plus1 atLeastLessThan_iff less_Suc_eq_le less_eq_Suc_le set_upt)
  have "map tm_seq cs = map (\<lambda>i. s + int i) [0..<length cs]"
    by (simp add: cs(1) telemetry_chunks_def telemetry_chunk_def Let_def)
  then show ?thesis
    using chunks_t_ms [OF p(1)] chunks_pcm [OF p(1)] chunks_axis [OF p(1)] chunks_nonempty [OF p] cs
    by (auto simp: list_all_iff)
qed

definition demo_batch :: telemetry where
  "demo_batch = \<lparr>tm_capture_id = ''c'', tm_seq = 0, tm_t_ms = [Fin 0, Fin 10, Fin 20], tm_axes = [(''ax'', [Fin 1, Fin 2, Fin 3])],
     tm_pcm = [1, 2, 3, 4], tm_pcm_t0 = Some (Fin 5)\<rparr>"

lemma telemetry_chunks_lose_nothing_witness:
  "\<exists>cs. chunk_telemetry_batch (\<lambda>c. length (tm_t_ms c)) 16000 2 7 demo_batch = Some cs
     \<and> concat (map tm_t_ms cs) = [Fin 0, Fin 10, Fin 20] \<and> map tm_seq cs = [7, 8]"
proof -
  have c: "chunk_telemetry_batch (\<lambda>c. length (tm_t_ms c)) 16000 2 7 demo_batch
      = Some (telemetry_chunks 16000 7 demo_batch 2)"
    by code_simp
  have "length (telemetry_chunks 16000 7 demo_batch 2) = 2" by (simp add: telemetry_chunks_def)
  with telemetry_chunks_lose_nothing [OF c]
  have "concat (map tm_t_ms (telemetry_chunks 16000 7 demo_batch 2)) = tm_t_ms demo_batch"
    "map tm_seq (telemetry_chunks 16000 7 demo_batch 2) = map (\<lambda>i. 7 + int i) [0..<2]" by (elim conjE; simp)+
  then show ?thesis using c by (simp add: demo_batch_def upt_rec)
qed

text \<open>
  A batch that can be split is split: the producer is only turned away when a chunk of a single sample is too
  heavy.
\<close>
theorem a_light_batch_is_split:
  assumes "tm_t_ms body \<noteq> []" and "tm_pcm_t0 body \<noteq> None"
    and "\<forall>i < length (tm_t_ms body). weigh (telemetry_chunk rate s (length (tm_t_ms body)) body i) \<le> budget"
  shows "chunk_telemetry_batch weigh rate budget s body \<noteq> None"
proof
  let ?n = "length (tm_t_ms body)"
  assume "chunk_telemetry_batch weigh rate budget s body = None"
  then have n: "chunk_search weigh budget (telemetry_chunks rate s body) [1..<?n + 1] = None"
    using assms by (auto simp: chunk_telemetry_batch_def Let_def split: if_splits)
  have "?n \<in> set [1..<?n + 1]" using assms(1) by (cases "tm_t_ms body") auto
  from chunk_search_none [OF n this] assms(3) show False by (auto simp: telemetry_chunks_def list_all_iff)
qed

lemma a_light_batch_is_split_witness: "chunk_telemetry_batch (\<lambda>_. 0) 16000 2 7 demo_batch \<noteq> None"
  by (rule a_light_batch_is_split) (simp_all add: demo_batch_def)

text \<open>
  A batch whose times are not numbers is accepted: the check that times do not decrease lets NaN through.
\<close>
theorem nan_times_are_accepted:
  "decode_telemetry_batch (\<lambda>_. None) [VStr ''cap'', VInt 0, VDict ([(''capture_id'', VStr ''c''), (''seq'', VInt 0),
       (''t_ms'', VList [VInt 5, VFloat NaN, VInt 1])] @ map (\<lambda>a. (a, VList [VInt 0, VInt 0, VInt 0])) MOTION_AXES)]
   = Some \<lparr>tm_capture_id = ''c'', tm_seq = 0, tm_t_ms = [Fin 5, NaN, Fin 1],
       tm_axes = map (\<lambda>a. (a, [Fin 0, Fin 0, Fin 0])) MOTION_AXES, tm_pcm = [], tm_pcm_t0 = None\<rparr>"
  by (simp add: decode_telemetry_batch_def MOTION_AXES_def number_list_def decode_pcm_def flt_def)

subsection \<open>What the simulated device makes of a frame\<close>

lemma ints_of_blob: "ints_of (map (\<lambda>b. VInt (uint b)) bs) = Some (map uint bs)"
  by (induction bs) simp_all

text \<open>
  A frame reaches the client. The event built for a frame as wide as the device is taken by the simulated device,
  which queues exactly the frame with its white folded in, for the time Control declared (0 is no time).
\<close>
theorem frames_reach_the_client:
  assumes "length frame = cl_expected cl" and "length frame mod CHANNELS_PER_PIXEL_WIRE = 0" and "isfinite t"
  shows "\<exists>msg. leds_event (cl_dev cl) frame t = Some msg
    \<and> handle msg cl = taken (cl\<lparr>cl_pending := bounded_append MAX_PENDING_FRAMES
        (if t = Fin 0 then None else Some t, unfold_blob (fold_frame (map to_byte frame))) (cl_pending cl)\<rparr>) []"
proof -
  let ?blob = "fold_frame (map to_byte frame)"
  have e: "leds_event (cl_dev cl) frame t = Some (event (cl_dev cl) ''leds'' ''b'' [blob_value ?blob] t)"
    using assms(2) by (simp add: leds_event_def rgb_blob_def)
  have d: "decode (event (cl_dev cl) ''leds'' ''b'' [blob_value ?blob] t)
      = Some \<lparr>ev_timestamp = t, ev_address = ''/'' @ cl_dev cl @ ''/'' @ ''leds'', ev_typespec = ''b'', ev_args = [blob_value ?blob]\<rparr>"
    using assms(3) by (simp add: event_def encode_def decode_def field_or_def)
  have l: "length ?blob = blob_channels (cl_expected cl)"
    using assms(1) by (simp add: length_fold_frame blob_channels_def CHANNELS_PER_PIXEL_WIRE_def BLOB_CHANNELS_PER_PIXEL_def)
  have a: "starts_with (''/'' @ cl_dev cl @ ''/'') (''/'' @ cl_dev cl @ ''/'' @ ''leds'')"
    using starts_with_append [of "''/'' @ cl_dev cl @ ''/''" "''leds''"] by simp
  have "handle (event (cl_dev cl) ''leds'' ''b'' [blob_value ?blob] t) cl
      = client_on_leds \<lparr>ev_timestamp = t, ev_address = ''/'' @ cl_dev cl @ ''/'' @ ''leds'', ev_typespec = ''b'',
          ev_args = [blob_value ?blob]\<rparr> cl"
    using a by (simp add: handle_def d handle_kind_def)
  then show ?thesis
    using e l by (simp add: client_on_leds_def blob_value_def ints_of_blob rgbw_from_blob_def comp_def)
qed

lemma frames_reach_the_client_witness:
  "\<exists>msg cl'. leds_event ''cap'' [10, 20, 30, 5] (Fin 2) = Some msg
     \<and> handle msg (new_client ''cap'' ''n'' 4 None) = taken cl' [] \<and> cl_pending cl' = [(Some (Fin 2), [15, 25, 35, 0])]"
proof -
  let ?cl = "new_client ''cap'' ''n'' 4 None"
  have "length [10, 20, 30, 5 :: int] = cl_expected ?cl" "length [10, 20, 30, 5 :: int] mod CHANNELS_PER_PIXEL_WIRE = 0"
    "isfinite (Fin 2)" by (simp_all add: new_client_def CHANNELS_PER_PIXEL_WIRE_def)
  from frames_reach_the_client [OF this] obtain msg where "leds_event (cl_dev ?cl) [10, 20, 30, 5] (Fin 2) = Some msg"
    "handle msg ?cl = taken (?cl\<lparr>cl_pending := [(Some (Fin 2), [15, 25, 35, 0])]\<rparr>) []"
    by (auto simp: new_client_def bounded_append_def MAX_PENDING_FRAMES_def to_byte_def fold_white_def)
  then show ?thesis
    by (intro exI [of _ msg] exI [of _ "?cl\<lparr>cl_pending := [(Some (Fin 2), [15, 25, 35, 0])]\<rparr>"]) (simp add: new_client_def)
qed

end
