(* ===== verification/Agent_Inbound.thy ===== *)
theory Agent_Inbound
  imports Agent_Room Device_Protocol
begin

section \<open>The device agent: what devices send, and the poll\<close>

text \<open>
  \<open>DeviceLinkAgent._handle\<close>, its handlers and \<open>poll\<close> (\<open>src/devicelink/agent.py\<close>). A handler that calls the
  engine is given the engine's part of the exchange: the sinks and notices the engine called back with, each with
  the view of its moment, and what the call returned.
\<close>

subsection \<open>The engine calls back\<close>

fun on_effect :: "('b, 's) view \<Rightarrow> effect \<Rightarrow> 's agent \<Rightarrow> 's agent" where
  "on_effect vw (SinkLight d status d1 d2 t) ag = on_light_cue vw d status d1 d2 (Some t) ag"
| "on_effect vw (SinkPlay d name params) ag = on_play_cue d name params ag"
| "on_effect vw (SinkMusic d status d1 d2 t tag) ag = on_music_cue vw d status d1 d2 (Some t) tag ag"
| "on_effect vw (SinkPurge d tag) ag = on_music_purge vw d tag ag"
| "on_effect vw (SinkSolid d colour level dur t) ag = on_solid_cue vw d colour level dur t ag"
| "on_effect vw (SinkFlash d pixel colour dur t) ag = on_pixel_flash vw d pixel colour dur t ag"
| "on_effect vw (SinkMute d muted) ag = on_mute_change vw d muted ag"
| "on_effect vw (SinkGrant d jr config) ag = on_grant vw d jr config ag"
| "on_effect vw (SinkRelease d) ag = on_release vw d ag"
| "on_effect vw (Notify (StateChange _ new)) ag = fst (agent_state_change vw new ag)"
| "on_effect vw (Notify RegistrationChange) ag = agent_registration_change vw ag"
| "on_effect vw (Notify (StartRequested _ _ _ _ fb)) ag = fst (on_start_requested vw fb ag)"
| "on_effect vw (Notify _) ag = ag"

type_synonym ('b, 's) calls = "(('b, 's) view \<times> effect) list"

definition callbacks :: "('b, 's) calls \<Rightarrow> 's agent \<Rightarrow> 's agent" where
  "callbacks cs ag = fold (\<lambda>(vw, eff). on_effect vw eff) cs ag"

record ('b, 's) answer =
  an_calls :: "('b, 's) calls"
  an_after :: "('b, 's) view"
  an_join :: "join_result option"
  an_start :: "start_reason option option"
  an_data :: "refusal option option"

subsection \<open>Handlers\<close>

definition MAX_DEV_LEN :: nat where "MAX_DEV_LEN = 31"

text \<open>\<open>bind_dev\<close> of the transport raises for a name that is no O2 service name; the message is dropped.\<close>

definition bindable :: "dev \<Rightarrow> bool" where
  "bindable d \<longleftrightarrow> d \<noteq> [] \<and> length d \<le> MAX_DEV_LEN"

definition on_canvas :: "dev \<Rightarrow> pyval list \<Rightarrow> 's agent \<Rightarrow> 's agent" where
  "on_canvas d args ag =
     (case parse_canvas_url args of
        None \<Rightarrow> ag
      | Some url \<Rightarrow>
          if dget (ag_canvas ag) d = Some url then ag
          else says [Devices_Changed] (ag\<lparr>ag_canvas := dset d url (ag_canvas ag)\<rparr>))"

definition on_agent_beat :: "('b, 's) view \<Rightarrow> dev \<Rightarrow> pyval list \<Rightarrow> 's agent \<Rightarrow> 's agent" where
  "on_agent_beat vw d args ag =
     (case parse_beat_args args of
        None \<Rightarrow> ag
      | Some (_, seq, rtt) \<Rightarrow>
          if \<not> bindable d then ag
          else
            (let ag1 = says [Bound d] ag;
                 ag2 = (if pool_known d (e_devices (vw_gs vw)) then ag1\<lparr>ag_links := on_beat d seq rtt (ag_links ag1)\<rparr> else ag1)
             in tell d (M_Beat seq (ag_epoch ag)) ag2))"

definition on_hello :: "('b, 's) view \<Rightarrow> ('b, 's) answer \<Rightarrow> dev \<Rightarrow> 's agent \<Rightarrow> 's agent" where
  "on_hello vw an d ag =
     (if \<not> bindable d then ag
      else
        (let ag1 = says [Bound d] ag;
             pooled = pool_get d (e_devices (vw_gs vw)) \<noteq> None
         in case (if pooled \<and> beats d (ag_links ag1) then invalidate_frame vw d ag1 else (ag1, False)) of
              (ag2, True) \<Rightarrow> ag2
            | (ag2, False) \<Rightarrow>
                callbacks (an_calls an) (if pooled then ag2 else tell d (M_Room (room_blob vw)) ag2)))"

definition on_handshake :: "('b, 's) view \<Rightarrow> ('b, 's) answer \<Rightarrow> dev \<Rightarrow> pyval list \<Rightarrow> 's agent \<Rightarrow> 's agent" where
  "on_handshake vw an d args ag =
     (case parse_handshake_args args of
        None \<Rightarrow> ag
      | Some (_, rid, n) \<Rightarrow>
          if \<not> bindable d then ag
          else
            (let ag1 = callbacks (an_calls an) (says [Bound d] ag); after = an_after an
             in case an_join an of
                  None \<Rightarrow> ag1
                | Some jr \<Rightarrow>
                    if jr_granted jr \<and> jr_class jr = Some CLASS_ROOM
                    then
                      (let ag2 = drop_player_bridge d ag1
                       in with_lobby after (\<lambda>_. lobby_forget d) (ag2\<lparr>ag_handshakes := invite_forget d (ag_handshakes ag2)\<rparr>))
                    else if jr_granted jr
                    then tell d (M_Validated (case e_round_id (vw_gs after) of None \<Rightarrow> [] | Some r \<Rightarrow> r)
                                   (case jr_role jr of None \<Rightarrow> [] | Some r \<Rightarrow> r)) ag1
                    else if jr_reason jr = NoReason then ag1
                    else
                      (let ag2 = says [Join_Denied d n (jr_reason jr)] (tell d (M_Deny (jr_reason jr)) ag1)
                       in if fixture_key after d = Some d then with_lobby after (on_deny d) ag2 else ag2)))"

definition on_verb ::
  "('b, 's) answer \<Rightarrow> dev \<Rightarrow> string \<Rightarrow> pyfloat \<Rightarrow> 's agent \<Rightarrow> 's agent" where
  "on_verb an d verb t ag =
     (let ag1 = callbacks (an_calls an) ag
      in if verb = ''start''
         then (case an_start an of Some (Some why) \<Rightarrow> tell d (M_Error ''start'' (Start_Refused why)) ag1 | _ \<Rightarrow> ag1)
         else (case an_data an of
                 None \<Rightarrow> ag1
               | Some (Some why) \<Rightarrow> tell d (M_Error verb (Data_Refused why)) ag1
               | Some None \<Rightarrow> if verb = ''tap'' then ag1\<lparr>ag_tap_pending := dset d t (ag_tap_pending ag1)\<rparr> else ag1))"

definition dispatch :: "('b, 's) view \<Rightarrow> ('b, 's) answer \<Rightarrow> dev \<Rightarrow> string \<Rightarrow> envelope \<Rightarrow> 's agent \<Rightarrow> 's agent" where
  "dispatch vw an d verb ev ag =
     (if verb = ''hello'' then on_hello vw an d ag
      else if verb = ''handshake'' then on_handshake vw an d (ev_args ev) ag
      else if verb = ''join''
      then (if bindable d then tell d (M_Error ''join'' Retired_Join) (says [Bound d] ag) else ag)
      else if verb = ''canvas'' then on_canvas d (ev_args ev) ag
      else if verb = ''beat'' then on_agent_beat vw d (ev_args ev) ag
      else on_verb an d verb (ev_timestamp ev) ag)"

definition agent_message :: "('b, 's) view \<Rightarrow> ('b, 's) answer \<Rightarrow> pyval \<Rightarrow> 's agent \<Rightarrow> 's agent" where
  "agent_message vw an msg ag =
     (case decode msg of
        None \<Rightarrow> ag
      | Some ev \<Rightarrow>
          (case (parse_game_address (ev_address ev), ev_args ev) of
             (Some verb, VStr d # _) \<Rightarrow>
               if d = TERRARIUM_ADMIN then ag\<lparr>ag_refused := List.insert d (ag_refused ag)\<rparr>
               else dispatch vw an d verb ev
                      (if dmem d (ag_closing ag) then ag\<lparr>ag_revived := List.insert d (ag_revived ag)\<rparr> else ag)
           | _ \<Rightarrow> ag))"

subsection \<open>The poll\<close>

definition forget_reaped :: "('b, 's) view \<Rightarrow> dev \<Rightarrow> 's agent \<Rightarrow> 's agent" where
  "forget_reaped vw d ag =
     (let ag1 = ag\<lparr>ag_links := monitor_forget d (ag_links ag), ag_handshakes := invite_forget d (ag_handshakes ag)\<rparr>
      in if dmem d (ag_bridges ag1) \<or> dmem d (ag_closing ag1) then ag1
         else
           with_lobby vw (\<lambda>_. lobby_forget d)
             ((says [Dropped d] ag1)\<lparr>ag_canvas := dpop d (ag_canvas ag1), ag_overrides := dpop d (ag_overrides ag1),
                ag_flashes := dpop d (ag_flashes ag1), ag_override_only := drop_key d (ag_override_only ag1),
                ag_bases := dpop d (ag_bases ag1), ag_last_frames := dpop d (ag_last_frames ag1)\<rparr>))"

definition agent_link_marks :: "('b, 's) view \<Rightarrow> 's agent \<Rightarrow> (dev, bool \<times> nat option) dict" where
  "agent_link_marks vw ag =
     List.map_filter (\<lambda>info. map_option (\<lambda>v. (di_dev info, ro_missing v, ro_bars v))
         (link_view (di_dev info) (di_last_seen info) (vw_now vw) (ag_links ag)))
       (pool_all (e_devices (vw_gs vw)))"

text \<open>\<open>marks != self._link_marks\<close>: two dictionaries differ when some key reads differently.\<close>

definition same_marks :: "(dev, bool \<times> nat option) dict \<Rightarrow> (dev, bool \<times> nat option) dict \<Rightarrow> bool" where
  "same_marks a b \<longleftrightarrow> list_all (\<lambda>d. dget a d = dget b d) (dkeys a @ dkeys b)"

definition tick_link_marks :: "('b, 's) view \<Rightarrow> 's agent \<Rightarrow> 's agent" where
  "tick_link_marks vw ag =
     (if monitor_len (ag_links ag) = 0 \<and> ag_link_marks ag = [] \<or> vw_now vw < ag_next_link_check ag then ag
      else
        (let marks = agent_link_marks vw ag; ag1 = ag\<lparr>ag_next_link_check := vw_now vw + 1\<rparr>
         in if same_marks marks (ag_link_marks ag) then ag1 else says [Devices_Changed] (ag1\<lparr>ag_link_marks := marks\<rparr>)))"

text \<open>
  One poll: the messages with their views and answers, what reaping called back and whom it took, the start
  requests' callbacks, and the view of the phases.
\<close>

definition take_message :: "('b, 's) view \<times> ('b, 's) answer \<times> pyval \<Rightarrow> 's agent \<Rightarrow> 's agent" where
  "take_message m ag = (case m of (vw, an, msg) \<Rightarrow> agent_message vw an msg ag)"

definition take_inbound ::
  "(('b, 's) view \<times> ('b, 's) answer \<times> pyval) list \<Rightarrow> ('b, 's) calls \<Rightarrow> dev list \<Rightarrow> ('b, 's) view \<Rightarrow> 's agent \<Rightarrow> 's agent" where
  "take_inbound inbound reap_calls reaped vw ag =
     fold (forget_reaped vw) reaped (callbacks reap_calls (fold take_message inbound ag))"

definition tick_audio :: "('b, 's) view \<Rightarrow> 's agent \<Rightarrow> 's agent" where
  "tick_audio vw ag = (if ag_audio ag then says [A_Tick (vw_now vw)] ag else ag)"

definition poll_phases :: "('b, 's) view \<Rightarrow> ('b, 's) calls \<Rightarrow> ('b, 's) view \<Rightarrow> 's phase" where
  "poll_phases vw start_calls vw2 =
     and_then (\<lambda>ag. tick_overrides vw (tick_link_marks vw ag))
    (and_then (feed_breath vw)
    (and_then (\<lambda>ag. tick_handshakes vw2 (callbacks start_calls ag))
    (and_then (tick_lobby vw2)
    (and_then (feed_ambient_generators vw2)
    (and_then (\<lambda>ag. render_frames vw2 (drain_light_cues vw2 ag))
    (and_then (render_room vw2)
       (\<lambda>ag. ((tick_audio vw2 ag)\<lparr>ag_tap_pending := []\<rparr>, False))))))))"

definition poll ::
  "(('b, 's) view \<times> ('b, 's) answer \<times> pyval) list \<Rightarrow> ('b, 's) calls \<Rightarrow> dev list \<Rightarrow> ('b, 's) view \<Rightarrow>
   ('b, 's) calls \<Rightarrow> ('b, 's) view \<Rightarrow> 's phase" where
  "poll inbound reap_calls reaped vw start_calls vw2 ag =
     poll_phases vw start_calls vw2 (take_inbound inbound reap_calls reaped vw ag)"

subsection \<open>Construction and runs\<close>

definition new_agent ::
  "('b, 's) view \<Rightarrow> rat \<Rightarrow> rat \<Rightarrow> string \<Rightarrow> bool \<Rightarrow> bool \<Rightarrow> room_profile option \<Rightarrow> rat \<Rightarrow>
   's agent \<times> bool" where
  "new_agent vw horizon stale epoch audio console profile lost_after =
     and_then (setup_room vw) (\<lambda>ag1. (if e_state (vw_gs vw) = SETUP then enter_setup vw ag1 else ag1, False))
       (blank_agent horizon stale epoch audio console profile lost_after (vw_now vw))"

datatype ('b, 's) agent_call =
    Call_Engine "('b, 's) calls"
  | Call_Poll "(('b, 's) view \<times> ('b, 's) answer \<times> pyval) list" "('b, 's) calls" "dev list" "('b, 's) view"
      "('b, 's) calls" "('b, 's) view"
  | Call_Rewire "('b, 's) view"
  | Call_Unwire "('b, 's) view"

fun agent_step :: "'s agent \<Rightarrow> ('b, 's) agent_call \<Rightarrow> 's agent" where
  "agent_step ag (Call_Engine cs) = callbacks cs ag"
| "agent_step ag (Call_Poll inbound reap_calls reaped vw start_calls vw2) =
     fst (poll inbound reap_calls reaped vw start_calls vw2 ag)"
| "agent_step ag (Call_Rewire vw) = fst (rewire_room vw ag)"
| "agent_step ag (Call_Unwire vw) = fst (unwire_room vw ag)"

end
