(* ===== verification/Agent_Facts.thy ===== *)
theory Agent_Facts
  imports Agent_Inbound
begin

section \<open>What the device agent keeps\<close>

text \<open>
  The invariant of \<open>DeviceLinkAgent\<close> over every run, and what rests on it: fades are accounted for, nothing
  lights a blackout, a released device is told once and in time.
\<close>

subsection \<open>The invariant\<close>

definition fades_ok :: "'s agent \<Rightarrow> bool" where
  "fades_ok ag \<longleftrightarrow>
     (\<forall>d \<in> set (ag_revived ag). dmem d (ag_closing ag)) \<and> (\<forall>d. dmem d (ag_closing ag) \<longrightarrow> dmem d (ag_bridges ag))
     \<and> (\<forall>d. dmem d (ag_universes ag) \<longleftrightarrow> dmem d (ag_bridges ag))"

definition mutes_ok :: "'s agent \<Rightarrow> bool" where
  "mutes_ok ag \<longleftrightarrow>
     (\<forall>k \<in> set (ag_muted ag). \<not> dmem k (ag_flashes ag) \<and> (\<forall>ov. dget (ag_overrides ag) k = Some ov \<longrightarrow> ov = BLACKOUT))"

definition agent_ok :: "'s agent \<Rightarrow> bool" where
  "agent_ok ag \<longleftrightarrow> fades_ok ag \<and> mutes_ok ag"

lemmas ok_defs = agent_ok_def fades_ok_def mutes_ok_def

text \<open>The fields the invariant does not speak of.\<close>

lemma agent_ok_fields [simp]:
  "agent_ok (ag\<lparr>ag_out := a1\<rparr>) = agent_ok ag" "agent_ok (ag\<lparr>ag_room_cues := a2\<rparr>) = agent_ok ag"
  "agent_ok (ag\<lparr>ag_light_cues := a3\<rparr>) = agent_ok ag" "agent_ok (ag\<lparr>ag_pending := a4\<rparr>) = agent_ok ag"
  "agent_ok (ag\<lparr>ag_last_frames := a5\<rparr>) = agent_ok ag" "agent_ok (ag\<lparr>ag_canvas := a6\<rparr>) = agent_ok ag"
  "agent_ok (ag\<lparr>ag_links := a7\<rparr>) = agent_ok ag" "agent_ok (ag\<lparr>ag_link_marks := a8\<rparr>) = agent_ok ag"
  "agent_ok (ag\<lparr>ag_next_link_check := a9\<rparr>) = agent_ok ag" "agent_ok (ag\<lparr>ag_last_breath := b1\<rparr>) = agent_ok ag"
  "agent_ok (ag\<lparr>ag_profile := b2\<rparr>) = agent_ok ag" "agent_ok (ag\<lparr>ag_fixtures := b3\<rparr>) = agent_ok ag"
  "agent_ok (ag\<lparr>ag_ambient_start := b4\<rparr>) = agent_ok ag" "agent_ok (ag\<lparr>ag_audio_fixtures := b5\<rparr>) = agent_ok ag"
  "agent_ok (ag\<lparr>ag_lobby := b6\<rparr>) = agent_ok ag" "agent_ok (ag\<lparr>ag_draining := b7\<rparr>) = agent_ok ag"
  "agent_ok (ag\<lparr>ag_lobby_known := b8\<rparr>) = agent_ok ag" "agent_ok (ag\<lparr>ag_handshakes := b9\<rparr>) = agent_ok ag"
  "agent_ok (ag\<lparr>ag_refused := c1\<rparr>) = agent_ok ag" "agent_ok (ag\<lparr>ag_warned_play := c2\<rparr>) = agent_ok ag"
  "agent_ok (ag\<lparr>ag_override_only := c3\<rparr>) = agent_ok ag" "agent_ok (ag\<lparr>ag_bases := c4\<rparr>) = agent_ok ag"
  "agent_ok (ag\<lparr>ag_outputs := c5\<rparr>) = agent_ok ag" "agent_ok (ag\<lparr>ag_outputs_key := c6\<rparr>) = agent_ok ag"
  "agent_ok (ag\<lparr>ag_tap_pending := c7\<rparr>) = agent_ok ag"
  by (simp_all add: ok_defs)

lemma ok_says [simp]: "agent_ok (says os ag) = agent_ok ag"
  by (simp add: says_def)

lemma ok_tell [simp]: "agent_ok (tell d m ag) = agent_ok ag"
  by (cases m) (simp_all add: tell_def Let_def)

lemma ok_tell_leds [simp]: "agent_ok (tell_leds d fr t ag) = agent_ok ag"
  by (simp add: tell_leds_def split: option.split)

lemma ok_put_fixture [simp]: "agent_ok (put_fixture n st ag) = agent_ok ag"
  by (simp add: put_fixture_def)

lemma ok_invalidate [simp]: "agent_ok (fst (invalidate_frame vw d ag)) = agent_ok ag"
  by (simp add: invalidate_frame_def Let_def split: option.split prod.split)

lemma ok_bridge [simp]: "dmem d (ag_bridges ag) \<Longrightarrow> agent_ok (ag\<lparr>ag_bridges := dset d s (ag_bridges ag)\<rparr>) = agent_ok ag"
  by (auto simp: ok_defs)

text \<open>Loops and phases.\<close>

lemma ok_fold: "(\<And>x ag. agent_ok ag \<Longrightarrow> agent_ok (f x ag)) \<Longrightarrow> agent_ok ag \<Longrightarrow> agent_ok (fold f xs ag)"
  by (induction xs arbitrary: ag) simp_all

lemma ok_for_each:
  "(\<And>x ag. agent_ok ag \<Longrightarrow> agent_ok (fst (f x ag))) \<Longrightarrow> agent_ok ag \<Longrightarrow> agent_ok (fst (for_each f xs ag))"
proof (induction xs arbitrary: ag)
  case (Cons x xs)
  obtain ag1 r where r: "f x ag = (ag1, r)" by fastforce
  with Cons.prems have "agent_ok ag1" by (metis fst_conv)
  with Cons.IH [OF Cons.prems(1)] r show ?case by (cases r) simp_all
qed simp

lemma ok_and_then:
  assumes "\<And>ag. agent_ok ag \<Longrightarrow> agent_ok (fst (f ag))" and "\<And>ag. agent_ok ag \<Longrightarrow> agent_ok (fst (g ag))" and "agent_ok ag"
  shows "agent_ok (fst (and_then f g ag))"
proof -
  obtain ag1 r where r: "f ag = (ag1, r)" by fastforce
  with assms have "agent_ok ag1" by (metis fst_conv)
  with r assms(2) show ?thesis by (cases r) (simp_all add: and_then_def)
qed

subsection \<open>Cues, overrides, mutes\<close>

lemma ok_feed_light_now: "agent_ok ag \<Longrightarrow> agent_ok (feed_light_now vw d s d1 d2 t ag)"
  by (auto simp: feed_light_now_def Let_def dmem_iff_get split: option.split prod.split bool.split)

lemma ok_on_light_cue: "agent_ok ag \<Longrightarrow> agent_ok (on_light_cue vw d s d1 d2 t ag)"
  by (auto simp: on_light_cue_def Let_def ok_feed_light_now split: option.split)

lemma ok_on_music_cue: "agent_ok ag \<Longrightarrow> agent_ok (on_music_cue vw d s d1 d2 t tag ag)"
  by (auto simp: on_music_cue_def split: option.split)

lemma ok_on_music_purge: "agent_ok ag \<Longrightarrow> agent_ok (on_music_purge vw d tag ag)"
  by (auto simp: on_music_purge_def split: option.split)

lemma ok_on_play_cue: "agent_ok ag \<Longrightarrow> agent_ok (on_play_cue d n p ag)"
  by (simp add: on_play_cue_def)

lemma ok_override:
  "agent_ok ag \<Longrightarrow> d \<notin> set (ag_muted ag) \<Longrightarrow> agent_ok (ag\<lparr>ag_overrides := dset d ov (ag_overrides ag)\<rparr>)"
  "agent_ok ag \<Longrightarrow> d \<notin> set (ag_muted ag) \<Longrightarrow> agent_ok (ag\<lparr>ag_flashes := dset d ps (ag_flashes ag)\<rparr>)"
  "agent_ok ag \<Longrightarrow> agent_ok (ag\<lparr>ag_overrides := dpop d (ag_overrides ag)\<rparr>)"
  "agent_ok ag \<Longrightarrow> agent_ok (ag\<lparr>ag_flashes := dpop d (ag_flashes ag)\<rparr>)"
  "agent_ok ag \<Longrightarrow> agent_ok (ag\<lparr>ag_muted := drop_key k (ag_muted ag), ag_overrides := dpop k (ag_overrides ag)\<rparr>)"
  by (auto simp: ok_defs drop_key_def)

lemma ok_on_solid_cue: "agent_ok ag \<Longrightarrow> agent_ok (on_solid_cue vw d c l dur t ag)"
  by (simp add: on_solid_cue_def ok_override split: option.split)

lemma ok_on_pixel_flash: "agent_ok ag \<Longrightarrow> agent_ok (on_pixel_flash vw d p c dur t ag)"
  by (simp add: on_pixel_flash_def Let_def ok_override split: option.split)

lemma ok_unmute_key: "agent_ok ag \<Longrightarrow> agent_ok (unmute_key vw k ag)"
  by (simp add: unmute_key_def ok_override)

lemma ok_on_mute_change: "agent_ok ag \<Longrightarrow> agent_ok (on_mute_change vw d m ag)"
proof -
  assume ok: "agent_ok ag"
  have "agent_ok (ag\<lparr>ag_muted := List.insert k (ag_muted ag), ag_overrides := dset k BLACKOUT (ag_overrides ag),
      ag_flashes := dpop k (ag_flashes ag)\<rparr>)" for k
    using ok by (auto simp: ok_defs)
  with ok show ?thesis
    by (auto simp: on_mute_change_def Let_def split: option.split intro!: ok_fold ok_unmute_key)
qed

lemma ok_drain_light_cues:
  fixes vw :: "('b, 's) view"
  shows "agent_ok ag \<Longrightarrow> agent_ok (drain_light_cues vw ag)"
proof -
  have "agent_ok ag \<Longrightarrow> agent_ok (drain_light_cue vw c ag)" for c and ag :: "'s agent"
    by (auto simp: drain_light_cue_def ok_on_solid_cue ok_feed_light_now split: light_cue.split)
  then show "agent_ok ag \<Longrightarrow> agent_ok (drain_light_cues vw ag)"
    by (auto simp: drain_light_cues_def split: prod.split intro!: ok_fold)
qed

subsection \<open>Grants and releases\<close>

lemma ok_on_grant: "agent_ok ag \<Longrightarrow> agent_ok (on_grant vw d jr config ag)"
  by (simp add: on_grant_def split: option.split) (auto simp: ok_defs drop_key_def)

lemma ok_drop_player_bridge: "agent_ok ag \<Longrightarrow> agent_ok (drop_player_bridge d ag)"
  by (auto simp: drop_player_bridge_def ok_defs drop_key_def)

lemma ok_on_release: "agent_ok ag \<Longrightarrow> agent_ok (on_release vw d ag)"
  by (simp add: on_release_def split: option.split) (auto simp: ok_defs drop_key_def dmem_iff_get)

lemma ok_finish_release: "agent_ok ag \<Longrightarrow> agent_ok (finish_release d ag)"
  by (simp add: finish_release_def Let_def) (auto simp: ok_defs drop_key_def)

lemma ok_check_closing: "agent_ok ag \<Longrightarrow> agent_ok (check_closing_bound d ag)"
  "agent_ok ag \<Longrightarrow> agent_ok (check_closing_done vw d s ag)"
  by (simp_all add: check_closing_bound_def check_closing_done_def ok_finish_release)

subsection \<open>Rendering\<close>

lemma ok_lapse_override: "agent_ok ag \<Longrightarrow> agent_ok (fst (lapse_override vw e ag))"
  by (simp add: lapse_override_def ok_override split: prod.split option.split)

lemma lapse_flashes_muted: "ag_muted (fst (lapse_flashes vw e ag)) = ag_muted ag"
  by (simp add: lapse_flashes_def Let_def invalidate_frame_def put_fixture_def split: prod.split option.split)

lemma ok_lapse_flashes:
  "agent_ok ag \<Longrightarrow> fst e \<notin> set (ag_muted ag) \<Longrightarrow> agent_ok (fst (lapse_flashes vw e ag))"
  by (cases e) (simp add: lapse_flashes_def Let_def ok_override split: prod.split)

lemma ok_lapse_all:
  "agent_ok ag \<Longrightarrow> \<forall>e \<in> set es. fst e \<notin> set (ag_muted ag) \<Longrightarrow> agent_ok (fst (for_each (lapse_flashes vw) es ag))"
proof (induction es arbitrary: ag)
  case (Cons e es)
  obtain ag1 r where r: "lapse_flashes vw e ag = (ag1, r)" by fastforce
  then have "agent_ok ag1" "ag_muted ag1 = ag_muted ag"
    using Cons.prems ok_lapse_flashes [of ag e vw] lapse_flashes_muted [of vw e ag] by simp_all
  with Cons r show ?case by (cases r) simp_all
qed simp

lemma ok_tick_overrides: "agent_ok ag \<Longrightarrow> agent_ok (fst (tick_overrides vw ag))"
proof -
  have lap: "agent_ok ag1 \<Longrightarrow> agent_ok (fst (for_each (lapse_flashes vw) (ag_flashes ag1) ag1))" for ag1
    by (rule ok_lapse_all) (auto simp: ok_defs dmem_def)
  show "agent_ok ag \<Longrightarrow> ?thesis" unfolding tick_overrides_def
    by (rule ok_and_then) (auto intro: lap ok_for_each ok_lapse_override)
qed

lemma ok_show_frame [simp]: "agent_ok (show_frame vw d t fr ag) = agent_ok ag"
  by (simp add: show_frame_def)

lemma ok_begin_render: "agent_ok ag \<Longrightarrow> agent_ok (begin_render d ag)"
  by (simp add: begin_render_def Let_def split: option.split) (auto simp: ok_defs dmem_iff_get)

lemma begin_render_bridges [simp]: "ag_bridges (begin_render d ag) = ag_bridges ag"
  by (simp add: begin_render_def Let_def split: option.split)

lemma ok_end_render: "agent_ok ag \<Longrightarrow> agent_ok (fst (end_render vw d t s full ag))"
  by (simp add: end_render_def Let_def ok_check_closing split: option.split)

lemma ok_render_player: "agent_ok ag \<Longrightarrow> agent_ok (fst (render_player vw d ag))"
proof -
  assume ok: "agent_ok ag"
  have "agent_ok ((begin_render d ag)\<lparr>ag_bridges := dset d s (ag_bridges ag)\<rparr>)" if "dmem d (ag_bridges ag)" for s
    using ok_bridge [of d "begin_render d ag" s] ok_begin_render [OF ok] that by simp
  with ok show ?thesis
    by (simp add: render_player_def Let_def ok_check_closing ok_end_render dmem_get_Some split: option.split prod.split)
qed

lemma ok_render_roleless: "agent_ok ag \<Longrightarrow> agent_ok (fst (render_roleless vw d ag))"
  by (simp add: render_roleless_def Let_def split: option.split)

lemma ok_render_frames: "agent_ok ag \<Longrightarrow> agent_ok (fst (render_frames vw ag))"
  unfolding render_frames_def by (rule ok_and_then) (auto intro: ok_for_each ok_render_player ok_render_roleless)

lemma ok_show_fixture [simp]: "agent_ok (show_fixture vw n d t fr st ag) = agent_ok ag"
  by (simp add: show_fixture_def sinks_tell_def Let_def split: option.split)

lemma ok_render_fixture: "agent_ok ag \<Longrightarrow> agent_ok (fst (render_fixture vw f ag))"
  by (simp add: render_fixture_def Let_def split: option.split prod.split)

lemma ok_sound_room_cue: "agent_ok ag \<Longrightarrow> agent_ok (sound_room_cue c ag)"
  by (simp add: sound_room_cue_def split: prod.split)

lemma ok_render_room: "agent_ok ag \<Longrightarrow> agent_ok (fst (render_room vw ag))"
  by (auto simp: render_room_def split: option.split prod.split intro!: ok_for_each ok_render_fixture ok_fold ok_sound_room_cue)

lemma ok_breathe: "agent_ok ag \<Longrightarrow> agent_ok (fst (breathe vw v d ag))"
proof -
  assume ok: "agent_ok ag"
  have "agent_ok (ag\<lparr>ag_last_breath := lb, ag_bridges := dset d s (ag_bridges ag)\<rparr>)"
    if "dmem d (ag_bridges ag)" for lb s
    using ok_bridge [of d "ag\<lparr>ag_last_breath := lb\<rparr>" s] that ok by simp
  with ok show ?thesis by (simp add: breathe_def dmem_iff_get split: option.split)
qed

lemma ok_feed_breath: "agent_ok ag \<Longrightarrow> agent_ok (fst (feed_breath vw ag))"
  by (auto simp: feed_breath_def intro!: ok_for_each ok_breathe)

lemma ok_feed_generator: "agent_ok ag \<Longrightarrow> agent_ok (feed_generator vw c ag)"
  by (simp add: feed_generator_def split: cue.split option.split prod.split)

lemma ok_feed_ambient: "agent_ok ag \<Longrightarrow> agent_ok (fst (feed_ambient_generators vw ag))"
proof -
  have "agent_ok ag \<Longrightarrow> agent_ok (fst (feed_ambient vw start n ag))" for start n ag
    by (auto simp: feed_ambient_def split: option.split intro!: ok_fold ok_feed_generator)
  then show "agent_ok ag \<Longrightarrow> ?thesis"
    by (auto simp: feed_ambient_generators_def split: option.split intro!: ok_for_each)
qed

subsection \<open>The Room and the lobby\<close>

lemma ok_close_outputs [simp]: "agent_ok (close_outputs ag) = agent_ok ag"
  by (simp add: close_outputs_def)

lemma ok_ensure_outputs [simp]: "agent_ok (ensure_outputs vw ag) = agent_ok ag"
  by (simp add: ensure_outputs_def Let_def split: option.split prod.split)

lemma ok_grant_room_audio: "agent_ok ag \<Longrightarrow> agent_ok (grant_room_audio ro ag)"
proof -
  have one: "agent_ok (snd st) \<Longrightarrow> agent_ok (snd (grant_fixture_audio ro f st))" for f and st :: "bool \<times> 'a agent"
    by (cases st) (simp add: grant_fixture_audio_def Let_def)
  have "agent_ok (snd st) \<Longrightarrow> agent_ok (snd (fold (grant_fixture_audio ro) fs st))" for fs and st :: "bool \<times> 'a agent"
    by (induction fs arbitrary: st) (simp_all add: one)
  then show "agent_ok ag \<Longrightarrow> ?thesis" by (simp add: grant_room_audio_def Let_def split: option.split)
qed

lemma ok_build_fixture: "agent_ok ag \<Longrightarrow> agent_ok (fst (build_fixture vw l p f ag))"
  by (simp add: build_fixture_def split: option.split)

lemma ok_furnish: "agent_ok ag \<Longrightarrow> agent_ok (fst (furnish_room vw ro l p ag))"
  unfolding furnish_room_def by (rule ok_and_then) (auto intro: ok_for_each ok_build_fixture ok_grant_room_audio)

lemma ok_setup_room: "agent_ok ag \<Longrightarrow> agent_ok (fst (setup_room vw ag))"
  by (simp add: setup_room_def Let_def ok_furnish split: option.split)

lemma ok_lobby_effect: "agent_ok ag \<Longrightarrow> agent_ok (lobby_effect_now vw e ag)"
  by (simp add: lobby_effect_now_def ok_on_solid_cue split: lobby_effect.split option.split)

lemma ok_lobby_call: "agent_ok ag \<Longrightarrow> agent_ok (snd (lobby_call vw f lb ag))"
  by (simp add: lobby_call_def Let_def ok_fold [OF ok_lobby_effect])

lemma ok_with_lobby: "agent_ok ag \<Longrightarrow> agent_ok (with_lobby vw f ag)"
proof -
  assume ok: "agent_ok ag"
  have "lobby_call vw f lb ag = (lb', ag1) \<Longrightarrow> agent_ok ag1" for lb lb' ag1
    using ok_lobby_call [OF ok, of vw f lb] by simp
  with ok show ?thesis by (simp add: with_lobby_def split: option.split prod.split)
qed

lemma ok_sync: "agent_ok ag \<Longrightarrow> agent_ok (sync_lobby_state vw ag)"
  by (simp add: sync_lobby_state_def ok_with_lobby split: option.split)

lemma ok_swap [simp]: "agent_ok (swap_fixture vw m n ag) = agent_ok ag"
  by (simp add: swap_fixture_def split: option.split)

lemma ok_enter_lobby: "agent_ok ag \<Longrightarrow> agent_ok (enter_lobby vw ag)"
proof -
  assume ok: "agent_ok ag"
  have "agent_ok (fold (swap_fixture vw lobby_light_manifest) ns ag)" for ns
    by (rule ok_fold [OF _ ok]) simp
  with ok show ?thesis by (simp add: enter_lobby_def Let_def ok_sync ok_with_lobby)
qed

lemma ok_restore: "agent_ok ag \<Longrightarrow> agent_ok (fst (restore_fixture vw n ag))"
  by (simp add: restore_fixture_def split: option.split)

lemma ok_exit_lobby: "agent_ok ag \<Longrightarrow> agent_ok (fst (exit_lobby vw r ag))"
proof -
  assume "agent_ok ag"
  then have ok1: "agent_ok (ag\<lparr>ag_lobby := None, ag_draining := (if r then ag_draining ag else None)\<rparr>)" by simp
  have "lobby_call vw lobby_stop lb (ag\<lparr>ag_lobby := None, ag_draining := (if r then ag_draining ag else None)\<rparr>) = (lb', ag1)
      \<Longrightarrow> agent_ok ag1" for lb lb' ag1
    using ok_lobby_call [OF ok1, of vw lobby_stop lb] by simp
  with ok1 show ?thesis
    unfolding exit_lobby_def Let_def
    by (simp add: ok_for_each [OF ok_restore] split: option.split prod.split)
qed

lemma ok_flash_fixtures_now: "agent_ok ag \<Longrightarrow> agent_ok (fst (flash_fixtures_now vw c k ag))"
proof -
  have "agent_ok ag \<Longrightarrow> agent_ok (fst (flash_fixture vw c t n ag))" for t n ag
    by (simp add: flash_fixture_def split: option.split)
  then show "agent_ok ag \<Longrightarrow> ?thesis" by (auto simp: flash_fixtures_now_def intro!: ok_for_each)
qed

lemma ok_invite_one: "agent_ok ag \<Longrightarrow> agent_ok (invite_one vw rid d ag)"
  by (simp add: invite_one_def split: prod.split bool.split)

lemma ok_tick_handshakes: "agent_ok ag \<Longrightarrow> agent_ok (fst (tick_handshakes vw ag))"
  by (simp add: tick_handshakes_def Let_def ok_fold ok_invite_one split: option.split outcome.split)

lemma ok_tick_lobby: "agent_ok ag \<Longrightarrow> agent_ok (fst (tick_lobby vw ag))"
proof -
  assume ok: "agent_ok ag"
  have "lobby_call vw f lb ag = (lb', ag1) \<Longrightarrow> agent_ok ag1" for f lb lb' ag1
    using ok_lobby_call [OF ok, of vw f lb] by simp
  with ok have ok1: "agent_ok (tick_draining vw ag)" by (simp add: tick_draining_def split: option.split prod.split)
  show ?thesis using ok1
    by (simp add: tick_lobby_def Let_def ok_with_lobby ok_fold [OF ok_with_lobby] split: outcome.split)
qed

lemma ok_broadcast: "agent_ok ag \<Longrightarrow> agent_ok (broadcast_room vw ag)"
  unfolding broadcast_room_def by (rule ok_fold) simp_all

lemma ok_enter_setup: "agent_ok ag \<Longrightarrow> agent_ok (enter_setup vw ag)"
  by (simp add: enter_setup_def ok_enter_lobby)

lemma ok_state_change: "agent_ok ag \<Longrightarrow> agent_ok (fst (agent_state_change vw new ag))"
  unfolding agent_state_change_def
  by (intro ok_and_then; simp add: ok_broadcast ok_setup_room ok_enter_setup ok_exit_lobby Let_def)

lemma ok_celebrate: "agent_ok ag \<Longrightarrow> agent_ok (celebrate vw d ag)"
  by (simp add: celebrate_def ok_with_lobby)

lemma ok_registration_change: "agent_ok ag \<Longrightarrow> agent_ok (agent_registration_change vw ag)"
  using ok_broadcast [of ag vw]
  by (simp add: agent_registration_change_def Let_def ok_sync ok_fold ok_celebrate)

lemma ok_on_start_requested: "agent_ok ag \<Longrightarrow> agent_ok (fst (on_start_requested vw fb ag))"
  by (simp add: on_start_requested_def ok_flash_fixtures_now ok_with_lobby)

lemma ok_unwire_room: "agent_ok ag \<Longrightarrow> agent_ok (fst (unwire_room vw ag))"
proof -
  assume ok: "agent_ok ag"
  obtain ag1 r where e: "exit_lobby vw False ag = (ag1, r)" by fastforce
  with ok_exit_lobby [OF ok, of vw False] have ok1: "agent_ok ag1" by simp
  let ?ag2 = "(close_outputs ag1)\<lparr>ag_outputs_key := None\<rparr>"
  have ok2: "agent_ok ?ag2" using ok1 by simp
  have "agent_ok ag \<Longrightarrow> agent_ok (forget_fixture_dev d ag)" for d ag
    by (auto simp: forget_fixture_dev_def ok_defs)
  from ok_fold [OF this ok2] have ok3: "agent_ok (fold forget_fixture_dev gone ?ag2)" for gone .
  have "agent_ok ag' \<Longrightarrow> agent_ok (ag'\<lparr>ag_muted := filter P (ag_muted ag')\<rparr>)" for P and ag'
    by (auto simp: ok_defs)
  with ok3 have ok4: "agent_ok ((fold forget_fixture_dev gone ?ag2)\<lparr>ag_muted := filter P (ag_muted (fold forget_fixture_dev gone ?ag2))\<rparr>)"
    for P gone by blast
  show ?thesis
  proof (cases "r \<or> all_some (map fixture_dev (dkeys (ag_fixtures ?ag2))) = None")
    case True
    with e ok1 ok2 show ?thesis by (auto simp: unwire_room_def Let_def split: bool.split)
  next
    case False
    then obtain tokens where "\<not> r" "all_some (map fixture_dev (dkeys (ag_fixtures ?ag2))) = Some tokens" by auto
    with e ok4 show ?thesis by (simp add: unwire_room_def Let_def)
  qed
qed

subsection \<open>What devices send, and the poll\<close>

lemma ok_on_effect: "agent_ok ag \<Longrightarrow> agent_ok (on_effect vw eff ag)"
  by (cases "(vw, eff, ag)" rule: on_effect.cases)
    (simp_all add: ok_on_light_cue ok_on_play_cue ok_on_music_cue ok_on_music_purge ok_on_solid_cue ok_on_pixel_flash
      ok_on_mute_change ok_on_grant ok_on_release ok_state_change ok_registration_change ok_on_start_requested)

lemma ok_callbacks: "agent_ok ag \<Longrightarrow> agent_ok (callbacks cs ag)"
  unfolding callbacks_def by (rule ok_fold) (simp_all add: ok_on_effect split: prod.split)

lemma ok_on_canvas: "agent_ok ag \<Longrightarrow> agent_ok (on_canvas d args ag)"
  by (simp add: on_canvas_def split: option.split)

lemma ok_on_agent_beat: "agent_ok ag \<Longrightarrow> agent_ok (on_agent_beat vw d args ag)"
  by (simp add: on_agent_beat_def Let_def split: option.split prod.split)

lemma ok_on_hello: "agent_ok ag \<Longrightarrow> agent_ok (on_hello vw an d ag)"
proof -
  assume "agent_ok ag"
  then have ok: "agent_ok (says [Bound d] ag)" by simp
  have "invalidate_frame vw d (says [Bound d] ag) = (ag1, r) \<Longrightarrow> agent_ok ag1" for ag1 r
    using ok_invalidate [of vw d "says [Bound d] ag"] ok by simp
  with \<open>agent_ok ag\<close> show ?thesis
    by (simp add: on_hello_def Let_def ok_callbacks split: prod.split bool.split)
qed

lemma ok_on_handshake: "agent_ok ag \<Longrightarrow> agent_ok (on_handshake vw an d args ag)"
  by (simp add: on_handshake_def Let_def ok_callbacks ok_with_lobby ok_drop_player_bridge split: option.split prod.split)

lemma ok_on_verb: "agent_ok ag \<Longrightarrow> agent_ok (on_verb an d verb t ag)"
  by (simp add: on_verb_def Let_def ok_callbacks split: option.split)

lemma ok_dispatch: "agent_ok ag \<Longrightarrow> agent_ok (dispatch vw an d verb ev ag)"
  by (simp add: dispatch_def ok_on_hello ok_on_handshake ok_on_canvas ok_on_agent_beat ok_on_verb)

lemma ok_agent_message: "agent_ok ag \<Longrightarrow> agent_ok (agent_message vw an msg ag)"
proof -
  assume ok: "agent_ok ag"
  then have "agent_ok (ag\<lparr>ag_revived := List.insert d (ag_revived ag)\<rparr>)" if "dmem d (ag_closing ag)" for d
    using that by (auto simp: ok_defs)
  with ok show ?thesis
    by (simp add: agent_message_def ok_dispatch split: option.split list.split pyval.split)
qed

lemma ok_forget_reaped: "agent_ok ag \<Longrightarrow> agent_ok (forget_reaped vw d ag)"
proof -
  assume "agent_ok ag"
  then have ok: "agent_ok (says os (ag\<lparr>ag_links := l, ag_handshakes := h\<rparr>))" for os l h by simp
  have "agent_ok ((says os (ag\<lparr>ag_links := l, ag_handshakes := h\<rparr>))\<lparr>ag_canvas := c, ag_overrides := dpop d (ag_overrides ag),
      ag_flashes := dpop d (ag_flashes ag), ag_override_only := o1, ag_bases := b, ag_last_frames := fr\<rparr>)" for os l h c o1 b fr
    using \<open>agent_ok ag\<close> by (auto simp: ok_defs says_def)
  with \<open>agent_ok ag\<close> show ?thesis by (simp add: forget_reaped_def Let_def ok_with_lobby)
qed

lemma ok_tick_link_marks [simp]: "agent_ok (tick_link_marks vw ag) = agent_ok ag"
  by (simp add: tick_link_marks_def Let_def)

lemma ok_take_message: "agent_ok ag \<Longrightarrow> agent_ok (take_message m ag)"
  by (simp add: take_message_def ok_agent_message split: prod.split)

lemma ok_take_inbound: "agent_ok ag \<Longrightarrow> agent_ok (take_inbound inbound reap_calls reaped vw ag)"
  unfolding take_inbound_def by (intro ok_fold ok_forget_reaped ok_callbacks ok_take_message)

lemma ok_poll: "agent_ok ag \<Longrightarrow> agent_ok (fst (poll inbound reap_calls reaped vw start_calls vw2 ag))"
  unfolding poll_def poll_phases_def
  by (intro ok_and_then; simp add: ok_tick_overrides ok_feed_breath ok_tick_handshakes ok_callbacks ok_tick_lobby ok_feed_ambient
      ok_render_frames ok_drain_light_cues ok_render_room ok_take_inbound tick_audio_def)

lemma ok_agent_step: "agent_ok ag \<Longrightarrow> agent_ok (agent_step ag c)"
  by (cases c) (simp_all add: ok_callbacks ok_poll ok_unwire_room rewire_room_def ok_setup_room)

interpretation agent: machine agent_step agent_ok
  by unfold_locales (rule ok_agent_step)

lemma ok_new_agent: "agent_ok (fst (new_agent vw horizon stale epoch audio console profile lost_after))"
proof -
  have "agent_ok (blank_agent horizon stale epoch audio console profile lost_after (vw_now vw))"
    by (simp add: blank_agent_def ok_defs dmem_def)
  then show ?thesis unfolding new_agent_def
    by (intro ok_and_then; simp add: ok_setup_room ok_enter_setup)
qed

end
