(* ===== verification/Agent_Release.thy ===== *)
theory Agent_Release
  imports Agent_Facts Engine_Facts
begin

section \<open>Fades, blackouts and deadlines\<close>

text \<open>
  The properties of \<open>DeviceLinkAgent\<close> that rest on its invariant: what a released device is told and when, what a
  muted surface shows, and which deadline a frame carries (\<open>src/devicelink/agent.py\<close>).
\<close>

lemma agent_ok_run:
  "agent_ok (foldl agent_step (fst (new_agent vw horizon stale epoch audio console profile lost_after)) calls)"
  by (rule agent.inv_run) (rule ok_new_agent)

text \<open>
  C8: The agent's books agree after any run. A device counted as closing still has its session and its universe,
  proof of life is only recorded for a device that is closing, and a muted surface holds no flash and no override
  but the blackout.
\<close>
theorem agent_keeps_its_books:
  "agent_ok (foldl agent_step (fst (new_agent vw horizon stale epoch audio console profile lost_after)) calls)"
  by (rule agent_ok_run)

subsection \<open>Blackouts\<close>

lemma black_frame: "solid_frame [0, 0, 0] 0 n = Some (replicate n 0)"
proof -
  have "take n (concat (replicate m [0, 0, 0, 0 :: byte])) = replicate n 0" if "n \<le> 4 * m" for m
  proof -
    have "concat (replicate m [0, 0, 0, 0 :: byte]) = replicate (4 * m) 0"
      by (induction m) (simp_all add: replicate_add [symmetric] numeral_eq_Suc)
    with that show ?thesis by simp
  qed
  moreover obtain m where m: "m = n div 4 + 1" by simp
  moreover from m have "n \<le> 4 * m" by presburger
  ultimately have "take n (concat (replicate m [0, 0, 0, 0 :: byte])) = replicate n 0" by blast
  then show ?thesis
    by (simp only: solid_frame_def CHANNELS_PER_PIXEL_WIRE_def m [symmetric]) (simp add: rgbw_def Pixel_Wire.lit_def py_round_def)
qed

text \<open>
  C9: Nothing lights a blackout. After any run, the frame of a muted surface whose override stands is black, whatever
  its session rendered and whatever was flashed at it.
\<close>
theorem nothing_lights_a_blackout:
  assumes "ag = foldl agent_step (fst (new_agent vw horizon stale epoch audio console profile lost_after)) calls"
    and "k \<in> set (ag_muted ag)" and "dmem k (ag_overrides ag)"
  shows "painted k frame ag = Some (replicate (length frame) 0)"
proof -
  have "agent_ok ag" unfolding assms(1) by (rule agent_ok_run)
  then have f: "\<not> dmem k (ag_flashes ag)" and o: "dget (ag_overrides ag) k = Some BLACKOUT"
    using assms(2,3) by (auto simp: ok_defs dmem_iff_get)
  from f have "dget (ag_flashes ag) k = None" by (simp add: dmem_iff_get)
  with o show ?thesis
    by (simp add: painted_def apply_override_def apply_pixel_flashes_def BLACKOUT_def solid_at_def black_frame)
qed

subsection \<open>Releases\<close>

fun concerns :: "dev \<Rightarrow> agent_out \<Rightarrow> bool" where
  "concerns d (Sent d' M_Release) \<longleftrightarrow> d' = d"
| "concerns d (Dropped d') \<longleftrightarrow> d' = d"
| "concerns _ _ = False"

text \<open>What the agent holds of a device's fade, and what it has told of its end.\<close>

definition fade_of :: "dev \<Rightarrow> 's agent \<Rightarrow> _" where
  "fade_of d ag =
     (dget (ag_closing ag) d, dmem d (ag_bridges ag), dmem d (ag_universes ag), d \<in> set (ag_revived ag),
      filter (concerns d) (ag_out ag))"

lemma concerns_leds [simp]: "\<not> concerns d (Sent d' (M_Leds b t))"
  by simp

lemma fade_says: "list_all (\<lambda>x. \<not> concerns d x) os \<Longrightarrow> fade_of d (says os ag) = fade_of d ag"
  by (simp add: fade_of_def says_def filter_empty_conv list_all_iff)

lemma fade_tell_leds: "fade_of d (tell_leds d' fr t ag) = fade_of d ag"
  by (simp add: tell_leds_def tell_def Let_def fade_of_def says_def split: option.split)

lemma fade_show: "fade_of d (show_frame vw d' t fr ag) = fade_of d ag"
  by (simp add: show_frame_def fade_tell_leds) (simp add: fade_of_def)

lemma fade_finish_other: "d' \<noteq> d \<Longrightarrow> fade_of d (finish_release d' ag) = fade_of d ag"
  by (auto simp: finish_release_def Let_def fade_of_def tell_def says_def drop_key_def)

lemma fade_begin_other: "d' \<noteq> d \<Longrightarrow> fade_of d (begin_render d' ag) = fade_of d ag"
  by (simp add: begin_render_def Let_def fade_of_def split: option.split)

lemma fade_bridge_other: "d' \<noteq> d \<Longrightarrow> fade_of d (ag\<lparr>ag_bridges := dset d' s (ag_bridges ag)\<rparr>) = fade_of d ag"
  by (simp add: fade_of_def)

lemma fade_check_other:
  "d' \<noteq> d \<Longrightarrow> fade_of d (check_closing_bound d' ag) = fade_of d ag"
  "d' \<noteq> d \<Longrightarrow> fade_of d (check_closing_done vw d' s ag) = fade_of d ag"
  by (simp_all add: check_closing_bound_def check_closing_done_def fade_finish_other)

lemma fade_render_other: "d' \<noteq> d \<Longrightarrow> fade_of d (fst (render_player vw d' ag)) = fade_of d ag"
proof -
  assume d: "d' \<noteq> d"
  have b: "fade_of d ((begin_render d' ag)\<lparr>ag_bridges := dset d' s (ag_bridges ag)\<rparr>) = fade_of d ag" for s
    using fade_bridge_other [OF d, where ag = "begin_render d' ag" and s = s] fade_begin_other [OF d] by simp
  show ?thesis
    by (simp add: render_player_def Let_def end_render_def fade_check_other d fade_show b split: option.split prod.split)
qed

lemma fade_marks:
  "fade_of d (ag\<lparr>ag_override_only := x\<rparr>) = fade_of d ag"
  "fade_of d (ag\<lparr>ag_override_only := x, ag_last_frames := y\<rparr>) = fade_of d ag"
  by (simp_all add: fade_of_def)

lemma fade_roleless: "fade_of d (fst (render_roleless vw d' ag)) = fade_of d ag"
  by (simp add: render_roleless_def Let_def fade_marks fade_show split: option.split)

lemma fade_roleless_all: "fade_of d (fst (for_each (render_roleless vw) ds ag)) = fade_of d ag"
proof (induction ds arbitrary: ag)
  case (Cons x ds)
  obtain ag1 r where r: "render_roleless vw x ag = (ag1, r)" by fastforce
  with fade_roleless [of d vw x ag] Cons.IH [of ag1] show ?case by (cases r) simp_all
qed simp

text \<open>Still fading after at least \<open>k\<close> renders, or gone with its last messages sent.\<close>

definition fading :: "dev \<Rightarrow> bool \<Rightarrow> agent_out list \<Rightarrow> nat \<Rightarrow> 's agent \<Rightarrow> bool" where
  "fading d rv said k ag \<longleftrightarrow> (\<exists>c \<ge> k. fade_of d ag = (Some c, True, True, rv, said))"

definition gone :: "dev \<Rightarrow> bool \<Rightarrow> agent_out list \<Rightarrow> 's agent \<Rightarrow> bool" where
  "gone d rv said ag \<longleftrightarrow>
     fade_of d ag = (None, False, False, False, said @ Sent d M_Release # (if rv then [] else [Dropped d]))"

lemma finish_gone: "fade_of d ag = (Some c, True, True, rv, said) \<Longrightarrow> gone d rv said (finish_release d ag)"
  by (auto simp: gone_def fade_of_def finish_release_def Let_def tell_def says_def drop_key_def dmem_iff_get)

lemma bound_or_gone:
  assumes "fade_of d ag = (Some c, True, True, rv, said)"
  shows "gone d rv said (check_closing_bound d ag) \<or> c < MAX_CLOSING_FRAMES \<and> fade_of d (check_closing_bound d ag) = fade_of d ag"
proof -
  have "dget (ag_closing ag) d = Some c" using assms by (simp add: fade_of_def)
  with finish_gone [OF assms] show ?thesis by (auto simp: check_closing_bound_def)
qed

lemma done_or_gone:
  assumes "fade_of d ag = (Some c, True, True, rv, said)"
  shows "gone d rv said (check_closing_done vw d s ag)
    \<or> c < MAX_CLOSING_FRAMES \<and> fade_of d (check_closing_done vw d s ag) = fade_of d ag"
  using bound_or_gone [OF assms] finish_gone [OF assms] by (auto simp: check_closing_done_def)

lemma render_fading:
  assumes f: "fade_of d ag = (Some c, True, True, rv, said)" and r: "render_player vw d ag = (ag', False)"
  shows "gone d rv said ag' \<or> Suc c < MAX_CLOSING_FRAMES \<and> fade_of d ag' = (Some (Suc c), True, True, rv, said)"
proof -
  obtain n s where ns: "dget (ag_universes ag) d = Some n" "dget (ag_bridges ag) d = Some s"
    using f by (auto simp: fade_of_def dmem_iff_get)
  have cl: "dget (ag_closing ag) d = Some c" using f by (simp add: fade_of_def)
  obtain s' out where lx: "lx_render (vw_lux vw) (vw_now vw) n s = (s', out)" by fastforce
  let ?ag2 = "(begin_render d ag)\<lparr>ag_bridges := dset d s' (ag_bridges ag)\<rparr>"
  have f2: "fade_of d ?ag2 = (Some (Suc c), True, True, rv, said)"
    using f cl by (simp add: fade_of_def begin_render_def Let_def)
  then have cl2: "dmem d (ag_closing ?ag2)" by (simp add: fade_of_def dmem_iff_get)
  show ?thesis
  proof (cases out)
    case None
    with r ns lx cl2 have "ag' = check_closing_bound d ?ag2" by (simp add: render_player_def Let_def)
    with bound_or_gone [OF f2] f2 show ?thesis by auto
  next
    case (Some full)
    with r ns lx have e: "end_render vw d (dget (ag_pending ag) d) s' full ?ag2 = (ag', False)"
      by (simp add: render_player_def Let_def)
    then obtain fr where "ag' = check_closing_done vw d s' (show_frame vw d (dget (ag_pending ag) d) fr ?ag2)"
      using cl2 by (auto simp: end_render_def Let_def split: option.splits)
    moreover have "fade_of d (show_frame vw d (dget (ag_pending ag) d) fr ?ag2) = (Some (Suc c), True, True, rv, said)"
      using f2 by (simp only: fade_show)
    ultimately show ?thesis using done_or_gone [where vw = vw and s = s'] by metis
  qed
qed

lemma gone_stays:
  assumes "gone d rv said ag"
  shows "gone d rv said (fst (render_player vw d' ag))"
proof (cases "d' = d")
  case True
  have "\<not> dmem d (ag_universes ag)" using assms by (simp add: gone_def fade_of_def)
  then have "dget (ag_universes ag) d = None" by (simp add: dmem_iff_get)
  with assms True show ?thesis by (simp add: render_player_def)
next
  case False
  then have "fade_of d (fst (render_player vw d' ag)) = fade_of d ag" by (rule fade_render_other)
  with assms show ?thesis by (simp only: gone_def)
qed

lemma gone_pass: "gone d rv said ag \<Longrightarrow> gone d rv said (fst (for_each (render_player vw) ds ag))"
proof (induction ds arbitrary: ag)
  case (Cons x ds)
  obtain ag1 r where r: "render_player vw x ag = (ag1, r)" by fastforce
  with gone_stays [OF Cons.prems, of vw x] have "gone d rv said ag1" by simp
  with Cons.IH r show ?case by (cases r) simp_all
qed simp

lemma fading_pass:
  assumes "fading d rv said k ag" and "for_each (render_player vw) ds ag = (ag', False)"
  shows "gone d rv said ag' \<or> fading d rv said k ag' \<and> (d \<in> set ds \<longrightarrow> fading d rv said (Suc k) ag' \<and> Suc k < MAX_CLOSING_FRAMES)"
  using assms
proof (induction ds arbitrary: ag k)
  case (Cons x ds)
  obtain ag1 where r: "render_player vw x ag = (ag1, False)" and rest: "for_each (render_player vw) ds ag1 = (ag', False)"
    using Cons.prems(2) by (auto split: prod.splits bool.splits)
  show ?case
  proof (cases "x = d")
    case False
    have "fade_of d ag1 = fade_of d ag" using fade_render_other [OF False, of vw ag] r by simp
    with Cons.prems(1) have "fading d rv said k ag1" by (simp only: fading_def)
    from Cons.IH [OF this rest] False show ?thesis by auto
  next
    case True
    from Cons.prems(1) obtain c where c: "k \<le> c" "fade_of d ag = (Some c, True, True, rv, said)" by (auto simp: fading_def)
    from render_fading [OF c(2)] r True
    consider "gone d rv said ag1" | "Suc c < MAX_CLOSING_FRAMES" "fade_of d ag1 = (Some (Suc c), True, True, rv, said)" by blast
    then show ?thesis
    proof cases
      case 1
      from gone_pass [OF this, of vw ds] rest show ?thesis by simp
    next
      case 2
      then have "fading d rv said (Suc k) ag1" using c(1) by (auto simp: fading_def)
      from Cons.IH [OF this rest] 2 c(1) show ?thesis by (auto simp: fading_def)
    qed
  qed
qed simp

lemma fading_frames:
  assumes f: "fading d rv said k ag" and r: "render_frames vw ag = (ag', False)"
  shows "gone d rv said ag' \<or> fading d rv said (Suc k) ag' \<and> Suc k < MAX_CLOSING_FRAMES"
proof -
  obtain ag1 where p: "for_each (render_player vw) (dkeys (ag_bridges ag)) ag = (ag1, False)"
    and q: "for_each (render_roleless vw) (roleless ag1) ag1 = (ag', False)"
    using r by (auto simp: render_frames_def and_then_def split: prod.splits bool.splits)
  have same: "fade_of d ag' = fade_of d ag1" using fade_roleless_all [of d vw "roleless ag1" ag1] q by simp
  have "d \<in> set (dkeys (ag_bridges ag))" using f by (auto simp: fading_def fade_of_def dmem_def)
  with fading_pass [OF f p] have "gone d rv said ag1 \<or> fading d rv said (Suc k) ag1 \<and> Suc k < MAX_CLOSING_FRAMES" by blast
  with same show ?thesis by (simp only: gone_def fading_def)
qed

lemma gone_frames: "gone d rv said ag \<Longrightarrow> gone d rv said (fst (render_frames vw ag))"
proof -
  assume g: "gone d rv said ag"
  obtain ag1 r where p: "for_each (render_player vw) (dkeys (ag_bridges ag)) ag = (ag1, r)" by fastforce
  with gone_pass [OF g, of vw "dkeys (ag_bridges ag)"] have g1: "gone d rv said ag1" by simp
  then have "gone d rv said (fst (for_each (render_roleless vw) (roleless ag1) ag1))"
    by (simp only: gone_def fade_roleless_all)
  with g1 p show ?thesis by (cases r) (simp_all add: render_frames_def and_then_def)
qed

lemma fading_run:
  assumes "fading d rv said k ag" and "for_each render_frames vws ag = (ag', False)"
    and "MAX_CLOSING_FRAMES \<le> k + length vws" and "vws \<noteq> []"
  shows "gone d rv said ag'"
  using assms
proof (induction vws arbitrary: ag k)
  case (Cons vw vws)
  have stay: "gone d rv said a \<Longrightarrow> gone d rv said (fst (for_each render_frames ws a))" for ws :: "('b, 'a) view list" and a
  proof (induction ws arbitrary: a)
    case (Cons w ws)
    obtain a1 r where r: "render_frames w a = (a1, r)" by fastforce
    with gone_frames [OF Cons.prems, of w] have "gone d rv said a1" by simp
    with Cons.IH r show ?case by (cases r) simp_all
  qed simp
  obtain ag1 where r: "render_frames vw ag = (ag1, False)" and rest: "for_each render_frames vws ag1 = (ag', False)"
    using Cons.prems(2) by (auto split: prod.splits bool.splits)
  from fading_frames [OF Cons.prems(1) r]
  consider "gone d rv said ag1" | "fading d rv said (Suc k) ag1" "Suc k < MAX_CLOSING_FRAMES" by blast
  then show ?case
  proof cases
    case 1
    from stay [OF this, of vws] rest show ?thesis by simp
  next
    case 2
    with Cons.prems(3) have "MAX_CLOSING_FRAMES \<le> Suc k + length vws" "vws \<noteq> []" by auto
    with Cons.IH [OF 2(1) rest] show ?thesis by simp
  qed
qed simp

text \<open>
  C7: A released device is told so once, and in time. Take any run that leaves a device closing, then render 200
  times without an exception: by then its session is gone and it has been sent exactly one /release, whatever its
  session did. Its connection is dropped as well, unless it was heard of during the fade.
\<close>
theorem release_is_told_once_and_in_time:
  assumes "ag = foldl agent_step (fst (new_agent vw horizon stale epoch audio console profile lost_after)) calls"
    and "dmem d (ag_closing ag)" and "MAX_CLOSING_FRAMES \<le> length vws" and "for_each render_frames vws ag = (ag', False)"
  shows "\<not> dmem d (ag_closing ag') \<and> \<not> dmem d (ag_bridges ag')
    \<and> filter (concerns d) (ag_out ag') = filter (concerns d) (ag_out ag)
        @ Sent d M_Release # (if d \<in> set (ag_revived ag) then [] else [Dropped d])"
proof -
  have ok: "agent_ok ag" unfolding assms(1) by (rule agent_ok_run)
  then have "dmem d (ag_bridges ag)" "dmem d (ag_universes ag)" using assms(2) by (simp_all add: ok_defs)
  with assms(2) have "fading d (d \<in> set (ag_revived ag)) (filter (concerns d) (ag_out ag)) 0 ag"
    by (auto simp: fading_def fade_of_def dmem_iff_get)
  moreover have "vws \<noteq> []" using assms(3) by (auto simp: MAX_CLOSING_FRAMES_def)
  ultimately have "gone d (d \<in> set (ag_revived ag)) (filter (concerns d) (ag_out ag)) ag'"
    using fading_run [OF _ assms(4)] assms(3) by simp
  then show ?thesis by (simp add: gone_def fade_of_def dmem_iff_get)
qed

subsection \<open>Deadlines\<close>

lemma earlier_fin: "earlier (Fin t) (Some (Fin p)) = Fin (min t p)" "earlier x None = x"
  by (simp_all add: earlier_def flt_def min_def)

lemma feeds_keep:
  assumes "fixture_for d ag = None" and "dget (ag_bridges ag) d \<noteq> None" and "\<And>a b c s. snd (lx_feed (vw_lux vw) a b c s)"
  shows "fixture_for d (feed_light_now vw d st d1 d2 (Some (Fin t)) ag) = None"
    and "dget (ag_bridges (feed_light_now vw d st d1 d2 (Some (Fin t)) ag)) d \<noteq> None"
    and "dget (ag_pending (feed_light_now vw d st d1 d2 (Some (Fin t)) ag)) d = Some (earlier (Fin t) (dget (ag_pending ag) d))"
proof -
  obtain s where s: "dget (ag_bridges ag) d = Some s" using assms(2) by auto
  obtain s' where f: "lx_feed (vw_lux vw) st d1 d2 s = (s', True)" using assms(3) [of st d1 d2 s] by (cases "lx_feed (vw_lux vw) st d1 d2 s") auto
  show "fixture_for d (feed_light_now vw d st d1 d2 (Some (Fin t)) ag) = None"
    and "dget (ag_bridges (feed_light_now vw d st d1 d2 (Some (Fin t)) ag)) d \<noteq> None"
    and "dget (ag_pending (feed_light_now vw d st d1 d2 (Some (Fin t)) ag)) d = Some (earlier (Fin t) (dget (ag_pending ag) d))"
    using assms(1) s f by (auto simp: feed_light_now_def fixture_for_def split: option.splits)
qed

lemma min_of_two:
  assumes "finite (S :: rat set)"
  shows "Min (insert p (insert t S)) = Min (insert (min t p) S)"
  by (cases "S = {}") (simp_all add: assms ac_simps)

text \<open>
  The soonest deadline wins. Whatever cues a device's session takes before it is rendered, in whatever order, the
  time its next frame is to be shown at is the earliest of theirs.
\<close>
theorem soonest_deadline_wins:
  assumes "fixture_for d ag = None" and "dget (ag_bridges ag) d \<noteq> None" and "dget (ag_pending ag) d = None"
    and "\<And>a b c s. snd (lx_feed (vw_lux vw) a b c s)" and "cues \<noteq> []"
  shows "dget (ag_pending (fold (\<lambda>(st, d1, d2, t). feed_light_now vw d st d1 d2 (Some (Fin t))) cues ag)) d
    = Some (Fin (Min ((\<lambda>(st, d1, d2, t). t) ` set cues)))"
proof -
  have go: "dget (ag_pending (fold (\<lambda>(st, d1, d2, t). feed_light_now vw d st d1 d2 (Some (Fin t))) cs a)) d
      = Some (Fin (Min (insert p ((\<lambda>(st, d1, d2, t). t) ` set cs))))"
    if "fixture_for d a = None" "dget (ag_bridges a) d \<noteq> None" "dget (ag_pending a) d = Some (Fin p)" for cs p a
    using that
  proof (induction cs arbitrary: a p)
    case (Cons c cs)
    obtain st d1 d2 t where c: "c = (st, d1, d2, t)" by (metis prod_cases4)
    let ?a = "feed_light_now vw d st d1 d2 (Some (Fin t)) a"
    note k = feeds_keep [OF Cons.prems(1,2) assms(4), of st d1 d2 t]
    have "dget (ag_pending ?a) d = Some (Fin (min t p))" using k(3) Cons.prems(3) by (simp add: earlier_fin)
    from Cons.IH [OF k(1,2) this] show ?case
      by (simp only: c fold_Cons comp_apply prod.case list.set image_insert min_of_two finite_imageI List.finite_set)
  qed simp
  obtain st d1 d2 t rest where c: "cues = (st, d1, d2, t) # rest" using assms(5) by (metis neq_Nil_conv prod_cases4)
  note k = feeds_keep [OF assms(1,2,4), of st d1 d2 t]
  have "dget (ag_pending (feed_light_now vw d st d1 d2 (Some (Fin t)) ag)) d = Some (Fin t)"
    using k(3) assms(3) by (simp add: earlier_fin)
  from go [OF k(1,2) this, of rest] show ?thesis by (simp add: c)
qed

subsection \<open>A concrete agent\<close>

text \<open>Sessions that render every channel at 9 and end their fade at once.\<close>

definition demo_lux :: "unit lux" where
  "demo_lux = \<lparr>lx_feed = (\<lambda>_ _ _ s. (s, True)), lx_render = (\<lambda>_ n s. (s, Some (replicate n 9))), lx_closing = (\<lambda>_. Some False),
     lx_clear = id, lx_swap = (\<lambda>_ s. s), lx_fixture = (\<lambda>_ _ _. ()), lx_player = (\<lambda>_ _ _ _. Some ())\<rparr>"

definition demo_view :: "(unit, unit) view" where
  "demo_view = \<lparr>vw_env = demo_env [], vw_gs = new_engine None, vw_now = 0, vw_lux = demo_lux, vw_pulse = (\<lambda>_. 0),
     vw_invite_interval = 5, vw_ceremony_gap = 1, vw_outputs = (\<lambda>_ _. Some [])\<rparr>"

definition demo_grant :: join_result where
  "demo_grant = \<lparr>jr_granted = True, jr_role = Some ''player'', jr_class = Some UNIQUE, jr_scored = Some True,
     jr_breath = Some True, jr_reason = NoReason, jr_slot = None, jr_instrument = None, jr_zones = []\<rparr>"

definition demo_agent :: "unit agent" where
  "demo_agent = fst (new_agent demo_view (1 / 10) 15 ''e'' False False None 5)"

lemma demo_agent: "demo_agent = blank_agent (1 / 10) 15 ''e'' False False None 5 0"
  by (simp add: demo_agent_def new_agent_def and_then_def setup_room_def demo_view_def new_engine_def ensure_outputs_def
      blank_agent_def Let_def)

lemmas demo_defs = demo_view_def demo_lux_def demo_grant_def demo_agent blank_agent_def new_engine_def

text \<open>Joined, and released.\<close>

definition demo_released :: "unit agent" where
  "demo_released = agent_step demo_agent
     (Call_Engine [(demo_view, SinkGrant ''cap'' demo_grant []), (demo_view, SinkRelease ''cap'')])"

lemma demo_released_fields:
  "ag_closing demo_released = [(''cap'', 0)]" "ag_revived demo_released = []"
  "filter (concerns ''cap'') (ag_out demo_released) = []"
  by (simp_all add: demo_released_def callbacks_def on_grant_def on_release_def demo_defs device_pixels_def pool_get_def
      tell_def says_def drop_key_def player_pixels_def PLAYER_PIXELS_def CHANNELS_PER_PIXEL_WIRE_def)

lemma nothing_left: "ag_bridges ag = [] \<Longrightarrow> roleless ag = [] \<Longrightarrow> for_each render_frames vws ag = (ag, False)"
  by (induction vws) (simp_all add: render_frames_def and_then_def)

lemma demo_first_render:
  "\<exists>ag1. render_frames demo_view demo_released = (ag1, False) \<and> ag_bridges ag1 = [] \<and> roleless ag1 = []"
proof -
  let ?r = "render_frames demo_view demo_released"
  have r: "snd ?r = False" by code_simp
  have b: "length (ag_bridges (fst ?r)) = 0" by code_simp
  have "length (ag_overrides (fst ?r)) = 0" by code_simp
  moreover have "length (ag_flashes (fst ?r)) = 0" by code_simp
  moreover have "length (ag_override_only (fst ?r)) = 0" by code_simp
  moreover have "length (ag_bases (fst ?r)) = 0" by code_simp
  ultimately have "roleless (fst ?r) = []" by (simp add: roleless_def)
  with r b show ?thesis by (intro exI [of _ "fst ?r"]) (simp only: prod_eq_iff fst_conv snd_conv length_0_conv simp_thms)
qed

lemma release_is_told_once_and_in_time_witness:
  "\<exists>ag'. for_each render_frames (replicate 200 demo_view) demo_released = (ag', False)
     \<and> filter (concerns ''cap'') (ag_out ag') = [Sent ''cap'' M_Release, Dropped ''cap'']"
proof -
  obtain ag1 where ag1: "render_frames demo_view demo_released = (ag1, False)" "ag_bridges ag1 = []" "roleless ag1 = []"
    using demo_first_render by blast
  have "replicate 200 demo_view = demo_view # replicate 199 demo_view" by (simp add: numeral_eq_Suc)
  then have run: "for_each render_frames (replicate 200 demo_view) demo_released = (ag1, False)"
    using ag1 nothing_left [OF ag1(2,3)] by simp
  have reach: "demo_released = foldl agent_step (fst (new_agent demo_view (1 / 10) 15 ''e'' False False None 5))
      [Call_Engine [(demo_view, SinkGrant ''cap'' demo_grant []), (demo_view, SinkRelease ''cap'')]]"
    by (simp add: demo_released_def demo_agent_def)
  have "dmem ''cap'' (ag_closing demo_released)" "MAX_CLOSING_FRAMES \<le> length (replicate 200 demo_view)"
    by (simp_all add: demo_released_fields dmem_def MAX_CLOSING_FRAMES_def)
  from release_is_told_once_and_in_time [OF reach this run] run show ?thesis by (simp add: demo_released_fields)
qed

lemma soonest_deadline_wins_witness:
  "dget (ag_pending (fold (\<lambda>(st, d1, d2, t). feed_light_now demo_view ''cap'' st d1 d2 (Some (Fin t)))
     [(176, 1, 2, 7), (176, 1, 3, 5)] (on_grant demo_view ''cap'' demo_grant [] demo_agent))) ''cap'' = Some (Fin 5)"
proof -
  let ?ag = "on_grant demo_view ''cap'' demo_grant [] demo_agent"
  have p: "fixture_for ''cap'' ?ag = None" "dget (ag_bridges ?ag) ''cap'' \<noteq> None" "dget (ag_pending ?ag) ''cap'' = None"
    by (simp_all add: on_grant_def demo_defs tell_def says_def fixture_for_def fixture_name_def FIXTURE_PREFIX_def)
  have f: "snd (lx_feed (vw_lux demo_view) a b c s)" for a b c s by (simp add: demo_defs)
  from soonest_deadline_wins [OF p f, of "[(176, 1, 2, 7), (176, 1, 3, 5)]"] show ?thesis by simp
qed

lemma nothing_lights_a_blackout_witness:
  "painted ''cap'' [1, 2, 3, 4] (foldl agent_step demo_agent [Call_Engine [(demo_view, SinkMute ''cap'' True)]])
   = Some [0, 0, 0, 0]"
proof -
  let ?ag = "foldl agent_step (fst (new_agent demo_view (1 / 10) 15 ''e'' False False None 5))
    [Call_Engine [(demo_view, SinkMute ''cap'' True)]]"
  have "''cap'' \<in> set (ag_muted ?ag)" "dmem ''cap'' (ag_overrides ?ag)"
    unfolding demo_agent_def [symmetric]
    by (simp_all add: callbacks_def on_mute_change_def fixture_key_def fixture_name_def FIXTURE_PREFIX_def demo_defs
        invalidate_frame_def fixture_for_def Let_def dmem_def)
  from nothing_lights_a_blackout [OF refl this, of "[1, 2, 3, 4]"] show ?thesis
    by (simp add: demo_agent_def numeral_eq_Suc)
qed

subsection \<open>What goes wrong\<close>

text \<open>
  A muted device comes back lit. Its mute outlives its release but the blackout does not: when it is granted a
  role again it is still muted, and what it is sent is its session's frame.
\<close>
theorem muted_device_comes_back_lit:
  "let ag1 = fst (render_frames demo_view (agent_step demo_agent (Call_Engine [(demo_view, SinkGrant ''cap'' demo_grant []),
               (demo_view, SinkMute ''cap'' True), (demo_view, SinkRelease ''cap'')])));
       ag2 = fst (render_frames demo_view (agent_step ag1 (Call_Engine [(demo_view, SinkGrant ''cap'' demo_grant [])])))
   in ''cap'' \<in> set (ag_muted ag2) \<and> last (ag_out ag2) = Sent ''cap'' (M_Leds (replicate 36 18) (Fin (1 / 10)))"
  by code_simp

text \<open>
  A flash that is no colour stops every tick. A Bit's flash with a component above 255 is taken, and from then on
  every render raises out of the poll until the flash has lapsed.
\<close>
theorem out_of_range_flash_stops_every_tick:
  "let ag1 = agent_step demo_agent (Call_Engine [(demo_view, SinkGrant ''cap'' demo_grant []),
               (demo_view, SinkFlash ''cap'' 0 [300, 0, 0] (Fin 60) (Fin 0))]);
       p1 = poll [] [] [] demo_view [] demo_view ag1;
       p2 = poll [] [] [] demo_view [] demo_view (fst p1)
   in snd p1 \<and> snd p2"
  by code_simp

end
