(* ===== verification/Queue_Refinement.thy ===== *)
theory Queue_Refinement
  imports Timed_Queue
begin

section \<open>The timed queue refines a bag of dated payloads\<close>

text \<open>
  What \<open>TimedQueue\<close> (\<open>src/control/timed_queue.py\<close>) promises, without its list, its sequence numbers and its
  counters: a bag of payloads with their times. The refinement is stated for any machine with outputs.
\<close>

locale refinement =
  fixes cstep :: "'c \<Rightarrow> 'e \<Rightarrow> 'c \<times> 'co"
    and astep :: "'a \<Rightarrow> 'e \<Rightarrow> 'a \<times> 'ao"
    and alpha :: "'c \<Rightarrow> 'a"
    and seen :: "'co \<Rightarrow> 'ao"
    and inv :: "'c \<Rightarrow> bool"
    and allowed :: "'e \<Rightarrow> bool"
  assumes inv_cstep: "inv c \<Longrightarrow> allowed e \<Longrightarrow> inv (fst (cstep c e))"
    and simulates: "inv c \<Longrightarrow> allowed e \<Longrightarrow>
        astep (alpha c) e = (alpha (fst (cstep c e)), seen (snd (cstep c e)))"
begin

fun crun :: "'c \<Rightarrow> 'e list \<Rightarrow> 'c \<times> 'co list" where
  "crun c [] = (c, [])"
| "crun c (e # es) = (let (c1, out) = cstep c e; (c2, outs) = crun c1 es in (c2, out # outs))"

fun arun :: "'a \<Rightarrow> 'e list \<Rightarrow> 'a \<times> 'ao list" where
  "arun a [] = (a, [])"
| "arun a (e # es) = (let (a1, out) = astep a e; (a2, outs) = arun a1 es in (a2, out # outs))"

lemma run_simulates:
  "inv c \<Longrightarrow> list_all allowed es \<Longrightarrow> arun (alpha c) es = (alpha (fst (crun c es)), map seen (snd (crun c es)))"
proof (induction es arbitrary: c)
  case (Cons e es)
  obtain c1 out where s: "cstep c e = (c1, out)" by fastforce
  with Cons.prems have "inv c1" "astep (alpha c) e = (alpha c1, seen out)"
    using inv_cstep [of c e] simulates [of c e] by simp_all
  with Cons.IH [of c1] Cons.prems(2) s show ?case by (simp add: Let_def case_prod_beta)
qed simp

end

text \<open>A call on the queue and on the bag; only a drain says something.\<close>

fun queue_call_out :: "'p tqueue \<Rightarrow> 'p queue_call \<Rightarrow> 'p tqueue \<times> 'p list" where
  "queue_call_out q (CallPush w p now) = (tq_push w p now q, [])"
| "queue_call_out q (CallDue now) = (case tq_due now q of (out, q') \<Rightarrow> (q', out))"
| "queue_call_out q (CallPurge drops) = (tq_purge drops q, [])"

type_synonym 'p bag = "(pyfloat \<times> 'p) multiset"

fun bag_step :: "'p bag \<Rightarrow> 'p queue_call \<Rightarrow> 'p bag \<times> 'p multiset" where
  "bag_step b (CallPush w p now) = (add_mset (release_time w now, p) b, {#})"
| "bag_step b (CallDue now) =
     (filter_mset (\<lambda>(t, _). flt (Fin now) t) b, image_mset snd (filter_mset (\<lambda>(t, _). fle t (Fin now)) b))"
| "bag_step b (CallPurge drops) = (filter_mset (\<lambda>(_, p). \<not> drops p) b, {#})"

lemma purge_waits: "tq_waiting (tq_purge drops q) = filter_mset (\<lambda>(_, p). \<not> drops p) (tq_waiting q)"
  by (simp add: tq_waiting_def tq_purge_def filter_mset_image_mset case_prod_beta comp_def)

lemma no_nan_waits: "no_nan q \<Longrightarrow> \<forall>x \<in># tq_waiting q. fst x \<noteq> NaN"
  by (auto simp: no_nan_def tq_waiting_def)

lemma queue_call_state: "fst (queue_call_out q c) = queue_step q c"
  by (cases c) (simp_all add: case_prod_beta)

interpretation bag: refinement queue_call_out bag_step tq_waiting mset no_nan timed
proof
  show "no_nan (fst (queue_call_out q c))" if "no_nan q" "timed c" for q :: "'a tqueue" and c
    using timed_step [OF that(2,1)] by (simp add: queue_call_state)
  show "bag_step (tq_waiting q) c = (tq_waiting (fst (queue_call_out q c)), mset (snd (queue_call_out q c)))"
    if "no_nan q" "timed c" for q :: "'a tqueue" and c
  proof (cases c)
    case (CallPush w p now)
    then show ?thesis by (simp add: tq.push_waits)
  next
    case (CallDue now)
    then show ?thesis
      by (simp add: case_prod_beta tq.due_out tq.due_left [OF no_nan_waits [OF that(1)]])
  next
    case (CallPurge drops)
    then show ?thesis by (simp add: purge_waits)
  qed
qed

fun queue_run :: "'p tqueue \<Rightarrow> 'p queue_call list \<Rightarrow> 'p tqueue \<times> 'p list list" where
  "queue_run q [] = (q, [])"
| "queue_run q (c # cs) = (let (q1, out) = queue_call_out q c; (q2, outs) = queue_run q1 cs in (q2, out # outs))"

fun bag_run :: "'p bag \<Rightarrow> 'p queue_call list \<Rightarrow> 'p bag \<times> 'p multiset list" where
  "bag_run b [] = (b, [])"
| "bag_run b (c # cs) = (let (b1, out) = bag_step b c; (b2, outs) = bag_run b1 cs in (b2, out # outs))"

lemma queue_run_crun: "queue_run q cs = bag.crun q cs"
  by (induction cs arbitrary: q) (simp_all add: case_prod_beta)

lemma bag_run_arun: "bag_run b cs = bag.arun b cs"
  by (induction cs arbitrary: b) (simp_all add: case_prod_beta)

text \<open>
  C12: The queue is a bag of dated payloads. Whatever pushes, drains and purges it takes, as long as no time is NaN,
  each drain releases what the bag would release, and what waits is the bag.
\<close>
theorem queue_refines_a_bag:
  assumes "list_all timed cs"
  shows "bag_run {#} cs = (tq_waiting (fst (queue_run new_tqueue cs)), map mset (snd (queue_run new_tqueue cs)))"
proof -
  have n: "no_nan new_tqueue" and e: "tq_waiting new_tqueue = {#}"
    by (simp_all add: no_nan_def new_tqueue_def tq_waiting_def)
  show ?thesis using bag.run_simulates [OF n assms] by (simp only: e queue_run_crun bag_run_arun)
qed

lemma queue_refines_a_bag_witness:
  "snd (bag_run {#} demo_queue_calls) = map mset (snd (queue_run new_tqueue demo_queue_calls))"
proof -
  have "list_all timed demo_queue_calls" by (simp add: demo_queue_calls_def)
  from queue_refines_a_bag [OF this] show ?thesis by simp
qed

end
