(* ===== verification/Teardown.thy ===== *)
theory Teardown
  imports Prelude
begin

section \<open>Teardown and run profiles\<close>

subsection \<open>The teardown stack\<close>

text \<open>
  \<open>src/control/teardown.py\<close>. A step acts on the world \<open>'w\<close> and may raise; it does not touch the stack it is
  on (it is closed by then, so a push from a step raises inside that step). The stack is a list in push
  order.
\<close>

type_synonym 'w teardown_step = "string \<times> ('w \<Rightarrow> 'w \<times> bool)"

record 'w teardown =
  td_steps :: "'w teardown_step list"
  td_closed :: bool

definition new_teardown :: "'w teardown" where
  "new_teardown = \<lparr>td_steps = [], td_closed = False\<rparr>"

text \<open>\<open>None\<close> is the \<open>RuntimeError\<close> of a closed stack.\<close>

definition td_push :: "string \<Rightarrow> ('w \<Rightarrow> 'w \<times> bool) \<Rightarrow> 'w teardown \<Rightarrow> 'w teardown option" where
  "td_push name f st = (if td_closed st then None else Some (st\<lparr>td_steps := td_steps st @ [(name, f)]\<rparr>))"

fun unwind :: "'w teardown_step list \<Rightarrow> 'w \<Rightarrow> 'w \<times> string list" where
  "unwind [] w = (w, [])"
| "unwind ((name, f) # rest) w =
     (let (w1, failed) = f w; (w2, failures) = unwind rest w1
      in (w2, if failed then name # failures else failures))"

definition td_close :: "'w teardown \<Rightarrow> 'w \<Rightarrow> 'w teardown \<times> 'w \<times> string list" where
  "td_close st w =
     (if td_closed st then (st, w, [])
      else (let (w', failures) = unwind (rev (td_steps st)) w
            in (\<lparr>td_steps = [], td_closed = True\<rparr>, w', failures)))"

fun push_steps :: "'w teardown_step list \<Rightarrow> 'w teardown \<Rightarrow> 'w teardown option" where
  "push_steps [] st = Some st"
| "push_steps ((name, f) # rest) st = Option.bind (td_push name f st) (push_steps rest)"

lemma push_steps_open: "\<not> td_closed st \<Longrightarrow> push_steps xs st = Some (st\<lparr>td_steps := td_steps st @ xs\<rparr>)"
  by (induction xs st rule: push_steps.induct) (simp_all add: td_push_def)

text \<open>A step that records its name in a log, and fails or not.\<close>

definition logged :: "(string \<times> bool) \<Rightarrow> string list teardown_step" where
  "logged s = (fst s, \<lambda>hist. (hist @ [fst s], snd s))"

lemma unwind_logged:
  "unwind (map logged ss) hist = (hist @ map fst ss, map fst (filter snd ss))"
  by (induction ss arbitrary: hist) (auto simp: logged_def)

text \<open>
  Later in, earlier out, and every one. Closing a stack runs each registered step exactly once, last
  registered first, a raising step included, and reports exactly the names of the steps that raised, in the
  order they ran; a second close runs nothing and reports nothing, and no step can be registered any more.
\<close>
theorem teardown_runs_each_step_once:
  "\<exists>st st'. push_steps (map logged steps) new_teardown = Some st
     \<and> td_close st hist = (st', hist @ rev (map fst steps), map fst (filter snd (rev steps)))
     \<and> td_close st' hist' = (st', hist', []) \<and> td_push name f st' = None"
  by (auto simp: push_steps_open new_teardown_def td_close_def td_push_def unwind_logged rev_map)

subsection \<open>Run profiles\<close>

text \<open>
  \<open>src/control/run_profile.py\<close>, from the parsed TOML table on. The five fields are passed through as dynamic
  values; an unknown key only warns.
\<close>

record run_profile =
  pf_bit :: "pyval option"
  pf_room_type :: "pyval option"
  pf_devices :: "pyval option"
  pf_console_port :: "pyval option"
  pf_seconds :: "pyval option"
  pf_overrides :: "(string, pyval) dict"

text \<open>\<open>None\<close> is the \<open>ValueError\<close> of a \<open>[run]\<close> that is no table.\<close>

definition parse_profile :: "(string, pyval) dict \<Rightarrow> run_profile option" where
  "parse_profile table =
     (case (case dget table ''run'' of None \<Rightarrow> VDict [] | Some v \<Rightarrow> v) of
        VDict r \<Rightarrow>
          Some \<lparr>pf_bit = dget r ''bit'', pf_room_type = dget r ''room_type'', pf_devices = dget r ''devices'',
                pf_console_port = dget r ''console_port'', pf_seconds = dget r ''seconds'',
                pf_overrides =
                  (case dget table ''bit'' of
                     Some (VDict b) \<Rightarrow> (case dget b ''overrides'' of Some (VDict ov) \<Rightarrow> ov | _ \<Rightarrow> [])
                   | _ \<Rightarrow> [])\<rparr>
      | _ \<Rightarrow> None)"

fun merge_value :: "pyval option \<Rightarrow> pyval \<Rightarrow> pyval"
and merge_onto :: "(string, pyval) dict \<Rightarrow> (string \<times> pyval) list \<Rightarrow> (string, pyval) dict" where
  "merge_value (Some (VDict base)) (VDict cli) = VDict (merge_onto base cli)"
| "merge_value _ v = v"
| "merge_onto merged [] = merged"
| "merge_onto merged ((k, v) # rest) = merge_onto (dset k (merge_value (dget merged k) v) merged) rest"

definition deep_merge_overrides :: "(string, pyval) dict \<Rightarrow> (string, pyval) dict \<Rightarrow> (string, pyval) dict" where
  "deep_merge_overrides profile cli = merge_onto profile cli"

lemma merge_onto_get:
  "dict_ok cli \<Longrightarrow>
   dget (merge_onto base cli) k = (case dget cli k of None \<Rightarrow> dget base k | Some v \<Rightarrow> Some (merge_value (dget base k) v))"
proof (induction cli arbitrary: base)
  case (Cons x cli)
  obtain k' v where x: "x = (k', v)" by fastforce
  from Cons have "k' \<notin> fst ` set cli" by (auto simp: x)
  then have "dget cli k' = None" by (simp add: map_of_eq_None_iff)
  with Cons show ?case by (auto simp: x split: option.splits)
qed simp

text \<open>The value at the end of a path of keys.\<close>

fun at_path :: "(string, pyval) dict \<Rightarrow> string list \<Rightarrow> pyval option" where
  "at_path d [] = None"
| "at_path d [k] = dget d k"
| "at_path d (k # ks) = (case dget d k of Some (VDict m) \<Rightarrow> at_path m ks | _ \<Rightarrow> None)"

text \<open>Every table inside has distinct keys.\<close>

inductive tables_ok :: "(string, pyval) dict \<Rightarrow> bool" where
  "dict_ok d \<Longrightarrow> (\<And>k m. dget d k = Some (VDict m) \<Longrightarrow> tables_ok m) \<Longrightarrow> tables_ok d"

lemma tables_okD: "tables_ok d \<Longrightarrow> dict_ok d" "tables_ok d \<Longrightarrow> dget d k = Some (VDict m) \<Longrightarrow> tables_ok m"
  by (auto elim: tables_ok.cases)

text \<open>A path the command line neither sets nor cuts off above.\<close>

fun untouched :: "(string, pyval) dict \<Rightarrow> string list \<Rightarrow> bool" where
  "untouched d [] = False"
| "untouched d (k # ks) =
     (case dget d k of
        None \<Rightarrow> True
      | Some (VDict m) \<Rightarrow> untouched m ks
      | Some _ \<Rightarrow> False)"

fun is_table :: "pyval \<Rightarrow> bool" where
  "is_table (VDict _) = True"
| "is_table _ = False"

lemma merge_value_leaf: "\<not> is_table v \<Longrightarrow> merge_value b v = v"
  by (cases v; cases b) auto

lemma merge_value_table: "merge_value (Some b) (VDict m) = (case b of VDict d \<Rightarrow> VDict (merge_onto d m) | _ \<Rightarrow> VDict m)"
  by (cases b) auto

text \<open>
  The command line wins per key, and only there. Merging overrides keeps every leaf value the command
  line sets at its full path, and keeps the profile's value at every path on which the command line says
  nothing, nested tables included: setting one key of a table never drops the table's other keys.
\<close>
theorem merge_wins_per_path:
  assumes "tables_ok cli"
  shows "(\<forall>v. at_path cli path = Some v \<longrightarrow> \<not> is_table v \<longrightarrow> at_path (deep_merge_overrides profile cli) path = Some v)
    \<and> (untouched cli path \<longrightarrow> (\<forall>v. at_path profile path = Some v \<longrightarrow>
          at_path (deep_merge_overrides profile cli) path = Some v))"
  unfolding deep_merge_overrides_def
  using assms
proof (induction path arbitrary: profile cli)
  case (Cons k ks)
  note get = merge_onto_get [OF tables_okD(1) [OF Cons.prems], of profile k]
  show ?case
  proof (cases ks)
    case Nil
    then show ?thesis using get by (auto simp: merge_value_leaf split: option.splits pyval.splits)
  next
    case (Cons k2 rest)
    show ?thesis
    proof (cases "dget cli k")
      case None
      with Cons get show ?thesis by simp
    next
      case (Some v)
      show ?thesis
      proof (cases v)
        case (VDict m)
        note IH = Cons.IH [OF tables_okD(2) [OF Cons.prems Some [unfolded VDict]]]
        show ?thesis
        proof (cases "\<exists>d. dget profile k = Some (VDict d)")
          case True
          then obtain d where d: "dget profile k = Some (VDict d)" by blast
          with IH [of d] get Some VDict Cons show ?thesis by simp
        next
          case False
          with get Some VDict have "dget (merge_onto profile cli) k = Some (VDict m)"
            by (cases "dget profile k") (auto simp: merge_value_table split: pyval.split)
          with Some VDict Cons False show ?thesis by (auto split: option.splits pyval.splits)
        qed
      qed (use Some Cons in simp_all)
    qed
  qed
qed simp

lemma merge_wins_per_path_witness:
  "at_path (deep_merge_overrides [(''rhythm'', VDict [(''bpm'', VInt 90), (''cycles'', VInt 4)])]
      [(''rhythm'', VDict [(''bpm'', VInt 120)])]) [''rhythm'', ''bpm''] = Some (VInt 120)
   \<and> at_path (deep_merge_overrides [(''rhythm'', VDict [(''bpm'', VInt 90), (''cycles'', VInt 4)])]
      [(''rhythm'', VDict [(''bpm'', VInt 120)])]) [''rhythm'', ''cycles''] = Some (VInt 4)"
proof -
  have "tables_ok [(''bpm'', VInt 120)]" by (rule tables_ok.intros) (auto split: if_splits)
  then have "tables_ok [(''rhythm'', VDict [(''bpm'', VInt 120)])]" by (intro tables_ok.intros [of "[(''rhythm'', _)]"]) (auto split: if_splits)
  note m = merge_wins_per_path [OF this, of _ "[(''rhythm'', VDict [(''bpm'', VInt 90), (''cycles'', VInt 4)])]"]
  from m [of "[''rhythm'', ''bpm'']"] m [of "[''rhythm'', ''cycles'']"] show ?thesis by simp
qed

end
