(* ===== verification/Midi.thy ===== *)
theory Midi
  imports Pixel_Wire
begin

section \<open>Standard MIDI files\<close>

text \<open>
  \<open>src/control/midifile.py\<close>. A position in a buffer with its end is the list of the bytes still to read, so
  a read past the end is a read of the empty list. \<open>None\<close> is the \<open>ValueError\<close>. Beats are exact.
\<close>

record midi_event =
  me_beat :: rat
  me_status :: nat
  me_data1 :: nat
  me_data2 :: nat

record midi_file =
  mf_ticks_per_beat :: nat
  mf_tempo_bpm :: "rat option"
  mf_events :: "midi_event list"
  mf_end_beat :: rat
  mf_name :: "string option"

definition loop_beats :: "nat \<Rightarrow> midi_file \<Rightarrow> rat" where
  "loop_beats beats_per_bar mf =
     of_int (max 1 \<lceil>mf_end_beat mf / of_nat beats_per_bar\<rceil> * int beats_per_bar)"

definition kind_of :: "nat \<Rightarrow> nat" where
  "kind_of status = status div 16 * 16"

definition first_note_beat :: "midi_file \<Rightarrow> rat option" where
  "first_note_beat mf = map_option me_beat (List.find (\<lambda>e. kind_of (me_status e) = 144) (mf_events mf))"

subsection \<open>Parsing\<close>

text \<open>At most four bytes; the first argument is how many may still come.\<close>

fun vlq_loop :: "nat \<Rightarrow> nat \<Rightarrow> byte list \<Rightarrow> (nat \<times> byte list) option" where
  "vlq_loop 0 value bs = None"
| "vlq_loop (Suc n) value [] = None"
| "vlq_loop (Suc n) value (b # bs) =
     (let value' = value * 128 + unat b mod 128
      in if unat b < 128 then Some (value', bs) else vlq_loop n value' bs)"

definition vlq :: "byte list \<Rightarrow> (nat \<times> byte list) option" where
  "vlq bs = vlq_loop 4 0 bs"

fun big_endian :: "byte list \<Rightarrow> nat" where
  "big_endian bs = foldl (\<lambda>n b. n * 256 + unat b) 0 bs"

text \<open>A number of bytes that must all be there.\<close>

definition take_bytes :: "nat \<Rightarrow> byte list \<Rightarrow> (byte list \<times> byte list) option" where
  "take_bytes n bs = (if length bs < n then None else Some (take n bs, drop n bs))"

definition latin1 :: "byte list \<Rightarrow> string" where
  "latin1 bs = map (\<lambda>b. char_of (unat b)) bs"

type_synonym tick_event = "nat \<times> nat \<times> nat \<times> nat"

record track_state =
  ts_events :: "tick_event list"
  ts_tick :: nat
  ts_running :: nat
  ts_tempo :: "nat option"
  ts_name :: "string option"
  ts_end :: "nat option"

definition track_start :: track_state where
  "track_start = \<lparr>ts_events = [], ts_tick = 0, ts_running = 0, ts_tempo = None, ts_name = None, ts_end = None\<rparr>"

definition meta_event :: "nat \<Rightarrow> byte list \<Rightarrow> track_state \<Rightarrow> track_state option" where
  "meta_event mtype body ts =
     (if mtype = 47 then Some (ts\<lparr>ts_end := Some (ts_tick ts)\<rparr>)
      else if mtype = 81 \<and> ts_tempo ts = None \<and> length body = 3
      then (if big_endian body = 0 then None else Some (ts\<lparr>ts_tempo := Some (big_endian body)\<rparr>))
      else if mtype = 3 \<and> ts_name ts = None then Some (ts\<lparr>ts_name := Some (latin1 body)\<rparr>)
      else Some ts)"

definition channel_event :: "nat \<Rightarrow> byte list \<Rightarrow> track_state \<Rightarrow> (byte list \<times> track_state) option" where
  "channel_event status bs ts =
     (let need = (if kind_of status = 192 \<or> kind_of status = 208 then 1 else 2)
      in case take_bytes need bs of
           None \<Rightarrow> None
         | Some (ds, rest) \<Rightarrow>
             (let d1 = unat (ds ! 0); d2 = (if need = 2 then unat (ds ! 1) else 0)
              in if 127 < d1 \<or> 127 < d2 then None
                 else (let st = (if kind_of status = 144 \<and> d2 = 0 then 128 + status mod 16 else status)
                       in Some (rest, ts\<lparr>ts_running := status,
                                         ts_events := ts_events ts @ [(ts_tick ts, st, d1, d2)]\<rparr>))))"

text \<open>One event of a track, from its delta time on.\<close>

definition after_status :: "nat \<Rightarrow> byte list \<Rightarrow> track_state \<Rightarrow> (byte list \<times> track_state) option" where
  "after_status status bs ts =
     (if status = 255
      then (case bs of
              [] \<Rightarrow> None
            | mtype # bs1 \<Rightarrow>
                (case vlq bs1 of
                   None \<Rightarrow> None
                 | Some (n, bs2) \<Rightarrow>
                     (case take_bytes n bs2 of
                        None \<Rightarrow> None
                      | Some (body, rest) \<Rightarrow>
                          map_option (\<lambda>ts'. (rest, ts')) (meta_event (unat mtype) body (ts\<lparr>ts_running := 0\<rparr>)))))
      else if status = 240 \<or> status = 247
      then (case vlq bs of
              None \<Rightarrow> None
            | Some (n, bs1) \<Rightarrow> map_option (\<lambda>(_, rest). (rest, ts\<lparr>ts_running := 0\<rparr>)) (take_bytes n bs1))
      else if 240 \<le> status then None
      else channel_event status bs ts)"

definition track_event :: "byte list \<Rightarrow> track_state \<Rightarrow> (byte list \<times> track_state) option" where
  "track_event bs ts =
     (case vlq bs of
        None \<Rightarrow> None
      | Some (delta, bs1) \<Rightarrow>
          (let ts1 = ts\<lparr>ts_tick := ts_tick ts + delta\<rparr>
           in case bs1 of
                [] \<Rightarrow> None
              | b # bs2 \<Rightarrow>
                  if unat b < 128
                  then (if ts_running ts1 = 0 then None else after_status (ts_running ts1) bs1 ts1)
                  else after_status (unat b) bs2 ts1))"

lemma vlq_loop_shorter: "vlq_loop n v bs = Some (x, rest) \<Longrightarrow> length rest < length bs"
  by (induction n v bs rule: vlq_loop.induct) (auto simp: Let_def split: if_splits)

lemma vlq_shorter: "vlq bs = Some (x, rest) \<Longrightarrow> length rest < length bs"
  by (simp add: vlq_def vlq_loop_shorter)

lemma take_bytes_shorter: "take_bytes n bs = Some (x, rest) \<Longrightarrow> length rest \<le> length bs"
  by (auto simp: take_bytes_def split: if_splits)

lemma after_status_shorter: "after_status st bs ts = Some (rest, ts') \<Longrightarrow> length rest \<le> length bs"
  by (auto simp: after_status_def channel_event_def Let_def dest!: vlq_shorter take_bytes_shorter
      split: if_splits list.splits option.splits prod.splits)

lemma track_event_shorter: "track_event bs ts = Some (rest, ts') \<Longrightarrow> length rest < length bs"
  by (auto simp: track_event_def Let_def dest!: vlq_shorter after_status_shorter
      split: if_splits list.splits option.splits prod.splits)

function track_loop :: "byte list \<Rightarrow> track_state \<Rightarrow> track_state option" where
  "track_loop bs ts =
     (if bs = [] then Some ts
      else case track_event bs ts of
             None \<Rightarrow> None
           | Some (rest, ts') \<Rightarrow> track_loop rest ts')"
  by pat_completeness auto

termination
  by (relation "measure (length \<circ> fst)") (auto dest: track_event_shorter)

declare track_loop.simps [simp del]

definition parse_track :: "byte list \<Rightarrow> (tick_event list \<times> nat \<times> nat option \<times> string option) option" where
  "parse_track bs =
     map_option (\<lambda>ts. (ts_events ts, (case ts_end ts of Some t \<Rightarrow> t | None \<Rightarrow> ts_tick ts), ts_tempo ts, ts_name ts))
       (track_loop bs track_start)"

definition chunk_id :: "string \<Rightarrow> byte list" where
  "chunk_id s = map (\<lambda>c. word_of_nat (of_char c)) s"

record parsed_tracks =
  pt_events :: "tick_event list"
  pt_end :: nat
  pt_tempo :: "nat option"
  pt_name :: "string option"

fun parse_tracks :: "nat \<Rightarrow> byte list \<Rightarrow> parsed_tracks \<Rightarrow> parsed_tracks option" where
  "parse_tracks 0 bs pt = Some pt"
| "parse_tracks (Suc n) bs pt =
     (case take_bytes 8 bs of
        None \<Rightarrow> None
      | Some (head, bs1) \<Rightarrow>
          (case take_bytes (big_endian (drop 4 head)) bs1 of
             None \<Rightarrow> None
           | Some (body, rest) \<Rightarrow>
               if take 4 head \<noteq> chunk_id ''MTrk'' then None
               else (case parse_track body of
                       None \<Rightarrow> None
                     | Some (events, t_end, t_tempo, t_name) \<Rightarrow>
                         parse_tracks n rest
                           \<lparr>pt_events = pt_events pt @ events, pt_end = max (pt_end pt) t_end,
                            pt_tempo = (if pt_tempo pt = None then t_tempo else pt_tempo pt),
                            pt_name = (if pt_name pt = None then t_name else pt_name pt)\<rparr>)))"

definition parse_midi :: "byte list \<Rightarrow> midi_file option" where
  "parse_midi data =
     (if length data < 14 \<or> take 4 data \<noteq> chunk_id ''MThd'' then None
      else (let hdr_len = big_endian (take 4 (drop 4 data));
                ntrks = big_endian (take 2 (drop 10 data));
                division = big_endian (take 2 (drop 12 data))
            in if hdr_len < 6 then None
               else if 32768 \<le> division then None
               else if division = 0 then None
               else map_option (\<lambda>pt.
                      \<lparr>mf_ticks_per_beat = division,
                       mf_tempo_bpm = map_option (\<lambda>t. 60000000 / of_nat t) (pt_tempo pt),
                       mf_events = map (\<lambda>(t, s, d1, d2).
                          \<lparr>me_beat = of_nat t / of_nat division, me_status = s, me_data1 = d1, me_data2 = d2\<rparr>)
                          (sort_key fst (pt_events pt)),
                       mf_end_beat = of_nat (pt_end pt) / of_nat division,
                       mf_name = pt_name pt\<rparr>)
                    (parse_tracks ntrks (drop (8 + hdr_len) data)
                      \<lparr>pt_events = [], pt_end = 0, pt_tempo = None, pt_name = None\<rparr>)))"

subsection \<open>What a parsed file is\<close>

definition channel_voice :: "tick_event \<Rightarrow> bool" where
  "channel_voice ev =
     (case ev of (_, s, d1, d2) \<Rightarrow>
        128 \<le> s \<and> s < 240 \<and> d1 \<le> 127 \<and> d2 \<le> 127 \<and> \<not> (kind_of s = 144 \<and> d2 = 0))"

definition track_ok :: "track_state \<Rightarrow> bool" where
  "track_ok ts \<longleftrightarrow> (\<forall>ev \<in> set (ts_events ts). channel_voice ev) \<and> (ts_running ts = 0 \<or> 128 \<le> ts_running ts \<and> ts_running ts < 240)"

lemma channel_event_ok:
  "channel_event st bs ts = Some (rest, ts') \<Longrightarrow> track_ok ts \<Longrightarrow> 128 \<le> st \<Longrightarrow> st < 240 \<Longrightarrow> track_ok ts'"
  by (auto simp: channel_event_def Let_def track_ok_def channel_voice_def kind_of_def
      split: option.splits prod.splits if_splits)

lemma after_status_ok:
  "after_status st bs ts = Some (rest, ts') \<Longrightarrow> track_ok ts \<Longrightarrow> 128 \<le> st \<Longrightarrow> track_ok ts'"
proof -
  assume a: "after_status st bs ts = Some (rest, ts')" and ok: "track_ok ts" and st: "128 \<le> st"
  have meta: "track_ok ts''" if "meta_event m body (ts\<lparr>ts_running := 0\<rparr>) = Some ts''" for m body ts''
    using that ok by (auto simp: meta_event_def track_ok_def split: if_splits)
  show ?thesis
  proof (cases "st < 240")
    case True
    with a have "channel_event st bs ts = Some (rest, ts')" by (simp add: after_status_def)
    then show ?thesis using channel_event_ok ok st True by blast
  next
    case False
    with a ok show ?thesis
      by (auto simp: after_status_def track_ok_def dest!: meta split: if_splits list.splits option.splits prod.splits)
  qed
qed

lemma track_event_ok: "track_event bs ts = Some (rest, ts') \<Longrightarrow> track_ok ts \<Longrightarrow> track_ok ts'"
proof -
  assume t: "track_event bs ts = Some (rest, ts')" and ok: "track_ok ts"
  have tick: "track_ok (ts\<lparr>ts_tick := n\<rparr>)" for n using ok by (simp add: track_ok_def)
  show ?thesis
    using t ok after_status_ok [OF _ tick]
    by (auto simp: track_event_def Let_def track_ok_def [of ts] split: option.splits prod.splits list.splits if_splits)
qed

lemma track_loop_ok: "track_loop bs ts = Some ts' \<Longrightarrow> track_ok ts \<Longrightarrow> track_ok ts'"
proof (induction bs ts rule: track_loop.induct)
  case (1 bs ts)
  then show ?case
    by (subst (asm) (2) track_loop.simps) (auto dest: track_event_ok split: if_splits option.splits)
qed

lemma parse_tracks_ok:
  "parse_tracks n bs pt = Some pt' \<Longrightarrow> \<forall>ev \<in> set (pt_events pt). channel_voice ev \<Longrightarrow>
   \<forall>ev \<in> set (pt_events pt'). channel_voice ev"
proof (induction n bs pt rule: parse_tracks.induct)
  case (2 n bs pt)
  from "2.prems"(1) obtain head bs1 body rest events t_end t_tempo t_name where
    parts: "take_bytes 8 bs = Some (head, bs1)" "take_bytes (big_endian (drop 4 head)) bs1 = Some (body, rest)"
      "take 4 head = chunk_id ''MTrk''" "parse_track body = Some (events, t_end, t_tempo, t_name)"
    and next_track: "parse_tracks n rest \<lparr>pt_events = pt_events pt @ events, pt_end = max (pt_end pt) t_end,
        pt_tempo = (if pt_tempo pt = None then t_tempo else pt_tempo pt),
        pt_name = (if pt_name pt = None then t_name else pt_name pt)\<rparr> = Some pt'"
    by (auto split: option.splits prod.splits if_splits simp del: big_endian.simps)
  from parts(4) obtain ts where "track_loop body track_start = Some ts" "events = ts_events ts"
    by (auto simp: parse_track_def)
  then have "\<forall>ev \<in> set events. channel_voice ev"
    using track_loop_ok [of body track_start ts] by (simp add: track_ok_def track_start_def)
  with "2.IH" [OF parts(1) refl parts(2) refl _ parts(4) refl refl refl next_track] parts(3) "2.prems"(2)
  show ?case by auto
qed simp

definition midi_ok :: "midi_file \<Rightarrow> bool" where
  "midi_ok mf \<longleftrightarrow> sorted (map me_beat (mf_events mf))
    \<and> (\<forall>e \<in> set (mf_events mf). 0 \<le> me_beat e \<and> channel_voice (0, me_status e, me_data1 e, me_data2 e))"

lemma parse_midi_ok:
  assumes "parse_midi data = Some mf"
  shows "midi_ok mf"
proof -
  from assms obtain n bs pt where
    p: "parse_tracks n bs \<lparr>pt_events = [], pt_end = 0, pt_tempo = None, pt_name = None\<rparr> = Some pt"
    and ev: "mf_events mf = map (\<lambda>(t, s, d1, d2).
        \<lparr>me_beat = of_nat t / of_nat (mf_ticks_per_beat mf), me_status = s, me_data1 = d1, me_data2 = d2\<rparr>)
        (sort_key fst (pt_events pt))"
    by (auto simp: parse_midi_def Let_def simp del: big_endian.simps split: if_splits)
  have voice: "\<forall>ev \<in> set (pt_events pt). channel_voice ev" using parse_tracks_ok [OF p] by simp
  have "sorted (map fst (sort_key fst (pt_events pt)))" by simp
  then have "sorted (map (\<lambda>t. of_nat t / of_nat (mf_ticks_per_beat mf) :: rat) (map fst (sort_key fst (pt_events pt))))"
    unfolding sorted_map sorted_wrt_map by (rule sorted_wrt_mono_rel [rotated]) (simp add: divide_right_mono)
  then show ?thesis
    using voice by (auto simp: midi_ok_def ev channel_voice_def case_prod_beta comp_def)
qed

lemma parse_midi_resolution:
  assumes "parse_midi data = Some mf"
  shows "0 < mf_ticks_per_beat mf \<and> mf_ticks_per_beat mf < 32768"
  using assms by (auto simp: parse_midi_def Let_def simp del: big_endian.simps split: if_splits)

text \<open>
  C17: What the reader returns can be played. Of every file it accepts, the resolution is a positive number
  of ticks per beat below 32768 (no beat is a division by zero), the events are in time order, at beat 0 or
  later, each one a channel message with data bytes below 128, and no note-on has velocity 0.
\<close>
theorem parsed_midi_is_playable:
  assumes "parse_midi data = Some mf"
  shows "0 < mf_ticks_per_beat mf \<and> mf_ticks_per_beat mf < 32768
    \<and> sorted (map me_beat (mf_events mf))
    \<and> (\<forall>e \<in> set (mf_events mf). 0 \<le> me_beat e \<and> 128 \<le> me_status e \<and> me_status e < 240
         \<and> me_data1 e \<le> 127 \<and> me_data2 e \<le> 127 \<and> \<not> (kind_of (me_status e) = 144 \<and> me_data2 e = 0))"
  using parse_midi_ok [OF assms] parse_midi_resolution [OF assms] by (auto simp: midi_ok_def channel_voice_def)

definition one_note_file :: "byte list" where
  "one_note_file = chunk_id ''MThd'' @ [0, 0, 0, 6, 0, 0, 0, 1, 0, 96] @ chunk_id ''MTrk''
     @ [0, 0, 0, 11, 0, 144, 60, 100, 48, 60, 0, 0, 255, 47, 0]"

lemma parsed_midi_is_playable_witness:
  "sorted (map me_beat (mf_events (the (parse_midi one_note_file)))) \<and> length (mf_events (the (parse_midi one_note_file))) = 2"
proof -
  have "\<not> Option.is_none (parse_midi one_note_file)" "length (mf_events (the (parse_midi one_note_file))) = 2"
    by code_simp+
  then have "parse_midi one_note_file = Some (the (parse_midi one_note_file))" by (simp add: Option.is_none_def)
  from parsed_midi_is_playable [OF this] \<open>length _ = 2\<close> show ?thesis by blast
qed

end
