(* ===== verification/Midi_Write.thy ===== *)
theory Midi_Write
  imports Midi
begin

section \<open>Reading back what was written\<close>


text \<open>A writer of one-track files, by the file format: every status written out, an end of track.\<close>

definition nat_byte :: "nat \<Rightarrow> byte" where "nat_byte n = word_of_nat n"

lemma unat_nat_byte: "n < 256 \<Longrightarrow> unat (nat_byte n) = n"
  by (simp add: nat_byte_def unat_of_nat)

definition vlq_bytes :: "nat \<Rightarrow> byte list" where
  "vlq_bytes n =
     (if n < 128 then [nat_byte n]
      else if n < 16384 then [nat_byte (128 + n div 128), nat_byte (n mod 128)]
      else if n < 2097152
      then [nat_byte (128 + n div 16384), nat_byte (128 + n div 128 mod 128), nat_byte (n mod 128)]
      else [nat_byte (128 + n div 2097152), nat_byte (128 + n div 16384 mod 128),
            nat_byte (128 + n div 128 mod 128), nat_byte (n mod 128)])"

lemma vlq_loop_more:
  "k < 128 \<Longrightarrow> vlq_loop (Suc n) v (nat_byte (128 + k) # bs) = vlq_loop n (v * 128 + k) bs"
  by (simp add: unat_nat_byte Let_def)

lemma vlq_loop_last: "k < 128 \<Longrightarrow> vlq_loop (Suc n) v (nat_byte k # bs) = Some (v * 128 + k, bs)"
  by (simp add: unat_nat_byte Let_def)

lemma vlq_read_back: "n < 268435456 \<Longrightarrow> vlq (vlq_bytes n @ bs) = Some (n, bs)"
proof -
  assume n: "n < 268435456"
  have four: "vlq = vlq_loop (Suc (Suc (Suc (Suc 0)))) 0" by (rule ext) (simp add: vlq_def numeral_eq_Suc)
  note steps = vlq_loop_more vlq_loop_last
  consider "n < 128" | "128 \<le> n" "n < 16384" | "16384 \<le> n" "n < 2097152" | "2097152 \<le> n" by linarith
  then show ?thesis
  proof cases
    case 1
    then show ?thesis unfolding four by (simp add: vlq_bytes_def steps del: vlq_loop.simps)
  next
    case 2
    then have "n div 128 < 128" "n div 128 * 128 + n mod 128 = n" by simp_all
    with 2 show ?thesis unfolding four by (simp add: vlq_bytes_def steps del: vlq_loop.simps)
  next
    case 3
    then have "n div 16384 < 128" "(n div 16384 * 128 + n div 128 mod 128) * 128 + n mod 128 = n"
      by (simp_all add: div_mult2_eq [of n 128 128, simplified])
    with 3 show ?thesis unfolding four by (simp add: vlq_bytes_def steps del: vlq_loop.simps)
  next
    case 4
    then have "n div 2097152 < 128"
      "((n div 2097152 * 128 + n div 16384 mod 128) * 128 + n div 128 mod 128) * 128 + n mod 128 = n"
      using n by (simp_all add: div_mult2_eq [of n 128 128, simplified] div_mult2_eq [of n 128 16384, simplified]
          div_mult2_eq [of "n div 128" 128 128, simplified])
    with 4 show ?thesis unfolding four by (simp add: vlq_bytes_def steps del: vlq_loop.simps)
  qed
qed

type_synonym delta_event = "nat \<times> nat \<times> nat \<times> nat"

definition one_data :: "nat \<Rightarrow> bool" where
  "one_data st \<longleftrightarrow> kind_of st = 192 \<or> kind_of st = 208"

definition writable :: "delta_event \<Rightarrow> bool" where
  "writable ev \<longleftrightarrow> channel_voice ev \<and> fst ev < 268435456 \<and> (one_data (fst (snd ev)) \<longrightarrow> snd (snd (snd ev)) = 0)"

fun event_bytes :: "delta_event \<Rightarrow> byte list" where
  "event_bytes (delta, st, d1, d2) =
     vlq_bytes delta @ [nat_byte st, nat_byte d1] @ (if one_data st then [] else [nat_byte d2])"

fun ticked :: "nat \<Rightarrow> delta_event list \<Rightarrow> tick_event list" where
  "ticked t [] = []"
| "ticked t ((delta, rest) # evs) = (t + delta, rest) # ticked (t + delta) evs"

definition write_track :: "delta_event list \<Rightarrow> byte list" where
  "write_track evs = concat (map event_bytes evs) @ [nat_byte 0, nat_byte 255, nat_byte 47, nat_byte 0]"

fun be_bytes :: "nat \<Rightarrow> nat \<Rightarrow> byte list" where
  "be_bytes 0 x = []"
| "be_bytes (Suc n) x = be_bytes n (x div 256) @ [nat_byte (x mod 256)]"

definition write_midi :: "nat \<Rightarrow> delta_event list \<Rightarrow> byte list" where
  "write_midi division evs =
     chunk_id ''MThd'' @ be_bytes 4 6 @ be_bytes 2 0 @ be_bytes 2 1 @ be_bytes 2 division
     @ chunk_id ''MTrk'' @ be_bytes 4 (length (write_track evs)) @ write_track evs"

lemma event_read_back:
  assumes "writable (delta, st, d1, d2)"
  shows "track_event (event_bytes (delta, st, d1, d2) @ rest) ts
    = Some (rest, ts\<lparr>ts_tick := ts_tick ts + delta, ts_running := st,
                     ts_events := ts_events ts @ [(ts_tick ts + delta, st, d1, d2)]\<rparr>)"
proof -
  have b: "128 \<le> st" "st < 240" "d1 \<le> 127" "d2 \<le> 127" "\<not> (kind_of st = 144 \<and> d2 = 0)" "delta < 268435456"
    "one_data st \<longrightarrow> d2 = 0" using assms by (auto simp: writable_def channel_voice_def)
  have v: "vlq (event_bytes (delta, st, d1, d2) @ rest)
      = Some (delta, nat_byte st # nat_byte d1 # (if one_data st then rest else nat_byte d2 # rest))"
    using vlq_read_back [OF b(6)] by simp
  have "channel_event st (nat_byte d1 # (if one_data st then rest else nat_byte d2 # rest)) (ts\<lparr>ts_tick := ts_tick ts + delta\<rparr>)
    = Some (rest, ts\<lparr>ts_tick := ts_tick ts + delta, ts_running := st,
                     ts_events := ts_events ts @ [(ts_tick ts + delta, st, d1, d2)]\<rparr>)"
    using b by (auto simp: channel_event_def take_bytes_def unat_nat_byte one_data_def Let_def)
  with v b show ?thesis by (simp add: track_event_def Let_def unat_nat_byte after_status_def)
qed

lemma track_read_back:
  "list_all writable evs \<Longrightarrow>
   \<exists>st. track_loop (write_track evs) ts = Some (ts\<lparr>ts_tick := ts_tick ts + sum_list (map fst evs), ts_running := 0,
      ts_events := ts_events ts @ ticked (ts_tick ts) evs, ts_end := Some (ts_tick ts + sum_list (map fst evs))\<rparr>)"
proof (induction evs arbitrary: ts)
  case Nil
  have v: "vlq (nat_byte 0 # bs) = Some (0, bs)" for bs using vlq_read_back [of 0 bs] by (simp add: vlq_bytes_def)
  have "track_event [nat_byte 0, nat_byte 255, nat_byte 47, nat_byte 0] ts
      = Some ([], ts\<lparr>ts_running := 0, ts_end := Some (ts_tick ts)\<rparr>)"
    using v [of "[]"] by (simp add: track_event_def v unat_nat_byte after_status_def take_bytes_def meta_event_def)
  then show ?case by (simp add: write_track_def track_loop.simps)
next
  case (Cons ev evs)
  obtain delta st d1 d2 where ev: "ev = (delta, st, d1, d2)" by (metis prod_cases4)
  let ?ts = "ts\<lparr>ts_tick := ts_tick ts + delta, ts_running := st,
                ts_events := ts_events ts @ [(ts_tick ts + delta, st, d1, d2)]\<rparr>"
  have "track_event (write_track (ev # evs)) ts = Some (write_track evs, ?ts)"
    using event_read_back [of delta st d1 d2 "write_track evs" ts] Cons.prems by (simp add: write_track_def ev)
  moreover have "write_track (ev # evs) \<noteq> []" by (simp add: write_track_def)
  ultimately have "track_loop (write_track (ev # evs)) ts = track_loop (write_track evs) ?ts"
    by (simp add: track_loop.simps [of "write_track (ev # evs)"])
  with Cons.IH [of ?ts] Cons.prems show ?case by (simp add: ev add.assoc)
qed

lemma length_be_bytes [simp]: "length (be_bytes n x) = n"
  by (induction n arbitrary: x) auto

lemma be_read_back: "x < 256 ^ n \<Longrightarrow> big_endian (be_bytes n x) = x"
proof (induction n arbitrary: x)
  case (Suc n)
  then have "x div 256 < 256 ^ n" by (simp add: less_mult_imp_div_less mult.commute)
  with Suc.IH show ?case by (simp add: unat_nat_byte)
qed simp

lemma sorted_ticked: "sorted (map fst (ticked t evs)) \<and> (\<forall>e \<in> set (ticked t evs). t \<le> fst e)"
  by (induction t evs rule: ticked.induct) fastforce+

text \<open>
  C16: A written file is read back. For any sequence of channel messages with delta times below \<open>2 ^ 28\<close> and
  any resolution, the reader returns exactly these messages at the beats the deltas add up to, and the end
  of the file; in particular a variable-length quantity of one to four bytes is decoded to its value.
\<close>
theorem midi_reads_back:
  assumes evs: "list_all writable evs" and d: "0 < division" "division < 32768"
    and small: "length (write_track evs) < 4294967296"
  shows "parse_midi (write_midi division evs) = Some
    \<lparr>mf_ticks_per_beat = division, mf_tempo_bpm = None,
     mf_events = map (\<lambda>(t, s, d1, d2). \<lparr>me_beat = of_nat t / of_nat division, me_status = s, me_data1 = d1, me_data2 = d2\<rparr>)
       (ticked 0 evs),
     mf_end_beat = of_nat (sum_list (map fst evs)) / of_nat division, mf_name = None\<rparr>"
proof -
  let ?data = "write_midi division evs" and ?trk = "write_track evs"
  have id: "length (chunk_id ''MThd'') = 4" "length (chunk_id ''MTrk'') = 4" by (simp_all add: chunk_id_def)
  have head: "take 4 ?data = chunk_id ''MThd''" "take 4 (drop 4 ?data) = be_bytes 4 6"
    "take 2 (drop 10 ?data) = be_bytes 2 1" "take 2 (drop 12 ?data) = be_bytes 2 division"
    "drop 14 ?data = chunk_id ''MTrk'' @ be_bytes 4 (length ?trk) @ ?trk" "14 \<le> length ?data"
    by (simp_all add: write_midi_def id)
  obtain ts where "track_loop ?trk track_start = Some ts" "ts_events ts = ticked 0 evs"
      "ts_end ts = Some (sum_list (map fst evs))" "ts_tempo ts = None" "ts_name ts = None"
    using track_read_back [OF evs, of track_start] by (auto simp: track_start_def)
  then have trk: "parse_track ?trk = Some (ticked 0 evs, sum_list (map fst evs), None, None)"
    by (simp add: parse_track_def)
  have "parse_tracks 1 (drop 14 ?data) \<lparr>pt_events = [], pt_end = 0, pt_tempo = None, pt_name = None\<rparr>
      = Some \<lparr>pt_events = ticked 0 evs, pt_end = sum_list (map fst evs), pt_tempo = None, pt_name = None\<rparr>"
    using trk be_read_back [of "length ?trk" 4] small
    by (simp add: head take_bytes_def id del: big_endian.simps)
  moreover have "sort_key fst (ticked 0 evs) = ticked 0 evs"
    using sorted_ticked [of 0 evs] by (simp add: sorted_sort_id sort_key_id_if_sorted)
  ultimately show ?thesis
    using head be_read_back [of 1 2] be_read_back [of division 2] be_read_back [of 6 4] d
    by (simp add: parse_midi_def Let_def del: big_endian.simps)
qed

lemma midi_reads_back_witness:
  "parse_midi (write_midi 96 [(0, 144, 60, 100), (200, 192, 5, 0), (48, 128, 60, 0)]) \<noteq> None"
proof -
  have "list_all writable [(0, 144, 60, 100), (200, 192, 5, 0), (48, 128, 60, 0)]"
    by (simp add: writable_def channel_voice_def kind_of_def one_data_def)
  moreover have "length (write_track [(0, 144, 60, 100), (200, 192, 5, 0), (48, 128, 60, 0)]) < 4294967296"
    by (simp add: write_track_def vlq_bytes_def one_data_def kind_of_def)
  ultimately show ?thesis
    using midi_reads_back [of "[(0, 144, 60, 100), (200, 192, 5, 0), (48, 128, 60, 0)]" 96] by simp
qed

end
