(* ===== verification/Sequencer.thy ===== *)
theory Sequencer
  imports Cues Midi
begin

section \<open>The look-ahead sequencer\<close>

text \<open>
  \<open>src/control/sequencer.py\<close>. Times and beats are exact; a track's dictionary is in insertion order.
  \<open>None\<close> is the \<open>KeyError\<close>, \<open>ValueError\<close> or \<open>RuntimeError\<close> of the source, or a loop that does not end.
\<close>

definition DEFAULT_CC7 :: nat where "DEFAULT_CC7 = 100"

definition CHASE_MIN_BEATS :: rat where "CHASE_MIN_BEATS = 1"

definition snap :: "rat \<Rightarrow> rat" where
  "snap beat = of_int (py_round (beat * 10 ^ 9)) / 10 ^ 9"

record seq_note =
  sn_on :: rat
  sn_off :: rat
  sn_status :: nat
  sn_key :: nat
  sn_velocity :: nat

record seq_track =
  st_name :: string
  st_part :: nat
  st_loop :: bool
  st_events :: "midi_event list"
  st_length :: rat
  st_notes :: "seq_note list"
  st_initial_cc7 :: nat
  st_on :: bool
  st_origin :: rat
  st_cursor :: rat
  st_cc7 :: nat
  st_struck :: "nat set"

record sequencer =
  sq_bpm :: rat
  sq_dev :: dev
  sq_lookahead :: rat
  sq_master :: rat
  sq_t0 :: "rat option"
  sq_tracks :: "(string, seq_track) dict"

definition new_sequencer :: "rat \<Rightarrow> dev \<Rightarrow> rat \<Rightarrow> sequencer" where
  "new_sequencer bpm d lookahead =
     \<lparr>sq_bpm = bpm, sq_dev = d, sq_lookahead = lookahead, sq_master = 1, sq_t0 = None, sq_tracks = []\<rparr>"

subsection \<open>Setting a track up\<close>

text \<open>
  The dictionary of the open note-ons is a function from keys to lists: a key that is absent and a key
  with an empty list are treated alike.
\<close>

fun drop_struck_at_end :: "(nat \<Rightarrow> bool list) \<Rightarrow> rat \<Rightarrow> midi_event list \<Rightarrow> midi_event list" where
  "drop_struck_at_end opn len [] = []"
| "drop_struck_at_end opn len (e # es) =
     (let kind = kind_of (me_status e); key = me_data1 e
      in if kind = 144 \<and> 0 < me_data2 e
         then (let dropped = len \<le> me_beat e; opn' = opn(key := opn key @ [dropped])
               in if dropped then drop_struck_at_end opn' len es else e # drop_struck_at_end opn' len es)
         else if (kind = 128 \<or> kind = 144) \<and> opn key \<noteq> []
         then (let opn' = opn(key := tl (opn key))
               in if hd (opn key) then drop_struck_at_end opn' len es else e # drop_struck_at_end opn' len es)
         else e # drop_struck_at_end opn len es)"

fun pair_notes :: "(nat \<Rightarrow> midi_event list) \<Rightarrow> midi_event list \<Rightarrow> seq_note list" where
  "pair_notes opn [] = []"
| "pair_notes opn (e # es) =
     (let kind = kind_of (me_status e); key = me_data1 e
      in if kind = 144 then pair_notes (opn(key := opn key @ [e])) es
         else if kind = 128 \<and> opn key \<noteq> []
         then (let n = hd (opn key)
               in \<lparr>sn_on = me_beat n, sn_off = me_beat e, sn_status = me_status n, sn_key = me_data1 n,
                   sn_velocity = me_data2 n\<rparr> # pair_notes (opn(key := tl (opn key))) es)
         else pair_notes opn es)"

definition is_cc7 :: "midi_event \<Rightarrow> bool" where
  "is_cc7 e \<longleftrightarrow> kind_of (me_status e) = 176 \<and> me_data1 e = 7"

definition first_cc7 :: "midi_event list \<Rightarrow> nat" where
  "first_cc7 es = (case List.find is_cc7 es of None \<Rightarrow> DEFAULT_CC7 | Some e \<Rightarrow> me_data2 e)"

definition shift_events :: "rat \<Rightarrow> midi_event list \<Rightarrow> midi_event list" where
  "shift_events skip es = map (\<lambda>e. e\<lparr>me_beat := me_beat e - skip\<rparr>) (filter (\<lambda>e. skip \<le> me_beat e) es)"

definition add_track :: "string \<Rightarrow> midi_file \<Rightarrow> nat \<Rightarrow> bool \<Rightarrow> rat \<Rightarrow> sequencer \<Rightarrow> sequencer option" where
  "add_track name midi part loop skip sq =
     (if loop \<and> skip \<noteq> 0 then None
      else (let len0 = loop_beats 4 midi;
                events = (if loop then drop_struck_at_end (\<lambda>_. []) len0 (mf_events midi)
                          else shift_events skip (mf_events midi));
                len = (if loop then len0 else if events = [] then 0 else me_beat (last events));
                cc7 = first_cc7 events;
                tr = \<lparr>st_name = name, st_part = part, st_loop = loop, st_events = events, st_length = len,
                      st_notes = pair_notes (\<lambda>_. []) events, st_initial_cc7 = cc7, st_on = False,
                      st_origin = 0, st_cursor = 0, st_cc7 = cc7, st_struck = {}\<rparr>
            in Some (sq\<lparr>sq_tracks := dset name tr (sq_tracks sq)\<rparr>)))"

definition rewind :: "seq_track \<Rightarrow> seq_track" where
  "rewind tr = tr\<lparr>st_on := False, st_cc7 := st_initial_cc7 tr, st_struck := {}\<rparr>"

definition start :: "rat \<Rightarrow> sequencer \<Rightarrow> sequencer" where
  "start t0 sq = sq\<lparr>sq_t0 := Some t0, sq_tracks := map (\<lambda>(n, tr). (n, rewind tr)) (sq_tracks sq)\<rparr>"

subsection \<open>The grid\<close>

definition grid_beat :: "sequencer \<Rightarrow> rat \<Rightarrow> rat \<Rightarrow> rat" where
  "grid_beat sq t0 t = (t - t0) * sq_bpm sq / 60"

definition grid_time :: "sequencer \<Rightarrow> rat \<Rightarrow> rat \<Rightarrow> rat" where
  "grid_time sq t0 beat = t0 + beat * 60 / sq_bpm sq"

definition beat_at :: "sequencer \<Rightarrow> rat \<Rightarrow> rat option" where
  "beat_at sq t = map_option (\<lambda>t0. grid_beat sq t0 t) (sq_t0 sq)"

definition time_at :: "sequencer \<Rightarrow> rat \<Rightarrow> rat option" where
  "time_at sq beat =
     (case sq_t0 sq of
        None \<Rightarrow> None
      | Some t0 \<Rightarrow> if sq_bpm sq = 0 then None else Some (grid_time sq t0 beat))"

subsection \<open>Cues\<close>

definition seq_cue :: "sequencer \<Rightarrow> seq_track \<Rightarrow> nat \<Rightarrow> nat \<Rightarrow> nat \<Rightarrow> rat \<Rightarrow> cue" where
  "seq_cue sq tr status d1 d2 w =
     MusicCue (sq_dev sq) (int (or (kind_of status) (st_part tr))) (int d1) (int d2) (Some (Fin w)) (Some (st_name tr))"

definition cc7_cue :: "sequencer \<Rightarrow> seq_track \<Rightarrow> rat \<Rightarrow> cue" where
  "cc7_cue sq tr w =
     seq_cue sq tr 176 7 (nat (max 0 (min 127 (py_round (of_nat (st_cc7 tr) * sq_master sq))))) w"

definition event_cue :: "sequencer \<Rightarrow> rat \<Rightarrow> seq_track \<Rightarrow> midi_event \<Rightarrow> rat \<Rightarrow> seq_track \<times> cue" where
  "event_cue sq t0 tr e beat =
     (if is_cc7 e
      then (let tr' = tr\<lparr>st_cc7 := me_data2 e\<rparr> in (tr', cc7_cue sq tr' (grid_time sq t0 beat)))
      else (tr, seq_cue sq tr (me_status e) (me_data1 e) (me_data2 e) (grid_time sq t0 beat)))"

subsection \<open>Which events fall in a window of the grid\<close>

text \<open>\<open>bisect_left\<close> of the standard library, on a sorted list (the beats of a parsed file are sorted).\<close>

definition bisect_left :: "rat list \<Rightarrow> rat \<Rightarrow> nat" where
  "bisect_left xs x = length (takeWhile (\<lambda>y. y < x) xs)"

abbreviation st_beats :: "seq_track \<Rightarrow> rat list" where
  "st_beats tr \<equiv> map me_beat (st_events tr)"

definition grid_slice :: "seq_track \<Rightarrow> rat \<Rightarrow> rat \<Rightarrow> rat \<Rightarrow> (rat \<times> midi_event) list" where
  "grid_slice tr base lo hi =
     (let i = bisect_left (st_beats tr) (lo - base); j = bisect_left (st_beats tr) (hi - base)
      in map (\<lambda>e. (base + me_beat e, e)) (drop i (take j (st_events tr))))"

text \<open>The \<open>while\<close> over the iterations of a loop, from iteration \<open>k\<close> on.\<close>

partial_function (option) window_from ::
    "seq_track \<Rightarrow> rat \<Rightarrow> rat \<Rightarrow> nat \<Rightarrow> (rat \<times> midi_event) list option" where
  "window_from tr lo hi k =
     (if of_nat k * st_length tr < hi
      then Option.bind (window_from tr lo hi (Suc k))
             (\<lambda>rest. Some (grid_slice tr (of_nat k * st_length tr) lo hi @ rest))
      else Some [])"

declare window_from.simps [code]

definition seq_window :: "seq_track \<Rightarrow> rat \<Rightarrow> rat \<Rightarrow> (rat \<times> midi_event) list option" where
  "seq_window tr lo hi =
     (if \<not> st_loop tr then Some (grid_slice tr (st_origin tr) lo hi)
      else if st_events tr = [] then Some []
      else map_option (sort_key fst)
        (window_from tr lo hi (nat (max 0 \<lfloor>(lo - last (st_beats tr)) / st_length tr\<rfloor>))))"

subsection \<open>Control\<close>

text \<open>\<open>chase_step\<close> is the body of \<open>enable\<close>'s two loops: one note, one iteration it may have begun in.\<close>

definition chase_step :: "sequencer \<Rightarrow> rat \<Rightarrow> rat \<Rightarrow> seq_note \<times> int \<Rightarrow>
    seq_track \<times> nat set \<times> cue list \<Rightarrow> seq_track \<times> nat set \<times> cue list" where
  "chase_step sq w b nk s =
     (case nk of (n, kk) \<Rightarrow> case s of (tr, chased, out) \<Rightarrow>
        let base = of_int kk * st_length tr
        in if 0 \<le> kk \<and> sn_key n \<notin> chased \<and> base + sn_on n < b \<and> CHASE_MIN_BEATS \<le> base + sn_off n - b
           then (tr\<lparr>st_struck := insert (sn_key n) (st_struck tr)\<rparr>, insert (sn_key n) chased,
                 out @ [seq_cue sq tr (sn_status n) (sn_key n) (sn_velocity n) w])
           else s)"

definition enable :: "string \<Rightarrow> rat \<Rightarrow> sequencer \<Rightarrow> (sequencer \<times> cue list) option" where
  "enable name w sq =
     (case dget (sq_tracks sq) name of
        None \<Rightarrow> None
      | Some tr \<Rightarrow>
          if \<not> st_loop tr then None
          else if st_on tr then Some (sq, [])
          else (case beat_at sq w of
                  None \<Rightarrow> None
                | Some beat \<Rightarrow>
                    (let b = snap beat;
                         tr1 = tr\<lparr>st_on := True, st_cursor := b\<rparr>;
                         k = \<lfloor>b / st_length tr\<rfloor>;
                         (tr2, _, out) = fold (chase_step sq w b)
                            (concat (map (\<lambda>n. [(n, k), (n, k - 1)]) (st_notes tr)))
                            (tr1, {}, [cc7_cue sq tr1 w])
                     in Some (sq\<lparr>sq_tracks := dset name tr2 (sq_tracks sq)\<rparr>, out))))"

definition release_cues :: "sequencer \<Rightarrow> seq_track \<Rightarrow> rat \<Rightarrow> cue list" where
  "release_cues sq tr w =
     MusicPurge (sq_dev sq) (st_name tr)
     # map (\<lambda>key. seq_cue sq tr 128 key 0 w) (sorted_list_of_set (st_struck tr))
     @ [seq_cue sq tr 176 64 0 w]"

definition disable :: "string \<Rightarrow> rat \<Rightarrow> sequencer \<Rightarrow> (sequencer \<times> cue list) option" where
  "disable name w sq =
     (case dget (sq_tracks sq) name of
        None \<Rightarrow> None
      | Some tr \<Rightarrow>
          if \<not> st_on tr then Some (sq, [])
          else Some (sq\<lparr>sq_tracks := dset name (tr\<lparr>st_on := False\<rparr>) (sq_tracks sq)\<rparr>, release_cues sq tr w))"

definition play_once :: "string \<Rightarrow> rat \<Rightarrow> sequencer \<Rightarrow> (sequencer \<times> cue list) option" where
  "play_once name w sq =
     (case dget (sq_tracks sq) name of
        None \<Rightarrow> None
      | Some tr \<Rightarrow>
          if st_loop tr then None
          else (let out = (if st_on tr then release_cues sq tr w else [])
                in case beat_at sq w of
                     None \<Rightarrow> None
                   | Some beat \<Rightarrow>
                       (let first = of_int \<lceil>snap beat\<rceil>;
                            tr1 = tr\<lparr>st_on := True, st_origin := first, st_cursor := first, st_cc7 := st_initial_cc7 tr\<rparr>
                        in case time_at sq first of
                             None \<Rightarrow> None
                           | Some t \<Rightarrow> Some (sq\<lparr>sq_tracks := dset name tr1 (sq_tracks sq)\<rparr>, out @ [cc7_cue sq tr1 t]))))"

definition is_on :: "string \<Rightarrow> sequencer \<Rightarrow> bool option" where
  "is_on name sq = map_option st_on (dget (sq_tracks sq) name)"

definition set_master :: "rat \<Rightarrow> rat \<Rightarrow> sequencer \<Rightarrow> sequencer \<times> cue list" where
  "set_master level w sq =
     (let sq' = sq\<lparr>sq_master := level\<rparr> in (sq', map (\<lambda>(n, tr). cc7_cue sq' tr w) (sq_tracks sq')))"

subsection \<open>The tick\<close>

fun emit_events :: "sequencer \<Rightarrow> rat \<Rightarrow> seq_track \<Rightarrow> (rat \<times> midi_event) list \<Rightarrow> seq_track \<times> (rat \<times> cue) list" where
  "emit_events sq t0 tr [] = (tr, [])"
| "emit_events sq t0 tr ((g, e) # rest) =
     (let (tr1, c) = event_cue sq t0 tr e g;
          tr2 = (if kind_of (me_status e) = 144 then tr1\<lparr>st_struck := insert (me_data1 e) (st_struck tr1)\<rparr> else tr1);
          (tr3, out) = emit_events sq t0 tr2 rest
      in (tr3, (g, c) # out))"

definition spent :: "seq_track \<Rightarrow> rat \<Rightarrow> bool" where
  "spent tr now \<longleftrightarrow> \<not> st_loop tr \<and> st_origin tr + st_length tr < st_cursor tr \<and> st_origin tr + st_length tr < now"

definition track_advance :: "sequencer \<Rightarrow> rat \<Rightarrow> rat \<Rightarrow> rat \<Rightarrow> seq_track \<Rightarrow> (seq_track \<times> (rat \<times> cue) list) option" where
  "track_advance sq t0 limit now tr =
     (if \<not> st_on tr then Some (tr, [])
      else map_option (\<lambda>(tr', out). (if spent tr' now then tr'\<lparr>st_on := False\<rparr> else tr', out))
        (if st_cursor tr < limit
         then map_option (\<lambda>w. case emit_events sq t0 tr w of (tr', out) \<Rightarrow> (tr'\<lparr>st_cursor := limit\<rparr>, out))
                (seq_window tr (st_cursor tr) limit)
         else Some (tr, [])))"

fun advance_tracks :: "sequencer \<Rightarrow> rat \<Rightarrow> rat \<Rightarrow> rat \<Rightarrow> (string, seq_track) dict \<Rightarrow>
    ((string, seq_track) dict \<times> (rat \<times> cue) list) option" where
  "advance_tracks sq t0 limit now [] = Some ([], [])"
| "advance_tracks sq t0 limit now ((n, tr) # trs) =
     (case track_advance sq t0 limit now tr of
        None \<Rightarrow> None
      | Some (tr', out) \<Rightarrow>
          map_option (\<lambda>(trs', outs). ((n, tr') # trs', out @ outs)) (advance_tracks sq t0 limit now trs))"

definition advance :: "rat \<Rightarrow> sequencer \<Rightarrow> (sequencer \<times> cue list) option" where
  "advance w sq =
     (case sq_t0 sq of
        None \<Rightarrow> None
      | Some t0 \<Rightarrow>
          (let limit = snap (grid_beat sq t0 (w + sq_lookahead sq)); now = snap (grid_beat sq t0 w)
           in map_option (\<lambda>(trs, out). (sq\<lparr>sq_tracks := trs\<rparr>, map snd (sort_key fst out)))
                (advance_tracks sq t0 limit now (sq_tracks sq))))"

end
