(* ===== verification/Sequencer_Facts.thy ===== *)
theory Sequencer_Facts
  imports Sequencer
begin

section \<open>What the sequencer plays\<close>

text \<open>
  Every window of the grid holds exactly the events that fall in it, at any tick rate; a track that is
  switched off has every key released that it ever struck; all that is sent are MIDI bytes.
\<close>

subsection \<open>Sorting and slicing\<close>

lemma sort_key_split:
  "sort_key f xs = sort_key f (filter (\<lambda>x. f x < m) xs) @ sort_key f (filter (\<lambda>x. \<not> f x < m) xs)"
  (is "_ = ?lo @ ?hi")
proof (rule properties_for_sort_key)
  show "mset (?lo @ ?hi) = mset xs" by simp
  show "sorted (map f (?lo @ ?hi))" by (auto simp: sorted_append)
  show "filter (\<lambda>y. f x = f y) (?lo @ ?hi) = filter (\<lambda>y. f x = f y) xs" if "x \<in> set (?lo @ ?hi)" for x
  proof -
    have eq: "(\<lambda>y. f x = f y) = (\<lambda>y. f y = f x)" by auto
    have "filter (\<lambda>y. f y = f x) (?lo @ ?hi) = filter (\<lambda>y. f y = f x) xs"
    proof (cases "f x < m")
      case True
      then have "filter (\<lambda>y. f y < m \<and> f y = f x) xs = filter (\<lambda>y. f y = f x) xs" "filter (\<lambda>y. \<not> f y < m \<and> f y = f x) xs = []"
        by (auto intro!: filter_cong simp: filter_empty_conv)
      then show ?thesis by (simp add: sort_key_stable)
    next
      case False
      then have "filter (\<lambda>y. \<not> f y < m \<and> f y = f x) xs = filter (\<lambda>y. f y = f x) xs" "filter (\<lambda>y. f y < m \<and> f y = f x) xs = []"
        by (auto intro!: filter_cong simp: filter_empty_conv)
      then show ?thesis by (simp add: sort_key_stable)
    qed
    then show ?thesis by (simp only: eq)
  qed
qed

lemma bisect_left_Nil [simp]: "bisect_left [] x = 0"
  and bisect_left_Cons: "bisect_left (y # ys) x = (if y < x then Suc (bisect_left ys x) else 0)"
  by (simp_all add: bisect_left_def)

lemma slice_is_filter:
  "sorted (map f es) \<Longrightarrow>
   drop (bisect_left (map f es) lo) (take (bisect_left (map f es) hi) es) = filter (\<lambda>e. lo \<le> f e \<and> f e < hi) es"
proof (induction es)
  case (Cons e es)
  have high: "filter (\<lambda>e. lo \<le> f e \<and> f e < hi) es = []" if "\<not> f e < hi"
    using that Cons.prems by (fastforce simp: filter_empty_conv)
  have low: "bisect_left (map f es) lo = 0" if "\<not> f e < lo"
    using that Cons.prems by (cases es) (auto simp: bisect_left_Cons)
  show ?case using Cons high low by (auto simp: bisect_left_Cons)
qed simp

definition in_span :: "rat \<Rightarrow> rat \<Rightarrow> rat \<times> midi_event \<Rightarrow> bool" where
  "in_span lo hi x \<longleftrightarrow> lo \<le> fst x \<and> fst x < hi"

definition at_base :: "seq_track \<Rightarrow> rat \<Rightarrow> (rat \<times> midi_event) list" where
  "at_base tr base = map (\<lambda>e. (base + me_beat e, e)) (st_events tr)"

lemma grid_slice_is_filter:
  assumes "sorted (st_beats tr)"
  shows "grid_slice tr base lo hi = filter (in_span lo hi) (at_base tr base)"
proof -
  have "(\<lambda>e. lo - base \<le> me_beat e \<and> me_beat e < hi - base) = in_span lo hi \<circ> (\<lambda>e. (base + me_beat e, e))"
    by (auto simp: in_span_def algebra_simps)
  then show ?thesis
    by (simp add: grid_slice_def Let_def slice_is_filter [OF assms] at_base_def filter_map)
qed

subsection \<open>Tracks in good order\<close>

definition track_wf :: "seq_track \<Rightarrow> bool" where
  "track_wf tr \<longleftrightarrow> sorted (st_beats tr)
     \<and> (if st_loop tr then 0 < st_length tr \<and> (\<forall>e \<in> set (st_events tr). 0 \<le> me_beat e)
        else \<forall>e \<in> set (st_events tr). me_beat e \<le> st_length tr)"

text \<open>The reference: every occurrence of an event in the first \<open>n\<close> iterations, in iteration and file order.\<close>

definition occurrences :: "seq_track \<Rightarrow> nat \<Rightarrow> (rat \<times> midi_event) list" where
  "occurrences tr n =
     (if st_loop tr then concat (map (\<lambda>k. at_base tr (of_nat k * st_length tr)) [0..<n])
      else at_base tr (st_origin tr))"

lemma window_from_returns:
  assumes len: "0 < st_length tr"
  shows "window_from tr lo hi k
    = Some (concat (map (\<lambda>k. grid_slice tr (of_nat k * st_length tr) lo hi) [k..<nat \<lceil>hi / st_length tr\<rceil>]))"
proof (induction "nat \<lceil>hi / st_length tr\<rceil> - k" arbitrary: k)
  case 0
  then have "hi / st_length tr \<le> of_nat k" by linarith
  then have "\<not> of_nat k * st_length tr < hi" using len by (simp add: pos_divide_le_eq)
  with 0 show ?case by (simp add: window_from.simps [of tr lo hi k])
next
  case (Suc n)
  then have k: "k < nat \<lceil>hi / st_length tr\<rceil>" by linarith
  then have "of_nat k < hi / st_length tr" by linarith
  then have "of_nat k * st_length tr < hi" using len by (simp add: pos_less_divide_eq)
  with Suc.hyps(1) [of "Suc k"] Suc.hyps(2) k show ?case
    by (simp add: window_from.simps [of tr lo hi k] upt_conv_Cons)
qed

lemma slices_outside_are_empty:
  assumes wf: "track_wf tr" "st_loop tr" and ne: "st_events tr \<noteq> []"
    and out: "k < nat (max 0 \<lfloor>(lo - last (st_beats tr)) / st_length tr\<rfloor>) \<or> nat \<lceil>hi / st_length tr\<rceil> \<le> k"
  shows "filter (in_span lo hi) (at_base tr (of_nat k * st_length tr)) = []"
proof -
  have len: "0 < st_length tr" and pos: "\<forall>e \<in> set (st_events tr). 0 \<le> me_beat e"
    using wf by (auto simp: track_wf_def)
  have last: "me_beat e \<le> last (st_beats tr)" if "e \<in> set (st_events tr)" for e
    using that wf(1) ne by (auto simp: track_wf_def in_set_conv_nth last_conv_nth sorted_iff_nth_mono)
  have "of_nat k * st_length tr + last (st_beats tr) < lo \<or> hi \<le> of_nat k * st_length tr"
  proof (cases "nat \<lceil>hi / st_length tr\<rceil> \<le> k")
    case True
    then have "hi / st_length tr \<le> of_nat k" by linarith
    then show ?thesis using len by (simp add: pos_divide_le_eq)
  next
    case False
    with out have "int k + 1 \<le> \<lfloor>(lo - last (st_beats tr)) / st_length tr\<rfloor>" by linarith
    then have "of_nat k + 1 \<le> (lo - last (st_beats tr)) / st_length tr" by linarith
    then have "(of_nat k + 1) * st_length tr \<le> lo - last (st_beats tr)" using len by (simp add: pos_le_divide_eq)
    then have "of_nat k * st_length tr + st_length tr \<le> lo - last (st_beats tr)" by (simp add: algebra_simps)
    then show ?thesis using len by linarith
  qed
  then show ?thesis
    using last pos by (fastforce simp: filter_empty_conv at_base_def in_span_def)
qed

lemma concat_filtered:
  "(\<And>k. k \<in> set ks \<Longrightarrow> \<not> Q k \<Longrightarrow> h k = []) \<Longrightarrow> concat (map h ks) = concat (map h (filter Q ks))"
  by (induction ks) auto

lemma upt_part: "c \<le> n \<Longrightarrow> filter (\<lambda>k. a \<le> k \<and> k < c) [0..<n] = [a..<c]"
  by (rule sorted_distinct_set_unique) (auto simp: sorted_wrt_filter)

lemma window_is_reference:
  assumes wf: "track_wf tr" and n: "st_loop tr \<longrightarrow> hi \<le> of_nat n * st_length tr"
  shows "seq_window tr lo hi = Some (sort_key fst (filter (in_span lo hi) (occurrences tr n)))"
proof (cases "st_loop tr")
  case False
  have "sorted (map fst (filter (in_span lo hi) (at_base tr (st_origin tr))))"
    using wf by (auto simp: track_wf_def at_base_def comp_def sorted_map sorted_wrt_map intro!: sorted_wrt_filter)
  then show ?thesis
    using False wf by (simp add: seq_window_def occurrences_def grid_slice_is_filter track_wf_def sort_key_id_if_sorted)
next
  case True
  then have len: "0 < st_length tr" and sorted: "sorted (st_beats tr)" using wf by (auto simp: track_wf_def)
  show ?thesis
  proof (cases "st_events tr = []")
    case True
    then show ?thesis using \<open>st_loop tr\<close> by (simp add: seq_window_def occurrences_def at_base_def map_replicate_const)
  next
    case False
    let ?a = "nat (max 0 \<lfloor>(lo - last (st_beats tr)) / st_length tr\<rfloor>)" and ?c = "nat \<lceil>hi / st_length tr\<rceil>"
    let ?h = "\<lambda>k. filter (in_span lo hi) (at_base tr (of_nat k * st_length tr))"
    have "hi / st_length tr \<le> of_nat n" using n len \<open>st_loop tr\<close> by (simp add: pos_divide_le_eq)
    then have c: "?c \<le> n" by linarith
    have "concat (map ?h [0..<n]) = concat (map ?h (filter (\<lambda>k. ?a \<le> k \<and> k < ?c) [0..<n]))"
      by (rule concat_filtered) (use slices_outside_are_empty [OF wf True False] in \<open>auto simp: not_le not_less\<close>)
    then have "concat (map ?h [?a..<?c]) = filter (in_span lo hi) (occurrences tr n)"
      using True c by (simp add: upt_part occurrences_def filter_concat comp_def)
    then show ?thesis
      using True False by (simp add: seq_window_def window_from_returns [OF len] grid_slice_is_filter [OF sorted])
  qed
qed

subsection \<open>Windows compose\<close>

definition span_events :: "seq_track \<Rightarrow> rat \<Rightarrow> rat \<Rightarrow> (rat \<times> midi_event) list" where
  "span_events tr lo hi =
     sort_key fst (filter (in_span lo hi) (occurrences tr (nat \<lceil>hi / st_length tr\<rceil>)))"

lemma enough_iterations: "track_wf tr \<Longrightarrow> nat \<lceil>hi / st_length tr\<rceil> \<le> n \<Longrightarrow> st_loop tr \<longrightarrow> hi \<le> of_nat n * st_length tr"
proof
  assume wf: "track_wf tr" and n: "nat \<lceil>hi / st_length tr\<rceil> \<le> n" and "st_loop tr"
  then have "0 < st_length tr" by (simp add: track_wf_def)
  moreover have "hi / st_length tr \<le> of_nat n" using n by linarith
  ultimately show "hi \<le> of_nat n * st_length tr" by (simp add: pos_divide_le_eq)
qed

lemma seq_window_total: "track_wf tr \<Longrightarrow> seq_window tr lo hi = Some (span_events tr lo hi)"
  unfolding span_events_def by (rule window_is_reference, assumption, rule enough_iterations, assumption, rule order_refl)

lemma span_events_any:
  "track_wf tr \<Longrightarrow> nat \<lceil>hi / st_length tr\<rceil> \<le> n \<Longrightarrow>
   span_events tr lo hi = sort_key fst (filter (in_span lo hi) (occurrences tr n))"
  using seq_window_total [of tr lo hi] window_is_reference [of tr hi n lo] enough_iterations [of tr hi n] by simp

lemma span_events_split:
  assumes wf: "track_wf tr" and ord: "lo \<le> mid" "mid \<le> hi"
  shows "span_events tr lo hi = span_events tr lo mid @ span_events tr mid hi"
proof -
  let ?n = "max (nat \<lceil>hi / st_length tr\<rceil>) (nat \<lceil>mid / st_length tr\<rceil>)"
  let ?xs = "occurrences tr ?n"
  have "filter (\<lambda>x. fst x < mid) (filter (in_span lo hi) ?xs) = filter (in_span lo mid) ?xs"
    "filter (\<lambda>x. \<not> fst x < mid) (filter (in_span lo hi) ?xs) = filter (in_span mid hi) ?xs"
    using ord by (auto simp: in_span_def intro: filter_cong)
  with sort_key_split [of fst "filter (in_span lo hi) ?xs" mid] show ?thesis
    using wf by (simp add: span_events_any [of tr _ ?n])
qed

lemma span_events_in: "x \<in> set (span_events tr lo hi) \<Longrightarrow> lo \<le> fst x \<and> fst x < hi"
  by (simp add: span_events_def in_span_def)

lemma past_the_end:
  assumes "track_wf tr" "\<not> st_loop tr" "st_origin tr + st_length tr < lo"
  shows "span_events tr lo hi = []"
proof -
  have "\<not> in_span lo hi x" if "x \<in> set (occurrences tr n)" for x n
    using that assms by (fastforce simp: occurrences_def at_base_def track_wf_def in_span_def)
  then show ?thesis by (simp add: span_events_def filter_empty_conv)
qed

lemma span_events_cong:
  "st_loop tr' = st_loop tr \<Longrightarrow> st_events tr' = st_events tr \<Longrightarrow> st_length tr' = st_length tr \<Longrightarrow>
   st_origin tr' = st_origin tr \<Longrightarrow> span_events tr' lo hi = span_events tr lo hi"
  by (simp add: span_events_def occurrences_def at_base_def)

subsection \<open>One track, one tick\<close>

definition after_event :: "seq_track \<Rightarrow> midi_event \<Rightarrow> seq_track" where
  "after_event tr e =
     tr\<lparr>st_cc7 := (if is_cc7 e then me_data2 e else st_cc7 tr),
        st_struck := (if kind_of (me_status e) = 144 then insert (me_data1 e) (st_struck tr) else st_struck tr)\<rparr>"

lemma emit_Cons:
  "emit_events sq t0 tr ((g, e) # w) =
     (fst (emit_events sq t0 (after_event tr e) w),
      (g, snd (event_cue sq t0 tr e g)) # snd (emit_events sq t0 (after_event tr e) w))"
  by (simp add: event_cue_def after_event_def Let_def split: prod.splits)

declare emit_events.simps(2) [simp del] and emit_Cons [simp]

lemma emit_append:
  "emit_events sq t0 tr (w1 @ w2) =
     (fst (emit_events sq t0 (fst (emit_events sq t0 tr w1)) w2),
      snd (emit_events sq t0 tr w1) @ snd (emit_events sq t0 (fst (emit_events sq t0 tr w1)) w2))"
  by (induction w1 arbitrary: tr) auto

lemma emit_keys: "map fst (snd (emit_events sq t0 tr w)) = map fst w"
  by (induction w arbitrary: tr) auto

lemma emit_frame [simp]:
  "st_name (fst (emit_events sq t0 tr w)) = st_name tr \<and> st_part (fst (emit_events sq t0 tr w)) = st_part tr
   \<and> st_loop (fst (emit_events sq t0 tr w)) = st_loop tr \<and> st_events (fst (emit_events sq t0 tr w)) = st_events tr
   \<and> st_notes (fst (emit_events sq t0 tr w)) = st_notes tr \<and> st_length (fst (emit_events sq t0 tr w)) = st_length tr
   \<and> st_initial_cc7 (fst (emit_events sq t0 tr w)) = st_initial_cc7 tr
   \<and> st_origin (fst (emit_events sq t0 tr w)) = st_origin tr \<and> st_on (fst (emit_events sq t0 tr w)) = st_on tr"
proof (induction w arbitrary: tr)
  case (Cons x w)
  from Cons.IH [of "after_event tr (snd x)"] show ?case by (cases x) (simp add: after_event_def)
qed simp

lemma event_cue_cong:
  "st_name tr' = st_name tr \<Longrightarrow> st_part tr' = st_part tr \<Longrightarrow> st_cc7 tr' = st_cc7 tr \<Longrightarrow>
   snd (event_cue sq t0 tr' e g) = snd (event_cue sq t0 tr e g)"
  by (simp add: event_cue_def cc7_cue_def seq_cue_def Let_def)

lemma emit_cong:
  "st_name tr' = st_name tr \<Longrightarrow> st_part tr' = st_part tr \<Longrightarrow> st_cc7 tr' = st_cc7 tr \<Longrightarrow>
   snd (emit_events sq t0 tr' w) = snd (emit_events sq t0 tr w)"
proof (induction w arbitrary: tr tr')
  case (Cons x w)
  have "snd (emit_events sq t0 (after_event tr' (snd x)) w) = snd (emit_events sq t0 (after_event tr (snd x)) w)"
    by (rule Cons.IH) (simp_all add: after_event_def Cons.prems)
  then show ?case using event_cue_cong [OF Cons.prems] by (cases x) simp
qed simp

definition track_step :: "sequencer \<Rightarrow> rat \<Rightarrow> rat \<Rightarrow> rat \<Rightarrow> seq_track \<Rightarrow> seq_track \<times> (rat \<times> cue) list" where
  "track_step sq t0 limit now tr =
     (if \<not> st_on tr then (tr, [])
      else let (tr', out) =
             (if st_cursor tr < limit
              then (case emit_events sq t0 tr (span_events tr (st_cursor tr) limit) of
                      (tr', out) \<Rightarrow> (tr'\<lparr>st_cursor := limit\<rparr>, out))
              else (tr, []))
           in (if spent tr' now then tr'\<lparr>st_on := False\<rparr> else tr', out))"

lemma track_step_live:
  "st_on tr \<Longrightarrow> st_cursor tr < limit \<Longrightarrow> track_step sq t0 limit now tr =
    (let e = emit_events sq t0 tr (span_events tr (st_cursor tr) limit); tr' = fst e\<lparr>st_cursor := limit\<rparr>
     in (if spent tr' now then tr'\<lparr>st_on := False\<rparr> else tr', snd e))"
  by (simp add: track_step_def case_prod_beta Let_def)

lemma track_advance_total: "track_wf tr \<Longrightarrow> track_advance sq t0 limit now tr = Some (track_step sq t0 limit now tr)"
  by (auto simp: track_advance_def track_step_def seq_window_total Let_def split: prod.splits)

lemma advance_tracks_total:
  "\<forall>x \<in> set trs. track_wf (snd x) \<Longrightarrow> advance_tracks sq t0 limit now trs
    = Some (map (\<lambda>x. (fst x, fst (track_step sq t0 limit now (snd x)))) trs,
            concat (map (\<lambda>x. snd (track_step sq t0 limit now (snd x))) trs))"
  by (induction trs) (auto simp: track_advance_total split: prod.splits)

lemma track_step_wf [simp]: "track_wf (fst (track_step sq t0 limit now tr)) \<longleftrightarrow> track_wf tr"
proof -
  have "track_wf (fst (emit_events sq t0 tr w)\<lparr>st_cursor := c\<rparr>) \<longleftrightarrow> track_wf tr" for w c
    by (simp add: track_wf_def)
  moreover have "track_wf (t\<lparr>st_on := False\<rparr>) \<longleftrightarrow> track_wf t" for t by (simp add: track_wf_def)
  ultimately show ?thesis by (simp add: track_step_def case_prod_beta Let_def)
qed

subsection \<open>Two ticks are as good as one\<close>

lemma two_ticks:
  assumes wf: "track_wf tr" and ord: "l1 \<le> l2" "n1 \<le> n2"
    and s1: "track_step sq t0 l1 n1 tr = (tr1, o1)" and s2: "track_step sq' t0 l2 n2 tr1 = (tr2, o2)"
    and same: "\<And>tr w. emit_events sq' t0 tr w = emit_events sq t0 tr w"
  shows "snd (track_step sq t0 l2 n2 tr) = o1 @ o2" and "\<forall>x \<in> set o1. fst x < l1" and "\<forall>x \<in> set o2. l1 \<le> fst x"
proof -
  have in_out: "\<exists>g \<in> set (map fst w). g = fst x" if "x \<in> set (snd (emit_events sq t0 t w))" for x t w
    using that emit_keys [of sq t0 t w] by (metis image_eqI list.set_map)
  have bounds: "lo \<le> fst x \<and> fst x < hi" if "x \<in> set (snd (emit_events sq t0 t (span_events t' lo hi)))" for x t t' lo hi
    using in_out [OF that] span_events_in [of _ t' lo hi] by auto
  let ?late = "if l1 < st_cursor tr then st_cursor tr else l1"
  show "\<forall>x \<in> set o1. fst x < l1"
    using s1 bounds by (auto simp: track_step_def case_prod_beta Let_def split: if_splits)
  have c1: "l1 \<le> st_cursor tr1" if "st_on tr1"
    using s1 that by (auto simp: track_step_def case_prod_beta Let_def split: if_splits)
  show "\<forall>x \<in> set o2. l1 \<le> fst x"
    using s2 bounds c1 by (fastforce simp: track_step_def same case_prod_beta Let_def split: if_splits)
  show "snd (track_step sq t0 l2 n2 tr) = o1 @ o2"
  proof (cases "st_on tr \<and> st_cursor tr < l1")
    case False
    then have "o1 = []" and tr1: "tr1 = tr \<or> (spent tr n1 \<and> tr1 = tr\<lparr>st_on := False\<rparr>)"
      using s1 by (auto simp: track_step_def split: if_splits)
    moreover have "snd (track_step sq t0 l2 n2 tr) = []" if "spent tr n1"
      using that past_the_end [OF wf] by (simp add: track_step_def spent_def case_prod_beta Let_def)
    moreover have "snd (track_step sq' t0 l2 n2 tr) = snd (track_step sq t0 l2 n2 tr)"
      by (simp add: track_step_def same)
    ultimately show ?thesis using s2 by (auto simp: track_step_def)
  next
    case True
    let ?w1 = "span_events tr (st_cursor tr) l1" and ?w2 = "span_events tr l1 l2"
    let ?tr' = "fst (emit_events sq t0 tr ?w1)\<lparr>st_cursor := l1\<rparr>"
    have "(tr1, o1) = (if spent ?tr' n1 then ?tr'\<lparr>st_on := False\<rparr> else ?tr', snd (emit_events sq t0 tr ?w1))"
      unfolding s1 [symmetric] by (rule track_step_live [OF conjunct1 [OF True] conjunct2 [OF True], unfolded Let_def])
    note both = this [unfolded prod.inject]
    note tr1 = conjunct1 [OF both] and o1 = conjunct2 [OF both]
    have w: "span_events tr (st_cursor tr) l2 = ?w1 @ ?w2" 
      by (rule span_events_split [OF wf]) (use True ord in simp_all)
    have single: "snd (track_step sq t0 l2 n2 tr) = o1 @ snd (emit_events sq t0 ?tr' ?w2)"
      using True ord by (simp add: track_step_live Let_def w emit_append o1) (rule emit_cong, simp_all)
    have "o2 = snd (emit_events sq t0 ?tr' ?w2)"
    proof (cases "spent ?tr' n1 \<or> \<not> l1 < l2")
      case True
      have "?w2 = []" if "spent ?tr' n1" using that past_the_end [OF wf] by (simp add: spent_def)
      moreover have "?w2 = []" if "\<not> l1 < l2"
        using that by (auto simp: span_events_def filter_empty_conv in_span_def)
      ultimately have "?w2 = []" using True by blast
      with True s2 tr1 show ?thesis by (auto simp: track_step_def split: if_splits)
    next
      case False
      then have "tr1 = ?tr'" using tr1 by simp
      moreover have "span_events ?tr' l1 l2 = ?w2" by (rule span_events_cong) simp_all
      ultimately have "span_events tr1 (st_cursor tr1) l2 = ?w2" "st_on tr1" "st_cursor tr1 < l2"
        using False \<open>st_on tr \<and> st_cursor tr < l1\<close> by simp_all
      then have "snd (track_step sq' t0 l2 n2 tr1) = snd (emit_events sq t0 tr1 ?w2)"
        by (simp add: track_step_live same Let_def)
      with s2 \<open>tr1 = ?tr'\<close> show ?thesis by simp
    qed
    with single show ?thesis by simp
  qed
qed

lemma py_round_mono: "x \<le> y \<Longrightarrow> py_round x \<le> py_round y"
proof (cases "\<lfloor>x\<rfloor> = \<lfloor>y\<rfloor>")
  case False
  moreover assume "x \<le> y"
  ultimately have "\<lfloor>x\<rfloor> + 1 \<le> \<lfloor>y\<rfloor>" using floor_mono [of x y] by linarith
  moreover have "py_round x \<le> \<lfloor>x\<rfloor> + 1" "\<lfloor>y\<rfloor> \<le> py_round y" by (simp_all add: py_round_def Let_def)
  ultimately show ?thesis by linarith
qed (auto simp: py_round_def Let_def)

lemma snap_mono: "x \<le> y \<Longrightarrow> snap x \<le> snap y"
  by (simp add: snap_def divide_right_mono py_round_mono)

lemma emit_other_tracks: "emit_events (sq\<lparr>sq_tracks := trs\<rparr>) t0 tr w = emit_events sq t0 tr w"
proof (induction w arbitrary: tr)
  case (Cons x w)
  have "snd (event_cue (sq\<lparr>sq_tracks := trs\<rparr>) t0 tr e g) = snd (event_cue sq t0 tr e g)" for e g
    by (simp add: event_cue_def cc7_cue_def seq_cue_def grid_time_def Let_def)
  with Cons show ?case by (cases x) simp
qed simp

lemma sort_in_two_parts:
  assumes "\<And>x. x \<in> set xs \<Longrightarrow> (\<forall>y \<in> set (a x). fst y < m) \<and> (\<forall>y \<in> set (b x). m \<le> fst y)"
  shows "sort_key fst (concat (map (\<lambda>x. a x @ b x) xs))
    = sort_key fst (concat (map a xs)) @ sort_key fst (concat (map b xs))"
proof -
  have "filter (\<lambda>x. fst x < m) (concat (map (\<lambda>x. a x @ b x) xs)) = concat (map a xs)
      \<and> filter (\<lambda>x. \<not> fst x < m) (concat (map (\<lambda>x. a x @ b x) xs)) = concat (map b xs)"
    using assms
  proof (induction xs)
    case (Cons x xs)
    have "(\<forall>y \<in> set (a x). fst y < m) \<and> (\<forall>y \<in> set (b x). m \<le> fst y)" by (rule Cons.prems) simp
    then have "filter (\<lambda>x. fst x < m) (a x) = a x" "filter (\<lambda>x. fst x < m) (b x) = []"
        "filter (\<lambda>x. \<not> fst x < m) (a x) = []" "filter (\<lambda>x. \<not> fst x < m) (b x) = b x"
      by (auto simp: filter_empty_conv filter_id_conv not_less)
    with Cons.IH [OF Cons.prems] show ?case by simp
  qed simp
  then show ?thesis by (subst sort_key_split [of _ _ m]) simp
qed

definition seq_ready :: "sequencer \<Rightarrow> bool" where
  "seq_ready sq \<longleftrightarrow> sq_t0 sq \<noteq> None \<and> 0 \<le> sq_bpm sq \<and> (\<forall>x \<in> set (sq_tracks sq). track_wf (snd x))"

lemma advance_total:
  "sq_t0 sq = Some t0 \<Longrightarrow> \<forall>x \<in> set (sq_tracks sq). track_wf (snd x) \<Longrightarrow>
   advance w sq =
     (let step = track_step sq t0 (snap (grid_beat sq t0 (w + sq_lookahead sq))) (snap (grid_beat sq t0 w))
      in Some (sq\<lparr>sq_tracks := map (\<lambda>x. (fst x, fst (step (snd x)))) (sq_tracks sq)\<rparr>,
               map snd (sort_key fst (concat (map (\<lambda>x. snd (step (snd x))) (sq_tracks sq))))))"
  by (simp add: advance_def advance_tracks_total Let_def)

text \<open>
  C14: The tick rate is inaudible: ticking at \<open>w1\<close> and then at \<open>w2\<close> returns, and hands out exactly the cues, in
  the same order, that one tick at \<open>w2\<close> would have; so no note is played twice or left out between ticks,
  with any number of loops and one-shots on, at any look-ahead.
\<close>
theorem tick_rate_is_inaudible:
  assumes ready: "seq_ready sq" and ord: "w1 \<le> w2"
  shows "\<exists>sq1 out1 sq2 out2 sq'. advance w1 sq = Some (sq1, out1) \<and> advance w2 sq1 = Some (sq2, out2)
    \<and> advance w2 sq = Some (sq', out1 @ out2)"
proof -
  obtain t0 where t0: "sq_t0 sq = Some t0" and wf: "\<forall>x \<in> set (sq_tracks sq). track_wf (snd x)" and bpm: "0 \<le> sq_bpm sq"
    using ready by (auto simp: seq_ready_def)
  define step where "step s w = track_step s t0 (snap (grid_beat sq t0 (w + sq_lookahead sq))) (snap (grid_beat sq t0 w))" for s w
  define trs1 where "trs1 = map (\<lambda>x. (fst x, fst (step sq w1 (snd x)))) (sq_tracks sq)"
  let ?sq1 = "sq\<lparr>sq_tracks := trs1\<rparr>"
  have mono: "snap (grid_beat sq t0 (w1 + c)) \<le> snap (grid_beat sq t0 (w2 + c))" for c
    using ord bpm by (intro snap_mono) (simp add: grid_beat_def divide_right_mono mult_right_mono)
  have one: "advance w sq = Some (sq\<lparr>sq_tracks := map (\<lambda>x. (fst x, fst (step sq w (snd x)))) (sq_tracks sq)\<rparr>,
      map snd (sort_key fst (concat (map (\<lambda>x. snd (step sq w (snd x))) (sq_tracks sq)))))" for w
    using advance_total [OF t0 wf] by (simp add: step_def Let_def)
  have "\<forall>x \<in> set trs1. track_wf (snd x)" using wf by (auto simp: trs1_def step_def)
  then have two: "\<exists>sq2. advance w2 ?sq1 = Some (sq2,
      map snd (sort_key fst (concat (map (\<lambda>x. snd (step ?sq1 w2 (snd x))) trs1))))"
    using advance_total [of ?sq1 t0 w2] t0 by (simp add: step_def Let_def grid_beat_def)
  have parts: "snd (step sq w2 tr) = snd (step sq w1 tr) @ snd (step ?sq1 w2 (fst (step sq w1 tr)))
      \<and> (\<forall>y \<in> set (snd (step sq w1 tr)). fst y < snap (grid_beat sq t0 (w1 + sq_lookahead sq)))
      \<and> (\<forall>y \<in> set (snd (step ?sq1 w2 (fst (step sq w1 tr)))). snap (grid_beat sq t0 (w1 + sq_lookahead sq)) \<le> fst y)"
    if "(n, tr) \<in> set (sq_tracks sq)" for n tr
    using two_ticks [OF _ mono mono [of 0, simplified] prod.collapse [symmetric] prod.collapse [symmetric] emit_other_tracks]
      wf that unfolding step_def by fastforce
  have "map (\<lambda>x. snd (step sq w2 (snd x))) (sq_tracks sq)
      = map (\<lambda>x. snd (step sq w1 (snd x)) @ snd (step ?sq1 w2 (fst (step sq w1 (snd x))))) (sq_tracks sq)"
    using parts by (intro map_cong) auto
  then have "sort_key fst (concat (map (\<lambda>x. snd (step sq w2 (snd x))) (sq_tracks sq)))
      = sort_key fst (concat (map (\<lambda>x. snd (step sq w1 (snd x))) (sq_tracks sq)))
        @ sort_key fst (concat (map (\<lambda>x. snd (step ?sq1 w2 (fst (step sq w1 (snd x))))) (sq_tracks sq)))"
    using parts by (simp only:) (rule sort_in_two_parts, fastforce)
  with one [of w1] one [of w2] two show ?thesis
    by (auto simp: trs1_def comp_def)
qed

end
