(* ===== verification/Sequencer_Notes.thy ===== *)
theory Sequencer_Notes
  imports Sequencer_Facts
begin

section \<open>Every note is released, every byte is a MIDI byte\<close>

text \<open>
  The calls of \<open>src/control/sequencer.py\<close> after \<open>start\<close>, as a machine that collects the cues it handed
  out. A call that raises leaves no mark: it raises before it changes anything (with a bpm that is not 0).
\<close>

datatype seq_call =
    Enable string rat
  | Disable string rat
  | Play_Once string rat
  | Master rat rat
  | Tick rat

fun seq_do :: "seq_call \<Rightarrow> sequencer \<Rightarrow> (sequencer \<times> cue list) option" where
  "seq_do (Enable name w) sq = enable name w sq"
| "seq_do (Disable name w) sq = disable name w sq"
| "seq_do (Play_Once name w) sq = play_once name w sq"
| "seq_do (Master level w) sq = Some (set_master level w sq)"
| "seq_do (Tick w) sq = advance w sq"

definition seq_step :: "sequencer \<times> cue list \<Rightarrow> seq_call \<Rightarrow> sequencer \<times> cue list" where
  "seq_step s call =
     (case seq_do call (fst s) of None \<Rightarrow> s | Some (sq', out) \<Rightarrow> (sq', snd s @ out))"

definition seq_run :: "sequencer \<Rightarrow> seq_call list \<Rightarrow> sequencer \<times> cue list" where
  "seq_run sq calls = foldl seq_step (sq, []) calls"

subsection \<open>Note-ons and MIDI bytes\<close>

fun note_on :: "cue \<Rightarrow> (string \<times> int) option" where
  "note_on (MusicCue _ s k _ _ (Some n)) = (if 144 \<le> s \<and> s < 160 then Some (n, k) else None)"
| "note_on _ = None"

fun midi_cue :: "cue \<Rightarrow> bool" where
  "midi_cue (MusicCue _ s a b _ _) \<longleftrightarrow> 128 \<le> s \<and> s < 240 \<and> 0 \<le> a \<and> a \<le> 127 \<and> 0 \<le> b \<and> b \<le> 127"
| "midi_cue (MusicPurge _ _) \<longleftrightarrow> True"
| "midi_cue _ \<longleftrightarrow> False"

definition event_midi :: "midi_event \<Rightarrow> bool" where
  "event_midi e \<longleftrightarrow> 128 \<le> me_status e \<and> me_status e < 240 \<and> me_data1 e \<le> 127 \<and> me_data2 e \<le> 127"

definition track_midi :: "seq_track \<Rightarrow> bool" where
  "track_midi tr \<longleftrightarrow> st_part tr < 16 \<and> (\<forall>e \<in> set (st_events tr). event_midi e)
     \<and> (\<forall>n \<in> set (st_notes tr). kind_of (sn_status n) = 144 \<and> sn_key n \<le> 127 \<and> sn_velocity n \<le> 127)
     \<and> st_cc7 tr \<le> 127 \<and> st_initial_cc7 tr \<le> 127 \<and> st_struck tr \<subseteq> {..127}"

lemma channel_nibble: "p < 16 \<Longrightarrow> or (kind_of s) p = kind_of s + p"
proof -
  assume "p < 16"
  then have p: "take_bit 4 p = p" by (simp add: take_bit_eq_mod)
  have s: "kind_of s = push_bit 4 (s div 16)" by (simp add: kind_of_def push_bit_eq_mult)
  have "and (push_bit 4 q) (take_bit 4 p) = 0" for q :: nat
    by (rule bit_eqI) (auto simp: bit_simps)
  from disjunctive_add_eq_or [OF this [of "s div 16"]] show ?thesis unfolding s p by simp
qed

lemma kind_of_bounds: "128 \<le> s \<Longrightarrow> s < 240 \<Longrightarrow> 128 \<le> kind_of s \<and> kind_of s \<le> 224"
proof -
  assume "128 \<le> s" "s < 240"
  then have "8 \<le> s div 16" "s div 16 \<le> 14" by linarith+
  then show ?thesis by (simp add: kind_of_def)
qed

lemma kind_of_multiple: "16 dvd kind_of s"
  by (simp add: kind_of_def)

text \<open>A cue that the track \<open>tr\<close> may hand out: MIDI bytes, and a note-on only for a key it has struck.\<close>

definition cue_of_track :: "seq_track \<Rightarrow> cue \<Rightarrow> bool" where
  "cue_of_track tr c \<longleftrightarrow> midi_cue c
     \<and> (\<forall>n k. note_on c = Some (n, k) \<longrightarrow> n = st_name tr \<and> k \<in> int ` st_struck tr)"

lemma seq_cue_of_track:
  assumes "track_midi tr" "128 \<le> kind_of s" "kind_of s \<le> 224" "d1 \<le> 127" "d2 \<le> 127"
    and "kind_of s = 144 \<longrightarrow> d1 \<in> st_struck tr"
  shows "cue_of_track tr (seq_cue sq tr s d1 d2 w)"
proof -
  have part: "st_part tr < 16" using assms(1) by (simp add: track_midi_def)
  obtain q where q: "kind_of s = 16 * q" using kind_of_multiple by (auto simp: dvd_def)
  have "kind_of s = 144" if "144 \<le> kind_of s + st_part tr" "kind_of s + st_part tr < 160"
    using that part unfolding q by simp
  then show ?thesis
    using assms part by (auto simp: cue_of_track_def seq_cue_def channel_nibble)
qed

lemma cc7_cue_of_track: "track_midi tr \<Longrightarrow> cue_of_track tr (cc7_cue sq tr w)"
  unfolding cc7_cue_def by (rule seq_cue_of_track) (auto simp: kind_of_def)

lemma seq_cue_cong:
  "st_name tr' = st_name tr \<Longrightarrow> st_part tr' = st_part tr \<Longrightarrow> seq_cue sq tr' s a b w = seq_cue sq tr s a b w"
  by (simp add: seq_cue_def)

lemma cue_of_track_mono:
  "cue_of_track tr c \<Longrightarrow> st_name tr' = st_name tr \<Longrightarrow> st_struck tr \<subseteq> st_struck tr' \<Longrightarrow> cue_of_track tr' c"
  unfolding cue_of_track_def by (metis image_mono subsetD)

subsection \<open>One step of one track\<close>

definition keeps :: "seq_track \<Rightarrow> seq_track \<Rightarrow> bool" where
  "keeps tr tr' \<longleftrightarrow> st_name tr' = st_name tr \<and> (track_wf tr \<longrightarrow> track_wf tr') \<and> (track_midi tr \<longrightarrow> track_midi tr')
     \<and> st_struck tr \<subseteq> st_struck tr'"

lemma keeps_refl [simp]: "keeps tr tr"
  by (simp add: keeps_def)

lemma keeps_trans: "keeps a b \<Longrightarrow> keeps b c \<Longrightarrow> keeps a c"
  by (auto simp: keeps_def)

lemma keeps_play [simp]:
  "keeps tr (tr\<lparr>st_on := o1\<rparr>)" "keeps tr (tr\<lparr>st_cursor := c\<rparr>)"
  "keeps tr (tr\<lparr>st_on := o1, st_cursor := c\<rparr>)"
  "keeps tr (tr\<lparr>st_on := o1, st_origin := g, st_cursor := c, st_cc7 := st_initial_cc7 tr\<rparr>)"
  by (auto simp: keeps_def track_wf_def track_midi_def)

lemma keeps_after_event: "event_midi e \<Longrightarrow> keeps tr (after_event tr e)"
  by (auto simp: keeps_def track_wf_def track_midi_def after_event_def event_midi_def)

lemma event_cue_of_track:
  "track_midi tr \<Longrightarrow> event_midi e \<Longrightarrow> cue_of_track (after_event tr e) (snd (event_cue sq t0 tr e g))"
proof -
  assume tr: "track_midi tr" and e: "event_midi e"
  have after: "track_midi (after_event tr e)" using keeps_after_event [OF e, of tr] tr by (simp add: keeps_def)
  have cc: "track_midi (tr\<lparr>st_cc7 := me_data2 e\<rparr>)" using tr e by (simp add: track_midi_def event_midi_def)
  have "cue_of_track (after_event tr e) (seq_cue sq (after_event tr e) (me_status e) (me_data1 e) (me_data2 e) w)" for w
    using e kind_of_bounds [of "me_status e"]
    by (intro seq_cue_of_track [OF after]) (auto simp: event_midi_def after_event_def)
  moreover have "seq_cue sq (after_event tr e) s a b w = seq_cue sq tr s a b w" for s a b w
    by (rule seq_cue_cong) (simp_all add: after_event_def)
  moreover have "cue_of_track (after_event tr e) (cc7_cue sq (tr\<lparr>st_cc7 := me_data2 e\<rparr>) w)" for w
    by (rule cue_of_track_mono [OF cc7_cue_of_track [OF cc]]) (auto simp: after_event_def)
  ultimately show ?thesis by (auto simp: event_cue_def Let_def)
qed

lemma emit_of_track:
  assumes "track_midi tr" "\<forall>x \<in> set w. event_midi (snd x)"
  shows "keeps tr (fst (emit_events sq t0 tr w))
    \<and> (\<forall>c \<in> snd ` set (snd (emit_events sq t0 tr w)). cue_of_track (fst (emit_events sq t0 tr w)) c)"
  using assms
proof (induction w arbitrary: tr)
  case (Cons x w)
  obtain g e where x: "x = (g, e)" by (cases x)
  with Cons.prems have e: "event_midi e" by simp
  have k: "keeps tr (after_event tr e)" by (rule keeps_after_event [OF e])
  with Cons.prems(1) have mid: "track_midi (after_event tr e)" by (simp add: keeps_def)
  with Cons have IH: "keeps (after_event tr e) (fst (emit_events sq t0 (after_event tr e) w))"
      "\<forall>c \<in> snd ` set (snd (emit_events sq t0 (after_event tr e) w)). cue_of_track (fst (emit_events sq t0 (after_event tr e) w)) c"
    by simp_all
  have "cue_of_track (fst (emit_events sq t0 (after_event tr e) w)) (snd (event_cue sq t0 tr e g))"
    using IH(1) by (intro cue_of_track_mono [OF event_cue_of_track [OF Cons.prems(1) e]]) (simp_all add: keeps_def)
  with IH keeps_trans [OF k IH(1)] show ?case by (simp add: x)
qed simp

lemma span_events_of_track: "x \<in> set (span_events tr lo hi) \<Longrightarrow> snd x \<in> set (st_events tr)"
  by (auto simp: span_events_def occurrences_def at_base_def split: if_splits)

lemma step_of_track:
  assumes "track_midi tr"
  shows "keeps tr (fst (track_step sq t0 limit now tr))
    \<and> (\<forall>c \<in> snd ` set (snd (track_step sq t0 limit now tr)). cue_of_track (fst (track_step sq t0 limit now tr)) c)"
proof (cases "st_on tr \<and> st_cursor tr < limit")
  case True
  let ?e = "emit_events sq t0 tr (span_events tr (st_cursor tr) limit)"
  have ev: "\<forall>x \<in> set (span_events tr (st_cursor tr) limit). event_midi (snd x)"
    using assms span_events_of_track by (fastforce simp: track_midi_def)
  from emit_of_track [OF assms ev, of sq t0]
  have e: "keeps tr (fst ?e)" "\<forall>c \<in> snd ` set (snd ?e). cue_of_track (fst ?e) c" by simp_all
  have on: "keeps tr (fst ?e\<lparr>st_cursor := limit\<rparr>)" "keeps tr (fst ?e\<lparr>st_cursor := limit, st_on := False\<rparr>)"
    by (rule keeps_trans [OF e(1)], simp)+ (rule keeps_trans [OF e(1)], rule keeps_trans [of _ "fst ?e\<lparr>st_cursor := limit\<rparr>"], simp_all)
  have "cue_of_track (fst ?e\<lparr>st_cursor := limit\<rparr>) c = cue_of_track (fst ?e) c"
    "cue_of_track (fst ?e\<lparr>st_cursor := limit, st_on := False\<rparr>) c = cue_of_track (fst ?e) c" for c
    by (simp_all add: cue_of_track_def)
  with e on True show ?thesis by (simp add: track_step_live Let_def)
next
  case False
  then show ?thesis by (auto simp: track_step_def)
qed

subsection \<open>Setting up from files\<close>

fun load_tracks :: "(string \<times> byte list \<times> nat \<times> bool \<times> rat) list \<Rightarrow> sequencer \<Rightarrow> sequencer option" where
  "load_tracks [] sq = Some sq"
| "load_tracks ((name, data, part, loop, skip) # rest) sq =
     (case parse_midi data of
        None \<Rightarrow> None
      | Some mf \<Rightarrow>
          (case add_track name mf part loop skip sq of None \<Rightarrow> None | Some sq' \<Rightarrow> load_tracks rest sq'))"

lemma drop_struck_subset: "set (drop_struck_at_end opn len es) \<subseteq> set es"
proof (induction es arbitrary: opn)
  case (Cons e es)
  have "set (drop_struck_at_end opn' len es) \<subseteq> set (e # es)" for opn' using Cons.IH [of opn'] by auto
  then show ?case by (simp add: Let_def)
qed simp

lemma drop_struck_sorted: "sorted (map me_beat es) \<Longrightarrow> sorted (map me_beat (drop_struck_at_end opn len es))"
proof (induction es arbitrary: opn)
  case (Cons e es)
  have "\<forall>e' \<in> set (drop_struck_at_end opn' len es). me_beat e \<le> me_beat e'" for opn'
    using Cons.prems drop_struck_subset [of opn' len es] by auto
  with Cons show ?case by (simp add: Let_def)
qed simp

lemma pair_notes_midi:
  "\<forall>e \<in> set es. event_midi e \<Longrightarrow> \<forall>k. \<forall>e \<in> set (opn k). event_midi e \<and> kind_of (me_status e) = 144 \<Longrightarrow>
   \<forall>n \<in> set (pair_notes opn es). kind_of (sn_status n) = 144 \<and> sn_key n \<le> 127 \<and> sn_velocity n \<le> 127"
  (is "_ \<Longrightarrow> _ \<Longrightarrow> ?P (pair_notes opn es)")
proof (induction es arbitrary: opn)
  case (Cons e es)
  have hd: "event_midi (hd (opn k)) \<and> kind_of (me_status (hd (opn k))) = 144" if "opn k \<noteq> []" for k
    using Cons.prems(2) that by (metis hd_in_set)
  have tl: "\<forall>e' \<in> set (tl (opn k)). event_midi e' \<and> kind_of (me_status e') = 144" for k
    using Cons.prems(2) by (metis list.sel(2) list.set_sel(2))
  consider "kind_of (me_status e) = 144" | "kind_of (me_status e) = 128" "opn (me_data1 e) \<noteq> []"
    | "kind_of (me_status e) \<noteq> 144" "\<not> (kind_of (me_status e) = 128 \<and> opn (me_data1 e) \<noteq> [])" by blast
  then show ?case
  proof cases
    case 1
    have "?P (pair_notes (opn(me_data1 e := opn (me_data1 e) @ [e])) es)" by (rule Cons.IH) (use Cons.prems 1 in auto)
    with 1 show ?thesis by (simp add: Let_def)
  next
    case 2
    have "?P (pair_notes (opn(me_data1 e := tl (opn (me_data1 e)))) es)" by (rule Cons.IH) (use Cons.prems tl in auto)
    with 2 hd show ?thesis by (simp add: Let_def event_midi_def)
  next
    case 3
    then have "pair_notes opn (e # es) = pair_notes opn es" by (auto simp: Let_def)
    with Cons.IH [of opn] Cons.prems show ?thesis by simp
  qed
qed simp

lemma first_cc7_midi: "\<forall>e \<in> set es. event_midi e \<Longrightarrow> first_cc7 es \<le> 127"
  by (auto simp: first_cc7_def DEFAULT_CC7_def event_midi_def find_Some_iff split: option.splits)

lemma loop_beats_pos: "0 < loop_beats 4 mf"
  by (simp add: loop_beats_def)

lemma last_is_greatest: "sorted (map f es) \<Longrightarrow> e \<in> set es \<Longrightarrow> f e \<le> f (last es)"
  by (induction es) auto

lemma set_dset: "x \<in> set (dset k v d) \<Longrightarrow> x = (k, v) \<or> x \<in> set d"
  by (induction d) (auto split: if_splits)

definition seq_inv :: "sequencer \<times> cue list \<Rightarrow> bool" where
  "seq_inv s \<longleftrightarrow> dict_ok (sq_tracks (fst s))
     \<and> (\<forall>x \<in> set (sq_tracks (fst s)). st_name (snd x) = fst x \<and> track_wf (snd x) \<and> track_midi (snd x))
     \<and> (\<forall>c \<in> set (snd s). midi_cue c
          \<and> (\<forall>n k. note_on c = Some (n, k) \<longrightarrow> (\<exists>tr. dget (sq_tracks (fst s)) n = Some tr \<and> k \<in> int ` st_struck tr)))"

lemma add_track_inv:
  assumes add: "add_track name mf part loop skip sq = Some sq'" and mf: "midi_ok mf" and part: "part < 16"
    and inv: "seq_inv (sq, [])"
  shows "seq_inv (sq', [])"
proof -
  let ?ev = "if loop then drop_struck_at_end (\<lambda>_. []) (loop_beats 4 mf) (mf_events mf) else shift_events skip (mf_events mf)"
  let ?len = "if loop then loop_beats 4 mf else if ?ev = [] then 0 else me_beat (last ?ev)"
  let ?tr = "\<lparr>st_name = name, st_part = part, st_loop = loop, st_events = ?ev, st_length = ?len,
     st_notes = pair_notes (\<lambda>_. []) ?ev, st_initial_cc7 = first_cc7 ?ev, st_on = False, st_origin = 0,
     st_cursor = 0, st_cc7 = first_cc7 ?ev, st_struck = {}\<rparr>"
  have sq': "sq' = sq\<lparr>sq_tracks := dset name ?tr (sq_tracks sq)\<rparr>"
    using add by (simp add: add_track_def Let_def split: if_splits)
  have sorted: "sorted (map me_beat (mf_events mf))" and voice: "\<forall>e \<in> set (mf_events mf). event_midi e \<and> 0 \<le> me_beat e"
    using mf by (auto simp: midi_ok_def channel_voice_def event_midi_def)
  have loop_ev: "set (drop_struck_at_end (\<lambda>_. []) (loop_beats 4 mf) (mf_events mf)) \<subseteq> set (mf_events mf)"
      "sorted (map me_beat (drop_struck_at_end (\<lambda>_. []) (loop_beats 4 mf) (mf_events mf)))"
    by (rule drop_struck_subset, rule drop_struck_sorted [OF sorted])
  have "sorted (map me_beat (filter (\<lambda>e. skip \<le> me_beat e) (mf_events mf)))"
    using sorted by (simp add: sorted_map sorted_wrt_map sorted_wrt_filter)
  then have shifted: "sorted (map me_beat (shift_events skip (mf_events mf)))"
    by (simp add: shift_events_def sorted_map sorted_wrt_map comp_def)
  have ev: "sorted (map me_beat ?ev)" "\<forall>e \<in> set ?ev. event_midi e"
    using loop_ev shifted voice by (auto simp: shift_events_def event_midi_def)
  have "track_wf ?tr"
    using ev(1) loop_ev voice last_is_greatest [OF shifted] by (auto simp: track_wf_def loop_beats_pos)
  moreover have "track_midi ?tr"
    using ev(2) part pair_notes_midi [OF ev(2), of "\<lambda>_. []"] first_cc7_midi [OF ev(2)] by (simp add: track_midi_def)
  ultimately have "st_name (snd x) = fst x \<and> track_wf (snd x) \<and> track_midi (snd x)"
    if "x \<in> set (dset name ?tr (sq_tracks sq))" for x
    using that inv set_dset by (fastforce simp: seq_inv_def)
  with inv show ?thesis by (simp add: seq_inv_def sq')
qed

lemma load_tracks_inv:
  "load_tracks specs sq = Some sq' \<Longrightarrow> list_all (\<lambda>(_, _, part, _). part < 16) specs \<Longrightarrow> seq_inv (sq, []) \<Longrightarrow> seq_inv (sq', [])"
  by (induction specs sq rule: load_tracks.induct) (auto dest: add_track_inv [OF _ parse_midi_ok] split: option.splits)

subsection \<open>Every call keeps the books\<close>

lemma note_on_struck:
  "seq_inv (sq, cues) \<Longrightarrow> c \<in> set cues \<Longrightarrow> note_on c = Some (n, k) \<Longrightarrow>
   \<exists>tr. dget (sq_tracks sq) n = Some tr \<and> k \<in> int ` st_struck tr"
  unfolding seq_inv_def fst_conv snd_conv by blast

lemma dset_in_place:
  "dict_ok d \<Longrightarrow> dget d k = Some v \<Longrightarrow> dset k v' d = map (\<lambda>x. (fst x, if fst x = k then v' else snd x)) d"
  by (induction d) (auto simp: map_of_eq_None_iff image_iff intro!: map_idI [symmetric])

lemma dget_map_pairs: "dget (map (\<lambda>x. (fst x, f x)) d) n = map_option (\<lambda>v. f (n, v)) (dget d n)"
  by (induction d) auto

lemma inv_all_tracks:
  assumes inv: "seq_inv (sq, cues)" and keep: "\<And>x. x \<in> set (sq_tracks sq) \<Longrightarrow> keeps (snd x) (f x)"
    and out: "\<And>c. c \<in> set out \<Longrightarrow> \<exists>x \<in> set (sq_tracks sq). cue_of_track (f x) c"
    and sq': "sq_tracks sq' = map (\<lambda>x. (fst x, f x)) (sq_tracks sq)"
  shows "seq_inv (sq', cues @ out)"
proof -
  have ok: "dict_ok (sq_tracks sq)" and good: "\<And>x. x \<in> set (sq_tracks sq) \<Longrightarrow> st_name (snd x) = fst x \<and> track_wf (snd x) \<and> track_midi (snd x)"
    using inv by (auto simp: seq_inv_def)
  have get: "dget (sq_tracks sq') n = map_option (\<lambda>v. f (n, v)) (dget (sq_tracks sq) n)" for n
    by (simp add: sq' dget_map_pairs)
  have old: "midi_cue c \<and> (\<forall>n k. note_on c = Some (n, k) \<longrightarrow> (\<exists>tr. dget (sq_tracks sq') n = Some tr \<and> k \<in> int ` st_struck tr))"
    if "c \<in> set cues" for c
  proof (intro conjI allI impI)
    show "midi_cue c" using inv that by (simp add: seq_inv_def)
    fix n k assume "note_on c = Some (n, k)"
    with inv that obtain tr where tr: "dget (sq_tracks sq) n = Some tr" "k \<in> int ` st_struck tr"
      using note_on_struck by blast
    then have "(n, tr) \<in> set (sq_tracks sq)" by (simp add: map_of_SomeD)
    from keep [OF this] tr get [of n] show "\<exists>tr. dget (sq_tracks sq') n = Some tr \<and> k \<in> int ` st_struck tr"
      by (auto simp: keeps_def)
  qed
  have new: "midi_cue c \<and> (\<forall>n k. note_on c = Some (n, k) \<longrightarrow> (\<exists>tr. dget (sq_tracks sq') n = Some tr \<and> k \<in> int ` st_struck tr))"
    if c: "c \<in> set out" for c
  proof -
    obtain x where x: "x \<in> set (sq_tracks sq)" "cue_of_track (f x) c" using out [OF c] by blast
    have "st_name (f x) = fst x" using keep [OF x(1)] good [OF x(1)] by (simp add: keeps_def)
    moreover have "dget (sq_tracks sq') (fst x) = Some (f x)"
      unfolding get using map_of_is_SomeI [OF ok, of "fst x" "snd x"] x(1) by simp
    ultimately show ?thesis using x(2) by (auto simp: cue_of_track_def)
  qed
  have "dict_ok (sq_tracks sq')" using ok by (simp add: sq' comp_def)
  moreover have "st_name (f x) = fst x \<and> track_wf (f x) \<and> track_midi (f x)" if "x \<in> set (sq_tracks sq)" for x
    using keep [OF that] good [OF that] by (simp add: keeps_def)
  ultimately show ?thesis using old new by (auto simp: seq_inv_def sq')
qed

lemma inv_one_track:
  assumes inv: "seq_inv (sq, cues)" and tr: "dget (sq_tracks sq) name = Some tr" and keep: "keeps tr tr'"
    and out: "\<And>c. c \<in> set out \<Longrightarrow> cue_of_track tr' c"
    and sq': "sq_tracks sq' = dset name tr' (sq_tracks sq)"
  shows "seq_inv (sq', cues @ out)"
proof (rule inv_all_tracks [OF inv, where f = "\<lambda>x. if fst x = name then tr' else snd x"])
  have ok: "dict_ok (sq_tracks sq)" using inv by (simp add: seq_inv_def)
  have mem: "(name, tr) \<in> set (sq_tracks sq)" using tr by (simp add: map_of_SomeD)
  show "keeps (snd x) (if fst x = name then tr' else snd x)" if "x \<in> set (sq_tracks sq)" for x
  proof (cases "fst x = name")
    case True
    from that True have "(name, snd x) \<in> set (sq_tracks sq)" by auto
    from map_of_is_SomeI [OF ok this] tr have "snd x = tr" by simp
    with True keep show ?thesis by simp
  qed simp
  show "\<exists>x \<in> set (sq_tracks sq). cue_of_track (if fst x = name then tr' else snd x) c" if "c \<in> set out" for c
    using mem out [OF that] by (intro bexI [of _ "(name, tr)"]) auto
  show "sq_tracks sq' = map (\<lambda>x. (fst x, if fst x = name then tr' else snd x)) (sq_tracks sq)"
    using dset_in_place [OF ok tr] sq' by simp
qed

lemma inv_track: "seq_inv (sq, cues) \<Longrightarrow> dget (sq_tracks sq) name = Some tr \<Longrightarrow> track_midi tr \<and> track_wf tr \<and> st_name tr = name"
  by (fastforce simp: seq_inv_def dest: map_of_SomeD)

lemma chase_keeps:
  assumes "track_midi tr0" and "\<And>x. x \<in> set todo \<Longrightarrow> fst x \<in> set (st_notes tr0)"
    and "keeps tr0 tr" "st_notes tr = st_notes tr0" "\<And>c. c \<in> set out \<Longrightarrow> cue_of_track tr c"
    and "fold (chase_step sq w b) todo (tr, chased, out) = (tr', chased', out')"
  shows "keeps tr0 tr' \<and> (\<forall>c \<in> set out'. cue_of_track tr' c)"
  using assms
proof (induction todo arbitrary: tr chased out)
  case (Cons x todo)
  obtain n kk where x: "x = (n, kk)" by (cases x)
  have n: "kind_of (sn_status n) = 144 \<and> sn_key n \<le> 127 \<and> sn_velocity n \<le> 127"
    using Cons.prems(1) Cons.prems(2) [of x] by (auto simp: x track_midi_def)
  let ?tr = "tr\<lparr>st_struck := insert (sn_key n) (st_struck tr)\<rparr>"
  have mid: "track_midi tr" using Cons.prems(1,3) by (simp add: keeps_def)
  have k: "keeps tr ?tr" using n by (auto simp: keeps_def track_wf_def track_midi_def)
  then have mid': "track_midi ?tr" using mid by (simp add: keeps_def)
  have "cue_of_track ?tr (seq_cue sq ?tr (sn_status n) (sn_key n) (sn_velocity n) w)"
    by (rule seq_cue_of_track [OF mid']) (use n in auto)
  then have cue: "cue_of_track ?tr (seq_cue sq tr (sn_status n) (sn_key n) (sn_velocity n) w)"
    by (simp add: seq_cue_def)
  have old: "cue_of_track ?tr c" if "c \<in> set out" for c
    using Cons.prems(5) [OF that] by (rule cue_of_track_mono) auto
  have rest: "\<And>y. y \<in> set todo \<Longrightarrow> fst y \<in> set (st_notes tr0)" using Cons.prems(2) by simp
  show ?case
  proof (cases "chase_step sq w b x (tr, chased, out) = (tr, chased, out)")
    case True
    show ?thesis
      by (rule Cons.IH [OF Cons.prems(1) rest Cons.prems(3-5)]) (use True Cons.prems(6) in simp_all)
  next
    case False
    then have step: "chase_step sq w b x (tr, chased, out)
        = (?tr, insert (sn_key n) chased, out @ [seq_cue sq tr (sn_status n) (sn_key n) (sn_velocity n) w])"
      by (auto simp: chase_step_def x Let_def split: if_splits)
    show ?thesis
      by (rule Cons.IH [OF Cons.prems(1) rest keeps_trans [OF Cons.prems(3) k],
            of "out @ [seq_cue sq tr (sn_status n) (sn_key n) (sn_velocity n) w]" "insert (sn_key n) chased"])
        (use Cons.prems(4,6) step cue old in auto)
  qed
qed simp

lemma finite_struck: "track_midi tr \<Longrightarrow> finite (st_struck tr)"
  by (auto simp: track_midi_def intro: finite_subset)

lemma release_cues_of_track: "track_midi tr \<Longrightarrow> c \<in> set (release_cues sq tr w) \<Longrightarrow> cue_of_track tr c"
proof -
  assume tr: "track_midi tr" and "c \<in> set (release_cues sq tr w)"
  then consider "c = MusicPurge (sq_dev sq) (st_name tr)" | key where "key \<in> st_struck tr" "c = seq_cue sq tr 128 key 0 w"
    | "c = seq_cue sq tr 176 64 0 w"
    by (auto simp: release_cues_def finite_struck)
  then show ?thesis
  proof cases
    case 2
    then have "key \<le> 127" using tr by (auto simp: track_midi_def)
    with 2 tr show ?thesis by (auto intro!: seq_cue_of_track simp: kind_of_def)
  qed (use tr in \<open>auto intro!: seq_cue_of_track simp: kind_of_def cue_of_track_def [of _ "MusicPurge _ _"]\<close>)
qed

lemma start_inv: "seq_inv (sq, []) \<Longrightarrow> seq_inv (start t0 sq, [])"
proof -
  assume inv: "seq_inv (sq, [])"
  have rew: "st_name (rewind tr) = st_name tr \<and> (track_wf tr \<longrightarrow> track_wf (rewind tr)) \<and> (track_midi tr \<longrightarrow> track_midi (rewind tr))" for tr
    by (simp add: rewind_def track_wf_def track_midi_def)
  have "dict_ok (map (\<lambda>(n, tr). (n, rewind tr)) (sq_tracks sq))" if "dict_ok (sq_tracks sq)"
    using that by (simp add: comp_def case_prod_beta)
  with inv rew show ?thesis by (auto simp: seq_inv_def start_def)
qed

lemma enable_inv: "seq_inv (sq, cues) \<Longrightarrow> enable name w sq = Some (sq', out) \<Longrightarrow> seq_inv (sq', cues @ out)"
proof -
  assume inv: "seq_inv (sq, cues)" and e: "enable name w sq = Some (sq', out)"
  from e obtain tr where tr: "dget (sq_tracks sq) name = Some tr" by (auto simp: enable_def split: option.splits)
  note good = inv_track [OF inv tr]
  show ?thesis
  proof (cases "st_on tr")
    case True
    with e tr inv show ?thesis by (auto simp: enable_def split: if_splits)
  next
    case False
    with e tr obtain beat where beat: "beat_at sq w = Some beat" by (auto simp: enable_def split: if_splits option.splits)
    let ?tr1 = "tr\<lparr>st_on := True, st_cursor := snap beat\<rparr>"
    let ?todo = "concat (map (\<lambda>n. [(n, \<lfloor>snap beat / st_length tr\<rfloor>), (n, \<lfloor>snap beat / st_length tr\<rfloor> - 1)]) (st_notes tr))"
    obtain tr2 ch out' where f: "fold (chase_step sq w (snap beat)) ?todo (?tr1, {}, [cc7_cue sq ?tr1 w]) = (tr2, ch, out')"
      by (rule prod_cases3)
    have r: "sq' = sq\<lparr>sq_tracks := dset name tr2 (sq_tracks sq)\<rparr>" "out = out'"
    proof -
      have "st_loop tr" using e tr by (auto simp: enable_def split: if_splits)
      then have "enable name w sq = Some (sq\<lparr>sq_tracks := dset name tr2 (sq_tracks sq)\<rparr>, out')"
        by (simp only: enable_def tr option.case False beat Let_def f prod.case if_False if_True not_True_eq_False)
      with e show "sq' = sq\<lparr>sq_tracks := dset name tr2 (sq_tracks sq)\<rparr>" "out = out'" by simp_all
    qed
    have mid: "track_midi ?tr1" using good by (simp add: track_midi_def)
    have "keeps ?tr1 tr2 \<and> (\<forall>c \<in> set out'. cue_of_track tr2 c)"
      by (rule chase_keeps [OF mid _ keeps_refl refl _ f]) (auto intro: cc7_cue_of_track [OF mid])
    moreover have "keeps tr ?tr1" by simp
    ultimately show ?thesis
      using inv_one_track [OF inv tr, of tr2 out sq'] keeps_trans r by fastforce
  qed
qed

lemma disable_inv: "seq_inv (sq, cues) \<Longrightarrow> disable name w sq = Some (sq', out) \<Longrightarrow> seq_inv (sq', cues @ out)"
proof -
  assume inv: "seq_inv (sq, cues)" and d: "disable name w sq = Some (sq', out)"
  from d obtain tr where tr: "dget (sq_tracks sq) name = Some tr" by (auto simp: disable_def split: option.splits)
  note good = inv_track [OF inv tr]
  show ?thesis
  proof (cases "st_on tr")
    case True
    have "cue_of_track (tr\<lparr>st_on := False\<rparr>) c" if "c \<in> set (release_cues sq tr w)" for c
      by (rule cue_of_track_mono [OF release_cues_of_track [OF _ that]]) (use good in auto)
    moreover have "sq_tracks sq' = dset name (tr\<lparr>st_on := False\<rparr>) (sq_tracks sq)" "out = release_cues sq tr w"
      using d tr True by (auto simp: disable_def)
    ultimately show ?thesis by (intro inv_one_track [OF inv tr keeps_play(1)]) simp_all
  next
    case False
    with d tr inv show ?thesis by (auto simp: disable_def)
  qed
qed

lemma play_once_inv: "seq_inv (sq, cues) \<Longrightarrow> play_once name w sq = Some (sq', out) \<Longrightarrow> seq_inv (sq', cues @ out)"
proof -
  assume inv: "seq_inv (sq, cues)" and p: "play_once name w sq = Some (sq', out)"
  from p obtain tr beat t where tr: "dget (sq_tracks sq) name = Some tr" and "beat_at sq w = Some beat"
    and "time_at sq (of_int \<lceil>snap beat\<rceil>) = Some t"
    by (auto simp: play_once_def Let_def split: option.splits if_splits)
  note good = inv_track [OF inv tr]
  let ?tr1 = "tr\<lparr>st_on := True, st_origin := of_int \<lceil>snap beat\<rceil>, st_cursor := of_int \<lceil>snap beat\<rceil>, st_cc7 := st_initial_cc7 tr\<rparr>"
  have r: "sq_tracks sq' = dset name ?tr1 (sq_tracks sq)" "out = (if st_on tr then release_cues sq tr w else []) @ [cc7_cue sq ?tr1 t]"
    using p tr \<open>beat_at sq w = Some beat\<close> \<open>time_at sq _ = Some t\<close> by (auto simp: play_once_def Let_def split: if_splits)
  have k: "keeps tr ?tr1" by simp
  then have "track_midi ?tr1" using good by (simp add: keeps_def)
  moreover have "cue_of_track ?tr1 c" if "c \<in> set (release_cues sq tr w)" for c
    by (rule cue_of_track_mono [OF release_cues_of_track [OF _ that]]) (use good in auto)
  ultimately have "cue_of_track ?tr1 c" if "c \<in> set out" for c
    using that unfolding r by (auto intro: cc7_cue_of_track split: if_splits)
  then show ?thesis by (rule inv_one_track [OF inv tr k _ r(1)])
qed

lemma set_master_inv: "seq_inv (sq, cues) \<Longrightarrow> set_master level w sq = (sq', out) \<Longrightarrow> seq_inv (sq', cues @ out)"
proof -
  assume inv: "seq_inv (sq, cues)" and m: "set_master level w sq = (sq', out)"
  have mid: "track_midi (snd x)" if "x \<in> set (sq_tracks sq)" for x using inv that by (simp add: seq_inv_def)
  have r: "sq' = sq\<lparr>sq_master := level\<rparr>" "out = map (\<lambda>x. cc7_cue sq' (snd x) w) (sq_tracks sq)"
    using m by (auto simp: set_master_def Let_def case_prod_beta)
  show ?thesis
  proof (rule inv_all_tracks [OF inv, where f = snd])
    show "\<exists>x \<in> set (sq_tracks sq). cue_of_track (snd x) c" if "c \<in> set out" for c
      using that mid unfolding r(2) by (auto intro: cc7_cue_of_track)
  qed (simp_all add: r)
qed

lemma advance_inv: "seq_inv (sq, cues) \<Longrightarrow> advance w sq = Some (sq', out) \<Longrightarrow> seq_inv (sq', cues @ out)"
proof -
  assume inv: "seq_inv (sq, cues)" and a: "advance w sq = Some (sq', out)"
  from a obtain t0 where t0: "sq_t0 sq = Some t0" by (auto simp: advance_def split: option.splits)
  have good: "track_midi (snd x)" "track_wf (snd x)" if "x \<in> set (sq_tracks sq)" for x using inv that by (auto simp: seq_inv_def)
  define step where "step = track_step sq t0 (snap (grid_beat sq t0 (w + sq_lookahead sq))) (snap (grid_beat sq t0 w))"
  have r: "sq' = sq\<lparr>sq_tracks := map (\<lambda>x. (fst x, fst (step (snd x)))) (sq_tracks sq)\<rparr>"
      "out = map snd (sort_key fst (concat (map (\<lambda>x. snd (step (snd x))) (sq_tracks sq))))"
    using a advance_total [OF t0, of w] good by (auto simp: step_def Let_def)
  show ?thesis
  proof (rule inv_all_tracks [OF inv, where f = "\<lambda>x. fst (step (snd x))"])
    show "keeps (snd x) (fst (step (snd x)))" if "x \<in> set (sq_tracks sq)" for x
      using step_of_track [OF good(1) [OF that]] by (simp add: step_def)
    show "\<exists>x \<in> set (sq_tracks sq). cue_of_track (fst (step (snd x))) c" if c: "c \<in> set out" for c
    proof -
      obtain x where x: "x \<in> set (sq_tracks sq)" "c \<in> snd ` set (snd (step (snd x)))" using c by (auto simp: r)
      with step_of_track [OF good(1) [OF x(1)]] show ?thesis unfolding step_def by blast
    qed
  qed (simp add: r)
qed

lemma seq_step_inv: "seq_inv s \<Longrightarrow> seq_inv (seq_step s call)"
  by (cases s; cases call)
    (auto simp: seq_step_def split: option.splits prod.splits
      intro: enable_inv disable_inv play_once_inv advance_inv set_master_inv)

interpretation seq: machine seq_step seq_inv
  by unfold_locales (rule seq_step_inv)

lemma loaded_run_inv:
  assumes "load_tracks specs (new_sequencer bpm d lookahead) = Some sq" "list_all (\<lambda>(_, _, part, _). part < 16) specs"
  shows "seq_inv (seq_run (start t0 sq) calls)"
  unfolding seq_run_def
  by (rule seq.inv_run, rule start_inv, rule load_tracks_inv [OF assms]) (simp add: seq_inv_def new_sequencer_def)

text \<open>
  All that is sent are MIDI bytes: whatever files the tracks were read from, whatever is switched on or
  off, at any master level, every cue the sequencer hands out is a purge or a channel message with a
  status byte from 128 to 239 and data bytes from 0 to 127.
\<close>
theorem only_midi_bytes_are_sent:
  assumes "load_tracks specs (new_sequencer bpm d lookahead) = Some sq" "list_all (\<lambda>(_, _, part, _). part < 16) specs"
    and "c \<in> set (snd (seq_run (start t0 sq) calls))"
  shows "midi_cue c"
  using loaded_run_inv [OF assms(1,2), of t0 calls] assms(3) by (simp add: seq_inv_def)

text \<open>
  C15: Switching a track off leaves no note hanging: after any calls, \<open>disable\<close> on a track that is on first
  purges what is queued, then sends a note-off on the track's channel for every key of every note-on the
  track has been given out for since \<open>start\<close>, and lifts the sustain pedal.
\<close>
theorem switching_off_leaves_no_note:
  assumes loaded: "load_tracks specs (new_sequencer bpm d lookahead) = Some sq" "list_all (\<lambda>(_, _, part, _). part < 16) specs"
    and run: "seq_run (start t0 sq) calls = (sq', cues)"
    and on: "dget (sq_tracks sq') name = Some tr" "st_on tr"
  shows "\<exists>sq'' out. disable name w sq' = Some (sq'', MusicPurge (sq_dev sq') name # out)
    \<and> (\<forall>c \<in> set cues. \<forall>key. note_on c = Some (name, key) \<longrightarrow>
          MusicCue (sq_dev sq') (128 + int (st_part tr)) key 0 (Some (Fin w)) (Some name) \<in> set out)
    \<and> MusicCue (sq_dev sq') (176 + int (st_part tr)) 64 0 (Some (Fin w)) (Some name) \<in> set out"
proof -
  have inv: "seq_inv (sq', cues)" using loaded_run_inv [OF loaded, of t0 calls] by (simp add: run)
  note good = inv_track [OF inv on(1)]
  then have cue: "seq_cue sq' tr s a b w = MusicCue (sq_dev sq') (int (kind_of s) + int (st_part tr)) (int a) (int b) (Some (Fin w)) (Some name)" for s a b
    by (simp add: seq_cue_def channel_nibble track_midi_def)
  have "MusicCue (sq_dev sq') (128 + int (st_part tr)) key 0 (Some (Fin w)) (Some name)
      \<in> set (map (\<lambda>key. seq_cue sq' tr 128 key 0 w) (sorted_list_of_set (st_struck tr)))"
    if c: "c \<in> set cues" "note_on c = Some (name, key)" for c key
  proof -
    obtain tr' where "dget (sq_tracks sq') name = Some tr'" "key \<in> int ` st_struck tr'"
      using note_on_struck [OF inv c] by blast
    then obtain k where "k \<in> st_struck tr" "key = int k" using on(1) by auto
    then show ?thesis using finite_struck good by (auto simp: cue kind_of_def image_iff)
  qed
  then show ?thesis using on good by (auto simp: disable_def release_cues_def cue kind_of_def)
qed

subsection \<open>A sequencer with one drum hit\<close>

definition demo_tracks :: "(string \<times> byte list \<times> nat \<times> bool \<times> rat) list" where
  "demo_tracks = [(''hit'', one_note_file, 9, False, 0)]"

definition demo_track :: seq_track where
  "demo_track =
     \<lparr>st_name = ''hit'', st_part = 9, st_loop = False,
      st_events = [\<lparr>me_beat = 0, me_status = 144, me_data1 = 60, me_data2 = 100\<rparr>,
                   \<lparr>me_beat = 1 / 2, me_status = 128, me_data1 = 60, me_data2 = 0\<rparr>],
      st_length = 1 / 2,
      st_notes = [\<lparr>sn_on = 0, sn_off = 1 / 2, sn_status = 144, sn_key = 60, sn_velocity = 100\<rparr>],
      st_initial_cc7 = 100, st_on = False, st_origin = 0, st_cursor = 0, st_cc7 = 100, st_struck = {}\<rparr>"

definition demo_sequencer :: sequencer where
  "demo_sequencer = (new_sequencer 120 ROOM (1 / 4))\<lparr>sq_tracks := [(''hit'', demo_track)]\<rparr>"

lemma one_note_parsed: "parse_midi one_note_file = Some
    \<lparr>mf_ticks_per_beat = 96, mf_tempo_bpm = None,
     mf_events = [\<lparr>me_beat = 0, me_status = 144, me_data1 = 60, me_data2 = 100\<rparr>,
                  \<lparr>me_beat = 1 / 2, me_status = 128, me_data1 = 60, me_data2 = 0\<rparr>],
     mf_end_beat = 1 / 2, mf_name = None\<rparr>"
proof -
  have body: "parse_tracks 1 (drop 14 one_note_file) \<lparr>pt_events = [], pt_end = 0, pt_tempo = None, pt_name = None\<rparr>
      = Some \<lparr>pt_events = [(0, 144, 60, 100), (48, 128, 60, 0)], pt_end = 48, pt_tempo = None, pt_name = None\<rparr>"
    by code_simp
  have head: "\<not> length one_note_file < 14" "take 4 one_note_file = chunk_id ''MThd''"
    "big_endian (take 4 (drop 4 one_note_file)) = 6" "big_endian (take 2 (drop 10 one_note_file)) = 1"
    "big_endian (take 2 (drop 12 one_note_file)) = 96"
    by code_simp+
  show ?thesis using body by (simp add: parse_midi_def head Let_def del: big_endian.simps)
qed

lemma demo_loads: "load_tracks demo_tracks (new_sequencer 120 ROOM (1 / 4)) = Some demo_sequencer"
  by (simp add: demo_tracks_def one_note_parsed add_track_def shift_events_def first_cc7_def is_cc7_def kind_of_def
      DEFAULT_CC7_def demo_sequencer_def demo_track_def new_sequencer_def Let_def)

lemma demo_parts: "list_all (\<lambda>(_, _, part, _). part < 16) demo_tracks"
  by (simp add: demo_tracks_def)

definition demo_playing :: sequencer where
  "demo_playing = (start 0 demo_sequencer)\<lparr>sq_tracks :=
     [(''hit'', demo_track\<lparr>st_on := True, st_cursor := 1 / 2, st_struck := {60}\<rparr>)]\<rparr>"

lemma demo_plays:
  "seq_run (start 0 demo_sequencer) [Play_Once ''hit'' 0, Tick 0]
   = (demo_playing, [MusicCue ROOM 185 7 100 (Some (Fin 0)) (Some ''hit''), MusicCue ROOM 153 60 100 (Some (Fin 0)) (Some ''hit'')])"
  by (simp add: seq_run_def seq_step_def play_once_def start_def rewind_def demo_sequencer_def demo_track_def new_sequencer_def
      beat_at_def time_at_def grid_beat_def grid_time_def snap_def py_round_def cc7_cue_def seq_cue_def kind_of_def Let_def
      advance_def track_advance_def seq_window_def grid_slice_def bisect_left_def event_cue_def is_cc7_def after_event_def spent_def
      demo_playing_def)

lemma tick_rate_is_inaudible_witness:
  "\<exists>sq1 out1 sq2 out2 sq'. advance 0 demo_playing = Some (sq1, out1) \<and> advance 1 sq1 = Some (sq2, out2)
     \<and> advance 1 demo_playing = Some (sq', out1 @ out2)"
  by (rule tick_rate_is_inaudible)
    (simp_all add: seq_ready_def demo_playing_def start_def demo_sequencer_def demo_track_def new_sequencer_def track_wf_def)

lemma only_midi_bytes_are_sent_witness:
  "midi_cue (MusicCue ROOM 153 60 100 (Some (Fin 0)) (Some ''hit''))"
  by (rule only_midi_bytes_are_sent [OF demo_loads demo_parts, of _ 0 "[Play_Once ''hit'' 0, Tick 0]"]) (simp add: demo_plays)

lemma switching_off_leaves_no_note_witness:
  "\<exists>sq'' out. disable ''hit'' 2 demo_playing = Some (sq'', MusicPurge ROOM ''hit'' # out)
     \<and> MusicCue ROOM 137 60 0 (Some (Fin 2)) (Some ''hit'') \<in> set out"
  using switching_off_leaves_no_note [OF demo_loads demo_parts demo_plays, of "''hit''" _ 2]
  by (auto simp: demo_playing_def start_def demo_sequencer_def demo_track_def new_sequencer_def)

end
