(* ===== verification/Terrarium.thy ===== *)
theory Terrarium
  imports Engine_Facts Teardown
begin

section \<open>The Terrarium: loading and unloading a Room\<close>

text \<open>
  \<open>src/control/terrarium.py\<close>, with \<open>start\<close> and \<open>shutdown\<close> of \<open>src/control/arco_process.py\<close> and
  \<open>src/control/simulator_process.py\<close> as far as they spawn and stop, and the simulator factory of
  \<open>src/harness/terrarium_boot.py\<close>. The Terrarium shares the engine's Room
  object and binding registry, so both live in the engine here. The world is the list of live processes by
  role. What the world answers during one load is a record: configuration, probes, spawns, the clock, and
  the calls the transport makes during each tick of the hold. Every notification is in the log.
\<close>

datatype terr_state = NO_ROOM | ROOM_LOADING | ROOM_READY | ROOM_UNLOADING

datatype load_stage = Validating | Sweeping | Spawning_Arco | Binding_Fixtures | Room_Is_Ready

datatype terr_notice = Terr_Change terr_state terr_state | Load_Progress load_stage

datatype load_failure =
    Not_No_Room terr_state
  | Unknown_Room
  | Invalid_Room string
  | Claimed string
  | Arco_Failed
  | Binding_Timeout
  | Load_Raised

record room_spec =
  rs_name :: string
  rs_profile :: room_profile
  rs_node_id :: node

text \<open>A spawn may fail before or after the process exists: the callback that records its pid may raise.\<close>

datatype spawned = Spawn_Ok | Spawn_Failed | Spawn_Unrecorded

text \<open>One tick of the hold: the calls it delivered, the clock after it, and whether it raised.\<close>

type_synonym hold_tick = "call list \<times> rat \<times> bool"

text \<open>
  \<open>RoomBindingRegistry.save\<close>: the file is written, it cannot be opened (and stays as it was), or the write
  fails after the file was emptied; the last two raise \<open>OSError\<close>.
\<close>

datatype save_fate = Save_Done | Save_Refused | Save_Cut

record load_env =
  le_rooms :: "(string, room_spec) dict"
  le_invalid :: "string \<Rightarrow> string option"
  le_sweep_raises :: "bool option"
  le_claimant :: "string outcome option"
  le_arco_start :: spawned
  le_arco_ready :: bool
  le_covered :: "string \<Rightarrow> string list"
  le_simulator :: "(string \<Rightarrow> spawned) option"
  le_connected :: "dev \<Rightarrow> bool"
  le_bindings_file :: "(string, saved_room) dict option option"
  le_bindings_broken :: bool
  le_save :: save_fate
  le_setup_timeout :: rat
  le_now :: rat
  le_ticks :: "hold_tick list"
  le_version :: string
  le_stops :: "string \<Rightarrow> bool"
  le_stop_raises :: "string \<Rightarrow> bool"

record 'b terrarium =
  t_state :: terr_state
  t_engine :: "'b engine"
  t_room :: "string option"
  t_stack :: "string list teardown option"
  t_arco :: bool
  t_loading :: "string option"
  t_procs :: "string list"
  t_saved :: "(string, saved_room) dict option"
  t_log :: "terr_notice list"

definition new_terrarium :: "'b engine \<Rightarrow> 'b terrarium" where
  "new_terrarium e =
     \<lparr>t_state = NO_ROOM, t_engine = e, t_room = None, t_stack = None, t_arco = False, t_loading = None,
      t_procs = [], t_saved = None, t_log = []\<rparr>"

definition set_terr_state :: "terr_state \<Rightarrow> 'b terrarium \<Rightarrow> 'b terrarium" where
  "set_terr_state st t = t\<lparr>t_state := st, t_log := t_log t @ [Terr_Change (t_state t) st]\<rparr>"

definition progress :: "load_stage \<Rightarrow> 'b terrarium \<Rightarrow> 'b terrarium" where
  "progress stage t = t\<lparr>t_log := t_log t @ [Load_Progress stage]\<rparr>"

text \<open>\<open>shutdown\<close> as a teardown step: the process is gone, unless it survives even the second signal.\<close>

definition shutdown_step :: "load_env \<Rightarrow> string \<Rightarrow> string \<Rightarrow> string list teardown_step" where
  "shutdown_step le name role =
     (name, \<lambda>procs. (if le_stops le role then filter (\<lambda>p. p \<noteq> role) procs else procs, le_stop_raises le role))"

definition push_stack :: "string list teardown_step \<Rightarrow> 'b terrarium \<Rightarrow> 'b terrarium" where
  "push_stack step t =
     (case Option.bind (t_stack t) (td_push (fst step) (snd step)) of
        None \<Rightarrow> t
      | Some st \<Rightarrow> t\<lparr>t_stack := Some st\<rparr>)"

definition close_stack :: "'b terrarium \<Rightarrow> 'b terrarium" where
  "close_stack t =
     (case t_stack t of
        None \<Rightarrow> t
      | Some st \<Rightarrow> (case td_close st (t_procs t) of (st', procs, _) \<Rightarrow> t\<lparr>t_stack := Some st', t_procs := procs\<rparr>))"

subsection \<open>Binding the fixtures\<close>

definition sim_role :: "string \<Rightarrow> string" where
  "sim_role fixture = ''simulator:'' @ fixture"

definition sim_dev :: "string \<Rightarrow> dev" where
  "sim_dev fixture = ''sim-room-'' @ fixture"

text \<open>
  A spawn with its teardown step: the step is registered once \<open>start\<close> has returned. \<open>False\<close> is a raise.
\<close>

definition spawn :: "load_env \<Rightarrow> spawned \<Rightarrow> string \<Rightarrow> string \<Rightarrow> 'b terrarium \<Rightarrow> 'b terrarium \<times> bool" where
  "spawn le outcome name role t =
     (case outcome of
        Spawn_Failed \<Rightarrow> (t, False)
      | Spawn_Unrecorded \<Rightarrow> (t\<lparr>t_procs := t_procs t @ [role]\<rparr>, False)
      | Spawn_Ok \<Rightarrow> (push_stack (shutdown_step le name role) (t\<lparr>t_procs := t_procs t @ [role]\<rparr>), True))"

definition bind_in_room :: "string \<Rightarrow> dev \<Rightarrow> 'b engine \<Rightarrow> 'b engine" where
  "bind_in_room fixture d e =
     e\<lparr>e_room := map_option (\<lambda>r. r\<lparr>rm_bound := dset fixture d (rm_bound r)\<rparr>) (e_room e)\<rparr>"

definition with_binding :: "(binding_registry \<Rightarrow> binding_registry) \<Rightarrow> 'b engine \<Rightarrow> 'b engine" where
  "with_binding f e = e\<lparr>e_binding := map_option f (e_binding e)\<rparr>"

definition recorded_device :: "string \<Rightarrow> string \<Rightarrow> 'b engine \<Rightarrow> dev option" where
  "recorded_device rname fixture e = Option.bind (e_binding e) (bound_device rname fixture)"

text \<open>\<open>_bind_room_fast_path\<close>; the flag is false when the simulator factory raised.\<close>

fun fast_path :: "load_env \<Rightarrow> string \<Rightarrow> string list \<Rightarrow> string list \<Rightarrow> 'b terrarium \<Rightarrow> 'b terrarium \<times> bool" where
  "fast_path le rname skip [] t = (t, True)"
| "fast_path le rname skip (f # fs) t =
     (if f \<in> set skip then fast_path le rname skip fs t
      else case le_simulator le of
             Some factory \<Rightarrow>
               (case spawn le (factory f) (''simulator-'' @ f) (sim_role f) t of
                  (t1, False) \<Rightarrow> (t1, False)
                | (t1, True) \<Rightarrow>
                    fast_path le rname skip fs
                      (t1\<lparr>t_engine := with_binding (bind_fixture rname f (sim_dev f)) (bind_in_room f (sim_dev f) (t_engine t1))\<rparr>))
           | None \<Rightarrow>
               (case recorded_device rname f (t_engine t) of
                  None \<Rightarrow> fast_path le rname skip fs t
                | Some d \<Rightarrow>
                    if le_connected le d
                    then fast_path le rname skip fs (t\<lparr>t_engine := bind_in_room f d (t_engine t)\<rparr>)
                    else fast_path le rname skip fs t))"

definition room_binds :: "'b engine \<Rightarrow> string \<Rightarrow> bool" where
  "room_binds e f \<longleftrightarrow> (case e_room e of None \<Rightarrow> False | Some r \<Rightarrow> dmem f (rm_bound r))"

text \<open>
  The inner \<open>while\<close> of \<open>wait_for_room_binding\<close>. The ticks of the hold are a list: with none left, the
  deadline has passed. The result: engine, clock, ticks left, and whether no tick raised.
\<close>

fun hold_for :: "'b env \<Rightarrow> string \<Rightarrow> rat \<Rightarrow> rat \<Rightarrow> hold_tick list \<Rightarrow> 'b engine \<Rightarrow>
    'b engine \<times> rat \<times> hold_tick list \<times> bool" where
  "hold_for env f deadline now [] e = (e, if room_binds e f then now else max now deadline, [], True)"
| "hold_for env f deadline now ((calls, now', raised) # ticks) e =
     (if deadline \<le> now \<or> room_binds e f then (e, now, (calls, now', raised) # ticks, True)
      else (let e' = foldl (engine_step env) e calls
            in if raised then (e', now', ticks, False) else hold_for env f deadline now' ticks e'))"

fun hold_all :: "'b env \<Rightarrow> string \<Rightarrow> string list \<Rightarrow> rat \<Rightarrow> rat \<Rightarrow> hold_tick list \<Rightarrow> 'b engine \<Rightarrow> 'b engine \<times> bool" where
  "hold_all env rname [] deadline now ticks e = (e, True)"
| "hold_all env rname (f # fs) deadline now ticks e =
     (if room_binds e f then hold_all env rname fs deadline now ticks e
      else if deadline - now \<le> 0 then (e, True)
      else (case hold_for env f deadline now ticks (with_binding (arm rname f (deadline - now) now) e) of
              (e1, now1, ticks1, False) \<Rightarrow> (e1, False)
            | (e1, now1, ticks1, True) \<Rightarrow> hold_all env rname fs deadline now1 ticks1 (with_binding (disarm rname) e1)))"

datatype hold_result = Held | Hold_Timeout | Hold_Raised

definition wait_for_room_binding :: "'b env \<Rightarrow> load_env \<Rightarrow> room_spec \<Rightarrow> string list \<Rightarrow> 'b engine \<Rightarrow> 'b engine \<times> hold_result" where
  "wait_for_room_binding env le spec skip e =
     (let needed = filter (\<lambda>f. f \<notin> set skip) (map x_name (p_fixtures (rs_profile spec)))
      in if list_all (room_binds e) needed then (e, Held)
         else case hold_all env (rs_name spec) needed (le_now le + le_setup_timeout le) (le_now le) (le_ticks le) e of
                (e1, False) \<Rightarrow> (e1, Hold_Raised)
              | (e1, True) \<Rightarrow>
                  (e1, if (case e_room e1 of None \<Rightarrow> True | Some r \<Rightarrow> rm_bound r = []) \<and> skip = [] then Hold_Timeout else Held))"

subsection \<open>Loading\<close>

text \<open>\<open>check_load\<close>: the tests before anything is spawned. Some is the failure that ends the attempt.\<close>

definition check_load :: "load_env \<Rightarrow> string \<Rightarrow> 'b terrarium \<Rightarrow> 'b terrarium \<times> load_failure option" where
  "check_load le name t =
     (let t1 = progress Validating t
      in case dget (le_rooms le) name of
           None \<Rightarrow> (t1, Some Unknown_Room)
         | Some spec \<Rightarrow>
             (case le_invalid le name of
                Some why \<Rightarrow> (t1, Some (Invalid_Room why))
              | None \<Rightarrow>
                  (let t2 = (if le_sweep_raises le = None then t1 else progress Sweeping t1)
                   in if le_sweep_raises le = Some True then (t2, Some Load_Raised)
                      else case le_claimant le of
                             Some Raised \<Rightarrow> (t2, Some Load_Raised)
                           | Some (Ret who) \<Rightarrow> (t2, if who = [] then None else Some (Claimed who))
                           | None \<Rightarrow> (t2, None))))"

text \<open>From the bindings file, once it has been read, to the end of the hold.\<close>

definition bind_fixtures :: "'b env \<Rightarrow> load_env \<Rightarrow> room_spec \<Rightarrow> 'b terrarium \<Rightarrow> 'b terrarium \<times> load_failure option" where
  "bind_fixtures env le spec t =
     (let e0 = (t_engine t)\<lparr>e_room := Some \<lparr>rm_name = rs_name spec, rm_profile = rs_profile spec,
                                            rm_node_id = rs_node_id spec, rm_bound = []\<rparr>\<rparr>;
          t0 = progress Binding_Fixtures (t\<lparr>t_engine := e0\<rparr>);
          t1 = t0\<lparr>t_engine := (case le_bindings_file le of None \<Rightarrow> e0 | Some file \<Rightarrow> with_binding (load_bindings file) e0)\<rparr>;
          covered = le_covered le (rs_name spec);
          fixtures = map x_name (p_fixtures (rs_profile spec))
      in case fast_path le (rs_name spec) covered fixtures t1 of
           (t2, False) \<Rightarrow> (t2, Some Load_Raised)
         | (t2, True) \<Rightarrow>
             if list_ex (\<lambda>f. f \<notin> set covered \<and> \<not> room_binds (t_engine t2) f) fixtures
             then (case wait_for_room_binding env le spec covered (t_engine t2) of
                     (e3, Held) \<Rightarrow> (t2\<lparr>t_engine := e3\<rparr>, None)
                   | (e3, Hold_Timeout) \<Rightarrow> (t2\<lparr>t_engine := e3\<rparr>, Some Binding_Timeout)
                   | (e3, Hold_Raised) \<Rightarrow> (t2\<lparr>t_engine := e3\<rparr>, Some Load_Raised))
             else (t2, None))"

text \<open>A file that is no JSON object, or cannot be read, raises out of \<open>load\<close>, before any fixture is bound.\<close>

definition bind_stage :: "'b env \<Rightarrow> load_env \<Rightarrow> room_spec \<Rightarrow> 'b terrarium \<Rightarrow> 'b terrarium \<times> load_failure option" where
  "bind_stage env le spec t =
     (if le_bindings_file le \<noteq> None \<and> le_bindings_broken le
      then (progress Binding_Fixtures
              (t\<lparr>t_engine := (t_engine t)\<lparr>e_room := Some \<lparr>rm_name = rs_name spec, rm_profile = rs_profile spec,
                                                        rm_node_id = rs_node_id spec, rm_bound = []\<rparr>\<rparr>\<rparr>),
            Some Load_Raised)
      else bind_fixtures env le spec t)"

definition load_body :: "'b env \<Rightarrow> load_env \<Rightarrow> string \<Rightarrow> 'b terrarium \<Rightarrow> 'b terrarium \<times> load_failure option" where
  "load_body env le name t =
     (case check_load le name t of
        (t1, Some why) \<Rightarrow> (t1, Some why)
      | (t1, None) \<Rightarrow>
          (case dget (le_rooms le) name of
             None \<Rightarrow> (t1, Some Unknown_Room)
           | Some spec \<Rightarrow>
               (let t2 = progress Spawning_Arco (t1\<lparr>t_stack := Some new_teardown\<rparr>)
                in case spawn le (le_arco_start le) ''arco'' ''arco'' t2 of
                     (t3, False) \<Rightarrow> (t3, Some Arco_Failed)
                   | (t3, True) \<Rightarrow>
                       if \<not> le_arco_ready le then (t3, Some Arco_Failed)
                       else (case bind_stage env le spec (t3\<lparr>t_arco := True\<rparr>) of
                               (t4, Some why) \<Rightarrow> (t4, Some why)
                             | (t4, None) \<Rightarrow>
                                 (let t5 = t4\<lparr>t_room := Some (rs_name spec),
                                              t_engine := (t_engine t4)\<lparr>e_room_name := Some name,
                                                                        e_config_version := Some (le_version le)\<rparr>\<rparr>
                                  in (set_terr_state ROOM_READY (progress Room_Is_Ready t5), None))))))"

definition drop_room :: "'b terrarium \<Rightarrow> 'b terrarium" where
  "drop_room t =
     t\<lparr>t_engine := (t_engine t)\<lparr>e_room := None, e_room_name := None, e_config_version := None\<rparr>,
       t_room := None, t_arco := False, t_stack := None\<rparr>"

definition load_room :: "'b env \<Rightarrow> load_env \<Rightarrow> string \<Rightarrow> 'b terrarium \<Rightarrow> 'b terrarium \<times> load_failure option" where
  "load_room env le name t =
     (if t_state t \<noteq> NO_ROOM then (t, Some (Not_No_Room (t_state t)))
      else (case load_body env le name ((set_terr_state ROOM_LOADING t)\<lparr>t_loading := Some name\<rparr>) of
              (t1, None) \<Rightarrow> (t1\<lparr>t_loading := None\<rparr>, None)
            | (t1, Some why) \<Rightarrow> ((set_terr_state NO_ROOM (drop_room (close_stack t1)))\<lparr>t_loading := None\<rparr>, Some why)))"

subsection \<open>Unloading\<close>

datatype unload_outcome = Room_Unloaded | Room_Not_Ready terr_state | Bit_Not_Idle gs_state | Unload_Raised

text \<open>\<open>self.room_binding.save(...)\<close>, when a file is configured: the Terrarium after it, and whether it returned.\<close>

definition save_stage :: "load_env \<Rightarrow> 'b terrarium \<Rightarrow> 'b terrarium \<times> bool" where
  "save_stage le t =
     (if le_bindings_file le = None then (t, True)
      else case le_save le of
             Save_Done \<Rightarrow> (t\<lparr>t_saved := map_option save_bindings (e_binding (t_engine t))\<rparr>, True)
           | Save_Refused \<Rightarrow> (t, False)
           | Save_Cut \<Rightarrow> (t\<lparr>t_saved := None\<rparr>, False))"

text \<open>The rest of \<open>unload_room\<close>. A save that raises leaves at once, with the state at \<open>ROOM_UNLOADING\<close>.\<close>

definition unload_body :: "load_env \<Rightarrow> 'b terrarium \<Rightarrow> 'b terrarium \<times> unload_outcome" where
  "unload_body le t =
     (case save_stage le (set_terr_state ROOM_UNLOADING t) of
        (t2, False) \<Rightarrow> (t2, Unload_Raised)
      | (t2, True) \<Rightarrow>
          (let t3 = close_stack t2;
               t4 = t3\<lparr>t_engine := clear_devices (t_engine t3)\<rparr>
           in (set_terr_state NO_ROOM (drop_room t4), Room_Unloaded)))"

definition unload_room :: "'b env \<Rightarrow> load_env \<Rightarrow> bool \<Rightarrow> 'b terrarium \<Rightarrow> 'b terrarium \<times> unload_outcome" where
  "unload_room env le force t =
     (if t_state t \<noteq> ROOM_READY then (t, Room_Not_Ready (t_state t))
      else if e_state (t_engine t) = IDLE then unload_body le t
      else if \<not> force then (t, Bit_Not_Idle (e_state (t_engine t)))
      else (case abort env (t_engine t) of
              (e, Err _) \<Rightarrow> (t\<lparr>t_engine := e\<rparr>, Unload_Raised)
            | (e, Ok _) \<Rightarrow> unload_body le (t\<lparr>t_engine := e\<rparr>)))"

datatype recycle_outcome = Recycled | Cannot_Recycle terr_state | Unload_Refused unload_outcome | Reload_Failed load_failure

definition recycle_room :: "'b env \<Rightarrow> load_env \<Rightarrow> 'b terrarium \<Rightarrow> 'b terrarium \<times> recycle_outcome" where
  "recycle_room env le t =
     (if t_state t \<noteq> ROOM_READY then (t, Cannot_Recycle (t_state t))
      else case t_room t of
             None \<Rightarrow> (t, Unload_Refused Unload_Raised)
           | Some name \<Rightarrow>
               (case unload_room env le True t of
                  (t1, Room_Unloaded) \<Rightarrow>
                    (case load_room env le name t1 of
                       (t2, None) \<Rightarrow> (t2, Recycled)
                     | (t2, Some why) \<Rightarrow> (t2, Reload_Failed why))
                | (t1, why) \<Rightarrow> (t1, Unload_Refused why)))"

text \<open>\<open>unload_room_refusal\<close>: refused while Control's own Arco clients are up.\<close>

definition unload_room_refusal :: "bool option \<Rightarrow> bool" where
  "unload_room_refusal clients_live \<longleftrightarrow> clients_live = Some True"

end
