(* ===== verification/Terrarium_Facts.thy ===== *)
theory Terrarium_Facts
  imports Terrarium
begin

section \<open>What holds of the Terrarium\<close>

text \<open>
  The engine never changes which Room it stands in; the Terrarium does. Its state follows the Room diagram, a
  Room and everything that belongs to it come and go together, unless the save of the bindings fails on the way
  out, which locks the Room in; and no process outlives its Room as long as every spawn is recorded and every
  process stops when asked.
\<close>

subsection \<open>The engine keeps its venue\<close>

definition venue :: "'b engine \<Rightarrow> (string \<times> room_profile \<times> node) option \<times> string option \<times> string option" where
  "venue e = (map_option (\<lambda>r. (rm_name r, rm_profile r, rm_node_id r)) (e_room e), e_room_name e, e_config_version e)"

lemma venue_book: "book e' = book e \<Longrightarrow> venue e' = venue e"
  by (simp add: venue_def book_def)

lemma venue_update [simp]:
  "venue (e\<lparr>e_devices := p\<rparr>) = venue e" "venue (e\<lparr>e_binding := br\<rparr>) = venue e"
  "venue (e\<lparr>e_warned_instruments := w\<rparr>) = venue e" "venue (e\<lparr>e_ema := y\<rparr>) = venue e"
  "venue (e\<lparr>e_run_elapsed := t\<rparr>) = venue e" "venue (e\<lparr>e_rejected_stamps := n\<rparr>) = venue e"
  "venue (e\<lparr>e_muted := m\<rparr>) = venue e" "venue (e\<lparr>e_registration := r\<rparr>) = venue e"
  "venue (e\<lparr>e_bit := b, e_registration := r\<rparr>) = venue e" "venue (e\<lparr>e_state := st\<rparr>) = venue e"
  "venue (e\<lparr>e_trace := tr\<rparr>) = venue e" "venue (e\<lparr>e_bit := b\<rparr>) = venue e" "venue (forget_bit e) = venue e"
  by (simp_all add: venue_def forget_bit_def)

lemma venue_notify [simp]: "venue (notify n e) = venue e"
  by (simp add: notify_def)

lemma venue_set_state [simp]: "venue (set_state st e) = venue e"
  by (simp add: set_state_def)

lemma venue_guarded [simp]: "venue (send_guarded env eff e) = venue e"
  by (simp add: send_guarded_def send_def split: sink_result.split)

lemma venue_on_bit [simp]: "venue (fst (on_bit hook e)) = venue e"
  by (rule venue_book) (rule book_on_bit)

lemma venue_on_bit_eq: "on_bit hook e = (e', r) \<Longrightarrow> venue e' = venue e"
  using venue_on_bit [of hook e] by simp

lemma venue_dispatch_cues [simp]: "venue (dispatch_cues env t by now cs e) = venue e"
  by (rule venue_book) (rule book_dispatch_cues)

lemma venue_fire_eq: "fire_function env name by d at_time now e = (e', r) \<Longrightarrow> venue e' = venue e"
  using venue_book [OF book_fire_function] by (metis fst_conv)

lemma venue_grant: "venue (fst (grant env d r e)) = venue e"
  by (auto simp: grant_def Let_def split: option.split)

lemma venue_grant_all: "venue (fst (grant_all env ds e)) = venue e"
proof (induction ds arbitrary: e)
  case (Cons x ds)
  obtain d r where x: "x = (d, r)" by fastforce
  obtain e1 res1 where g: "grant env d r e = (e1, res1)" by fastforce
  then have "venue e1 = venue e" using venue_grant [of env d r e] by simp
  with Cons.IH [of e1] show ?case by (cases res1) (simp_all add: x g)
qed simp

lemma venue_declare: "declare_instrument env d declared e = (e', c) \<Longrightarrow> venue e' = venue e"
  by (auto simp: declare_instrument_def Let_def split: option.splits if_splits)

lemma venue_walk_up: "venue (fst (walk_up env d e)) = venue e"
proof -
  have g: "venue e2 = venue e1" if "grant env d r e1 = (e2, res)" for r e1 e2 res
    using venue_grant [of env d r e1] that by simp
  show ?thesis by (auto simp: walk_up_def Let_def dest!: g split: option.split prod.split res.split)
qed

lemma venue_hello: "venue (fst (hello env d name proto declared now e)) = venue e"
proof -
  obtain e1 carried where dec: "declare_instrument env d declared e = (e1, carried)" by fastforce
  have "venue (hello_pool d name proto now carried e1) = venue e1"
    by (simp add: hello_pool_def Let_def split: prod.split)
  with venue_declare [OF dec] show ?thesis by (simp add: hello_def dec Let_def venue_walk_up)
qed

lemma venue_reap: "venue (fst (reap_stale env timeout now e)) = venue e"
proof -
  have one: "venue (fst (reap_one env d e)) = venue e" for d e
    by (simp add: reap_one_def Let_def clear_ema_def)
  have "venue (fst (reap_loop env ds freed e)) = venue e" for ds freed e
  proof (induction ds arbitrary: freed e)
    case (Cons d ds)
    obtain e' f where r: "reap_one env d e = (e', f)" by fastforce
    with one [of d e] Cons show ?case by simp
  qed simp
  then show ?thesis by (simp add: reap_stale_def Let_def case_prod_beta)
qed

lemma venue_bind_room: "bind_room env d now e = (e', ok) \<Longrightarrow> venue e' = venue e"
proof -
  have m: "venue e2 = venue e1" if "migrate_mute_on_bind env d fixture e1 = Some e2" for fixture e1 e2
    using that by (auto simp: migrate_mute_on_bind_def split: if_splits option.splits)
  have b: "venue (e\<lparr>e_binding := br, e_room := Some (r\<lparr>rm_bound := x\<rparr>)\<rparr>) = venue e" if "e_room e = Some r" for r br x
    using that by (simp add: venue_def)
  show "bind_room env d now e = (e', ok) \<Longrightarrow> venue e' = venue e"
    by (auto simp: bind_room_def Let_def b dest!: m split: option.splits)
qed

lemma venue_handshake: "venue (fst (handshake env d round_id n now1 now2 e)) = venue e"
proof -
  have "venue (fst (handshake_room env d n now1 now2 reg e)) = venue e" for reg
    by (auto simp: handshake_room_def Let_def dest!: venue_bind_room split: option.split prod.split bool.split)
  moreover have "venue (fst (handshake_player env d target reg e)) = venue e" for target reg
    by (auto simp: handshake_player_def Let_def split: option.split prod.split)
  ultimately show ?thesis by (auto simp: handshake_def split: option.split outcome.split)
qed

lemma venue_solo: "venue (fst (solo_gesture env d verb args t now e)) = venue e"
  by (auto simp: solo_gesture_def Let_def dest: venue_fire_eq split: outcome.split option.split prod.split)

lemma venue_route: "venue (fst (route_gesture env d verb args role_name t now e)) = venue e"
  by (auto simp: route_gesture_def venue_solo apply_stream_triggers_def dest!: venue_on_bit_eq
      split: outcome.split option.split reply.split prod.split)

lemma venue_data: "venue (fst (data env d verb args gtime received now e)) = venue e"
proof -
  have r: "venue e2 = venue e'" if "route_gesture env d verb args rn t now e' = (e2, res)" for rn t e' e2 res
    using venue_route [of env d verb args rn t now e'] that by simp
  show ?thesis
    by (auto simp: data_def Let_def dest!: r split: option.split prod.split res.split)
qed

lemma venue_action: "venue (fst (run_action env name now e)) = venue e"
  by (auto simp: run_action_def Let_def dest!: venue_on_bit_eq split: outcome.split reply.split prod.split)

lemma venue_unload: "venue (fst (unload env e)) = venue e"
proof -
  have c: "venue e2 = venue e1" if "clear_mutes env ds e1 = (e2, ok)" for ds e1 e2 ok
    using venue_book [OF book_clear_mutes [of env ds e1]] that by simp
  have r: "venue (release_sinks env ds e1) = venue e1" for ds e1 by (induction ds arbitrary: e1) simp_all
  show ?thesis
    by (auto simp: unload_def Let_def r dest!: c split: prod.split bool.split option.split)
qed

lemma venue_abort: "venue (fst (abort env e)) = venue e"
  by (simp add: abort_def venue_unload run_on_complete_def)

lemma venue_tick: "venue (fst (tick env dt now1 now2 e)) = venue e"
proof -
  have g: "venue e3 = venue e2" if "dispatch_generator_cues env now1 e2 = (e3, r)" for e2 e3 r
    using that by (auto simp: dispatch_generator_cues_def Let_def split: option.splits)
  have f: "venue (dispatch_bit_fires env now2 e3) = venue e3" for e3
    by (auto simp: dispatch_bit_fires_def Let_def dest!: venue_on_bit_eq split: outcome.split prod.split)
  have c: "venue (fst (complete env e2)) = venue e2" for e2
    by (simp add: complete_def venue_unload run_on_complete_def)
  show ?thesis
    by (auto simp: tick_def Let_def f c dest!: venue_on_bit_eq g split: prod.split outcome.split bool.split res.split)
qed

lemma venue_load: "venue (fst (load_bit env name token e)) = venue e"
proof -
  have upd: "venue (x\<lparr>e_bit := b, e_bit_name := bn, e_registration := r, e_round_counter := c, e_round_id := i,
      e_slots := s, e_generators := g, e_streams := ss, e_load_warnings := w\<rparr>) = venue x" for x :: "'b engine" and b bn r c i s g ss w
    by (simp add: venue_def)
  show ?thesis
    by (auto simp: load_bit_def Let_def upd dest!: venue_on_bit_eq split: option.split prod.split outcome.split)
qed

lemma venue_run: "venue (fst (run env e)) = venue e"
proof -
  have g: "venue e2 = venue e1" if "grant_all env out e1 = (e2, r)" for out e1 e2 r
    using venue_grant_all [of env out e1] that by simp
  show ?thesis
    by (auto simp: run_def Let_def dest!: g venue_on_bit_eq split: option.split prod.split outcome.split res.split)
qed

lemma venue_start: "venue (fst (request_start env key source_dev source e)) = venue e"
proof -
  have r: "venue e2 = venue e1" if "run env e1 = (e2, r)" for e1 e2 r
    using venue_run [of env e1] that by simp
  show ?thesis
    by (auto simp: request_start_def Let_def dest!: r venue_on_bit_eq
        split: option.split prod.split outcome.split res.split fault.split)
qed

lemma venue_step [simp]: "venue (engine_step env e c) = venue e"
  by (cases c) (simp_all add: venue_hello venue_reap venue_load venue_start venue_handshake venue_data
      venue_action venue_tick venue_abort venue_book [OF book_fire_function])

lemma venue_steps [simp]: "venue (foldl (engine_step env) e cs) = venue e"
  by (induction cs arbitrary: e) simp_all

subsection \<open>The Room diagram\<close>

inductive room_lifecycle :: "terr_state \<Rightarrow> terr_state \<Rightarrow> bool" where
  begin_load: "room_lifecycle NO_ROOM ROOM_LOADING"
| load_failed: "room_lifecycle ROOM_LOADING NO_ROOM"
| load_done: "room_lifecycle ROOM_LOADING ROOM_READY"
| begin_unload: "room_lifecycle ROOM_READY ROOM_UNLOADING"
| unload_done: "room_lifecycle ROOM_UNLOADING NO_ROOM"

code_pred room_lifecycle .

fun moves_along :: "('s \<Rightarrow> 's \<Rightarrow> bool) \<Rightarrow> 's \<Rightarrow> ('s \<times> 's) list \<Rightarrow> 's \<Rightarrow> bool" where
  "moves_along edge s [] t \<longleftrightarrow> s = t"
| "moves_along edge s ((a, b) # rest) t \<longleftrightarrow> a = s \<and> edge a b \<and> moves_along edge b rest t"

lemma moves_along_snoc: "moves_along edge s l t \<Longrightarrow> edge t u \<Longrightarrow> moves_along edge s (l @ [(t, u)]) u"
  by (induction edge s l t rule: moves_along.induct) auto

fun terr_change :: "terr_notice \<Rightarrow> (terr_state \<times> terr_state) option" where
  "terr_change (Terr_Change a b) = Some (a, b)"
| "terr_change (Load_Progress _) = None"

definition terr_changes :: "'b terrarium \<Rightarrow> (terr_state \<times> terr_state) list" where
  "terr_changes t = List.map_filter terr_change (t_log t)"

definition open_stack :: "'b terrarium \<Rightarrow> bool" where
  "open_stack t \<longleftrightarrow> (case t_stack t of None \<Rightarrow> False | Some st \<Rightarrow> \<not> td_closed st)"

definition on_track :: "'b terrarium \<Rightarrow> bool" where
  "on_track t \<longleftrightarrow> moves_along room_lifecycle NO_ROOM (terr_changes t) (t_state t)"

text \<open>
  Between calls: in \<open>NO_ROOM\<close> nothing of a Room is left, in \<open>ROOM_READY\<close> all of it is there, and so it is
  in \<open>ROOM_UNLOADING\<close>, where an unload whose save raised has left the Terrarium.
\<close>

definition terr_ok :: "'b terrarium \<Rightarrow> bool" where
  "terr_ok t \<longleftrightarrow> on_track t \<and> t_loading t = None
     \<and> (t_state t = NO_ROOM \<and> t_room t = None \<and> t_stack t = None \<and> \<not> t_arco t \<and> venue (t_engine t) = (None, None, None)
        \<or> t_state t \<in> {ROOM_READY, ROOM_UNLOADING} \<and> t_arco t \<and> open_stack t
          \<and> (\<exists>(spec :: room_spec) name version. t_room t = Some (rs_name spec)
               \<and> venue (t_engine t) = (Some (rs_name spec, rs_profile spec, rs_node_id spec), Some name, Some version)))"

text \<open>What \<open>check_load\<close>, \<open>spawn\<close>, \<open>fast_path\<close> and the hold leave alone.\<close>

definition frame :: "'b terrarium \<Rightarrow> _" where
  "frame t = (t_state t, t_room t, t_arco t, t_loading t, t_saved t, terr_changes t)"

lemma frame_simps [simp]:
  "frame (progress stage t) = frame t" "frame (push_stack st t) = frame t" "frame (t\<lparr>t_procs := ps\<rparr>) = frame t"
  "frame (t\<lparr>t_engine := e\<rparr>) = frame t" "frame (t\<lparr>t_stack := s\<rparr>) = frame t" "frame (close_stack t) = frame t"
  by (simp_all add: frame_def progress_def push_stack_def close_stack_def terr_changes_def map_filter_snoc
      split: option.split prod.split)

lemma engine_simps [simp]:
  "t_engine (progress stage t) = t_engine t" "t_engine (push_stack st t) = t_engine t" "t_engine (close_stack t) = t_engine t"
  "t_engine (set_terr_state s t) = t_engine t" "t_stack (progress stage t) = t_stack t" "t_procs (progress stage t) = t_procs t"
  "t_procs (push_stack st t) = t_procs t"
  by (simp_all add: progress_def push_stack_def close_stack_def set_terr_state_def split: option.split prod.split)

lemma open_stack_simps [simp]:
  "open_stack (progress stage t) = open_stack t" "open_stack (t\<lparr>t_procs := ps\<rparr>) = open_stack t"
  "open_stack (t\<lparr>t_engine := e\<rparr>) = open_stack t" "open_stack (t\<lparr>t_arco := b\<rparr>) = open_stack t"
  "open_stack (t\<lparr>t_room := r\<rparr>) = open_stack t" "open_stack (set_terr_state s t) = open_stack t"
  "open_stack (t\<lparr>t_loading := l\<rparr>) = open_stack t"
  by (simp_all add: open_stack_def progress_def set_terr_state_def)

lemma open_stack_push [simp]: "open_stack (push_stack step t) = open_stack t"
  by (auto simp: open_stack_def push_stack_def td_push_def split: option.splits)

lemma check_load_frame: "check_load le name t = (t1, r) \<Longrightarrow> frame t1 = frame t \<and> t_engine t1 = t_engine t \<and> t_stack t1 = t_stack t \<and> t_procs t1 = t_procs t"
  by (auto simp: check_load_def Let_def split: option.splits if_splits outcome.splits)

lemma spawn_frame: "spawn le outcome n role t = (t1, ok) \<Longrightarrow> frame t1 = frame t \<and> t_engine t1 = t_engine t \<and> open_stack t1 = open_stack t"
  by (auto simp: spawn_def split: spawned.splits)

lemma venue_bind [simp]:
  "venue (bind_in_room f d e) = venue e" "venue (with_binding g e) = venue e"
  by (simp_all add: venue_def bind_in_room_def with_binding_def option.map_comp comp_def)

lemma fast_path_frame:
  "fast_path le rname skip fs t = (t1, ok) \<Longrightarrow>
   frame t1 = frame t \<and> venue (t_engine t1) = venue (t_engine t) \<and> open_stack t1 = open_stack t"
proof (induction le rname skip fs t rule: fast_path.induct)
  case (2 le rname skip f fs t)
  then show ?case
    by (auto split: if_splits option.splits prod.splits bool.splits dest!: spawn_frame)
qed simp

lemma venue_hold_for: "hold_for env f deadline now ticks e = (e', now', ticks', ok) \<Longrightarrow> venue e' = venue e"
proof (induction env f deadline now ticks e rule: hold_for.induct)
  case (2 env f deadline now calls now1 raised ticks e)
  then show ?case by (auto simp: Let_def split: if_splits)
qed auto

lemma venue_hold_all: "venue (fst (hold_all env rname fs deadline now ticks e)) = venue e"
proof (induction env rname fs deadline now ticks e rule: hold_all.induct)
  case (2 env rname f fs deadline now ticks e)
  obtain e1 now1 ticks1 ok where h: "hold_for env f deadline now ticks (with_binding (arm rname f (deadline - now) now) e) = (e1, now1, ticks1, ok)"
    by (rule prod_cases4)
  from venue_hold_for [OF this] have "venue e1 = venue e" by simp
  with 2 h show ?case by (cases ok) auto
qed simp

lemma venue_wait: "wait_for_room_binding env le spec skip e = (e1, r) \<Longrightarrow> venue e1 = venue e"
  by (auto simp: wait_for_room_binding_def Let_def split: if_splits prod.splits bool.splits)
    (metis fst_conv venue_hold_all)+

lemma bind_fixtures_frame:
  "bind_fixtures env le spec t = (t1, r) \<Longrightarrow>
   frame t1 = frame t \<and> open_stack t1 = open_stack t
   \<and> fst (venue (t_engine t1)) = Some (rs_name spec, rs_profile spec, rs_node_id spec)"
proof -
  assume b: "bind_fixtures env le spec t = (t1, r)"
  let ?e0 = "(t_engine t)\<lparr>e_room := Some \<lparr>rm_name = rs_name spec, rm_profile = rs_profile spec, rm_node_id = rs_node_id spec, rm_bound = []\<rparr>\<rparr>"
  let ?t1 = "(progress Binding_Fixtures (t\<lparr>t_engine := ?e0\<rparr>))\<lparr>t_engine := (case le_bindings_file le of None \<Rightarrow> ?e0 | Some file \<Rightarrow> with_binding (load_bindings file) ?e0)\<rparr>"
  have v: "fst (venue (t_engine ?t1)) = Some (rs_name spec, rs_profile spec, rs_node_id spec)"
    by (cases "le_bindings_file le") (simp_all, simp_all add: venue_def)
  obtain t2 ok where f: "fast_path le (rs_name spec) (le_covered le (rs_name spec)) (map x_name (p_fixtures (rs_profile spec))) ?t1 = (t2, ok)"
    by (rule prod.exhaust)
  from fast_path_frame [OF f] v have t2: "frame t2 = frame t" "open_stack t2 = open_stack t"
      "fst (venue (t_engine t2)) = Some (rs_name spec, rs_profile spec, rs_node_id spec)"
    by simp_all
  have w: "venue e3 = venue (t_engine t2)" if "wait_for_room_binding env le spec (le_covered le (rs_name spec)) (t_engine t2) = (e3, h)" for e3 h
    using venue_wait [OF that] .
  from b [unfolded bind_fixtures_def Let_def f] t2 show ?thesis
    by (auto simp: w split: bool.splits if_splits prod.splits hold_result.splits)
qed

lemma bind_stage_frame:
  "bind_stage env le spec t = (t1, r) \<Longrightarrow>
   frame t1 = frame t \<and> open_stack t1 = open_stack t
   \<and> fst (venue (t_engine t1)) = Some (rs_name spec, rs_profile spec, rs_node_id spec)"
  using bind_fixtures_frame [of env le spec t t1 r] by (auto simp: bind_stage_def venue_def split: if_splits)

subsection \<open>Every run follows the diagram\<close>

lemma terr_changes_set [simp]: "terr_changes (set_terr_state st t) = terr_changes t @ [(t_state t, st)]"
  by (simp add: terr_changes_def set_terr_state_def map_filter_snoc)

lemma terr_changes_update [simp]:
  "terr_changes (t\<lparr>t_loading := l\<rparr>) = terr_changes t" "terr_changes (drop_room t) = terr_changes t"
  "terr_changes (t\<lparr>t_engine := e\<rparr>) = terr_changes t" "terr_changes (t\<lparr>t_arco := b\<rparr>) = terr_changes t"
  "terr_changes (t\<lparr>t_room := rm\<rparr>) = terr_changes t" "terr_changes (t\<lparr>t_saved := s\<rparr>) = terr_changes t"
  "terr_changes (progress stage t) = terr_changes t"
  by (simp_all add: terr_changes_def drop_room_def progress_def map_filter_snoc)

lemma set_terr_state_fields [simp]:
  "t_state (set_terr_state st t) = st" "t_room (set_terr_state st t) = t_room t" "t_arco (set_terr_state st t) = t_arco t"
  "t_stack (set_terr_state st t) = t_stack t" "t_loading (set_terr_state st t) = t_loading t"
  "t_procs (set_terr_state st t) = t_procs t" "t_saved (set_terr_state st t) = t_saved t"
  by (simp_all add: set_terr_state_def)

lemma frameD: "frame t' = frame t \<Longrightarrow> t_state t' = t_state t \<and> t_loading t' = t_loading t \<and> terr_changes t' = terr_changes t \<and> t_arco t' = t_arco t"
  by (simp add: frame_def)

lemma progress_fields [simp]:
  "t_state (progress stage t) = t_state t" "t_room (progress stage t) = t_room t" "t_arco (progress stage t) = t_arco t"
  "t_loading (progress stage t) = t_loading t"
  by (simp_all add: progress_def)

lemma close_stack_fields [simp]:
  "terr_changes (close_stack t) = terr_changes t" "t_state (close_stack t) = t_state t" "t_loading (close_stack t) = t_loading t"
  using frameD [OF frame_simps(6), of t] by simp_all

lemma drop_room_fields [simp]: "t_state (drop_room t) = t_state t" "t_loading (drop_room t) = t_loading t"
  by (simp_all add: drop_room_def)

lemma load_body_spec:
  assumes "load_body env le name t = (t1, r)"
  shows "t_loading t1 = t_loading t \<and> (case r of
      Some why \<Rightarrow> t_state t1 = t_state t \<and> terr_changes t1 = terr_changes t
    | None \<Rightarrow> t_state t1 = ROOM_READY \<and> terr_changes t1 = terr_changes t @ [(t_state t, ROOM_READY)]
        \<and> t_arco t1 \<and> open_stack t1
        \<and> (\<exists>(spec :: room_spec) name version. t_room t1 = Some (rs_name spec)
             \<and> venue (t_engine t1) = (Some (rs_name spec, rs_profile spec, rs_node_id spec), Some name, Some version)))"
proof -
  obtain t2 r2 where c: "check_load le name t = (t2, r2)" by (rule prod.exhaust)
  note c2 = frameD [OF conjunct1 [OF check_load_frame [OF c]]]
  show ?thesis
  proof (cases "r2 = None \<and> dget (le_rooms le) name \<noteq> None")
    case False
    with assms c c2 show ?thesis by (auto simp: load_body_def split: option.splits)
  next
    case True
    then obtain spec where spec: "dget (le_rooms le) name = Some spec" by blast
    obtain t3 ok where s: "spawn le (le_arco_start le) ''arco'' ''arco'' (progress Spawning_Arco (t2\<lparr>t_stack := Some new_teardown\<rparr>)) = (t3, ok)"
      by (rule prod.exhaust)
    from spawn_frame [OF s] have f3: "frame t3 = frame t2" and o3: "open_stack t3" by (simp_all add: open_stack_def new_teardown_def)
    note c3 = frameD [OF f3]
    show ?thesis
    proof (cases "ok \<and> le_arco_ready le")
      case False
      with assms c True spec s c2 c3 show ?thesis by (auto simp: load_body_def Let_def split: bool.splits)
    next
      case ready: True
      obtain t4 r4 where b: "bind_stage env le spec (t3\<lparr>t_arco := True\<rparr>) = (t4, r4)" by (rule prod.exhaust)
      from bind_stage_frame [OF b] have f4: "frame t4 = frame (t3\<lparr>t_arco := True\<rparr>)" and o4: "open_stack t4"
        and v4: "fst (venue (t_engine t4)) = Some (rs_name spec, rs_profile spec, rs_node_id spec)" using o3 by simp_all
      note c4 = frameD [OF f4]
      show ?thesis
      proof (cases r4)
        case (Some why)
        with assms c True spec s ready b c2 c3 c4 show ?thesis by (auto simp: load_body_def Let_def)
      next
        case None
        then have t1: "r = None" "t1 = set_terr_state ROOM_READY (progress Room_Is_Ready
            (t4\<lparr>t_room := Some (rs_name spec),
                t_engine := (t_engine t4)\<lparr>e_room_name := Some name, e_config_version := Some (le_version le)\<rparr>\<rparr>))"
          using assms c True spec s ready b by (simp_all add: load_body_def Let_def)
        have "venue (t_engine t1) = (Some (rs_name spec, rs_profile spec, rs_node_id spec), Some name, Some (le_version le))"
          using v4 by (simp add: t1 venue_def)
        moreover have "t_room t1 = Some (rs_name spec)" by (simp add: t1)
        moreover have "t_arco t4" using c4 by simp
        ultimately show ?thesis using t1 c2 c3 c4 o4 by auto
      qed
    qed
  qed
qed

lemma load_room_ok: "terr_ok t \<Longrightarrow> terr_ok (fst (load_room env le name t))"
proof -
  assume ok: "terr_ok t"
  show ?thesis
  proof (cases "t_state t = NO_ROOM")
    case False
    with ok show ?thesis by (simp add: load_room_def)
  next
    case True
    let ?t0 = "(set_terr_state ROOM_LOADING t)\<lparr>t_loading := Some name\<rparr>"
    have track: "moves_along room_lifecycle NO_ROOM (terr_changes ?t0) ROOM_LOADING"
      using moves_along_snoc [where edge = room_lifecycle, OF _ begin_load] ok True by (simp add: terr_ok_def on_track_def)
    obtain t1 r where b: "load_body env le name ?t0 = (t1, r)" by (rule prod.exhaust)
    note spec = load_body_spec [OF b]
    show ?thesis
    proof (cases r)
      case None
      have "moves_along room_lifecycle NO_ROOM (terr_changes t1) ROOM_READY"
        using moves_along_snoc [OF track load_done] spec None by simp
      with spec None b True show ?thesis by (simp add: load_room_def terr_ok_def on_track_def)
    next
      case (Some why)
      have "terr_changes t1 = terr_changes ?t0" "t_state t1 = ROOM_LOADING" using spec Some by simp_all
      then show ?thesis
        using moves_along_snoc [OF track load_failed] b True Some
        by (simp add: load_room_def terr_ok_def on_track_def) (simp add: drop_room_def venue_def)
    qed
  qed
qed

text \<open>An unload whose save of the bindings returns.\<close>

definition saves :: "load_env \<Rightarrow> bool" where
  "saves le \<longleftrightarrow> le_bindings_file le = None \<or> le_save le = Save_Done"

lemma save_stage_frame:
  "save_stage le t = (t1, ok) \<Longrightarrow>
   t_state t1 = t_state t \<and> t_loading t1 = t_loading t \<and> terr_changes t1 = terr_changes t \<and> t_arco t1 = t_arco t
   \<and> t_room t1 = t_room t \<and> t_engine t1 = t_engine t \<and> t_stack t1 = t_stack t \<and> t_procs t1 = t_procs t \<and> (ok \<longleftrightarrow> saves le)"
  by (auto simp: save_stage_def saves_def split: if_splits save_fate.splits)

lemma unload_body_saved:
  assumes "saves le"
  shows "\<exists>t2. save_stage le (set_terr_state ROOM_UNLOADING t) = (t2, True)
    \<and> unload_body le t = (set_terr_state NO_ROOM (drop_room ((close_stack t2)\<lparr>t_engine := clear_devices (t_engine t2)\<rparr>)), Room_Unloaded)"
proof -
  obtain t2 ok where s: "save_stage le (set_terr_state ROOM_UNLOADING t) = (t2, ok)" by (rule prod.exhaust)
  with save_stage_frame [OF s] assms have "ok" by simp
  with s show ?thesis by (simp add: unload_body_def Let_def)
qed

lemma unload_body_stuck:
  assumes "\<not> saves le"
  shows "\<exists>t2. save_stage le (set_terr_state ROOM_UNLOADING t) = (t2, False) \<and> unload_body le t = (t2, Unload_Raised)"
proof -
  obtain t2 ok where s: "save_stage le (set_terr_state ROOM_UNLOADING t) = (t2, ok)" by (rule prod.exhaust)
  with save_stage_frame [OF s] assms have "\<not> ok" by simp
  with s show ?thesis by (simp add: unload_body_def)
qed

lemma unload_body_ok:
  assumes ok: "terr_ok t" and ready: "t_state t = ROOM_READY"
  shows "terr_ok (fst (unload_body le t))
    \<and> t_state (fst (unload_body le t)) = (if saves le then NO_ROOM else ROOM_UNLOADING)"
proof -
  have track: "moves_along room_lifecycle NO_ROOM (terr_changes t @ [(ROOM_READY, ROOM_UNLOADING)]) ROOM_UNLOADING"
    using moves_along_snoc [where edge = room_lifecycle, OF _ begin_unload] assms by (simp add: terr_ok_def on_track_def)
  show ?thesis
  proof (cases "saves le")
    case True
    from unload_body_saved [OF this, of t] obtain t2 where s: "save_stage le (set_terr_state ROOM_UNLOADING t) = (t2, True)"
      and u: "unload_body le t = (set_terr_state NO_ROOM (drop_room ((close_stack t2)\<lparr>t_engine := clear_devices (t_engine t2)\<rparr>)), Room_Unloaded)"
      by blast
    from save_stage_frame [OF s] moves_along_snoc [OF track unload_done] ok ready True show ?thesis
      by (simp add: u terr_ok_def on_track_def) (simp add: drop_room_def venue_def)
  next
    case False
    from unload_body_stuck [OF this, of t] obtain t2 where s: "save_stage le (set_terr_state ROOM_UNLOADING t) = (t2, False)"
      and u: "unload_body le t = (t2, Unload_Raised)" by blast
    have "open_stack t2 = open_stack t" using save_stage_frame [OF s] by (simp add: open_stack_def)
    with save_stage_frame [OF s] track ok ready False show ?thesis by (simp add: u terr_ok_def on_track_def)
  qed
qed

lemma unload_room_ok: "terr_ok t \<Longrightarrow> terr_ok (fst (unload_room env le force t))"
proof -
  assume ok: "terr_ok t"
  show ?thesis
  proof (cases "t_state t = ROOM_READY")
    case True
    obtain e1 r where a: "abort env (t_engine t) = (e1, r)" by (rule prod.exhaust)
    have "venue e1 = venue (t_engine t)" using venue_abort [of env "t_engine t"] a by simp
    then have t1: "terr_ok (t\<lparr>t_engine := e1\<rparr>)" using ok by (simp add: terr_ok_def on_track_def)
    have "terr_ok (fst (unload_body le t))" "terr_ok (fst (unload_body le (t\<lparr>t_engine := e1\<rparr>)))"
      using unload_body_ok [OF ok True] unload_body_ok [OF t1] True by simp_all
    then show ?thesis using ok t1 True a by (cases r) (simp_all add: unload_room_def)
  qed (simp add: unload_room_def ok)
qed

lemma recycle_room_ok: "terr_ok t \<Longrightarrow> terr_ok (fst (recycle_room env le t))"
proof -
  assume ok: "terr_ok t"
  have l: "terr_ok t2" if "load_room env le name t1 = (t2, r)" "terr_ok t1" for name t1 t2 r
    using load_room_ok [of t1 env le name] that by simp
  have u: "terr_ok t1" if "unload_room env le True t = (t1, r)" for t1 r
    using unload_room_ok [OF ok, of env le True] that by simp
  show ?thesis
    by (auto simp: recycle_room_def ok intro: u l split: option.split prod.split unload_outcome.split)
qed

text \<open>The calls that reach a Terrarium: the operator's, and the transport's on its engine.\<close>

datatype terr_call =
    Load load_env string
  | Unload load_env bool
  | Recycle load_env
  | On_Engine call

fun terr_step :: "'b env \<Rightarrow> 'b terrarium \<Rightarrow> terr_call \<Rightarrow> 'b terrarium" where
  "terr_step env t (Load le name) = fst (load_room env le name t)"
| "terr_step env t (Unload le force) = fst (unload_room env le force t)"
| "terr_step env t (Recycle le) = fst (recycle_room env le t)"
| "terr_step env t (On_Engine c) = t\<lparr>t_engine := engine_step env (t_engine t) c\<rparr>"

lemma terr_step_ok: "terr_ok t \<Longrightarrow> terr_ok (terr_step env t c)"
proof (cases c)
  case (On_Engine ec)
  assume "terr_ok t"
  with On_Engine show ?thesis by (simp add: terr_ok_def on_track_def)
qed (simp_all add: load_room_ok unload_room_ok recycle_room_ok)

interpretation terrarium: machine "terr_step env" terr_ok for env
  by unfold_locales (rule terr_step_ok)

fun saving_call :: "terr_call \<Rightarrow> bool" where
  "saving_call (Unload le _) = saves le"
| "saving_call (Recycle le) = saves le"
| "saving_call _ = True"

lemma unload_room_state:
  assumes "terr_ok t" "saves le" "t_state t \<noteq> ROOM_UNLOADING"
  shows "t_state (fst (unload_room env le force t)) \<noteq> ROOM_UNLOADING"
proof (cases "t_state t = ROOM_READY")
  case True
  obtain e1 r where a: "abort env (t_engine t) = (e1, r)" by (rule prod.exhaust)
  have "venue e1 = venue (t_engine t)" using venue_abort [of env "t_engine t"] a by simp
  then have t1: "terr_ok (t\<lparr>t_engine := e1\<rparr>)" using assms(1) by (simp add: terr_ok_def on_track_def)
  show ?thesis
    using unload_body_ok [OF assms(1) True, of le] unload_body_ok [OF t1, of le] True a assms
    by (cases r) (simp_all add: unload_room_def)
qed (use assms in \<open>simp add: unload_room_def\<close>)

lemma load_room_state: "t_state t \<noteq> ROOM_UNLOADING \<Longrightarrow> t_state (fst (load_room env le name t)) \<noteq> ROOM_UNLOADING"
  using load_body_spec [of env le name "(set_terr_state ROOM_LOADING t)\<lparr>t_loading := Some name\<rparr>"]
  by (auto simp: load_room_def split: prod.split option.splits)

lemma terr_step_state:
  assumes "terr_ok t" "saving_call c" "t_state t \<noteq> ROOM_UNLOADING"
  shows "t_state (terr_step env t c) \<noteq> ROOM_UNLOADING"
proof (cases c)
  case (Recycle le)
  have u: "t_state t1 \<noteq> ROOM_UNLOADING" if "unload_room env le True t = (t1, r)" for t1 r
    using unload_room_state [OF assms(1) _ assms(3), of le env True] assms(2) that Recycle by simp
  have l: "t_state t2 \<noteq> ROOM_UNLOADING" if "load_room env le name t1 = (t2, r)" "t_state t1 \<noteq> ROOM_UNLOADING" for name t1 t2 r
    using load_room_state [of t1 env le name] that by simp
  show ?thesis
    using assms(3) Recycle by (auto simp: recycle_room_def dest!: u l split: option.split prod.split unload_outcome.split)
qed (use assms load_room_state unload_room_state in simp_all)

lemma terr_run_ok: "terr_ok t \<Longrightarrow> terr_ok (foldl (terr_step env) t calls)"
  by (rule terrarium.inv_run)

lemma terr_run_state:
  "terr_ok t \<Longrightarrow> list_all saving_call calls \<Longrightarrow> t_state t \<noteq> ROOM_UNLOADING \<Longrightarrow>
   t_state (foldl (terr_step env) t calls) \<noteq> ROOM_UNLOADING"
  by (induction calls arbitrary: t) (simp_all add: terr_step_ok terr_step_state)

lemma new_terrarium_ok: "terr_ok (new_terrarium (new_engine binding))"
  by (simp add: terr_ok_def on_track_def new_terrarium_def terr_changes_def venue_def new_engine_def List.map_filter_def)

text \<open>
  C5: The Terrarium's lifecycle: whatever is loaded, unloaded, recycled or sent to the engine in between, and
  whatever fails on the way, the state changes that observers see form a path of the Room diagram, and
  between calls the Terrarium is in NO_ROOM with no Room, stack or Arco left and the engine in no Room, or
  in ROOM_READY with all of them there, the engine standing in exactly the Room that was loaded. There is one
  more place it can rest in: ROOM_UNLOADING with all of the Room still there, and only after an unload or a
  recycle whose save of the bindings raised.
\<close>
theorem room_follows_its_lifecycle:
  "terr_ok (foldl (terr_step env) (new_terrarium (new_engine binding)) calls)
   \<and> (list_all saving_call calls \<longrightarrow>
        t_state (foldl (terr_step env) (new_terrarium (new_engine binding)) calls) \<in> {NO_ROOM, ROOM_READY})"
proof -
  let ?t = "foldl (terr_step env) (new_terrarium (new_engine binding)) calls"
  note ok = terr_run_ok [OF new_terrarium_ok, of env binding calls]
  have "t_state ?t \<noteq> ROOM_UNLOADING" if "list_all saving_call calls"
    using terr_run_state [OF new_terrarium_ok that, of binding env] by (simp add: new_terrarium_def)
  with ok show ?thesis by (auto simp: terr_ok_def)
qed

text \<open>
  A failed save locks the Room in. When the save of the bindings raises during an unload, the Terrarium stays
  in ROOM_UNLOADING for good: no later load, unload or recycle changes its state, its Room or the
  processes that run for it.
\<close>
theorem failed_save_locks_the_room:
  assumes "t_state t = ROOM_READY" "e_state (t_engine t) = IDLE" "\<not> saves le"
    and "t' = fst (unload_room env le force t)"
  shows "snd (unload_room env le force t) = Unload_Raised
    \<and> t_state (foldl (terr_step env) t' calls) = ROOM_UNLOADING
    \<and> t_room (foldl (terr_step env) t' calls) = t_room t
    \<and> t_procs (foldl (terr_step env) t' calls) = t_procs t"
proof -
  from unload_body_stuck [OF assms(3), of t] obtain t2 where s: "save_stage le (set_terr_state ROOM_UNLOADING t) = (t2, False)"
    and u: "unload_body le t = (t2, Unload_Raised)" by blast
  have step: "t_state x = ROOM_UNLOADING \<Longrightarrow> t_state (terr_step env x c) = ROOM_UNLOADING
      \<and> t_room (terr_step env x c) = t_room x \<and> t_procs (terr_step env x c) = t_procs x" for x c
    by (cases c) (simp_all add: load_room_def unload_room_def recycle_room_def)
  have run: "t_state x = ROOM_UNLOADING \<Longrightarrow> t_state (foldl (terr_step env) x calls) = ROOM_UNLOADING
      \<and> t_room (foldl (terr_step env) x calls) = t_room x \<and> t_procs (foldl (terr_step env) x calls) = t_procs x" for x
    by (induction calls arbitrary: x) (simp_all add: step)
  have "unload_room env le force t = (t2, Unload_Raised)" using assms(1,2) u by (simp add: unload_room_def)
  then show ?thesis using run [of t2] save_stage_frame [OF s] assms(4) by simp
qed

subsection \<open>No process outlives its Room\<close>

definition all_recorded :: "load_env \<Rightarrow> bool" where
  "all_recorded le \<longleftrightarrow> le_arco_start le \<noteq> Spawn_Unrecorded
     \<and> (\<forall>factory. le_simulator le = Some factory \<longrightarrow> (\<forall>f. factory f \<noteq> Spawn_Unrecorded))"

definition orderly :: "load_env \<Rightarrow> bool" where
  "orderly le \<longleftrightarrow> all_recorded le \<and> (\<forall>role. le_stops le role)"

text \<open>Every live process has a teardown step that stops it.\<close>

definition stop_step :: "string \<times> string \<times> bool \<Rightarrow> string list teardown_step" where
  "stop_step p = (fst p, \<lambda>procs. (filter (\<lambda>q. q \<noteq> fst (snd p)) procs, snd (snd p)))"

definition tracked :: "'b terrarium \<Rightarrow> bool" where
  "tracked t \<longleftrightarrow> (\<exists>ps. t_stack t = Some \<lparr>td_steps = map stop_step ps, td_closed = False\<rparr>
     \<and> set (t_procs t) \<subseteq> set (map (fst \<circ> snd) ps))"

lemma shutdown_is_stop: "le_stops le role \<Longrightarrow> shutdown_step le n role = stop_step (n, role, le_stop_raises le role)"
  by (simp add: shutdown_step_def stop_step_def)

lemma tracked_engine [simp]: "tracked (t\<lparr>t_engine := e\<rparr>) = tracked t" "tracked (progress stage t) = tracked t"
    "tracked (t\<lparr>t_arco := b\<rparr>) = tracked t"  "tracked (t\<lparr>t_room := rm\<rparr>) = tracked t" "tracked (set_terr_state st t) = tracked t"
    "tracked (t\<lparr>t_loading := l\<rparr>) = tracked t" "tracked (t\<lparr>t_saved := sv\<rparr>) = tracked t"
  by (simp_all add: tracked_def set_terr_state_def)

lemma spawn_tracked:
  assumes "tracked t" "orderly le" "outcome \<noteq> Spawn_Unrecorded"
  shows "tracked (fst (spawn le outcome n role t))"
proof (cases outcome)
  case Spawn_Ok
  obtain ps where ps: "t_stack t = Some \<lparr>td_steps = map stop_step ps, td_closed = False\<rparr>"
      "set (t_procs t) \<subseteq> set (map (fst \<circ> snd) ps)"
    using assms(1) by (auto simp: tracked_def)
  have step: "shutdown_step le n role = stop_step (n, role, le_stop_raises le role)"
    using assms(2) by (simp add: shutdown_is_stop orderly_def)
  have "t_stack (fst (spawn le outcome n role t)) = Some \<lparr>td_steps = map stop_step (ps @ [(n, role, le_stop_raises le role)]), td_closed = False\<rparr>"
    using Spawn_Ok ps by (simp add: spawn_def push_stack_def td_push_def step)
  moreover have "t_procs (fst (spawn le outcome n role t)) = t_procs t @ [role]" using Spawn_Ok by (simp add: spawn_def)
  ultimately show ?thesis using ps(2) unfolding tracked_def by (intro exI [of _ "ps @ [(n, role, le_stop_raises le role)]"]) auto
qed (use assms in \<open>simp_all add: spawn_def\<close>)

lemma fast_path_tracked:
  "orderly le \<Longrightarrow> tracked t \<Longrightarrow> tracked (fst (fast_path le rname skip fs t))"
proof (induction le rname skip fs t rule: fast_path.induct)
  case (2 le rname skip f fs t)
  have s: "tracked t1" if "spawn le (factory f) n role t = (t1, ok)" "le_simulator le = Some factory" for t1 ok n role factory
    using spawn_tracked [OF "2.prems"(2,1), of "factory f" n role] that "2.prems"(1) by (simp add: orderly_def all_recorded_def)
  show ?case
  proof (cases "le_simulator le")
    case None
    with 2 show ?thesis by (auto split: option.split)
  next
    case (Some factory)
    obtain t1 ok where sp: "spawn le (factory f) (''simulator-'' @ f) (sim_role f) t = (t1, ok)" by (rule prod.exhaust)
    note t1 = s [OF sp Some]
    show ?thesis
    proof (cases "f \<in> set skip")
      case True
      with "2.IH"(1) "2.prems" show ?thesis by simp
    next
      case False
      with "2.IH"(5) [OF False Some sp [symmetric]] "2.prems" t1 sp Some show ?thesis by (cases ok) simp_all
    qed
  qed
qed simp

lemma unwind_stop: "fst (unwind (stop_step p # rest) procs) = fst (unwind rest (filter (\<lambda>q. q \<noteq> fst (snd p)) procs))"
  by (simp add: stop_step_def Let_def case_prod_beta)

lemma unwind_stops: "fst (unwind (map stop_step ps) procs) = filter (\<lambda>q. q \<notin> set (map (fst \<circ> snd) ps)) procs"
proof (induction ps arbitrary: procs)
  case (Cons p ps)
  then show ?case by (simp add: unwind_stop)
qed simp

lemma close_tracked: "tracked t \<Longrightarrow> t_procs (close_stack t) = []"
proof -
  assume "tracked t"
  then obtain ps where ps: "t_stack t = Some \<lparr>td_steps = map stop_step ps, td_closed = False\<rparr>"
      "set (t_procs t) \<subseteq> set (map (fst \<circ> snd) ps)" by (auto simp: tracked_def)
  have "fst (unwind (rev (map stop_step ps)) (t_procs t)) = []"
    using unwind_stops [of "rev ps" "t_procs t"] ps(2) by (auto simp: rev_map filter_empty_conv)
  then show ?thesis using ps(1) by (simp add: close_stack_def td_close_def case_prod_beta)
qed

lemma bind_fixtures_tracked: "orderly le \<Longrightarrow> tracked t \<Longrightarrow> bind_fixtures env le spec t = (t1, r) \<Longrightarrow> tracked t1"
proof -
  assume le: "orderly le" and t: "tracked t" and b: "bind_fixtures env le spec t = (t1, r)"
  have f: "tracked t2" if "fast_path le rn skip fs t' = (t2, ok)" "tracked t'" for rn skip fs t' t2 ok
    using fast_path_tracked [OF le that(2), of rn skip fs] that(1) by simp
  from b show ?thesis
    unfolding bind_fixtures_def Let_def using t
    by (auto dest!: f split: prod.splits bool.splits if_splits hold_result.splits)
qed

lemma bind_stage_tracked: "orderly le \<Longrightarrow> tracked t \<Longrightarrow> bind_stage env le spec t = (t1, r) \<Longrightarrow> tracked t1"
  using bind_fixtures_tracked [of le t env spec t1 r] by (auto simp: bind_stage_def split: if_splits)

text \<open>In \<open>NO_ROOM\<close> nothing runs; in the other states all that runs has a step that stops it.\<close>

definition procs_ok :: "'b terrarium \<Rightarrow> bool" where
  "procs_ok t \<longleftrightarrow> terr_ok t \<and> (t_state t = NO_ROOM \<longrightarrow> t_procs t = []) \<and> (t_state t \<noteq> NO_ROOM \<longrightarrow> tracked t)"

lemma load_body_tracked:
  assumes "orderly le" "t_procs t = []" "t_stack t = None" "load_body env le name t = (t1, r)"
  shows "tracked t1 \<or> r \<noteq> None \<and> t_stack t1 = None \<and> t_procs t1 = []"
proof -
  obtain t2 r2 where c: "check_load le name t = (t2, r2)" by (rule prod.exhaust)
  note c2 = check_load_frame [OF c]
  show ?thesis
  proof (cases "r2 = None \<and> dget (le_rooms le) name \<noteq> None")
    case False
    with assms c c2 show ?thesis by (auto simp: load_body_def split: option.splits)
  next
    case True
    then obtain spec where spec: "dget (le_rooms le) name = Some spec" by blast
    let ?t = "progress Spawning_Arco (t2\<lparr>t_stack := Some new_teardown\<rparr>)"
    have "tracked ?t" using c2 assms(2) by (simp add: tracked_def new_teardown_def)
    obtain t3 ok where s: "spawn le (le_arco_start le) ''arco'' ''arco'' ?t = (t3, ok)" by (rule prod.exhaust)
    have t3: "tracked t3"
      using spawn_tracked [OF \<open>tracked ?t\<close> assms(1), of "le_arco_start le" "''arco''" "''arco''"] s assms(1)
      by (simp add: orderly_def all_recorded_def)
    have b: "tracked t4" if "bind_stage env le spec (t3\<lparr>t_arco := True\<rparr>) = (t4, r4)" for t4 r4
      using bind_stage_tracked [OF assms(1) _ that] t3 by simp
    from assms(4) c True spec s t3 show ?thesis
      by (auto simp: load_body_def Let_def dest!: b split: prod.splits bool.splits if_splits option.splits)
  qed
qed

lemma load_room_procs: "orderly le \<Longrightarrow> procs_ok t \<Longrightarrow> procs_ok (fst (load_room env le name t))"
proof -
  assume le: "orderly le" and ok: "procs_ok t"
  then have t': "terr_ok (fst (load_room env le name t))" by (simp add: load_room_ok procs_ok_def)
  show ?thesis
  proof (cases "t_state t = NO_ROOM")
    case True
    let ?t0 = "(set_terr_state ROOM_LOADING t)\<lparr>t_loading := Some name\<rparr>"
    obtain t1 r where b: "load_body env le name ?t0 = (t1, r)" by (rule prod.exhaust)
    have "t_procs t = []" "t_stack t = None" using ok True by (simp_all add: procs_ok_def terr_ok_def)
    then have t1: "tracked t1 \<or> r \<noteq> None \<and> t_stack t1 = None \<and> t_procs t1 = []"
      by (intro load_body_tracked [OF le _ _ b]) simp_all
    have st: "r = None \<Longrightarrow> t_state t1 = ROOM_READY" using load_body_spec [OF b] by simp
    have "t_procs (close_stack t1) = []" if "r \<noteq> None"
      using t1 that close_tracked by (auto simp: close_stack_def)
    with t' t1 st b True show ?thesis
      by (cases r) (simp_all add: procs_ok_def load_room_def, simp add: drop_room_def)
  qed (use ok in \<open>simp add: load_room_def\<close>)
qed

lemma unload_body_procs:
  assumes "tracked t"
  shows "if saves le then t_procs (fst (unload_body le t)) = [] else tracked (fst (unload_body le t))"
proof (cases "saves le")
  case True
  from unload_body_saved [OF this, of t] obtain t2 where s: "save_stage le (set_terr_state ROOM_UNLOADING t) = (t2, True)"
    and u: "unload_body le t = (set_terr_state NO_ROOM (drop_room ((close_stack t2)\<lparr>t_engine := clear_devices (t_engine t2)\<rparr>)), Room_Unloaded)"
    by blast
  have "tracked t2" using save_stage_frame [OF s] assms by (simp add: tracked_def)
  with True show ?thesis by (simp add: u drop_room_def close_tracked)
next
  case False
  from unload_body_stuck [OF this, of t] obtain t2 where s: "save_stage le (set_terr_state ROOM_UNLOADING t) = (t2, False)"
    and u: "unload_body le t = (t2, Unload_Raised)" by blast
  with save_stage_frame [OF s] assms False show ?thesis by (simp add: tracked_def)
qed

lemma unload_body_procs_ok:
  assumes "terr_ok t" "t_state t = ROOM_READY" "tracked t"
  shows "procs_ok (fst (unload_body le t))"
  using unload_body_ok [OF assms(1,2), of le] unload_body_procs [OF assms(3), of le]
  by (auto simp: procs_ok_def split: if_splits)

lemma unload_room_procs: "procs_ok t \<Longrightarrow> procs_ok (fst (unload_room env le force t))"
proof -
  assume ok: "procs_ok t"
  show ?thesis
  proof (cases "t_state t = ROOM_READY")
    case True
    then have tr: "tracked t" and t: "terr_ok t" using ok by (simp_all add: procs_ok_def)
    obtain e1 r where a: "abort env (t_engine t) = (e1, r)" by (rule prod.exhaust)
    have "venue e1 = venue (t_engine t)" using venue_abort [of env "t_engine t"] a by simp
    then have t1: "terr_ok (t\<lparr>t_engine := e1\<rparr>)" using t by (simp add: terr_ok_def on_track_def)
    have "procs_ok (fst (unload_body le t))" "procs_ok (fst (unload_body le (t\<lparr>t_engine := e1\<rparr>)))"
      "procs_ok (t\<lparr>t_engine := e1\<rparr>)"
      using unload_body_procs_ok [OF t True tr] unload_body_procs_ok [OF t1] t1 tr True by (simp_all add: procs_ok_def)
    then show ?thesis using ok True a by (cases r) (simp_all add: unload_room_def)
  qed (use ok in \<open>simp add: unload_room_def\<close>)
qed

fun orderly_call :: "terr_call \<Rightarrow> bool" where
  "orderly_call (Load le _) = orderly le"
| "orderly_call (Unload le _) = orderly le"
| "orderly_call (Recycle le) = orderly le"
| "orderly_call (On_Engine _) = True"

lemma terr_step_procs: "orderly_call c \<Longrightarrow> procs_ok t \<Longrightarrow> procs_ok (terr_step env t c)"
proof (cases c)
  case (Recycle le)
  assume le: "orderly_call c" and ok: "procs_ok t"
  have l: "procs_ok t2" if "load_room env le name t1 = (t2, r)" "procs_ok t1" for name t1 t2 r
    using load_room_procs [of le t1 env name] that le Recycle by simp
  have u: "procs_ok t1" if "unload_room env le True t = (t1, r)" for t1 r
    using unload_room_procs [OF ok, of env le True] that by simp
  show ?thesis
    using ok Recycle by (auto simp: recycle_room_def intro: u l split: option.split prod.split unload_outcome.split)
next
  case (On_Engine ec)
  assume "procs_ok t"
  with On_Engine terr_step_ok [of t env c] show ?thesis by (simp add: procs_ok_def)
qed (simp_all add: load_room_procs unload_room_procs)

text \<open>
  C6: No process outlives its Room. As long as no spawn fails between the process existing and its pid being
  recorded, and every process stops when asked, then after any calls, failed loads included, the Terrarium
  in NO_ROOM has no process of its own left running.
\<close>
theorem no_process_outlives_its_room:
  assumes "list_all orderly_call calls"
    and "t = foldl (terr_step env) (new_terrarium (new_engine binding)) calls" "t_state t = NO_ROOM"
  shows "t_procs t = []"
proof -
  have "procs_ok (foldl (terr_step env) t0 calls)" if "list_all orderly_call calls" "procs_ok t0" for t0
    using that by (induction calls arbitrary: t0) (simp_all add: terr_step_procs)
  moreover have "procs_ok (new_terrarium (new_engine binding) :: 'a terrarium)"
    by (simp add: procs_ok_def terr_ok_def on_track_def new_terrarium_def terr_changes_def venue_def new_engine_def List.map_filter_def)
  ultimately show ?thesis using assms by (auto simp: procs_ok_def)
qed

text \<open>
  An unrecorded spawn is orphaned. When Arco's process has come up but writing its pid record fails, the
  load reports a failure and returns to NO_ROOM with Arco still running and no step left to stop it.
\<close>
theorem unrecorded_arco_is_orphaned:
  assumes "t_state t = NO_ROOM" "dget (le_rooms le) name = Some spec" "le_invalid le name = None"
    and "le_sweep_raises le \<noteq> Some True" "le_claimant le = None" "le_arco_start le = Spawn_Unrecorded"
  shows "\<exists>t'. load_room env le name t = (t', Some Arco_Failed) \<and> t_state t' = NO_ROOM
    \<and> ''arco'' \<in> set (t_procs t') \<and> t_stack t' = None"
  using assms
  by (auto simp: load_room_def load_body_def check_load_def spawn_def Let_def close_stack_def new_teardown_def td_close_def
      drop_room_def split: prod.split)

subsection \<open>The hold before a Bit is loaded\<close>

definition no_bit :: "'b engine \<Rightarrow> bool" where
  "no_bit e \<longleftrightarrow> e_state e = IDLE \<and> e_registration e = None \<and> e_bit e = None"

lemma no_bit_update [simp]:
  "no_bit (notify n e) = no_bit e" "no_bit (e\<lparr>e_devices := p\<rparr>) = no_bit e" "no_bit (e\<lparr>e_warned_instruments := w\<rparr>) = no_bit e"
  "no_bit (with_binding f e) = no_bit e" "e_room (notify n e) = e_room e" "e_room (with_binding f e) = e_room e"
  by (simp_all add: no_bit_def notify_def with_binding_def)

fun is_load :: "call \<Rightarrow> bool" where
  "is_load (CLoad _ _) = True"
| "is_load _ = False"

lemma no_bit_hello:
  "no_bit e \<Longrightarrow> no_bit (fst (hello env d name proto declared now e)) \<and> e_room (fst (hello env d name proto declared now e)) = e_room e"
proof -
  assume e: "no_bit e"
  obtain e1 carried where dec: "declare_instrument env d declared e = (e1, carried)" by fastforce
  have e1: "no_bit e1 \<and> e_room e1 = e_room e"
    using dec e by (auto simp: declare_instrument_def Let_def split: option.splits if_splits)
  have "no_bit (hello_pool d name proto now carried e1) \<and> e_room (hello_pool d name proto now carried e1) = e_room e1"
    using e1 by (simp add: hello_pool_def Let_def split: prod.split)
  then show ?thesis using e1 by (simp add: hello_def dec Let_def no_bit_def)
qed

lemma no_bit_reap:
  "no_bit e \<Longrightarrow> no_bit (fst (reap_stale env timeout now e)) \<and> e_room (fst (reap_stale env timeout now e)) = e_room e"
proof -
  assume e: "no_bit e"
  have one: "no_bit (fst (reap_one env d e)) \<and> e_room (fst (reap_one env d e)) = e_room e" if "no_bit e" for d e
    using that by (simp add: reap_one_def Let_def no_bit_def)
  have "no_bit (fst (reap_loop env ds freed e)) \<and> e_room (fst (reap_loop env ds freed e)) = e_room e" if "no_bit e" for ds freed e
    using that
  proof (induction ds arbitrary: freed e)
    case (Cons d ds)
    obtain e' f where r: "reap_one env d e = (e', f)" by fastforce
    with one [OF Cons.prems, of d] Cons.IH [of e'] show ?case by simp
  qed simp
  with e show ?thesis by (simp add: reap_stale_def Let_def case_prod_beta)
qed

lemma no_bit_start:
  "no_bit e \<Longrightarrow> no_bit (fst (request_start env key source_dev source e)) \<and> e_room (fst (request_start env key source_dev source e)) = e_room e"
  by (simp add: request_start_def no_bit_def Let_def run_def notify_def split: res.split)

lemma no_bit_step:
  "no_bit e \<Longrightarrow> \<not> is_load c \<Longrightarrow> no_bit (engine_step env e c) \<and> e_room (engine_step env e c) = e_room e"
proof (cases c)
  case (CFire name who d at_time now)
  assume e: "no_bit e"
  have "book (engine_step env e c) = book e" by (simp add: CFire book_fire_function)
  from bookD [OF this] e show ?thesis by (simp add: no_bit_def)
next
  case (CData d verb args gtime received now)
  assume "no_bit e"
  then show ?thesis by (simp add: CData data_def no_bit_def Let_def split: option.split prod.split)
qed (simp_all add: no_bit_hello no_bit_reap no_bit_start handshake_def tick_def abort_def run_action_def on_bit_def no_bit_def [of e]
    split: option.split)

lemma no_bit_steps:
  "no_bit e \<Longrightarrow> list_all (\<lambda>c. \<not> is_load c) cs \<Longrightarrow> no_bit (foldl (engine_step env) e cs) \<and> e_room (foldl (engine_step env) e cs) = e_room e"
  by (induction cs arbitrary: e) (simp_all add: no_bit_step)

definition no_loads :: "hold_tick list \<Rightarrow> bool" where
  "no_loads ticks \<longleftrightarrow> list_all (\<lambda>(calls, _, _). list_all (\<lambda>c. \<not> is_load c) calls) ticks"

lemma hold_for_no_bit:
  "hold_for env f deadline now ticks e = (e', now', ticks', ok) \<Longrightarrow> no_bit e \<Longrightarrow> no_loads ticks \<Longrightarrow>
   no_bit e' \<and> e_room e' = e_room e \<and> no_loads ticks'"
proof (induction env f deadline now ticks e rule: hold_for.induct)
  case (2 env f deadline now calls now1 raised ticks e)
  then show ?case using no_bit_steps [of e calls env] by (auto simp: Let_def no_loads_def split: if_splits)
qed auto

lemma hold_all_no_bit:
  "no_bit e \<Longrightarrow> no_loads ticks \<Longrightarrow> e_room (fst (hold_all env rname fs deadline now ticks e)) = e_room e"
proof (induction env rname fs deadline now ticks e rule: hold_all.induct)
  case (2 env rname f fs deadline now ticks e)
  obtain e1 now1 ticks1 ok where h: "hold_for env f deadline now ticks (with_binding (arm rname f (deadline - now) now) e) = (e1, now1, ticks1, ok)"
    by (rule prod_cases4)
  from hold_for_no_bit [OF h] 2 h show ?case by (cases ok) auto
qed simp

text \<open>
  The hold binds nothing before a Bit is loaded. With no Bit in the engine and none loaded during the
  hold, whatever devices say hello, handshake or gesture while fixture after fixture is armed, not one is
  bound; so a Room none of whose fixtures was bound on the fast path, and with no Art-Net output, always
  times out.
\<close>
theorem hold_binds_nothing_without_a_bit:
  assumes "no_bit e" "no_loads (le_ticks le)" and room: "e_room e = Some r"
    and held: "wait_for_room_binding env le spec skip e = (e', res)"
  shows "e_room e' = Some r \<and> (rm_bound r = [] \<and> skip = [] \<and> p_fixtures (rs_profile spec) \<noteq> [] \<longrightarrow> res \<noteq> Held)"
proof -
  let ?needed = "filter (\<lambda>f. f \<notin> set skip) (map x_name (p_fixtures (rs_profile spec)))"
  obtain e1 ok where h: "hold_all env (rs_name spec) ?needed (le_now le + le_setup_timeout le) (le_now le) (le_ticks le) e = (e1, ok)"
    by (rule prod.exhaust)
  have "e_room e1 = Some r" using hold_all_no_bit [OF assms(1,2)] h room by (metis fst_conv)
  then show ?thesis
    using held room h by (cases ok; cases "p_fixtures (rs_profile spec)") (auto simp: wait_for_room_binding_def Let_def room_binds_def dmem_def split: if_splits)
qed

lemma bind_stage_driven:
  assumes stage: "bind_stage env le spec t = (t1, None)"
  shows "le_covered le (rs_name spec) \<noteq> [] \<or> p_fixtures (rs_profile spec) = []
    \<or> (\<exists>r. e_room (t_engine t1) = Some r \<and> rm_bound r \<noteq> [])"
proof (rule disjCI, rule ccontr)
  assume dark: "\<not> (p_fixtures (rs_profile spec) = [] \<or> (\<exists>r. e_room (t_engine t1) = Some r \<and> rm_bound r \<noteq> []))"
    and uncovered: "\<not> le_covered le (rs_name spec) \<noteq> []"
  let ?fs = "map x_name (p_fixtures (rs_profile spec))"
  have unbound: "\<not> room_binds (t_engine t1) f" for f
  proof (cases "e_room (t_engine t1)")
    case (Some r)
    with dark have "rm_bound r = []" by simp
    with Some show ?thesis by (simp add: room_binds_def dmem_def)
  qed (simp add: room_binds_def)
  let ?e0 = "(t_engine t)\<lparr>e_room := Some \<lparr>rm_name = rs_name spec, rm_profile = rs_profile spec, rm_node_id = rs_node_id spec, rm_bound = []\<rparr>\<rparr>"
  let ?fp = "fast_path le (rs_name spec) [] ?fs ((progress Binding_Fixtures (t\<lparr>t_engine := ?e0\<rparr>))\<lparr>t_engine :=
     (case le_bindings_file le of None \<Rightarrow> ?e0 | Some file \<Rightarrow> with_binding (load_bindings file) ?e0)\<rparr>)"
  obtain t2 ok where res: "(case (t2, ok) of (t2, False) \<Rightarrow> (t2, Some Load_Raised)
      | (t2, True) \<Rightarrow>
         if list_ex (\<lambda>f. f \<notin> set [] \<and> \<not> room_binds (t_engine t2) f) ?fs
         then (case wait_for_room_binding env le spec [] (t_engine t2) of
                 (e3, Held) \<Rightarrow> (t2\<lparr>t_engine := e3\<rparr>, None)
               | (e3, Hold_Timeout) \<Rightarrow> (t2\<lparr>t_engine := e3\<rparr>, Some Binding_Timeout)
               | (e3, Hold_Raised) \<Rightarrow> (t2\<lparr>t_engine := e3\<rparr>, Some Load_Raised))
         else (t2, None)) = (t1, None)" (is "?goal (t2, ok)")
  proof (rule that [of "fst ?fp" "snd ?fp"])
    have "le_covered le (rs_name spec) = []" using uncovered by simp
    have "bind_fixtures env le spec t = (t1, None)" using stage by (simp add: bind_stage_def split: if_splits)
    note b = this [unfolded bind_fixtures_def Let_def \<open>le_covered le (rs_name spec) = []\<close>]
    show "?goal (fst ?fp, snd ?fp)" unfolding prod.collapse by (rule b)
  qed
  obtain e3 h where w: "wait_for_room_binding env le spec [] (t_engine t2) = (e3, h)" by (rule prod.exhaust)
  have ok using res by (cases ok) simp_all
  show False
  proof (cases "list_all (room_binds (t_engine t2)) ?fs")
    case True
    then have "t1 = t2" using res \<open>ok\<close> by (simp add: list_ex_iff list_all_iff)
    with True unbound dark show False by (cases "p_fixtures (rs_profile spec)") auto
  next
    case False
    then have h: "h = Held" "t1 = t2\<lparr>t_engine := e3\<rparr>"
      using res \<open>ok\<close> w by (auto simp: list_ex_iff list_all_iff split: hold_result.splits if_splits)
    have "wait_for_room_binding env le spec [] (t_engine t2) \<noteq> (e3, Held)"
      using False unbound dark h(2)
      by (auto simp: wait_for_room_binding_def Let_def split: prod.split bool.split option.split)
    with w h(1) show False by simp
  qed
qed

text \<open>
  A loaded Room can be seen. When \<open>load_room\<close> reports success, the Terrarium is in ROOM_READY, and at least
  one of the Room's fixtures is bound to a device or an Art-Net output covers one, unless it has none.
\<close>
theorem loaded_room_is_driven:
  assumes "load_room env le name t = (t', None)"
  shows "\<exists>spec. dget (le_rooms le) name = Some spec \<and> t_state t' = ROOM_READY
    \<and> (le_covered le (rs_name spec) \<noteq> [] \<or> p_fixtures (rs_profile spec) = []
       \<or> (\<exists>r. e_room (t_engine t') = Some r \<and> rm_bound r \<noteq> []))"
proof -
  let ?t0 = "(set_terr_state ROOM_LOADING t)\<lparr>t_loading := Some name\<rparr>"
  obtain t1 where b: "load_body env le name ?t0 = (t1, None)" and t': "t' = t1\<lparr>t_loading := None\<rparr>"
    using assms by (auto simp: load_room_def split: if_splits prod.splits option.splits)
  from b obtain t2 spec t3 t4 where spec: "dget (le_rooms le) name = Some spec"
    and bind: "bind_stage env le spec (t3\<lparr>t_arco := True\<rparr>) = (t4, None)"
    and t1: "t1 = set_terr_state ROOM_READY (progress Room_Is_Ready (t4\<lparr>t_room := Some (rs_name spec),
        t_engine := (t_engine t4)\<lparr>e_room_name := Some name, e_config_version := Some (le_version le)\<rparr>\<rparr>))"
    by (auto simp: load_body_def Let_def split: prod.splits option.splits bool.splits if_splits)
  have "e_room (t_engine t') = e_room (t_engine t4)" "t_state t' = ROOM_READY" by (simp_all add: t' t1)
  with bind_stage_driven [OF bind] spec show ?thesis by auto
qed

subsection \<open>A small Room\<close>

definition demo_room_spec :: room_spec where
  "demo_room_spec = \<lparr>rs_name = ''hall'', rs_profile = demo_profile, rs_node_id = ''room''\<rparr>"

definition demo_load_env :: load_env where
  "demo_load_env =
     \<lparr>le_rooms = [(''hall'', demo_room_spec)], le_invalid = (\<lambda>_. None), le_sweep_raises = Some False, le_claimant = None,
      le_arco_start = Spawn_Ok, le_arco_ready = True, le_covered = (\<lambda>_. []), le_simulator = Some (\<lambda>_. Spawn_Ok),
      le_connected = (\<lambda>_. False), le_bindings_file = None, le_bindings_broken = False, le_save = Save_Done, le_setup_timeout = 10, le_now = 0,
      le_ticks = [([CHello ''d'' ''D'' ''2'' None 0, CHandshake ''d'' [] ''room'' 0 0], 1, False)],
      le_version = ''1'', le_stops = (\<lambda>_. True), le_stop_raises = (\<lambda>_. False)\<rparr>"

definition demo_terrarium :: "unit terrarium" where
  "demo_terrarium = new_terrarium (new_engine (Some new_binding_registry))"

lemma loaded_room_is_driven_witness:
  "\<exists>r. e_room (t_engine (fst (load_room (demo_env []) demo_load_env ''hall'' demo_terrarium))) = Some r \<and> rm_bound r \<noteq> []"
proof -
  let ?l = "load_room (demo_env []) demo_load_env ''hall'' demo_terrarium"
  have "snd ?l = None" by code_simp
  then have "?l = (fst ?l, None)" by (metis prod.collapse)
  moreover have "p_fixtures demo_profile \<noteq> []" by (simp add: demo_profile_def)
  ultimately show ?thesis
    using loaded_room_is_driven [of "demo_env []" demo_load_env "''hall''" demo_terrarium]
    by (auto simp: demo_load_env_def demo_room_spec_def)
qed

lemma room_follows_its_lifecycle_witness:
  "t_state (foldl (terr_step (demo_env [])) (new_terrarium (new_engine (Some new_binding_registry)) :: unit terrarium)
     [Load demo_load_env ''hall'', Unload (demo_load_env\<lparr>le_bindings_file := Some None\<rparr>) False]) \<in> {NO_ROOM, ROOM_READY}"
  using room_follows_its_lifecycle [of "demo_env []" "Some new_binding_registry"
      "[Load demo_load_env ''hall'', Unload (demo_load_env\<lparr>le_bindings_file := Some None\<rparr>) False]"]
  by (simp add: saves_def demo_load_env_def)

lemma failed_save_locks_the_room_witness:
  "t_state (foldl (terr_step (demo_env []))
     (fst (unload_room (demo_env []) (demo_load_env\<lparr>le_bindings_file := Some None, le_save := Save_Refused\<rparr>) False
       (fst (load_room (demo_env []) demo_load_env ''hall'' demo_terrarium))))
     [Unload demo_load_env True, Load demo_load_env ''hall'']) = ROOM_UNLOADING"
proof -
  let ?t = "fst (load_room (demo_env []) demo_load_env ''hall'' demo_terrarium)"
  have "t_state ?t = ROOM_READY" "e_state (t_engine ?t) = IDLE" by code_simp+
  moreover have "\<not> saves (demo_load_env\<lparr>le_bindings_file := Some None, le_save := Save_Refused\<rparr>)"
    by (simp add: saves_def)
  ultimately show ?thesis
    using failed_save_locks_the_room [of ?t _ _ "demo_env []" False "[Unload demo_load_env True, Load demo_load_env ''hall'']"]
    by blast
qed

lemma no_process_outlives_its_room_witness:
  "t_procs (foldl (terr_step (demo_env [])) (new_terrarium (new_engine None) :: unit terrarium)
     [Load (demo_load_env\<lparr>le_arco_ready := False\<rparr>) ''hall'']) = []"
proof (rule no_process_outlives_its_room [OF _ refl])
  show "list_all orderly_call [Load (demo_load_env\<lparr>le_arco_ready := False\<rparr>) ''hall'']"
    by (simp add: orderly_def all_recorded_def demo_load_env_def)
  show "t_state (foldl (terr_step (demo_env [])) (new_terrarium (new_engine None) :: unit terrarium)
     [Load (demo_load_env\<lparr>le_arco_ready := False\<rparr>) ''hall'']) = NO_ROOM"
    by code_simp
qed

lemma unrecorded_arco_is_orphaned_witness:
  "\<exists>t'. load_room (demo_env []) (demo_load_env\<lparr>le_arco_start := Spawn_Unrecorded\<rparr>) ''hall'' demo_terrarium = (t', Some Arco_Failed)
     \<and> t_state t' = NO_ROOM \<and> ''arco'' \<in> set (t_procs t') \<and> t_stack t' = None"
  by (rule unrecorded_arco_is_orphaned [where spec = demo_room_spec]) (simp_all add: demo_load_env_def demo_terrarium_def new_terrarium_def)

lemma hold_binds_nothing_without_a_bit_witness:
  "\<exists>e' res. wait_for_room_binding (demo_env []) demo_load_env demo_room_spec [] demo_idle = (e', res) \<and> res \<noteq> Held"
proof -
  obtain e' res where w: "wait_for_room_binding (demo_env []) demo_load_env demo_room_spec [] demo_idle = (e', res)"
    by (rule prod.exhaust)
  have "no_bit demo_idle" by (simp add: demo_idle_def no_bit_def new_engine_def)
  moreover have "no_loads (le_ticks demo_load_env)" by (simp add: demo_load_env_def no_loads_def)
  moreover have "e_room demo_idle = Some (plain_room demo_profile)" by (simp add: demo_idle_def)
  ultimately show ?thesis
    using hold_binds_nothing_without_a_bit [OF _ _ _ w, of "plain_room demo_profile"] w
    by (auto simp: plain_room_def demo_room_spec_def demo_profile_def)
qed

end
