(* ===== verification/Uplink.thy ===== *)
theory Uplink
  imports Terrarium_Facts
begin

section \<open>The uplink to a broker\<close>

text \<open>
  \<open>src/uplink/protocol.py\<close>, \<open>src/uplink/journal.py\<close>, the transport interface of \<open>src/uplink/transport.py\<close>
  and \<open>UplinkAgent\<close> of \<open>src/uplink/link.py\<close>. The socket is the environment: what the next attempts to
  connect and to send will do is a list that they use up. A journal line is the event it decodes to, or
  \<open>None\<close> when it is not JSON.
\<close>

subsection \<open>Messages\<close>

datatype uplink_event =
    Identity_Frame string string string
  | State_Changed gs_state "string option" "terr_state option" "string option"
  | Registration_Changed "(string \<times> int \<times> int option) list"
  | Bit_Completed "pyval option" string string "(dev \<times> string \<times> bool) list" "string option" "string option"
  | Bits_Listed
  | Uplink_Error pyval string
  | Room_Loaded string
  | Room_Unloaded_Event string
  | Room_Load_Failed string load_failure
  | Room_Load_Progress load_stage

record uplink_identity =
  ui_tenant_slug :: string
  ui_terrarium_name :: string
  ui_secret :: string

definition identity_frame :: "uplink_identity \<Rightarrow> uplink_event" where
  "identity_frame i = Identity_Frame (ui_tenant_slug i) (ui_terrarium_name i) (ui_secret i)"

datatype uplink_command =
    Load_Bit_Command string "(string, pyval) dict option" "string option"
  | Run_Command
  | Abort_Command
  | Restart_Command
  | List_Bits_Command
  | Load_Room_Command string
  | Unload_Room_Command bool

text \<open>\<open>msg.get(key)\<close>, with \<open>None\<close> for a key that is not there.\<close>

definition get_or_none :: "(string, pyval) dict \<Rightarrow> string \<Rightarrow> pyval" where
  "get_or_none msg key = (case dget msg key of None \<Rightarrow> VNone | Some v \<Rightarrow> v)"

text \<open>\<open>parse_command\<close>; \<open>None\<close> is the \<open>ValueError\<close>.\<close>

definition parse_command :: "(string, pyval) dict \<Rightarrow> uplink_command option" where
  "parse_command msg =
     (let command = get_or_none msg ''command''
      in if command = VStr ''load_bit''
         then (case get_or_none msg ''name'' of
                 VStr name \<Rightarrow>
                   (case (case get_or_none msg ''overrides'' of
                            VNone \<Rightarrow> Some None | VDict d \<Rightarrow> Some (Some d) | _ \<Rightarrow> None) of
                      None \<Rightarrow> None
                    | Some overrides \<Rightarrow>
                        (case get_or_none msg ''room'' of
                           VNone \<Rightarrow> Some (Load_Bit_Command name overrides None)
                         | VStr r \<Rightarrow> Some (Load_Bit_Command name overrides (Some r))
                         | _ \<Rightarrow> None))
               | _ \<Rightarrow> None)
         else if command = VStr ''run'' then Some Run_Command
         else if command = VStr ''abort'' then Some Abort_Command
         else if command = VStr ''restart'' then Some Restart_Command
         else if command = VStr ''list_bits'' then Some List_Bits_Command
         else if command = VStr ''load_room''
         then (case get_or_none msg ''name'' of VStr name \<Rightarrow> Some (Load_Room_Command name) | _ \<Rightarrow> None)
         else if command = VStr ''unload_room''
         then (case dget msg ''force'' of
                 None \<Rightarrow> Some (Unload_Room_Command False)
               | Some (VBool b) \<Rightarrow> Some (Unload_Room_Command b)
               | Some _ \<Rightarrow> None)
         else None)"

text \<open>\<open>players_view\<close>: device, role, and whether the player is a jam player.\<close>

definition players_view :: "(dev \<times> string \<times> role_class) list \<Rightarrow> (dev \<times> string \<times> bool) list" where
  "players_view gs = map (\<lambda>(d, r, c). (d, r, c = JAM)) (filter (\<lambda>(d, _). d \<noteq> TERRARIUM_ADMIN) gs)"

subsection \<open>The journal\<close>

definition JOURNAL_CAP :: nat where "JOURNAL_CAP = 500"

record journal =
  j_lines :: "uplink_event option list"
  j_cap :: nat

definition new_journal :: "nat \<Rightarrow> journal" where
  "new_journal cap = \<lparr>j_lines = [], j_cap = cap\<rparr>"

text \<open>Python's \<open>lines[-cap:]\<close>, which is all of them when \<open>cap\<close> is 0.\<close>

definition journal_append :: "uplink_event \<Rightarrow> journal \<Rightarrow> journal" where
  "journal_append ev j =
     (let ls = j_lines j @ [Some ev]
      in j\<lparr>j_lines := (if j_cap j < length ls \<and> j_cap j \<noteq> 0 then drop (length ls - j_cap j) ls else ls)\<rparr>)"

definition journal_entries :: "journal \<Rightarrow> uplink_event list" where
  "journal_entries j = List.map_filter (\<lambda>x. x) (j_lines j)"

definition journal_is_empty :: "journal \<Rightarrow> bool" where
  "journal_is_empty j \<longleftrightarrow> j_lines j = []"

definition journal_clear :: "journal \<Rightarrow> journal" where
  "journal_clear j = j\<lparr>j_lines := []\<rparr>"

subsection \<open>The transport\<close>

datatype fate = Works | Breaks

record link =
  lk_connected :: bool
  lk_durable :: bool
  lk_sent :: "uplink_event list"
  lk_fates :: "fate list"

definition next_fate :: "link \<Rightarrow> fate \<times> link" where
  "next_fate l = (case lk_fates l of [] \<Rightarrow> (Works, l) | f # fs \<Rightarrow> (f, l\<lparr>lk_fates := fs\<rparr>))"

text \<open>\<open>connect\<close> and \<open>send\<close>; the flag is false when the call raised, and a send that raises has disconnected.\<close>

definition link_connect :: "link \<Rightarrow> link \<times> bool" where
  "link_connect l =
     (case next_fate l of (Works, l') \<Rightarrow> (l'\<lparr>lk_connected := True\<rparr>, True) | (Breaks, l') \<Rightarrow> (l', False))"

definition link_send :: "uplink_event \<Rightarrow> link \<Rightarrow> link \<times> bool" where
  "link_send ev l =
     (if \<not> lk_connected l then (l, False)
      else case next_fate l of
             (Works, l') \<Rightarrow> (l'\<lparr>lk_sent := lk_sent l' @ [ev]\<rparr>, True)
           | (Breaks, l') \<Rightarrow> (l'\<lparr>lk_connected := False\<rparr>, False))"

subsection \<open>The agent\<close>

definition INITIAL_BACKOFF_SECONDS :: rat where "INITIAL_BACKOFF_SECONDS = 1"

definition MAX_BACKOFF_SECONDS :: rat where "MAX_BACKOFF_SECONDS = 30"

record uplink =
  ul_link :: link
  ul_next_attempt_at :: rat
  ul_backoff :: rat
  ul_unloading :: "string option"
  ul_journal :: "journal option"
  ul_identity :: "uplink_identity option"
  ul_has_terrarium :: bool

definition new_uplink :: "link \<Rightarrow> journal option \<Rightarrow> uplink_identity option \<Rightarrow> bool \<Rightarrow> uplink" where
  "new_uplink l j i terr =
     \<lparr>ul_link = l, ul_next_attempt_at = 0, ul_backoff = INITIAL_BACKOFF_SECONDS, ul_unloading = None,
      ul_journal = j, ul_identity = i, ul_has_terrarium = terr\<rparr>"

text \<open>\<open>_send\<close>: nothing is sent, and nothing raises, while disconnected.\<close>

definition ul_send :: "uplink_event \<Rightarrow> uplink \<Rightarrow> uplink \<times> bool" where
  "ul_send ev u =
     (if \<not> lk_connected (ul_link u) then (u, True)
      else case link_send ev (ul_link u) of (l, ok) \<Rightarrow> (u\<lparr>ul_link := l\<rparr>, ok))"

fun ul_send_all :: "uplink_event list \<Rightarrow> uplink \<Rightarrow> uplink \<times> bool" where
  "ul_send_all [] u = (u, True)"
| "ul_send_all (ev # evs) u =
     (case ul_send ev u of (u', False) \<Rightarrow> (u', False) | (u', True) \<Rightarrow> ul_send_all evs u')"

definition terr_state_of :: "uplink \<Rightarrow> 'b terrarium \<Rightarrow> terr_state option" where
  "terr_state_of u t = (if ul_has_terrarium u then Some (t_state t) else None)"

text \<open>\<open>_send_resync\<close>: the frames it sends; \<open>lan_ip\<close> is the probe's answer, if any.\<close>

definition resync_frames :: "uplink \<Rightarrow> string option \<Rightarrow> 'b terrarium \<Rightarrow> uplink_event list" where
  "resync_frames u lan_ip t =
     State_Changed (e_state (t_engine t)) (e_bit_name (t_engine t)) (terr_state_of u t) lan_ip
     # (case t_room t of Some name \<Rightarrow> if ul_has_terrarium u then [Room_Loaded name] else [] | None \<Rightarrow> [])
     @ (case e_registration (t_engine t) of None \<Rightarrow> [] | Some reg \<Rightarrow> [Registration_Changed (non_room_counts reg)])"

fun replay_all :: "uplink_event list \<Rightarrow> link \<Rightarrow> link \<times> bool" where
  "replay_all [] l = (l, True)"
| "replay_all (ev # evs) l =
     (if \<not> lk_connected l then (l, False)
      else case link_send ev l of (l', False) \<Rightarrow> (l', False) | (l', True) \<Rightarrow> replay_all evs l')"

text \<open>\<open>_replay_journal\<close>: a drop on the way leaves the journal as it is, and does not raise.\<close>

definition replay_journal :: "uplink \<Rightarrow> uplink" where
  "replay_journal u =
     (case ul_journal u of
        None \<Rightarrow> u
      | Some j \<Rightarrow>
          if \<not> lk_durable (ul_link u) then u
          else (case replay_all (journal_entries j) (ul_link u) of
                  (l, False) \<Rightarrow> u\<lparr>ul_link := l\<rparr>
                | (l, True) \<Rightarrow>
                    u\<lparr>ul_link := l, ul_journal := Some (if journal_is_empty j then j else journal_clear j)\<rparr>))"

definition back_off :: "rat \<Rightarrow> uplink \<Rightarrow> uplink" where
  "back_off now u =
     u\<lparr>ul_next_attempt_at := now + ul_backoff u, ul_backoff := min (ul_backoff u * 2) MAX_BACKOFF_SECONDS\<rparr>"

definition maintain_connection :: "rat \<Rightarrow> string option \<Rightarrow> 'b terrarium \<Rightarrow> uplink \<Rightarrow> uplink" where
  "maintain_connection now lan_ip t u =
     (if lk_connected (ul_link u) then u
      else if now < ul_next_attempt_at u then u
      else case link_connect (ul_link u) of
             (l, False) \<Rightarrow> back_off now (u\<lparr>ul_link := l\<rparr>)
           | (l, True) \<Rightarrow>
               (case ul_send_all ((case ul_identity u of None \<Rightarrow> [] | Some i \<Rightarrow> [identity_frame i]) @ resync_frames u lan_ip t)
                       (u\<lparr>ul_link := l\<rparr>) of
                  (u1, False) \<Rightarrow> back_off now u1
                | (u1, True) \<Rightarrow>
                    (replay_journal u1)\<lparr>ul_backoff := INITIAL_BACKOFF_SECONDS, ul_next_attempt_at := 0\<rparr>))"

text \<open>\<open>_emit_bit_completed\<close>: journaled first, unless the disk refuses, then sent if connected.\<close>

definition emit_bit_completed :: "bool \<Rightarrow> uplink_event \<Rightarrow> uplink \<Rightarrow> uplink \<times> bool" where
  "emit_bit_completed disk_ok ev u =
     ul_send ev (if disk_ok then u\<lparr>ul_journal := map_option (journal_append ev) (ul_journal u)\<rparr> else u)"

definition bit_completed_event :: "'b env \<Rightarrow> pyval outcome \<Rightarrow> 'b engine \<Rightarrow> uplink_event option" where
  "bit_completed_event env result e =
     map_option (\<lambda>b. Bit_Completed (case result of Ret v \<Rightarrow> Some v | Raised \<Rightarrow> None)
        (case e_bit_name e of None \<Rightarrow> [] | Some n \<Rightarrow> n) (v_version env b)
        (players_view (case e_registration e of None \<Rightarrow> [] | Some reg \<Rightarrow> granted reg))
        (e_room_name e) (e_config_version e)) (e_bit e)"

text \<open>\<open>on_state_change\<close> of the engine, with what \<open>bit.result\<close> answers; an exception ends it.\<close>

definition on_state_change :: "'b env \<Rightarrow> pyval outcome \<Rightarrow> bool \<Rightarrow> gs_state \<Rightarrow> 'b terrarium \<Rightarrow> uplink \<Rightarrow> uplink \<times> bool" where
  "on_state_change env result disk_ok new_state t u =
     (case ul_send (State_Changed new_state (e_bit_name (t_engine t)) (terr_state_of u t) None) u of
        (u1, False) \<Rightarrow> (u1, False)
      | (u1, True) \<Rightarrow>
          (case bit_completed_event env result (t_engine t) of
             Some ev \<Rightarrow> if new_state = COMPLETING then emit_bit_completed disk_ok ev u1 else (u1, True)
           | None \<Rightarrow> (u1, True)))"

text \<open>\<open>on_terrarium_state_change\<close>, with the Room name the Terrarium has at that moment.\<close>

definition on_terrarium_state_change :: "terr_state \<Rightarrow> terr_state \<Rightarrow> 'b terrarium \<Rightarrow> uplink \<Rightarrow> uplink \<times> bool" where
  "on_terrarium_state_change old new t u =
     (case ul_send (State_Changed (e_state (t_engine t)) (e_bit_name (t_engine t)) (Some new) None) u of
        (u1, False) \<Rightarrow> (u1, False)
      | (u1, True) \<Rightarrow>
          if new = ROOM_READY then (case t_room t of None \<Rightarrow> (u1, True) | Some name \<Rightarrow> ul_send (Room_Loaded name) u1)
          else if new = ROOM_UNLOADING then (u1\<lparr>ul_unloading := t_room t\<rparr>, True)
          else if new = NO_ROOM
          then (if old = ROOM_UNLOADING
                then (case ul_unloading u1 of
                        None \<Rightarrow> (u1, True)
                      | Some name \<Rightarrow> ul_send (Room_Unloaded_Event name) (u1\<lparr>ul_unloading := None\<rparr>))
                else (u1\<lparr>ul_unloading := None\<rparr>, True))
          else (u1, True))"

definition on_registration_change :: "'b terrarium \<Rightarrow> uplink \<Rightarrow> (uplink \<times> bool) option" where
  "on_registration_change t u =
     map_option (\<lambda>reg. ul_send (Registration_Changed (non_room_counts reg)) u) (e_registration (t_engine t))"

definition on_room_load_progress :: "load_stage \<Rightarrow> uplink \<Rightarrow> uplink \<times> bool" where
  "on_room_load_progress stage u = ul_send (Room_Load_Progress stage) u"

end
