(* ===== verification/Uplink_Facts.thy ===== *)
theory Uplink_Facts
  imports Uplink
begin

section \<open>Commands from the broker, and what the uplink guarantees\<close>

text \<open>
  \<open>_dispatch\<close> and \<open>poll\<close> of \<open>src/uplink/link.py\<close>, and: reconnects back off; the journal keeps the newest
  completions and none is lost between the box and the socket; a broker cannot take a live Room down.
\<close>

subsection \<open>Dispatch\<close>

text \<open>
  What the agent asks for while it dispatches: the registry's answers, whether Control's Arco clients are
  up, what the world answers to a load or an unload, and the token of a new round.
\<close>

record ul_env =
  ue_registry :: bool
  ue_resolve :: "string \<Rightarrow> (string, pyval) dict option \<Rightarrow> string option"
  ue_clients_live :: "bool option"
  ue_load :: load_env
  ue_token :: string

definition show_refusal :: "'a \<Rightarrow> string" where
  "show_refusal _ = ''refused''"

text \<open>The texts of refusals are not modelled: an error event carries a constant.\<close>

definition ul_error :: "pyval \<Rightarrow> uplink \<Rightarrow> uplink \<times> bool" where
  "ul_error cname u = ul_send (Uplink_Error cname (show_refusal ())) u"

definition ul_dispatch ::
  "'b env \<Rightarrow> ul_env \<Rightarrow> pyval \<Rightarrow> uplink_command \<Rightarrow> 'b terrarium \<Rightarrow> uplink \<Rightarrow> 'b terrarium \<times> uplink \<times> bool" where
  "ul_dispatch env ue cname cmd t u =
     (let refuse = (\<lambda>t'. (t', ul_error cname u));
          engine = t_engine t
      in case cmd of
           List_Bits_Command \<Rightarrow> if \<not> ue_registry ue then refuse t else (t, ul_send Bits_Listed u)
         | Load_Room_Command name \<Rightarrow>
             if \<not> ul_has_terrarium u then refuse t
             else (case load_room env (ue_load ue) name t of
                     (t', None) \<Rightarrow> (t', u, True)
                   | (t', Some why) \<Rightarrow>
                       (case ul_send (Room_Load_Failed name why) u of
                          (u1, False) \<Rightarrow> (t', u1, False)
                        | (u1, True) \<Rightarrow> (t', ul_error cname u1)))
         | Unload_Room_Command force \<Rightarrow>
             if \<not> ul_has_terrarium u then refuse t
             else if unload_room_refusal (ue_clients_live ue) then refuse t
             else (case unload_room env (ue_load ue) force t of
                     (t', Room_Unloaded) \<Rightarrow> (t', u, True)
                   | (t', Unload_Raised) \<Rightarrow> (t', u, False)
                   | (t', _) \<Rightarrow> refuse t')
         | Load_Bit_Command name overrides _ \<Rightarrow>
             if ul_has_terrarium u \<and> t_state t \<noteq> ROOM_READY then refuse t
             else if ue_registry ue \<and> ue_resolve ue name overrides \<noteq> None then refuse t
             else (case load_bit env name (ue_token ue) engine of
                     (e, Ok _) \<Rightarrow> (t\<lparr>t_engine := e\<rparr>, u, True)
                   | (e, Err Uncaught) \<Rightarrow> (t\<lparr>t_engine := e\<rparr>, u, False)
                   | (e, Err _) \<Rightarrow> refuse (t\<lparr>t_engine := e\<rparr>))
         | Run_Command \<Rightarrow>
             (case request_start env None (Some TERRARIUM_ADMIN) ''uplink'' engine of
                (e, Ok None) \<Rightarrow> (t\<lparr>t_engine := e\<rparr>, u, True)
              | (e, Ok (Some _)) \<Rightarrow> refuse (t\<lparr>t_engine := e\<rparr>)
              | (e, Err Uncaught) \<Rightarrow> (t\<lparr>t_engine := e\<rparr>, u, False)
              | (e, Err _) \<Rightarrow> refuse (t\<lparr>t_engine := e\<rparr>))
         | Abort_Command \<Rightarrow>
             (case abort env engine of
                (e, Ok _) \<Rightarrow> (t\<lparr>t_engine := e\<rparr>, u, True)
              | (e, Err Uncaught) \<Rightarrow> (t\<lparr>t_engine := e\<rparr>, u, False)
              | (e, Err _) \<Rightarrow> refuse (t\<lparr>t_engine := e\<rparr>))
         | Restart_Command \<Rightarrow>
             (case e_bit_name engine of
                None \<Rightarrow> refuse t
              | Some bname \<Rightarrow>
                  (case abort env engine of
                     (e, Ok _) \<Rightarrow>
                       (case load_bit env bname (ue_token ue) e of
                          (e', Ok _) \<Rightarrow> (t\<lparr>t_engine := e'\<rparr>, u, True)
                        | (e', Err Uncaught) \<Rightarrow> (t\<lparr>t_engine := e'\<rparr>, u, False)
                        | (e', Err _) \<Rightarrow> refuse (t\<lparr>t_engine := e'\<rparr>))
                   | (e, Err Uncaught) \<Rightarrow> (t\<lparr>t_engine := e\<rparr>, u, False)
                   | (e, Err _) \<Rightarrow> refuse (t\<lparr>t_engine := e\<rparr>))))"

definition handle_message :: "'b env \<Rightarrow> ul_env \<Rightarrow> (string, pyval) dict \<Rightarrow> 'b terrarium \<Rightarrow> uplink \<Rightarrow> 'b terrarium \<times> uplink \<times> bool" where
  "handle_message env ue msg t u =
     (case parse_command msg of
        None \<Rightarrow> (t, u, True)
      | Some cmd \<Rightarrow> ul_dispatch env ue (get_or_none msg ''command'') cmd t u)"

text \<open>\<open>poll\<close>: what \<open>receive\<close> hands out until it has nothing or raises; an exception of a handler ends it.\<close>

fun ul_poll :: "'b env \<Rightarrow> ul_env \<Rightarrow> (string, pyval) dict list \<Rightarrow> 'b terrarium \<Rightarrow> uplink \<Rightarrow> 'b terrarium \<times> uplink \<times> bool" where
  "ul_poll env ue [] t u = (t, u, True)"
| "ul_poll env ue (msg # msgs) t u =
     (case handle_message env ue msg t u of
        (t', u', False) \<Rightarrow> (t', u', False)
      | (t', u', True) \<Rightarrow> ul_poll env ue msgs t' u')"

subsection \<open>A broker cannot take a live Room down\<close>

text \<open>What of the Terrarium a Room is.\<close>

definition room_side :: "'b terrarium \<Rightarrow> _" where
  "room_side t = (t_state t, t_room t, t_stack t, t_arco t, t_procs t, venue (t_engine t))"

lemma room_side_engine: "venue e = venue (t_engine t) \<Longrightarrow> room_side (t\<lparr>t_engine := e\<rparr>) = room_side t"
  by (simp add: room_side_def)

lemma room_side_dispatch:
  assumes ready: "t_state t = ROOM_READY" and live: "ue_clients_live ue = Some True"
  shows "room_side (fst (ul_dispatch env ue cname cmd t u)) = room_side t"
proof -
  have l: "venue e = venue (t_engine t)" if "load_bit env n tok (t_engine t) = (e, r)" for n tok e r
    using venue_load [of env n tok "t_engine t"] that by simp
  have l2: "venue e' = venue e" if "load_bit env n tok e = (e', r)" for n tok e e' r
    using venue_load [of env n tok e] that by simp
  have s: "venue e = venue (t_engine t)" if "request_start env k d src (t_engine t) = (e, r)" for k d src e r
    using venue_start [of env k d src "t_engine t"] that by simp
  have a: "venue e = venue (t_engine t)" if "abort env (t_engine t) = (e, r)" for e r
    using venue_abort [of env "t_engine t"] that by simp
  show ?thesis
  proof (cases cmd)
    case (Load_Bit_Command name overrides r)
    then show ?thesis
      by (auto simp: ul_dispatch_def Let_def room_side_def split: prod.split res.split fault.split dest: l)
  next
    case Run_Command
    then show ?thesis
      by (auto simp: ul_dispatch_def Let_def room_side_def split: prod.split res.split fault.split option.split dest: s)
  next
    case Abort_Command
    then show ?thesis
      by (auto simp: ul_dispatch_def Let_def room_side_def split: prod.split res.split fault.split dest: a)
  next
    case Restart_Command
    then show ?thesis
      by (auto simp: ul_dispatch_def Let_def room_side_def split: prod.split res.split fault.split option.split dest!: a l2)
  next
    case (Load_Room_Command name)
    have "load_room env (ue_load ue) name t = (t, Some (Not_No_Room ROOM_READY))" by (simp add: load_room_def ready)
    then show ?thesis by (simp add: ul_dispatch_def Let_def Load_Room_Command split: prod.split bool.split)
  next
    case (Unload_Room_Command force)
    then show ?thesis by (simp add: ul_dispatch_def Let_def unload_room_refusal_def live)
  qed (simp add: ul_dispatch_def Let_def)
qed

text \<open>
  C18: A broker cannot take a live Room down. While Control's Arco clients are up and a Room is loaded, no
  sequence of messages from the broker, well-formed or not, unloads or replaces the Room: its state, name,
  processes and teardown stack, and the Room the engine stands in, stay what they were.
\<close>
theorem broker_cannot_take_the_room_down:
  assumes "t_state t = ROOM_READY" and "ue_clients_live ue = Some True"
    and "ul_poll env ue msgs t u = (t', u', ok)"
  shows "t_state t' = ROOM_READY \<and> t_room t' = t_room t \<and> t_procs t' = t_procs t \<and> t_stack t' = t_stack t
    \<and> venue (t_engine t') = venue (t_engine t)"
proof -
  have one: "room_side t2 = room_side t1"
    if "handle_message env ue msg t1 u1 = (t2, u2, b)" "t_state t1 = ROOM_READY" for msg t1 u1 t2 u2 b
    using that room_side_dispatch [OF that(2) assms(2), of env "get_or_none msg ''command''" _ u1]
    by (auto simp: handle_message_def split: option.splits) (metis fst_conv)
  have "room_side (fst (ul_poll env ue msgs t u)) = room_side t"
    using assms(1)
  proof (induction msgs arbitrary: t u)
    case (Cons msg msgs)
    obtain t1 u1 b where h: "handle_message env ue msg t u = (t1, u1, b)" by (rule prod_cases3)
    note r = one [OF h Cons.prems]
    then have "t_state t1 = ROOM_READY" using Cons.prems by (simp add: room_side_def)
    from Cons.IH [OF this, of u1] r h show ?case by (cases b) simp_all
  qed simp
  with assms(3) show ?thesis using assms(1) by (simp add: room_side_def)
qed

subsection \<open>Backing off\<close>

text \<open>The uplink is asked again and again; \<open>attempts\<close> are the times at which it tried to connect.\<close>

fun attempts :: "string option \<Rightarrow> 'b terrarium \<Rightarrow> uplink \<Rightarrow> rat list \<Rightarrow> rat list" where
  "attempts lan_ip t u [] = []"
| "attempts lan_ip t u (now # moments) =
     (if lk_connected (ul_link u) \<or> now < ul_next_attempt_at u then attempts lan_ip t (maintain_connection now lan_ip t u) moments
      else now # attempts lan_ip t (maintain_connection now lan_ip t u) moments)"

definition dead :: "link \<Rightarrow> bool" where
  "dead l \<longleftrightarrow> \<not> lk_connected l \<and> set (lk_fates l) \<subseteq> {Breaks}"

lemma idle_or_backs_off:
  assumes "\<not> lk_connected (ul_link u)" and "fst (next_fate (ul_link u)) = Breaks"
  shows "maintain_connection now lan_ip t u =
    (if now < ul_next_attempt_at u then u else back_off now (u\<lparr>ul_link := snd (next_fate (ul_link u))\<rparr>))"
  using assms by (auto simp: maintain_connection_def link_connect_def split: prod.split fate.split)

text \<open>
  Reconnects back off. While no attempt succeeds, the attempts are spaced: counted from 0, attempt \<open>k + 1\<close>
  comes at least \<open>2 ^ k\<close> seconds after attempt \<open>k\<close>, or 30 seconds once that is less, however often and
  irregularly the agent is asked.
\<close>
theorem reconnects_back_off:
  assumes "\<not> lk_connected l" "lk_fates l = replicate n Breaks" "length moments \<le> n"
    and "a = attempts lan_ip t (new_uplink l j i terr) moments" "Suc k < length a"
  shows "a ! k + min (2 ^ k) 30 \<le> a ! Suc k"
proof -
  have gen: "(attempts lan_ip t u moments \<noteq> [] \<longrightarrow> ul_next_attempt_at u \<le> attempts lan_ip t u moments ! 0)
      \<and> (\<forall>k. Suc k < length (attempts lan_ip t u moments) \<longrightarrow>
           attempts lan_ip t u moments ! k + min (2 ^ (m + k)) 30 \<le> attempts lan_ip t u moments ! Suc k)"
    if "\<not> lk_connected (ul_link u)" "lk_fates (ul_link u) = replicate n Breaks" "length moments \<le> n" "ul_backoff u = min (2 ^ m) 30"
    for u moments n m
    using that
  proof (induction moments arbitrary: u n m)
    case (Cons now moments)
    show ?case
    proof (cases "now < ul_next_attempt_at u")
      case True
      have "maintain_connection now lan_ip t u = u" using True Cons.prems(1) by (simp add: maintain_connection_def)
      with Cons.IH [OF Cons.prems(1,2) _ Cons.prems(4)] Cons.prems(3) True show ?thesis by simp
    next
      case False
      obtain n' where n: "n = Suc n'" using Cons.prems(3) by (cases n) auto
      then have f: "next_fate (ul_link u) = (Breaks, (ul_link u)\<lparr>lk_fates := replicate n' Breaks\<rparr>)"
        using Cons.prems(2) by (simp add: next_fate_def)
      let ?u = "back_off now (u\<lparr>ul_link := (ul_link u)\<lparr>lk_fates := replicate n' Breaks\<rparr>\<rparr>)"
      have m: "maintain_connection now lan_ip t u = ?u"
        using idle_or_backs_off [OF Cons.prems(1), of now lan_ip t] f False by simp
      have bo: "ul_backoff ?u = min (2 ^ Suc m) 30" "ul_next_attempt_at ?u = now + min (2 ^ m) 30"
        using Cons.prems(4) by (auto simp: back_off_def MAX_BACKOFF_SECONDS_def min_def)
      have len: "length moments \<le> n'" using Cons.prems(3) n by simp
      have "\<not> lk_connected (ul_link ?u)" "lk_fates (ul_link ?u) = replicate n' Breaks"
        using Cons.prems(1) by (simp_all add: back_off_def)
      note IH = Cons.IH [OF this len bo(1)]
      have att: "attempts lan_ip t u (now # moments) = now # attempts lan_ip t ?u moments" using m False Cons.prems(1) by simp
      show ?thesis unfolding att
      proof (intro conjI allI impI)
        show "ul_next_attempt_at u \<le> (now # attempts lan_ip t ?u moments) ! 0" using False by simp
        fix k assume k: "Suc k < length (now # attempts lan_ip t ?u moments)"
        show "(now # attempts lan_ip t ?u moments) ! k + min (2 ^ (m + k)) 30 \<le> (now # attempts lan_ip t ?u moments) ! Suc k"
        proof (cases k)
          case 0
          from k have "attempts lan_ip t ?u moments \<noteq> []" unfolding 0 by auto
          with IH have "ul_next_attempt_at ?u \<le> attempts lan_ip t ?u moments ! 0" by blast
          then show ?thesis unfolding 0 bo(2) by simp
        next
          case (Suc k')
          from k have "Suc k' < length (attempts lan_ip t ?u moments)" unfolding Suc by simp
          with IH have "attempts lan_ip t ?u moments ! k' + min (2 ^ (Suc m + k')) 30 \<le> attempts lan_ip t ?u moments ! Suc k'"
            by blast
          then show ?thesis unfolding Suc by simp
        qed
      qed
    qed
  qed simp
  have "ul_backoff (new_uplink l j i terr) = min (2 ^ 0) 30" by (simp add: new_uplink_def INITIAL_BACKOFF_SECONDS_def)
  from gen [OF _ _ assms(3) this] assms(1,2,4,5) show ?thesis by (simp add: new_uplink_def)
qed

text \<open>
  A drop during the replay is not backed off. When the identity and the resync get through and a journaled
  event does not, the agent is disconnected with its schedule reset, so its very next call connects again.
\<close>
theorem replay_drop_resets_the_schedule:
  assumes "\<not> lk_connected (ul_link u)" "ul_next_attempt_at u \<le> now" "ul_identity u = None"
    and "lk_durable (ul_link u)" "lk_fates (ul_link u) = replicate (Suc (length (resync_frames u lan_ip t))) Works @ Breaks # rest"
    and "ul_journal u = Some j" "journal_entries j \<noteq> []"
  shows "let u' = maintain_connection now lan_ip t u
    in \<not> lk_connected (ul_link u') \<and> ul_next_attempt_at u' = 0 \<and> ul_backoff u' = INITIAL_BACKOFF_SECONDS
      \<and> ul_journal u' = Some j"
proof -
  have go: "ul_send_all evs u0 = (u0\<lparr>ul_link := (ul_link u0)\<lparr>lk_sent := lk_sent (ul_link u0) @ evs, lk_fates := fs\<rparr>\<rparr>, True)"
    if "lk_connected (ul_link u0)" "lk_fates (ul_link u0) = replicate (length evs) Works @ fs" for evs u0 fs
    using that
  proof (induction evs arbitrary: u0)
    case (Cons ev evs)
    let ?u1 = "u0\<lparr>ul_link := (ul_link u0)\<lparr>lk_sent := lk_sent (ul_link u0) @ [ev], lk_fates := replicate (length evs) Works @ fs\<rparr>\<rparr>"
    have "ul_send ev u0 = (?u1, True)" using Cons.prems by (simp add: ul_send_def link_send_def next_fate_def)
    with Cons.IH [of ?u1] Cons.prems show ?case by simp
  qed simp
  let ?l = "(ul_link u)\<lparr>lk_connected := True, lk_fates := replicate (length (resync_frames u lan_ip t)) Works @ Breaks # rest\<rparr>"
  have c: "link_connect (ul_link u) = (?l, True)" using assms(5) by (simp add: link_connect_def next_fate_def)
  have s: "ul_send_all (resync_frames u lan_ip t) (u\<lparr>ul_link := ?l\<rparr>)
      = (u\<lparr>ul_link := ?l\<lparr>lk_sent := lk_sent (ul_link u) @ resync_frames u lan_ip t, lk_fates := Breaks # rest\<rparr>\<rparr>, True)"
    using go [of "u\<lparr>ul_link := ?l\<rparr>" "resync_frames u lan_ip t" "Breaks # rest"] by simp
  obtain ev evs where ev: "journal_entries j = ev # evs" using assms(7) by (cases "journal_entries j") auto
  show ?thesis
    using assms(1-4,6) by (simp add: maintain_connection_def c s Let_def replay_journal_def ev link_send_def next_fate_def)
qed

subsection \<open>No completion is lost\<close>

text \<open>What happens to an agent: it is asked to connect, a round completes, something else is sent, the link drops.\<close>

datatype ul_op = Op_Maintain rat "string option" | Op_Completed bool uplink_event | Op_Send uplink_event | Op_Drop

fun ul_op_step :: "'b terrarium \<Rightarrow> ul_op \<Rightarrow> uplink \<Rightarrow> uplink" where
  "ul_op_step t (Op_Maintain now lan_ip) u = maintain_connection now lan_ip t u"
| "ul_op_step t (Op_Completed disk_ok ev) u = fst (emit_bit_completed disk_ok ev u)"
| "ul_op_step t (Op_Send ev) u = fst (ul_send ev u)"
| "ul_op_step t Op_Drop u = u\<lparr>ul_link := (ul_link u)\<lparr>lk_connected := False\<rparr>\<rparr>"

text \<open>The completions whose line the disk took; one whose append failed is sent live only.\<close>

fun completed_events :: "ul_op list \<Rightarrow> uplink_event list" where
  "completed_events [] = []"
| "completed_events (Op_Completed disk_ok ev # ops) = (if disk_ok then [ev] else []) @ completed_events ops"
| "completed_events (_ # ops) = completed_events ops"

lemma completed_events_snoc:
  "completed_events (ops @ [x]) = completed_events ops @ (case x of Op_Completed True ev \<Rightarrow> [ev] | _ \<Rightarrow> [])"
  by (induction ops rule: completed_events.induct) (auto split: ul_op.split bool.split)

lemma link_send_grows:
  assumes "link_send ev l = (l', ok)"
  shows "lk_durable l' = lk_durable l \<and> lk_sent l' = lk_sent l @ (if ok then [ev] else [])"
  using assms by (auto simp: link_send_def next_fate_def split: if_splits list.splits fate.splits)

lemma link_connect_grows:
  "link_connect l = (l', ok) \<Longrightarrow> lk_durable l' = lk_durable l \<and> lk_sent l' = lk_sent l"
  by (auto simp: link_connect_def next_fate_def split: if_splits list.splits fate.splits)

lemma replay_all_sends:
  assumes "replay_all evs l = (l', ok)"
  shows "lk_durable l' = lk_durable l \<and> (\<exists>more. lk_sent l' = lk_sent l @ more \<and> (ok \<longrightarrow> more = evs))"
  using assms
proof (induction evs arbitrary: l)
  case (Cons ev evs)
  obtain l1 b where s: "link_send ev l = (l1, b)" by fastforce
  show ?case
  proof (cases "lk_connected l \<and> b")
    case True
    then have "replay_all evs l1 = (l', ok)" using Cons.prems s by simp
    from Cons.IH [OF this] link_send_grows [OF s] True show ?thesis by auto
  next
    case False
    then show ?thesis using Cons.prems s link_send_grows [OF s] by (auto split: if_splits)
  qed
qed simp

definition ul_keeps :: "uplink \<Rightarrow> uplink \<Rightarrow> bool" where
  "ul_keeps u u' \<longleftrightarrow> ul_journal u' = ul_journal u \<and> lk_durable (ul_link u') = lk_durable (ul_link u)
     \<and> set (lk_sent (ul_link u)) \<subseteq> set (lk_sent (ul_link u'))"

lemma ul_send_keeps: "ul_send ev u = (u', ok) \<Longrightarrow> ul_keeps u u'"
  using link_send_grows [of ev "ul_link u"]
  by (auto simp: ul_send_def ul_keeps_def split: if_splits prod.splits)

lemma ul_send_all_keeps: "ul_send_all evs u = (u', ok) \<Longrightarrow> ul_keeps u u'"
proof (induction evs arbitrary: u)
  case (Cons ev evs)
  obtain u1 b where s: "ul_send ev u = (u1, b)" by fastforce
  from ul_send_keeps [OF s] Cons s show ?case
    by (cases b) (fastforce simp: ul_keeps_def)+
qed (simp add: ul_keeps_def)

text \<open>An attempt to connect either keeps the journal, or has just sent all of it and emptied it.\<close>

lemma maintain_journal:
  fixes t :: "'b terrarium" and now :: rat and lan_ip :: "string option"
  assumes d: "lk_durable (ul_link u)" and j: "ul_journal u = Some j"
  defines "u' \<equiv> maintain_connection now lan_ip t u"
  shows "lk_durable (ul_link u') \<and> set (lk_sent (ul_link u)) \<subseteq> set (lk_sent (ul_link u'))
    \<and> (ul_journal u' = Some j
       \<or> ul_journal u' = Some (j\<lparr>j_lines := []\<rparr>) \<and> set (journal_entries j) \<subseteq> set (lk_sent (ul_link u')))"
proof -
  obtain l b where c: "link_connect (ul_link u) = (l, b)" by fastforce
  let ?frames = "(case ul_identity u of None \<Rightarrow> [] | Some i \<Rightarrow> [identity_frame i]) @ resync_frames u lan_ip t"
  obtain u1 b1 where s: "ul_send_all ?frames (u\<lparr>ul_link := l\<rparr>) = (u1, b1)" by fastforce
  obtain l2 b2 where r: "replay_all (journal_entries j) (ul_link u1) = (l2, b2)" by fastforce
  note facts = link_connect_grows [OF c] ul_send_all_keeps [OF s, unfolded ul_keeps_def] replay_all_sends [OF r]
  have u1: "ul_journal u1 = Some j" "lk_durable (ul_link u1)" using facts d j by simp_all
  show ?thesis
  proof (cases "lk_connected (ul_link u) \<or> now < ul_next_attempt_at u \<or> \<not> b \<or> \<not> b1")
    case True
    then show ?thesis
      using d j facts u1 by (cases b; cases b1) (auto simp: u'_def maintain_connection_def c s back_off_def)
  next
    case False
    then have u': "u' = (replay_journal u1)\<lparr>ul_backoff := INITIAL_BACKOFF_SECONDS, ul_next_attempt_at := 0\<rparr>"
      by (simp add: u'_def maintain_connection_def c s)
    have rep: "replay_journal u1 = (if b2 then u1\<lparr>ul_link := l2, ul_journal := Some (if j_lines j = [] then j else j\<lparr>j_lines := []\<rparr>)\<rparr>
        else u1\<lparr>ul_link := l2\<rparr>)"
      by (cases b2) (simp_all add: replay_journal_def u1 r journal_is_empty_def journal_clear_def)
    have fl: "lk_durable l2" "set (lk_sent (ul_link u)) \<subseteq> set (lk_sent l2)"
        "b2 \<longrightarrow> set (journal_entries j) \<subseteq> set (lk_sent l2)"
      using facts u1 by auto
    show ?thesis
      unfolding u' rep using fl u1(1) by (cases b2; cases "j_lines j = []") simp_all
  qed
qed

lemma journal_append_entries:
  assumes "length (j_lines j) < j_cap j"
  shows "journal_entries (journal_append ev j) = journal_entries j @ [ev]"
    "length (j_lines (journal_append ev j)) = Suc (length (j_lines j))" "j_cap (journal_append ev j) = j_cap j"
  using assms by (simp_all add: journal_append_def journal_entries_def List.map_filter_simps map_filter_def)

text \<open>What is known of the completions so far: some went over the durable link, the journal holds the rest.\<close>

definition completions_kept :: "nat \<Rightarrow> uplink_event list \<Rightarrow> uplink \<Rightarrow> bool" where
  "completions_kept cap evs u \<longleftrightarrow>
     (\<exists>delivered j. lk_durable (ul_link u) \<and> ul_journal u = Some j \<and> j_cap j = cap
      \<and> length (j_lines j) \<le> length evs
      \<and> evs = delivered @ journal_entries j \<and> set delivered \<subseteq> set (lk_sent (ul_link u)))"

lemma keeps_completions:
  assumes "completions_kept cap evs u" and "ul_keeps u u'"
  shows "completions_kept cap evs u'"
  using assms by (auto simp: completions_kept_def ul_keeps_def)

lemma maintain_keeps_completions:
  assumes "completions_kept cap evs u"
  shows "completions_kept cap evs (maintain_connection now lan_ip t u)"
proof -
  let ?u = "maintain_connection now lan_ip t u"
  from assms obtain dl j where
    I: "lk_durable (ul_link u)" "ul_journal u = Some j" "j_cap j = cap" "length (j_lines j) \<le> length evs"
      "evs = dl @ journal_entries j" "set dl \<subseteq> set (lk_sent (ul_link u))" by (auto simp: completions_kept_def)
  note m = maintain_journal [OF I(1,2), where now = now and lan_ip = lan_ip and t = t]
  show ?thesis
  proof (cases "ul_journal ?u = Some j")
    case True
    then show ?thesis
      using m I unfolding completions_kept_def by (intro exI [of _ dl] exI [of _ j]) auto
  next
    case False
    then show ?thesis
      using m I unfolding completions_kept_def
      by (intro exI [of _ evs] exI [of _ "j\<lparr>j_lines := []\<rparr>"]) (auto simp: journal_entries_def)
  qed
qed

lemma emit_keeps_completions:
  assumes "completions_kept cap evs u" and "length evs < cap"
  shows "completions_kept cap (evs @ [ev]) (fst (emit_bit_completed True ev u))"
proof -
  from assms(1) obtain dl j where
    I: "lk_durable (ul_link u)" "ul_journal u = Some j" "j_cap j = cap" "length (j_lines j) \<le> length evs"
      "evs = dl @ journal_entries j" "set dl \<subseteq> set (lk_sent (ul_link u))" by (auto simp: completions_kept_def)
  have "length (j_lines j) < j_cap j" using assms(2) I(3,4) by simp
  note app = journal_append_entries [OF this, of ev]
  let ?u = "u\<lparr>ul_journal := Some (journal_append ev j)\<rparr>"
  have "completions_kept cap (evs @ [ev]) ?u"
    unfolding completions_kept_def using I app by (intro exI [of _ dl] exI [of _ "journal_append ev j"]) auto
  note kept = this
  obtain u1 b where s: "ul_send ev ?u = (u1, b)" by fastforce
  have "completions_kept cap (evs @ [ev]) u1" by (rule keeps_completions [OF kept ul_send_keeps [OF s]])
  then show ?thesis by (simp add: emit_bit_completed_def I(2) s)
qed

lemma step_keeps_completions:
  assumes "completions_kept cap evs u" and "length (evs @ completed_events [x]) \<le> cap"
  shows "completions_kept cap (evs @ completed_events [x]) (ul_op_step t x u)"
proof (cases x)
  case (Op_Maintain now lan_ip)
  then show ?thesis using maintain_keeps_completions [OF assms(1)] by simp
next
  case (Op_Completed disk_ok ev)
  show ?thesis
  proof (cases disk_ok)
    case True
    then show ?thesis using Op_Completed emit_keeps_completions [OF assms(1)] assms(2) by simp
  next
    case False
    obtain u1 b where "ul_send ev u = (u1, b)" by fastforce
    with keeps_completions [OF assms(1) ul_send_keeps [OF this]] False show ?thesis
      by (simp add: Op_Completed emit_bit_completed_def)
  qed
next
  case (Op_Send ev)
  obtain u1 b where "ul_send ev u = (u1, b)" by fastforce
  with keeps_completions [OF assms(1) ul_send_keeps [OF this]] show ?thesis by (simp add: Op_Send)
next
  case Op_Drop
  have "ul_keeps u (ul_op_step t x u)" by (simp add: Op_Drop ul_keeps_def)
  with keeps_completions [OF assms(1) this] show ?thesis by (simp add: Op_Drop)
qed

text \<open>
  A completion whose append fails is sent live: over a connected link with nothing wrong it arrives at once,
  and the journal is what it was.
\<close>
lemma unjournalled_completion_is_sent_live:
  assumes "emit_bit_completed False ev u = (u', ok)"
  shows "ul_journal u' = ul_journal u
    \<and> (lk_connected (ul_link u) \<and> ok \<longrightarrow> lk_sent (ul_link u') = lk_sent (ul_link u) @ [ev])"
  using assms link_send_grows [of ev "ul_link u"]
  by (auto simp: emit_bit_completed_def ul_send_def split: if_splits prod.splits)

text \<open>
  C19: No completion is lost. Whatever the agent goes through, connecting and failing to, dropping in the middle
  of a replay, as long as no more rounds have completed than the journal holds, the completions
  whose append to the journal succeeded are, in order, those that were sent over the durable link and then
  those the journal still holds. (One whose append fails is sent live only.)
\<close>
theorem no_completion_is_lost:
  assumes "u = fold (ul_op_step t) ops (new_uplink l (Some (new_journal cap)) i terr)"
    and "lk_durable l" and "length (completed_events ops) \<le> cap"
  shows "\<exists>delivered. completed_events ops
      = delivered @ (case ul_journal u of None \<Rightarrow> [] | Some j \<Rightarrow> journal_entries j)
    \<and> set delivered \<subseteq> set (lk_sent (ul_link u))"
proof -
  have "completions_kept cap (completed_events ops) u"
    using assms
  proof (induction ops arbitrary: u rule: rev_induct)
    case Nil
    then show ?case by (simp add: completions_kept_def new_uplink_def new_journal_def journal_entries_def)
  next
    case (snoc x ops)
    have e: "completed_events (ops @ [x]) = completed_events ops @ completed_events [x]"
      by (simp add: completed_events_snoc split: ul_op.split)
    have "completions_kept cap (completed_events ops) (fold (ul_op_step t) ops (new_uplink l (Some (new_journal cap)) i terr))"
      using snoc.prems(3) e by (intro snoc.IH [OF refl snoc.prems(2)]) simp
    from step_keeps_completions [OF this, of x t] snoc.prems(1,3) e show ?case by simp
  qed
  then show ?thesis by (auto simp: completions_kept_def)
qed

text \<open>
  A completion can be lost before it is journaled. The frame that announces the state COMPLETING is sent first:
  when the link breaks under it, \<open>on_state_change\<close> raises before the completion reaches the journal,
  so nothing of the round is left to replay.
\<close>
theorem completion_lost_under_a_drop:
  assumes "lk_connected (ul_link u)" and "lk_fates (ul_link u) = Breaks # rest"
  shows "\<exists>u'. on_state_change env result True COMPLETING t u = (u', False)
    \<and> ul_journal u' = ul_journal u \<and> lk_sent (ul_link u') = lk_sent (ul_link u)"
  using assms by (simp add: on_state_change_def ul_send_def link_send_def next_fate_def)

subsection \<open>Examples\<close>

definition demo_link :: "fate list \<Rightarrow> link" where
  "demo_link fs = \<lparr>lk_connected = False, lk_durable = True, lk_sent = [], lk_fates = fs\<rparr>"

definition demo_completion :: "string \<Rightarrow> uplink_event" where
  "demo_completion n = Bit_Completed None n ''1'' [] None None"

definition demo_ul_env :: ul_env where
  "demo_ul_env = \<lparr>ue_registry = False, ue_resolve = (\<lambda>_ _. None), ue_clients_live = Some True, ue_load = demo_load_env, ue_token = ''t''\<rparr>"

text \<open>A broker that asks for the Room to be unloaded, for another one, and sends rubbish.\<close>

definition hostile_messages :: "(string, pyval) dict list" where
  "hostile_messages =
     [[(''command'', VStr ''unload_room''), (''force'', VBool True)], [(''command'', VStr ''load_room''), (''name'', VStr ''cellar'')],
      [(''command'', VStr ''explode'')], [(''command'', VStr ''unload_room''), (''force'', VStr ''yes'')]]"

lemma broker_cannot_take_the_room_down_witness:
  "t_state (fst (ul_poll (demo_env []) demo_ul_env hostile_messages
     (fst (load_room (demo_env []) demo_load_env ''hall'' demo_terrarium)) (new_uplink (demo_link []) None None True))) = ROOM_READY"
proof -
  let ?t = "fst (load_room (demo_env []) demo_load_env ''hall'' demo_terrarium)"
  let ?p = "ul_poll (demo_env []) demo_ul_env hostile_messages ?t (new_uplink (demo_link []) None None True)"
  obtain t' u' ok where p: "?p = (t', u', ok)" by (rule prod_cases3)
  have "t_state ?t = ROOM_READY" by code_simp
  from broker_cannot_take_the_room_down [OF this _ p] show ?thesis unfolding p by (simp add: demo_ul_env_def)
qed

lemma reconnects_back_off_witness:
  "attempts None demo_terrarium (new_uplink (demo_link (replicate 8 Breaks)) None None True) [0, 1/2, 1, 2, 3, 4, 7, 8] = [0, 1, 3, 7]
   \<and> (3::rat) + min (2 ^ 2) 30 \<le> 7"
proof -
  have a: "attempts None demo_terrarium (new_uplink (demo_link (replicate 8 Breaks)) None None True) [0, 1/2, 1, 2, 3, 4, 7, 8] = [0, 1, 3, 7]"
    by code_simp
  from reconnects_back_off [of "demo_link (replicate 8 Breaks)" 8 "[0, 1/2, 1, 2, 3, 4, 7, 8]" "[0, 1, 3, 7]" None demo_terrarium None None True 2] a
  show ?thesis by (simp add: demo_link_def eval_nat_numeral)
qed

lemma replay_drop_resets_the_schedule_witness:
  "let u' = maintain_connection 5 None demo_terrarium
     (new_uplink (demo_link [Works, Works, Breaks]) (Some (journal_append (demo_completion ''a'') (new_journal 500))) None True)
   in \<not> lk_connected (ul_link u') \<and> ul_next_attempt_at u' = 0"
proof -
  let ?j = "journal_append (demo_completion ''a'') (new_journal 500)"
  let ?u = "new_uplink (demo_link [Works, Works, Breaks]) (Some ?j) None True"
  have "journal_entries ?j \<noteq> []" by code_simp
  moreover have "lk_fates (ul_link ?u) = replicate (Suc (length (resync_frames ?u None demo_terrarium))) Works @ Breaks # []"
    by code_simp
  ultimately show ?thesis
    using replay_drop_resets_the_schedule [of ?u 5 None demo_terrarium "[]" ?j]
    by (simp add: Let_def new_uplink_def demo_link_def)
qed

definition rough_night :: "ul_op list" where
  "rough_night =
     [Op_Completed True (demo_completion ''a''), Op_Maintain 0 None, Op_Completed True (demo_completion ''b''), Op_Maintain 1 None, Op_Drop,
      Op_Completed False (demo_completion ''x''), Op_Completed True (demo_completion ''c'')]"

lemma no_completion_is_lost_witness:
  "\<exists>delivered. map demo_completion [''a'', ''b'', ''c'']
      = delivered @ (case ul_journal (fold (ul_op_step demo_terrarium) rough_night
          (new_uplink (demo_link [Works, Works, Breaks]) (Some (new_journal 500)) None True)) of None \<Rightarrow> [] | Some j \<Rightarrow> journal_entries j)"
proof -
  have "completed_events rough_night = map demo_completion [''a'', ''b'', ''c'']" by (simp add: rough_night_def)
  then show ?thesis
    using no_completion_is_lost [of _ demo_terrarium rough_night "demo_link [Works, Works, Breaks]" 500 None True, OF refl]
    by (auto simp: demo_link_def)
qed

lemma completion_lost_under_a_drop_witness:
  "\<exists>u'. on_state_change (demo_env []) Raised True COMPLETING demo_terrarium
      (new_uplink ((demo_link [Breaks])\<lparr>lk_connected := True\<rparr>) (Some (new_journal 500)) None True) = (u', False)
    \<and> ul_journal u' = Some (new_journal 500)"
  using completion_lost_under_a_drop [of "new_uplink ((demo_link [Breaks])\<lparr>lk_connected := True\<rparr>) (Some (new_journal 500)) None True"
      "[]" "demo_env []" Raised demo_terrarium]
  by (auto simp: demo_link_def new_uplink_def)

end
