(* ===== verification/Process.thy ===== *)
theory Process
  imports Prelude
begin

section \<open>Waiting for child processes\<close>

text \<open>
  \<open>stop_process\<close> of \<open>src/control/process.py\<close>, and \<open>wait_ready\<close>, \<open>shutdown\<close> and the readiness probe of
  \<open>src/control/arco_process.py\<close>. The operating system is the environment: a world with a clock, a child that
  can be polled and signalled, and pyarco's engine. The loops of the source end only because time
  passes, so each is a partial function and its end is a theorem about clocks.
\<close>

subsection \<open>The environment\<close>

datatype signal = SIGTERM | SIGINT | SIGKILL

record 'w child_ops =
  co_poll :: "'w \<Rightarrow> 'w \<times> int option"
  co_signal :: "signal \<Rightarrow> 'w \<Rightarrow> 'w"
  co_clock :: "'w \<Rightarrow> 'w \<times> rat"
  co_sleep :: "rat \<Rightarrow> 'w \<Rightarrow> 'w"

text \<open>
  What the loops rely on: \<open>time\<close> never goes back, the clock reads it, and a sleep takes at least
  as long as it was asked to.
\<close>

definition clock_ok :: "('w \<Rightarrow> rat) \<Rightarrow> 'w child_ops \<Rightarrow> bool" where
  "clock_ok time ops \<longleftrightarrow>
     (\<forall>w. time w \<le> time (fst (co_poll ops w)))
     \<and> (\<forall>w s. time w \<le> time (co_signal ops s w))
     \<and> (\<forall>w. time w \<le> snd (co_clock ops w) \<and> snd (co_clock ops w) \<le> time (fst (co_clock ops w)))
     \<and> (\<forall>w d. 0 \<le> d \<longrightarrow> time w + d \<le> time (co_sleep ops d w))"

subsection \<open>Stopping a child\<close>

definition POLL_SLEEP :: rat where "POLL_SLEEP = 1 / 50"

partial_function (option) wait_until :: "'w child_ops \<Rightarrow> rat \<Rightarrow> 'w \<Rightarrow> ('w \<times> int option) option" where
  "wait_until ops deadline w =
     (case co_poll ops w of
        (w1, Some code) \<Rightarrow> Some (w1, Some code)
      | (w1, None) \<Rightarrow>
          (case co_clock ops w1 of
             (w2, now) \<Rightarrow>
               if deadline \<le> now then Some (w2, None) else wait_until ops deadline (co_sleep ops POLL_SLEEP w2)))"

declare wait_until.simps [code]

definition wait_bounded :: "'w child_ops \<Rightarrow> rat \<Rightarrow> 'w \<Rightarrow> ('w \<times> int option) option" where
  "wait_bounded ops timeout w = (case co_clock ops w of (w1, now) \<Rightarrow> wait_until ops (now + timeout) w1)"

definition stop_process :: "'w child_ops \<Rightarrow> signal \<Rightarrow> rat \<Rightarrow> rat \<Rightarrow> 'w \<Rightarrow> ('w \<times> int option) option" where
  "stop_process ops sig timeout kill_timeout w =
     (case co_poll ops w of
        (w1, Some code) \<Rightarrow> Some (w1, Some code)
      | (w1, None) \<Rightarrow>
          (case wait_bounded ops timeout (co_signal ops sig w1) of
             None \<Rightarrow> None
           | Some (w2, Some code) \<Rightarrow> Some (w2, Some code)
           | Some (w2, None) \<Rightarrow> wait_bounded ops kill_timeout (co_signal ops SIGKILL w2)))"

subsection \<open>Waiting until Arco is ready\<close>

datatype probe_stage = STAGE_CONNECT | STAGE_RESET

datatype probe_answer = Probe_Ready | Probe_Falsy | Probe_Stage probe_stage

datatype ready_result = Ready | Arco_Exited int | Ready_Timeout "probe_stage option"

partial_function (option) ready_loop ::
  "'w child_ops \<Rightarrow> (rat \<Rightarrow> 'w \<Rightarrow> 'w \<times> probe_answer) \<Rightarrow> rat \<Rightarrow> probe_stage option \<Rightarrow> 'w \<Rightarrow> ('w \<times> ready_result) option" where
  "ready_loop ops probe deadline stage w =
     (case co_clock ops w of
        (w1, now) \<Rightarrow>
          if now < deadline
          then (case co_poll ops w1 of
                  (w2, Some code) \<Rightarrow> Some (w2, Arco_Exited code)
                | (w2, None) \<Rightarrow>
                    (case co_clock ops w2 of
                       (w3, now') \<Rightarrow>
                         (case probe (deadline - now') w3 of
                            (w4, Probe_Ready) \<Rightarrow> Some (w4, Ready)
                          | (w4, Probe_Falsy) \<Rightarrow> ready_loop ops probe deadline stage (co_sleep ops (1 / 5) w4)
                          | (w4, Probe_Stage st) \<Rightarrow> ready_loop ops probe deadline (Some st) (co_sleep ops (1 / 5) w4))))
          else (case co_poll ops w1 of
                  (w2, Some code) \<Rightarrow> Some (w2, Arco_Exited code)
                | (w2, None) \<Rightarrow> Some (w2, Ready_Timeout stage)))"

declare ready_loop.simps [code]

definition wait_ready ::
  "'w child_ops \<Rightarrow> (rat \<Rightarrow> 'w \<Rightarrow> 'w \<times> probe_answer) \<Rightarrow> rat \<Rightarrow> 'w \<Rightarrow> ('w \<times> ready_result) option" where
  "wait_ready ops probe timeout w = (case co_clock ops w of (w1, now) \<Rightarrow> ready_loop ops probe (now + timeout) None w1)"

text \<open>
  pyarco's engine: whether it is synced, whether \<open>zero\<close> is set, and its calls. \<open>initialize\<close> answers
  whether it returned; otherwise it raised \<open>TimeoutError\<close>.
\<close>

record 'w arco_ops =
  ar_synced :: "'w \<Rightarrow> bool"
  ar_zero :: "'w \<Rightarrow> bool"
  ar_clear_zero :: "'w \<Rightarrow> 'w"
  ar_reset :: "'w \<Rightarrow> 'w"
  ar_poll :: "'w \<Rightarrow> 'w"
  ar_initialize :: "rat \<Rightarrow> 'w \<Rightarrow> 'w \<times> bool"

partial_function (option) reset_loop :: "'w child_ops \<Rightarrow> 'w arco_ops \<Rightarrow> rat \<Rightarrow> 'w \<Rightarrow> ('w \<times> probe_answer) option" where
  "reset_loop ops ar deadline w =
     (let w1 = ar_poll ar w
      in if ar_zero ar w1 then Some (w1, Probe_Ready)
         else case co_clock ops w1 of
                (w2, now) \<Rightarrow>
                  if deadline \<le> now then Some (w2, Probe_Stage STAGE_RESET)
                  else reset_loop ops ar deadline (co_sleep ops (1 / 100) w2))"

declare reset_loop.simps [code]

definition recover_reset :: "'w child_ops \<Rightarrow> 'w arco_ops \<Rightarrow> rat \<Rightarrow> 'w \<Rightarrow> ('w \<times> probe_answer) option" where
  "recover_reset ops ar remaining w =
     (case co_clock ops (ar_reset ar (ar_clear_zero ar w)) of (w1, now) \<Rightarrow> reset_loop ops ar (now + remaining) w1)"

definition probe_engine :: "'w child_ops \<Rightarrow> 'w arco_ops \<Rightarrow> rat \<Rightarrow> 'w \<Rightarrow> ('w \<times> probe_answer) option" where
  "probe_engine ops ar remaining w =
     (if ar_synced ar w \<and> \<not> ar_zero ar w then recover_reset ops ar remaining w
      else case ar_initialize ar (max remaining 1) w of
             (w1, False) \<Rightarrow> Some (w1, Probe_Stage (if ar_synced ar w1 then STAGE_RESET else STAGE_CONNECT))
           | (w1, True) \<Rightarrow> Some (w1, if ar_zero ar w1 then Probe_Ready else Probe_Stage STAGE_RESET))"

subsection \<open>The waits end\<close>

text \<open>A loop whose every turn takes at least \<open>d\<close> of the time left before a deadline takes finitely many turns.\<close>

definition turns_left :: "rat \<Rightarrow> rat \<Rightarrow> rat \<Rightarrow> nat" where
  "turns_left d deadline now = nat \<lceil>(deadline - now) / d\<rceil>"

lemma turns_left_decreases:
  assumes "0 < d" "now < deadline" "now + d \<le> now'"
  shows "turns_left d deadline now' < turns_left d deadline now"
proof -
  have "(deadline - now') / d \<le> (deadline - (now + d)) / d" using assms by (intro divide_right_mono) simp_all
  also have "\<dots> = (deadline - now) / d - 1" using assms(1) by (simp add: field_simps)
  finally have "\<lceil>(deadline - now') / d\<rceil> \<le> \<lceil>(deadline - now) / d\<rceil> - 1" by linarith
  moreover have "0 < \<lceil>(deadline - now) / d\<rceil>" using assms by simp
  ultimately show ?thesis by (simp add: turns_left_def)
qed

lemma wait_until_ends:
  assumes "clock_ok time ops"
  shows "\<exists>w' code. wait_until ops deadline w = Some (w', code) \<and> time w \<le> time w'"
proof (induction "turns_left POLL_SLEEP deadline (time w)" arbitrary: w rule: less_induct)
  case less
  obtain w1 code where p: "co_poll ops w = (w1, code)" by (rule prod.exhaust)
  obtain w2 now where c: "co_clock ops w1 = (w2, now)" by (rule prod.exhaust)
  have t: "time w \<le> time w1" "time w1 \<le> now" "now \<le> time w2"
    using assms p c unfolding clock_ok_def by (metis fst_conv snd_conv)+
  show ?case
  proof (cases "code \<noteq> None \<or> deadline \<le> now")
    case True
    then show ?thesis using p c t by (subst wait_until.simps) (auto split: option.split)
  next
    case False
    let ?w = "co_sleep ops POLL_SLEEP w2"
    have s: "time w2 + POLL_SLEEP \<le> time ?w" using assms by (simp add: clock_ok_def POLL_SLEEP_def)
    then have "turns_left POLL_SLEEP deadline (time ?w) < turns_left POLL_SLEEP deadline (time w)"
      using False t by (intro turns_left_decreases) (auto simp: POLL_SLEEP_def)
    from less [OF this] obtain w' code' where "wait_until ops deadline ?w = Some (w', code')" "time ?w \<le> time w'" by blast
    moreover have "wait_until ops deadline w = wait_until ops deadline ?w"
      using p c False by (subst wait_until.simps) simp
    ultimately show ?thesis using s t by (auto simp: POLL_SLEEP_def)
  qed
qed

lemma wait_bounded_ends:
  assumes "clock_ok time ops"
  shows "\<exists>w' code. wait_bounded ops timeout w = Some (w', code)"
  using wait_until_ends [OF assms] by (auto simp: wait_bounded_def split: prod.split) blast

text \<open>
  Stopping is bounded. Whatever the child does with its signals, and if it ignores them all,
  \<open>stop_process\<close> returns.
\<close>
theorem stopping_is_bounded:
  assumes "clock_ok time ops"
  shows "\<exists>w' code. stop_process ops sig timeout kill_timeout w = Some (w', code)"
  using wait_bounded_ends [OF assms] unfolding stop_process_def
  by (auto split: prod.split option.split) (metis option.distinct(1))+

text \<open>What the probe of a freshly spawned Arco relies on: pyarco's calls take time too.\<close>

definition arco_ok :: "('w \<Rightarrow> rat) \<Rightarrow> 'w arco_ops \<Rightarrow> bool" where
  "arco_ok time ar \<longleftrightarrow>
     (\<forall>w. time w \<le> time (ar_clear_zero ar w)) \<and> (\<forall>w. time w \<le> time (ar_reset ar w)) \<and> (\<forall>w. time w \<le> time (ar_poll ar w))
     \<and> (\<forall>w r. time w \<le> time (fst (ar_initialize ar r w)))"

lemma reset_loop_ends:
  assumes c: "clock_ok time ops" and a: "arco_ok time ar"
  shows "\<exists>w' ans. reset_loop ops ar deadline w = Some (w', ans) \<and> time w \<le> time w' \<and> (ans = Probe_Ready \<longrightarrow> ar_zero ar w')"
proof (induction "turns_left (1 / 100) deadline (time w)" arbitrary: w rule: less_induct)
  case less
  let ?w1 = "ar_poll ar w"
  obtain w2 now where cl: "co_clock ops ?w1 = (w2, now)" by (rule prod.exhaust)
  have t0: "time w \<le> time ?w1" using a by (simp add: arco_ok_def)
  have t: "time ?w1 \<le> now" "now \<le> time w2"
    using c cl unfolding clock_ok_def by (metis fst_conv snd_conv)+
  show ?case
  proof (cases "ar_zero ar ?w1 \<or> deadline \<le> now")
    case True
    then show ?thesis using cl t0 t by (subst reset_loop.simps) (auto simp: Let_def)
  next
    case False
    let ?w = "co_sleep ops (1 / 100) w2"
    have s: "time w2 + 1 / 100 \<le> time ?w" using c by (simp add: clock_ok_def)
    then have "turns_left (1 / 100) deadline (time ?w) < turns_left (1 / 100) deadline (time w)"
      using False t0 t by (intro turns_left_decreases) auto
    from less [OF this] obtain w' ans where
      r: "reset_loop ops ar deadline ?w = Some (w', ans)" "time ?w \<le> time w'" "ans = Probe_Ready \<longrightarrow> ar_zero ar w'" by blast
    have "reset_loop ops ar deadline w = reset_loop ops ar deadline ?w"
      using cl False by (subst reset_loop.simps) (simp add: Let_def)
    then show ?thesis using r s t0 t by auto
  qed
qed

lemma probe_engine_ends:
  assumes c: "clock_ok time ops" and a: "arco_ok time ar"
  shows "\<exists>w' ans. probe_engine ops ar remaining w = Some (w', ans) \<and> time w \<le> time w' \<and> (ans = Probe_Ready \<longrightarrow> ar_zero ar w')"
proof (cases "ar_synced ar w \<and> \<not> ar_zero ar w")
  case True
  let ?w = "ar_reset ar (ar_clear_zero ar w)"
  obtain w1 now where cl: "co_clock ops ?w = (w1, now)" by (rule prod.exhaust)
  have "time w \<le> time ?w" using a unfolding arco_ok_def by (meson order_trans)
  moreover have "time ?w \<le> time w1" using c cl unfolding clock_ok_def by (metis fst_conv order_trans snd_conv)
  ultimately show ?thesis
    using reset_loop_ends [OF c a, of "now + remaining" w1] True cl by (auto simp: probe_engine_def recover_reset_def)
next
  case False
  obtain w1 ok where i: "ar_initialize ar (max remaining 1) w = (w1, ok)" by (rule prod.exhaust)
  have "time w \<le> time w1" using a i unfolding arco_ok_def by (metis fst_conv)
  then show ?thesis using False i by (cases ok) (auto simp: probe_engine_def)
qed

text \<open>The readiness wait with the probe the boot uses.\<close>

definition wait_arco :: "'w child_ops \<Rightarrow> 'w arco_ops \<Rightarrow> rat \<Rightarrow> 'w \<Rightarrow> ('w \<times> ready_result) option" where
  "wait_arco ops ar = wait_ready ops (\<lambda>remaining w. the (probe_engine ops ar remaining w))"

lemma ready_loop_ends:
  assumes c: "clock_ok time ops"
    and p: "\<And>r w. time w \<le> time (fst (probe r w))" "\<And>r w. snd (probe r w) = Probe_Ready \<Longrightarrow> good (fst (probe r w))"
  shows "\<exists>w' res. ready_loop ops probe deadline stage w = Some (w', res) \<and> (res = Ready \<longrightarrow> good w')"
proof (induction "turns_left (1 / 5) deadline (time w)" arbitrary: w stage rule: less_induct)
  case less
  obtain w1 now where c1: "co_clock ops w = (w1, now)" by (rule prod.exhaust)
  obtain w2 code where po: "co_poll ops w1 = (w2, code)" by (rule prod.exhaust)
  obtain w3 now' where c2: "co_clock ops w2 = (w3, now')" by (rule prod.exhaust)
  obtain w4 ans where pr: "probe (deadline - now') w3 = (w4, ans)" by (rule prod.exhaust)
  have t: "time w \<le> now" "now \<le> time w1" "time w1 \<le> time w2" "time w2 \<le> now'" "now' \<le> time w3" "time w3 \<le> time w4"
    using c p(1) [of w3 "deadline - now'"] c1 po c2 pr unfolding clock_ok_def by (metis fst_conv snd_conv)+
  show ?case
  proof (cases "now < deadline \<and> code = None \<and> ans \<noteq> Probe_Ready")
    case True
    let ?w = "co_sleep ops (1 / 5) w4"
    let ?stage = "case ans of Probe_Stage st \<Rightarrow> Some st | _ \<Rightarrow> stage"
    have s: "time w4 + 1 / 5 \<le> time ?w" using c by (simp add: clock_ok_def)
    then have "turns_left (1 / 5) deadline (time ?w) < turns_left (1 / 5) deadline (time w)"
      using True t by (intro turns_left_decreases) auto
    from less [OF this, of ?stage] obtain w' res where
      "ready_loop ops probe deadline ?stage ?w = Some (w', res)" "res = Ready \<longrightarrow> good w'" by blast
    moreover have "ready_loop ops probe deadline stage w = ready_loop ops probe deadline ?stage ?w"
      using c1 po c2 pr True by (subst ready_loop.simps) (cases ans; simp)
    ultimately show ?thesis by simp
  next
    case False
    have "good w4" if "ans = Probe_Ready" using p(2) [of "deadline - now'" w3] pr that by simp
    with False show ?thesis
      using c1 po c2 pr by (subst ready_loop.simps) (cases code; auto)
  qed
qed

text \<open>
  C21: Waiting for Arco ends, and never with a false ready. Whatever Arco does, the wait returns; and when it
  says that Arco is ready, the engine's reset has completed.
\<close>
theorem no_false_ready:
  assumes "clock_ok time ops" and "arco_ok time ar"
  shows "\<exists>w' res. wait_arco ops ar timeout w = Some (w', res) \<and> (res = Ready \<longrightarrow> ar_zero ar w')"
proof -
  have p: "time w \<le> time (fst (the (probe_engine ops ar r w)))"
    "snd (the (probe_engine ops ar r w)) = Probe_Ready \<Longrightarrow> ar_zero ar (fst (the (probe_engine ops ar r w)))" for r w
    using probe_engine_ends [OF assms, of r w] by auto
  show ?thesis
    using ready_loop_ends [OF assms(1), where good = "ar_zero ar", OF p]
    by (simp add: wait_arco_def wait_ready_def split: prod.split)
qed

subsection \<open>Examples\<close>

text \<open>A child that dies a while after \<open>SIGKILL\<close> and ignores every other signal, on a clock of its own.\<close>

record stubborn =
  sb_now :: rat
  sb_dies_at :: "rat option"

definition stubborn_ops :: "stubborn child_ops" where
  "stubborn_ops =
     \<lparr>co_poll = (\<lambda>w. (w, case sb_dies_at w of Some d \<Rightarrow> if d \<le> sb_now w then Some (-9) else None | None \<Rightarrow> None)),
      co_signal = (\<lambda>s w. if s = SIGKILL then w\<lparr>sb_dies_at := Some (sb_now w + 1 / 30)\<rparr> else w),
      co_clock = (\<lambda>w. (w, sb_now w)),
      co_sleep = (\<lambda>d w. w\<lparr>sb_now := sb_now w + d\<rparr>)\<rparr>"

definition stubborn_arco :: "stubborn arco_ops" where
  "stubborn_arco =
     \<lparr>ar_synced = (\<lambda>w. 1 \<le> sb_now w), ar_zero = (\<lambda>w. 2 \<le> sb_now w), ar_clear_zero = id, ar_reset = id, ar_poll = id,
      ar_initialize = (\<lambda>r w. (w\<lparr>sb_now := sb_now w + max r 0\<rparr>, False))\<rparr>"

lemma stubborn_clock: "clock_ok sb_now stubborn_ops"
  by (simp add: clock_ok_def stubborn_ops_def)

lemma stopping_is_bounded_witness:
  "\<exists>w' code. stop_process stubborn_ops SIGTERM 5 5 \<lparr>sb_now = 0, sb_dies_at = None\<rparr> = Some (w', code)"
  by (rule stopping_is_bounded [OF stubborn_clock])

lemma no_false_ready_witness:
  "\<exists>w' res. wait_arco stubborn_ops stubborn_arco 15 \<lparr>sb_now = 0, sb_dies_at = None\<rparr> = Some (w', res)
     \<and> (res = Ready \<longrightarrow> 2 \<le> sb_now w')"
proof -
  have "arco_ok sb_now stubborn_arco" by (simp add: arco_ok_def stubborn_arco_def)
  from no_false_ready [OF stubborn_clock this, of 15] show ?thesis by (simp add: stubborn_arco_def)
qed

end
