(* ===== verification/Artnet_Sink.thy ===== *)
theory Artnet_Sink
  imports Timed_Queue Pixel_Wire Rooms
begin

section \<open>Frames over Art-Net\<close>

text \<open>
  \<open>src/devicelink/artnet_sink.py\<close>. The backend, luxaeterna's power limiter and its split of a frame into
  universes are parameters that act on a world; what was handed to the backend is recorded in the sink.
  \<open>send_frame\<close> runs on the engine tick and touches only the queue; \<open>_service_once\<close> runs on the sender
  thread, takes what is due under the lock and does everything else alone, so an interleaving of the two
  threads is a sequence of these operations. \<open>_run\<close>'s waiting is the choice of the moments at which
  the sink is serviced.
\<close>

definition ARTNET_CHANNELS_PER_PIXEL :: nat where "ARTNET_CHANNELS_PER_PIXEL = 4"

subsection \<open>The sink\<close>

record 'w artnet_ops =
  ao_open :: "'w \<Rightarrow> 'w \<times> bool"
  ao_limit :: "byte list \<Rightarrow> 'w \<Rightarrow> 'w \<times> byte list option"
  ao_universes :: "byte list \<Rightarrow> (nat \<times> byte list) list"
  ao_send :: "nat \<Rightarrow> byte list \<Rightarrow> 'w \<Rightarrow> 'w \<times> bool"
  ao_close :: "'w \<Rightarrow> 'w \<times> bool"

text \<open>\<open>sk_running\<close>: whether a sender thread was started; \<open>sk_wire\<close> is what the backend was given to send.\<close>

record 'w sink =
  sk_width :: nat
  sk_lead :: rat
  sk_keepalive :: rat
  sk_queue :: "byte list tqueue"
  sk_stop :: bool
  sk_running :: bool
  sk_opened :: bool
  sk_last :: "(byte list \<times> rat) option"
  sk_warned_width :: bool
  sk_first_ok :: bool
  sk_frames_sent :: nat
  sk_keepalives :: nat
  sk_send_errors :: nat
  sk_wire :: "(nat \<times> byte list) list"
  sk_world :: 'w

definition new_sink :: "nat \<Rightarrow> rat \<Rightarrow> rat \<Rightarrow> 'w \<Rightarrow> 'w sink" where
  "new_sink pixel_count lead keepalive w =
     \<lparr>sk_width = pixel_count * ARTNET_CHANNELS_PER_PIXEL, sk_lead = lead, sk_keepalive = keepalive, sk_queue = new_tqueue,
      sk_stop = False, sk_running = False, sk_opened = False, sk_last = None, sk_warned_width = False,
      sk_first_ok = False, sk_frames_sent = 0, sk_keepalives = 0, sk_send_errors = 0, sk_wire = [], sk_world = w\<rparr>"

text \<open>
  \<open>send_frame\<close> on the tick: \<open>when\<close> may be no number, and the clock may raise; both drop the frame, as a
  frame of another width does.
\<close>

definition send_frame :: "byte list \<Rightarrow> pyfloat option \<Rightarrow> rat option \<Rightarrow> 'w sink \<Rightarrow> 'w sink" where
  "send_frame frame when now s =
     (if length frame \<noteq> sk_width s then s\<lparr>sk_warned_width := True\<rparr>
      else case (when, now) of
             (Some t, Some n) \<Rightarrow> s\<lparr>sk_queue := tq_push (Some (fsub t (Fin (sk_lead s)))) frame n (sk_queue s)\<rparr>
           | _ \<Rightarrow> s)"

definition sink_start :: "'w sink \<Rightarrow> 'w sink" where
  "sink_start s = (if sk_running s then s else s\<lparr>sk_stop := False, sk_running := True\<rparr>)"

text \<open>The packets of one frame, one after the other; the first that fails ends it.\<close>

fun send_universes :: "'w artnet_ops \<Rightarrow> (nat \<times> byte list) list \<Rightarrow> 'w sink \<Rightarrow> 'w sink \<times> bool" where
  "send_universes ops [] s = (s, True)"
| "send_universes ops ((uid, data) # rest) s =
     (case ao_send ops uid data (sk_world s) of
        (w, ok) \<Rightarrow>
          (let s' = s\<lparr>sk_world := w, sk_wire := sk_wire s @ [(uid, data)]\<rparr>
           in if ok then send_universes ops rest s' else (s', False)))"

definition open_backend :: "'w artnet_ops \<Rightarrow> 'w sink \<Rightarrow> 'w sink \<times> bool" where
  "open_backend ops s =
     (if sk_opened s then (s, True)
      else case ao_open ops (sk_world s) of (w, ok) \<Rightarrow> (s\<lparr>sk_world := w, sk_opened := ok\<rparr>, ok))"

definition transmit :: "'w artnet_ops \<Rightarrow> byte list \<Rightarrow> 'w sink \<Rightarrow> 'w sink \<times> bool" where
  "transmit ops frame s =
     (case open_backend ops s of
        (s1, False) \<Rightarrow> (s1, False)
      | (s1, True) \<Rightarrow>
          (case ao_limit ops frame (sk_world s1) of
             (w, None) \<Rightarrow> (s1\<lparr>sk_world := w\<rparr>, False)
           | (w, Some limited) \<Rightarrow> send_universes ops (ao_universes ops limited) (s1\<lparr>sk_world := w\<rparr>)))"

definition sink_send :: "'w artnet_ops \<Rightarrow> byte list \<Rightarrow> 'w sink \<Rightarrow> 'w sink \<times> bool" where
  "sink_send ops frame s =
     (case transmit ops frame s of
        (s1, True) \<Rightarrow> (s1\<lparr>sk_first_ok := True\<rparr>, True)
      | (s1, False) \<Rightarrow> (s1\<lparr>sk_send_errors := Suc (sk_send_errors s1)\<rparr>, False))"

text \<open>What \<open>_service_once\<close> picks: the newest frame that is due, or the last one again.\<close>

definition pick_frame :: "rat \<Rightarrow> byte list list \<Rightarrow> 'w sink \<Rightarrow> (byte list \<times> bool) option" where
  "pick_frame now due s =
     (if due \<noteq> [] then Some (last due, False)
      else case sk_last s of
             Some (frame, sent_at) \<Rightarrow> if sk_keepalive s \<le> now - sent_at then Some (frame, True) else None
           | None \<Rightarrow> None)"

definition next_wake :: "rat \<Rightarrow> pyfloat option \<Rightarrow> 'w sink \<Rightarrow> pyfloat" where
  "next_wake now pending s =
     (let next_keepalive = Fin (sk_keepalive s + (case sk_last s of None \<Rightarrow> now | Some (_, sent_at) \<Rightarrow> sent_at))
      in case pending of None \<Rightarrow> next_keepalive | Some p \<Rightarrow> fmin p next_keepalive)"

definition service_once :: "'w artnet_ops \<Rightarrow> rat \<Rightarrow> 'w sink \<Rightarrow> 'w sink \<times> pyfloat" where
  "service_once ops now s =
     (case tq_due now (sk_queue s) of
        (due, q) \<Rightarrow>
          (let s0 = s\<lparr>sk_queue := q\<rparr>;
               s2 = (case pick_frame now due s0 of
                       None \<Rightarrow> s0
                     | Some (frame, keepalive) \<Rightarrow>
                         (case sink_send ops frame s0 of
                            (s1, ok) \<Rightarrow>
                              s1\<lparr>sk_last := Some (frame, now),
                                 sk_keepalives := sk_keepalives s1 + (if ok \<and> keepalive then 1 else 0),
                                 sk_frames_sent := sk_frames_sent s1 + (if ok \<and> \<not> keepalive then 1 else 0)\<rparr>))
           in (s2, next_wake now (tq_next_due q) s2)))"

text \<open>\<open>close\<close>; \<open>stuck\<close>: the sender thread outlives the join.\<close>

definition sink_close :: "'w artnet_ops \<Rightarrow> bool \<Rightarrow> 'w sink \<Rightarrow> 'w sink" where
  "sink_close ops stuck s =
     (let s1 = s\<lparr>sk_stop := True, sk_running := False\<rparr>;
          s2 = (if sk_running s \<and> stuck then s1 else fst (sink_send ops (replicate (sk_width s) 0) s1))
      in s2\<lparr>sk_world := fst (ao_close ops (sk_world s2)), sk_opened := False\<rparr>)"

subsection \<open>The outputs of a Room\<close>

record artnet_output =
  an_room :: string
  an_fixture :: string
  an_host :: string
  an_max_amps :: pyfloat
  an_start_universe :: int
  an_port :: int
  an_amps_per_pixel_full :: pyfloat
  an_lead_ms :: pyfloat
  an_keepalive_ms :: pyfloat
  an_psu :: "string option"

text \<open>What a sink is built from: its name, pixel count, first universe, power budget, address and timing.\<close>

record sink_spec =
  ss_name :: string
  ss_pixel_count :: int
  ss_start_universe :: int
  ss_max_amps :: pyfloat
  ss_amps_per_pixel_full :: pyfloat
  ss_address :: "string \<times> int"
  ss_lead :: pyfloat
  ss_keepalive :: pyfloat

definition find_room_fixture :: "string \<Rightarrow> room_profile \<Rightarrow> room_fixture option" where
  "find_room_fixture name p = List.find (\<lambda>f. x_name f = name) (p_fixtures p)"

definition spec_of :: "artnet_output \<Rightarrow> room_fixture \<Rightarrow> sink_spec" where
  "spec_of o1 f =
     \<lparr>ss_name = an_room o1 @ ''-'' @ an_fixture o1, ss_pixel_count = fixture_pixels f, ss_start_universe = an_start_universe o1,
      ss_max_amps = an_max_amps o1, ss_amps_per_pixel_full = an_amps_per_pixel_full o1, ss_address = (an_host o1, an_port o1),
      ss_lead = fdiv (an_lead_ms o1) (Fin 1000), ss_keepalive = fdiv (an_keepalive_ms o1) (Fin 1000)\<rparr>"

definition add_output :: "string \<Rightarrow> room_profile \<Rightarrow> (string, sink_spec list) dict \<Rightarrow> artnet_output \<Rightarrow> (string, sink_spec list) dict" where
  "add_output room p built o1 =
     (if an_room o1 \<noteq> room then built
      else case find_room_fixture (an_fixture o1) p of
             None \<Rightarrow> built
           | Some f \<Rightarrow> dset (an_fixture o1) ((case dget built (an_fixture o1) of None \<Rightarrow> [] | Some l \<Rightarrow> l) @ [spec_of o1 f]) built)"

definition outputs_for :: "artnet_output list \<Rightarrow> string \<Rightarrow> room_profile \<Rightarrow> (string, sink_spec list) dict" where
  "outputs_for outs room p = foldl (add_output room p) [] outs"

subsection \<open>What the sink does over a run\<close>

text \<open>Every operation of a sink, with what the environment answers; a run is any sequence of them.\<close>

datatype sink_call =
    Send_Frame "byte list" "pyfloat option" "rat option" | Service rat | Start_Sink | Close_Sink bool

fun sink_step :: "'w artnet_ops \<Rightarrow> 'w sink \<Rightarrow> sink_call \<Rightarrow> 'w sink" where
  "sink_step ops s (Send_Frame frame when now) = send_frame frame when now s"
| "sink_step ops s (Service now) = fst (service_once ops now s)"
| "sink_step ops s Start_Sink = sink_start s"
| "sink_step ops s (Close_Sink stuck) = sink_close ops stuck s"

text \<open>A packet that the limiter let through: it belongs to a frame of the sink's width, limited.\<close>

definition limited_packet :: "'w artnet_ops \<Rightarrow> nat \<Rightarrow> nat \<times> byte list \<Rightarrow> bool" where
  "limited_packet ops width packet \<longleftrightarrow>
     (\<exists>frame w limited. length frame = width \<and> snd (ao_limit ops frame w) = Some limited \<and> packet \<in> set (ao_universes ops limited))"

definition sink_ok :: "'w artnet_ops \<Rightarrow> nat \<Rightarrow> 'w sink \<Rightarrow> bool" where
  "sink_ok ops width s \<longleftrightarrow>
     sk_width s = width
     \<and> (\<forall>f \<in> snd ` snd ` set (tq_items (sk_queue s)). length f = width)
     \<and> (\<forall>f t. sk_last s = Some (f, t) \<longrightarrow> length f = width)
     \<and> (\<forall>p \<in> set (sk_wire s). limited_packet ops width p)"

lemma send_universes_frame:
  assumes "send_universes ops us s = (s', ok)"
  shows "sk_width s' = sk_width s \<and> sk_queue s' = sk_queue s \<and> sk_last s' = sk_last s \<and> sk_keepalive s' = sk_keepalive s
    \<and> sk_running s' = sk_running s
    \<and> (\<exists>n. sk_wire s' = sk_wire s @ take n us \<and> (ok \<longrightarrow> n = length us))"
  using assms
proof (induction us arbitrary: s)
  case Nil
  then show ?case by simp
next
  case (Cons u us)
  obtain uid data where u: "u = (uid, data)" by fastforce
  obtain w b where a: "ao_send ops uid data (sk_world s) = (w, b)" by fastforce
  let ?s = "s\<lparr>sk_world := w, sk_wire := sk_wire s @ [(uid, data)]\<rparr>"
  show ?case
  proof (cases b)
    case True
    then have "send_universes ops us ?s = (s', ok)" using Cons.prems u a by (simp add: Let_def)
    from Cons.IH [OF this] obtain n where "sk_wire s' = sk_wire ?s @ take n us" "ok \<longrightarrow> n = length us"
      "sk_width s' = sk_width s \<and> sk_queue s' = sk_queue s \<and> sk_last s' = sk_last s \<and> sk_keepalive s' = sk_keepalive s \<and> sk_running s' = sk_running s"
      by auto
    then show ?thesis using u by (auto intro!: exI [of _ "Suc n"])
  next
    case False
    then show ?thesis using Cons.prems u a by (auto simp: Let_def intro!: exI [of _ 1])
  qed
qed

lemma sink_send_frame:
  assumes "sink_send ops frame s = (s', ok)"
  shows "sk_width s' = sk_width s \<and> sk_queue s' = sk_queue s \<and> sk_last s' = sk_last s \<and> sk_keepalive s' = sk_keepalive s
    \<and> sk_running s' = sk_running s
    \<and> (\<exists>w n limited. sk_wire s' = sk_wire s @ take n (ao_universes ops limited)
         \<and> (n \<noteq> 0 \<or> ok \<longrightarrow> snd (ao_limit ops frame w) = Some limited) \<and> (ok \<longrightarrow> n = length (ao_universes ops limited)))"
proof -
  obtain s1 b where o: "open_backend ops s = (s1, b)" by fastforce
  then have s1: "sk_width s1 = sk_width s \<and> sk_queue s1 = sk_queue s \<and> sk_last s1 = sk_last s \<and> sk_keepalive s1 = sk_keepalive s
      \<and> sk_running s1 = sk_running s \<and> sk_wire s1 = sk_wire s"
    by (auto simp: open_backend_def split: if_splits prod.splits)
  obtain w l where l: "ao_limit ops frame (sk_world s1) = (w, l)" by fastforce
  obtain s2 b2 where u: "send_universes ops (ao_universes ops (the l)) (s1\<lparr>sk_world := w\<rparr>) = (s2, b2)" by fastforce
  show ?thesis
  proof (cases "b \<and> l \<noteq> None")
    case True
    then obtain lim where lim: "l = Some lim" by auto
    have s': "s' = (if b2 then s2\<lparr>sk_first_ok := True\<rparr> else s2\<lparr>sk_send_errors := Suc (sk_send_errors s2)\<rparr>)" "ok = b2"
      using assms o l u True lim by (auto simp: sink_send_def transmit_def split: bool.splits)
    from send_universes_frame [OF u] obtain n where
      n: "sk_wire s2 = sk_wire s @ take n (ao_universes ops lim)" "b2 \<longrightarrow> n = length (ao_universes ops lim)"
      using s1 lim by auto
    have "snd (ao_limit ops frame (sk_world s1)) = Some lim" using l lim by simp
    moreover have "sk_wire s' = sk_wire s2" using s' by simp
    ultimately have "\<exists>w n limited. sk_wire s' = sk_wire s @ take n (ao_universes ops limited)
        \<and> (n \<noteq> 0 \<or> ok \<longrightarrow> snd (ao_limit ops frame w) = Some limited) \<and> (ok \<longrightarrow> n = length (ao_universes ops limited))"
      using n s'(2) by metis
    then show ?thesis using s'(1) send_universes_frame [OF u] s1 by (cases b2) auto
  next
    case False
    then have "s' = s1\<lparr>sk_send_errors := Suc (sk_send_errors s1)\<rparr> \<or> s' = s1\<lparr>sk_world := w, sk_send_errors := Suc (sk_send_errors s1)\<rparr>" "\<not> ok"
      using assms o l by (auto simp: sink_send_def transmit_def split: bool.splits)
    with s1 show ?thesis by (auto intro!: exI [of _ "0::nat"])
  qed
qed

lemma sink_send_ok:
  assumes "sink_ok ops width s" and "length frame = width" and "sink_send ops frame s = (s', ok)"
  shows "sink_ok ops width s'"
proof -
  from sink_send_frame [OF assms(3)] obtain w n limited where
    e: "sk_width s' = sk_width s" "sk_queue s' = sk_queue s" "sk_last s' = sk_last s"
      "sk_wire s' = sk_wire s @ take n (ao_universes ops limited)" "n \<noteq> 0 \<longrightarrow> snd (ao_limit ops frame w) = Some limited"
    by blast
  have "limited_packet ops width p" if "p \<in> set (take n (ao_universes ops limited))" for p
    using that e(5) assms(2) in_set_takeD [OF that] unfolding limited_packet_def by (cases "n = 0") auto
  with assms(1) e show ?thesis by (auto simp: sink_ok_def)
qed

lemma due_keeps_items: "tq_due now q = (due, q') \<Longrightarrow> set (tq_items q') \<subseteq> set (tq_items q)"
  by (auto simp: tq_due_def Let_def split: if_splits)

lemma due_are_items: "tq_due now q = (due, q') \<Longrightarrow> set due \<subseteq> snd ` snd ` {i \<in> set (tq_items q). is_due now i}"
  by (auto simp: tq_due_def Let_def image_comp split: if_splits)

lemma sink_service_ok: "sink_ok ops width s \<Longrightarrow> sink_ok ops width (fst (service_once ops now s))"
proof -
  assume ok: "sink_ok ops width s"
  obtain due q where d: "tq_due now (sk_queue s) = (due, q)" by fastforce
  let ?s0 = "s\<lparr>sk_queue := q\<rparr>"
  have s0: "sink_ok ops width ?s0" using ok due_keeps_items [OF d] by (auto simp: sink_ok_def)
  show ?thesis
  proof (cases "pick_frame now due ?s0")
    case None
    then show ?thesis using s0 d by (simp add: service_once_def Let_def)
  next
    case (Some x)
    then obtain frame k where x: "pick_frame now due ?s0 = Some (frame, k)" by (cases x) auto
    have len: "length frame = width"
    proof (cases "due = []")
      case True
      then show ?thesis using x s0 by (auto simp: pick_frame_def sink_ok_def split: option.splits if_splits)
    next
      case False
      then have "frame \<in> set due" using x by (auto simp: pick_frame_def)
      then show ?thesis using due_are_items [OF d] ok by (auto simp: sink_ok_def)
    qed
    obtain s1 b where snd: "sink_send ops frame ?s0 = (s1, b)" by fastforce
    from sink_send_ok [OF s0 len snd] show ?thesis
      using d x snd len by (simp add: service_once_def Let_def sink_ok_def)
  qed
qed

lemma sink_step_ok: "sink_ok ops width s \<Longrightarrow> sink_ok ops width (sink_step ops s c)"
proof (cases c)
  case (Send_Frame frame stamp now)
  assume "sink_ok ops width s"
  then show ?thesis
    unfolding Send_Frame by (auto simp: send_frame_def sink_ok_def tq_push_def Let_def split: option.splits)
next
  case (Service now)
  assume "sink_ok ops width s"
  then show ?thesis unfolding Service by (simp add: sink_service_ok)
next
  case Start_Sink
  assume "sink_ok ops width s"
  then show ?thesis unfolding Start_Sink by (simp add: sink_start_def sink_ok_def)
next
  case (Close_Sink stuck)
  assume ok: "sink_ok ops width s"
  let ?s1 = "s\<lparr>sk_stop := True, sk_running := False\<rparr>"
  have s1: "sink_ok ops width ?s1" "length (replicate (sk_width s) (0 :: byte)) = width" using ok by (simp_all add: sink_ok_def)
  obtain s2 b where "sink_send ops (replicate (sk_width s) 0) ?s1 = (s2, b)" by fastforce
  with sink_send_ok [OF s1 this] s1 show ?thesis unfolding Close_Sink by (auto simp: sink_close_def Let_def sink_ok_def)
qed

interpretation artnet: machine "sink_step ops" "sink_ok ops width" for ops width
  by unfold_locales (rule sink_step_ok)

text \<open>
  Power limiting has no way around it. Whatever frames, times and failures a sink sees, every packet its
  backend is given belongs to a frame of the sink's width that passed the power limiter, keepalives and the
  closing frame included.
\<close>
theorem every_packet_is_limited:
  "\<forall>packet \<in> set (sk_wire (foldl (sink_step ops) (new_sink n lead keepalive w) calls)). limited_packet ops (n * 4) packet"
proof -
  have "sink_ok ops (n * 4) (new_sink n lead keepalive w)"
    by (simp add: sink_ok_def new_sink_def new_tqueue_def ARTNET_CHANNELS_PER_PIXEL_def)
  from artnet.inv_run [OF this] show ?thesis by (simp add: sink_ok_def)
qed

lemma sorted_last: "sorted xs \<Longrightarrow> x \<in> set xs \<Longrightarrow> x \<le> last xs"
  by (induction xs) auto

text \<open>What a service leaves as the last frame.\<close>

lemma service_last:
  assumes "service_once ops now s = (s', wake)" and "tq_due now (sk_queue s) = (due, q)"
  shows "sk_last s' = (case pick_frame now due s of None \<Rightarrow> sk_last s | Some (frame, _) \<Rightarrow> Some (frame, now))"
    "sk_keepalive s' = sk_keepalive s" "wake = next_wake now (tq_next_due q) s'"
proof -
  have p: "pick_frame now due (s\<lparr>sk_queue := q\<rparr>) = pick_frame now due s" by (simp add: pick_frame_def split: option.split)
  have "sk_last s' = (case pick_frame now due s of None \<Rightarrow> sk_last s | Some (frame, _) \<Rightarrow> Some (frame, now))
      \<and> sk_keepalive s' = sk_keepalive s \<and> wake = next_wake now (tq_next_due q) s'"
  proof (cases "pick_frame now due s")
    case None
    then show ?thesis using assms by (auto simp: service_once_def Let_def p)
  next
    case (Some x)
    obtain frame k where x: "x = (frame, k)" by fastforce
    obtain s1 b where snd: "sink_send ops frame (s\<lparr>sk_queue := q\<rparr>) = (s1, b)" by fastforce
    show ?thesis using assms Some x snd sink_send_frame [OF snd] by (auto simp: service_once_def Let_def p)
  qed
  then show "sk_last s' = (case pick_frame now due s of None \<Rightarrow> sk_last s | Some (frame, _) \<Rightarrow> Some (frame, now))"
    "sk_keepalive s' = sk_keepalive s" "wake = next_wake now (tq_next_due q) s'" by blast+
qed

text \<open>
  The newest frame that is due wins. However many frames have become due since the last service, the one
  that is sent is the one with the latest release time, and of several with the same the one pushed last; the
  others are gone, so a stall builds no backlog.
\<close>
theorem newest_due_frame_wins:
  assumes "service_once ops now s = (s', wake)" and "\<exists>i \<in> set (tq_items (sk_queue s)). is_due now i"
  shows "\<exists>i \<in> set (tq_items (sk_queue s)). is_due now i \<and> sk_last s' = Some (snd (snd i), now)
    \<and> (\<forall>j \<in> set (tq_items (sk_queue s)). is_due now j \<longrightarrow> item_order j \<le> item_order i)"
proof -
  let ?ready = "filter (is_due now) (tq_items (sk_queue s))"
  let ?sorted = "sort_key item_order ?ready"
  have ne: "?ready \<noteq> []" using assms(2) by (auto simp: filter_empty_conv)
  then have sne: "?sorted \<noteq> []" by (metis set_empty set_sort)
  obtain due q where d: "tq_due now (sk_queue s) = (due, q)" by fastforce
  then have due: "due = map (snd \<circ> snd) ?sorted" using ne by (simp add: tq_due_def Let_def)
  let ?i = "last ?sorted"
  have i: "?i \<in> set ?ready" using last_in_set [OF sne] by simp
  have "item_order j \<le> item_order ?i" if "j \<in> set ?ready" for j
  proof -
    have "item_order j \<in> set (map item_order ?sorted)" using that by auto
    from sorted_last [OF sorted_sort_key this] have "item_order j \<le> last (map item_order ?sorted)" .
    then show ?thesis using sne by (simp add: last_map)
  qed
  moreover have "sk_last s' = Some (snd (snd ?i), now)"
    using service_last(1) [OF assms(1) d] sne by (simp add: due pick_frame_def last_map)
  ultimately show ?thesis using i by auto
qed

text \<open>
  What one \<open>_send\<close> counts and hands over: a send that succeeds gave the backend every universe of the limited
  frame and counts no error; one that fails counts exactly one.
\<close>
lemma send_universes_counts:
  "send_universes ops us s = (s', ok) \<Longrightarrow>
   sk_frames_sent s' = sk_frames_sent s \<and> sk_keepalives s' = sk_keepalives s \<and> sk_send_errors s' = sk_send_errors s"
  by (induction us arbitrary: s) (auto simp: Let_def split: prod.splits if_splits)

lemma transmit_counts:
  "transmit ops frame s = (s', ok) \<Longrightarrow>
   sk_frames_sent s' = sk_frames_sent s \<and> sk_keepalives s' = sk_keepalives s \<and> sk_send_errors s' = sk_send_errors s"
  by (auto simp: transmit_def open_backend_def dest!: send_universes_counts split: prod.splits bool.splits option.splits if_splits)

lemma sink_send_counts:
  assumes "sink_send ops frame s = (s', ok)"
  shows "sk_frames_sent s' = sk_frames_sent s \<and> sk_keepalives s' = sk_keepalives s
    \<and> sk_send_errors s' = sk_send_errors s + (if ok then 0 else 1)"
  using assms transmit_counts [of ops frame s]
  by (auto simp: sink_send_def split: prod.splits bool.splits)

text \<open>The send of \<open>frame\<close> between two sinks succeeded, or was tried and counted as failed.\<close>

definition sent_whole :: "'w artnet_ops \<Rightarrow> byte list \<Rightarrow> 'w sink \<Rightarrow> 'w sink \<Rightarrow> bool" where
  "sent_whole ops frame s s' \<longleftrightarrow>
     (\<exists>w limited. snd (ao_limit ops frame w) = Some limited \<and> sk_wire s' = sk_wire s @ ao_universes ops limited)
     \<and> sk_frames_sent s' + sk_keepalives s' = Suc (sk_frames_sent s + sk_keepalives s)
     \<and> sk_send_errors s' = sk_send_errors s"

definition send_failed :: "'w sink \<Rightarrow> 'w sink \<Rightarrow> bool" where
  "send_failed s s' \<longleftrightarrow>
     sk_send_errors s' = Suc (sk_send_errors s)
     \<and> sk_frames_sent s' = sk_frames_sent s \<and> sk_keepalives s' = sk_keepalives s"

definition sent_nothing :: "'w sink \<Rightarrow> 'w sink \<Rightarrow> bool" where
  "sent_nothing s s' \<longleftrightarrow>
     sk_wire s' = sk_wire s \<and> sk_send_errors s' = sk_send_errors s
     \<and> sk_frames_sent s' = sk_frames_sent s \<and> sk_keepalives s' = sk_keepalives s"

lemma service_sends:
  assumes "service_once ops now s = (s', wake)" and "tq_due now (sk_queue s) = (due, q)"
  shows "case pick_frame now due s of
      None \<Rightarrow> sent_nothing s s'
    | Some (frame, _) \<Rightarrow> sent_whole ops frame s s' \<or> send_failed s s'"
proof -
  have p: "pick_frame now due (s\<lparr>sk_queue := q\<rparr>) = pick_frame now due s" by (simp add: pick_frame_def split: option.split)
  show ?thesis
  proof (cases "pick_frame now due s")
    case None
    then show ?thesis using assms by (auto simp: service_once_def Let_def p sent_nothing_def)
  next
    case (Some x)
    obtain frame k where x: "x = (frame, k)" by fastforce
    obtain s1 ok where snd: "sink_send ops frame (s\<lparr>sk_queue := q\<rparr>) = (s1, ok)" by fastforce
    have s': "s' = s1\<lparr>sk_last := Some (frame, now),
        sk_keepalives := sk_keepalives s1 + (if ok \<and> k then 1 else 0),
        sk_frames_sent := sk_frames_sent s1 + (if ok \<and> \<not> k then 1 else 0)\<rparr>"
      using assms Some x snd by (simp add: service_once_def Let_def p)
    obtain w n limited where wire: "sk_wire s1 = sk_wire s @ take n (ao_universes ops limited)"
      "ok \<longrightarrow> snd (ao_limit ops frame w) = Some limited" "ok \<longrightarrow> n = length (ao_universes ops limited)"
      using sink_send_frame [OF snd] by auto
    from sink_send_counts [OF snd] have counts: "sk_frames_sent s1 = sk_frames_sent s" "sk_keepalives s1 = sk_keepalives s"
      "sk_send_errors s1 = sk_send_errors s + (if ok then 0 else 1)" by simp_all
    have "sent_whole ops frame s s' \<or> send_failed s s'"
      using wire counts unfolding s' sent_whole_def send_failed_def by (cases ok) auto
    then show ?thesis by (simp add: Some x)
  qed
qed

text \<open>
  C24: A fed controller is never left for longer than the keepalive without an attempt. After a frame was sent, a
  service either sends one now (the newest that is due, or when none is due the last one again), and then
  every universe of the limited frame was handed to the backend and the send counted, or the send failed and
  exactly one error was counted; or it sends nothing at all and comes within the keepalive of the last send.
  The moment it asks to be woken at is no later than the keepalive after the last send.
\<close>
theorem keepalive_is_kept:
  assumes "service_once ops now s = (s', wake)" and "sk_last s = Some (frame, sent_at)"
  shows "\<exists>frame' sent_at'. sk_last s' = Some (frame', sent_at')
    \<and> (sent_at' = now \<and> (sent_whole ops frame' s s' \<or> send_failed s s')
        \<and> (if \<exists>i \<in> set (tq_items (sk_queue s)). is_due now i
            then \<exists>i \<in> set (tq_items (sk_queue s)). is_due now i \<and> frame' = snd (snd i)
                   \<and> (\<forall>j \<in> set (tq_items (sk_queue s)). is_due now j \<longrightarrow> item_order j \<le> item_order i)
            else frame' = frame)
      \<or> frame' = frame \<and> sent_at' = sent_at \<and> now < sent_at + sk_keepalive s \<and> sent_nothing s s')
    \<and> \<not> flt (Fin (sent_at' + sk_keepalive s)) wake"
proof -
  obtain due q where d: "tq_due now (sk_queue s) = (due, q)" by fastforce
  note l = service_last [OF assms(1) d] and sends = service_sends [OF assms(1) d]
  have due: "due = map (snd \<circ> snd) (sort_key item_order (filter (is_due now) (tq_items (sk_queue s))))"
    using d by (auto simp: tq_due_def Let_def split: if_splits)
  have wake: "\<not> flt (Fin (t + sk_keepalive s)) wake" if "sk_last s' = Some (f, t)" for f t
    unfolding l(3) next_wake_def using that l(2)
    by (auto simp: fmin_def flt_def add.commute Let_def split: option.splits if_splits)
  show ?thesis
  proof (cases "pick_frame now due s")
    case None
    then have "due = []" "now - sent_at < sk_keepalive s" using assms(2) by (auto simp: pick_frame_def split: if_splits)
    then show ?thesis using l(1) None assms(2) wake sends by auto
  next
    case (Some x)
    obtain f k where x: "x = (f, k)" by fastforce
    have last: "sk_last s' = Some (f, now)" using l(1) Some x by simp
    have "if \<exists>i \<in> set (tq_items (sk_queue s)). is_due now i
        then \<exists>i \<in> set (tq_items (sk_queue s)). is_due now i \<and> f = snd (snd i)
               \<and> (\<forall>j \<in> set (tq_items (sk_queue s)). is_due now j \<longrightarrow> item_order j \<le> item_order i)
        else f = frame"
    proof (cases "\<exists>i \<in> set (tq_items (sk_queue s)). is_due now i")
      case True
      from newest_due_frame_wins [OF assms(1) True] last show ?thesis using True by (auto intro: bexI)
    next
      case False
      then have "due = []" by (auto simp: due filter_empty_conv)
      then have "f = frame" using Some x assms(2) by (auto simp: pick_frame_def split: if_splits)
      with False show ?thesis by simp
    qed
    moreover have "sent_whole ops f s s' \<or> send_failed s s'" using sends Some x by simp
    ultimately show ?thesis using last wake [OF last] by blast
  qed
qed

subsection \<open>Examples\<close>

definition plain_backend :: "unit artnet_ops" where
  "plain_backend =
     \<lparr>ao_open = (\<lambda>w. (w, True)), ao_limit = (\<lambda>f w. (w, Some (map (\<lambda>b. drop_bit 1 b) f))),
      ao_universes = (\<lambda>f. [(0, f)]), ao_send = (\<lambda>u d w. (w, True)), ao_close = (\<lambda>w. (w, True))\<rparr>"

definition fed_sink :: "unit sink" where
  "fed_sink = send_frame [9, 9, 9, 9] (Some (Fin 2)) (Some 0)
     (send_frame [7, 7, 7, 7] (Some (Fin 1)) (Some 0) (new_sink 1 0 (1 / 4) ()))"

lemma newest_due_frame_wins_witness:
  "\<exists>i \<in> set (tq_items (sk_queue fed_sink)). is_due 3 i
     \<and> sk_last (fst (service_once plain_backend 3 fed_sink)) = Some (snd (snd i), 3)"
proof -
  obtain s' wake where s: "service_once plain_backend 3 fed_sink = (s', wake)" by fastforce
  have "\<exists>i \<in> set (tq_items (sk_queue fed_sink)). is_due 3 i"
    by (simp add: fed_sink_def send_frame_def new_sink_def ARTNET_CHANNELS_PER_PIXEL_def tq_push_def Let_def new_tqueue_def is_due_def
        release_time_def)
  from newest_due_frame_wins [OF s this] show ?thesis unfolding s by auto
qed

lemma keepalive_is_kept_witness:
  "let s = fed_sink\<lparr>sk_last := Some ([1, 1, 1, 1], 0)\<rparr>; r = service_once plain_backend 2 s
   in (\<exists>frame. sk_last (fst r) = Some (frame, 2) \<and> (sent_whole plain_backend frame s (fst r) \<or> send_failed s (fst r)))
     \<and> \<not> flt (Fin (2 + 1 / 4)) (snd r)"
proof -
  let ?s = "fed_sink\<lparr>sk_last := Some ([1, 1, 1, 1], 0)\<rparr>"
  obtain s' wake where s: "service_once plain_backend 2 ?s = (s', wake)" by fastforce
  have k: "sk_keepalive fed_sink = 1 / 4" by (simp add: fed_sink_def send_frame_def new_sink_def ARTNET_CHANNELS_PER_PIXEL_def)
  from keepalive_is_kept [OF s, of "[1, 1, 1, 1]" 0] show ?thesis by (auto simp: k s Let_def)
qed

end
