(* ===== verification/Terrarium_Config.thy ===== *)
theory Terrarium_Config
  imports Artnet_Sink Engine_State "HOL-Library.Sublist"
begin

section \<open>The configuration of a Terrarium\<close>

text \<open>
  \<open>src/control/terrarium_config.py\<close>. A TOML document is the table it decodes to. The outcome of a parser is
  the parsed object, a located \<open>TerrariumConfigError\<close> with its key (the texts are not modelled), an exception
  of another kind that escapes, or \<open>Untyped\<close>: the source goes on with a value outside the declared type of a
  field, and what becomes of it is not modelled. Reading a model file, the digest of the text and the
  instruments of the catalogs (theory \<open>Catalog\<close>) are parameters.
\<close>

subsection \<open>Outcomes\<close>

datatype config_error = Located string | Located_Output nat | Escaped | Untyped

type_synonym 'a parsed = "config_error + 'a"

definition and_then :: "'a parsed \<Rightarrow> ('a \<Rightarrow> 'b parsed) \<Rightarrow> 'b parsed" where
  "and_then r f = (case r of Inl e \<Rightarrow> Inl e | Inr x \<Rightarrow> f x)"

definition demand :: "bool \<Rightarrow> config_error \<Rightarrow> unit parsed" where
  "demand c e = (if c then Inr () else Inl e)"

fun parse_each :: "('a \<Rightarrow> 'b parsed) \<Rightarrow> 'a list \<Rightarrow> 'b list parsed" where
  "parse_each f [] = Inr []"
| "parse_each f (x # xs) = and_then (f x) (\<lambda>y. and_then (parse_each f xs) (\<lambda>ys. Inr (y # ys)))"

lemma and_then_Inr [simp]: "and_then r f = Inr y \<longleftrightarrow> (\<exists>x. r = Inr x \<and> f x = Inr y)"
  by (auto simp: and_then_def split: sum.split)

lemma demand_Inr [simp]: "demand c e = Inr u \<longleftrightarrow> c"
  by (simp add: demand_def)

lemma parse_each_Inr:
  "parse_each f xs = Inr ys \<Longrightarrow> list_all2 (\<lambda>x y. f x = Inr y) xs ys"
  by (induction xs arbitrary: ys) auto

text \<open>\<open>table.get(key, default)\<close>.\<close>

definition tget :: "(string, pyval) dict \<Rightarrow> string \<Rightarrow> pyval \<Rightarrow> pyval" where
  "tget d k dflt = (case dget d k of None \<Rightarrow> dflt | Some v \<Rightarrow> v)"

fun nonempty_str :: "pyval \<Rightarrow> string option" where
  "nonempty_str (VStr s) = (if s = [] then None else Some s)"
| "nonempty_str _ = None"

fun as_str :: "pyval \<Rightarrow> string parsed" where
  "as_str (VStr s) = Inr s"
| "as_str _ = Inl Untyped"

fun as_int :: "pyval \<Rightarrow> int parsed" where
  "as_int (VInt i) = Inr i"
| "as_int _ = Inl Untyped"

fun unhashable :: "pyval \<Rightarrow> bool" where
  "unhashable (VList _) = True"
| "unhashable (VDict _) = True"
| "unhashable _ = False"

text \<open>Python's truth of a value.\<close>

fun truthy :: "pyval \<Rightarrow> bool" where
  "truthy VNone = False"
| "truthy (VBool b) = b"
| "truthy (VInt i) = (i \<noteq> 0)"
| "truthy (VFloat f) = (f \<noteq> Fin 0)"
| "truthy (VStr s) = (s \<noteq> [])"
| "truthy (VList l) = (l \<noteq> [])"
| "truthy (VDict d) = (d \<noteq> [])"

subsection \<open>Functions of an instrument\<close>

definition instrument_key :: "string \<Rightarrow> string" where
  "instrument_key iname = ''instruments.'' @ iname"

fun int_triple :: "pyval \<Rightarrow> (int \<times> int \<times> int) option" where
  "int_triple (VList [VInt a, VInt b, VInt c]) = Some (a, b, c)"
| "int_triple _ = None"

fun step_cue_key :: "(string, pyval) dict \<Rightarrow> string list" where
  "step_cue_key d = filter (\<lambda>k. dmem k d) [''midi'', ''play'', ''solid'', ''mute'']"

definition parse_solid :: "string \<Rightarrow> pyval \<Rightarrow> cue parsed" where
  "parse_solid key v =
     (case v of
        VDict d \<Rightarrow>
          (case tget d ''rgb'' VNone of
             VList rgb \<Rightarrow>
               and_then (demand (length rgb \<in> {3, 4}) (Located key)) (\<lambda>_.
               and_then (parse_each as_int rgb) (\<lambda>c.
               and_then (case as_number (tget d ''level'' (VFloat (Fin 1))) of None \<Rightarrow> Inl Untyped | Some l \<Rightarrow> Inr l) (\<lambda>level.
               (case tget d ''duration'' VNone of
                  VNone \<Rightarrow> Inr (SolidCue TARGET c level None None)
                | x \<Rightarrow> (case as_number x of None \<Rightarrow> Inl Untyped | Some n \<Rightarrow> Inr (SolidCue TARGET c level (Some n) None))))))
           | _ \<Rightarrow> Inl (Located key))
      | _ \<Rightarrow> Inl (Located key))"

definition parse_step_cue :: "string \<Rightarrow> (string, pyval) dict \<Rightarrow> string \<Rightarrow> cue parsed" where
  "parse_step_cue key d kind =
     (if kind = ''midi'' then
        (case int_triple (tget d kind VNone) of None \<Rightarrow> Inl (Located key) | Some (a, b, c) \<Rightarrow> Inr (Midi TARGET a b c))
      else if kind = ''play'' then
        (case nonempty_str (tget d kind VNone) of None \<Rightarrow> Inl (Located key) | Some s \<Rightarrow> Inr (PlayCue TARGET s []))
      else if kind = ''solid'' then parse_solid key (tget d kind VNone)
      else Inr (MuteCue TARGET))"

definition parse_script_step :: "string \<Rightarrow> pyval \<Rightarrow> script_step parsed" where
  "parse_script_step key sraw =
     (case sraw of
        VDict d \<Rightarrow>
          (case as_number (tget d ''offset'' VNone) of
             None \<Rightarrow> Inl (Located key)
           | Some offset \<Rightarrow>
               (case step_cue_key d of
                  [kind] \<Rightarrow> and_then (parse_step_cue key d kind) (\<lambda>c. Inr \<lparr>st_offset = offset, st_cue = c\<rparr>)
                | _ \<Rightarrow> Inl (Located key)))
      | _ \<Rightarrow> Inl (Located key))"

definition plain_function :: "string \<Rightarrow> string \<Rightarrow> func" where
  "plain_function name desc =
     \<lparr>f_name = name, f_description = desc, f_target = None, f_condition = None, f_script = [], f_kind = SCRIPTED,
      f_generator = None, f_stream = None\<rparr>"

text \<open>\<open>lane.dev\<close>: only \<open>room\<close> and \<open>target\<close> are known; a value that cannot be a key raises on the way.\<close>

definition lane_dev :: "string \<Rightarrow> pyval \<Rightarrow> dev parsed" where
  "lane_dev key v =
     (if unhashable v then Inl Escaped
      else if v = VStr ''room'' then Inr ROOM
      else if v = VStr ''target'' then Inr TARGET
      else Inl (Located key))"

definition parse_generator :: "string \<Rightarrow> (string, pyval) dict \<Rightarrow> generator_spec parsed" where
  "parse_generator key entry =
     (case tget entry ''lane'' VNone of
        VDict lane \<Rightarrow>
          and_then (lane_dev key (tget lane ''dev'' VNone)) (\<lambda>d.
          and_then (demand (dmem ''status'' lane \<and> dmem ''data1'' lane) (Located key)) (\<lambda>_.
          and_then (as_int (tget lane ''status'' VNone)) (\<lambda>status.
          and_then (as_int (tget lane ''data1'' VNone)) (\<lambda>data1.
          and_then (as_str (tget entry ''waveform'' VNone)) (\<lambda>waveform.
          and_then (case as_number (tget entry ''period'' VNone) of None \<Rightarrow> Inl Untyped | Some p \<Rightarrow> Inr p) (\<lambda>period.
          and_then (as_int (tget entry ''lo'' (VInt 0))) (\<lambda>lo.
          and_then (as_int (tget entry ''hi'' (VInt 127))) (\<lambda>hi.
            Inr \<lparr>g_dev = d, g_status = status, g_data1 = data1, g_waveform = waveform, g_period = period,
              g_lo = lo, g_hi = hi\<rparr>))))))))
      | _ \<Rightarrow> Inl (Located key))"

definition parse_function :: "string \<Rightarrow> pyval \<Rightarrow> func parsed" where
  "parse_function key entry =
     (case entry of
        VDict d \<Rightarrow>
          (case nonempty_str (tget d ''name'' VNone) of
             None \<Rightarrow> Inl (Located key)
           | Some name \<Rightarrow>
               (let kind = tget d ''kind'' (VStr ''generator'')
                in if kind = VStr ''scripted'' then
                     (case tget d ''script'' VNone of
                        VList steps \<Rightarrow>
                          and_then (demand (steps \<noteq> []) (Located key)) (\<lambda>_.
                          and_then (parse_each (parse_script_step key) steps) (\<lambda>script.
                          and_then (as_str (tget d ''description'' (VStr []))) (\<lambda>desc.
                            Inr ((plain_function name desc)\<lparr>f_script := script\<rparr>))))
                      | _ \<Rightarrow> Inl (Located key))
                   else if kind \<noteq> VStr ''generator'' then Inl (Located key)
                   else and_then (parse_generator key d) (\<lambda>g.
                        and_then (as_str (tget d ''description'' (VStr []))) (\<lambda>desc.
                          Inr ((plain_function name desc)\<lparr>f_kind := GENERATOR, f_generator := Some g\<rparr>)))))
      | _ \<Rightarrow> Inl (Located key))"

definition parse_functions :: "string \<Rightarrow> (string, pyval) dict \<Rightarrow> func list parsed" where
  "parse_functions key iraw =
     (case tget iraw ''functions'' (VList []) of
        VList entries \<Rightarrow> parse_each (parse_function key) entries
      | _ \<Rightarrow> Inl (Located key))"

subsection \<open>Triggers\<close>

text \<open>\<open>dict(value)\<close> of a value off a TOML table.\<close>

fun as_dict :: "pyval \<Rightarrow> (string, pyval) dict parsed" where
  "as_dict (VDict d) = Inr d"
| "as_dict (VList l) = (if l = [] then Inr [] else Inl Untyped)"
| "as_dict (VStr s) = (if s = [] then Inr [] else Inl Escaped)"
| "as_dict _ = Inl Escaped"

definition trigger_table :: "string \<Rightarrow> string list \<Rightarrow> pyval \<Rightarrow> (string, pyval) dict parsed" where
  "trigger_table key required entry =
     (case entry of
        VDict d \<Rightarrow> and_then (demand (list_all (\<lambda>k. dmem k d) required) (Located key)) (\<lambda>_. Inr d)
      | _ \<Rightarrow> Inl (Located key))"

definition parse_trigger_tables :: "string \<Rightarrow> string \<Rightarrow> string list \<Rightarrow> (string, pyval) dict \<Rightarrow> (string, pyval) dict list parsed" where
  "parse_trigger_tables key table required iraw =
     (case tget iraw table (VList []) of
        VList entries \<Rightarrow> parse_each (trigger_table key required) entries
      | _ \<Rightarrow> Inl (Located key))"

definition build_event_trigger :: "(string, pyval) dict \<Rightarrow> event_trigger parsed" where
  "build_event_trigger d =
     and_then (as_dict (tget d ''thresholds'' (VDict []))) (\<lambda>thresholds.
     and_then (as_str (tget d ''name'' VNone)) (\<lambda>name.
     and_then (as_str (tget d ''description'' (VStr []))) (\<lambda>desc.
       Inr \<lparr>et_name = name, et_description = desc, et_thresholds = thresholds\<rparr>)))"

definition parse_event_triggers :: "string \<Rightarrow> (string, pyval) dict \<Rightarrow> event_trigger list parsed" where
  "parse_event_triggers key iraw =
     and_then (parse_trigger_tables key ''event_triggers'' [''name''] iraw) (parse_each build_event_trigger)"

definition build_stream_trigger :: "(string, pyval) dict \<Rightarrow> stream_trigger parsed" where
  "build_stream_trigger d =
     (case int_of_arg (tget d ''arg'' VNone) of
        IntOk arg \<Rightarrow>
          and_then (as_dict (tget d ''params'' (VDict []))) (\<lambda>params.
          and_then (as_str (tget d ''name'' VNone)) (\<lambda>name.
          and_then (as_str (tget d ''description'' (VStr []))) (\<lambda>desc.
          and_then (as_str (tget d ''verb'' VNone)) (\<lambda>verb.
          and_then (as_str (tget d ''transform'' VNone)) (\<lambda>transform.
            Inr \<lparr>tg_name = name, tg_description = desc, tg_verb = verb, tg_arg = arg, tg_transform = transform,
              tg_params = params\<rparr>)))))
      | _ \<Rightarrow> Inl Escaped)"

definition parse_stream_triggers :: "string \<Rightarrow> (string, pyval) dict \<Rightarrow> stream_trigger list parsed" where
  "parse_stream_triggers key iraw =
     and_then (parse_trigger_tables key ''stream_triggers'' [''name'', ''verb'', ''arg'', ''transform''] iraw)
       (parse_each build_stream_trigger)"

subsection \<open>An instrument\<close>

record model_result =
  mr_sha256 :: string
  mr_layout :: "pixel_layout list"
  mr_path :: string
  mr_bytes :: int
  mr_triangles :: int

text \<open>The parts of a POSIX path, as \<open>pathlib\<close> splits it.\<close>

fun split_slash :: "string \<Rightarrow> string \<Rightarrow> string list" where
  "split_slash acc [] = [rev acc]"
| "split_slash acc (c # cs) = (if c = CHR ''/'' then rev acc # split_slash [] cs else split_slash (c # acc) cs)"

definition path_parts :: "string \<Rightarrow> string list" where
  "path_parts s = filter (\<lambda>p. p \<noteq> [] \<and> p \<noteq> ''.'') (split_slash [] s)"

definition is_glb :: "string \<Rightarrow> bool" where
  "is_glb s \<longleftrightarrow> (case rev (path_parts s) of [] \<Rightarrow> False | name # _ \<Rightarrow> suffix ''.glb'' name \<and> 4 < length name)"

text \<open>
  The \<open>model\<close> key. \<open>read_model\<close> resolves the path inside the catalog's root, reads the file and parses its
  layout; \<open>None\<close> is any of the located refusals on that way.
\<close>

definition parse_model :: "(string \<Rightarrow> int \<Rightarrow> model_result option) \<Rightarrow> string \<Rightarrow> pyval \<Rightarrow> int \<Rightarrow> model_result option parsed" where
  "parse_model read_model key v pixels =
     (if v = VNone then Inr None
      else case nonempty_str v of
             None \<Rightarrow> Inl (Located key)
           | Some rel \<Rightarrow>
               and_then (demand (CHR 0x00 \<notin> set rel \<and> take 1 rel \<noteq> ''/'' \<and> is_glb rel \<and> ''drafts'' \<notin> set (path_parts rel))
                 (Located key)) (\<lambda>_.
               (case read_model rel pixels of None \<Rightarrow> Inl (Located key) | Some m \<Rightarrow> Inr (Some m))))"

definition string_bindings :: "(string, pyval) dict \<Rightarrow> (string, string) dict option" where
  "string_bindings d =
     (if list_all (\<lambda>(k, v). case v of VStr _ \<Rightarrow> True | _ \<Rightarrow> False) d
      then Some (map (\<lambda>(k, v). (k, case v of VStr s \<Rightarrow> s | _ \<Rightarrow> [])) d) else None)"

definition parse_solo :: "string \<Rightarrow> pyval \<Rightarrow> solo_config option parsed" where
  "parse_solo key sraw =
     (case sraw of
        VNone \<Rightarrow> Inr None
      | VDict d \<Rightarrow>
          (case tget d ''bindings'' (VDict []) of
             VDict b \<Rightarrow>
               (case string_bindings b of
                  None \<Rightarrow> Inl (Located key)
                | Some bindings \<Rightarrow>
                    (case tget d ''ambient'' (VDict []) of
                       VDict a \<Rightarrow> Inr (Some \<lparr>so_light_manifest = tget a ''light'' (VDict []), so_bindings = bindings\<rparr>)
                     | _ \<Rightarrow> Inl Escaped))
           | _ \<Rightarrow> Inl (Located key))
      | _ \<Rightarrow> Inl (Located key))"

text \<open>What iterating over a value yields; a number cannot be iterated.\<close>

fun iterate :: "pyval \<Rightarrow> pyval list parsed" where
  "iterate (VList l) = Inr l"
| "iterate (VStr s) = Inr (map (\<lambda>c. VStr [c]) s)"
| "iterate (VDict d) = Inr (map VStr (dkeys d))"
| "iterate _ = Inl Escaped"

fun capability_name :: "pyval \<Rightarrow> string parsed" where
  "capability_name (VStr s) = Inr s"
| "capability_name v = Inl (if unhashable v then Escaped else Untyped)"

definition cue_kind_named :: "pyval \<Rightarrow> kind option" where
  "cue_kind_named v =
     (if v = VStr ''midi'' then Some KMidi else if v = VStr ''play'' then Some KPlay
      else if v = VStr ''solid'' then Some KSolid else if v = VStr ''mute'' then Some KMute else None)"

definition parse_cue_kinds :: "string \<Rightarrow> pyval list \<Rightarrow> kind list parsed" where
  "parse_cue_kinds key vs = parse_each (\<lambda>v. case cue_kind_named v of None \<Rightarrow> Inl (Located key) | Some k \<Rightarrow> Inr k) vs"

definition check_instrument :: "string \<Rightarrow> instrument \<Rightarrow> instrument parsed" where
  "check_instrument key inst =
     and_then (demand (validate_instrument inst = None) (Located key)) (\<lambda>_.
     and_then (demand (validate_instrument_manifests inst = None) (Located key)) (\<lambda>_. Inr inst))"

definition build_instrument ::
  "string \<Rightarrow> (string, pyval) dict \<Rightarrow> (string, pyval) dict \<Rightarrow> solo_config option \<Rightarrow> int \<Rightarrow> model_result option \<Rightarrow> instrument parsed" where
  "build_instrument iname d ambient solo pixels model =
     (let key = instrument_key iname
      in and_then (and_then (iterate (tget d ''capabilities'' (VList []))) (parse_each capability_name)) (\<lambda>caps.
         and_then (parse_functions key d) (\<lambda>fns.
         and_then (iterate (tget d ''accepted_cues'' (VList []))) (\<lambda>cues.
         and_then (parse_event_triggers key d) (\<lambda>events.
         and_then (parse_stream_triggers key d) (\<lambda>streams.
         and_then (as_str (tget d ''description'' (VStr []))) (\<lambda>desc.
         and_then (parse_cue_kinds key cues) (\<lambda>kinds.
           check_instrument key
             \<lparr>i_name = iname, i_description = desc, i_capabilities = set caps, i_pixels = pixels, i_functions = fns,
              i_accepted_cues = kinds, i_light_manifest = tget ambient ''light'' (VDict []),
              i_ugen_manifest = tget ambient ''ugen'' (VDict []), i_event_triggers = events, i_stream_triggers = streams,
              i_solo = solo, i_model_sha256 = map_option mr_sha256 model,
              i_layout = (case model of None \<Rightarrow> [] | Some m \<Rightarrow> mr_layout m), i_model_path = map_option mr_path model,
              i_model_bytes = (case model of None \<Rightarrow> 0 | Some m \<Rightarrow> mr_bytes m),
              i_model_triangles = (case model of None \<Rightarrow> 0 | Some m \<Rightarrow> mr_triangles m)\<rparr>))))))))"

definition parse_instrument :: "(string \<Rightarrow> int \<Rightarrow> model_result option) \<Rightarrow> string \<Rightarrow> pyval \<Rightarrow> instrument parsed" where
  "parse_instrument read_model iname iraw =
     (let key = instrument_key iname
      in case iraw of
           VDict d \<Rightarrow>
             and_then (demand (\<not> dmem ''accepted_triggers'' d) (Located key)) (\<lambda>_.
             and_then (case tget d ''ambient'' (VDict []) of VDict a \<Rightarrow> Inr a | _ \<Rightarrow> Inl Escaped) (\<lambda>ambient.
             and_then (parse_solo key (tget d ''solo'' VNone)) (\<lambda>solo.
             and_then (case tget d ''pixels'' (VInt 0) of VInt n \<Rightarrow> Inr n | _ \<Rightarrow> Inl (Located key)) (\<lambda>pixels.
             and_then (parse_model read_model key (tget d ''model'' VNone) pixels) (\<lambda>model.
               build_instrument iname d ambient solo pixels model)))))
         | VStr s \<Rightarrow> Inl (if sublist ''accepted_triggers'' s then Located key else Escaped)
         | VList l \<Rightarrow> Inl (if VStr ''accepted_triggers'' \<in> set l then Located key else Escaped)
         | _ \<Rightarrow> Inl Escaped)"

subsection \<open>A Room\<close>

record room_decl =
  rd_name :: string
  rd_description :: string
  rd_backends :: "string list"
  rd_node_id :: string
  rd_profile :: room_profile
  rd_arco_ready_timeout :: pyfloat
  rd_arco_settle_seconds :: pyfloat

definition KNOWN_BACKENDS :: "string list" where
  "KNOWN_BACKENDS = [''devicelink'', ''array'']"

definition room_key :: "string \<Rightarrow> string" where
  "room_key rname = ''rooms.'' @ rname"

text \<open>A block or a zone: a table with a name, a start and a count.\<close>

definition parse_pixel_range :: "string \<Rightarrow> pyval \<Rightarrow> (string \<times> int \<times> int) parsed" where
  "parse_pixel_range key v =
     (case v of
        VDict d \<Rightarrow>
          and_then (demand (dmem ''name'' d \<and> dmem ''start'' d \<and> dmem ''count'' d) (Located key)) (\<lambda>_.
          and_then (as_str (tget d ''name'' VNone)) (\<lambda>name.
          and_then (as_int (tget d ''start'' VNone)) (\<lambda>first.
          and_then (as_int (tget d ''count'' VNone)) (\<lambda>n. Inr (name, first, n)))))
      | _ \<Rightarrow> Inl (Located key))"

definition parse_pixel_ranges :: "string \<Rightarrow> pyval \<Rightarrow> (string \<times> int \<times> int) list parsed" where
  "parse_pixel_ranges key v =
     (case iterate v of
        Inl _ \<Rightarrow> Inl (Located key)
      | Inr vs \<Rightarrow> parse_each (parse_pixel_range key) vs)"

definition parse_fixture :: "string \<Rightarrow> (string, instrument) dict \<Rightarrow> pyval \<Rightarrow> room_fixture parsed" where
  "parse_fixture key instruments fraw =
     (case fraw of
        VDict d \<Rightarrow>
          (let iname = tget d ''instrument'' VNone
           in and_then (demand (truthy iname) (Located key)) (\<lambda>_.
              and_then (demand (\<not> unhashable iname) Escaped) (\<lambda>_.
              and_then (case iname of
                          VStr s \<Rightarrow> (case dget instruments s of None \<Rightarrow> Inl (Located key) | Some i \<Rightarrow> Inr i)
                        | _ \<Rightarrow> Inl (Located key)) (\<lambda>inst.
              and_then (demand (\<not> dmem ''color_order'' d) (Located key)) (\<lambda>_.
              and_then (parse_pixel_ranges key (tget d ''blocks'' (VList []))) (\<lambda>blocks.
              and_then (parse_pixel_ranges key (tget d ''zones'' (VList []))) (\<lambda>zones.
              and_then (demand (dmem ''name'' d) (Located key)) (\<lambda>_.
              and_then (as_str (tget d ''name'' VNone)) (\<lambda>name.
                Inr \<lparr>x_name = name,
                  x_blocks = map (\<lambda>(n, a, c). \<lparr>b_name = n, b_start = a, b_count = c\<rparr>) blocks,
                  x_zones = map (\<lambda>(n, a, c). \<lparr>z_name = n, z_start = a, z_count = c\<rparr>) zones,
                  x_instrument = inst\<rparr>)))))))))
      | _ \<Rightarrow> Inl (Located key))"

text \<open>\<open>float(value)\<close> inside the \<open>try\<close> of the \<open>arco\<close> table; \<open>py_float\<close> reads a string.\<close>

definition as_float :: "(string \<Rightarrow> pyfloat option) \<Rightarrow> string \<Rightarrow> pyval \<Rightarrow> pyfloat parsed" where
  "as_float py_float key v =
     (case v of
        VInt i \<Rightarrow> Inr (Fin (of_int i))
      | VFloat f \<Rightarrow> Inr f
      | VBool b \<Rightarrow> Inr (Fin (if b then 1 else 0))
      | VStr s \<Rightarrow> (case py_float s of None \<Rightarrow> Inl (Located key) | Some f \<Rightarrow> Inr f)
      | _ \<Rightarrow> Inl (Located key))"

definition check_profile :: "string \<Rightarrow> room_profile \<Rightarrow> unit parsed" where
  "check_profile key p =
     and_then (demand (validate_profile p = None) (Located key)) (\<lambda>_.
       demand (list_all (\<lambda>f. fixture_instrument_mismatch f = None) (p_fixtures p)) (Located key))"

text \<open>A backend that is no string is unknown, and one that cannot be hashed raises in the test.\<close>

definition parse_backend :: "string \<Rightarrow> pyval \<Rightarrow> string parsed" where
  "parse_backend key v =
     (case v of
        VStr s \<Rightarrow> (if s \<in> set KNOWN_BACKENDS then Inr s else Inl (Located key))
      | _ \<Rightarrow> Inl (if unhashable v then Escaped else Located key))"

definition parse_backends :: "string \<Rightarrow> pyval list \<Rightarrow> string list parsed" where
  "parse_backends key vs =
     (if list_ex unhashable vs then Inl Escaped else parse_each (parse_backend key) vs)"

definition build_room ::
  "(string \<Rightarrow> pyfloat option) \<Rightarrow> string \<Rightarrow> (string, pyval) dict \<Rightarrow> string list \<Rightarrow> room_fixture list \<Rightarrow> room_decl parsed" where
  "build_room py_float rname d backends fixtures =
     (let key = room_key rname;
          profile = \<lparr>p_surface_id = ''room_'' @ map lower_char rname, p_fixtures = fixtures\<rparr>
      in and_then (check_profile key profile) (\<lambda>_.
         and_then (case tget d ''arco'' (VDict []) of VDict a \<Rightarrow> Inr a | _ \<Rightarrow> Inl (Located key)) (\<lambda>arco.
         and_then (as_float py_float key (tget arco ''ready_timeout'' (VFloat (Fin 15)))) (\<lambda>timeout.
         and_then (as_float py_float key (tget arco ''settle_seconds'' (VFloat (Fin 0)))) (\<lambda>settle.
         and_then (as_str (tget d ''description'' (VStr []))) (\<lambda>desc.
         and_then (as_str (tget d ''node_id'' (VStr (''ROOM_'' @ rname @ ''_NODE'')))) (\<lambda>node.
           Inr \<lparr>rd_name = rname, rd_description = desc, rd_backends = backends, rd_node_id = node, rd_profile = profile,
             rd_arco_ready_timeout = timeout, rd_arco_settle_seconds = settle\<rparr>)))))))"

definition parse_room ::
  "(string \<Rightarrow> pyfloat option) \<Rightarrow> (string, instrument) dict \<Rightarrow> string \<Rightarrow> pyval \<Rightarrow> room_decl parsed" where
  "parse_room py_float instruments rname rraw =
     (let key = room_key rname
      in case rraw of
           VDict d \<Rightarrow>
             (case (tget d ''backends'' (VList []), tget d ''fixtures'' (VList [])) of
                (VList bs, VList fs) \<Rightarrow>
                  and_then (parse_backends key bs) (\<lambda>backends.
                  and_then (parse_each (parse_fixture key instruments) fs) (\<lambda>fixtures.
                    build_room py_float rname d backends fixtures))
              | _ \<Rightarrow> Inl (Located key))
         | _ \<Rightarrow> Inl Escaped)"

subsection \<open>Art-Net outputs and their power supplies\<close>

definition ARTNET_KEYS :: "string list" where
  "ARTNET_KEYS =
     [''room'', ''fixture'', ''host'', ''max_amps'', ''start_universe'', ''port'', ''amps_per_pixel_full'', ''lead_ms'',
      ''keepalive_ms'', ''psu'']"

definition PSU_KEYS :: "string list" where "PSU_KEYS = [''amps'']"

definition PIXELS_PER_RGBW_UNIVERSE :: int where "PIXELS_PER_RGBW_UNIVERSE = 128"

definition ARTNET_MAX_UNIVERSE :: int where "ARTNET_MAX_UNIVERSE = 32767"

definition PSU_BUDGET_FRACTION :: rat where "PSU_BUDGET_FRACTION = 4 / 5"

text \<open>A number that is required to be above zero, or not below it; a \<open>nan\<close> is neither at or below nor below.\<close>

definition positive_number :: "pyval \<Rightarrow> pyfloat option" where
  "positive_number v = (case as_number v of None \<Rightarrow> None | Some f \<Rightarrow> if fle f (Fin 0) then None else Some f)"

definition natural_number :: "pyval \<Rightarrow> pyfloat option" where
  "natural_number v = (case as_number v of None \<Rightarrow> None | Some f \<Rightarrow> if flt f (Fin 0) then None else Some f)"

definition located_unless :: "'a option \<Rightarrow> config_error \<Rightarrow> 'a parsed" where
  "located_unless x e = (case x of None \<Rightarrow> Inl e | Some y \<Rightarrow> Inr y)"

lemma located_unless_Inr [simp]: "located_unless x e = Inr y \<longleftrightarrow> x = Some y"
  by (simp add: located_unless_def split: option.split)

definition parse_output :: "nat \<Rightarrow> pyval \<Rightarrow> artnet_output parsed" where
  "parse_output i entry =
     (let err = Located_Output i
      in case entry of
           VDict d \<Rightarrow>
             and_then (demand (set (dkeys d) \<subseteq> set ARTNET_KEYS) err) (\<lambda>_.
             and_then (located_unless (nonempty_str (tget d ''room'' VNone)) err) (\<lambda>room.
             and_then (located_unless (nonempty_str (tget d ''fixture'' VNone)) err) (\<lambda>fixture.
             and_then (located_unless (nonempty_str (tget d ''host'' VNone)) err) (\<lambda>host.
             and_then (located_unless (positive_number (tget d ''max_amps'' VNone)) err) (\<lambda>amps.
             and_then (case tget d ''start_universe'' (VInt 0) of VInt n \<Rightarrow> if n < 0 then Inl err else Inr n | _ \<Rightarrow> Inl err) (\<lambda>start.
             and_then (case tget d ''port'' (VInt 6454) of VInt n \<Rightarrow> if 0 < n \<and> n < 65536 then Inr n else Inl err | _ \<Rightarrow> Inl err) (\<lambda>port.
             and_then (located_unless (natural_number (tget d ''amps_per_pixel_full'' (VFloat (Fin (1 / 40))))) err) (\<lambda>per_pixel.
             and_then (located_unless (natural_number (tget d ''lead_ms'' (VFloat (Fin 0)))) err) (\<lambda>lead.
             and_then (located_unless (natural_number (tget d ''keepalive_ms'' (VFloat (Fin 250)))) err) (\<lambda>keepalive.
             and_then (demand (per_pixel \<noteq> Fin 0 \<and> keepalive \<noteq> Fin 0) err) (\<lambda>_.
             and_then (case tget d ''psu'' VNone of
                         VNone \<Rightarrow> Inr None
                       | v \<Rightarrow> (case nonempty_str v of None \<Rightarrow> Inl err | Some s \<Rightarrow> Inr (Some s))) (\<lambda>psu.
               Inr \<lparr>an_room = room, an_fixture = fixture, an_host = host, an_max_amps = amps, an_start_universe = start,
                 an_port = port, an_amps_per_pixel_full = per_pixel, an_lead_ms = lead, an_keepalive_ms = keepalive,
                 an_psu = psu\<rparr>))))))))))))
         | _ \<Rightarrow> Inl err)"

fun parse_outputs_from :: "nat \<Rightarrow> pyval list \<Rightarrow> artnet_output list parsed" where
  "parse_outputs_from i [] = Inr []"
| "parse_outputs_from i (v # vs) =
     and_then (parse_output i v) (\<lambda>x. and_then (parse_outputs_from (Suc i) vs) (\<lambda>xs. Inr (x # xs)))"

definition parse_artnet :: "pyval \<Rightarrow> artnet_output list parsed" where
  "parse_artnet raw =
     (case raw of
        VNone \<Rightarrow> Inr []
      | VList l \<Rightarrow> parse_outputs_from 0 l
      | _ \<Rightarrow> Inl (Located ''artnet''))"

text \<open>The universes an output takes: its first one and as many as the fixture's pixels fill.\<close>

definition universe_span :: "artnet_output \<Rightarrow> room_fixture \<Rightarrow> int \<times> int" where
  "universe_span o1 f =
     (let n = - ((- fixture_pixels f) div PIXELS_PER_RGBW_UNIVERSE)
      in (an_start_universe o1, an_start_universe o1 + n - 1))"

definition output_fixture :: "(string, room_decl) dict \<Rightarrow> artnet_output \<Rightarrow> room_fixture option" where
  "output_fixture rooms o1 =
     Option.bind (dget rooms (an_room o1)) (\<lambda>r. find_room_fixture (an_fixture o1) (rd_profile r))"

definition address :: "artnet_output \<Rightarrow> string \<times> int" where
  "address o1 = (an_host o1, an_port o1)"

text \<open>\<open>validate_artnet_outputs\<close>: \<open>seen\<close> and \<open>spans\<close> are what the loop has met so far.\<close>

fun validate_outputs_from ::
  "nat \<Rightarrow> (string, room_decl) dict \<Rightarrow> (string \<times> string) list \<Rightarrow> ((string \<times> int) \<times> int \<times> int) list \<Rightarrow> artnet_output list
    \<Rightarrow> config_error option" where
  "validate_outputs_from i rooms seen spans [] = None"
| "validate_outputs_from i rooms seen spans (o1 # os) =
     (case output_fixture rooms o1 of
        None \<Rightarrow> Some (Located_Output i)
      | Some f \<Rightarrow>
          (case universe_span o1 f of
             (lo, hi) \<Rightarrow>
               (if (an_room o1, an_fixture o1) \<in> set seen then Some (Located_Output i)
                else if ARTNET_MAX_UNIVERSE < hi then Some (Located_Output i)
                else if list_ex (\<lambda>(a, olo, ohi). a = address o1 \<and> lo \<le> ohi \<and> olo \<le> hi) spans then Some (Located_Output i)
                else validate_outputs_from (Suc i) rooms ((an_room o1, an_fixture o1) # seen)
                       ((address o1, lo, hi) # spans) os)))"

definition validate_artnet_outputs :: "artnet_output list \<Rightarrow> (string, room_decl) dict \<Rightarrow> config_error option" where
  "validate_artnet_outputs outs rooms = validate_outputs_from 0 rooms [] [] outs"

definition psu_key :: "string \<Rightarrow> string" where
  "psu_key name = ''psus.'' @ name"

definition parse_psu :: "string \<times> pyval \<Rightarrow> (string \<times> pyfloat) parsed" where
  "parse_psu = (\<lambda>(name, entry).
     (let err = Located (psu_key name)
      in case entry of
           VDict d \<Rightarrow>
             and_then (demand (set (dkeys d) \<subseteq> set PSU_KEYS) err) (\<lambda>_.
             and_then (located_unless (positive_number (tget d ''amps'' VNone)) err) (\<lambda>amps. Inr (name, amps)))
         | _ \<Rightarrow> Inl err))"

definition parse_psus :: "pyval \<Rightarrow> (string, pyfloat) dict parsed" where
  "parse_psus raw =
     (case raw of
        VNone \<Rightarrow> Inr []
      | VDict d \<Rightarrow> parse_each parse_psu d
      | _ \<Rightarrow> Inl (Located ''psus''))"

fun psu_loads :: "nat \<Rightarrow> (string, pyfloat) dict \<Rightarrow> (string, pyfloat list) dict \<Rightarrow> artnet_output list \<Rightarrow> (string, pyfloat list) dict parsed" where
  "psu_loads i psus loads [] = Inr loads"
| "psu_loads i psus loads (o1 # os) =
     (case an_psu o1 of
        None \<Rightarrow> psu_loads (Suc i) psus loads os
      | Some p \<Rightarrow>
          if \<not> dmem p psus then Inl (Located_Output i)
          else psu_loads (Suc i) psus
                 (dset p ((case dget loads p of None \<Rightarrow> [] | Some l \<Rightarrow> l) @ [an_max_amps o1]) loads) os)"

definition sum_floats :: "pyfloat list \<Rightarrow> pyfloat" where
  "sum_floats xs = foldl fadd (Fin 0) xs"

definition over_budget :: "(string, pyfloat) dict \<Rightarrow> string \<times> pyfloat list \<Rightarrow> bool" where
  "over_budget psus e =
     flt (fadd (fmul (Fin PSU_BUDGET_FRACTION) (case dget psus (fst e) of None \<Rightarrow> NaN | Some r \<Rightarrow> r)) (Fin (1 / 1000000000)))
         (sum_floats (snd e))"

definition validate_psu_budgets :: "artnet_output list \<Rightarrow> (string, pyfloat) dict \<Rightarrow> config_error option" where
  "validate_psu_budgets outs psus =
     (case psu_loads 0 psus [] outs of
        Inl e \<Rightarrow> Some e
      | Inr loads \<Rightarrow> map_option (\<lambda>e. Located (psu_key (fst e))) (List.find (over_budget psus) loads))"

subsection \<open>The whole document\<close>

record uplink_config =
  uc_tenant_slug :: string
  uc_secret :: string
  uc_url :: string

record terrarium_config =
  tc_schema :: pyval
  tc_name :: string
  tc_bit_paths :: "string list"
  tc_rooms :: "(string, room_decl) dict"
  tc_version :: string
  tc_instruments :: "(string, instrument) dict"
  tc_admin_devices :: "string list"
  tc_uplink :: "uplink_config option"
  tc_artnet_outputs :: "artnet_output list"
  tc_psus :: "(string, pyfloat) dict"

text \<open>What the parser takes from elsewhere: the digest of the text, string floats and model files.\<close>

record config_env =
  ce_digest :: string
  ce_float :: "string \<Rightarrow> pyfloat option"
  ce_model :: "string \<Rightarrow> int \<Rightarrow> model_result option"

definition is_hex :: "char \<Rightarrow> bool" where
  "is_hex c \<longleftrightarrow> (let n = (of_char c :: nat) in (48 \<le> n \<and> n \<le> 57) \<or> (97 \<le> n \<and> n \<le> 102))"

text \<open>The pattern \<open>^[0-9a-f]{64}$\<close>, whose \<open>$\<close> also matches before a final line break.\<close>

definition secret_matches :: "string \<Rightarrow> bool" where
  "secret_matches s \<longleftrightarrow> list_all is_hex (take 64 s) \<and> (length s = 64 \<or> length s = 65 \<and> drop 64 s = [CHR 0x0A])"

definition parse_uplink :: "pyval \<Rightarrow> uplink_config option parsed" where
  "parse_uplink raw =
     (case raw of
        VNone \<Rightarrow> Inr None
      | VDict d \<Rightarrow>
          and_then (located_unless (nonempty_str (tget d ''tenant_slug'' VNone)) (Located ''uplink.tenant_slug'')) (\<lambda>slug.
          and_then (case tget d ''secret'' VNone of
                      VStr s \<Rightarrow> if secret_matches s then Inr s else Inl (Located ''uplink.secret'')
                    | _ \<Rightarrow> Inl (Located ''uplink.secret'')) (\<lambda>secret.
          and_then (case tget d ''url'' (VStr []) of VStr s \<Rightarrow> Inr s | _ \<Rightarrow> Inl (Located ''uplink.url'')) (\<lambda>url.
            Inr (Some \<lparr>uc_tenant_slug = slug, uc_secret = secret, uc_url = url\<rparr>))))
      | _ \<Rightarrow> Inl (Located ''uplink''))"

definition parse_admin :: "pyval \<Rightarrow> string list parsed" where
  "parse_admin raw =
     (case raw of
        VDict d \<Rightarrow>
          (case tget d ''devices'' (VList []) of
             VList l \<Rightarrow>
               and_then (parse_each (\<lambda>v. located_unless (nonempty_str v) (Located ''admin.devices'')) l) (\<lambda>devs.
               and_then (demand (TERRARIUM_ADMIN \<notin> set devs) (Located ''admin.devices'')) (\<lambda>_. Inr devs))
           | _ \<Rightarrow> Inl (Located ''admin.devices''))
      | _ \<Rightarrow> Inl (Located ''admin''))"

text \<open>\<open>schema != 1\<close>: Python counts \<open>True\<close> and \<open>1.0\<close> as 1.\<close>

definition is_schema_1 :: "pyval \<Rightarrow> bool" where
  "is_schema_1 v \<longleftrightarrow> v = VInt 1 \<or> v = VBool True \<or> v = VFloat (Fin 1)"

definition schema_text :: "pyval \<Rightarrow> string" where
  "schema_text v = (if v = VBool True then ''True'' else if v = VFloat (Fin 1) then ''1.0'' else ''1'')"

text \<open>\<open>extra\<close>: the instruments of the catalogs.\<close>

fun merge_instruments :: "(string, instrument) dict \<Rightarrow> (string \<times> instrument) list \<Rightarrow> (string, instrument) dict parsed" where
  "merge_instruments insts [] = Inr insts"
| "merge_instruments insts ((n, i) # rest) =
     (if dmem n insts then Inl (Located (instrument_key n)) else merge_instruments (dset n i insts) rest)"

definition named :: "(string \<Rightarrow> 'a \<Rightarrow> 'b parsed) \<Rightarrow> string \<times> 'a \<Rightarrow> (string \<times> 'b) parsed" where
  "named f = (\<lambda>(n, x). and_then (f n x) (\<lambda>y. Inr (n, y)))"

definition as_table :: "pyval \<Rightarrow> config_error \<Rightarrow> (string, pyval) dict parsed" where
  "as_table v e = (case v of VDict d \<Rightarrow> Inr d | _ \<Rightarrow> Inl e)"

definition refused_by :: "config_error option \<Rightarrow> unit parsed" where
  "refused_by x = (case x of None \<Rightarrow> Inr () | Some e \<Rightarrow> Inl e)"

definition parse_terrarium_config ::
  "config_env \<Rightarrow> (string, instrument) dict \<Rightarrow> bool \<Rightarrow> (string, pyval) dict option \<Rightarrow> terrarium_config parsed" where
  "parse_terrarium_config ce extra require_rooms document =
     and_then (located_unless document (Located ''-'')) (\<lambda>raw.
     and_then (demand (is_schema_1 (tget raw ''schema'' VNone)) (Located ''schema'')) (\<lambda>_.
     and_then (as_table (tget raw ''terrarium'' (VDict [])) Escaped) (\<lambda>terr.
     and_then (located_unless (nonempty_str (tget terr ''name'' VNone)) (Located ''terrarium.name'')) (\<lambda>name.
     and_then (and_then (iterate (tget terr ''bit_paths'' (VList [VStr ''bits'']))) (parse_each as_str)) (\<lambda>paths.
     and_then (parse_admin (tget raw ''admin'' (VDict []))) (\<lambda>devs.
     and_then (parse_uplink (tget raw ''uplink'' VNone)) (\<lambda>uplink.
     and_then (as_table (tget raw ''instruments'' (VDict [])) Escaped) (\<lambda>iraws.
     and_then (parse_each (named (parse_instrument (ce_model ce))) iraws) (\<lambda>inline.
     and_then (merge_instruments inline extra) (\<lambda>instruments.
     and_then (as_table (tget raw ''rooms'' (VDict [])) (Located ''rooms'')) (\<lambda>rraws.
     and_then (demand (require_rooms \<longrightarrow> rraws \<noteq> []) (Located ''rooms'')) (\<lambda>_.
     and_then (parse_artnet (tget raw ''artnet'' VNone)) (\<lambda>artnet.
     and_then (parse_psus (tget raw ''psus'' VNone)) (\<lambda>psus.
     and_then (refused_by (validate_psu_budgets artnet psus)) (\<lambda>_.
     and_then (parse_each (named (parse_room (ce_float ce) instruments)) rraws) (\<lambda>rooms.
     and_then (refused_by (if require_rooms then validate_artnet_outputs artnet rooms else None)) (\<lambda>_.
       Inr \<lparr>tc_schema = tget raw ''schema'' VNone, tc_name = name, tc_bit_paths = paths, tc_rooms = rooms,
         tc_version = schema_text (tget raw ''schema'' VNone) @ ''-'' @ ce_digest ce, tc_instruments = instruments,
         tc_admin_devices = devs, tc_uplink = uplink, tc_artnet_outputs = artnet, tc_psus = psus\<rparr>)))))))))))))))))"

definition artnet_fixtures :: "terrarium_config \<Rightarrow> string \<Rightarrow> string set" where
  "artnet_fixtures config room = an_fixture ` set (filter (\<lambda>o1. an_room o1 = room) (tc_artnet_outputs config))"

text \<open>\<open>validate_rooms\<close>: for each Room the fixtures that nothing would light, \<open>None\<close> when it can be loaded.\<close>

definition room_problem :: "terrarium_config \<Rightarrow> bool \<Rightarrow> string \<times> room_decl \<Rightarrow> string list option" where
  "room_problem config simulated = (\<lambda>(name, spec).
     (if ''array'' \<notin> set (rd_backends spec) \<or> simulated then None
      else case filter (\<lambda>f. f \<notin> artnet_fixtures config name) (map x_name (p_fixtures (rd_profile spec))) of
             [] \<Rightarrow> None
           | missing \<Rightarrow> Some missing))"

definition validate_rooms :: "terrarium_config \<Rightarrow> bool \<Rightarrow> (string, string list option) dict" where
  "validate_rooms config simulated = map (\<lambda>(n, r). (n, room_problem config simulated (n, r))) (tc_rooms config)"

end
