(* ===== verification/Catalog.thy ===== *)
theory Catalog
  imports Terrarium_Config "HOL-Library.List_Lexorder" "HOL-Library.Char_ord"
begin

section \<open>Catalogs of instruments and Rooms\<close>

text \<open>
  \<open>src/control/catalog.py\<close> and \<open>load_terrarium_config\<close>, which reads them. A catalog is a directory of TOML files
  with a \<open>drafts\<close> directory in it; here each is a dictionary from the stems of its files to what the file
  holds: bytes that cannot be read as text, text that is no TOML (\<open>None\<close>), or a table. A directory that does
  not exist has no files. Parsing an entry is the parser of the kind, \<open>parse_instrument\<close> or \<open>parse_room\<close>, and is
  an argument of what serves both kinds. Published entries fail hard; a draft keeps its located error.
\<close>

subsection \<open>Directories and entries\<close>

datatype toml_file = Unreadable | Toml_Text "(string, pyval) dict option"

record catalog_dir =
  cd_published :: "(string, toml_file) dict"
  cd_drafts :: "(string, toml_file) dict"
  cd_model :: "string \<Rightarrow> int \<Rightarrow> model_result option"

datatype entry_state = PUBLISHED | DRAFT

record 'a catalog_entry =
  cg_name :: string
  cg_state :: entry_state
  cg_object :: "'a option"

type_synonym 'a entries = "(entry_state \<times> string, 'a catalog_entry) dict"

type_synonym 'a entry_parser = "string \<Rightarrow> (string, pyval) dict \<Rightarrow> 'a parsed"

text \<open>The pattern \<open>^[A-Za-z0-9_-]+$\<close>, whose \<open>$\<close> also matches before a final line break.\<close>

definition is_name_char :: "char \<Rightarrow> bool" where
  "is_name_char c \<longleftrightarrow>
     (let n = (of_char c :: nat)
      in (65 \<le> n \<and> n \<le> 90) \<or> (97 \<le> n \<and> n \<le> 122) \<or> (48 \<le> n \<and> n \<le> 57) \<or> c = CHR ''_'' \<or> c = CHR ''-'')"

definition catalog_name :: "string \<Rightarrow> bool" where
  "catalog_name s \<longleftrightarrow>
     (let body = (if s \<noteq> [] \<and> List.last s = CHR 0x0A then butlast s else s) in body \<noteq> [] \<and> list_all is_name_char body)"

fun is_located :: "config_error \<Rightarrow> bool" where
  "is_located (Located _) = True"
| "is_located (Located_Output _) = True"
| "is_located _ = False"

text \<open>\<open>sorted(root.glob('*.toml'))\<close>: in the order of the file names.\<close>

definition in_file_order :: "(string, toml_file) dict \<Rightarrow> (string \<times> toml_file) list" where
  "in_file_order d = sort_key (\<lambda>(stem, _). stem @ ''.toml'') d"

subsection \<open>Loading\<close>

definition parse_entry :: "'a entry_parser \<Rightarrow> entry_state \<Rightarrow> string \<times> toml_file \<Rightarrow> 'a catalog_entry parsed" where
  "parse_entry parse st = (\<lambda>(stem, found).
     and_then (demand (catalog_name stem) (Located ''-'')) (\<lambda>_.
     case found of
       Unreadable \<Rightarrow> Inl Escaped
     | Toml_Text None \<Rightarrow>
         (if st = PUBLISHED then Inl (Located ''-'') else Inr \<lparr>cg_name = stem, cg_state = st, cg_object = None\<rparr>)
     | Toml_Text (Some d) \<Rightarrow>
         (case parse stem d of
            Inr x \<Rightarrow> Inr \<lparr>cg_name = stem, cg_state = st, cg_object = Some x\<rparr>
          | Inl e \<Rightarrow>
              (if st = DRAFT \<and> is_located e then Inr \<lparr>cg_name = stem, cg_state = st, cg_object = None\<rparr> else Inl e))))"

definition enter :: "'a catalog_entry \<Rightarrow> 'a entries \<Rightarrow> 'a entries" where
  "enter e entries = dset (cg_state e, cg_name e) e entries"

definition load_catalog :: "'a entry_parser \<Rightarrow> catalog_dir \<Rightarrow> 'a entries parsed" where
  "load_catalog parse dir =
     and_then (parse_each (parse_entry parse PUBLISHED) (in_file_order (cd_published dir))) (\<lambda>ps.
     and_then (parse_each (parse_entry parse DRAFT) (in_file_order (cd_drafts dir))) (\<lambda>ds.
       Inr (fold enter (ps @ ds) [])))"

text \<open>\<open>Catalog.published\<close>: names and objects of the published entries, which all have one.\<close>

fun published :: "'a entries \<Rightarrow> (string, 'a) dict" where
  "published [] = []"
| "published ((_, e) # rest) =
     (case cg_object e of
        Some x \<Rightarrow> if cg_state e = PUBLISHED then (cg_name e, x) # published rest else published rest
      | None \<Rightarrow> published rest)"

definition instrument_entry :: "catalog_dir \<Rightarrow> instrument entry_parser" where
  "instrument_entry dir name d = parse_instrument (cd_model dir) name (VDict d)"

definition room_entry :: "config_env \<Rightarrow> (string, instrument) dict \<Rightarrow> room_decl entry_parser" where
  "room_entry ce instruments name d = parse_room (ce_float ce) instruments name (VDict d)"

subsection \<open>The configuration with its catalogs\<close>

text \<open>
  \<open>tree\<close> is what is found under the paths the document names, relative to its own directory. The catalogs are
  merged in the order of the paths, and a name that occurs twice is refused.
\<close>

fun merge_named :: "(string \<Rightarrow> config_error) \<Rightarrow> (string, 'a) dict \<Rightarrow> (string \<times> 'a) list \<Rightarrow> (string, 'a) dict parsed" where
  "merge_named clash d [] = Inr d"
| "merge_named clash d ((n, x) # rest) = (if dmem n d then Inl (clash n) else merge_named clash (dset n x d) rest)"

fun merge_roots ::
  "(catalog_dir \<Rightarrow> 'a entry_parser) \<Rightarrow> (string \<Rightarrow> catalog_dir) \<Rightarrow> (string \<Rightarrow> config_error) \<Rightarrow> (string, 'a) dict \<Rightarrow>
     string list \<Rightarrow> (string, 'a) dict parsed" where
  "merge_roots parse tree clash d [] = Inr d"
| "merge_roots parse tree clash d (place # places) =
     and_then (load_catalog (parse (tree place)) (tree place)) (\<lambda>entries.
     and_then (merge_named clash d (published entries)) (\<lambda>d'. merge_roots parse tree clash d' places))"

definition load_terrarium_config ::
  "config_env \<Rightarrow> (string \<Rightarrow> catalog_dir) \<Rightarrow> (string, pyval) dict option \<Rightarrow> terrarium_config parsed" where
  "load_terrarium_config ce tree document =
     (case document of
        None \<Rightarrow> parse_terrarium_config ce [] True None
      | Some raw \<Rightarrow>
          and_then (as_table (tget raw ''terrarium'' (VDict [])) Escaped) (\<lambda>terr.
          and_then (and_then (iterate (tget terr ''instrument_paths'' (VList [VStr ''instruments'']))) (parse_each as_str)) (\<lambda>iroots.
          and_then (merge_roots instrument_entry tree (\<lambda>n. Located (instrument_key n)) [] iroots) (\<lambda>extra.
          and_then (parse_terrarium_config ce extra False document) (\<lambda>config.
          and_then (and_then (iterate (tget terr ''room_paths'' (VList [VStr ''rooms'']))) (parse_each as_str)) (\<lambda>rroots.
          and_then (merge_roots (\<lambda>_. room_entry ce (tc_instruments config)) tree (\<lambda>n. Located (room_key n))
                      (tc_rooms config) rroots) (\<lambda>rooms.
          and_then (demand (rooms \<noteq> []) (Located ''rooms'')) (\<lambda>_.
          and_then (refused_by (validate_artnet_outputs (tc_artnet_outputs config) rooms)) (\<lambda>_.
            Inr (config\<lparr>tc_rooms := rooms\<rparr>))))))))))"

subsection \<open>Editing a catalog\<close>

text \<open>
  The operations of the design panel: each gives the directory as it is afterwards and whether the edit was
  accepted, or the exception that escapes. \<open>draft_refused\<close> is \<open>_draft_errors\<close>: whether there are any.
\<close>

definition draft_refused :: "'a entry_parser \<Rightarrow> string \<Rightarrow> (string, pyval) dict option \<Rightarrow> bool parsed" where
  "draft_refused parse name t =
     (case t of
        None \<Rightarrow> Inr True
      | Some d \<Rightarrow> (case parse name d of Inr _ \<Rightarrow> Inr False | Inl e \<Rightarrow> if is_located e then Inr True else Inl e))"

text \<open>\<open>save_draft\<close>: the text is written before it is parsed; its errors are reported and change nothing.\<close>

definition save_draft ::
  "'a entry_parser \<Rightarrow> string \<Rightarrow> (string, pyval) dict option \<Rightarrow> catalog_dir \<Rightarrow> catalog_dir \<times> (bool \<times> bool) parsed" where
  "save_draft parse name t dir =
     (if \<not> catalog_name name then (dir, Inr (False, False))
      else (dir\<lparr>cd_drafts := dset name (Toml_Text t) (cd_drafts dir)\<rparr>,
            and_then (draft_refused parse name t) (\<lambda>errors. Inr (True, errors))))"

definition clone_entry :: "entry_state \<Rightarrow> string \<Rightarrow> string \<Rightarrow> catalog_dir \<Rightarrow> catalog_dir \<times> bool" where
  "clone_entry st source new_name dir =
     (if \<not> catalog_name new_name then (dir, False)
      else case dget (if st = PUBLISHED then cd_published dir else cd_drafts dir) source of
             None \<Rightarrow> (dir, False)
           | Some found \<Rightarrow>
               (if \<not> catalog_name source \<or> dmem new_name (cd_drafts dir) then (dir, False)
                else (dir\<lparr>cd_drafts := dset new_name found (cd_drafts dir)\<rparr>, True)))"

text \<open>Whether the table of a Room has a fixture that names the instrument.\<close>

definition binds_instrument :: "string \<Rightarrow> (string, pyval) dict \<Rightarrow> bool" where
  "binds_instrument name d \<longleftrightarrow>
     (case tget d ''fixtures'' VNone of
        VList fs \<Rightarrow> list_ex (\<lambda>f. case f of VDict fd \<Rightarrow> tget fd ''instrument'' VNone = VStr name | _ \<Rightarrow> False) fs
      | _ \<Rightarrow> False)"

fun room_refusal :: "room_decl entry_parser \<Rightarrow> string \<Rightarrow> (string \<times> toml_file) list \<Rightarrow> bool parsed" where
  "room_refusal parse name [] = Inr False"
| "room_refusal parse name ((stem, found) # rest) =
     (case found of
        Toml_Text (Some d) \<Rightarrow>
          if binds_instrument name d then
            (case parse stem d of
               Inr _ \<Rightarrow> room_refusal parse name rest
             | Inl e \<Rightarrow> if is_located e then Inr True else Inl e)
          else room_refusal parse name rest
      | _ \<Rightarrow> room_refusal parse name rest)"

text \<open>\<open>publish_entry\<close>; \<open>bad_for\<close> is the check of the Rooms that bind an instrument, which a Room does not have.\<close>

definition publish_entry ::
  "'a entry_parser \<Rightarrow> ('a \<Rightarrow> bool parsed) \<Rightarrow> string \<Rightarrow> catalog_dir \<Rightarrow> catalog_dir \<times> bool parsed" where
  "publish_entry parse bad_for name dir =
     (if \<not> catalog_name name then (dir, Inr False)
      else case dget (cd_drafts dir) name of
             None \<Rightarrow> (dir, Inr False)
           | Some Unreadable \<Rightarrow> (dir, Inl Escaped)
           | Some (Toml_Text None) \<Rightarrow> (dir, Inr False)
           | Some (Toml_Text (Some d)) \<Rightarrow>
               (case parse name d of
                  Inl e \<Rightarrow> (dir, if is_located e then Inr False else Inl e)
                | Inr x \<Rightarrow>
                    (case bad_for x of
                       Inl e \<Rightarrow> (dir, Inl e)
                     | Inr True \<Rightarrow> (dir, Inr False)
                     | Inr False \<Rightarrow>
                         (dir\<lparr>cd_drafts := dpop name (cd_drafts dir),
                              cd_published := dset name (Toml_Text (Some d)) (cd_published dir)\<rparr>, Inr True))))"

definition publish_instrument ::
  "config_env \<Rightarrow> (string, instrument) dict \<Rightarrow> catalog_dir \<Rightarrow> string \<Rightarrow> catalog_dir \<Rightarrow> catalog_dir \<times> bool parsed" where
  "publish_instrument ce instruments rooms name dir =
     publish_entry (instrument_entry dir)
       (\<lambda>candidate. room_refusal (room_entry ce (dset name candidate instruments)) name (in_file_order (cd_published rooms)))
       name dir"

definition publish_room :: "config_env \<Rightarrow> (string, instrument) dict \<Rightarrow> string \<Rightarrow> catalog_dir \<Rightarrow> catalog_dir \<times> bool parsed" where
  "publish_room ce instruments name dir = publish_entry (room_entry ce instruments) (\<lambda>_. Inr False) name dir"

subsection \<open>What a loaded catalog holds\<close>

lemma in_file_order_set [simp]: "set (in_file_order d) = set d"
  by (simp add: in_file_order_def)

lemma set_dset_insert: "set (dset k v d) \<subseteq> insert (k, v) (set d)"
  by (induction d) auto

lemma parse_each_source: "parse_each f xs = Inr ys \<Longrightarrow> y \<in> set ys \<Longrightarrow> \<exists>x \<in> set xs. f x = Inr y"
  by (induction xs arbitrary: ys) auto

lemma parse_each_defined: "(\<exists>ys. parse_each f xs = Inr ys) \<longleftrightarrow> (\<forall>x \<in> set xs. \<exists>y. f x = Inr y)"
  by (induction xs) auto

text \<open>A catalog loads exactly when every entry does.\<close>

lemma load_catalog_loads:
  "(\<exists>es. load_catalog parse dir = Inr es) \<longleftrightarrow>
     (\<forall>x \<in> set (cd_published dir). \<exists>e. parse_entry parse PUBLISHED x = Inr e)
     \<and> (\<forall>x \<in> set (cd_drafts dir). \<exists>e. parse_entry parse DRAFT x = Inr e)"
proof -
  have "(\<exists>es. load_catalog parse dir = Inr es) \<longleftrightarrow>
      (\<exists>ps. parse_each (parse_entry parse PUBLISHED) (in_file_order (cd_published dir)) = Inr ps)
      \<and> (\<exists>ds. parse_each (parse_entry parse DRAFT) (in_file_order (cd_drafts dir)) = Inr ds)"
    unfolding load_catalog_def and_then_Inr by blast
  then show ?thesis by (simp only: parse_each_defined in_file_order_set)
qed

lemma published_object:
  assumes "parse_entry parse PUBLISHED x = Inr e"
  shows "\<exists>d y. x = (cg_name e, Toml_Text (Some d)) \<and> parse (cg_name e) d = Inr y \<and> cg_object e = Some y
    \<and> cg_state e = PUBLISHED"
  using assms by (cases x) (auto simp: parse_entry_def split: toml_file.splits option.splits sum.splits)

lemma entry_object:
  assumes "parse_entry parse st x = Inr e" and "cg_object e = Some y"
  shows "\<exists>d. parse (cg_name e) d = Inr y"
  using assms by (cases x) (auto simp: parse_entry_def split: toml_file.splits option.splits sum.splits if_splits)

lemma set_fold_enter: "set (fold enter es d) \<subseteq> set d \<union> (\<lambda>e. ((cg_state e, cg_name e), e)) ` set es"
proof (induction es arbitrary: d)
  case (Cons e es)
  have "set (enter e d) \<subseteq> insert ((cg_state e, cg_name e), e) (set d)"
    unfolding enter_def by (rule set_dset_insert)
  with Cons.IH [of "enter e d"] show ?case by auto
qed simp

lemma published_source: "(n, x) \<in> set (published es) \<Longrightarrow> \<exists>k e. (k, e) \<in> set es \<and> cg_name e = n \<and> cg_object e = Some x"
  by (induction es rule: published.induct) (auto split: option.splits if_splits)

text \<open>Every object a catalog publishes is what the parser made of a table under the entry's name.\<close>

lemma published_parsed:
  assumes l: "load_catalog parse dir = Inr es" and p: "(n, x) \<in> set (published es)"
  shows "\<exists>d. parse n d = Inr x"
proof -
  from l obtain ps ds where
    ps: "parse_each (parse_entry parse PUBLISHED) (in_file_order (cd_published dir)) = Inr ps"
    and ds: "parse_each (parse_entry parse DRAFT) (in_file_order (cd_drafts dir)) = Inr ds"
    and es: "es = fold enter (ps @ ds) []"
    unfolding load_catalog_def and_then_Inr by auto
  from published_source [OF p] obtain k e where e: "(k, e) \<in> set es" "cg_name e = n" "cg_object e = Some x" by blast
  from e(1) es set_fold_enter [of "ps @ ds" "[]"] have "e \<in> set (ps @ ds)" by auto
  then obtain st y where "parse_entry parse st y = Inr e"
    using parse_each_source [OF ps, of e] parse_each_source [OF ds, of e] by auto
  from entry_object [OF this e(3)] e(2) show ?thesis by simp
qed

lemma merge_named_sets: "merge_named clash d xs = Inr d' \<Longrightarrow> set d' \<subseteq> set d \<union> set xs"
proof (induction xs arbitrary: d)
  case (Cons x xs)
  obtain n y where x: "x = (n, y)" by fastforce
  from Cons.prems have m: "merge_named clash (dset n y d) xs = Inr d'" by (auto simp: x split: if_splits)
  from Cons.IH [OF m] set_dset_insert [of n y d] x show ?case by auto
qed simp

lemma merge_roots_parsed:
  assumes "merge_roots parse tree clash d places = Inr d'" and "(n, x) \<in> set d'"
  shows "(n, x) \<in> set d \<or> (\<exists>place t. parse (tree place) n t = Inr x)"
  using assms
proof (induction places arbitrary: d)
  case (Cons place places)
  from Cons.prems(1) obtain es d1 where
    l: "load_catalog (parse (tree place)) (tree place) = Inr es"
    and m: "merge_named clash d (published es) = Inr d1" and r: "merge_roots parse tree clash d1 places = Inr d'"
    by auto
  from Cons.IH [OF r Cons.prems(2)] merge_named_sets [OF m] published_parsed [OF l] show ?case by blast
qed simp

subsection \<open>Publishing\<close>

text \<open>
  An accepted edit never breaks the catalog: what loads before a draft is published loads afterwards, with the
  draft's object under its name.
\<close>

lemma publish_entry_cases:
  assumes "publish_entry parse bad_for name dir = (dir', r)"
  shows "(dir' = dir \<and> r \<noteq> Inr True)
    \<or> (r = Inr True \<and> (\<exists>d x. dget (cd_drafts dir) name = Some (Toml_Text (Some d)) \<and> parse name d = Inr x
        \<and> bad_for x = Inr False \<and> catalog_name name
        \<and> dir' = dir\<lparr>cd_drafts := dpop name (cd_drafts dir),
                     cd_published := dset name (Toml_Text (Some d)) (cd_published dir)\<rparr>))"
  using assms
  by (auto simp: publish_entry_def split: if_splits option.splits toml_file.splits sum.splits bool.splits)

lemma publish_keeps_it_loading:
  assumes l: "load_catalog parse dir = Inr es" and p: "publish_entry parse bad_for name dir = (dir', r)"
  shows "\<exists>es'. load_catalog parse dir' = Inr es'"
proof (cases "r = Inr True")
  case False
  with publish_entry_cases [OF p] l show ?thesis by auto
next
  case True
  with publish_entry_cases [OF p] obtain d x where d: "dget (cd_drafts dir) name = Some (Toml_Text (Some d))" "parse name d = Inr x"
    "catalog_name name" "dir' = dir\<lparr>cd_drafts := dpop name (cd_drafts dir),
                     cd_published := dset name (Toml_Text (Some d)) (cd_published dir)\<rparr>" by auto
  note set_dset_insert [of name "Toml_Text (Some d)" "cd_published dir"]
  moreover have "set (dpop name (cd_drafts dir)) \<subseteq> set (cd_drafts dir)" by (auto simp: AList.delete_eq)
  moreover have "\<exists>e. parse_entry parse PUBLISHED (name, Toml_Text (Some d)) = Inr e" using d by (simp add: parse_entry_def)
  moreover have "\<exists>es. load_catalog parse dir = Inr es" using l by blast
  ultimately show ?thesis unfolding load_catalog_loads d(4) by (simp, blast)
qed

end
