(* ===== verification/Config_Facts.thy ===== *)
theory Config_Facts
  imports Catalog
begin

section \<open>What an accepted configuration guarantees\<close>

text \<open>
  Every instrument and Room of an accepted configuration validates, those of the catalogs included; Art-Net
  outputs never share a universe or a fixture; the outputs of a power supply stay within its budget; and what
  the checks let through.
\<close>

subsection \<open>Instruments and Rooms\<close>

definition instrument_valid :: "instrument \<Rightarrow> bool" where
  "instrument_valid i \<longleftrightarrow> validate_instrument i = None \<and> validate_instrument_manifests i = None"

definition room_valid :: "(string, instrument) dict \<Rightarrow> room_decl \<Rightarrow> bool" where
  "room_valid instruments r \<longleftrightarrow>
     validate_profile (rd_profile r) = None
     \<and> (\<forall>f \<in> set (p_fixtures (rd_profile r)). fixture_instrument_mismatch f = None \<and> x_instrument f \<in> snd ` set instruments)
     \<and> set (rd_backends r) \<subseteq> set KNOWN_BACKENDS"

lemma check_instrument_valid: "check_instrument key i = Inr i' \<Longrightarrow> i' = i \<and> instrument_valid i"
  by (auto simp: check_instrument_def instrument_valid_def)

lemma parse_instrument_valid:
  "parse_instrument read_model iname iraw = Inr i \<Longrightarrow> instrument_valid i"
  by (cases iraw)
     (auto simp: parse_instrument_def Let_def build_instrument_def dest!: check_instrument_valid split: if_splits)

lemma parse_fixture_instrument:
  "parse_fixture key instruments fraw = Inr f \<Longrightarrow> x_instrument f \<in> snd ` set instruments"
  by (cases fraw)
     (auto simp: parse_fixture_def Let_def split: pyval.splits option.splits dest!: map_of_SomeD intro: rev_image_eqI)

lemma parse_each_all:
  assumes "parse_each f xs = Inr ys" and "\<And>x y. x \<in> set xs \<Longrightarrow> f x = Inr y \<Longrightarrow> P y" and "y \<in> set ys"
  shows "P y"
  using parse_each_source [OF assms(1,3)] assms(2) by blast

lemma parse_backend_known: "parse_backend key v = Inr b \<Longrightarrow> b \<in> set KNOWN_BACKENDS"
  by (cases v) (auto simp: parse_backend_def split: if_splits)

lemma parse_room_valid:
  assumes "parse_room py_float instruments rname rraw = Inr r"
  shows "room_valid instruments r"
proof -
  from assms obtain d bs fs backends fixtures where
    b: "parse_backends (room_key rname) bs = Inr backends"
    and f: "parse_each (parse_fixture (room_key rname) instruments) fs = Inr fixtures"
    and r: "build_room py_float rname d backends fixtures = Inr r"
    by (cases rraw) (auto simp: parse_room_def Let_def split: pyval.splits)
  have "rd_backends r = backends" "rd_profile r = \<lparr>p_surface_id = ''room_'' @ map lower_char rname, p_fixtures = fixtures\<rparr>"
    "check_profile (room_key rname) (rd_profile r) = Inr ()"
    using r by (auto simp: build_room_def Let_def)
  moreover have "set backends \<subseteq> set KNOWN_BACKENDS"
    using b parse_each_all [of "parse_backend (room_key rname)" bs backends "\<lambda>b. b \<in> set KNOWN_BACKENDS"] parse_backend_known
    by (auto simp: parse_backends_def split: if_splits)
  moreover have "x_instrument x \<in> snd ` set instruments" if "x \<in> set fixtures" for x
    using parse_each_all [OF f, of "\<lambda>x. x_instrument x \<in> snd ` set instruments" x] parse_fixture_instrument that by blast
  ultimately show ?thesis by (auto simp: room_valid_def check_profile_def list_all_iff)
qed

lemma named_each:
  assumes "parse_each (named f) xs = Inr ys" and "\<And>n x y. f n x = Inr y \<Longrightarrow> P y" and "(n, y) \<in> set ys"
  shows "P y"
  using parse_each_all [OF assms(1), of "\<lambda>z. P (snd z)" "(n, y)"] assms(2,3) by (fastforce simp: named_def)

lemma merge_instruments_sets:
  "merge_instruments insts extra = Inr d \<Longrightarrow> set d \<subseteq> set insts \<union> set extra"
proof (induction extra arbitrary: insts)
  case (Cons x extra)
  obtain n i where x: "x = (n, i)" by fastforce
  from Cons.prems have n: "\<not> dmem n insts" "merge_instruments (dset n i insts) extra = Inr d" by (auto simp: x split: if_splits)
  from Cons.IH [OF n(2)] set_dset_insert [of n i insts] x show ?case by auto
qed simp

lemma parsed_config_instruments:
  assumes "parse_terrarium_config ce extra require_rooms document = Inr config"
    and "\<And>n i. (n, i) \<in> set extra \<Longrightarrow> instrument_valid i"
    and "(n, i) \<in> set (tc_instruments config)"
  shows "instrument_valid i"
proof -
  from assms(1) obtain iraws inline where
    i: "parse_each (named (parse_instrument (ce_model ce))) iraws = Inr inline"
      "merge_instruments inline extra = Inr (tc_instruments config)"
    unfolding parse_terrarium_config_def and_then_Inr by clarsimp
  have "instrument_valid j" if "(m, j) \<in> set inline" for m j
    by (rule named_each [OF i(1) parse_instrument_valid that])
  then show ?thesis using merge_instruments_sets [OF i(2)] assms(2,3) by blast
qed

lemma parsed_config_rooms:
  assumes "parse_terrarium_config ce extra require_rooms document = Inr config"
    and "(n, r) \<in> set (tc_rooms config)"
  shows "room_valid (tc_instruments config) r"
proof -
  from assms(1) obtain rraws where
    r: "parse_each (named (parse_room (ce_float ce) (tc_instruments config))) rraws = Inr (tc_rooms config)"
    unfolding parse_terrarium_config_def and_then_Inr by clarsimp
  show ?thesis by (rule named_each [OF r parse_room_valid assms(2)])
qed

lemma parsed_config_psus:
  "parse_terrarium_config ce extra require_rooms document = Inr config \<Longrightarrow>
   validate_psu_budgets (tc_artnet_outputs config) (tc_psus config) = None"
  unfolding parse_terrarium_config_def and_then_Inr by (clarsimp simp: refused_by_def split: option.splits)

lemma catalog_instrument_valid: "instrument_entry dir n d = Inr i \<Longrightarrow> instrument_valid i"
  unfolding instrument_entry_def by (rule parse_instrument_valid)

lemma catalog_room_valid: "room_entry ce instruments n d = Inr r \<Longrightarrow> room_valid instruments r"
  unfolding room_entry_def by (rule parse_room_valid)

text \<open>
  C22: What a configuration is accepted for. When \<open>load_terrarium_config\<close> accepts a document with the catalogs
  it names, there is a Room; every instrument, whether the document declares it or a catalog does, validates,
  manifests included; every Room, declared inline or in a catalog, has a profile that validates, fixtures
  that match the instruments they name, these being instruments of the configuration, and backends that are
  known; and the Art-Net outputs and the supplies pass their cross-checks against exactly these Rooms. (A
  document with a field of another type than its declared one, which the source lets through unread, is not
  accepted here but \<open>Untyped\<close>.)
\<close>
theorem accepted_config_is_sound:
  assumes "load_terrarium_config ce tree document = Inr config"
  shows "tc_rooms config \<noteq> []
    \<and> (\<forall>(n, i) \<in> set (tc_instruments config). instrument_valid i)
    \<and> (\<forall>(n, r) \<in> set (tc_rooms config). room_valid (tc_instruments config) r)
    \<and> validate_artnet_outputs (tc_artnet_outputs config) (tc_rooms config) = None
    \<and> validate_psu_budgets (tc_artnet_outputs config) (tc_psus config) = None"
proof (cases document)
  case None
  then show ?thesis using assms by (simp add: load_terrarium_config_def parse_terrarium_config_def and_then_def located_unless_def)
next
  case (Some raw)
  from assms obtain iroots extra base rroots rooms where
    x: "merge_roots instrument_entry tree (\<lambda>n. Located (instrument_key n)) [] iroots = Inr extra"
    and p: "parse_terrarium_config ce extra False document = Inr base"
    and r: "merge_roots (\<lambda>_. room_entry ce (tc_instruments base)) tree (\<lambda>n. Located (room_key n)) (tc_rooms base) rroots = Inr rooms"
    and ok: "rooms \<noteq> []" "validate_artnet_outputs (tc_artnet_outputs base) rooms = None"
    and c: "config = base\<lparr>tc_rooms := rooms\<rparr>"
    unfolding load_terrarium_config_def Some option.case and_then_Inr
    by (auto simp: refused_by_def split: option.splits)
  have "instrument_valid i" if "(n, i) \<in> set extra" for n i
    using merge_roots_parsed [OF x that] catalog_instrument_valid by auto
  with parsed_config_instruments [OF p] have "instrument_valid i" if "(n, i) \<in> set (tc_instruments config)" for n i
    using that c by auto
  moreover have "room_valid (tc_instruments config) q" if "(n, q) \<in> set rooms" for n q
    using merge_roots_parsed [OF r that] parsed_config_rooms [OF p] catalog_room_valid c by auto
  ultimately show ?thesis using ok c parsed_config_psus [OF p] by auto
qed

subsection \<open>Universes\<close>

definition uses_universe :: "(string, room_decl) dict \<Rightarrow> artnet_output \<Rightarrow> string \<times> int \<Rightarrow> int \<Rightarrow> bool" where
  "uses_universe rooms o1 addr u \<longleftrightarrow>
     (case output_fixture rooms o1 of
        None \<Rightarrow> False
      | Some f \<Rightarrow> address o1 = addr \<and> fst (universe_span o1 f) \<le> u \<and> u \<le> snd (universe_span o1 f))"

definition outputs_apart :: "(string, room_decl) dict \<Rightarrow> artnet_output \<Rightarrow> artnet_output \<Rightarrow> bool" where
  "outputs_apart rooms o1 o2 \<longleftrightarrow>
     (an_room o1, an_fixture o1) \<noteq> (an_room o2, an_fixture o2)
     \<and> (\<nexists>addr u. uses_universe rooms o1 addr u \<and> uses_universe rooms o2 addr u)"

lemma outputs_apart_sym: "outputs_apart rooms o1 o2 \<Longrightarrow> outputs_apart rooms o2 o1"
  by (auto simp: outputs_apart_def)

lemma validate_outputs_from_apart:
  assumes "validate_outputs_from i rooms seen spans os = None"
  shows "sorted_wrt (outputs_apart rooms) os
    \<and> (\<forall>o1 \<in> set os. \<exists>f. output_fixture rooms o1 = Some f \<and> snd (universe_span o1 f) \<le> ARTNET_MAX_UNIVERSE
        \<and> (an_room o1, an_fixture o1) \<notin> set seen
        \<and> (\<forall>(a, lo, hi) \<in> set spans. a = address o1 \<longrightarrow> \<not> (fst (universe_span o1 f) \<le> hi \<and> lo \<le> snd (universe_span o1 f))))"
  using assms
proof (induction os arbitrary: i seen spans)
  case (Cons o1 os)
  obtain f where f: "output_fixture rooms o1 = Some f" using Cons.prems by (auto split: option.splits)
  obtain lo hi where sp: "universe_span o1 f = (lo, hi)" by fastforce
  have c: "(an_room o1, an_fixture o1) \<notin> set seen" "hi \<le> ARTNET_MAX_UNIVERSE"
      "\<not> list_ex (\<lambda>(a, olo, ohi). a = address o1 \<and> lo \<le> ohi \<and> olo \<le> hi) spans"
    and rest: "validate_outputs_from (Suc i) rooms ((an_room o1, an_fixture o1) # seen) ((address o1, lo, hi) # spans) os = None"
    using Cons.prems by (auto simp: f sp split: if_splits)
  note IH = Cons.IH [OF rest]
  have "outputs_apart rooms o1 o2" if o2: "o2 \<in> set os" for o2
  proof -
    from IH o2 obtain g where g: "output_fixture rooms o2 = Some g" "(an_room o2, an_fixture o2) \<noteq> (an_room o1, an_fixture o1)"
      "address o1 = address o2 \<longrightarrow> \<not> (fst (universe_span o2 g) \<le> hi \<and> lo \<le> snd (universe_span o2 g))" by fastforce
    then show ?thesis by (auto simp: outputs_apart_def uses_universe_def f sp)
  qed
  then show ?case using IH c f sp by (auto simp: list_ex_iff)
qed simp

text \<open>
  C23: No universe has two writers. Among accepted Art-Net outputs no two drive the same fixture, and no universe
  of a controller is written by two of them; every output drives a fixture that exists and stays within the
  universes Art-Net has.
\<close>
theorem universes_have_one_writer:
  assumes "validate_artnet_outputs outs rooms = None"
  shows "(\<forall>i < length outs. \<forall>j < length outs. i \<noteq> j \<longrightarrow> outputs_apart rooms (outs ! i) (outs ! j))
    \<and> (\<forall>o1 \<in> set outs. \<exists>f. output_fixture rooms o1 = Some f \<and> snd (universe_span o1 f) \<le> 32767)"
proof -
  note v = validate_outputs_from_apart [OF assms [unfolded validate_artnet_outputs_def]]
  then have s: "outputs_apart rooms (outs ! i) (outs ! j)" if "i < j" "j < length outs" for i j
    using that by (auto simp: sorted_wrt_iff_nth_less)
  have "outputs_apart rooms (outs ! i) (outs ! j)" if "i < length outs" "j < length outs" "i \<noteq> j" for i j
    using s [of i j] s [of j i] outputs_apart_sym that by (cases i j rule: linorder_cases) auto
  with v show ?thesis by (fastforce simp: ARTNET_MAX_UNIVERSE_def)
qed

subsection \<open>Power\<close>

definition draws_on :: "string \<Rightarrow> artnet_output \<Rightarrow> bool" where
  "draws_on p o1 \<longleftrightarrow> an_psu o1 = Some p"

lemma psu_loads_collects:
  assumes "psu_loads i psus loads os = Inr loads'"
  shows "dget loads' p = (case (dget loads p, map an_max_amps (filter (draws_on p) os)) of
      (x, []) \<Rightarrow> x | (None, l) \<Rightarrow> Some l | (Some k, l) \<Rightarrow> Some (k @ l))"
  using assms
proof (induction os arbitrary: i loads)
  case (Cons o1 os)
  show ?case
  proof (cases "an_psu o1")
    case None
    then show ?thesis using Cons by (simp add: draws_on_def)
  next
    case (Some q)
    let ?loads = "dset q ((case dget loads q of None \<Rightarrow> [] | Some l \<Rightarrow> l) @ [an_max_amps o1]) loads"
    have "psu_loads (Suc i) psus ?loads os = Inr loads'" using Cons.prems Some by (simp split: if_splits)
    from Cons.IH [OF this] Some show ?thesis
      by (cases "p = q") (auto simp: draws_on_def split: option.splits list.splits)
  qed
qed (simp split: option.split)

lemma sum_floats_fin: "sum_floats (map (\<lambda>x. Fin (f x)) xs) = Fin (sum_list (map f xs))"
proof -
  have "foldl fadd (Fin a) (map (\<lambda>x. Fin (f x)) xs) = Fin (a + sum_list (map f xs))" for a
    by (induction xs arbitrary: a) (simp_all add: add.assoc)
  from this [of 0] show ?thesis by (simp add: sum_floats_def)
qed

text \<open>
  A power supply is not overloaded. In an accepted configuration the limits of the outputs that hang on a
  supply sum to at most 80 percent of its rating, up to the tolerance of the comparison, as long as these
  are finite numbers.
\<close>
theorem psu_budget_is_kept:
  assumes "validate_psu_budgets outs psus = None" and "dget psus p = Some (Fin rating)" and "0 < rating"
    and "\<forall>o1 \<in> set outs. draws_on p o1 \<longrightarrow> an_max_amps o1 = Fin (amps o1)"
  shows "sum_list (map amps (filter (draws_on p) outs)) \<le> 4 / 5 * rating + 1 / 1000000000"
proof -
  from assms(1) obtain loads where l: "psu_loads 0 psus [] outs = Inr loads" "List.find (over_budget psus) loads = None"
    by (auto simp: validate_psu_budgets_def split: sum.splits)
  let ?mine = "filter (draws_on p) outs"
  have m: "map an_max_amps ?mine = map (\<lambda>o1. Fin (amps o1)) ?mine" using assms(4) by simp
  show ?thesis
  proof (cases "?mine = []")
    case True
    then show ?thesis using assms(3) by simp
  next
    case False
    then have "dget loads p = Some (map an_max_amps ?mine)"
      using psu_loads_collects [OF l(1), of p] by (simp split: list.splits)
    then have "(p, map an_max_amps ?mine) \<in> set loads" by (rule map_of_SomeD)
    with l(2) have "\<not> over_budget psus (p, map an_max_amps ?mine)" by (auto simp: find_None_iff)
    then show ?thesis
      unfolding m by (simp add: over_budget_def assms(2) PSU_BUDGET_FRACTION_def sum_floats_fin not_less)
  qed
qed

text \<open>
  A limit that is no number passes every check. TOML knows \<open>nan\<close> and \<open>inf\<close>: an output whose \<open>max_amps\<close> is
  \<open>nan\<close> is accepted, and hanging on a supply it is within any budget; one with \<open>inf\<close> and no supply is accepted
  too. The message that goes with the check says that power limiting has no opt-out.
\<close>
theorem nan_amps_pass_every_check:
  "(\<exists>o1. parse_artnet (VList [VDict [(''room'', VStr ''hall''), (''fixture'', VStr ''arch''), (''host'', VStr ''wled''),
        (''max_amps'', VFloat NaN), (''psu'', VStr ''main'')]]) = Inr [o1]
      \<and> an_max_amps o1 = NaN \<and> validate_psu_budgets [o1] [(''main'', Fin 10)] = None)
    \<and> (\<exists>o1. parse_artnet (VList [VDict [(''room'', VStr ''hall''), (''fixture'', VStr ''arch''), (''host'', VStr ''wled''),
        (''max_amps'', VFloat PInf)]]) = Inr [o1]
      \<and> an_max_amps o1 = PInf \<and> validate_psu_budgets [o1] [(''main'', Fin 10)] = None)"
  by (simp add: parse_artnet_def parse_output_def and_then_def demand_def located_unless_def tget_def ARTNET_KEYS_def
      positive_number_def natural_number_def fle_def flt_def validate_psu_budgets_def dmem_def over_budget_def sum_floats_def
      less_pyfloat_def less_eq_pyfloat_def)

text \<open>
  A badly typed trigger is not a located error. A \<open>stream_triggers\<close> entry whose \<open>arg\<close> is no number makes the parser
  raise an exception of another kind than the \<open>TerrariumConfigError\<close> that its callers, the catalog of
  drafts among them, turn into a message.
\<close>
theorem bad_trigger_argument_escapes:
  "parse_instrument read_model ''shroom'' (VDict [(''stream_triggers'',
     VList [VDict [(''name'', VStr ''tilt''), (''verb'', VStr ''tilt''), (''arg'', VStr ''x''), (''transform'', VStr ''smooth'')]])])
   = Inl Escaped"
  by (simp add: parse_instrument_def build_instrument_def Let_def and_then_def demand_def tget_def dmem_def parse_solo_def
      parse_model_def parse_functions_def parse_event_triggers_def parse_stream_triggers_def parse_trigger_tables_def
      trigger_table_def build_stream_trigger_def strip_blanks_def is_blank_def is_digit_def)

subsection \<open>Examples\<close>

definition demo_strip :: "string \<Rightarrow> pyval" where
  "demo_strip name =
     VDict [(''name'', VStr name), (''instrument'', VStr ''ring''),
       (''blocks'', VList [VDict [(''name'', VStr ''b''), (''start'', VInt 0), (''count'', VInt 12)]])]"

definition demo_wled :: "string \<Rightarrow> int \<Rightarrow> pyval" where
  "demo_wled fixture universe =
     VDict [(''room'', VStr ''hall''), (''fixture'', VStr fixture), (''host'', VStr ''wled''), (''max_amps'', VInt 2),
       (''start_universe'', VInt universe), (''psu'', VStr ''main'')]"

definition demo_document :: "(string, pyval) dict" where
  "demo_document =
     [(''schema'', VInt 1), (''terrarium'', VDict [(''name'', VStr ''box'')]),
      (''instruments'', VDict [(''ring'', VDict [(''pixels'', VInt 12), (''capabilities'', VList [VStr ''light.pixels''])])]),
      (''artnet'', VList [demo_wled ''arch'' 0, demo_wled ''wall'' 1]),
      (''psus'', VDict [(''main'', VDict [(''amps'', VInt 5)])]),
      (''rooms'', VDict [(''hall'', VDict [(''fixtures'', VList [demo_strip ''arch'', demo_strip ''wall''])])])]"

definition demo_config_env :: config_env where
  "demo_config_env = \<lparr>ce_digest = ''0'', ce_float = (\<lambda>_. None), ce_model = (\<lambda>_ _. None)\<rparr>"

definition demo_parsed :: "terrarium_config parsed" where
  "demo_parsed = parse_terrarium_config demo_config_env [] True (Some demo_document)"

lemma in_keys: "k \<in> set (map fst d) \<Longrightarrow> \<exists>v. (k, v) \<in> set d"
  by (induction d) auto

lemma parsed_ok: "(case r of Inl _ \<Rightarrow> False | Inr c \<Rightarrow> P c) \<Longrightarrow> \<exists>c. r = Inr c \<and> P c"
  by (cases r) simp_all

text \<open>A document that declares nothing itself, as the shipped one does: its instrument and its Room are files, and a draft is broken.\<close>

definition demo_tree :: "string \<Rightarrow> catalog_dir" where
  "demo_tree place =
     (if place = ''instruments'' then
        \<lparr>cd_published = [(''ring'', Toml_Text (Some [(''pixels'', VInt 12), (''capabilities'', VList [VStr ''light.pixels''])]))],
         cd_drafts = [(''ring'', Toml_Text None)], cd_model = (\<lambda>_ _. None)\<rparr>
      else if place = ''rooms'' then
        \<lparr>cd_published = [(''hall'', Toml_Text (Some [(''fixtures'', VList [demo_strip ''arch''])]))],
         cd_drafts = [], cd_model = (\<lambda>_ _. None)\<rparr>
      else \<lparr>cd_published = [], cd_drafts = [], cd_model = (\<lambda>_ _. None)\<rparr>)"

definition demo_shell :: "(string, pyval) dict" where
  "demo_shell =
     [(''schema'', VInt 1), (''terrarium'', VDict [(''name'', VStr ''box'')]), (''artnet'', VList [demo_wled ''arch'' 0]),
      (''psus'', VDict [(''main'', VDict [(''amps'', VInt 5)])])]"

definition demo_extra :: "(string, instrument) dict" where
  "demo_extra =
     (case merge_roots instrument_entry demo_tree (\<lambda>n. Located (instrument_key n)) [] [''instruments''] of Inl _ \<Rightarrow> [] | Inr d \<Rightarrow> d)"

definition demo_base :: "terrarium_config option" where
  "demo_base =
     (case parse_terrarium_config demo_config_env demo_extra False (Some demo_shell) of Inl _ \<Rightarrow> None | Inr c \<Rightarrow> Some c)"

lemma parsed_value: "(case r of Inl _ \<Rightarrow> False | Inr _ \<Rightarrow> True) \<Longrightarrow> r = Inr (case r of Inl _ \<Rightarrow> d | Inr x \<Rightarrow> x)"
  by (cases r) simp_all

lemma load_accepts:
  assumes "tget raw ''terrarium'' (VDict []) = VDict terr"
    and "and_then (iterate (tget terr ''instrument_paths'' (VList [VStr ''instruments'']))) (parse_each as_str) = Inr iroots"
    and "merge_roots instrument_entry tree (\<lambda>n. Located (instrument_key n)) [] iroots = Inr extra"
    and "parse_terrarium_config ce extra False (Some raw) = Inr c"
    and "and_then (iterate (tget terr ''room_paths'' (VList [VStr ''rooms'']))) (parse_each as_str) = Inr rroots"
    and "merge_roots (\<lambda>_. room_entry ce (tc_instruments c)) tree (\<lambda>n. Located (room_key n)) (tc_rooms c) rroots = Inr rooms"
    and "rooms \<noteq> []" and "validate_artnet_outputs (tc_artnet_outputs c) rooms = None"
  shows "load_terrarium_config ce tree (Some raw) = Inr (c\<lparr>tc_rooms := rooms\<rparr>)"
  unfolding load_terrarium_config_def option.case assms(1) as_table_def pyval.case
  by (simp only: and_then_def [of "Inr _"] sum.case assms(2-8) refused_by_def demand_def if_True option.case not_False_eq_True simp_thms)

lemma demo_config_loads:
  "\<exists>config. load_terrarium_config demo_config_env demo_tree (Some demo_shell) = Inr config
     \<and> map fst (tc_rooms config) = [''hall''] \<and> map fst (tc_instruments config) = [''ring'']"
proof -
  have "(case merge_roots instrument_entry demo_tree (\<lambda>n. Located (instrument_key n)) [] [''instruments''] of Inl _ \<Rightarrow> False | Inr _ \<Rightarrow> True)"
    by code_simp
  then have x: "merge_roots instrument_entry demo_tree (\<lambda>n. Located (instrument_key n)) [] [''instruments''] = Inr demo_extra"
    unfolding demo_extra_def by (rule parsed_value)
  have "(case demo_base of None \<Rightarrow> False | Some c \<Rightarrow> map fst (tc_instruments c) = [''ring''] \<and> tc_rooms c = [])" by code_simp
  then obtain c where c: "demo_base = Some c" "map fst (tc_instruments c) = [''ring'']" "tc_rooms c = []"
    by (auto split: option.splits)
  have p: "parse_terrarium_config demo_config_env demo_extra False (Some demo_shell) = Inr c"
    using c(1) by (simp add: demo_base_def split: sum.splits)
  have "(case merge_roots (\<lambda>_. room_entry demo_config_env (tc_instruments (the demo_base))) demo_tree
        (\<lambda>n. Located (room_key n)) [] [''rooms''] of Inl _ \<Rightarrow> False
      | Inr rooms \<Rightarrow> map fst rooms = [''hall''] \<and> validate_artnet_outputs (tc_artnet_outputs (the demo_base)) rooms = None)"
    by code_simp
  from parsed_ok [OF this] obtain rooms where
    r: "merge_roots (\<lambda>_. room_entry demo_config_env (tc_instruments c)) demo_tree (\<lambda>n. Located (room_key n)) [] [''rooms''] = Inr rooms"
      "map fst rooms = [''hall'']" "validate_artnet_outputs (tc_artnet_outputs c) rooms = None"
    by (auto simp: c(1))
  have "load_terrarium_config demo_config_env demo_tree (Some demo_shell) = Inr (c\<lparr>tc_rooms := rooms\<rparr>)"
  proof (rule load_accepts [OF _ _ x p])
    show "tget demo_shell ''terrarium'' (VDict []) = VDict [(''name'', VStr ''box'')]" by code_simp
    show "and_then (iterate (tget [(''name'', VStr ''box'')] ''instrument_paths'' (VList [VStr ''instruments'']))) (parse_each as_str)
        = Inr [''instruments'']" by code_simp
    show "and_then (iterate (tget [(''name'', VStr ''box'')] ''room_paths'' (VList [VStr ''rooms'']))) (parse_each as_str)
        = Inr [''rooms'']" by code_simp
    show "merge_roots (\<lambda>_. room_entry demo_config_env (tc_instruments c)) demo_tree (\<lambda>n. Located (room_key n)) (tc_rooms c) [''rooms'']
        = Inr rooms" unfolding c(3) by (rule r(1))
    show "rooms \<noteq> []" using r(2) by auto
    show "validate_artnet_outputs (tc_artnet_outputs c) rooms = None" by (rule r(3))
  qed
  then show ?thesis using r(2) c(2) by simp
qed

lemma accepted_config_is_sound_witness:
  "\<exists>config r i. load_terrarium_config demo_config_env demo_tree (Some demo_shell) = Inr config
     \<and> (''hall'', r) \<in> set (tc_rooms config) \<and> room_valid (tc_instruments config) r
     \<and> (''ring'', i) \<in> set (tc_instruments config) \<and> instrument_valid i"
proof -
  obtain config where c: "load_terrarium_config demo_config_env demo_tree (Some demo_shell) = Inr config"
    "map fst (tc_rooms config) = [''hall'']" "map fst (tc_instruments config) = [''ring'']"
    using demo_config_loads by (elim exE conjE)
  have "''hall'' \<in> set (map fst (tc_rooms config))" unfolding c(2) by (rule list.set_intros)
  from in_keys [OF this] obtain r where r: "(''hall'', r) \<in> set (tc_rooms config)" ..
  have "''ring'' \<in> set (map fst (tc_instruments config))" unfolding c(3) by (rule list.set_intros)
  from in_keys [OF this] obtain i where i: "(''ring'', i) \<in> set (tc_instruments config)" ..
  from accepted_config_is_sound [OF c(1)] r i
  have "room_valid (tc_instruments config) r" "instrument_valid i" by fast+
  with c(1) r i show ?thesis by (intro exI conjI)
qed

lemma universes_have_one_writer_witness:
  "\<exists>config. demo_parsed = Inr config \<and> length (tc_artnet_outputs config) = 2
     \<and> outputs_apart (tc_rooms config) (tc_artnet_outputs config ! 0) (tc_artnet_outputs config ! 1)"
proof -
  have "(case demo_parsed of Inl _ \<Rightarrow> False
      | Inr config \<Rightarrow> length (tc_artnet_outputs config) = 2 \<and> validate_artnet_outputs (tc_artnet_outputs config) (tc_rooms config) = None)"
    by code_simp
  from parsed_ok [OF this] obtain config where c: "demo_parsed = Inr config" "length (tc_artnet_outputs config) = 2"
    "validate_artnet_outputs (tc_artnet_outputs config) (tc_rooms config) = None" by blast
  have "outputs_apart (tc_rooms config) (tc_artnet_outputs config ! 0) (tc_artnet_outputs config ! 1)"
    using universes_have_one_writer [OF c(3)] c(2) by simp
  with c(1,2) show ?thesis by blast
qed

lemma psu_budget_is_kept_witness:
  "\<exists>config. demo_parsed = Inr config \<and> sum_list (map (\<lambda>_. 2) (filter (draws_on ''main'') (tc_artnet_outputs config))) \<le> (4 / 5 * 5 + 1 / 1000000000 :: rat)"
proof -
  have "(case demo_parsed of Inl _ \<Rightarrow> False
      | Inr config \<Rightarrow> validate_psu_budgets (tc_artnet_outputs config) (tc_psus config) = None
          \<and> dget (tc_psus config) ''main'' = Some (Fin 5) \<and> list_all (\<lambda>o1. an_max_amps o1 = Fin 2) (tc_artnet_outputs config))"
    by code_simp
  from parsed_ok [OF this] obtain config where c: "demo_parsed = Inr config"
    "validate_psu_budgets (tc_artnet_outputs config) (tc_psus config) = None"
    "dget (tc_psus config) ''main'' = Some (Fin 5)" "list_all (\<lambda>o1. an_max_amps o1 = Fin 2) (tc_artnet_outputs config)" by blast
  have "\<forall>o1 \<in> set (tc_artnet_outputs config). draws_on ''main'' o1 \<longrightarrow> an_max_amps o1 = Fin 2"
    using c(4) by (simp add: list_all_iff)
  from psu_budget_is_kept [OF c(2,3) _ this] c(1) show ?thesis by (intro exI conjI) simp_all
qed

end
