(* ===== verification/Minigame.thy ===== *)
theory Minigame
  imports Engine_State
begin

section \<open>The minigame Bit\<close>

text \<open>
  \<open>MinigameBit\<close> of \<open>src/bits/minigame/minigame_bit.py\<close>: four groups of white lights and four responder
  lights on every Tower, on a beat grid that runs from the first tick, and a purple flash on a player's
  own device for each tap. The \<open>fires\<close> of a tick reads a clock and takes a rational time; a tap takes
  the float the device stamped it with, which may be a NaN. The two \<open>set\<close>s are lists without duplicates;
  the program only sorts them and tests membership.
\<close>

definition BAR_PIXELS :: nat where "BAR_PIXELS = 32"
definition PIXELS_PER_LIGHT :: nat where "PIXELS_PER_LIGHT = 2"
definition LIGHTS_PER_GROUP :: nat where "LIGHTS_PER_GROUP = 4"
definition GROUPS :: nat where "GROUPS = 4"
definition GROUP_PIXELS :: nat where "GROUP_PIXELS = LIGHTS_PER_GROUP * PIXELS_PER_LIGHT"
definition RESPONDERS :: nat where "RESPONDERS = 4"
definition RESPONDER_PIXELS :: nat where "RESPONDER_PIXELS = 24"
definition RESPONDER_FADE_S :: rat where "RESPONDER_FADE_S = 1 / 2"
definition RESPONDER_RGB :: "int list" where "RESPONDER_RGB = [64, 48, 32]"
definition TOWER_PIXELS :: nat where "TOWER_PIXELS = BAR_PIXELS + RESPONDERS * RESPONDER_PIXELS"

definition MINI_BEAT_S :: rat where "MINI_BEAT_S = 60 / 130"
definition BLINK_ON_S :: rat where "BLINK_ON_S = MINI_BEAT_S / 2"
definition BLINK_FADE_S :: rat where "BLINK_FADE_S = 6 / 100"
definition HOLD_S :: rat where "HOLD_S = MINI_BEAT_S + 1 / 10"
definition CLEAR_S :: rat where "CLEAR_S = 5 / 100"
definition TOWER_WHITE :: "int list" where "TOWER_WHITE = [0, 0, 0, 255]"
definition TOWER_BLACK :: "int list" where "TOWER_BLACK = [0, 0, 0, 0]"

definition FLASH_RGB :: "int list" where "FLASH_RGB = [128, 0, 255]"
definition FLASH_FADE_S :: rat where "FLASH_FADE_S = 2 / 10"
definition FLASH_PIXELS :: nat where "FLASH_PIXELS = 4"

definition group_pixels :: "nat \<Rightarrow> nat list" where
  "group_pixels g = [g * GROUP_PIXELS ..< (g + 1) * GROUP_PIXELS]"

definition responder_pixels :: "nat \<Rightarrow> nat list" where
  "responder_pixels r =
     (let start = BAR_PIXELS + r * RESPONDER_PIXELS in [start ..< start + RESPONDER_PIXELS])"

subsection \<open>Levels\<close>

definition blink_value :: "rat \<Rightarrow> int" where
  "blink_value t =
     (let level = min (min (t / BLINK_FADE_S) ((BLINK_ON_S - t) / BLINK_FADE_S)) 1
      in py_round (max level 0 * 255))"

definition responder_value :: "rat \<Rightarrow> int" where
  "responder_value t = py_round (min (max (1 - t / RESPONDER_FADE_S) 0) 1 * 255)"

text \<open>\<open>None\<close> is the \<open>ValueError\<close> of rounding a NaN.\<close>

definition flash_value :: "pyfloat \<Rightarrow> int option" where
  "flash_value elapsed =
     round_float (fmul (fmin (fmax (fsub (Fin 1) (fdiv elapsed (Fin FLASH_FADE_S))) (Fin 0)) (Fin 1)) (Fin 255))"

text \<open>A colour scaled by a level in 0..255, with the W channel at 0.\<close>

definition scaled :: "int list \<Rightarrow> int \<Rightarrow> int list" where
  "scaled rgb value = map (\<lambda>c. c * value div 255) rgb @ [0]"

definition flash_cues :: "dev \<Rightarrow> int \<Rightarrow> pyfloat \<Rightarrow> pyfloat \<Rightarrow> cue list" where
  "flash_cues d value elapsed t =
     map (\<lambda>px. PixelFlashCue d (int px) (scaled FLASH_RGB value) (fsub (Fin FLASH_FADE_S) elapsed) (Some t))
       [0 ..< FLASH_PIXELS]"

text \<open>The paint of some pixels of every Tower.\<close>

definition paint :: "dev list \<Rightarrow> nat list \<Rightarrow> int list \<Rightarrow> rat \<Rightarrow> rat \<Rightarrow> cue list" where
  "paint towers pxs rgb duration t =
     concat (map (\<lambda>d. map (\<lambda>px. PixelFlashCue d (int px) rgb (Fin duration) (Some (Fin t))) pxs) towers)"

definition names_number :: "string \<Rightarrow> dev \<Rightarrow> bool" where
  "names_number p d \<longleftrightarrow>
     starts_with p d \<and> drop (length p) d \<noteq> [] \<and> list_all is_digit (drop (length p) d)"

definition is_tower :: "dev \<Rightarrow> bool" where "is_tower d = names_number ''devtower'' d"
definition is_player :: "dev \<Rightarrow> bool" where "is_player d = names_number ''ie'' d"

subsection \<open>State\<close>

record minigame =
  mg_phase :: nat
  mg_players :: "dev list"
  mg_towers :: "dev list"
  mg_flashes :: "(dev, pyfloat \<times> int) dict"
  mg_next_beat :: "rat option"
  mg_blink_start :: "rat option"
  mg_blink_sent :: int
  mg_beats :: nat
  mg_responders :: "(nat, rat \<times> int) dict"

definition new_minigame :: minigame where
  "new_minigame =
     \<lparr>mg_phase = 1, mg_players = [], mg_towers = [], mg_flashes = [], mg_next_beat = None,
      mg_blink_start = None, mg_blink_sent = 0, mg_beats = 0, mg_responders = []\<rparr>"

definition mini_admits :: "dev \<Rightarrow> string \<Rightarrow> bool" where
  "mini_admits d role =
     (if role = ''player'' then is_player d else if role = ''tower'' then is_tower d else True)"

definition mini_join :: "dev \<Rightarrow> string \<Rightarrow> minigame \<Rightarrow> minigame" where
  "mini_join d role m =
     (let m1 = m\<lparr>mg_players := filter (\<lambda>x. x \<noteq> d) (mg_players m),
                 mg_towers := filter (\<lambda>x. x \<noteq> d) (mg_towers m),
                 mg_flashes := dpop d (mg_flashes m)\<rparr>
      in if role = ''player'' then m1\<lparr>mg_players := mg_players m1 @ [d]\<rparr>
         else if role = ''tower'' then m1\<lparr>mg_towers := mg_towers m1 @ [d]\<rparr>
         else m1)"

subsection \<open>One tick\<close>

text \<open>The loop over the shrooms in mid-flash: a raise leaves what the earlier ones stored.\<close>

fun flash_steps ::
  "rat \<Rightarrow> (dev \<times> pyfloat \<times> int) list \<Rightarrow> (dev, pyfloat \<times> int) dict \<Rightarrow> cue list \<Rightarrow>
   (dev, pyfloat \<times> int) dict \<times> cue list outcome" where
  "flash_steps now [] lit out = (lit, Ret out)"
| "flash_steps now ((d, start, sent) # items) lit out =
     (case flash_value (fsub (Fin now) start) of
        None \<Rightarrow> (lit, Raised)
      | Some value \<Rightarrow>
          flash_steps now items
            (if value = 0 then dpop d lit else dset d (start, value) lit)
            (if 0 < value \<and> value \<noteq> sent
             then out @ flash_cues d value (fsub (Fin now) start) (Fin now) else out))"

definition solid_cues :: "rat \<Rightarrow> minigame \<Rightarrow> cue list" where
  "solid_cues now m =
     paint (sort (mg_towers m)) (concat (map group_pixels [0 ..< mg_phase m - 1])) TOWER_WHITE HOLD_S now"

definition beat_cues :: "rat \<Rightarrow> minigame \<Rightarrow> minigame \<times> cue list" where
  "beat_cues now m =
     (m\<lparr>mg_blink_start := Some now, mg_blink_sent := 0,
        mg_responders := dset (mg_beats m mod RESPONDERS) (now, 0) (mg_responders m),
        mg_beats := Suc (mg_beats m)\<rparr>,
      solid_cues now m)"

definition blink_step :: "rat \<Rightarrow> minigame \<Rightarrow> minigame \<times> cue list" where
  "blink_step now m =
     (case mg_blink_start m of
        None \<Rightarrow> (m, [])
      | Some start \<Rightarrow>
          (let t = now - start in
           if BLINK_ON_S \<le> t then (m\<lparr>mg_blink_start := None\<rparr>, [])
           else (let value = blink_value t in
                 if value = mg_blink_sent m then (m, [])
                 else (m\<lparr>mg_blink_sent := value\<rparr>,
                       paint (sort (mg_towers m)) (group_pixels (mg_phase m - 1)) [0, 0, 0, value]
                         (BLINK_ON_S - t) now))))"

fun responder_loop ::
  "rat \<Rightarrow> dev list \<Rightarrow> (nat \<times> rat \<times> int) list \<Rightarrow> (nat, rat \<times> int) dict \<Rightarrow> cue list \<Rightarrow>
   (nat, rat \<times> int) dict \<times> cue list" where
  "responder_loop now towers [] rs out = (rs, out)"
| "responder_loop now towers ((r, start, sent) # items) rs out =
     (let t = now - start; value = responder_value t in
      if value = 0 then responder_loop now towers items (dpop r rs) out
      else if value = sent then responder_loop now towers items rs out
      else responder_loop now towers items (dset r (start, value) rs)
             (out @ paint towers (responder_pixels r) (scaled RESPONDER_RGB value) (RESPONDER_FADE_S - t) now))"

definition responder_steps :: "rat \<Rightarrow> minigame \<Rightarrow> minigame \<times> cue list" where
  "responder_steps now m =
     (let (rs, out) = responder_loop now (sort (mg_towers m)) (mg_responders m) (mg_responders m) []
      in (m\<lparr>mg_responders := rs\<rparr>, out))"

text \<open>The beat of a tick, if one is due: one at most, and one that is a whole beat late restarts the grid.\<close>

definition due_beat :: "rat \<Rightarrow> minigame \<Rightarrow> rat option" where
  "due_beat now m =
     (let n = (case mg_next_beat m of None \<Rightarrow> now | Some n \<Rightarrow> n)
      in if n \<le> now then Some (if now - n < MINI_BEAT_S then n else now) else None)"

definition beat_step :: "rat \<Rightarrow> minigame \<Rightarrow> minigame \<times> cue list" where
  "beat_step now m =
     (case due_beat now m of
        None \<Rightarrow> (m, [])
      | Some beat \<Rightarrow>
          (let (m', cues) = beat_cues beat m in (m'\<lparr>mg_next_beat := Some (beat + MINI_BEAT_S)\<rparr>, cues)))"

definition tower_steps :: "rat \<Rightarrow> minigame \<Rightarrow> minigame \<times> cue list" where
  "tower_steps now m =
     (let (m1, beat) = beat_step now m;
          (m2, blink) = blink_step now m1;
          (m3, responders) = responder_steps now m2
      in (m3, beat @ blink @ responders))"

definition mini_fires :: "rat \<Rightarrow> minigame \<Rightarrow> minigame \<times> cue list outcome" where
  "mini_fires now m =
     (case flash_steps now (mg_flashes m) (mg_flashes m) [] of
        (lit, Raised) \<Rightarrow> (m\<lparr>mg_flashes := lit\<rparr>, Raised)
      | (lit, Ret out) \<Rightarrow>
          (let (m', cues) = tower_steps now (m\<lparr>mg_flashes := lit\<rparr>) in (m', Ret (out @ cues))))"

subsection \<open>Taps and phases\<close>

definition mini_tap :: "dev \<Rightarrow> pyfloat \<Rightarrow> minigame \<Rightarrow> minigame \<times> cue list" where
  "mini_tap d t m =
     (if d \<notin> set (mg_players m) then (m, [])
      else (m\<lparr>mg_flashes := dset d (t, 255) (mg_flashes m)\<rparr>, flash_cues d 255 (Fin 0) t))"

definition blinking :: "rat \<Rightarrow> minigame \<Rightarrow> bool" where
  "blinking now m \<longleftrightarrow> (case mg_blink_start m of None \<Rightarrow> False | Some start \<Rightarrow> now - start < BLINK_ON_S)"

definition mini_phase :: "nat \<Rightarrow> rat \<Rightarrow> minigame \<Rightarrow> minigame \<times> cue list" where
  "mini_phase p now m =
     (let m1 = m\<lparr>mg_phase := p\<rparr>;
          solid = solid_cues now m1;
          blinks = blinking now m1;
          m2 = (if blinks then m1\<lparr>mg_blink_sent := - 1\<rparr> else m1);
          dark = [(if blinks then p else p - 1) ..< GROUPS];
          clear = paint (sort (mg_towers m2)) (concat (map group_pixels dark)) TOWER_BLACK CLEAR_S now;
          (m3, blink) = blink_step now m2
      in (m3, solid @ clear @ blink))"

definition mini_actions :: "(string \<times> nat) list" where
  "mini_actions = map (\<lambda>p. (''phase'' @ [char_of (48 + p)], p)) [1 ..< GROUPS + 1]"

text \<open>What the Console is shown.\<close>

definition mini_status :: "minigame \<Rightarrow> nat \<times> dev list \<times> dev list" where
  "mini_status m = (mg_phase m, sort (mg_players m), sort (mg_towers m))"

text \<open>What the engine can ask of a running minigame.\<close>

datatype mini_op = MJoin dev string | MTick rat | MTap dev pyfloat | MPhase nat rat

fun mini_step :: "minigame \<Rightarrow> mini_op \<Rightarrow> minigame" where
  "mini_step m (MJoin d role) = mini_join d role m"
| "mini_step m (MTick now) = fst (mini_fires now m)"
| "mini_step m (MTap d t) = fst (mini_tap d t m)"
| "mini_step m (MPhase p now) = (if 1 \<le> p \<and> p \<le> GROUPS then fst (mini_phase p now m) else m)"

fun mini_cues :: "minigame \<Rightarrow> mini_op \<Rightarrow> cue list" where
  "mini_cues m (MJoin d role) = []"
| "mini_cues m (MTick now) = (case snd (mini_fires now m) of Ret cues \<Rightarrow> cues | Raised \<Rightarrow> [])"
| "mini_cues m (MTap d t) = snd (mini_tap d t m)"
| "mini_cues m (MPhase p now) = (if 1 \<le> p \<and> p \<le> GROUPS then snd (mini_phase p now m) else [])"

subsection \<open>What it declares\<close>

definition aurora_held_dark :: "rat \<Rightarrow> pyval" where
  "aurora_held_dark hue =
     VDict [(''instruments'', VList [VDict
       [(''instrument'', VStr ''aurora''), (''target'', VStr ''primary''),
        (''params'', VDict [(''hue'', VFloat (Fin hue)), (''level'', VFloat (Fin 0))]),
        (''lanes'', VList [])]])]"

definition mini_role :: "string \<Rightarrow> string list \<Rightarrow> rat \<Rightarrow> role" where
  "mini_role name verbs hue =
     \<lparr>r_name = name, r_class = JAM, r_capacity = None, r_scored = False, r_uses = verbs, r_samples = [],
      r_ugen_manifest = VDict [], r_light_manifest = aurora_held_dark hue, r_welcome = None,
      r_breath = False, r_requires = None, r_zones = []\<rparr>"

definition mini_role_table :: role_table where
  "mini_role_table =
     \<lparr>rt_roles = [(''player'', mini_role ''player'' [''tap''] (3 / 4)), (''tower'', mini_role ''tower'' [] 0)],
      rt_node_map = [(''MINIGAME_PLAYER_NODE'', [''player'']), (''MINIGAME_TOWER_NODE'', [''tower''])]\<rparr>"

end
