(* ===== verification/Minigame_Facts.thy ===== *)
theory Minigame_Facts
  imports Minigame
begin

section \<open>The minigame Bit: what it shows\<close>

text \<open>
  The levels stay in a byte, the state invariant that makes every cue one a device can render, the beat
  grid, the repaint of a phase switch, and the one input that stops it: a tap stamped with a NaN.
\<close>

declare map_of_eq_Some_iff [simp del]

named_theorems mini_consts \<open>the numbers of the minigame\<close>

lemmas mini_numbers [mini_consts] =
  BAR_PIXELS_def PIXELS_PER_LIGHT_def LIGHTS_PER_GROUP_def GROUPS_def GROUP_PIXELS_def RESPONDERS_def
  RESPONDER_PIXELS_def RESPONDER_FADE_S_def RESPONDER_RGB_def TOWER_PIXELS_def MINI_BEAT_S_def BLINK_ON_S_def
  BLINK_FADE_S_def HOLD_S_def CLEAR_S_def TOWER_WHITE_def TOWER_BLACK_def FLASH_RGB_def FLASH_FADE_S_def
  FLASH_PIXELS_def

subsection \<open>Levels\<close>

abbreviation byte :: "int \<Rightarrow> bool" where
  "byte v \<equiv> 0 \<le> v \<and> v \<le> 255"

lemma round_byte:
  assumes "0 \<le> x" and "x \<le> 1"
  shows "byte (py_round (x * 255))"
  using assms by (auto intro!: py_round_ge py_round_le)

lemma blink_value_byte: "byte (blink_value t)"
  unfolding blink_value_def Let_def by (rule round_byte) auto

lemma responder_value_byte: "byte (responder_value t)"
  unfolding responder_value_def by (rule round_byte) auto

lemma responder_value_dark: "RESPONDER_FADE_S \<le> t \<Longrightarrow> responder_value t = 0"
  by (simp add: responder_value_def RESPONDER_FADE_S_def max_def min_def)
     (simp add: py_round_def)

lemma flash_value_Fin:
  "flash_value (Fin x) = Some (py_round (min (max (1 - x / FLASH_FADE_S) 0) 1 * 255))"
  by (simp add: flash_value_def)

lemma flash_value_NaN: "flash_value NaN = None"
  by (simp add: flash_value_def fsub_def fmax_def fmin_def)

lemma flash_value_byte:
  assumes "flash_value (Fin x) = Some v"
  shows "byte v"
proof -
  have "byte (py_round (min (max (1 - x / FLASH_FADE_S) 0) 1 * 255))"
    by (rule round_byte) auto
  with assms show ?thesis by (simp add: flash_value_Fin)
qed

lemma flash_value_dark:
  assumes "flash_value (Fin x) = Some v" and "0 < v"
  shows "x < FLASH_FADE_S"
proof (rule ccontr)
  assume "\<not> x < FLASH_FADE_S"
  then have "min (max (1 - x / FLASH_FADE_S) 0) 1 = 0"
    by (simp add: FLASH_FADE_S_def max_def min_def)
  with assms show False by (simp add: flash_value_Fin py_round_def)
qed

lemma scaled_bytes:
  assumes "byte v" and "\<forall>c \<in> set rgb. byte c"
  shows "\<forall>c \<in> set (scaled rgb v). byte c"
proof -
  have "byte (c * v div 255)" if "c \<in> set rgb" for c
  proof -
    from that assms have "0 \<le> c" "c \<le> 255" by auto
    with assms have "0 \<le> c * v" "c * v \<le> 255 * 255"
      using mult_mono [of c 255 v 255] by auto
    then show ?thesis
      by (simp add: pos_imp_zdiv_nonneg_iff zdiv_mono1 [of "c * v" "255 * 255" 255, simplified])
  qed
  then show ?thesis by (auto simp: scaled_def)
qed

lemma flash_value_inf: "flash_value PInf = Some 0" "flash_value NInf = Some 255"
  by (simp_all add: flash_value_def FLASH_FADE_S_def finf_def fsub_def fmax_def fmin_def less_pyfloat_def py_round_def)

lemma flash_value_any:
  assumes "flash_value x = Some v"
  shows "byte v" and "0 < v \<Longrightarrow> flt (Fin 0) (fsub (Fin FLASH_FADE_S) x)"
proof -
  consider r where "x = Fin r" | "x = PInf" | "x = NInf" | "x = NaN"
    by (cases x) auto
  then have "byte v \<and> (0 < v \<longrightarrow> flt (Fin 0) (fsub (Fin FLASH_FADE_S) x))"
  proof cases
    case 1
    with assms flash_value_byte flash_value_dark show ?thesis by auto
  next
    case 2
    with assms show ?thesis
      by (simp add: flash_value_inf)
  next
    case 3
    with assms show ?thesis
      by (auto simp: flash_value_inf fsub_def flt_def less_pyfloat_def)
  next
    case 4
    with assms show ?thesis by (simp add: flash_value_NaN)
  qed
  then show "byte v" and "0 < v \<Longrightarrow> flt (Fin 0) (fsub (Fin FLASH_FADE_S) x)" by auto
qed

subsection \<open>The state invariant, and cues that fit\<close>

definition mini_ok :: "minigame \<Rightarrow> bool" where
  "mini_ok m \<longleftrightarrow>
     1 \<le> mg_phase m \<and> mg_phase m \<le> GROUPS \<and> distinct (mg_towers m) \<and> dict_ok (mg_flashes m)
     \<and> set (dkeys (mg_flashes m)) \<subseteq> set (mg_players m) \<and> set (dkeys (mg_responders m)) \<subseteq> {..<RESPONDERS}"

fun cue_fits :: "minigame \<Rightarrow> cue \<Rightarrow> bool" where
  "cue_fits m (PixelFlashCue d px rgb duration _) \<longleftrightarrow>
     length rgb = 4 \<and> (\<forall>c \<in> set rgb. byte c) \<and> flt (Fin 0) duration \<and> 0 \<le> px
     \<and> (d \<in> set (mg_towers m) \<and> px < int TOWER_PIXELS \<or> d \<in> set (mg_players m) \<and> px < int FLASH_PIXELS)"
| "cue_fits m _ \<longleftrightarrow> False"

lemma flash_cues_fit:
  assumes "d \<in> set (mg_players m)" and "flt (Fin 0) (fsub (Fin FLASH_FADE_S) elapsed)" and "byte v"
  shows "\<forall>c \<in> set (flash_cues d v elapsed t). cue_fits m c"
proof -
  have "\<forall>c \<in> set (scaled FLASH_RGB v). byte c"
    by (rule scaled_bytes [OF assms(3)]) (simp add: FLASH_RGB_def)
  moreover have "length (scaled FLASH_RGB v) = 4"
    by (simp add: scaled_def FLASH_RGB_def)
  ultimately show ?thesis
    using assms(1,2) by (simp add: flash_cues_def FLASH_PIXELS_def)
qed

lemma paint_fits:
  assumes "set ds \<subseteq> set (mg_towers m)" and "\<forall>px \<in> set pxs. px < TOWER_PIXELS" and "0 < duration"
    and "length rgb = 4" and "\<forall>c \<in> set rgb. byte c"
  shows "\<forall>c \<in> set (paint ds pxs rgb duration t). cue_fits m c"
  using assms by (auto simp: paint_def)

lemma group_pixels_below: "px \<in> set (group_pixels g) \<Longrightarrow> g < GROUPS \<Longrightarrow> px < BAR_PIXELS"
  by (auto simp: group_pixels_def mini_consts)

lemma responder_pixels_below: "px \<in> set (responder_pixels r) \<Longrightarrow> r < RESPONDERS \<Longrightarrow> px < TOWER_PIXELS"
  by (auto simp: responder_pixels_def mini_consts)

lemma bar_below_tower: "px < BAR_PIXELS \<Longrightarrow> px < TOWER_PIXELS"
  by (simp add: TOWER_PIXELS_def)

lemma solid_cues_fit:
  assumes "mini_ok m"
  shows "\<forall>c \<in> set (solid_cues now m). cue_fits m c"
  unfolding solid_cues_def
  using assms
  by (intro paint_fits) (auto simp: mini_ok_def TOWER_WHITE_def HOLD_S_def MINI_BEAT_S_def
      intro!: bar_below_tower elim!: group_pixels_below)

lemma blink_step_fits:
  assumes "mini_ok m"
  shows "\<forall>c \<in> set (snd (blink_step now m)). cue_fits m c"
proof (cases "mg_blink_start m")
  case (Some start)
  have "\<forall>c \<in> set (paint (sort (mg_towers m)) (group_pixels (mg_phase m - 1)) [0, 0, 0, v] (BLINK_ON_S - (now - start)) now).
          cue_fits m c"
    if "now - start < BLINK_ON_S" and "byte v" for v
    using assms that
    by (intro paint_fits) (auto simp: mini_ok_def intro!: bar_below_tower elim!: group_pixels_below)
  with blink_value_byte [of "now - start"] Some show ?thesis
    by (simp add: blink_step_def Let_def not_le)
qed (simp add: blink_step_def)

lemma responder_loop_fits:
  assumes "set ds \<subseteq> set (mg_towers m)" and "\<forall>r \<in> set (dkeys items). r < RESPONDERS"
    and "\<forall>c \<in> set out. cue_fits m c"
  shows "\<forall>c \<in> set (snd (responder_loop now ds items rs out)). cue_fits m c"
  using assms
proof (induction items arbitrary: rs out)
  case (Cons item items)
  obtain r start sent where item: "item = (r, start, sent)" by (cases item)
  let ?t = "now - start"
  let ?v = "responder_value ?t"
  let ?paint = "paint ds (responder_pixels r) (scaled RESPONDER_RGB ?v) (RESPONDER_FADE_S - ?t) now"
  have rest: "\<forall>c \<in> set (snd (responder_loop now ds items rs' out')). cue_fits m c"
    if "\<forall>c \<in> set out'. cue_fits m c" for rs' out'
    using Cons.prems that by (intro Cons.IH) auto
  show ?case
  proof (cases "?v = 0 \<or> ?v = sent")
    case True
    with rest [OF Cons.prems(3)] item show ?thesis by (auto simp: Let_def)
  next
    case False
    then have lit: "?t < RESPONDER_FADE_S"
      using responder_value_dark [of ?t] by (meson not_le)
    have "\<forall>c \<in> set (scaled RESPONDER_RGB ?v). byte c"
      by (rule scaled_bytes [OF responder_value_byte]) (simp add: RESPONDER_RGB_def)
    then have "\<forall>c \<in> set ?paint. cue_fits m c"
      using Cons.prems item lit responder_pixels_below [of _ r]
      by (intro paint_fits) (auto simp: scaled_def RESPONDER_RGB_def)
    with Cons.prems(3) have "\<forall>c \<in> set (out @ ?paint). cue_fits m c" by auto
    from rest [OF this] False item show ?thesis by (simp add: Let_def)
  qed
qed simp

lemma flash_steps_fits:
  assumes "set (dkeys items) \<subseteq> set (mg_players m)" and "\<forall>c \<in> set out. cue_fits m c"
    and "flash_steps now items lit out = (lit', Ret cues)"
  shows "\<forall>c \<in> set cues. cue_fits m c"
  using assms
proof (induction now items lit out rule: flash_steps.induct)
  case (2 now d start sent items lit out)
  from 2(4) have "flash_value (fsub (Fin now) start) \<noteq> None"
    by (auto split: option.splits)
  then obtain v where v: "flash_value (fsub (Fin now) start) = Some v" by blast
  let ?new = "flash_cues d v (fsub (Fin now) start) (Fin now)"
  have "\<forall>c \<in> set ?new. cue_fits m c" if "0 < v"
    using that 2(2) flash_value_any [OF v] by (intro flash_cues_fit) simp_all
  then have "\<forall>c \<in> set (if 0 < v \<and> v \<noteq> sent then out @ ?new else out). cue_fits m c"
    using 2(3) by auto
  moreover have "set (dkeys items) \<subseteq> set (mg_players m)"
    using 2(2) by simp
  moreover have "flash_steps now items (if v = 0 then dpop d lit else dset d (start, v) lit)
      (if 0 < v \<and> v \<noteq> sent then out @ ?new else out) = (lit', Ret cues)"
    using 2(4) v by simp
  ultimately show ?case using 2(1) [OF v] by blast
qed simp

subsection \<open>Every operation keeps the invariant\<close>

named_theorems mini_frame \<open>what a step of the minigame leaves alone\<close>

lemma blink_step_frame [mini_frame]:
  "mg_phase (fst (blink_step now m)) = mg_phase m" "mg_towers (fst (blink_step now m)) = mg_towers m"
  "mg_players (fst (blink_step now m)) = mg_players m" "mg_flashes (fst (blink_step now m)) = mg_flashes m"
  "mg_responders (fst (blink_step now m)) = mg_responders m" "mg_beats (fst (blink_step now m)) = mg_beats m"
  "mg_next_beat (fst (blink_step now m)) = mg_next_beat m"
  by (simp_all add: blink_step_def Let_def split: option.splits)

lemma beat_step_frame [mini_frame]:
  "mg_phase (fst (beat_step now m)) = mg_phase m" "mg_towers (fst (beat_step now m)) = mg_towers m"
  "mg_players (fst (beat_step now m)) = mg_players m" "mg_flashes (fst (beat_step now m)) = mg_flashes m"
  by (simp_all add: beat_step_def beat_cues_def split: option.splits)

lemma responder_steps_frame [mini_frame]:
  "mg_phase (fst (responder_steps now m)) = mg_phase m" "mg_towers (fst (responder_steps now m)) = mg_towers m"
  "mg_players (fst (responder_steps now m)) = mg_players m" "mg_flashes (fst (responder_steps now m)) = mg_flashes m"
  "mg_beats (fst (responder_steps now m)) = mg_beats m" "mg_next_beat (fst (responder_steps now m)) = mg_next_beat m"
  by (simp_all add: responder_steps_def case_prod_beta)

lemma tower_steps_fst:
  "fst (tower_steps now m) = fst (responder_steps now (fst (blink_step now (fst (beat_step now m)))))"
  by (simp add: tower_steps_def case_prod_beta)

lemma keys_dset: "fst ` set (dset k v d) = insert k (fst ` set d)"
  using arg_cong [OF dkeys_dset [of k v d], of set] by (auto simp: dmem_def split: if_splits)

lemma keys_dpop: "fst ` set (dpop k d) = fst ` set d - {k}"
  using arg_cong [OF dkeys_dpop [of k d], of set] by auto

lemma responder_loop_keys:
  "set (dkeys items) \<subseteq> A \<Longrightarrow> set (dkeys rs) \<subseteq> A \<Longrightarrow>
   set (dkeys (fst (responder_loop now ds items rs out))) \<subseteq> A"
proof (induction items arbitrary: rs out)
  case (Cons item items)
  obtain r start sent where item: "item = (r, start, sent)" by (cases item)
  have "set (dkeys items) \<subseteq> A" and "r \<in> A"
    using Cons.prems(1) item by auto
  moreover have "set (dkeys (dpop r rs)) \<subseteq> A"
    using Cons.prems(2) by (auto simp: keys_dpop)
  moreover have "set (dkeys (dset r x rs)) \<subseteq> A" for x
    using Cons.prems(2) \<open>r \<in> A\<close> by (simp add: keys_dset)
  ultimately show ?case
    using Cons.IH Cons.prems(2) by (simp add: item Let_def)
qed simp

lemma flash_steps_keys:
  "set (dkeys items) \<subseteq> A \<Longrightarrow> dict_ok lit \<Longrightarrow> set (dkeys lit) \<subseteq> A \<Longrightarrow>
   dict_ok (fst (flash_steps now items lit out)) \<and> set (dkeys (fst (flash_steps now items lit out))) \<subseteq> A"
proof (induction now items lit out rule: flash_steps.induct)
  case (2 now d start sent items lit out)
  show ?case
  proof (cases "flash_value (fsub (Fin now) start)")
    case (Some v)
    let ?lit = "if v = 0 then dpop d lit else dset d (start, v) lit"
    have "d \<in> A" and "set (dkeys items) \<subseteq> A"
      using 2(2) by auto
    moreover have "dict_ok ?lit" using 2(3) by simp
    moreover have "set (dkeys ?lit) \<subseteq> A"
      using 2(4) \<open>d \<in> A\<close> by (auto simp: keys_dpop keys_dset)
    ultimately show ?thesis using 2(1) [OF Some] Some by simp
  qed (use 2 in simp)
qed simp

lemma mini_ok_new: "mini_ok new_minigame"
  by (simp add: mini_ok_def new_minigame_def GROUPS_def)

lemma mini_ok_tower_steps:
  assumes "mini_ok m"
  shows "mini_ok (fst (tower_steps now m))"
proof -
  let ?m2 = "fst (blink_step now (fst (beat_step now m)))"
  have "set (dkeys (mg_responders (fst (beat_step now m)))) \<subseteq> {..<RESPONDERS}"
    using assms
    by (auto simp: beat_step_def beat_cues_def mini_ok_def RESPONDERS_def keys_dset split: option.splits)
  then have "set (dkeys (mg_responders ?m2)) \<subseteq> {..<RESPONDERS}"
    by (simp only: blink_step_frame)
  then have "set (dkeys (mg_responders (fst (responder_steps now ?m2)))) \<subseteq> {..<RESPONDERS}"
    using responder_loop_keys [of "mg_responders ?m2" "{..<RESPONDERS}" "mg_responders ?m2" now "sort (mg_towers ?m2)" "[]"]
    by (simp add: responder_steps_def case_prod_beta)
  with assms show ?thesis
    by (auto simp: mini_ok_def tower_steps_fst mini_frame)
qed

lemma mini_ok_flashes:
  assumes "mini_ok m"
  shows "mini_ok (m\<lparr>mg_flashes := fst (flash_steps now (mg_flashes m) (mg_flashes m) out)\<rparr>)"
  using assms flash_steps_keys [of "mg_flashes m" "set (mg_players m)" "mg_flashes m" now out]
  by (simp add: mini_ok_def)

lemma mini_fires_fst:
  "fst (mini_fires now m) =
     (let (lit, r) = flash_steps now (mg_flashes m) (mg_flashes m) []
      in if r = Raised then m\<lparr>mg_flashes := lit\<rparr> else fst (tower_steps now (m\<lparr>mg_flashes := lit\<rparr>)))"
  by (simp add: mini_fires_def case_prod_beta split: outcome.splits)

lemma mini_ok_fires: "mini_ok m \<Longrightarrow> mini_ok (fst (mini_fires now m))"
  using mini_ok_flashes [of m now "[]"] mini_ok_tower_steps
  by (simp add: mini_fires_fst case_prod_beta)

lemma mini_ok_phase:
  assumes "mini_ok m" and "1 \<le> p" and "p \<le> GROUPS"
  shows "mini_ok (fst (mini_phase p now m))"
  using assms by (simp add: mini_phase_def mini_ok_def Let_def case_prod_beta mini_frame)

lemma mini_ok_tap: "mini_ok m \<Longrightarrow> mini_ok (fst (mini_tap d t m))"
  by (auto simp: mini_tap_def mini_ok_def keys_dset)

lemma mini_ok_join: "mini_ok m \<Longrightarrow> mini_ok (mini_join d role m)"
  by (simp add: mini_join_def mini_ok_def Let_def keys_dpop) auto

lemma mini_ok_step: "mini_ok m \<Longrightarrow> mini_ok (mini_step m x)"
  by (cases x) (simp_all add: mini_ok_fires mini_ok_phase mini_ok_tap mini_ok_join)

interpretation mini: machine mini_step mini_ok
  by unfold_locales (rule mini_ok_step)

lemma mini_ok_run: "mini_ok (foldl mini_step new_minigame xs)"
  by (rule mini.inv_run) (rule mini_ok_new)

subsection \<open>Every cue fits the device it is for\<close>

lemma cue_fits_cong:
  assumes "mg_towers m' = mg_towers m" and "mg_players m' = mg_players m"
  shows "cue_fits m' c = cue_fits m c"
  using assms by (cases c) simp_all

lemma mini_ok_blink: "mini_ok m \<Longrightarrow> mini_ok (fst (blink_step now m))"
  by (simp add: mini_ok_def mini_frame)

lemma mini_ok_beat: "mini_ok m \<Longrightarrow> mini_ok (fst (beat_step now m))"
  by (auto simp: beat_step_def beat_cues_def mini_ok_def RESPONDERS_def keys_dset split: option.splits)

lemma beat_step_fits:
  assumes "mini_ok m"
  shows "\<forall>c \<in> set (snd (beat_step now m)). cue_fits m c"
  using solid_cues_fit [OF assms] by (simp add: beat_step_def beat_cues_def split: option.splits)

lemma responder_steps_fits:
  assumes "mini_ok m"
  shows "\<forall>c \<in> set (snd (responder_steps now m)). cue_fits m c"
proof -
  have "\<forall>c \<in> set (snd (responder_loop now (sort (mg_towers m)) (mg_responders m) (mg_responders m) [])). cue_fits m c"
    using assms by (intro responder_loop_fits) (auto simp: mini_ok_def)
  then show ?thesis by (simp add: responder_steps_def case_prod_beta)
qed

lemma tower_steps_fits:
  assumes "mini_ok m"
  shows "\<forall>c \<in> set (snd (tower_steps now m)). cue_fits m c"
proof -
  let ?m1 = "fst (beat_step now m)"
  let ?m2 = "fst (blink_step now ?m1)"
  have "\<forall>c \<in> set (snd (blink_step now ?m1)). cue_fits m c"
    using blink_step_fits [OF mini_ok_beat [OF assms], of now now] cue_fits_cong [of ?m1 m]
    by (simp add: mini_frame)
  moreover have "\<forall>c \<in> set (snd (responder_steps now ?m2)). cue_fits m c"
    using responder_steps_fits [OF mini_ok_blink [OF mini_ok_beat [OF assms]], of now now now]
      cue_fits_cong [of ?m2 m]
    by (simp add: mini_frame)
  ultimately show ?thesis
    using beat_step_fits [OF assms, of now] by (auto simp: tower_steps_def case_prod_beta)
qed

lemma mini_fires_fits:
  assumes "mini_ok m" and "mini_fires now m = (m', Ret cues)"
  shows "\<forall>c \<in> set cues. cue_fits m c"
proof -
  obtain lit out where run: "flash_steps now (mg_flashes m) (mg_flashes m) [] = (lit, Ret out)"
    using assms(2) by (auto simp: mini_fires_def split: outcome.splits prod.splits)
  let ?m = "m\<lparr>mg_flashes := lit\<rparr>"
  have "mini_ok ?m"
    using mini_ok_flashes [OF assms(1), of now "[]"] run by simp
  then have "\<forall>c \<in> set (snd (tower_steps now ?m)). cue_fits m c"
    using tower_steps_fits [of ?m now] cue_fits_cong [of ?m m] by simp
  moreover have "\<forall>c \<in> set out. cue_fits m c"
    using assms(1) by (intro flash_steps_fits [OF _ _ run]) (auto simp: mini_ok_def)
  moreover have "cues = out @ snd (tower_steps now ?m)"
    using assms(2) run by (simp add: mini_fires_def case_prod_beta)
  ultimately show ?thesis by auto
qed

lemma mini_phase_fits:
  assumes "mini_ok m" and "1 \<le> p" and "p \<le> GROUPS"
  shows "\<forall>c \<in> set (snd (mini_phase p now m)). cue_fits m c"
proof -
  let ?m1 = "m\<lparr>mg_phase := p\<rparr>"
  let ?m2 = "if blinking now ?m1 then ?m1\<lparr>mg_blink_sent := - 1\<rparr> else ?m1"
  let ?dark = "[(if blinking now ?m1 then p else p - 1) ..< GROUPS]"
  have fits: "cue_fits ?m1 c = cue_fits m c" "cue_fits ?m2 c = cue_fits m c" for c
    by (rule cue_fits_cong; simp)+
  have ok: "mini_ok ?m1" "mini_ok ?m2"
    using assms by (auto simp: mini_ok_def)
  have "\<forall>c \<in> set (solid_cues now ?m1). cue_fits m c"
    using solid_cues_fit [OF ok(1), of now] fits by simp
  moreover have "\<forall>c \<in> set (snd (blink_step now ?m2)). cue_fits m c"
    using blink_step_fits [OF ok(2), of now] fits by simp
  moreover have "\<forall>c \<in> set (paint (sort (mg_towers m)) (concat (map group_pixels ?dark)) TOWER_BLACK CLEAR_S now). cue_fits m c"
    by (rule paint_fits) (auto simp: TOWER_BLACK_def CLEAR_S_def intro!: bar_below_tower elim!: group_pixels_below)
  ultimately show ?thesis
    by (auto simp: mini_phase_def Let_def case_prod_beta)
qed

lemma mini_tap_fits: "\<forall>c \<in> set (snd (mini_tap d t m)). cue_fits m c"
  using flash_cues_fit [of d m "Fin 0" 255 t] by (simp add: mini_tap_def FLASH_FADE_S_def)

text \<open>
  C38: Whatever the minigame is asked, each cue it answers with paints a pixel that exists, of a Tower or of a
player that joined, in a colour of four bytes and for a time that has not run out.
\<close>
theorem minigame_cues_fit:
  assumes "m = foldl mini_step new_minigame xs" and "c \<in> set (mini_cues m x)"
  shows "cue_fits m c"
proof -
  have ok: "mini_ok m"
    using mini_ok_run [of xs] assms(1) by simp
  show ?thesis
  proof (cases x)
    case (MTick now)
    with assms(2) mini_fires_fits [OF ok, of now] show ?thesis
      by (cases "mini_fires now m") (auto split: outcome.splits)
  qed (use assms(2) ok mini_tap_fits mini_phase_fits in \<open>auto split: if_splits\<close>)
qed

subsection \<open>The beat grid\<close>

definition no_nan :: "minigame \<Rightarrow> bool" where
  "no_nan m \<longleftrightarrow> (\<forall>(d, start, sent) \<in> set (mg_flashes m). start \<noteq> NaN)"

lemma flash_value_None: "flash_value (fsub (Fin now) start) = None \<longleftrightarrow> start = NaN"
  by (cases start) (simp_all add: flash_value_Fin flash_value_NaN flash_value_inf fsub_def)

lemma set_dset_subset: "set (dset k v d) \<subseteq> insert (k, v) (set d)"
  by (induction d) auto

lemma flash_steps_no_nan:
  assumes "\<forall>(d, start, sent) \<in> set items. start \<noteq> NaN" and "\<forall>(d, start, sent) \<in> set lit. start \<noteq> NaN"
  shows "snd (flash_steps now items lit out) \<noteq> Raised
    \<and> (\<forall>(d, start, sent) \<in> set (fst (flash_steps now items lit out)). start \<noteq> NaN)"
  using assms
proof (induction now items lit out rule: flash_steps.induct)
  case (2 now d start sent items lit out)
  have "start \<noteq> NaN" using 2(2) by simp
  then obtain v where v: "flash_value (fsub (Fin now) start) = Some v"
    using flash_value_None [of now start] by blast
  have "\<forall>(d, start, sent) \<in> set (if v = 0 then dpop d lit else dset d (start, v) lit). start \<noteq> NaN"
    using 2(3) \<open>start \<noteq> NaN\<close> set_dset_subset [of d "(start, v)" lit] by (auto simp: AList.delete_eq)
  with 2(1) [OF v] 2(2) v show ?case by simp
qed simp

lemma no_nan_step:
  assumes "no_nan m" and "\<forall>d. x \<noteq> MTap d NaN"
  shows "no_nan (mini_step m x)"
proof (cases x)
  case (MJoin d role)
  with assms show ?thesis
    by (auto simp: no_nan_def mini_join_def Let_def AList.delete_eq)
next
  case (MTick now)
  with assms flash_steps_no_nan [of "mg_flashes m" "mg_flashes m" now "[]"] show ?thesis
    by (auto simp: no_nan_def mini_fires_fst tower_steps_fst mini_frame case_prod_beta)
next
  case (MTap d t)
  with assms show ?thesis
    using set_dset_subset [of d "(t, 255)" "mg_flashes m"] by (auto simp: no_nan_def mini_tap_def)
next
  case (MPhase p now)
  with assms show ?thesis
    by (simp add: no_nan_def mini_phase_def Let_def case_prod_beta mini_frame)
qed

lemma tower_steps_beats:
  "mg_beats (fst (tower_steps now m)) = (if due_beat now m = None then mg_beats m else Suc (mg_beats m))"
  "mg_next_beat (fst (tower_steps now m)) =
     (case due_beat now m of None \<Rightarrow> mg_next_beat m | Some b \<Rightarrow> Some (b + MINI_BEAT_S))"
  by (simp_all add: tower_steps_fst mini_frame beat_step_def beat_cues_def split: option.splits)

lemma tick_beats:
  assumes "no_nan m"
  shows "mg_beats (fst (mini_fires now m)) = (if due_beat now m = None then mg_beats m else Suc (mg_beats m))"
    and "mg_next_beat (fst (mini_fires now m)) =
     (case due_beat now m of None \<Rightarrow> mg_next_beat m | Some b \<Rightarrow> Some (b + MINI_BEAT_S))"
proof -
  have "snd (flash_steps now (mg_flashes m) (mg_flashes m) []) \<noteq> Raised"
    using flash_steps_no_nan [of "mg_flashes m" "mg_flashes m" now "[]"] assms by (auto simp: no_nan_def)
  moreover have "due_beat now (m\<lparr>mg_flashes := lit\<rparr>) = due_beat now m" for lit
    by (simp add: due_beat_def)
  ultimately show "mg_beats (fst (mini_fires now m)) = (if due_beat now m = None then mg_beats m else Suc (mg_beats m))"
    and "mg_next_beat (fst (mini_fires now m)) =
     (case due_beat now m of None \<Rightarrow> mg_next_beat m | Some b \<Rightarrow> Some (b + MINI_BEAT_S))"
    by (simp_all add: mini_fires_fst case_prod_beta tower_steps_beats split: option.splits)
qed

text \<open>Nothing but a tick moves the grid.\<close>

lemma others_keep_the_grid:
  assumes "\<forall>now. x \<noteq> MTick now"
  shows "mg_beats (mini_step m x) = mg_beats m" "mg_next_beat (mini_step m x) = mg_next_beat m"
  using assms
  by (cases x; simp add: mini_join_def mini_tap_def mini_phase_def Let_def case_prod_beta mini_frame)+

text \<open>The grid after a tick at \<open>now\<close>: the next beat is the first gridpoint past it.\<close>

definition on_grid :: "rat \<Rightarrow> rat \<Rightarrow> minigame \<Rightarrow> bool" where
  "on_grid t0 now m \<longleftrightarrow>
     1 \<le> mg_beats m \<and> mg_next_beat m = Some (t0 + of_nat (mg_beats m) * MINI_BEAT_S)
     \<and> t0 + (of_nat (mg_beats m) - 1) * MINI_BEAT_S \<le> now \<and> now < t0 + of_nat (mg_beats m) * MINI_BEAT_S"

lemma on_grid_first:
  assumes "no_nan m" and "mg_next_beat m = None" and "mg_beats m = 0"
  shows "on_grid t0 t0 (fst (mini_fires t0 m))"
  using assms by (simp add: on_grid_def tick_beats due_beat_def MINI_BEAT_S_def)

lemma on_grid_next:
  assumes "no_nan m" and "on_grid t0 t m" and "t \<le> now" and "now - t < MINI_BEAT_S"
  shows "on_grid t0 now (fst (mini_fires now m))"
proof (cases "t0 + of_nat (mg_beats m) * MINI_BEAT_S \<le> now")
  case True
  let ?n = "t0 + of_nat (mg_beats m) * MINI_BEAT_S"
  have "now - ?n < MINI_BEAT_S" using assms(2,4) by (simp add: on_grid_def)
  then have "due_beat now m = Some ?n"
    using True assms(2) by (simp add: due_beat_def on_grid_def)
  with assms(1,2) True \<open>now - ?n < MINI_BEAT_S\<close> show ?thesis
    by (simp add: on_grid_def tick_beats algebra_simps)
next
  case False
  then have "due_beat now m = None"
    using assms(2) by (simp add: due_beat_def on_grid_def)
  with assms False show ?thesis by (simp add: on_grid_def tick_beats)
qed

definition tick_times :: "mini_op list \<Rightarrow> rat list" where
  "tick_times xs = List.map_filter (\<lambda>x. case x of MTick now \<Rightarrow> Some now | _ \<Rightarrow> None) xs"

definition steady :: "rat list \<Rightarrow> bool" where
  "steady ts \<longleftrightarrow> successively (\<lambda>a b. a \<le> b \<and> b - a < MINI_BEAT_S) ts"

lemma tick_times_snoc:
  "tick_times (xs @ [x]) = tick_times xs @ (case x of MTick now \<Rightarrow> [now] | _ \<Rightarrow> [])"
  by (simp add: tick_times_def List.map_filter_def split: mini_op.splits)

lemma grid_run:
  assumes "\<forall>d. MTap d NaN \<notin> set xs" and "steady (tick_times xs)"
  shows "let m = foldl mini_step new_minigame xs in no_nan m
    \<and> (if tick_times xs = [] then mg_next_beat m = None \<and> mg_beats m = 0
       else on_grid (hd (tick_times xs)) (last (tick_times xs)) m)"
  using assms
proof (induction xs rule: rev_induct)
  case Nil
  show ?case by (simp add: tick_times_def List.map_filter_def no_nan_def new_minigame_def)
next
  case (snoc x xs)
  let ?m = "foldl mini_step new_minigame xs"
  have "steady (tick_times xs)"
    using snoc.prems(2) by (auto simp: tick_times_snoc steady_def successively_append_iff split: mini_op.splits)
  with snoc have IH: "no_nan ?m" "if tick_times xs = [] then mg_next_beat ?m = None \<and> mg_beats ?m = 0
       else on_grid (hd (tick_times xs)) (last (tick_times xs)) ?m"
    by (simp_all add: Let_def)
  have safe: "no_nan (mini_step ?m x)"
    using IH(1) snoc.prems(1) by (intro no_nan_step) auto
  show ?case
  proof (cases "\<exists>now. x = MTick now")
    case True
    then obtain now where x: "x = MTick now" by blast
    show ?thesis
    proof (cases "tick_times xs = []")
      case True
      with IH on_grid_first [of ?m now] safe x show ?thesis by (simp add: tick_times_snoc)
    next
      case False
      with snoc.prems(2) x have "last (tick_times xs) \<le> now" "now - last (tick_times xs) < MINI_BEAT_S"
        by (auto simp: tick_times_snoc steady_def successively_append_iff)
      with False IH on_grid_next [of ?m _ "last (tick_times xs)" now] safe x show ?thesis
        by (simp add: tick_times_snoc)
    qed
  next
    case False
    then have "tick_times (xs @ [x]) = tick_times xs" by (simp add: tick_times_snoc split: mini_op.splits)
    moreover have "on_grid t0 t (mini_step ?m x) \<longleftrightarrow> on_grid t0 t ?m" for t0 t
      by (simp add: on_grid_def others_keep_the_grid [OF False [simplified]])
    ultimately show ?thesis
      using IH safe others_keep_the_grid [OF False [simplified]] by simp
  qed
qed

text \<open>
While ticks come less than a beat apart and no tap is stamped with a NaN, the beats of a minigame stand
on one grid from its first tick: however joins, taps and phase switches fall between the ticks, the
number of beats struck is the number of gridpoints passed, and the next one is due on the grid.
\<close>
theorem beat_grid_is_unbroken:
  assumes "m = foldl mini_step new_minigame xs" and "tick_times xs = t0 # ts" and "steady (t0 # ts)"
    and "\<forall>d. MTap d NaN \<notin> set xs"
  shows "mg_beats m = nat \<lfloor>(last (t0 # ts) - t0) / MINI_BEAT_S\<rfloor> + 1
    \<and> mg_next_beat m = Some (t0 + of_nat (mg_beats m) * MINI_BEAT_S)"
proof -
  let ?k = "(last (t0 # ts) - t0) / MINI_BEAT_S"
  have grid: "on_grid t0 (last (t0 # ts)) m"
    using grid_run [OF assms(4)] assms(1-3) by (simp add: Let_def split: if_splits)
  then have "of_nat (mg_beats m) - 1 \<le> ?k" "?k < of_nat (mg_beats m)"
    by (simp_all add: on_grid_def MINI_BEAT_S_def field_simps)
  then have "\<lfloor>?k\<rfloor> = int (mg_beats m) - 1"
    by (intro floor_unique) simp_all
  moreover from grid obtain b where "mg_beats m = Suc b"
    by (cases "mg_beats m") (simp_all add: on_grid_def)
  moreover from grid have "mg_next_beat m = Some (t0 + of_nat (mg_beats m) * MINI_BEAT_S)"
    by (simp add: on_grid_def)
  ultimately show ?thesis by simp
qed

lemma beat_grid_is_unbroken_witness:
  "mg_beats (foldl mini_step new_minigame
     [MJoin ''devtower1'' ''tower'', MTick 10, MTick (104 / 10), MPhase 3 (105 / 10), MTick (108 / 10)]) = 2"
proof -
  let ?xs = "[MJoin ''devtower1'' ''tower'', MTick 10, MTick (104 / 10), MPhase 3 (105 / 10), MTick (108 / 10)]"
  have "tick_times ?xs = 10 # [104 / 10, 108 / 10]"
    by code_simp
  moreover have "steady (10 # [104 / 10, 108 / 10])"
    by (simp add: steady_def MINI_BEAT_S_def)
  ultimately have "mg_beats (foldl mini_step new_minigame ?xs)
      = nat \<lfloor>(last (10 # [104 / 10, 108 / 10]) - 10) / MINI_BEAT_S\<rfloor> + 1"
    using beat_grid_is_unbroken [OF refl, of ?xs] by simp
  moreover have "\<lfloor>(last (10 # [104 / 10, 108 / 10]) - 10 :: rat) / MINI_BEAT_S\<rfloor> = 1"
    by (simp add: MINI_BEAT_S_def floor_eq_iff)
  ultimately show ?thesis by simp
qed

lemma minigame_cues_fit_witness:
  "\<exists>c. c \<in> set (mini_cues (foldl mini_step new_minigame [MJoin ''ie1'' ''player'']) (MTap ''ie1'' (Fin 3)))
     \<and> cue_fits (foldl mini_step new_minigame [MJoin ''ie1'' ''player'']) c"
proof -
  let ?m = "foldl mini_step new_minigame [MJoin ''ie1'' ''player'']"
  have "mini_cues ?m (MTap ''ie1'' (Fin 3)) \<noteq> []"
    by (simp add: mini_tap_def mini_join_def new_minigame_def flash_cues_def FLASH_PIXELS_def)
  then obtain c where "c \<in> set (mini_cues ?m (MTap ''ie1'' (Fin 3)))"
    by (cases "mini_cues ?m (MTap ''ie1'' (Fin 3))") auto
  with minigame_cues_fit [OF refl this] show ?thesis by blast
qed

subsection \<open>A phase switch repaints the bar\<close>

definition colours :: "dev \<Rightarrow> nat \<Rightarrow> cue list \<Rightarrow> int list list" where
  "colours d px cs = List.map_filter (\<lambda>c. case c of PixelFlashCue d' px' rgb _ _ \<Rightarrow>
     if d' = d \<and> px' = int px then Some rgb else None | _ \<Rightarrow> None) cs"

lemma colours_append [simp]: "colours d px (a @ b) = colours d px a @ colours d px b"
  by (simp add: colours_def List.map_filter_def)

lemma colours_Nil [simp]: "colours d px [] = []"
  by (simp add: colours_def List.map_filter_def)

lemma colours_row:
  assumes "distinct pxs"
  shows "colours d px (map (\<lambda>p. PixelFlashCue d' (int p) rgb duration t) pxs)
    = (if d' = d \<and> px \<in> set pxs then [rgb] else [])"
  using assms by (induction pxs) (auto simp: colours_def List.map_filter_def)

lemma colours_paint:
  assumes "distinct ds" and "distinct pxs"
  shows "colours d px (paint ds pxs rgb duration t) = (if d \<in> set ds \<and> px \<in> set pxs then [rgb] else [])"
  using assms by (induction ds) (auto simp: paint_def colours_row)

lemma groups_concat: "concat (map group_pixels [a ..< b]) = [a * GROUP_PIXELS ..< max a b * GROUP_PIXELS]"
proof (induction b)
  case (Suc b)
  show ?case
  proof (cases "a \<le> b")
    case True
    then have "[a * GROUP_PIXELS ..< b * GROUP_PIXELS] @ group_pixels b = [a * GROUP_PIXELS ..< Suc b * GROUP_PIXELS]"
      using upt_add_eq_append [of "a * GROUP_PIXELS" "b * GROUP_PIXELS" GROUP_PIXELS]
      by (simp add: group_pixels_def add.commute)
    with True Suc show ?thesis by (simp add: max_def)
  qed (simp add: max_def)
qed (simp add: max_def)

lemma blink_step_colours:
  assumes "distinct (mg_towers m)" and "mg_blink_sent m = - 1"
  shows "colours d px (snd (blink_step now m)) =
    (if d \<in> set (mg_towers m) \<and> px \<in> set (group_pixels (mg_phase m - 1)) then
       (case mg_blink_start m of None \<Rightarrow> [] | Some start \<Rightarrow>
          if now - start < BLINK_ON_S then [[0, 0, 0, blink_value (now - start)]] else []) else [])"
proof -
  have "distinct (group_pixels g)" for g by (simp add: group_pixels_def)
  moreover have "blink_value t \<noteq> - 1" for t
    using blink_value_byte [of t] by linarith
  ultimately show ?thesis
    using assms by (simp add: blink_step_def Let_def colours_paint split: option.splits)
qed

lemma blink_step_quiet: "\<not> blinking now m \<Longrightarrow> snd (blink_step now m) = []"
  by (simp add: blinking_def blink_step_def Let_def split: option.splits)

text \<open>The colour a bar pixel must have right after a switch to phase \<open>p\<close>.\<close>

definition bar_colour :: "nat \<Rightarrow> rat \<Rightarrow> minigame \<Rightarrow> nat \<Rightarrow> int list" where
  "bar_colour p now m px =
     (if px < (p - 1) * GROUP_PIXELS then TOWER_WHITE
      else if px < p * GROUP_PIXELS
      then (case mg_blink_start m of
              Some start \<Rightarrow> if now - start < BLINK_ON_S then [0, 0, 0, blink_value (now - start)] else TOWER_BLACK
            | None \<Rightarrow> TOWER_BLACK)
      else TOWER_BLACK)"

text \<open>
A phase switch repaints each of the 32 bar pixels of each Tower exactly once: white below the new
phase's group, the blink's present level on that group (black between blinks), black above. It leaves
the beat grid and the responders as they were.
\<close>
theorem phase_switch_repaints_the_bar:
  assumes "m = foldl mini_step new_minigame xs" and "1 \<le> p" and "p \<le> GROUPS"
    and "d \<in> set (mg_towers m)" and "px < BAR_PIXELS" and "mini_phase p now m = (m', cues)"
  shows "colours d px cues = [bar_colour p now m px]
    \<and> mg_next_beat m' = mg_next_beat m \<and> mg_beats m' = mg_beats m \<and> mg_responders m' = mg_responders m"
proof -
  let ?m1 = "m\<lparr>mg_phase := p\<rparr>"
  let ?m2 = "if blinking now ?m1 then ?m1\<lparr>mg_blink_sent := - 1\<rparr> else ?m1"
  let ?a = "if blinking now ?m1 then p else p - 1"
  have "distinct (mg_towers m)"
    using mini_ok_run [of xs] assms(1) by (simp add: mini_ok_def)
  then have solid: "colours d px (solid_cues now ?m1) = (if px < (p - 1) * GROUP_PIXELS then [TOWER_WHITE] else [])"
    using assms(4) by (simp add: solid_cues_def groups_concat colours_paint)
  have dark: "colours d px (paint (sort (mg_towers m)) (concat (map group_pixels [?a ..< GROUPS])) TOWER_BLACK CLEAR_S now)
      = (if ?a * GROUP_PIXELS \<le> px then [TOWER_BLACK] else [])"
    using assms(2-5) \<open>distinct (mg_towers m)\<close>
    by (auto simp: groups_concat colours_paint max_def GROUPS_def GROUP_PIXELS_def BAR_PIXELS_def
        LIGHTS_PER_GROUP_def PIXELS_PER_LIGHT_def)
  have blink: "colours d px (snd (blink_step now ?m2)) =
      (if (p - 1) * GROUP_PIXELS \<le> px \<and> px < p * GROUP_PIXELS \<and> blinking now ?m1
       then [bar_colour p now m px] else [])"
    using blink_step_quiet [of now ?m1] blink_step_colours [of ?m2 d px now] \<open>distinct (mg_towers m)\<close> assms(2,4)
    by (auto simp: blinking_def bar_colour_def group_pixels_def split: option.splits)
  have "snd (mini_phase p now m) = solid_cues now ?m1
      @ paint (sort (mg_towers m)) (concat (map group_pixels [?a ..< GROUPS])) TOWER_BLACK CLEAR_S now
      @ snd (blink_step now ?m2)"
    by (simp add: mini_phase_def Let_def case_prod_beta)
  with assms(6) solid dark blink have "colours d px cues = [bar_colour p now m px]"
    using assms(2) by (cases p) (auto simp: bar_colour_def blinking_def split: option.splits)
  moreover from assms(6) have "m' = fst (blink_step now ?m2)"
    by (simp add: mini_phase_def Let_def case_prod_beta)
  then have "mg_next_beat m' = mg_next_beat m" "mg_beats m' = mg_beats m" "mg_responders m' = mg_responders m"
    by (simp_all add: mini_frame)
  ultimately show ?thesis by simp
qed

lemma phase_switch_repaints_the_bar_witness:
  "colours ''devtower1'' 9 (snd (mini_phase 2 (101 / 10)
     (foldl mini_step new_minigame [MJoin ''devtower1'' ''tower'', MTick 10]))) = [[0, 0, 0, 255]]"
proof -
  let ?m = "foldl mini_step new_minigame [MJoin ''devtower1'' ''tower'', MTick 10]"
  have "mg_towers ?m = [''devtower1'']" "mg_blink_start ?m = Some 10"
    by code_simp+
  moreover have "bar_colour 2 (101 / 10) ?m 9 = [0, 0, 0, 255]"
    by code_simp
  ultimately show ?thesis
    using phase_switch_repaints_the_bar [where xs = "[MJoin ''devtower1'' ''tower'', MTick 10]" and p = 2
        and d = "''devtower1''" and px = 9 and now = "101 / 10", OF refl _ _ _ _ prod.collapse [symmetric]]
    by (simp add: GROUPS_def BAR_PIXELS_def)
qed

subsection \<open>A tap stamped with a NaN\<close>

definition poisoned :: "dev \<Rightarrow> minigame \<Rightarrow> bool" where
  "poisoned d m \<longleftrightarrow> dict_ok (mg_flashes m) \<and> (\<exists>sent. dget (mg_flashes m) d = Some (NaN, sent))"

lemma flash_steps_poisoned:
  assumes "dict_ok items" and "dget items d = Some (NaN, sent)" and "dict_ok lit" and "dget lit d = Some (NaN, sent)"
  shows "snd (flash_steps now items lit out) = Raised \<and> dict_ok (fst (flash_steps now items lit out))
    \<and> dget (fst (flash_steps now items lit out)) d = Some (NaN, sent)"
  using assms
proof (induction now items lit out rule: flash_steps.induct)
  case (2 now d' start sent' items lit out)
  show ?case
  proof (cases "flash_value (fsub (Fin now) start)")
    case None
    with 2 show ?thesis by simp
  next
    case (Some v)
    then have "d' \<noteq> d" using 2(3) flash_value_None [of now start] by auto
    with 2(3) have "dget items d = Some (NaN, sent)" by simp
    moreover have "dict_ok items" using 2(2) by simp
    moreover have "dict_ok (if v = 0 then dpop d' lit else dset d' (start, v) lit)"
      using 2(4) by simp
    moreover have "dget (if v = 0 then dpop d' lit else dset d' (start, v) lit) d = Some (NaN, sent)"
      using 2(5) \<open>d' \<noteq> d\<close> by simp
    ultimately show ?thesis
      using 2(1) [OF Some] by (simp only: flash_steps.simps Some option.case simp_thms)
  qed
qed simp

lemma poisoned_fires:
  assumes "poisoned d m"
  shows "snd (mini_fires now m) = Raised" and "poisoned d (fst (mini_fires now m))"
    and "mg_next_beat (fst (mini_fires now m)) = mg_next_beat m" and "mg_beats (fst (mini_fires now m)) = mg_beats m"
proof -
  from assms obtain sent where "dict_ok (mg_flashes m)" and "dget (mg_flashes m) d = Some (NaN, sent)"
    by (auto simp: poisoned_def)
  from flash_steps_poisoned [OF this this, of now "[]"] this
  show "snd (mini_fires now m) = Raised" and "poisoned d (fst (mini_fires now m))"
    and "mg_next_beat (fst (mini_fires now m)) = mg_next_beat m" and "mg_beats (fst (mini_fires now m)) = mg_beats m"
    by (auto simp: mini_fires_def poisoned_def split: outcome.splits prod.splits)
qed

text \<open>Only a new join or a new tap of the device takes the stamp away.\<close>

definition leaves_stamp :: "dev \<Rightarrow> mini_op \<Rightarrow> bool" where
  "leaves_stamp d x \<longleftrightarrow> (case x of MJoin d' _ \<Rightarrow> d' \<noteq> d | MTap d' _ \<Rightarrow> d' \<noteq> d | _ \<Rightarrow> True)"

lemma poisoned_step:
  assumes "poisoned d m" and "leaves_stamp d x"
  shows "poisoned d (mini_step m x) \<and> mg_beats (mini_step m x) = mg_beats m"
proof (cases x)
  case (MTick now)
  with poisoned_fires [OF assms(1)] show ?thesis by simp
next
  case (MPhase p now)
  with assms(1) show ?thesis
    by (simp add: poisoned_def mini_phase_def Let_def case_prod_beta mini_frame)
qed (use assms in \<open>auto simp: poisoned_def leaves_stamp_def mini_join_def mini_tap_def Let_def\<close>)

lemma poisoned_run:
  assumes "poisoned d m" and "\<forall>x \<in> set xs. leaves_stamp d x"
  shows "poisoned d (foldl mini_step m xs) \<and> mg_beats (foldl mini_step m xs) = mg_beats m"
  using assms
proof (induction xs arbitrary: m)
  case (Cons x xs)
  with poisoned_step [of d m x] show ?case by simp
qed simp

text \<open>
One tap that a player's device stamps with a NaN stops the show: from then on every tick of the minigame
raises and no beat is struck, on any Tower, whatever else happens, until that device taps or joins again.
\<close>
theorem nan_tap_stops_the_towers:
  assumes "m = foldl mini_step new_minigame xs" and "d \<in> set (mg_players m)"
    and "m' = foldl mini_step (mini_step m (MTap d NaN)) ys" and "\<forall>y \<in> set ys. leaves_stamp d y"
  shows "snd (mini_fires now m') = Raised \<and> mg_beats m' = mg_beats m"
proof -
  have "mini_ok m" using mini_ok_run [of xs] assms(1) by simp
  then have "poisoned d (mini_step m (MTap d NaN))" "mg_beats (mini_step m (MTap d NaN)) = mg_beats m"
    using assms(2) by (simp_all add: poisoned_def mini_tap_def mini_ok_def)
  with poisoned_run [of d _ ys] assms(3,4) poisoned_fires(1) [of d m' now] show ?thesis by simp
qed

lemma nan_tap_stops_the_towers_witness:
  "snd (mini_fires 20 (foldl mini_step (mini_step (foldl mini_step new_minigame
     [MJoin ''devtower1'' ''tower'', MJoin ''ie1'' ''player'', MTick 10]) (MTap ''ie1'' NaN)) [MTick 11, MPhase 2 12])) = Raised"
proof -
  let ?m = "foldl mini_step new_minigame [MJoin ''devtower1'' ''tower'', MJoin ''ie1'' ''player'', MTick 10]"
  have "mg_players ?m = [''ie1'']" by code_simp
  then show ?thesis
    using nan_tap_stops_the_towers [where xs = "[MJoin ''devtower1'' ''tower'', MJoin ''ie1'' ''player'', MTick 10]"
        and ys = "[MTick 11, MPhase 2 12]" and d = "''ie1''" and now = 20, OF refl _ refl]
    by (simp add: leaves_stamp_def)
qed

end
