(* ===== verification/Minigame_Engine.thy ===== *)
theory Minigame_Engine
  imports Minigame_Facts Engine_Frames
begin

section \<open>The minigame Bit in the engine\<close>

text \<open>
  The minigame as the record of hooks the engine drives, and what follows for the two together: nothing
  it reports is dropped on the way, and a gesture stamped with a NaN, which the engine lets through,
  silences the Bit in the engine. The engine hands \<open>fires\<close> its own clock plus the horizon, a finite time.
\<close>

definition mini_env ::
  "bit_conf option \<Rightarrow> (string, instrument) dict \<Rightarrow> dev list \<Rightarrow> rat \<Rightarrow> (effect list \<Rightarrow> effect \<Rightarrow> sink_result) \<Rightarrow> minigame env" where
  "mini_env conf instruments admins horizon sink =
     \<lparr>v_make = (\<lambda>_. Ret new_minigame), v_version = (\<lambda>_. ''0.9''), v_config = (\<lambda>_. conf),
      v_role_table = (\<lambda>m. (m, Ret mini_role_table)), v_requirements = (\<lambda>m. (m, Ret [])),
      v_function_table = (\<lambda>m. (m, Ret [])), v_room_manifests = (\<lambda>m. (m, Ret (VDict [], VDict []))),
      v_verbs = (\<lambda>m. (m, Ret [''tap''])),
      v_handler = (\<lambda>m verb d args t. let (m', cues) = mini_tap d t m in (m', Ret (Cues cues))),
      v_actions = (\<lambda>m. (m, Ret (map fst mini_actions))),
      v_action = (\<lambda>m name t. case (dget mini_actions name, t) of
          (Some p, Fin now) \<Rightarrow> (let (m', cues) = mini_phase p now m in (m', Ret (Cues cues)))
        | _ \<Rightarrow> (m, Raised)),
      v_on_setup_enter = (\<lambda>m. (m, Ret ())), v_on_run_start = (\<lambda>m. (m, Ret ())),
      v_on_join = (\<lambda>m d role. (mini_join d role m, Ret ())), v_admits = (\<lambda>m d role. (m, Ret (mini_admits d role))),
      v_update = (\<lambda>m _. (m, Ret False)),
      v_fires = (\<lambda>m t. case t of Fin now \<Rightarrow> mini_fires now m | _ \<Rightarrow> (m, Raised)),
      v_on_complete = (\<lambda>m. (m, Ret ())), v_on_unload = (\<lambda>m. (m, Ret ())),
      v_instruments = instruments, v_admins = admins, v_horizon = horizon, v_sink = sink\<rparr>"

lemma mini_env_sel [simp]:
  "v_verbs (mini_env conf is as h sink) = (\<lambda>m. (m, Ret [''tap'']))"
  "v_handler (mini_env conf is as h sink) = (\<lambda>m verb d args t. let (m', cues) = mini_tap d t m in (m', Ret (Cues cues)))"
  "v_update (mini_env conf is as h sink) = (\<lambda>m _. (m, Ret False))"
  "v_fires (mini_env conf is as h sink) = (\<lambda>m t. case t of Fin now \<Rightarrow> mini_fires now m | _ \<Rightarrow> (m, Raised))"
  "v_horizon (mini_env conf is as h sink) = h"
  by (simp_all add: mini_env_def)

lemma bit_send_all [simp]: "e_bit (send_all env gated mk ds e) = e_bit e"
proof (induction ds arbitrary: e)
  case (Cons d ds)
  have "e_bit (fst (send env eff e)) = e_bit e" for eff
    by (simp add: send_def split: sink_result.split)
  with Cons show ?case
    by (auto split: option.splits bool.splits prod.splits) (metis fst_conv)+
qed simp

lemma generators_send_all [simp]: "e_generators (send_all env gated mk ds e) = e_generators e"
proof (induction ds arbitrary: e)
  case (Cons d ds)
  have "e_generators (fst (send env eff e)) = e_generators e" for eff
    by (simp add: send_def split: sink_result.split)
  with Cons show ?case
    by (auto split: option.splits bool.splits prod.splits) (metis fst_conv)+
qed simp

lemma bit_flashes:
  assumes "list_all (\<lambda>c. \<exists>d px rgb duration own. c = PixelFlashCue d px rgb duration own) cs"
  shows "e_bit (dispatch_cues env t by now cs e) = e_bit e
    \<and> e_generators (dispatch_cues env t by now cs e) = e_generators e"
  using assms
proof (induction env t "by" now cs e rule: dispatch_cues.induct)
  case (2 env t "by" now c cs e)
  then obtain d px rgb duration own where "c = PixelFlashCue d px rgb duration own" by auto
  then have "e_bit (dispatch_cue env t by now c e) = e_bit e
      \<and> e_generators (dispatch_cue env t by now c e) = e_generators e"
    by (simp add: dispatch_cue_def dispatch_plain_def send_resolved_def split: option.splits)
  with 2 show ?case by simp
qed simp

lemma tap_cues_flash:
  "list_all (\<lambda>c. \<exists>d px rgb duration own. c = PixelFlashCue d px rgb duration own) (snd (mini_tap d t m))"
  by (simp add: mini_tap_def flash_cues_def list_all_iff)

text \<open>The engine accepts what a minigame reports on a tick: its filter takes every cue.\<close>

lemma fires_are_all_allowed:
  assumes "mini_ok m" and "mini_fires now m = (m', Ret cues)"
  shows "filter fires_allowed cues = cues"
proof -
  have "fires_allowed c" if "cue_fits m c" for c
    using that by (cases c) (simp_all add: fires_allowed_def)
  with mini_fires_fits [OF assms] show ?thesis by (simp add: filter_id_conv)
qed

text \<open>The minigame declares no function, so the engine gives its generator runner nothing to run.\<close>

definition no_generators :: "'b engine \<Rightarrow> bool" where
  "no_generators e \<longleftrightarrow> (case e_generators e of None \<Rightarrow> True | Some r \<Rightarrow> gr_generators r = [])"

lemma no_generator_cues: "no_generators e \<Longrightarrow> dispatch_generator_cues env now e = (e, Ok ())"
  by (auto simp: no_generators_def dispatch_generator_cues_def runner_cues_def split: option.splits)

text \<open>A tick of a poisoned minigame: the hook raises, the engine swallows it, and nothing is sent.\<close>

lemma poisoned_tick:
  assumes "e_state e = RUNNING" and "e_bit e = Some m" and "poisoned d m" and "no_generators e"
  shows "snd (tick (mini_env conf is as h sink) dt n1 n2 e) = Ok ()
    \<and> e_trace (fst (tick (mini_env conf is as h sink) dt n1 n2 e)) = e_trace e"
proof -
  obtain m' where "mini_fires (n2 + h) m = (m', Raised)"
    using poisoned_fires(1) [OF assms(3), of "n2 + h"] by (cases "mini_fires (n2 + h) m") simp
  with assms show ?thesis
    by (simp add: tick_def on_bit_def no_generator_cues no_generators_def dispatch_bit_fires_def Let_def)
qed

definition plays_minigame :: "minigame engine \<Rightarrow> minigame \<Rightarrow> dev \<Rightarrow> bool" where
  "plays_minigame e m d \<longleftrightarrow>
     e_state e = RUNNING \<and> e_bit e = Some m \<and> mini_ok m \<and> d \<in> set (mg_players m)
     \<and> (case e_registration e of None \<Rightarrow> False
        | Some reg \<Rightarrow> (case dget (rg_assignments reg) d of None \<Rightarrow> False | Some (_, role, _) \<Rightarrow> role = ''player''))
     \<and> i_stream_triggers (carried_by e d) = [] \<and> stream_specs ''tap'' e = [] \<and> no_generators e"

lemma nan_tap_routed:
  assumes "plays_minigame e m d"
  shows "route_gesture (mini_env conf is as h sink) d ''tap'' args ''player'' NaN now e =
    (dispatch_cues (mini_env conf is as h sink) NaN ByGestureVerb now (snd (mini_tap d NaN m))
       (e\<lparr>e_bit := Some (fst (mini_tap d NaN m))\<rparr>), Ok None)"
proof -
  have "carried_by (e\<lparr>e_bit := b\<rparr>) d = carried_by e d" for b
    by (simp add: carried_by_def)
  moreover have "stream_specs ''tap'' (e\<lparr>e_bit := b\<rparr>) = stream_specs ''tap'' e" for b
    by (simp add: stream_specs_def)
  ultimately show ?thesis
    using assms
    by (simp add: plays_minigame_def route_gesture_def is_solo_role_def SOLO_PREFIX_def on_bit_def
        apply_stream_triggers_def collect_stream_cues_def case_prod_unfold Let_def)
qed

text \<open>
  The engine takes a gesture stamped with a NaN as good and hands it to the minigame. The gesture is
accepted, and from the next tick on the engine sends nothing to any device: the Bit's report raises, the
engine logs it and goes on.
\<close>
theorem nan_gesture_silences_the_bit:
  assumes "plays_minigame e m d"
    and "data (mini_env conf is as h sink) d ''tap'' args (Some NaN) received now e = (e1, verdict)"
    and "tick (mini_env conf is as h sink) dt n1 n2 e1 = (e2, r)"
  shows "verdict = Ok None \<and> r = Ok () \<and> e_trace e2 = e_trace e1"
proof -
  let ?env = "mini_env conf is as h sink"
  let ?e = "dispatch_cues ?env NaN ByGestureVerb now (snd (mini_tap d NaN m)) (e\<lparr>e_bit := Some (fst (mini_tap d NaN m))\<rparr>)"
  from assms(1) obtain reg x y where "e_registration e = Some reg"
    and "dget (rg_assignments reg) d = Some (x, ''player'', y)"
    by (auto simp: plays_minigame_def split: option.splits)
  with nan_tap_routed [OF assms(1), of conf "is" as h sink args now] assms(1,2)
  have e1: "e1 = notify (Gesture d ''tap'' received NaN None) ?e" "verdict = Ok None"
    by (simp_all add: data_def in_play_def plays_minigame_def origin_def Let_def)
  have "book ?e = book (e\<lparr>e_bit := Some (fst (mini_tap d NaN m))\<rparr>)"
    by (simp add: book_simps)
  from bookD(1) [OF this] have "e_state ?e = RUNNING"
    using assms(1) by (simp add: plays_minigame_def)
  moreover have "e_bit ?e = Some (fst (mini_tap d NaN m))" "no_generators ?e"
    using assms(1) by (simp_all add: bit_flashes [OF tap_cues_flash] no_generators_def plays_minigame_def)
  moreover have "poisoned d (fst (mini_tap d NaN m))"
    using assms(1) by (simp add: plays_minigame_def mini_ok_def poisoned_def mini_tap_def)
  ultimately have "snd (tick ?env dt n1 n2 e1) = Ok () \<and> e_trace (fst (tick ?env dt n1 n2 e1)) = e_trace e1"
    by (intro poisoned_tick) (simp_all add: e1(1) notify_def no_generators_def)
  with assms(3) e1(2) show ?thesis by simp
qed

subsection \<open>A running engine\<close>

definition mini_demo :: "minigame engine" where
  "mini_demo =
     (let env = mini_env None [] [] (1 / 2) (\<lambda>_ _. Delivered);
          e0 = fst (hello env ''ie1'' ''s'' ''1'' None 1 (new_engine None));
          e1 = fst (load_bit env ''Minigame'' ''c0ffee'' e0)
      in fst (request_start env None None ''console'' e1))"

lemma mini_demo_plays: "\<exists>m. plays_minigame mini_demo m ''ie1''"
proof -
  have "map_option mg_players (e_bit mini_demo) = Some [''ie1'']" by code_simp
  then obtain m where m: "e_bit mini_demo = Some m" and p: "mg_players m = [''ie1'']" by auto
  have "(case e_registration mini_demo of None \<Rightarrow> False
        | Some reg \<Rightarrow> (case dget (rg_assignments reg) ''ie1'' of None \<Rightarrow> False | Some (_, role, _) \<Rightarrow> role = ''player''))"
    by code_simp
  moreover have "e_state mini_demo = RUNNING" by code_simp
  moreover have "i_stream_triggers (carried_by mini_demo ''ie1'') = []" by code_simp
  moreover have "stream_specs ''tap'' mini_demo = []" by code_simp
  moreover have "no_generators mini_demo" by code_simp
  moreover have "map_option mini_ok (e_bit mini_demo) = Some True" by code_simp
  with m have "mini_ok m" by simp
  ultimately show ?thesis using m p by (auto simp: plays_minigame_def)
qed

lemma nan_gesture_silences_the_bit_witness:
  "let env = mini_env None [] [] (1 / 2) (\<lambda>_ _. Delivered);
       e1 = fst (data env ''ie1'' ''tap'' [] (Some NaN) 3 3 mini_demo)
   in e_trace (fst (tick env (1 / 10) 4 4 e1)) = e_trace e1"
proof -
  let ?env = "mini_env None [] [] (1 / 2) (\<lambda>_ _. Delivered)"
  obtain e1 v where d: "data ?env ''ie1'' ''tap'' [] (Some NaN) 3 3 mini_demo = (e1, v)" by fastforce
  obtain e2 r where t: "tick ?env (1 / 10) 4 4 e1 = (e2, r)" by fastforce
  from mini_demo_plays obtain m where "plays_minigame mini_demo m ''ie1''" by blast
  from nan_gesture_silences_the_bit [OF this d t] d t show ?thesis by simp
qed

end
