(* ===== verification/Metronome.thy ===== *)
theory Metronome
  imports Engine_State
begin

section \<open>The metronome Bit\<close>

text \<open>
  \<open>MetronomeBit\<close> of \<open>src/bits/metronome/metronome_bit.py\<close>: a call-and-response game on a beat grid that is
  anchored at the first tick. Each cycle opens with call beats that click; the player whose turn it is
  answers the wait beats with taps. A cycle is judged once its slack has passed; after the last one comes a
  finale, if anyone ever succeeded. The numbers a \<open>[rhythm]\<close> table can set, and the installation's cue
  horizon, are the record \<open>rhythm\<close>. A \<open>set\<close> is a list; the program only tests membership and equality.
  The seeded fireworks script is a parameter. Log lines are left out.
\<close>

definition WELCOME_S :: rat where "WELCOME_S = 3 / 2"
definition JUDGE_SLACK_S :: rat where "JUDGE_SLACK_S = 1 / 20"
definition FINALE_S :: rat where "FINALE_S = 10"
definition CLICK_KEY :: int where "CLICK_KEY = 76"
definition HARD_VEL :: int where "HARD_VEL = 120"
definition SOFT_VEL :: int where "SOFT_VEL = 65"
definition FAIL_KEY :: int where "FAIL_KEY = 33"
definition FAIL_VEL :: int where "FAIL_VEL = 110"
definition PROG_CLICK :: int where "PROG_CLICK = 115"
definition PROG_FAIL :: int where "PROG_FAIL = 38"
definition PROG_PAD :: int where "PROG_PAD = 89"
definition GREEN_CC :: int where "GREEN_CC = 42"
definition RED_CC :: int where "RED_CC = 0"
definition LEVEL_BASE :: int where "LEVEL_BASE = 60"
definition LEVEL_PULSE :: int where "LEVEL_PULSE = 110"
definition BLOOM_HUE_CC :: int where "BLOOM_HUE_CC = 70"
definition RAINBOW_LEVEL_CC :: int where "RAINBOW_LEVEL_CC = 21"

record rhythm =
  rh_beat_s :: rat
  rh_beats :: nat
  rh_cycles :: nat
  rh_tolerance :: rat
  rh_input_offset :: rat
  rh_horizon :: rat

definition default_rhythm :: "rat \<Rightarrow> rhythm" where
  "default_rhythm horizon =
     \<lparr>rh_beat_s = 3 / 5, rh_beats = 8, rh_cycles = 4, rh_tolerance = 1 / 20, rh_input_offset = 0,
      rh_horizon = horizon\<rparr>"

text \<open>What the constructor makes of a \<open>[rhythm]\<close> table; a tempo of zero raises.\<close>

definition rhythm_of :: "rat \<Rightarrow> nat \<Rightarrow> nat \<Rightarrow> rat \<Rightarrow> rat \<Rightarrow> rat \<Rightarrow> rhythm option" where
  "rhythm_of bpm beats cycles window_ms offset_ms horizon =
     (if bpm = 0 then None
      else Some \<lparr>rh_beat_s = 60 / bpm, rh_beats = beats, rh_cycles = cycles, rh_tolerance = window_ms / 1000,
                 rh_input_offset = offset_ms / 1000, rh_horizon = horizon\<rparr>)"

definition lead_in :: "rhythm \<Rightarrow> rat" where "lead_in ry = WELCOME_S + rh_beat_s ry"
definition call_beats :: "rhythm \<Rightarrow> nat" where "call_beats ry = rh_beats ry div 2"
definition wait_beats :: "rhythm \<Rightarrow> nat" where "wait_beats ry = rh_beats ry - call_beats ry"
definition total_beats :: "rhythm \<Rightarrow> nat" where "total_beats ry = rh_beats ry * rh_cycles ry"

text \<open>\<open>_grid\<close>: the time of a global beat.\<close>

definition grid :: "rhythm \<Rightarrow> rat \<Rightarrow> nat \<Rightarrow> rat" where
  "grid ry t0 k = t0 + of_nat k * rh_beat_s ry"

subsection \<open>State\<close>

record phrase =
  ph_hits :: "nat list"
  ph_spoiled :: bool

record metronome =
  mt_players :: "dev list"
  mt_rotation :: "dev list"
  mt_t0 :: "rat option"
  mt_next_beat :: nat
  mt_elapsed :: rat
  mt_done :: bool
  mt_successes :: "(dev, nat) dict"
  mt_phrases :: "(nat, phrase) dict"
  mt_judged :: nat
  mt_finale_end :: "rat option"
  mt_tap_errors :: "rat list"
  mt_failed :: "dev list"

definition new_metronome :: metronome where
  "new_metronome =
     \<lparr>mt_players = [], mt_rotation = [], mt_t0 = None, mt_next_beat = 0, mt_elapsed = 0, mt_done = False,
      mt_successes = [], mt_phrases = [], mt_judged = 0, mt_finale_end = None, mt_tap_errors = [],
      mt_failed = []\<rparr>"

definition metro_run_start :: "metronome \<Rightarrow> metronome" where
  "metro_run_start m = new_metronome\<lparr>mt_players := mt_players m, mt_rotation := mt_players m\<rparr>"

definition metro_join :: "dev \<Rightarrow> string \<Rightarrow> metronome \<Rightarrow> metronome" where
  "metro_join d role m = (if role = ''player'' then m\<lparr>mt_players := mt_players m @ [d]\<rparr> else m)"

definition metro_update :: "rat \<Rightarrow> metronome \<Rightarrow> metronome \<times> bool" where
  "metro_update dt m = (m\<lparr>mt_elapsed := mt_elapsed m + dt\<rparr>, mt_done m)"

definition turn_dev :: "metronome \<Rightarrow> nat \<Rightarrow> dev option" where
  "turn_dev m cycle =
     (if mt_rotation m = [] then None else Some (mt_rotation m ! (cycle mod length (mt_rotation m))))"

definition empty_phrase :: phrase where "empty_phrase = \<lparr>ph_hits = [], ph_spoiled = False\<rparr>"

definition phrase_for :: "nat \<Rightarrow> metronome \<Rightarrow> phrase" where
  "phrase_for cycle m = (case dget (mt_phrases m) cycle of Some p \<Rightarrow> p | None \<Rightarrow> empty_phrase)"

subsection \<open>Taps\<close>

text \<open>
  \<open>_current_cycle\<close>: the cycle a moment belongs to, from a tolerance before the first beat to a tolerance
  after the last.
\<close>

definition current_cycle :: "rhythm \<Rightarrow> rat \<Rightarrow> rat \<Rightarrow> nat option" where
  "current_cycle ry t0 t =
     (let dt = t - t0 in
      if dt < - rh_tolerance ry then None
      else if t0 + (of_nat (rh_cycles ry * rh_beats ry) - 1) * rh_beat_s ry + rh_tolerance ry < t then None
      else (let cycle = \<lfloor>(dt / rh_beat_s ry) / of_nat (rh_beats ry)\<rfloor>
            in Some (min (nat cycle) (rh_cycles ry - 1))))"

text \<open>The wait beat nearest to a moment, the earlier one of two as near, and the signed error.\<close>

fun nearest_from :: "(nat \<Rightarrow> rat) \<Rightarrow> nat list \<Rightarrow> (nat \<times> rat) option \<Rightarrow> (nat \<times> rat) option" where
  "nearest_from err [] best = best"
| "nearest_from err (w # ws) best =
     nearest_from err ws
       (case best of
          None \<Rightarrow> Some (w, err w)
        | Some (bw, be) \<Rightarrow> if \<bar>err w\<bar> < \<bar>be\<bar> then Some (w, err w) else Some (bw, be))"

definition wait_error :: "rhythm \<Rightarrow> rat \<Rightarrow> nat \<Rightarrow> rat \<Rightarrow> nat \<Rightarrow> rat" where
  "wait_error ry t0 cycle t w = t - grid ry t0 (cycle * rh_beats ry + call_beats ry + w)"

definition nearest_wait :: "rhythm \<Rightarrow> rat \<Rightarrow> nat \<Rightarrow> rat \<Rightarrow> (nat \<times> rat) option" where
  "nearest_wait ry t0 cycle t = nearest_from (wait_error ry t0 cycle t) [0 ..< wait_beats ry] None"

definition record_tap :: "rhythm \<Rightarrow> nat \<Rightarrow> nat \<Rightarrow> rat \<Rightarrow> metronome \<Rightarrow> metronome" where
  "record_tap ry cycle w err m =
     (let p = phrase_for cycle m;
          p' = (if \<bar>err\<bar> \<le> rh_tolerance ry then p\<lparr>ph_hits := List.insert w (ph_hits p)\<rparr>
                else p\<lparr>ph_spoiled := True\<rparr>)
      in m\<lparr>mt_phrases := dset cycle p' (mt_phrases m),
           mt_tap_errors := mt_tap_errors m @ [of_int (py_round (err * 1000 * 10)) / 10]\<rparr>)"

text \<open>
  \<open>_on_tap\<close> never answers with cues. It raises on a NaN (an int of one), and when there is no wait beat;
  an infinite time belongs to no cycle.
\<close>

definition metro_tap :: "rhythm \<Rightarrow> dev \<Rightarrow> pyfloat \<Rightarrow> metronome \<Rightarrow> metronome \<times> unit outcome" where
  "metro_tap ry d stamped m =
     (case mt_t0 m of
        None \<Rightarrow> (m, Ret ())
      | Some t0 \<Rightarrow>
          if mt_done m then (m, Ret ())
          else (case stamped of
                  NaN \<Rightarrow> (m, Raised)
                | PInf \<Rightarrow> (m, Ret ())
                | NInf \<Rightarrow> (m, Ret ())
                | Fin x \<Rightarrow>
                    (let t = x - rh_horizon ry - rh_input_offset ry in
                     case current_cycle ry t0 t of
                       None \<Rightarrow> (m, Ret ())
                     | Some cycle \<Rightarrow>
                         if Some d \<noteq> turn_dev m cycle then (m, Ret ())
                         else (case nearest_wait ry t0 cycle t of
                                 None \<Rightarrow> (m\<lparr>mt_phrases := dset cycle (phrase_for cycle m) (mt_phrases m)\<rparr>, Raised)
                               | Some (w, err) \<Rightarrow> (record_tap ry cycle w err m, Ret ())))))"

subsection \<open>Beats\<close>

definition fire :: "string \<Rightarrow> dev option \<Rightarrow> rat option \<Rightarrow> cue" where
  "fire name d t = FireFunction name d (map_option Fin t)"

text \<open>The player a downbeat brings back from a failure.\<close>

definition recovering :: "rhythm \<Rightarrow> nat \<Rightarrow> metronome \<Rightarrow> dev option" where
  "recovering ry k m =
     (if k mod rh_beats ry \<noteq> 0 then None
      else case turn_dev m (k div rh_beats ry) of
             None \<Rightarrow> None
           | Some d \<Rightarrow> if d \<in> set (mt_failed m) then Some d else None)"

definition pulses :: "rat \<Rightarrow> dev list \<Rightarrow> dev list \<Rightarrow> cue list" where
  "pulses t failed rotation =
     map (\<lambda>d. if d = ROOM then fire ''metro_pulse_room'' None (Some t) else fire ''metro_pulse_player'' (Some d) (Some t))
       (filter (\<lambda>d. d \<notin> set failed) (ROOM # rotation))"

definition clicks :: "rhythm \<Rightarrow> rat \<Rightarrow> nat \<Rightarrow> cue list" where
  "clicks ry t pos =
     (if pos = 0 then [fire ''metro_downbeat'' None (Some t)]
      else if pos < call_beats ry then [fire ''metro_click'' None (Some t)] else [])"

definition beat_fires :: "rhythm \<Rightarrow> rat \<Rightarrow> nat \<Rightarrow> metronome \<Rightarrow> metronome \<times> cue list" where
  "beat_fires ry t0 k m =
     (let t = grid ry t0 k;
          back = recovering ry k m;
          m' = (case back of None \<Rightarrow> m | Some d \<Rightarrow> m\<lparr>mt_failed := filter (\<lambda>x. x \<noteq> d) (mt_failed m)\<rparr>);
          recovery = (case back of None \<Rightarrow> [] | Some d \<Rightarrow> [fire ''metro_recovery'' (Some d) (Some t)])
      in (m', recovery @ pulses t (mt_failed m') (mt_rotation m') @ clicks ry t (k mod rh_beats ry)))"

text \<open>The loop that emits every beat that is at most one beat ahead.\<close>

function beat_walk :: "rhythm \<Rightarrow> rat \<Rightarrow> rat \<Rightarrow> metronome \<Rightarrow> metronome \<times> cue list" where
  "beat_walk ry t0 now m =
     (if mt_next_beat m < total_beats ry \<and> grid ry t0 (mt_next_beat m) \<le> now + rh_beat_s ry
      then (let r = beat_fires ry t0 (mt_next_beat m) m;
                rest = beat_walk ry t0 now ((fst r)\<lparr>mt_next_beat := Suc (mt_next_beat m)\<rparr>)
            in (fst rest, snd r @ snd rest))
      else (m, []))"
  by pat_completeness auto
termination
  by (relation "measure (\<lambda>(ry, t0, now, m). total_beats ry - mt_next_beat m)") auto

declare beat_walk.simps [simp del]

subsection \<open>Judging\<close>

definition deadline :: "rhythm \<Rightarrow> rat \<Rightarrow> nat \<Rightarrow> rat" where
  "deadline ry t0 c =
     t0 + (of_nat ((c + 1) * rh_beats ry) - 1) * rh_beat_s ry + rh_tolerance ry + JUDGE_SLACK_S"

definition nailed :: "rhythm \<Rightarrow> phrase \<Rightarrow> bool" where
  "nailed ry p \<longleftrightarrow> set (ph_hits p) = set [0 ..< wait_beats ry] \<and> \<not> ph_spoiled p"

definition success_count :: "metronome \<Rightarrow> nat" where
  "success_count m = sum_list (map snd (mt_successes m))"

definition judge_phrase :: "rhythm \<Rightarrow> nat \<Rightarrow> metronome \<Rightarrow> metronome \<times> cue list" where
  "judge_phrase ry c m =
     (case turn_dev m c of
        None \<Rightarrow> (m, [])
      | Some d \<Rightarrow>
          (let p = phrase_for c m; m' = m\<lparr>mt_phrases := dset c p (mt_phrases m)\<rparr> in
           if nailed ry p
           then (m'\<lparr>mt_successes := dset d ((case dget (mt_successes m') d of None \<Rightarrow> 0 | Some n \<Rightarrow> n) + 1) (mt_successes m')\<rparr>,
                 [fire ''fireworks_player'' (Some d) None, fire ''fireworks_room'' None None])
           else (m'\<lparr>mt_failed := List.insert d (mt_failed m')\<rparr>,
                 [fire ''fail_player'' (Some d) None, fire ''fail_room'' None None])))"

text \<open>What follows the last cycle: the finale when anyone succeeded, else the end.\<close>

definition close_run :: "rhythm \<Rightarrow> rat \<Rightarrow> metronome \<Rightarrow> metronome \<times> cue list" where
  "close_run ry now m =
     (if mt_judged m \<noteq> rh_cycles ry then (m, [])
      else if success_count m = 0 then (m\<lparr>mt_done := True\<rparr>, [])
      else if mt_finale_end m = None
      then (m\<lparr>mt_finale_end := Some (now + FINALE_S)\<rparr>, [fire ''finale'' None None])
      else (m, []))"

definition judge_cycle :: "rhythm \<Rightarrow> rat \<Rightarrow> metronome \<Rightarrow> metronome \<times> cue list" where
  "judge_cycle ry now m =
     (let (m1, cues) = judge_phrase ry (mt_judged m) m;
          (m2, closing) = close_run ry now (m1\<lparr>mt_judged := Suc (mt_judged m1)\<rparr>)
      in (m2, cues @ closing))"

lemma judge_phrase_judged [simp]: "mt_judged (fst (judge_phrase ry c m)) = mt_judged m"
  by (simp add: judge_phrase_def Let_def split: option.split)

lemma close_run_judged [simp]: "mt_judged (fst (close_run ry now m)) = mt_judged m"
  by (simp add: close_run_def)

lemma judge_cycle_judged [simp]: "mt_judged (fst (judge_cycle ry now m)) = Suc (mt_judged m)"
  by (simp add: judge_cycle_def case_prod_unfold Let_def)

function judge_walk :: "rhythm \<Rightarrow> rat \<Rightarrow> rat \<Rightarrow> metronome \<Rightarrow> metronome \<times> cue list" where
  "judge_walk ry t0 now m =
     (if mt_judged m < rh_cycles ry \<and> deadline ry t0 (mt_judged m) \<le> now - rh_horizon ry
      then (let r = judge_cycle ry now m; rest = judge_walk ry t0 now (fst r) in (fst rest, snd r @ snd rest))
      else (m, []))"
  by pat_completeness auto
termination
  by (relation "measure (\<lambda>(ry, t0, now, m). rh_cycles ry - mt_judged m)") auto

declare judge_walk.simps [simp del]

subsection \<open>One tick\<close>

definition anchored :: "rhythm \<Rightarrow> rat \<Rightarrow> metronome \<Rightarrow> rat" where
  "anchored ry now m = (case mt_t0 m of None \<Rightarrow> now + lead_in ry | Some t0 \<Rightarrow> t0)"

definition end_finale :: "rat \<Rightarrow> metronome \<Rightarrow> metronome" where
  "end_finale now m =
     (case mt_finale_end m of None \<Rightarrow> m | Some t \<Rightarrow> if t \<le> now then m\<lparr>mt_done := True\<rparr> else m)"

definition metro_fires :: "rhythm \<Rightarrow> rat \<Rightarrow> metronome \<Rightarrow> metronome \<times> cue list" where
  "metro_fires ry now m =
     (let t0 = anchored ry now m;
          (m1, beats) = beat_walk ry t0 now (m\<lparr>mt_t0 := Some t0\<rparr>);
          (m2, verdicts) = judge_walk ry t0 now m1
      in (end_finale now m2, beats @ verdicts))"

text \<open>\<open>status\<close>: the turn, the cycle, what was judged, whether it is over, and the last eight tap errors.\<close>

definition metro_status :: "rhythm \<Rightarrow> metronome \<Rightarrow> dev option \<times> nat \<times> nat \<times> rat \<times> bool \<times> rat list" where
  "metro_status ry m =
     (let cycle = (if mt_judged m < rh_cycles ry then mt_judged m else rh_cycles ry - 1)
      in (turn_dev m cycle, cycle, mt_judged m, of_int (py_round (mt_elapsed m * 1000)) / 1000, mt_done m,
          drop (length (mt_tap_errors m) - 8) (mt_tap_errors m)))"

definition metro_result :: "rhythm \<Rightarrow> metronome \<Rightarrow> nat \<times> (dev, nat) dict" where
  "metro_result ry m = (rh_cycles ry, mt_successes m)"

datatype metro_op = OJoin dev string | OUpdate rat | OTap dev pyfloat | OTick rat

fun metro_step :: "rhythm \<Rightarrow> metronome \<Rightarrow> metro_op \<Rightarrow> metronome" where
  "metro_step ry m (OJoin d role) = metro_join d role m"
| "metro_step ry m (OUpdate dt) = fst (metro_update dt m)"
| "metro_step ry m (OTap d t) = fst (metro_tap ry d t m)"
| "metro_step ry m (OTick now) = fst (metro_fires ry now m)"

fun metro_cues :: "rhythm \<Rightarrow> metronome \<Rightarrow> metro_op \<Rightarrow> cue list" where
  "metro_cues ry m (OTick now) = snd (metro_fires ry now m)"
| "metro_cues ry m _ = []"

text \<open>Everything a run reported, in order.\<close>

fun metro_report :: "rhythm \<Rightarrow> metronome \<Rightarrow> metro_op list \<Rightarrow> cue list" where
  "metro_report ry m [] = []"
| "metro_report ry m (x # xs) = metro_cues ry m x @ metro_report ry (metro_step ry m x) xs"

subsection \<open>What it declares\<close>

definition tri :: "rat \<Rightarrow> rat" where
  "tri x = (let f = py_mod x 1 in if f < 1 / 2 then 2 * f else 2 * (1 - f))"

definition tstep :: "rat \<Rightarrow> int \<Rightarrow> int \<Rightarrow> int \<Rightarrow> script_step" where
  "tstep t status data1 data2 = step_at t (Midi TARGET status data1 data2)"

definition finale_script :: "script_step list" where
  "finale_script =
     [tstep 0 192 PROG_PAD 0, tstep 0 176 RAINBOW_LEVEL_CC 127, tstep 0 176 11 0, tstep (1 / 10) 144 57 100]
     @ map (\<lambda>i. tstep (1 / 2 * of_nat (i + 1)) 176 74 \<lfloor>127 * tri (of_nat i / 10)\<rfloor>) [0 ..< 20]
     @ [tstep 10 128 57 0, tstep 10 176 RAINBOW_LEVEL_CC 0, tstep 10 176 11 LEVEL_BASE]"

text \<open>A scripted function whose condition the Bit adjudicates itself.\<close>

definition adjudicated :: "string \<Rightarrow> string \<Rightarrow> function_target \<Rightarrow> string \<Rightarrow> string \<Rightarrow> script_step list \<Rightarrow> string \<times> func" where
  "adjudicated name description target cname cdescription script =
     (name, (scripted name description script)\<lparr>f_target := Some target,
        f_condition := Some \<lparr>c_name = cname, c_description = cdescription, c_source = BIT_ADJUDICATED, c_verb = None\<rparr>\<rparr>)"

definition metro_functions :: "script_step list \<Rightarrow> fn_table" where
  "metro_functions fireworks =
     [adjudicated ''fireworks_player'' ''Celebratory flashes on the player who nailed it'' TDevice
        ''phrase_success'' ''Player matches the call phrase'' fireworks,
      adjudicated ''fireworks_room'' ''Celebratory flashes across the Room'' TRoom
        ''phrase_success'' ''Player matches the call phrase'' fireworks,
      adjudicated ''fail_player'' ''Player's light goes red and dark on a miss'' TDevice
        ''phrase_fail'' ''Player misses the call phrase''
        [tstep 0 176 74 RED_CC, tstep 1 176 11 0],
      adjudicated ''fail_room'' ''Room flashes a fail cue and restores the click'' TRoom
        ''phrase_fail'' ''Player misses the call phrase''
        [tstep 0 192 PROG_FAIL 0, tstep 0 176 74 RED_CC, tstep (5 / 100) 144 FAIL_KEY FAIL_VEL,
         tstep (9 / 10) 128 FAIL_KEY 0, tstep 1 192 PROG_CLICK 0],
      adjudicated ''finale'' ''Closing rainbow sweep and pad after the last cycle'' TRoom
        ''run_complete'' ''All cycles finished'' finale_script,
      adjudicated ''metro_downbeat'' ''Hard click plus the green cc:74 flash on the downbeat of every cycle'' TRoom
        ''beat_downbeat'' ''Global beat index is on a cycle's downbeat (pos 0)''
        [tstep 0 144 CLICK_KEY HARD_VEL, tstep 0 176 74 GREEN_CC, tstep (1 / 10) 128 CLICK_KEY 0],
      adjudicated ''metro_click'' ''Soft click on a cycle's call beats after the downbeat'' TRoom
        ''beat_call'' ''Global beat index is a call beat after the downbeat (pos 1 up to CALL_BEATS - 1)''
        [tstep 0 144 CLICK_KEY SOFT_VEL, tstep (1 / 10) 128 CLICK_KEY 0],
      adjudicated ''metro_pulse_room'' ''Room's every-beat level pulse-then-decay'' TRoom
        ''beat_pulse'' ''Every beat, while the Room is not failed''
        [tstep 0 176 11 LEVEL_PULSE, tstep (15 / 100) 176 11 LEVEL_BASE],
      adjudicated ''metro_pulse_player'' ''A non-failed player's every-beat level pulse-then-decay'' TDevice
        ''beat_pulse'' ''Every beat, for each player not currently failed''
        [tstep 0 176 11 LEVEL_PULSE, tstep (15 / 100) 176 11 LEVEL_BASE],
      adjudicated ''metro_recovery''
        ''A failed player's green flash and level reset when their turn comes back around'' TDevice
        ''beat_recovery'' ''The turn dev's downbeat, after a previous cycle's fail''
        [tstep 0 176 74 GREEN_CC, tstep 0 176 11 LEVEL_BASE]]"

definition lane_pair :: "string \<Rightarrow> string \<Rightarrow> pyval" where
  "lane_pair source dest = VDict [(''source'', VStr source), (''dest'', VStr dest)]"

definition light_entry :: "string \<Rightarrow> (string \<times> rat) list \<Rightarrow> (string \<times> string) list \<Rightarrow> pyval" where
  "light_entry name params lanes =
     VDict [(''instrument'', VStr name), (''target'', VStr ''primary''),
            (''params'', VDict (map (\<lambda>(k, v). (k, VFloat (Fin v))) params)),
            (''lanes'', VList (map (\<lambda>(a, b). lane_pair a b) lanes))]"

definition metro_aurora :: pyval where
  "metro_aurora = light_entry ''aurora'' [(''hue'', 33 / 100), (''level'', 47 / 100)]
     [(''cc:74'', ''hue''), (''cc:11'', ''level'')]"

definition metro_bloom :: pyval where
  "metro_bloom = light_entry ''bloom'' [(''hue'', 33 / 100)] [(''note'', ''trigger''), (''cc:70'', ''hue'')]"

definition metro_role_table :: role_table where
  "metro_role_table =
     \<lparr>rt_roles = [(''player'',
        \<lparr>r_name = ''player'', r_class = UNIQUE, r_capacity = Some 2, r_scored = True, r_uses = [''tap''],
         r_samples = [], r_ugen_manifest = VDict [],
         r_light_manifest = VDict [(''instruments'', VList [metro_aurora, metro_bloom])],
         r_welcome = None, r_breath = False, r_requires = None, r_zones = []\<rparr>)],
      rt_node_map = [(''METRO_PLAYER_NODE'', [''player''])]\<rparr>"

definition metro_room_manifests :: "pyval \<times> pyval" where
  "metro_room_manifests =
     (VDict [(''instruments'', VList
        [metro_aurora, metro_bloom,
         light_entry ''rainbow'' [(''hue'', 0), (''level'', 0), (''span'', 1), (''speed'', 5 / 100)]
           [(''cc:21'', ''level'')]])],
      VDict [(''instruments'', VList
        [VDict [(''instrument'', VStr ''flsyn''), (''program'', VInt 115),
                (''lanes'', VList [lane_pair ''cc:74'' ''cc:74'', lane_pair ''cc:11'' ''cc:11''])]])])"

end
