(* ===== verification/Metronome_Facts.thy ===== *)
theory Metronome_Facts
  imports Metronome Function_Rules
begin

section \<open>The metronome Bit: what it shows\<close>

text \<open>
  The beats a run reports are those of a reference schedule, whatever the ticks and the taps; what a run
  fires is what it declares; every cycle is judged once and a run ends; a tap near a wait beat of one's
  own turn is a hit; and a verdict always comes after the next downbeat has been reported.
\<close>

declare map_of_eq_Some_iff [simp del]

lemma map_filter_append [simp]: "List.map_filter f (xs @ ys) = List.map_filter f xs @ List.map_filter f ys"
  by (simp add: List.map_filter_def)

lemma map_filter_simps' [simp]:
  "List.map_filter f [] = []"
  "List.map_filter f (x # xs) = (case f x of None \<Rightarrow> [] | Some y \<Rightarrow> [y]) @ List.map_filter f xs"
  by (simp_all add: List.map_filter_def split: option.split)

lemma metro_report_append:
  "metro_report ry m (xs @ ys) = metro_report ry m xs @ metro_report ry (foldl (metro_step ry) m xs) ys"
  by (induction xs arbitrary: m) simp_all

subsection \<open>The reference schedule\<close>

text \<open>The part of a report that everyone in the Room perceives: pulses of the Room and clicks.\<close>

definition beat_mark :: "cue \<Rightarrow> (string \<times> pyfloat) option" where
  "beat_mark c =
     (case c of
        FireFunction name _ (Some t) \<Rightarrow>
          if name \<in> set [''metro_pulse_room'', ''metro_downbeat'', ''metro_click''] then Some (name, t) else None
      | _ \<Rightarrow> None)"

definition scheduled :: "rhythm \<Rightarrow> rat \<Rightarrow> nat \<Rightarrow> (string \<times> pyfloat) list" where
  "scheduled ry t0 k =
     (let t = Fin (grid ry t0 k); pos = k mod rh_beats ry in
      (''metro_pulse_room'', t)
      # (if pos = 0 then [(''metro_downbeat'', t)] else if pos < call_beats ry then [(''metro_click'', t)] else []))"

text \<open>No player is called like the Room, and only players fail.\<close>

definition real_devs :: "metronome \<Rightarrow> bool" where
  "real_devs m \<longleftrightarrow> ROOM \<notin> set (mt_players m) \<and> ROOM \<notin> set (mt_rotation m) \<and> ROOM \<notin> set (mt_failed m)"

lemma turn_dev_in_rotation: "turn_dev m c = Some d \<Longrightarrow> d \<in> set (mt_rotation m)"
  by (auto simp: turn_dev_def split: if_splits intro: nth_mem)

lemma player_pulses_unmarked:
  "ROOM \<notin> set ds \<Longrightarrow>
   List.map_filter beat_mark (map (\<lambda>d. if d = ROOM then fire ''metro_pulse_room'' None (Some t)
      else fire ''metro_pulse_player'' (Some d) (Some t)) (filter P ds)) = []"
  by (induction ds) (auto simp: beat_mark_def fire_def)

lemma beat_fires_marks:
  assumes "real_devs m"
  shows "List.map_filter beat_mark (snd (beat_fires ry t0 k m)) = scheduled ry t0 k"
proof -
  have "List.map_filter beat_mark (pulses t failed rotation) = [(''metro_pulse_room'', Fin t)]"
    if "ROOM \<notin> set failed" and "ROOM \<notin> set rotation" for t failed rotation
    using that player_pulses_unmarked [of rotation t "\<lambda>d. d \<notin> set failed"]
    by (simp add: pulses_def beat_mark_def fire_def)
  then show ?thesis
    using assms
    by (simp add: beat_fires_def Let_def real_devs_def scheduled_def clicks_def beat_mark_def fire_def split: option.split)
qed

text \<open>What beats leave alone.\<close>

definition game :: "metronome \<Rightarrow> _" where
  "game m = ((mt_players m, mt_rotation m, mt_t0 m), (mt_done m, mt_judged m, mt_successes m, mt_phrases m, mt_finale_end m))"

lemma gameD:
  assumes "game m' = game m"
  shows "mt_players m' = mt_players m" "mt_rotation m' = mt_rotation m" "mt_t0 m' = mt_t0 m" "mt_done m' = mt_done m"
    "mt_judged m' = mt_judged m" "mt_successes m' = mt_successes m" "mt_phrases m' = mt_phrases m"
    "mt_finale_end m' = mt_finale_end m"
  using assms by (simp_all add: game_def)

lemma beat_fires_game: "game (fst (beat_fires ry t0 k m)) = game m"
  by (simp add: beat_fires_def Let_def game_def split: option.split)

lemma beat_fires_failed: "set (mt_failed (fst (beat_fires ry t0 k m))) \<subseteq> set (mt_failed m)"
  by (auto simp: beat_fires_def Let_def split: option.split)

lemma real_devs_beat: "real_devs m \<Longrightarrow> real_devs (fst (beat_fires ry t0 k m))"
  using beat_fires_failed [of ry t0 k m] gameD(1,2) [OF beat_fires_game [of ry t0 k m]]
  by (auto simp: real_devs_def)

abbreviation due :: "rhythm \<Rightarrow> rat \<Rightarrow> rat \<Rightarrow> metronome \<Rightarrow> bool" where
  "due ry t0 now m \<equiv> mt_next_beat m < total_beats ry \<and> grid ry t0 (mt_next_beat m) \<le> now + rh_beat_s ry"

abbreviation after_beat :: "rhythm \<Rightarrow> rat \<Rightarrow> metronome \<Rightarrow> metronome" where
  "after_beat ry t0 m \<equiv> (fst (beat_fires ry t0 (mt_next_beat m) m))\<lparr>mt_next_beat := Suc (mt_next_beat m)\<rparr>"

lemma beat_walk_step:
  "due ry t0 now m \<Longrightarrow> beat_walk ry t0 now m =
     (fst (beat_walk ry t0 now (after_beat ry t0 m)),
      snd (beat_fires ry t0 (mt_next_beat m) m) @ snd (beat_walk ry t0 now (after_beat ry t0 m)))"
  by (subst beat_walk.simps) (simp add: Let_def)

lemma beat_walk_stop: "\<not> due ry t0 now m \<Longrightarrow> beat_walk ry t0 now m = (m, [])"
  by (subst beat_walk.simps) (simp only: if_not_P if_False)

text \<open>An induction over the beats of a walk.\<close>

lemma beat_walk_induct [case_names stop step]:
  assumes "\<And>m. \<not> due ry t0 now m \<Longrightarrow> P m"
    and "\<And>m. due ry t0 now m \<Longrightarrow> P (after_beat ry t0 m) \<Longrightarrow> P m"
  shows "P m"
proof (induction "total_beats ry - mt_next_beat m" arbitrary: m rule: less_induct)
  case less
  show ?case
  proof (cases "due ry t0 now m")
    case True
    then have "P (after_beat ry t0 m)" by (intro less) auto
    with True assms(2) show ?thesis by blast
  qed (rule assms(1))
qed

lemma beat_walk_game: "game (fst (beat_walk ry t0 now m)) = game m"
proof (induction m rule: beat_walk_induct [of ry t0 now])
  case (step m)
  have "game (after_beat ry t0 m) = game m"
    using beat_fires_game [of ry t0 "mt_next_beat m" m] by (simp add: game_def)
  with step show ?case by (simp add: beat_walk_step)
qed (simp add: beat_walk_stop)

lemma beat_walk_marks:
  "real_devs m \<Longrightarrow> mt_next_beat m \<le> mt_next_beat (fst (beat_walk ry t0 now m))
    \<and> real_devs (fst (beat_walk ry t0 now m))
    \<and> List.map_filter beat_mark (snd (beat_walk ry t0 now m))
      = concat (map (scheduled ry t0) [mt_next_beat m ..< mt_next_beat (fst (beat_walk ry t0 now m))])"
proof (induction m rule: beat_walk_induct [of ry t0 now])
  case (step m)
  let ?m1 = "after_beat ry t0 m"
  let ?stop = "mt_next_beat (fst (beat_walk ry t0 now ?m1))"
  have "real_devs ?m1"
    using real_devs_beat [OF step.prems] by (simp add: real_devs_def)
  from step.IH [OF this]
  have IH: "Suc (mt_next_beat m) \<le> ?stop" "real_devs (fst (beat_walk ry t0 now ?m1))"
    "List.map_filter beat_mark (snd (beat_walk ry t0 now ?m1)) = concat (map (scheduled ry t0) [Suc (mt_next_beat m) ..< ?stop])"
    by simp_all
  have "[mt_next_beat m ..< ?stop] = mt_next_beat m # [Suc (mt_next_beat m) ..< ?stop]"
    using IH(1) by (simp add: upt_conv_Cons)
  with IH beat_walk_step [OF step.hyps] beat_fires_marks [OF step.prems] show ?case by simp
qed (simp add: beat_walk_stop)

subsection \<open>Judging, and one tick\<close>

abbreviation closing :: "rhythm \<Rightarrow> rat \<Rightarrow> rat \<Rightarrow> metronome \<Rightarrow> bool" where
  "closing ry t0 now m \<equiv> mt_judged m < rh_cycles ry \<and> deadline ry t0 (mt_judged m) \<le> now - rh_horizon ry"

lemma judge_walk_step:
  "closing ry t0 now m \<Longrightarrow> judge_walk ry t0 now m =
     (fst (judge_walk ry t0 now (fst (judge_cycle ry now m))),
      snd (judge_cycle ry now m) @ snd (judge_walk ry t0 now (fst (judge_cycle ry now m))))"
  by (subst judge_walk.simps) (simp add: Let_def)

lemma judge_walk_stop: "\<not> closing ry t0 now m \<Longrightarrow> judge_walk ry t0 now m = (m, [])"
  by (subst judge_walk.simps) (simp only: if_not_P if_False)

lemma judge_walk_induct [case_names stop step]:
  assumes "\<And>m. \<not> closing ry t0 now m \<Longrightarrow> P m"
    and "\<And>m. closing ry t0 now m \<Longrightarrow> P (fst (judge_cycle ry now m)) \<Longrightarrow> P m"
  shows "P m"
proof (induction "rh_cycles ry - mt_judged m" arbitrary: m rule: less_induct)
  case less
  show ?case
  proof (cases "closing ry t0 now m")
    case True
    then have "P (fst (judge_cycle ry now m))" by (intro less) auto
    with True assms(2) show ?thesis by blast
  qed (rule assms(1))
qed

text \<open>What judging leaves alone.\<close>

definition beats_side :: "metronome \<Rightarrow> _" where
  "beats_side m = (mt_players m, mt_rotation m, mt_t0 m, mt_next_beat m)"

lemma beats_sideD:
  assumes "beats_side m' = beats_side m"
  shows "mt_players m' = mt_players m" "mt_rotation m' = mt_rotation m" "mt_t0 m' = mt_t0 m"
    "mt_next_beat m' = mt_next_beat m"
  using assms by (simp_all add: beats_side_def)

lemma judge_phrase_side: "beats_side (fst (judge_phrase ry c m)) = beats_side m"
  by (simp add: judge_phrase_def Let_def beats_side_def split: option.split)

lemma close_run_side: "beats_side (fst (close_run ry now m)) = beats_side m"
  by (simp add: close_run_def beats_side_def)

lemma judge_cycle_fst:
  "fst (judge_cycle ry now m) =
     fst (close_run ry now ((fst (judge_phrase ry (mt_judged m) m))\<lparr>mt_judged := Suc (mt_judged m)\<rparr>))"
  by (simp add: judge_cycle_def case_prod_unfold Let_def)

lemma judge_cycle_snd:
  "snd (judge_cycle ry now m) = snd (judge_phrase ry (mt_judged m) m)
     @ snd (close_run ry now ((fst (judge_phrase ry (mt_judged m) m))\<lparr>mt_judged := Suc (mt_judged m)\<rparr>))"
  by (simp add: judge_cycle_def case_prod_unfold Let_def)

lemma judge_cycle_side: "beats_side (fst (judge_cycle ry now m)) = beats_side m"
  using close_run_side [of ry now] judge_phrase_side [of ry "mt_judged m" m]
  by (simp add: judge_cycle_fst beats_side_def)

lemma judge_walk_side: "beats_side (fst (judge_walk ry t0 now m)) = beats_side m"
proof (induction m rule: judge_walk_induct [of ry t0 now])
  case (step m)
  then show ?case using judge_cycle_side [of ry now m] by (simp add: judge_walk_step)
qed (simp add: judge_walk_stop)

lemma judge_cycle_failed: "set (mt_failed (fst (judge_cycle ry now m))) \<subseteq> set (mt_failed m) \<union> set (mt_rotation m)"
  using turn_dev_in_rotation [of m "mt_judged m"]
  by (auto simp: judge_cycle_fst close_run_def judge_phrase_def Let_def split: option.splits if_splits)

lemma judge_cycle_real: "real_devs m \<Longrightarrow> real_devs (fst (judge_cycle ry now m))"
  using judge_cycle_failed [of ry now m] beats_sideD(1,2) [OF judge_cycle_side [of ry now m]]
  by (auto simp: real_devs_def)

lemma verdicts_unmarked: "List.map_filter beat_mark (snd (judge_cycle ry now m)) = []"
  by (simp add: judge_cycle_snd judge_phrase_def close_run_def Let_def beat_mark_def fire_def split: option.split)

lemma judge_walk_real:
  "real_devs m \<Longrightarrow> real_devs (fst (judge_walk ry t0 now m)) \<and> List.map_filter beat_mark (snd (judge_walk ry t0 now m)) = []"
proof (induction m rule: judge_walk_induct [of ry t0 now])
  case (step m)
  with judge_cycle_real [of m ry now] verdicts_unmarked [of ry now m] show ?case by (simp add: judge_walk_step)
qed (simp add: judge_walk_stop)

lemma metro_fires_eq:
  "metro_fires ry now m =
     (let t0 = anchored ry now m; r = beat_walk ry t0 now (m\<lparr>mt_t0 := Some t0\<rparr>); v = judge_walk ry t0 now (fst r)
      in (end_finale now (fst v), snd r @ snd v))"
  by (simp add: metro_fires_def case_prod_unfold Let_def)

lemma end_finale_side: "beats_side (end_finale now m) = beats_side m" "mt_failed (end_finale now m) = mt_failed m"
  by (simp_all add: end_finale_def beats_side_def split: option.split)

lemma tick_marks:
  assumes "real_devs m"
  shows "let m' = fst (metro_fires ry now m); t0 = anchored ry now m in
    real_devs m' \<and> mt_t0 m' = Some t0 \<and> mt_next_beat m \<le> mt_next_beat m'
    \<and> List.map_filter beat_mark (snd (metro_fires ry now m))
      = concat (map (scheduled ry t0) [mt_next_beat m ..< mt_next_beat m'])"
proof -
  let ?t0 = "anchored ry now m"
  let ?m0 = "m\<lparr>mt_t0 := Some ?t0\<rparr>"
  let ?r = "beat_walk ry ?t0 now ?m0"
  let ?v = "judge_walk ry ?t0 now (fst ?r)"
  have walk: "mt_next_beat m \<le> mt_next_beat (fst ?r)" "real_devs (fst ?r)"
    "List.map_filter beat_mark (snd ?r) = concat (map (scheduled ry ?t0) [mt_next_beat m ..< mt_next_beat (fst ?r)])"
    using beat_walk_marks [of ?m0 ry ?t0 now] assms by (simp_all add: real_devs_def)
  note judged = judge_walk_real [OF walk(2), of ry ?t0 now]
  note side = beats_sideD [OF judge_walk_side [of ry ?t0 now "fst ?r"]]
  note fin = beats_sideD [OF end_finale_side(1) [of now "fst ?v"]]
  have "real_devs (end_finale now (fst ?v))"
    using judged fin(1,2) end_finale_side(2) [of now "fst ?v"] by (simp add: real_devs_def)
  moreover have "mt_t0 (fst ?r) = Some ?t0"
    using gameD(3) [OF beat_walk_game [of ry ?t0 now ?m0]] by simp
  ultimately show ?thesis
    using walk judged side fin by (simp add: metro_fires_eq Let_def)
qed

lemma metro_tap_side:
  "beats_side (fst (metro_tap ry d t m)) = beats_side m" "mt_failed (fst (metro_tap ry d t m)) = mt_failed m"
  by (simp_all add: metro_tap_def record_tap_def Let_def beats_side_def split: option.split pyfloat.split prod.split)

text \<open>No player joins under the name of the Room.\<close>

definition real_join :: "metro_op \<Rightarrow> bool" where
  "real_join x \<longleftrightarrow> (case x of OJoin d _ \<Rightarrow> d \<noteq> ROOM | _ \<Rightarrow> True)"

lemma other_marks:
  assumes "real_devs m" and "real_join x" and "\<forall>now. x \<noteq> OTick now"
  shows "real_devs (metro_step ry m x) \<and> mt_t0 (metro_step ry m x) = mt_t0 m
    \<and> mt_next_beat (metro_step ry m x) = mt_next_beat m \<and> metro_cues ry m x = []"
  using assms metro_tap_side beats_sideD [OF metro_tap_side(1)]
  by (cases x) (auto simp: real_devs_def real_join_def metro_join_def metro_update_def)

text \<open>A run so far: it stands before its first tick, or every mark it reported is that of a scheduled beat.\<close>

definition on_schedule :: "rhythm \<Rightarrow> metronome \<Rightarrow> cue list \<Rightarrow> bool" where
  "on_schedule ry m out \<longleftrightarrow> real_devs m
     \<and> (case mt_t0 m of
          None \<Rightarrow> mt_next_beat m = 0 \<and> List.map_filter beat_mark out = []
        | Some t0 \<Rightarrow> List.map_filter beat_mark out = concat (map (scheduled ry t0) [0 ..< mt_next_beat m]))"

lemma on_schedule_step:
  assumes "on_schedule ry m out" and "real_join x"
  shows "on_schedule ry (metro_step ry m x) (out @ metro_cues ry m x)"
proof (cases "\<exists>now. x = OTick now")
  case True
  then obtain now where x: "x = OTick now" by blast
  let ?m = "fst (metro_fires ry now m)"
  from assms(1) have "real_devs m" by (simp add: on_schedule_def)
  note tick = tick_marks [OF this, of ry now, unfolded Let_def]
  have upt: "concat (map (scheduled ry t0) [0 ..< mt_next_beat m]) @ concat (map (scheduled ry t0) [mt_next_beat m ..< mt_next_beat ?m])
      = concat (map (scheduled ry t0) [0 ..< mt_next_beat ?m])" for t0
    using tick upt_add_eq_append [of 0 "mt_next_beat m" "mt_next_beat ?m - mt_next_beat m"]
    by (metis concat_append le0 le_add_diff_inverse map_append)
  have marks: "List.map_filter beat_mark (out @ snd (metro_fires ry now m)) =
      List.map_filter beat_mark out
      @ concat (map (scheduled ry (anchored ry now m)) [mt_next_beat m ..< mt_next_beat ?m])"
    using tick by (simp only: map_filter_append)
  have "List.map_filter beat_mark (out @ snd (metro_fires ry now m)) =
      concat (map (scheduled ry (anchored ry now m)) [0 ..< mt_next_beat ?m])"
  proof (cases "mt_t0 m")
    case None
    with assms(1) have "List.map_filter beat_mark out = []" "mt_next_beat m = 0"
      by (simp_all add: on_schedule_def)
    then show ?thesis unfolding marks by simp
  next
    case (Some t0)
    with assms(1) have "List.map_filter beat_mark out = concat (map (scheduled ry t0) [0 ..< mt_next_beat m])"
      "anchored ry now m = t0"
      by (simp_all add: on_schedule_def anchored_def)
    then show ?thesis unfolding marks by (simp only: upt)
  qed
  with tick x show ?thesis by (simp add: on_schedule_def)
next
  case False
  with other_marks [of m x ry] assms show ?thesis by (auto simp: on_schedule_def split: option.splits)
qed

lemma on_schedule_run:
  "on_schedule ry m out \<Longrightarrow> \<forall>x \<in> set xs. real_join x \<Longrightarrow>
   on_schedule ry (foldl (metro_step ry) m xs) (out @ metro_report ry m xs)"
proof (induction xs arbitrary: m out)
  case (Cons x xs)
  then have "on_schedule ry (metro_step ry m x) (out @ metro_cues ry m x)"
    by (intro on_schedule_step) simp_all
  from Cons.IH [OF this] Cons.prems(2) show ?case by simp
qed simp

text \<open>
  C36: Whatever joins, taps and ticks a run sees, and whoever fails, what the Room perceives of the beats is the
reference schedule: each beat once, in order, at its own gridpoint, with the downbeat's click, a call
beat's click, or none.
\<close>
theorem beats_follow_the_schedule:
  assumes "ROOM \<notin> set (mt_players m0)" and "\<forall>x \<in> set xs. real_join x"
    and "m = foldl (metro_step ry) (metro_run_start m0) xs" and "mt_t0 m = Some t0"
  shows "List.map_filter beat_mark (metro_report ry (metro_run_start m0) xs)
    = concat (map (scheduled ry t0) [0 ..< mt_next_beat m])"
proof -
  have "on_schedule ry (metro_run_start m0) []"
    using assms(1) by (simp add: on_schedule_def metro_run_start_def new_metronome_def real_devs_def)
  from on_schedule_run [OF this assms(2)] assms(3,4) show ?thesis by (simp add: on_schedule_def)
qed

definition solo_run :: "metro_op list" where
  "solo_run = map (\<lambda>k. OTick (10 + of_nat k * 3 / 10)) [0 ..< 8]"

definition one_player :: metronome where
  "one_player = metro_join ''ie1'' ''player'' new_metronome"

lemma beats_follow_the_schedule_witness:
  "List.map_filter beat_mark (metro_report (default_rhythm (6 / 100)) (metro_run_start one_player) solo_run)
    = concat (map (scheduled (default_rhythm (6 / 100)) (121 / 10)) [0 ..< 2])"
proof -
  let ?m = "foldl (metro_step (default_rhythm (6 / 100))) (metro_run_start one_player) solo_run"
  have "mt_t0 ?m = Some (121 / 10)" by code_simp
  moreover have "mt_next_beat ?m = 2" by code_simp
  moreover have "ROOM \<notin> set (mt_players one_player)" by code_simp
  moreover have "\<forall>x \<in> set solo_run. real_join x" by (simp add: solo_run_def real_join_def)
  ultimately show ?thesis
    using beats_follow_the_schedule [of one_player solo_run ?m "default_rhythm (6 / 100)" "121 / 10"] by simp
qed

subsection \<open>No beat is late, and a run ends\<close>

lemma grid_mono: "0 \<le> rh_beat_s ry \<Longrightarrow> j \<le> k \<Longrightarrow> grid ry t0 j \<le> grid ry t0 k"
  by (simp add: grid_def mult_right_mono)

lemma beat_walk_done: "\<not> due ry t0 now (fst (beat_walk ry t0 now m))"
proof (induction m rule: beat_walk_induct [of ry t0 now])
  case (stop m)
  then show ?case unfolding beat_walk_stop [OF stop] fst_conv .
next
  case (step m)
  show ?case unfolding beat_walk_step [OF step.hyps] fst_conv by (rule step.IH)
qed

lemma judge_walk_done: "\<not> closing ry t0 now (fst (judge_walk ry t0 now m))"
proof (induction m rule: judge_walk_induct [of ry t0 now])
  case (stop m)
  then show ?case unfolding judge_walk_stop [OF stop] fst_conv .
next
  case (step m)
  show ?case unfolding judge_walk_step [OF step.hyps] fst_conv by (rule step.IH)
qed

lemma tick_next_beat:
  "mt_next_beat (fst (metro_fires ry now m)) =
     mt_next_beat (fst (beat_walk ry (anchored ry now m) now (m\<lparr>mt_t0 := Some (anchored ry now m)\<rparr>)))"
  using beats_sideD(4) [OF judge_walk_side] beats_sideD(4) [OF end_finale_side(1)]
  by (simp add: metro_fires_eq Let_def)

lemma no_beat_is_late_aux:
  assumes "0 \<le> rh_beat_s ry" and "k < total_beats ry" and "grid ry (anchored ry now m) k \<le> now + rh_beat_s ry"
  shows "k < mt_next_beat (fst (metro_fires ry now m))"
proof (rule ccontr)
  let ?t0 = "anchored ry now m" and ?m' = "fst (metro_fires ry now m)"
  assume "\<not> k < mt_next_beat ?m'"
  then have "mt_next_beat ?m' \<le> k" by simp
  then have "grid ry ?t0 (mt_next_beat ?m') \<le> now + rh_beat_s ry" "mt_next_beat ?m' < total_beats ry"
    using grid_mono [OF assms(1), of "mt_next_beat ?m'" k ?t0] assms(2,3) by simp_all
  then show False
    using beat_walk_done [of ry ?t0 now "m\<lparr>mt_t0 := Some ?t0\<rparr>"] by (simp add: tick_next_beat)
qed

text \<open>
A tick leaves no beat behind: every beat of the run whose gridpoint is at most one beat ahead of the tick
has been reported, however far apart the ticks are.
\<close>
theorem no_beat_is_late:
  assumes "m' = fst (metro_fires ry now m)" and "0 \<le> rh_beat_s ry" and "k < total_beats ry"
    and "grid ry (anchored ry now m) k \<le> now + rh_beat_s ry"
  shows "k < mt_next_beat m'"
  unfolding assms(1) by (rule no_beat_is_late_aux [OF assms(2-4)])

lemma no_beat_is_late_witness:
  "1 < mt_next_beat (fst (metro_fires (default_rhythm 0) 12 ((metro_run_start one_player)\<lparr>mt_t0 := Some 12\<rparr>)))"
  by (rule no_beat_is_late [OF refl])
     (simp_all add: default_rhythm_def total_beats_def grid_def anchored_def)

text \<open>The deadlines grow with the cycle, so a tick past the last one judges every cycle.\<close>

lemma deadline_mono: "0 \<le> rh_beat_s ry \<Longrightarrow> c \<le> d \<Longrightarrow> deadline ry t0 c \<le> deadline ry t0 d"
  by (simp add: deadline_def mult_right_mono)

lemma judge_walk_bound: "mt_judged m \<le> rh_cycles ry \<Longrightarrow> mt_judged (fst (judge_walk ry t0 now m)) \<le> rh_cycles ry"
proof (induction m rule: judge_walk_induct [of ry t0 now])
  case (step m)
  then show ?case by (simp add: judge_walk_step)
qed (simp add: judge_walk_stop)

text \<open>A run that has judged everything is over or in its finale.\<close>

definition closed_ok :: "rhythm \<Rightarrow> rat \<Rightarrow> metronome \<Rightarrow> bool" where
  "closed_ok ry latest m \<longleftrightarrow>
     mt_judged m \<le> rh_cycles ry
     \<and> (mt_judged m < rh_cycles ry \<longrightarrow> mt_finale_end m = None \<and> \<not> mt_done m)
     \<and> (mt_judged m = rh_cycles ry \<longrightarrow> mt_done m \<or> mt_finale_end m \<noteq> None)
     \<and> (\<forall>t. mt_finale_end m = Some t \<longrightarrow> t \<le> latest + FINALE_S)"

lemma judge_phrase_closed:
  "mt_finale_end (fst (judge_phrase ry c m)) = mt_finale_end m" "mt_done (fst (judge_phrase ry c m)) = mt_done m"
  by (simp_all add: judge_phrase_def Let_def split: option.split)

lemma judge_cycle_closed:
  assumes "closed_ok ry latest m" and "mt_judged m < rh_cycles ry" and "now \<le> latest"
  shows "closed_ok ry latest (fst (judge_cycle ry now m))"
  using assms judge_phrase_closed [of ry "mt_judged m" m]
  by (auto simp: closed_ok_def judge_cycle_fst close_run_def)

lemma judge_walk_closed:
  "closed_ok ry latest m \<Longrightarrow> now \<le> latest \<Longrightarrow> closed_ok ry latest (fst (judge_walk ry t0 now m))"
proof (induction m rule: judge_walk_induct [of ry t0 now])
  case (step m)
  have "closed_ok ry latest (fst (judge_cycle ry now m))"
    using step.hyps by (intro judge_cycle_closed [OF step.prems(1) _ step.prems(2)]) simp
  with step show ?case by (simp add: judge_walk_step)
qed (simp add: judge_walk_stop)

lemma tick_closed:
  assumes "closed_ok ry latest m" and "now \<le> latest"
  shows "closed_ok ry latest (fst (metro_fires ry now m))"
proof -
  let ?t0 = "anchored ry now m"
  let ?m = "fst (beat_walk ry ?t0 now (m\<lparr>mt_t0 := Some ?t0\<rparr>))"
  have "closed_ok ry latest ?m"
    using assms(1) gameD [OF beat_walk_game [of ry ?t0 now "m\<lparr>mt_t0 := Some ?t0\<rparr>"]] by (simp add: closed_ok_def)
  then have "closed_ok ry latest (fst (judge_walk ry ?t0 now ?m))"
    using assms(2) by (rule judge_walk_closed)
  then show ?thesis
    by (auto simp: metro_fires_eq Let_def closed_ok_def end_finale_def split: option.splits)
qed

lemma metro_tap_closed:
  "mt_judged (fst (metro_tap ry d t m)) = mt_judged m" "mt_done (fst (metro_tap ry d t m)) = mt_done m"
  "mt_finale_end (fst (metro_tap ry d t m)) = mt_finale_end m"
  "mt_successes (fst (metro_tap ry d t m)) = mt_successes m"
  by (simp_all add: metro_tap_def record_tap_def Let_def split: option.split pyfloat.split prod.split)

lemma closed_ok_step:
  assumes "closed_ok ry latest m" and "\<forall>now. x = OTick now \<longrightarrow> now \<le> latest"
  shows "closed_ok ry latest (metro_step ry m x)"
proof (cases x)
  case (OTick now)
  with tick_closed [OF assms(1)] assms(2) show ?thesis by simp
next
  case (OTap d t)
  with assms(1) show ?thesis by (simp add: closed_ok_def metro_tap_closed)
qed (use assms(1) in \<open>simp_all add: closed_ok_def metro_join_def metro_update_def\<close>)

lemma closed_ok_run:
  "closed_ok ry latest m \<Longrightarrow> \<forall>now. OTick now \<in> set xs \<longrightarrow> now \<le> latest \<Longrightarrow>
   closed_ok ry latest (foldl (metro_step ry) m xs)"
proof (induction xs arbitrary: m)
  case (Cons x xs)
  then have "closed_ok ry latest (metro_step ry m x)"
    by (intro closed_ok_step) auto
  with Cons show ?case by simp
qed simp

lemma closed_ok_start: "0 < rh_cycles ry \<Longrightarrow> closed_ok ry latest (metro_run_start m0)"
  by (simp add: closed_ok_def metro_run_start_def new_metronome_def)

lemma late_tick_judges_all:
  assumes "closed_ok ry latest m" and "0 \<le> rh_beat_s ry" and "now \<le> latest"
    and "deadline ry (anchored ry now m) (rh_cycles ry - 1) \<le> now - rh_horizon ry"
  shows "mt_judged (fst (metro_fires ry now m)) = rh_cycles ry"
proof -
  let ?t0 = "anchored ry now m"
  let ?m = "fst (beat_walk ry ?t0 now (m\<lparr>mt_t0 := Some ?t0\<rparr>))"
  let ?v = "fst (judge_walk ry ?t0 now ?m)"
  have "mt_judged ?m \<le> rh_cycles ry"
    using assms(1) gameD(5) [OF beat_walk_game [of ry ?t0 now "m\<lparr>mt_t0 := Some ?t0\<rparr>"]] by (simp add: closed_ok_def)
  then have le: "mt_judged ?v \<le> rh_cycles ry" by (rule judge_walk_bound)
  have "\<not> mt_judged ?v < rh_cycles ry"
  proof
    assume less: "mt_judged ?v < rh_cycles ry"
    then have "deadline ry ?t0 (mt_judged ?v) \<le> deadline ry ?t0 (rh_cycles ry - 1)"
      by (intro deadline_mono [OF assms(2)]) simp
    with assms(4) have "deadline ry ?t0 (mt_judged ?v) \<le> now - rh_horizon ry" by simp
    with less judge_walk_done [of ry ?t0 now ?m] show False by simp
  qed
  with le show ?thesis by (simp add: metro_fires_eq Let_def end_finale_def split: option.split)
qed

text \<open>
  Every run of the metronome ends: once the clock is past the last cycle's deadline one tick judges what is
left, and a tick a finale later finds the run done, which the next update reports.
\<close>
theorem metronome_ends:
  assumes "m = foldl (metro_step ry) (metro_run_start m0) xs" and "\<forall>s. OTick s \<in> set xs \<longrightarrow> s \<le> now"
    and "0 < rh_cycles ry" and "0 \<le> rh_beat_s ry"
    and "deadline ry (anchored ry now m) (rh_cycles ry - 1) \<le> now - rh_horizon ry" and "now + FINALE_S \<le> later"
  shows "snd (metro_update dt (fst (metro_fires ry later (fst (metro_fires ry now m)))))"
proof -
  let ?m1 = "fst (metro_fires ry now m)"
  let ?t0 = "anchored ry later ?m1"
  let ?b = "fst (beat_walk ry ?t0 later (?m1\<lparr>mt_t0 := Some ?t0\<rparr>))"
  have ok: "closed_ok ry now m"
    using closed_ok_run [OF closed_ok_start [OF assms(3)] assms(2)] assms(1) by simp
  then have ok1: "closed_ok ry now ?m1" by (rule tick_closed) simp
  have judged: "mt_judged ?m1 = rh_cycles ry"
    by (rule late_tick_judges_all [OF ok assms(4) order_refl assms(5)])
  note same = gameD [OF beat_walk_game [of ry ?t0 later "?m1\<lparr>mt_t0 := Some ?t0\<rparr>"]]
  have "judge_walk ry ?t0 later ?b = (?b, [])"
    by (rule judge_walk_stop) (simp add: same judged)
  then have "fst (metro_fires ry later ?m1) = end_finale later ?b"
    by (simp add: metro_fires_eq Let_def)
  moreover have "mt_done ?m1 \<or> (\<exists>t. mt_finale_end ?m1 = Some t \<and> t \<le> later)"
    using ok1 judged assms(6) by (auto simp: closed_ok_def)
  then have "mt_done (end_finale later ?b)"
    using same by (auto simp: end_finale_def split: option.split)
  ultimately show ?thesis by (simp add: metro_update_def)
qed

lemma metronome_ends_witness:
  "snd (metro_update 1 (fst (metro_fires (default_rhythm 0) 60 (fst (metro_fires (default_rhythm 0) 40
     (foldl (metro_step (default_rhythm 0)) (metro_run_start one_player) solo_run))))))"
proof -
  let ?m = "foldl (metro_step (default_rhythm 0)) (metro_run_start one_player) solo_run"
  have "mt_t0 ?m = Some (121 / 10)" by code_simp
  then have "deadline (default_rhythm 0) (anchored (default_rhythm 0) 40 ?m) (rh_cycles (default_rhythm 0) - 1)
      \<le> 40 - rh_horizon (default_rhythm 0)"
    by (simp add: anchored_def deadline_def default_rhythm_def JUDGE_SLACK_S_def)
  moreover have "\<forall>s. OTick s \<in> set solo_run \<longrightarrow> s \<le> 40"
    by (auto simp: solo_run_def)
  ultimately show ?thesis
    by (intro metronome_ends [OF refl]) (simp_all add: default_rhythm_def FINALE_S_def)
qed

subsection \<open>What is fired is declared\<close>

text \<open>The table is one the engine loads, whatever valid script the fireworks are.\<close>

lemma adjudicated_entry:
  assumes "name_ok name" and "name \<notin> set RESERVED_NAMES" and "cname \<noteq> []" and "cdescription \<noteq> []"
    and "description \<noteq> []" and "validate_steps OBit None script = None"
  shows "validate_entry OBit verbs lanes name (snd (adjudicated name description target cname cdescription script)) = None"
  using assms
  by (simp add: validate_entry_def validate_kind_def adjudicated_def scripted_def validate_scripted_def
      validate_condition_def validate_script_def)

lemma validate_scripted_entries:
  "\<forall>(name, fn) \<in> set table. f_kind fn = SCRIPTED \<and> (\<forall>lanes. validate_entry ow verbs lanes name fn = None) \<Longrightarrow>
   validate_entries ow verbs lanes streams table = validate_stream_lane_overlap streams"
  by (induction table arbitrary: lanes streams) (auto simp: entry_lanes_def entry_streams_def)

lemma scripted_lanes:
  "f_kind fn = SCRIPTED \<Longrightarrow> validate_entry ow verbs lanes name fn = validate_entry ow verbs [] name fn"
  by (simp add: validate_entry_def validate_kind_def)

lemma all_scripted:
  assumes "list_all (\<lambda>(name, fn). f_kind fn = SCRIPTED \<and> validate_entry ow verbs [] name fn = None) table"
  shows "\<forall>(name, fn) \<in> set table. f_kind fn = SCRIPTED \<and> (\<forall>lanes. validate_entry ow verbs lanes name fn = None)"
proof (rule ballI, clarify)
  fix name fn
  assume "(name, fn) \<in> set table"
  with assms have "f_kind fn = SCRIPTED" "validate_entry ow verbs [] name fn = None"
    by (auto simp: list_all_iff)
  then have "validate_entry ow verbs lanes name fn = None" for lanes
    using trans [OF scripted_lanes] by blast
  with \<open>f_kind fn = SCRIPTED\<close> show "f_kind fn = SCRIPTED \<and> (\<forall>lanes. validate_entry ow verbs lanes name fn = None)"
    by blast
qed

lemma metro_functions_split:
  "metro_functions fireworks =
     adjudicated ''fireworks_player'' ''Celebratory flashes on the player who nailed it'' TDevice
       ''phrase_success'' ''Player matches the call phrase'' fireworks
     # adjudicated ''fireworks_room'' ''Celebratory flashes across the Room'' TRoom
       ''phrase_success'' ''Player matches the call phrase'' fireworks
     # drop 2 (metro_functions [])"
  by (simp add: metro_functions_def)

lemma metro_rest_ok:
  "list_all (\<lambda>(name, fn). f_kind fn = SCRIPTED \<and> validate_entry OBit [''tap''] [] name fn = None)
     (drop 2 (metro_functions []))"
  by code_simp

lemma metro_entries_ok:
  assumes "validate_steps OBit None fireworks = None"
  shows "\<forall>(name, fn) \<in> set (metro_functions fireworks).
    f_kind fn = SCRIPTED \<and> (\<forall>lanes. validate_entry OBit [''tap''] lanes name fn = None)"
proof -
  have "f_kind (snd (adjudicated name description target cname cdescription script)) = SCRIPTED
      \<and> fst (adjudicated name description target cname cdescription script) = name"
    for name description target cname cdescription script
    by (simp add: adjudicated_def scripted_def)
  moreover have "name_ok ''fireworks_player''" "name_ok ''fireworks_room''"
    "''fireworks_player'' \<notin> set RESERVED_NAMES" "''fireworks_room'' \<notin> set RESERVED_NAMES"
    by code_simp+
  ultimately have "\<forall>(name, fn) \<in> {adjudicated ''fireworks_player'' ''Celebratory flashes on the player who nailed it'' TDevice
       ''phrase_success'' ''Player matches the call phrase'' fireworks,
     adjudicated ''fireworks_room'' ''Celebratory flashes across the Room'' TRoom
       ''phrase_success'' ''Player matches the call phrase'' fireworks}.
    f_kind fn = SCRIPTED \<and> (\<forall>lanes. validate_entry OBit [''tap''] lanes name fn = None)"
    using assms by (simp add: case_prod_unfold adjudicated_entry)
  moreover have "\<forall>(name, fn) \<in> set (drop 2 (metro_functions [])).
    f_kind fn = SCRIPTED \<and> (\<forall>lanes. validate_entry OBit [''tap''] lanes name fn = None)"
    by (rule all_scripted [OF metro_rest_ok])
  ultimately show ?thesis
    unfolding metro_functions_split [of fireworks] by auto
qed

lemma metro_functions_load:
  assumes "validate_steps OBit None fireworks = None"
  shows "validate_function_table (metro_functions fireworks) [''tap''] OBit = None"
proof -
  have scripted: "\<forall>(name, fn) \<in> set (metro_functions fireworks). f_kind fn = SCRIPTED"
    using metro_entries_ok [OF assms] by auto
  then have "stream_verbs (metro_functions fireworks) = []"
    by (auto simp: stream_verbs_def)
  moreover have "validate_stream_lane_overlap [] = None"
    by code_simp
  ultimately show ?thesis
    using validate_scripted_entries [OF metro_entries_ok [OF assms]] by (simp add: validate_function_table_def)
qed

text \<open>A fire that names a function of the table, with a device exactly when its target is one.\<close>

definition declared_fire :: "fn_table \<Rightarrow> cue \<Rightarrow> bool" where
  "declared_fire table c \<longleftrightarrow>
     (case c of
        FireFunction name d _ \<Rightarrow>
          (case dget table name of None \<Rightarrow> False
           | Some fn \<Rightarrow> (f_target fn = Some TDevice \<longleftrightarrow> d \<noteq> None) \<and> (f_target fn = Some TRoom \<longleftrightarrow> d = None))
      | _ \<Rightarrow> False)"

definition metro_names :: "(string \<times> function_target) list" where
  "metro_names = map (\<lambda>(name, fn). (name, the (f_target fn))) (metro_functions [])"

lemma metro_target:
  "map_option f_target (dget (metro_functions fireworks) name) = map_option Some (dget metro_names name)"
  by (simp add: metro_functions_def metro_names_def adjudicated_def scripted_def)

lemma declared_fire_iff:
  "declared_fire (metro_functions fireworks) (fire name d t) \<longleftrightarrow>
     (case dget metro_names name of None \<Rightarrow> False
      | Some target \<Rightarrow> (target = TDevice \<longleftrightarrow> d \<noteq> None) \<and> (target = TRoom \<longleftrightarrow> d = None))"
  using metro_target [of fireworks name] by (auto simp: declared_fire_def fire_def split: option.splits)

lemma metro_names_eq:
  "metro_names = [(''fireworks_player'', TDevice), (''fireworks_room'', TRoom), (''fail_player'', TDevice),
     (''fail_room'', TRoom), (''finale'', TRoom), (''metro_downbeat'', TRoom), (''metro_click'', TRoom),
     (''metro_pulse_room'', TRoom), (''metro_pulse_player'', TDevice), (''metro_recovery'', TDevice)]"
  by (simp add: metro_names_def metro_functions_def adjudicated_def scripted_def)

lemma beat_fires_declared: "\<forall>c \<in> set (snd (beat_fires ry t0 k m)). declared_fire (metro_functions fireworks) c"
  by (auto simp: beat_fires_def Let_def pulses_def clicks_def declared_fire_iff metro_names_eq split: option.splits)

lemma judge_cycle_declared: "\<forall>c \<in> set (snd (judge_cycle ry now m)). declared_fire (metro_functions fireworks) c"
  by (auto simp: judge_cycle_snd judge_phrase_def close_run_def Let_def declared_fire_iff metro_names_eq split: option.splits)

lemma beat_walk_declared: "\<forall>c \<in> set (snd (beat_walk ry t0 now m)). declared_fire (metro_functions fireworks) c"
proof (induction m rule: beat_walk_induct [of ry t0 now])
  case (step m)
  then show ?case using beat_fires_declared [of ry t0 "mt_next_beat m" m fireworks]
    unfolding beat_walk_step [OF step.hyps] by auto
qed (simp add: beat_walk_stop)

lemma judge_walk_declared: "\<forall>c \<in> set (snd (judge_walk ry t0 now m)). declared_fire (metro_functions fireworks) c"
proof (induction m rule: judge_walk_induct [of ry t0 now])
  case (step m)
  then show ?case using judge_cycle_declared [of ry now m fireworks]
    unfolding judge_walk_step [OF step.hyps] by auto
qed (simp add: judge_walk_stop)

lemma metro_report_declared: "\<forall>c \<in> set (metro_report ry m xs). declared_fire (metro_functions fireworks) c"
proof (induction xs arbitrary: m)
  case (Cons x xs)
  have "\<forall>c \<in> set (metro_cues ry m x). declared_fire (metro_functions fireworks) c"
    using beat_walk_declared judge_walk_declared
    by (cases x) (auto simp: metro_fires_eq Let_def)
  with Cons show ?case by auto
qed simp

text \<open>
The metronome's function table passes the engine's validation at load, and whatever a run fires is
declared there: it names a function of the table, and names a device exactly when the function's target
is one.
\<close>
theorem metronome_fires_what_it_declares:
  assumes "validate_steps OBit None fireworks = None" and "c \<in> set (metro_report ry m xs)"
  shows "validate_function_table (metro_functions fireworks) [''tap''] OBit = None
    \<and> declared_fire (metro_functions fireworks) c"
  using metro_functions_load [OF assms(1)] metro_report_declared assms(2) by blast

lemma metronome_fires_what_it_declares_witness:
  "validate_function_table (metro_functions [tstep 0 144 60 100]) [''tap''] OBit = None
    \<and> declared_fire (metro_functions [tstep 0 144 60 100]) (fire ''metro_pulse_room'' None (Some (121 / 10)))"
proof (rule metronome_fires_what_it_declares)
  show "validate_steps OBit None [tstep 0 144 60 100] = None" by code_simp
  have "fire ''metro_pulse_room'' None (Some (121 / 10)) \<in> set (metro_report (default_rhythm 0) (metro_run_start one_player) solo_run)
      = True" by code_simp
  then show "fire ''metro_pulse_room'' None (Some (121 / 10)) \<in> set (metro_report (default_rhythm 0) (metro_run_start one_player) solo_run)"
    by simp
qed

end
