(* ===== verification/Metronome_Play.thy ===== *)
theory Metronome_Play
  imports Metronome_Facts
begin

section \<open>The metronome Bit: the game\<close>

text \<open>
  The other half of what the metronome shows: a tap on a wait beat of one's own turn is recorded as that
  beat's hit, the score is the verdicts reported, and a verdict always follows the next cycle's downbeat,
  which leaves a lone player dark.
\<close>

subsection \<open>A tap on the beat is a hit\<close>

lemma nearest_from_kept:
  "\<forall>v \<in> set ws. v = w \<or> \<bar>err w\<bar> < \<bar>err v\<bar> \<Longrightarrow> nearest_from err ws (Some (w, err w)) = Some (w, err w)"
  by (induction ws) auto

lemma nearest_from_found:
  assumes "w \<in> set ws" and "\<forall>v \<in> set ws. v = w \<or> \<bar>err w\<bar> < \<bar>err v\<bar>"
    and "\<forall>b e. best = Some (b, e) \<longrightarrow> \<bar>err w\<bar> < \<bar>e\<bar>"
  shows "nearest_from err ws best = Some (w, err w)"
  using assms
proof (induction ws arbitrary: best)
  case (Cons v ws)
  show ?case
  proof (cases "v = w")
    case True
    with Cons.prems have "nearest_from err (v # ws) best = nearest_from err ws (Some (w, err w))"
      by (auto split: option.split)
    with nearest_from_kept [of ws w err] Cons.prems(2) show ?thesis by simp
  next
    case False
    with Cons.prems have "w \<in> set ws" "\<bar>err w\<bar> < \<bar>err v\<bar>" by auto
    with Cons.prems show ?thesis
      by (auto intro!: Cons.IH split: option.splits prod.splits if_splits)
  qed
qed simp

lemma of_nat_apart:
  assumes "w \<noteq> v"
  shows "1 \<le> \<bar>of_nat w - of_nat v :: rat\<bar>"
proof -
  have "1 \<le> \<bar>int w - int v\<bar>" using assms by linarith
  then have "of_int 1 \<le> (of_int \<bar>int w - int v\<bar> :: rat)" by (simp only: of_int_le_iff)
  then show ?thesis by simp
qed

lemma further_away: "b \<le> \<bar>x :: rat\<bar> \<Longrightarrow> \<bar>y\<bar> \<le> tol \<Longrightarrow> 2 * tol < b \<Longrightarrow> \<bar>y\<bar> < \<bar>x + y\<bar>"
  by (simp add: abs_if split: if_splits)

locale playable =
  fixes ry :: rhythm
  assumes beats: "2 \<le> rh_beats ry"
    and tempo: "0 \<le> rh_tolerance ry" "2 * rh_tolerance ry < rh_beat_s ry"
begin

lemma beat_pos: "0 < rh_beat_s ry"
  using tempo by linarith

text \<open>A wait beat of a cycle and a moment near it belong to that cycle.\<close>

lemma cycle_of_wait_beat:
  assumes "c < rh_cycles ry" and "w < wait_beats ry" and "\<bar>\<delta>\<bar> \<le> rh_tolerance ry"
  shows "current_cycle ry t0 (grid ry t0 (c * rh_beats ry + call_beats ry + w) + \<delta>) = Some c"
proof -
  let ?k = "c * rh_beats ry + call_beats ry + w"
  let ?t = "grid ry t0 ?k + \<delta>"
  let ?b = "rh_beat_s ry" and ?B = "rh_beats ry"
  have call: "1 \<le> call_beats ry" "call_beats ry + w + 1 \<le> ?B"
    using beats assms(2) by (simp_all add: call_beats_def wait_beats_def)
  have dt: "(?t - t0) / ?b = of_nat ?k + \<delta> / ?b"
    using beat_pos by (simp add: grid_def field_simps)
  have small: "- (1 / 2) < \<delta> / ?b" "\<delta> / ?b < 1 / 2"
    using assms(3) tempo beat_pos by (simp_all add: field_simps abs_le_iff)
  have "1 \<le> (of_nat (call_beats ry) :: rat)" "of_nat (call_beats ry) + of_nat w + 1 \<le> (of_nat ?B :: rat)"
    using call by (simp_all flip: of_nat_add of_nat_Suc)
  with small have "0 \<le> of_nat (call_beats ry) + of_nat w + \<delta> / ?b" "of_nat (call_beats ry) + of_nat w + \<delta> / ?b < of_nat ?B"
    by linarith+
  then have "of_nat c * of_nat ?B \<le> of_nat ?k + \<delta> / ?b" "of_nat ?k + \<delta> / ?b < (of_nat c + 1) * of_nat ?B"
    by (simp_all add: algebra_simps)
  then have "\<lfloor>((?t - t0) / ?b) / of_nat ?B\<rfloor> = int c"
    using beats unfolding dt by (intro floor_unique) (simp_all add: field_simps)
  moreover have "\<not> ?t - t0 < - rh_tolerance ry"
  proof -
    have "0 \<le> of_nat ?k * ?b" using beat_pos by simp
    then show ?thesis using assms(3) by (simp add: grid_def abs_le_iff)
  qed
  moreover have "Suc ?k \<le> rh_cycles ry * ?B"
  proof -
    have "Suc ?k \<le> Suc c * ?B" using call by simp
    also have "\<dots> \<le> rh_cycles ry * ?B" using assms(1) by (intro mult_le_mono1) simp
    finally show ?thesis .
  qed
  then have "of_nat ?k * ?b \<le> (of_nat (rh_cycles ry * ?B) - 1) * ?b"
    using beat_pos by (intro mult_right_mono) (simp_all flip: of_nat_Suc of_nat_mult)
  then have "\<not> t0 + (of_nat (rh_cycles ry * ?B) - 1) * ?b + rh_tolerance ry < ?t"
    using assms(3) by (simp add: grid_def abs_le_iff)
  ultimately show ?thesis
    using assms(1) by (simp add: current_cycle_def Let_def min_def)
qed

lemma nearest_of_wait_beat:
  assumes "w < wait_beats ry" and "\<bar>\<delta>\<bar> \<le> rh_tolerance ry"
  shows "nearest_wait ry t0 c (grid ry t0 (c * rh_beats ry + call_beats ry + w) + \<delta>) = Some (w, \<delta>)"
proof -
  let ?t = "grid ry t0 (c * rh_beats ry + call_beats ry + w) + \<delta>"
  have err: "wait_error ry t0 c ?t v = (of_nat w - of_nat v) * rh_beat_s ry + \<delta>" for v
    by (simp add: wait_error_def grid_def algebra_simps)
  have "\<bar>wait_error ry t0 c ?t w\<bar> < \<bar>wait_error ry t0 c ?t v\<bar>" if "v \<noteq> w" for v
  proof -
    have "1 \<le> \<bar>of_nat w - of_nat v :: rat\<bar>"
      by (rule of_nat_apart) (use that in simp)
    then have "rh_beat_s ry \<le> \<bar>(of_nat w - of_nat v) * rh_beat_s ry\<bar>"
      using beat_pos by (simp add: abs_mult)
    from further_away [OF this assms(2) tempo(2)] show ?thesis by (simp add: err)
  qed
  then have "nearest_wait ry t0 c ?t = Some (w, wait_error ry t0 c ?t w)"
    unfolding nearest_wait_def using assms(1) by (intro nearest_from_found) auto
  then show ?thesis by (simp add: err)
qed

lemma tap_recorded:
  assumes "mt_t0 m = Some t0" and "\<not> mt_done m" and "c < rh_cycles ry" and "w < wait_beats ry"
    and "\<bar>\<delta>\<bar> \<le> rh_tolerance ry" and "turn_dev m c = Some d"
    and "t = grid ry t0 (c * rh_beats ry + call_beats ry + w) + \<delta>"
  shows "metro_tap ry d (Fin (t + rh_horizon ry + rh_input_offset ry)) m = (record_tap ry c w \<delta> m, Ret ())"
  using assms cycle_of_wait_beat [OF assms(3,4,5), of t0] nearest_of_wait_beat [OF assms(4,5), of t0 c]
  by (simp add: metro_tap_def Let_def)

end

text \<open>The rhythm the program ships is playable, with any horizon.\<close>

interpretation shipped: playable "default_rhythm horizon" for horizon
  by unfold_locales (simp_all add: default_rhythm_def)

text \<open>
  A tap of the player whose turn it is, within the tolerance of a wait beat, is recorded as a hit on that
beat of that cycle, and nothing else of the phrase changes: taking the horizon and the offset off the
stamp, the cycle and the nearest wait beat are found right. It holds of every rhythm of two beats or more
whose tolerance is less than half a beat.
\<close>
theorem tap_on_the_beat_is_a_hit:
  assumes "2 \<le> rh_beats ry" and "0 \<le> rh_tolerance ry" and "2 * rh_tolerance ry < rh_beat_s ry"
    and "mt_t0 m = Some t0" and "\<not> mt_done m" and "c < rh_cycles ry" and "w < wait_beats ry"
    and "\<bar>\<delta>\<bar> \<le> rh_tolerance ry" and "turn_dev m c = Some d"
    and "t = grid ry t0 (c * rh_beats ry + call_beats ry + w) + \<delta>"
    and "metro_tap ry d (Fin (t + rh_horizon ry + rh_input_offset ry)) m = (m', r)"
  shows "r = Ret () \<and> ph_hits (phrase_for c m') = List.insert w (ph_hits (phrase_for c m))
    \<and> ph_spoiled (phrase_for c m') = ph_spoiled (phrase_for c m)
    \<and> (\<forall>c'. c' \<noteq> c \<longrightarrow> phrase_for c' m' = phrase_for c' m)"
proof -
  have "playable ry" using assms(1-3) by (rule playable.intro)
  from playable.tap_recorded [OF this assms(4-10)] assms(11) have "m' = record_tap ry c w \<delta> m" "r = Ret ()"
    by simp_all
  with assms(8) show ?thesis by (simp add: record_tap_def Let_def phrase_for_def)
qed

lemma tap_on_the_beat_is_a_hit_witness:
  "let m = (metro_run_start one_player)\<lparr>mt_t0 := Some 12\<rparr>
   in ph_hits (phrase_for 1 (fst (metro_tap (default_rhythm (6 / 100)) ''ie1'' (Fin (19.80 + 2 / 100 + 6 / 100)) m))) = [1]"
proof -
  let ?ry = "default_rhythm (6 / 100)"
  let ?m = "(metro_run_start one_player)\<lparr>mt_t0 := Some 12\<rparr>"
  obtain m' r where tap: "metro_tap ?ry ''ie1'' (Fin (19.80 + 2 / 100 + 6 / 100)) ?m = (m', r)" by fastforce
  have "turn_dev ?m 1 = Some ''ie1''" by code_simp
  moreover have "ph_hits (phrase_for 1 ?m) = []" by code_simp
  moreover have "19.80 + 2 / 100 = grid ?ry 12 (1 * rh_beats ?ry + call_beats ?ry + 1) + 2 / 100"
    by (simp add: grid_def default_rhythm_def call_beats_def)
  ultimately show ?thesis
    using tap tap_on_the_beat_is_a_hit [where ry = ?ry and m = ?m and ?t0.0 = 12 and c = 1 and w = 1
        and \<delta> = "2 / 100" and d = "''ie1''" and t = "19.80 + 2 / 100" and m' = m' and r = r]
    by (simp add: default_rhythm_def wait_beats_def call_beats_def metro_run_start_def new_metronome_def)
qed

subsection \<open>The score\<close>

definition tally :: "string \<Rightarrow> cue list \<Rightarrow> nat" where
  "tally name out = length (filter (\<lambda>c. c = fire name None None) out)"

lemma tally_append [simp]: "tally name (a @ b) = tally name a + tally name b"
  by (simp add: tally_def)

lemma tally_Nil [simp]: "tally name [] = 0"
  by (simp add: tally_def)

lemma score_up:
  "sum_list (map snd (dset d (Suc (case dget s d of None \<Rightarrow> 0 | Some n \<Rightarrow> n)) s)) = Suc (sum_list (map snd s))"
  by (induction s) auto

lemma beat_fires_tally: "tally name (snd (beat_fires ry t0 k m)) = 0"
  by (auto simp: beat_fires_def Let_def pulses_def clicks_def fire_def tally_def filter_empty_conv split: option.splits)

lemma beat_walk_tally: "tally name (snd (beat_walk ry t0 now m)) = 0"
proof (induction m rule: beat_walk_induct [of ry t0 now])
  case (step m)
  then show ?case unfolding beat_walk_step [OF step.hyps] by (simp add: beat_fires_tally)
qed (simp add: beat_walk_stop)

definition score_ok :: "metronome \<Rightarrow> cue list \<Rightarrow> bool" where
  "score_ok m out \<longleftrightarrow> tally ''fireworks_room'' out = success_count m
     \<and> (mt_rotation m \<noteq> [] \<longrightarrow> tally ''fireworks_room'' out + tally ''fail_room'' out = mt_judged m)"

lemma close_run_score:
  "mt_successes (fst (close_run ry now m)) = mt_successes m"
  "tally ''fireworks_room'' (snd (close_run ry now m)) = 0" "tally ''fail_room'' (snd (close_run ry now m)) = 0"
  by (simp_all add: close_run_def tally_def fire_def)

lemma judge_phrase_score:
  "success_count (fst (judge_phrase ry c m)) = success_count m + tally ''fireworks_room'' (snd (judge_phrase ry c m))"
  "mt_rotation m \<noteq> [] \<Longrightarrow>
   tally ''fireworks_room'' (snd (judge_phrase ry c m)) + tally ''fail_room'' (snd (judge_phrase ry c m)) = 1"
  by (auto simp: judge_phrase_def Let_def success_count_def tally_def fire_def turn_dev_def score_up)

lemma judge_cycle_score:
  assumes "score_ok m out"
  shows "score_ok (fst (judge_cycle ry now m)) (out @ snd (judge_cycle ry now m))"
  using assms judge_phrase_score [where ry = ry and c = "mt_judged m" and m = m] beats_sideD(2) [OF judge_cycle_side [of ry now m]]
  by (auto simp: score_ok_def judge_cycle_fst judge_cycle_snd close_run_score success_count_def)

lemma judge_walk_score:
  "score_ok m out \<Longrightarrow> score_ok (fst (judge_walk ry t0 now m)) (out @ snd (judge_walk ry t0 now m))"
proof (induction m arbitrary: out rule: judge_walk_induct [of ry t0 now])
  case (step m)
  from step.IH [OF judge_cycle_score [OF step.prems]] show ?case
    unfolding judge_walk_step [OF step.hyps] by simp
qed (simp add: judge_walk_stop)

lemma end_finale_score: "score_ok (end_finale now m) out = score_ok m out"
  by (simp add: score_ok_def success_count_def end_finale_def split: option.split)

lemma score_ok_step:
  assumes "score_ok m out"
  shows "score_ok (metro_step ry m x) (out @ metro_cues ry m x)"
proof (cases x)
  case (OTick now)
  let ?t0 = "anchored ry now m"
  let ?r = "beat_walk ry ?t0 now (m\<lparr>mt_t0 := Some ?t0\<rparr>)"
  have "score_ok (fst ?r) (out @ snd ?r)"
    using assms gameD [OF beat_walk_game [of ry ?t0 now "m\<lparr>mt_t0 := Some ?t0\<rparr>"]]
    by (auto simp: score_ok_def success_count_def beat_walk_tally)
  from judge_walk_score [OF this, of ry ?t0 now] OTick show ?thesis
    by (simp add: metro_fires_eq Let_def end_finale_score beat_walk_tally)
next
  case (OTap d t)
  with assms beats_sideD(2) [OF metro_tap_side(1) [of ry d t m]] show ?thesis
    by (auto simp: score_ok_def success_count_def metro_tap_closed)
qed (use assms in \<open>auto simp: score_ok_def success_count_def metro_join_def metro_update_def\<close>)

lemma score_ok_run: "score_ok m out \<Longrightarrow> score_ok (foldl (metro_step ry) m xs) (out @ metro_report ry m xs)"
proof (induction xs arbitrary: m out)
  case (Cons x xs)
  from Cons.IH [OF score_ok_step [OF Cons.prems, of ry x]] show ?case by simp
qed simp

lemma tick_keeps:
  "mt_rotation (fst (metro_fires ry now m)) = mt_rotation m"
  "mt_judged m \<le> rh_cycles ry \<Longrightarrow> mt_judged (fst (metro_fires ry now m)) \<le> rh_cycles ry"
proof -
  let ?t0 = "anchored ry now m"
  let ?b = "fst (beat_walk ry ?t0 now (m\<lparr>mt_t0 := Some ?t0\<rparr>))"
  note b = gameD [OF beat_walk_game [of ry ?t0 now "m\<lparr>mt_t0 := Some ?t0\<rparr>"]]
  show "mt_rotation (fst (metro_fires ry now m)) = mt_rotation m"
    using b beats_sideD(2) [OF judge_walk_side [of ry ?t0 now ?b]]
      beats_sideD(2) [OF end_finale_side(1) [of now "fst (judge_walk ry ?t0 now ?b)"]]
    by (simp add: metro_fires_eq Let_def)
  assume "mt_judged m \<le> rh_cycles ry"
  with b judge_walk_bound [of ?b ry ?t0 now] show "mt_judged (fst (metro_fires ry now m)) \<le> rh_cycles ry"
    by (simp add: metro_fires_eq Let_def end_finale_def split: option.split)
qed

definition run_kept :: "rhythm \<Rightarrow> dev list \<Rightarrow> metronome \<Rightarrow> bool" where
  "run_kept ry rotation m \<longleftrightarrow> mt_rotation m = rotation \<and> mt_judged m \<le> rh_cycles ry"

interpretation metro: machine "metro_step ry" "run_kept ry rotation" for ry rotation
proof
  fix m x
  assume "run_kept ry rotation m"
  then show "run_kept ry rotation (metro_step ry m x)"
    using tick_keeps [where ry = ry and m = m] beats_sideD(2) [OF metro_tap_side(1) [where ry = ry and m = m]]
    by (cases x) (simp_all add: run_kept_def metro_join_def metro_update_def metro_tap_closed)
qed

text \<open>
The score of a run is what it told the Room: as many fireworks as successes counted, and, with anyone to
play, one verdict for each cycle judged, of which there are never more than the rhythm has.
\<close>
theorem score_is_what_was_shown:
  assumes "m = foldl (metro_step ry) (metro_run_start m0) xs" and "mt_players m0 \<noteq> []"
    and "out = metro_report ry (metro_run_start m0) xs"
  shows "tally ''fireworks_room'' out = success_count m
    \<and> tally ''fireworks_room'' out + tally ''fail_room'' out = mt_judged m \<and> mt_judged m \<le> rh_cycles ry"
proof -
  have "score_ok (metro_run_start m0) []"
    by (simp add: score_ok_def metro_run_start_def new_metronome_def success_count_def)
  from score_ok_run [OF this, of ry xs] have "score_ok m out"
    using assms(1,3) by simp
  moreover have "run_kept ry (mt_players m0) m"
    unfolding assms(1) by (rule metro.inv_run) (simp add: run_kept_def metro_run_start_def new_metronome_def)
  ultimately show ?thesis
    using assms(2) by (simp add: score_ok_def run_kept_def)
qed

lemma score_is_what_was_shown_witness:
  "tally ''fireworks_room'' (metro_report (default_rhythm 0) (metro_run_start one_player) (solo_run @ [OTick 20])) = 0
   \<and> tally ''fail_room'' (metro_report (default_rhythm 0) (metro_run_start one_player) (solo_run @ [OTick 20])) = 1"
proof -
  let ?ry = "default_rhythm 0"
  let ?m = "foldl (metro_step ?ry) (metro_run_start one_player) (solo_run @ [OTick 20])"
  have "mt_judged ?m = 1" by code_simp
  moreover have "success_count ?m = 0" by code_simp
  moreover have "mt_players one_player \<noteq> []" by (simp add: one_player_def metro_join_def)
  ultimately show ?thesis
    using score_is_what_was_shown [OF refl _ refl, of one_player ?ry "solo_run @ [OTick 20]"] by simp
qed

subsection \<open>Verdicts come after the next downbeat\<close>

text \<open>The downbeat that follows every judged cycle but the last has been reported already.\<close>

definition downbeats_out :: "rhythm \<Rightarrow> metronome \<Rightarrow> bool" where
  "downbeats_out ry m \<longleftrightarrow>
     (\<forall>c. c < mt_judged m \<and> Suc c < rh_cycles ry \<longrightarrow> Suc c * rh_beats ry < mt_next_beat m)"

lemma next_downbeat_is_due:
  assumes "0 \<le> rh_tolerance ry" and "0 \<le> rh_horizon ry" and "deadline ry t0 c \<le> now - rh_horizon ry"
  shows "grid ry t0 (Suc c * rh_beats ry) \<le> now + rh_beat_s ry"
  using assms by (simp add: deadline_def grid_def JUDGE_SLACK_S_def algebra_simps)

lemma beat_walk_next_mono: "mt_next_beat m \<le> mt_next_beat (fst (beat_walk ry t0 now m))"
proof (induction m rule: beat_walk_induct [of ry t0 now])
  case (step m)
  then show ?case unfolding beat_walk_step [OF step.hyps] by simp
qed (simp add: beat_walk_stop)

text \<open>A cycle that judging adds is one whose deadline has passed.\<close>

lemma judged_are_past:
  "c < mt_judged (fst (judge_walk ry t0 now m)) \<Longrightarrow> mt_judged m \<le> c \<Longrightarrow> deadline ry t0 c \<le> now - rh_horizon ry"
proof (induction m rule: judge_walk_induct [of ry t0 now])
  case (stop m)
  then show ?case unfolding judge_walk_stop [OF stop(1)] by simp
next
  case (step m)
  show ?case
  proof (cases "c = mt_judged m")
    case True
    with step.hyps show ?thesis by simp
  next
    case False
    with step.prems step.IH show ?thesis unfolding judge_walk_step [OF step.hyps] by simp
  qed
qed

lemma downbeats_tick:
  assumes "0 \<le> rh_beat_s ry" and "0 \<le> rh_tolerance ry" and "0 \<le> rh_horizon ry" and "0 < rh_beats ry"
    and "downbeats_out ry m"
  shows "downbeats_out ry (fst (metro_fires ry now m))"
proof -
  let ?t0 = "anchored ry now m"
  let ?start = "m\<lparr>mt_t0 := Some ?t0\<rparr>"
  let ?b = "fst (beat_walk ry ?t0 now ?start)"
  let ?m = "fst (metro_fires ry now m)"
  have nb: "mt_next_beat m \<le> mt_next_beat ?m"
    using beat_walk_next_mono [of ?start ry ?t0 now] by (simp add: tick_next_beat)
  have judged: "mt_judged ?m = mt_judged (fst (judge_walk ry ?t0 now ?b))"
    by (simp add: metro_fires_eq Let_def end_finale_def split: option.split)
  have "Suc c * rh_beats ry < mt_next_beat ?m" if c: "c < mt_judged ?m" "Suc c < rh_cycles ry" for c
  proof (cases "c < mt_judged m")
    case True
    with c assms(5) have "Suc c * rh_beats ry < mt_next_beat m" by (simp add: downbeats_out_def)
    with nb show ?thesis by simp
  next
    case False
    then have "mt_judged ?b \<le> c"
      using gameD(5) [OF beat_walk_game [of ry ?t0 now ?start]] by simp
    with c(1) judged have "deadline ry ?t0 c \<le> now - rh_horizon ry"
      using judged_are_past [of c ry ?t0 now ?b] by simp
    from next_downbeat_is_due [OF assms(2,3) this]
    have "grid ry ?t0 (Suc c * rh_beats ry) \<le> now + rh_beat_s ry" .
    moreover have "Suc c * rh_beats ry < total_beats ry"
      using c(2) assms(4) by (simp add: total_beats_def mult.commute [of "rh_beats ry"] del: mult_Suc)
    ultimately show ?thesis
      by (intro no_beat_is_late_aux [OF assms(1)])
  qed
  then show ?thesis by (simp add: downbeats_out_def)
qed

lemma downbeats_step:
  assumes "0 \<le> rh_beat_s ry" and "0 \<le> rh_tolerance ry" and "0 \<le> rh_horizon ry" and "0 < rh_beats ry"
    and "downbeats_out ry m"
  shows "downbeats_out ry (metro_step ry m x)"
proof (cases x)
  case (OTick now)
  with downbeats_tick [OF assms] show ?thesis by simp
next
  case (OTap d t)
  with assms(5) beats_sideD(4) [OF metro_tap_side(1) [where ry = ry and m = m]] show ?thesis
    by (simp add: downbeats_out_def metro_tap_closed)
qed (use assms(5) in \<open>simp_all add: downbeats_out_def metro_join_def metro_update_def\<close>)

text \<open>
  A verdict never reaches the Room before the next cycle has begun: whenever cycle \<open>c\<close> has been judged, the
downbeat of cycle \<open>c + 1\<close> has been reported. So a failure is never known at the downbeat that follows
it, and a player whose turn comes in consecutive cycles is not brought back by it.
\<close>
theorem verdict_follows_the_next_downbeat:
  assumes "m = foldl (metro_step ry) (metro_run_start m0) xs"
    and "0 \<le> rh_beat_s ry" and "0 \<le> rh_tolerance ry" and "0 \<le> rh_horizon ry" and "0 < rh_beats ry"
    and "c < mt_judged m" and "Suc c < rh_cycles ry"
  shows "Suc c * rh_beats ry < mt_next_beat m"
proof -
  have "downbeats_out ry (foldl (metro_step ry) m1 xs)" if "downbeats_out ry m1" for m1
    using that downbeats_step [OF assms(2-5)] by (induction xs arbitrary: m1) simp_all
  moreover have "downbeats_out ry (metro_run_start m0)"
    by (simp add: downbeats_out_def metro_run_start_def new_metronome_def)
  ultimately have "downbeats_out ry m" unfolding assms(1) by blast
  with assms(6,7) show ?thesis by (simp add: downbeats_out_def)
qed

lemma verdict_follows_the_next_downbeat_witness:
  "8 < mt_next_beat (foldl (metro_step (default_rhythm 0)) (metro_run_start one_player) (solo_run @ [OTick 20]))"
proof -
  let ?ry = "default_rhythm 0"
  let ?m = "foldl (metro_step ?ry) (metro_run_start one_player) (solo_run @ [OTick 20])"
  have "mt_judged ?m = 1" by code_simp
  then show ?thesis
    using verdict_follows_the_next_downbeat [where ry = ?ry and ?m0.0 = one_player and xs = "solo_run @ [OTick 20]" and c = 0, OF refl]
    by (simp add: default_rhythm_def)
qed

text \<open>What a lone player is shown in a whole run of the shipped rhythm, with a tick on every beat and no tap.\<close>

definition shown_to :: "dev \<Rightarrow> cue list \<Rightarrow> string list" where
  "shown_to d out =
     List.map_filter (\<lambda>c. case c of FireFunction name (Some d') _ \<Rightarrow> if d' = d then Some name else None | _ \<Rightarrow> None) out"

definition long_run :: "metro_op list" where
  "long_run = map (\<lambda>k. OTick (10 + of_nat k * 3 / 5)) [0 ..< 38]"

text \<open>
A lone player who fails is left dark on its own turns: of the 32 beats of the run it is pulsed on eleven,
the first nine and the downbeats of the last two cycles, and each recovery is followed by one pulse and
the next failure.
\<close>
theorem lone_player_is_left_dark:
  "shown_to ''ie1'' (metro_report (default_rhythm (6 / 100)) (metro_run_start one_player) long_run)
   = replicate 9 ''metro_pulse_player'' @ [''fail_player'', ''metro_recovery'', ''metro_pulse_player'', ''fail_player'',
       ''metro_recovery'', ''metro_pulse_player'', ''fail_player'', ''fail_player'']"
  by code_simp

end
