(* ===== verification/Audio.thy ===== *)
theory Audio
  imports Manifests Lobby_Runtime
begin

section \<open>The audio bridge\<close>

text \<open>
  \<open>AudioBridge\<close> of \<open>src/control/audio.py\<close>: the voices a device's role declares, its drone, and the
  notes that ring on a voice of their own. The pool of voices is injected, so every operation takes a
  record of the pool's operations (\<open>pool_ops\<close>); \<open>Audio_Pool\<close> gives it the two pools of the program. A
  call to a voice or to the pool can raise, which the record says with an \<open>outcome\<close> or a flag; an
  operation of the bridge returns the new bridge and whether it raised. Only validated roles reach the
  bridge, and the key and velocity of a drone are taken to be numbers. The clock is an argument.
\<close>

datatype voice_call = NoteOn int int | NoteOff int | Control int int | Program int | AllOff

record ('p, 'v) pool_ops =
  po_acquire :: "bool \<Rightarrow> 'p \<Rightarrow> 'p \<times> 'v outcome"
  po_release :: "'v \<Rightarrow> 'p \<Rightarrow> 'p"
  po_call :: "'v \<Rightarrow> voice_call \<Rightarrow> 'p \<Rightarrow> 'p \<times> bool"
  po_poll :: "'p \<Rightarrow> 'p"
  po_shutdown :: "'p \<Rightarrow> 'p \<times> bool"

record 'v voice_part =
  vp_voice :: 'v
  vp_lanes :: "(int, int) dict"

record 'v device_audio =
  da_parts :: "'v voice_part list"
  da_drone :: "(int \<times> int) option"
  da_drone_key :: "int option"

record ('p, 'v) bridge =
  br_pool :: 'p
  br_devices :: "(dev, 'v device_audio) dict"
  br_pending :: "(rat \<times> 'v \<times> int) list"
  br_shut :: bool

definition new_bridge :: "'p \<Rightarrow> ('p, 'v) bridge" where
  "new_bridge p = \<lparr>br_pool = p, br_devices = [], br_pending = [], br_shut = False\<rparr>"

definition QUIET_CC7 :: int where "QUIET_CC7 = 100"
definition DEFAULT_WELCOME_DURATION :: rat where "DEFAULT_WELCOME_DURATION = 3 / 2"

definition WELCOME_VOICES :: "(string, int \<times> int \<times> int) dict" where
  "WELCOME_VOICES =
     [(''chime'', (9, 84, 88)), (''bell'', (BELL_PROGRAM, NOTE_SCALE ! 0, BELL_VEL))]"

text \<open>Calls to one voice, up to the first that raises.\<close>

fun voice_calls :: "('p, 'v) pool_ops \<Rightarrow> 'v \<Rightarrow> voice_call list \<Rightarrow> 'p \<Rightarrow> 'p \<times> bool" where
  "voice_calls ops v [] p = (p, False)"
| "voice_calls ops v (c # cs) p =
     (case po_call ops v c p of
        (p', True) \<Rightarrow> (p', True)
      | (p', False) \<Rightarrow> voice_calls ops v cs p')"

subsection \<open>What a role declares\<close>

definition ugen_decls :: "pyval \<Rightarrow> (string, pyval) dict list" where
  "ugen_decls v =
     (case as_dict v of None \<Rightarrow> []
      | Some m \<Rightarrow> (case as_list (dget_default m ''instruments'' (VList [])) of None \<Rightarrow> []
          | Some ds \<Rightarrow> List.map_filter as_dict ds))"

text \<open>The lane map, later lanes over earlier ones; \<open>None\<close> is the \<open>ValueError\<close> of a reference.\<close>

fun lane_map :: "pyval list \<Rightarrow> (int, int) dict \<Rightarrow> (int, int) dict option" where
  "lane_map [] m = Some m"
| "lane_map (v # vs) m =
     (case as_dict v of
        None \<Rightarrow> None
      | Some l \<Rightarrow>
          (case (parse_cc_ref (dget_default l ''source'' VNone), parse_cc_ref (dget_default l ''dest'' VNone)) of
             (Some s, Some d) \<Rightarrow> lane_map vs (dset s d m)
           | _ \<Rightarrow> None))"

definition decl_lanes :: "(string, pyval) dict \<Rightarrow> (int, int) dict option" where
  "decl_lanes decl =
     (case as_list (dget_default decl ''lanes'' (VList [])) of None \<Rightarrow> None | Some vs \<Rightarrow> lane_map vs [])"

definition decl_program :: "(string, pyval) dict \<Rightarrow> int option" where
  "decl_program decl = (case dget decl ''program'' of Some (VInt n) \<Rightarrow> Some n | _ \<Rightarrow> None)"

definition drone_int :: "pyval \<Rightarrow> int" where
  "drone_int v =
     (case v of
        VInt n \<Rightarrow> n
      | VBool b \<Rightarrow> if b then 1 else 0
      | VFloat (Fin q) \<Rightarrow> if q < 0 then \<lceil>q\<rceil> else \<lfloor>q\<rfloor>
      | _ \<Rightarrow> 0)"

definition decl_drone :: "(string, pyval) dict \<Rightarrow> (int \<times> int) option" where
  "decl_drone decl =
     (case dget decl ''drone'' of
        Some (VDict d) \<Rightarrow> Some (drone_int (dget_default d ''key'' VNone), drone_int (dget_default d ''velocity'' VNone))
      | _ \<Rightarrow> None)"

text \<open>The audio half of a welcome: nothing, or the name and how long it sounds.\<close>

definition welcome_audio :: "pyval option \<Rightarrow> (string \<times> rat) option" where
  "welcome_audio w =
     (case w of
        Some (VDict m) \<Rightarrow>
          (case dget m ''audio'' of
             Some (VDict a) \<Rightarrow>
               (case dget a ''instrument'' of
                  Some (VStr name) \<Rightarrow>
                    Some (name, (case dget a ''duration'' of
                        Some (VFloat (Fin t)) \<Rightarrow> t | Some (VInt n) \<Rightarrow> of_int n | _ \<Rightarrow> DEFAULT_WELCOME_DURATION))
                | _ \<Rightarrow> None)
           | _ \<Rightarrow> None)
      | _ \<Rightarrow> None)"

subsection \<open>Grants\<close>

text \<open>
  One voice for each declared instrument. On a failure the parts taken so far come back; a voice whose
  lanes cannot be read is in none of them.
\<close>

fun take_parts ::
  "('p, 'v) pool_ops \<Rightarrow> (string, pyval) dict list \<Rightarrow> 'v voice_part list \<Rightarrow> 'p \<Rightarrow>
   'p \<times> 'v voice_part list \<times> bool" where
  "take_parts ops [] parts p = (p, parts, False)"
| "take_parts ops (decl # ds) parts p =
     (case po_acquire ops (is_drums decl) p of
        (p1, Raised) \<Rightarrow> (p1, parts, True)
      | (p1, Ret v) \<Rightarrow>
          (case decl_lanes decl of
             None \<Rightarrow> (p1, parts, True)
           | Some lanes \<Rightarrow>
               (let parts' = parts @ [\<lparr>vp_voice = v, vp_lanes = lanes\<rparr>] in
                case (case decl_program decl of None \<Rightarrow> (p1, False) | Some n \<Rightarrow> po_call ops v (Program n) p1) of
                  (p2, True) \<Rightarrow> (p2, parts', True)
                | (p2, False) \<Rightarrow> take_parts ops ds parts' p2)))"

definition release_parts :: "('p, 'v) pool_ops \<Rightarrow> 'v voice_part list \<Rightarrow> 'p \<Rightarrow> 'p" where
  "release_parts ops parts p = foldl (\<lambda>p part. po_release ops (vp_voice part) p) p parts"

definition play_note ::
  "('p, 'v) pool_ops \<Rightarrow> int \<Rightarrow> int \<Rightarrow> int \<Rightarrow> rat \<Rightarrow> rat \<Rightarrow> ('p, 'v) bridge \<Rightarrow> ('p, 'v) bridge \<times> bool" where
  "play_note ops program key vel duration now b =
     (if br_shut b then (b, False)
      else case po_acquire ops False (br_pool b) of
             (p1, Raised) \<Rightarrow> (b\<lparr>br_pool := p1\<rparr>, True)
           | (p1, Ret v) \<Rightarrow>
               (case voice_calls ops v [Program program, NoteOn key vel] p1 of
                  (p2, True) \<Rightarrow> (b\<lparr>br_pool := p2\<rparr>, True)
                | (p2, False) \<Rightarrow>
                    (b\<lparr>br_pool := p2, br_pending := br_pending b @ [(now + duration, v, key)]\<rparr>, False)))"

definition play_welcome ::
  "('p, 'v) pool_ops \<Rightarrow> role \<Rightarrow> rat \<Rightarrow> ('p, 'v) bridge \<Rightarrow> ('p, 'v) bridge \<times> bool" where
  "play_welcome ops r now b =
     (case welcome_audio (r_welcome r) of
        None \<Rightarrow> (b, False)
      | Some (name, duration) \<Rightarrow>
          (case dget WELCOME_VOICES name of
             None \<Rightarrow> (b, True)
           | Some (program, key, vel) \<Rightarrow> play_note ops program key vel duration now b))"

definition grant_voices ::
  "('p, 'v) pool_ops \<Rightarrow> dev \<Rightarrow> (string, pyval) dict list \<Rightarrow> ('p, 'v) bridge \<Rightarrow> ('p, 'v) bridge \<times> bool" where
  "grant_voices ops d decls b =
     (case take_parts ops decls [] (br_pool b) of
        (p1, parts, True) \<Rightarrow> (b\<lparr>br_pool := release_parts ops parts p1\<rparr>, True)
      | (p1, parts, False) \<Rightarrow>
          (b\<lparr>br_pool := p1,
             br_devices := dset d \<lparr>da_parts = parts, da_drone = decl_drone (hd decls), da_drone_key = None\<rparr> (br_devices b)\<rparr>,
           False))"

definition audio_grant ::
  "('p, 'v) pool_ops \<Rightarrow> dev \<Rightarrow> role \<Rightarrow> rat \<Rightarrow> ('p, 'v) bridge \<Rightarrow> ('p, 'v) bridge \<times> bool" where
  "audio_grant ops d r now b =
     (if br_shut b then (b, False)
      else (let decls = ugen_decls (r_ugen_manifest r);
                g = (if decls = [] then (b, False) else grant_voices ops d decls b)
            in if snd g then g else play_welcome ops r now (fst g)))"

subsection \<open>Feeding\<close>

definition call_part :: "('p, 'v) pool_ops \<Rightarrow> 'v \<Rightarrow> voice_call list \<Rightarrow> ('p, 'v) bridge \<Rightarrow> ('p, 'v) bridge \<times> bool" where
  "call_part ops v cs b = (case voice_calls ops v cs (br_pool b) of (p, raised) \<Rightarrow> (b\<lparr>br_pool := p\<rparr>, raised))"

definition audio_control ::
  "('p, 'v) pool_ops \<Rightarrow> dev \<Rightarrow> int \<Rightarrow> int \<Rightarrow> ('p, 'v) bridge \<Rightarrow> ('p, 'v) bridge \<times> bool" where
  "audio_control ops d cc value b =
     (case dget (br_devices b) d of
        None \<Rightarrow> (b, False)
      | Some entry \<Rightarrow> call_part ops (vp_voice (da_parts entry ! 0)) [Control cc value] b)"

text \<open>What one MIDI event asks of its part.\<close>

definition midi_calls :: "(int, int) dict \<Rightarrow> int \<Rightarrow> int \<Rightarrow> int \<Rightarrow> voice_call list" where
  "midi_calls lanes kind d1 d2 =
     (if kind = 144 \<and> 0 < d2 then [NoteOn d1 d2]
      else if kind = 128 \<or> (kind = 144 \<and> d2 = 0) then [NoteOff d1]
      else if kind = 176 then (case dget lanes d1 of None \<Rightarrow> [] | Some cc \<Rightarrow> [Control cc d2])
      else if kind = 192 then [Program d1] else [])"

text \<open>The part a status byte's channel nibble selects: an undeclared one falls back to part 0.\<close>

definition midi_part :: "'v voice_part list \<Rightarrow> int \<Rightarrow> 'v voice_part" where
  "midi_part parts status =
     (let nibble = nat (status mod 16) in parts ! (if nibble < length parts then nibble else 0))"

definition feed_midi ::
  "('p, 'v) pool_ops \<Rightarrow> dev \<Rightarrow> int \<Rightarrow> int \<Rightarrow> int \<Rightarrow> ('p, 'v) bridge \<Rightarrow> ('p, 'v) bridge \<times> bool" where
  "feed_midi ops d status d1 d2 b =
     (case dget (br_devices b) d of
        None \<Rightarrow> (b, False)
      | Some entry \<Rightarrow>
          (let part = midi_part (da_parts entry) status
           in call_part ops (vp_voice part) (midi_calls (vp_lanes part) (status div 16 mod 16 * 16) d1 d2) b))"

definition set_drone :: "dev \<Rightarrow> int option \<Rightarrow> ('p, 'v) bridge \<Rightarrow> ('p, 'v) bridge" where
  "set_drone d key b =
     (case dget (br_devices b) d of
        None \<Rightarrow> b
      | Some entry \<Rightarrow> b\<lparr>br_devices := dset d (entry\<lparr>da_drone_key := key\<rparr>) (br_devices b)\<rparr>)"

definition start_drone :: "('p, 'v) pool_ops \<Rightarrow> dev \<Rightarrow> ('p, 'v) bridge \<Rightarrow> ('p, 'v) bridge \<times> bool" where
  "start_drone ops d b =
     (case dget (br_devices b) d of
        None \<Rightarrow> (b, False)
      | Some entry \<Rightarrow>
          (case da_drone entry of
             None \<Rightarrow> (b, False)
           | Some (key, vel) \<Rightarrow>
               if da_drone_key entry \<noteq> None then (b, False)
               else (case feed_midi ops d 144 key vel b of
                       (b1, True) \<Rightarrow> (b1, True)
                     | (b1, False) \<Rightarrow> (set_drone d (Some key) b1, False))))"

definition stop_drone :: "('p, 'v) pool_ops \<Rightarrow> dev \<Rightarrow> ('p, 'v) bridge \<Rightarrow> ('p, 'v) bridge \<times> bool" where
  "stop_drone ops d b =
     (case dget (br_devices b) d of
        None \<Rightarrow> (b, False)
      | Some entry \<Rightarrow>
          (case da_drone_key entry of
             None \<Rightarrow> (b, False)
           | Some key \<Rightarrow>
               (case feed_midi ops d 128 key 0 b of
                  (b1, True) \<Rightarrow> (b1, True)
                | (b1, False) \<Rightarrow> (set_drone d None b1, False))))"

subsection \<open>Silence, release, ticks and shutdown\<close>

definition quieting :: "voice_call list" where
  "quieting = [Control 64 0, Control 7 QUIET_CC7, AllOff]"

text \<open>\<open>_quiet\<close>: each part, whatever the others raise; the flag says whether any did.\<close>

fun quiet_parts :: "('p, 'v) pool_ops \<Rightarrow> bool \<Rightarrow> 'v voice_part list \<Rightarrow> 'p \<Rightarrow> 'p \<times> bool" where
  "quiet_parts ops releasing [] p = (p, False)"
| "quiet_parts ops releasing (part # parts) p =
     (let r = voice_calls ops (vp_voice part) quieting p;
          p1 = (if releasing then po_release ops (vp_voice part) (fst r) else fst r);
          rest = quiet_parts ops releasing parts p1
      in (fst rest, snd r \<or> snd rest))"

definition drone_off :: "'v device_audio \<Rightarrow> voice_call list" where
  "drone_off entry = (case da_drone_key entry of None \<Rightarrow> [] | Some key \<Rightarrow> [NoteOff key])"

definition silence :: "('p, 'v) pool_ops \<Rightarrow> dev \<Rightarrow> ('p, 'v) bridge \<Rightarrow> ('p, 'v) bridge \<times> bool" where
  "silence ops d b =
     (case dget (br_devices b) d of
        None \<Rightarrow> (b, False)
      | Some entry \<Rightarrow>
          (case call_part ops (vp_voice (da_parts entry ! 0)) (drone_off entry) b of
             (b1, True) \<Rightarrow> (b1, True)
           | (b1, False) \<Rightarrow>
               (let b2 = set_drone d None b1; q = quiet_parts ops False (da_parts entry) (br_pool b2)
                in (b2\<lparr>br_pool := fst q\<rparr>, snd q))))"

definition audio_release :: "('p, 'v) pool_ops \<Rightarrow> dev \<Rightarrow> ('p, 'v) bridge \<Rightarrow> ('p, 'v) bridge \<times> bool" where
  "audio_release ops d b =
     (case dget (br_devices b) d of
        None \<Rightarrow> (b, False)
      | Some entry \<Rightarrow>
          (case call_part ops (vp_voice (da_parts entry ! 0)) (drone_off entry) (b\<lparr>br_devices := dpop d (br_devices b)\<rparr>) of
             (b1, True) \<Rightarrow> (b1, True)
           | (b1, False) \<Rightarrow>
               (let q = quiet_parts ops True (da_parts entry) (br_pool b1) in (b1\<lparr>br_pool := fst q\<rparr>, snd q))))"

text \<open>
  The notes that are due: note off, all off, back to the pool. The kept list is stored only at the end, so
  a call that raises leaves all of them pending.
\<close>

fun expire_notes ::
  "('p, 'v) pool_ops \<Rightarrow> rat \<Rightarrow> (rat \<times> 'v \<times> int) list \<Rightarrow> 'p \<Rightarrow> 'p \<times> (rat \<times> 'v \<times> int) list \<times> bool" where
  "expire_notes ops now [] p = (p, [], False)"
| "expire_notes ops now ((due, v, key) # notes) p =
     (if due \<le> now
      then (case voice_calls ops v [NoteOff key, AllOff] p of
              (p1, True) \<Rightarrow> (p1, [], True)
            | (p1, False) \<Rightarrow> expire_notes ops now notes (po_release ops v p1))
      else (let r = expire_notes ops now notes p in (fst r, (due, v, key) # fst (snd r), snd (snd r))))"

definition audio_tick :: "('p, 'v) pool_ops \<Rightarrow> rat \<Rightarrow> ('p, 'v) bridge \<Rightarrow> ('p, 'v) bridge \<times> bool" where
  "audio_tick ops now b =
     (case expire_notes ops now (br_pending b) (br_pool b) of
        (p, kept, True) \<Rightarrow> (b\<lparr>br_pool := p\<rparr>, True)
      | (p, kept, False) \<Rightarrow> (b\<lparr>br_pool := po_poll ops p, br_pending := kept\<rparr>, False))"

fun stop_notes :: "('p, 'v) pool_ops \<Rightarrow> (rat \<times> 'v \<times> int) list \<Rightarrow> 'p \<Rightarrow> 'p \<times> bool" where
  "stop_notes ops [] p = (p, False)"
| "stop_notes ops ((due, v, key) # notes) p =
     (case voice_calls ops v [NoteOff key, AllOff] p of
        (p1, True) \<Rightarrow> (p1, True)
      | (p1, False) \<Rightarrow> stop_notes ops notes (po_release ops v p1))"

fun release_devices :: "('p, 'v) pool_ops \<Rightarrow> dev list \<Rightarrow> ('p, 'v) bridge \<Rightarrow> ('p, 'v) bridge \<times> bool" where
  "release_devices ops [] b = (b, False)"
| "release_devices ops (d # ds) b =
     (case audio_release ops d b of
        (b1, True) \<Rightarrow> (b1, True)
      | (b1, False) \<Rightarrow> release_devices ops ds b1)"

text \<open>What \<open>shutdown\<close> does before its \<open>finally\<close>.\<close>

definition free_voices :: "('p, 'v) pool_ops \<Rightarrow> ('p, 'v) bridge \<Rightarrow> ('p, 'v) bridge \<times> bool" where
  "free_voices ops b =
     (case stop_notes ops (br_pending b) (br_pool b) of
        (p, True) \<Rightarrow> (b\<lparr>br_pool := p\<rparr>, True)
      | (p, False) \<Rightarrow> release_devices ops (dkeys (br_devices b)) (b\<lparr>br_pool := p, br_pending := []\<rparr>))"

definition audio_shutdown :: "('p, 'v) pool_ops \<Rightarrow> ('p, 'v) bridge \<Rightarrow> ('p, 'v) bridge \<times> bool" where
  "audio_shutdown ops b =
     (let r = free_voices ops (b\<lparr>br_shut := True\<rparr>);
          s = po_shutdown ops (br_pool (fst r))
      in ((fst r)\<lparr>br_pool := fst s\<rparr>, snd r \<or> snd s))"

text \<open>The calls Control makes.\<close>

datatype audio_op =
    AGrant dev role rat
  | ANote int int int rat rat
  | AControl dev int int
  | AMidi dev int int int
  | AStartDrone dev
  | AStopDrone dev
  | ASilence dev
  | ARelease dev
  | ATick rat
  | AShutdown

fun audio_step :: "('p, 'v) pool_ops \<Rightarrow> audio_op \<Rightarrow> ('p, 'v) bridge \<Rightarrow> ('p, 'v) bridge \<times> bool" where
  "audio_step ops (AGrant d r now) b = audio_grant ops d r now b"
| "audio_step ops (ANote program key vel duration now) b = play_note ops program key vel duration now b"
| "audio_step ops (AControl d cc value) b = audio_control ops d cc value b"
| "audio_step ops (AMidi d status d1 d2) b = feed_midi ops d status d1 d2 b"
| "audio_step ops (AStartDrone d) b = start_drone ops d b"
| "audio_step ops (AStopDrone d) b = stop_drone ops d b"
| "audio_step ops (ASilence d) b = silence ops d b"
| "audio_step ops (ARelease d) b = audio_release ops d b"
| "audio_step ops (ATick now) b = audio_tick ops now b"
| "audio_step ops AShutdown b = audio_shutdown ops b"

end
