(* ===== verification/Audio_Pool.thy ===== *)
theory Audio_Pool
  imports Audio
begin

section \<open>Voice pools, and what the audio bridge owes them\<close>

text \<open>
  What the bridge relies on in a pool is the locale \<open>voice_pool\<close>: a voice taken is held, a voice given
  back is not, and a call to a voice changes neither. Its laws are proved for the pool on the Arco server
  (\<open>ArcoSynthPool\<close> of \<open>src/harness/arco_synth.py\<close>, a voice is a MIDI channel of one synthesizer) and for the
  in-process double (\<open>FakePool\<close> of \<open>src/control/audio.py\<close>). What is proved in the locale once: while no
  call raises halfway (\<open>clean_raise\<close> says which raises do no harm), the voices the pool has given out are
  exactly the ones the bridge owns.
\<close>

definition voices :: "'v voice_part list \<Rightarrow> 'v multiset" where
  "voices parts = image_mset vp_voice (mset parts)"

definition ringing :: "(rat \<times> 'v \<times> int) list \<Rightarrow> 'v multiset" where
  "ringing ns = image_mset (\<lambda>(due, v, key). v) (mset ns)"

fun owned_by :: "(dev, 'v device_audio) dict \<Rightarrow> 'v multiset" where
  "owned_by [] = {#}"
| "owned_by ((d, entry) # ds) = voices (da_parts entry) + owned_by ds"

definition owned :: "('p, 'v) bridge \<Rightarrow> 'v multiset" where
  "owned b = owned_by (br_devices b) + ringing (br_pending b)"

lemma voices_simps [simp]:
  "voices [] = {#}" "voices (part # parts) = add_mset (vp_voice part) (voices parts)"
  "voices (a @ c) = voices a + voices c"
  by (simp_all add: voices_def)

lemma ringing_simps [simp]:
  "ringing [] = {#}" "ringing ((due, v, key) # ns) = add_mset v (ringing ns)"
  "ringing (a @ c) = ringing a + ringing c"
  by (simp_all add: ringing_def)

lemma owned_by_append [simp]: "owned_by (a @ c) = owned_by a + owned_by c"
  by (induction a rule: owned_by.induct) (simp_all add: ac_simps)

lemma owned_by_new: "\<not> dmem d ds \<Longrightarrow> owned_by (dset d entry ds) = voices (da_parts entry) + owned_by ds"
  by (induction ds rule: owned_by.induct) (auto simp: dmem_def ac_simps)

lemma owned_by_dpop:
  "dict_ok ds \<Longrightarrow> dget ds d = Some entry \<Longrightarrow> owned_by ds = voices (da_parts entry) + owned_by (dpop d ds)"
proof (induction ds rule: owned_by.induct)
  case (2 d' entry' ds)
  show ?case
  proof (cases "d' = d")
    case True
    with 2 have "\<not> dmem d ds" by (auto simp: dmem_def)
    with True 2 show ?thesis by simp
  next
    case False
    with 2 show ?thesis by (simp add: ac_simps)
  qed
qed simp

lemma owned_by_same:
  "dget ds d = Some entry \<Longrightarrow> da_parts entry' = da_parts entry \<Longrightarrow> owned_by (dset d entry' ds) = owned_by ds"
  by (induction ds rule: owned_by.induct) (auto split: if_splits)

lemma owned_pool [simp]: "owned (b\<lparr>br_pool := p\<rparr>) = owned b" "owned (b\<lparr>br_shut := s\<rparr>) = owned b"
  by (simp_all add: owned_def)

lemma owned_set_drone [simp]: "owned (set_drone d key b) = owned b"
  by (simp add: owned_def set_drone_def owned_by_same split: option.split)

lemma set_drone_pool [simp]: "br_pool (set_drone d key b) = br_pool b"
  by (simp add: set_drone_def split: option.split)

text \<open>A device is granted only when it holds nothing; the agent releases before it grants again.\<close>

definition fresh_grant :: "audio_op \<Rightarrow> ('p, 'v) bridge \<Rightarrow> bool" where
  "fresh_grant x b \<longleftrightarrow> (case x of AGrant d _ _ \<Rightarrow> \<not> dmem d (br_devices b) | _ \<Rightarrow> True)"

text \<open>
  The calls whose exception leaves the books as they are: everything that only plays, a note that finds no
  voice, and a grant that finds none for a part or for its welcome, or whose voice raises while a part is
  set up, if its lanes can be read. A tick, a release and a shutdown that raise are not among them, nor is
  a note that raises after its voice was taken.
\<close>

definition no_voice :: "('p, 'v) pool_ops \<Rightarrow> ('p, 'v) bridge \<Rightarrow> bool" where
  "no_voice ops b \<longleftrightarrow> snd (po_acquire ops False (br_pool b)) = Raised"

definition granted_parts :: "('p, 'v) pool_ops \<Rightarrow> dev \<Rightarrow> role \<Rightarrow> ('p, 'v) bridge \<Rightarrow> ('p, 'v) bridge \<times> bool" where
  "granted_parts ops d r b =
     (if ugen_decls (r_ugen_manifest r) = [] then (b, False) else grant_voices ops d (ugen_decls (r_ugen_manifest r)) b)"

definition clean_raise :: "('p, 'v) pool_ops \<Rightarrow> audio_op \<Rightarrow> ('p, 'v) bridge \<Rightarrow> bool" where
  "clean_raise ops x b \<longleftrightarrow>
     (case x of
        AGrant d r now \<Rightarrow>
          if snd (granted_parts ops d r b) then list_all (\<lambda>decl. decl_lanes decl \<noteq> None) (ugen_decls (r_ugen_manifest r))
          else (case welcome_audio (r_welcome r) of
                  None \<Rightarrow> True
                | Some (name, _) \<Rightarrow> dget WELCOME_VOICES name = None \<or> no_voice ops (fst (granted_parts ops d r b)))
      | ANote _ _ _ _ _ \<Rightarrow> no_voice ops b
      | ARelease _ \<Rightarrow> False
      | ATick _ \<Rightarrow> False
      | AShutdown \<Rightarrow> False
      | _ \<Rightarrow> True)"

subsection \<open>The contract\<close>

locale voice_pool =
  fixes ops :: "('p, 'v) pool_ops"
    and ok :: "'p \<Rightarrow> bool"
    and held :: "'p \<Rightarrow> 'v multiset"
  assumes acquire_ok: "ok p \<Longrightarrow> ok (fst (po_acquire ops drums p))"
    and acquire_held: "ok p \<Longrightarrow> po_acquire ops drums p = (p', r) \<Longrightarrow>
      held p' = (case r of Ret v \<Rightarrow> add_mset v (held p) | Raised \<Rightarrow> held p)"
    and release_ok: "ok p \<Longrightarrow> v \<in># held p \<Longrightarrow> ok (po_release ops v p)"
    and release_held: "ok p \<Longrightarrow> v \<in># held p \<Longrightarrow> held (po_release ops v p) = held p - {#v#}"
    and call_ok: "ok p \<Longrightarrow> ok (fst (po_call ops v c p))"
    and call_held: "ok p \<Longrightarrow> held (fst (po_call ops v c p)) = held p"
    and poll_ok: "ok p \<Longrightarrow> ok (po_poll ops p)"
    and poll_held: "ok p \<Longrightarrow> held (po_poll ops p) = held p"
    and shutdown_ok: "ok p \<Longrightarrow> ok (fst (po_shutdown ops p))"
    and shutdown_held: "ok p \<Longrightarrow> held (fst (po_shutdown ops p)) = held p"
begin

lemma calls: "ok p \<Longrightarrow> ok (fst (voice_calls ops v cs p)) \<and> held (fst (voice_calls ops v cs p)) = held p"
proof (induction cs arbitrary: p)
  case (Cons c cs)
  obtain p' raised where c: "po_call ops v c p = (p', raised)" by fastforce
  with call_ok [OF Cons.prems, of v c] call_held [OF Cons.prems, of v c] Cons.IH [of p'] show ?case
    by (cases raised) simp_all
qed simp

lemma release_parts: "ok p \<Longrightarrow> voices parts \<subseteq># held p \<Longrightarrow>
   ok (release_parts ops parts p) \<and> held (release_parts ops parts p) = held p - voices parts"
proof (induction parts arbitrary: p)
  case (Cons part parts)
  have "vp_voice part \<in># held p"
    using Cons.prems(2) by (metis insert_subset_eq_iff voices_simps(2))
  then have "held (po_release ops (vp_voice part) p) = held p - {#vp_voice part#}"
    and "ok (po_release ops (vp_voice part) p)"
    by (rule release_held [OF Cons.prems(1)], rule release_ok [OF Cons.prems(1)])
  moreover have "voices parts \<subseteq># held p - {#vp_voice part#}"
    using Cons.prems(2) by (simp add: insert_subset_eq_iff)
  ultimately show ?case
    using Cons.IH [of "po_release ops (vp_voice part) p"]
    by (simp add: release_parts_def)
qed (simp add: release_parts_def)

lemma quiet: "ok p \<Longrightarrow> (releasing \<Longrightarrow> voices parts \<subseteq># held p) \<Longrightarrow>
   ok (fst (quiet_parts ops releasing parts p))
   \<and> held (fst (quiet_parts ops releasing parts p)) = (if releasing then held p - voices parts else held p)"
proof (induction parts arbitrary: p)
  case (Cons part parts)
  let ?p = "fst (voice_calls ops (vp_voice part) quieting p)"
  have p: "ok ?p" "held ?p = held p"
    using calls [OF Cons.prems(1), of "vp_voice part" quieting] by simp_all
  show ?case
  proof (cases releasing)
    case True
    with Cons.prems(2) have "vp_voice part \<in># held p" "voices parts \<subseteq># held p - {#vp_voice part#}"
      by (simp_all add: insert_subset_eq_iff)
    with release_held [OF p(1), of "vp_voice part"] release_ok [OF p(1), of "vp_voice part"] p
      Cons.IH [of "po_release ops (vp_voice part) ?p"] True
    show ?thesis by (simp add: Let_def)
  next
    case False
    with p Cons.IH [OF p(1)] show ?thesis by (simp add: Let_def)
  qed
qed simp

lemma expire: "ok p \<Longrightarrow> ringing ns \<subseteq># held p \<Longrightarrow> expire_notes ops now ns p = (p', kept, False) \<Longrightarrow>
   ok p' \<and> held p' + ringing ns = held p + ringing kept"
proof (induction ns arbitrary: p p' kept)
  case (Cons nt ns)
  obtain due v key where nt: "nt = (due, v, key)" by (cases nt)
  have v: "v \<in># held p" "ringing ns \<subseteq># held p - {#v#}" "ringing ns \<subseteq># held p"
    using Cons.prems(2) nt by (auto simp: insert_subset_eq_iff dest: subset_mset.order_trans [OF _ diff_subset_eq_self])
  show ?case
  proof (cases "due \<le> now")
    case True
    obtain p1 raised where c: "voice_calls ops v [NoteOff key, AllOff] p = (p1, raised)" by fastforce
    with Cons.prems(3) nt True have "\<not> raised" and run: "expire_notes ops now ns (po_release ops v p1) = (p', kept, False)"
      by (auto split: bool.splits)
    have p1: "ok p1" "held p1 = held p"
      using calls [OF Cons.prems(1), of v "[NoteOff key, AllOff]"] c by simp_all
    with release_held [OF p1(1), of v] release_ok [OF p1(1), of v] v(1)
    have "held (po_release ops v p1) = held p - {#v#}" "ok (po_release ops v p1)" by simp_all
    with Cons.IH [OF _ _ run] v nt show ?thesis
      by (metis add_mset_add_single insert_DiffM2 ringing_simps(2) union_mset_add_mset_left union_mset_add_mset_right)
  next
    case False
    with Cons.prems(3) nt obtain kept' where "expire_notes ops now ns p = (p', kept', False)" "kept = nt # kept'"
      by (cases "expire_notes ops now ns p") auto
    with Cons.IH [OF Cons.prems(1) v(3)] nt show ?thesis by simp
  qed
qed simp

lemma stop: "ok p \<Longrightarrow> ringing ns \<subseteq># held p \<Longrightarrow> stop_notes ops ns p = (p', False) \<Longrightarrow>
   ok p' \<and> held p' = held p - ringing ns"
proof (induction ns arbitrary: p)
  case (Cons nt ns)
  obtain due v key where nt: "nt = (due, v, key)" by (cases nt)
  have v: "v \<in># held p" "ringing ns \<subseteq># held p - {#v#}"
    using Cons.prems(2) nt by (auto simp: insert_subset_eq_iff)
  obtain p1 raised where c: "voice_calls ops v [NoteOff key, AllOff] p = (p1, raised)" by fastforce
  with Cons.prems(3) nt have run: "stop_notes ops ns (po_release ops v p1) = (p', False)"
    by (auto split: bool.splits)
  have p1: "ok p1" "held p1 = held p"
    using calls [OF Cons.prems(1), of v "[NoteOff key, AllOff]"] c by simp_all
  with release_held [OF p1(1), of v] release_ok [OF p1(1), of v] v(1)
  have "held (po_release ops v p1) = held p - {#v#}" "ok (po_release ops v p1)" by simp_all
  with Cons.IH [OF _ _ run] v nt show ?case by simp
qed simp

lemma take: "ok p \<Longrightarrow> take_parts ops decls parts p = (p', parts', raised) \<Longrightarrow>
   raised \<longrightarrow> (\<forall>decl \<in> set decls. decl_lanes decl \<noteq> None) \<Longrightarrow>
   ok p' \<and> held p' + voices parts = held p + voices parts'"
proof (induction decls arbitrary: parts p)
  case (Cons decl decls)
  obtain p1 r where a: "po_acquire ops (is_drums decl) p = (p1, r)" by fastforce
  have p1: "ok p1" using acquire_ok [OF Cons.prems(1), of "is_drums decl"] a by simp
  note h1 = acquire_held [OF Cons.prems(1) a]
  show ?case
  proof (cases r)
    case Raised
    with Cons.prems(2) a h1 p1 show ?thesis by simp
  next
    case (Ret v)
    from Cons.prems(2,3) a Ret obtain lanes where lanes: "decl_lanes decl = Some lanes"
      by (cases "decl_lanes decl") auto
    let ?parts = "parts @ [\<lparr>vp_voice = v, vp_lanes = lanes\<rparr>]"
    obtain p2 raised2 where c: "(case decl_program decl of None \<Rightarrow> (p1, False) | Some n \<Rightarrow> po_call ops v (Program n) p1) = (p2, raised2)"
      by fastforce
    have p2: "ok p2" "held p2 = add_mset v (held p)"
      using c p1 h1 Ret call_ok [OF p1, of v] call_held [OF p1, of v] by (auto split: option.splits) (metis fst_conv)+
    show ?thesis
    proof (cases raised2)
      case True
      with Cons.prems(2) a Ret lanes c p2 show ?thesis by auto
    next
      case False
      with Cons.prems(2) a Ret lanes c have "take_parts ops decls ?parts p2 = (p', parts', raised)" by simp
      from Cons.IH [OF p2(1) this] Cons.prems(3) p2(2) show ?thesis by auto
    qed
  qed
qed simp

text \<open>Books in order: the pool has given out exactly the voices the bridge owns.\<close>

definition in_order :: "('p, 'v) bridge \<Rightarrow> bool" where
  "in_order b \<longleftrightarrow> ok (br_pool b) \<and> dict_ok (br_devices b) \<and> held (br_pool b) = owned b"

lemma new_order: "ok p \<Longrightarrow> held p = {#} \<Longrightarrow> in_order (new_bridge p)"
  by (simp add: in_order_def new_bridge_def owned_def)

lemma in_order_pool:
  assumes "in_order b" and "ok p" and "held p = held (br_pool b)"
  shows "in_order (b\<lparr>br_pool := p\<rparr>)"
  using assms by (simp add: in_order_def owned_def)

lemma call_part_order: "in_order b \<Longrightarrow> in_order (fst (call_part ops v cs b))"
  using calls [of "br_pool b" v cs] by (simp add: call_part_def case_prod_unfold in_order_pool in_order_def)

lemma call_part_devices [simp]: "br_devices (fst (call_part ops v cs b)) = br_devices b"
  by (simp add: call_part_def case_prod_unfold)

lemma set_drone_order: "in_order b \<Longrightarrow> in_order (set_drone d key b)"
  by (simp add: in_order_def) (simp add: set_drone_def split: option.split)

lemma feed_order: "in_order b \<Longrightarrow> in_order (fst (feed_midi ops d status d1 d2 b))"
  by (simp add: feed_midi_def call_part_order Let_def split: option.split)

lemma control_order: "in_order b \<Longrightarrow> in_order (fst (audio_control ops d cc value b))"
  by (simp add: audio_control_def call_part_order split: option.split)

lemma drone_order: "in_order b \<Longrightarrow> in_order (fst (start_drone ops d b))" "in_order b \<Longrightarrow> in_order (fst (stop_drone ops d b))"
  using feed_order [of b d 144] feed_order [of b d 128]
  by (auto simp: start_drone_def stop_drone_def set_drone_order split: option.split prod.split bool.split)
     (metis fst_conv set_drone_order)+

lemma silence_order:
  assumes "in_order b"
  shows "in_order (fst (silence ops d b))"
proof (cases "dget (br_devices b) d")
  case (Some entry)
  let ?b1 = "fst (call_part ops (vp_voice (da_parts entry ! 0)) (drone_off entry) b)"
  have "in_order (set_drone d None ?b1)"
    by (rule set_drone_order [OF call_part_order [OF assms]])
  moreover from this have "in_order ((set_drone d None ?b1)\<lparr>br_pool := fst (quiet_parts ops False (da_parts entry) (br_pool ?b1))\<rparr>)"
    using quiet [of "br_pool ?b1" False "da_parts entry"] by (intro in_order_pool) (simp_all add: in_order_def)
  ultimately show ?thesis
    using Some call_part_order [OF assms] by (simp add: silence_def Let_def case_prod_unfold split: bool.split)
qed (simp add: silence_def assms)

lemma release_order:
  assumes "in_order b" and "audio_release ops d b = (b', False)"
  shows "in_order b' \<and> br_pending b' = br_pending b \<and> br_devices b' = dpop d (br_devices b)"
proof (cases "dget (br_devices b) d")
  case (Some entry)
  let ?b = "b\<lparr>br_devices := dpop d (br_devices b)\<rparr>"
  obtain b1 raised where c: "call_part ops (vp_voice (da_parts entry ! 0)) (drone_off entry) ?b = (b1, raised)" by fastforce
  have b1: "ok (br_pool b1)" "held (br_pool b1) = held (br_pool b)" "br_devices b1 = dpop d (br_devices b)"
      "br_pending b1 = br_pending b"
    using c assms(1) calls [of "br_pool b" "vp_voice (da_parts entry ! 0)" "drone_off entry"]
    by (auto simp: call_part_def case_prod_unfold in_order_def)
  have split: "owned b = voices (da_parts entry) + owned ?b"
    using owned_by_dpop [OF _ Some] assms(1) by (simp add: owned_def in_order_def)
  then have "voices (da_parts entry) \<subseteq># held (br_pool b1)"
    using b1(2) assms(1) by (simp add: in_order_def)
  with quiet [OF b1(1), of True "da_parts entry"]
  have q: "ok (fst (quiet_parts ops True (da_parts entry) (br_pool b1)))"
    "held (fst (quiet_parts ops True (da_parts entry) (br_pool b1))) = owned ?b"
    using b1(2) split assms(1) by (simp_all add: in_order_def)
  from assms(2) Some c have "b' = b1\<lparr>br_pool := fst (quiet_parts ops True (da_parts entry) (br_pool b1))\<rparr>"
    by (auto simp: audio_release_def Let_def split: bool.splits)
  with q b1 assms(1) show ?thesis by (simp add: in_order_def owned_def)
next
  case None
  with assms(2) have "b' = b" by (simp add: audio_release_def)
  moreover have "dpop d (br_devices b) = br_devices b"
    using None by (intro dpop_absent) (simp add: dmem_iff_get)
  ultimately show ?thesis using assms(1) by simp
qed

lemma tick_order:
  assumes "in_order b" and "audio_tick ops now b = (b', False)"
  shows "in_order b'"
proof -
  from assms(2) obtain p kept where run: "expire_notes ops now (br_pending b) (br_pool b) = (p, kept, False)"
    and b': "b' = b\<lparr>br_pool := po_poll ops p, br_pending := kept\<rparr>"
    by (auto simp: audio_tick_def split: prod.splits bool.splits)
  have "ringing (br_pending b) \<subseteq># held (br_pool b)"
    using assms(1) by (simp add: in_order_def owned_def)
  with expire [OF _ this run] assms(1) have "ok p" "held p + ringing (br_pending b) = held (br_pool b) + ringing kept"
    by (simp_all add: in_order_def)
  then have "held p = owned_by (br_devices b) + ringing kept"
    using assms(1) by (simp add: in_order_def owned_def)
  with \<open>ok p\<close> b' assms(1) poll_ok [of p] poll_held [of p] show ?thesis
    by (simp add: in_order_def owned_def)
qed

lemma note_order:
  assumes "in_order b" and "play_note ops program key vel duration now b = (b', False)"
  shows "in_order b'"
proof (cases "br_shut b")
  case False
  obtain p1 r where a: "po_acquire ops False (br_pool b) = (p1, r)" by fastforce
  with assms(2) False obtain v where r: "r = Ret v" by (cases r) (auto simp: play_note_def)
  have p1: "ok p1" "held p1 = add_mset v (held (br_pool b))"
    using acquire_ok [of "br_pool b" False] acquire_held [OF _ a] assms(1) a r by (simp_all add: in_order_def)
  note p2 = calls [OF p1(1), of v "[Program program, NoteOn key vel]"]
  from assms(2) False a r have "b' = b\<lparr>br_pool := fst (voice_calls ops v [Program program, NoteOn key vel] p1),
      br_pending := br_pending b @ [(now + duration, v, key)]\<rparr>"
    by (auto simp: play_note_def simp del: voice_calls.simps split: prod.splits bool.splits)
  with p1 p2 assms(1) show ?thesis by (simp add: in_order_def owned_def del: voice_calls.simps)
qed (use assms in \<open>simp add: play_note_def\<close>)

lemma refused_note_order:
  assumes "in_order b" and "no_voice ops b"
  shows "in_order (fst (play_note ops program key vel duration now b))"
proof (cases "br_shut b")
  case False
  obtain p1 where a: "po_acquire ops False (br_pool b) = (p1, Raised)"
    using assms(2) by (cases "po_acquire ops False (br_pool b)") (simp add: no_voice_def)
  have "ok p1" "held p1 = held (br_pool b)"
    using acquire_ok [of "br_pool b" False] acquire_held [OF _ a] assms(1) a by (simp_all add: in_order_def)
  then show ?thesis using False a in_order_pool [OF assms(1)] by (simp add: play_note_def)
qed (use assms in \<open>simp add: play_note_def\<close>)

text \<open>A note whose voice raises after it was taken: nobody owns that voice any more.\<close>

lemma note_leaks:
  assumes "in_order b" and "\<not> br_shut b" and "po_acquire ops False (br_pool b) = (p1, Ret v)"
    and "snd (voice_calls ops v [Program program, NoteOn key vel] p1)"
    and "play_note ops program key vel duration now b = (b', raised)"
  shows "raised \<and> held (br_pool b') = add_mset v (owned b')"
proof -
  let ?c = "voice_calls ops v [Program program, NoteOn key vel] p1"
  have "ok p1" "held p1 = add_mset v (held (br_pool b))"
    using acquire_ok [of "br_pool b" False] acquire_held [OF _ assms(3)] assms(1,3) by (simp_all add: in_order_def)
  moreover have "b' = b\<lparr>br_pool := fst ?c\<rparr>" "raised"
    using assms(2,3,4,5) by (auto simp: play_note_def simp del: voice_calls.simps split: prod.splits bool.splits)
  ultimately show ?thesis
    using calls [of p1 v "[Program program, NoteOn key vel]"] assms(1)
    by (simp add: in_order_def owned_def del: voice_calls.simps)
qed

lemma welcome_order:
  "in_order b \<Longrightarrow> play_welcome ops r now b = (b', False) \<Longrightarrow> in_order b'"
  using note_order by (auto simp: play_welcome_def split: option.splits prod.splits)

text \<open>A grant keeps the books, and so does one that fails, if its lanes can be read.\<close>

lemma voices_order:
  assumes "in_order b" and "\<not> dmem d (br_devices b)"
    and "grant_voices ops d decls b = (b', raised)" and "raised \<longrightarrow> (\<forall>decl \<in> set decls. decl_lanes decl \<noteq> None)"
  shows "in_order b'"
proof -
  obtain p1 parts raised1 where t: "take_parts ops decls [] (br_pool b) = (p1, parts, raised1)"
    by (cases "take_parts ops decls [] (br_pool b)") auto
  with assms(3) have "raised1 = raised" by (auto simp: grant_voices_def split: bool.splits)
  with take [OF _ t] assms(1,4) have p1: "ok p1" "held p1 = held (br_pool b) + voices parts"
    by (simp_all add: in_order_def)
  show ?thesis
  proof (cases raised)
    case True
    with assms(3) t \<open>raised1 = raised\<close> have "b' = b\<lparr>br_pool := release_parts ops parts p1\<rparr>"
      by (simp add: grant_voices_def)
    moreover have "ok (release_parts ops parts p1) \<and> held (release_parts ops parts p1) = held (br_pool b)"
      using release_parts [OF p1(1), of parts] p1(2) by simp
    ultimately show ?thesis using in_order_pool [OF assms(1)] by simp
  next
    case False
    with assms(3) t \<open>raised1 = raised\<close> have "b' = b\<lparr>br_pool := p1,
        br_devices := dset d \<lparr>da_parts = parts, da_drone = decl_drone (hd decls), da_drone_key = None\<rparr> (br_devices b)\<rparr>"
      by (simp add: grant_voices_def)
    with p1 assms(1,2) show ?thesis by (simp add: in_order_def owned_def owned_by_new ac_simps)
  qed
qed

lemma audio_grant_parts:
  "audio_grant ops d r now b =
     (if br_shut b then (b, False)
      else if snd (granted_parts ops d r b) then granted_parts ops d r b
      else play_welcome ops r now (fst (granted_parts ops d r b)))"
  by (simp add: audio_grant_def granted_parts_def Let_def)

lemma grant_order:
  assumes "in_order b" and "\<not> dmem d (br_devices b)" and "audio_grant ops d r now b = (b', raised)"
    and "raised \<longrightarrow> clean_raise ops (AGrant d r now) b"
  shows "in_order b'"
proof (cases "br_shut b")
  case False
  let ?decls = "ugen_decls (r_ugen_manifest r)"
  obtain b1 raised1 where g: "granted_parts ops d r b = (b1, raised1)" by fastforce
  have "raised1 \<longrightarrow> raised \<and> b' = b1" using assms(3) False g by (auto simp: audio_grant_parts)
  with assms(4) g have "raised1 \<longrightarrow> (\<forall>decl \<in> set ?decls. decl_lanes decl \<noteq> None)"
    by (auto simp: clean_raise_def list_all_iff)
  with g voices_order [OF assms(1,2), of ?decls b1 raised1] assms(1) have b1: "in_order b1"
    by (auto simp: granted_parts_def split: if_splits)
  show ?thesis
  proof (cases raised1)
    case True
    with \<open>raised1 \<longrightarrow> raised \<and> b' = b1\<close> b1 show ?thesis by simp
  next
    case ok: False
    with assms(3) False g have w: "play_welcome ops r now b1 = (b', raised)" by (simp add: audio_grant_parts)
    show ?thesis
    proof (cases raised)
      case True
      with assms(4) g ok w b1 refused_note_order [OF b1] show ?thesis
        by (auto simp: clean_raise_def play_welcome_def split: option.splits) (metis fst_conv)
    qed (use welcome_order [OF b1] w in simp)
  qed
qed (use assms in \<open>simp add: audio_grant_def\<close>)

lemma release_devices_order:
  "in_order b \<Longrightarrow> release_devices ops ds b = (b', False) \<Longrightarrow>
   in_order b' \<and> br_pending b' = br_pending b \<and> set (dkeys (br_devices b')) = set (dkeys (br_devices b)) - set ds"
proof (induction ds arbitrary: b)
  case (Cons d ds)
  then obtain b1 where r: "audio_release ops d b = (b1, False)" and rest: "release_devices ops ds b1 = (b', False)"
    by (auto split: prod.splits bool.splits)
  have b1: "in_order b1" "br_pending b1 = br_pending b" "br_devices b1 = dpop d (br_devices b)"
    using release_order [OF Cons.prems(1) r] by simp_all
  have "set (dkeys (br_devices b1)) = set (dkeys (br_devices b)) - {d}"
    unfolding b1(3) by (simp only: dkeys_dpop) auto
  with Cons.IH [OF b1(1) rest] b1(2) show ?case by auto
qed simp

lemma shutdown_order:
  assumes "in_order b" and "audio_shutdown ops b = (b', False)"
  shows "in_order b' \<and> held (br_pool b') = {#}"
proof -
  let ?b = "b\<lparr>br_shut := True\<rparr>"
  have b: "in_order ?b" using assms(1) by (simp add: in_order_def owned_def)
  obtain p raised where s: "stop_notes ops (br_pending b) (br_pool b) = (p, raised)" by fastforce
  with assms(2) have "\<not> raised" by (auto simp: audio_shutdown_def free_voices_def Let_def split: bool.splits)
  let ?b0 = "?b\<lparr>br_pool := p, br_pending := []\<rparr>"
  obtain b1 where r: "release_devices ops (dkeys (br_devices b)) ?b0 = (b1, False)"
    and b': "b' = b1\<lparr>br_pool := fst (po_shutdown ops (br_pool b1))\<rparr>"
    using assms(2) s \<open>\<not> raised\<close> by (cases "release_devices ops (dkeys (br_devices b)) ?b0")
      (auto simp: audio_shutdown_def free_voices_def Let_def)
  have "ringing (br_pending b) \<subseteq># held (br_pool b)"
    using assms(1) by (simp add: in_order_def owned_def)
  with stop [OF _ this, of p] s \<open>\<not> raised\<close> assms(1) have "ok p" "held p = held (br_pool b) - ringing (br_pending b)"
    by (simp_all add: in_order_def)
  then have "in_order ?b0"
    using assms(1) by (simp add: in_order_def owned_def)
  from release_devices_order [OF this r] have b1: "in_order b1" "br_pending b1 = []" "br_devices b1 = []"
    by simp_all
  then have "held (br_pool b1) = {#}" by (simp add: in_order_def owned_def)
  with b1 b' shutdown_ok [of "br_pool b1"] shutdown_held [of "br_pool b1"] show ?thesis
    by (simp add: in_order_def owned_def)
qed

lemma step_order:
  assumes "in_order b" and "fresh_grant x b" and "audio_step ops x b = (b', raised)"
    and "raised \<longrightarrow> clean_raise ops x b"
  shows "in_order b'"
proof (cases x)
  case (AGrant d r now)
  with assms grant_order [of b d r now b' raised] show ?thesis by (simp add: fresh_grant_def)
next
  case (ANote program key vel duration now)
  show ?thesis
  proof (cases raised)
    case True
    with assms(4) ANote have "no_voice ops b" by (simp add: clean_raise_def)
    from refused_note_order [OF assms(1) this, of program key vel duration now] assms(3) ANote show ?thesis by simp
  qed (use assms ANote note_order in simp)
next
  case (AControl d cc n)
  with assms control_order [of b d cc n] show ?thesis by simp
next
  case (AMidi d status d1 d2)
  with assms feed_order [of b d status d1 d2] show ?thesis by simp
next
  case (AStartDrone d)
  with assms drone_order(1) [of b d] show ?thesis by simp
next
  case (AStopDrone d)
  with assms drone_order(2) [of b d] show ?thesis by simp
next
  case (ASilence d)
  with assms silence_order [of b d] show ?thesis by simp
next
  case (ARelease d)
  with assms release_order [of b d b'] show ?thesis by (simp add: clean_raise_def)
next
  case (ATick now)
  with assms tick_order [of b now b'] show ?thesis by (simp add: clean_raise_def)
next
  case AShutdown
  with assms shutdown_order [of b b'] show ?thesis by (simp add: clean_raise_def)
qed

end

end
