(* ===== verification/Audio_Synth.thy ===== *)
theory Audio_Synth
  imports Audio_Pool
begin

section \<open>The synthesizer pool\<close>

text \<open>
  \<open>ArcoSynthPool\<close> of \<open>src/harness/arco_synth.py\<close>: up to sixteen voices on one synthesizer, a voice being a
  MIDI channel, with channel 9 kept for drums; and \<open>FakePool\<close> of \<open>src/control/audio.py\<close>. Whether a call to
  the synthesizer raises is an oracle that sees the calls made before. pyarco is not part of the
  repository: whether the server answers and the synthesizer can be built are arguments of \<open>start\<close>.
\<close>

datatype synth_call = OnChannel nat voice_call | Finish | Pump

record synth =
  sy_up :: bool
  sy_free :: "nat list"
  sy_max :: nat
  sy_sent :: "synth_call list"

definition DRUM_CHANNEL :: nat where "DRUM_CHANNEL = 9"

definition new_synth :: "nat \<Rightarrow> synth" where
  "new_synth n = \<lparr>sy_up = False, sy_free = [0 ..< n], sy_max = n, sy_sent = []\<rparr>"

definition synth_send :: "synth_call \<Rightarrow> synth \<Rightarrow> synth" where
  "synth_send c s = s\<lparr>sy_sent := sy_sent s @ [c]\<rparr>"

definition synth_acquire :: "bool \<Rightarrow> synth \<Rightarrow> synth \<times> nat outcome" where
  "synth_acquire drums s =
     (if \<not> sy_up s then (s, Raised)
      else if drums
      then (if DRUM_CHANNEL \<notin> set (sy_free s) then (s, Raised)
            else (s\<lparr>sy_free := remove1 DRUM_CHANNEL (sy_free s)\<rparr>, Ret DRUM_CHANNEL))
      else (case List.find (\<lambda>c. c \<noteq> DRUM_CHANNEL) (sy_free s) of
              None \<Rightarrow> (s, Raised)
            | Some c \<Rightarrow> (s\<lparr>sy_free := remove1 c (sy_free s)\<rparr>, Ret c)))"

definition synth_release :: "nat \<Rightarrow> synth \<Rightarrow> synth" where
  "synth_release c s =
     (if c \<in> set (sy_free s) then s else s\<lparr>sy_free := sort (sy_free s @ [c])\<rparr>)"

definition synth_voice_call ::
  "(synth_call list \<Rightarrow> synth_call \<Rightarrow> bool) \<Rightarrow> nat \<Rightarrow> voice_call \<Rightarrow> synth \<Rightarrow> synth \<times> bool" where
  "synth_voice_call fails c call s = (synth_send (OnChannel c call) s, fails (sy_sent s) (OnChannel c call))"

definition synth_poll :: "synth \<Rightarrow> synth" where
  "synth_poll s = (if sy_up s then synth_send Pump s else s)"

text \<open>Every channel is silenced, up to one that raises; then the synthesizer is dropped.\<close>

fun silence_channels :: "(synth_call list \<Rightarrow> synth_call \<Rightarrow> bool) \<Rightarrow> nat list \<Rightarrow> synth \<Rightarrow> synth \<times> bool" where
  "silence_channels fails [] s = (s, False)"
| "silence_channels fails (c # cs) s =
     (case synth_voice_call fails c AllOff s of
        (s', True) \<Rightarrow> (s', True)
      | (s', False) \<Rightarrow> silence_channels fails cs s')"

definition synth_shutdown :: "(synth_call list \<Rightarrow> synth_call \<Rightarrow> bool) \<Rightarrow> synth \<Rightarrow> synth \<times> bool" where
  "synth_shutdown fails s =
     (if \<not> sy_up s then (s, False)
      else (let r = silence_channels fails [0 ..< 16] s
            in (synth_send Finish ((fst r)\<lparr>sy_up := False\<rparr>), snd r)))"

text \<open>
  Whether the soundfont exists, the server answers, the synthesizer is built and it plays. A failure after
  the server has answered shuts the pool down again, which silences the channels if there is a synthesizer.
\<close>

definition synth_start :: "(synth_call list \<Rightarrow> synth_call \<Rightarrow> bool) \<Rightarrow> bool \<Rightarrow> bool \<Rightarrow> bool \<Rightarrow> bool \<Rightarrow> synth \<Rightarrow> synth \<times> bool" where
  "synth_start fails exists answers builds plays s =
     (if \<not> exists \<or> \<not> answers then (s, True)
      else if \<not> builds then (synth_send Finish (s\<lparr>sy_up := False\<rparr>), True)
      else if \<not> plays then (fst (synth_shutdown fails (s\<lparr>sy_up := True\<rparr>)), True)
      else (s\<lparr>sy_up := True\<rparr>, False))"

definition synth_quiesce :: "synth \<Rightarrow> synth" where
  "synth_quiesce s = s\<lparr>sy_up := False, sy_free := [0 ..< sy_max s]\<rparr>"

definition synth_ops :: "(synth_call list \<Rightarrow> synth_call \<Rightarrow> bool) \<Rightarrow> (synth, nat) pool_ops" where
  "synth_ops fails =
     \<lparr>po_acquire = synth_acquire, po_release = synth_release, po_call = synth_voice_call fails,
      po_poll = synth_poll, po_shutdown = synth_shutdown fails\<rparr>"

text \<open>The double: voices are numbered as they are handed out, with the calls each was sent.\<close>

record fake_pool =
  fp_acquired :: "bool list"
  fp_sent :: "(nat \<times> voice_call) list"
  fp_released :: "nat list"
  fp_polls :: nat
  fp_shut :: bool

definition fake_ops :: "(fake_pool, nat) pool_ops" where
  "fake_ops =
     \<lparr>po_acquire = (\<lambda>drums p. (p\<lparr>fp_acquired := fp_acquired p @ [drums]\<rparr>, Ret (length (fp_acquired p)))),
      po_release = (\<lambda>v p. p\<lparr>fp_released := fp_released p @ [v]\<rparr>),
      po_call = (\<lambda>v c p. (p\<lparr>fp_sent := fp_sent p @ [(v, c)]\<rparr>, False)),
      po_poll = (\<lambda>p. p\<lparr>fp_polls := Suc (fp_polls p)\<rparr>),
      po_shutdown = (\<lambda>p. (p\<lparr>fp_shut := True\<rparr>, False))\<rparr>"

subsection \<open>Both pools keep the contract\<close>

definition arco_ok :: "nat \<Rightarrow> synth \<Rightarrow> bool" where
  "arco_ok n s \<longleftrightarrow> sy_max s = n \<and> distinct (sy_free s) \<and> sorted (sy_free s) \<and> set (sy_free s) \<subseteq> {..<n}"

definition arco_held :: "synth \<Rightarrow> nat multiset" where
  "arco_held s = mset (filter (\<lambda>c. c \<notin> set (sy_free s)) [0 ..< sy_max s])"

lemma count_held: "count (arco_held s) c = (if c < sy_max s \<and> c \<notin> set (sy_free s) then 1 else 0)"
proof -
  have "distinct (filter (\<lambda>c. c \<notin> set (sy_free s)) [0 ..< sy_max s])" by simp
  then show ?thesis
    unfolding arco_held_def by (subst distinct_count_atmost_1 [THEN iffD1, rule_format]) auto
qed

lemma arco_held_send [simp]: "arco_held (synth_send c s) = arco_held s" "arco_ok n (synth_send c s) = arco_ok n s"
  by (simp_all add: arco_held_def arco_ok_def synth_send_def)

lemma arco_held_up [simp]: "arco_held (s\<lparr>sy_up := u\<rparr>) = arco_held s" "arco_ok n (s\<lparr>sy_up := u\<rparr>) = arco_ok n s"
  by (simp_all add: arco_held_def arco_ok_def)

lemma arco_taken:
  assumes "arco_ok n s" and "c \<in> set (sy_free s)"
  shows "arco_ok n (s\<lparr>sy_free := remove1 c (sy_free s)\<rparr>)"
    and "arco_held (s\<lparr>sy_free := remove1 c (sy_free s)\<rparr>) = add_mset c (arco_held s)"
proof -
  show "arco_ok n (s\<lparr>sy_free := remove1 c (sy_free s)\<rparr>)"
    using assms by (auto simp: arco_ok_def sorted_remove1 dest: notin_set_remove1)
  show "arco_held (s\<lparr>sy_free := remove1 c (sy_free s)\<rparr>) = add_mset c (arco_held s)"
    using assms by (intro multiset_eqI) (auto simp: count_held arco_ok_def)
qed

lemma synth_acquire_cases:
  assumes "arco_ok n s" and "synth_acquire drums s = (s', r)"
  shows "(r = Raised \<and> s' = s)
    \<or> (\<exists>c. r = Ret c \<and> c \<in> set (sy_free s) \<and> (drums \<longleftrightarrow> c = DRUM_CHANNEL) \<and> s' = s\<lparr>sy_free := remove1 c (sy_free s)\<rparr>)"
  using assms(2) by (auto simp: synth_acquire_def find_Some_iff split: if_splits option.splits)

lemma silence_channels_held:
  "arco_held (fst (silence_channels fails cs s)) = arco_held s \<and> arco_ok n (fst (silence_channels fails cs s)) = arco_ok n s"
  by (induction cs arbitrary: s) (simp_all add: synth_voice_call_def split: bool.split)

lemma arco_returned:
  assumes "arco_ok n s" and "c \<in># arco_held s"
  shows "arco_ok n (synth_release c s)" and "arco_held (synth_release c s) = arco_held s - {#c#}"
proof -
  have c: "c < sy_max s" "c \<notin> set (sy_free s)"
    using assms(2) count_greater_zero_iff [of "arco_held s" c] by (auto simp: count_held split: if_splits)
  show "arco_ok n (synth_release c s)"
    using assms(1) c by (auto simp: arco_ok_def synth_release_def)
  show "arco_held (synth_release c s) = arco_held s - {#c#}"
    using c by (intro multiset_eqI) (simp add: synth_release_def count_held)
qed

interpretation arco: voice_pool "synth_ops fails" "arco_ok n" arco_held for fails n
proof
  fix p :: synth and p' drums v r
  assume ok: "arco_ok n p"
  show "arco_ok n (fst (po_acquire (synth_ops fails) drums p))"
    using synth_acquire_cases [OF ok, of drums] arco_taken(1) [OF ok] ok
    by (cases "synth_acquire drums p") (fastforce simp: synth_ops_def)
  show "arco_held p' = (case r of Ret v \<Rightarrow> add_mset v (arco_held p) | Raised \<Rightarrow> arco_held p)"
    if "po_acquire (synth_ops fails) drums p = (p', r)"
    using synth_acquire_cases [OF ok, of drums p' r] arco_taken(2) [OF ok] that by (auto simp: synth_ops_def)
  show "arco_held (po_release (synth_ops fails) v p) = arco_held p - {#v#}" if "v \<in># arco_held p"
    using arco_returned [OF ok that] by (simp add: synth_ops_def)
  show "arco_ok n (po_release (synth_ops fails) v p)" if "v \<in># arco_held p"
    using arco_returned [OF ok that] by (simp add: synth_ops_def)
qed (simp_all add: synth_ops_def synth_voice_call_def synth_poll_def synth_shutdown_def silence_channels_held Let_def)

lemma add_mset_diff: "B \<subseteq># A \<Longrightarrow> add_mset x A - B = add_mset x (A - B)"
  by (metis add_mset_add_single subset_mset.diff_add_assoc2)

definition fake_ok :: "fake_pool \<Rightarrow> bool" where
  "fake_ok p \<longleftrightarrow> mset (fp_released p) \<subseteq># mset [0 ..< length (fp_acquired p)]"

definition fake_held :: "fake_pool \<Rightarrow> nat multiset" where
  "fake_held p = mset [0 ..< length (fp_acquired p)] - mset (fp_released p)"

interpretation fake: voice_pool fake_ops fake_ok fake_held
proof
  fix p :: fake_pool and p' drums v r
  assume ok: "fake_ok p"
  show "fake_ok (fst (po_acquire fake_ops drums p))"
    using ok by (auto simp: fake_ops_def fake_ok_def intro: subset_mset.order_trans)
  show "fake_held p' = (case r of Ret v \<Rightarrow> add_mset v (fake_held p) | Raised \<Rightarrow> fake_held p)"
    if "po_acquire fake_ops drums p = (p', r)"
    using that ok by (auto simp: fake_ops_def fake_ok_def fake_held_def add_mset_diff simp del: mset_upt)
  show "fake_held (po_release fake_ops v p) = fake_held p - {#v#}" if "v \<in># fake_held p"
    by (simp add: fake_ops_def fake_held_def)
  show "fake_ok (po_release fake_ops v p)" if "v \<in># fake_held p"
    using that ok subset_mset.le_diff_conv2 [of "mset (fp_released p)" "mset [0 ..< length (fp_acquired p)]" "{#v#}"]
    by (simp add: fake_ops_def fake_ok_def fake_held_def)
qed (simp_all add: fake_ops_def fake_ok_def fake_held_def)

subsection \<open>The synthesizer's channels\<close>

text \<open>
  What the calls of the program can bring a bridge on a synthesizer to, as long as a grant goes to a device that
  holds nothing and what raises raises cleanly.
\<close>

inductive on_arco :: "(synth_call list \<Rightarrow> synth_call \<Rightarrow> bool) \<Rightarrow> nat \<Rightarrow> (synth, nat) bridge \<Rightarrow> bool"
  for fails n where
  booted: "on_arco fails n (new_bridge ((new_synth n)\<lparr>sy_up := True\<rparr>))"
| called: "on_arco fails n b \<Longrightarrow> fresh_grant x b \<Longrightarrow> audio_step (synth_ops fails) x b = (b', raised) \<Longrightarrow>
    (raised \<longrightarrow> clean_raise (synth_ops fails) x b) \<Longrightarrow> on_arco fails n b'"

lemma on_arco_order: "on_arco fails n b \<Longrightarrow> arco.in_order n b"
proof (induction rule: on_arco.induct)
  case booted
  have "arco_held ((new_synth n)\<lparr>sy_up := True\<rparr>) = {#}"
    by (intro multiset_eqI) (simp add: count_held new_synth_def)
  then show ?case by (intro arco.new_order) (simp_all add: arco_ok_def new_synth_def atLeast0LessThan)
next
  case (called b x b' raised)
  from arco.step_order [OF called.IH called.hyps(2,3,4)] show ?case .
qed

lemma free_from_held:
  assumes "arco_ok n s" and "arco_ok n s'" and "arco_held s = arco_held s'"
  shows "sy_free s = sy_free s'"
proof (rule sorted_distinct_set_unique)
  have "set (sy_free s) = {c. c < n \<and> count (arco_held s) c = 0}" if "arco_ok n s" for s :: synth
    using that by (auto simp: count_held arco_ok_def split: if_splits)
  with assms show "set (sy_free s) = set (sy_free s')" by simp
qed (use assms in \<open>simp_all add: arco_ok_def\<close>)

text \<open>
  C32: No channel is owned twice. Through any sequence of calls on a booted bridge in which a device is granted
  only when it holds nothing, and in which a tick, a release, a shutdown, or a note after its voice was taken
  do not raise (other calls may: playing, a note or a welcome that finds no channel, a grant that has to give
  back what it took), the channels the synthesizer has given out are exactly those the bridge keeps for a
  device or a ringing note, each below the number of channels and each once. What a raise among the excluded
  ones does is \<open>raised_note_keeps_its_channel\<close>, \<open>raised_tick_shares_a_channel\<close> and \<open>raised_release_loses_the_voices\<close>.
\<close>
theorem one_owner_per_channel:
  assumes "on_arco fails n b"
  shows "arco_held (br_pool b) = owned b \<and> (\<forall>c. count (owned b) c \<le> (if c < n then 1 else 0))"
proof -
  have "arco_held (br_pool b) = owned b" "sy_max (br_pool b) = n"
    using on_arco_order [OF assms] by (simp_all add: arco.in_order_def arco_ok_def)
  moreover from this have "count (owned b) c \<le> (if c < n then 1 else 0)" for c
    using count_held [of "br_pool b" c] by simp
  ultimately show ?thesis by blast
qed

definition bell_role :: role where
  "bell_role = \<lparr>r_name = ''player'', r_class = UNIQUE, r_capacity = None, r_scored = True, r_uses = [],
     r_samples = [], r_ugen_manifest = VDict [(''instruments'', VList [VDict [(''instrument'', VStr ''flsyn'')]])],
     r_light_manifest = VDict [], r_welcome = None, r_breath = False, r_requires = None, r_zones = []\<rparr>"

text \<open>On two channels: a device is granted one, a note takes the other, a second grant raises and changes nothing.\<close>

lemma one_owner_per_channel_witness:
  "\<exists>b. on_arco (\<lambda>_ _. False) 2 b \<and> arco_held (br_pool b) = owned b
     \<and> dkeys (br_devices b) = [''first''] \<and> length (br_pending b) = 1 \<and> sy_free (br_pool b) = []"
proof -
  let ?b0 = "new_bridge ((new_synth 2)\<lparr>sy_up := True\<rparr>) :: (synth, nat) bridge"
  let ?ops = "synth_ops (\<lambda>_ _. False)"
  let ?b1 = "fst (audio_step ?ops (AGrant ''first'' bell_role 0) ?b0)"
  let ?b2 = "fst (audio_step ?ops (ANote 14 60 100 1 0) ?b1)"
  let ?b3 = "fst (audio_step ?ops (AGrant ''second'' bell_role 0) ?b2)"
  have r: "\<not> snd (audio_step ?ops (AGrant ''first'' bell_role 0) ?b0)" "\<not> snd (audio_step ?ops (ANote 14 60 100 1 0) ?b1)"
    and c: "clean_raise ?ops (AGrant ''second'' bell_role 0) ?b2" and f: "fresh_grant (AGrant ''first'' bell_role 0) ?b0"
      "fresh_grant (ANote 14 60 100 1 0) ?b1" "fresh_grant (AGrant ''second'' bell_role 0) ?b2"
    and end3: "snd (audio_step ?ops (AGrant ''second'' bell_role 0) ?b2)" "dkeys (br_devices ?b3) = [''first'']"
      "length (br_pending ?b3) = 1" "sy_free (br_pool ?b3) = []"
    by code_simp+
  have b1: "on_arco (\<lambda>_ _. False) 2 ?b1"
    by (rule called [OF booted f(1) prod.collapse [symmetric]]) (use r(1) in blast)
  have b2: "on_arco (\<lambda>_ _. False) 2 ?b2"
    by (rule called [OF b1 f(2) prod.collapse [symmetric]]) (use r(2) in blast)
  have b3: "on_arco (\<lambda>_ _. False) 2 ?b3"
    by (rule called [OF b2 f(3) prod.collapse [symmetric]]) (use c in blast)
  from one_owner_per_channel [OF b3] b3 end3(2-4) show ?thesis by (intro exI [of _ ?b3]) simp
qed

text \<open>
  A shutdown that does not raise frees every channel, whatever was granted and still ringing, and leaves
  no device and no synthesizer.
\<close>
theorem shutdown_frees_every_channel:
  assumes "on_arco fails n b" and "audio_shutdown (synth_ops fails) b = (b', False)"
  shows "sy_free (br_pool b') = [0 ..< n] \<and> \<not> sy_up (br_pool b') \<and> owned b' = {#}"
proof -
  have over: "arco_ok n (br_pool b')" "arco_held (br_pool b') = {#}" "owned b' = {#}"
    using arco.shutdown_order [OF on_arco_order [OF assms(1)] assms(2)] unfolding arco.in_order_def
    by (elim conjE, simp)+
  let ?fresh = "new_synth n"
  have "arco_ok n ?fresh" by (simp add: arco_ok_def new_synth_def atLeast0LessThan)
  moreover have "arco_held ?fresh = {#}" by (intro multiset_eqI) (simp add: count_held new_synth_def)
  ultimately have "sy_free (br_pool b') = sy_free ?fresh"
    using over by (intro free_from_held [of n]) simp_all
  moreover have "\<not> sy_up (br_pool b')"
    using assms(2) by (auto simp: audio_shutdown_def synth_ops_def synth_shutdown_def synth_send_def Let_def split: if_splits)
  ultimately show ?thesis using over(3) by (simp add: new_synth_def)
qed

lemma readable_lanes: "list_all lane_controllers_ok decls \<Longrightarrow> decl \<in> set decls \<Longrightarrow> decl_lanes decl \<noteq> None"
proof -
  have "lane_map vs lanes \<noteq> None" if "list_all controller_lane vs" for vs lanes
    using that by (induction vs lanes rule: lane_map.induct) (auto simp: controller_lane_def split: option.splits)
  then show "list_all lane_controllers_ok decls \<Longrightarrow> decl \<in> set decls \<Longrightarrow> decl_lanes decl \<noteq> None"
    by (auto simp: list_all_iff lane_controllers_ok_def decl_lanes_def split: option.splits)
qed

text \<open>
  A grant that fails, because a channel is missing or a voice raises, gives back every channel it had
  taken, if the lanes can be read.
\<close>
theorem failed_grant_keeps_no_channel:
  assumes "on_arco fails n b" and "\<not> dmem d (br_devices b)"
    and "list_all lane_controllers_ok decls" and "grant_voices (synth_ops fails) d decls b = (b', True)"
  shows "sy_free (br_pool b') = sy_free (br_pool b) \<and> br_devices b' = br_devices b"
proof -
  have devs: "br_devices b' = br_devices b" "br_pending b' = br_pending b"
    using assms(4) by (auto simp: grant_voices_def split: prod.splits bool.splits)
  have "arco.in_order n b'"
    using arco.voices_order [OF on_arco_order [OF assms(1)] assms(2,4)] readable_lanes [OF assms(3)] by blast
  with on_arco_order [OF assms(1)] devs have "sy_free (br_pool b') = sy_free (br_pool b)"
    by (intro free_from_held [of n]) (simp_all add: arco.in_order_def owned_def)
  with devs show ?thesis by blast
qed

lemma failed_grant_keeps_no_channel_witness:
  "let b = new_bridge ((new_synth 1)\<lparr>sy_up := True\<rparr>) :: (synth, nat) bridge;
       g = grant_voices (synth_ops (\<lambda>_ _. False)) ''dev'' [[], []] b
   in snd g \<and> sy_free (br_pool (fst g)) = [0] \<and> br_devices (fst g) = []"
proof -
  let ?b = "new_bridge ((new_synth 1)\<lparr>sy_up := True\<rparr>) :: (synth, nat) bridge"
  let ?g = "grant_voices (synth_ops (\<lambda>_ _. False)) ''dev'' [[], []] ?b"
  have raised: "?g = (fst ?g, True)" and fresh: "sy_free (br_pool ?b) = [0]" "br_devices ?b = []"
    and lanes: "list_all lane_controllers_ok [[], []]" and new: "\<not> dmem ''dev'' (br_devices ?b)"
    by code_simp+
  from failed_grant_keeps_no_channel [OF booted new lanes raised] fresh raised show ?thesis
    by (metis prod.sel(2))
qed

lemma shutdown_frees_every_channel_witness:
  "let b = fst (audio_step (synth_ops (\<lambda>_ _. False)) (ANote 14 60 100 1 0)
             (new_bridge ((new_synth 16)\<lparr>sy_up := True\<rparr>)))
   in br_pending b \<noteq> [] \<and> sy_free (br_pool (fst (audio_shutdown (synth_ops (\<lambda>_ _. False)) b))) = [0 ..< 16]"
proof -
  let ?ops = "synth_ops (\<lambda>_ _. False)"
  let ?fresh = "new_bridge ((new_synth 16)\<lparr>sy_up := True\<rparr>) :: (synth, nat) bridge"
  let ?b = "fst (audio_step ?ops (ANote 14 60 100 1 0) ?fresh)"
  have "\<not> snd (audio_step ?ops (ANote 14 60 100 1 0) ?fresh)" by code_simp
  then have step: "audio_step ?ops (ANote 14 60 100 1 0) ?fresh = (?b, False)"
    by (cases "audio_step ?ops (ANote 14 60 100 1 0) ?fresh") simp
  have ringing: "br_pending ?b \<noteq> []" by code_simp
  have "\<not> snd (audio_shutdown ?ops ?b)" by code_simp
  then have over: "audio_shutdown ?ops ?b = (fst (audio_shutdown ?ops ?b), False)"
    by (cases "audio_shutdown ?ops ?b") simp
  have "on_arco (\<lambda>_ _. False) 16 ?b"
    by (rule called [OF booted _ step]) (simp_all add: fresh_grant_def)
  from shutdown_frees_every_channel [OF this over] ringing show ?thesis by metis
qed

subsection \<open>An accepted manifest is granted\<close>

definition drums_among :: "(string, pyval) dict list \<Rightarrow> nat" where
  "drums_among decls = length (filter is_drums decls)"

definition melodic_channels :: "synth \<Rightarrow> nat" where
  "melodic_channels s = length (filter (\<lambda>c. c \<noteq> DRUM_CHANNEL) (sy_free s))"

definition quiet_ops :: "(synth, nat) pool_ops" where
  "quiet_ops = synth_ops (\<lambda>_ _. False)"

lemma melodic_acquire:
  assumes "sy_up s" and "arco_ok n s" and "0 < melodic_channels s"
  shows "\<exists>c. synth_acquire False s = (s\<lparr>sy_free := remove1 c (sy_free s)\<rparr>, Ret c) \<and> c \<noteq> DRUM_CHANNEL
    \<and> c \<in> set (sy_free s) \<and> melodic_channels (s\<lparr>sy_free := remove1 c (sy_free s)\<rparr>) = melodic_channels s - 1"
proof -
  from assms(3) have "List.find (\<lambda>c. c \<noteq> DRUM_CHANNEL) (sy_free s) \<noteq> None"
    by (auto simp: melodic_channels_def find_None_iff filter_empty_conv)
  then obtain c where c: "List.find (\<lambda>c. c \<noteq> DRUM_CHANNEL) (sy_free s) = Some c" by blast
  then have in_free: "c \<noteq> DRUM_CHANNEL" "c \<in> set (sy_free s)"
    by (auto simp: find_Some_iff)
  then have "melodic_channels (s\<lparr>sy_free := remove1 c (sy_free s)\<rparr>) = melodic_channels s - 1"
    by (simp add: melodic_channels_def filter_remove1 length_remove1)
  with c in_free assms(1) show ?thesis by (auto simp: synth_acquire_def)
qed

lemma take_parts_granted:
  assumes "sy_up s" and "arco_ok n s" and "list_all lane_controllers_ok decls"
    and "length decls - drums_among decls \<le> melodic_channels s"
    and "drums_among decls \<le> (if DRUM_CHANNEL \<in> set (sy_free s) then 1 else 0)"
  shows "\<exists>s' parts'. take_parts quiet_ops decls parts s = (s', parts @ parts', False)
    \<and> map (\<lambda>part. vp_voice part = DRUM_CHANNEL) parts' = map is_drums decls"
  using assms
proof (induction decls arbitrary: parts s)
  case (Cons decl decls)
  have len: "drums_among decls \<le> length decls" by (simp add: drums_among_def)
  obtain lanes where lanes: "decl_lanes decl = Some lanes"
    using readable_lanes [OF Cons.prems(3)] by fastforce
  have "\<exists>c. synth_acquire (is_drums decl) s = (s\<lparr>sy_free := remove1 c (sy_free s)\<rparr>, Ret c)
      \<and> (c = DRUM_CHANNEL) = is_drums decl \<and> c \<in> set (sy_free s)
      \<and> length decls - drums_among decls \<le> melodic_channels (s\<lparr>sy_free := remove1 c (sy_free s)\<rparr>)
      \<and> drums_among decls \<le> (if DRUM_CHANNEL \<in> set (remove1 c (sy_free s)) then 1 else 0)"
  proof (cases "is_drums decl")
    case True
    with Cons.prems show ?thesis
      by (intro exI [of _ DRUM_CHANNEL]) (auto simp: synth_acquire_def drums_among_def melodic_channels_def
        filter_remove1 remove1_idem split: if_splits)
  next
    case False
    have "drums_among (decl # decls) = drums_among decls" using False by (simp add: drums_among_def)
    with Cons.prems(4) len have "0 < melodic_channels s" by simp
    from melodic_acquire [OF Cons.prems(1,2) this] False Cons.prems(4,5) show ?thesis
      by (auto simp: drums_among_def)
  qed
  then obtain c where c: "synth_acquire (is_drums decl) s = (s\<lparr>sy_free := remove1 c (sy_free s)\<rparr>, Ret c)"
    "(c = DRUM_CHANNEL) = is_drums decl" "c \<in> set (sy_free s)"
    "length decls - drums_among decls \<le> melodic_channels (s\<lparr>sy_free := remove1 c (sy_free s)\<rparr>)"
    "drums_among decls \<le> (if DRUM_CHANNEL \<in> set (remove1 c (sy_free s)) then 1 else 0)" by blast
  let ?s = "s\<lparr>sy_free := remove1 c (sy_free s)\<rparr>"
  define s2 where "s2 = (case decl_program decl of None \<Rightarrow> ?s | Some k \<Rightarrow> synth_send (OnChannel c (Program k)) ?s)"
  have s2: "sy_up s2" "arco_ok n s2" "sy_free s2 = remove1 c (sy_free s)" "melodic_channels s2 = melodic_channels ?s"
    using Cons.prems(1) arco_taken(1) [OF Cons.prems(2) c(3)]
    by (auto simp: s2_def synth_send_def arco_ok_def melodic_channels_def split: option.split)
  have "list_all lane_controllers_ok decls" using Cons.prems(3) by simp
  from Cons.IH [OF s2(1,2) this, of "parts @ [\<lparr>vp_voice = c, vp_lanes = lanes\<rparr>]"] s2 c(4,5)
  obtain s' parts' where "take_parts quiet_ops decls (parts @ [\<lparr>vp_voice = c, vp_lanes = lanes\<rparr>]) s2
      = (s', (parts @ [\<lparr>vp_voice = c, vp_lanes = lanes\<rparr>]) @ parts', False)"
    and "map (\<lambda>part. vp_voice part = DRUM_CHANNEL) parts' = map is_drums decls"
    by auto
  with c(1,2) lanes show ?case
    by (auto simp: quiet_ops_def synth_ops_def synth_voice_call_def s2_def split: option.splits)
qed simp

text \<open>
  C20: A role whose audio manifest passed validation is granted in full on an unused synthesizer: every declared
  instrument gets a voice, the drums the drum channel and the others a channel that is not it.
\<close>
theorem accepted_manifest_is_granted:
  assumes "validate_ugen_manifest (VDict manifest) = None"
    and "br_pool b = (new_synth 16)\<lparr>sy_up := True\<rparr>"
  shows "\<exists>b' entry. grant_voices quiet_ops d (ugen_decls (VDict manifest)) b = (b', False)
    \<and> dget (br_devices b') d = Some entry
    \<and> map (\<lambda>part. vp_voice part = DRUM_CHANNEL) (da_parts entry) = map is_drums (ugen_decls (VDict manifest))"
proof -
  from accepted_ugen_fits_channels [OF assms(1)] obtain vs where
    vs: "dget_default manifest ''instruments'' (VList []) = VList vs"
    and few: "drums_count vs \<le> 1" "length vs - drums_count vs \<le> 15"
    and dicts: "\<forall>v \<in> set vs. \<exists>d. v = VDict d \<and> lane_controllers_ok d" by blast
  define decls where "decls = List.map_filter as_dict vs"
  have decls: "ugen_decls (VDict manifest) = decls"
    using vs by (simp add: ugen_decls_def decls_def)
  have "length decls = length vs \<and> drums_among decls = drums_count vs \<and> list_all lane_controllers_ok decls"
    using dicts unfolding decls_def
    by (induction vs) (auto simp: List.map_filter_simps drums_among_def)
  moreover have "melodic_channels ((new_synth 16)\<lparr>sy_up := True\<rparr>) = 15"
    and "sy_up ((new_synth 16)\<lparr>sy_up := True\<rparr>)" and "DRUM_CHANNEL \<in> set (sy_free ((new_synth 16)\<lparr>sy_up := True\<rparr>))"
    by code_simp+
  moreover have "arco_ok 16 ((new_synth 16)\<lparr>sy_up := True\<rparr>)"
    by (simp add: arco_ok_def new_synth_def atLeast0LessThan)
  ultimately obtain s' parts where "take_parts quiet_ops decls [] (br_pool b) = (s', parts, False)"
    and "map (\<lambda>part. vp_voice part = DRUM_CHANNEL) parts = map is_drums decls"
    using take_parts_granted [of "(new_synth 16)\<lparr>sy_up := True\<rparr>" 16 decls "[]"] few assms(2) by auto
  with decls show ?thesis by (simp add: grant_voices_def)
qed

lemma accepted_manifest_is_granted_witness:
  "\<exists>b' entry. grant_voices quiet_ops ''dev'' (ugen_decls (VDict [(''instruments'',
        VList [VDict [(''instrument'', VStr ''flsyn''), (''drums'', VBool True)], VDict [(''instrument'', VStr ''flsyn'')]])]))
      (new_bridge ((new_synth 16)\<lparr>sy_up := True\<rparr>)) = (b', False)
    \<and> dget (br_devices b') ''dev'' = Some entry \<and> length (da_parts entry) = 2"
proof -
  let ?m = "[(''instruments'',
        VList [VDict [(''instrument'', VStr ''flsyn''), (''drums'', VBool True)], VDict [(''instrument'', VStr ''flsyn'')]])]"
  have ok: "validate_ugen_manifest (VDict ?m) = None" and two: "length (ugen_decls (VDict ?m)) = 2"
    by code_simp+
  have "br_pool (new_bridge ((new_synth 16)\<lparr>sy_up := True\<rparr>) :: (synth, nat) bridge) = (new_synth 16)\<lparr>sy_up := True\<rparr>"
    by (simp add: new_bridge_def)
  from accepted_manifest_is_granted [OF ok this, of "''dev''"] two show ?thesis
    by (metis length_map)
qed

subsection \<open>Where a raise loses the books\<close>

text \<open>
  \<open>play_note\<close> takes a voice before it programs it; when the synthesizer raises there, the note is not pending
  and the channel is never given back.
\<close>
lemma raised_note_keeps_its_channel:
  assumes "on_arco fails n b" and "\<not> br_shut b" and "synth_acquire False (br_pool b) = (p1, Ret c)"
    and "fails (sy_sent p1) (OnChannel c (Program program))"
    and "play_note (synth_ops fails) program key vel duration now b = (b', raised)"
  shows "raised \<and> arco_held (br_pool b') = add_mset c (owned b')"
proof (rule arco.note_leaks [OF on_arco_order [OF assms(1)] assms(2) _ _ assms(5)])
  show "po_acquire (synth_ops fails) False (br_pool b) = (p1, Ret c)"
    using assms(3) by (simp add: synth_ops_def)
  show "snd (voice_calls (synth_ops fails) c [Program program, NoteOn key vel] p1)"
    using assms(4) by (simp add: synth_ops_def synth_voice_call_def)
qed

text \<open>
  A tick stores the notes it kept only at its end. Here two notes are due and the second raises once: the
  first channel is free but still pending, a grant takes it, and the next tick silences it under its new
  owner and frees it, so that the following grant shares it.
\<close>

definition second_note_fails :: "synth_call list \<Rightarrow> synth_call \<Rightarrow> bool" where
  "second_note_fails sent c \<longleftrightarrow> c = OnChannel 1 (NoteOff 62) \<and> c \<notin> set sent"

fun audio_steps :: "('p, 'v) pool_ops \<Rightarrow> audio_op list \<Rightarrow> ('p, 'v) bridge \<Rightarrow> ('p, 'v) bridge" where
  "audio_steps ops [] b = b"
| "audio_steps ops (x # xs) b = audio_steps ops xs (fst (audio_step ops x b))"

lemma raised_tick_shares_a_channel:
  "map (\<lambda>(d, entry). (d, map vp_voice (da_parts entry)))
     (br_devices (audio_steps (synth_ops second_note_fails)
        [ANote 14 60 100 1 0, ANote 14 62 100 1 0, ATick 2, AGrant ''first'' bell_role 2, ATick 3,
         AGrant ''second'' bell_role 3]
        (new_bridge ((new_synth 16)\<lparr>sy_up := True\<rparr>))))
   = [(''first'', [0]), (''second'', [0])]"
  by code_simp

text \<open>
  A release takes the device off the books first; when the note off of its drone raises, its voices are
  neither quieted nor given back.
\<close>

definition drone_role :: role where
  "drone_role = bell_role\<lparr>r_ugen_manifest := VDict [(''instruments'', VList [VDict [(''instrument'', VStr ''flsyn''),
     (''drone'', VDict [(''key'', VInt 40), (''velocity'', VInt 90)])]])]\<rparr>"

lemma raised_release_loses_the_voices:
  "(let b = audio_steps (synth_ops (\<lambda>_ c. c = OnChannel 0 (NoteOff 40)))
              [AGrant ''dev'' drone_role 0, AStartDrone ''dev'', ARelease ''dev'']
              (new_bridge ((new_synth 16)\<lparr>sy_up := True\<rparr>))
    in br_devices b = [] \<and> br_pending b = [] \<and> 0 \<notin> set (sy_free (br_pool b)))"
  by code_simp

end
