(* ===== verification/Bit_Config.thy ===== *)
theory Bit_Config
  imports Terrarium_Config Metronome "HOL-Library.List_Lexorder" "HOL-Library.Char_ord"
begin

section \<open>The manifest of a Bit\<close>

text \<open>
  \<open>src/control/bit_config.py\<close>: reading \<open>bit.toml\<close>, table by table, and merging launch-time overrides over
  what was read. The decoded document is the argument (TOML text is not modelled). A \<open>ManifestError\<close> is
  \<open>Located\<close> with its key, any other exception is \<open>Escaped\<close>; warnings about unknown keys are left out. A
  table of the document may be a value of any kind, and what the reader does with it then is kept: a
  string or a list answers \<open>in\<close> but has no \<open>get\<close>.
\<close>

subsection \<open>Reading one key\<close>

text \<open>\<open>_warn_unknown_keys\<close>: a loop over the table, with a lookup in a set.\<close>

fun key_scan :: "pyval \<Rightarrow> unit parsed" where
  "key_scan (VDict d) = Inr ()"
| "key_scan (VStr s) = Inr ()"
| "key_scan (VList xs) = demand (\<not> list_ex unhashable xs) Escaped"
| "key_scan _ = Inl Escaped"

definition has_substring :: "string \<Rightarrow> string \<Rightarrow> bool" where
  "has_substring k s \<longleftrightarrow> list_ex (\<lambda>i. starts_with k (drop i s)) [0 ..< Suc (length s)]"

text \<open>\<open>key in table\<close> and \<open>table[key]\<close>.\<close>

fun member_get :: "pyval \<Rightarrow> string \<Rightarrow> pyval option parsed" where
  "member_get (VDict d) k = Inr (dget d k)"
| "member_get (VStr s) k = (if has_substring k s then Inl Escaped else Inr None)"
| "member_get (VList xs) k = (if VStr k \<in> set xs then Inl Escaped else Inr None)"
| "member_get _ _ = Inl Escaped"

text \<open>\<open>table.get(key)\<close>: only a table has it.\<close>

fun method_get :: "pyval \<Rightarrow> string \<Rightarrow> pyval parsed" where
  "method_get (VDict d) k = Inr (tget d k VNone)"
| "method_get _ _ = Inl Escaped"

definition dotted :: "string \<Rightarrow> string \<Rightarrow> string" where
  "dotted tbl k = (if tbl = [] then k else tbl @ ''.'' @ k)"

text \<open>\<open>_get\<close>, with the test of the expected type as a partial reading of the value.\<close>

definition get_as :: "(pyval \<Rightarrow> 'a option) \<Rightarrow> string \<Rightarrow> pyval \<Rightarrow> string \<Rightarrow> 'a \<Rightarrow> 'a parsed" where
  "get_as sel tbl raw k dflt =
     and_then (member_get raw k) (\<lambda>o'. case o' of
         None \<Rightarrow> Inr dflt
       | Some v \<Rightarrow> located_unless (sel v) (Located (dotted tbl k)))"

fun sel_str :: "pyval \<Rightarrow> string option" where
  "sel_str (VStr s) = Some s" | "sel_str _ = None"

fun sel_int :: "pyval \<Rightarrow> int option" where
  "sel_int (VInt n) = Some n" | "sel_int _ = None"

fun sel_bool :: "pyval \<Rightarrow> bool option" where
  "sel_bool (VBool b) = Some b" | "sel_bool _ = None"

fun sel_list :: "pyval \<Rightarrow> pyval list option" where
  "sel_list (VList xs) = Some xs" | "sel_list _ = None"

fun sel_dict :: "pyval \<Rightarrow> (string, pyval) dict option" where
  "sel_dict (VDict d) = Some d" | "sel_dict _ = None"

fun sel_any_str :: "pyval \<Rightarrow> pyval option" where
  "sel_any_str (VStr s) = Some (VStr s)" | "sel_any_str _ = None"

text \<open>A number or nothing: \<open>raw.get(key)\<close> and the test on it.\<close>

definition optional_number :: "string \<Rightarrow> pyval \<Rightarrow> string \<Rightarrow> pyfloat option parsed" where
  "optional_number tbl raw k =
     and_then (method_get raw k) (\<lambda>v.
       if v = VNone then Inr None else located_unless (map_option Some (as_number v)) (Located (dotted tbl k)))"

subsection \<open>The tables\<close>

record bit_identity =
  bi_name :: string
  bi_version :: string
  bi_description :: string
  bi_entry :: string
  bi_kind :: string
  bi_author :: string
  bi_api :: "int option"
  bi_enabled :: bool

record launch_config =
  lc_room_types :: "pyval list"
  lc_default_room :: pyval
  lc_devices :: int
  lc_setup :: pyfloat
  lc_expected_run :: "pyfloat option"
  lc_transport :: string
  lc_nodes :: "(string \<times> pyval) list"
  lc_join_role :: string
  lc_instrument :: string
  lc_manual :: bool

record start_config =
  st_when :: start_when
  st_min_scored :: int
  st_timeout :: "pyfloat option"
  st_on_timeout :: timer_action
  st_key :: "string option"

record console_block =
  cb_display_name :: string
  cb_notes :: string
  cb_hidden :: bool

record rhythm_config =
  rc_bpm :: pyfloat
  rc_beats :: int
  rc_cycles :: int
  rc_window_ms :: pyfloat
  rc_offset_ms :: pyfloat

record lobby_config =
  lo_enabled :: bool
  lo_invite :: pyfloat
  lo_gap :: pyfloat
  lo_max_scored :: "int option"

record bit_manifest =
  cf_identity :: bit_identity
  cf_launch :: launch_config
  cf_start :: start_config
  cf_console :: console_block
  cf_results :: "pyval list"
  cf_assets :: "(string \<times> string) list"
  cf_rhythm :: "rhythm_config option"
  cf_lobby :: lobby_config
  cf_extras :: "(pyval, pyval) dict"

definition KINDS :: "string list" where
  "KINDS = [''music'', ''r_game'', ''game'', ''tool'', ''ambient'']"

definition TRANSPORTS :: "string list" where
  "TRANSPORTS = [''any'', ''o2lite'']"

definition parse_identity :: "pyval \<Rightarrow> bit_identity parsed" where
  "parse_identity raw =
     and_then (key_scan raw) (\<lambda>_.
     and_then (get_as sel_str ''bit'' raw ''name'' '''') (\<lambda>name.
     and_then (demand (name \<noteq> []) (Located ''bit.name'')) (\<lambda>_.
     and_then (get_as sel_str ''bit'' raw ''entry'' '''') (\<lambda>entry.
     and_then (demand (entry \<noteq> []) (Located ''bit.entry'')) (\<lambda>_.
     and_then (demand (count_list entry (CHR '':'') = 1) (Located ''bit.entry'')) (\<lambda>_.
     and_then (get_as sel_str ''bit'' raw ''kind'' ''game'') (\<lambda>kd.
     and_then (demand (kd \<in> set KINDS) (Located ''bit.kind'')) (\<lambda>_.
     and_then (get_as sel_str ''bit'' raw ''version'' '''') (\<lambda>version.
     and_then (get_as sel_str ''bit'' raw ''description'' '''') (\<lambda>description.
     and_then (get_as sel_str ''bit'' raw ''author'' '''') (\<lambda>author.
     and_then (get_as (map_option Some \<circ> sel_int) ''bit'' raw ''requires_terrarium_api'' None) (\<lambda>api.
     and_then (get_as sel_bool ''bit'' raw ''enabled'' True) (\<lambda>enabled.
     Inr \<lparr>bi_name = name, bi_version = version, bi_description = description, bi_entry = entry, bi_kind = kd,
          bi_author = author, bi_api = api, bi_enabled = enabled\<rparr>)))))))))))))"

definition parse_launch :: "pyval \<Rightarrow> launch_config parsed" where
  "parse_launch raw =
     and_then (key_scan raw) (\<lambda>_.
     and_then (get_as sel_list ''launch'' raw ''room_types'' [VStr ''TEST'']) (\<lambda>rooms.
     and_then (demand (rooms \<noteq> []) (Located ''launch.room_types'')) (\<lambda>_.
     and_then (get_as sel_any_str ''launch'' raw ''default_room_type'' (hd rooms)) (\<lambda>default_room.
     and_then (demand (default_room \<in> set rooms) (Located ''launch.default_room_type'')) (\<lambda>_.
     and_then (get_as sel_str ''launch'' raw ''transport'' ''any'') (\<lambda>transport.
     and_then (demand (transport \<in> set TRANSPORTS) (Located ''launch.transport'')) (\<lambda>_.
     and_then (optional_number ''launch'' raw ''expected_run_seconds'') (\<lambda>expected.
     and_then (get_as sel_dict ''launch'' raw ''nodes'' []) (\<lambda>nodes.
     and_then (get_as sel_int ''launch'' raw ''default_devices'' 1) (\<lambda>devices.
     and_then (get_as as_number ''launch'' raw ''setup_seconds'' (Fin 0)) (\<lambda>setup_s.
     and_then (get_as sel_str ''launch'' raw ''default_join_role'' '''') (\<lambda>join_role.
     and_then (get_as sel_str ''launch'' raw ''device_instrument'' '''') (\<lambda>instrument.
     and_then (get_as sel_bool ''launch'' raw ''manual_devices'' False) (\<lambda>manual.
     Inr \<lparr>lc_room_types = rooms, lc_default_room = default_room, lc_devices = devices, lc_setup = setup_s,
          lc_expected_run = expected, lc_transport = transport, lc_nodes = sort_key fst nodes,
          lc_join_role = join_role, lc_instrument = instrument, lc_manual = manual\<rparr>))))))))))))))"

fun when_named :: "string \<Rightarrow> start_when option" where
  "when_named s =
     (if s = ''immediate'' then Some Immediate else if s = ''players'' then Some Players
      else if s = ''operator'' then Some Operator else if s = ''admin'' then Some Admin else None)"

fun timeout_named :: "string \<Rightarrow> timer_action option" where
  "timeout_named s = (if s = ''start'' then Some TimerStart else if s = ''abort'' then Some TimerAbort else None)"

definition optional_str :: "string \<Rightarrow> pyval \<Rightarrow> string \<Rightarrow> string option parsed" where
  "optional_str tbl raw k =
     and_then (method_get raw k) (\<lambda>v.
       if v = VNone then Inr None else located_unless (map_option Some (sel_str v)) (Located (dotted tbl k)))"

text \<open>A start named \<open>scheduled\<close> is refused under the same key as an unknown one.\<close>

definition parse_start :: "pyval \<Rightarrow> start_config parsed" where
  "parse_start raw =
     and_then (key_scan raw) (\<lambda>_.
     and_then (get_as sel_str ''start'' raw ''when'' ''immediate'') (\<lambda>name.
     and_then (located_unless (when_named name) (Located ''start.when'')) (\<lambda>w.
     and_then (optional_str ''start'' raw ''key'') (\<lambda>key.
     and_then (demand (w = Admin \<longrightarrow> key \<noteq> None \<and> key \<noteq> Some []) (Located ''start.key'')) (\<lambda>_.
     and_then (get_as sel_int ''start'' raw ''min_scored'' (if w = Admin then 0 else 1)) (\<lambda>min_scored.
     and_then (demand ((if w = Admin then 0 else 1) \<le> min_scored) (Located ''start.min_scored'')) (\<lambda>_.
     and_then (get_as sel_str ''start'' raw ''on_timeout'' ''start'') (\<lambda>on_name.
     and_then (located_unless (timeout_named on_name) (Located ''start.on_timeout'')) (\<lambda>on_timeout.
     and_then (optional_number ''start'' raw ''timeout_seconds'') (\<lambda>timeout.
     Inr \<lparr>st_when = w, st_min_scored = min_scored, st_timeout = timeout, st_on_timeout = on_timeout,
          st_key = (if w = Admin then key else None)\<rparr>))))))))))"

text \<open>A time of the lobby is refused when it is no number or below zero, which a NaN is not.\<close>

definition lobby_seconds :: "pyval \<Rightarrow> string \<Rightarrow> pyfloat \<Rightarrow> pyfloat parsed" where
  "lobby_seconds raw k dflt =
     and_then (method_get raw k) (\<lambda>_.
       case as_number (case raw of VDict d \<Rightarrow> tget d k (VFloat dflt) | _ \<Rightarrow> VNone) of
         None \<Rightarrow> Inl (Located (dotted ''lobby'' k))
       | Some x \<Rightarrow> if flt x (Fin 0) then Inl (Located (dotted ''lobby'' k)) else Inr x)"

definition parse_lobby :: "pyval \<Rightarrow> lobby_config parsed" where
  "parse_lobby raw =
     and_then (key_scan raw) (\<lambda>_.
     and_then (get_as sel_bool ''lobby'' raw ''enabled'' True) (\<lambda>enabled.
     and_then (lobby_seconds raw ''invite_interval_s'' (Fin 5)) (\<lambda>invite.
     and_then (lobby_seconds raw ''ceremony_gap_s'' (Fin 1)) (\<lambda>gap.
     and_then (method_get raw ''max_scored'') (\<lambda>v.
     and_then (if v = VNone then Inr None
               else located_unless (map_option Some (case sel_int v of Some n \<Rightarrow> if n < 1 then None else Some n | None \<Rightarrow> None))
                      (Located ''lobby.max_scored'')) (\<lambda>max_scored.
     Inr \<lparr>lo_enabled = enabled, lo_invite = invite, lo_gap = gap, lo_max_scored = max_scored\<rparr>))))))"

definition parse_console :: "pyval \<Rightarrow> console_block parsed" where
  "parse_console raw =
     and_then (key_scan raw) (\<lambda>_.
     and_then (get_as sel_str ''console'' raw ''display_name'' '''') (\<lambda>name.
     and_then (get_as sel_str ''console'' raw ''notes'' '''') (\<lambda>notes'.
     and_then (get_as sel_bool ''console'' raw ''hidden'' False) (\<lambda>hidden.
     Inr \<lparr>cb_display_name = name, cb_notes = notes', cb_hidden = hidden\<rparr>))))"

definition parse_rhythm :: "pyval \<Rightarrow> rhythm_config parsed" where
  "parse_rhythm raw =
     and_then (key_scan raw) (\<lambda>_.
     and_then (get_as as_number ''rhythm'' raw ''bpm'' (Fin 100)) (\<lambda>bpm.
     and_then (get_as sel_int ''rhythm'' raw ''beats_per_cycle'' 8) (\<lambda>beats.
     and_then (get_as sel_int ''rhythm'' raw ''cycles'' 4) (\<lambda>cycles.
     and_then (get_as as_number ''rhythm'' raw ''grading_window_ms'' (Fin 50)) (\<lambda>window.
     and_then (get_as as_number ''rhythm'' raw ''input_offset_ms'' (Fin 0)) (\<lambda>offset.
     Inr \<lparr>rc_bpm = bpm, rc_beats = beats, rc_cycles = cycles, rc_window_ms = window, rc_offset_ms = offset\<rparr>))))))"

subsection \<open>The whole manifest\<close>

text \<open>An asset is a relative path without \<open>..\<close>.\<close>

definition parse_asset :: "string \<times> pyval \<Rightarrow> (string \<times> string) parsed" where
  "parse_asset = (\<lambda>(k, v).
     case v of
       VStr s \<Rightarrow>
         (if starts_with ''/'' s \<or> ''..'' \<in> set (path_parts s) then Inl (Located (dotted ''assets'' k)) else Inr (k, s))
     | _ \<Rightarrow> Inl (Located (dotted ''assets'' k)))"

text \<open>\<open>dict(value)\<close>: a table, or an iterable of pairs.\<close>

definition pair_of :: "pyval \<Rightarrow> (pyval \<times> pyval) parsed" where
  "pair_of v =
     and_then (iterate v) (\<lambda>xs.
       case xs of [k, w] \<Rightarrow> if unhashable k then Inl Escaped else Inr (k, w) | _ \<Rightarrow> Inl Escaped)"

definition dict_over :: "('k, 'v) dict \<Rightarrow> ('k \<times> 'v) list \<Rightarrow> ('k, 'v) dict" where
  "dict_over m given = foldl (\<lambda>m (k, v). dset k v m) m given"

definition dict_of :: "pyval \<Rightarrow> (pyval, pyval) dict parsed" where
  "dict_of v =
     (case v of
        VDict d \<Rightarrow> Inr (map (\<lambda>(k, w). (VStr k, w)) d)
      | _ \<Rightarrow> and_then (iterate v) (\<lambda>xs.
               and_then (parse_each pair_of xs) (\<lambda>ps. Inr (dict_over [] ps))))"

definition parse_manifest :: "(string, pyval) dict \<Rightarrow> bit_manifest parsed" where
  "parse_manifest doc =
     and_then (parse_identity (tget doc ''bit'' (VDict []))) (\<lambda>identity.
     and_then (parse_launch (tget doc ''launch'' (VDict []))) (\<lambda>launch.
     and_then (parse_start (tget doc ''start'' (VDict []))) (\<lambda>start.
     and_then (parse_console (tget doc ''console'' (VDict []))) (\<lambda>console.
     and_then (parse_lobby (tget doc ''lobby'' (VDict []))) (\<lambda>lobby.
     and_then (key_scan (tget doc ''results'' (VDict []))) (\<lambda>_.
     and_then (get_as sel_list ''results'' (tget doc ''results'' (VDict [])) ''keys'' []) (\<lambda>results.
     and_then (get_as sel_dict '''' (VDict doc) ''assets'' []) (\<lambda>raw_assets.
     and_then (parse_each parse_asset (sort_key fst raw_assets)) (\<lambda>assets.
     and_then (case dget doc ''rhythm'' of
                 None \<Rightarrow> Inr None
               | Some raw \<Rightarrow> and_then (parse_rhythm raw) (\<lambda>r. Inr (Some r))) (\<lambda>rhythm'.
     and_then (dict_of (tget doc ''defaults'' (VDict []))) (\<lambda>extras.
     Inr \<lparr>cf_identity = identity, cf_launch = launch, cf_start = start, cf_console = console,
          cf_results = results, cf_assets = assets, cf_rhythm = rhythm', cf_lobby = lobby,
          cf_extras = extras\<rparr>)))))))))))"

text \<open>Where an asset lies below the package directory, which \<open>BitRegistry\<close> stamps; \<open>None\<close> is a \<open>ManifestError\<close>.\<close>

definition asset_path :: "string option \<Rightarrow> bit_manifest \<Rightarrow> string \<Rightarrow> (string \<times> string) option" where
  "asset_path base cfg key =
     (case dget (cf_assets cfg) key of
        None \<Rightarrow> None
      | Some rel \<Rightarrow> map_option (\<lambda>dir. (dir, rel)) base)"

definition node_for :: "bit_manifest \<Rightarrow> string \<Rightarrow> pyval" where
  "node_for cfg r = (case dget (lc_nodes (cf_launch cfg)) r of None \<Rightarrow> VNone | Some v \<Rightarrow> v)"

definition join_node :: "bit_manifest \<Rightarrow> pyval" where
  "join_node cfg =
     (let chosen = (if lc_join_role (cf_launch cfg) = [] then VNone else node_for cfg (lc_join_role (cf_launch cfg)))
      in if chosen \<noteq> VNone then chosen
         else case lc_nodes (cf_launch cfg) of [] \<Rightarrow> VNone | (_, v) # _ \<Rightarrow> v)"

subsection \<open>Overrides\<close>

definition opt_value :: "('a \<Rightarrow> pyval) \<Rightarrow> 'a option \<Rightarrow> pyval" where
  "opt_value f x = (case x of None \<Rightarrow> VNone | Some a \<Rightarrow> f a)"

text \<open>\<open>_to_raw\<close>: a parsed table back in the shape its reader takes.\<close>

definition raw_identity :: "bit_identity \<Rightarrow> (string, pyval) dict" where
  "raw_identity x =
     [(''name'', VStr (bi_name x)), (''version'', VStr (bi_version x)), (''description'', VStr (bi_description x)),
      (''entry'', VStr (bi_entry x)), (''kind'', VStr (bi_kind x)), (''author'', VStr (bi_author x)),
      (''requires_terrarium_api'', opt_value VInt (bi_api x)), (''enabled'', VBool (bi_enabled x))]"

definition raw_launch :: "launch_config \<Rightarrow> (string, pyval) dict" where
  "raw_launch x =
     [(''room_types'', VList (lc_room_types x)), (''default_room_type'', lc_default_room x),
      (''default_devices'', VInt (lc_devices x)), (''setup_seconds'', VFloat (lc_setup x)),
      (''expected_run_seconds'', opt_value VFloat (lc_expected_run x)), (''transport'', VStr (lc_transport x)),
      (''nodes'', VDict (lc_nodes x)), (''default_join_role'', VStr (lc_join_role x)),
      (''device_instrument'', VStr (lc_instrument x)), (''manual_devices'', VBool (lc_manual x))]"

fun when_name :: "start_when \<Rightarrow> string" where
  "when_name Immediate = ''immediate''" | "when_name Players = ''players''"
| "when_name Operator = ''operator''" | "when_name Admin = ''admin''"

fun timeout_name :: "timer_action \<Rightarrow> string" where
  "timeout_name TimerStart = ''start''" | "timeout_name TimerAbort = ''abort''"

definition raw_start :: "start_config \<Rightarrow> (string, pyval) dict" where
  "raw_start x =
     [(''when'', VStr (when_name (st_when x))), (''min_scored'', VInt (st_min_scored x)),
      (''timeout_seconds'', opt_value VFloat (st_timeout x)), (''on_timeout'', VStr (timeout_name (st_on_timeout x))),
      (''key'', opt_value VStr (st_key x))]"

definition raw_console :: "console_block \<Rightarrow> (string, pyval) dict" where
  "raw_console x =
     [(''display_name'', VStr (cb_display_name x)), (''notes'', VStr (cb_notes x)), (''hidden'', VBool (cb_hidden x))]"

definition raw_rhythm :: "rhythm_config \<Rightarrow> (string, pyval) dict" where
  "raw_rhythm x =
     [(''bpm'', VFloat (rc_bpm x)), (''beats_per_cycle'', VInt (rc_beats x)), (''cycles'', VInt (rc_cycles x)),
      (''grading_window_ms'', VFloat (rc_window_ms x)), (''input_offset_ms'', VFloat (rc_offset_ms x))]"

definition raw_lobby :: "lobby_config \<Rightarrow> (string, pyval) dict" where
  "raw_lobby x =
     [(''enabled'', VBool (lo_enabled x)), (''invite_interval_s'', VFloat (lo_invite x)),
      (''ceremony_gap_s'', VFloat (lo_gap x)), (''max_scored'', opt_value VInt (lo_max_scored x))]"

definition DEFAULT_RHYTHM :: rhythm_config where
  "DEFAULT_RHYTHM = \<lparr>rc_bpm = Fin 100, rc_beats = 8, rc_cycles = 4, rc_window_ms = Fin 50, rc_offset_ms = Fin 0\<rparr>"

definition OVERRIDE_TABLES :: "string list" where
  "OVERRIDE_TABLES = [''bit'', ''launch'', ''start'', ''console'', ''rhythm'', ''lobby'']"

text \<open>The raw table with the override over it, read again; a key the table does not have is refused.\<close>

definition remerge :: "string \<Rightarrow> (string, pyval) dict \<Rightarrow> (string, pyval) dict \<Rightarrow> (pyval \<Rightarrow> 'a parsed) \<Rightarrow> 'a parsed" where
  "remerge table raw given parse =
     (case List.find (\<lambda>(k, v). \<not> dmem k raw) given of
        Some (k, v) \<Rightarrow> Inl (Located (dotted table k))
      | None \<Rightarrow> parse (VDict (dict_over raw given)))"

definition merge_table :: "string \<Rightarrow> (string, pyval) dict \<Rightarrow> bit_manifest \<Rightarrow> bit_manifest \<Rightarrow> bit_manifest parsed" where
  "merge_table table given old cfg =
     (if table = ''bit''
      then and_then (remerge table (raw_identity (cf_identity old)) given parse_identity) (\<lambda>x. Inr (cfg\<lparr>cf_identity := x\<rparr>))
      else if table = ''launch''
      then and_then (remerge table (raw_launch (cf_launch old)) given parse_launch) (\<lambda>x. Inr (cfg\<lparr>cf_launch := x\<rparr>))
      else if table = ''start''
      then and_then (remerge table (raw_start (cf_start old)) given parse_start) (\<lambda>x. Inr (cfg\<lparr>cf_start := x\<rparr>))
      else if table = ''console''
      then and_then (remerge table (raw_console (cf_console old)) given parse_console) (\<lambda>x. Inr (cfg\<lparr>cf_console := x\<rparr>))
      else if table = ''rhythm''
      then and_then (remerge table (raw_rhythm (case cf_rhythm old of None \<Rightarrow> DEFAULT_RHYTHM | Some r \<Rightarrow> r)) given parse_rhythm)
             (\<lambda>x. Inr (cfg\<lparr>cf_rhythm := Some x\<rparr>))
      else and_then (remerge table (raw_lobby (cf_lobby old)) given parse_lobby) (\<lambda>x. Inr (cfg\<lparr>cf_lobby := x\<rparr>)))"

definition merge_results :: "pyval \<Rightarrow> bit_manifest \<Rightarrow> bit_manifest parsed" where
  "merge_results v cfg =
     (case v of
        VDict d \<Rightarrow>
          (case dget d ''keys'' of
             None \<Rightarrow> Inl (Located ''results'')
           | Some ks \<Rightarrow>
               (case sort (filter (\<lambda>k. k \<noteq> ''keys'') (dkeys d)) of
                  bad # _ \<Rightarrow> Inl (Located (dotted ''results'' bad))
                | [] \<Rightarrow> and_then (iterate ks) (\<lambda>xs. Inr (cfg\<lparr>cf_results := xs\<rparr>))))
      | _ \<Rightarrow> Inl (Located ''results''))"

definition merge_one :: "string \<Rightarrow> pyval \<Rightarrow> bit_manifest \<Rightarrow> bit_manifest \<Rightarrow> bit_manifest parsed" where
  "merge_one table v old cfg =
     (if table = ''defaults''
      then (case v of
              VDict d \<Rightarrow> Inr (cfg\<lparr>cf_extras := dict_over (cf_extras old) (map (\<lambda>(k, w). (VStr k, w)) d)\<rparr>)
            | _ \<Rightarrow> Inl (Located ''defaults''))
      else if table = ''results'' then merge_results v cfg
      else if table \<notin> set OVERRIDE_TABLES then Inl (Located table)
      else (case v of VDict d \<Rightarrow> merge_table table d old cfg | _ \<Rightarrow> Inl (Located table)))"

text \<open>The changes are collected one table after the other, each against the configuration as it was.\<close>

fun merge_from :: "bit_manifest \<Rightarrow> (string \<times> pyval) list \<Rightarrow> bit_manifest \<Rightarrow> bit_manifest parsed" where
  "merge_from old [] cfg = Inr cfg"
| "merge_from old ((table, v) # ovs) cfg = and_then (merge_one table v old cfg) (merge_from old ovs)"

definition merge_overrides :: "bit_manifest \<Rightarrow> (string, pyval) dict \<Rightarrow> bit_manifest parsed" where
  "merge_overrides cfg ovs = merge_from cfg ovs cfg"

subsection \<open>What an accepted configuration satisfies\<close>

definition identity_ok :: "bit_identity \<Rightarrow> bool" where
  "identity_ok x \<longleftrightarrow> bi_name x \<noteq> [] \<and> count_list (bi_entry x) (CHR '':'') = 1 \<and> bi_kind x \<in> set KINDS"

definition launch_ok :: "launch_config \<Rightarrow> bool" where
  "launch_ok x \<longleftrightarrow> lc_default_room x \<in> set (lc_room_types x) \<and> lc_transport x \<in> set TRANSPORTS
     \<and> sorted (map fst (lc_nodes x))"

definition start_ok :: "start_config \<Rightarrow> bool" where
  "start_ok x \<longleftrightarrow> (st_key x \<noteq> None \<longleftrightarrow> st_when x = Admin) \<and> st_key x \<noteq> Some []
     \<and> (if st_when x = Admin then 0 else 1) \<le> st_min_scored x"

definition lobby_ok :: "lobby_config \<Rightarrow> bool" where
  "lobby_ok x \<longleftrightarrow> \<not> flt (lo_invite x) (Fin 0) \<and> \<not> flt (lo_gap x) (Fin 0)
     \<and> (case lo_max_scored x of None \<Rightarrow> True | Some n \<Rightarrow> 1 \<le> n)"

definition assets_ok :: "(string \<times> string) list \<Rightarrow> bool" where
  "assets_ok xs \<longleftrightarrow> list_all (\<lambda>(k, rel). \<not> starts_with ''/'' rel \<and> ''..'' \<notin> set (path_parts rel)) xs"

definition config_ok :: "bit_manifest \<Rightarrow> bool" where
  "config_ok cfg \<longleftrightarrow> identity_ok (cf_identity cfg) \<and> launch_ok (cf_launch cfg) \<and> start_ok (cf_start cfg)
     \<and> lobby_ok (cf_lobby cfg) \<and> assets_ok (cf_assets cfg)"

lemma identity_accepted: "parse_identity raw = Inr x \<Longrightarrow> identity_ok x"
  by (auto simp: parse_identity_def identity_ok_def)

lemma launch_accepted: "parse_launch raw = Inr x \<Longrightarrow> launch_ok x"
  by (auto simp: parse_launch_def launch_ok_def)

lemma start_accepted: "parse_start raw = Inr x \<Longrightarrow> start_ok x"
  by (auto simp: parse_start_def start_ok_def)

lemma lobby_accepted: "parse_lobby raw = Inr x \<Longrightarrow> lobby_ok x"
  by (auto simp: parse_lobby_def lobby_ok_def lobby_seconds_def split: option.splits if_splits)

lemma assets_accepted:
  assumes "parse_each parse_asset xs = Inr ys"
  shows "assets_ok ys"
  using parse_each_Inr [OF assms]
  by (induction rule: list_all2_induct) (auto simp: assets_ok_def parse_asset_def split: pyval.splits if_splits)

lemma remerge_Inr: "remerge table raw given parse = Inr x \<Longrightarrow> \<exists>v. parse v = Inr x"
  by (auto simp: remerge_def split: option.splits)

lemma merge_one_ok:
  assumes "merge_one table v old cfg = Inr cfg'" and "config_ok cfg"
  shows "config_ok cfg'"
  using assms identity_accepted launch_accepted start_accepted lobby_accepted
  by (auto simp: merge_one_def merge_table_def merge_results_def config_ok_def dest!: remerge_Inr
      split: if_splits pyval.splits option.splits list.splits)

lemma merge_from_ok: "merge_from old ovs cfg = Inr cfg' \<Longrightarrow> config_ok cfg \<Longrightarrow> config_ok cfg'"
proof (induction ovs arbitrary: cfg)
  case (Cons ov ovs)
  then obtain table v cfg1 where "merge_one table v old cfg = Inr cfg1" "merge_from old ovs cfg1 = Inr cfg'"
    by (cases ov) auto
  with Cons.IH Cons.prems(2) merge_one_ok show ?case by blast
qed simp

text \<open>
  C11: What a manifest may say survives any overrides: a name, an entry point of one colon, a known kind, a
  default Room among the allowed ones, an admin start with a key and no other with one, a minimum of
  players that makes sense, lobby times not below zero, assets inside the package.
\<close>
theorem accepted_overrides_are_valid:
  assumes "parse_manifest doc = Inr cfg" and "merge_overrides cfg ovs = Inr cfg'"
  shows "config_ok cfg \<and> config_ok cfg'"
proof -
  have "config_ok cfg"
    using assms(1) identity_accepted launch_accepted start_accepted lobby_accepted assets_accepted
    by (auto simp: parse_manifest_def config_ok_def)
  moreover from merge_from_ok [OF assms(2) [unfolded merge_overrides_def] this] have "config_ok cfg'" .
  ultimately show ?thesis ..
qed

lemma accepted_overrides_are_valid_witness:
  "\<exists>cfg cfg'. parse_manifest [(''bit'', VDict [(''name'', VStr ''m''), (''entry'', VStr ''a:b'')])] = Inr cfg
    \<and> merge_overrides cfg [(''start'', VDict [(''when'', VStr ''admin''), (''key'', VStr ''k'')])] = Inr cfg'
    \<and> config_ok cfg \<and> config_ok cfg' \<and> st_when (cf_start cfg') = Admin"
proof -
  let ?p = "parse_manifest [(''bit'', VDict [(''name'', VStr ''m''), (''entry'', VStr ''a:b'')])]"
  let ?ov = "[(''start'', VDict [(''when'', VStr ''admin''), (''key'', VStr ''k'')])]"
  have "case ?p of Inl _ \<Rightarrow> False | Inr cfg \<Rightarrow>
      (case merge_overrides cfg ?ov of Inl _ \<Rightarrow> False | Inr cfg' \<Rightarrow> st_when (cf_start cfg') = Admin)"
    by code_simp
  then obtain cfg cfg' where "?p = Inr cfg" "merge_overrides cfg ?ov = Inr cfg'" "st_when (cf_start cfg') = Admin"
    by (auto split: sum.splits)
  with accepted_overrides_are_valid [OF this(1,2)] show ?thesis by blast
qed

subsection \<open>What an override leaves alone\<close>

lemma dget_over: "k \<notin> fst ` set given \<Longrightarrow> dget (dict_over m given) k = dget m k"
  by (induction given arbitrary: m) (auto simp: dict_over_def)

lemma dict_over_Nil [simp]: "dict_over m [] = m"
  by (simp add: dict_over_def)

lemma remerge_Nil [simp]: "remerge table raw [] parse = parse (VDict raw)"
  by (simp add: remerge_def)

lemma sorted_nodes: "sorted (map fst nodes) \<Longrightarrow> sort_key fst nodes = nodes"
  by (induction nodes) (auto simp: insort_is_Cons)

lemma reread_identity: "identity_ok x \<Longrightarrow> bi_api x \<noteq> None \<Longrightarrow> parse_identity (VDict (raw_identity x)) = Inr x"
  by (auto simp: parse_identity_def raw_identity_def identity_ok_def get_as_def and_then_def demand_def
      located_unless_def opt_value_def)

lemma reread_launch:
  "launch_ok x \<Longrightarrow> sel_str (lc_default_room x) \<noteq> None \<Longrightarrow> parse_launch (VDict (raw_launch x)) = Inr x"
  by (cases "lc_default_room x")
     (auto simp: parse_launch_def raw_launch_def launch_ok_def get_as_def and_then_def demand_def tget_def
      located_unless_def opt_value_def optional_number_def sorted_nodes split: option.split)

lemma when_roundtrip: "when_named (when_name w) = Some w"
  by (cases w) simp_all

lemma timeout_roundtrip: "timeout_named (timeout_name a) = Some a"
  by (cases a) simp_all

lemma reread_start: "start_ok x \<Longrightarrow> parse_start (VDict (raw_start x)) = Inr x"
  by (auto simp: parse_start_def raw_start_def start_ok_def get_as_def and_then_def demand_def tget_def when_roundtrip
      timeout_roundtrip located_unless_def opt_value_def optional_number_def optional_str_def
      simp del: when_named.simps timeout_named.simps split: option.split)

lemma reread_console: "parse_console (VDict (raw_console x)) = Inr x"
  by (simp add: parse_console_def raw_console_def get_as_def and_then_def located_unless_def)

lemma reread_rhythm: "parse_rhythm (VDict (raw_rhythm x)) = Inr x"
  by (simp add: parse_rhythm_def raw_rhythm_def get_as_def and_then_def located_unless_def)

lemma reread_lobby: "lobby_ok x \<Longrightarrow> parse_lobby (VDict (raw_lobby x)) = Inr x"
  by (auto simp: parse_lobby_def raw_lobby_def lobby_ok_def lobby_seconds_def get_as_def and_then_def located_unless_def
      tget_def opt_value_def split: option.splits)

text \<open>
  An override is a change of what it names only: an empty override of any table of an accepted manifest
  reads that table again and leaves the configuration as it was; for the \<open>launch\<close> table if the default Room
  is named by a string, for the \<open>bit\<close> table if the manifest asks for an API version, and for the \<open>rhythm\<close>
  table, which an override creates, if there is one.
\<close>
theorem empty_override_changes_nothing:
  assumes "parse_manifest doc = Inr cfg" and "table \<in> set OVERRIDE_TABLES"
    and "table = ''launch'' \<longrightarrow> sel_str (lc_default_room (cf_launch cfg)) \<noteq> None"
    and "table = ''bit'' \<longrightarrow> bi_api (cf_identity cfg) \<noteq> None"
    and "table = ''rhythm'' \<longrightarrow> cf_rhythm cfg \<noteq> None"
  shows "merge_overrides cfg [(table, VDict [])] = Inr cfg"
proof -
  have "config_ok cfg"
    using assms(1) identity_accepted launch_accepted start_accepted lobby_accepted assets_accepted
    by (auto simp: parse_manifest_def config_ok_def)
  then have "merge_table table [] cfg cfg = Inr cfg"
    using assms(3-5) reread_identity reread_launch reread_start reread_console reread_rhythm reread_lobby
    by (auto simp: merge_table_def config_ok_def and_then_def split: option.splits)
  moreover have "table \<noteq> ''defaults''" "table \<noteq> ''results''"
    using assms(2) by (auto simp: OVERRIDE_TABLES_def)
  ultimately show ?thesis
    using assms(2) by (simp add: merge_overrides_def merge_one_def and_then_def)
qed

definition untouched :: "string set \<Rightarrow> bit_manifest \<Rightarrow> bit_manifest \<Rightarrow> bool" where
  "untouched ts cfg cfg' \<longleftrightarrow>
     (''bit'' \<notin> ts \<longrightarrow> cf_identity cfg' = cf_identity cfg)
     \<and> (''launch'' \<notin> ts \<longrightarrow> cf_launch cfg' = cf_launch cfg)
     \<and> (''start'' \<notin> ts \<longrightarrow> cf_start cfg' = cf_start cfg)
     \<and> (''console'' \<notin> ts \<longrightarrow> cf_console cfg' = cf_console cfg)
     \<and> (''rhythm'' \<notin> ts \<longrightarrow> cf_rhythm cfg' = cf_rhythm cfg)
     \<and> (''lobby'' \<notin> ts \<longrightarrow> cf_lobby cfg' = cf_lobby cfg)
     \<and> (''defaults'' \<notin> ts \<longrightarrow> cf_extras cfg' = cf_extras cfg)
     \<and> (''results'' \<notin> ts \<longrightarrow> cf_results cfg' = cf_results cfg)
     \<and> cf_assets cfg' = cf_assets cfg"

lemma untouched_refl: "untouched ts cfg cfg"
  by (simp add: untouched_def)

lemma untouched_trans: "untouched ts cfg cfg1 \<Longrightarrow> untouched ts' cfg1 cfg' \<Longrightarrow> untouched (ts \<union> ts') cfg cfg'"
  unfolding untouched_def by (intro conjI impI) simp_all

lemma untouched_updates:
  "untouched {''bit''} cfg (cfg\<lparr>cf_identity := a\<rparr>)" "untouched {''launch''} cfg (cfg\<lparr>cf_launch := b\<rparr>)"
  "untouched {''start''} cfg (cfg\<lparr>cf_start := c\<rparr>)" "untouched {''console''} cfg (cfg\<lparr>cf_console := d\<rparr>)"
  "untouched {''rhythm''} cfg (cfg\<lparr>cf_rhythm := e\<rparr>)" "untouched {''lobby''} cfg (cfg\<lparr>cf_lobby := f\<rparr>)"
  "untouched {''defaults''} cfg (cfg\<lparr>cf_extras := g\<rparr>)" "untouched {''results''} cfg (cfg\<lparr>cf_results := h\<rparr>)"
  by (simp_all add: untouched_def)

lemma merge_table_frame:
  assumes "merge_table table given old cfg = Inr cfg'" and "table \<in> set OVERRIDE_TABLES"
  shows "untouched {table} cfg cfg'"
proof -
  have "table = ''bit'' \<or> table = ''launch'' \<or> table = ''start'' \<or> table = ''console'' \<or> table = ''rhythm''
      \<or> table = ''lobby''"
    using assms(2) by (simp add: OVERRIDE_TABLES_def)
  then show ?thesis
    using assms(1) by (elim disjE; simp add: merge_table_def) (auto simp: untouched_updates)
qed

lemma merge_results_frame: "merge_results v cfg = Inr cfg' \<Longrightarrow> \<exists>ks. cfg' = cfg\<lparr>cf_results := ks\<rparr>"
  by (auto simp: merge_results_def split: pyval.splits option.splits list.splits)

lemma merge_one_frame:
  assumes "merge_one table v old cfg = Inr cfg'"
  shows "untouched {table} cfg cfg'"
proof -
  consider "table = ''defaults''" | "table = ''results''" | "table \<noteq> ''defaults''" "table \<noteq> ''results''" by blast
  then show ?thesis
  proof cases
    case 1
    with assms obtain g where "cfg' = cfg\<lparr>cf_extras := g\<rparr>" by (auto simp: merge_one_def split: pyval.splits)
    with 1 show ?thesis by (simp add: untouched_updates)
  next
    case 2
    with assms merge_results_frame [of v cfg cfg'] show ?thesis by (auto simp: merge_one_def untouched_updates)
  next
    case 3
    with assms obtain d where "table \<in> set OVERRIDE_TABLES" "merge_table table d old cfg = Inr cfg'"
      by (auto simp: merge_one_def split: if_splits pyval.splits)
    with merge_table_frame show ?thesis by blast
  qed
qed

lemma merge_from_frame: "merge_from old ovs cfg = Inr cfg' \<Longrightarrow> untouched (fst ` set ovs) cfg cfg'"
proof (induction ovs arbitrary: cfg)
  case (Cons ov ovs)
  then obtain table v cfg1 where ov: "ov = (table, v)" and one: "merge_one table v old cfg = Inr cfg1"
    and rest: "merge_from old ovs cfg1 = Inr cfg'"
    by (cases ov) auto
  from untouched_trans [OF merge_one_frame [OF one] Cons.IH [OF rest]] ov show ?case by simp
qed (simp add: untouched_refl)

lemma overrides_touch_what_they_name: "merge_overrides cfg ovs = Inr cfg' \<Longrightarrow> untouched (fst ` set ovs) cfg cfg'"
  by (simp add: merge_overrides_def merge_from_frame)

lemma empty_override_changes_nothing_witness:
  "case parse_manifest [(''bit'', VDict [(''name'', VStr ''m''), (''entry'', VStr ''a:b'')])] of
     Inl _ \<Rightarrow> False | Inr cfg \<Rightarrow> merge_overrides cfg [(''launch'', VDict [])] = Inr cfg"
proof -
  let ?p = "parse_manifest [(''bit'', VDict [(''name'', VStr ''m''), (''entry'', VStr ''a:b'')])]"
  have "case ?p of Inl _ \<Rightarrow> False | Inr cfg \<Rightarrow> sel_str (lc_default_room (cf_launch cfg)) \<noteq> None"
    by code_simp
  then obtain cfg where p: "?p = Inr cfg" "sel_str (lc_default_room (cf_launch cfg)) \<noteq> None"
    by (auto split: sum.splits)
  have "merge_overrides cfg [(''launch'', VDict [])] = Inr cfg"
    using p by (intro empty_override_changes_nothing [OF p(1)]) (simp_all add: OVERRIDE_TABLES_def)
  with p(1) show ?thesis by simp
qed

text \<open>
  A manifest without an API version cannot have its \<open>bit\<close> table overridden: the raw table holds
  \<open>None\<close> under \<open>requires_terrarium_api\<close>, which its own reader refuses.
\<close>

lemma identity_override_needs_an_api:
  assumes "bi_api (cf_identity cfg) = None" and "''requires_terrarium_api'' \<notin> fst ` set given"
  shows "merge_overrides cfg [(''bit'', VDict given)] \<noteq> Inr cfg'"
proof -
  have "dget (dict_over (raw_identity (cf_identity cfg)) given) ''requires_terrarium_api'' = Some VNone"
    using assms by (simp add: dget_over raw_identity_def opt_value_def)
  then have "parse_identity (VDict (dict_over (raw_identity (cf_identity cfg)) given)) \<noteq> Inr x" for x
    by (auto simp: parse_identity_def get_as_def)
  then show ?thesis
    by (auto simp: merge_overrides_def merge_one_def merge_table_def OVERRIDE_TABLES_def remerge_def
        split: option.splits)
qed

text \<open>Two values that pass: a NaN between invites, and a tempo of zero, which the Bit's constructor divides by.\<close>

lemma nan_interval_is_accepted:
  "\<exists>x. parse_lobby (VDict [(''invite_interval_s'', VFloat NaN)]) = Inr x \<and> lo_invite x = NaN"
  by (simp add: parse_lobby_def lobby_seconds_def tget_def get_as_def and_then_def flt_def)

lemma zero_tempo_is_accepted:
  "\<exists>x. parse_rhythm (VDict [(''bpm'', VInt 0)]) = Inr x \<and> rc_bpm x = Fin 0
    \<and> rhythm_of 0 (nat (rc_beats x)) (nat (rc_cycles x)) 50 0 horizon = None"
  by (simp add: parse_rhythm_def get_as_def and_then_def located_unless_def rhythm_of_def)

end
