(* ===== verification/Bit_Registry.thy ===== *)
theory Bit_Registry
  imports Bit_Config
begin

section \<open>The registry of Bit packages\<close>

text \<open>
  \<open>src/control/bit_registry.py\<close>: the scan of the package directories, the configuration a package is loaded
  with, and the summaries of the load picker. The file system is the argument: a root is absent or a list
  of directories in sorted order, each with its \<open>bit.toml\<close> (absent, no TOML, or the decoded document) and
  the state of the files its assets name. Importing a Bit's module is a parameter. A raise out of the scan
  is \<open>None\<close>.
\<close>

definition TERRARIUM_API :: int where "TERRARIUM_API = 1"

datatype manifest_file = No_Manifest | Bad_Toml | Document "(string, pyval) dict"

datatype asset_state = Asset_Present | Asset_Missing | Asset_Escapes

record package_dir =
  pd_name :: string
  pd_manifest :: manifest_file
  pd_asset :: "string \<Rightarrow> asset_state"

record bit_package =
  bp_name :: string
  bp_config :: bit_manifest
  bp_root :: string
  bp_dir :: string
  bp_import_root :: string

datatype package_problem =
    Root_Not_Found | Not_Toml | Bad_Manifest string | Api_Missing | Api_Mismatch int
  | Asset_Absent string | Asset_Outside string | Duplicate_Name string

record registry =
  rg_packages :: "(string, bit_package) dict"
  rg_errors :: "(string \<times> string \<times> package_problem) list"

definition empty_registry :: registry where
  "empty_registry = \<lparr>rg_packages = [], rg_errors = []\<rparr>"

definition add_error :: "string \<Rightarrow> string \<Rightarrow> package_problem \<Rightarrow> registry \<Rightarrow> registry" where
  "add_error base dir problem reg = reg\<lparr>rg_errors := rg_errors reg @ [(base, dir, problem)]\<rparr>"

subsection \<open>Scanning\<close>

text \<open>The first declared asset that is not a file, or lies outside the package once links are resolved.\<close>

fun asset_problem :: "(string \<Rightarrow> asset_state) \<Rightarrow> (string \<times> string) list \<Rightarrow> package_problem option" where
  "asset_problem state [] = None"
| "asset_problem state ((k, rel) # assets) =
     (case state rel of
        Asset_Missing \<Rightarrow> Some (Asset_Absent k)
      | Asset_Escapes \<Rightarrow> Some (Asset_Outside k)
      | Asset_Present \<Rightarrow> asset_problem state assets)"

definition api_problem :: "bit_manifest \<Rightarrow> package_problem option" where
  "api_problem cfg =
     (case bi_api (cf_identity cfg) of
        None \<Rightarrow> Some Api_Missing
      | Some n \<Rightarrow> if n \<noteq> TERRARIUM_API then Some (Api_Mismatch n) else None)"

definition import_root :: "bool \<Rightarrow> string \<Rightarrow> string" where
  "import_root is_default dir = (if is_default then ''bits.'' @ dir else dir)"

definition admit_package :: "bool \<Rightarrow> string \<Rightarrow> package_dir \<Rightarrow> bit_manifest \<Rightarrow> registry \<Rightarrow> registry" where
  "admit_package is_default base pd cfg reg =
     (let name = bi_name (cf_identity cfg)
      in case first_error [api_problem cfg, asset_problem (pd_asset pd) (cf_assets cfg),
                           refuse (dmem name (rg_packages reg)) (Duplicate_Name name)] of
           Some problem \<Rightarrow> add_error base (pd_name pd) problem reg
         | None \<Rightarrow>
             reg\<lparr>rg_packages := dset name
                   \<lparr>bp_name = name, bp_config = cfg, bp_root = base, bp_dir = pd_name pd,
                    bp_import_root = import_root is_default (pd_name pd)\<rparr> (rg_packages reg)\<rparr>)"

text \<open>A \<open>ManifestError\<close> is recorded; any other exception of the parser leaves the scan.\<close>

definition scan_dir :: "bool \<Rightarrow> string \<Rightarrow> package_dir \<Rightarrow> registry \<Rightarrow> registry option" where
  "scan_dir is_default base pd reg =
     (case pd_manifest pd of
        No_Manifest \<Rightarrow> Some reg
      | Bad_Toml \<Rightarrow> Some (add_error base (pd_name pd) Not_Toml reg)
      | Document doc \<Rightarrow>
          (case parse_manifest doc of
             Inl (Located k) \<Rightarrow> Some (add_error base (pd_name pd) (Bad_Manifest k) reg)
           | Inl _ \<Rightarrow> None
           | Inr cfg \<Rightarrow> Some (admit_package is_default base pd cfg reg)))"

fun scan_dirs :: "bool \<Rightarrow> string \<Rightarrow> package_dir list \<Rightarrow> registry \<Rightarrow> registry option" where
  "scan_dirs is_default base [] reg = Some reg"
| "scan_dirs is_default base (pd # pds) reg = Option.bind (scan_dir is_default base pd reg) (scan_dirs is_default base pds)"

fun scan_roots :: "string \<Rightarrow> (string \<times> package_dir list option) list \<Rightarrow> registry \<Rightarrow> registry option" where
  "scan_roots default_root [] reg = Some reg"
| "scan_roots default_root ((base, dirs) # roots) reg =
     Option.bind
       (case dirs of
          None \<Rightarrow> Some (add_error base [] Root_Not_Found reg)
        | Some pds \<Rightarrow> scan_dirs (base = default_root) base pds reg)
       (scan_roots default_root roots)"

definition scan :: "string \<Rightarrow> (string \<times> package_dir list option) list \<Rightarrow> registry option" where
  "scan default_root roots = scan_roots default_root roots empty_registry"

subsection \<open>Loading from it\<close>

datatype 'a lookup = Found 'a | Key_Error | Manifest_Error string | Other_Error

fun entry_parts :: "string \<Rightarrow> string \<times> string" where
  "entry_parts [] = ([], [])"
| "entry_parts (c # cs) =
     (if c = CHR '':'' then ([], cs) else (case entry_parts cs of (m, k) \<Rightarrow> (c # m, k)))"

definition bit_class :: "(string \<Rightarrow> string \<Rightarrow> 'c option) \<Rightarrow> registry \<Rightarrow> string \<Rightarrow> 'c lookup" where
  "bit_class importer reg name =
     (case dget (rg_packages reg) name of
        None \<Rightarrow> Key_Error
      | Some pkg \<Rightarrow>
          (case entry_parts (bi_entry (cf_identity (bp_config pkg))) of
             (m, cls) \<Rightarrow>
               (case importer (bp_import_root pkg @ ''.'' @ m) cls of
                  None \<Rightarrow> Manifest_Error ''bit.entry''
                | Some c \<Rightarrow> Found c)))"

definition enabled :: "bit_package \<Rightarrow> bool" where
  "enabled pkg \<longleftrightarrow> bi_enabled (cf_identity (bp_config pkg))"

text \<open>\<open>_LazyClassMap\<close>: what the engine looks a Bit up in.\<close>

definition lazy_class :: "(string \<Rightarrow> string \<Rightarrow> 'c option) \<Rightarrow> registry \<Rightarrow> string \<Rightarrow> 'c lookup" where
  "lazy_class importer reg name =
     (case dget (rg_packages reg) name of
        None \<Rightarrow> Key_Error
      | Some pkg \<Rightarrow> if \<not> enabled pkg then Key_Error else bit_class importer reg name)"

definition lazy_names :: "registry \<Rightarrow> string list" where
  "lazy_names reg = map fst (filter (\<lambda>(n, pkg). enabled pkg) (rg_packages reg))"

definition resolve_config :: "registry \<Rightarrow> string \<Rightarrow> (string, pyval) dict \<Rightarrow> bit_manifest lookup" where
  "resolve_config reg name overrides =
     (case dget (rg_packages reg) name of
        None \<Rightarrow> Key_Error
      | Some pkg \<Rightarrow>
          if \<not> enabled pkg then Manifest_Error ''bit.enabled''
          else if overrides = [] then Found (bp_config pkg)
          else (case merge_overrides (bp_config pkg) overrides of
                  Inr cfg \<Rightarrow> Found cfg
                | Inl (Located k) \<Rightarrow> Manifest_Error k
                | Inl _ \<Rightarrow> Other_Error))"

text \<open>What the load picker says of a Bit's roles; fixtures' roles are not counted.\<close>

record role_summary =
  rs_scored :: int
  rs_shared_open :: bool
  rs_jam_open :: bool

definition count_role :: "role \<Rightarrow> role_summary \<Rightarrow> role_summary" where
  "count_role r s =
     (if r_class r = CLASS_ROOM then s
      else if r_class r = JAM then s\<lparr>rs_jam_open := True\<rparr>
      else if \<not> r_scored r then s
      else (case r_capacity r of
              None \<Rightarrow> s\<lparr>rs_scored := rs_scored s + 1, rs_shared_open := (rs_shared_open s \<or> r_class r = SHARED)\<rparr>
            | Some n \<Rightarrow> s\<lparr>rs_scored := rs_scored s + n\<rparr>))"

definition summarise :: "role_table \<Rightarrow> role_summary" where
  "summarise table =
     foldl (\<lambda>s (n, r). count_role r s) \<lparr>rs_scored = 0, rs_shared_open = False, rs_jam_open = False\<rparr> (rt_roles table)"

definition listed :: "bool \<Rightarrow> registry \<Rightarrow> string list" where
  "listed include_hidden reg =
     filter (\<lambda>n. case dget (rg_packages reg) n of
                   None \<Rightarrow> False
                 | Some pkg \<Rightarrow> include_hidden \<or> \<not> cb_hidden (cf_console (bp_config pkg)))
       (sort (dkeys (rg_packages reg)))"

subsection \<open>What a registry holds\<close>

definition package_ok :: "string \<Rightarrow> bit_package \<Rightarrow> bool" where
  "package_ok name pkg \<longleftrightarrow> bp_name pkg = name \<and> bi_name (cf_identity (bp_config pkg)) = name
     \<and> bi_api (cf_identity (bp_config pkg)) = Some TERRARIUM_API \<and> config_ok (bp_config pkg)"

definition registry_ok :: "registry \<Rightarrow> bool" where
  "registry_ok reg \<longleftrightarrow> (\<forall>name pkg. dget (rg_packages reg) name = Some pkg \<longrightarrow> package_ok name pkg)"

text \<open>A registry only grows: a name belongs to the package that claimed it first.\<close>

definition extends :: "registry \<Rightarrow> registry \<Rightarrow> bool" where
  "extends reg reg' \<longleftrightarrow>
     (\<forall>name pkg. dget (rg_packages reg) name = Some pkg \<longrightarrow> dget (rg_packages reg') name = Some pkg)"

lemma parsed_config_ok: "parse_manifest doc = Inr cfg \<Longrightarrow> config_ok cfg"
  using identity_accepted launch_accepted start_accepted lobby_accepted assets_accepted
  by (auto simp: parse_manifest_def config_ok_def)

lemma add_error_keeps [simp]: "rg_packages (add_error base dir problem reg) = rg_packages reg"
  by (simp add: add_error_def)

lemma admit_package_step:
  assumes "config_ok cfg" and "registry_ok reg"
  shows "registry_ok (admit_package is_default base pd cfg reg) \<and> extends reg (admit_package is_default base pd cfg reg)"
proof (cases "api_problem cfg = None \<and> asset_problem (pd_asset pd) (cf_assets cfg) = None
    \<and> \<not> dmem (bi_name (cf_identity cfg)) (rg_packages reg)")
  case True
  then have "bi_api (cf_identity cfg) = Some TERRARIUM_API"
    by (auto simp: api_problem_def split: option.splits if_splits)
  with True assms show ?thesis
    by (auto simp: admit_package_def refuse_def registry_ok_def extends_def package_ok_def Let_def dmem_iff_get)
next
  case False
  then have "rg_packages (admit_package is_default base pd cfg reg) = rg_packages reg"
    by (auto simp: admit_package_def refuse_def Let_def split: option.split)
  with assms(2) show ?thesis by (simp add: registry_ok_def extends_def)
qed

lemma extends_trans: "extends a b \<Longrightarrow> extends b c \<Longrightarrow> extends a c"
  by (simp add: extends_def)

lemma extends_same: "rg_packages reg' = rg_packages reg \<Longrightarrow> extends reg reg'"
  by (simp add: extends_def)

lemma scan_dir_step:
  assumes "scan_dir is_default base pd reg = Some reg'" and "registry_ok reg"
  shows "registry_ok reg' \<and> extends reg reg'"
proof (cases "pd_manifest pd")
  case (Document doc)
  show ?thesis
  proof (cases "parse_manifest doc")
    case (Inl e)
    with assms Document have "rg_packages reg' = rg_packages reg"
      by (auto simp: scan_dir_def split: config_error.splits)
    with assms(2) show ?thesis by (simp add: registry_ok_def extends_same)
  next
    case (Inr cfg)
    with assms Document admit_package_step [OF parsed_config_ok [OF Inr]] show ?thesis
      by (auto simp: scan_dir_def)
  qed
qed (use assms in \<open>auto simp: scan_dir_def registry_ok_def extends_def\<close>)

lemma scan_dirs_step: "scan_dirs is_default base pds reg = Some reg' \<Longrightarrow> registry_ok reg \<Longrightarrow> registry_ok reg' \<and> extends reg reg'"
proof (induction pds arbitrary: reg)
  case (Cons pd pds)
  then obtain reg1 where r: "scan_dir is_default base pd reg = Some reg1" "scan_dirs is_default base pds reg1 = Some reg'"
    by (auto simp: bind_eq_Some_conv)
  from scan_dir_step [OF r(1) Cons.prems(2)] Cons.IH [OF r(2)] extends_trans show ?case by blast
qed (simp add: extends_def)

lemma scan_roots_step: "scan_roots dr roots reg = Some reg' \<Longrightarrow> registry_ok reg \<Longrightarrow> registry_ok reg' \<and> extends reg reg'"
proof (induction roots arbitrary: reg)
  case (Cons r roots)
  obtain base dirs where r: "r = (base, dirs)" by (cases r)
  show ?case
  proof (cases dirs)
    case None
    with Cons.prems r have "scan_roots dr roots (add_error base [] Root_Not_Found reg) = Some reg'" by simp
    moreover have "registry_ok (add_error base [] Root_Not_Found reg)" using Cons.prems(2) by (simp add: registry_ok_def)
    ultimately show ?thesis using Cons.IH extends_trans extends_same [of "add_error base [] Root_Not_Found reg" reg] by auto
  next
    case (Some pds)
    with Cons.prems r obtain reg1 where s: "scan_dirs (base = dr) base pds reg = Some reg1" "scan_roots dr roots reg1 = Some reg'"
      by (auto simp: bind_eq_Some_conv)
    from scan_dirs_step [OF s(1) Cons.prems(2)] Cons.IH [OF s(2)] extends_trans show ?thesis by blast
  qed
qed (simp add: extends_def)

text \<open>
  Every package of a scan is filed under its own name, made for this API and valid, and so is every
  configuration it is loaded with, whatever the overrides.
\<close>
theorem loaded_configs_are_valid:
  assumes "scan default_root roots = Some reg" and "resolve_config reg name overrides = Found cfg"
  shows "config_ok cfg \<and> name \<in> set (lazy_names reg)"
proof -
  have "registry_ok reg"
    using scan_roots_step [OF assms(1) [unfolded scan_def]] by (simp add: registry_ok_def empty_registry_def)
  moreover from assms(2) obtain pkg where p: "dget (rg_packages reg) name = Some pkg" "enabled pkg"
    and c: "cfg = bp_config pkg \<or> merge_overrides (bp_config pkg) overrides = Inr cfg"
    by (auto simp: resolve_config_def split: option.splits if_splits sum.splits config_error.splits)
  ultimately have "config_ok (bp_config pkg)" by (auto simp: registry_ok_def package_ok_def)
  with c merge_from_ok have "config_ok cfg" by (auto simp: merge_overrides_def)
  moreover have "name \<in> set (lazy_names reg)"
    using p by (force simp: lazy_names_def dest: map_of_SomeD)
  ultimately show ?thesis ..
qed

text \<open>The first root that names a Bit keeps the name, whatever later roots hold.\<close>

lemma scan_roots_append: "scan_roots dr (roots @ later) reg = Option.bind (scan_roots dr roots reg) (scan_roots dr later)"
proof (induction roots arbitrary: reg)
  case (Cons r roots)
  obtain base dirs where "r = (base, dirs)" by (cases r)
  moreover have "scan_roots dr (roots @ later) = (\<lambda>reg. Option.bind (scan_roots dr roots reg) (scan_roots dr later))"
    using Cons.IH by (rule ext)
  ultimately show ?case by (cases dirs) simp_all
qed simp

lemma first_root_wins:
  assumes "scan dr roots = Some reg" and "scan dr (roots @ later) = Some reg'"
    and "dget (rg_packages reg) name = Some pkg"
  shows "dget (rg_packages reg') name = Some pkg"
proof -
  have "registry_ok reg"
    using scan_roots_step [OF assms(1) [unfolded scan_def]] by (simp add: registry_ok_def empty_registry_def)
  moreover have "scan_roots dr later reg = Some reg'"
    using assms(1,2) by (simp add: scan_def scan_roots_append)
  ultimately have "extends reg reg'" using scan_roots_step by blast
  with assms(3) show ?thesis by (simp add: extends_def)
qed

definition one_root :: "(string \<times> package_dir list option) list" where
  "one_root = [(''bits'', Some [\<lparr>pd_name = ''m'', pd_manifest = Document [(''bit'', VDict [(''name'', VStr ''M''),
     (''entry'', VStr ''m:M''), (''requires_terrarium_api'', VInt 1)])], pd_asset = (\<lambda>_. Asset_Missing)\<rparr>])]"

lemma loaded_configs_are_valid_witness:
  "\<exists>reg cfg. scan ''bits'' one_root = Some reg
    \<and> resolve_config reg ''M'' [(''start'', VDict [(''when'', VStr ''operator'')])] = Found cfg
    \<and> config_ok cfg \<and> ''M'' \<in> set (lazy_names reg)"
proof -
  have "case scan ''bits'' one_root of None \<Rightarrow> False
      | Some reg \<Rightarrow> (case resolve_config reg ''M'' [(''start'', VDict [(''when'', VStr ''operator'')])] of
          Found _ \<Rightarrow> True | _ \<Rightarrow> False)"
    by code_simp
  then obtain reg cfg where "scan ''bits'' one_root = Some reg"
    and "resolve_config reg ''M'' [(''start'', VDict [(''when'', VStr ''operator'')])] = Found cfg"
    by (auto split: option.splits lookup.splits)
  with loaded_configs_are_valid [OF this] show ?thesis by blast
qed

text \<open>
  One package can take the whole scan down: a table of \<open>bit.toml\<close> that is a number makes the reader raise
  something that is no \<open>ManifestError\<close>.
\<close>

lemma numeric_table_escapes_the_scan:
  "scan dr [(base, Some [\<lparr>pd_name = ''a'', pd_manifest = Document [(''bit'', VInt 5)], pd_asset = state\<rparr>])] = None"
  by (simp add: scan_def scan_dir_def parse_manifest_def parse_identity_def tget_def and_then_def)

end
