(* ===== verification/Prepare.thy ===== *)
theory Prepare
  imports Bit_Registry Engine_Facts
begin

section \<open>Preparing a Bit over the LAN\<close>

text \<open>
  \<open>src/control/prepare.py\<close>, and the drain of its queue in \<open>src/devicelink/agent.py\<close>: a keyed request to load a Bit
  into the lobby. It joins the registry, whose package says which key starts the Bit, and the engine, which
  loads it. The hooks of a Bit depend on the configuration it is made with: \<open>envs\<close>. The token of the
  round id is an argument.
\<close>

datatype prepare_action = ACTION_LOAD | ACTION_NOOP | ACTION_NONE

datatype prepare_reason =
    REASON_NO_ROOM | REASON_BAD_KEY | REASON_BUSY | Raised_Text | Prepare_Failed | Not_Wired

record prepare_decision =
  pr_accepted :: bool
  pr_reason :: "prepare_reason option"
  pr_action :: prepare_action
  pr_visible :: bool

record prepare_query =
  pq_key :: "string option"
  pq_bit :: string
  pq_dev :: "dev option"

definition refuse_prepare :: "prepare_reason \<Rightarrow> bool \<Rightarrow> prepare_decision" where
  "refuse_prepare why visible =
     \<lparr>pr_accepted = False, pr_reason = Some why, pr_action = ACTION_NONE, pr_visible = visible\<rparr>"

definition accept_prepare :: "prepare_action \<Rightarrow> prepare_decision" where
  "accept_prepare a = \<lparr>pr_accepted = True, pr_reason = None, pr_action = a, pr_visible = True\<rparr>"

definition decide_prepare ::
  "bool \<Rightarrow> gs_state \<Rightarrow> string option \<Rightarrow> string \<Rightarrow> start_config option \<Rightarrow> string option \<Rightarrow> prepare_decision" where
  "decide_prepare room_ready st loaded_bit name start key =
     (if \<not> room_ready then refuse_prepare REASON_NO_ROOM True
      else case start of
             None \<Rightarrow> refuse_prepare REASON_BAD_KEY False
           | Some s \<Rightarrow>
               if st_when s \<noteq> Admin \<or> st_key s = None \<or> st_key s = Some [] \<or> key = None \<or> key \<noteq> st_key s
               then refuse_prepare REASON_BAD_KEY False
               else if st = IDLE then accept_prepare ACTION_LOAD
               else if st = SETUP \<and> loaded_bit = Some name then accept_prepare ACTION_NOOP
               else refuse_prepare REASON_BUSY True)"

text \<open>What the engine's observers are told of an attempt.\<close>

record prepare_requested =
  pn_dev :: "dev option"
  pn_bit :: string
  pn_accepted :: bool
  pn_reason :: "prepare_reason option"

definition told_of :: "prepare_query \<Rightarrow> prepare_decision \<Rightarrow> prepare_requested" where
  "told_of req d = \<lparr>pn_dev = pq_dev req, pn_bit = pq_bit req, pn_accepted = pr_accepted d, pn_reason = pr_reason d\<rparr>"

text \<open>
  \<open>PrepareAuthority.request\<close>. The errors of the registry and of \<open>load_bit\<close> that it names become a visible
  refusal; what it does not name leaves it, and nobody is told. \<open>caught\<close> says of each Bit whether what its
  \<open>on_setup_enter\<close> raises is a \<open>KeyError\<close> or a \<open>ManifestError\<close>, which the clause names too.
\<close>

definition load_prepared ::
  "(string \<Rightarrow> bool) \<Rightarrow> registry \<Rightarrow> (bit_manifest \<Rightarrow> 'b env) \<Rightarrow> string \<Rightarrow> string \<Rightarrow> 'b engine \<Rightarrow> 'b engine \<times> prepare_decision outcome" where
  "load_prepared caught reg envs name token e =
     (case resolve_config reg name [] of
        Found cfg \<Rightarrow>
          (case load_bit (envs cfg) name token e of
             (e', Ok _) \<Rightarrow> (e', Ret (accept_prepare ACTION_LOAD))
           | (e', Err Uncaught) \<Rightarrow> (e', if caught name then Ret (refuse_prepare Raised_Text True) else Raised)
           | (e', Err _) \<Rightarrow> (e', Ret (refuse_prepare Raised_Text True)))
      | Other_Error \<Rightarrow> (e, Raised)
      | _ \<Rightarrow> (e, Ret (refuse_prepare Raised_Text True)))"

definition package_start :: "registry \<Rightarrow> string \<Rightarrow> start_config option" where
  "package_start reg name = map_option (\<lambda>pkg. cf_start (bp_config pkg)) (dget (rg_packages reg) name)"

definition prepare_request ::
  "(string \<Rightarrow> bool) \<Rightarrow> registry \<Rightarrow> (bit_manifest \<Rightarrow> 'b env) \<Rightarrow> bool \<Rightarrow> prepare_query \<Rightarrow> string \<Rightarrow> 'b engine \<Rightarrow>
   'b engine \<times> prepare_decision outcome \<times> prepare_requested list" where
  "prepare_request caught reg envs room_ready req token e =
     (let d = decide_prepare room_ready (e_state e) (e_bit_name e) (pq_bit req) (package_start reg (pq_bit req)) (pq_key req)
      in case (if pr_action d = ACTION_LOAD then load_prepared caught reg envs (pq_bit req) token e else (e, Ret d)) of
           (e', Ret d') \<Rightarrow> (e', Ret d', [told_of req d'])
         | (e', Raised) \<Rightarrow> (e', Raised, []))"

text \<open>The agent's drain: the reply to each queued request, in order.\<close>

record prepare_reply =
  pl_accepted :: bool
  pl_reason :: "prepare_reason option"
  pl_visible :: bool

definition reply_of :: "prepare_decision outcome \<Rightarrow> prepare_reply" where
  "reply_of out =
     (case out of
        Ret d \<Rightarrow> \<lparr>pl_accepted = pr_accepted d, pl_reason = pr_reason d, pl_visible = pr_visible d\<rparr>
      | Raised \<Rightarrow> \<lparr>pl_accepted = False, pl_reason = Some Prepare_Failed, pl_visible = True\<rparr>)"

fun drain_prepares ::
  "(string \<Rightarrow> bool) \<Rightarrow> (registry \<times> (bit_manifest \<Rightarrow> 'b env) \<times> bool) option \<Rightarrow> (prepare_query \<times> string) list \<Rightarrow> 'b engine \<Rightarrow>
   'b engine \<times> prepare_reply list" where
  "drain_prepares caught authority [] e = (e, [])"
| "drain_prepares caught authority ((req, token) # reqs) e =
     (case authority of
        None \<Rightarrow>
          (let rest = drain_prepares caught authority reqs e
           in (fst rest, \<lparr>pl_accepted = False, pl_reason = Some Not_Wired, pl_visible = True\<rparr> # snd rest))
      | Some (reg, envs, room_ready) \<Rightarrow>
          (let step = prepare_request caught reg envs room_ready req token e;
               rest = drain_prepares caught authority reqs (fst step)
           in (fst rest, reply_of (fst (snd step)) # snd rest)))"

subsection \<open>What a reply means\<close>

lemma decided_by_key:
  assumes "pr_accepted (decide_prepare room_ready st loaded name start key)"
  shows "room_ready \<and> (\<exists>s k. start = Some s \<and> st_when s = Admin \<and> key = Some k \<and> st_key s = Some k \<and> k \<noteq> [])
    \<and> (st = IDLE \<or> (st = SETUP \<and> loaded = Some name))"
  using assms
  by (auto simp: decide_prepare_def refuse_prepare_def accept_prepare_def split: if_splits option.splits)

lemma on_bit_book: "on_bit h e = (e', r) \<Longrightarrow> e_bit_name e' = e_bit_name e \<and> e_state e' = e_state e"
  by (auto simp: on_bit_def split: option.splits prod.splits)

lemma loaded_bit_name:
  assumes "load_bit env name token e = (e', Ok ())"
  shows "e_bit_name e' = Some name \<and> e_state e' = SETUP"
proof -
  from loaded_engine [OF assms] obtain ld where "prepare_bit env name (set_state LOADING e) = Some ld" and st: "e_state e' = SETUP"
    by blast
  with assms have "e_bit_name e' = Some name"
    unfolding load_bit_def Let_def
    by (simp add: set_state_def notify_def split: if_splits outcome.splits prod.splits) (auto dest!: on_bit_book)
  with st show ?thesis by blast
qed

lemma prepare_cases:
  assumes "prepare_request caught reg envs room_ready req token e = (e', Ret d, told)"
  defines "d0 \<equiv> decide_prepare room_ready (e_state e) (e_bit_name e) (pq_bit req) (package_start reg (pq_bit req)) (pq_key req)"
  shows "(pr_action d0 \<noteq> ACTION_LOAD \<and> d = d0 \<and> e' = e)
    \<or> (pr_action d0 = ACTION_LOAD \<and> pr_visible d
        \<and> (pr_accepted d \<longrightarrow> (\<exists>cfg. load_bit (envs cfg) (pq_bit req) token e = (e', Ok ()))))"
proof (cases "pr_action d0 = ACTION_LOAD")
  case True
  with assms(1) have "load_prepared caught reg envs (pq_bit req) token e = (e', Ret d)"
    unfolding prepare_request_def Let_def d0_def by (auto split: prod.splits outcome.splits)
  with True show ?thesis
    by (auto simp: load_prepared_def accept_prepare_def refuse_prepare_def
        split: lookup.splits prod.splits res.splits fault.splits if_splits)
next
  case False
  with assms(1) show ?thesis
    unfolding prepare_request_def Let_def d0_def by auto
qed

text \<open>
  C40: An accepted prepare is an authorised one, and its Bit is up. It came while the Room was ready, with the
  non-empty key of a known Bit that takes an admin start; the engine was IDLE, or in SETUP with this very Bit,
  which is then left as it was; and now it is in SETUP with that Bit.
\<close>
theorem accepted_prepare_is_authorised:
  assumes "prepare_request caught reg envs room_ready req token e = (e', Ret d, told)" and "pr_accepted d"
  shows "room_ready
    \<and> (\<exists>pkg k. dget (rg_packages reg) (pq_bit req) = Some pkg \<and> st_when (cf_start (bp_config pkg)) = Admin
          \<and> st_key (cf_start (bp_config pkg)) = Some k \<and> pq_key req = Some k \<and> k \<noteq> [])
    \<and> (e_state e = IDLE \<or> e' = e) \<and> e_state e' = SETUP \<and> e_bit_name e' = Some (pq_bit req)"
proof -
  let ?d = "decide_prepare room_ready (e_state e) (e_bit_name e) (pq_bit req) (package_start reg (pq_bit req)) (pq_key req)"
  have load: "pr_action ?d = ACTION_LOAD \<Longrightarrow> pr_accepted ?d \<and> e_state e = IDLE"
    by (auto simp: decide_prepare_def accept_prepare_def refuse_prepare_def split: if_splits option.splits)
  have noop: "pr_action ?d \<noteq> ACTION_LOAD \<Longrightarrow> pr_accepted ?d \<Longrightarrow> e_state e = SETUP"
    by (auto simp: decide_prepare_def accept_prepare_def refuse_prepare_def split: if_splits option.splits)
  from prepare_cases [OF assms(1)] assms(2) load have "pr_accepted ?d" by blast
  note by_key = decided_by_key [OF this]
  show ?thesis
  proof (cases "pr_action ?d = ACTION_LOAD")
    case True
    with prepare_cases [OF assms(1)] assms(2) obtain cfg where "load_bit (envs cfg) (pq_bit req) token e = (e', Ok ())" by blast
    with by_key load [OF True] loaded_bit_name show ?thesis by (fastforce simp: package_start_def)
  next
    case False
    with prepare_cases [OF assms(1)] have "e' = e" by blast
    with by_key noop [OF False \<open>pr_accepted ?d\<close>] show ?thesis by (auto simp: package_start_def)
  qed
qed

text \<open>
  A refusal that is not shown to the caller changes nothing: whoever has no key learns nothing and moves
  nothing.
\<close>
theorem silent_refusal_changes_nothing:
  assumes "prepare_request caught reg envs room_ready req token e = (e', Ret d, told)" and "\<not> pr_visible d"
  shows "e' = e \<and> \<not> pr_accepted d \<and> pr_reason d = Some REASON_BAD_KEY"
proof -
  let ?d = "decide_prepare room_ready (e_state e) (e_bit_name e) (pq_bit req) (package_start reg (pq_bit req)) (pq_key req)"
  from prepare_cases [OF assms(1)] assms(2) have "d = ?d" "e' = e" by blast+
  with assms(2) show ?thesis
    by (auto simp: decide_prepare_def accept_prepare_def refuse_prepare_def split: if_splits option.splits)
qed

text \<open>Examples: a registry of one Bit with the key \<open>k\<close>, and the engine of the examples.\<close>

definition demo_packages :: "(string \<times> package_dir list option) list" where
  "demo_packages = [(''bits'', Some [\<lparr>pd_name = ''demo'', pd_manifest = Document [(''bit'', VDict [(''name'', VStr ''Demo''),
     (''entry'', VStr ''m:M''), (''requires_terrarium_api'', VInt 1)]),
     (''start'', VDict [(''when'', VStr ''admin''), (''key'', VStr ''k'')])], pd_asset = (\<lambda>_. Asset_Missing)\<rparr>])]"

definition demo_registry :: registry where
  "demo_registry = the (scan ''bits'' demo_packages)"

definition keyed :: "string option \<Rightarrow> prepare_query" where
  "keyed k = \<lparr>pq_key = k, pq_bit = ''Demo'', pq_dev = None\<rparr>"

lemma accepted_prepare_is_authorised_witness:
  "e_state (fst (prepare_request (\<lambda>_. False) demo_registry (\<lambda>_. demo_env [(''glow'', glow)]) True (keyed (Some ''k'')) ''c0ffee'' demo_idle)) = SETUP"
proof -
  let ?r = "prepare_request (\<lambda>_. False) demo_registry (\<lambda>_. demo_env [(''glow'', glow)]) True (keyed (Some ''k'')) ''c0ffee'' demo_idle"
  have "case fst (snd ?r) of Ret d \<Rightarrow> pr_accepted d | Raised \<Rightarrow> False" by code_simp
  then obtain d where "?r = (fst ?r, Ret d, snd (snd ?r))" and "pr_accepted d"
    by (cases ?r) (auto split: outcome.splits)
  from accepted_prepare_is_authorised [OF this] show ?thesis by blast
qed

lemma silent_refusal_changes_nothing_witness:
  "fst (prepare_request (\<lambda>_. False) demo_registry (\<lambda>_. demo_env [(''glow'', glow)]) True (keyed (Some ''x'')) ''c0ffee'' demo_idle) = demo_idle"
proof -
  let ?r = "prepare_request (\<lambda>_. False) demo_registry (\<lambda>_. demo_env [(''glow'', glow)]) True (keyed (Some ''x'')) ''c0ffee'' demo_idle"
  have "case fst (snd ?r) of Ret d \<Rightarrow> \<not> pr_visible d | Raised \<Rightarrow> False" by code_simp
  then obtain d where "?r = (fst ?r, Ret d, snd (snd ?r))" and "\<not> pr_visible d"
    by (cases ?r) (auto split: outcome.splits)
  from silent_refusal_changes_nothing [OF this] show ?thesis by blast
qed

text \<open>
  Where it does raise. A Bit whose \<open>on_setup_enter\<close> raises what the clause does not name is loaded all the same:
  the request raises, no observer is told, and the caller reads that the prepare failed, while the engine is
  in SETUP.
\<close>

lemma uncaught_load_escapes:
  assumes "\<not> caught (pq_bit req)" and "resolve_config reg (pq_bit req) [] = Found cfg"
    and "load_bit (envs cfg) (pq_bit req) token e = (e', Err Uncaught)"
    and "pr_action (decide_prepare room_ready (e_state e) (e_bit_name e) (pq_bit req) (package_start reg (pq_bit req)) (pq_key req))
      = ACTION_LOAD"
  shows "prepare_request caught reg envs room_ready req token e = (e', Raised, []) \<and> e_state e' = SETUP"
proof -
  have "load_prepared caught reg envs (pq_bit req) token e = (e', Raised)"
    using assms(1,2,3) by (simp add: load_prepared_def)
  with assms(4) have "prepare_request caught reg envs room_ready req token e = (e', Raised, [])"
    by (simp add: prepare_request_def Let_def)
  moreover have "e_state e' = SETUP"
    using assms(3) unfolding load_bit_def Let_def
    by (simp add: set_state_def notify_def split: if_splits option.splits outcome.splits prod.splits) (auto dest!: on_bit_book)
  ultimately show ?thesis by blast
qed

end
