(* ===== verification/Run_Record.thy ===== *)
theory Run_Record
  imports Process
begin

section \<open>Run records and the stale sweep\<close>

text \<open>
  \<open>src/control/run_record.py\<close>: the records of spawned processes in \<open>runs/<run-id>/procs.jsonl\<close>, and the sweep that
  kills what a crashed run left behind. The record files are a list in the order \<open>glob\<close> sorts them, a file is the
  list of its lines as \<open>json.loads\<close> reads them. The operating system is a record of operations on a world; the
  default ones are given on a process table, where \<open>stop\<close> is \<open>stop_process\<close> on a bare pid. Deleting a
  file is taken not to fail.
\<close>

subsection \<open>Records\<close>

record spawn_record =
  rr_pid :: int
  rr_spawn :: rat
  rr_role :: string

text \<open>A line: blank, no JSON or no record (which raises), or a record.\<close>

datatype record_line = Blank | Garbage | Line spawn_record

fun read_records :: "record_line list \<Rightarrow> spawn_record list option" where
  "read_records [] = Some []"
| "read_records (Blank # ls) = read_records ls"
| "read_records (Garbage # ls) = None"
| "read_records (Line r # ls) = map_option (Cons r) (read_records ls)"

type_synonym record_files = "(string \<times> record_line list) list"

text \<open>\<open>RunRecorder.record\<close> appends a line to its own file.\<close>

definition record_spawn :: "string \<Rightarrow> spawn_record \<Rightarrow> (string, record_line list) dict \<Rightarrow> (string, record_line list) dict" where
  "record_spawn path r files =
     dset path ((case dget files path of None \<Rightarrow> [] | Some ls \<Rightarrow> ls) @ [Line r]) files"

fun load_all :: "record_files \<Rightarrow> spawn_record list option" where
  "load_all [] = Some []"
| "load_all ((path, ls) # files) =
     (case read_records ls of None \<Rightarrow> None | Some rs \<Rightarrow> map_option ((@) rs) (load_all files))"

subsection \<open>The sweep\<close>

definition SPAWN_TIME_TOLERANCE :: rat where "SPAWN_TIME_TOLERANCE = 2"

definition SUPERVISOR :: string where "SUPERVISOR = ''supervisor''"

record 'w sweep_ops =
  so_alive :: "int \<Rightarrow> 'w \<Rightarrow> bool"
  so_spawn_time :: "int \<Rightarrow> 'w \<Rightarrow> rat option"
  so_stop :: "int \<Rightarrow> 'w \<Rightarrow> 'w \<times> int option outcome"

text \<open>The recorded spawn time against the one the pid has now: the guard against a recycled pid.\<close>

definition same_process :: "spawn_record \<Rightarrow> rat option \<Rightarrow> bool" where
  "same_process r now \<longleftrightarrow> (case now of None \<Rightarrow> False | Some t \<Rightarrow> \<bar>t - rr_spawn r\<bar> \<le> SPAWN_TIME_TOLERANCE)"

definition live_supervisor :: "'w sweep_ops \<Rightarrow> spawn_record list \<Rightarrow> 'w \<Rightarrow> spawn_record option" where
  "live_supervisor ops rs w =
     (case List.find (\<lambda>r. rr_role r = SUPERVISOR) rs of
        None \<Rightarrow> None
      | Some s \<Rightarrow>
          if so_alive ops (rr_pid s) w \<and> same_process s (so_spawn_time ops (rr_pid s) w) then Some s else None)"

record live_run =
  lr_dir :: string
  lr_supervisor :: spawn_record
  lr_records :: "spawn_record list"

fun live_supervisors :: "'w sweep_ops \<Rightarrow> record_files \<Rightarrow> 'w \<Rightarrow> live_run list option" where
  "live_supervisors ops [] w = Some []"
| "live_supervisors ops ((path, ls) # files) w =
     (case read_records ls of
        None \<Rightarrow> None
      | Some rs \<Rightarrow>
          map_option
            ((@) (case live_supervisor ops rs w of
                    None \<Rightarrow> []
                  | Some s \<Rightarrow> [\<lparr>lr_dir = path, lr_supervisor = s, lr_records = filter (\<lambda>r. rr_role r \<noteq> SUPERVISOR) rs\<rparr>]))
            (live_supervisors ops files w))"

text \<open>The records of one file: the world, the records acted on, and whether every one was handled.\<close>

fun sweep_records :: "'w sweep_ops \<Rightarrow> spawn_record list \<Rightarrow> 'w \<Rightarrow> 'w \<times> spawn_record list \<times> bool" where
  "sweep_records ops [] w = (w, [], True)"
| "sweep_records ops (r # rs) w =
     (if \<not> so_alive ops (rr_pid r) w then sweep_records ops rs w
      else if \<not> same_process r (so_spawn_time ops (rr_pid r) w)
      then (case sweep_records ops rs w of (w', acted, _) \<Rightarrow> (w', acted, False))
      else (case so_stop ops (rr_pid r) w of
              (w1, Raised) \<Rightarrow> (case sweep_records ops rs w1 of (w', acted, _) \<Rightarrow> (w', acted, False))
            | (w1, Ret code) \<Rightarrow> (case sweep_records ops rs w1 of (w', acted, handled) \<Rightarrow> (w', r # acted, handled))))"

text \<open>All files: the world, the files left, the records acted on, and whether a file could not be read.\<close>

fun sweep_stale :: "'w sweep_ops \<Rightarrow> record_files \<Rightarrow> 'w \<Rightarrow> 'w \<times> record_files \<times> spawn_record list \<times> bool" where
  "sweep_stale ops [] w = (w, [], [], False)"
| "sweep_stale ops ((path, ls) # files) w =
     (case read_records ls of
        None \<Rightarrow> (w, (path, ls) # files, [], True)
      | Some rs \<Rightarrow>
          if live_supervisor ops rs w \<noteq> None
          then (case sweep_stale ops files w of (w', left, acted, raised) \<Rightarrow> (w', (path, ls) # left, acted, raised))
          else (case sweep_records ops rs w of
                  (w1, acted1, handled) \<Rightarrow>
                    (case sweep_stale ops files w1 of
                       (w', left, acted, raised) \<Rightarrow>
                         (w', (if handled then left else (path, ls) # left), acted1 @ acted, raised))))"

subsection \<open>The operating system\<close>

text \<open>
  A process has a start time; it may belong to somebody else, ignore \<open>SIGTERM\<close>, or be stuck where no signal
  reaches it.
\<close>

record os_process =
  op_start :: rat
  op_foreign :: bool
  op_ignores :: bool
  op_stuck :: bool

record os_world =
  os_procs :: "(int, os_process) dict"
  os_reaped :: bool
  os_time :: rat

text \<open>\<open>_PidHandle\<close>. A signal to a foreign process raises, which \<open>default_stop\<close> decides before it sends one.\<close>

definition handle_poll :: "int \<Rightarrow> os_world \<Rightarrow> os_world \<times> int option" where
  "handle_poll pid w =
     (if os_reaped w then (w, Some 0)
      else if \<not> dmem pid (os_procs w) then (w\<lparr>os_reaped := True\<rparr>, Some 0)
      else (w, None))"

definition handle_signal :: "int \<Rightarrow> signal \<Rightarrow> os_world \<Rightarrow> os_world" where
  "handle_signal pid sig w =
     (case dget (os_procs w) pid of
        None \<Rightarrow> w\<lparr>os_reaped := True\<rparr>
      | Some p \<Rightarrow>
          if op_stuck p \<or> (op_ignores p \<and> sig \<noteq> SIGKILL) then w
          else w\<lparr>os_procs := dpop pid (os_procs w)\<rparr>)"

definition pid_handle :: "int \<Rightarrow> os_world child_ops" where
  "pid_handle pid =
     \<lparr>co_poll = handle_poll pid, co_signal = handle_signal pid, co_clock = (\<lambda>w. (w, os_time w)),
      co_sleep = (\<lambda>d w. w\<lparr>os_time := os_time w + d\<rparr>)\<rparr>"

definition foreign :: "int \<Rightarrow> os_world \<Rightarrow> bool" where
  "foreign pid w \<longleftrightarrow> (case dget (os_procs w) pid of None \<Rightarrow> False | Some p \<Rightarrow> op_foreign p)"

definition default_stop :: "int \<Rightarrow> os_world \<Rightarrow> os_world \<times> int option outcome" where
  "default_stop pid w =
     (if foreign pid w then (w, Raised)
      else case stop_process (pid_handle pid) SIGTERM 5 5 (w\<lparr>os_reaped := False\<rparr>) of
             None \<Rightarrow> (w, Raised)
           | Some (w', code) \<Rightarrow> (w', Ret code))"

definition default_ops :: "os_world sweep_ops" where
  "default_ops =
     \<lparr>so_alive = (\<lambda>pid w. dmem pid (os_procs w)),
      so_spawn_time = (\<lambda>pid w. map_option op_start (dget (os_procs w) pid)),
      so_stop = default_stop\<rparr>"

subsection \<open>What the sweep owes the machine it runs on\<close>

text \<open>Whether a process is named, by its pid and its spawn time.\<close>

definition names :: "spawn_record list \<Rightarrow> int \<Rightarrow> rat option \<Rightarrow> bool" where
  "names rs p t \<longleftrightarrow> list_ex (\<lambda>r. rr_pid r = p \<and> same_process r t) rs"

definition file_names :: "record_line list \<Rightarrow> int \<Rightarrow> rat option \<Rightarrow> bool" where
  "file_names ls p t \<longleftrightarrow> (case read_records ls of None \<Rightarrow> False | Some rs \<Rightarrow> names rs p t)"

locale process_table =
  fixes ops :: "'w sweep_ops"
    and procs :: "'w \<Rightarrow> int \<Rightarrow> rat option"
  assumes alive: "so_alive ops p w \<longleftrightarrow> procs w p \<noteq> None"
    and spawn_time: "so_spawn_time ops p w = procs w p"
    and stop_other: "q \<noteq> p \<Longrightarrow> procs (fst (so_stop ops p w)) q = procs w q"
    and stop_gone: "procs w p = None \<Longrightarrow> procs (fst (so_stop ops p w)) p = None"
begin

text \<open>A process none of the records names is left alone.\<close>

lemma records_spare:
  "\<not> names rs p (procs w p) \<Longrightarrow> procs (fst (sweep_records ops rs w)) p = procs w p"
proof (induction rs arbitrary: w)
  case (Cons r rs)
  have rest: "\<not> names rs p (procs w p)" using Cons.prems by (simp add: names_def)
  show ?case
  proof (cases "so_alive ops (rr_pid r) w \<and> same_process r (so_spawn_time ops (rr_pid r) w)")
    case True
    with Cons.prems have "rr_pid r \<noteq> p" by (auto simp: names_def spawn_time)
    then have "procs (fst (so_stop ops (rr_pid r) w)) p = procs w p" by (intro stop_other) simp
    with Cons.IH [of "fst (so_stop ops (rr_pid r) w)"] rest True show ?thesis
      by (simp add: case_prod_unfold split: outcome.split)
  next
    case False
    with Cons.IH [OF rest] show ?thesis by (auto simp: case_prod_unfold)
  qed
qed simp

lemma records_dead: "procs w p = None \<Longrightarrow> procs (fst (sweep_records ops rs w)) p = None"
  using records_spare [of rs p w] by (simp add: names_def same_process_def list_ex_iff)

lemma records_resolved:
  assumes stops: "\<forall>r \<in> set rs. \<forall>w w' code. fair w \<longrightarrow> so_stop ops (rr_pid r) w = (w', Ret code) \<longrightarrow>
      procs w' (rr_pid r) = None"
    and fair: "\<And>p w. fair w \<Longrightarrow> fair (fst (so_stop ops p w))"
    and "fair w" and "snd (snd (sweep_records ops rs w))" and "r \<in> set rs"
  shows "procs (fst (sweep_records ops rs w)) (rr_pid r) = None"
  using stops assms(3-5)
proof (induction rs arbitrary: w)
  case (Cons r' rs)
  have IH: "fair w \<Longrightarrow> snd (snd (sweep_records ops rs w)) \<Longrightarrow> r \<in> set rs \<Longrightarrow>
      procs (fst (sweep_records ops rs w)) (rr_pid r) = None" for w
    using Cons.IH [of w] Cons.prems(1) by simp
  show ?case
  proof (cases "so_alive ops (rr_pid r') w")
    case True
    with Cons.prems(3) have same: "same_process r' (so_spawn_time ops (rr_pid r') w)"
      by (auto simp: case_prod_unfold split: if_splits)
    obtain w1 out where st: "so_stop ops (rr_pid r') w = (w1, out)" by fastforce
    with True same Cons.prems(3) obtain code where out: "out = Ret code" and rest: "snd (snd (sweep_records ops rs w1))"
      by (cases out) (auto simp: case_prod_unfold)
    have run: "fst (sweep_records ops (r' # rs) w) = fst (sweep_records ops rs w1)"
      using True same st out by (simp add: case_prod_unfold)
    have "procs w1 (rr_pid r') = None" using Cons.prems(1,2) st out by (metis list.set_intros(1))
    moreover have "fair w1" using fair [OF Cons.prems(2), of "rr_pid r'"] st by simp
    ultimately show ?thesis using run IH [OF _ rest] Cons.prems(4) records_dead by auto
  next
    case False
    with alive have "procs w (rr_pid r') = None" by simp
    with False Cons.prems(2-4) IH [of w] records_dead show ?thesis by auto
  qed
qed simp

lemma sweep_spares:
  "\<not> list_ex (\<lambda>(path, ls). file_names ls p (procs w p)) files \<Longrightarrow> procs (fst (sweep_stale ops files w)) p = procs w p"
proof (induction files arbitrary: w)
  case (Cons ff files)
  obtain path ls where ff: "ff = (path, ls)" by (cases ff)
  show ?case
  proof (cases "read_records ls")
    case None
    with ff show ?thesis by simp
  next
    case (Some rs)
    with Cons.prems ff have spared: "procs (fst (sweep_records ops rs w)) p = procs w p"
      by (intro records_spare) (simp add: file_names_def)
    with Cons.IH [of w] Cons.IH [of "fst (sweep_records ops rs w)"] Cons.prems ff Some show ?thesis
      by (simp add: case_prod_unfold)
  qed
qed simp

text \<open>Every ff but one leaves a process alone, and that one belongs to a live run: so does the sweep.\<close>

lemma live_run_spared:
  assumes "read_records ls = Some rs" and "live_supervisor ops rs w = Some s"
    and "\<not> list_ex (\<lambda>(path, ls). file_names ls (rr_pid s) (procs w (rr_pid s))) (before @ after)"
    and "\<not> list_ex (\<lambda>(path, ls). file_names ls p (procs w p)) (before @ after)"
  shows "(path, ls) \<in> set (fst (snd (sweep_stale ops (before @ (path, ls) # after) w)))
    \<and> procs (fst (sweep_stale ops (before @ (path, ls) # after) w)) p = procs w p"
  using assms(2-4)
proof (induction before arbitrary: w)
  case Nil
  then have "procs (fst (sweep_stale ops after w)) p = procs w p" by (intro sweep_spares) simp
  with Nil assms(1) show ?case by (simp add: case_prod_unfold)
next
  case (Cons ff before)
  obtain path' ls' where ff: "ff = (path', ls')" by (cases ff)
  show ?case
  proof (cases "read_records ls'")
    case None
    with ff show ?thesis by simp
  next
    case (Some rs')
    let ?w = "fst (sweep_records ops rs' w)"
    have "procs ?w (rr_pid s) = procs w (rr_pid s)" "procs ?w p = procs w p"
      using Cons.prems(2,3) ff Some by (intro records_spare; simp add: file_names_def)+
    moreover from this have "live_supervisor ops rs ?w = Some s"
      using Cons.prems(1) by (auto simp: live_supervisor_def alive spawn_time split: option.splits if_splits)
    ultimately show ?thesis
      using Cons.IH [of w] Cons.IH [of ?w] Cons.prems ff Some by (simp add: case_prod_unfold)
  qed
qed

end

subsection \<open>Stopping a pid\<close>

text \<open>What every poll, look at the clock and sleep keeps, and what a poll that finds an exit shows.\<close>

definition keeps :: "'w child_ops \<Rightarrow> ('w \<Rightarrow> bool) \<Rightarrow> ('w \<Rightarrow> bool) \<Rightarrow> bool" where
  "keeps ops keep over \<longleftrightarrow>
     (\<forall>w. keep w \<longrightarrow> keep (fst (co_poll ops w)) \<and> (snd (co_poll ops w) \<noteq> None \<longrightarrow> over (fst (co_poll ops w))))
     \<and> (\<forall>w. keep w \<longrightarrow> keep (fst (co_clock ops w))) \<and> (\<forall>d w. keep w \<longrightarrow> keep (co_sleep ops d w))"

definition kept :: "('w \<Rightarrow> bool) \<Rightarrow> ('w \<Rightarrow> bool) \<Rightarrow> 'w child_ops \<Rightarrow> rat \<Rightarrow> 'w \<Rightarrow> 'w \<times> int option \<Rightarrow> bool" where
  "kept keep over ops deadline w r \<longleftrightarrow>
     (keeps ops keep over \<longrightarrow> keep w \<longrightarrow> keep (fst r) \<and> (snd r \<noteq> None \<longrightarrow> over (fst r)))"

lemma wait_until_kept:
  fixes ops :: "'w child_ops"
  assumes "wait_until ops deadline w = Some r"
  shows "kept keep over ops deadline w r"
proof (rule wait_until.raw_induct [where P = "kept keep over", OF _ assms])
  fix wait :: "'w child_ops \<Rightarrow> rat \<Rightarrow> 'w \<Rightarrow> ('w \<times> int option) option" and ops deadline w r
  assume IH: "\<And>ops deadline w r. wait ops deadline w = Some r \<Longrightarrow> kept keep over ops deadline w r"
    and step: "(case co_poll ops w of
        (w1, Some code) \<Rightarrow> Some (w1, Some code)
      | (w1, None) \<Rightarrow>
          (case co_clock ops w1 of
             (w2, now) \<Rightarrow>
               if deadline \<le> now then Some (w2, None) else wait ops deadline (co_sleep ops POLL_SLEEP w2))) = Some r"
  show "kept keep over ops deadline w r"
    unfolding kept_def
  proof (intro impI)
    assume k: "keeps ops keep over" and w: "keep w"
    obtain w1 code where p: "co_poll ops w = (w1, code)" by fastforce
    obtain w2 now where c: "co_clock ops w1 = (w2, now)" by fastforce
    have w1: "keep w1" "code \<noteq> None \<Longrightarrow> over w1" using k w p unfolding keeps_def by (metis fst_conv snd_conv)+
    have w2: "keep w2" "keep (co_sleep ops POLL_SLEEP w2)" using k w1(1) c unfolding keeps_def by (metis fst_conv)+
    show "keep (fst r) \<and> (snd r \<noteq> None \<longrightarrow> over (fst r))"
    proof (cases "code = None \<and> now < deadline")
      case True
      with step p c have "wait ops deadline (co_sleep ops POLL_SLEEP w2) = Some r" by auto
      from IH [OF this] k w2(2) show ?thesis by (simp add: kept_def)
    next
      case False
      then consider k where "code = Some k" | "code = None" "deadline \<le> now" by fastforce
      then show ?thesis
      proof cases
        case 1
        with step p have "r = (w1, Some k)" by simp
        with w1 1 show ?thesis by simp
      next
        case 2
        with step p c w2(1) show ?thesis by auto
      qed
    qed
  qed
qed

lemma wait_until_keeps:
  "wait_until ops deadline w = Some r \<Longrightarrow> keeps ops keep over \<Longrightarrow> keep w \<Longrightarrow>
   keep (fst r) \<and> (snd r \<noteq> None \<longrightarrow> over (fst r))"
  using wait_until_kept [of ops deadline w r keep over] by (simp add: kept_def)

lemma wait_bounded_keeps:
  assumes "wait_bounded ops timeout w = Some r" and "keeps ops keep over" and "keep w"
  shows "keep (fst r) \<and> (snd r \<noteq> None \<longrightarrow> over (fst r))"
proof -
  obtain w1 now where c: "co_clock ops w = (w1, now)" by fastforce
  then have "keep w1" using assms(2,3) unfolding keeps_def by (metis fst_conv)
  with wait_until_keeps [of ops "now + timeout" w1 r keep over] assms c show ?thesis
    by (simp add: wait_bounded_def)
qed

text \<open>A stop keeps what signals keep too.\<close>

lemma stop_process_keeps:
  assumes "stop_process ops sig t1 t2 w = Some r" and "keeps ops keep over" and "keep w"
    and "\<And>g w. keep w \<Longrightarrow> keep (co_signal ops g w)"
  shows "keep (fst r)"
proof -
  obtain w1 code where p: "co_poll ops w = (w1, code)" by fastforce
  then have w1: "keep w1" using assms(2,3) unfolding keeps_def by (metis fst_conv)
  show ?thesis
  proof (cases code)
    case None
    with assms(1) p obtain w2 code2 where b: "wait_bounded ops t1 (co_signal ops sig w1) = Some (w2, code2)"
      by (cases "wait_bounded ops t1 (co_signal ops sig w1)") (auto simp: stop_process_def)
    have w2: "keep w2" using wait_bounded_keeps [OF b assms(2) assms(4) [OF w1]] by simp
    show ?thesis
    proof (cases code2)
      case None
      with assms(1) p \<open>code = None\<close> b have "wait_bounded ops t2 (co_signal ops SIGKILL w2) = Some r"
        by (simp add: stop_process_def)
      from wait_bounded_keeps [OF this assms(2) assms(4) [OF w2]] show ?thesis by simp
    next
      case (Some k)
      with assms(1) p \<open>code = None\<close> b have "r = (w2, Some k)" by (simp add: stop_process_def)
      with w2 show ?thesis by simp
    qed
  next
    case (Some k)
    with assms(1) p have "r = (w1, Some k)" by (simp add: stop_process_def)
    with w1 show ?thesis by simp
  qed
qed

lemma handle_keeps:
  "keeps (pid_handle pid) (\<lambda>w. P (os_procs w) \<and> (os_reaped w \<longrightarrow> \<not> dmem pid (os_procs w))) (\<lambda>w. \<not> dmem pid (os_procs w))"
  by (auto simp: keeps_def pid_handle_def handle_poll_def)

lemma handle_clock: "clock_ok os_time (pid_handle pid)"
  by (auto simp: clock_ok_def pid_handle_def handle_poll_def handle_signal_def split: option.split)

definition os_table :: "os_world \<Rightarrow> int \<Rightarrow> rat option" where
  "os_table w p = map_option op_start (dget (os_procs w) p)"

lemma default_stop_keeps:
  assumes "P (os_procs w)" and "\<And>ps. P ps \<Longrightarrow> P (dpop pid ps)"
  shows "P (os_procs (fst (default_stop pid w)))"
proof (cases "foreign pid w")
  case False
  let ?w = "w\<lparr>os_reaped := False\<rparr>"
  obtain r where r: "stop_process (pid_handle pid) SIGTERM 5 5 ?w = Some r"
    using stopping_is_bounded [OF handle_clock] by blast
  have "P (os_procs (fst r)) \<and> (os_reaped (fst r) \<longrightarrow> \<not> dmem pid (os_procs (fst r)))"
    by (rule stop_process_keeps [OF r handle_keeps])
       (use assms in \<open>auto simp: pid_handle_def handle_signal_def dmem_iff_get split: option.splits\<close>)
  with r False show ?thesis by (cases r) (simp add: default_stop_def)
qed (use assms in \<open>simp add: default_stop_def\<close>)

interpretation machine_room: process_table default_ops os_table
proof
  fix p q :: int and w :: os_world
  show "so_alive default_ops p w = (os_table w p \<noteq> None)"
    by (auto simp: default_ops_def os_table_def dmem_iff_get)
  show "so_spawn_time default_ops p w = os_table w p"
    by (simp add: default_ops_def os_table_def)
  show "os_table (fst (so_stop default_ops p w)) q = os_table w q" if "q \<noteq> p"
    using default_stop_keeps [of "\<lambda>ps. dget ps q = dget (os_procs w) q" w p] that
    by (simp add: default_ops_def os_table_def)
  show "os_table (fst (so_stop default_ops p w)) p = None" if "os_table w p = None"
    using default_stop_keeps [of "\<lambda>ps. dget ps p = None" w p] that
    by (simp add: default_ops_def os_table_def)
qed

text \<open>A signal reaches every process but a stuck one or somebody else's, and then the pid is free.\<close>

definition reachable_pid :: "int \<Rightarrow> os_world \<Rightarrow> bool" where
  "reachable_pid p w \<longleftrightarrow> (case dget (os_procs w) p of None \<Rightarrow> True | Some q \<Rightarrow> \<not> op_stuck q)"

lemma stop_process_over:
  assumes "stop_process ops sig t1 t2 w = Some (w', code)" and k: "keeps ops keep over" and "keep w"
    and signal: "\<And>g w. keep w \<Longrightarrow> keep (co_signal ops g w)" and kill: "\<And>w. keep w \<Longrightarrow> over (co_signal ops SIGKILL w)"
    and stays: "keeps ops (\<lambda>w. keep w \<and> over w) over"
  shows "over w'"
proof -
  obtain w1 code1 where p: "co_poll ops w = (w1, code1)" by fastforce
  then have w1: "keep w1" "code1 \<noteq> None \<Longrightarrow> over w1" using k assms(3) unfolding keeps_def by (metis fst_conv snd_conv)+
  show ?thesis
  proof (cases code1)
    case None
    with assms(1) p obtain w2 code2 where b: "wait_bounded ops t1 (co_signal ops sig w1) = Some (w2, code2)"
      by (cases "wait_bounded ops t1 (co_signal ops sig w1)") (auto simp: stop_process_def)
    have w2: "keep w2" "code2 \<noteq> None \<Longrightarrow> over w2" using wait_bounded_keeps [OF b k signal [OF w1(1)]] by simp_all
    show ?thesis
    proof (cases code2)
      case None
      with assms(1) p \<open>code1 = None\<close> b have "wait_bounded ops t2 (co_signal ops SIGKILL w2) = Some (w', code)"
        by (simp add: stop_process_def)
      from wait_bounded_keeps [OF this stays] signal kill w2(1) show ?thesis by simp
    next
      case (Some m)
      with assms(1) p \<open>code1 = None\<close> b have "w' = w2" by (simp add: stop_process_def)
      with w2(2) Some show ?thesis by simp
    qed
  next
    case (Some m)
    with assms(1) p have "w' = w1" by (simp add: stop_process_def)
    with w1(2) Some show ?thesis by simp
  qed
qed

lemma default_stop_runs:
  assumes "\<not> foreign pid w"
  obtains w' code where "default_stop pid w = (w', Ret code)"
    and "stop_process (pid_handle pid) SIGTERM 5 5 (w\<lparr>os_reaped := False\<rparr>) = Some (w', code)"
  using stopping_is_bounded [OF handle_clock, of pid SIGTERM 5 5 "w\<lparr>os_reaped := False\<rparr>"] assms
  by (auto simp: default_stop_def)

lemma stop_reaches:
  assumes "reachable_pid pid w" and "default_stop pid w = (w', Ret code)"
  shows "\<not> dmem pid (os_procs w')"
proof -
  let ?free = "\<lambda>ps. \<forall>q. dget ps pid = Some q \<longrightarrow> \<not> op_stuck q"
  have "\<not> foreign pid w" using assms(2) by (auto simp: default_stop_def)
  from default_stop_runs [OF this] assms(2)
  have r: "stop_process (pid_handle pid) SIGTERM 5 5 (w\<lparr>os_reaped := False\<rparr>) = Some (w', code)"
    by (metis Pair_inject outcome.inject)
  show ?thesis
  proof (rule stop_process_over [OF r handle_keeps [where P = ?free]])
    show "keeps (pid_handle pid) (\<lambda>w. (?free (os_procs w) \<and> (os_reaped w \<longrightarrow> \<not> dmem pid (os_procs w)))
        \<and> \<not> dmem pid (os_procs w)) (\<lambda>w. \<not> dmem pid (os_procs w))"
      by (auto simp: keeps_def pid_handle_def handle_poll_def)
  qed (use assms(1) in \<open>auto simp: reachable_pid_def pid_handle_def handle_signal_def dmem_iff_get split: option.splits\<close>)
qed

text \<open>A stuck process outlives its stop, which says so with \<open>None\<close> and raises nothing.\<close>

lemma stop_survived:
  assumes "dget (os_procs w) pid = Some q" and "op_stuck q" and "\<not> op_foreign q"
  shows "\<exists>w' code. default_stop pid w = (w', Ret code) \<and> os_procs w' = os_procs w"
proof -
  have "\<not> foreign pid w" using assms by (simp add: foreign_def)
  then obtain w' code where d: "default_stop pid w = (w', Ret code)"
    and r: "stop_process (pid_handle pid) SIGTERM 5 5 (w\<lparr>os_reaped := False\<rparr>) = Some (w', code)"
    by (rule default_stop_runs)
  have "os_procs (fst (w', code)) = os_procs w \<and> (os_reaped (fst (w', code)) \<longrightarrow> \<not> dmem pid (os_procs (fst (w', code))))"
    by (rule stop_process_keeps [OF r handle_keeps [where P = "\<lambda>ps. ps = os_procs w"]])
       (use assms in \<open>auto simp: pid_handle_def handle_signal_def split: option.splits\<close>)
  with d show ?thesis by auto
qed

subsection \<open>What the sweep promises\<close>

text \<open>
  C35: The sweep kills only what it can prove it owns. A process that is gone after it, or is another one,
  is named by a record in one of the files, with its pid and a spawn time within the tolerance.
\<close>
theorem sweep_kills_only_its_own:
  assumes "os_table (fst (sweep_stale default_ops files w)) p \<noteq> os_table w p"
  shows "\<exists>path ls rs r. (path, ls) \<in> set files \<and> read_records ls = Some rs \<and> r \<in> set rs
    \<and> rr_pid r = p \<and> same_process r (os_table w p)"
proof -
  have "list_ex (\<lambda>(path, ls). file_names ls p (os_table w p)) files"
    using machine_room.sweep_spares [of p w files] assms by blast
  then show ?thesis
    by (fastforce simp: list_ex_iff file_names_def names_def split: option.splits)
qed

text \<open>
  Another run that is still up is left alone: its record file stays, and so does each of its processes, as
  long as no other run's records name its supervisor or that process.
\<close>
theorem live_run_is_left_alone:
  assumes "read_records ls = Some rs" and "live_supervisor default_ops rs w = Some s"
    and "\<not> list_ex (\<lambda>(path, ls). file_names ls (rr_pid s) (os_table w (rr_pid s))) (before @ after)"
    and "\<not> list_ex (\<lambda>(path, ls). file_names ls p (os_table w p)) (before @ after)"
  shows "(path, ls) \<in> set (fst (snd (sweep_stale default_ops (before @ (path, ls) # after) w)))
    \<and> os_table (fst (sweep_stale default_ops (before @ (path, ls) # after) w)) p = os_table w p"
  by (rule machine_room.live_run_spared [OF assms])

text \<open>
  A file of records that is handled leaves none of its processes behind, unless one is stuck.
\<close>
theorem handled_records_are_gone:
  assumes "list_all (\<lambda>r. reachable_pid (rr_pid r) w) rs"
    and "snd (snd (sweep_records default_ops rs w))" and "r \<in> set rs"
  shows "os_table (fst (sweep_records default_ops rs w)) (rr_pid r) = None"
proof (rule machine_room.records_resolved [where fair = "\<lambda>w. list_all (\<lambda>r. reachable_pid (rr_pid r) w) rs", OF _ _ assms])
  have "os_table w' (rr_pid r) = None" if "r \<in> set rs" "list_all (\<lambda>r. reachable_pid (rr_pid r) w) rs"
      "so_stop default_ops (rr_pid r) w = (w', Ret code)" for r w w' code
    using stop_reaches [of "rr_pid r" w w' code] that by (simp add: list_all_iff default_ops_def os_table_def dmem_iff_get)
  then show "\<forall>r \<in> set rs. \<forall>w w' code. list_all (\<lambda>r. reachable_pid (rr_pid r) w) rs \<longrightarrow>
      so_stop default_ops (rr_pid r) w = (w', Ret code) \<longrightarrow> os_table w' (rr_pid r) = None" by blast
next
  fix p w
  assume fair: "list_all (\<lambda>r. reachable_pid (rr_pid r) w) rs"
  show "list_all (\<lambda>r. reachable_pid (rr_pid r) (fst (so_stop default_ops p w))) rs"
    using default_stop_keeps [of "\<lambda>ps. list_all (\<lambda>r. case dget ps (rr_pid r) of None \<Rightarrow> True | Some q \<Rightarrow> \<not> op_stuck q) rs" w p] fair
    by (simp add: default_ops_def reachable_pid_def list_all_iff)
qed

text \<open>Examples: a run that crashed and left process 20, beside one that is up, with supervisor 10 and process 11.\<close>

definition proc_at :: "rat \<Rightarrow> os_process" where
  "proc_at t = \<lparr>op_start = t, op_foreign = False, op_ignores = False, op_stuck = False\<rparr>"

definition entry :: "int \<Rightarrow> rat \<Rightarrow> string \<Rightarrow> record_line" where
  "entry p t r = Line \<lparr>rr_pid = p, rr_spawn = t, rr_role = r\<rparr>"

definition two_runs :: os_world where
  "two_runs = \<lparr>os_procs = [(10, proc_at 100), (11, proc_at 101), (20, proc_at 50)], os_reaped = False, os_time = 0\<rparr>"

definition crashed_run :: "record_line list" where
  "crashed_run = [entry 19 49 SUPERVISOR, Blank, entry 20 51 ''arco'']"

definition live_records :: "record_line list" where
  "live_records = [entry 10 100 SUPERVISOR, entry 11 101 ''arco'']"

lemma sweep_kills_only_its_own_witness:
  "\<exists>path ls rs r. (path, ls) \<in> set [(''a'', crashed_run), (''b'', live_records)] \<and> read_records ls = Some rs
    \<and> r \<in> set rs \<and> rr_pid r = 20 \<and> same_process r (os_table two_runs 20)"
proof -
  have "os_table (fst (sweep_stale default_ops [(''a'', crashed_run), (''b'', live_records)] two_runs)) 20 \<noteq> os_table two_runs 20"
    by code_simp
  from sweep_kills_only_its_own [OF this] show ?thesis .
qed

lemma live_run_is_left_alone_witness:
  "(''b'', live_records) \<in> set (fst (snd (sweep_stale default_ops [(''a'', crashed_run), (''b'', live_records)] two_runs)))
    \<and> os_table (fst (sweep_stale default_ops [(''a'', crashed_run), (''b'', live_records)] two_runs)) 11 = Some 101"
proof -
  let ?rs = "[\<lparr>rr_pid = 10, rr_spawn = 100, rr_role = SUPERVISOR\<rparr>, \<lparr>rr_pid = 11, rr_spawn = 101, rr_role = ''arco''\<rparr>]"
  let ?s = "\<lparr>rr_pid = 10, rr_spawn = 100, rr_role = SUPERVISOR\<rparr> :: spawn_record"
  have "read_records live_records = Some ?rs" and "live_supervisor default_ops ?rs two_runs = Some ?s"
    and "\<not> list_ex (\<lambda>(path, ls). file_names ls (rr_pid ?s) (os_table two_runs (rr_pid ?s))) ([(''a'', crashed_run)] @ [])"
    and "\<not> list_ex (\<lambda>(path, ls). file_names ls 11 (os_table two_runs 11)) ([(''a'', crashed_run)] @ [])"
    and eleven: "os_table two_runs 11 = Some 101"
    by code_simp+
  from live_run_is_left_alone [OF this(1-4), of "''b''"] eleven show ?thesis by simp
qed

lemma handled_records_are_gone_witness:
  "os_table (fst (sweep_records default_ops [\<lparr>rr_pid = 20, rr_spawn = 51, rr_role = ''arco''\<rparr>] two_runs)) 20 = None"
proof -
  let ?r = "\<lparr>rr_pid = 20, rr_spawn = 51, rr_role = ''arco''\<rparr> :: spawn_record"
  have "list_all (\<lambda>r. reachable_pid (rr_pid r) two_runs) [?r]" and "snd (snd (sweep_records default_ops [?r] two_runs))"
    by code_simp+
  from handled_records_are_gone [OF this, of ?r] show ?thesis by simp
qed

subsection \<open>What it forgets, and what stops it\<close>

text \<open>
  A process that outlives its stop is reported as stopped and its record file is deleted with it: the answer
  \<open>None\<close> of \<open>stop_process\<close> is not looked at.
\<close>

lemma stuck_process_is_forgotten:
  assumes "dget (os_procs w) (rr_pid r) = Some q" and "op_stuck q" and "\<not> op_foreign q"
    and "same_process r (Some (op_start q))" and "rr_role r \<noteq> SUPERVISOR"
  shows "\<exists>w'. sweep_stale default_ops [(path, [Line r])] w = (w', [], [r], False) \<and> os_procs w' = os_procs w"
proof -
  from stop_survived [OF assms(1-3)] obtain w' code where
    "default_stop (rr_pid r) w = (w', Ret code)" "os_procs w' = os_procs w" by blast
  then show ?thesis
    using assms by (simp add: live_supervisor_def default_ops_def dmem_iff_get)
qed

text \<open>A record line that does not parse, such as one cut short by a crash, ends every later sweep in an exception.\<close>

lemma torn_record_stops_the_sweep:
  "list_ex (\<lambda>(path, ls). read_records ls = None) files \<Longrightarrow> snd (snd (snd (sweep_stale ops files w)))"
proof (induction files arbitrary: w)
  case (Cons f files)
  obtain path ls where f: "f = (path, ls)" by (cases f)
  show ?case
  proof (cases "read_records ls")
    case (Some rs)
    with Cons f show ?thesis by (simp add: case_prod_unfold)
  qed (simp add: f)
qed simp

end
