(* ===== verification/Wire_Json.thy ===== *)
theory Wire_Json
  imports Prelude
begin

section \<open>JSON that a strict parser accepts\<close>

text \<open>
  \<open>src/control/wire_json.py\<close>: a number that is not finite becomes null in everything that leaves the process.
  The text \<open>json.dumps\<close> makes of a value is a parameter where it is used (\<open>Capture\<close>): with
  \<open>allow_nan=False\<close> it raises when such a number is left, which is \<open>None\<close> here. The warning, once for every shape
  of path, is left out.
\<close>

fun sanitise :: "pyval \<Rightarrow> pyval" where
  "sanitise (VFloat f) = (if isfinite f then VFloat f else VNone)"
| "sanitise (VDict d) = VDict (map (\<lambda>kv. (fst kv, sanitise (snd kv))) d)"
| "sanitise (VList vs) = VList (map sanitise vs)"
| "sanitise VNone = VNone"
| "sanitise (VBool b) = VBool b"
| "sanitise (VInt i) = VInt i"
| "sanitise (VStr s) = VStr s"

text \<open>\<open>json.dumps(v, allow_nan=False)\<close> does not raise.\<close>

fun strict_json :: "pyval \<Rightarrow> bool" where
  "strict_json (VFloat f) \<longleftrightarrow> isfinite f"
| "strict_json (VDict d) \<longleftrightarrow> list_all (\<lambda>kv. strict_json (snd kv)) d"
| "strict_json (VList vs) \<longleftrightarrow> list_all strict_json vs"
| "strict_json VNone \<longleftrightarrow> True"
| "strict_json (VBool b) \<longleftrightarrow> True"
| "strict_json (VInt i) \<longleftrightarrow> True"
| "strict_json (VStr s) \<longleftrightarrow> True"

definition wire_dumps :: "(pyval \<Rightarrow> string) \<Rightarrow> pyval \<Rightarrow> string option" where
  "wire_dumps enc v = (let w = sanitise v in if strict_json w then Some (enc w) else None)"

lemma sanitise_is_strict [simp]: "strict_json (sanitise v)"
  by (induction v rule: sanitise.induct) (auto simp: list_all_iff)

lemma sanitise_keeps_strict: "strict_json v \<Longrightarrow> sanitise v = v"
proof (induction v rule: sanitise.induct)
  case (2 d)
  then have "(fst kv, sanitise (snd kv)) = kv" if "kv \<in> set d" for kv
    using that by (auto simp: list_all_iff)
  then show ?case by (simp add: map_idI)
next
  case (3 vs)
  then show ?case by (auto simp: list_all_iff intro!: map_idI)
qed simp_all

lemma dumps_never_raises: "wire_dumps enc v = Some (enc (sanitise v))"
  by (simp add: wire_dumps_def)

lemma sanitise_idempotent: "sanitise (sanitise v) = sanitise v"
  by (simp add: sanitise_keeps_strict)

end
