(* ===== verification/Capture.thy ===== *)
theory Capture
  imports Wire_Json Device_Protocol Manifests Registration
begin

section \<open>Sensor captures\<close>

text \<open>
  \<open>src/capture/trace.py\<close>, \<open>src/capture/store.py\<close> and \<open>src/bits/capture/capture_bit.py\<close>: a device opens a capture,
  sends telemetry batches into it and closes it; the store writes the trace once, at the close. The files are a
  record of the traces and their audio by label and stem, and of the lines of the index. What the file
  system answers to one write is a \<open>write_fate\<close>, a function of the device in the calls that may close several.
  The text of a number (a stem, a note) is given by \<open>show_series\<close> and by the constructors of \<open>trace_note\<close>; of
  \<open>json.dumps\<close> only the length of its text is used, by \<open>enc\<close>.
\<close>

subsection \<open>A trace\<close>

datatype trace_note = No_Note | Exceeded_Window pyfloat | Silent_For rat | Because string

record capture_trace =
  tc_session :: string
  tc_capture_id :: string
  tc_label :: string
  tc_series :: int
  tc_dev :: dev
  tc_bit :: "(string, pyval) dict"
  tc_source :: "(string, pyval) dict"
  tc_window :: pyfloat
  tc_t0 :: pyfloat
  tc_t_ms :: "pyfloat list"
  tc_axes :: "(string, pyfloat list) dict"
  tc_pcm :: "byte list"
  tc_pcm_t0 :: "pyfloat option"
  tc_gaps :: "(int \<times> int) list"
  tc_outputs :: pyval
  tc_truncated :: bool
  tc_notes :: trace_note
  tc_next :: int

definition new_trace ::
  "string \<Rightarrow> string \<Rightarrow> string \<Rightarrow> int \<Rightarrow> dev \<Rightarrow> (string, pyval) dict \<Rightarrow> (string, pyval) dict \<Rightarrow> pyfloat \<Rightarrow> pyfloat \<Rightarrow> capture_trace" where
  "new_trace session cid label series d bt src window t0 =
     \<lparr>tc_session = session, tc_capture_id = cid, tc_label = label, tc_series = series, tc_dev = d, tc_bit = bt,
      tc_source = src, tc_window = window, tc_t0 = t0, tc_t_ms = [], tc_axes = map (\<lambda>a. (a, [])) MOTION_AXES,
      tc_pcm = [], tc_pcm_t0 = None, tc_gaps = [], tc_outputs = VList [], tc_truncated = False, tc_notes = No_Note,
      tc_next = 0\<rparr>"

definition extend_axes :: "(string, pyfloat list) dict \<Rightarrow> (string, pyfloat list) dict \<Rightarrow> (string, pyfloat list) dict" where
  "extend_axes batch axes =
     map (\<lambda>(a, xs). (a, xs @ (case dget batch a of None \<Rightarrow> [] | Some ys \<Rightarrow> ys))) axes"

text \<open>\<open>Trace.append\<close>: \<open>None\<close> is the \<open>ValueError\<close> of a stale batch.\<close>

definition trace_append :: "telemetry \<Rightarrow> capture_trace \<Rightarrow> capture_trace option" where
  "trace_append b tr =
     (if tm_seq b < tc_next tr then None
      else Some (tr\<lparr>
        tc_gaps := (if tc_next tr < tm_seq b then tc_gaps tr @ [(tc_next tr, tm_seq b)] else tc_gaps tr),
        tc_next := tm_seq b + 1,
        tc_t_ms := tc_t_ms tr @ tm_t_ms b,
        tc_axes := extend_axes (tm_axes b) (tc_axes tr),
        tc_pcm_t0 := (if tm_pcm b \<noteq> [] \<and> tc_pcm_t0 tr = None then tm_pcm_t0 b else tc_pcm_t0 tr),
        tc_pcm := tc_pcm tr @ tm_pcm b\<rparr>))"

definition TRACE_SCHEMA :: string where "TRACE_SCHEMA = ''mm-telemetry-trace/1''"

definition AUDIO_CLOCK_NOTE :: string where
  "AUDIO_CLOCK_NOTE = ''audio clock, host-aligned, NOT sample-locked to motion''"

definition DEFAULT_AUDIO_RATE :: int where "DEFAULT_AUDIO_RATE = 16000"

text \<open>\<open>source.get("audio") or {}\<close>, then a key of it: \<open>None\<close> is the \<open>AttributeError\<close>.\<close>

definition declared_audio :: "capture_trace \<Rightarrow> string \<Rightarrow> pyval \<Rightarrow> pyval option" where
  "declared_audio tr key fallback =
     (case dget (tc_source tr) ''audio'' of
        None \<Rightarrow> Some fallback
      | Some v \<Rightarrow>
          if falsy v then Some fallback
          else (case v of VDict d \<Rightarrow> Some (case dget d key of None \<Rightarrow> fallback | Some w \<Rightarrow> w) | _ \<Rightarrow> None))"

definition opt_number :: "pyfloat option \<Rightarrow> pyval" where
  "opt_number t = (case t of None \<Rightarrow> VNone | Some x \<Rightarrow> VFloat x)"

definition audio_dict :: "string option \<Rightarrow> capture_trace \<Rightarrow> pyval option" where
  "audio_dict audio_file tr =
     (case audio_file of
        None \<Rightarrow> Some VNone
      | Some fname \<Rightarrow>
          if tc_pcm tr = [] then Some VNone
          else (case (declared_audio tr ''rate'' (VInt DEFAULT_AUDIO_RATE), declared_audio tr ''channels'' (VInt 1)) of
                  (Some rate, Some channels) \<Rightarrow>
                    Some (VDict [(''file'', VStr fname), (''rate'', rate), (''channels'', channels),
                                 (''t0_ms'', opt_number (tc_pcm_t0 tr)), (''clock'', VStr AUDIO_CLOCK_NOTE)])
                | _ \<Rightarrow> None))"

definition samples_dict :: "capture_trace \<Rightarrow> pyval" where
  "samples_dict tr =
     VDict ((''t_ms'', VList (map VFloat (tc_t_ms tr)))
            # map (\<lambda>a. (a, VList (map VFloat (case dget (tc_axes tr) a of None \<Rightarrow> [] | Some xs \<Rightarrow> xs)))) MOTION_AXES)"

text \<open>\<open>to_dict\<close>; the text of the notes is the parameter \<open>fmt\<close>.\<close>

definition trace_dict :: "(trace_note \<Rightarrow> string) \<Rightarrow> string option \<Rightarrow> capture_trace \<Rightarrow> (string, pyval) dict option" where
  "trace_dict fmt audio_file tr =
     (case audio_dict audio_file tr of
        None \<Rightarrow> None
      | Some audio \<Rightarrow> Some
         [(''schema'', VStr TRACE_SCHEMA), (''session'', VStr (tc_session tr)),
          (''capture_id'', VStr (tc_capture_id tr)), (''label'', VStr (tc_label tr)), (''series'', VInt (tc_series tr)),
          (''dev'', VStr (tc_dev tr)), (''bit'', VDict (tc_bit tr)), (''source'', VDict (tc_source tr)),
          (''window_ms'', VFloat (tc_window tr)), (''t0_device'', VFloat (tc_t0 tr)),
          (''n'', VInt (int (length (tc_t_ms tr)))),
          (''gaps'', VList (map (\<lambda>(e, g). VDict [(''expected'', VInt e), (''got'', VInt g)]) (tc_gaps tr))),
          (''truncated'', VBool (tc_truncated tr)), (''samples'', samples_dict tr), (''audio'', audio),
          (''outputs'', tc_outputs tr), (''notes'', VStr (fmt (tc_notes tr)))])"

subsection \<open>Files\<close>

record wav_file =
  wv_rate :: int
  wv_channels :: int
  wv_pcm :: "byte list"

text \<open>
  \<open>wav_bytes\<close> with the one channel its caller asks for: the frame rate is rounded, and refused when it is no positive
  number or does not fit the 32-bit fields of the header, like audio of four gigabytes.
\<close>

definition wav_rate :: "pyval \<Rightarrow> int option" where
  "wav_rate v =
     (case v of
        VInt n \<Rightarrow> Some n
      | VBool b \<Rightarrow> Some (if b then 1 else 0)
      | VFloat (Fin r) \<Rightarrow> if r \<le> 0 then None else Some (py_round r)
      | _ \<Rightarrow> None)"

definition wav_bytes :: "byte list \<Rightarrow> pyval \<Rightarrow> wav_file option" where
  "wav_bytes pcm rate =
     (case wav_rate rate of
        None \<Rightarrow> None
      | Some r \<Rightarrow>
          if r \<le> 0 \<or> 2 ^ 32 \<le> 2 * r \<or> 2 ^ 32 \<le> 36 + length pcm then None
          else Some \<lparr>wv_rate = r, wv_channels = 1, wv_pcm = pcm\<rparr>)"

definition WAV_HEADER :: nat where "WAV_HEADER = 44"

text \<open>A trace file is \<open>None\<close> when its write broke off.\<close>

record capture_disk =
  cd_traces :: "(string \<times> string, pyval option) dict"
  cd_wavs :: "(string \<times> string, wav_file) dict"
  cd_index :: "pyval list"

datatype text_fate = Text_Written | Text_Absent | Text_Torn

text \<open>The file system: asking for the file may raise, and each of the three writes may fail.\<close>

record write_fate =
  wf_lookup_raises :: bool
  wf_json :: text_fate
  wf_wav :: bool
  wf_index :: bool

definition fair_fate :: write_fate where
  "fair_fate = \<lparr>wf_lookup_raises = False, wf_json = Text_Written, wf_wav = True, wf_index = True\<rparr>"

subsection \<open>The store\<close>

record capture_store =
  cs_session :: string
  cs_bit :: "(string, pyval) dict"
  cs_provenance :: "(string, pyval) dict"
  cs_open :: "(dev, capture_trace) dict"
  cs_seen :: "(dev, rat) dict"
  cs_counts :: "(string, nat) dict"
  cs_failures :: nat
  cs_bytes :: nat
  cs_disk :: capture_disk

definition new_store :: "string \<Rightarrow> (string, pyval) dict \<Rightarrow> (string, pyval) dict \<Rightarrow> capture_disk \<Rightarrow> capture_store" where
  "new_store session bt prov disk =
     \<lparr>cs_session = session, cs_bit = bt, cs_provenance = prov, cs_open = [], cs_seen = [], cs_counts = [],
      cs_failures = 0, cs_bytes = 0, cs_disk = disk\<rparr>"

text \<open>
  What a call does beside changing the store: \<open>Denied\<close> is a \<open>CaptureError\<close>, \<open>Escaped\<close> any other exception.
\<close>

datatype capture_answer = Taken | Denied | Escaped

text \<open>What the writing needs: the session's files, the encoder and the texts of numbers.\<close>

record store_env =
  se_enc :: "pyval \<Rightarrow> string"
  se_fmt :: "trace_note \<Rightarrow> string"
  se_stem :: "int \<Rightarrow> string"

definition append_index :: "store_env \<Rightarrow> write_fate \<Rightarrow> capture_trace \<Rightarrow> capture_store \<Rightarrow> capture_store" where
  "append_index env fate tr st =
     (if wf_index fate
      then st\<lparr>cs_disk := (cs_disk st)\<lparr>cd_index := cd_index (cs_disk st) @
             [VDict [(''capture_id'', VStr (tc_capture_id tr)), (''label'', VStr (tc_label tr)),
                     (''series'', VInt (tc_series tr)), (''dev'', VStr (tc_dev tr)),
                     (''n'', VInt (int (length (tc_t_ms tr)))), (''truncated'', VBool (tc_truncated tr)),
                     (''gaps'', VInt (int (length (tc_gaps tr)))),
                     (''path'', VStr (tc_label tr @ ''/'' @ se_stem env (tc_series tr) @ ''.json''))]]\<rparr>\<rparr>
      else st\<lparr>cs_failures := Suc (cs_failures st)\<rparr>)"

definition write_failed :: "capture_store \<Rightarrow> capture_store" where
  "write_failed st = st\<lparr>cs_failures := Suc (cs_failures st)\<rparr>"

definition count_written :: "string \<Rightarrow> capture_store \<Rightarrow> capture_store" where
  "count_written label st =
     st\<lparr>cs_counts := dset label (Suc (case dget (cs_counts st) label of None \<Rightarrow> 0 | Some n \<Rightarrow> n)) (cs_counts st)\<rparr>"

text \<open>The update of a dictionary with another.\<close>

definition merge_dict :: "(string, pyval) dict \<Rightarrow> (string, pyval) dict \<Rightarrow> (string, pyval) dict" where
  "merge_dict d extra = fold (\<lambda>(k, v). dset k v) extra d"

text \<open>The \<open>try\<close> of \<open>_write\<close>: the store, and whether the body went through.\<close>

definition write_files :: "store_env \<Rightarrow> write_fate \<Rightarrow> capture_trace \<Rightarrow> capture_store \<Rightarrow> capture_store \<times> bool" where
  "write_files env fate tr st =
     (let key = (tc_label tr, se_stem env (tc_series tr));
          audio_file = (if tc_pcm tr = [] then None else Some (snd key @ ''.wav''))
      in case trace_dict (se_fmt env) audio_file tr of
           None \<Rightarrow> (st, False)
         | Some d0 \<Rightarrow>
             (let v = VDict (merge_dict d0 (cs_provenance st))
              in case wire_dumps (se_enc env) v of
                   None \<Rightarrow> (st, False)
                 | Some body \<Rightarrow>
                     (case wf_json fate of
                        Text_Absent \<Rightarrow> (st, False)
                      | Text_Torn \<Rightarrow>
                          (st\<lparr>cs_disk := (cs_disk st)\<lparr>cd_traces := dset key None (cd_traces (cs_disk st))\<rparr>\<rparr>, False)
                      | Text_Written \<Rightarrow>
                          (let st1 = st\<lparr>cs_disk := (cs_disk st)\<lparr>cd_traces := dset key (Some (sanitise v)) (cd_traces (cs_disk st))\<rparr>,
                                        cs_bytes := cs_bytes st + length body\<rparr>
                           in if audio_file = None then (st1, True)
                              else (case Option.bind (declared_audio tr ''rate'' (VInt DEFAULT_AUDIO_RATE)) (wav_bytes (tc_pcm tr)) of
                                      None \<Rightarrow> (st1, False)
                                    | Some wav \<Rightarrow>
                                        if \<not> wf_wav fate then (st1, False)
                                        else (st1\<lparr>cs_disk := (cs_disk st1)\<lparr>cd_wavs := dset key wav (cd_wavs (cs_disk st1))\<rparr>,
                                                  cs_bytes := cs_bytes st1 + WAV_HEADER + length (tc_pcm tr)\<rparr>, True))))))"

text \<open>\<open>_write\<close>: the store, and whether an exception left it.\<close>

definition write_trace :: "store_env \<Rightarrow> write_fate \<Rightarrow> capture_trace \<Rightarrow> capture_store \<Rightarrow> capture_store \<times> bool" where
  "write_trace env fate tr st =
     (if wf_lookup_raises fate then (st, True)
      else if dmem (tc_label tr, se_stem env (tc_series tr)) (cd_traces (cs_disk st)) then (write_failed st, False)
      else (case write_files env fate tr st of
              (st1, False) \<Rightarrow> (write_failed st1, False)
            | (st1, True) \<Rightarrow> (append_index env fate tr (count_written (tc_label tr) st1), False)))"

definition release_capture :: "dev \<Rightarrow> capture_store \<Rightarrow> capture_store" where
  "release_capture d st = st\<lparr>cs_open := dpop d (cs_open st), cs_seen := dpop d (cs_seen st)\<rparr>"

definition truncate_capture ::
  "store_env \<Rightarrow> write_fate \<Rightarrow> dev \<Rightarrow> trace_note \<Rightarrow> capture_store \<Rightarrow> capture_store \<times> bool" where
  "truncate_capture env fate d why st =
     (case dget (cs_open st) d of
        None \<Rightarrow> (st, True)
      | Some tr \<Rightarrow> write_trace env fate (tr\<lparr>tc_truncated := True, tc_notes := why\<rparr>) (release_capture d st))"

subsection \<open>The life of a capture\<close>

definition same_series :: "string \<Rightarrow> int \<Rightarrow> capture_trace \<Rightarrow> bool" where
  "same_series label series tr \<longleftrightarrow> tc_label tr = label \<and> tc_series tr = series"

text \<open>The meta is one that \<open>decode_capture_command\<close> accepted; anything else would raise.\<close>

definition open_capture :: "dev \<Rightarrow> string \<Rightarrow> (string, pyval) dict \<Rightarrow> rat \<Rightarrow> capture_store \<Rightarrow> capture_store \<times> capture_answer" where
  "open_capture d cid meta now st =
     (if dmem d (cs_open st) then (st, Denied)
      else (case (dget meta ''label'', dget meta ''series'', dget meta ''source'',
                  Option.bind (dget meta ''window_ms'') number_of, Option.bind (dget meta ''t0'') number_of) of
              (Some (VStr label), Some (VInt series), Some (VDict src), Some window, Some t0) \<Rightarrow>
                if list_ex (\<lambda>x. same_series label series (snd x)) (cs_open st) then (st, Denied)
                else (st\<lparr>cs_open := dset d (new_trace (cs_session st) cid label series d (cs_bit st) src window t0) (cs_open st),
                         cs_seen := dset d now (cs_seen st)\<rparr>, Taken)
            | _ \<Rightarrow> (st, Escaped)))"

definition WINDOW_GRACE_MS :: rat where "WINDOW_GRACE_MS = 5000"

definition past_window :: "telemetry \<Rightarrow> capture_trace \<Rightarrow> bool" where
  "past_window b tr \<longleftrightarrow> tm_t_ms b \<noteq> [] \<and> flt (fadd (tc_window tr) (Fin WINDOW_GRACE_MS)) (last (tm_t_ms b))"

definition append_batch ::
  "store_env \<Rightarrow> write_fate \<Rightarrow> dev \<Rightarrow> telemetry \<Rightarrow> rat \<Rightarrow> capture_store \<Rightarrow> capture_store \<times> capture_answer" where
  "append_batch env fate d b now st =
     (case dget (cs_open st) d of
        None \<Rightarrow> (st, Denied)
      | Some tr \<Rightarrow>
          if tm_capture_id b \<noteq> tc_capture_id tr then (st, Denied)
          else if past_window b tr
          then (case truncate_capture env fate d (Exceeded_Window (tc_window tr)) st of
                  (st1, raised) \<Rightarrow> (st1, if raised then Escaped else Denied))
          else (case trace_append b tr of
                  None \<Rightarrow> (st, Denied)
                | Some tr' \<Rightarrow> (st\<lparr>cs_open := dset d tr' (cs_open st), cs_seen := dset d now (cs_seen st)\<rparr>, Taken)))"

definition close_capture ::
  "store_env \<Rightarrow> write_fate \<Rightarrow> dev \<Rightarrow> (string, pyval) dict \<Rightarrow> capture_store \<Rightarrow> capture_store \<times> capture_answer" where
  "close_capture env fate d meta st =
     (case dget (cs_open st) d of
        None \<Rightarrow> (st, Denied)
      | Some tr \<Rightarrow>
          (let outs = (case dget meta ''outputs'' of None \<Rightarrow> VList [] | Some v \<Rightarrow> if falsy v then VList [] else v)
           in case write_trace env fate (tr\<lparr>tc_outputs := outs\<rparr>) (release_capture d st) of
                (st1, raised) \<Rightarrow> (st1, if raised then Escaped else Taken)))"

definition abandon_capture :: "dev \<Rightarrow> capture_store \<Rightarrow> capture_store" where
  "abandon_capture d st = (if dmem d (cs_open st) then release_capture d st else st)"

text \<open>The loop of \<open>expire\<close> and of \<open>truncate_all\<close>: an exception ends it.\<close>

fun truncate_each ::
  "store_env \<Rightarrow> (dev \<Rightarrow> write_fate) \<Rightarrow> trace_note \<Rightarrow> dev list \<Rightarrow> capture_store \<Rightarrow> capture_store \<times> bool" where
  "truncate_each env fates why [] st = (st, False)"
| "truncate_each env fates why (d # ds) st =
     (case truncate_capture env (fates d) d why st of
        (st1, True) \<Rightarrow> (st1, True)
      | (st1, False) \<Rightarrow> truncate_each env fates why ds st1)"

definition idle_devices :: "rat \<Rightarrow> rat \<Rightarrow> capture_store \<Rightarrow> dev list" where
  "idle_devices idle now st = map fst (filter (\<lambda>(d, seen). idle \<le> now - seen) (cs_seen st))"

definition expire_captures ::
  "store_env \<Rightarrow> (dev \<Rightarrow> write_fate) \<Rightarrow> rat \<Rightarrow> rat \<Rightarrow> capture_store \<Rightarrow> capture_store \<times> bool" where
  "expire_captures env fates idle now st = truncate_each env fates (Silent_For idle) (idle_devices idle now st) st"

definition truncate_all ::
  "store_env \<Rightarrow> (dev \<Rightarrow> write_fate) \<Rightarrow> string \<Rightarrow> capture_store \<Rightarrow> capture_store \<times> bool" where
  "truncate_all env fates why st = truncate_each env fates (Because why) (dkeys (cs_open st)) st"

subsection \<open>The Bit\<close>

definition IDLE_TIMEOUT_S :: rat where "IDLE_TIMEOUT_S = 10"

definition on_capture ::
  "store_env \<Rightarrow> write_fate \<Rightarrow> dev \<Rightarrow> pyval list \<Rightarrow> rat \<Rightarrow> capture_store \<Rightarrow> capture_store \<times> capture_answer" where
  "on_capture env fate d args now st =
     (case decode_capture_command args of
        None \<Rightarrow> (st, Denied)
      | Some (act, cid, meta) \<Rightarrow>
          if act = ''open'' then open_capture d cid meta now st
          else if act = ''close'' then close_capture env fate d meta st
          else (abandon_capture d st, Taken))"

definition on_telemetry ::
  "(string \<Rightarrow> byte list option) \<Rightarrow> store_env \<Rightarrow> write_fate \<Rightarrow> dev \<Rightarrow> pyval list \<Rightarrow> rat \<Rightarrow> capture_store \<Rightarrow>
     capture_store \<times> capture_answer" where
  "on_telemetry b64 env fate d args now st =
     (case decode_telemetry_batch b64 args of
        None \<Rightarrow> (st, Denied)
      | Some b \<Rightarrow> append_batch env fate d b now st)"

text \<open>\<open>update\<close> answers that the Bit goes on, unless it raises.\<close>

definition capture_update ::
  "store_env \<Rightarrow> (dev \<Rightarrow> write_fate) \<Rightarrow> rat \<Rightarrow> capture_store \<Rightarrow> capture_store \<times> bool outcome" where
  "capture_update env fates now st =
     (case expire_captures env fates IDLE_TIMEOUT_S now st of
        (st1, raised) \<Rightarrow> (st1, if raised then Raised else Ret False))"

definition capture_unload :: "store_env \<Rightarrow> (dev \<Rightarrow> write_fate) \<Rightarrow> capture_store \<Rightarrow> capture_store \<times> unit outcome" where
  "capture_unload env fates st =
     (case truncate_all env fates ''bit unloaded'' st of (st1, raised) \<Rightarrow> (st1, if raised then Raised else Ret ()))"

definition open_ids :: "capture_store \<Rightarrow> (dev, string) dict" where
  "open_ids st = map (\<lambda>(d, tr). (d, tc_capture_id tr)) (cs_open st)"

definition capture_status :: "capture_store \<Rightarrow> (string, pyval) dict" where
  "capture_status st =
     [(''session'', VStr (cs_session st)),
      (''captures'', VDict (map (\<lambda>(l, n). (l, VInt (int n))) (cs_counts st))),
      (''open'', VDict (map (\<lambda>(d, c). (d, VStr c)) (open_ids st))),
      (''failures'', VInt (int (cs_failures st))), (''bytes'', VInt (int (cs_bytes st)))]"

definition CAPTURE_NODE :: string where "CAPTURE_NODE = ''CAPTURE_NODE''"

definition capture_role_table :: role_table where
  "capture_role_table =
     \<lparr>rt_roles = [(''recorder'', \<lparr>r_name = ''recorder'', r_class = SHARED, r_capacity = None, r_scored = False, r_uses = [],
         r_samples = [], r_ugen_manifest = VDict [], r_light_manifest = VDict [], r_welcome = None, r_breath = True,
         r_requires = None, r_zones = []\<rparr>)],
      rt_node_map = [(CAPTURE_NODE, [''recorder''])]\<rparr>"

end
