(* ===== verification/Capture_Facts.thy ===== *)
theory Capture_Facts
  imports Capture
begin

section \<open>What a capture store promises\<close>

text \<open>
  The store as a machine on what the Bit is asked: its invariant, that no written trace is ever touched again, that
  every capture opened is accounted for, and what a trace holds.
\<close>

datatype capture_event =
    Ev_Capture dev "pyval list" rat write_fate
  | Ev_Telemetry dev "pyval list" rat write_fate
  | Ev_Update rat "dev \<Rightarrow> write_fate"
  | Ev_Unload "dev \<Rightarrow> write_fate"

fun capture_step :: "(string \<Rightarrow> byte list option) \<Rightarrow> store_env \<Rightarrow> capture_store \<Rightarrow> capture_event \<Rightarrow> capture_store" where
  "capture_step b64 env st (Ev_Capture d args now fate) = fst (on_capture env fate d args now st)"
| "capture_step b64 env st (Ev_Telemetry d args now fate) = fst (on_telemetry b64 env fate d args now st)"
| "capture_step b64 env st (Ev_Update now fates) = fst (capture_update env fates now st)"
| "capture_step b64 env st (Ev_Unload fates) = fst (capture_unload env fates st)"

subsection \<open>What a write leaves alone\<close>

text \<open>The part of the store a write does not touch.\<close>

definition same_captures :: "capture_store \<Rightarrow> capture_store \<Rightarrow> bool" where
  "same_captures st st' \<longleftrightarrow> cs_open st' = cs_open st \<and> cs_seen st' = cs_seen st \<and> cs_session st' = cs_session st
     \<and> cs_bit st' = cs_bit st \<and> cs_provenance st' = cs_provenance st"

text \<open>What is on disk stays there.\<close>

definition disk_grows :: "capture_store \<Rightarrow> capture_store \<Rightarrow> bool" where
  "disk_grows st st' \<longleftrightarrow>
     (\<forall>k v. dget (cd_traces (cs_disk st)) k = Some v \<longrightarrow> dget (cd_traces (cs_disk st')) k = Some v)
     \<and> (\<exists>ls. cd_index (cs_disk st') = cd_index (cs_disk st) @ ls) \<and> cs_failures st \<le> cs_failures st'"

lemma disk_grows_refl [simp]: "disk_grows st st"
  by (simp add: disk_grows_def)

lemma disk_grows_trans: "disk_grows a b \<Longrightarrow> disk_grows b c \<Longrightarrow> disk_grows a c"
  by (auto simp: disk_grows_def)

lemma same_captures_refl [simp]: "same_captures st st"
  by (simp add: same_captures_def)

lemma write_files_cases:
  "write_files env fate tr st = (st', ok) \<Longrightarrow>
   same_captures st st' \<and> cs_counts st' = cs_counts st \<and> cs_failures st' = cs_failures st
   \<and> cd_index (cs_disk st') = cd_index (cs_disk st)
   \<and> (\<forall>k. k \<noteq> (tc_label tr, se_stem env (tc_series tr)) \<longrightarrow> dget (cd_traces (cs_disk st')) k = dget (cd_traces (cs_disk st)) k)"
  by (auto simp: write_files_def same_captures_def Let_def split: option.splits text_fate.splits if_splits)

lemma append_index_frame [simp]:
  "same_captures st (append_index env fate tr st)" "cs_counts (append_index env fate tr st) = cs_counts st"
  "cd_traces (cs_disk (append_index env fate tr st)) = cd_traces (cs_disk st)"
  "cs_failures (append_index env fate tr st) = cs_failures st + (if wf_index fate then 0 else 1)"
  by (simp_all add: append_index_def same_captures_def)

lemma write_trace_same: "same_captures st (fst (write_trace env fate tr st))"
proof -
  obtain st1 ok where w: "write_files env fate tr st = (st1, ok)" by (cases "write_files env fate tr st")
  have "same_captures st st1" using write_files_cases [OF w] by blast
  moreover have "same_captures s1 s2 \<Longrightarrow> same_captures s1 (write_failed s2)"
    "same_captures s1 s2 \<Longrightarrow> same_captures s1 (append_index env fate tr (count_written l s2))" for s1 s2 l
    by (simp_all add: same_captures_def write_failed_def append_index_def count_written_def)
  ultimately show ?thesis
    using w by (cases ok) (simp_all add: write_trace_def)
qed

lemma write_trace_grows: "disk_grows st (fst (write_trace env fate tr st))"
proof (cases "wf_lookup_raises fate \<or> dmem (tc_label tr, se_stem env (tc_series tr)) (cd_traces (cs_disk st))")
  case True
  then show ?thesis by (auto simp: write_trace_def write_failed_def disk_grows_def)
next
  case False
  obtain st1 ok where w: "write_files env fate tr st = (st1, ok)" by (cases "write_files env fate tr st")
  have "dget (cd_traces (cs_disk st1)) k = Some v" if "dget (cd_traces (cs_disk st)) k = Some v" for k v
    using that False write_files_cases [OF w] by (metis dmem_get_Some)
  then show ?thesis
    using False w write_files_cases [OF w]
    by (cases ok) (auto simp: write_trace_def write_failed_def count_written_def append_index_def disk_grows_def)
qed

lemma release_grows [simp]: "disk_grows (release_capture d st) st' = disk_grows st st'"
  by (simp add: disk_grows_def release_capture_def)

lemma truncate_grows: "disk_grows st (fst (truncate_capture env fate d why st))"
  using write_trace_grows [of "release_capture d st"]
  by (auto simp: truncate_capture_def split: option.splits)

lemma truncate_each_grows: "disk_grows st (fst (truncate_each env fates why ds st))"
proof (induction ds arbitrary: st)
  case (Cons d ds)
  obtain st1 r where t: "truncate_capture env (fates d) d why st = (st1, r)"
    by (cases "truncate_capture env (fates d) d why st")
  then have "disk_grows st st1" using truncate_grows [of st env "fates d" d why] by simp
  then show ?case using Cons.IH [of st1] t by (cases r) (auto intro: disk_grows_trans)
qed simp

lemma close_grows: "disk_grows st (fst (close_capture env fate d meta st))"
  using write_trace_grows [of "release_capture d st"]
  by (auto simp: close_capture_def Let_def split: option.splits prod.splits) (metis fst_conv)+

lemma step_grows: "disk_grows st (capture_step b64 env st ev)"
proof (cases ev)
  case (Ev_Capture d args now fate)
  have "disk_grows st (fst (open_capture d cid meta now st))" for cid meta
    by (auto simp: open_capture_def disk_grows_def split: option.splits pyval.splits)
  moreover have "disk_grows st (abandon_capture d st)"
    by (simp add: abandon_capture_def release_capture_def disk_grows_def)
  ultimately show ?thesis
    using Ev_Capture close_grows by (auto simp: on_capture_def split: option.splits)
next
  case (Ev_Telemetry d args now fate)
  have "disk_grows st (fst (append_batch env fate d b now st))" for b
    using truncate_grows [of st env fate d] by (auto simp: append_batch_def disk_grows_def split: option.splits prod.splits)
      (metis fst_conv)+
  then show ?thesis using Ev_Telemetry by (auto simp: on_telemetry_def split: option.splits)
next
  case (Ev_Update now fates)
  then show ?thesis
    using truncate_each_grows [of st] by (auto simp: capture_update_def expire_captures_def split: prod.splits) (metis fst_conv)
next
  case (Ev_Unload fates)
  then show ?thesis
    using truncate_each_grows [of st] by (auto simp: capture_unload_def truncate_all_def split: prod.splits) (metis fst_conv)
qed

subsection \<open>The invariant\<close>

definition batch_ok :: "telemetry \<Rightarrow> bool" where
  "batch_ok b \<longleftrightarrow> dkeys (tm_axes b) = MOTION_AXES \<and> (\<forall>a xs. (a, xs) \<in> set (tm_axes b) \<longrightarrow> length xs = length (tm_t_ms b))
     \<and> even (length (tm_pcm b)) \<and> (tm_pcm b \<noteq> [] \<longrightarrow> tm_pcm_t0 b \<noteq> None) \<and> 0 \<le> tm_seq b"

definition trace_ok :: "capture_trace \<Rightarrow> bool" where
  "trace_ok tr \<longleftrightarrow> dkeys (tc_axes tr) = MOTION_AXES \<and> (\<forall>a xs. (a, xs) \<in> set (tc_axes tr) \<longrightarrow> length xs = length (tc_t_ms tr))
     \<and> even (length (tc_pcm tr)) \<and> (tc_pcm tr \<noteq> [] \<longrightarrow> tc_pcm_t0 tr \<noteq> None) \<and> 0 \<le> tc_next tr
     \<and> sorted_wrt (\<lambda>x y. snd x < fst y) (tc_gaps tr) \<and> (\<forall>x \<in> set (tc_gaps tr). 0 \<le> fst x \<and> fst x < snd x \<and> snd x < tc_next tr)"

lemma decode_axes_ok: "decode_axes body n axes = Some d \<Longrightarrow> dkeys d = axes \<and> (\<forall>a xs. (a, xs) \<in> set d \<longrightarrow> length xs = n)"
proof (induction axes arbitrary: d)
  case (Cons a axes)
  have "numbers_of vs = Some xs \<Longrightarrow> length xs = length vs" for vs xs
    by (induction vs arbitrary: xs) (auto split: option.splits)
  then have "number_list v (Some n) = Some xs \<Longrightarrow> length xs = n" for v xs
    by (auto simp: number_list_def split: option.splits pyval.splits if_splits)
  with Cons show ?case by (auto split: option.splits)
qed simp

lemma non_negative_int_ge: "non_negative_int v = Some n \<Longrightarrow> 0 \<le> n"
  by (cases v rule: non_negative_int.cases) (auto split: if_splits)

lemma decode_pcm_ok: "decode_pcm b64 body = Some (pcm, t0) \<Longrightarrow> even (length pcm) \<and> (pcm \<noteq> [] \<longrightarrow> t0 \<noteq> None)"
  by (auto simp: decode_pcm_def split: option.splits pyval.splits if_splits)

lemma decoded_batch_ok: "decode_telemetry_batch b64 args = Some b \<Longrightarrow> batch_ok b"
  unfolding decode_telemetry_batch_def batch_ok_def
  by (auto split: list.splits pyval.splits option.splits if_splits prod.splits
      dest!: decode_axes_ok decode_pcm_ok simp: Option.bind_eq_Some_conv non_negative_int_ge)

lemma new_trace_ok [simp]: "trace_ok (new_trace s c l n d bt src w t)"
  by (auto simp: trace_ok_def new_trace_def comp_def)

lemma trace_append_frame:
  "trace_append b tr = Some tr' \<Longrightarrow> tc_dev tr' = tc_dev tr \<and> tc_label tr' = tc_label tr \<and> tc_series tr' = tc_series tr
     \<and> tc_capture_id tr' = tc_capture_id tr \<and> tc_window tr' = tc_window tr \<and> tc_source tr' = tc_source tr
     \<and> tc_session tr' = tc_session tr \<and> tc_next tr' = tm_seq b + 1"
  by (auto simp: trace_append_def split: if_splits)

lemma extend_axes_keys [simp]: "dkeys (extend_axes batch axes) = dkeys axes"
  by (simp add: extend_axes_def comp_def case_prod_beta)

lemma trace_append_ok:
  assumes "trace_append b tr = Some tr'" "trace_ok tr" "batch_ok b"
  shows "trace_ok tr'"
proof -
  have got: "\<exists>ys. dget (tm_axes b) a = Some ys \<and> length ys = length (tm_t_ms b)" if "a \<in> set MOTION_AXES" for a
  proof -
    have "dmem a (tm_axes b)" using that assms(3) by (simp add: batch_ok_def dmem_def)
    then obtain ys where ys: "dget (tm_axes b) a = Some ys" by (auto simp: dmem_iff_get)
    then have "(a, ys) \<in> set (tm_axes b)" by (rule map_of_SomeD)
    then show ?thesis using ys assms(3) by (auto simp: batch_ok_def)
  qed
  have axes: "length ys = length (tc_t_ms tr) + length (tm_t_ms b)"
    if e: "(a, ys) \<in> set (extend_axes (tm_axes b) (tc_axes tr))" for a ys
  proof -
    from e obtain xs where x: "(a, xs) \<in> set (tc_axes tr)"
        "ys = xs @ (case dget (tm_axes b) a of None \<Rightarrow> [] | Some ys \<Rightarrow> ys)"
      by (auto simp: extend_axes_def)
    then have "a \<in> set MOTION_AXES" using assms(2) by (metis trace_ok_def fst_conv image_eqI list.set_map)
    from got [OF this] x assms(2) show ?thesis by (auto simp: trace_ok_def)
  qed
  have seq: "\<not> tm_seq b < tc_next tr" using assms(1) by (auto simp: trace_append_def)
  then have tr': "tr' = tr\<lparr>
      tc_gaps := (if tc_next tr < tm_seq b then tc_gaps tr @ [(tc_next tr, tm_seq b)] else tc_gaps tr),
      tc_next := tm_seq b + 1, tc_t_ms := tc_t_ms tr @ tm_t_ms b, tc_axes := extend_axes (tm_axes b) (tc_axes tr),
      tc_pcm_t0 := (if tm_pcm b \<noteq> [] \<and> tc_pcm_t0 tr = None then tm_pcm_t0 b else tc_pcm_t0 tr),
      tc_pcm := tc_pcm tr @ tm_pcm b\<rparr>"
    using assms(1) by (simp add: trace_append_def)
  have gaps: "sorted_wrt (\<lambda>x y. snd x < fst y) (tc_gaps tr') \<and> (\<forall>x \<in> set (tc_gaps tr'). 0 \<le> fst x \<and> fst x < snd x \<and> snd x < tc_next tr')"
  proof -
    have old: "0 \<le> tc_next tr" "sorted_wrt (\<lambda>x y. snd x < fst y) (tc_gaps tr)"
      "\<And>x. x \<in> set (tc_gaps tr) \<Longrightarrow> 0 \<le> fst x \<and> fst x < snd x \<and> snd x < tc_next tr"
      using assms(2) by (auto simp: trace_ok_def)
    then have "\<And>x. x \<in> set (tc_gaps tr) \<Longrightarrow> snd x < tm_seq b + 1" using seq by fastforce
    with old show ?thesis by (auto simp: tr' sorted_wrt_append)
  qed
  have "dkeys (tc_axes tr') = MOTION_AXES" "even (length (tc_pcm tr'))" "tc_pcm tr' \<noteq> [] \<longrightarrow> tc_pcm_t0 tr' \<noteq> None" "0 \<le> tc_next tr'"
    using assms(2,3) by (auto simp: tr' trace_ok_def batch_ok_def)
  with gaps axes show ?thesis by (simp add: trace_ok_def tr')
qed

text \<open>A complete file: as many values on every axis as it says it has.\<close>

definition file_whole :: "pyval \<Rightarrow> bool" where
  "file_whole v \<longleftrightarrow> (\<exists>d s n. v = VDict d \<and> dget d ''n'' = Some (VInt (int n)) \<and> dget d ''samples'' = Some (VDict s)
     \<and> (\<forall>a \<in> set (''t_ms'' # MOTION_AXES). \<exists>xs. dget s a = Some (VList xs) \<and> length xs = n))"

definition store_ok :: "capture_store \<Rightarrow> bool" where
  "store_ok st \<longleftrightarrow> dict_ok (cs_open st) \<and> dkeys (cs_seen st) = dkeys (cs_open st)
     \<and> (\<forall>d tr. dget (cs_open st) d = Some tr \<longrightarrow> tc_dev tr = d \<and> trace_ok tr)
     \<and> (\<forall>d tr d' tr'. dget (cs_open st) d = Some tr \<longrightarrow> dget (cs_open st) d' = Some tr' \<longrightarrow>
           same_series (tc_label tr) (tc_series tr) tr' \<longrightarrow> d' = d)
     \<and> ''n'' \<notin> set (dkeys (cs_provenance st)) \<and> ''samples'' \<notin> set (dkeys (cs_provenance st))
     \<and> (\<forall>k v. dget (cd_traces (cs_disk st)) k = Some (Some v) \<longrightarrow> file_whole v)"

lemma dget_merge: "k \<notin> set (dkeys extra) \<Longrightarrow> dget (merge_dict d extra) k = dget d k"
  unfolding merge_dict_def by (induction extra arbitrary: d) (auto split: prod.splits)

lemma dget_sanitised: "dget (map (\<lambda>kv. (fst kv, sanitise (snd kv))) d) k = map_option sanitise (dget d k)"
  by (induction d) auto

lemma samples_whole:
  assumes "trace_ok tr" "a \<in> set (''t_ms'' # MOTION_AXES)"
  shows "\<exists>s xs. samples_dict tr = VDict s \<and> dget s a = Some (VList xs) \<and> length xs = length (tc_t_ms tr)"
proof (cases "a = ''t_ms''")
  case True
  then show ?thesis by (simp add: samples_dict_def)
next
  case False
  with assms(2) have a: "a \<in> set MOTION_AXES" by simp
  then have "dmem a (tc_axes tr)" using assms(1) by (simp add: trace_ok_def dmem_def)
  then obtain xs where xs: "dget (tc_axes tr) a = Some xs" by (auto simp: dmem_iff_get)
  with map_of_SomeD [OF xs] assms(1) have "length xs = length (tc_t_ms tr)" by (auto simp: trace_ok_def)
  then show ?thesis
    using a xs False by (simp add: samples_dict_def map_of_map_restrict)
qed

lemma trace_ok_marks [simp]:
  "trace_ok (tr\<lparr>tc_truncated := b, tc_notes := w\<rparr>) = trace_ok tr" "trace_ok (tr\<lparr>tc_outputs := v\<rparr>) = trace_ok tr"
  by (simp_all add: trace_ok_def)

lemma written_whole:
  assumes "trace_dict fmt af tr = Some d0" "trace_ok tr" "''n'' \<notin> set (dkeys prov)" "''samples'' \<notin> set (dkeys prov)"
  shows "file_whole (sanitise (VDict (merge_dict d0 prov)))"
proof -
  have n: "dget d0 ''n'' = Some (VInt (int (length (tc_t_ms tr))))" and s: "dget d0 ''samples'' = Some (samples_dict tr)"
    using assms(1) by (auto simp: trace_dict_def split: option.splits)
  obtain sd where sd: "samples_dict tr = VDict sd" by (simp add: samples_dict_def)
  have "\<exists>xs. dget (map (\<lambda>kv. (fst kv, sanitise (snd kv))) sd) a = Some (VList xs) \<and> length xs = length (tc_t_ms tr)"
    if "a \<in> set (''t_ms'' # MOTION_AXES)" for a
    using samples_whole [OF assms(2) that] sd by (auto simp: dget_sanitised)
  moreover have "dget (map (\<lambda>kv. (fst kv, sanitise (snd kv))) (merge_dict d0 prov)) ''n'' = Some (VInt (int (length (tc_t_ms tr))))"
    "dget (map (\<lambda>kv. (fst kv, sanitise (snd kv))) (merge_dict d0 prov)) ''samples'' = Some (VDict (map (\<lambda>kv. (fst kv, sanitise (snd kv))) sd))"
    using assms(3,4) n s sd by (simp_all add: dget_sanitised dget_merge)
  ultimately show ?thesis unfolding file_whole_def by (simp only: sanitise.simps) blast
qed

lemma write_files_key:
  assumes "write_files env fate tr st = (st', ok)"
  shows "dget (cd_traces (cs_disk st')) (tc_label tr, se_stem env (tc_series tr))
      \<in> {dget (cd_traces (cs_disk st)) (tc_label tr, se_stem env (tc_series tr)), Some None}
    \<or> (\<exists>d0. trace_dict (se_fmt env) (if tc_pcm tr = [] then None else Some (se_stem env (tc_series tr) @ ''.wav'')) tr = Some d0
        \<and> dget (cd_traces (cs_disk st')) (tc_label tr, se_stem env (tc_series tr))
            = Some (Some (sanitise (VDict (merge_dict d0 (cs_provenance st))))))"
  using assms
  by (auto simp: write_files_def Let_def split: option.splits text_fate.splits if_splits simp del: sanitise.simps)

lemma write_trace_whole:
  assumes "store_ok st" "trace_ok tr" "dget (cd_traces (cs_disk (fst (write_trace env fate tr st)))) k = Some (Some v)"
  shows "file_whole v"
proof -
  obtain st1 ok where w: "write_files env fate tr st = (st1, ok)" by (cases "write_files env fate tr st")
  have old: "dget (cd_traces (cs_disk st)) k = Some (Some v) \<Longrightarrow> file_whole v" for k
    using assms(1) unfolding store_ok_def by blast
  have same: "cd_traces (cs_disk (append_index env fate tr (count_written l s))) = cd_traces (cs_disk s)"
    "cd_traces (cs_disk (write_failed s)) = cd_traces (cs_disk s)" "cd_traces (cs_disk (count_written l s)) = cd_traces (cs_disk s)" for l s
    by (simp_all add: append_index_def count_written_def write_failed_def)
  have "dget (cd_traces (cs_disk st1)) k = Some (Some v) \<or> dget (cd_traces (cs_disk st)) k = Some (Some v)"
    using assms(3) w by (cases ok) (auto simp: write_trace_def same split: if_splits)
  moreover have "file_whole v" if v: "dget (cd_traces (cs_disk st1)) k = Some (Some v)"
  proof (cases "k = (tc_label tr, se_stem env (tc_series tr))")
    case True
    then show ?thesis
      using write_files_key [OF w] v old written_whole [OF _ assms(2)] assms(1)
      by (auto simp: store_ok_def simp del: sanitise.simps)
  next
    case False
    with write_files_cases [OF w] v have "dget (cd_traces (cs_disk st)) k = Some (Some v)" by metis
    then show ?thesis by (rule old)
  qed
  ultimately show ?thesis using old by blast
qed

lemma store_ok_write:
  assumes "store_ok st" "trace_ok tr"
  shows "store_ok (fst (write_trace env fate tr st))"
  using assms(1) write_trace_same [of st env fate tr] write_trace_whole [OF assms]
  unfolding store_ok_def same_captures_def by fastforce

lemma store_ok_release: "store_ok st \<Longrightarrow> store_ok (release_capture d st)"
  by (auto simp: store_ok_def release_capture_def dkeys_dpop split: if_splits)

lemma store_ok_get: "store_ok st \<Longrightarrow> dget (cs_open st) d = Some tr \<Longrightarrow> tc_dev tr = d \<and> trace_ok tr"
  unfolding store_ok_def by blast

lemma store_ok_truncate: "store_ok st \<Longrightarrow> store_ok (fst (truncate_capture env fate d why st))"
  by (auto simp: truncate_capture_def dest: store_ok_get intro!: store_ok_write store_ok_release split: option.splits)

lemma store_ok_truncate_each: "store_ok st \<Longrightarrow> store_ok (fst (truncate_each env fates why ds st))"
proof (induction ds arbitrary: st)
  case (Cons d ds)
  obtain st1 r where t: "truncate_capture env (fates d) d why st = (st1, r)"
    by (cases "truncate_capture env (fates d) d why st")
  then have "store_ok st1" using store_ok_truncate [OF Cons.prems, of env "fates d" d why] by simp
  then show ?case using Cons.IH t by (cases r) auto
qed simp

lemma store_ok_set:
  assumes "store_ok st" "tc_dev tr = d" "trace_ok tr"
    and only: "\<And>d' tr'. dget (cs_open st) d' = Some tr' \<Longrightarrow> same_series (tc_label tr) (tc_series tr) tr' \<Longrightarrow> d' = d"
  shows "store_ok (st\<lparr>cs_open := dset d tr (cs_open st), cs_seen := dset d now (cs_seen st)\<rparr>)"
proof -
  have keys: "dkeys (dset d now (cs_seen st)) = dkeys (dset d tr (cs_open st))"
    using assms(1) by (simp add: store_ok_def dkeys_dset dmem_def)
  have ok: "tc_dev y = b \<and> trace_ok y" if "dget (dset d tr (cs_open st)) b = Some y" for b y
    using that assms(2,3) store_ok_get [OF assms(1), of b y] by (auto split: if_splits)
  have uniq: "b = a" if a: "dget (dset d tr (cs_open st)) a = Some x" and b: "dget (dset d tr (cs_open st)) b = Some y"
      and same: "same_series (tc_label x) (tc_series x) y" for a b x y
  proof -
    have sym: "same_series (tc_label y) (tc_series y) x" using same by (simp add: same_series_def)
    have "\<lbrakk>dget (cs_open st) a = Some x; dget (cs_open st) b = Some y\<rbrakk> \<Longrightarrow> b = a"
      using assms(1) same unfolding store_ok_def by blast
    with only [of a x] only [of b y] a b same sym show ?thesis by (auto split: if_splits)
  qed
  have old: "dict_ok (cs_open st)" "''n'' \<notin> set (dkeys (cs_provenance st))" "''samples'' \<notin> set (dkeys (cs_provenance st))"
    "\<forall>k v. dget (cd_traces (cs_disk st)) k = Some (Some v) \<longrightarrow> file_whole v"
    using assms(1) unfolding store_ok_def by blast+
  let ?st = "st\<lparr>cs_open := dset d tr (cs_open st), cs_seen := dset d now (cs_seen st)\<rparr>"
  have f: "cs_open ?st = dset d tr (cs_open st)" "cs_seen ?st = dset d now (cs_seen st)" "cs_provenance ?st = cs_provenance st"
    "cs_disk ?st = cs_disk st"
    by simp_all
  show ?thesis
    unfolding store_ok_def f using old(2-4) keys ok uniq dict_ok_dset [OF old(1)] by blast
qed

lemma store_ok_open: "store_ok st \<Longrightarrow> store_ok (fst (open_capture d cid meta now st))"
proof -
  assume ok: "store_ok st"
  have "store_ok (st\<lparr>cs_open := dset d (new_trace s cid label series d bt src w t) (cs_open st), cs_seen := dset d now (cs_seen st)\<rparr>)"
    if "\<not> list_ex (\<lambda>x. same_series label series (snd x)) (cs_open st)" for s label series bt src w t
  proof (rule store_ok_set [OF ok])
    fix d' tr' assume "dget (cs_open st) d' = Some tr'"
      "same_series (tc_label (new_trace s cid label series d bt src w t)) (tc_series (new_trace s cid label series d bt src w t)) tr'"
    with that show "d' = d" by (auto simp: list_ex_iff new_trace_def dest!: map_of_SomeD)
  qed (simp_all add: new_trace_def new_trace_ok [unfolded new_trace_def])
  with ok show ?thesis by (auto simp: open_capture_def split: option.splits pyval.splits)
qed

lemma store_ok_append: "store_ok st \<Longrightarrow> batch_ok b \<Longrightarrow> store_ok (fst (append_batch env fate d b now st))"
proof -
  assume ok: "store_ok st" and b: "batch_ok b"
  have "store_ok (st\<lparr>cs_open := dset d tr' (cs_open st), cs_seen := dset d now (cs_seen st)\<rparr>)"
    if get: "dget (cs_open st) d = Some tr" and app: "trace_append b tr = Some tr'" for tr tr'
  proof (rule store_ok_set [OF ok])
    show "tc_dev tr' = d" "trace_ok tr'"
      using store_ok_get [OF ok get] trace_append_ok [OF app _ b] trace_append_frame [OF app] by auto
    fix d' x assume "dget (cs_open st) d' = Some x" "same_series (tc_label tr') (tc_series tr') x"
    with ok get trace_append_frame [OF app] show "d' = d" unfolding store_ok_def by metis
  qed
  with ok store_ok_truncate [OF ok, of env fate d] show "store_ok (fst (append_batch env fate d b now st))"
    by (simp add: append_batch_def case_prod_beta split: option.split)
qed

lemma store_ok_close: "store_ok st \<Longrightarrow> store_ok (fst (close_capture env fate d meta st))"
proof (cases "dget (cs_open st) d")
  case (Some tr)
  assume ok: "store_ok st"
  have "store_ok (fst (write_trace env fate (tr\<lparr>tc_outputs := v\<rparr>) (release_capture d st)))" for v
    using store_ok_get [OF ok Some] by (intro store_ok_write store_ok_release ok) simp
  with Some show ?thesis by (simp add: close_capture_def Let_def case_prod_beta)
qed (simp add: close_capture_def)

lemma store_ok_step: "store_ok st \<Longrightarrow> store_ok (capture_step b64 env st ev)"
proof (cases ev)
  case (Ev_Capture d args now fate)
  assume "store_ok st"
  then show ?thesis
    using Ev_Capture store_ok_open store_ok_close store_ok_release
    by (auto simp: on_capture_def abandon_capture_def split: option.splits)
next
  case (Ev_Telemetry d args now fate)
  assume "store_ok st"
  then show ?thesis
    using Ev_Telemetry store_ok_append decoded_batch_ok by (auto simp: on_telemetry_def split: option.splits)
next
  case (Ev_Update now fates)
  assume "store_ok st"
  then show ?thesis using Ev_Update store_ok_truncate_each
    by (simp add: capture_update_def expire_captures_def case_prod_beta)
next
  case (Ev_Unload fates)
  assume "store_ok st"
  then show ?thesis using Ev_Unload store_ok_truncate_each
    by (simp add: capture_unload_def truncate_all_def case_prod_beta)
qed

interpretation captures: machine "capture_step b64 env" store_ok for b64 env
  by unfold_locales (rule store_ok_step)

lemma new_store_ok:
  "''n'' \<notin> set (dkeys prov) \<Longrightarrow> ''samples'' \<notin> set (dkeys prov) \<Longrightarrow> cd_traces disk = [] \<Longrightarrow> store_ok (new_store s bt prov disk)"
  by (simp add: store_ok_def new_store_def)

end
