(* ===== verification/Capture_Runs.thy ===== *)
theory Capture_Runs
  imports Capture_Facts
begin

section \<open>Runs of a capture session\<close>

text \<open>
  What holds of whole sessions of \<open>src/capture/store.py\<close>: traces on disk stay, captures are accounted for, a silent
  device's capture is closed, and a stream that is sent in chunks is on disk as it was recorded.
\<close>

subsection \<open>Every capture is accounted for\<close>

definition written_captures :: "capture_store \<Rightarrow> nat" where
  "written_captures st = sum_list (map snd (cs_counts st))"

definition capture_balance :: "capture_store \<Rightarrow> nat" where
  "capture_balance st = length (cs_open st) + written_captures st + cs_failures st"

definition calm :: "write_fate \<Rightarrow> bool" where
  "calm fate \<longleftrightarrow> \<not> wf_lookup_raises fate \<and> wf_index fate"

fun calm_event :: "capture_event \<Rightarrow> bool" where
  "calm_event (Ev_Capture d args now fate) \<longleftrightarrow> calm fate"
| "calm_event (Ev_Telemetry d args now fate) \<longleftrightarrow> calm fate"
| "calm_event (Ev_Update now fates) \<longleftrightarrow> (\<forall>d. calm (fates d))"
| "calm_event (Ev_Unload fates) \<longleftrightarrow> (\<forall>d. calm (fates d))"

fun opened :: "store_env \<Rightarrow> capture_store \<Rightarrow> capture_event \<Rightarrow> nat" where
  "opened env st (Ev_Capture d args now fate) =
     (case decode_capture_command args of
        Some (act, cid, meta) \<Rightarrow> if act = ''open'' \<and> snd (on_capture env fate d args now st) = Taken then 1 else 0
      | None \<Rightarrow> 0)"
| "opened env st _ = 0"

fun abandoned :: "capture_store \<Rightarrow> capture_event \<Rightarrow> nat" where
  "abandoned st (Ev_Capture d args now fate) =
     (case decode_capture_command args of
        Some (act, cid, meta) \<Rightarrow> if act = ''abandon'' \<and> dmem d (cs_open st) then 1 else 0
      | None \<Rightarrow> 0)"
| "abandoned st _ = 0"

fun opened_run :: "(string \<Rightarrow> byte list option) \<Rightarrow> store_env \<Rightarrow> capture_store \<Rightarrow> capture_event list \<Rightarrow> nat" where
  "opened_run b64 env st [] = 0"
| "opened_run b64 env st (ev # evs) = opened env st ev + opened_run b64 env (capture_step b64 env st ev) evs"

fun abandoned_run :: "(string \<Rightarrow> byte list option) \<Rightarrow> store_env \<Rightarrow> capture_store \<Rightarrow> capture_event list \<Rightarrow> nat" where
  "abandoned_run b64 env st [] = 0"
| "abandoned_run b64 env st (ev # evs) = abandoned st ev + abandoned_run b64 env (capture_step b64 env st ev) evs"

lemma count_up: "sum_list (map snd (dset k (Suc (case dget d k of None \<Rightarrow> 0 | Some n \<Rightarrow> n)) d)) = Suc (sum_list (map snd d))"
  by (induction d) auto

lemma write_balance:
  assumes "calm fate"
  shows "written_captures (fst (write_trace env fate tr st)) + cs_failures (fst (write_trace env fate tr st))
      = Suc (written_captures st + cs_failures st)"
    and "\<not> snd (write_trace env fate tr st)"
proof -
  obtain st1 ok where w: "write_files env fate tr st = (st1, ok)" by (cases "write_files env fate tr st")
  have "written_captures (append_index env fate tr (count_written l s)) = Suc (written_captures s)"
    "cs_failures (append_index env fate tr (count_written l s)) = cs_failures s"
    "written_captures (write_failed s) = written_captures s" "cs_failures (write_failed s) = Suc (cs_failures s)" for l s
    using assms by (simp_all add: written_captures_def count_written_def count_up calm_def append_index_def write_failed_def)
  then show "written_captures (fst (write_trace env fate tr st)) + cs_failures (fst (write_trace env fate tr st))
      = Suc (written_captures st + cs_failures st)" "\<not> snd (write_trace env fate tr st)"
    using w write_files_cases [OF w] assms
    by (cases ok; simp add: write_trace_def calm_def written_captures_def)+
qed

lemma release_balance:
  assumes "store_ok st" "dget (cs_open st) d = Some tr"
  shows "Suc (length (cs_open (release_capture d st))) = length (cs_open st)"
    and "written_captures (release_capture d st) = written_captures st" "cs_failures (release_capture d st) = cs_failures st"
  using assms by (auto simp: release_capture_def written_captures_def store_ok_def dmem_iff_get intro!: length_dpop)

lemma finish_balance:
  assumes "store_ok st" "dget (cs_open st) d = Some tr" "calm fate"
  shows "capture_balance (fst (write_trace env fate tr' (release_capture d st))) = capture_balance st"
    and "cs_open (fst (write_trace env fate tr' (release_capture d st))) = dpop d (cs_open st)"
    and "cs_seen (fst (write_trace env fate tr' (release_capture d st))) = dpop d (cs_seen st)"
proof -
  have same: "cs_open (fst (write_trace env fate tr' (release_capture d st))) = cs_open (release_capture d st)"
    "cs_seen (fst (write_trace env fate tr' (release_capture d st))) = cs_seen (release_capture d st)"
    using write_trace_same [of "release_capture d st" env fate tr'] by (simp_all add: same_captures_def)
  then show "capture_balance (fst (write_trace env fate tr' (release_capture d st))) = capture_balance st"
    using release_balance [OF assms(1,2)] write_balance(1) [OF assms(3), of env tr' "release_capture d st"]
    by (simp add: capture_balance_def)
  show "cs_open (fst (write_trace env fate tr' (release_capture d st))) = dpop d (cs_open st)"
    "cs_seen (fst (write_trace env fate tr' (release_capture d st))) = dpop d (cs_seen st)"
    using same by (simp_all add: release_capture_def)
qed

lemma truncate_each_runs:
  assumes "store_ok st" "distinct ds" "set ds \<subseteq> set (dkeys (cs_open st))" "\<forall>d. calm (fates d)"
  shows "capture_balance (fst (truncate_each env fates why ds st)) = capture_balance st
    \<and> \<not> snd (truncate_each env fates why ds st)
    \<and> (\<forall>d. dget (cs_open (fst (truncate_each env fates why ds st))) d = (if d \<in> set ds then None else dget (cs_open st) d))"
  using assms
proof (induction ds arbitrary: st)
  case (Cons d ds)
  have "dmem d (cs_open st)" using Cons.prems(3) by (simp add: dmem_def)
  then obtain tr where tr: "dget (cs_open st) d = Some tr" by (auto simp: dmem_iff_get)
  have calm: "calm (fates d)" using Cons.prems(4) by blast
  obtain st1 r where t1: "truncate_capture env (fates d) d why st = (st1, r)" by fastforce
  then have t: "truncate_capture env (fates d) d why st = (st1, False)"
    using tr write_balance(2) [OF calm] by (simp add: truncate_capture_def prod_eq_iff)
  have st1: "capture_balance st1 = capture_balance st" "cs_open st1 = dpop d (cs_open st)"
    using finish_balance [OF Cons.prems(1) tr calm] tr t by (auto simp: truncate_capture_def prod_eq_iff)
  have "store_ok st1" using store_ok_truncate [OF Cons.prems(1), of env "fates d" d why] t by simp
  moreover have "set ds \<subseteq> set (dkeys (cs_open st1))" using Cons.prems(2,3) by (auto simp: st1 dkeys_dpop)
  ultimately have "capture_balance (fst (truncate_each env fates why ds st1)) = capture_balance st1
      \<and> \<not> snd (truncate_each env fates why ds st1)
      \<and> (\<forall>d. dget (cs_open (fst (truncate_each env fates why ds st1))) d = (if d \<in> set ds then None else dget (cs_open st1) d))"
    using Cons.IH [of st1] Cons.prems(2,4) by simp
  then show ?case by (simp add: t st1)
qed simp

lemma idle_devices_open:
  "store_ok st \<Longrightarrow> distinct (idle_devices idle now st) \<and> set (idle_devices idle now st) \<subseteq> set (dkeys (cs_open st))"
proof -
  assume ok: "store_ok st"
  have sub: "set (idle_devices idle now st) \<subseteq> set (dkeys (cs_seen st))" by (auto simp: idle_devices_def)
  have "distinct (dkeys (cs_seen st))" using ok by (simp add: store_ok_def)
  then have "distinct (idle_devices idle now st)"
    unfolding idle_devices_def by (rule distinct_map_filter)
  moreover have "dkeys (cs_seen st) = dkeys (cs_open st)" using ok by (simp add: store_ok_def)
  ultimately show ?thesis using sub by metis
qed

lemma truncate_balance:
  assumes "store_ok st" "dget (cs_open st) d = Some tr" "calm fate"
  shows "capture_balance (fst (truncate_capture env fate d why st)) = capture_balance st"
  using assms finish_balance(1) by (simp add: truncate_capture_def)

lemma capture_balance_step:
  assumes ok: "store_ok st" and calm: "calm_event ev"
  shows "capture_balance (capture_step b64 env st ev) + abandoned st ev = capture_balance st + opened env st ev"
proof (cases ev)
  case (Ev_Capture d args now fate)
  then have fate: "calm fate" using calm by simp
  show ?thesis
  proof (cases "decode_capture_command args")
    case None
    then show ?thesis using Ev_Capture by (simp add: on_capture_def)
  next
    case (Some c)
    obtain act cid meta where c: "c = (act, cid, meta)" by (cases c)
    have "act \<in> set CAPTURE_ACTIONS"
      using Some c by (auto simp: decode_capture_command_def split: list.splits pyval.splits option.splits if_splits)
    then consider "act = ''open''" | "act = ''close''" | "act = ''abandon''" by (auto simp: CAPTURE_ACTIONS_def)
    then show ?thesis
    proof cases
      case 1
      have "capture_balance (fst (open_capture d cid meta now st))
          = capture_balance st + (if snd (open_capture d cid meta now st) = Taken then 1 else 0)"
        by (auto simp: open_capture_def capture_balance_def written_captures_def length_dset split: option.splits pyval.splits)
      with 1 Some c Ev_Capture show ?thesis by (simp add: on_capture_def)
    next
      case 2
      have "capture_balance (fst (close_capture env fate d meta st)) = capture_balance st"
        using finish_balance(1) [OF ok _ fate]
        by (simp add: close_capture_def Let_def case_prod_beta split: option.split)
      with 2 Some c Ev_Capture show ?thesis by (simp add: on_capture_def)
    next
      case 3
      have "capture_balance (abandon_capture d st) + (if dmem d (cs_open st) then 1 else 0) = capture_balance st"
        using release_balance [OF ok] by (auto simp: abandon_capture_def capture_balance_def dmem_iff_get)
      with 3 Some c Ev_Capture show ?thesis by (simp add: on_capture_def)
    qed
  qed
next
  case (Ev_Telemetry d args now fate)
  then have fate: "calm fate" using calm by simp
  have "capture_balance (fst (append_batch env fate d b now st)) = capture_balance st" for b
    using truncate_balance [OF ok _ fate]
    by (simp add: append_batch_def case_prod_beta capture_balance_def written_captures_def length_dset dmem_get_Some split: option.split)
  with Ev_Telemetry show ?thesis by (simp add: on_telemetry_def split: option.split)
next
  case (Ev_Update now fates)
  then show ?thesis
    using truncate_each_runs [OF ok] idle_devices_open [OF ok] calm
    by (simp add: capture_update_def expire_captures_def case_prod_beta)
next
  case (Ev_Unload fates)
  moreover have "distinct (dkeys (cs_open st))" using ok by (simp add: store_ok_def)
  ultimately show ?thesis
    using truncate_each_runs [OF ok, of "dkeys (cs_open st)" fates] calm
    by (simp add: capture_unload_def truncate_all_def case_prod_beta)
qed

text \<open>
  C39: A capture that was opened is still open, written and counted, a counted failure, or abandoned by its device: none is
  dropped on the way, in any sequence of commands, telemetry, ticks and unloads in which the file system can be asked
  for a file and takes every line of the index (the other writes may fail). What a file that cannot be asked for
  does is \<open>unreadable_file_breaks_the_tick\<close>.
\<close>
theorem every_capture_is_accounted_for:
  assumes "store_ok st" and "\<forall>ev \<in> set evs. calm_event ev"
  shows "length (cs_open st) + written_captures st + cs_failures st + opened_run b64 env st evs
    = (let st' = foldl (capture_step b64 env) st evs
       in length (cs_open st') + written_captures st' + cs_failures st' + abandoned_run b64 env st evs)"
proof -
  have "capture_balance (foldl (capture_step b64 env) st evs) + abandoned_run b64 env st evs
      = capture_balance st + opened_run b64 env st evs"
    using assms
  proof (induction evs arbitrary: st)
    case (Cons ev evs)
    have "store_ok (capture_step b64 env st ev)" by (rule store_ok_step [OF Cons.prems(1)])
    then show ?case
      using Cons.IH [of "capture_step b64 env st ev"] Cons.prems(2) capture_balance_step [OF Cons.prems(1), of ev b64 env]
      by simp
  qed simp
  then show ?thesis by (simp add: capture_balance_def Let_def)
qed

subsection \<open>What is on disk stays\<close>

lemma written_traces_stay: "disk_grows st (foldl (capture_step b64 env) st evs)"
  by (induction evs arbitrary: st) (auto intro: disk_grows_trans step_grows)

lemma captures_stay_sound:
  assumes "''n'' \<notin> set (dkeys prov)" "''samples'' \<notin> set (dkeys prov)"
  shows "store_ok (foldl (capture_step b64 env) (new_store s bt prov \<lparr>cd_traces = [], cd_wavs = [], cd_index = []\<rparr>) evs)"
  by (rule captures.inv_run, rule new_store_ok) (use assms in simp_all)

subsection \<open>A silent device\<close>

lemma silent_captures_are_closed:
  assumes ok: "store_ok st" and calm: "\<forall>d. calm (fates d)"
  shows "snd (capture_update env fates now st) = Ret False"
    and "dget (cs_open (fst (capture_update env fates now st))) d =
      (case dget (cs_seen st) d of
         Some seen \<Rightarrow> if IDLE_TIMEOUT_S \<le> now - seen then None else dget (cs_open st) d
       | None \<Rightarrow> None)"
proof -
  let ?ds = "idle_devices IDLE_TIMEOUT_S now st"
  have keys: "dkeys (cs_seen st) = dkeys (cs_open st)" and dis: "distinct (dkeys (cs_seen st))"
    using ok by (simp_all add: store_ok_def)
  note run = truncate_each_runs [OF ok, of ?ds fates env "Silent_For IDLE_TIMEOUT_S"]
  have r: "\<not> snd (expire_captures env fates IDLE_TIMEOUT_S now st)"
    "\<forall>d. dget (cs_open (fst (expire_captures env fates IDLE_TIMEOUT_S now st))) d = (if d \<in> set ?ds then None else dget (cs_open st) d)"
    using run idle_devices_open [OF ok] calm by (simp_all add: expire_captures_def)
  have mem: "d \<in> set ?ds \<longleftrightarrow> (\<exists>seen. dget (cs_seen st) d = Some seen \<and> IDLE_TIMEOUT_S \<le> now - seen)" for d
    using dis by (force simp: idle_devices_def)
  have none: "dget (cs_seen st) d = None \<Longrightarrow> dget (cs_open st) d = None" for d
    using keys by (metis dget_None_iff dmem_def)
  show "snd (capture_update env fates now st) = Ret False"
    using r(1) by (simp add: capture_update_def case_prod_beta)
  show "dget (cs_open (fst (capture_update env fates now st))) d =
      (case dget (cs_seen st) d of
         Some seen \<Rightarrow> if IDLE_TIMEOUT_S \<le> now - seen then None else dget (cs_open st) d
       | None \<Rightarrow> None)"
    using r(2) mem [of d] none [of d] by (simp add: capture_update_def case_prod_beta split: option.split)
qed

text \<open>
  Asking for a file is outside the guarded part of the write: when it raises (the pattern of a label puts no bound
  on its length, a file system does), the capture is gone, nothing of it is written or counted, and the exception
  goes through \<open>update\<close> into the tick; the other silent devices wait for the next one.
\<close>
lemma unreadable_file_breaks_the_tick:
  assumes "idle_devices IDLE_TIMEOUT_S now st = d # ds" and "dget (cs_open st) d = Some tr"
    and "wf_lookup_raises (fates d)"
  shows "capture_update env fates now st = (release_capture d st, Raised)"
  using assms by (simp add: capture_update_def expire_captures_def truncate_capture_def write_trace_def)

subsection \<open>From the producer to the disk\<close>

definition send_batches :: "store_env \<Rightarrow> write_fate \<Rightarrow> dev \<Rightarrow> rat \<Rightarrow> telemetry list \<Rightarrow> capture_store \<Rightarrow> capture_store" where
  "send_batches env fate d now bs st = foldl (\<lambda>st b. fst (append_batch env fate d b now st)) st bs"

definition stream_of :: "capture_trace \<Rightarrow> telemetry list \<Rightarrow> bool" where
  "stream_of tr bs \<longleftrightarrow> (\<forall>b \<in> set bs. tm_capture_id b = tc_capture_id tr \<and> \<not> past_window b tr)
     \<and> map tm_seq bs = map (\<lambda>i. tc_next tr + int i) [0..<length bs]"

lemma dget_extend: "dget (extend_axes batch axes) a
    = map_option (\<lambda>xs. xs @ (case dget batch a of None \<Rightarrow> [] | Some ys \<Rightarrow> ys)) (dget axes a)"
  by (induction axes) (auto simp: extend_axes_def)

lemma stream_step:
  assumes get: "dget (cs_open st) d = Some tr" and st: "stream_of tr (b # bs)"
  shows "\<exists>tr1. append_batch env fate d b now st
      = (st\<lparr>cs_open := dset d tr1 (cs_open st), cs_seen := dset d now (cs_seen st)\<rparr>, Taken)
    \<and> trace_append b tr = Some tr1 \<and> stream_of tr1 bs \<and> tc_gaps tr1 = tc_gaps tr \<and> tc_notes tr1 = tc_notes tr
    \<and> tc_truncated tr1 = tc_truncated tr \<and> tc_t_ms tr1 = tc_t_ms tr @ tm_t_ms b \<and> tc_pcm tr1 = tc_pcm tr @ tm_pcm b
    \<and> tc_axes tr1 = extend_axes (tm_axes b) (tc_axes tr)"
proof -
  have seqs: "tm_seq b # map tm_seq bs = map (\<lambda>i. tc_next tr + int i) [0..<Suc (length bs)]"
    using st by (simp add: stream_of_def)
  have "[0..<Suc (length bs)] = 0 # map Suc [0..<length bs]" by (simp add: map_Suc_upt upt_conv_Cons del: upt_Suc)
  then have seq: "tm_seq b = tc_next tr" "map tm_seq bs = map (\<lambda>i. tc_next tr + 1 + int i) [0..<length bs]"
    using seqs by (simp_all add: comp_def add.assoc del: upt_Suc)
  then obtain tr1 where tr1: "trace_append b tr = Some tr1" by (simp add: trace_append_def)
  have f: "tc_capture_id tr1 = tc_capture_id tr" "tc_window tr1 = tc_window tr" "tc_next tr1 = tc_next tr + 1"
    using trace_append_frame [OF tr1] seq(1) by simp_all
  have "stream_of tr1 bs"
    using st seq(2) by (auto simp: stream_of_def f past_window_def)
  moreover have "append_batch env fate d b now st
      = (st\<lparr>cs_open := dset d tr1 (cs_open st), cs_seen := dset d now (cs_seen st)\<rparr>, Taken)"
    using get tr1 st by (simp add: append_batch_def stream_of_def)
  ultimately show ?thesis
    using tr1 seq(1) by (intro exI [of _ tr1]) (auto simp: trace_append_def)
qed

lemma stream_is_collected:
  assumes "dget (cs_open st) d = Some tr" and "stream_of tr bs"
  shows "\<exists>tr'. dget (cs_open (send_batches env fate d now bs st)) d = Some tr'
    \<and> cs_disk (send_batches env fate d now bs st) = cs_disk st
    \<and> cs_provenance (send_batches env fate d now bs st) = cs_provenance st
    \<and> tc_label tr' = tc_label tr \<and> tc_series tr' = tc_series tr \<and> tc_source tr' = tc_source tr
    \<and> tc_gaps tr' = tc_gaps tr \<and> tc_truncated tr' = tc_truncated tr
    \<and> tc_t_ms tr' = tc_t_ms tr @ concat (map tm_t_ms bs) \<and> tc_pcm tr' = tc_pcm tr @ concat (map tm_pcm bs)
    \<and> (\<forall>a. dget (tc_axes tr') a = map_option (\<lambda>xs. xs @ concat (map (\<lambda>b. case dget (tm_axes b) a of None \<Rightarrow> [] | Some ys \<Rightarrow> ys) bs)) (dget (tc_axes tr) a))"
  using assms
proof (induction bs arbitrary: st tr)
  case Nil
  then show ?case by (simp add: send_batches_def option.map_ident)
next
  case (Cons b bs)
  from stream_step [OF Cons.prems] obtain tr1 where
    app: "append_batch env fate d b now st = (st\<lparr>cs_open := dset d tr1 (cs_open st), cs_seen := dset d now (cs_seen st)\<rparr>, Taken)"
    and tr1: "trace_append b tr = Some tr1" "stream_of tr1 bs" "tc_gaps tr1 = tc_gaps tr" "tc_truncated tr1 = tc_truncated tr"
      "tc_t_ms tr1 = tc_t_ms tr @ tm_t_ms b" "tc_pcm tr1 = tc_pcm tr @ tm_pcm b"
      "tc_axes tr1 = extend_axes (tm_axes b) (tc_axes tr)"
    by blast
  let ?st1 = "st\<lparr>cs_open := dset d tr1 (cs_open st), cs_seen := dset d now (cs_seen st)\<rparr>"
  have s: "send_batches env fate d now (b # bs) st = send_batches env fate d now bs ?st1"
    by (simp add: send_batches_def app)
  have "dget (cs_open ?st1) d = Some tr1" by simp
  from Cons.IH [OF this tr1(2)] obtain tr' where
    tr': "dget (cs_open (send_batches env fate d now bs ?st1)) d = Some tr'"
      "cs_disk (send_batches env fate d now bs ?st1) = cs_disk st"
      "cs_provenance (send_batches env fate d now bs ?st1) = cs_provenance st"
      "tc_label tr' = tc_label tr1" "tc_series tr' = tc_series tr1" "tc_source tr' = tc_source tr1"
      "tc_gaps tr' = tc_gaps tr1" "tc_truncated tr' = tc_truncated tr1"
      "tc_t_ms tr' = tc_t_ms tr1 @ concat (map tm_t_ms bs)" "tc_pcm tr' = tc_pcm tr1 @ concat (map tm_pcm bs)"
    and axes: "\<And>a. dget (tc_axes tr') a = map_option (\<lambda>xs. xs @ concat (map (\<lambda>b. case dget (tm_axes b) a of None \<Rightarrow> [] | Some ys \<Rightarrow> ys) bs)) (dget (tc_axes tr1) a)"
    by auto
  have "dget (tc_axes tr') a = map_option (\<lambda>xs. xs @ concat (map (\<lambda>b. case dget (tm_axes b) a of None \<Rightarrow> [] | Some ys \<Rightarrow> ys) (b # bs))) (dget (tc_axes tr) a)" for a
    by (simp add: axes tr1(7) dget_extend option.map_comp comp_def)
  then show ?case
    unfolding s by (intro exI [of _ tr'] conjI allI) (simp_all add: tr' tr1 trace_append_frame [OF tr1(1)])
qed

lemma fair_write:
  assumes new: "\<not> dmem (tc_label tr, se_stem env (tc_series tr)) (cd_traces (cs_disk st))"
    and plain: "dget (tc_source tr) ''audio'' = None" and room: "36 + length (tc_pcm tr) < 2 ^ 32"
  shows "\<not> snd (write_trace env fair_fate tr st)"
    and "\<exists>af d0. trace_dict (se_fmt env) af tr = Some d0
      \<and> dget (cd_traces (cs_disk (fst (write_trace env fair_fate tr st)))) (tc_label tr, se_stem env (tc_series tr))
          = Some (Some (sanitise (VDict (merge_dict d0 (cs_provenance st)))))"
    and "tc_pcm tr \<noteq> [] \<Longrightarrow>
      dget (cd_wavs (cs_disk (fst (write_trace env fair_fate tr st)))) (tc_label tr, se_stem env (tc_series tr))
        = Some \<lparr>wv_rate = DEFAULT_AUDIO_RATE, wv_channels = 1, wv_pcm = tc_pcm tr\<rparr>"
proof -
  let ?af = "if tc_pcm tr = [] then None else Some (se_stem env (tc_series tr) @ ''.wav'')"
  have audio: "declared_audio tr k v = Some v" for k v using plain by (simp add: declared_audio_def)
  have wav: "wav_bytes (tc_pcm tr) (VInt DEFAULT_AUDIO_RATE)
      = Some \<lparr>wv_rate = DEFAULT_AUDIO_RATE, wv_channels = 1, wv_pcm = tc_pcm tr\<rparr>"
    using room by (simp add: wav_bytes_def wav_rate_def DEFAULT_AUDIO_RATE_def)
  have "\<exists>audio. audio_dict ?af tr = Some audio" by (simp add: audio_dict_def audio)
  then obtain d0 where d0: "trace_dict (se_fmt env) ?af tr = Some d0"
    unfolding trace_dict_def by (metis option.simps(5))
  obtain st1 where w: "write_files env fair_fate tr st = (st1, True)"
    and st1: "dget (cd_traces (cs_disk st1)) (tc_label tr, se_stem env (tc_series tr))
        = Some (Some (sanitise (VDict (merge_dict d0 (cs_provenance st)))))"
      "tc_pcm tr \<noteq> [] \<Longrightarrow> dget (cd_wavs (cs_disk st1)) (tc_label tr, se_stem env (tc_series tr))
        = Some \<lparr>wv_rate = DEFAULT_AUDIO_RATE, wv_channels = 1, wv_pcm = tc_pcm tr\<rparr>"
    using d0 by (cases "tc_pcm tr = []")
      (simp_all add: write_files_def Let_def dumps_never_raises audio wav fair_fate_def del: sanitise.simps)
  have fst: "fst (write_trace env fair_fate tr st) = append_index env fair_fate tr (count_written (tc_label tr) st1)"
    "\<not> snd (write_trace env fair_fate tr st)"
    using new w by (simp_all add: write_trace_def fair_fate_def)
  have disk: "cd_traces (cs_disk (append_index env fair_fate tr (count_written l s))) = cd_traces (cs_disk s)"
    "cd_wavs (cs_disk (append_index env fair_fate tr (count_written l s))) = cd_wavs (cs_disk s)" for l s
    by (simp_all add: append_index_def count_written_def)
  show "\<not> snd (write_trace env fair_fate tr st)" by (rule fst)
  show "\<exists>af d0. trace_dict (se_fmt env) af tr = Some d0
      \<and> dget (cd_traces (cs_disk (fst (write_trace env fair_fate tr st)))) (tc_label tr, se_stem env (tc_series tr))
          = Some (Some (sanitise (VDict (merge_dict d0 (cs_provenance st)))))"
    unfolding fst disk using d0 st1(1) by blast
  show "dget (cd_wavs (cs_disk (fst (write_trace env fair_fate tr st)))) (tc_label tr, se_stem env (tc_series tr))
        = Some \<lparr>wv_rate = DEFAULT_AUDIO_RATE, wv_channels = 1, wv_pcm = tc_pcm tr\<rparr>" if "tc_pcm tr \<noteq> []"
    unfolding fst disk by (rule st1(2) [OF that])
qed

text \<open>The values of one axis (or of the times) of a written file.\<close>

definition file_samples :: "pyval \<Rightarrow> string \<Rightarrow> pyval option" where
  "file_samples v a =
     (case v of
        VDict d \<Rightarrow> (case dget d ''samples'' of Some (VDict s) \<Rightarrow> dget s a | _ \<Rightarrow> None)
      | _ \<Rightarrow> None)"

definition file_entry :: "pyval \<Rightarrow> string \<Rightarrow> pyval option" where
  "file_entry v a = (case v of VDict d \<Rightarrow> dget d a | _ \<Rightarrow> None)"

definition number_values :: "pyfloat list \<Rightarrow> pyval" where
  "number_values xs = VList (map (sanitise \<circ> VFloat) xs)"

lemma written_samples:
  assumes "trace_dict fmt af tr = Some d0" "''samples'' \<notin> set (dkeys prov)"
  shows "file_samples (sanitise (VDict (merge_dict d0 prov))) ''t_ms'' = Some (number_values (tc_t_ms tr))"
    and "a \<in> set MOTION_AXES \<Longrightarrow> dget (tc_axes tr) a = Some xs \<Longrightarrow>
      file_samples (sanitise (VDict (merge_dict d0 prov))) a = Some (number_values xs)"
proof -
  have "dget d0 ''samples'' = Some (samples_dict tr)"
    using assms(1) by (auto simp: trace_dict_def split: option.splits)
  then have s: "file_samples (sanitise (VDict (merge_dict d0 prov))) k
      = (case sanitise (samples_dict tr) of VDict s \<Rightarrow> dget s k | _ \<Rightarrow> None)" for k
    using assms(2) by (simp add: file_samples_def dget_sanitised dget_merge)
  show "file_samples (sanitise (VDict (merge_dict d0 prov))) ''t_ms'' = Some (number_values (tc_t_ms tr))"
    unfolding s by (simp add: samples_dict_def number_values_def comp_def)
  have "a \<noteq> ''t_ms''" if "a \<in> set MOTION_AXES" using that by (auto simp: MOTION_AXES_def)
  then show "file_samples (sanitise (VDict (merge_dict d0 prov))) a = Some (number_values xs)"
    if "a \<in> set MOTION_AXES" "dget (tc_axes tr) a = Some xs"
    using that unfolding s by (simp add: samples_dict_def number_values_def comp_def map_of_map_restrict)
qed

lemma written_entries:
  assumes "trace_dict fmt af tr = Some d0" "''gaps'' \<notin> set (dkeys prov)" "''truncated'' \<notin> set (dkeys prov)"
  shows "tc_gaps tr = [] \<Longrightarrow> file_entry (sanitise (VDict (merge_dict d0 prov))) ''gaps'' = Some (VList [])"
    and "file_entry (sanitise (VDict (merge_dict d0 prov))) ''truncated'' = Some (VBool (tc_truncated tr))"
proof -
  have "tc_gaps tr = [] \<Longrightarrow> dget d0 ''gaps'' = Some (VList [])" "dget d0 ''truncated'' = Some (VBool (tc_truncated tr))"
    using assms(1) by (auto simp: trace_dict_def split: option.splits)
  then show "tc_gaps tr = [] \<Longrightarrow> file_entry (sanitise (VDict (merge_dict d0 prov))) ''gaps'' = Some (VList [])"
    "file_entry (sanitise (VDict (merge_dict d0 prov))) ''truncated'' = Some (VBool (tc_truncated tr))"
    using assms(2,3) by (simp_all add: file_entry_def dget_sanitised dget_merge)
qed

lemma chunks_are_a_stream:
  assumes "chunk_telemetry_batch weigh rate budget 0 body = Some cs"
    and fits: "\<forall>t \<in> set (tm_t_ms body). \<not> flt (fadd window (Fin WINDOW_GRACE_MS)) t"
  shows "\<exists>p. 0 < p \<and> cs = telemetry_chunks rate 0 body p"
    and "stream_of (new_trace s (tm_capture_id body) l n d bt src window t0) cs"
proof -
  have "chunk_search weigh budget (telemetry_chunks rate 0 body) [1..<length (tm_t_ms body) + 1] = Some cs"
    using assms(1) by (simp add: chunk_telemetry_batch_def Let_def split: if_splits)
  from chunk_search_some [OF this] obtain p where "p \<in> set [1..<length (tm_t_ms body) + 1]" and cs: "cs = telemetry_chunks rate 0 body p"
    by blast
  then have p: "0 < p" by (simp del: upt_Suc)
  then show "\<exists>p. 0 < p \<and> cs = telemetry_chunks rate 0 body p" using cs by blast
  have times: "set (tm_t_ms c) \<subseteq> set (tm_t_ms body)" if "c \<in> set cs" for c
  proof -
    have "set (tm_t_ms c) \<subseteq> set (concat (map tm_t_ms cs))" using that by auto
    then show ?thesis using chunks_t_ms [OF p, of rate 0 body] by (simp add: cs)
  qed
  have "\<not> past_window c (new_trace s (tm_capture_id body) l n d bt src window t0)" if "c \<in> set cs" for c
  proof (cases "tm_t_ms c = []")
    case False
    then have "last (tm_t_ms c) \<in> set (tm_t_ms body)" using times [OF that] last_in_set by blast
    then show ?thesis using fits by (simp add: past_window_def new_trace_def)
  qed (simp add: past_window_def)
  moreover have "tm_capture_id c = tm_capture_id body" if "c \<in> set cs" for c
    using that by (auto simp: cs telemetry_chunks_def telemetry_chunk_def Let_def)
  moreover have "map tm_seq cs = map int [0..<length cs]"
    by (simp add: cs telemetry_chunks_def telemetry_chunk_def Let_def)
  ultimately show "stream_of (new_trace s (tm_capture_id body) l n d bt src window t0) cs"
    by (simp add: stream_of_def new_trace_def)
qed

text \<open>
  C37: What a producer records is what is on disk: a batch that is split into wire batches, sent into a capture that was
  opened for it and closed comes to lie in one file whose times and axes are those of the batch, with no gap and not
  truncated, and whose audio file holds the audio of the batch. (A number that is not finite is null in the file; the
  file is new, the disk works, and the source declares no audio format of its own.)
\<close>
theorem captured_stream_reaches_the_disk:
  assumes chunks: "chunk_telemetry_batch weigh rate budget 0 body = Some cs" and body: "batch_ok body"
    and opens: "open_capture d (tm_capture_id body) meta opened_at st = (st1, Taken)"
    and meta: "dget meta ''label'' = Some (VStr label)" "dget meta ''series'' = Some (VInt series)"
      "dget meta ''source'' = Some (VDict src)" "dget src ''audio'' = None"
    and window: "Option.bind (dget meta ''window_ms'') number_of = Some window"
      "\<forall>t \<in> set (tm_t_ms body). \<not> flt (fadd window (Fin WINDOW_GRACE_MS)) t"
    and disk: "\<not> dmem (label, se_stem env series) (cd_traces (cs_disk st))" "36 + length (tm_pcm body) < 2 ^ 32"
      "\<forall>k \<in> {''samples'', ''gaps'', ''truncated''}. k \<notin> set (dkeys (cs_provenance st))"
  shows "\<exists>st2 v. close_capture env fair_fate d m (send_batches env fate d now cs st1) = (st2, Taken)
    \<and> dget (cd_traces (cs_disk st2)) (label, se_stem env series) = Some (Some v)
    \<and> file_samples v ''t_ms'' = Some (number_values (tm_t_ms body))
    \<and> (\<forall>(a, xs) \<in> set (tm_axes body). file_samples v a = Some (number_values xs))
    \<and> file_entry v ''gaps'' = Some (VList []) \<and> file_entry v ''truncated'' = Some (VBool False)
    \<and> (tm_pcm body \<noteq> [] \<longrightarrow> dget (cd_wavs (cs_disk st2)) (label, se_stem env series)
        = Some \<lparr>wv_rate = DEFAULT_AUDIO_RATE, wv_channels = 1, wv_pcm = tm_pcm body\<rparr>)"
proof -
  obtain t0 where st1: "cs_disk st1 = cs_disk st" "cs_provenance st1 = cs_provenance st"
    "dget (cs_open st1) d = Some (new_trace (cs_session st) (tm_capture_id body) label series d (cs_bit st) src window t0)"
    using opens meta(1-3) window(1) by (auto simp: open_capture_def split: if_splits option.splits)
  let ?tr0 = "new_trace (cs_session st) (tm_capture_id body) label series d (cs_bit st) src window t0"
  obtain p where p: "0 < p" and cs: "cs = telemetry_chunks rate 0 body p"
    using chunks_are_a_stream(1) [OF chunks window(2)] by blast
  let ?st = "send_batches env fate d now cs st1"
  obtain tr where get: "dget (cs_open ?st) d = Some tr" and same: "cs_disk ?st = cs_disk st" "cs_provenance ?st = cs_provenance st"
    and tr: "tc_label tr = label" "tc_series tr = series" "tc_source tr = src" "tc_gaps tr = []" "\<not> tc_truncated tr"
      "tc_t_ms tr = concat (map tm_t_ms cs)" "tc_pcm tr = concat (map tm_pcm cs)"
    and axes: "\<And>a. dget (tc_axes tr) a = map_option (\<lambda>xs. xs @ concat (map (\<lambda>b. case dget (tm_axes b) a of None \<Rightarrow> [] | Some ys \<Rightarrow> ys) cs)) (dget (tc_axes ?tr0) a)"
    using stream_is_collected [OF st1(3) chunks_are_a_stream(2) [OF chunks window(2)], of env fate now] st1(1,2)
    by (auto simp: new_trace_def)
  have data: "tc_t_ms tr = tm_t_ms body" "tc_pcm tr = tm_pcm body"
    using tr(6,7) chunks_t_ms [OF p] chunks_pcm [OF p] body by (simp_all add: cs batch_ok_def)
  have axis: "dget (tc_axes tr) a = Some xs" "a \<in> set MOTION_AXES" if ax: "(a, xs) \<in> set (tm_axes body)" for a xs
  proof -
    have keys: "dkeys (tm_axes body) = MOTION_AXES" and len: "length xs = length (tm_t_ms body)"
      using body ax by (auto simp: batch_ok_def)
    have "distinct MOTION_AXES" by (simp add: MOTION_AXES_def)
    then have xs: "dget (tm_axes body) a = Some xs" using ax keys by (simp add: map_of_eq_Some_iff)
    show a: "a \<in> set MOTION_AXES" using ax keys by (metis fst_conv image_eqI list.set_map)
    have "dget (tc_axes ?tr0) a = Some []" using a by (simp add: new_trace_def map_of_map_restrict)
    moreover have "dget (tm_axes c) a \<noteq> None" if "c \<in> set cs" for c
    proof -
      have "dkeys (tm_axes c) = dkeys (tm_axes body)"
        using that by (auto simp: cs telemetry_chunks_def telemetry_chunk_def Let_def comp_def case_prod_beta)
      then have "dmem a (tm_axes c)" using a keys by (simp add: dmem_def)
      then show ?thesis by (simp add: dmem_iff_get)
    qed
    then have mapped: "map (\<lambda>b. case dget (tm_axes b) a of None \<Rightarrow> [] | Some ys \<Rightarrow> ys) cs = map (\<lambda>c. the (dget (tm_axes c) a)) cs"
      by (intro map_cong refl) (fastforce split: option.split)
    ultimately show "dget (tc_axes tr) a = Some xs"
      unfolding axes mapped using chunks_axis [OF p xs len, of rate 0] by (simp add: cs)
  qed
  define tr' where "tr' = tr\<lparr>tc_outputs := case dget m ''outputs'' of None \<Rightarrow> VList [] | Some v \<Rightarrow> if falsy v then VList [] else v\<rparr>"
  have tr': "tc_label tr' = label" "tc_series tr' = series" "tc_source tr' = src" "tc_gaps tr' = []" "\<not> tc_truncated tr'"
    "tc_t_ms tr' = tm_t_ms body" "tc_pcm tr' = tm_pcm body" "tc_axes tr' = tc_axes tr"
    using tr data by (simp_all add: tr'_def)
  have rel: "cs_disk (release_capture d ?st) = cs_disk st" "cs_provenance (release_capture d ?st) = cs_provenance st"
    using same by (simp_all add: release_capture_def)
  have new: "\<not> dmem (tc_label tr', se_stem env (tc_series tr')) (cd_traces (cs_disk (release_capture d ?st)))"
    "dget (tc_source tr') ''audio'' = None" "36 + length (tc_pcm tr') < 2 ^ 32"
    using disk meta(4) by (simp_all add: rel tr')
  note fair = fair_write [OF new]
  obtain af d0 where d0: "trace_dict (se_fmt env) af tr' = Some d0"
    and stored: "dget (cd_traces (cs_disk (fst (write_trace env fair_fate tr' (release_capture d ?st))))) (label, se_stem env series)
      = Some (Some (sanitise (VDict (merge_dict d0 (cs_provenance st)))))"
    using fair(2) unfolding tr'(1,2) rel by blast
  have close: "close_capture env fair_fate d m ?st = (fst (write_trace env fair_fate tr' (release_capture d ?st)), Taken)"
    using get fair(1) by (simp add: close_capture_def Let_def case_prod_beta tr'_def)
  have prov: "''samples'' \<notin> set (dkeys (cs_provenance st))" "''gaps'' \<notin> set (dkeys (cs_provenance st))"
    "''truncated'' \<notin> set (dkeys (cs_provenance st))"
    using disk(3) by blast+
  show ?thesis
    using close stored written_samples [OF d0 prov(1)] written_entries [OF d0 prov(2,3)] axis fair(3) tr'
    by (intro exI conjI) (auto simp del: sanitise.simps)
qed

text \<open>
  The window is checked against the times a device claims, not against its size: a device that says 0 for every sample
  stays open for as long as it sends, whatever it declared.
\<close>
definition still_batch :: "string \<Rightarrow> nat \<Rightarrow> telemetry" where
  "still_batch cid i = \<lparr>tm_capture_id = cid, tm_seq = int i, tm_t_ms = [Fin 0], tm_axes = map (\<lambda>a. (a, [Fin 0])) MOTION_AXES,
     tm_pcm = [], tm_pcm_t0 = None\<rparr>"

lemma window_does_not_bound_a_capture:
  assumes "dget (cs_open st) d = Some (new_trace s cid l n d bt src (Fin w) t0)" and "0 < w"
  shows "\<exists>tr. dget (cs_open (send_batches env fate d now (map (still_batch cid) [0..<k]) st)) d = Some tr
    \<and> length (tc_t_ms tr) = k"
proof -
  let ?tr = "new_trace s cid l n d bt src (Fin w) t0"
  have "stream_of ?tr (map (still_batch cid) [0..<k])"
    using assms(2) by (auto simp: stream_of_def still_batch_def new_trace_def past_window_def WINDOW_GRACE_MS_def flt_def)
  moreover have "length (concat (map tm_t_ms (map (still_batch cid) [0..<k]))) = k"
    by (simp add: still_batch_def length_concat comp_def sum_list_triv)
  moreover have "tc_t_ms ?tr = []" by (simp add: new_trace_def)
  ultimately show ?thesis
    using stream_is_collected [OF assms(1), of "map (still_batch cid) [0..<k]" env fate now] by fastforce
qed

definition demo_env :: store_env where
  "demo_env = \<lparr>se_enc = (\<lambda>v. ''{}''), se_fmt = (\<lambda>n. []), se_stem = (\<lambda>n. ''003'')\<rparr>"

definition demo_store :: capture_store where
  "demo_store = new_store ''s'' [] [(''room_name'', VStr ''TEST'')] \<lparr>cd_traces = [], cd_wavs = [], cd_index = []\<rparr>"

definition demo_stream :: telemetry where
  "demo_stream = \<lparr>tm_capture_id = ''shake-021'', tm_seq = 0, tm_t_ms = [Fin 0, Fin 10, Fin 20],
     tm_axes = map (\<lambda>a. (a, [Fin 1, Fin 2, Fin 3])) MOTION_AXES, tm_pcm = [1, 2, 3, 4], tm_pcm_t0 = Some (Fin 5)\<rparr>"

definition demo_meta :: "(string, pyval) dict" where
  "demo_meta = [(''label'', VStr ''shake''), (''series'', VInt 3), (''source'', VDict []),
     (''window_ms'', VInt 3000), (''t0'', VInt 0)]"

lemma captured_stream_reaches_the_disk_witness:
  "\<exists>st2 v. fst (close_capture demo_env fair_fate ''d'' []
       (send_batches demo_env fair_fate ''d'' 1 (telemetry_chunks 16000 0 demo_stream 2)
         (fst (open_capture ''d'' ''shake-021'' demo_meta 0 demo_store)))) = st2
    \<and> dget (cd_traces (cs_disk st2)) (''shake'', ''003'') = Some (Some v)
    \<and> file_samples v ''t_ms'' = Some (VList [VFloat (Fin 0), VFloat (Fin 10), VFloat (Fin 20)])
    \<and> file_samples v ''gz'' = Some (VList [VFloat (Fin 1), VFloat (Fin 2), VFloat (Fin 3)])
    \<and> dget (cd_wavs (cs_disk st2)) (''shake'', ''003'') = Some \<lparr>wv_rate = 16000, wv_channels = 1, wv_pcm = [1, 2, 3, 4]\<rparr>"
proof -
  let ?w = "\<lambda>c. length (tm_t_ms c)" and ?op = "open_capture ''d'' (tm_capture_id demo_stream) demo_meta 0 demo_store"
  have c: "chunk_telemetry_batch ?w 16000 2 0 demo_stream = Some (telemetry_chunks 16000 0 demo_stream 2)"
    by code_simp
  have b: "batch_ok demo_stream" by (auto simp: batch_ok_def demo_stream_def comp_def)
  have "snd ?op = Taken" by code_simp
  then have opens: "?op = (fst ?op, Taken)" by (simp add: prod_eq_iff)
  have m: "dget demo_meta ''label'' = Some (VStr ''shake'')" "dget demo_meta ''series'' = Some (VInt 3)"
    "dget demo_meta ''source'' = Some (VDict [])" "dget ([] :: (string, pyval) dict) ''audio'' = None"
    "Option.bind (dget demo_meta ''window_ms'') number_of = Some (Fin 3000)"
    by (simp_all add: demo_meta_def)
  have t: "\<forall>t \<in> set (tm_t_ms demo_stream). \<not> flt (fadd (Fin 3000) (Fin WINDOW_GRACE_MS)) t" by code_simp
  have d: "\<not> dmem (''shake'', se_stem demo_env 3) (cd_traces (cs_disk demo_store))" by code_simp
  have p: "36 + length (tm_pcm demo_stream) < 2 ^ 32"
    "\<forall>k \<in> {''samples'', ''gaps'', ''truncated''}. k \<notin> set (dkeys (cs_provenance demo_store))"
    by (simp_all add: demo_stream_def demo_store_def new_store_def)
  have gz: "(''gz'', [Fin 1, Fin 2, Fin 3]) \<in> set (tm_axes demo_stream)" by (simp add: demo_stream_def MOTION_AXES_def)
  have k: "se_stem demo_env 3 = ''003''" "tm_capture_id demo_stream = ''shake-021''" "tm_pcm demo_stream = [1, 2, 3, 4]"
    "tm_t_ms demo_stream = [Fin 0, Fin 10, Fin 20]"
    by (simp_all add: demo_env_def demo_stream_def)
  obtain st2 v where r: "close_capture demo_env fair_fate ''d'' [] (send_batches demo_env fair_fate ''d'' 1
        (telemetry_chunks 16000 0 demo_stream 2) (fst ?op)) = (st2, Taken)"
    "dget (cd_traces (cs_disk st2)) (''shake'', se_stem demo_env 3) = Some (Some v)"
    "file_samples v ''t_ms'' = Some (number_values (tm_t_ms demo_stream))"
    "\<forall>(a, xs) \<in> set (tm_axes demo_stream). file_samples v a = Some (number_values xs)"
    "tm_pcm demo_stream \<noteq> [] \<longrightarrow> dget (cd_wavs (cs_disk st2)) (''shake'', se_stem demo_env 3)
        = Some \<lparr>wv_rate = DEFAULT_AUDIO_RATE, wv_channels = 1, wv_pcm = tm_pcm demo_stream\<rparr>"
    using captured_stream_reaches_the_disk [OF c b opens m t d p, of "[]" fair_fate 1] by blast
  have "file_samples v ''gz'' = Some (number_values [Fin 1, Fin 2, Fin 3])" using r(4) gz by blast
  with r show ?thesis
    by (intro exI [of _ st2] exI [of _ v]) (simp add: k number_values_def DEFAULT_AUDIO_RATE_def)
qed

text \<open>
  Three devices open a capture; the first goes silent and its capture is written, the second abandons its own,
  the third is still open.
\<close>

definition demo_open :: "dev \<Rightarrow> int \<Rightarrow> pyval list" where
  "demo_open d series =
     [VStr d, VStr ''open'', VDict [(''capture_id'', VStr d), (''label'', VStr ''shake''), (''series'', VInt series),
        (''window_ms'', VInt 3000), (''t0'', VInt 0),
        (''source'', VDict (map (\<lambda>k. (k, VStr ''x'')) REQUIRED_SOURCE_KEYS))]]"

definition demo_events :: "capture_event list" where
  "demo_events =
     [Ev_Capture ''d'' (demo_open ''d'' 1) 0 fair_fate, Ev_Capture ''e'' (demo_open ''e'' 2) 0 fair_fate,
      Ev_Capture ''f'' (demo_open ''f'' 3) 15 fair_fate,
      Ev_Capture ''e'' [VStr ''e'', VStr ''abandon'', VDict [(''capture_id'', VStr ''e'')]] 16 fair_fate,
      Ev_Update 20 (\<lambda>d. fair_fate)]"

lemma every_capture_is_accounted_for_witness:
  "let st' = foldl (capture_step (\<lambda>s. None) demo_env) demo_store demo_events
   in opened_run (\<lambda>s. None) demo_env demo_store demo_events = 3
     \<and> abandoned_run (\<lambda>s. None) demo_env demo_store demo_events = 1
     \<and> dkeys (cs_open st') = [''f''] \<and> written_captures st' = 1 \<and> cs_failures st' = 0"
proof -
  let ?st = "foldl (capture_step (\<lambda>s. None) demo_env) demo_store demo_events"
  have s: "store_ok demo_store" unfolding demo_store_def by (rule new_store_ok) simp_all
  have c: "\<forall>ev \<in> set demo_events. calm_event ev" by (simp add: demo_events_def calm_def fair_fate_def)
  have z: "length (cs_open demo_store) + written_captures demo_store + cs_failures demo_store = 0"
    by (simp add: demo_store_def new_store_def written_captures_def)
  have o: "opened_run (\<lambda>s. None) demo_env demo_store demo_events = 3" by code_simp
  have ab: "abandoned_run (\<lambda>s. None) demo_env demo_store demo_events = 1" by code_simp
  have f: "dkeys (cs_open ?st) = [''f'']" by code_simp
  then have "length (cs_open ?st) = 1" by (metis length_map One_nat_def length_Cons list.size(3))
  moreover have "cs_failures ?st = 0" by code_simp
  ultimately show ?thesis
    using every_capture_is_accounted_for [OF s c, of "\<lambda>s. None" demo_env] z o ab f by (simp add: Let_def)
qed

end
