(* ===== verification/Deux_Ara_Drop.thy ===== *)
theory Deux_Ara_Drop
  imports Sequencer_Notes Registration
begin

section \<open>The Deux Ara Drop Bit\<close>

text \<open>
  \<open>src/bits/deux_ara_drop/deux_ara_drop_bit.py\<close>, a Bit over the sequencer: taps drop loops in and out, a double tap
  plays a one-shot, tilting ducks the mix. An operation returns the Bit and what it answered, \<open>None\<close> when an
  exception left it. The parsed MIDI files, the float of a string and the two draws of the random source are arguments;
  times are finite.
\<close>

definition ORDER :: "string list" where "ORDER = [''piano'', ''drums'', ''synth'']"

definition ARABESQUE :: string where "ARABESQUE = ''arabesque''"

definition PARTS :: "(string, nat) dict" where
  "PARTS = [(''piano'', 0), (''drums'', 1), (''synth'', 2), (ARABESQUE, 3)]"

definition PROGRAMS :: "(string, nat) dict" where
  "PROGRAMS = [(''piano'', 0), (''synth'', 90), (ARABESQUE, 0)]"

definition ARABESQUE_LEAD_IN :: rat where "ARABESQUE_LEAD_IN = 4"
definition DEUX_BPM :: rat where "DEUX_BPM = 130"

definition THIRDS :: "(string, string) dict" where
  "THIRDS = [(''piano'', ''tower.bottom''), (''drums'', ''tower.middle''), (''synth'', ''tower.top'')]"

definition THIRD_CC :: "(string, int) dict" where
  "THIRD_CC = [(''piano'', 20), (''drums'', 21), (''synth'', 22)]"

definition DEUX_GREEN :: int where "DEUX_GREEN = 42"
definition DEUX_RED :: int where "DEUX_RED = 0"

definition TIP_DEG :: rat where "TIP_DEG = 45"
definition RIGHT_DEG :: rat where "RIGHT_DEG = 20"
definition DUCK :: rat where "DUCK = 1 / 5"

definition FLICKER_HZ :: rat where "FLICKER_HZ = 12"
definition FLICKER_S :: rat where "FLICKER_S = 2 / 25"
definition DEUX_WHITE :: "int list" where "DEUX_WHITE = [0, 0, 0, 255]"
definition DEUX_PIXELS :: nat where "DEUX_PIXELS = 14"
definition MAX_FLICKER_DT :: rat where "MAX_FLICKER_DT = 1 / 10"

definition SEQ_LOOKAHEAD :: rat where "SEQ_LOOKAHEAD = 1 / 4"

text \<open>\<open>PARTS[name]\<close> and \<open>THIRD_CC[name]\<close>, for the names above.\<close>

definition part_no :: "string \<Rightarrow> nat" where
  "part_no name = the (dget PARTS name)"

definition third_cc :: "string \<Rightarrow> int" where
  "third_cc name = the (dget THIRD_CC name)"

record deux =
  dx_seq :: sequencer
  dx_started :: bool
  dx_cursor :: nat
  dx_level :: rat
  dx_last_at :: "rat option"

text \<open>The constructor: a file that cannot be read, or a track that is refused, raises.\<close>

fun add_loops :: "(string \<Rightarrow> midi_file option) \<Rightarrow> string list \<Rightarrow> sequencer \<Rightarrow> sequencer option" where
  "add_loops midi [] sq = Some sq"
| "add_loops midi (name # names) sq =
     (case midi name of
        None \<Rightarrow> None
      | Some mf \<Rightarrow> (case add_track name mf (part_no name) True 0 sq of None \<Rightarrow> None | Some sq' \<Rightarrow> add_loops midi names sq'))"

definition new_deux :: "(string \<Rightarrow> midi_file option) \<Rightarrow> deux option" where
  "new_deux midi =
     (case add_loops midi ORDER (new_sequencer DEUX_BPM ROOM SEQ_LOOKAHEAD) of
        None \<Rightarrow> None
      | Some sq \<Rightarrow>
          (case midi ARABESQUE of
             None \<Rightarrow> None
           | Some mf \<Rightarrow>
               map_option (\<lambda>sq'. \<lparr>dx_seq = sq', dx_started = False, dx_cursor = 0, dx_level = 1, dx_last_at = None\<rparr>)
                 (add_track ARABESQUE mf (part_no ARABESQUE) False ARABESQUE_LEAD_IN sq)))"

subsection \<open>Declarations\<close>

definition deux_role_table :: role_table where
  "deux_role_table =
     \<lparr>rt_roles = [(''player'', \<lparr>r_name = ''player'', r_class = UNIQUE, r_capacity = Some 1, r_scored = True,
         r_uses = [''tap'', ''tilt''], r_samples = [], r_ugen_manifest = VDict [], r_light_manifest = VDict [], r_welcome = None,
         r_breath = True, r_requires = None, r_zones = []\<rparr>)],
      rt_node_map = [(''DEUX_PLAYER_NODE'', [''player''])]\<rparr>"

definition deux_lane :: "string \<Rightarrow> string \<Rightarrow> pyval" where
  "deux_lane src dest = VDict [(''source'', VStr src), (''dest'', VStr dest)]"

definition cc_name :: "int \<Rightarrow> string" where
  "cc_name cc = (if cc = 20 then ''cc:20'' else if cc = 21 then ''cc:21'' else ''cc:22'')"

definition deux_manifests :: "pyval \<times> pyval" where
  "deux_manifests =
     (VDict [(''instruments'', VList (map (\<lambda>name. VDict
        [(''instrument'', VStr ''aurora''), (''target'', VStr (the (dget THIRDS name))),
         (''params'', VDict [(''hue'', VFloat (Fin 0)), (''level'', VFloat (Fin (4 / 5)))]),
         (''lanes'', VList [deux_lane (cc_name (third_cc name)) ''hue''])]) ORDER))],
      VDict [(''instruments'', VList
        [VDict [(''instrument'', VStr ''flsyn''), (''program'', VInt 0), (''lanes'', VList [deux_lane ''cc:7'' ''cc:7'', deux_lane ''cc:64'' ''cc:64''])],
         VDict [(''instrument'', VStr ''flsyn''), (''drums'', VBool True), (''lanes'', VList [deux_lane ''cc:7'' ''cc:7''])],
         VDict [(''instrument'', VStr ''flsyn''), (''program'', VInt 90), (''lanes'', VList [deux_lane ''cc:7'' ''cc:7'', deux_lane ''cc:64'' ''cc:64''])],
         VDict [(''instrument'', VStr ''flsyn''), (''program'', VInt 0), (''lanes'', VList [deux_lane ''cc:7'' ''cc:7'', deux_lane ''cc:64'' ''cc:64''])]])])"

subsection \<open>Starting\<close>

definition third_cue :: "rat \<Rightarrow> string \<Rightarrow> int \<Rightarrow> cue" where
  "third_cue w name hue = LightCue ROOM 176 (third_cc name) hue (Some (Fin w))"

definition deux_start :: "rat \<Rightarrow> deux \<Rightarrow> deux \<times> cue list" where
  "deux_start w dx =
     (if dx_started dx then (dx, [])
      else (let (sq, volume) = set_master (dx_level dx) w (start w (dx_seq dx))
            in (dx\<lparr>dx_started := True, dx_seq := sq\<rparr>,
                map (\<lambda>(name, program). MusicCue ROOM (int (or 192 (part_no name))) (int program) 0 (Some (Fin w)) None) PROGRAMS
                @ map (\<lambda>name. third_cue w name DEUX_RED) ORDER @ volume)))"

text \<open>A call into the sequencer, its cues after those already there.\<close>

definition then_seq :: "deux \<Rightarrow> cue list \<Rightarrow> (sequencer \<times> cue list) option \<Rightarrow> deux \<times> cue list option" where
  "then_seq dx out res =
     (case res of None \<Rightarrow> (dx, None) | Some (sq, cues) \<Rightarrow> (dx\<lparr>dx_seq := sq\<rparr>, Some (out @ cues)))"

subsection \<open>Verbs\<close>

text \<open>\<open>_tap_count\<close>: \<open>None\<close> is the \<open>OverflowError\<close> of an infinity, which is not caught.\<close>

definition tap_count :: "pyval list \<Rightarrow> int option" where
  "tap_count args =
     (case drop 3 args of
        [] \<Rightarrow> Some 1
      | v # _ \<Rightarrow> (case int_of_arg v of IntOk n \<Rightarrow> Some (max n 1) | IntRefused \<Rightarrow> Some 1 | IntOverflow \<Rightarrow> None))"

definition hue_of :: "sequencer \<Rightarrow> string \<Rightarrow> int" where
  "hue_of sq name = (if is_on name sq = Some True then DEUX_GREEN else DEUX_RED)"

definition deux_tap :: "pyval list \<Rightarrow> rat \<Rightarrow> deux \<Rightarrow> deux \<times> cue list option" where
  "deux_tap args w dx0 =
     (let (dx, out) = deux_start w dx0
      in case tap_count args of
           None \<Rightarrow> (dx, None)
         | Some taps \<Rightarrow>
             if 2 \<le> taps
             then (case is_on ARABESQUE (dx_seq dx) of
                     None \<Rightarrow> (dx, None)
                   | Some playing \<Rightarrow>
                       then_seq dx out (if playing then disable ARABESQUE w (dx_seq dx) else play_once ARABESQUE w (dx_seq dx)))
             else (let name = ORDER ! (dx_cursor dx mod length ORDER); dx1 = dx\<lparr>dx_cursor := Suc (dx_cursor dx)\<rparr>
                   in case is_on name (dx_seq dx1) of
                        None \<Rightarrow> (dx1, None)
                      | Some playing \<Rightarrow>
                          (case then_seq dx1 out (if playing then disable name w (dx_seq dx1) else enable name w (dx_seq dx1)) of
                             (dx2, None) \<Rightarrow> (dx2, None)
                           | (dx2, Some out2) \<Rightarrow>
                               if list_all (\<lambda>n. is_on n (dx_seq dx2) \<noteq> None) ORDER
                               then (dx2, Some (out2 @ map (\<lambda>n. third_cue w n (hue_of (dx_seq dx2) n)) ORDER)) else (dx2, None))))"

text \<open>\<open>float(x)\<close>: \<open>None\<close> is the \<open>TypeError\<close> or \<open>ValueError\<close>.\<close>

fun float_arg :: "(string \<Rightarrow> pyfloat option) \<Rightarrow> pyval \<Rightarrow> pyfloat option" where
  "float_arg fstr (VInt n) = Some (Fin (of_int n))"
| "float_arg fstr (VBool b) = Some (Fin (if b then 1 else 0))"
| "float_arg fstr (VFloat x) = Some x"
| "float_arg fstr (VStr s) = fstr s"
| "float_arg fstr _ = None"

definition deux_tilt :: "(string \<Rightarrow> pyfloat option) \<Rightarrow> pyval list \<Rightarrow> rat \<Rightarrow> deux \<Rightarrow> deux \<times> cue list option" where
  "deux_tilt fstr args w dx =
     (case drop 1 args of
        [] \<Rightarrow> (dx, Some [])
      | v # _ \<Rightarrow>
          (case float_arg fstr v of
             None \<Rightarrow> (dx, Some [])
           | Some x \<Rightarrow>
               (let tilt = fabs x; ducked = dx_level dx < 1;
                    turn = (\<lambda>level. then_seq (dx\<lparr>dx_level := level\<rparr>) [] (Some (set_master level w (dx_seq dx))))
                in if \<not> ducked \<and> fle (Fin TIP_DEG) tilt then turn DUCK
                   else if ducked \<and> fle tilt (Fin RIGHT_DEG) then turn 1
                   else (dx, Some []))))"

subsection \<open>The tick\<close>

text \<open>\<open>fires\<close>, with what \<open>random()\<close> and \<open>randrange(DEUX_PIXELS)\<close> would draw.\<close>

definition deux_fires :: "rat \<Rightarrow> rat \<Rightarrow> nat \<Rightarrow> deux \<Rightarrow> deux \<times> cue list option" where
  "deux_fires w chance pixel dx0 =
     (let (dx, out) = deux_start w dx0
      in case advance w (dx_seq dx) of
           None \<Rightarrow> (dx, None)
         | Some (sq, cues) \<Rightarrow>
             (let dt = (case dx_last_at dx of None \<Rightarrow> 0 | Some t \<Rightarrow> min (max (w - t) 0) MAX_FLICKER_DT);
                  dx1 = dx\<lparr>dx_seq := sq, dx_last_at := Some w\<rparr>
              in case is_on ARABESQUE sq of
                   None \<Rightarrow> (dx1, None)
                 | Some playing \<Rightarrow>
                     (dx1, Some (out @ cues @ (if playing \<and> chance < FLICKER_HZ * dt
                        then [PixelFlashCue ROOM (int pixel) DEUX_WHITE (Fin FLICKER_S) (Some (Fin w))] else [])))))"

text \<open>\<open>update\<close> never ends the Bit.\<close>

definition deux_update :: "deux \<Rightarrow> bool" where "deux_update dx \<longleftrightarrow> False"

definition deux_status :: "deux \<Rightarrow> (string \<times> string) list option \<times> int" where
  "deux_status dx =
     ((if \<forall>n \<in> set (ORDER @ [ARABESQUE]). is_on n (dx_seq dx) \<noteq> None
       then Some (map (\<lambda>n. (n, if is_on n (dx_seq dx) = Some True then ''on'' else ''off'')) ORDER
         @ [(ARABESQUE, if is_on ARABESQUE (dx_seq dx) = Some True then ''playing'' else ''stopped'')])
       else None),
      py_round (dx_level dx * 100))"

end
