(* ===== verification/Deux_Facts.thy ===== *)
theory Deux_Facts
  imports Deux_Ara_Drop
begin

section \<open>The loops follow the taps, the Tower follows the loops\<close>

text \<open>
  The calls of the Bit of \<open>Deux_Ara_Drop\<close> as events: none raises but a tap with an infinite count, the loops that are on
  are those an odd number of single taps has named, and the last hue sent to each third of the Tower says so.
\<close>

subsection \<open>Which tracks play\<close>

definition plays :: "sequencer \<Rightarrow> string \<Rightarrow> (bool \<times> bool) option" where
  "plays sq n = map_option (\<lambda>tr. (st_loop tr, st_on tr)) (dget (sq_tracks sq) n)"

definition same_grid :: "sequencer \<Rightarrow> sequencer \<Rightarrow> bool" where
  "same_grid sq sq' \<longleftrightarrow> sq_t0 sq' = sq_t0 sq \<and> sq_bpm sq' = sq_bpm sq \<and> sq_dev sq' = sq_dev sq \<and> sq_master sq' = sq_master sq"

lemma is_on_plays: "is_on n sq = map_option snd (plays sq n)"
  by (simp add: is_on_def plays_def option.map_comp comp_def)

lemma plays_dset:
  "sq_tracks sq' = dset n tr (sq_tracks sq) \<Longrightarrow> plays sq' m = (if m = n then Some (st_loop tr, st_on tr) else plays sq m)"
  by (simp add: plays_def)

lemma chase_plays:
  "fold (chase_step sq w b) todo (tr, chased, out) = (tr', chased', out') \<Longrightarrow> st_loop tr' = st_loop tr \<and> st_on tr' = st_on tr"
proof (induction todo arbitrary: tr chased out)
  case (Cons x todo)
  obtain tr1 ch1 out1 where s: "chase_step sq w b x (tr, chased, out) = (tr1, ch1, out1)"
    by (cases "chase_step sq w b x (tr, chased, out)")
  then have "st_loop tr1 = st_loop tr \<and> st_on tr1 = st_on tr"
    by (cases x) (auto simp: chase_step_def Let_def split: if_splits)
  with Cons.IH [of tr1 ch1 out1] Cons.prems s show ?case by simp
qed simp

lemma enable_plays:
  assumes "sq_t0 sq \<noteq> None" "plays sq n = Some (True, False)"
  shows "\<exists>sq' out. enable n w sq = Some (sq', out) \<and> same_grid sq sq'
    \<and> (\<forall>m. plays sq' m = (if m = n then Some (True, True) else plays sq m))"
proof -
  obtain t0 tr where t0: "sq_t0 sq = Some t0" and tr: "dget (sq_tracks sq) n = Some tr" "st_loop tr" "\<not> st_on tr"
    using assms by (auto simp: plays_def)
  let ?b = "snap (grid_beat sq t0 w)"
  let ?tr1 = "tr\<lparr>st_on := True, st_cursor := ?b\<rparr>"
  let ?todo = "concat (map (\<lambda>x. [(x, \<lfloor>?b / st_length tr\<rfloor>), (x, \<lfloor>?b / st_length tr\<rfloor> - 1)]) (st_notes tr))"
  obtain tr2 ch out where f: "fold (chase_step sq w ?b) ?todo (?tr1, {}, [cc7_cue sq ?tr1 w]) = (tr2, ch, out)"
    by (cases "fold (chase_step sq w ?b) ?todo (?tr1, {}, [cc7_cue sq ?tr1 w])")
  have e: "enable n w sq = Some (sq\<lparr>sq_tracks := dset n tr2 (sq_tracks sq)\<rparr>, out)"
    using tr t0 f by (simp add: enable_def beat_at_def Let_def)
  have "st_loop tr2" "st_on tr2" using chase_plays [OF f] tr by simp_all
  then show ?thesis
    unfolding e by (simp add: same_grid_def plays_dset [where n = n and tr = tr2])
qed

lemma disable_plays:
  assumes "plays sq n = Some (l, True)"
  shows "\<exists>sq' out. disable n w sq = Some (sq', out) \<and> same_grid sq sq'
    \<and> (\<forall>m. plays sq' m = (if m = n then Some (l, False) else plays sq m))"
proof -
  obtain tr where tr: "dget (sq_tracks sq) n = Some tr" "st_loop tr = l" "st_on tr"
    using assms by (auto simp: plays_def)
  then show ?thesis
    by (simp add: disable_def same_grid_def plays_dset [where n = n and tr = "tr\<lparr>st_on := False\<rparr>"])
qed

lemma play_once_plays:
  assumes "sq_t0 sq \<noteq> None" "sq_bpm sq \<noteq> 0" "plays sq n = Some (False, b)"
  shows "\<exists>sq' out. play_once n w sq = Some (sq', out) \<and> same_grid sq sq'
    \<and> (\<forall>m. plays sq' m = (if m = n then Some (False, True) else plays sq m))"
proof -
  obtain t0 tr where t0: "sq_t0 sq = Some t0" and tr: "dget (sq_tracks sq) n = Some tr" "\<not> st_loop tr"
    using assms by (auto simp: plays_def)
  then show ?thesis
    using assms(2) by (auto simp: play_once_def beat_at_def time_at_def Let_def same_grid_def plays_def)
qed

lemma advance_plays:
  assumes inv: "seq_inv (sq, [])" and "sq_t0 sq \<noteq> None"
  shows "\<exists>sq' out. advance w sq = Some (sq', out) \<and> same_grid sq sq'
    \<and> (\<forall>m b. plays sq m = Some (True, b) \<longrightarrow> plays sq' m = Some (True, b))
    \<and> (\<forall>m b. plays sq m = Some (False, b) \<longrightarrow> (\<exists>b'. plays sq' m = Some (False, b')))"
proof -
  obtain t0 where t0: "sq_t0 sq = Some t0" using assms(2) by auto
  have wf: "\<forall>x \<in> set (sq_tracks sq). track_wf (snd x)" using inv by (auto simp: seq_inv_def)
  define step where "step = track_step sq t0 (snap (grid_beat sq t0 (w + sq_lookahead sq))) (snap (grid_beat sq t0 w))"
  obtain out where a: "advance w sq = Some (sq\<lparr>sq_tracks := map (\<lambda>x. (fst x, fst (step (snd x)))) (sq_tracks sq)\<rparr>, out)"
    using advance_total [OF t0 wf, of w] by (auto simp: step_def Let_def)
  have loop: "st_loop (fst (step tr)) = st_loop tr" for tr
    by (simp add: step_def track_step_def case_prod_beta Let_def)
  have on: "st_on (fst (step tr)) = st_on tr" if "st_loop tr" for tr
    using that by (simp add: step_def track_step_def case_prod_beta Let_def spent_def)
  show ?thesis
    unfolding a by (auto simp: same_grid_def plays_def dget_map_pairs loop on)
qed

lemma seq_inv_weaken: "seq_inv (sq, cues) \<Longrightarrow> seq_inv (sq, [])"
  by (simp add: seq_inv_def)

lemma seq_cues_midi: "seq_inv (sq, cues) \<Longrightarrow> \<forall>c \<in> set cues. midi_cue c"
  by (simp add: seq_inv_def)

subsection \<open>The invariant\<close>

definition toggles :: "nat \<Rightarrow> nat \<Rightarrow> nat" where
  "toggles taps i = (taps + 2 - i) div 3"

definition deux_inv :: "deux \<Rightarrow> bool" where
  "deux_inv dx \<longleftrightarrow> seq_inv (dx_seq dx, []) \<and> sq_bpm (dx_seq dx) = DEUX_BPM \<and> sq_master (dx_seq dx) = dx_level dx
     \<and> (dx_started dx \<longrightarrow> sq_t0 (dx_seq dx) \<noteq> None) \<and> (\<not> dx_started dx \<longrightarrow> dx_cursor dx = 0)
     \<and> (\<forall>i < 3. plays (dx_seq dx) (ORDER ! i) = Some (True, odd (toggles (dx_cursor dx) i)))
     \<and> (\<exists>b. plays (dx_seq dx) ARABESQUE = Some (False, b)) \<and> dx_level dx \<in> {1, DUCK}"

text \<open>A tap changes the count of the loop it names and of no other.\<close>

lemma toggles_step: "i < 3 \<Longrightarrow> toggles (Suc n) i = (if i = n mod 3 then Suc (toggles n i) else toggles n i)"
proof -
  assume i: "i < 3"
  obtain q r where n: "n = 3 * q + r" "r < 3" by (metis mod_less_divisor mult_div_mod_eq zero_less_numeral)
  from i n(2) have "i \<in> {0, 1, 2}" "r \<in> {0, 1, 2}" by auto
  moreover have "Suc (Suc (3 * q)) div 3 = Suc (3 * q) div 3" by presburger
  ultimately show ?thesis by (auto simp: toggles_def n)
qed

lemma order_distinct: "i < 3 \<Longrightarrow> j < 3 \<Longrightarrow> (ORDER ! i = ORDER ! j) = (i = j)" "i < 3 \<Longrightarrow> ORDER ! i \<noteq> ARABESQUE"
proof -
  assume "i < 3"
  then have i: "i \<in> {0, 1, 2}" by auto
  then show "ORDER ! i \<noteq> ARABESQUE" by (auto simp: ORDER_def ARABESQUE_def)
  assume "j < 3"
  then have "j \<in> {0, 1, 2}" by auto
  with i show "(ORDER ! i = ORDER ! j) = (i = j)" by (auto simp: ORDER_def)
qed

subsection \<open>Every call answers\<close>

datatype deux_event = Dx_Tap "pyval list" rat | Dx_Tilt "pyval list" rat | Dx_Fires rat rat nat

fun deux_do :: "(string \<Rightarrow> pyfloat option) \<Rightarrow> deux_event \<Rightarrow> deux \<Rightarrow> deux \<times> cue list option" where
  "deux_do fstr (Dx_Tap args w) dx = deux_tap args w dx"
| "deux_do fstr (Dx_Tilt args w) dx = deux_tilt fstr args w dx"
| "deux_do fstr (Dx_Fires w chance pixel) dx = deux_fires w chance pixel dx"

fun countable_tap :: "deux_event \<Rightarrow> bool" where
  "countable_tap (Dx_Tap args w) \<longleftrightarrow> tap_count args \<noteq> None"
| "countable_tap _ \<longleftrightarrow> True"

text \<open>The last hue that was sent on a lane of the Room's light.\<close>

fun light_of :: "int \<Rightarrow> cue \<Rightarrow> int option" where
  "light_of cc (LightCue d s a v w) = (if d = ROOM \<and> s = 176 \<and> a = cc then Some v else None)"
| "light_of cc _ = None"

definition shown_after :: "int \<Rightarrow> int option \<Rightarrow> cue list \<Rightarrow> int option" where
  "shown_after cc old cues = foldl (\<lambda>v c. case light_of cc c of None \<Rightarrow> v | Some x \<Rightarrow> Some x) old cues"

lemma shown_append: "shown_after cc old (xs @ ys) = shown_after cc (shown_after cc old xs) ys"
  by (simp add: shown_after_def)

lemma shown_dark: "\<forall>c \<in> set cues. light_of cc c = None \<Longrightarrow> shown_after cc old cues = old"
  by (induction cues arbitrary: old) (simp_all add: shown_after_def)

lemma midi_is_dark: "midi_cue c \<Longrightarrow> light_of cc c = None"
  by (cases c) simp_all

lemma shown_midi: "\<forall>c \<in> set cues. midi_cue c \<Longrightarrow> shown_after cc old cues = old"
  by (rule shown_dark) (simp add: midi_is_dark)

lemma shown_thirds:
  "i < 3 \<Longrightarrow> shown_after (third_cc (ORDER ! i)) old (map (\<lambda>n. third_cue w n (h n)) ORDER) = Some (h (ORDER ! i))"
proof -
  assume "i < 3"
  then consider "i = 0" | "i = 1" | "i = 2" by linarith
  then show ?thesis
    by cases (simp_all add: ORDER_def shown_after_def third_cue_def third_cc_def THIRD_CC_def)
qed

definition tower_shows :: "deux \<Rightarrow> (int \<Rightarrow> int option) \<Rightarrow> bool" where
  "tower_shows dx shown \<longleftrightarrow>
     (dx_started dx \<longrightarrow> (\<forall>i < 3. shown (third_cc (ORDER ! i)) = Some (hue_of (dx_seq dx) (ORDER ! i))))"

lemma hue_of_plays: "plays sq' n = plays sq n \<Longrightarrow> hue_of sq' n = hue_of sq n"
  by (simp add: hue_of_def is_on_plays)

text \<open>What a call owes: an answer, the invariant, and lights that match.\<close>

definition answers :: "deux \<Rightarrow> deux \<times> cue list option \<Rightarrow> bool" where
  "answers dx res \<longleftrightarrow> (\<exists>dx' out. res = (dx', Some out) \<and> deux_inv dx'
     \<and> (\<forall>shown. tower_shows dx shown \<longrightarrow> tower_shows dx' (\<lambda>cc. shown_after cc (shown cc) out)))"

lemma deux_start_inv:
  assumes inv: "deux_inv dx" and s: "deux_start w dx = (dx', out)"
  shows "deux_inv dx' \<and> dx_started dx' \<and> dx_cursor dx' = dx_cursor dx \<and> dx_level dx' = dx_level dx
    \<and> (\<forall>shown. tower_shows dx shown \<longrightarrow> tower_shows dx' (\<lambda>cc. shown_after cc (shown cc) out))"
proof (cases "dx_started dx")
  case True
  with s have "dx' = dx" "out = []" by (simp_all add: deux_start_def)
  with inv True show ?thesis by (simp add: shown_after_def)
next
  case False
  obtain sq volume where m: "set_master (dx_level dx) w (start w (dx_seq dx)) = (sq, volume)"
    by (cases "set_master (dx_level dx) w (start w (dx_seq dx))")
  then have sq: "sq = start w (dx_seq dx)\<lparr>sq_master := dx_level dx\<rparr>" by (simp add: set_master_def Let_def)
  have dx': "dx' = dx\<lparr>dx_started := True, dx_seq := sq\<rparr>"
    and out: "out = map (\<lambda>(name, program). MusicCue ROOM (int (or 192 (part_no name))) (int program) 0 (Some (Fin w)) None) PROGRAMS
        @ map (\<lambda>name. third_cue w name DEUX_RED) ORDER @ volume"
    using s False m by (auto simp: deux_start_def)
  have si: "seq_inv (dx_seq dx, [])" using inv by (simp add: deux_inv_def)
  have good: "seq_inv (sq, volume)" using set_master_inv [OF start_inv [OF si] m] by simp
  have p: "plays sq n = map_option (\<lambda>(l, b). (l, False)) (plays (dx_seq dx) n)" for n
    by (simp add: sq plays_def start_def rewind_def map_of_map option.map_comp comp_def)
  have c0: "dx_cursor dx = 0" using inv False by (simp add: deux_inv_def)
  have loops: "\<forall>i < 3. plays (dx_seq dx) (ORDER ! i) = Some (True, odd (toggles 0 i))"
    and arab: "\<exists>b. plays (dx_seq dx) ARABESQUE = Some (False, b)"
    using inv c0 unfolding deux_inv_def by metis+
  have even: "\<not> odd (toggles 0 i)" for i by (simp add: toggles_def)
  have f: "sq_bpm sq = sq_bpm (dx_seq dx)" "sq_master sq = dx_level dx" "sq_t0 sq = Some w"
    by (simp_all add: sq start_def)
  have "\<forall>i < 3. plays sq (ORDER ! i) = Some (True, odd (toggles 0 i))" "\<exists>b. plays sq ARABESQUE = Some (False, b)"
    using loops arab by (auto simp: p even)
  then have "deux_inv dx'"
    using inv c0 seq_inv_weaken [OF good] by (simp add: deux_inv_def dx' f)
  moreover have "tower_shows dx' (\<lambda>cc. shown_after cc (shown cc) out)" for shown
  proof -
    have "light_of cc c = None" if "c \<in> set (map (\<lambda>(name, program). MusicCue ROOM (int (or 192 (part_no name))) (int program) 0 (Some (Fin w)) None) PROGRAMS)" for cc c
      using that by auto
    then have "shown_after (third_cc (ORDER ! i)) old out = Some DEUX_RED" if "i < 3" for i old
      using shown_thirds [OF that, of _ w "\<lambda>n. DEUX_RED"] shown_midi [OF seq_cues_midi [OF good]]
      by (simp add: out shown_append shown_dark)
    moreover have "hue_of sq (ORDER ! i) = DEUX_RED" if "i < 3" for i
      using loops that by (simp add: hue_of_def is_on_plays p)
    ultimately show ?thesis by (simp add: tower_shows_def dx')
  qed
  ultimately show ?thesis by (simp add: dx')
qed

lemma seq_call_inv:
  assumes "deux_inv dx" "enable n w (dx_seq dx) = Some (sq, out) \<or> disable n w (dx_seq dx) = Some (sq, out)
      \<or> play_once n w (dx_seq dx) = Some (sq, out) \<or> advance w (dx_seq dx) = Some (sq, out)
      \<or> set_master level w (dx_seq dx) = (sq, out)"
  shows "seq_inv (sq, [])" "\<forall>c \<in> set out. midi_cue c"
proof -
  have "seq_inv (dx_seq dx, [])" using assms(1) by (simp add: deux_inv_def)
  with assms(2) have "seq_inv (sq, [] @ out)"
    by (auto dest: enable_inv disable_inv play_once_inv advance_inv set_master_inv)
  then show "seq_inv (sq, [])" "\<forall>c \<in> set out. midi_cue c"
    using seq_inv_weaken seq_cues_midi by auto
qed

text \<open>A call into the sequencer that leaves the loops as the taps have set them.\<close>

lemma deux_inv_seq:
  assumes inv: "deux_inv dx" "dx_started dx" and seq: "seq_inv (sq, [])" "same_grid (dx_seq dx) sq"
    and p: "\<forall>i < 3. plays sq (ORDER ! i) = Some (True, odd (toggles c i))" "\<exists>b. plays sq ARABESQUE = Some (False, b)"
  shows "deux_inv (dx\<lparr>dx_seq := sq, dx_cursor := c\<rparr>)" "deux_inv (dx\<lparr>dx_seq := sq, dx_cursor := c, dx_last_at := l\<rparr>)"
  using assms by (simp_all add: deux_inv_def same_grid_def)

lemma tap_answers:
  assumes inv: "deux_inv dx0" and taps: "tap_count args = Some taps"
  shows "answers dx0 (deux_tap args w dx0)"
proof -
  obtain dx out where s: "deux_start w dx0 = (dx, out)" by (cases "deux_start w dx0")
  note start = deux_start_inv [OF inv s]
  have dx: "deux_inv dx" "dx_started dx" using start by simp_all
  have t0: "sq_t0 (dx_seq dx) \<noteq> None" and bpm: "sq_bpm (dx_seq dx) \<noteq> 0"
    and loops: "\<And>i. i < 3 \<Longrightarrow> plays (dx_seq dx) (ORDER ! i) = Some (True, odd (toggles (dx_cursor dx) i))"
    using dx unfolding deux_inv_def by (auto simp: DEUX_BPM_def)
  obtain b where arab: "plays (dx_seq dx) ARABESQUE = Some (False, b)" using dx unfolding deux_inv_def by blast
  show ?thesis
  proof (cases "2 \<le> taps")
    case True
    obtain sq cues where call: "(if b then disable ARABESQUE w (dx_seq dx) else play_once ARABESQUE w (dx_seq dx)) = Some (sq, cues)"
      and grid: "same_grid (dx_seq dx) sq"
      and p: "\<And>m. plays sq m = (if m = ARABESQUE then Some (False, \<not> b) else plays (dx_seq dx) m)"
      using disable_plays [of "dx_seq dx" ARABESQUE False w] play_once_plays [OF t0 bpm arab, of w] arab by (cases b) auto
    have good: "seq_inv (sq, [])" "\<forall>c \<in> set cues. midi_cue c"
      using seq_call_inv [OF dx(1), of ARABESQUE w sq cues] call by (cases b; simp)+
    have tap: "deux_tap args w dx0 = (dx\<lparr>dx_seq := sq\<rparr>, Some (out @ cues))"
      using s taps True call arab by (simp add: deux_tap_def is_on_plays then_seq_def)
    have "deux_inv (dx\<lparr>dx_seq := sq, dx_cursor := dx_cursor dx\<rparr>)"
      by (rule deux_inv_seq [OF dx good(1) grid]) (use loops order_distinct(2) in \<open>auto simp: p\<close>)
    moreover have "tower_shows (dx\<lparr>dx_seq := sq\<rparr>) (\<lambda>cc. shown_after cc (shown cc) (out @ cues))"
      if "tower_shows dx0 shown" for shown
      using start that order_distinct(2)
      by (auto simp: tower_shows_def shown_append shown_midi [OF good(2)] hue_of_def is_on_plays p)
    ultimately show ?thesis by (auto simp: answers_def tap)
  next
    case False
    let ?i = "dx_cursor dx mod 3" and ?dx = "dx\<lparr>dx_cursor := Suc (dx_cursor dx)\<rparr>"
    let ?n = "ORDER ! ?i" and ?on = "odd (toggles (dx_cursor dx) ?i)"
    have i: "?i < 3" by simp
    have len: "length ORDER = 3" by (simp add: ORDER_def)
    obtain sq cues where call: "(if ?on then disable ?n w (dx_seq dx) else enable ?n w (dx_seq dx)) = Some (sq, cues)"
      and grid: "same_grid (dx_seq dx) sq"
      and p: "\<And>m. plays sq m = (if m = ?n then Some (True, \<not> ?on) else plays (dx_seq dx) m)"
      using disable_plays [of "dx_seq dx" ?n True w] enable_plays [OF t0, of ?n w] loops [OF i] by (cases ?on) auto
    have good: "seq_inv (sq, [])" "\<forall>c \<in> set cues. midi_cue c"
      using seq_call_inv [OF dx(1), of ?n w sq cues] call by (cases ?on; simp)+
    have p': "plays sq (ORDER ! j) = Some (True, odd (toggles (Suc (dx_cursor dx)) j))" if "j < 3" for j
      using that i loops [OF that] loops [OF i] order_distinct(1) [OF that i] toggles_step [OF that, of "dx_cursor dx"] by (simp add: p)
    have all: "list_all (\<lambda>n. is_on n sq \<noteq> None) ORDER"
      using p' by (auto simp: list_all_length len is_on_plays)
    have tap: "deux_tap args w dx0
        = (?dx\<lparr>dx_seq := sq\<rparr>, Some ((out @ cues) @ map (\<lambda>n. third_cue w n (hue_of sq n)) ORDER))"
      using s taps False call loops [OF i] all by (cases ?on) (simp_all add: deux_tap_def is_on_plays then_seq_def Let_def len)
    have "deux_inv (dx\<lparr>dx_seq := sq, dx_cursor := Suc (dx_cursor dx)\<rparr>)"
      by (rule deux_inv_seq [OF dx good(1) grid]) (use p' arab order_distinct(2) [OF i] in \<open>auto simp: p\<close>)
    moreover have "tower_shows (?dx\<lparr>dx_seq := sq\<rparr>)
        (\<lambda>cc. shown_after cc (shown cc) ((out @ cues) @ map (\<lambda>n. third_cue w n (hue_of sq n)) ORDER))" for shown
      using shown_thirds [of _ _ w "hue_of sq"] by (simp add: tower_shows_def shown_append)
    moreover have same: "?dx\<lparr>dx_seq := sq\<rparr> = dx\<lparr>dx_seq := sq, dx_cursor := Suc (dx_cursor dx)\<rparr>" by (cases dx) simp
    ultimately show ?thesis by (simp add: answers_def tap same)
  qed
qed

lemma tilt_answers:
  assumes inv: "deux_inv dx"
  shows "answers dx (deux_tilt fstr args w dx)"
proof -
  have quiet: "answers dx (dx, Some [])" using inv by (simp add: answers_def shown_after_def)
  have turn: "answers dx (then_seq (dx\<lparr>dx_level := level\<rparr>) [] (Some (set_master level w (dx_seq dx))))"
    if level: "level \<in> {1, DUCK}" for level
  proof -
    obtain sq cues where m: "set_master level w (dx_seq dx) = (sq, cues)" by (cases "set_master level w (dx_seq dx)")
    then have sq: "sq = dx_seq dx\<lparr>sq_master := level\<rparr>" by (simp add: set_master_def Let_def)
    have good: "seq_inv (sq, [])" "\<forall>c \<in> set cues. midi_cue c" using seq_call_inv [OF inv] m by blast+
    have p: "plays sq n = plays (dx_seq dx) n" for n by (simp add: sq plays_def)
    have f: "sq_bpm sq = sq_bpm (dx_seq dx)" "sq_t0 sq = sq_t0 (dx_seq dx)" "sq_master sq = level" by (simp_all add: sq)
    have "deux_inv (dx\<lparr>dx_level := level, dx_seq := sq\<rparr>)"
      using inv level good(1) unfolding deux_inv_def by (simp add: p f)
    moreover have "tower_shows (dx\<lparr>dx_level := level, dx_seq := sq\<rparr>) (\<lambda>cc. shown_after cc (shown cc) cues)"
      if "tower_shows dx shown" for shown
      using that by (simp add: tower_shows_def shown_midi [OF good(2)] hue_of_plays [OF p])
    ultimately show ?thesis by (auto simp: answers_def then_seq_def m)
  qed
  show ?thesis
    using quiet turn [of DUCK] turn [of 1] by (auto simp: deux_tilt_def Let_def split: list.split option.split)
qed

lemma fires_answers:
  assumes inv: "deux_inv dx0"
  shows "answers dx0 (deux_fires w chance pixel dx0)"
proof -
  obtain dx out where s: "deux_start w dx0 = (dx, out)" by (cases "deux_start w dx0")
  note start = deux_start_inv [OF inv s]
  have dx: "deux_inv dx" "dx_started dx" using start by simp_all
  have seq: "seq_inv (dx_seq dx, [])" and t0: "sq_t0 (dx_seq dx) \<noteq> None"
    and loops: "\<And>i. i < 3 \<Longrightarrow> plays (dx_seq dx) (ORDER ! i) = Some (True, odd (toggles (dx_cursor dx) i))"
    using dx unfolding deux_inv_def by auto
  obtain b where arab: "plays (dx_seq dx) ARABESQUE = Some (False, b)" using dx unfolding deux_inv_def by blast
  obtain sq cues where a: "advance w (dx_seq dx) = Some (sq, cues)" and grid: "same_grid (dx_seq dx) sq"
    and loop: "\<And>m b. plays (dx_seq dx) m = Some (True, b) \<Longrightarrow> plays sq m = Some (True, b)"
    and once: "\<And>m b. plays (dx_seq dx) m = Some (False, b) \<Longrightarrow> \<exists>b'. plays sq m = Some (False, b')"
    using advance_plays [OF seq t0, of w] by blast
  have good: "seq_inv (sq, [])" "\<forall>c \<in> set cues. midi_cue c" using seq_call_inv [OF dx(1)] a by blast+
  obtain b' where arab': "plays sq ARABESQUE = Some (False, b')" using once [OF arab] by blast
  obtain flicker where fires: "deux_fires w chance pixel dx0
      = (dx\<lparr>dx_seq := sq, dx_last_at := Some w\<rparr>, Some (out @ cues @ flicker))" and dark: "\<forall>c \<in> set flicker. \<forall>cc. light_of cc c = None"
    using s a arab' by (auto simp: deux_fires_def is_on_plays Let_def)
  have "deux_inv (dx\<lparr>dx_seq := sq, dx_cursor := dx_cursor dx, dx_last_at := Some w\<rparr>)"
    by (rule deux_inv_seq(2) [OF dx good(1) grid]) (use loops loop arab' in auto)
  moreover have "tower_shows (dx\<lparr>dx_seq := sq, dx_last_at := Some w\<rparr>) (\<lambda>cc. shown_after cc (shown cc) (out @ cues @ flicker))"
    if "tower_shows dx0 shown" for shown
  proof -
    have "hue_of sq (ORDER ! i) = hue_of (dx_seq dx) (ORDER ! i)" if "i < 3" for i
      using loop [OF loops [OF that]] loops [OF that] by (simp add: hue_of_plays)
    then show ?thesis
      using start that dark by (simp add: tower_shows_def shown_append shown_midi [OF good(2)] shown_dark)
  qed
  ultimately show ?thesis by (auto simp: answers_def fires)
qed

lemma deux_do_answers: "deux_inv dx \<Longrightarrow> countable_tap ev \<Longrightarrow> answers dx (deux_do fstr ev dx)"
  by (cases ev) (auto intro: tap_answers tilt_answers fires_answers)

subsection \<open>Runs\<close>

definition deux_step :: "(string \<Rightarrow> pyfloat option) \<Rightarrow> deux \<times> cue list \<Rightarrow> deux_event \<Rightarrow> deux \<times> cue list" where
  "deux_step fstr s ev =
     (case deux_do fstr ev (fst s) of (dx, None) \<Rightarrow> (dx, snd s) | (dx, Some out) \<Rightarrow> (dx, snd s @ out))"

fun is_tilt :: "deux_event \<Rightarrow> bool" where
  "is_tilt (Dx_Tilt args w) \<longleftrightarrow> True"
| "is_tilt _ \<longleftrightarrow> False"

fun single_tap :: "deux_event \<Rightarrow> bool" where
  "single_tap (Dx_Tap args w) \<longleftrightarrow> tap_count args = Some 1"
| "single_tap _ \<longleftrightarrow> False"

lemma toggles_count: "i < 3 \<Longrightarrow> toggles n i = length (filter (\<lambda>j. j mod 3 = i) [0..<n])"
  by (induction n) (auto simp: toggles_step, simp add: toggles_def)

lemma deux_start_frame:
  "dx_started (fst (deux_start w dx))" "dx_cursor (fst (deux_start w dx)) = dx_cursor dx"
  by (simp_all add: deux_start_def case_prod_beta Let_def)

lemma then_seq_frame [simp]:
  "dx_started (fst (then_seq dx out res)) = dx_started dx" "dx_cursor (fst (then_seq dx out res)) = dx_cursor dx"
  by (simp_all add: then_seq_def split: option.split)

lemma tap_count_pos: "tap_count args = Some n \<Longrightarrow> 1 \<le> n"
  by (auto simp: tap_count_def split: list.splits int_read.splits)

lemma tap_frame:
  assumes "tap_count args = Some n"
  shows "dx_started (fst (deux_tap args w dx))"
    and "dx_cursor (fst (deux_tap args w dx)) = dx_cursor dx + (if n = 1 then 1 else 0)"
proof -
  obtain dx1 out where s: "deux_start w dx = (dx1, out)" by (cases "deux_start w dx")
  then have dx1: "dx_started dx1" "dx_cursor dx1 = dx_cursor dx" using deux_start_frame [of w dx] by simp_all
  have dist: "dx_started (fst (case r of (a, None) \<Rightarrow> (a, None) | (a, Some c) \<Rightarrow> if q a then (a, Some (g a c)) else (a, None))) = dx_started (fst r)"
    "dx_cursor (fst (case r of (a, None) \<Rightarrow> (a, None) | (a, Some c) \<Rightarrow> if q a then (a, Some (g a c)) else (a, None))) = dx_cursor (fst r)"
    for r :: "deux \<times> cue list option" and q :: "deux \<Rightarrow> bool" and g :: "deux \<Rightarrow> cue list \<Rightarrow> cue list"
    by (simp_all split: prod.split option.split)
  show "dx_started (fst (deux_tap args w dx))"
    using dx1 assms by (simp add: deux_tap_def s Let_def dist split: option.split)
  show "dx_cursor (fst (deux_tap args w dx)) = dx_cursor dx + (if n = 1 then 1 else 0)"
    using dx1 assms tap_count_pos [OF assms] by (auto simp: deux_tap_def s Let_def dist split: option.split)
qed

lemma event_frame:
  assumes "countable_tap ev"
  shows "dx_started (fst (deux_do fstr ev dx)) \<longleftrightarrow> dx_started dx \<or> \<not> is_tilt ev"
    and "dx_cursor (fst (deux_do fstr ev dx)) = dx_cursor dx + (if single_tap ev then 1 else 0)"
proof -
  have tilt: "dx_started (fst (deux_tilt fstr args w dx)) = dx_started dx" "dx_cursor (fst (deux_tilt fstr args w dx)) = dx_cursor dx"
    for args w by (auto simp: deux_tilt_def Let_def split: list.split option.split)
  have fires: "dx_started (fst (deux_fires w chance pixel dx))" "dx_cursor (fst (deux_fires w chance pixel dx)) = dx_cursor dx"
    for w chance pixel
    using deux_start_frame [of w dx]
    by (cases "deux_start w dx"; simp add: deux_fires_def Let_def case_prod_beta split: option.split)+
  show "dx_started (fst (deux_do fstr ev dx)) \<longleftrightarrow> dx_started dx \<or> \<not> is_tilt ev"
    "dx_cursor (fst (deux_do fstr ev dx)) = dx_cursor dx + (if single_tap ev then 1 else 0)"
    using assms tap_frame by (cases ev; auto simp: tilt fires)+
qed

lemma new_deux_inv:
  assumes "new_deux (\<lambda>n. parse_midi (data n)) = Some dx"
  shows "deux_inv dx \<and> \<not> dx_started dx \<and> dx_cursor dx = 0"
proof -
  let ?sq0 = "new_sequencer DEUX_BPM ROOM SEQ_LOOKAHEAD"
  obtain m0 m1 m2 m3 q1 q2 q3 q4 where midi: "parse_midi (data ''piano'') = Some m0" "parse_midi (data ''drums'') = Some m1"
      "parse_midi (data ''synth'') = Some m2" "parse_midi (data ARABESQUE) = Some m3"
    and add: "add_track ''piano'' m0 0 True 0 ?sq0 = Some q1" "add_track ''drums'' m1 1 True 0 q1 = Some q2"
      "add_track ''synth'' m2 2 True 0 q2 = Some q3" "add_track ARABESQUE m3 3 False ARABESQUE_LEAD_IN q3 = Some q4"
    and dx: "dx = \<lparr>dx_seq = q4, dx_started = False, dx_cursor = 0, dx_level = 1, dx_last_at = None\<rparr>"
    using assms by (auto simp: new_deux_def ORDER_def part_no_def PARTS_def ARABESQUE_def split: option.splits)
  have "seq_inv (?sq0, [])" by (simp add: seq_inv_def new_sequencer_def)
  from add_track_inv [OF add(1) parse_midi_ok [OF midi(1)] _ this] have "seq_inv (q1, [])" by simp
  from add_track_inv [OF add(2) parse_midi_ok [OF midi(2)] _ this] have "seq_inv (q2, [])" by simp
  from add_track_inv [OF add(3) parse_midi_ok [OF midi(3)] _ this] have "seq_inv (q3, [])" by simp
  from add_track_inv [OF add(4) parse_midi_ok [OF midi(4)] _ this] have seq: "seq_inv (q4, [])" by simp
  have step: "plays q' m = (if m = n then Some (l, False) else plays q m) \<and> sq_bpm q' = sq_bpm q \<and> sq_master q' = sq_master q"
    if "add_track n mf part l skip q = Some q'" for n mf part l skip q q' m
    using that by (auto simp: add_track_def plays_def Let_def split: if_splits)
  have p: "plays q4 ''piano'' = Some (True, False)" "plays q4 ''drums'' = Some (True, False)"
    "plays q4 ''synth'' = Some (True, False)" "plays q4 ARABESQUE = Some (False, False)" "sq_bpm q4 = DEUX_BPM" "sq_master q4 = 1"
    using step [OF add(1)] step [OF add(2)] step [OF add(3)] step [OF add(4)] by (simp_all add: ARABESQUE_def new_sequencer_def)
  have "plays q4 (ORDER ! i) = Some (True, odd (toggles 0 i))" if "i < 3" for i
  proof -
    from that consider "i = 0" | "i = 1" | "i = 2" by linarith
    then show ?thesis by cases (simp_all add: ORDER_def p toggles_def)
  qed
  moreover have "\<exists>b. plays q4 ARABESQUE = Some (False, b)" using p(4) by blast
  ultimately show ?thesis using seq p(5,6) by (simp add: deux_inv_def dx)
qed

lemma deux_run_inv:
  assumes "deux_inv dx0" "\<not> dx_started dx0" "\<forall>ev \<in> set evs. countable_tap ev" "foldl (deux_step fstr) (dx0, []) evs = (dx, cues)"
  shows "deux_inv dx \<and> (dx_started dx \<longleftrightarrow> (\<exists>ev \<in> set evs. \<not> is_tilt ev))
    \<and> dx_cursor dx = dx_cursor dx0 + length (filter single_tap evs) \<and> tower_shows dx (\<lambda>cc. shown_after cc None cues)"
  using assms(3,4)
proof (induction evs arbitrary: dx cues rule: rev_induct)
  case Nil
  then show ?case using assms(1,2) by (auto simp: tower_shows_def)
next
  case (snoc ev evs)
  obtain dx1 c1 where r: "foldl (deux_step fstr) (dx0, []) evs = (dx1, c1)" by fastforce
  have IH: "deux_inv dx1" "dx_started dx1 \<longleftrightarrow> (\<exists>ev \<in> set evs. \<not> is_tilt ev)"
    "dx_cursor dx1 = dx_cursor dx0 + length (filter single_tap evs)" "tower_shows dx1 (\<lambda>cc. shown_after cc None c1)"
    using snoc.IH [OF _ r] snoc.prems(1) by simp_all
  have ev: "countable_tap ev" using snoc.prems(1) by simp
  from deux_do_answers [OF IH(1) ev, of fstr] obtain dx2 out where
    out: "deux_do fstr ev dx1 = (dx2, Some out)" "deux_inv dx2" "tower_shows dx2 (\<lambda>cc. shown_after cc (shown_after cc None c1) out)"
    using IH(4) unfolding answers_def by blast
  have "deux_step fstr (dx1, c1) ev = (dx, cues)" using snoc.prems(2) r by simp
  then have dx: "dx = dx2" "cues = c1 @ out" using out(1) by (simp_all add: deux_step_def)
  show ?case
    using out event_frame [OF ev, of fstr dx1] IH(2,3) by (auto simp: dx shown_append)
qed

text \<open>
  C10: Whatever the player does once the Bit has begun, the loop at place \<open>i\<close> of the cycle is on exactly when an odd number
  of the single taps so far had its turn, and the last hue its third of the Tower was sent is green if it is on and
  red if it is off.
\<close>
theorem tower_shows_what_plays:
  assumes new: "new_deux (\<lambda>n. parse_midi (data n)) = Some dx0"
    and evs: "\<forall>ev \<in> set evs. countable_tap ev" "\<exists>ev \<in> set evs. \<not> is_tilt ev"
    and run: "foldl (deux_step fstr) (dx0, []) evs = (dx, cues)" and i: "i < 3"
  shows "is_on (ORDER ! i) (dx_seq dx) = Some (odd (length (filter (\<lambda>j. j mod 3 = i) [0..<length (filter single_tap evs)])))
    \<and> shown_after (third_cc (ORDER ! i)) None cues
      = Some (if is_on (ORDER ! i) (dx_seq dx) = Some True then DEUX_GREEN else DEUX_RED)"
proof -
  have new': "deux_inv dx0" "\<not> dx_started dx0" "dx_cursor dx0 = 0" using new_deux_inv [OF new] by simp_all
  from deux_run_inv [OF new'(1,2) evs(1) run] new'(3) evs(2) have
    r: "deux_inv dx" "dx_started dx" "dx_cursor dx = length (filter single_tap evs)" "tower_shows dx (\<lambda>cc. shown_after cc None cues)"
    by simp_all
  have "plays (dx_seq dx) (ORDER ! i) = Some (True, odd (toggles (dx_cursor dx) i))" using r(1) i unfolding deux_inv_def by blast
  then have "is_on (ORDER ! i) (dx_seq dx) = Some (odd (length (filter (\<lambda>j. j mod 3 = i) [0..<length (filter single_tap evs)])))"
    using r(3) i by (simp add: is_on_plays toggles_count)
  moreover have "shown_after (third_cc (ORDER ! i)) None cues = Some (hue_of (dx_seq dx) (ORDER ! i))"
    using r(2,4) i by (simp add: tower_shows_def)
  ultimately show ?thesis unfolding hue_of_def by blast
qed

lemma tower_shows_what_plays_witness:
  "\<exists>dx cues. is_on ''piano'' (dx_seq dx) = Some True \<and> shown_after 20 None cues = Some 42
     \<and> (\<exists>dx0. new_deux (\<lambda>n. parse_midi one_note_file) = Some dx0
          \<and> foldl (deux_step (\<lambda>s. None)) (dx0, []) [Dx_Tap [VStr ''d''] 1] = (dx, cues))"
proof -
  obtain mf where mf: "parse_midi one_note_file = Some mf" using one_note_parsed by blast
  have one: "\<exists>sq'. add_track n mf part loop skip sq = Some sq'" if "\<not> (loop \<and> skip \<noteq> 0)" for n part loop skip sq
    using that by (simp add: add_track_def Let_def)
  have "\<exists>sq. add_loops (\<lambda>n. Some mf) names sq0 = Some sq" for names sq0
  proof (induction names arbitrary: sq0)
    case (Cons n names)
    obtain sq1 where "add_track n mf (part_no n) True 0 sq0 = Some sq1" using one by blast
    then show ?case using Cons.IH by simp
  qed simp
  then obtain sq1 where "add_loops (\<lambda>n. Some mf) ORDER (new_sequencer DEUX_BPM ROOM SEQ_LOOKAHEAD) = Some sq1" by blast
  moreover obtain sq2 where "add_track ARABESQUE mf (part_no ARABESQUE) False ARABESQUE_LEAD_IN sq1 = Some sq2" using one by blast
  ultimately have "new_deux (\<lambda>n. parse_midi one_note_file) \<noteq> None" by (simp add: new_deux_def mf)
  then obtain dx0 where new: "new_deux (\<lambda>n. parse_midi ((\<lambda>n. one_note_file) n)) = Some dx0" by auto
  obtain dx cues where run: "foldl (deux_step (\<lambda>s. None)) (dx0, []) [Dx_Tap [VStr ''d''] 1] = (dx, cues)" by fastforce
  have c: "\<forall>ev \<in> set [Dx_Tap [VStr ''d''] 1]. countable_tap ev" "\<exists>ev \<in> set [Dx_Tap [VStr ''d''] 1]. \<not> is_tilt ev"
    and single: "length (filter single_tap [Dx_Tap [VStr ''d''] 1]) = 1"
    by (simp_all add: tap_count_def)
  have n: "ORDER ! 0 = ''piano''" "third_cc ''piano'' = 20" "DEUX_GREEN = 42" by (simp_all add: ORDER_def third_cc_def THIRD_CC_def DEUX_GREEN_def)
  have k: "odd (length (filter (\<lambda>j. j mod 3 = 0) [0..<1::nat]))" by simp
  have r: "is_on (ORDER ! 0) (dx_seq dx) = Some True \<and> shown_after (third_cc (ORDER ! 0)) None cues = Some DEUX_GREEN"
    using tower_shows_what_plays [OF new c run, of 0] k unfolding single by simp
  show ?thesis by (rule exI [of _ dx], rule exI [of _ cues]) (use r new run in \<open>simp only: n simp_thms; blast\<close>)
qed

text \<open>Only a tap whose count is infinite raises; the first such call takes the opening cues with it.\<close>

lemma no_call_raises:
  assumes "new_deux (\<lambda>n. parse_midi (data n)) = Some dx0" "\<forall>ev \<in> set (evs @ [ev]). countable_tap ev"
    and "foldl (deux_step fstr) (dx0, []) evs = (dx, cues)"
  shows "snd (deux_do fstr ev dx) \<noteq> None"
proof -
  have "deux_inv dx0 \<and> \<not> dx_started dx0" using new_deux_inv [OF assms(1)] by simp
  then have "deux_inv dx" using deux_run_inv [OF _ _ _ assms(3)] assms(2) by simp
  then show ?thesis using deux_do_answers [of dx ev fstr] assms(2) by (auto simp: answers_def)
qed

lemma infinite_tap_loses_the_opening:
  assumes "deux_inv dx" "\<not> dx_started dx"
  shows "snd (deux_tap [VStr d, VFloat x, VInt ms, VFloat PInf] w dx) = None"
    and "dx_started (fst (deux_tap [VStr d, VFloat x, VInt ms, VFloat PInf] w dx))"
    and "fst (deux_start v (fst (deux_tap [VStr d, VFloat x, VInt ms, VFloat PInf] w dx)))
      = fst (deux_tap [VStr d, VFloat x, VInt ms, VFloat PInf] w dx)"
  by (simp_all add: deux_tap_def tap_count_def deux_start_def case_prod_beta Let_def)

text \<open>The duck has a dead band: between the two angles nothing changes.\<close>

lemma tilt_in_the_dead_band_is_ignored:
  "RIGHT_DEG < \<bar>r\<bar> \<Longrightarrow> \<bar>r\<bar> < TIP_DEG \<Longrightarrow> deux_tilt fstr [VStr d, VFloat (Fin r)] w dx = (dx, Some [])"
  by (simp add: deux_tilt_def Let_def fle_def)

end
