(* ===== verification/Tick_Pacer.thy ===== *)
theory Tick_Pacer
  imports Prelude
begin

section \<open>Pacing a loop\<close>

text \<open>
  \<open>src/harness/tick_pacer.py\<close>: \<open>wait\<close> returns at the next deadline and moves it by one period; when it comes more than a
  period late, the schedule starts anew. The clock's reading and how much longer than asked the sleep takes are
  arguments; times are exact.
\<close>

record pacer =
  pc_period :: rat
  pc_deadline :: "rat option"

definition new_pacer :: "rat \<Rightarrow> pacer option" where
  "new_pacer period = (if period \<le> 0 then None else Some \<lparr>pc_period = period, pc_deadline = None\<rparr>)"

text \<open>The pacer after a \<open>wait\<close>, and the time at which it returned.\<close>

definition pacer_wait :: "rat \<Rightarrow> rat \<Rightarrow> pacer \<Rightarrow> pacer \<times> rat" where
  "pacer_wait now late p =
     (let sleep_until = (\<lambda>d. (p\<lparr>pc_deadline := Some (d + pc_period p)\<rparr>, if 0 < d - now then d + late else now))
      in case pc_deadline p of
           None \<Rightarrow> sleep_until (now + pc_period p)
         | Some d \<Rightarrow>
             if pc_period p < now - d then (p\<lparr>pc_deadline := Some (now + pc_period p)\<rparr>, now)
             else sleep_until d)"

text \<open>
  A loop that works for \<open>fst x\<close> between its waits, and whose sleep takes \<open>snd x\<close> too long: the pacer at the end, and
  the times of the returns.
\<close>

fun paced :: "(rat \<times> rat) list \<Rightarrow> rat \<Rightarrow> pacer \<Rightarrow> pacer \<times> rat list" where
  "paced [] t p = (p, [])"
| "paced ((work, late) # xs) t p =
     (let (p1, r) = pacer_wait (t + work) late p; (p2, rs) = paced xs r p1 in (p2, r # rs))"

definition real_work :: "(rat \<times> rat) list \<Rightarrow> bool" where
  "real_work xs \<longleftrightarrow> (\<forall>x \<in> set xs. 0 \<le> fst x \<and> 0 \<le> snd x)"

lemma wait_moves_on:
  assumes "pacer_wait now late p = (p', r)" "0 \<le> late" "0 < pc_period p"
  shows "pc_period p' = pc_period p" and "now \<le> r"
    and "\<exists>d'. pc_deadline p' = Some d' \<and> d' \<le> r + pc_period p
      \<and> (\<forall>d. pc_deadline p = Some d \<longrightarrow> d \<le> r \<and> d + pc_period p \<le> d' \<and> (pc_period p < now - d \<longrightarrow> d' = r + pc_period p))"
  using assms by (auto simp: pacer_wait_def Let_def split: option.splits if_splits)

text \<open>Lost time is not made up for: the \<open>n\<close>-th return from any deadline on is at least that many periods later.\<close>

lemma returns_keep_the_deadline:
  assumes "pc_deadline p = Some d" "0 < pc_period p" "real_work xs" "i < length xs"
  shows "d + of_nat i * pc_period p \<le> snd (paced xs t p) ! i"
  using assms
proof (induction xs arbitrary: d t p i)
  case (Cons x xs)
  obtain p1 r where w: "pacer_wait (t + fst x) (snd x) p = (p1, r)" by fastforce
  have late: "0 \<le> snd x" using Cons.prems(3) by (simp add: real_work_def)
  from wait_moves_on [OF w late Cons.prems(2)] Cons.prems(1) obtain d' where
    p1: "pc_period p1 = pc_period p" "pc_deadline p1 = Some d'" "d \<le> r" "d + pc_period p \<le> d'" by auto
  have paced: "snd (paced (x # xs) t p) = r # snd (paced xs r p1)" using w by (cases x) (simp add: case_prod_beta)
  show ?case
  proof (cases i)
    case (Suc j)
    have "d' + of_nat j * pc_period p1 \<le> snd (paced xs r p1) ! j"
      using Cons.IH [OF p1(2), of j r] Cons.prems(2-4) p1(1) by (simp add: real_work_def Suc)
    with p1 show ?thesis by (simp add: paced Suc algebra_simps)
  qed (use p1 in \<open>simp add: paced\<close>)
qed simp

text \<open>
  A stall is lost time and never a burst: however long a tick or a sleep took, the ticks after it are one period apart
  but for two, the one that is repaid and the one that is under way.
\<close>
lemma a_stall_never_bursts:
  assumes "0 < pc_period p" "real_work xs" "i < length xs"
  shows "t + (of_nat i - 1) * pc_period p \<le> snd (paced xs t p) ! i"
proof -
  obtain x xs' where xs: "xs = x # xs'" using assms(3) by (cases xs) auto
  obtain p1 r where w: "pacer_wait (t + fst x) (snd x) p = (p1, r)" by fastforce
  have x: "0 \<le> fst x" "0 \<le> snd x" using assms(2) by (simp_all add: real_work_def xs)
  from wait_moves_on [OF w x(2) assms(1)] obtain d' where
    p1: "pc_period p1 = pc_period p" "pc_deadline p1 = Some d'" and r: "t + fst x \<le> r"
    and d: "\<And>d. pc_deadline p = Some d \<Longrightarrow> d + pc_period p \<le> d' \<and> (pc_period p < t + fst x - d \<longrightarrow> d' = r + pc_period p)" by blast
  have d': "t \<le> d'"
  proof (cases "pc_deadline p")
    case None
    then show ?thesis using w p1(2) x assms(1) by (auto simp: pacer_wait_def Let_def split: if_splits)
  next
    case (Some d)
    then show ?thesis using d [OF Some] x r assms(1) by linarith
  qed
  have paced: "snd (paced xs t p) = r # snd (paced xs' r p1)" using w by (cases x) (simp add: case_prod_beta xs)
  show ?thesis
  proof (cases i)
    case 0
    then show ?thesis using r x(1) assms(1) by (simp add: paced)
  next
    case (Suc j)
    have "d' + of_nat j * pc_period p1 \<le> snd (paced xs' r p1) ! j"
      using returns_keep_the_deadline [OF p1(2), of xs' j r] assms p1(1) by (simp add: xs Suc real_work_def)
    then show ?thesis using d' p1(1) by (simp add: paced Suc)
  qed
qed

text \<open>While no wait comes a period late, the mean rate is exact: the deadlines are multiples of the period.\<close>

definition on_time :: "rat \<Rightarrow> pacer \<Rightarrow> bool" where
  "on_time now p \<longleftrightarrow> (case pc_deadline p of None \<Rightarrow> True | Some d \<Rightarrow> now - d \<le> pc_period p)"

fun all_on_time :: "(rat \<times> rat) list \<Rightarrow> rat \<Rightarrow> pacer \<Rightarrow> bool" where
  "all_on_time [] t p = True"
| "all_on_time ((work, late) # xs) t p =
     (on_time (t + work) p \<and> (case pacer_wait (t + work) late p of (p1, r) \<Rightarrow> all_on_time xs r p1))"

lemma mean_rate_holds:
  assumes "pc_deadline p = Some d" "all_on_time xs t p"
  shows "pc_deadline (fst (paced xs t p)) = Some (d + of_nat (length xs) * pc_period p)"
  using assms
proof (induction xs arbitrary: d t p)
  case (Cons x xs)
  obtain work late where x: "x = (work, late)" by (cases x)
  have now: "\<not> pc_period p < t + work - d" using Cons.prems by (simp add: x on_time_def)
  obtain r where w: "pacer_wait (t + work) late p = (p\<lparr>pc_deadline := Some (d + pc_period p)\<rparr>, r)"
    using Cons.prems(1) now by (auto simp: pacer_wait_def Let_def)
  have "all_on_time xs r (p\<lparr>pc_deadline := Some (d + pc_period p)\<rparr>)" using Cons.prems(2) w by (simp add: x)
  from Cons.IH [OF _ this] w show ?case by (simp add: x case_prod_beta algebra_simps)
qed simp

end
