(* ===== verification/Spec2Isabelle.thy ===== *)
theory Spec2Isabelle
  imports Instrument_Facts Registration_Facts Manifests Function_Facts Role_Config Generators Lobby_Runtime Room_Facts
    Engine_Facts Agent_Release Device_Protocol Queue_Refinement Link_Monitor Teardown Midi_Write Sequencer_Notes
    Uplink_Facts Process Config_Facts Minigame_Engine Metronome_Play Audio_Synth Prepare Run_Record
    Capture_Runs Deux_Facts Tick_Pacer
begin

text \<open>
  A verification library of mm-terrarium, the server of one Musical Mycology venue. A venue runs the Arco server
  (the O2 hub and all synthesis) and the Control process, which is the program modelled here.

  \<^bold>\<open>The program\<close>. Control hosts one \<^emph>\<open>Bit\<close> (a game) at a time. The engine (\<open>GameServer\<close>,
  \<open>src/control/engine.py\<close>) drives the Bit through IDLE, LOADING, SETUP, RUNNING, COMPLETING and UNLOADING, registers
  players, routes their gestures and dispatches the Bit's cues. It stands in a \<^emph>\<open>Room\<close> (fixtures, zones,
  a binding of devices to fixtures), which the Terrarium (\<open>src/control/terrarium.py\<close>) loads, recycles and tears down
  together with the processes that belong to it. The engine speaks to the world through sinks; the device agent
  (\<open>src/devicelink/agent.py\<close>) is the one that matters: it holds a light session per device and fixture, renders and
  sends frames, runs the lobby and keeps mutes, overrides and fades. Cues and frames wait in timed queues; the audio
  bridge turns MIDI into synthesizer calls; Art-Net sinks send the frames of wired fixtures; the uplink carries state
  and completions to a broker and takes commands from it. On the other side of the device link stands the simulated
  device (\<open>src/harness/shroom_client.py\<close>, \<open>src/harness/beat_link.py\<close>), which speaks the protocol a real one does.

  \<^bold>\<open>Which theory models what\<close>.

  \<^item> \<open>Prelude\<close>: Python's numbers, dictionaries in insertion order, dynamic values (\<open>pyval\<close>), outcomes; the locale
    \<open>machine\<close> (a step function with an invariant, hence an invariant of runs) and \<open>accounting_machine\<close>.
  \<^item> \<open>Cues\<close>, \<open>Functions\<close>, \<open>Function_Rules\<close>, \<open>Instruments\<close>: \<open>src/control/cues.py\<close>, \<open>functions.py\<close>, \<open>instrument.py\<close>,
    \<open>triggers.py\<close>, \<open>builtins.py\<close>; facts in \<open>Function_Facts\<close> and \<open>Instrument_Facts\<close>. \<open>Generators\<close>: \<open>generator_runner.py\<close>.
  \<^item> \<open>Registration\<close>, \<open>Registration_Facts\<close>: \<open>roles.py\<close>, \<open>registration.py\<close>, \<open>jam_role.py\<close>. \<open>Manifests\<close>, \<open>Role_Config\<close>:
    \<open>role_config.py\<close>, \<open>function_view.py\<close>. \<open>Rooms\<close>, \<open>Room_Facts\<close>: \<open>room_profile.py\<close>, \<open>rooms.py\<close>, \<open>room_binding.py\<close>.
    \<open>Device_Pool\<close>: \<open>device_pool.py\<close>.
  \<^item> \<open>Engine_State\<close> (the record of \<open>GameServer\<close>, the Bit as a record of hooks on a hidden state, the sinks as an
    oracle), \<open>Engine_Dispatch\<close>, \<open>Engine_Control\<close>, \<open>Engine_Run\<close>: \<open>engine.py\<close>, \<open>bit.py\<close>, \<open>state.py\<close>; facts in
    \<open>Engine_Frames\<close>, \<open>Engine_Lifecycle\<close>, \<open>Engine_Facts\<close>.
  \<^item> \<open>Timed_Queue\<close>, \<open>Queue_Refinement\<close>: \<open>timed_queue.py\<close> and its abstract specification, a bag of dated payloads.
    \<open>Pixel_Wire\<close>: \<open>pixel_wire.py\<close>. \<open>Midi\<close>, \<open>Midi_Write\<close>: \<open>midifile.py\<close>. \<open>Sequencer\<close>, \<open>Sequencer_Facts\<close>,
    \<open>Sequencer_Notes\<close>: \<open>sequencer.py\<close>.
  \<^item> \<open>Lobby\<close>, \<open>Lobby_Runtime\<close>: \<open>lobby.py\<close>, \<open>start_condition.py\<close>, \<open>src/devicelink/lobby_runtime.py\<close>, \<open>breath.py\<close>.
  \<^item> \<open>Agent_State\<close>, \<open>Agent_Render\<close>, \<open>Agent_Room\<close>, \<open>Agent_Inbound\<close>: \<open>src/devicelink/agent.py\<close>; facts in
    \<open>Agent_Facts\<close> and \<open>Agent_Release\<close>. \<open>Device_Protocol\<close>: \<open>src/devicelink/protocol.py\<close>. \<open>Shroom_Client\<close>,
    \<open>Beat_Link\<close>, \<open>Link_Monitor\<close>: the device's side of the link and the agent's loss monitor. \<open>Artnet_Sink\<close>:
    \<open>src/devicelink/artnet_sink.py\<close>.
  \<^item> \<open>Audio\<close>, \<open>Audio_Pool\<close>, \<open>Audio_Synth\<close>: \<open>src/control/audio.py\<close> and \<open>src/harness/arco_synth.py\<close>.
  \<^item> \<open>Teardown\<close>, \<open>Process\<close>, \<open>Terrarium\<close>, \<open>Terrarium_Facts\<close>: \<open>teardown.py\<close>, \<open>run_profile.py\<close>, \<open>process.py\<close>,
    \<open>arco_process.py\<close>, \<open>terrarium.py\<close>, \<open>simulator_process.py\<close>. \<open>Run_Record\<close>: \<open>run_record.py\<close>.
  \<^item> \<open>Terrarium_Config\<close>, \<open>Catalog\<close>, \<open>Config_Facts\<close>: \<open>terrarium_config.py\<close> and \<open>catalog.py\<close>. \<open>Bit_Config\<close>: \<open>bit_config.py\<close>.
    \<open>Bit_Registry\<close>, \<open>Prepare\<close>: \<open>bit_registry.py\<close> and \<open>prepare.py\<close>.
  \<^item> \<open>Wire_Json\<close>, \<open>Capture\<close>, \<open>Capture_Facts\<close>, \<open>Capture_Runs\<close>: \<open>wire_json.py\<close>, \<open>src/capture/trace.py\<close> and \<open>store.py\<close>,
    \<open>src/bits/capture/\<close>.
  \<^item> \<open>Uplink\<close>, \<open>Uplink_Facts\<close>: \<open>src/uplink/\<close>.
  \<^item> \<open>Minigame\<close>, \<open>Minigame_Facts\<close>, \<open>Minigame_Engine\<close> and \<open>Metronome\<close>, \<open>Metronome_Facts\<close>, \<open>Metronome_Play\<close>,
    \<open>Deux_Ara_Drop\<close>, \<open>Deux_Facts\<close>: three Bits, \<open>src/bits/minigame/\<close>, \<open>src/bits/metronome/\<close> and \<open>src/bits/deux_ara_drop/\<close>, the
    first also as the hooks the engine calls. \<open>Tick_Pacer\<close>: \<open>src/harness/tick_pacer.py\<close>.

  An object of the source is a record, a method a function from the record (and what the world answers) to the new
  record and what was emitted, returned or raised. An exception is a value: \<open>outcome\<close>, an option, a sum, or a flag
  where nothing is returned.

  \<^bold>\<open>What the lemmas show\<close>. For each component that keeps state, an invariant of all runs, by an interpretation of
  \<open>machine\<close> on its own step function: the engine's lifecycle and what is held in each state; the counters of
  registration; the Terrarium's Room and processes; the agent's sessions, fades and mutes; the queues, the link, the
  sequencer, the Art-Net sinks, the capture store, the Bits. On these rest the safety claims (a granted handshake is justified, a muted
  device stays silent, nothing lights a blackout, a broker cannot take the Room down, no journalled completion is
  lost, no two outputs write one universe, no channel has two owners), the liveness claims with their bounds
  (a release is told within 200 renders, an abort comes back, keepalives are kept, the metronome ends), the readers
  (accepted declarations, Rooms, configurations and manifests satisfy what the program relies on; MIDI and telemetry
  round trips, the latter from the producer's batch to the file on disk) and the equivalences (queue and bag, any tick
  rate and one step, the beats and their schedule). Where
  the code does not do what it means to, a theorem or lemma states what it does; the manifest lists these as findings.

  \<^bold>\<open>Interfaces\<close>. \<open>liveness_directory\<close> (what the engine's reaping needs of a device pool), \<open>time_release\<close> and
  \<open>refinement\<close> (the timed queue), \<open>voice_pool\<close> (what the audio bridge needs of a pool, interpreted for the synthesizer
  and for the in-process double), \<open>playable\<close> (what the metronome needs of a rhythm), \<open>process_table\<close> (what the stale sweep needs of the operating
  system) and \<open>machine\<close>.

  \<^bold>\<open>Loops, bounds and fuel\<close>. Nothing is cut off by fuel. Loops over lists are structural, the others are \<open>function\<close>s
  with a measure (the beats of the metronome and of the sequencer, the chunks of MIDI and telemetry). The three loops
  that wait on the world (\<open>wait_until\<close>, \<open>ready_loop\<close>, \<open>reset_loop\<close>) are partial, and the claim that they end under a
  clock that advances is a theorem (\<open>no_false_ready\<close>); so is \<open>window_from\<close> of the sequencer. Bytes of pixels and MIDI
  are 8-bit words where the code folds or masks them; Python's integers are \<open>int\<close>.

  \<^bold>\<open>Abstractions, everywhere\<close>. A float is an exact rational, an infinity or a NaN: rounding of IEEE arithmetic is left
  out, comparisons with a NaN are not. The clock is read once for an operation and is an argument. A set whose order
  the code does not use is a list in insertion order. A code point above 255 has no counterpart. Log lines, the texts of
  refusals and printed markers are left out; that a refusal happens, and of which kind, is not.

  \<^bold>\<open>Not modelled\<close>, and why.

  \<^item> luxaeterna (rendering of light manifests, Art-Net frames), o2lite and pyarco: outside the repository; they are
    parameters (a record of session functions, a list of socket fates, an oracle of raised calls).
    \<open>src/devicelink/o2_transport.py\<close> and \<open>src/harness/device_bridge.py\<close> are their adapters.
  \<^item> The Console (\<open>src/console/\<close>), its read-outs in the agent, the web page server and the views of Rooms
    (\<open>room_view.py\<close>, \<open>join_info.py\<close>, \<open>design_bench.py\<close>): HTTP, files and JSON for a browser,
    over state that is modelled.
  \<^item> Boot, stack runners and benches of \<open>src/harness/\<close>: command lines, processes, ptys and signals. Of the
    Arco process the stopping, the readiness probe and its reset are modelled.
  \<^item> Files and formats: TOML and JSON text (the decoded value is the argument), GLB models, directories (what a scan finds
    and what a write leaves is a value), the contract kit, the evaluation of recorded gestures, \<open>src/tools/\<close>.
  \<^item> The other Bits: \<open>chase\<close>, \<open>rev1\<close>, \<open>solotest\<close>, \<open>test\<close>; the engine's theorems hold for every
    record of hooks, hence for them.
\<close>

end
